(* ===== verification/Prelude.thy ===== *)
theory Prelude
  imports Main "HOL-Library.AList" "HOL-Library.Char_ord" "HOL-Library.List_Lexorder"
begin

text \<open>
  Shared vocabulary of the development: results of code that may raise (a sum whose left side
  is the exception), Python dictionaries as association lists in insertion order, decimal
  printing of integers, and the generic list facts that the component theories use.
\<close>

section \<open>Results of code that may raise\<close>

text \<open>A computation that may raise \<open>'e\<close> or return \<open>'a\<close> has type \<open>'e + 'a\<close>.\<close>

named_theorems result_simps

definition bind_result :: "'e + 'a \<Rightarrow> ('a \<Rightarrow> 'e + 'b) \<Rightarrow> 'e + 'b" where
  "bind_result r k = (case r of Inl e \<Rightarrow> Inl e | Inr x \<Rightarrow> k x)"

lemma bind_result_Inl [simp]: "bind_result (Inl e) k = Inl e"
  by (simp add: bind_result_def)

lemma bind_result_Inr [simp]: "bind_result (Inr x) k = k x"
  by (simp add: bind_result_def)

lemma bind_result_eq_Inr [result_simps]:
  "bind_result r k = Inr y \<longleftrightarrow> (\<exists>x. r = Inr x \<and> k x = Inr y)"
  by (cases r) auto

lemma bind_result_eq_Inl [result_simps]:
  "bind_result r k = Inl e \<longleftrightarrow> r = Inl e \<or> (\<exists>x. r = Inr x \<and> k x = Inl e)"
  by (cases r) auto

lemma bind_result_cong [fundef_cong]:
  "r = r' \<Longrightarrow> (\<And>x. r' = Inr x \<Longrightarrow> k x = k' x) \<Longrightarrow> bind_result r k = bind_result r' k'"
  by (cases r') auto

text \<open>A loop that applies a raising function to each element, stopping at the first exception.\<close>

fun map_result :: "('a \<Rightarrow> 'e + 'b) \<Rightarrow> 'a list \<Rightarrow> 'e + 'b list" where
  "map_result f [] = Inr []"
| "map_result f (x # xs) =
     bind_result (f x) (\<lambda>y. bind_result (map_result f xs) (\<lambda>ys. Inr (y # ys)))"

lemma map_result_cong [fundef_cong]:
  "xs = ys \<Longrightarrow> (\<And>x. x \<in> set ys \<Longrightarrow> f x = g x) \<Longrightarrow> map_result f xs = map_result g ys"
proof (induction ys arbitrary: xs)
  case Nil
  then show ?case by simp
next
  case (Cons y ys)
  then have "map_result f ys = map_result g ys" by simp
  with Cons.prems show ?case by simp
qed

lemma map_result_Inr_length: "map_result f xs = Inr ys \<Longrightarrow> length ys = length xs"
  by (induction xs arbitrary: ys) (auto simp: result_simps)

lemma map_result_Inr_nth:
  "map_result f xs = Inr ys \<Longrightarrow> i < length xs \<Longrightarrow> f (xs ! i) = Inr (ys ! i)"
  by (induction xs arbitrary: ys i) (auto simp: result_simps nth_Cons split: nat.splits)

lemma map_result_Inr_set:
  "map_result f xs = Inr ys \<Longrightarrow> y \<in> set ys \<Longrightarrow> \<exists>x \<in> set xs. f x = Inr y"
  by (induction xs arbitrary: ys) (auto simp: result_simps)

lemma map_result_Inr_ex:
  "map_result f xs = Inr ys \<Longrightarrow> x \<in> set xs \<Longrightarrow> \<exists>y \<in> set ys. f x = Inr y"
  by (induction xs arbitrary: ys) (auto simp: result_simps)

lemma map_result_all_Inr:
  "(\<And>x. x \<in> set xs \<Longrightarrow> f x = Inr (g x)) \<Longrightarrow> map_result f xs = Inr (map g xs)"
  by (induction xs) auto

lemma map_result_map: "map_result f (map g xs) = map_result (\<lambda>x. f (g x)) xs"
  by (induction xs) auto

text \<open>A loop that also threads a state.\<close>

fun fold_result :: "('a \<Rightarrow> 's \<Rightarrow> 'e + 'b \<times> 's) \<Rightarrow> 'a list \<Rightarrow> 's \<Rightarrow> 'e + 'b list \<times> 's" where
  "fold_result f [] st = Inr ([], st)"
| "fold_result f (x # xs) st =
     bind_result (f x st) (\<lambda>(y, st1).
     bind_result (fold_result f xs st1) (\<lambda>(ys, st2). Inr (y # ys, st2)))"

lemma fold_result_cong [fundef_cong]:
  "xs = ys \<Longrightarrow> st = st' \<Longrightarrow> (\<And>x s. x \<in> set ys \<Longrightarrow> f x s = g x s) \<Longrightarrow>
   fold_result f xs st = fold_result g ys st'"
proof (induction ys arbitrary: xs st st')
  case Nil
  then show ?case by simp
next
  case (Cons y ys)
  then have "fold_result f ys s = fold_result g ys s" for s by simp
  with Cons.prems show ?case by simp
qed

text \<open>An invariant of the state, and a property of every result, carried through the loop.\<close>

lemma fold_result_invariant:
  assumes "fold_result f xs st = Inr (ys, st')" and "I st"
    and "\<And>x s y s'. x \<in> set xs \<Longrightarrow> I s \<Longrightarrow> f x s = Inr (y, s') \<Longrightarrow> I s' \<and> P y"
  shows "I st' \<and> (\<forall>y \<in> set ys. P y) \<and> length ys = length xs"
  using assms
proof (induction xs arbitrary: st ys)
  case Nil
  then show ?case by simp
next
  case (Cons x xs)
  from Cons.prems(1) obtain y s1 ys' where y: "f x st = Inr (y, s1)"
    and ys': "fold_result f xs s1 = Inr (ys', st')" and ys: "ys = y # ys'"
    by (auto simp: result_simps)
  from Cons.prems(3) [of x st y s1] Cons.prems(2) y have "I s1" "P y" by auto
  with Cons.IH [OF ys'] Cons.prems(3) ys show ?case by auto
qed

lemma fold_result_total:
  assumes "I st" and "\<And>x s. x \<in> set xs \<Longrightarrow> I s \<Longrightarrow> \<exists>y s'. f x s = Inr (y, s') \<and> I s'"
  shows "\<exists>ys st'. fold_result f xs st = Inr (ys, st') \<and> I st'"
  using assms
proof (induction xs arbitrary: st)
  case Nil
  then show ?case by simp
next
  case (Cons x xs)
  then obtain y s1 where y: "f x st = Inr (y, s1)" "I s1" by force
  with Cons.IH [of s1] Cons.prems(2) obtain ys st' where
    "fold_result f xs s1 = Inr (ys, st')" "I st'" by auto
  with y show ?case by simp
qed

lemma fold_result_Inl:
  assumes "fold_result f xs st = Inl e" and "I st"
    and "\<And>x s y s'. x \<in> set xs \<Longrightarrow> I s \<Longrightarrow> f x s = Inr (y, s') \<Longrightarrow> I s'"
  shows "\<exists>x \<in> set xs. \<exists>s. I s \<and> f x s = Inl e"
  using assms
proof (induction xs arbitrary: st)
  case Nil
  then show ?case by simp
next
  case (Cons x xs)
  show ?case
  proof (cases "f x st")
    case (Inl e')
    with Cons.prems show ?thesis by auto
  next
    case (Inr r)
    obtain y s1 where r: "r = (y, s1)" by (cases r)
    with Inr Cons.prems(1) have "fold_result f xs s1 = Inl e" by (auto simp: result_simps)
    moreover have "I s1" using Cons.prems(3) [OF list.set_intros(1) Cons.prems(2)] Inr r by blast
    ultimately have "\<exists>x \<in> set xs. \<exists>s. I s \<and> f x s = Inl e"
      using Cons.prems(3) [OF list.set_intros(2)] by (rule Cons.IH)
    then show ?thesis by auto
  qed
qed

section \<open>Dictionaries\<close>

text \<open>
  A Python dictionary keeps its keys in insertion order; storing to a present key keeps its
  place, a new key goes to the end, which is what \<open>AList.update\<close> does.
\<close>

type_synonym 'v dict = "(string \<times> 'v) list"

abbreviation dict_get :: "('k \<times> 'v) list \<Rightarrow> 'k \<Rightarrow> 'v option" where
  "dict_get d k \<equiv> map_of d k"

abbreviation dict_put :: "'k \<Rightarrow> 'v \<Rightarrow> ('k \<times> 'v) list \<Rightarrow> ('k \<times> 'v) list" where
  "dict_put k v d \<equiv> AList.update k v d"

abbreviation dict_keys :: "('k \<times> 'v) list \<Rightarrow> 'k list" where
  "dict_keys d \<equiv> map fst d"

lemma dict_get_put [simp]: "dict_get (dict_put k v d) k' = (if k' = k then Some v else dict_get d k')"
  by (simp add: update_conv')

text \<open>Ordering the keys, and changing the values, of a dictionary.\<close>

lemma insort_map_snd:
  "insort_key fst (fst x, g (snd x)) (map (\<lambda>kv. (fst kv, g (snd kv))) ys)
     = map (\<lambda>kv. (fst kv, g (snd kv))) (insort_key fst x ys)"
  by (induction ys) auto

lemma sort_map_snd:
  "sort_key fst (map (\<lambda>kv. (fst kv, g (snd kv))) d) = map (\<lambda>kv. (fst kv, g (snd kv))) (sort_key fst d)"
  by (induction d) (auto simp: insort_map_snd)

lemma sort_sort_key [simp]: "sort_key f (sort_key f xs) = sort_key f xs"
  by (rule sort_key_id_if_sorted) (rule sorted_sort_key)

lemma dict_put_new: "k \<notin> set (dict_keys d) \<Longrightarrow> dict_put k v d = d @ [(k, v)]"
  by (induction d) auto

lemma distinct_keys_sort [simp]: "distinct (dict_keys (sort_key fst d)) = distinct (dict_keys d)"
  by (simp add: distinct_map)

lemma dict_get_sort: "distinct (dict_keys d) \<Longrightarrow> dict_get (sort_key fst d) = dict_get d"
  by (simp add: map_of_inject_set)

lemma dict_get_map_snd: "dict_get (map (\<lambda>kv. (fst kv, g (snd kv))) d) k = map_option g (dict_get d k)"
  by (induction d) auto

section \<open>Decimal numerals\<close>

definition digit_char :: "nat \<Rightarrow> char" where
  "digit_char n = ''0123456789'' ! n"

fun string_of_nat :: "nat \<Rightarrow> string" where
  "string_of_nat n =
     (if n < 10 then [digit_char n] else string_of_nat (n div 10) @ [digit_char (n mod 10)])"

declare string_of_nat.simps [simp del]

definition string_of_int :: "int \<Rightarrow> string" where
  "string_of_int i =
     (if i < 0 then CHR ''-'' # string_of_nat (nat (- i)) else string_of_nat (nat i))"

lemma digit_char_eq_iff: "m < 10 \<Longrightarrow> n < 10 \<Longrightarrow> digit_char m = digit_char n \<longleftrightarrow> m = n"
  unfolding digit_char_def by (rule nth_eq_iff_index_eq) simp_all

lemma string_of_nat_nonempty [simp]: "string_of_nat n \<noteq> []"
  by (subst string_of_nat.simps) simp

lemma Nil_neq_string_of_nat [simp]: "[] \<noteq> string_of_nat n"
  by (metis string_of_nat_nonempty)

lemma string_of_nat_small: "n < 10 \<Longrightarrow> string_of_nat n = [digit_char n]"
  by (subst string_of_nat.simps) simp

lemma string_of_nat_large:
  "10 \<le> n \<Longrightarrow> string_of_nat n = string_of_nat (n div 10) @ [digit_char (n mod 10)]"
  by (subst string_of_nat.simps) simp

lemma string_of_nat_eq_iff [simp]: "string_of_nat m = string_of_nat n \<longleftrightarrow> m = n"
proof (induction m arbitrary: n rule: string_of_nat.induct)
  case (1 m)
  consider (small) "m < 10" "n < 10" | (left) "m < 10" "10 \<le> n"
    | (right) "10 \<le> m" "n < 10" | (large) "10 \<le> m" "10 \<le> n"
    by linarith
  then show ?case
  proof cases
    case large
    then have "string_of_nat m = string_of_nat n \<longleftrightarrow>
        string_of_nat (m div 10) = string_of_nat (n div 10) \<and>
        digit_char (m mod 10) = digit_char (n mod 10)"
      by (simp add: string_of_nat_large)
    also have "\<dots> \<longleftrightarrow> m div 10 = n div 10 \<and> m mod 10 = n mod 10"
      using large "1.IH" by (simp add: digit_char_eq_iff)
    also have "\<dots> \<longleftrightarrow> m = n" by (metis div_mult_mod_eq)
    finally show ?thesis .
  qed (auto simp: string_of_nat_small string_of_nat_large digit_char_eq_iff)
qed

section \<open>Lists\<close>

definition sorted_unique :: "'a::linorder list \<Rightarrow> 'a list" where
  \<comment> \<open>\<open>sorted(set(xs))\<close>\<close>
  "sorted_unique xs = sort (remdups xs)"

lemma set_sorted_unique [simp]: "set (sorted_unique xs) = set xs"
  by (simp add: sorted_unique_def)

lemma sorted_sorted_unique [simp]: "sorted (sorted_unique xs)"
  by (simp add: sorted_unique_def)

lemma distinct_sorted_unique [simp]: "distinct (sorted_unique xs)"
  by (simp add: sorted_unique_def)

lemma sorted_unique_eq_Nil [simp]: "sorted_unique xs = [] \<longleftrightarrow> xs = []"
  by (metis set_empty set_sorted_unique)

definition ordered_unique :: "'a list \<Rightarrow> 'a list" where
  \<comment> \<open>\<open>tuple(dict.fromkeys(xs))\<close>: the first occurrence of each value\<close>
  "ordered_unique xs = rev (remdups (rev xs))"

lemma set_ordered_unique [simp]: "set (ordered_unique xs) = set xs"
  by (simp add: ordered_unique_def)

lemma distinct_ordered_unique [simp]: "distinct (ordered_unique xs)"
  by (simp add: ordered_unique_def)

lemma ordered_unique_eq_Nil [simp]: "ordered_unique xs = [] \<longleftrightarrow> xs = []"
  by (simp add: ordered_unique_def)

lemma sorted_unique_cong: "set xs = set ys \<Longrightarrow> sorted_unique xs = sorted_unique ys"
  by (rule sorted_distinct_set_unique) simp_all

lemma length_filter_mono: "(\<And>x. P x \<Longrightarrow> Q x) \<Longrightarrow> length (filter P xs) \<le> length (filter Q xs)"
  by (induction xs) (auto intro: le_SucI)

end
