(* ===== verification/Json.thy ===== *)
theory Json
  imports Prelude
begin

text \<open>
  Python values as \<^verbatim>\<open>json.loads\<close> produces them, the dynamic type tests the code applies to
  them, and the two string operations its validators rely on: \<^verbatim>\<open>str.strip\<close> and
  \<^verbatim>\<open>int(s, 16)\<close>. Strings are lists of ASCII code points.
\<close>

section \<open>Values\<close>

text \<open>
  \<open>JFloat\<close> carries the float's source text: no code modelled here computes with a float that
  came from JSON, it only rejects one where an integer is required.
\<close>

datatype json =
    JNull
  | JBool bool
  | JInt int
  | JFloat string
  | JStr string
  | JArr "json list"
  | JObj "(string \<times> json) list"

text \<open>\<^verbatim>\<open>d.get(key)\<close>: a missing key reads as \<^verbatim>\<open>None\<close>.\<close>

definition jget :: "json dict \<Rightarrow> string \<Rightarrow> json" where
  "jget d k = (case map_of d k of None \<Rightarrow> JNull | Some v \<Rightarrow> v)"

text \<open>Lists and dictionaries are unhashable: using one as a set member or key raises TypeError.\<close>

fun hashable :: "json \<Rightarrow> bool" where
  "hashable (JArr _) = False"
| "hashable (JObj _) = False"
| "hashable _ = True"

fun is_obj :: "json \<Rightarrow> bool" where
  "is_obj (JObj _) = True"
| "is_obj _ = False"

text \<open>\<^verbatim>\<open>isinstance(v, str) and v\<close>.\<close>

fun nonempty_str :: "json \<Rightarrow> bool" where
  "nonempty_str (JStr s) = (s \<noteq> [])"
| "nonempty_str _ = False"

text \<open>\<^verbatim>\<open>set(payload) - allowed\<close> is not empty.\<close>

definition has_extra_fields :: "json dict \<Rightarrow> string list \<Rightarrow> bool" where
  "has_extra_fields d allowed = (\<exists>k \<in> set (dict_keys d). k \<notin> set allowed)"

lemma jget_Cons [simp]: "jget ((k, v) # d) k' = (if k = k' then v else jget d k')"
  by (simp add: jget_def)

lemma jget_Nil [simp]: "jget [] k = JNull"
  by (simp add: jget_def)

section \<open>A measure for the compiler's recursion\<close>

text \<open>
  Arrays weigh more than objects: expanding a primitive replaces its argument array by at most
  two operator objects, which lowers the weight.
\<close>

fun json_weight :: "json \<Rightarrow> nat" where
  "json_weight (JArr xs) = 3 + sum_list (map json_weight xs)"
| "json_weight (JObj d) = 1 + sum_list (map (\<lambda>kv. json_weight (snd kv)) d)"
| "json_weight _ = 0"

lemma json_weight_map_of:
  "map_of d k = Some v \<Longrightarrow> json_weight v \<le> sum_list (map (\<lambda>kv. json_weight (snd kv)) d)"
  by (induction d) (auto split: if_splits)

lemma json_weight_jget: "json_weight (jget d k) < json_weight (JObj d)"
  by (auto simp: jget_def less_Suc_eq_le dest: json_weight_map_of split: option.splits)

lemma json_weight_member: "x \<in> set xs \<Longrightarrow> json_weight x \<le> sum_list (map json_weight xs)"
  by (induction xs) auto

section \<open>Optional values and lists\<close>

text \<open>
  A value that may be absent is \<^verbatim>\<open>None\<close> in a dictionary; reading it back keeps only a value of the
  expected type.
\<close>

definition option_json :: "string option \<Rightarrow> json" where
  "option_json v = (case v of None \<Rightarrow> JNull | Some s \<Rightarrow> JStr s)"

definition int_option :: "int option \<Rightarrow> json" where
  "int_option v = (case v of None \<Rightarrow> JNull | Some i \<Rightarrow> JInt i)"

definition bool_option :: "bool option \<Rightarrow> json" where
  "bool_option v = (case v of None \<Rightarrow> JNull | Some b \<Rightarrow> JBool b)"

definition obj_option :: "json dict option \<Rightarrow> json" where
  "obj_option v = (case v of None \<Rightarrow> JNull | Some d \<Rightarrow> JObj d)"

definition json_option :: "json option \<Rightarrow> json" where
  "json_option v = (case v of None \<Rightarrow> JNull | Some x \<Rightarrow> x)"

definition strings_json :: "string list \<Rightarrow> json" where
  "strings_json xs = JArr (map JStr xs)"

definition as_string :: "json \<Rightarrow> string option" where
  "as_string v = (case v of JStr s \<Rightarrow> Some s | _ \<Rightarrow> None)"

definition as_bool :: "json \<Rightarrow> bool option" where
  "as_bool v = (case v of JBool b \<Rightarrow> Some b | _ \<Rightarrow> None)"

definition as_object :: "json \<Rightarrow> json dict option" where
  "as_object v = (case v of JObj d \<Rightarrow> Some d | _ \<Rightarrow> None)"

lemma option_readers [simp]:
  "as_string (option_json r) = r" "as_bool (bool_option b) = b" "as_object (obj_option d) = d"
  by (simp_all add: as_string_def option_json_def as_bool_def bool_option_def as_object_def obj_option_def
      split: option.split)

text \<open>The integer a value compares as: a Boolean is an integer.\<close>

fun number_value :: "json \<Rightarrow> int option" where
  "number_value (JInt i) = Some i"
| "number_value (JBool b) = Some (if b then 1 else 0)"
| "number_value _ = None"

text \<open>\<^verbatim>\<open>value == 1\<close> as Python compares: true equals one.\<close>

definition equals_one :: "json \<Rightarrow> bool" where
  "equals_one v = (v = JInt 1 \<or> v = JBool True \<or> v = JFloat ''1.0'')"

section \<open>String operations of the validators\<close>

text \<open>\<^verbatim>\<open>str.lower\<close> on ASCII.\<close>

definition ascii_lower :: "char \<Rightarrow> char" where
  "ascii_lower c = (let n = of_char c :: nat in if 65 \<le> n \<and> n \<le> 90 then char_of (n + 32) else c)"

text \<open>\<^verbatim>\<open>s.strip()\<close> is non-empty: some character is not white space.\<close>

definition py_isspace :: "char \<Rightarrow> bool" where
  "py_isspace c = (let n = of_char c :: nat in (9 \<le> n \<and> n \<le> 13) \<or> (28 \<le> n \<and> n \<le> 32))"

definition strip_nonempty :: "string \<Rightarrow> bool" where
  "strip_nonempty s = list_ex (\<lambda>c. \<not> py_isspace c) s"

text \<open>
  \<^verbatim>\<open>int(s, 16)\<close>: white space on both sides, a sign, an optional \<^verbatim>\<open>0x\<close> (which may be followed
  by one underscore), then hexadecimal digits with single underscores between them. \<open>None\<close>
  is the ValueError.
\<close>

definition c_isspace :: "char \<Rightarrow> bool" where
  "c_isspace c = (let n = of_char c :: nat in (9 \<le> n \<and> n \<le> 13) \<or> n = 32)"

definition hex_digit :: "char \<Rightarrow> nat option" where
  "hex_digit c = (let n = of_char c :: nat in
     if 48 \<le> n \<and> n \<le> 57 then Some (n - 48)
     else if 97 \<le> n \<and> n \<le> 102 then Some (n - 87)
     else if 65 \<le> n \<and> n \<le> 70 then Some (n - 55)
     else None)"

text \<open>\<open>hex_digits prev acc s\<close>: \<open>prev\<close> says the previous character was a digit.\<close>

fun hex_digits :: "bool \<Rightarrow> nat \<Rightarrow> string \<Rightarrow> nat option" where
  "hex_digits prev acc [] = (if prev then Some acc else None)"
| "hex_digits prev acc (c # cs) =
     (if c = CHR ''_'' then (if prev then hex_digits False acc cs else None)
      else case hex_digit c of
             None \<Rightarrow> (if prev \<and> list_all c_isspace (c # cs) then Some acc else None)
           | Some d \<Rightarrow> hex_digits True (16 * acc + d) cs)"

fun hex_body :: "string \<Rightarrow> nat option" where
  "hex_body (z # x # cs) =
     (if z = CHR ''0'' \<and> (x = CHR ''x'' \<or> x = CHR ''X'')
      then (case cs of
              c # cs' \<Rightarrow> hex_digits False 0 (if c = CHR ''_'' then cs' else cs)
            | [] \<Rightarrow> None)
      else hex_digits False 0 (z # x # cs))"
| "hex_body s = hex_digits False 0 s"

definition py_int16 :: "string \<Rightarrow> int option" where
  "py_int16 s = (case dropWhile c_isspace s of
       [] \<Rightarrow> None
     | c # cs \<Rightarrow>
         if c = CHR ''+'' then map_option int (hex_body cs)
         else if c = CHR ''-'' then map_option (\<lambda>n. - int n) (hex_body cs)
         else map_option int (hex_body (c # cs)))"

text \<open>\<^verbatim>\<open>_is_hex_literal\<close> (compiler) and \<^verbatim>\<open>_hex_string\<close> (evaluator): the same test.\<close>

definition is_hex_literal :: "json \<Rightarrow> nat \<Rightarrow> bool" where
  "is_hex_literal v n = (case v of
       JStr s \<Rightarrow> length s = n \<and> take 2 s = ''0x'' \<and> py_int16 (drop 2 s) \<noteq> None
     | _ \<Rightarrow> False)"

text \<open>A lowercase SHA-256 digest: 64 hexadecimal digits, \<^verbatim>\<open>[0-9a-f]{64}\<close>.\<close>

definition sha_digest :: "string \<Rightarrow> bool" where
  "sha_digest s = (length s = 64 \<and> list_all (\<lambda>c. c \<in> set ''0123456789abcdef'') s)"

end
