(* ===== verification/Xlir_Model.thy ===== *)
theory Xlir_Model
  imports Json
begin

text \<open>
  The typed AST of XLIR invariants (\<^verbatim>\<open>xlir/model.py\<close>): value types, expressions, the invariant
  record, and the canonical dictionary form (\<^verbatim>\<open>as_dict\<close>) that the code hashes. The operator and
  state fields are strings, as in the source, so that an AST not built by the compiler is
  representable.
\<close>

section \<open>Value types\<close>

datatype value_type = BOOL | UINT256 | INT256 | ADDRESS | BYTES32

fun value_type_name :: "value_type \<Rightarrow> string" where
  "value_type_name BOOL = ''bool''"
| "value_type_name UINT256 = ''uint256''"
| "value_type_name INT256 = ''int256''"
| "value_type_name ADDRESS = ''address''"
| "value_type_name BYTES32 = ''bytes32''"

text \<open>\<^verbatim>\<open>ValueType(value)\<close>; \<open>None\<close> is the ValueError, which any other value raises.\<close>

definition ValueType :: "json \<Rightarrow> value_type option" where
  "ValueType v =
     (if v = JStr ''bool'' then Some BOOL
      else if v = JStr ''uint256'' then Some UINT256
      else if v = JStr ''int256'' then Some INT256
      else if v = JStr ''address'' then Some ADDRESS
      else if v = JStr ''bytes32'' then Some BYTES32
      else None)"

lemma ValueType_name [simp]: "ValueType (JStr (value_type_name t)) = Some t"
  by (cases t) (simp_all add: ValueType_def)

lemma ValueType_eq_Some: "ValueType v = Some t \<longleftrightarrow> v = JStr (value_type_name t)"
  by (cases t) (auto simp: ValueType_def)

text \<open>\<^verbatim>\<open>_integer_types\<close>.\<close>

definition integer_type :: "value_type \<Rightarrow> bool" where
  "integer_type t = (t = UINT256 \<or> t = INT256)"

section \<open>Expressions\<close>

datatype literal = Literal (lit_value: json) (lit_type: value_type)

datatype expr =
    SymbolRef string value_type string string
      \<comment> \<open>\<open>symbol_id\<close>, type, domain, state\<close>
  | BoundRef string value_type
  | Lit literal
  | Unary string expr value_type
  | Binary string expr expr value_type
  | Quantifier string string value_type "literal list" expr value_type
      \<comment> \<open>operator, variable, variable type, domain, body, type\<close>
  | Temporal string expr "int option" value_type
      \<comment> \<open>operator, operand, horizon, type\<close>

fun vtype :: "expr \<Rightarrow> value_type" where
  "vtype (SymbolRef sid t dm st) = t"
| "vtype (BoundRef x t) = t"
| "vtype (Lit l) = lit_type l"
| "vtype (Unary op e t) = t"
| "vtype (Binary op l r t) = t"
| "vtype (Quantifier op x xt lits e t) = t"
| "vtype (Temporal op e h t) = t"

record invariant =
  invariant_id :: "string option"
  inv_body :: expr
  canonical_hash :: string
  node_count :: nat

section \<open>Canonical dictionaries\<close>

definition type_json :: "value_type \<Rightarrow> json" where
  "type_json t = JStr (value_type_name t)"

definition literal_as_dict :: "literal \<Rightarrow> json" where
  "literal_as_dict l =
     JObj [(''kind'', JStr ''literal''), (''type'', type_json (lit_type l)), (''value'', lit_value l)]"

fun as_dict :: "expr \<Rightarrow> json" where
  "as_dict (SymbolRef sid t dm st) =
     JObj [(''kind'', JStr ''symbol''), (''symbol_id'', JStr sid), (''type'', type_json t),
           (''domain'', JStr dm), (''state'', JStr st)]"
| "as_dict (Lit l) = literal_as_dict l"
| "as_dict (Unary op e t) =
     JObj [(''kind'', JStr ''unary''), (''operator'', JStr op), (''operand'', as_dict e),
           (''type'', type_json t)]"
| "as_dict (Binary op l r t) =
     JObj [(''kind'', JStr ''binary''), (''operator'', JStr op), (''left'', as_dict l),
           (''right'', as_dict r), (''type'', type_json t)]"
| "as_dict (BoundRef x t) =
     JObj [(''kind'', JStr ''bound''), (''variable'', JStr x), (''type'', type_json t)]"
| "as_dict (Quantifier op x xt lits e t) =
     JObj [(''kind'', JStr ''quantifier''), (''operator'', JStr op), (''variable'', JStr x),
           (''variable_type'', type_json xt), (''domain'', JArr (map literal_as_dict lits)),
           (''body'', as_dict e), (''type'', type_json t)]"
| "as_dict (Temporal op e h t) =
     JObj ([(''kind'', JStr ''temporal''), (''operator'', JStr op), (''operand'', as_dict e),
            (''type'', type_json t)]
           @ (case h of None \<Rightarrow> [] | Some n \<Rightarrow> [(''horizon'', JInt n)]))"

definition invariant_as_dict :: "invariant \<Rightarrow> json" where
  "invariant_as_dict i =
     JObj [(''kind'', JStr ''invariant''),
           (''invariant_id'', case invariant_id i of None \<Rightarrow> JNull | Some s \<Rightarrow> JStr s),
           (''body'', as_dict (inv_body i)),
           (''canonical_hash'', JStr (canonical_hash i)),
           (''node_count'', JInt (int (node_count i)))]"

text \<open>The canonical form loses nothing: equal dictionaries come from equal expressions.\<close>

lemma type_json_eq_iff [simp]: "type_json t = type_json u \<longleftrightarrow> t = u"
  unfolding type_json_def by (metis ValueType_name json.inject(4) option.inject)

lemma literal_as_dict_eq_iff [simp]: "literal_as_dict l = literal_as_dict m \<longleftrightarrow> l = m"
  by (cases l; cases m) (auto simp: literal_as_dict_def)

lemma inj_literal_as_dict: "inj literal_as_dict"
  by (simp add: inj_def)

lemma as_dict_inject: "as_dict e = as_dict f \<Longrightarrow> e = f"
proof (induction e arbitrary: f)
  case (SymbolRef sid t dm st)
  then show ?case by (cases f) (auto simp: literal_as_dict_def)
next
  case (BoundRef x t)
  then show ?case by (cases f) (auto simp: literal_as_dict_def)
next
  case (Lit l)
  then show ?case by (cases f) (auto simp: literal_as_dict_def literal.expand)
next
  case (Unary op e t)
  then show ?case by (cases f) (auto simp: literal_as_dict_def)
next
  case (Binary op l r t)
  then show ?case by (cases f) (auto simp: literal_as_dict_def)
next
  case (Quantifier op x xt lits e t)
  then show ?case
    by (cases f) (auto simp: literal_as_dict_def inj_map_eq_map [OF inj_literal_as_dict])
next
  case (Temporal op e h t)
  then show ?case by (cases f) (auto simp: literal_as_dict_def split: option.splits)
qed

section \<open>Size of an expression\<close>

text \<open>
  The nodes the compiler counts against its budget: every expression node, and every literal of
  a quantifier's domain.
\<close>

fun ast_nodes :: "expr \<Rightarrow> nat" where
  "ast_nodes (Unary op e t) = Suc (ast_nodes e)"
| "ast_nodes (Binary op l r t) = Suc (ast_nodes l + ast_nodes r)"
| "ast_nodes (Quantifier op x xt lits e t) = Suc (length lits + ast_nodes e)"
| "ast_nodes (Temporal op e h t) = Suc (ast_nodes e)"
| "ast_nodes _ = 1"

lemma ast_nodes_pos [simp]: "0 < ast_nodes e"
  by (cases e) auto

section \<open>Referenced symbols\<close>

text \<open>The binding keys \<open>(symbol_id, state, domain)\<close> an expression reads.\<close>

fun symbol_keys :: "expr \<Rightarrow> (string \<times> string \<times> string) set" where
  "symbol_keys (SymbolRef sid t dm st) = {(sid, st, dm)}"
| "symbol_keys (Unary op e t) = symbol_keys e"
| "symbol_keys (Binary op l r t) = symbol_keys l \<union> symbol_keys r"
| "symbol_keys (Quantifier op x xt lits e t) = symbol_keys e"
| "symbol_keys (Temporal op e h t) = symbol_keys e"
| "symbol_keys _ = {}"

end
