(* ===== verification/Xlir_Primitives.thy ===== *)
theory Xlir_Primitives
  imports Xlir_Model
begin

text \<open>
  Macro expansion of the XLIR primitives (\<^verbatim>\<open>xlir/primitives.py\<close>). An expansion only rearranges
  the argument objects under core operators and lowers the weight of the payload, which is why
  the compiler's recursion through it ends.
\<close>

datatype primitive_error = UnsupportedPrimitive | WrongArity | ArgumentNotObject

definition primitive_arity :: "(string \<times> nat) list" where
  "primitive_arity =
     [(''justified_destination_effect'', 2), (''replay_exclusion'', 1),
      (''quorum_authorization'', 1), (''proof_binding'', 2),
      (''callback_noninterference'', 1), (''challenge_window'', 2),
      (''intent_consumption'', 1)]"

definition unary_obj :: "string \<Rightarrow> json \<Rightarrow> json" where
  "unary_obj op e =
     JObj [(''kind'', JStr ''unary''), (''operator'', JStr op), (''operand'', e)]"

definition binary_obj :: "string \<Rightarrow> json \<Rightarrow> json \<Rightarrow> json" where
  "binary_obj op l r =
     JObj [(''kind'', JStr ''binary''), (''operator'', JStr op), (''left'', l), (''right'', r)]"

definition expand_arguments :: "string \<Rightarrow> json list \<Rightarrow> primitive_error + json" where
  "expand_arguments pid args =
     (if pid = ''justified_destination_effect'' then Inr (binary_obj ''implies'' (args ! 0) (args ! 1))
      else if pid = ''replay_exclusion'' then Inr (unary_obj ''not'' (args ! 0))
      else if pid = ''quorum_authorization'' then Inr (args ! 0)
      else if pid = ''proof_binding'' then Inr (binary_obj ''implies'' (args ! 0) (args ! 1))
      else if pid = ''callback_noninterference'' then Inr (unary_obj ''not'' (args ! 0))
      else if pid = ''challenge_window''
        then Inr (binary_obj ''implies'' (args ! 0) (unary_obj ''not'' (args ! 1)))
      else if pid = ''intent_consumption'' then Inr (args ! 0)
      else Inl UnsupportedPrimitive)"

definition expand_primitive :: "json dict \<Rightarrow> primitive_error + json" where
  "expand_primitive raw = (case jget raw ''primitive_id'' of
       JStr pid \<Rightarrow>
         (case map_of primitive_arity pid of
            None \<Rightarrow> Inl UnsupportedPrimitive
          | Some n \<Rightarrow>
              (case jget raw ''arguments'' of
                 JArr args \<Rightarrow>
                   if length args \<noteq> n then Inl WrongArity
                   else if \<not> list_all is_obj args then Inl ArgumentNotObject
                   else expand_arguments pid args
               | _ \<Rightarrow> Inl WrongArity))
     | _ \<Rightarrow> Inl UnsupportedPrimitive)"

lemma expand_primitive_Inr:
  assumes "expand_primitive raw = Inr e"
  obtains pid n args where "jget raw ''primitive_id'' = JStr pid"
    and "map_of primitive_arity pid = Some n" and "jget raw ''arguments'' = JArr args"
    and "length args = n" and "list_all is_obj args" and "expand_arguments pid args = Inr e"
  using assms by (auto simp: expand_primitive_def split: json.splits option.splits if_splits)

lemma primitive_arity_cases:
  assumes "map_of primitive_arity pid = Some n" and "length args = n"
  obtains (one) a where "args = [a]"
      and "pid \<in> {''replay_exclusion'', ''quorum_authorization'', ''callback_noninterference'',
                  ''intent_consumption''}"
  | (two) a b where "args = [a, b]"
      and "pid \<in> {''justified_destination_effect'', ''proof_binding'', ''challenge_window''}"
  using assms
  by (auto simp: primitive_arity_def length_Suc_conv Suc_length_conv numeral_2_eq_2 split: if_splits)

lemma json_weight_unary_obj: "json_weight (unary_obj op e) = 1 + json_weight e"
  by (simp add: unary_obj_def)

lemma json_weight_binary_obj: "json_weight (binary_obj op l r) = 1 + json_weight l + json_weight r"
  by (simp add: binary_obj_def)

lemma expand_primitive_weight:
  assumes "expand_primitive raw = Inr e"
  shows "json_weight e < json_weight (JObj raw)"
proof -
  from assms obtain pid n args where pid: "map_of primitive_arity pid = Some n" "length args = n"
    and args: "jget raw ''arguments'' = JArr args" and e: "expand_arguments pid args = Inr e"
    by (rule expand_primitive_Inr)
  have "json_weight (JArr args) < json_weight (JObj raw)"
    by (metis args json_weight_jget)
  moreover from pid have "json_weight e \<le> json_weight (JArr args)"
  proof (cases rule: primitive_arity_cases)
    case one
    with e show ?thesis
      by (auto simp: expand_arguments_def json_weight_unary_obj)
  next
    case two
    with e show ?thesis
      by (auto simp: expand_arguments_def json_weight_unary_obj json_weight_binary_obj)
  qed
  ultimately show ?thesis by linarith
qed

end
