(* ===== verification/Xlir_Compiler.thy ===== *)
theory Xlir_Compiler
  imports Xlir_Primitives
begin

text \<open>
  The proposal compiler (\<^verbatim>\<open>xlir/compiler.py\<close>). Each method of \<^verbatim>\<open>XLIRCompiler\<close> is one
  definition; a method that calls back \<^verbatim>\<open>self._expression\<close> takes it as its first argument
  \<open>rec\<close>, and \<open>compile_expression\<close> ties the knot. The mutable fields \<^verbatim>\<open>_nodes\<close> and
  \<^verbatim>\<open>_bound_variables\<close> are the state \<open>cstate\<close> that every method passes on. A diagnostic keeps
  its path and code; its free-text message is not modelled.
\<close>

section \<open>State, exceptions and results\<close>

record artifact_symbol =
  sym_id :: string
  sym_path :: string
  sym_name :: string
  sym_domain :: string
  sym_kind :: string
  sym_type :: string

datatype diagnostic = Diagnostic (diag_path: string) (diag_code: string)

text \<open>
  The exceptions that can leave a method: \<^verbatim>\<open>_CompileFailure\<close>, and the TypeError that Python
  raises when an unhashable value (a list or an object) is looked up in a set or a dictionary.
\<close>

datatype compile_exn = CompileFailure diagnostic | UnhashableTypeError

abbreviation fail :: "string \<Rightarrow> string \<Rightarrow> compile_exn + 'a" where
  "fail path code \<equiv> Inl (CompileFailure (Diagnostic path code))"

record compilation_result =
  comp_invariant :: "invariant option"
  abstained :: bool
  diagnostics :: "diagnostic list"

definition comp_ok :: "compilation_result \<Rightarrow> bool" where
  "comp_ok r = (comp_invariant r \<noteq> None \<and> diagnostics r = [])"

record xlir_compiler =
  symbols :: "string \<rightharpoonup> artifact_symbol"
  maximum_ast_nodes :: nat

record cstate =
  nodes :: nat
  bound_variables :: "string \<rightharpoonup> value_type"

datatype compiler_error = NodeLimitNotPositive | DuplicateSymbolId

definition make_compiler :: "(string \<rightharpoonup> artifact_symbol) \<Rightarrow> int \<Rightarrow> compiler_error + xlir_compiler" where
  "make_compiler syms limit =
     (if limit < 1 then Inl NodeLimitNotPositive
      else Inr \<lparr>symbols = syms, maximum_ast_nodes = nat limit\<rparr>)"

definition from_symbols :: "artifact_symbol list \<Rightarrow> int \<Rightarrow> compiler_error + xlir_compiler" where
  "from_symbols syms limit =
     (if \<not> distinct (map sym_id syms) then Inl DuplicateSymbolId
      else make_compiler (map_of (map (\<lambda>s. (sym_id s, s)) syms)) limit)"

section \<open>Operator classes\<close>

definition unary_ops :: "string list" where
  "unary_ops = [''not'', ''neg'', ''bitnot'']"
definition boolean_binary :: "string list" where
  "boolean_binary = [''and'', ''or'', ''implies'']"
definition comparison_binary :: "string list" where
  "comparison_binary = [''eq'', ''neq'']"
definition ordering_binary :: "string list" where
  "ordering_binary = [''ge'', ''le'', ''gt'', ''lt'']"
definition arithmetic_binary :: "string list" where
  "arithmetic_binary = [''add'', ''sub'', ''mul'', ''div'', ''mod'']"
definition bitwise_binary :: "string list" where
  "bitwise_binary = [''band'', ''bor'', ''bxor'']"
definition shift_binary :: "string list" where
  "shift_binary = [''shl'', ''shr'', ''sar'']"

lemmas operator_classes =
  unary_ops_def boolean_binary_def comparison_binary_def ordering_binary_def
  arithmetic_binary_def bitwise_binary_def shift_binary_def

text \<open>
  \<^verbatim>\<open>operator in self._cls\<close> for a JSON value: TypeError when it is unhashable, otherwise membership
  of a string.
\<close>

definition op_in :: "json \<Rightarrow> string list \<Rightarrow> bool" where
  "op_in v ops = (case v of JStr s \<Rightarrow> s \<in> set ops | _ \<Rightarrow> False)"

section \<open>Leaves: symbols, bound references, literals\<close>

definition compile_symbol ::
    "xlir_compiler \<Rightarrow> json dict \<Rightarrow> string \<Rightarrow> compile_exn + expr" where
  "compile_symbol C raw path = (case jget raw ''symbol_id'' of
       JStr sid \<Rightarrow>
         if sid = [] then fail (path @ ''.symbol_id'') ''invalid_symbol''
         else (case symbols C sid of
                 None \<Rightarrow> fail (path @ ''.symbol_id'') ''unresolved_symbol''
               | Some symbol \<Rightarrow>
                   let state = jget raw ''state'' in
                   if \<not> hashable state then Inl UnhashableTypeError
                   else if \<not> op_in state [''pre'', ''post'']
                     then fail (path @ ''.state'') ''invalid_state''
                   else (case ValueType (JStr (sym_type symbol)) of
                           None \<Rightarrow> fail (path @ ''.symbol_id'') ''unsupported_symbol_type''
                         | Some t \<Rightarrow>
                             (case state of
                                JStr st \<Rightarrow> Inr (SymbolRef sid t (sym_domain symbol) st)
                              | _ \<Rightarrow> fail (path @ ''.state'') ''invalid_state'')))
     | _ \<Rightarrow> fail (path @ ''.symbol_id'') ''invalid_symbol'')"

definition compile_bound_ref ::
    "cstate \<Rightarrow> json dict \<Rightarrow> string \<Rightarrow> compile_exn + expr" where
  "compile_bound_ref st raw path = (case jget raw ''variable'' of
       JStr x \<Rightarrow>
         if x = [] then fail (path @ ''.variable'') ''invalid_bound_variable''
         else (case bound_variables st x of
                 None \<Rightarrow> fail (path @ ''.variable'') ''unresolved_bound_variable''
               | Some declared \<Rightarrow>
                   (case ValueType (jget raw ''type'') of
                      None \<Rightarrow> fail (path @ ''.type'') ''invalid_bound_type''
                    | Some t \<Rightarrow>
                        if t \<noteq> declared then fail (path @ ''.type'') ''type_mismatch''
                        else Inr (BoundRef x t)))
     | _ \<Rightarrow> fail (path @ ''.variable'') ''invalid_bound_variable'')"

text \<open>The literal test; the evaluator's \<^verbatim>\<open>_validate_value\<close> makes the same one on values.\<close>

definition valid_value :: "json \<Rightarrow> value_type \<Rightarrow> bool" where
  "valid_value v t = (case t of
       BOOL \<Rightarrow> (case v of JBool _ \<Rightarrow> True | _ \<Rightarrow> False)
     | UINT256 \<Rightarrow> (case v of JInt i \<Rightarrow> 0 \<le> i \<and> i < 2 ^ 256 | _ \<Rightarrow> False)
     | INT256 \<Rightarrow> (case v of JInt i \<Rightarrow> - (2 ^ 255) \<le> i \<and> i < 2 ^ 255 | _ \<Rightarrow> False)
     | ADDRESS \<Rightarrow> is_hex_literal v 42
     | BYTES32 \<Rightarrow> is_hex_literal v 66)"

definition compile_literal :: "json dict \<Rightarrow> string \<Rightarrow> compile_exn + literal" where
  "compile_literal raw path = (case ValueType (jget raw ''type'') of
       None \<Rightarrow> fail (path @ ''.type'') ''invalid_literal_type''
     | Some t \<Rightarrow>
         if \<not> valid_value (jget raw ''value'') t then fail path ''invalid_literal''
         else Inr (Literal (jget raw ''value'') t))"

section \<open>Operators\<close>

type_synonym expression_method = "json \<Rightarrow> string \<Rightarrow> cstate \<Rightarrow> compile_exn + expr \<times> cstate"

definition unary_result :: "string \<Rightarrow> expr \<Rightarrow> string \<Rightarrow> compile_exn + expr" where
  "unary_result op operand path =
     (if op = ''not'' then
        (if vtype operand \<noteq> BOOL then fail path ''type_mismatch''
         else Inr (Unary op operand BOOL))
      else if \<not> integer_type (vtype operand) then fail path ''type_mismatch''
      else if op = ''neg'' \<and> vtype operand \<noteq> INT256 then fail path ''type_mismatch''
      else Inr (Unary op operand (vtype operand)))"

definition compile_unary ::
    "expression_method \<Rightarrow> json dict \<Rightarrow> string \<Rightarrow> cstate \<Rightarrow> compile_exn + expr \<times> cstate" where
  "compile_unary rec raw path st =
     (let operator = jget raw ''operator'' in
      if \<not> hashable operator then Inl UnhashableTypeError
      else if \<not> op_in operator unary_ops then fail (path @ ''.operator'') ''invalid_unary_operator''
      else bind_result (rec (jget raw ''operand'') (path @ ''.operand'') st) (\<lambda>(operand, st1).
           case operator of
             JStr op \<Rightarrow> bind_result (unary_result op operand path) (\<lambda>e. Inr (e, st1))
           | _ \<Rightarrow> fail (path @ ''.operator'') ''invalid_unary_operator''))"

definition binary_result :: "string \<Rightarrow> expr \<Rightarrow> expr \<Rightarrow> string \<Rightarrow> compile_exn + expr" where
  "binary_result op left right path =
     (let lt = vtype left; rt = vtype right in
      if op \<in> set boolean_binary then
        (if lt \<noteq> BOOL \<or> rt \<noteq> BOOL then fail path ''type_mismatch''
         else Inr (Binary op left right BOOL))
      else if op \<in> set comparison_binary then
        (if lt \<noteq> rt then fail path ''type_mismatch'' else Inr (Binary op left right BOOL))
      else if op \<in> set ordering_binary then
        (if \<not> integer_type lt \<or> rt \<noteq> lt then fail path ''type_mismatch''
         else Inr (Binary op left right BOOL))
      else if op \<in> set arithmetic_binary then
        (if \<not> integer_type lt \<or> rt \<noteq> lt then fail path ''type_mismatch''
         else Inr (Binary op left right lt))
      else if op \<in> set bitwise_binary then
        (if \<not> integer_type lt \<or> rt \<noteq> lt then fail path ''type_mismatch''
         else Inr (Binary op left right lt))
      else if op \<in> set shift_binary then
        (if \<not> (if op = ''sar'' then lt = INT256 else integer_type lt) \<or> rt \<noteq> UINT256
         then fail path ''type_mismatch''
         else Inr (Binary op left right lt))
      else fail (path @ ''.operator'') ''invalid_binary_operator'')"

definition compile_binary ::
    "expression_method \<Rightarrow> json dict \<Rightarrow> string \<Rightarrow> cstate \<Rightarrow> compile_exn + expr \<times> cstate" where
  "compile_binary rec raw path st =
     bind_result (rec (jget raw ''left'') (path @ ''.left'') st) (\<lambda>(left, st1).
     bind_result (rec (jget raw ''right'') (path @ ''.right'') st1) (\<lambda>(right, st2).
       let operator = jget raw ''operator'' in
       if \<not> hashable operator then Inl UnhashableTypeError
       else case operator of
              JStr op \<Rightarrow> bind_result (binary_result op left right path) (\<lambda>e. Inr (e, st2))
            | _ \<Rightarrow> fail (path @ ''.operator'') ''invalid_binary_operator''))"

section \<open>Quantifiers and temporal operators\<close>

definition index_path :: "string \<Rightarrow> nat \<Rightarrow> string" where
  "index_path path i = path @ ''.domain['' @ string_of_nat i @ '']''"

text \<open>The loop over the domain array: one node per literal, then its type.\<close>

fun compile_domain ::
    "xlir_compiler \<Rightarrow> value_type \<Rightarrow> string \<Rightarrow> nat \<Rightarrow> json list \<Rightarrow> cstate
       \<Rightarrow> compile_exn + literal list \<times> cstate" where
  "compile_domain C t path i [] st = Inr ([], st)"
| "compile_domain C t path i (item # items) st =
     (let st1 = st\<lparr>nodes := Suc (nodes st)\<rparr>; p = index_path path i in
      if maximum_ast_nodes C < nodes st1 then fail p ''ast_limit''
      else case item of
             JObj d \<Rightarrow>
               bind_result (compile_literal d p) (\<lambda>l.
                 if lit_type l \<noteq> t then fail p ''type_mismatch''
                 else bind_result (compile_domain C t path (Suc i) items st1) (\<lambda>(ls, st2).
                        Inr (l # ls, st2)))
           | _ \<Rightarrow> fail (path @ ''.domain'') ''invalid_quantifier_domain'')"

definition compile_quantifier ::
    "xlir_compiler \<Rightarrow> expression_method \<Rightarrow> json dict \<Rightarrow> string \<Rightarrow> cstate
       \<Rightarrow> compile_exn + expr \<times> cstate" where
  "compile_quantifier C rec raw path st =
     (let operator = jget raw ''operator'' in
      if \<not> hashable operator then Inl UnhashableTypeError
      else case operator of JStr op \<Rightarrow>
        if op \<notin> {''forall'', ''exists''} then fail (path @ ''.operator'') ''invalid_quantifier_operator''
        else (case jget raw ''variable'' of
          JStr x \<Rightarrow>
            if x = [] \<or> bound_variables st x \<noteq> None then fail (path @ ''.variable'') ''invalid_bound_variable''
            else (case ValueType (jget raw ''variable_type'') of
              None \<Rightarrow> fail (path @ ''.variable_type'') ''invalid_bound_type''
            | Some t \<Rightarrow>
                (case jget raw ''domain'' of
                  JArr items \<Rightarrow>
                    if \<not> list_all is_obj items then fail (path @ ''.domain'') ''invalid_quantifier_domain''
                    else bind_result (compile_domain C t path 0 items st) (\<lambda>(lits, st1).
                         let previous = bound_variables st1 x;
                             scoped = st1\<lparr>bound_variables := (bound_variables st1)(x \<mapsto> t)\<rparr> in
                         bind_result (rec (jget raw ''body'') (path @ ''.body'') scoped) (\<lambda>(bd, st2).
                         let restored = st2\<lparr>bound_variables := (bound_variables st2)(x := previous)\<rparr> in
                         if vtype bd \<noteq> BOOL then fail (path @ ''.body'') ''non_boolean_quantifier_body''
                         else Inr (Quantifier op x t lits bd BOOL, restored)))
                | _ \<Rightarrow> fail (path @ ''.domain'') ''invalid_quantifier_domain''))
        | _ \<Rightarrow> fail (path @ ''.variable'') ''invalid_bound_variable'')
      | _ \<Rightarrow> fail (path @ ''.operator'') ''invalid_quantifier_operator'')"

text \<open>
  The horizon: \<open>once\<close> needs a non-negative integer (a Boolean is not one), \<open>globally\<close> must
  not have one.
\<close>

definition temporal_horizon :: "string \<Rightarrow> json \<Rightarrow> string \<Rightarrow> compile_exn + int option" where
  "temporal_horizon op horizon path =
     (if op = ''once'' then
        (case horizon of
           JInt h \<Rightarrow> if h < 0 then fail (path @ ''.horizon'') ''invalid_temporal_horizon'' else Inr (Some h)
         | _ \<Rightarrow> fail (path @ ''.horizon'') ''invalid_temporal_horizon'')
      else if horizon \<noteq> JNull then fail (path @ ''.horizon'') ''unexpected_temporal_horizon''
      else Inr None)"

definition compile_temporal ::
    "expression_method \<Rightarrow> json dict \<Rightarrow> string \<Rightarrow> cstate \<Rightarrow> compile_exn + expr \<times> cstate" where
  "compile_temporal rec raw path st =
     (let operator = jget raw ''operator'' in
      if \<not> hashable operator then Inl UnhashableTypeError
      else case operator of JStr op \<Rightarrow>
        if op \<notin> {''once'', ''globally''} then fail (path @ ''.operator'') ''invalid_temporal_operator''
        else bind_result (temporal_horizon op (jget raw ''horizon'') path) (\<lambda>h.
             bind_result (rec (jget raw ''operand'') (path @ ''.operand'') st) (\<lambda>(operand, st1).
             if vtype operand \<noteq> BOOL then fail (path @ ''.operand'') ''type_mismatch''
             else Inr (Temporal op operand h BOOL, st1)))
      | _ \<Rightarrow> fail (path @ ''.operator'') ''invalid_temporal_operator'')"

section \<open>Congruence: a method uses \<open>rec\<close> on fields of its object only\<close>

lemma compile_unary_cong [fundef_cong]:
  "raw = raw' \<Longrightarrow> path = path' \<Longrightarrow> st = st' \<Longrightarrow>
   (\<And>k p s. rec (jget raw' k) p s = rec' (jget raw' k) p s) \<Longrightarrow>
   compile_unary rec raw path st = compile_unary rec' raw' path' st'"
  by (simp add: compile_unary_def Let_def split: json.split)

lemma compile_binary_cong [fundef_cong]:
  "raw = raw' \<Longrightarrow> path = path' \<Longrightarrow> st = st' \<Longrightarrow>
   (\<And>k p s. rec (jget raw' k) p s = rec' (jget raw' k) p s) \<Longrightarrow>
   compile_binary rec raw path st = compile_binary rec' raw' path' st'"
  by (simp add: compile_binary_def)

lemma compile_quantifier_cong [fundef_cong]:
  "C = C' \<Longrightarrow> raw = raw' \<Longrightarrow> path = path' \<Longrightarrow> st = st' \<Longrightarrow>
   (\<And>k p s. rec (jget raw' k) p s = rec' (jget raw' k) p s) \<Longrightarrow>
   compile_quantifier C rec raw path st = compile_quantifier C' rec' raw' path' st'"
  by (simp add: compile_quantifier_def Let_def split: json.split option.split)

lemma compile_temporal_cong [fundef_cong]:
  "raw = raw' \<Longrightarrow> path = path' \<Longrightarrow> st = st' \<Longrightarrow>
   (\<And>k p s. rec (jget raw' k) p s = rec' (jget raw' k) p s) \<Longrightarrow>
   compile_temporal rec raw path st = compile_temporal rec' raw' path' st'"
  by (simp add: compile_temporal_def Let_def split: json.split)

section \<open>Expressions\<close>

definition allowed_fields :: "(string \<times> string list) list" where
  "allowed_fields =
     [(''symbol'', [''kind'', ''symbol_id'', ''state'']),
      (''bound'', [''kind'', ''variable'', ''type'']),
      (''literal'', [''kind'', ''type'', ''value'']),
      (''unary'', [''kind'', ''operator'', ''operand'']),
      (''binary'', [''kind'', ''operator'', ''left'', ''right'']),
      (''quantifier'', [''kind'', ''operator'', ''variable'', ''variable_type'', ''domain'', ''body'']),
      (''temporal'', [''kind'', ''operator'', ''operand'', ''horizon'']),
      (''primitive'', [''kind'', ''primitive_id'', ''arguments''])]"

text \<open>The field check of one expression object; \<open>Inr\<close> is the kind that was found.\<close>

definition expression_kind :: "json dict \<Rightarrow> string \<Rightarrow> compile_exn + string" where
  "expression_kind raw path =
     (let kind = jget raw ''kind'' in
      if \<not> hashable kind then Inl UnhashableTypeError
      else case kind of
             JStr k \<Rightarrow>
               (case map_of allowed_fields k of
                  None \<Rightarrow> fail (path @ ''.kind'') ''invalid_expression_kind''
                | Some allowed \<Rightarrow>
                    if has_extra_fields raw allowed then fail path ''unsupported_fields'' else Inr k)
           | _ \<Rightarrow> fail (path @ ''.kind'') ''invalid_expression_kind'')"

function compile_expression ::
    "xlir_compiler \<Rightarrow> json \<Rightarrow> string \<Rightarrow> cstate \<Rightarrow> compile_exn + expr \<times> cstate" where
  "compile_expression C rawv path st0 =
     (let st = st0\<lparr>nodes := Suc (nodes st0)\<rparr> in
      if maximum_ast_nodes C < nodes st then fail path ''ast_limit''
      else case rawv of
        JObj raw \<Rightarrow>
          bind_result (expression_kind raw path) (\<lambda>kind.
          if kind = ''symbol'' then bind_result (compile_symbol C raw path) (\<lambda>e. Inr (e, st))
          else if kind = ''bound'' then bind_result (compile_bound_ref st raw path) (\<lambda>e. Inr (e, st))
          else if kind = ''literal'' then bind_result (compile_literal raw path) (\<lambda>l. Inr (Lit l, st))
          else if kind = ''unary'' then
            compile_unary (\<lambda>j p s. compile_expression C j p s) raw path st
          else if kind = ''binary'' then
            compile_binary (\<lambda>j p s. compile_expression C j p s) raw path st
          else if kind = ''quantifier'' then
            compile_quantifier C (\<lambda>j p s. compile_expression C j p s) raw path st
          else if kind = ''temporal'' then
            compile_temporal (\<lambda>j p s. compile_expression C j p s) raw path st
          else (case expand_primitive raw of
                  Inl _ \<Rightarrow> fail path ''invalid_primitive''
                | Inr expanded \<Rightarrow> compile_expression C expanded (path @ ''.expanded'') st))
      | _ \<Rightarrow> fail path ''invalid_expression'')"
  by pat_completeness auto
termination
  by (relation "measure (\<lambda>(C, j, path, st). json_weight j)")
     (auto simp: json_weight_jget expand_primitive_weight simp del: json_weight.simps)

declare compile_expression.simps [simp del]

section \<open>Compiling a proposal\<close>

definition failure_result :: "diagnostic \<Rightarrow> compilation_result" where
  "failure_result d = \<lparr>comp_invariant = None, abstained = False, diagnostics = [d]\<rparr>"

definition compile_abstain :: "json dict \<Rightarrow> compilation_result" where
  "compile_abstain payload =
     (if has_extra_fields payload [''abstain'', ''reason'']
      then failure_result (Diagnostic ''$'' ''invalid_abstain'')
      else case jget payload ''reason'' of
             JStr reason \<Rightarrow>
               if strip_nonempty reason
               then \<lparr>comp_invariant = None, abstained = True, diagnostics = []\<rparr>
               else failure_result (Diagnostic ''$.reason'' ''missing_reason'')
           | _ \<Rightarrow> failure_result (Diagnostic ''$.reason'' ''missing_reason''))"

text \<open>\<open>sha\<close> is \<^verbatim>\<open>sha256_hex\<close>, the hash of a value's canonical JSON.\<close>

definition compile_body ::
    "(json \<Rightarrow> string) \<Rightarrow> xlir_compiler \<Rightarrow> json dict \<Rightarrow> compile_exn + invariant" where
  "compile_body sha C payload =
     (if jget payload ''kind'' \<noteq> JStr ''invariant'' then fail ''$.kind'' ''invalid_kind''
      else if has_extra_fields payload [''kind'', ''invariant_id'', ''body'']
        then fail ''$'' ''unsupported_fields''
      else let iid = jget payload ''invariant_id'' in
        if iid \<noteq> JNull \<and> \<not> nonempty_str iid then fail ''$.invariant_id'' ''invalid_identifier''
        else
          bind_result (compile_expression C (jget payload ''body'') ''$.body''
                         \<lparr>nodes = 0, bound_variables = Map.empty\<rparr>) (\<lambda>(bd, st).
          if vtype bd \<noteq> BOOL then fail ''$.body'' ''non_boolean_root''
          else Inr \<lparr>invariant_id = (case iid of JStr s \<Rightarrow> Some s | _ \<Rightarrow> None),
                    inv_body = bd,
                    canonical_hash = sha (as_dict bd),
                    node_count = nodes st\<rparr>))"

definition compile :: "(json \<Rightarrow> string) \<Rightarrow> xlir_compiler \<Rightarrow> json \<Rightarrow> compilation_result" where
  "compile sha C payloadv = (case payloadv of
       JObj payload \<Rightarrow>
         if jget payload ''abstain'' = JBool True then compile_abstain payload
         else (case compile_body sha C payload of
                 Inl (CompileFailure d) \<Rightarrow> failure_result d
               | Inl UnhashableTypeError \<Rightarrow> failure_result (Diagnostic ''$'' ''malformed_payload'')
               | Inr i \<Rightarrow> \<lparr>comp_invariant = Some i, abstained = False, diagnostics = []\<rparr>)
     | _ \<Rightarrow> failure_result (Diagnostic ''$'' ''invalid_payload''))"

end
