(* ===== verification/Xlir_Typing.thy ===== *)
theory Xlir_Typing
  imports Xlir_Compiler
begin

text \<open>
  What the compiler promises, stated without the compiler: a declarative typing judgement for
  grounded XLIR expressions. The compiler accepts only expressions of this judgement
  (soundness), and it accepts the proposal text of every such expression and rebuilds it
  (completeness, a parse/print round trip).
\<close>

section \<open>The typing judgement\<close>

inductive xlir_typed ::
    "(string \<rightharpoonup> artifact_symbol) \<Rightarrow> (string \<rightharpoonup> value_type) \<Rightarrow> expr \<Rightarrow> value_type \<Rightarrow> bool"
  for \<Sigma> :: "string \<rightharpoonup> artifact_symbol" where
  symbol: "sid \<noteq> [] \<Longrightarrow> \<Sigma> sid = Some a \<Longrightarrow> ValueType (JStr (sym_type a)) = Some t \<Longrightarrow>
     st \<in> {''pre'', ''post''} \<Longrightarrow> xlir_typed \<Sigma> \<Gamma> (SymbolRef sid t (sym_domain a) st) t"
| bound: "x \<noteq> [] \<Longrightarrow> \<Gamma> x = Some t \<Longrightarrow> xlir_typed \<Sigma> \<Gamma> (BoundRef x t) t"
| lit: "valid_value v t \<Longrightarrow> xlir_typed \<Sigma> \<Gamma> (Lit (Literal v t)) t"
| not: "xlir_typed \<Sigma> \<Gamma> e BOOL \<Longrightarrow> xlir_typed \<Sigma> \<Gamma> (Unary ''not'' e BOOL) BOOL"
| neg: "xlir_typed \<Sigma> \<Gamma> e INT256 \<Longrightarrow> xlir_typed \<Sigma> \<Gamma> (Unary ''neg'' e INT256) INT256"
| bitnot: "integer_type t \<Longrightarrow> xlir_typed \<Sigma> \<Gamma> e t \<Longrightarrow> xlir_typed \<Sigma> \<Gamma> (Unary ''bitnot'' e t) t"
| boolean: "op \<in> set boolean_binary \<Longrightarrow> xlir_typed \<Sigma> \<Gamma> l BOOL \<Longrightarrow> xlir_typed \<Sigma> \<Gamma> r BOOL \<Longrightarrow>
     xlir_typed \<Sigma> \<Gamma> (Binary op l r BOOL) BOOL"
| comparison: "op \<in> set comparison_binary \<Longrightarrow> xlir_typed \<Sigma> \<Gamma> l t \<Longrightarrow> xlir_typed \<Sigma> \<Gamma> r t \<Longrightarrow>
     xlir_typed \<Sigma> \<Gamma> (Binary op l r BOOL) BOOL"
| ordering: "op \<in> set ordering_binary \<Longrightarrow> integer_type t \<Longrightarrow> xlir_typed \<Sigma> \<Gamma> l t \<Longrightarrow>
     xlir_typed \<Sigma> \<Gamma> r t \<Longrightarrow> xlir_typed \<Sigma> \<Gamma> (Binary op l r BOOL) BOOL"
| arith: "op \<in> set arithmetic_binary \<union> set bitwise_binary \<Longrightarrow> integer_type t \<Longrightarrow>
     xlir_typed \<Sigma> \<Gamma> l t \<Longrightarrow> xlir_typed \<Sigma> \<Gamma> r t \<Longrightarrow> xlir_typed \<Sigma> \<Gamma> (Binary op l r t) t"
| shift: "op \<in> set shift_binary \<Longrightarrow> integer_type t \<Longrightarrow> (op = ''sar'' \<Longrightarrow> t = INT256) \<Longrightarrow>
     xlir_typed \<Sigma> \<Gamma> l t \<Longrightarrow> xlir_typed \<Sigma> \<Gamma> r UINT256 \<Longrightarrow> xlir_typed \<Sigma> \<Gamma> (Binary op l r t) t"
| quantifier: "op \<in> {''forall'', ''exists''} \<Longrightarrow> x \<noteq> [] \<Longrightarrow> \<Gamma> x = None \<Longrightarrow>
     list_all (\<lambda>l. lit_type l = t \<and> valid_value (lit_value l) t) lits \<Longrightarrow>
     xlir_typed \<Sigma> (\<Gamma>(x \<mapsto> t)) e BOOL \<Longrightarrow> xlir_typed \<Sigma> \<Gamma> (Quantifier op x t lits e BOOL) BOOL"
| once: "0 \<le> h \<Longrightarrow> xlir_typed \<Sigma> \<Gamma> e BOOL \<Longrightarrow>
     xlir_typed \<Sigma> \<Gamma> (Temporal ''once'' e (Some h) BOOL) BOOL"
| globally: "xlir_typed \<Sigma> \<Gamma> e BOOL \<Longrightarrow> xlir_typed \<Sigma> \<Gamma> (Temporal ''globally'' e None BOOL) BOOL"

lemma xlir_typed_vtype: "xlir_typed \<Sigma> \<Gamma> e t \<Longrightarrow> vtype e = t"
  by (induction rule: xlir_typed.induct) simp_all

section \<open>Soundness of the methods\<close>

text \<open>
  What one call of a method guarantees about its result: the expression is typed in the scope
  of the call, the scope is restored, and the node counter has grown by at least the nodes of
  the expression and stays within the limit.
\<close>

definition method_ok :: "xlir_compiler \<Rightarrow> cstate \<Rightarrow> expr \<times> cstate \<Rightarrow> bool" where
  "method_ok C st r = (case r of (e, st') \<Rightarrow>
     xlir_typed (symbols C) (bound_variables st) e (vtype e) \<and>
     bound_variables st' = bound_variables st \<and>
     nodes st + ast_nodes e \<le> Suc (nodes st') \<and>
     nodes st' \<le> maximum_ast_nodes C)"

text \<open>
  \<open>method_ok\<close> is stated for the state after the method's own node was counted; a call of
  \<open>compile_expression\<close> counts that node itself.
\<close>

definition expression_ok :: "xlir_compiler \<Rightarrow> cstate \<Rightarrow> expr \<times> cstate \<Rightarrow> bool" where
  "expression_ok C st r = (case r of (e, st') \<Rightarrow>
     xlir_typed (symbols C) (bound_variables st) e (vtype e) \<and>
     bound_variables st' = bound_variables st \<and>
     nodes st + ast_nodes e \<le> nodes st' \<and>
     nodes st' \<le> maximum_ast_nodes C)"

lemmas ok_defs = method_ok_def expression_ok_def

lemma compile_symbol_ok:
  "compile_symbol C raw path = Inr e \<Longrightarrow> nodes st \<le> maximum_ast_nodes C \<Longrightarrow> method_ok C st (e, st)"
  by (auto simp: compile_symbol_def method_ok_def op_in_def Let_def
      split: json.splits option.splits if_splits intro!: xlir_typed.symbol)

lemma compile_bound_ref_ok:
  "compile_bound_ref st raw path = Inr e \<Longrightarrow> nodes st \<le> maximum_ast_nodes C \<Longrightarrow>
   method_ok C st (e, st)"
  by (auto simp: compile_bound_ref_def method_ok_def
      split: json.splits option.splits if_splits intro!: xlir_typed.bound)

lemma compile_literal_valid:
  "compile_literal raw path = Inr l \<Longrightarrow> valid_value (lit_value l) (lit_type l)"
  by (auto simp: compile_literal_def split: option.splits if_splits)

lemma compile_literal_ok:
  "compile_literal raw path = Inr l \<Longrightarrow> nodes st \<le> maximum_ast_nodes C \<Longrightarrow>
   method_ok C st (Lit l, st)"
  using compile_literal_valid [of raw path l]
  by (cases l) (simp add: method_ok_def xlir_typed.lit)

lemma unary_result_typed:
  assumes "unary_result op e path = Inr u" "op \<in> set unary_ops"
    and "xlir_typed \<Sigma> \<Gamma> e (vtype e)"
  shows "xlir_typed \<Sigma> \<Gamma> u (vtype u) \<and> ast_nodes u = Suc (ast_nodes e)"
  using assms
  by (auto simp: unary_result_def unary_ops_def split: if_splits
      intro: xlir_typed.not xlir_typed.neg xlir_typed.bitnot)

lemma binary_result_Inr:
  "binary_result op l r path = Inr b \<Longrightarrow>
     op \<in> set boolean_binary \<and> vtype l = BOOL \<and> vtype r = BOOL \<and> b = Binary op l r BOOL
   \<or> op \<in> set comparison_binary \<and> vtype r = vtype l \<and> b = Binary op l r BOOL
   \<or> op \<in> set ordering_binary \<and> integer_type (vtype l) \<and> vtype r = vtype l \<and> b = Binary op l r BOOL
   \<or> op \<in> set arithmetic_binary \<union> set bitwise_binary \<and> integer_type (vtype l) \<and>
       vtype r = vtype l \<and> b = Binary op l r (vtype l)
   \<or> op \<in> set shift_binary \<and> integer_type (vtype l) \<and> (op = ''sar'' \<longrightarrow> vtype l = INT256) \<and>
       vtype r = UINT256 \<and> b = Binary op l r (vtype l)"
  unfolding binary_result_def Let_def
  by (simp split: if_split_asm add: integer_type_def)

lemma binary_result_Inr_cases:
  assumes "binary_result op l r path = Inr b"
  obtains (boolean) "op \<in> set boolean_binary" "vtype l = BOOL" "vtype r = BOOL"
      "b = Binary op l r BOOL"
  | (comparison) "op \<in> set comparison_binary" "vtype r = vtype l" "b = Binary op l r BOOL"
  | (ordering) "op \<in> set ordering_binary" "integer_type (vtype l)" "vtype r = vtype l"
      "b = Binary op l r BOOL"
  | (arith) "op \<in> set arithmetic_binary \<union> set bitwise_binary" "integer_type (vtype l)"
      "vtype r = vtype l" "b = Binary op l r (vtype l)"
  | (shift) "op \<in> set shift_binary" "integer_type (vtype l)" "op = ''sar'' \<Longrightarrow> vtype l = INT256"
      "vtype r = UINT256" "b = Binary op l r (vtype l)"
  using binary_result_Inr [OF assms] by blast

lemma binary_result_typed:
  assumes "binary_result op l r path = Inr b"
    and "xlir_typed \<Sigma> \<Gamma> l (vtype l)" "xlir_typed \<Sigma> \<Gamma> r (vtype r)"
  shows "xlir_typed \<Sigma> \<Gamma> b (vtype b) \<and> ast_nodes b = Suc (ast_nodes l + ast_nodes r)"
  using assms(1)
proof (cases rule: binary_result_Inr_cases)
  case boolean
  with assms show ?thesis by (simp add: xlir_typed.boolean)
next
  case comparison
  with assms show ?thesis by (auto intro: xlir_typed.comparison)
next
  case ordering
  with assms show ?thesis by (auto intro: xlir_typed.ordering)
next
  case arith
  with assms show ?thesis by (auto intro: xlir_typed.arith)
next
  case shift
  with assms show ?thesis by (auto intro: xlir_typed.shift)
qed

text \<open>The methods with a recursive call: assuming \<open>rec\<close> keeps its promise, they keep theirs.\<close>

lemma compile_unary_ok:
  assumes res: "compile_unary rec raw path st = Inr r"
    and rec: "\<And>k p s r. rec (jget raw k) p s = Inr r \<Longrightarrow> expression_ok C s r"
  shows "method_ok C st r"
proof -
  from res obtain op e st1 u where
    e: "rec (jget raw ''operand'') (path @ ''.operand'') st = Inr (e, st1)"
    and op: "op \<in> set unary_ops" and u: "unary_result op e path = Inr u" and r: "r = (u, st1)"
    by (auto simp: compile_unary_def Let_def op_in_def result_simps split: if_splits json.splits)
  from rec [OF e] have ok: "expression_ok C st (e, st1)" .
  then have "xlir_typed (symbols C) (bound_variables st) e (vtype e)"
    by (simp add: expression_ok_def)
  from unary_result_typed [OF u op this] ok show ?thesis
    by (simp add: r ok_defs)
qed

lemma compile_binary_ok:
  assumes res: "compile_binary rec raw path st = Inr r"
    and rec: "\<And>k p s r. rec (jget raw k) p s = Inr r \<Longrightarrow> expression_ok C s r"
  shows "method_ok C st r"
proof -
  from res obtain op a st1 b st2 u where
    a: "rec (jget raw ''left'') (path @ ''.left'') st = Inr (a, st1)" and
    b: "rec (jget raw ''right'') (path @ ''.right'') st1 = Inr (b, st2)"
    and u: "binary_result op a b path = Inr u" and r: "r = (u, st2)"
    by (auto simp: compile_binary_def Let_def result_simps split: if_splits json.splits)
  from rec [OF a] rec [OF b] have ok: "expression_ok C st (a, st1)" "expression_ok C st1 (b, st2)" .
  then have "xlir_typed (symbols C) (bound_variables st) a (vtype a)"
    and "xlir_typed (symbols C) (bound_variables st) b (vtype b)"
    by (simp_all add: expression_ok_def)
  from binary_result_typed [OF u this] ok show ?thesis
    by (simp add: r ok_defs)
qed

lemma compile_domain_ok:
  "compile_domain C t path i items st = Inr (ls, st') \<Longrightarrow>
   list_all (\<lambda>l. lit_type l = t \<and> valid_value (lit_value l) t) ls \<and>
   bound_variables st' = bound_variables st \<and> nodes st' = nodes st + length ls \<and>
   (ls \<noteq> [] \<longrightarrow> nodes st' \<le> maximum_ast_nodes C)"
proof (induction C t path i items st arbitrary: ls st' rule: compile_domain.induct)
  case (1 C t path i st)
  then show ?case by simp
next
  case (2 C t path i item items st)
  let ?st1 = "st\<lparr>nodes := Suc (nodes st)\<rparr>"
  from "2.prems" obtain d l ls' where d: "item = JObj d"
    and limit: "nodes ?st1 \<le> maximum_ast_nodes C"
    and l: "compile_literal d (index_path path i) = Inr l" "lit_type l = t"
    and rest: "compile_domain C t path (Suc i) items ?st1 = Inr (ls', st')" and ls: "ls = l # ls'"
    by (auto simp: Let_def result_simps split: if_splits json.splits)
  have "list_all (\<lambda>l. lit_type l = t \<and> valid_value (lit_value l) t) ls' \<and>
      bound_variables st' = bound_variables ?st1 \<and> nodes st' = nodes ?st1 + length ls' \<and>
      (ls' \<noteq> [] \<longrightarrow> nodes st' \<le> maximum_ast_nodes C)"
    using "2.IH" [OF refl refl _ d, of l] limit l rest by auto
  with limit l compile_literal_valid [OF l(1)] show ?case
    by (cases "ls' = []") (simp_all add: ls)
qed

lemma compile_quantifier_Inr:
  assumes res: "compile_quantifier C rec raw path st = Inr r"
  obtains op x t items lits st1 b st2 where
    "jget raw ''operator'' = JStr op" "op \<in> {''forall'', ''exists''}"
    "jget raw ''variable'' = JStr x" "x \<noteq> []" "bound_variables st x = None"
    "ValueType (jget raw ''variable_type'') = Some t" "jget raw ''domain'' = JArr items"
    "compile_domain C t path 0 items st = Inr (lits, st1)"
    "rec (jget raw ''body'') (path @ ''.body'')
       (st1\<lparr>bound_variables := (bound_variables st1)(x \<mapsto> t)\<rparr>) = Inr (b, st2)"
    "vtype b = BOOL"
    "r = (Quantifier op x t lits b BOOL,
          st2\<lparr>bound_variables := (bound_variables st2)(x := bound_variables st1 x)\<rparr>)"
proof -
  from res obtain op where op: "jget raw ''operator'' = JStr op" "op \<in> {''forall'', ''exists''}"
    by (auto simp: compile_quantifier_def Let_def split: json.split_asm if_split_asm)
  with res obtain x where x: "jget raw ''variable'' = JStr x" "x \<noteq> []" "bound_variables st x = None"
    by (auto simp: compile_quantifier_def Let_def split: json.split_asm if_split_asm)
  with res op obtain t where t: "ValueType (jget raw ''variable_type'') = Some t"
    by (auto simp: compile_quantifier_def Let_def split: option.split_asm)
  with res op x obtain items where items: "jget raw ''domain'' = JArr items"
    by (auto simp: compile_quantifier_def Let_def split: json.split_asm)
  with res op x t show thesis
    by (auto simp: compile_quantifier_def Let_def result_simps intro!: that split: if_split_asm)
qed

lemma compile_quantifier_ok:
  assumes res: "compile_quantifier C rec raw path st = Inr r"
    and rec: "\<And>k p s r. rec (jget raw k) p s = Inr r \<Longrightarrow> expression_ok C s r"
  shows "method_ok C st r"
  using res
proof (rule compile_quantifier_Inr)
  fix op x t items lits st1 b st2
  assume op: "op \<in> {''forall'', ''exists''}" and x: "x \<noteq> []" "bound_variables st x = None"
    and lits: "compile_domain C t path 0 items st = Inr (lits, st1)"
    and b: "rec (jget raw ''body'') (path @ ''.body'')
              (st1\<lparr>bound_variables := (bound_variables st1)(x \<mapsto> t)\<rparr>) = Inr (b, st2)"
    and vt: "vtype b = BOOL"
    and r: "r = (Quantifier op x t lits b BOOL,
              st2\<lparr>bound_variables := (bound_variables st2)(x := bound_variables st1 x)\<rparr>)"
  from compile_domain_ok [OF lits] have dom: "bound_variables st1 = bound_variables st"
    "nodes st1 = nodes st + length lits"
    "list_all (\<lambda>l. lit_type l = t \<and> valid_value (lit_value l) t) lits" by blast+
  from rec [OF b] have body: "xlir_typed (symbols C) ((bound_variables st)(x \<mapsto> t)) b BOOL"
    "bound_variables st2 = (bound_variables st)(x \<mapsto> t)"
    "nodes st + length lits + ast_nodes b \<le> nodes st2" "nodes st2 \<le> maximum_ast_nodes C"
    by (simp_all add: expression_ok_def dom vt)
  have "xlir_typed (symbols C) (bound_variables st) (Quantifier op x t lits b BOOL) BOOL"
    using op x dom(3) body(1) by (rule xlir_typed.quantifier)
  with body dom x show ?thesis
    by (simp add: r method_ok_def fun_upd_idem)
qed

lemma compile_temporal_ok:
  assumes res: "compile_temporal rec raw path st = Inr r"
    and rec: "\<And>k p s r. rec (jget raw k) p s = Inr r \<Longrightarrow> expression_ok C s r"
  shows "method_ok C st r"
proof -
  from res obtain op where jop: "jget raw ''operator'' = JStr op"
    and op: "op = ''once'' \<or> op = ''globally''"
    by (auto simp: compile_temporal_def Let_def split: json.split_asm if_split_asm)
  with res obtain h e st1 where h: "temporal_horizon op (jget raw ''horizon'') path = Inr h"
    and e: "rec (jget raw ''operand'') (path @ ''.operand'') st = Inr (e, st1)"
    and vt: "vtype e = BOOL" and r: "r = (Temporal op e h BOOL, st1)"
    by (auto simp: compile_temporal_def Let_def result_simps split: if_split_asm)
  from h op have "op = ''once'' \<and> (\<exists>n\<ge>0. h = Some n) \<or> op = ''globally'' \<and> h = None"
    by (auto simp: temporal_horizon_def split: if_splits json.splits)
  with rec [OF e] vt show ?thesis
    by (auto simp: r ok_defs intro: xlir_typed.once xlir_typed.globally)
qed

abbreviation counted :: "cstate \<Rightarrow> cstate" where
  "counted st \<equiv> st\<lparr>nodes := Suc (nodes st)\<rparr>"

text \<open>One call on an object whose kind passed the field check, and what success implies.\<close>

lemma compile_expression_JObj:
  assumes "nodes (counted st) \<le> maximum_ast_nodes C" and "expression_kind raw path = Inr kind"
  shows "compile_expression C (JObj raw) path st =
      (if kind = ''symbol'' then bind_result (compile_symbol C raw path) (\<lambda>e. Inr (e, counted st))
       else if kind = ''bound''
         then bind_result (compile_bound_ref (counted st) raw path) (\<lambda>e. Inr (e, counted st))
       else if kind = ''literal'' then bind_result (compile_literal raw path) (\<lambda>l. Inr (Lit l, counted st))
       else if kind = ''unary'' then compile_unary (compile_expression C) raw path (counted st)
       else if kind = ''binary'' then compile_binary (compile_expression C) raw path (counted st)
       else if kind = ''quantifier'' then compile_quantifier C (compile_expression C) raw path (counted st)
       else if kind = ''temporal'' then compile_temporal (compile_expression C) raw path (counted st)
       else (case expand_primitive raw of
               Inl _ \<Rightarrow> fail path ''invalid_primitive''
             | Inr expanded \<Rightarrow> compile_expression C expanded (path @ ''.expanded'') (counted st)))"
  using assms by (subst compile_expression.simps) (simp add: Let_def)

lemma compile_expression_limit:
  "maximum_ast_nodes C < nodes (counted st) \<Longrightarrow>
   compile_expression C j path st = fail path ''ast_limit''"
  by (subst compile_expression.simps) (simp add: Let_def)

lemma compile_expression_Inr_JObj:
  assumes "compile_expression C j path st = Inr r"
  obtains raw kind where "nodes (counted st) \<le> maximum_ast_nodes C" "j = JObj raw"
    "expression_kind raw path = Inr kind"
proof -
  have limit: "nodes (counted st) \<le> maximum_ast_nodes C"
    using assms compile_expression_limit [of C st j path] by fastforce
  moreover obtain raw where j: "j = JObj raw"
    using assms limit by (subst (asm) compile_expression.simps) (cases j; simp add: Let_def)
  moreover obtain kind where "expression_kind raw path = Inr kind"
    using assms limit
    by (subst (asm) compile_expression.simps)
       (cases "expression_kind raw path"; simp add: Let_def j)
  ultimately show thesis by (rule that)
qed

lemma expression_kind_cases:
  assumes "expression_kind raw path = Inr kind"
  obtains (symbol) "kind = ''symbol''" | (bound) "kind = ''bound''" | (literal) "kind = ''literal''"
  | (unary) "kind = ''unary''" | (binary) "kind = ''binary''" | (quantifier) "kind = ''quantifier''"
  | (temporal) "kind = ''temporal''" | (primitive) "kind = ''primitive''"
proof -
  from assms obtain allowed where "map_of allowed_fields kind = Some allowed"
    by (auto simp: expression_kind_def Let_def split: if_split_asm json.split_asm option.split_asm)
  then show thesis
    using that by (simp add: allowed_fields_def split: if_split_asm)
qed

theorem compile_expression_ok:
  "compile_expression C j path st = Inr r \<Longrightarrow> expression_ok C st r"
proof (induction C j path st arbitrary: r rule: compile_expression.induct)
  case (1 C j path st0)
  let ?st = "counted st0"
  from "1.prems" obtain raw kind where limit: "nodes ?st \<le> maximum_ast_nodes C"
    and j: "j = JObj raw" and kind: "expression_kind raw path = Inr kind"
    by (rule compile_expression_Inr_JObj)
  have lift: "method_ok C ?st r \<Longrightarrow> expression_ok C st0 r"
    by (auto simp: ok_defs)
  note res = "1.prems" [unfolded j compile_expression_JObj [OF limit kind]]
  note IH = "1.IH" [OF refl _ j kind]
  show ?case
    using kind
  proof (cases rule: expression_kind_cases)
    case symbol
    with res obtain e where "compile_symbol C raw path = Inr e" "r = (e, ?st)"
      by (auto simp: result_simps)
    with limit have "method_ok C ?st r" by (simp add: compile_symbol_ok)
    then show ?thesis by (rule lift)
  next
    case bound
    with res obtain e where "compile_bound_ref ?st raw path = Inr e" "r = (e, ?st)"
      by (auto simp: result_simps)
    with limit have "method_ok C ?st r" by (simp add: compile_bound_ref_ok)
    then show ?thesis by (rule lift)
  next
    case literal
    with res obtain l where "compile_literal raw path = Inr l" "r = (Lit l, ?st)"
      by (auto simp: result_simps)
    with limit have "method_ok C ?st r" by (simp add: compile_literal_ok)
    then show ?thesis by (rule lift)
  next
    case unary
    with res have "compile_unary (compile_expression C) raw path ?st = Inr r" by simp
    then have "method_ok C ?st r"
    proof (rule compile_unary_ok)
      fix k p s r'
      assume "compile_expression C (jget raw k) p s = Inr r'"
      then show "expression_ok C s r'"
        by (rule IH(1) [rotated -1]) (use limit unary in simp_all)
    qed
    then show ?thesis by (rule lift)
  next
    case binary
    with res have "compile_binary (compile_expression C) raw path ?st = Inr r" by simp
    then have "method_ok C ?st r"
    proof (rule compile_binary_ok)
      fix k p s r'
      assume "compile_expression C (jget raw k) p s = Inr r'"
      then show "expression_ok C s r'"
        by (rule IH(2) [rotated -1]) (use limit binary in simp_all)
    qed
    then show ?thesis by (rule lift)
  next
    case quantifier
    with res have "compile_quantifier C (compile_expression C) raw path ?st = Inr r" by simp
    then have "method_ok C ?st r"
    proof (rule compile_quantifier_ok)
      fix k p s r'
      assume "compile_expression C (jget raw k) p s = Inr r'"
      then show "expression_ok C s r'"
        by (rule IH(3) [rotated -1]) (use limit quantifier in simp_all)
    qed
    then show ?thesis by (rule lift)
  next
    case temporal
    with res have "compile_temporal (compile_expression C) raw path ?st = Inr r" by simp
    then have "method_ok C ?st r"
    proof (rule compile_temporal_ok)
      fix k p s r'
      assume "compile_expression C (jget raw k) p s = Inr r'"
      then show "expression_ok C s r'"
        by (rule IH(4) [rotated -1]) (use limit temporal in simp_all)
    qed
    then show ?thesis by (rule lift)
  next
    case primitive
    with res obtain e where e: "expand_primitive raw = Inr e"
      "compile_expression C e (path @ ''.expanded'') ?st = Inr r"
      by (auto split: sum.splits)
    with IH(5) primitive limit have "expression_ok C ?st r" by simp
    then show ?thesis by (auto simp: ok_defs)
  qed
qed

section \<open>Completeness: every typed expression has a proposal\<close>

text \<open>
  The proposal text of an expression. It is not \<open>as_dict\<close>: the canonical form carries the
  types and domains that the compiler infers, and a proposal must not.
\<close>

fun to_proposal :: "expr \<Rightarrow> json" where
  "to_proposal (SymbolRef sid t dm st) =
     JObj [(''kind'', JStr ''symbol''), (''symbol_id'', JStr sid), (''state'', JStr st)]"
| "to_proposal (BoundRef x t) =
     JObj [(''kind'', JStr ''bound''), (''variable'', JStr x), (''type'', type_json t)]"
| "to_proposal (Lit l) = literal_as_dict l"
| "to_proposal (Unary op e t) = unary_obj op (to_proposal e)"
| "to_proposal (Binary op l r t) = binary_obj op (to_proposal l) (to_proposal r)"
| "to_proposal (Quantifier op x xt lits e t) =
     JObj [(''kind'', JStr ''quantifier''), (''operator'', JStr op), (''variable'', JStr x),
           (''variable_type'', type_json xt), (''domain'', JArr (map literal_as_dict lits)),
           (''body'', to_proposal e)]"
| "to_proposal (Temporal op e h t) =
     JObj ([(''kind'', JStr ''temporal''), (''operator'', JStr op), (''operand'', to_proposal e)]
           @ (case h of None \<Rightarrow> [] | Some n \<Rightarrow> [(''horizon'', JInt n)]))"

definition invariant_proposal :: "string option \<Rightarrow> expr \<Rightarrow> json" where
  "invariant_proposal iid e =
     JObj ([(''kind'', JStr ''invariant''), (''body'', to_proposal e)]
           @ (case iid of None \<Rightarrow> [] | Some s \<Rightarrow> [(''invariant_id'', JStr s)]))"

lemma expression_kind_simple:
  "jget d ''kind'' = JStr k \<Longrightarrow> map_of allowed_fields k = Some ks \<Longrightarrow> set (dict_keys d) \<subseteq> set ks \<Longrightarrow>
   expression_kind d path = Inr k"
  by (auto simp: expression_kind_def has_extra_fields_def)

lemma allowed_fields_of [simp]:
  "map_of allowed_fields ''symbol'' = Some [''kind'', ''symbol_id'', ''state'']"
  "map_of allowed_fields ''bound'' = Some [''kind'', ''variable'', ''type'']"
  "map_of allowed_fields ''literal'' = Some [''kind'', ''type'', ''value'']"
  "map_of allowed_fields ''unary'' = Some [''kind'', ''operator'', ''operand'']"
  "map_of allowed_fields ''binary'' = Some [''kind'', ''operator'', ''left'', ''right'']"
  "map_of allowed_fields ''quantifier'' =
     Some [''kind'', ''operator'', ''variable'', ''variable_type'', ''domain'', ''body'']"
  "map_of allowed_fields ''temporal'' = Some [''kind'', ''operator'', ''operand'', ''horizon'']"
  by (simp_all add: allowed_fields_def)

lemma ValueType_type_json [simp]: "ValueType (type_json t) = Some t"
  by (simp add: type_json_def)

lemma compile_literal_as_dict:
  "valid_value (lit_value l) (lit_type l) \<Longrightarrow>
   \<exists>d. literal_as_dict l = JObj d \<and> compile_literal d path = Inr l \<and>
       expression_kind d path = Inr ''literal''"
  by (cases l) (simp add: literal_as_dict_def compile_literal_def expression_kind_simple)

lemma compile_domain_literals:
  "list_all (\<lambda>l. lit_type l = t \<and> valid_value (lit_value l) t) lits \<Longrightarrow>
   nodes st + length lits \<le> maximum_ast_nodes C \<Longrightarrow>
   compile_domain C t path i (map literal_as_dict lits) st =
     Inr (lits, st\<lparr>nodes := nodes st + length lits\<rparr>)"
proof (induction lits arbitrary: i st)
  case Nil
  then show ?case by simp
next
  case (Cons l lits)
  from Cons.prems obtain d where "literal_as_dict l = JObj d"
    "compile_literal d (index_path path i) = Inr l"
    using compile_literal_as_dict [of l "index_path path i"] by auto
  moreover have "compile_domain C t path (Suc i) (map literal_as_dict lits) (counted st) =
      Inr (lits, st\<lparr>nodes := nodes st + length (l # lits)\<rparr>)"
    using Cons.IH [of "counted st" "Suc i"] Cons.prems by simp
  ultimately show ?case using Cons.prems by (simp add: Let_def)
qed

lemma is_obj_literal_as_dict [simp]: "is_obj (literal_as_dict l)"
  by (simp add: literal_as_dict_def)

abbreviation counted_by :: "nat \<Rightarrow> cstate \<Rightarrow> cstate" where
  "counted_by n st \<equiv> st\<lparr>nodes := nodes st + n\<rparr>"

text \<open>The operator classes are disjoint, so the first matching branch is the only one.\<close>

lemma comparison_binary_only:
  "list_all (\<lambda>op. op \<notin> set boolean_binary) comparison_binary"
  unfolding operator_classes by simp

lemma ordering_binary_only:
  "list_all (\<lambda>op. op \<notin> set boolean_binary \<and> op \<notin> set comparison_binary) ordering_binary"
  unfolding operator_classes by simp

lemma arithmetic_binary_only:
  "list_all (\<lambda>op. op \<notin> set boolean_binary \<and> op \<notin> set comparison_binary \<and> op \<notin> set ordering_binary) arithmetic_binary"
  unfolding operator_classes by simp

lemma bitwise_binary_only:
  "list_all (\<lambda>op. op \<notin> set boolean_binary \<and> op \<notin> set comparison_binary \<and> op \<notin> set ordering_binary \<and> op \<notin> set arithmetic_binary) bitwise_binary"
  unfolding operator_classes by simp

lemma shift_binary_only:
  "list_all (\<lambda>op. op \<notin> set boolean_binary \<and> op \<notin> set comparison_binary \<and> op \<notin> set ordering_binary \<and> op \<notin> set arithmetic_binary \<and> op \<notin> set bitwise_binary) shift_binary"
  unfolding operator_classes by simp

lemma binary_result_typed_eq:
  assumes "vtype l = lt" and "vtype r = rt"
  shows "op \<in> set boolean_binary \<Longrightarrow> lt = BOOL \<Longrightarrow> rt = BOOL \<Longrightarrow>
      binary_result op l r path = Inr (Binary op l r BOOL)"
    and "op \<in> set comparison_binary \<Longrightarrow> rt = lt \<Longrightarrow>
      binary_result op l r path = Inr (Binary op l r BOOL)"
    and "op \<in> set ordering_binary \<Longrightarrow> integer_type lt \<Longrightarrow> rt = lt \<Longrightarrow>
      binary_result op l r path = Inr (Binary op l r BOOL)"
    and "op \<in> set arithmetic_binary \<union> set bitwise_binary \<Longrightarrow> integer_type lt \<Longrightarrow> rt = lt \<Longrightarrow>
      binary_result op l r path = Inr (Binary op l r lt)"
    and "op \<in> set shift_binary \<Longrightarrow> integer_type lt \<Longrightarrow> (op = ''sar'' \<longrightarrow> lt = INT256) \<Longrightarrow>
      rt = UINT256 \<Longrightarrow> binary_result op l r path = Inr (Binary op l r lt)"
proof -
  note disjoint = comparison_binary_only ordering_binary_only arithmetic_binary_only
    bitwise_binary_only shift_binary_only
  note unfold = binary_result_def Let_def assms disjoint [unfolded list_all_iff, THEN bspec]
  show "op \<in> set boolean_binary \<Longrightarrow> lt = BOOL \<Longrightarrow> rt = BOOL \<Longrightarrow>
      binary_result op l r path = Inr (Binary op l r BOOL)"
    by (simp add: unfold)
  show "op \<in> set comparison_binary \<Longrightarrow> rt = lt \<Longrightarrow>
      binary_result op l r path = Inr (Binary op l r BOOL)"
    by (simp add: unfold)
  show "op \<in> set ordering_binary \<Longrightarrow> integer_type lt \<Longrightarrow> rt = lt \<Longrightarrow>
      binary_result op l r path = Inr (Binary op l r BOOL)"
    by (simp add: unfold)
  show "op \<in> set arithmetic_binary \<union> set bitwise_binary \<Longrightarrow> integer_type lt \<Longrightarrow> rt = lt \<Longrightarrow>
      binary_result op l r path = Inr (Binary op l r lt)"
    by (elim UnE) (simp_all add: unfold)
  show "op \<in> set shift_binary \<Longrightarrow> integer_type lt \<Longrightarrow> (op = ''sar'' \<longrightarrow> lt = INT256) \<Longrightarrow>
      rt = UINT256 \<Longrightarrow> binary_result op l r path = Inr (Binary op l r lt)"
    by (simp add: unfold)
qed

lemma compile_binary_obj:
  assumes l: "\<And>st path. bound_variables st = \<Gamma> \<Longrightarrow> nodes st + ast_nodes l \<le> maximum_ast_nodes C \<Longrightarrow>
      compile_expression C jl path st = Inr (l, counted_by (ast_nodes l) st)"
    and r: "\<And>st path. bound_variables st = \<Gamma> \<Longrightarrow> nodes st + ast_nodes r \<le> maximum_ast_nodes C \<Longrightarrow>
      compile_expression C jr path st = Inr (r, counted_by (ast_nodes r) st)"
    and b: "binary_result op l r path = Inr (Binary op l r t)"
    and st: "bound_variables st = \<Gamma>" "nodes st + ast_nodes (Binary op l r t) \<le> maximum_ast_nodes C"
  shows "compile_expression C (binary_obj op jl jr) path st =
    Inr (Binary op l r t, counted_by (ast_nodes (Binary op l r t)) st)"
proof -
  have "compile_expression C jl (path @ ''.left'') (counted st) =
      Inr (l, counted_by (ast_nodes l) (counted st))"
    using st by (intro l) simp_all
  moreover have "compile_expression C jr (path @ ''.right'') (counted_by (ast_nodes l) (counted st)) =
      Inr (r, counted_by (ast_nodes r) (counted_by (ast_nodes l) (counted st)))"
    using st by (intro r) simp_all
  ultimately show ?thesis
    using b st by (simp add: binary_obj_def compile_expression_JObj expression_kind_simple
        compile_binary_def add.assoc)
qed

theorem compile_expression_to_proposal:
  "xlir_typed (symbols C) \<Gamma> e t \<Longrightarrow> bound_variables st = \<Gamma> \<Longrightarrow>
   nodes st + ast_nodes e \<le> maximum_ast_nodes C \<Longrightarrow>
   compile_expression C (to_proposal e) path st = Inr (e, counted_by (ast_nodes e) st)"
proof (induction arbitrary: st path rule: xlir_typed.induct)
  case (symbol sid a t s \<Gamma>)
  then show ?case
    by (auto simp: compile_expression_JObj expression_kind_simple compile_symbol_def op_in_def)
next
  case (bound x \<Gamma> t)
  then show ?case
    by (simp add: compile_expression_JObj expression_kind_simple compile_bound_ref_def)
next
  case (lit v t \<Gamma>)
  then obtain d where "literal_as_dict (Literal v t) = JObj d" "compile_literal d path = Inr (Literal v t)"
    "expression_kind d path = Inr ''literal''"
    using compile_literal_as_dict [of "Literal v t" path] by auto
  with lit show ?case by (simp add: compile_expression_JObj)
next
  case (not \<Gamma> e)
  have "vtype e = BOOL" using not.hyps by (rule xlir_typed_vtype)
  with not show ?case
    by (simp add: unary_obj_def compile_expression_JObj expression_kind_simple compile_unary_def
        op_in_def unary_ops_def unary_result_def)
next
  case (neg \<Gamma> e)
  have "vtype e = INT256" using neg.hyps by (rule xlir_typed_vtype)
  with neg show ?case
    by (simp add: unary_obj_def compile_expression_JObj expression_kind_simple compile_unary_def
        op_in_def unary_ops_def unary_result_def integer_type_def)
next
  case (bitnot t \<Gamma> e)
  have "vtype e = t" using bitnot.hyps(2) by (rule xlir_typed_vtype)
  with bitnot show ?case
    by (simp add: unary_obj_def compile_expression_JObj expression_kind_simple compile_unary_def
        op_in_def unary_ops_def unary_result_def)
next
  case (boolean op \<Gamma> l r)
  have "binary_result op l r path = Inr (Binary op l r BOOL)"
    using boolean.hyps by (simp add: binary_result_def xlir_typed_vtype)
  with boolean.IH boolean.prems show ?case
    unfolding to_proposal.simps by (intro compile_binary_obj)
next
  case (comparison op \<Gamma> l t r)
  have "vtype l = t" "vtype r = t"
    using comparison.hyps(2,3) by (auto dest: xlir_typed_vtype)
  from binary_result_typed_eq(2) [OF this comparison.hyps(1) refl]
  have "binary_result op l r path = Inr (Binary op l r BOOL)" .
  with comparison.IH comparison.prems show ?case
    unfolding to_proposal.simps by (intro compile_binary_obj)
next
  case (ordering op t \<Gamma> l r)
  have "vtype l = t" "vtype r = t"
    using ordering.hyps(3,4) by (auto dest: xlir_typed_vtype)
  from binary_result_typed_eq(3) [OF this ordering.hyps(1,2) refl]
  have "binary_result op l r path = Inr (Binary op l r BOOL)" .
  with ordering.IH ordering.prems show ?case
    unfolding to_proposal.simps by (intro compile_binary_obj)
next
  case (arith op t \<Gamma> l r)
  have "vtype l = t" "vtype r = t"
    using arith.hyps(3,4) by (auto dest: xlir_typed_vtype)
  from binary_result_typed_eq(4) [OF this arith.hyps(1,2) refl]
  have "binary_result op l r path = Inr (Binary op l r t)" .
  with arith.IH arith.prems show ?case
    unfolding to_proposal.simps by (intro compile_binary_obj)
next
  case (shift op t \<Gamma> l r)
  have "vtype l = t" "vtype r = UINT256"
    using shift.hyps(4,5) by (auto dest: xlir_typed_vtype)
  from binary_result_typed_eq(5) [OF this shift.hyps(1,2) _ refl]
  have "binary_result op l r path = Inr (Binary op l r t)"
    using shift.hyps(3) by blast
  with shift.IH shift.prems show ?case
    unfolding to_proposal.simps by (intro compile_binary_obj)
next
  case (quantifier op x \<Gamma> t lits e)
  let ?st1 = "counted_by (length lits) (counted st)"
  have vt: "vtype e = BOOL" using quantifier.hyps(5) by (rule xlir_typed_vtype)
  have lits: "compile_domain C t path 0 (map literal_as_dict lits) (counted st) = Inr (lits, ?st1)"
    using quantifier by (intro compile_domain_literals) simp_all
  have objs: "list_all is_obj (map literal_as_dict lits)"
    by (simp add: list_all_iff)
  have body: "compile_expression C (to_proposal e) (path @ ''.body'')
      (?st1\<lparr>bound_variables := \<Gamma>(x \<mapsto> t)\<rparr>) =
      Inr (e, counted_by (ast_nodes e) (?st1\<lparr>bound_variables := \<Gamma>(x \<mapsto> t)\<rparr>))"
    using quantifier by (intro quantifier.IH) simp_all
  have "compile_expression C (to_proposal (Quantifier op x t lits e BOOL)) path st =
      compile_quantifier C (compile_expression C)
        [(''kind'', JStr ''quantifier''), (''operator'', JStr op), (''variable'', JStr x),
         (''variable_type'', type_json t), (''domain'', JArr (map literal_as_dict lits)),
         (''body'', to_proposal e)] path (counted st)"
    using quantifier.prems by (simp add: compile_expression_JObj expression_kind_simple)
  also have "\<dots> = Inr (Quantifier op x t lits e BOOL,
      counted_by (ast_nodes (Quantifier op x t lits e BOOL)) st)"
    using quantifier.hyps(1-3) quantifier.prems(1) lits objs body vt
    by (simp add: compile_quantifier_def fun_upd_idem)
  finally show ?case .
next
  case (once h \<Gamma> e)
  have "vtype e = BOOL" using once.hyps(2) by (rule xlir_typed_vtype)
  with once show ?case
    by (simp add: compile_expression_JObj expression_kind_simple compile_temporal_def
        temporal_horizon_def)
next
  case (globally \<Gamma> e)
  have "vtype e = BOOL" using globally.hyps by (rule xlir_typed_vtype)
  with globally show ?case
    by (simp add: compile_expression_JObj expression_kind_simple compile_temporal_def
        temporal_horizon_def)
qed

end
