(* ===== verification/Xlir_Evaluator.thy ===== *)
theory Xlir_Evaluator
  imports Xlir_Typing
begin

unbundle bit_operations_syntax

text \<open>
  The concrete evaluator (\<^verbatim>\<open>xlir/evaluator.py\<close>). It is dynamically typed, as the source is: an
  AST the compiler did not build may apply any operator to any value, and what Python does
  there (truth values of non-Booleans, Booleans as integers, TypeError) is written out. Values
  are JSON values; validation lets only Booleans, integers and strings in.
\<close>

section \<open>Errors\<close>

text \<open>One constructor per \<^verbatim>\<open>raise EvaluationError\<close> of the source.\<close>

datatype eval_reason =
    MissingBinding | MissingBound | InvalidValue
  | UnsupportedQuantifier | UnsupportedTemporal | UnsupportedUnary | UnsupportedBinary
  | TraceRequired | EmptyTrace | TraceIndex | NotBoolean
  | NegNeedsInt256 | NegOverflow | BitnotNeedsInteger
  | Overflow | Underflow | DivisionByZero | ModuloByZero | DivisionOverflow

datatype eval_exn =
    EvaluationError eval_reason
  | AssertionError | PyTypeError | PyValueError | PyIndexError

abbreviation eval_error :: "eval_reason \<Rightarrow> eval_exn + 'a" where
  "eval_error r \<equiv> Inl (EvaluationError r)"

type_synonym bindings = "(string \<times> string \<times> string) \<Rightarrow> json option"

section \<open>Python operators on values\<close>

text \<open>Booleans are integers in arithmetic and comparisons.\<close>

fun py_num :: "json \<Rightarrow> int option" where
  "py_num (JBool b) = Some (of_bool b)"
| "py_num (JInt i) = Some i"
| "py_num _ = None"

fun py_truthy :: "json \<Rightarrow> bool" where
  "py_truthy JNull = False"
| "py_truthy (JBool b) = b"
| "py_truthy (JInt i) = (i \<noteq> 0)"
| "py_truthy (JFloat s) = True"
| "py_truthy (JStr s) = (s \<noteq> [])"
| "py_truthy (JArr xs) = (xs \<noteq> [])"
| "py_truthy (JObj d) = (d \<noteq> [])"

definition py_eq :: "json \<Rightarrow> json \<Rightarrow> bool" where
  "py_eq a b = (case (py_num a, py_num b) of
       (Some x, Some y) \<Rightarrow> x = y
     | _ \<Rightarrow> a = b)"

text \<open>An operator on two integers; a string operand raises TypeError.\<close>

definition py_int_op :: "(int \<Rightarrow> int \<Rightarrow> 'a) \<Rightarrow> json \<Rightarrow> json \<Rightarrow> eval_exn + 'a" where
  "py_int_op f a b = (case (py_num a, py_num b) of
       (Some x, Some y) \<Rightarrow> Inr (f x y)
     | _ \<Rightarrow> Inl PyTypeError)"

definition py_int_fun :: "(int \<Rightarrow> 'a) \<Rightarrow> json \<Rightarrow> eval_exn + 'a" where
  "py_int_fun f a = (case py_num a of Some x \<Rightarrow> Inr (f x) | None \<Rightarrow> Inl PyTypeError)"

text \<open>\<^verbatim>\<open><\<close> and \<^verbatim>\<open><=\<close>: integers, or strings by code point.\<close>

definition py_less :: "json \<Rightarrow> json \<Rightarrow> eval_exn + bool" where
  "py_less a b = (case (a, b) of
       (JStr s, JStr t) \<Rightarrow> Inr (s < t)
     | _ \<Rightarrow> py_int_op (<) a b)"

definition py_less_eq :: "json \<Rightarrow> json \<Rightarrow> eval_exn + bool" where
  "py_less_eq a b = (case (a, b) of
       (JStr s, JStr t) \<Rightarrow> Inr (s \<le> t)
     | _ \<Rightarrow> py_int_op (\<le>) a b)"

text \<open>\<^verbatim>\<open>+\<close> joins strings, \<^verbatim>\<open>*\<close> repeats one.\<close>

definition py_add :: "json \<Rightarrow> json \<Rightarrow> eval_exn + json" where
  "py_add a b = (case (a, b) of
       (JStr s, JStr t) \<Rightarrow> Inr (JStr (s @ t))
     | _ \<Rightarrow> py_int_op (\<lambda>x y. JInt (x + y)) a b)"

definition py_mul :: "json \<Rightarrow> json \<Rightarrow> eval_exn + json" where
  "py_mul a b = (case (a, b) of
       (JStr s, _) \<Rightarrow> py_int_fun (\<lambda>n. JStr (concat (replicate (nat n) s))) b
     | (_, JStr s) \<Rightarrow> py_int_fun (\<lambda>n. JStr (concat (replicate (nat n) s))) a
     | _ \<Rightarrow> py_int_op (\<lambda>x y. JInt (x * y)) a b)"

section \<open>Validation and integer views\<close>

definition uint256_limit :: int where "uint256_limit = 2 ^ 256"
definition int256_min :: int where "int256_min = - (2 ^ 255)"
definition int256_max :: int where "int256_max = 2 ^ 255 - 1"

definition validate_value :: "json \<Rightarrow> value_type \<Rightarrow> eval_exn + json" where
  "validate_value v t = (if valid_value v t then Inr v else eval_error InvalidValue)"

definition normalize_integer :: "int \<Rightarrow> value_type \<Rightarrow> int" where
  "normalize_integer value t =
     (let bits = value mod uint256_limit in
      if t = INT256 \<and> 2 ^ 255 \<le> bits then bits - uint256_limit else bits)"

definition checked_integer_result :: "json \<Rightarrow> value_type \<Rightarrow> eval_exn + json" where
  "checked_integer_result value t =
     (if t = UINT256 then
        bind_result (py_int_fun id value) (\<lambda>i.
          if 0 \<le> i \<and> i < uint256_limit then Inr value
          else if uint256_limit \<le> i then eval_error Overflow else eval_error Underflow)
      else if t = INT256 then
        bind_result (py_int_fun id value) (\<lambda>i.
          if int256_min \<le> i \<and> i \<le> int256_max then Inr value else eval_error Overflow)
      else Inr value)"

section \<open>Strict operators\<close>

definition eval_comparison :: "string \<Rightarrow> json \<Rightarrow> json \<Rightarrow> eval_exn + json" where
  "eval_comparison op left right =
     (if op = ''eq'' then Inr (JBool (py_eq left right))
      else if op = ''neq'' then Inr (JBool (\<not> py_eq left right))
      else if op = ''ge'' then bind_result (py_less_eq right left) (\<lambda>b. Inr (JBool b))
      else if op = ''le'' then bind_result (py_less_eq left right) (\<lambda>b. Inr (JBool b))
      else if op = ''gt'' then bind_result (py_less right left) (\<lambda>b. Inr (JBool b))
      else bind_result (py_less left right) (\<lambda>b. Inr (JBool b)))"

text \<open>Signed division and remainder truncate towards zero; the code writes them with \<^verbatim>\<open>abs\<close>.\<close>

definition trunc_div :: "int \<Rightarrow> int \<Rightarrow> int" where
  "trunc_div x y = (let sign = if (x < 0) \<noteq> (y < 0) then -1 else 1 in sign * (\<bar>x\<bar> div \<bar>y\<bar>))"

definition trunc_mod :: "int \<Rightarrow> int \<Rightarrow> int" where
  "trunc_mod x y = (let sign = if x < 0 then -1 else 1 in sign * (\<bar>x\<bar> mod \<bar>y\<bar>))"

definition eval_arithmetic :: "string \<Rightarrow> json \<Rightarrow> json \<Rightarrow> value_type \<Rightarrow> eval_exn + json" where
  "eval_arithmetic op left right t =
     (if op = ''add'' then bind_result (py_add left right) (\<lambda>v. checked_integer_result v t)
      else if op = ''sub'' then
        bind_result (if t = UINT256 then py_less left right else Inr False) (\<lambda>under.
          if under then eval_error Underflow
          else bind_result (py_int_op (\<lambda>x y. JInt (x - y)) left right)
                 (\<lambda>v. checked_integer_result v t))
      else if op = ''mul'' then bind_result (py_mul left right) (\<lambda>v. checked_integer_result v t)
      else if op = ''div'' then
        (if py_eq right (JInt 0) then eval_error DivisionByZero
         else if t = INT256 \<and> py_eq left (JInt int256_min) \<and> py_eq right (JInt (-1))
           then eval_error DivisionOverflow
         else if t = INT256 then py_int_op (\<lambda>x y. JInt (trunc_div x y)) left right
         else py_int_op (\<lambda>x y. JInt (x div y)) left right)
      else
        (if py_eq right (JInt 0) then eval_error ModuloByZero
         else if t = INT256 then py_int_op (\<lambda>x y. JInt (trunc_mod x y)) left right
         else py_int_op (\<lambda>x y. JInt (x mod y)) left right))"

definition eval_bitwise :: "string \<Rightarrow> json \<Rightarrow> json \<Rightarrow> value_type \<Rightarrow> eval_exn + json" where
  "eval_bitwise op left right t =
     py_int_op (\<lambda>x y. JInt (normalize_integer
       (if op = ''band'' then x AND y else if op = ''bor'' then x OR y else x XOR y) t)) left right"

text \<open>
  Shifts. A negative amount raises ValueError in Python. \<^verbatim>\<open>shr\<close> shifts the unsigned view of its
  operand and returns the result without another normalization.
\<close>

definition eval_shift :: "string \<Rightarrow> json \<Rightarrow> json \<Rightarrow> value_type \<Rightarrow> eval_exn + json" where
  "eval_shift op left right t =
     bind_result (py_less_eq (JInt 256) right) (\<lambda>big.
       if big then
         (if op = ''sar'' then bind_result (py_less left (JInt 0)) (\<lambda>neg. Inr (JInt (if neg then -1 else 0)))
          else Inr (JInt 0))
       else bind_result (py_int_op (\<lambda>x y. (x, y)) left right) (\<lambda>(x, shift).
         if shift < 0 then Inl PyValueError
         else if op = ''shl'' then Inr (JInt (normalize_integer (push_bit (nat shift) x) t))
         else if op = ''shr'' then Inr (JInt (drop_bit (nat shift) (normalize_integer x UINT256)))
         else Inr (JInt (drop_bit (nat shift) x))))"

definition eval_binary :: "string \<Rightarrow> json \<Rightarrow> json \<Rightarrow> value_type \<Rightarrow> eval_exn + json" where
  "eval_binary op left right t =
     (if op \<in> set comparison_binary \<union> set ordering_binary then eval_comparison op left right
      else if op \<in> set arithmetic_binary then eval_arithmetic op left right t
      else if op \<in> set bitwise_binary then eval_bitwise op left right t
      else if op \<in> set shift_binary then eval_shift op left right t
      else eval_error UnsupportedBinary)"

definition eval_unary :: "string \<Rightarrow> json \<Rightarrow> value_type \<Rightarrow> eval_exn + json" where
  "eval_unary op operand t =
     (if op = ''not'' then Inr (JBool (\<not> py_truthy operand))
      else if op = ''neg'' then
        (if t \<noteq> INT256 then eval_error NegNeedsInt256
         else if py_eq operand (JInt int256_min) then eval_error NegOverflow
         else py_int_fun (\<lambda>x. JInt (- x)) operand)
      else if op = ''bitnot'' then
        (if \<not> integer_type t then eval_error BitnotNeedsInteger
         else py_int_fun (\<lambda>x. JInt (normalize_integer (NOT x) t)) operand)
      else eval_error UnsupportedUnary)"

section \<open>The evaluator\<close>

text \<open>\<^verbatim>\<open>all\<close> and \<^verbatim>\<open>any\<close> over a lazy sequence of evaluations: they stop at the first decision.\<close>

fun all_results :: "('a \<Rightarrow> eval_exn + json) \<Rightarrow> 'a list \<Rightarrow> eval_exn + json" where
  "all_results f [] = Inr (JBool True)"
| "all_results f (x # xs) =
     bind_result (f x) (\<lambda>v. if py_truthy v then all_results f xs else Inr (JBool False))"

fun any_results :: "('a \<Rightarrow> eval_exn + json) \<Rightarrow> 'a list \<Rightarrow> eval_exn + json" where
  "any_results f [] = Inr (JBool False)"
| "any_results f (x # xs) =
     bind_result (f x) (\<lambda>v. if py_truthy v then Inr (JBool True) else any_results f xs)"

definition trace_at :: "bindings list \<Rightarrow> nat \<Rightarrow> eval_exn + bindings" where
  "trace_at tr p = (if p < length tr then Inr (tr ! p) else Inl PyIndexError)"

text \<open>\<^verbatim>\<open>range(max(0, index - horizon), index + 1)\<close>.\<close>

definition once_positions :: "nat \<Rightarrow> int \<Rightarrow> nat list" where
  "once_positions index horizon = [nat (max 0 (int index - horizon)) ..< Suc index]"

fun evaluate ::
    "expr \<Rightarrow> bindings \<Rightarrow> (string \<rightharpoonup> json) \<Rightarrow> bindings list option \<Rightarrow> nat \<Rightarrow> eval_exn + json" where
  "evaluate (SymbolRef sid t dm st) bs bd tr i =
     (case bs (sid, st, dm) of
        None \<Rightarrow> eval_error MissingBinding
      | Some v \<Rightarrow> validate_value v t)"
| "evaluate (BoundRef x t) bs bd tr i =
     (case bd x of None \<Rightarrow> eval_error MissingBound | Some v \<Rightarrow> validate_value v t)"
| "evaluate (Lit l) bs bd tr i = validate_value (lit_value l) (lit_type l)"
| "evaluate (Quantifier op x xt lits e t) bs bd tr i =
     bind_result (map_result (\<lambda>l. validate_value (lit_value l) (lit_type l)) lits) (\<lambda>values.
       if op = ''forall'' then all_results (\<lambda>v. evaluate e bs (bd(x \<mapsto> v)) tr i) values
       else if op = ''exists'' then any_results (\<lambda>v. evaluate e bs (bd(x \<mapsto> v)) tr i) values
       else eval_error UnsupportedQuantifier)"
| "evaluate (Temporal op e h t) bs bd tr i =
     (case tr of
        None \<Rightarrow> eval_error TraceRequired
      | Some states \<Rightarrow>
          if op = ''once'' then
            (case h of
               None \<Rightarrow> Inl AssertionError
             | Some horizon \<Rightarrow>
                 any_results (\<lambda>p. bind_result (trace_at states p) (\<lambda>bs'. evaluate e bs' bd tr p))
                   (once_positions i horizon))
          else if op = ''globally'' then
            all_results (\<lambda>p. bind_result (trace_at states p) (\<lambda>bs'. evaluate e bs' bd tr p))
              [0 ..< length states]
          else eval_error UnsupportedTemporal)"
| "evaluate (Unary op e t) bs bd tr i =
     bind_result (evaluate e bs bd tr i) (\<lambda>v. eval_unary op v t)"
| "evaluate (Binary op l r t) bs bd tr i =
     bind_result (evaluate l bs bd tr i) (\<lambda>left.
       if op = ''and'' then (if py_truthy left then evaluate r bs bd tr i else Inr left)
       else if op = ''or'' then (if py_truthy left then Inr left else evaluate r bs bd tr i)
       else if op = ''implies'' then (if py_truthy left then evaluate r bs bd tr i else Inr (JBool True))
       else bind_result (evaluate r bs bd tr i) (\<lambda>right. eval_binary op left right t))"

definition evaluate_expression ::
    "expr \<Rightarrow> bindings \<Rightarrow> bindings list option \<Rightarrow> int \<Rightarrow> eval_exn + json" where
  "evaluate_expression e bs tr index =
     (if index < 0 \<or> (case tr of None \<Rightarrow> False | Some states \<Rightarrow> int (length states) \<le> index)
      then eval_error TraceIndex
      else evaluate e bs Map.empty tr (nat index))"

definition require_bool :: "json \<Rightarrow> eval_exn + bool" where
  "require_bool v = (case v of JBool b \<Rightarrow> Inr b | _ \<Rightarrow> eval_error NotBoolean)"

definition evaluate_invariant :: "invariant \<Rightarrow> bindings \<Rightarrow> eval_exn + bool" where
  "evaluate_invariant i bs = bind_result (evaluate_expression (inv_body i) bs None 0) require_bool"

definition evaluate_trace :: "invariant \<Rightarrow> bindings list \<Rightarrow> eval_exn + bool" where
  "evaluate_trace i tr = (case tr of
       [] \<Rightarrow> eval_error EmptyTrace
     | bs # _ \<Rightarrow> bind_result (evaluate_expression (inv_body i) bs (Some tr) 0) require_bool)"

end
