(* ===== verification/Xlir_Safety.thy ===== *)
theory Xlir_Safety
  imports Xlir_Evaluator
begin

text \<open>
  Type safety of evaluation. An expression the compiler accepts never makes the evaluator fail
  with anything but an EvaluationError, and its value has the dynamic kind of its type; if no
  \<open>shr\<close> is applied to an \<open>int256\<close>, the value is even in the range of its type.
\<close>

section \<open>Values of a type\<close>

lemma valid_value_BOOL: "valid_value v BOOL \<longleftrightarrow> (\<exists>b. v = JBool b)"
  by (cases v) (simp_all add: valid_value_def)

lemma valid_value_UINT256: "valid_value v UINT256 \<longleftrightarrow> (\<exists>i. v = JInt i \<and> 0 \<le> i \<and> i < 2 ^ 256)"
  by (cases v) (simp_all add: valid_value_def)

lemma valid_value_INT256: "valid_value v INT256 \<longleftrightarrow> (\<exists>i. v = JInt i \<and> - (2 ^ 255) \<le> i \<and> i < 2 ^ 255)"
  by (cases v) (simp_all add: valid_value_def)

lemmas valid_value_iffs = valid_value_BOOL valid_value_UINT256 valid_value_INT256

text \<open>
  The outcomes a well-typed evaluation may have: an EvaluationError, or a value that satisfies
  \<open>P\<close>. TypeError, ValueError, AssertionError and IndexError are excluded.
\<close>

definition safe_outcome :: "(json \<Rightarrow> bool) \<Rightarrow> eval_exn + json \<Rightarrow> bool" where
  "safe_outcome P r = (case r of
       Inl e \<Rightarrow> (case e of EvaluationError _ \<Rightarrow> True | _ \<Rightarrow> False)
     | Inr v \<Rightarrow> P v)"

lemma safe_outcome_simps [simp]:
  "safe_outcome P (Inr v) \<longleftrightarrow> P v"
  "safe_outcome P (Inl (EvaluationError r))"
  "\<not> safe_outcome P (Inl PyTypeError)" "\<not> safe_outcome P (Inl PyValueError)"
  "\<not> safe_outcome P (Inl PyIndexError)" "\<not> safe_outcome P (Inl AssertionError)"
  by (simp_all add: safe_outcome_def)

lemma safe_outcome_bind:
  "safe_outcome P r \<Longrightarrow> (\<And>v. r = Inr v \<Longrightarrow> P v \<Longrightarrow> safe_outcome Q (k v)) \<Longrightarrow>
   safe_outcome Q (bind_result r k)"
  by (cases r) (auto simp: safe_outcome_def)

lemma safe_outcome_validate: "safe_outcome (\<lambda>v. valid_value v t) (validate_value v t)"
  by (simp add: validate_value_def)

lemma safe_outcome_mono: "safe_outcome P r \<Longrightarrow> (\<And>v. P v \<Longrightarrow> Q v) \<Longrightarrow> safe_outcome Q r"
  by (cases r) (auto simp: safe_outcome_def)

lemma all_results_safe:
  "(\<And>x. x \<in> set xs \<Longrightarrow> safe_outcome P (f x)) \<Longrightarrow>
   safe_outcome (\<lambda>v. valid_value v BOOL) (all_results f xs)"
  by (induction xs) (auto simp: valid_value_BOOL intro!: safe_outcome_bind)

lemma any_results_safe:
  "(\<And>x. x \<in> set xs \<Longrightarrow> safe_outcome P (f x)) \<Longrightarrow>
   safe_outcome (\<lambda>v. valid_value v BOOL) (any_results f xs)"
  by (induction xs) (auto simp: valid_value_BOOL intro!: safe_outcome_bind)

section \<open>Operators\<close>

lemma normalize_integer_valid: "integer_type t \<Longrightarrow> valid_value (JInt (normalize_integer i t)) t"
proof -
  assume "integer_type t"
  have "0 \<le> i mod 2 ^ 256" "i mod 2 ^ 256 < 2 ^ 256" by simp_all
  then show ?thesis
    using \<open>integer_type t\<close>
    by (auto simp: integer_type_def normalize_integer_def uint256_limit_def valid_value_iffs Let_def)
qed

lemma trunc_div_range:
  fixes x y :: int
  assumes "- n \<le> x" "x < n" "y \<noteq> 0" "\<not> (x = - n \<and> y = -1)"
  shows "- n \<le> trunc_div x y \<and> trunc_div x y < n"
proof -
  have le: "\<bar>x\<bar> div \<bar>y\<bar> \<le> \<bar>x\<bar>"
    using zdiv_mono2 [of "\<bar>x\<bar>" 1 "\<bar>y\<bar>"] assms by simp
  have ge: "0 \<le> \<bar>x\<bar> div \<bar>y\<bar>"
    using assms by (simp add: pos_imp_zdiv_nonneg_iff)
  show ?thesis
  proof (cases "(x < 0) \<noteq> (y < 0)")
    case True
    with le ge assms show ?thesis by (auto simp: trunc_div_def)
  next
    case False
    have "\<bar>x\<bar> div \<bar>y\<bar> < n"
    proof (cases "\<bar>x\<bar> < n")
      case True
      with le show ?thesis by linarith
    next
      case no: False
      with assms False have "x = - n" "\<bar>y\<bar> > 1" "0 < n" by auto
      then show ?thesis by (simp add: int_div_less_self)
    qed
    with False le ge assms show ?thesis by (auto simp: trunc_div_def)
  qed
qed

lemma trunc_mod_range:
  fixes x y :: int
  assumes "- n \<le> y" "y < n" "y \<noteq> 0" "0 < n"
  shows "- n < trunc_mod x y \<and> trunc_mod x y < n"
proof -
  define m where "m = \<bar>x\<bar> mod \<bar>y\<bar>"
  have "0 \<le> m" "m < \<bar>y\<bar>" using assms by (simp_all add: m_def)
  moreover have "trunc_mod x y = (if x < 0 then - m else m)"
    by (simp add: trunc_mod_def m_def)
  moreover have "\<bar>y\<bar> \<le> n" using assms by simp
  ultimately show ?thesis by auto
qed

text \<open>
  The two strengths of the safety theorem share one induction. Every value is in the range of
  its type, except that without \<open>strict\<close> an \<open>int256\<close> may be any integer.
\<close>

definition value_ok :: "bool \<Rightarrow> json \<Rightarrow> value_type \<Rightarrow> bool" where
  "value_ok strict v t =
     (if strict \<or> t \<noteq> INT256 then valid_value v t else (case v of JInt _ \<Rightarrow> True | _ \<Rightarrow> False))"

lemma value_ok_valid: "valid_value v t \<Longrightarrow> value_ok strict v t"
  by (auto simp: value_ok_def valid_value_INT256)

lemma value_ok_integer: "value_ok strict v t \<Longrightarrow> integer_type t \<Longrightarrow> \<exists>i. v = JInt i"
  by (auto simp: value_ok_def integer_type_def valid_value_iffs split: if_splits json.splits)

lemma value_ok_BOOL: "value_ok strict v BOOL \<longleftrightarrow> (\<exists>b. v = JBool b)"
  by (auto simp: value_ok_def valid_value_BOOL)

lemma value_ok_JInt: "\<not> (strict \<or> t \<noteq> INT256) \<Longrightarrow> value_ok strict (JInt i) t"
  by (simp add: value_ok_def)

lemma eval_comparison_safe:
  assumes "op \<in> set comparison_binary \<or> op \<in> set ordering_binary \<and> integer_type t"
    and "value_ok strict l t" "value_ok strict r t"
  shows "safe_outcome (\<lambda>v. valid_value v BOOL) (eval_comparison op l r)"
proof (cases "op \<in> set comparison_binary")
  case True
  then show ?thesis
    by (auto simp: comparison_binary_def eval_comparison_def valid_value_BOOL)
next
  case False
  with assms obtain i j where "l = JInt i" "r = JInt j"
    using value_ok_integer by blast
  then show ?thesis
    by (simp add: eval_comparison_def valid_value_BOOL py_less_def py_less_eq_def py_int_op_def)
qed

lemma checked_integer_result_safe:
  "integer_type t \<Longrightarrow> safe_outcome (\<lambda>v. valid_value v t) (checked_integer_result (JInt i) t)"
  by (auto simp: integer_type_def checked_integer_result_def py_int_fun_def valid_value_iffs
      uint256_limit_def int256_min_def int256_max_def)

lemma trunc_div_valid:
  "valid_value (JInt i) INT256 \<Longrightarrow> j \<noteq> 0 \<Longrightarrow> \<not> (i = int256_min \<and> j = -1) \<Longrightarrow>
   valid_value (JInt (trunc_div i j)) INT256"
  using trunc_div_range [of "2 ^ 255" i j] by (simp add: valid_value_INT256 int256_min_def)

lemma trunc_mod_valid:
  "valid_value (JInt j) INT256 \<Longrightarrow> j \<noteq> 0 \<Longrightarrow> valid_value (JInt (trunc_mod i j)) INT256"
  using trunc_mod_range [of "2 ^ 255" j i] by (simp add: valid_value_INT256)

lemma unsigned_div_valid:
  "valid_value (JInt i) UINT256 \<Longrightarrow> valid_value (JInt j) UINT256 \<Longrightarrow> j \<noteq> 0 \<Longrightarrow>
   valid_value (JInt (i div j)) UINT256"
  using zdiv_mono2 [of i 1 j]
  by (auto simp: valid_value_UINT256 pos_imp_zdiv_nonneg_iff)

lemma unsigned_mod_valid:
  assumes "valid_value (JInt j) UINT256" "j \<noteq> 0"
  shows "valid_value (JInt (i mod j)) UINT256"
proof -
  have "0 < j" "j < 2 ^ 256" using assms by (auto simp: valid_value_UINT256)
  moreover from \<open>0 < j\<close> have "0 \<le> i mod j" "i mod j < j" by simp_all
  ultimately show ?thesis by (simp add: valid_value_UINT256)
qed

lemma eval_arithmetic_safe:
  assumes op: "op \<in> set arithmetic_binary" and t: "integer_type t"
    and l: "value_ok strict l t" and r: "value_ok strict r t"
  shows "safe_outcome (\<lambda>v. value_ok strict v t) (eval_arithmetic op l r t)"
proof -
  from l r t obtain i j where ij: "l = JInt i" "r = JInt j"
    using value_ok_integer by meson
  note py = py_add_def py_mul_def py_less_def py_int_op_def py_eq_def
  note checked = safe_outcome_mono [OF checked_integer_result_safe [OF t] value_ok_valid]
  from op consider "op = ''add''" | "op = ''sub''" | "op = ''mul''" | "op = ''div''" | "op = ''mod''"
    by (auto simp: arithmetic_binary_def)
  then show ?thesis
  proof cases
    case 2
    have "safe_outcome (\<lambda>v. value_ok strict v t) (checked_integer_result (JInt (i - j)) t)"
      by (rule checked)
    with 2 show ?thesis by (auto simp: eval_arithmetic_def ij py)
  next
    case 4
    have "value_ok strict (JInt (if t = INT256 then trunc_div i j else i div j)) t"
      if "j \<noteq> 0" "\<not> (t = INT256 \<and> i = int256_min \<and> j = -1)"
    proof (cases "strict \<or> t \<noteq> INT256")
      case True
      with that l r t show ?thesis
        by (auto simp: value_ok_def ij integer_type_def intro: trunc_div_valid unsigned_div_valid
            split: if_splits)
    qed (simp add: value_ok_JInt)
    with 4 show ?thesis
      by (auto simp: eval_arithmetic_def ij py split: if_splits)
  next
    case 5
    have "value_ok strict (JInt (if t = INT256 then trunc_mod i j else i mod j)) t" if "j \<noteq> 0"
    proof (cases "strict \<or> t \<noteq> INT256")
      case True
      with that l r t show ?thesis
        by (auto simp: value_ok_def ij integer_type_def intro: trunc_mod_valid unsigned_mod_valid)
    qed (simp add: value_ok_JInt)
    with 5 show ?thesis
      by (auto simp: eval_arithmetic_def ij py split: if_splits)
  qed (simp_all add: eval_arithmetic_def ij py checked)
qed

lemma eval_bitwise_safe:
  assumes "integer_type t" "value_ok strict l t" "value_ok strict r t"
  shows "safe_outcome (\<lambda>v. valid_value v t) (eval_bitwise op l r t)"
proof -
  from assms obtain i j where "l = JInt i" "r = JInt j"
    using value_ok_integer by meson
  with assms(1) show ?thesis
    by (simp add: eval_bitwise_def py_int_op_def normalize_integer_valid)
qed

lemma drop_bit_valid:
  assumes "valid_value (JInt i) t" "integer_type t"
  shows "valid_value (JInt (drop_bit n i)) t"
proof -
  have pos: "1 \<le> (2::int) ^ n" by simp
  have "drop_bit n i = i div 2 ^ n" by (simp add: drop_bit_eq_div)
  moreover have "i div 2 ^ n \<le> i" if "0 \<le> i"
    using zdiv_mono2 [of i 1 "2 ^ n"] that pos by simp
  moreover have "0 \<le> i div 2 ^ n" if "0 \<le> i"
    using that by (simp add: pos_imp_zdiv_nonneg_iff)
  moreover have "i \<le> i div 2 ^ n \<and> i div 2 ^ n < 0" if "i < 0"
    using that zdiv_mono2_neg [of i 1 "2 ^ n"] pos by (simp add: pos_imp_zdiv_neg_iff)
  ultimately show ?thesis
    using assms by (cases "0 \<le> i") (fastforce simp: integer_type_def valid_value_iffs)+
qed

lemma valid_value_small: "integer_type t \<Longrightarrow> valid_value (JInt 0) t"
  by (auto simp: integer_type_def valid_value_iffs)

lemma eval_shift_safe:
  assumes op: "op \<in> set shift_binary" and t: "integer_type t" and sar: "op = ''sar'' \<Longrightarrow> t = INT256"
    and strict: "strict \<Longrightarrow> op = ''shr'' \<Longrightarrow> t \<noteq> INT256"
    and l: "value_ok strict l t" and r: "valid_value r UINT256"
  shows "safe_outcome (\<lambda>v. value_ok strict v t) (eval_shift op l r t)"
proof -
  from l t obtain i where i: "l = JInt i" using value_ok_integer by blast
  from r obtain j where j: "r = JInt j" "0 \<le> j" by (auto simp: valid_value_UINT256)
  note small = value_ok_valid [OF valid_value_small [OF t]]
  note py = py_less_def py_less_eq_def py_int_op_def
  from op consider "op = ''shl''" | "op = ''shr''" | "op = ''sar''" by (auto simp: shift_binary_def)
  then show ?thesis
  proof cases
    case 1
    with j small show ?thesis
      by (simp add: eval_shift_def i py value_ok_valid normalize_integer_valid t)
  next
    case 2
    have "value_ok strict (JInt (drop_bit (nat j) (normalize_integer i UINT256))) t"
    proof (cases "strict \<or> t \<noteq> INT256")
      case True
      with strict 2 t have "t = UINT256" by (auto simp: integer_type_def)
      moreover have "valid_value (JInt (normalize_integer i UINT256)) UINT256"
        by (rule normalize_integer_valid) (simp add: integer_type_def)
      ultimately show ?thesis using t by (simp add: value_ok_valid drop_bit_valid)
    qed (simp add: value_ok_JInt)
    with 2 j small show ?thesis by (simp add: eval_shift_def i py)
  next
    case 3
    have "value_ok strict (JInt (drop_bit (nat j) i)) t"
    proof (cases "strict \<or> t \<noteq> INT256")
      case True
      with l t show ?thesis by (simp add: value_ok_def i drop_bit_valid)
    qed (simp add: value_ok_JInt)
    moreover have "value_ok strict (JInt (- 1)) t"
      using 3 sar by (simp add: value_ok_valid valid_value_INT256)
    ultimately show ?thesis using 3 j small by (simp add: eval_shift_def i py)
  qed
qed

lemma eval_unary_safe:
  assumes "op = ''not'' \<and> t = BOOL \<or> op = ''neg'' \<and> t = INT256 \<or> op = ''bitnot'' \<and> integer_type t"
    and "value_ok strict v t"
  shows "safe_outcome (\<lambda>v. value_ok strict v t) (eval_unary op v t)"
  using assms(1)
proof (elim disjE conjE)
  assume "op = ''not''" "t = BOOL"
  then show ?thesis by (simp add: eval_unary_def value_ok_BOOL)
next
  assume op: "op = ''neg''" and t: "t = INT256"
  then have ty: "integer_type t" by (simp add: integer_type_def)
  with assms(2) obtain i where i: "v = JInt i" using value_ok_integer by blast
  have "value_ok strict (JInt (- i)) t" if "i \<noteq> int256_min"
  proof (cases "strict \<or> t \<noteq> INT256")
    case True
    with assms(2) t that show ?thesis
      by (simp add: value_ok_def i valid_value_INT256 int256_min_def)
  qed (simp add: value_ok_JInt)
  with op t show ?thesis by (simp add: eval_unary_def i py_eq_def py_int_fun_def)
next
  assume op: "op = ''bitnot''" and t: "integer_type t"
  with assms(2) obtain i where "v = JInt i" using value_ok_integer by blast
  with op t show ?thesis
    by (simp add: eval_unary_def py_int_fun_def value_ok_valid normalize_integer_valid)
qed

section \<open>Expressions\<close>

text \<open>No \<open>shr\<close> on \<open>int256\<close> operands anywhere in the expression.\<close>

fun no_signed_shr :: "expr \<Rightarrow> bool" where
  "no_signed_shr (Unary op e t) = no_signed_shr e"
| "no_signed_shr (Binary op l r t) =
     (\<not> (op = ''shr'' \<and> t = INT256) \<and> no_signed_shr l \<and> no_signed_shr r)"
| "no_signed_shr (Quantifier op x xt lits e t) = no_signed_shr e"
| "no_signed_shr (Temporal op e h t) = no_signed_shr e"
| "no_signed_shr _ = True"

definition env_ok :: "(string \<rightharpoonup> value_type) \<Rightarrow> (string \<rightharpoonup> json) \<Rightarrow> bool" where
  "env_ok \<Gamma> bd = (\<forall>x t. \<Gamma> x = Some t \<longrightarrow> (\<exists>v. bd x = Some v \<and> valid_value v t))"

lemma env_ok_upd: "env_ok \<Gamma> bd \<Longrightarrow> valid_value v t \<Longrightarrow> env_ok (\<Gamma>(x \<mapsto> t)) (bd(x \<mapsto> v))"
  by (auto simp: env_ok_def)

text \<open>A trace index is usable when there is no trace or the index lies in it.\<close>

definition index_ok :: "bindings list option \<Rightarrow> nat \<Rightarrow> bool" where
  "index_ok tr i = (case tr of None \<Rightarrow> True | Some states \<Rightarrow> i < length states)"

lemma once_positions_less: "p \<in> set (once_positions i h) \<Longrightarrow> p \<le> i"
  by (auto simp: once_positions_def simp del: upt_Suc)

lemma eval_binary_strict: "op \<notin> set boolean_binary \<Longrightarrow>
  evaluate (Binary op l r t) bs bd tr i =
    bind_result (evaluate l bs bd tr i) (\<lambda>left.
    bind_result (evaluate r bs bd tr i) (\<lambda>right. eval_binary op left right t))"
  by (simp add: boolean_binary_def)

lemmas operator_disjoint =
  comparison_binary_only [unfolded list_all_iff, THEN bspec]
  ordering_binary_only [unfolded list_all_iff, THEN bspec]
  arithmetic_binary_only [unfolded list_all_iff, THEN bspec]
  bitwise_binary_only [unfolded list_all_iff, THEN bspec]
  shift_binary_only [unfolded list_all_iff, THEN bspec]

lemma validate_literals:
  "list_all (\<lambda>l. lit_type l = t \<and> valid_value (lit_value l) t) lits \<Longrightarrow>
   map_result (\<lambda>l. validate_value (lit_value l) (lit_type l)) lits = Inr (map lit_value lits)"
  by (rule map_result_all_Inr) (auto simp: list_all_iff validate_value_def)

lemma quantified_results_safe:
  assumes "\<And>x. x \<in> set xs \<Longrightarrow> safe_outcome (\<lambda>v. value_ok strict v BOOL) (f x)"
  shows "safe_outcome (\<lambda>v. value_ok strict v BOOL) (all_results f xs)"
    and "safe_outcome (\<lambda>v. value_ok strict v BOOL) (any_results f xs)"
  by (rule safe_outcome_mono, rule all_results_safe, erule assms, erule value_ok_valid)
     (rule safe_outcome_mono, rule any_results_safe, erule assms, erule value_ok_valid)

lemma evaluate_binary_safe:
  assumes "op \<notin> set boolean_binary"
    and "safe_outcome P (evaluate l bs bd tr i)" "safe_outcome Q (evaluate r bs bd tr i)"
    and "\<And>lv rv. P lv \<Longrightarrow> Q rv \<Longrightarrow> safe_outcome R (eval_binary op lv rv t)"
  shows "safe_outcome R (evaluate (Binary op l r t) bs bd tr i)"
  unfolding eval_binary_strict [OF assms(1)]
  by (intro safe_outcome_bind [OF assms(2)] safe_outcome_bind [OF assms(3)] assms(4))

lemma eval_binary_safe:
  shows "op \<in> set comparison_binary \<or> op \<in> set ordering_binary \<and> integer_type t \<Longrightarrow>
      value_ok strict lv t \<Longrightarrow> value_ok strict rv t \<Longrightarrow>
      safe_outcome (\<lambda>v. value_ok strict v BOOL) (eval_binary op lv rv BOOL)"
    and "op \<in> set arithmetic_binary \<union> set bitwise_binary \<Longrightarrow> integer_type t \<Longrightarrow>
      value_ok strict lv t \<Longrightarrow> value_ok strict rv t \<Longrightarrow>
      safe_outcome (\<lambda>v. value_ok strict v t) (eval_binary op lv rv t)"
    and "op \<in> set shift_binary \<Longrightarrow> integer_type t \<Longrightarrow> (op = ''sar'' \<Longrightarrow> t = INT256) \<Longrightarrow>
      (strict \<Longrightarrow> op = ''shr'' \<Longrightarrow> t \<noteq> INT256) \<Longrightarrow> value_ok strict lv t \<Longrightarrow>
      value_ok strict rv UINT256 \<Longrightarrow> safe_outcome (\<lambda>v. value_ok strict v t) (eval_binary op lv rv t)"
proof -
  assume h: "op \<in> set comparison_binary \<or> op \<in> set ordering_binary \<and> integer_type t"
    "value_ok strict lv t" "value_ok strict rv t"
  then have "eval_binary op lv rv BOOL = eval_comparison op lv rv"
    by (auto simp: eval_binary_def)
  then show "safe_outcome (\<lambda>v. value_ok strict v BOOL) (eval_binary op lv rv BOOL)"
    using safe_outcome_mono [OF eval_comparison_safe [OF h] value_ok_valid] by simp
next
  assume h: "op \<in> set arithmetic_binary \<union> set bitwise_binary" "integer_type t"
    "value_ok strict lv t" "value_ok strict rv t"
  show "safe_outcome (\<lambda>v. value_ok strict v t) (eval_binary op lv rv t)"
  proof (cases "op \<in> set arithmetic_binary")
    case True
    with eval_arithmetic_safe [OF True h(2-4)] operator_disjoint(3) [OF True] show ?thesis
      by (simp add: eval_binary_def)
  next
    case False
    with h(1) have op: "op \<in> set bitwise_binary" by simp
    with safe_outcome_mono [OF eval_bitwise_safe [OF h(2-4), of op] value_ok_valid]
      operator_disjoint(4) [OF op] show ?thesis
      by (simp add: eval_binary_def)
  qed
next
  assume h: "op \<in> set shift_binary" "integer_type t" "op = ''sar'' \<Longrightarrow> t = INT256"
    "strict \<Longrightarrow> op = ''shr'' \<Longrightarrow> t \<noteq> INT256" "value_ok strict lv t"
  assume "value_ok strict rv UINT256"
  then have "valid_value rv UINT256" by (simp add: value_ok_def)
  have "eval_binary op lv rv t = eval_shift op lv rv t"
    using h(1) operator_disjoint(5) [OF h(1)] by (simp only: eval_binary_def Un_iff simp_thms if_True if_False)
  with eval_shift_safe [OF h \<open>valid_value rv UINT256\<close>]
  show "safe_outcome (\<lambda>v. value_ok strict v t) (eval_binary op lv rv t)"
    by (simp only:)
qed

theorem evaluate_safe:
  "xlir_typed \<Sigma> \<Gamma> e t \<Longrightarrow> env_ok \<Gamma> bd \<Longrightarrow> index_ok tr i \<Longrightarrow> (strict \<Longrightarrow> no_signed_shr e) \<Longrightarrow>
   safe_outcome (\<lambda>v. value_ok strict v t) (evaluate e bs bd tr i)"
proof (induction arbitrary: bs bd i rule: xlir_typed.induct)
  case (symbol sid a t st \<Gamma>)
  show ?case
    by (simp add: validate_value_def value_ok_valid split: option.split)
next
  case (bound x \<Gamma> t)
  then show ?case
    by (auto simp: env_ok_def validate_value_def value_ok_valid split: option.split)
next
  case (lit v t \<Gamma>)
  then show ?case by (simp add: validate_value_def value_ok_valid)
next
  case (not \<Gamma> e)
  then have e: "safe_outcome (\<lambda>v. value_ok strict v BOOL) (evaluate e bs bd tr i)" by simp
  show ?case using not.hyps by (auto intro!: safe_outcome_bind [OF e] eval_unary_safe)
next
  case (neg \<Gamma> e)
  then have e: "safe_outcome (\<lambda>v. value_ok strict v INT256) (evaluate e bs bd tr i)" by simp
  show ?case using neg.hyps by (auto intro!: safe_outcome_bind [OF e] eval_unary_safe)
next
  case (bitnot t \<Gamma> e)
  then have e: "safe_outcome (\<lambda>v. value_ok strict v t) (evaluate e bs bd tr i)" by simp
  show ?case using bitnot.hyps by (auto intro!: safe_outcome_bind [OF e] eval_unary_safe)
next
  case (boolean op \<Gamma> l r)
  from boolean.IH boolean.prems
  have l: "safe_outcome (\<lambda>v. value_ok strict v BOOL) (evaluate l bs bd tr i)"
    and r: "safe_outcome (\<lambda>v. value_ok strict v BOOL) (evaluate r bs bd tr i)"
    by auto
  have connective: "op = ''and'' \<or> op = ''or'' \<or> op = ''implies''"
    using boolean.hyps(1) by (simp add: boolean_binary_def)
  have truth: "value_ok strict (JBool b) BOOL" for b
    by (simp add: value_ok_BOOL)
  show ?case
    unfolding evaluate.simps
  proof (rule safe_outcome_bind [OF l], goal_cases)
    case (1 v)
    then obtain b where "v = JBool b" by (auto simp: value_ok_BOOL)
    with connective r truth show ?case by (cases b) auto
  qed
next
  case (comparison op \<Gamma> l t r)
  from operator_disjoint(1) [OF comparison.hyps(1)] have op: "op \<notin> set boolean_binary" by blast
  have "op \<in> set comparison_binary \<or> op \<in> set ordering_binary \<and> integer_type t"
    using comparison.hyps by simp
  note cmp = eval_binary_safe(1) [OF this]
  show ?case
    by (rule evaluate_binary_safe [OF op, of "\<lambda>v. value_ok strict v t" _ _ _ _ _ "\<lambda>v. value_ok strict v t"])
       (use comparison.IH comparison.prems cmp in auto)
next
  case (ordering op t \<Gamma> l r)
  from operator_disjoint(2) [OF ordering.hyps(1)] have op: "op \<notin> set boolean_binary" by blast
  have "op \<in> set comparison_binary \<or> op \<in> set ordering_binary \<and> integer_type t"
    using ordering.hyps by simp
  note cmp = eval_binary_safe(1) [OF this]
  show ?case
    by (rule evaluate_binary_safe [OF op, of "\<lambda>v. value_ok strict v t" _ _ _ _ _ "\<lambda>v. value_ok strict v t"])
       (use ordering.IH ordering.prems cmp in auto)
next
  case (arith op t \<Gamma> l r)
  from arith.hyps(1) have op: "op \<notin> set boolean_binary"
    using operator_disjoint(3,4) by blast
  show ?case
    by (rule evaluate_binary_safe [OF op, of "\<lambda>v. value_ok strict v t" _ _ _ _ _ "\<lambda>v. value_ok strict v t"])
       (use arith.IH arith.prems eval_binary_safe(2) [OF arith.hyps(1,2)] in auto)
next
  case (shift op t \<Gamma> l r)
  from operator_disjoint(5) [OF shift.hyps(1)] have op: "op \<notin> set boolean_binary" by blast
  show ?case
    by (rule evaluate_binary_safe [OF op, of "\<lambda>v. value_ok strict v t" _ _ _ _ _
            "\<lambda>v. value_ok strict v UINT256"])
       (use shift.IH shift.prems eval_binary_safe(3) [OF shift.hyps(1-3)] in auto)
next
  case (quantifier op x \<Gamma> t lits e)
  have "safe_outcome (\<lambda>v. value_ok strict v BOOL) (evaluate e bs (bd(x \<mapsto> v)) tr i)"
    if "v \<in> set (map lit_value lits)" for v
    using quantifier that by (intro quantifier.IH env_ok_upd) (auto simp: list_all_iff)
  then have "safe_outcome (\<lambda>v. value_ok strict v BOOL)
        (all_results (\<lambda>v. evaluate e bs (bd(x \<mapsto> v)) tr i) (map lit_value lits))"
      "safe_outcome (\<lambda>v. value_ok strict v BOOL)
        (any_results (\<lambda>v. evaluate e bs (bd(x \<mapsto> v)) tr i) (map lit_value lits))"
    by (intro quantified_results_safe; simp)+
  with quantifier.hyps(1) show ?case
    by (auto simp: validate_literals [OF quantifier.hyps(4)])
next
  case (once h \<Gamma> e)
  show ?case
  proof (cases tr)
    case (Some states)
    with once.prems(2) have "p < length states" if "p \<in> set (once_positions i h)" for p
      using once_positions_less [OF that] by (simp add: index_ok_def)
    with once Some show ?thesis
      by (auto simp: trace_at_def index_ok_def intro!: quantified_results_safe)
  qed simp
next
  case (globally \<Gamma> e)
  show ?case
  proof (cases tr)
    case (Some states)
    with globally show ?thesis
      by (auto simp: trace_at_def index_ok_def intro!: quantified_results_safe)
  qed simp
qed

end
