(* ===== verification/Xlir_Lowering.thy ===== *)
theory Xlir_Lowering
  imports Xlir_Safety
begin

text \<open>
  The solver-neutral lowering (\<^verbatim>\<open>xlir/lowering.py\<close>): SMT-LIB terms as strings, one solver node
  per lowered expression node, and the table of symbol names. The list of nodes and the table,
  which the source mutates, are the state \<open>lstate\<close>. A diagnostic keeps its path and code.
\<close>

record solver_node =
  node_id :: string
  xlir_path :: string
  node_sort :: string
  node_term :: string

record lstate =
  lnodes :: "solver_node list"
  symbol_names :: "string dict"

text \<open>
  \<open>LowerFailure\<close> is the ValueError the code raises with a path; the others are Python errors
  that only a malformed AST can cause: the \<^verbatim>\<open>assert\<close> on a missing horizon, the empty list of
  positions of a negative one, and a literal whose value does not fit its type.
\<close>

datatype lower_exn = LowerFailure string | LowerAssertion | LowerIndexError | LowerLiteral

fun sort_name :: "value_type \<Rightarrow> string" where
  "sort_name BOOL = ''Bool''"
| "sort_name UINT256 = ''(_ BitVec 256)''"
| "sort_name INT256 = ''(_ BitVec 256)''"
| "sort_name ADDRESS = ''(_ BitVec 160)''"
| "sort_name BYTES32 = ''(_ BitVec 256)''"

definition binary_table :: "string dict" where
  "binary_table =
     [(''and'', ''and''), (''or'', ''or''), (''implies'', ''=>''), (''eq'', ''=''),
      (''neq'', ''distinct''), (''ge'', ''bvuge''), (''le'', ''bvule''), (''gt'', ''bvugt''),
      (''lt'', ''bvult''), (''add'', ''bvadd''), (''sub'', ''bvsub''), (''mul'', ''bvmul''),
      (''band'', ''bvand''), (''bor'', ''bvor''), (''bxor'', ''bvxor''), (''shl'', ''bvshl''),
      (''shr'', ''bvlshr''), (''sar'', ''bvashr'')]"

definition bv_numeral :: "int \<Rightarrow> string \<Rightarrow> string" where
  "bv_numeral i width = ''(_ bv'' @ string_of_int i @ '' '' @ width @ '')''"

definition hex_value :: "json \<Rightarrow> int option" where
  "hex_value v = (case v of JStr s \<Rightarrow> py_int16 (drop 2 s) | _ \<Rightarrow> None)"

definition literal_term :: "literal \<Rightarrow> lower_exn + string" where
  "literal_term l = (case (lit_type l, lit_value l) of
       (BOOL, JBool b) \<Rightarrow> Inr (if b then ''true'' else ''false'')
     | (UINT256, JInt i) \<Rightarrow> Inr (bv_numeral i ''256'')
     | (INT256, JInt i) \<Rightarrow> Inr (bv_numeral (if i < 0 then i mod 2 ^ 256 else i) ''256'')
     | (ADDRESS, v) \<Rightarrow> (case hex_value v of Some i \<Rightarrow> Inr (bv_numeral i ''160'') | None \<Rightarrow> Inl LowerLiteral)
     | (BYTES32, v) \<Rightarrow> (case hex_value v of Some i \<Rightarrow> Inr (bv_numeral i ''256'') | None \<Rightarrow> Inl LowerLiteral)
     | _ \<Rightarrow> Inl LowerLiteral)"

text \<open>Create the node, append it to the list and return it.\<close>

definition emit :: "string \<Rightarrow> string \<Rightarrow> string \<Rightarrow> lstate \<Rightarrow> lower_exn + solver_node \<times> lstate" where
  "emit path srt trm st =
     (let node = \<lparr>node_id = CHR ''n'' # string_of_nat (length (lnodes st)), xlir_path = path,
                  node_sort = srt, node_term = trm\<rparr>
      in Inr (node, st\<lparr>lnodes := lnodes st @ [node]\<rparr>))"

definition binding_key :: "string \<Rightarrow> string \<Rightarrow> string \<Rightarrow> nat option \<Rightarrow> nat \<Rightarrow> string" where
  "binding_key sid state domain trace_length index =
     sid @ ''|'' @ state @ ''|'' @ domain @
     (case trace_length of None \<Rightarrow> '''' | Some _ \<Rightarrow> ''|trace_index='' @ string_of_nat index)"

text \<open>\<^verbatim>\<open>symbol_names.setdefault(key, name)\<close>.\<close>

definition symbol_name :: "(json \<Rightarrow> string) \<Rightarrow> string \<Rightarrow> lstate \<Rightarrow> string \<times> lstate" where
  "symbol_name sha key st = (case dict_get (symbol_names st) key of
       Some name \<Rightarrow> (name, st)
     | None \<Rightarrow> let name = ''s_'' @ take 16 (sha (JStr key))
               in (name, st\<lparr>symbol_names := dict_put key name (symbol_names st)\<rparr>))"

definition binary_operator :: "string \<Rightarrow> value_type \<Rightarrow> string option" where
  "binary_operator op left_type = (case dict_get binary_table op of
       None \<Rightarrow> None
     | Some base \<Rightarrow>
         let ordered =
           (if left_type = INT256 \<and> op = ''ge'' then ''bvsge''
            else if left_type = INT256 \<and> op = ''le'' then ''bvsle''
            else if left_type = INT256 \<and> op = ''gt'' then ''bvsgt''
            else if left_type = INT256 \<and> op = ''lt'' then ''bvslt''
            else base);
           divided = (if op = ''div'' then (if left_type = INT256 then ''bvsdiv'' else ''bvudiv'') else ordered);
           reduced = (if op = ''mod'' then (if left_type = INT256 then ''bvsrem'' else ''bvurem'') else divided)
         in Some reduced)"

definition apply_term :: "string \<Rightarrow> string list \<Rightarrow> string" where
  "apply_term op args = ''('' @ op @ concat (map (\<lambda>a. '' '' @ a) args) @ '')''"

definition lower_unary ::
    "string \<Rightarrow> value_type \<Rightarrow> string \<Rightarrow> solver_node \<Rightarrow> lstate \<Rightarrow> lower_exn + solver_node \<times> lstate" where
  "lower_unary op t path operand st =
     (if op = ''not'' then
        (if node_sort operand \<noteq> ''Bool'' then Inl (LowerFailure path)
         else emit path (sort_name t) (apply_term ''not'' [node_term operand]) st)
      else if op = ''neg'' then
        (if t \<noteq> INT256 then Inl (LowerFailure path)
         else emit path (sort_name t) (apply_term ''bvneg'' [node_term operand]) st)
      else if op = ''bitnot'' then
        (if \<not> integer_type t then Inl (LowerFailure path)
         else emit path (sort_name t) (apply_term ''bvnot'' [node_term operand]) st)
      else Inl (LowerFailure path))"

definition lower_binary ::
    "string \<Rightarrow> value_type \<Rightarrow> value_type \<Rightarrow> string \<Rightarrow> solver_node \<Rightarrow> solver_node \<Rightarrow> lstate
       \<Rightarrow> lower_exn + solver_node \<times> lstate" where
  "lower_binary op left_type t path left right st = (case binary_operator op left_type of
       None \<Rightarrow> Inl (LowerFailure (path @ ''.operator''))
     | Some smt \<Rightarrow> emit path (sort_name t) (apply_term smt [node_term left, node_term right]) st)"

definition quantifier_term :: "string \<Rightarrow> string list \<Rightarrow> string option" where
  "quantifier_term op terms =
     (if op = ''forall'' then Some (if terms = [] then ''true'' else apply_term ''and'' terms)
      else if op = ''exists'' then Some (if terms = [] then ''false'' else apply_term ''or'' terms)
      else None)"

definition temporal_term :: "string \<Rightarrow> string list \<Rightarrow> lower_exn + string" where
  "temporal_term smt terms = (case terms of
       [] \<Rightarrow> Inl LowerIndexError
     | [a] \<Rightarrow> Inr a
     | _ \<Rightarrow> Inr (apply_term smt terms))"

fun lower_expression ::
    "(json \<Rightarrow> string) \<Rightarrow> expr \<Rightarrow> string \<Rightarrow> (string \<rightharpoonup> literal) \<Rightarrow> nat \<Rightarrow> nat option \<Rightarrow> lstate
       \<Rightarrow> lower_exn + solver_node \<times> lstate" where
  "lower_expression sha (SymbolRef sid t dm s) path bd i tlen st =
     (case symbol_name sha (binding_key sid s dm tlen i) st of
        (name, st1) \<Rightarrow> emit path (sort_name t) name st1)"
| "lower_expression sha (BoundRef x t) path bd i tlen st =
     (case bd x of
        None \<Rightarrow> Inl (LowerFailure path)
      | Some l \<Rightarrow> bind_result (literal_term l) (\<lambda>trm. emit path (sort_name (lit_type l)) trm st))"
| "lower_expression sha (Lit l) path bd i tlen st =
     bind_result (literal_term l) (\<lambda>trm. emit path (sort_name (lit_type l)) trm st)"
| "lower_expression sha (Unary op e t) path bd i tlen st =
     bind_result (lower_expression sha e (path @ ''.operand'') bd i tlen st) (\<lambda>(operand, st1).
       lower_unary op t path operand st1)"
| "lower_expression sha (Binary op l r t) path bd i tlen st =
     bind_result (lower_expression sha l (path @ ''.left'') bd i tlen st) (\<lambda>(left, st1).
     bind_result (lower_expression sha r (path @ ''.right'') bd i tlen st1) (\<lambda>(right, st2).
       lower_binary op (vtype l) t path left right st2))"
| "lower_expression sha (Quantifier op x xt lits e t) path bd i tlen st =
     bind_result
       (fold_result (\<lambda>(k, l) s.
          bind_result (lower_expression sha e (index_path path k @ ''.body'') (bd(x \<mapsto> l)) i tlen s)
            (\<lambda>(b, s1). if node_sort b \<noteq> ''Bool'' then Inl (LowerFailure path) else Inr (node_term b, s1)))
          (enumerate 0 lits) st)
       (\<lambda>(terms, st1). case quantifier_term op terms of
            None \<Rightarrow> Inl (LowerFailure path)
          | Some trm \<Rightarrow> emit path ''Bool'' trm st1)"
| "lower_expression sha (Temporal op e h t) path bd i tlen st =
     (case tlen of
        None \<Rightarrow> Inl (LowerFailure path)
      | Some n \<Rightarrow>
          bind_result
            (if op = ''once'' then (case h of None \<Rightarrow> Inl LowerAssertion
                                    | Some horizon \<Rightarrow> Inr (''or'', once_positions i horizon))
             else if op = ''globally'' then Inr (''and'', [0 ..< n])
             else Inl (LowerFailure path)) (\<lambda>(smt, positions).
          bind_result
            (fold_result (\<lambda>p s.
               bind_result (lower_expression sha e (path @ ''.index['' @ string_of_nat p @ '']'') bd p tlen s)
                 (\<lambda>(b, s1). Inr (node_term b, s1)))
               positions st) (\<lambda>(terms, st1).
          bind_result (temporal_term smt terms) (\<lambda>trm. emit path ''Bool'' trm st1))))"

section \<open>Lowering an invariant\<close>

record solver_ir =
  ir_invariant_id :: "string option"
  ir_root :: solver_node
  ir_nodes :: "solver_node list"
  source_map :: "string dict"
  ir_symbol_names :: "string dict"
  invariant_hash :: string
  ir_trace_length :: "nat option"

record lowering_result =
  ir :: "solver_ir option"
  lower_diagnostics :: "diagnostic list"

definition lowering_failure :: "string \<Rightarrow> string \<Rightarrow> lowering_result" where
  "lowering_failure path code = \<lparr>ir = None, lower_diagnostics = [Diagnostic path code]\<rparr>"

definition lower_ir ::
    "(json \<Rightarrow> string) \<Rightarrow> invariant \<Rightarrow> nat option \<Rightarrow> solver_node \<Rightarrow> lstate \<Rightarrow> solver_ir" where
  "lower_ir sha i tlen root st =
     \<lparr>ir_invariant_id = invariant_id i, ir_root = root, ir_nodes = lnodes st,
      source_map = map (\<lambda>n. (node_id n, xlir_path n)) (lnodes st),
      ir_symbol_names = symbol_names st,
      invariant_hash = sha (JObj
        [(''invariant_hash'', JStr (canonical_hash i)), (''root'', JStr (node_term root)),
         (''trace_length'', case tlen of None \<Rightarrow> JNull | Some n \<Rightarrow> JInt (int n))]),
      ir_trace_length = tlen\<rparr>"

definition lower :: "(json \<Rightarrow> string) \<Rightarrow> invariant \<Rightarrow> int option \<Rightarrow> lower_exn + lowering_result" where
  "lower sha i trace_length =
     (if (case trace_length of None \<Rightarrow> False | Some n \<Rightarrow> n \<le> 0)
      then Inr (lowering_failure ''$'' ''invalid_trace_length'')
      else let tlen = map_option nat trace_length in
        (case lower_expression sha (inv_body i) ''$.body'' Map.empty 0 tlen
                \<lparr>lnodes = [], symbol_names = []\<rparr> of
           Inl (LowerFailure path) \<Rightarrow> Inr (lowering_failure path ''unsupported_node'')
         | Inl e \<Rightarrow> Inl e
         | Inr (root, st) \<Rightarrow>
             if node_sort root \<noteq> ''Bool'' then Inr (lowering_failure ''$.body'' ''non_boolean_root'')
             else Inr \<lparr>ir = Some (lower_ir sha i tlen root st), lower_diagnostics = []\<rparr>))"

section \<open>The terms are well-formed\<close>

text \<open>
  The grammar the emitted strings belong to: an atom without spaces and parentheses, or a
  parenthesised application of an atom to terms.
\<close>

definition smt_atom :: "string \<Rightarrow> bool" where
  "smt_atom s = (s \<noteq> [] \<and> list_all (\<lambda>c. c \<notin> {CHR ''('', CHR '')'', CHR '' ''}) s)"

inductive smt_term :: "string \<Rightarrow> bool" where
  atom: "smt_atom s \<Longrightarrow> smt_term s"
| app: "smt_atom f \<Longrightarrow> args \<noteq> [] \<Longrightarrow> list_all smt_term args \<Longrightarrow> smt_term (apply_term f args)"
monos list.pred_mono

lemma smt_atom_append [simp]:
  "s \<noteq> [] \<Longrightarrow> t \<noteq> [] \<Longrightarrow> smt_atom (s @ t) \<longleftrightarrow> smt_atom s \<and> smt_atom t"
  by (auto simp: smt_atom_def)

lemma smt_atom_digit: "n < 10 \<Longrightarrow> smt_atom [digit_char n]"
proof -
  have "list_all (\<lambda>k. smt_atom [digit_char k]) [0 ..< 10]"
    by (simp add: smt_atom_def digit_char_def upt_rec)
  then show "n < 10 \<Longrightarrow> smt_atom [digit_char n]" by (auto simp: list_all_iff)
qed

lemma smt_atom_string_of_nat: "smt_atom (string_of_nat n)"
proof (induction n rule: string_of_nat.induct)
  case (1 n)
  then show ?case
    by (cases "n < 10") (simp_all add: string_of_nat_small string_of_nat_large smt_atom_digit)
qed

lemma smt_atom_string_of_int: "smt_atom (string_of_int i)"
  using smt_atom_string_of_nat [of "nat (- i)"] smt_atom_string_of_nat [of "nat i"]
  by (auto simp: string_of_int_def smt_atom_def)

lemma smt_term_bv: "smt_atom width \<Longrightarrow> smt_term (bv_numeral i width)"
proof -
  assume width: "smt_atom width"
  have "smt_atom (''bv'' @ string_of_int i)"
    using smt_atom_string_of_int [of i] by (auto simp: smt_atom_def)
  with width have "smt_term (apply_term ''_'' [''bv'' @ string_of_int i, width])"
    by (intro smt_term.app) (auto simp: smt_atom_def intro: smt_term.atom)
  then show ?thesis by (simp add: apply_term_def bv_numeral_def)
qed

lemma literal_term_valid:
  "valid_value (lit_value l) (lit_type l) \<Longrightarrow> \<exists>s. literal_term l = Inr s \<and> smt_term s"
proof -
  have w: "smt_atom ''256''" "smt_atom ''160''" by (simp_all add: smt_atom_def)
  have b: "smt_term ''true''" "smt_term ''false''"
    by (rule smt_term.atom, simp add: smt_atom_def)+
  assume "valid_value (lit_value l) (lit_type l)"
  with w b show ?thesis
    by (cases "lit_type l"; cases "lit_value l")
       (auto simp: valid_value_def literal_term_def is_hex_literal_def hex_value_def
             intro: smt_term_bv)
qed

section \<open>The lowering of a typed expression\<close>

text \<open>
  Which typed expressions have a lowering: no division or remainder in a part that is reached
  (the body of a quantifier over an empty domain is not), and a trace length for temporal nodes.
\<close>

fun lowers :: "nat option \<Rightarrow> expr \<Rightarrow> bool" where
  "lowers tlen (Unary op e t) = lowers tlen e"
| "lowers tlen (Binary op l r t) = (op \<noteq> ''div'' \<and> op \<noteq> ''mod'' \<and> lowers tlen l \<and> lowers tlen r)"
| "lowers tlen (Quantifier op x xt lits e t) = (lits = [] \<or> lowers tlen e)"
| "lowers tlen (Temporal op e h t) = (tlen \<noteq> None \<and> lowers tlen e)"
| "lowers tlen _ = True"

text \<open>The nodes are numbered in order, and every emitted or recorded term is a term.\<close>

definition lstate_ok :: "lstate \<Rightarrow> bool" where
  "lstate_ok st \<longleftrightarrow>
     map node_id (lnodes st) = map (\<lambda>k. CHR ''n'' # string_of_nat k) [0 ..< length (lnodes st)] \<and>
     list_all (\<lambda>n. smt_term (node_term n)) (lnodes st) \<and>
     (\<forall>key name. dict_get (symbol_names st) key = Some name \<longrightarrow> smt_term name)"

definition lowered_ok :: "lstate \<Rightarrow> string \<Rightarrow> string \<Rightarrow> solver_node \<times> lstate \<Rightarrow> bool" where
  "lowered_ok st path srt r = (case r of (node, st') \<Rightarrow>
     node_sort node = srt \<and> xlir_path node = path \<and> smt_term (node_term node) \<and> lstate_ok st' \<and>
     (\<exists>more. lnodes st' = lnodes st @ more @ [node]))"

definition lowering_ok ::
    "bool \<Rightarrow> lstate \<Rightarrow> string \<Rightarrow> string \<Rightarrow> lower_exn + solver_node \<times> lstate \<Rightarrow> bool" where
  "lowering_ok succeeds st path srt r = (case r of
       Inl e \<Rightarrow> \<not> succeeds \<and> (\<exists>p. e = LowerFailure p)
     | Inr r \<Rightarrow> succeeds \<and> lowered_ok st path srt r)"

lemma lowering_ok_emit:
  assumes "smt_term trm" and "lstate_ok st'" and "\<exists>more. lnodes st' = lnodes st @ more"
  shows "lowering_ok True st path srt (emit path srt trm st')"
  using assms by (auto simp: lowering_ok_def lowered_ok_def emit_def Let_def lstate_ok_def)

lemma lowering_ok_Inl [simp]: "lowering_ok b st path srt (Inl e) \<longleftrightarrow> \<not> b \<and> (\<exists>p. e = LowerFailure p)"
  by (simp add: lowering_ok_def)

lemma lowering_ok_bind:
  assumes "lowering_ok b st p s r"
    and "\<And>node st1. b \<Longrightarrow> node_sort node = s \<Longrightarrow> smt_term (node_term node) \<Longrightarrow> lstate_ok st1 \<Longrightarrow>
      (\<exists>more. lnodes st1 = lnodes st @ more) \<Longrightarrow> lowering_ok c st path srt (k (node, st1))"
  shows "lowering_ok (b \<and> c) st path srt (bind_result r k)"
  using assms by (cases r) (auto simp: lowering_ok_def lowered_ok_def)

lemma lowering_ok_extend:
  "lowering_ok b st1 path srt r \<Longrightarrow> \<exists>more. lnodes st1 = lnodes st @ more \<Longrightarrow> lowering_ok b st path srt r"
  by (auto simp: lowering_ok_def lowered_ok_def split: sum.splits)

lemma binary_operator_total:
  "op \<noteq> ''div'' \<Longrightarrow> op \<noteq> ''mod'' \<Longrightarrow>
   op \<in> set boolean_binary \<union> set comparison_binary \<union> set ordering_binary \<union>
     set arithmetic_binary \<union> set bitwise_binary \<union> set shift_binary \<Longrightarrow>
   \<exists>smt. binary_operator op t = Some smt \<and> smt_atom smt"
proof -
  have "list_all (\<lambda>op. op = ''div'' \<or> op = ''mod'' \<or>
      (\<exists>smt. binary_operator op t = Some smt \<and> smt_atom smt))
      (boolean_binary @ comparison_binary @ ordering_binary @ arithmetic_binary @
       bitwise_binary @ shift_binary)"
    by (simp add: boolean_binary_def comparison_binary_def ordering_binary_def arithmetic_binary_def
        bitwise_binary_def shift_binary_def binary_operator_def binary_table_def smt_atom_def)
  then show "op \<noteq> ''div'' \<Longrightarrow> op \<noteq> ''mod'' \<Longrightarrow>
   op \<in> set boolean_binary \<union> set comparison_binary \<union> set ordering_binary \<union>
     set arithmetic_binary \<union> set bitwise_binary \<union> set shift_binary \<Longrightarrow> ?thesis"
    unfolding list_all_iff set_append by blast
qed

lemma binary_operator_division: "binary_operator ''div'' t = None" "binary_operator ''mod'' t = None"
  by (simp_all add: binary_operator_def binary_table_def)

text \<open>The loops over domains and positions: a step returns a term, the loop the list of them.\<close>

definition term_step_ok :: "bool \<Rightarrow> lstate \<Rightarrow> lower_exn + string \<times> lstate \<Rightarrow> bool" where
  "term_step_ok succeeds st r = (case r of
       Inl e \<Rightarrow> \<not> succeeds \<and> (\<exists>p. e = LowerFailure p)
     | Inr (trm, st') \<Rightarrow> succeeds \<and> smt_term trm \<and> lstate_ok st' \<and> (\<exists>more. lnodes st' = lnodes st @ more))"

definition term_loop_ok :: "bool \<Rightarrow> nat \<Rightarrow> lstate \<Rightarrow> lower_exn + string list \<times> lstate \<Rightarrow> bool" where
  "term_loop_ok succeeds n st r = (case r of
       Inl e \<Rightarrow> \<not> succeeds \<and> 0 < n \<and> (\<exists>p. e = LowerFailure p)
     | Inr (trms, st') \<Rightarrow> (succeeds \<or> n = 0) \<and> length trms = n \<and> list_all smt_term trms \<and>
         lstate_ok st' \<and> (\<exists>more. lnodes st' = lnodes st @ more))"

lemma term_loop_ok_fold:
  assumes "\<And>x s. x \<in> set xs \<Longrightarrow> lstate_ok s \<Longrightarrow> term_step_ok b s (f x s)" and "lstate_ok st"
  shows "term_loop_ok b (length xs) st (fold_result f xs st)"
  using assms
proof (induction xs arbitrary: st)
  case Nil
  then show ?case by (simp add: term_loop_ok_def)
next
  case (Cons x xs)
  have x: "term_step_ok b st (f x st)" using Cons.prems by simp
  show ?case
  proof (cases "f x st")
    case (Inl e)
    with x show ?thesis by (simp add: term_loop_ok_def term_step_ok_def)
  next
    case (Inr r)
    obtain trm st1 where r: "r = (trm, st1)" by (cases r)
    from x Inr r obtain more where st1: "b" "smt_term trm" "lstate_ok st1" "lnodes st1 = lnodes st @ more"
      by (auto simp: term_step_ok_def)
    from Cons.IH [OF Cons.prems(1) st1(3)]
    have "term_loop_ok b (length xs) st1 (fold_result f xs st1)" by simp
    with Inr r st1 show ?thesis
      by (cases "fold_result f xs st1") (auto simp: term_loop_ok_def)
  qed
qed

lemma term_step_ok_node:
  "lowering_ok b st p srt r \<Longrightarrow>
   term_step_ok b st (bind_result r (\<lambda>(n, s1). if node_sort n \<noteq> srt then Inl (LowerFailure q)
     else Inr (node_term n, s1)))"
  "lowering_ok b st p srt r \<Longrightarrow> term_step_ok b st (bind_result r (\<lambda>(n, s1). Inr (node_term n, s1)))"
  by (cases r; auto simp: lowering_ok_def lowered_ok_def term_step_ok_def)+

lemma term_loop_ok_bind:
  assumes "term_loop_ok b n st r"
    and "\<And>trms st1. b \<or> n = 0 \<Longrightarrow> length trms = n \<Longrightarrow> list_all smt_term trms \<Longrightarrow> lstate_ok st1 \<Longrightarrow>
      \<exists>more. lnodes st1 = lnodes st @ more \<Longrightarrow> lowering_ok True st path srt (k (trms, st1))"
  shows "lowering_ok (b \<or> n = 0) st path srt (bind_result r k)"
  using assms by (cases r) (auto simp: term_loop_ok_def)

lemma smt_term_app:
  "f \<in> {''and'', ''or'', ''not'', ''bvneg'', ''bvnot''} \<Longrightarrow> args \<noteq> [] \<Longrightarrow> list_all smt_term args \<Longrightarrow>
   smt_term (apply_term f args)"
  by (rule smt_term.app) (auto simp: smt_atom_def)

lemma smt_term_constants: "smt_term ''true''" "smt_term ''false''"
  by (rule smt_term.atom, simp add: smt_atom_def)+

lemma lower_unary_ok:
  assumes "op = ''not'' \<and> t = BOOL \<or> op = ''neg'' \<and> t = INT256 \<or> op = ''bitnot'' \<and> integer_type t"
    and "node_sort node = sort_name t" "smt_term (node_term node)" "lstate_ok st1"
    and "\<exists>more. lnodes st1 = lnodes st @ more"
  shows "lowering_ok True st path (sort_name t) (lower_unary op t path node st1)"
  using assms by (auto simp: lower_unary_def intro!: lowering_ok_emit smt_term_app)

lemma lower_binary_ok:
  assumes "op \<in> set boolean_binary \<union> set comparison_binary \<union> set ordering_binary \<union>
     set arithmetic_binary \<union> set bitwise_binary \<union> set shift_binary"
    and "smt_term (node_term left)" "smt_term (node_term right)" "lstate_ok st1"
    and "\<exists>more. lnodes st1 = lnodes st @ more"
  shows "lowering_ok (op \<noteq> ''div'' \<and> op \<noteq> ''mod'') st path (sort_name t)
     (lower_binary op lt t path left right st1)"
proof (cases "op = ''div'' \<or> op = ''mod''")
  case True
  with binary_operator_division show ?thesis by (auto simp: lower_binary_def)
next
  case False
  with binary_operator_total assms(1) obtain smt where "binary_operator op lt = Some smt" "smt_atom smt"
    by blast
  with False assms show ?thesis
    by (auto simp: lower_binary_def intro!: lowering_ok_emit smt_term.app)
qed

lemma symbol_name_ok:
  assumes "list_all (\<lambda>c. c \<notin> {CHR ''('', CHR '')'', CHR '' ''}) (sha (JStr key))" and "lstate_ok st"
  shows "\<exists>name st1. symbol_name sha key st = (name, st1) \<and> smt_term name \<and> lstate_ok st1 \<and>
    lnodes st1 = lnodes st"
proof -
  have "smt_term (''s_'' @ take 16 (sha (JStr key)))"
    using assms(1) by (intro smt_term.atom) (auto simp: smt_atom_def list_all_iff dest: in_set_takeD)
  with assms(2) show ?thesis
    by (auto simp: symbol_name_def Let_def lstate_ok_def split: option.split)
qed

text \<open>The scope of the lowering binds each variable to a literal of its type.\<close>

definition literals_ok :: "(string \<rightharpoonup> value_type) \<Rightarrow> (string \<rightharpoonup> literal) \<Rightarrow> bool" where
  "literals_ok \<Gamma> bd = (\<forall>x t. \<Gamma> x = Some t \<longrightarrow>
     (\<exists>l. bd x = Some l \<and> lit_type l = t \<and> valid_value (lit_value l) t))"

lemma lower_literal_ok:
  assumes "valid_value (lit_value l) (lit_type l)" "lstate_ok st"
  shows "lowering_ok True st path (sort_name (lit_type l))
    (bind_result (literal_term l) (\<lambda>trm. emit path (sort_name (lit_type l)) trm st))"
proof -
  from literal_term_valid [OF assms(1)] obtain s where "literal_term l = Inr s" "smt_term s" by blast
  with assms(2) show ?thesis by (auto intro: lowering_ok_emit)
qed

definition plain_hash :: "(json \<Rightarrow> string) \<Rightarrow> bool" where
  \<comment> \<open>a digest prints no space and no parenthesis; hexadecimal digits do not\<close>
  "plain_hash sha = (\<forall>j. list_all (\<lambda>c. c \<notin> {CHR ''('', CHR '')'', CHR '' ''}) (sha j))"

lemma lower_binary_step:
  assumes "op \<in> set boolean_binary \<union> set comparison_binary \<union> set ordering_binary \<union>
      set arithmetic_binary \<union> set bitwise_binary \<union> set shift_binary"
    and "lowering_ok bl st p sl (lower_expression sha l (path @ ''.left'') bd i tlen st)"
    and "\<And>st1. lstate_ok st1 \<Longrightarrow>
      lowering_ok br st1 q sr (lower_expression sha r (path @ ''.right'') bd i tlen st1)"
  shows "lowering_ok (bl \<and> br \<and> op \<noteq> ''div'' \<and> op \<noteq> ''mod'') st path (sort_name t)
    (lower_expression sha (Binary op l r t) path bd i tlen st)"
  unfolding lower_expression.simps
proof (rule lowering_ok_bind [OF assms(2)], unfold prod.case, goal_cases)
  case (1 left st1)
  note left = this
  have "lowering_ok (br \<and> op \<noteq> ''div'' \<and> op \<noteq> ''mod'') st1 path (sort_name t)
    (bind_result (lower_expression sha r (path @ ''.right'') bd i tlen st1)
       (\<lambda>(right, st2). lower_binary op (vtype l) t path left right st2))"
  proof (rule lowering_ok_bind [OF assms(3) [OF left(4)]], unfold prod.case, goal_cases)
    case (1 right st2)
    with left assms(1) show ?case by (intro lower_binary_ok) auto
  qed
  with left(5) show ?case by (rule lowering_ok_extend [rotated])
qed

lemma temporal_term_cases:
  assumes "ts = [] \<Longrightarrow> P" "\<And>a. ts = [a] \<Longrightarrow> temporal_term smt ts = Inr a \<Longrightarrow> P"
    "ts \<noteq> [] \<Longrightarrow> temporal_term smt ts = Inr (apply_term smt ts) \<Longrightarrow> P"
  shows P
proof (cases ts rule: remdups_adj.cases)
  case 1
  with assms(1) show P .
next
  case (2 a)
  with assms(2) [of a] show P by (simp add: temporal_term_def)
next
  case (3 a b cs)
  with assms(3) show P by (simp add: temporal_term_def)
qed

lemma lowers_Binary: "lowers tlen (Binary op l r t) \<longleftrightarrow>
    lowers tlen l \<and> lowers tlen r \<and> op \<noteq> ''div'' \<and> op \<noteq> ''mod''"
  by auto

lemma lower_temporal_ok:
  assumes "positions \<noteq> []" "smt \<in> {''and'', ''or''}" "lstate_ok st"
    and "\<And>p s q. lstate_ok s \<Longrightarrow> lowering_ok b s q ''Bool'' (lower_expression sha e q bd p tlen s)"
  shows "lowering_ok b st path ''Bool''
    (bind_result
       (fold_result (\<lambda>p s.
          bind_result (lower_expression sha e (path @ ''.index['' @ string_of_nat p @ '']'') bd p tlen s)
            (\<lambda>(b, s1). Inr (node_term b, s1)))
          positions st) (\<lambda>(terms, st1).
     bind_result (temporal_term smt terms) (\<lambda>trm. emit path ''Bool'' trm st1)))"
    (is "lowering_ok _ _ _ _ (bind_result ?loop ?k)")
proof -
  have "term_loop_ok b (length positions) st ?loop"
    by (rule term_loop_ok_fold [OF _ assms(3)]) (rule term_step_ok_node(2), rule assms(4))
  then have "lowering_ok (b \<or> length positions = 0) st path ''Bool'' (bind_result ?loop ?k)"
  proof (rule term_loop_ok_bind, unfold prod.case, goal_cases)
    case (1 trms st1)
    with assms(1) have "trms \<noteq> []" by auto
    with 1 assms(2) obtain trm where "temporal_term smt trms = Inr trm" "smt_term trm"
      by (cases rule: temporal_term_cases [of trms _ smt]) (auto simp: smt_term_app)
    with 1 show ?case by (auto intro!: lowering_ok_emit)
  qed
  with assms(1) show ?thesis by simp
qed

theorem lower_expression_ok:
  assumes "plain_hash sha" "tlen \<noteq> Some 0"
  shows "xlir_typed \<Sigma> \<Gamma> e t \<Longrightarrow> literals_ok \<Gamma> bd \<Longrightarrow> lstate_ok st \<Longrightarrow>
   lowering_ok (lowers tlen e) st path (sort_name t) (lower_expression sha e path bd i tlen st)"
proof (induction arbitrary: path bd i st rule: xlir_typed.induct)
  case (symbol sid a t s \<Gamma>)
  from assms(1) have "list_all (\<lambda>c. c \<notin> {CHR ''('', CHR '')'', CHR '' ''})
      (sha (JStr (binding_key sid s (sym_domain a) tlen i)))"
    unfolding plain_hash_def by blast
  from symbol_name_ok [of sha, OF this symbol.prems(2)] show ?case
    by (auto intro!: lowering_ok_emit)
next
  case (bound x \<Gamma> t)
  then obtain l where l: "bd x = Some l" "lit_type l = t" "valid_value (lit_value l) (lit_type l)"
    by (auto simp: literals_ok_def)
  from lower_literal_ok [OF l(3) bound.prems(2)] l(1,2) show ?case by simp
next
  case (lit v t \<Gamma>)
  then show ?case using lower_literal_ok [of "Literal v t"] by simp
next
  case (not \<Gamma> e)
  have "lowering_ok (lowers tlen e \<and> True) st path (sort_name BOOL)
      (lower_expression sha (Unary ''not'' e BOOL) path bd i tlen st)"
    unfolding lower_expression.simps
    by (rule lowering_ok_bind [OF not.IH [OF not.prems]], unfold prod.case, rule lower_unary_ok) simp_all
  then show ?case by simp
next
  case (neg \<Gamma> e)
  have "lowering_ok (lowers tlen e \<and> True) st path (sort_name INT256)
      (lower_expression sha (Unary ''neg'' e INT256) path bd i tlen st)"
    unfolding lower_expression.simps
    by (rule lowering_ok_bind [OF neg.IH [OF neg.prems]], unfold prod.case, rule lower_unary_ok) simp_all
  then show ?case by simp
next
  case (bitnot t \<Gamma> e)
  have "lowering_ok (lowers tlen e \<and> True) st path (sort_name t)
      (lower_expression sha (Unary ''bitnot'' e t) path bd i tlen st)"
    unfolding lower_expression.simps
    by (rule lowering_ok_bind [OF bitnot.IH [OF bitnot.prems]], unfold prod.case, rule lower_unary_ok)
       (simp_all add: bitnot.hyps(1))
  then show ?case by simp
next
  case (boolean op \<Gamma> l r)
  then show ?case unfolding lowers_Binary by (intro lower_binary_step) simp_all
next
  case (comparison op \<Gamma> l t r)
  then show ?case unfolding lowers_Binary by (intro lower_binary_step) simp_all
next
  case (ordering op t \<Gamma> l r)
  then show ?case unfolding lowers_Binary by (intro lower_binary_step) simp_all
next
  case (arith op t \<Gamma> l r)
  have "op \<in> set boolean_binary \<union> set comparison_binary \<union> set ordering_binary \<union>
      set arithmetic_binary \<union> set bitwise_binary \<union> set shift_binary"
    using arith.hyps(1) by blast
  then show ?case unfolding lowers_Binary
    using arith.IH(1) [OF arith.prems] arith.IH(2) [OF arith.prems(1)] by (rule lower_binary_step)
next
  case (shift op t \<Gamma> l r)
  then show ?case unfolding lowers_Binary by (intro lower_binary_step) simp_all
next
  case (quantifier op x \<Gamma> t lits e)
  have body: "lowering_ok (lowers tlen e) s p (sort_name BOOL)
      (lower_expression sha e p (bd(x \<mapsto> l)) i tlen s)"
    if "l \<in> set lits" "lstate_ok s" for l s p
    using quantifier.hyps(4) quantifier.prems(1) that
    by (intro quantifier.IH) (auto simp: literals_ok_def list_all_iff)
  have "term_loop_ok (lowers tlen e) (length (enumerate 0 lits)) st
     (fold_result (\<lambda>(k, l) s.
          bind_result (lower_expression sha e (index_path path k @ ''.body'') (bd(x \<mapsto> l)) i tlen s)
            (\<lambda>(b, s1). if node_sort b \<noteq> ''Bool'' then Inl (LowerFailure path) else Inr (node_term b, s1)))
          (enumerate 0 lits) st)" (is "term_loop_ok _ _ _ ?loop")
  proof (rule term_loop_ok_fold [OF _ quantifier.prems(2)])
    fix z s assume z: "z \<in> set (enumerate 0 lits)" "lstate_ok s"
    obtain k l where kl: "z = (k, l)" by (cases z)
    with z(1) have "l \<in> set lits" by (auto simp: in_set_enumerate_eq)
    from term_step_ok_node(1) [OF body [OF this z(2), unfolded sort_name.simps]] kl
    show "term_step_ok (lowers tlen e) s ((\<lambda>(k, l) s.
          bind_result (lower_expression sha e (index_path path k @ ''.body'') (bd(x \<mapsto> l)) i tlen s)
            (\<lambda>(b, s1). if node_sort b \<noteq> ''Bool'' then Inl (LowerFailure path) else Inr (node_term b, s1))) z s)"
      by simp
  qed
  then have loop: "term_loop_ok (lowers tlen e) (length lits) st ?loop" by simp
  have "lowering_ok (lowers tlen e \<or> length lits = 0) st path (sort_name BOOL)
      (lower_expression sha (Quantifier op x t lits e BOOL) path bd i tlen st)"
    unfolding lower_expression.simps
  proof (rule term_loop_ok_bind [OF loop], unfold prod.case, goal_cases)
    case (1 trms st1)
    with quantifier.hyps(1) obtain trm where "quantifier_term op trms = Some trm" "smt_term trm"
      by (auto simp: quantifier_term_def smt_term_app smt_term_constants)
    with 1 show ?case by (auto intro!: lowering_ok_emit)
  qed
  then show ?case by (simp add: disj_commute)
next
  case (once h \<Gamma> e)
  show ?case
  proof (cases tlen)
    case (Some n)
    have "once_positions i h \<noteq> []" using once.hyps(1) by (simp add: once_positions_def)
    from lower_temporal_ok [OF this _ once.prems(2), of "''or''", OF _
        once.IH [OF once.prems(1), unfolded sort_name.simps], simplified]
    show ?thesis using Some by simp
  qed simp
next
  case (globally \<Gamma> e)
  show ?case
  proof (cases tlen)
    case (Some n)
    with assms(2) have "[0 ..< n] \<noteq> []" by simp
    from lower_temporal_ok [OF this _ globally.prems(2), of "''and''", OF _
        globally.IH [OF globally.prems(1), unfolded sort_name.simps], simplified]
    show ?thesis using Some by simp
  qed simp
qed

text \<open>The whole lowering of an invariant with a typed boolean body.\<close>

lemma lstate_ok_start: "lstate_ok \<lparr>lnodes = [], symbol_names = []\<rparr>"
  by (simp add: lstate_ok_def)

lemma literals_ok_empty: "literals_ok Map.empty Map.empty"
  by (simp add: literals_ok_def)

definition ir_ok :: "solver_ir \<Rightarrow> bool" where
  "ir_ok x \<longleftrightarrow> ir_nodes x \<noteq> [] \<and> last (ir_nodes x) = ir_root x \<and> node_sort (ir_root x) = ''Bool'' \<and>
     map node_id (ir_nodes x) = map (\<lambda>k. CHR ''n'' # string_of_nat k) [0 ..< length (ir_nodes x)] \<and>
     list_all (\<lambda>n. smt_term (node_term n)) (ir_nodes x) \<and>
     (\<forall>n \<in> set (ir_nodes x). dict_get (source_map x) (node_id n) = Some (xlir_path n))"

lemma source_map_total:
  assumes "lstate_ok st" "n \<in> set (lnodes st)"
  shows "dict_get (map (\<lambda>n. (node_id n, xlir_path n)) (lnodes st)) (node_id n) = Some (xlir_path n)"
proof -
  have "distinct (map node_id (lnodes st))"
    using assms(1) by (simp add: lstate_ok_def distinct_map inj_on_def)
  then show ?thesis using assms(2) by (simp add: map_of_eq_Some_iff comp_def)
qed

lemma lower_typed:
  assumes "plain_hash sha" "xlir_typed \<Sigma> Map.empty (inv_body i) BOOL"
    and "case trace_length of None \<Rightarrow> True | Some n \<Rightarrow> 0 < n"
  shows "\<exists>r. lower sha i trace_length = Inr r \<and>
    (case ir r of
       None \<Rightarrow> \<not> lowers (map_option nat trace_length) (inv_body i) \<and>
         (\<exists>p. lower_diagnostics r = [Diagnostic p ''unsupported_node''])
     | Some x \<Rightarrow> lowers (map_option nat trace_length) (inv_body i) \<and> lower_diagnostics r = [] \<and> ir_ok x)"
proof -
  let ?tlen = "map_option nat trace_length"
  let ?st = "\<lparr>lnodes = [], symbol_names = []\<rparr>"
  have "?tlen \<noteq> Some 0" using assms(3) by (cases trace_length) auto
  from lower_expression_ok [OF assms(1) this assms(2) literals_ok_empty lstate_ok_start,
      of "''$.body''" 0]
  have *: "lowering_ok (lowers ?tlen (inv_body i)) ?st ''$.body'' ''Bool''
     (lower_expression sha (inv_body i) ''$.body'' Map.empty 0 ?tlen ?st)" (is "lowering_ok _ _ _ _ ?r")
    by simp
  have valid: "\<not> (case trace_length of None \<Rightarrow> False | Some n \<Rightarrow> n \<le> 0)"
    using assms(3) by (auto split: option.splits)
  show ?thesis
  proof (cases ?r)
    case (Inl e)
    with * valid show ?thesis by (auto simp: lower_def lowering_failure_def Let_def)
  next
    case (Inr r)
    obtain node st1 where r: "r = (node, st1)" by (cases r)
    with * Inr obtain more where ok: "lowers ?tlen (inv_body i)" "node_sort node = ''Bool''"
        "lstate_ok st1" "lnodes st1 = more @ [node]"
      by (auto simp: lowering_ok_def lowered_ok_def)
    have "ir_ok (lower_ir sha i ?tlen node st1)"
      using ok source_map_total [OF ok(3)]
      by (simp add: ir_ok_def lower_ir_def lstate_ok_def)
    with valid Inr r ok show ?thesis by (simp add: lower_def Let_def)
  qed
qed

end
