(* ===== verification/Xlir_Legitimacy.thy ===== *)
theory Xlir_Legitimacy
  imports Xlir_Safety
begin

text \<open>
  The structural eligibility check (\<^verbatim>\<open>xlir/legitimacy.py\<close>). Python sets are lists here, compared
  as sets; the results the code sorts are \<open>sorted_unique\<close>. The closure \<^verbatim>\<open>visit\<close> updates two
  variables of its enclosing function, which are the state \<open>visit_state\<close>.
\<close>

datatype legitimacy_status = Eligible | Unwarranted | LegitimacyUnknown

record legitimacy_result =
  leg_status :: legitimacy_status
  referenced_symbols :: "string list"
  referenced_domains :: "string list"
  referenced_states :: "string list"
  cross_domain_relation :: bool
  transition_relevant :: bool
  security_validity :: string
  leg_reason :: string

fun legitimacy_status_value :: "legitimacy_status \<Rightarrow> string" where
  "legitimacy_status_value Eligible = ''structurally_eligible''"
| "legitimacy_status_value Unwarranted = ''unwarranted''"
| "legitimacy_status_value LegitimacyUnknown = ''unknown''"

definition legitimacy_as_dict :: "legitimacy_result \<Rightarrow> json" where
  "legitimacy_as_dict r = JObj
     [(''status'', JStr (legitimacy_status_value (leg_status r))),
      (''referenced_symbols'', JArr (map JStr (referenced_symbols r))),
      (''referenced_domains'', JArr (map JStr (referenced_domains r))),
      (''referenced_states'', JArr (map JStr (referenced_states r))),
      (''cross_domain_relation'', JBool (cross_domain_relation r)),
      (''transition_relevant'', JBool (transition_relevant r)),
      (''security_validity'', JStr (security_validity r)),
      (''reason'', JStr (leg_reason r))]"

record visit_state =
  visited_ids :: "string list"
  unknown_reason :: "string option"

definition known_domains :: "string list" where
  "known_domains = [''source'', ''destination'', ''shared'']"

definition known_states :: "string list" where
  "known_states = [''pre'', ''post'']"

text \<open>\<open>visit\<close> returns the domains and the states below an expression.\<close>

fun visit :: "expr \<Rightarrow> visit_state \<Rightarrow> (string list \<times> string list) \<times> visit_state" where
  "visit (SymbolRef sid t dm s) v =
     (let v1 = (if dm \<in> set known_domains then v
                else v\<lparr>unknown_reason := Some ''unsupported_symbol_domain''\<rparr>);
          v2 = (if s \<in> set known_states then v1
                else v1\<lparr>unknown_reason := Some ''unsupported_symbol_state''\<rparr>)
      in (([dm], [s]), v2\<lparr>visited_ids := sid # visited_ids v2\<rparr>))"
| "visit (Lit l) v = (([], []), v)"
| "visit (BoundRef x t) v = (([], []), v)"
| "visit (Unary op e t) v = visit e v"
| "visit (Binary op l r t) v =
     (case visit l v of ((ld, ls), v1) \<Rightarrow>
      case visit r v1 of ((rd, rs), v2) \<Rightarrow> ((ld @ rd, ls @ rs), v2))"
| "visit (Quantifier op x xt lits e t) v = visit e v"
| "visit (Temporal op e h t) v = visit e v"

datatype legitimacy_error = UnsupportedRequiredDomain | UnsupportedRequiredState

definition contains_all :: "string list \<Rightarrow> string list \<Rightarrow> bool" where
  \<comment> \<open>\<^verbatim>\<open>set(ys) <= set(xs)\<close>\<close>
  "contains_all xs ys = list_all (\<lambda>y. y \<in> set xs) ys"

text \<open>The chain of structural tests, in the order the code makes them.\<close>

definition structural_reason ::
    "string list \<Rightarrow> string list \<Rightarrow> string list option \<Rightarrow> string list \<Rightarrow> string list \<Rightarrow> string list
       \<Rightarrow> bool \<Rightarrow> bool \<Rightarrow> string option" where
  "structural_reason required_domains required_states allowed ids domains states cross transition =
     (if ids = [] then Some ''no_grounded_symbols''
      else if (case allowed of None \<Rightarrow> False | Some a \<Rightarrow> \<not> contains_all a ids)
        then Some ''symbol_outside_legitimacy_context''
      else if \<not> contains_all domains required_domains then Some ''missing_required_domain''
      else if \<not> contains_all states required_states then Some ''missing_required_state''
      else if contains_all required_domains [''source'', ''destination''] \<and> \<not> cross
        then Some ''no_source_destination_relation''
      else if contains_all required_states [''pre'', ''post''] \<and> \<not> transition
        then Some ''not_transition_relevant''
      else None)"

definition assess_legitimacy ::
    "invariant \<Rightarrow> string list \<Rightarrow> string list \<Rightarrow> string list option
       \<Rightarrow> legitimacy_error + legitimacy_result" where
  "assess_legitimacy i required_domains required_states allowed =
     (if \<not> contains_all known_domains required_domains then Inl UnsupportedRequiredDomain
      else if \<not> contains_all known_states required_states then Inl UnsupportedRequiredState
      else
        (case visit (inv_body i) \<lparr>visited_ids = [], unknown_reason = None\<rparr> of ((domains, states), v) \<Rightarrow>
         let ids = sorted_unique (visited_ids v);
             cross = (''source'' \<in> set domains \<and> ''destination'' \<in> set domains);
             transition = (''pre'' \<in> set states \<and> ''post'' \<in> set states);
             result = (\<lambda>status reason.
               \<lparr>leg_status = status, referenced_symbols = ids,
                referenced_domains = sorted_unique domains, referenced_states = sorted_unique states,
                cross_domain_relation = cross, transition_relevant = transition,
                security_validity = ''not_assessed'', leg_reason = reason\<rparr>)
         in Inr (case unknown_reason v of
              Some reason \<Rightarrow> result LegitimacyUnknown reason
            | None \<Rightarrow>
                (case structural_reason required_domains required_states allowed ids domains states
                        cross transition of
                   Some reason \<Rightarrow> result Unwarranted reason
                 | None \<Rightarrow> result Eligible ''structural_policy_satisfied''))))"

section \<open>What the traversal collects\<close>

definition key_domain :: "string \<times> string \<times> string \<Rightarrow> string" where
  "key_domain k = snd (snd k)"

definition key_state :: "string \<times> string \<times> string \<Rightarrow> string" where
  "key_state k = fst (snd k)"

lemma key_parts [simp]: "key_domain (sid, s, dm) = dm" "key_state (sid, s, dm) = s"
  by (simp_all add: key_domain_def key_state_def)

lemma visit_collects:
  "visit e v = ((domains, states), v') \<Longrightarrow>
   set domains = key_domain ` symbol_keys e \<and> set states = key_state ` symbol_keys e \<and>
   set (visited_ids v') = fst ` symbol_keys e \<union> set (visited_ids v)"
proof (induction e arbitrary: v v' domains states)
  case (SymbolRef sid t dm s)
  then show ?case by (auto simp: Let_def split: if_splits)
next
  case (Binary op l r t)
  from Binary.prems obtain ld ls v1 rd rs where l: "visit l v = ((ld, ls), v1)"
    and r: "visit r v1 = ((rd, rs), v')" and "domains = ld @ rd" "states = ls @ rs"
    by (auto split: prod.splits)
  with Binary.IH(1) [OF l] Binary.IH(2) [OF r] show ?case by (simp add: image_Un Un_ac)
qed auto

text \<open>The unknown marker is set exactly when some referenced domain or state is not a known one.\<close>

definition keys_known :: "(string \<times> string \<times> string) set \<Rightarrow> bool" where
  "keys_known ks = (\<forall>k \<in> ks. key_domain k \<in> set known_domains \<and> key_state k \<in> set known_states)"

lemma keys_known_Un [simp]: "keys_known (A \<union> B) \<longleftrightarrow> keys_known A \<and> keys_known B"
  by (auto simp: keys_known_def)

lemma visit_unknown:
  "visit e v = (ds, v') \<Longrightarrow>
   unknown_reason v' = None \<longleftrightarrow> unknown_reason v = None \<and> keys_known (symbol_keys e)"
proof (induction e arbitrary: v v' ds)
  case (SymbolRef sid t dm s)
  then show ?case by (auto simp: Let_def keys_known_def key_domain_def key_state_def split: if_splits)
next
  case (Binary op l r t)
  from Binary.prems obtain ld v1 rd where l: "visit l v = (ld, v1)" and r: "visit r v1 = (rd, v')"
    by (auto split: prod.splits)
  from Binary.IH(1) [OF l] Binary.IH(2) [OF r] show ?case by auto
qed (auto simp: keys_known_def)

lemma contains_all_iff: "contains_all xs ys \<longleftrightarrow> set ys \<subseteq> set xs"
  by (auto simp: contains_all_def list_all_iff)

section \<open>The abstract policy\<close>

text \<open>
  What eligibility means, over the set of keys the property reads: it reads some symbol, only
  allowed ones, and every required domain and every required state occurs.
\<close>

definition policy_satisfied ::
    "(string \<times> string \<times> string) set \<Rightarrow> string set \<Rightarrow> string set \<Rightarrow> string set option \<Rightarrow> bool" where
  "policy_satisfied ks required_domains required_states allowed \<longleftrightarrow>
     ks \<noteq> {} \<and> (case allowed of None \<Rightarrow> True | Some a \<Rightarrow> fst ` ks \<subseteq> a) \<and>
     required_domains \<subseteq> key_domain ` ks \<and> required_states \<subseteq> key_state ` ks"

definition legitimacy_spec ::
    "(string \<times> string \<times> string) set \<Rightarrow> string set \<Rightarrow> string set \<Rightarrow> string set option
       \<Rightarrow> legitimacy_status" where
  "legitimacy_spec ks required_domains required_states allowed =
     (if \<not> keys_known ks then LegitimacyUnknown
      else if policy_satisfied ks required_domains required_states allowed then Eligible
      else Unwarranted)"

text \<open>
  The last two tests of the chain never fire: once the required domains and states are present,
  the relation they look for is too.
\<close>

lemma structural_reason_None:
  assumes "set ids = fst ` ks" "set domains = key_domain ` ks" "set states = key_state ` ks"
    and "cross = (''source'' \<in> set domains \<and> ''destination'' \<in> set domains)"
    and "transition = (''pre'' \<in> set states \<and> ''post'' \<in> set states)"
  shows "structural_reason rd rs allowed ids domains states cross transition = None \<longleftrightarrow>
    policy_satisfied ks (set rd) (set rs) (map_option set allowed)"
proof -
  have ids: "ids = [] \<longleftrightarrow> ks = {}" using assms(1) by (metis image_is_empty set_empty)
  have if_None: "((if b then Some x else y) = None) = (\<not> b \<and> y = None)" for b and x :: string and y
    by simp
  have cross: "\<not> (contains_all rd [a, b] \<and> \<not> (a \<in> set domains \<and> b \<in> set domains))"
    if "contains_all domains rd" for a b
    using that by (auto simp: contains_all_iff)
  have transition: "\<not> (contains_all rs [a, b] \<and> \<not> (a \<in> set states \<and> b \<in> set states))"
    if "contains_all states rs" for a b
    using that by (auto simp: contains_all_iff)
  have "structural_reason rd rs allowed ids domains states cross transition = None \<longleftrightarrow>
      ks \<noteq> {} \<and> \<not> (case allowed of None \<Rightarrow> False | Some a \<Rightarrow> \<not> contains_all a ids) \<and>
      contains_all domains rd \<and> contains_all states rs"
    unfolding structural_reason_def if_None assms(4,5) ids
    using cross transition by meson
  also have "\<dots> \<longleftrightarrow> policy_satisfied ks (set rd) (set rs) (map_option set allowed)"
    by (cases allowed) (simp_all add: policy_satisfied_def contains_all_iff assms(1-3))
  finally show ?thesis .
qed

lemma structural_reason_reachable:
  assumes "structural_reason rd rs allowed ids domains states cross transition = Some reason"
    and cross: "cross = (''source'' \<in> set domains \<and> ''destination'' \<in> set domains)"
    and transition: "transition = (''pre'' \<in> set states \<and> ''post'' \<in> set states)"
  shows "reason \<in> set [''no_grounded_symbols'', ''symbol_outside_legitimacy_context'',
    ''missing_required_domain'', ''missing_required_state'']"
proof (rule ccontr)
  assume other: "\<not> ?thesis"
  let ?A = "case allowed of None \<Rightarrow> False | Some a \<Rightarrow> \<not> contains_all a ids"
  from other assms(1) have "ids \<noteq> []" by (auto simp: structural_reason_def)
  moreover from this other assms(1) have "\<not> ?A"
    by (simp add: structural_reason_def split: if_split_asm)
  moreover from calculation other assms(1) have "contains_all domains rd"
    by (simp add: structural_reason_def split: if_split_asm)
  moreover from calculation other assms(1) have "contains_all states rs"
    by (simp add: structural_reason_def split: if_split_asm)
  moreover have "contains_all rd [''source'', ''destination''] \<Longrightarrow> cross"
    using \<open>contains_all domains rd\<close> by (auto simp: cross contains_all_iff)
  moreover have "contains_all rs [''pre'', ''post''] \<Longrightarrow> transition"
    using \<open>contains_all states rs\<close> by (auto simp: transition contains_all_iff)
  ultimately have "structural_reason rd rs allowed ids domains states cross transition = None"
    unfolding structural_reason_def by presburger
  with assms(1) show False by simp
qed

theorem assess_legitimacy_spec:
  assumes "assess_legitimacy i rd rs allowed = Inr r"
  shows "leg_status r = legitimacy_spec (symbol_keys (inv_body i)) (set rd) (set rs) (map_option set allowed)"
    and "set (referenced_symbols r) = fst ` symbol_keys (inv_body i)"
    and "set (referenced_domains r) = key_domain ` symbol_keys (inv_body i)"
    and "set (referenced_states r) = key_state ` symbol_keys (inv_body i)"
    and "security_validity r = ''not_assessed''"
proof -
  let ?v0 = "\<lparr>visited_ids = [], unknown_reason = None\<rparr>"
  let ?ks = "symbol_keys (inv_body i)"
  obtain domains states v where v: "visit (inv_body i) ?v0 = ((domains, states), v)"
    by (metis prod.exhaust)
  from visit_collects [OF v] have sets: "set domains = key_domain ` ?ks"
    "set states = key_state ` ?ks" "set (visited_ids v) = fst ` ?ks" by simp_all
  from visit_unknown [OF v] have unknown: "unknown_reason v = None \<longleftrightarrow> keys_known ?ks" by simp
  have none: "structural_reason rd rs allowed (sorted_unique (visited_ids v)) domains states
      (''source'' \<in> set domains \<and> ''destination'' \<in> set domains)
      (''pre'' \<in> set states \<and> ''post'' \<in> set states) = None \<longleftrightarrow>
    policy_satisfied ?ks (set rd) (set rs) (map_option set allowed)"
    by (rule structural_reason_None) (simp_all add: sets)
  show "leg_status r = legitimacy_spec ?ks (set rd) (set rs) (map_option set allowed)"
    using assms unknown none [unfolded sets]
    by (auto simp: sets assess_legitimacy_def v Let_def legitimacy_spec_def
        split: if_split_asm option.split_asm)
  show "set (referenced_symbols r) = fst ` ?ks" "set (referenced_domains r) = key_domain ` ?ks"
    "set (referenced_states r) = key_state ` ?ks" "security_validity r = ''not_assessed''"
    using assms
    by (simp_all add: assess_legitimacy_def v Let_def split: if_split_asm option.split_asm)
      (auto simp only: legitimacy_result.simps sets set_sorted_unique)
qed

end
