(* ===== verification/Contracts_Records.thy ===== *)
theory Contracts_Records
  imports Complex_Main Json
begin

text \<open>
  The shared record contracts (\<^verbatim>\<open>contracts/records.py\<close>, \<^verbatim>\<open>contracts/status_mapping.py\<close>): the four
  status enumerations and their serialized values, the event record, the pure validators of an
  event stream and of record references, and the status serialization.
\<close>

section \<open>Status enumerations\<close>

datatype campaign_status =
    CampaignPlanned | CampaignRunning | CampaignCompleted | CampaignTimeout
  | CampaignUnsupported | CampaignProviderFailure | CampaignToolFailure | CampaignNoValidProposal

fun campaign_status_value :: "campaign_status \<Rightarrow> string" where
  "campaign_status_value CampaignPlanned = ''planned''"
| "campaign_status_value CampaignRunning = ''running''"
| "campaign_status_value CampaignCompleted = ''completed''"
| "campaign_status_value CampaignTimeout = ''timeout''"
| "campaign_status_value CampaignUnsupported = ''unsupported''"
| "campaign_status_value CampaignProviderFailure = ''provider_failure''"
| "campaign_status_value CampaignToolFailure = ''tool_failure''"
| "campaign_status_value CampaignNoValidProposal = ''no_valid_proposal''"

datatype search_status =
    SearchSat | SearchBoundedUnsat | SearchUnknown | SearchTimeout | SearchUnsupported | SearchCrash

fun search_status_value :: "search_status \<Rightarrow> string" where
  "search_status_value SearchSat = ''sat''"
| "search_status_value SearchBoundedUnsat = ''bounded_unsat''"
| "search_status_value SearchUnknown = ''unknown''"
| "search_status_value SearchTimeout = ''timeout''"
| "search_status_value SearchUnsupported = ''unsupported''"
| "search_status_value SearchCrash = ''crash''"

datatype replay_status = ReplayPass | ReplayFail | ReplayUnknown | ReplayUnsupported

fun replay_status_value :: "replay_status \<Rightarrow> string" where
  "replay_status_value ReplayPass = ''pass''"
| "replay_status_value ReplayFail = ''fail''"
| "replay_status_value ReplayUnknown = ''unknown''"
| "replay_status_value ReplayUnsupported = ''unsupported''"

datatype adjudication_status =
    AdjudicationPending | AdjudicationConfirmed | AdjudicationRejected | AdjudicationUnresolved

fun adjudication_status_value :: "adjudication_status \<Rightarrow> string" where
  "adjudication_status_value AdjudicationPending = ''pending''"
| "adjudication_status_value AdjudicationConfirmed = ''confirmed''"
| "adjudication_status_value AdjudicationRejected = ''rejected''"
| "adjudication_status_value AdjudicationUnresolved = ''unresolved''"

text \<open>\<^verbatim>\<open>EnumType(value)\<close>: look the value up among the members; \<open>None\<close> is the ValueError.\<close>

definition enum_of :: "('a \<Rightarrow> string) \<Rightarrow> 'a list \<Rightarrow> json \<Rightarrow> 'a option" where
  "enum_of name members v = (case v of JStr s \<Rightarrow> find (\<lambda>m. name m = s) members | _ \<Rightarrow> None)"

definition campaign_members :: "campaign_status list" where
  "campaign_members =
     [CampaignPlanned, CampaignRunning, CampaignCompleted, CampaignTimeout, CampaignUnsupported,
      CampaignProviderFailure, CampaignToolFailure, CampaignNoValidProposal]"
definition search_members :: "search_status list" where
  "search_members =
     [SearchSat, SearchBoundedUnsat, SearchUnknown, SearchTimeout, SearchUnsupported, SearchCrash]"
definition replay_members :: "replay_status list" where
  "replay_members = [ReplayPass, ReplayFail, ReplayUnknown, ReplayUnsupported]"
definition adjudication_members :: "adjudication_status list" where
  "adjudication_members =
     [AdjudicationPending, AdjudicationConfirmed, AdjudicationRejected, AdjudicationUnresolved]"

definition campaign_status_of :: "json \<Rightarrow> campaign_status option" where
  "campaign_status_of = enum_of campaign_status_value campaign_members"
definition search_status_of :: "json \<Rightarrow> search_status option" where
  "search_status_of = enum_of search_status_value search_members"
definition replay_status_of :: "json \<Rightarrow> replay_status option" where
  "replay_status_of = enum_of replay_status_value replay_members"
definition adjudication_status_of :: "json \<Rightarrow> adjudication_status option" where
  "adjudication_status_of = enum_of adjudication_status_value adjudication_members"

text \<open>An enumeration: a total list of members with distinct values. Parsing inverts printing.\<close>

locale enumeration =
  fixes name :: "'a \<Rightarrow> string" and members :: "'a list"
  assumes complete: "m \<in> set members"
    and distinct_names: "distinct (map name members)"
begin

lemma enum_of_value: "enum_of name members (JStr (name m)) = Some m"
proof -
  have "inj_on name (set members)"
    using distinct_names by (simp add: distinct_map)
  then have "find (\<lambda>x. name x = name m) members = Some m"
  proof -
    obtain y where y: "find (\<lambda>x. name x = name m) members = Some y"
      using complete [of m] by (cases "find (\<lambda>x. name x = name m) members") (auto simp: find_None_iff)
    then have "name y = name m" by (auto simp: find_Some_iff)
    with \<open>inj_on name (set members)\<close> complete have "y = m" by (auto dest: inj_onD)
    with y show ?thesis by simp
  qed
  then show ?thesis by (simp add: enum_of_def)
qed

lemma enum_of_Some: "enum_of name members v = Some m \<longleftrightarrow> v = JStr (name m)"
  using enum_of_value
  by (auto simp: enum_of_def find_Some_iff split: json.splits)

end

interpretation campaign: enumeration campaign_status_value campaign_members
proof
  show "m \<in> set campaign_members" for m by (cases m) (simp_all add: campaign_members_def)
qed (simp add: campaign_members_def)

interpretation search: enumeration search_status_value search_members
proof
  show "m \<in> set search_members" for m by (cases m) (simp_all add: search_members_def)
qed (simp add: search_members_def)

interpretation replay: enumeration replay_status_value replay_members
proof
  show "m \<in> set replay_members" for m by (cases m) (simp_all add: replay_members_def)
qed (simp add: replay_members_def)

interpretation adjudication: enumeration adjudication_status_value adjudication_members
proof
  show "m \<in> set adjudication_members" for m by (cases m) (simp_all add: adjudication_members_def)
qed (simp add: adjudication_members_def)

section \<open>Status serialization\<close>

definition status_json :: "('a \<Rightarrow> string) \<Rightarrow> 'a option \<Rightarrow> json" where
  "status_json name s = (case s of None \<Rightarrow> JNull | Some m \<Rightarrow> JStr (name m))"

definition serialize_statuses ::
    "campaign_status \<Rightarrow> search_status option \<Rightarrow> replay_status option \<Rightarrow> adjudication_status option
       \<Rightarrow> json dict" where
  "serialize_statuses c s r a =
     [(''status_mapping_version'', JInt 1),
      (''campaign_status'', JStr (campaign_status_value c)),
      (''search_status'', status_json search_status_value s),
      (''replay_status'', status_json replay_status_value r),
      (''adjudication_status'', status_json adjudication_status_value a)]"

datatype status_error = UnsupportedMappingVersion | InvalidStatusField string

definition status_field_error :: "string \<Rightarrow> bool \<Rightarrow> ('a option) \<Rightarrow> json \<Rightarrow> status_error list" where
  "status_field_error field optional parsed v =
     (if v = JNull \<and> optional then [] else case parsed of Some _ \<Rightarrow> [] | None \<Rightarrow> [InvalidStatusField field])"

text \<open>
  \<^verbatim>\<open>record.get("status_mapping_version") != 1\<close>: Python's \<^verbatim>\<open>True == 1\<close> makes the Boolean
  acceptable too.
\<close>

definition validate_statuses :: "json dict \<Rightarrow> status_error list" where
  "validate_statuses rec =
     (let version = jget rec ''status_mapping_version'' in
      (if version = JInt 1 \<or> version = JBool True then [] else [UnsupportedMappingVersion])
      @ (let v = jget rec ''campaign_status'' in status_field_error ''campaign_status'' False (campaign_status_of v) v)
      @ (let v = jget rec ''search_status'' in status_field_error ''search_status'' True (search_status_of v) v)
      @ (let v = jget rec ''replay_status'' in status_field_error ''replay_status'' True (replay_status_of v) v)
      @ (let v = jget rec ''adjudication_status'' in
           status_field_error ''adjudication_status'' True (adjudication_status_of v) v))"

lemma validate_serialized: "validate_statuses (serialize_statuses c s r a) = []"
  by (cases s; cases r; cases a)
     (simp_all add: validate_statuses_def serialize_statuses_def status_field_error_def
       status_json_def campaign_status_of_def search_status_of_def replay_status_of_def
       adjudication_status_of_def campaign.enum_of_value search.enum_of_value
       replay.enum_of_value adjudication.enum_of_value)

section \<open>Events\<close>

text \<open>Clock readings are finite floats, compared but not computed with; they are rationals here.\<close>

type_synonym seconds = rat

record event_log =
  event_id :: string
  event_type :: string
  ev_campaign_id :: string
  ev_attempt_id :: string
  ev_timestamp :: string
  payload :: json
  schema_version :: int
  terminal :: bool
  monotonic_seconds :: "seconds option"
  duration_seconds :: "seconds option"
  missing_field_reasons :: json

datatype event_violation =
    UnsupportedSchema | MissingEventId | DuplicateEventId | MissingEventType
  | MissingCampaignOrAttempt | MissingTimestamp | PayloadNotObject | MonotonicBackwards
  | NegativeDuration | ReasonsNotObject | AfterTerminal | DuplicateTerminal

text \<open>The running state of \<^verbatim>\<open>validate_event_log\<close>.\<close>

record validation_state =
  seen_events :: "string list"
  terminal_attempts :: "string list"
  last_monotonic :: "(string \<times> seconds) list"

definition empty_validation :: validation_state where
  "empty_validation = \<lparr>seen_events = [], terminal_attempts = [], last_monotonic = []\<rparr>"

definition event_violations :: "event_log \<Rightarrow> validation_state \<Rightarrow> event_violation list" where
  "event_violations ev st =
     (if schema_version ev \<noteq> 1 then [UnsupportedSchema] else [])
     @ (if event_id ev = [] then [MissingEventId]
        else if event_id ev \<in> set (seen_events st) then [DuplicateEventId] else [])
     @ (if event_type ev = [] then [MissingEventType] else [])
     @ (if ev_campaign_id ev = [] \<or> ev_attempt_id ev = [] then [MissingCampaignOrAttempt] else [])
     @ (if ev_timestamp ev = [] then [MissingTimestamp] else [])
     @ (if is_obj (payload ev) then [] else [PayloadNotObject])
     @ (case (monotonic_seconds ev, dict_get (last_monotonic st) (ev_attempt_id ev)) of
          (Some now, Some previous) \<Rightarrow> if now < previous then [MonotonicBackwards] else []
        | _ \<Rightarrow> [])
     @ (case duration_seconds ev of Some d \<Rightarrow> if d < 0 then [NegativeDuration] else [] | None \<Rightarrow> [])
     @ (if is_obj (missing_field_reasons ev) then [] else [ReasonsNotObject])
     @ (if \<not> terminal ev \<and> ev_attempt_id ev \<in> set (terminal_attempts st) then [AfterTerminal] else [])
     @ (if terminal ev \<and> ev_attempt_id ev \<in> set (terminal_attempts st) then [DuplicateTerminal] else [])"

definition after_event :: "event_log \<Rightarrow> validation_state \<Rightarrow> validation_state" where
  "after_event ev st =
     \<lparr>seen_events = event_id ev # seen_events st,
      terminal_attempts = (if terminal ev then ev_attempt_id ev # terminal_attempts st
                           else terminal_attempts st),
      last_monotonic = (case monotonic_seconds ev of
                          None \<Rightarrow> last_monotonic st
                        | Some now \<Rightarrow> dict_put (ev_attempt_id ev) now (last_monotonic st))\<rparr>"

text \<open>The violations with the one-based number of their event.\<close>

fun validate_from :: "nat \<Rightarrow> validation_state \<Rightarrow> event_log list \<Rightarrow> (nat \<times> event_violation) list" where
  "validate_from n st [] = []"
| "validate_from n st (ev # evs) =
     map (\<lambda>v. (n, v)) (event_violations ev st) @ validate_from (Suc n) (after_event ev st) evs"

definition validate_event_log :: "event_log list \<Rightarrow> (nat \<times> event_violation) list" where
  "validate_event_log evs = validate_from 1 empty_validation evs"

fun state_after :: "validation_state \<Rightarrow> event_log list \<Rightarrow> validation_state" where
  "state_after st [] = st"
| "state_after st (ev # evs) = state_after (after_event ev st) evs"

lemma validate_from_append:
  "validate_from n st (xs @ ys) =
   validate_from n st xs @ validate_from (n + length xs) (state_after st xs) ys"
  by (induction xs arbitrary: n st) auto

lemma state_after_append: "state_after st (xs @ ys) = state_after (state_after st xs) ys"
  by (induction xs arbitrary: st) auto

lemma validate_event_log_snoc:
  "validate_event_log (evs @ [ev]) = [] \<longleftrightarrow>
   validate_event_log evs = [] \<and> event_violations ev (state_after empty_validation evs) = []"
  by (auto simp: validate_event_log_def validate_from_append)

lemma seen_events_state_after:
  "set (seen_events (state_after st evs)) = set (seen_events st) \<union> event_id ` set evs"
  by (induction evs arbitrary: st) (auto simp: after_event_def)

lemma terminal_attempts_state_after:
  "set (terminal_attempts (state_after st evs)) =
   set (terminal_attempts st) \<union> ev_attempt_id ` {ev \<in> set evs. terminal ev}"
  by (induction evs arbitrary: st) (auto simp: after_event_def)

end
