(* ===== verification/Xlir_Vacuity.thy ===== *)
theory Xlir_Vacuity
  imports Xlir_Safety Contracts_Records
begin

text \<open>
  Antecedent reachability of implication-shaped invariants (\<^verbatim>\<open>xlir/vacuity.py\<close>): over a finite
  set of state bindings, over transition traces, and through the solver, whose answer is an
  argument. An exception other than EvaluationError leaves the function.
\<close>

datatype vacuity_status = Reachable | BoundedUnsat | VacuityUnknown | NotApplicable

text \<open>The reason strings of the source, with the evaluator's error where the code appends it.\<close>

datatype vacuity_reason =
    RootIsNotImplication
  | AntecedentSatisfied
  | BindingErrorReason eval_reason
  | FiniteBindingsExhausted
  | BindingSampleNotExhaustive
  | MissingTransitionTrace
  | TransitionTraceAntecedentSatisfied
  | TransitionTraceError eval_reason
  | NoTransitionTraces
  | TransitionTraceSpaceExhausted
  | TransitionTraceSetNotComplete
  | SolverAntecedentSatisfied
  | SolverFormulaExhausted
  | SolverOutcome search_status "string option"

record vacuity_result =
  vac_status :: vacuity_status
  checked_bindings :: nat
  vac_complete :: bool
  vac_reason :: vacuity_reason

definition vacuity :: "vacuity_status \<Rightarrow> nat \<Rightarrow> bool \<Rightarrow> vacuity_reason \<Rightarrow> vacuity_result" where
  "vacuity s n c r = \<lparr>vac_status = s, checked_bindings = n, vac_complete = c, vac_reason = r\<rparr>"

lemma vacuity_fields [simp]:
  "vac_status (vacuity s n c r) = s" "checked_bindings (vacuity s n c r) = n"
  "vac_complete (vacuity s n c r) = c" "vac_reason (vacuity s n c r) = r"
  by (simp_all add: vacuity_def)

text \<open>The antecedent of a root implication.\<close>

fun antecedent :: "expr \<Rightarrow> expr option" where
  "antecedent (Binary op l r t) = (if op = ''implies'' then Some l else None)"
| "antecedent _ = None"

definition not_applicable :: vacuity_result where
  "not_applicable = vacuity NotApplicable 0 True RootIsNotImplication"

section \<open>Finite bindings\<close>

fun binding_loop :: "expr \<Rightarrow> bool \<Rightarrow> nat \<Rightarrow> bindings list \<Rightarrow> eval_exn + vacuity_result" where
  "binding_loop l exhaustive checked [] =
     Inr (if exhaustive then vacuity BoundedUnsat checked True FiniteBindingsExhausted
          else vacuity VacuityUnknown checked False BindingSampleNotExhaustive)"
| "binding_loop l exhaustive checked (b # bs) =
     (case evaluate_expression l b None 0 of
        Inl (EvaluationError e) \<Rightarrow> Inr (vacuity VacuityUnknown (Suc checked) False (BindingErrorReason e))
      | Inl e \<Rightarrow> Inl e
      | Inr v \<Rightarrow>
          if py_truthy v then Inr (vacuity Reachable (Suc checked) exhaustive AntecedentSatisfied)
          else binding_loop l exhaustive (Suc checked) bs)"

definition check_antecedent ::
    "invariant \<Rightarrow> bindings list \<Rightarrow> bool \<Rightarrow> eval_exn + vacuity_result" where
  "check_antecedent i bs exhaustive = (case antecedent (inv_body i) of
       None \<Rightarrow> Inr not_applicable
     | Some l \<Rightarrow> binding_loop l exhaustive 0 bs)"

section \<open>Transition traces\<close>

fun trace_loop ::
    "expr \<Rightarrow> bool \<Rightarrow> bool \<Rightarrow> nat \<Rightarrow> bool \<Rightarrow> bindings list list \<Rightarrow> eval_exn + vacuity_result" where
  "trace_loop l exhaustive transition_complete checked saw [] =
     Inr (if \<not> saw then vacuity VacuityUnknown 0 False NoTransitionTraces
          else if exhaustive \<and> transition_complete
            then vacuity BoundedUnsat checked True TransitionTraceSpaceExhausted
          else vacuity VacuityUnknown checked False TransitionTraceSetNotComplete)"
| "trace_loop l exhaustive transition_complete checked saw (tr # trs) =
     (case tr of
        [] \<Rightarrow> Inr (vacuity VacuityUnknown (Suc checked) False MissingTransitionTrace)
      | b # _ \<Rightarrow>
          (case evaluate_expression l b (Some tr) 0 of
             Inl (EvaluationError e) \<Rightarrow>
               Inr (vacuity VacuityUnknown (Suc checked) False (TransitionTraceError e))
           | Inl e \<Rightarrow> Inl e
           | Inr v \<Rightarrow>
               if py_truthy v
               then Inr (vacuity Reachable (Suc checked) (exhaustive \<and> transition_complete)
                           TransitionTraceAntecedentSatisfied)
               else trace_loop l exhaustive transition_complete (Suc checked) True trs))"

definition check_antecedent_transition ::
    "invariant \<Rightarrow> bindings list list \<Rightarrow> bool \<Rightarrow> bool \<Rightarrow> eval_exn + vacuity_result" where
  "check_antecedent_transition i traces exhaustive transition_complete =
     (case antecedent (inv_body i) of
        None \<Rightarrow> Inr not_applicable
      | Some l \<Rightarrow> trace_loop l exhaustive transition_complete 0 False traces)"

section \<open>The solver's answer\<close>

text \<open>\<open>backend\<close> is \<^verbatim>\<open>Z3XLIRBackend.check_antecedent\<close>: its status, completeness and reason.\<close>

definition check_antecedent_smt ::
    "(invariant \<Rightarrow> search_status \<times> bool \<times> string option) \<Rightarrow> invariant \<Rightarrow> vacuity_result" where
  "check_antecedent_smt backend i = (case antecedent (inv_body i) of
       None \<Rightarrow> not_applicable
     | Some _ \<Rightarrow>
         (case backend i of (status, cmplt, reason) \<Rightarrow>
            if status = SearchSat then vacuity Reachable 0 cmplt SolverAntecedentSatisfied
            else if status = SearchBoundedUnsat then vacuity BoundedUnsat 0 cmplt SolverFormulaExhausted
            else vacuity VacuityUnknown 0 False (SolverOutcome status reason)))"

section \<open>What the verdicts mean\<close>

text \<open>An expression is refuted by a binding when it evaluates, without error, to a false value.\<close>

definition refuted :: "expr \<Rightarrow> bindings \<Rightarrow> bindings list option \<Rightarrow> bool" where
  "refuted l b tr = (case evaluate_expression l b tr 0 of Inr v \<Rightarrow> \<not> py_truthy v | Inl _ \<Rightarrow> False)"

definition satisfied :: "expr \<Rightarrow> bindings \<Rightarrow> bindings list option \<Rightarrow> bool" where
  "satisfied l b tr = (case evaluate_expression l b tr 0 of Inr v \<Rightarrow> py_truthy v | Inl _ \<Rightarrow> False)"

text \<open>A decided binding is refuted, satisfied, or an error that the loop reports or passes on.\<close>

lemma binding_loop_refuted:
  "refuted l b None \<Longrightarrow> binding_loop l ex n (b # bs) = binding_loop l ex (Suc n) bs"
  by (auto simp: refuted_def split: sum.splits)

lemma binding_loop_satisfied:
  "satisfied l b None \<Longrightarrow>
   binding_loop l ex n (b # bs) = Inr (vacuity Reachable (Suc n) ex AntecedentSatisfied)"
  by (auto simp: satisfied_def split: sum.splits)

lemma binding_loop_error:
  "\<not> refuted l b None \<Longrightarrow> \<not> satisfied l b None \<Longrightarrow>
   (\<exists>e. binding_loop l ex n (b # bs) =
      Inr (vacuity VacuityUnknown (Suc n) False (BindingErrorReason e)))
   \<or> (\<exists>e. binding_loop l ex n (b # bs) = Inl e)"
  by (auto simp: refuted_def satisfied_def split: sum.splits eval_exn.splits)

lemma binding_loop_bounded_unsat:
  "binding_loop l ex n bs = Inr r \<Longrightarrow>
   vac_status r = BoundedUnsat \<longleftrightarrow> ex \<and> list_all (\<lambda>b. refuted l b None) bs"
proof (induction bs arbitrary: n)
  case Nil
  then show ?case by (auto split: if_splits)
next
  case (Cons b bs)
  consider "refuted l b None" | "satisfied l b None" | "\<not> refuted l b None" "\<not> satisfied l b None"
    by blast
  then show ?case
  proof cases
    case 1
    with Cons.prems have "binding_loop l ex (Suc n) bs = Inr r"
      by (simp only: binding_loop_refuted)
    from Cons.IH [OF this] 1 show ?thesis by simp
  next
    case 2
    moreover from 2 have "\<not> refuted l b None"
      by (auto simp: refuted_def satisfied_def split: sum.splits)
    ultimately show ?thesis using Cons.prems
      by (auto simp: binding_loop_satisfied simp del: binding_loop.simps)
  next
    case 3
    from binding_loop_error [OF this, of ex n bs] Cons.prems 3 show ?thesis
      by (auto simp del: binding_loop.simps)
  qed
qed

lemma binding_loop_reachable:
  "binding_loop l ex n bs = Inr r \<Longrightarrow> vac_status r = Reachable \<Longrightarrow>
   \<exists>i < length bs. checked_bindings r = n + Suc i \<and> satisfied l (bs ! i) None \<and>
     (\<forall>j < i. refuted l (bs ! j) None) \<and> vac_complete r = ex"
proof (induction bs arbitrary: n)
  case Nil
  then show ?case by (auto split: if_splits)
next
  case (Cons b bs)
  consider "refuted l b None" | "satisfied l b None" | "\<not> refuted l b None" "\<not> satisfied l b None"
    by blast
  then show ?case
  proof cases
    case 1
    with Cons.prems have "binding_loop l ex (Suc n) bs = Inr r"
      by (simp only: binding_loop_refuted)
    with Cons.IH Cons.prems(2) obtain i where "i < length bs" "checked_bindings r = n + Suc (Suc i)"
      "satisfied l (bs ! i) None" "\<forall>j < i. refuted l (bs ! j) None" "vac_complete r = ex"
      by fastforce
    with 1 show ?thesis by (intro exI [of _ "Suc i"]) (auto simp: less_Suc_eq_0_disj)
  next
    case 2
    with Cons.prems show ?thesis
      by (intro exI [of _ 0]) (auto simp: binding_loop_satisfied simp del: binding_loop.simps)
  next
    case 3
    from binding_loop_error [OF this, of ex n bs] Cons.prems show ?thesis
      by (auto simp del: binding_loop.simps)
  qed
qed

lemma trace_loop_bounded_unsat:
  "trace_loop l ex cmpl n saw trs = Inr r \<Longrightarrow>
   vac_status r = BoundedUnsat \<longleftrightarrow>
     ex \<and> cmpl \<and> (saw \<or> trs \<noteq> []) \<and> list_all (\<lambda>tr. tr \<noteq> [] \<and> refuted l (hd tr) (Some tr)) trs"
proof (induction trs arbitrary: n saw)
  case Nil
  then show ?case by (auto split: if_splits)
next
  case (Cons tr trs)
  show ?case
  proof (cases tr)
    case Nil
    with Cons.prems show ?thesis by auto
  next
    case (Cons b rest)
    show ?thesis
    proof (cases "evaluate_expression l b (Some tr) 0")
      case (Inl e)
      with Cons Cons.prems show ?thesis
        by (cases e) (auto simp: refuted_def)
    next
      case (Inr v)
      show ?thesis
      proof (cases "py_truthy v")
        case True
        with Cons Inr Cons.prems show ?thesis by (auto simp: refuted_def)
      next
        case False
        with Cons Inr \<open>trace_loop l ex cmpl n saw (tr # trs) = Inr r\<close>
        have "trace_loop l ex cmpl (Suc n) True trs = Inr r" by simp
        from Cons.IH [OF this] False Cons Inr show ?thesis by (simp add: refuted_def)
      qed
    qed
  qed
qed

end
