(* ===== verification/Xlir_Pipeline.thy ===== *)
theory Xlir_Pipeline
  imports Xlir_Lowering Xlir_Legitimacy Xlir_Vacuity
begin

text \<open>
  The XLIR pipeline as its callers use it: what a successful \<open>compile\<close> hands to the evaluator, the
  lowering and the legitimacy check. The lemmas here compose the per-module theorems.
\<close>

section \<open>What a compiled invariant is\<close>

lemma xlir_typed_grounded:
  "xlir_typed \<Sigma> \<Gamma> e t \<Longrightarrow> (sid, st, dm) \<in> symbol_keys e \<Longrightarrow>
   \<exists>a. \<Sigma> sid = Some a \<and> sym_domain a = dm \<and> st \<in> {''pre'', ''post''}"
  by (induction rule: xlir_typed.induct) auto

lemma compile_Some:
  assumes "comp_invariant (compile sha C pl) = Some i"
  obtains d st where "pl = JObj d"
    and "compile_expression C (jget d ''body'') ''$.body'' \<lparr>nodes = 0, bound_variables = Map.empty\<rparr> =
      Inr (inv_body i, st)"
    and "vtype (inv_body i) = BOOL" and "canonical_hash i = sha (as_dict (inv_body i))"
    and "node_count i = nodes st" and "invariant_id i \<noteq> Some ''''"
proof -
  from assms obtain d where pl: "pl = JObj d" and body: "compile_body sha C d = Inr i"
    by (auto simp: compile_def compile_abstain_def failure_result_def
        split: json.split_asm sum.split_asm compile_exn.split_asm if_split_asm)
  from body obtain e st where e: "compile_expression C (jget d ''body'') ''$.body''
      \<lparr>nodes = 0, bound_variables = Map.empty\<rparr> = Inr (e, st)"
    and i: "vtype e = BOOL" "inv_body i = e" "canonical_hash i = sha (as_dict e)" "node_count i = nodes st"
    and iid: "jget d ''invariant_id'' \<noteq> JNull \<Longrightarrow> nonempty_str (jget d ''invariant_id'')"
      "invariant_id i = (case jget d ''invariant_id'' of JStr s \<Rightarrow> Some s | _ \<Rightarrow> None)"
    by (auto simp: compile_body_def Let_def result_simps split: if_split_asm)
  from iid have "invariant_id i \<noteq> Some ''''"
    by (cases "jget d ''invariant_id''") auto
  with pl e i show thesis by (intro that) simp_all
qed

lemma compile_Some_ok:
  assumes "comp_invariant (compile sha C pl) = Some i"
  shows "xlir_typed (symbols C) Map.empty (inv_body i) BOOL"
    and "ast_nodes (inv_body i) \<le> node_count i \<and> node_count i \<le> maximum_ast_nodes C"
    and "canonical_hash i = sha (as_dict (inv_body i))"
proof -
  from assms obtain d st where
    e: "compile_expression C (jget d ''body'') ''$.body'' \<lparr>nodes = 0, bound_variables = Map.empty\<rparr> =
      Inr (inv_body i, st)" and t: "vtype (inv_body i) = BOOL" and
    h: "canonical_hash i = sha (as_dict (inv_body i))" and n: "node_count i = nodes st"
    by (rule compile_Some)
  from compile_expression_ok [OF e] t n show "xlir_typed (symbols C) Map.empty (inv_body i) BOOL"
    "ast_nodes (inv_body i) \<le> node_count i \<and> node_count i \<le> maximum_ast_nodes C"
    by (simp_all add: expression_ok_def)
  show "canonical_hash i = sha (as_dict (inv_body i))" by (rule h)
qed

text \<open>A result is one of three: an invariant, an abstention, or exactly one diagnostic.\<close>

lemma compile_trichotomy:
  "(\<exists>i. compile sha C pl = \<lparr>comp_invariant = Some i, abstained = False, diagnostics = []\<rparr>)
   \<or> compile sha C pl = \<lparr>comp_invariant = None, abstained = True, diagnostics = []\<rparr>
   \<or> (\<exists>d. compile sha C pl = failure_result d)"
  by (auto simp: compile_def compile_abstain_def failure_result_def
      split: json.split sum.split compile_exn.split)

lemma jget_invariant_proposal:
  assumes "invariant_proposal iid e = JObj d" and "iid \<noteq> Some ''''"
  shows "jget d ''kind'' = JStr ''invariant''" "jget d ''body'' = to_proposal e"
    "jget d ''abstain'' = JNull" "\<not> has_extra_fields d [''kind'', ''invariant_id'', ''body'']"
    "jget d ''invariant_id'' = (case iid of None \<Rightarrow> JNull | Some s \<Rightarrow> JStr s)"
  using assms by (auto simp: invariant_proposal_def has_extra_fields_def split: option.splits)

lemma compile_invariant_proposal:
  assumes "xlir_typed (symbols C) Map.empty e BOOL" and "ast_nodes e \<le> maximum_ast_nodes C"
    and "iid \<noteq> Some ''''"
  shows "compile sha C (invariant_proposal iid e) =
    \<lparr>comp_invariant = Some \<lparr>invariant_id = iid, inv_body = e, canonical_hash = sha (as_dict e),
                            node_count = ast_nodes e\<rparr>,
     abstained = False, diagnostics = []\<rparr>"
proof -
  obtain d where d: "invariant_proposal iid e = JObj d" by (simp add: invariant_proposal_def)
  note fields = jget_invariant_proposal [OF d assms(3)]
  have "compile_expression C (to_proposal e) ''$.body'' \<lparr>nodes = 0, bound_variables = Map.empty\<rparr> =
      Inr (e, \<lparr>nodes = ast_nodes e, bound_variables = Map.empty\<rparr>)"
    by (subst compile_expression_to_proposal [OF assms(1)]) (use assms(2) in simp_all)
  moreover have "vtype e = BOOL" using assms(1) by (rule xlir_typed_vtype)
  ultimately have "compile_body sha C d =
      Inr \<lparr>invariant_id = iid, inv_body = e, canonical_hash = sha (as_dict e), node_count = ast_nodes e\<rparr>"
    using assms(3) by (cases iid) (simp_all add: compile_body_def fields Let_def)
  then show ?thesis by (simp add: d compile_def fields)
qed

section \<open>The node budget only cuts off\<close>

text \<open>
  A compilation that succeeds under some limit has the same result under every larger one. Each
  method is monotone in the method it calls.
\<close>

lemma compile_domain_mono:
  "compile_domain C t path i items st = Inr r \<Longrightarrow> maximum_ast_nodes C \<le> n \<Longrightarrow>
   compile_domain (C\<lparr>maximum_ast_nodes := n\<rparr>) t path i items st = Inr r"
proof (induction C t path i items st arbitrary: r rule: compile_domain.induct)
  case (1 C t path i st)
  then show ?case by simp
next
  case (2 C t path i item items st)
  from 2(2) obtain d l ls st2 where item: "item = JObj d" "nodes (counted st) \<le> maximum_ast_nodes C"
    "compile_literal d (index_path path i) = Inr l" "lit_type l = t"
    "compile_domain C t path (Suc i) items (counted st) = Inr (ls, st2)" "r = (l # ls, st2)"
    by (cases item) (auto simp: Let_def result_simps split: if_splits)
  from 2(1) [OF refl refl _ item(1) item(3) _ item(5) 2(3)] item 2(3)
  show ?case by (simp add: Let_def)
qed

lemma compile_unary_mono:
  assumes "\<And>k p s r. rec (jget raw k) p s = Inr r \<Longrightarrow> rec' (jget raw k) p s = Inr r"
    and "compile_unary rec raw path st = Inr r"
  shows "compile_unary rec' raw path st = Inr r"
  using assms(2) by (auto simp: compile_unary_def Let_def result_simps dest!: assms(1) split: if_splits)

lemma compile_binary_mono:
  assumes "\<And>k p s r. rec (jget raw k) p s = Inr r \<Longrightarrow> rec' (jget raw k) p s = Inr r"
    and "compile_binary rec raw path st = Inr r"
  shows "compile_binary rec' raw path st = Inr r"
  using assms(2)
  by (cases "jget raw ''operator''")
     (auto simp: compile_binary_def Let_def result_simps dest!: assms(1))

lemma compile_temporal_mono:
  assumes "\<And>k p s r. rec (jget raw k) p s = Inr r \<Longrightarrow> rec' (jget raw k) p s = Inr r"
    and "compile_temporal rec raw path st = Inr r"
  shows "compile_temporal rec' raw path st = Inr r"
  using assms(2)
  by (fastforce simp: compile_temporal_def Let_def result_simps dest!: assms(1) split: json.splits if_splits)

lemma compile_quantifier_mono:
  assumes rec: "\<And>k p s r. rec (jget raw k) p s = Inr r \<Longrightarrow> rec' (jget raw k) p s = Inr r"
    and n: "maximum_ast_nodes C \<le> n" and res: "compile_quantifier C rec raw path st = Inr r"
  shows "compile_quantifier (C\<lparr>maximum_ast_nodes := n\<rparr>) rec' raw path st = Inr r"
  using res
proof (rule compile_quantifier_Inr)
  fix op x t items lits st1 b st2
  assume *: "jget raw ''operator'' = JStr op" "op \<in> {''forall'', ''exists''}"
    "jget raw ''variable'' = JStr x" "x \<noteq> []" "bound_variables st x = None"
    "ValueType (jget raw ''variable_type'') = Some t" "jget raw ''domain'' = JArr items"
    "compile_domain C t path 0 items st = Inr (lits, st1)"
  note ** = compile_domain_mono [OF *(8) n]
  from res show ?thesis
    using *(2)
    by (auto simp: compile_quantifier_def * ** Let_def result_simps dest!: rec split: if_splits)
qed

lemma compile_symbol_limit [simp]:
  "compile_symbol (C\<lparr>maximum_ast_nodes := n\<rparr>) raw path = compile_symbol C raw path"
proof -
  have "symbols (C\<lparr>maximum_ast_nodes := n\<rparr>) = symbols C" by simp
  then show ?thesis unfolding compile_symbol_def by (rule ssubst) (rule refl)
qed

theorem compile_expression_mono:
  "compile_expression C j path st = Inr r \<Longrightarrow> maximum_ast_nodes C \<le> n \<Longrightarrow>
   compile_expression (C\<lparr>maximum_ast_nodes := n\<rparr>) j path st = Inr r"
proof (induction C j path st arbitrary: r rule: compile_expression.induct)
  case (1 C j path st0)
  let ?st = "counted st0" and ?C = "C\<lparr>maximum_ast_nodes := n\<rparr>"
  from "1.prems" obtain raw kind where limit: "nodes ?st \<le> maximum_ast_nodes C"
    and j: "j = JObj raw" and kind: "expression_kind raw path = Inr kind"
    using compile_expression_Inr_JObj [of C j path st0 r] by blast
  from limit "1.prems"(2) have limit': "nodes ?st \<le> maximum_ast_nodes ?C" by simp
  note res = "1.prems"(1) [unfolded j compile_expression_JObj [OF limit kind]]
  note goal = compile_expression_JObj [OF limit' kind]
  note IH = "1.IH" [OF refl _ j kind]
  show ?case
    using kind
  proof (cases rule: expression_kind_cases)
    case unary
    with res have "compile_unary (compile_expression C) raw path ?st = Inr r" by simp
    then have "compile_unary (compile_expression ?C) raw path ?st = Inr r"
      by (rule compile_unary_mono [rotated])
         (rule IH(1) [rotated -2], use limit unary "1.prems"(2) in simp_all)
    with unary show ?thesis by (simp add: j goal)
  next
    case binary
    with res have "compile_binary (compile_expression C) raw path ?st = Inr r" by simp
    then have "compile_binary (compile_expression ?C) raw path ?st = Inr r"
      by (rule compile_binary_mono [rotated])
         (rule IH(2) [rotated -2], use limit binary "1.prems"(2) in simp_all)
    with binary show ?thesis by (simp add: j goal)
  next
    case quantifier
    with res have "compile_quantifier C (compile_expression C) raw path ?st = Inr r" by simp
    then have "compile_quantifier ?C (compile_expression ?C) raw path ?st = Inr r"
      by (rule compile_quantifier_mono [rotated 2])
         (rule IH(3) [rotated -2], use limit quantifier "1.prems"(2) in simp_all)
    with quantifier show ?thesis by (simp add: j goal)
  next
    case temporal
    with res have "compile_temporal (compile_expression C) raw path ?st = Inr r" by simp
    then have "compile_temporal (compile_expression ?C) raw path ?st = Inr r"
      by (rule compile_temporal_mono [rotated])
         (rule IH(4) [rotated -2], use limit temporal "1.prems"(2) in simp_all)
    with temporal show ?thesis by (simp add: j goal)
  next
    case primitive
    with res obtain e where e: "expand_primitive raw = Inr e"
      "compile_expression C e (path @ ''.expanded'') ?st = Inr r"
      by (auto split: sum.splits)
    with IH(5) primitive limit "1.prems"(2)
    have "compile_expression ?C e (path @ ''.expanded'') ?st = Inr r" by simp
    with e primitive show ?thesis by (simp add: j goal)
  qed (use res in \<open>simp_all add: j goal\<close>)
qed

lemma compile_over_budget:
  assumes "xlir_typed (symbols C) Map.empty e BOOL" and "maximum_ast_nodes C < ast_nodes e"
    and "iid \<noteq> Some ''''"
  shows "comp_invariant (compile sha C (invariant_proposal iid e)) = None"
proof (rule ccontr)
  let ?st = "\<lparr>nodes = 0, bound_variables = Map.empty\<rparr>" and ?n = "ast_nodes e"
  assume "\<not> ?thesis"
  then obtain i where "comp_invariant (compile sha C (invariant_proposal iid e)) = Some i" by blast
  then obtain d st where d: "invariant_proposal iid e = JObj d"
    and "compile_expression C (jget d ''body'') ''$.body'' ?st = Inr (inv_body i, st)"
    by (rule compile_Some)
  then have res: "compile_expression C (to_proposal e) ''$.body'' ?st = Inr (inv_body i, st)"
    by (simp add: jget_invariant_proposal [OF d assms(3)])
  from compile_expression_mono [OF this, of ?n] assms(2)
  have "compile_expression (C\<lparr>maximum_ast_nodes := ?n\<rparr>) (to_proposal e) ''$.body'' ?st =
      Inr (inv_body i, st)" by simp
  moreover have "compile_expression (C\<lparr>maximum_ast_nodes := ?n\<rparr>) (to_proposal e) ''$.body'' ?st =
      Inr (e, counted_by ?n ?st)"
    using assms(1) by (intro compile_expression_to_proposal) simp_all
  ultimately have "(inv_body i, st) = (e, counted_by ?n ?st)" by (metis sum.inject(2))
  with compile_expression_ok [OF res] assms(2) show False by (simp add: expression_ok_def)
qed

section \<open>Evaluating what was compiled\<close>

lemma evaluate_expression_safe:
  assumes "xlir_typed \<Sigma> Map.empty e t" and "strict \<Longrightarrow> no_signed_shr e"
  shows "safe_outcome (\<lambda>v. value_ok strict v t) (evaluate_expression e bs tr index)"
proof (cases "index < 0 \<or> (case tr of None \<Rightarrow> False | Some states \<Rightarrow> int (length states) \<le> index)")
  case True
  then show ?thesis by (simp add: evaluate_expression_def)
next
  case False
  then have "index_ok tr (nat index)" by (auto simp: index_ok_def split: option.splits)
  moreover have "env_ok Map.empty Map.empty" by (simp add: env_ok_def)
  ultimately show ?thesis
    using False assms by (auto simp: evaluate_expression_def intro: evaluate_safe)
qed

lemma require_bool_outcome:
  assumes "safe_outcome (\<lambda>v. value_ok strict v BOOL) r"
  shows "(\<exists>b. r = Inr (JBool b) \<and> bind_result r require_bool = Inr b) \<or>
    (\<exists>reason. r = eval_error reason \<and> bind_result r require_bool = eval_error reason)"
proof (cases r)
  case (Inl e)
  with assms obtain reason where "e = EvaluationError reason" by (cases e) simp_all
  with Inl show ?thesis by simp
next
  case (Inr v)
  with assms obtain b where "v = JBool b" unfolding value_ok_BOOL by auto
  with Inr show ?thesis by (simp add: require_bool_def)
qed

lemma checked_integer_result_eq:
  assumes "integer_type t"
  shows "checked_integer_result (JInt i) t =
     (if valid_value (JInt i) t then Inr (JInt i)
      else eval_error (if t = UINT256 \<and> i < 0 then Underflow else Overflow))"
proof -
  note defs = checked_integer_result_def py_int_fun_def uint256_limit_def int256_min_def int256_max_def
  from assms consider "t = UINT256" | "t = INT256" by (auto simp: integer_type_def)
  then show ?thesis
    by cases (auto simp: defs valid_value_UINT256 valid_value_INT256)
qed

lemma trunc_division:
  fixes x y :: int
  assumes "y \<noteq> 0"
  shows "x = trunc_div x y * y + trunc_mod x y" and "\<bar>trunc_mod x y\<bar> < \<bar>y\<bar>"
    and "trunc_mod x y = 0 \<or> sgn (trunc_mod x y) = sgn x"
proof -
  have eq: "\<bar>x\<bar> = \<bar>x\<bar> div \<bar>y\<bar> * \<bar>y\<bar> + \<bar>x\<bar> mod \<bar>y\<bar>" by simp
  have m: "0 \<le> \<bar>x\<bar> mod \<bar>y\<bar>" "\<bar>x\<bar> mod \<bar>y\<bar> < \<bar>y\<bar>" using assms by simp_all
  show "x = trunc_div x y * y + trunc_mod x y"
  proof -
    define s :: int where "s = (if x < 0 then -1 else 1)"
    have "trunc_div x y * y = s * (\<bar>x\<bar> div \<bar>y\<bar> * \<bar>y\<bar>)"
      by (simp add: trunc_div_def Let_def s_def)
    moreover have "trunc_mod x y = s * (\<bar>x\<bar> mod \<bar>y\<bar>)" by (simp add: trunc_mod_def Let_def s_def)
    ultimately have "trunc_div x y * y + trunc_mod x y = s * \<bar>x\<bar>"
      by (metis eq distrib_left)
    then show ?thesis by (simp add: s_def)
  qed
  show "\<bar>trunc_mod x y\<bar> < \<bar>y\<bar>" using m by (simp add: trunc_mod_def Let_def)
  show "trunc_mod x y = 0 \<or> sgn (trunc_mod x y) = sgn x"
  proof (cases "x = 0")
    case False
    define r where "r = \<bar>x\<bar> mod \<bar>y\<bar>"
    have "trunc_mod x y = (if x < 0 then - r else r)" by (simp add: trunc_mod_def Let_def r_def)
    moreover have "0 \<le> r" using m by (simp add: r_def)
    ultimately show ?thesis using False by (auto simp: sgn_if)
  qed (simp add: trunc_mod_def)
qed

text \<open>Negating the elements exchanges \<open>any\<close> and \<open>all\<close>, with the same errors at the same point.\<close>

lemma any_results_not:
  assumes "\<And>x. x \<in> set xs \<Longrightarrow> safe_outcome (\<lambda>v. value_ok strict v BOOL) (f x)"
  shows "bind_result (any_results f xs) (\<lambda>v. eval_unary ''not'' v BOOL) =
    all_results (\<lambda>x. bind_result (f x) (\<lambda>v. eval_unary ''not'' v BOOL)) xs"
  using assms
proof (induction xs)
  case Nil
  then show ?case by (simp add: eval_unary_def)
next
  case (Cons x xs)
  show ?case
  proof (cases "f x")
    case (Inr v)
    with Cons.prems [of x] obtain b where "v = JBool b" by (auto simp: value_ok_BOOL)
    with Inr Cons show ?thesis by (simp add: eval_unary_def)
  qed simp
qed

section \<open>Lowering what was compiled\<close>

lemma lower_unsupported:
  assumes "plain_hash sha" and "xlir_typed \<Sigma> Map.empty (inv_body i) BOOL"
    and "case tlen of None \<Rightarrow> True | Some n \<Rightarrow> 0 < n" and "\<not> lowers (map_option nat tlen) (inv_body i)"
  shows "\<exists>p. lower sha i tlen = Inr (lowering_failure p ''unsupported_node'')"
proof -
  from lower_typed [OF assms(1-3)] obtain r where r: "lower sha i tlen = Inr r"
    and *: "case ir r of
       None \<Rightarrow> \<not> lowers (map_option nat tlen) (inv_body i) \<and>
         (\<exists>p. lower_diagnostics r = [Diagnostic p ''unsupported_node''])
     | Some x \<Rightarrow> lowers (map_option nat tlen) (inv_body i) \<and> lower_diagnostics r = [] \<and> ir_ok x"
    by blast
  from * assms(4) have "ir r = None" by (cases "ir r") simp_all
  moreover from this * obtain p where "lower_diagnostics r = [Diagnostic p ''unsupported_node'']" by auto
  ultimately have "r = lowering_failure p ''unsupported_node''" by (simp add: lowering_failure_def)
  with r show ?thesis by blast
qed

section \<open>Eligibility\<close>

lemma assess_legitimacy_total:
  "set rd \<subseteq> {''source'', ''destination'', ''shared''} \<Longrightarrow> set rs \<subseteq> {''pre'', ''post''} \<Longrightarrow>
   \<exists>r. assess_legitimacy i rd rs allowed = Inr r"
  by (simp add: assess_legitimacy_def contains_all_iff known_domains_def known_states_def Let_def
      split: prod.split)

lemma assess_legitimacy_reason:
  assumes "assess_legitimacy i rd rs allowed = Inr r" and "leg_status r = Unwarranted"
  shows "leg_reason r \<in> set [''no_grounded_symbols'', ''symbol_outside_legitimacy_context'',
    ''missing_required_domain'', ''missing_required_state'']"
proof -
  obtain domains states v where v: "visit (inv_body i) \<lparr>visited_ids = [], unknown_reason = None\<rparr> =
      ((domains, states), v)" by (metis prod.exhaust)
  let ?cross = "''source'' \<in> set domains \<and> ''destination'' \<in> set domains"
  let ?transition = "''pre'' \<in> set states \<and> ''post'' \<in> set states"
  from assms have "structural_reason rd rs allowed (sorted_unique (visited_ids v)) domains states
      ?cross ?transition = Some (leg_reason r)"
    by (auto simp: assess_legitimacy_def v Let_def simp del: conj_commute
        split: if_split_asm option.split_asm)
  then show ?thesis by (rule structural_reason_reachable) (rule refl)+
qed

end
