(* ===== verification/Xlir_Properties.thy ===== *)
theory Xlir_Properties
  imports Xlir_Pipeline
begin

text \<open>
  The properties of the XLIR part, each with a run of the code it applies to. The runs share
  one small artifact scope and one proposal.
\<close>

section \<open>A concrete scope\<close>

definition demo_symbol :: "string \<Rightarrow> string \<Rightarrow> string \<Rightarrow> artifact_symbol" where
  "demo_symbol sid dm t =
     \<lparr>sym_id = sid, sym_path = ''A.sol'', sym_name = sid, sym_domain = dm,
      sym_kind = ''state'', sym_type = t\<rparr>"

definition demo_compiler :: xlir_compiler where
  "demo_compiler =
     \<lparr>symbols = [''a'' \<mapsto> demo_symbol ''a'' ''source'' ''uint256'',
                 ''b'' \<mapsto> demo_symbol ''b'' ''destination'' ''uint256''],
      maximum_ast_nodes = 8\<rparr>"

definition demo_expr :: expr where
  "demo_expr = Binary ''implies''
     (Binary ''gt'' (SymbolRef ''a'' UINT256 ''source'' ''pre'') (Lit (Literal (JInt 0) UINT256)) BOOL)
     (Binary ''le'' (SymbolRef ''b'' UINT256 ''destination'' ''post'')
        (SymbolRef ''a'' UINT256 ''source'' ''pre'') BOOL) BOOL"

definition demo_sha :: "json \<Rightarrow> string" where
  "demo_sha j = replicate 64 (CHR ''0'')"

definition demo_invariant :: invariant where
  "demo_invariant = \<lparr>invariant_id = Some ''I1'', inv_body = demo_expr,
     canonical_hash = demo_sha (as_dict demo_expr), node_count = 7\<rparr>"

lemma demo_typed: "xlir_typed (symbols demo_compiler) Map.empty demo_expr BOOL"
proof -
  let ?\<Sigma> = "symbols demo_compiler"
  have a: "xlir_typed ?\<Sigma> Map.empty (SymbolRef ''a'' UINT256 ''source'' ''pre'') UINT256"
    using xlir_typed.symbol [of "''a''" ?\<Sigma> "demo_symbol ''a'' ''source'' ''uint256''" UINT256 "''pre''"]
    by (simp add: demo_compiler_def demo_symbol_def ValueType_def)
  have b: "xlir_typed ?\<Sigma> Map.empty (SymbolRef ''b'' UINT256 ''destination'' ''post'') UINT256"
    using xlir_typed.symbol [of "''b''" ?\<Sigma> "demo_symbol ''b'' ''destination'' ''uint256''" UINT256 "''post''"]
    by (simp add: demo_compiler_def demo_symbol_def ValueType_def)
  have z: "xlir_typed ?\<Sigma> Map.empty (Lit (Literal (JInt 0) UINT256)) UINT256"
    by (rule xlir_typed.lit) (simp add: valid_value_def)
  have ops: "integer_type UINT256" "''gt'' \<in> set ordering_binary" "''le'' \<in> set ordering_binary"
    "''implies'' \<in> set boolean_binary"
    by (simp_all add: integer_type_def ordering_binary_def boolean_binary_def)
  show ?thesis
    unfolding demo_expr_def
    by (intro xlir_typed.boolean xlir_typed.ordering [OF _ ops(1)] ops a b z)
qed

lemma demo_compiled:
  "compile demo_sha demo_compiler (invariant_proposal (Some ''I1'') demo_expr) =
     \<lparr>comp_invariant = Some demo_invariant, abstained = False, diagnostics = []\<rparr>"
  using compile_invariant_proposal [OF demo_typed, of "Some ''I1''" demo_sha]
  by (simp add: demo_compiler_def demo_invariant_def demo_expr_def)

section \<open>The compiler\<close>

text \<open>
  C1. Compiler soundness. Whatever untrusted JSON value is submitted, an invariant that \<open>compile\<close>
  returns is well typed with a Boolean root, every symbol it reads is declared in the scope,
  with the declared domain and in the pre or post state, its node count covers the AST and stays
  within the limit, and its hash is the hash of its canonical form.
\<close>

theorem compile_sound:
  assumes "comp_invariant (compile sha C pl) = Some i"
  shows "xlir_typed (symbols C) Map.empty (inv_body i) BOOL \<and>
    (\<forall>(sid, st, dm) \<in> symbol_keys (inv_body i).
        \<exists>a. symbols C sid = Some a \<and> sym_domain a = dm \<and> (st = ''pre'' \<or> st = ''post'')) \<and>
    ast_nodes (inv_body i) \<le> node_count i \<and> node_count i \<le> maximum_ast_nodes C \<and>
    canonical_hash i = sha (as_dict (inv_body i))"
  using compile_Some_ok [OF assms] xlir_typed_grounded [OF compile_Some_ok(1) [OF assms]]
  by fastforce

theorem compile_sound_witness:
  "xlir_typed (symbols demo_compiler) Map.empty demo_expr BOOL \<and> ast_nodes demo_expr \<le> 7 \<and>
   (''b'', ''post'', ''destination'') \<in> symbol_keys demo_expr"
  using compile_sound [of demo_sha demo_compiler "invariant_proposal (Some ''I1'') demo_expr" demo_invariant]
  by (simp add: demo_compiled) (simp add: demo_invariant_def demo_expr_def)

text \<open>
  C20. Completeness and round trip. A well-typed Boolean expression, written as a proposal, is
  accepted exactly when it fits the node budget, and the compiler gives back that expression,
  with its identifier, its exact size and its hash.
\<close>

theorem compile_roundtrip:
  assumes "xlir_typed (symbols C) Map.empty e BOOL" and "iid \<noteq> Some ''''"
  shows "comp_invariant (compile sha C (invariant_proposal iid e)) =
    (if ast_nodes e \<le> maximum_ast_nodes C
     then Some \<lparr>invariant_id = iid, inv_body = e, canonical_hash = sha (as_dict e),
                node_count = ast_nodes e\<rparr>
     else None)"
  using assms by (simp add: compile_invariant_proposal compile_over_budget)

theorem compile_roundtrip_witness:
  "comp_invariant (compile demo_sha demo_compiler (invariant_proposal (Some ''I1'') demo_expr)) =
     Some demo_invariant"
  using compile_roundtrip [OF demo_typed, of "Some ''I1''" demo_sha]
  by (simp add: demo_compiler_def demo_invariant_def demo_expr_def)

text \<open>
  Every submission ends in exactly one way, whatever its shape: an invariant without
  diagnostics, an abstention, or a single diagnostic; and an abstention needs the literal
  \<^verbatim>\<open>abstain: true\<close>, a reason that is not blank, and no other field.
\<close>

theorem compile_outcome:
  "(\<exists>i. compile sha C pl = \<lparr>comp_invariant = Some i, abstained = False, diagnostics = []\<rparr>)
   \<or> (\<exists>d reason. pl = JObj d \<and> jget d ''abstain'' = JBool True \<and> jget d ''reason'' = JStr reason \<and>
        strip_nonempty reason \<and> set (dict_keys d) \<subseteq> {''abstain'', ''reason''} \<and>
        compile sha C pl = \<lparr>comp_invariant = None, abstained = True, diagnostics = []\<rparr>)
   \<or> (\<exists>d. compile sha C pl = failure_result d)"
proof -
  have "\<exists>d reason. pl = JObj d \<and> jget d ''abstain'' = JBool True \<and> jget d ''reason'' = JStr reason \<and>
        strip_nonempty reason \<and> set (dict_keys d) \<subseteq> {''abstain'', ''reason''}"
    if "abstained (compile sha C pl)"
    using that
    by (auto simp: compile_def compile_abstain_def failure_result_def has_extra_fields_def
        split: json.splits sum.splits compile_exn.splits if_splits)
  then show ?thesis using compile_trichotomy [of sha C pl] by fastforce
qed

section \<open>The evaluator\<close>

text \<open>
  C2. Evaluation of a compiled invariant is safe: on any bindings, and on any trace, it returns
  a Boolean or raises EvaluationError. The TypeError, ValueError, IndexError and AssertionError
  that the evaluator's Python code can raise on other ASTs do not occur.
\<close>

theorem compiled_evaluation_safe:
  assumes "comp_invariant (compile sha C pl) = Some i"
  shows "((\<exists>b. evaluate_invariant i bs = Inr b) \<or> (\<exists>reason. evaluate_invariant i bs = eval_error reason)) \<and>
    ((\<exists>b. evaluate_trace i tr = Inr b) \<or> (\<exists>reason. evaluate_trace i tr = eval_error reason))"
proof -
  have safe: "safe_outcome (\<lambda>v. value_ok False v BOOL) (evaluate_expression (inv_body i) bs' tr' 0)"
    for bs' tr'
    by (rule evaluate_expression_safe [OF compile_Some_ok(1) [OF assms]]) simp
  show ?thesis
    using require_bool_outcome [OF safe [of bs None]] require_bool_outcome [OF safe [of "hd tr" "Some tr"]]
    by (cases tr) (auto simp: evaluate_invariant_def evaluate_trace_def)
qed

theorem compiled_evaluation_safe_witness:
  "(\<exists>b. evaluate_invariant demo_invariant (\<lambda>k. Some (JInt 1)) = Inr b) \<or>
   (\<exists>reason. evaluate_invariant demo_invariant (\<lambda>k. Some (JInt 1)) = eval_error reason)"
  using compiled_evaluation_safe [of demo_sha demo_compiler "invariant_proposal (Some ''I1'') demo_expr"
      demo_invariant "\<lambda>k. Some (JInt 1)" "[]"]
  by (simp add: demo_compiled)

definition exact_operation :: "string \<Rightarrow> int \<Rightarrow> int \<Rightarrow> int" where
  "exact_operation op x y = (if op = ''add'' then x + y else if op = ''sub'' then x - y else x * y)"

text \<open>
  Checked arithmetic. On two values in the range of their type, \<open>add\<close>, \<open>sub\<close> and \<open>mul\<close>
  return the exact integer when it is in range and raise otherwise, never a wrapped value.
\<close>

theorem arithmetic_exact:
  assumes "op \<in> {''add'', ''sub'', ''mul''}" and "integer_type t"
    and "valid_value (JInt x) t" and "valid_value (JInt y) t"
  shows "eval_arithmetic op (JInt x) (JInt y) t =
    (if valid_value (JInt (exact_operation op x y)) t then Inr (JInt (exact_operation op x y))
     else eval_error (if op = ''sub'' \<and> t = UINT256 then Underflow else Overflow))"
proof -
  note ev = eval_arithmetic_def exact_operation_def py_add_def py_mul_def py_less_def py_int_op_def
    checked_integer_result_eq [OF assms(2)]
  have under: "t = UINT256 \<Longrightarrow> x < y \<longleftrightarrow> \<not> valid_value (JInt (x - y)) t"
    using assms(3,4) by (auto simp: valid_value_UINT256)
  from assms(1) consider "op = ''add''" | "op = ''sub''" | "op = ''mul''" by blast
  then show ?thesis
  proof cases
    case 1
    have "t = UINT256 \<Longrightarrow> \<not> x + y < 0" using assms(3,4) by (simp add: valid_value_UINT256)
    then show ?thesis by (auto simp: ev 1)
  next
    case 2
    show ?thesis
      by (cases "t = UINT256")
         (use assms(2) in \<open>simp_all add: ev 2 under checked_integer_result_eq integer_type_def\<close>)
  next
    case 3
    have "t = UINT256 \<Longrightarrow> \<not> x * y < 0"
      using assms(3,4) by (simp add: valid_value_UINT256 not_less)
    then show ?thesis by (auto simp: ev 3)
  qed
qed

theorem arithmetic_exact_witness:
  "eval_arithmetic ''add'' (JInt (2 ^ 255 - 1)) (JInt 1) INT256 = eval_error Overflow"
  using arithmetic_exact [of "''add''" INT256 "2 ^ 255 - 1" 1]
  by (simp add: integer_type_def valid_value_def exact_operation_def)

text \<open>
  Division follows the EVM. A zero divisor raises; otherwise quotient and remainder are in
  range (the one exception, the minimum over minus one, raises for \<open>div\<close>), they recompose
  to the dividend, and the remainder is smaller than the divisor and takes the dividend's sign.
\<close>

theorem division_truncates:
  assumes "valid_value (JInt x) INT256" and "valid_value (JInt y) INT256" and "y \<noteq> 0"
    and "\<not> (x = int256_min \<and> y = -1)"
  shows "\<exists>q r. eval_arithmetic ''div'' (JInt x) (JInt y) INT256 = Inr (JInt q) \<and>
    eval_arithmetic ''mod'' (JInt x) (JInt y) INT256 = Inr (JInt r) \<and>
    valid_value (JInt q) INT256 \<and> valid_value (JInt r) INT256 \<and>
    x = q * y + r \<and> \<bar>r\<bar> < \<bar>y\<bar> \<and> (r = 0 \<or> sgn r = sgn x)"
proof -
  have "x = trunc_div x y * y + trunc_mod x y" "\<bar>trunc_mod x y\<bar> < \<bar>y\<bar>"
    "trunc_mod x y = 0 \<or> sgn (trunc_mod x y) = sgn x"
    using assms(3) by (rule trunc_division)+
  moreover have "valid_value (JInt (trunc_div x y)) INT256" "valid_value (JInt (trunc_mod x y)) INT256"
    using assms by (simp_all add: trunc_div_valid trunc_mod_valid)
  ultimately show ?thesis
    using assms(3,4) by (auto simp: eval_arithmetic_def py_eq_def py_int_op_def)
qed

theorem division_truncates_witness:
  "trunc_div (-7) 2 = -3 \<and> trunc_mod (-7) 2 = -1 \<and>
   (\<exists>q r. eval_arithmetic ''div'' (JInt (-7)) (JInt 2) INT256 = Inr (JInt q) \<and> -7 = q * 2 + r)"
  using division_truncates [of "-7" 2]
  by (auto simp: trunc_div_def trunc_mod_def valid_value_INT256 int256_min_def)

text \<open>
  \<open>shr\<close> leaves the type of its operand: on every negative int256, a shift by zero returns
  the operand plus \<open>2^256\<close>, which is no int256. The shift works on the unsigned view and, unlike
  \<open>shl\<close> and the bitwise operators, does not return to the signed one.
\<close>

theorem signed_shr_escapes:
  assumes "valid_value (JInt x) INT256" and "x < 0"
  shows "evaluate (Binary ''shr'' (Lit (Literal (JInt x) INT256)) (Lit (Literal (JInt 0) UINT256)) INT256)
      bs bd tr i = Inr (JInt (x + 2 ^ 256)) \<and> \<not> valid_value (JInt (x + 2 ^ 256)) INT256"
proof -
  have range: "- (2 ^ 255) \<le> x" using assms(1) by (simp add: valid_value_INT256)
  have "x mod 2 ^ 256 = (x + 2 ^ 256) mod 2 ^ 256" by simp
  also have "\<dots> = x + 2 ^ 256" using assms(2) range by (intro mod_pos_pos_trivial) simp_all
  finally have "normalize_integer x UINT256 = x + 2 ^ 256"
    by (simp add: normalize_integer_def uint256_limit_def Let_def)
  moreover have "valid_value (JInt 0) UINT256" by (simp add: valid_value_UINT256)
  moreover have "\<not> valid_value (JInt (x + 2 ^ 256)) INT256"
    using range by (simp add: valid_value_INT256)
  ultimately show ?thesis
    using assms(1)
    by (simp add: validate_value_def eval_binary_def operator_classes eval_shift_def py_less_eq_def
        py_int_op_def)
qed

theorem signed_shr_escapes_witness:
  "evaluate (Binary ''shr'' (Lit (Literal (JInt (-1)) INT256)) (Lit (Literal (JInt 0) UINT256)) INT256)
     Map.empty Map.empty None 0 = Inr (JInt (2 ^ 256 - 1))"
  using signed_shr_escapes [of "-1" Map.empty Map.empty None 0] by (simp add: valid_value_INT256)

text \<open>
  Duality. On a well-typed body, refuting an existential is the same evaluation as
  establishing the universal of the negation, errors and short-circuiting included: the two
  expressions return the same value or raise the same error on every binding.
\<close>

theorem quantifier_duality:
  assumes "xlir_typed \<Sigma> \<Gamma> (Quantifier ''exists'' x t lits e BOOL) BOOL" and "env_ok \<Gamma> bd"
    and "index_ok tr i"
  shows "evaluate (Unary ''not'' (Quantifier ''exists'' x t lits e BOOL) BOOL) bs bd tr i =
    evaluate (Quantifier ''forall'' x t lits (Unary ''not'' e BOOL) BOOL) bs bd tr i"
proof -
  from assms(1) have lits: "list_all (\<lambda>l. lit_type l = t \<and> valid_value (lit_value l) t) lits"
    and e: "xlir_typed \<Sigma> (\<Gamma>(x \<mapsto> t)) e BOOL"
    by (auto elim: xlir_typed.cases)
  have "safe_outcome (\<lambda>v. value_ok False v BOOL) (evaluate e bs (bd(x \<mapsto> v)) tr i)"
    if "v \<in> set (map lit_value lits)" for v
  proof -
    from that lits have "valid_value v t" by (auto simp: list_all_iff)
    then show ?thesis by (intro evaluate_safe [OF e] env_ok_upd assms) simp_all
  qed
  from any_results_not [of "map lit_value lits" False, OF this] show ?thesis
    by (simp add: validate_literals [OF lits])
qed

theorem quantifier_duality_witness:
  "evaluate (Unary ''not'' (Quantifier ''exists'' ''x'' BOOL [Literal (JBool False) BOOL]
      (BoundRef ''x'' BOOL) BOOL) BOOL) Map.empty Map.empty None 0 =
    evaluate (Quantifier ''forall'' ''x'' BOOL [Literal (JBool False) BOOL]
      (Unary ''not'' (BoundRef ''x'' BOOL) BOOL) BOOL) Map.empty Map.empty None 0"
proof (rule quantifier_duality)
  show "xlir_typed Map.empty Map.empty (Quantifier ''exists'' ''x'' BOOL [Literal (JBool False) BOOL]
      (BoundRef ''x'' BOOL) BOOL) BOOL"
    by (intro xlir_typed.quantifier xlir_typed.bound) (simp_all add: valid_value_def)
qed (simp_all add: env_ok_def index_ok_def)

section \<open>The lowering\<close>

text \<open>
  C23. Lowering of a compiled invariant never raises, for any trace length that is absent or
  positive. It produces solver nodes exactly when the invariant avoids \<open>div\<close>, \<open>mod\<close> and, without
  a trace, temporal operators (outside a quantifier over no value); then every node's term is a
  balanced SMT-LIB term, the nodes are numbered in emission order with the Boolean root last,
  and the source map gives each node's XLIR path. Otherwise it reports one \<^verbatim>\<open>unsupported_node\<close>.
\<close>

theorem lowering_total:
  assumes "comp_invariant (compile sha C pl) = Some i" and "plain_hash sha"
    and "case tlen of None \<Rightarrow> True | Some n \<Rightarrow> 0 < n"
  shows "\<exists>r. lower sha i tlen = Inr r \<and>
    (case ir r of
       None \<Rightarrow> \<not> lowers (map_option nat tlen) (inv_body i) \<and>
         (\<exists>p. lower_diagnostics r = [Diagnostic p ''unsupported_node''])
     | Some x \<Rightarrow> lowers (map_option nat tlen) (inv_body i) \<and> lower_diagnostics r = [] \<and> ir_ok x)"
  by (rule lower_typed [OF assms(2) compile_Some_ok(1) [OF assms(1)] assms(3)])

theorem lowering_total_witness:
  "\<exists>r x. lower demo_sha demo_invariant (Some 2) = Inr r \<and> ir r = Some x \<and> ir_ok x"
proof -
  have "lowers (map_option nat (Some 2)) (inv_body demo_invariant)"
    by (simp add: demo_invariant_def demo_expr_def)
  with lowering_total [of demo_sha demo_compiler "invariant_proposal (Some ''I1'') demo_expr"
      demo_invariant "Some 2"] show ?thesis
    by (auto simp: demo_compiled plain_hash_def demo_sha_def list_all_iff split: option.splits)
qed

text \<open>
  Division is never lowered. For every well-typed invariant whose body is an ordering of a
  quotient or remainder, whatever the operands, lowering reports \<^verbatim>\<open>unsupported_node\<close>: the
  operator table has no entry for \<open>div\<close> and \<open>mod\<close>, so the SMT division branches are dead.
\<close>

theorem division_never_lowered:
  assumes "xlir_typed \<Sigma> Map.empty (Binary cmp (Binary op l r t) e BOOL) BOOL"
    and "op \<in> {''div'', ''mod''}" and "plain_hash sha"
  shows "\<exists>p. lower sha \<lparr>invariant_id = iid, inv_body = Binary cmp (Binary op l r t) e BOOL,
      canonical_hash = h, node_count = n\<rparr> None = Inr (lowering_failure p ''unsupported_node'')"
  using assms by (intro lower_unsupported [where \<Sigma> = \<Sigma>]) auto

theorem division_never_lowered_witness:
  "\<exists>p. lower demo_sha \<lparr>invariant_id = None,
      inv_body = Binary ''gt'' (Binary ''div'' (Lit (Literal (JInt 6) UINT256))
        (Lit (Literal (JInt 2) UINT256)) UINT256) (Lit (Literal (JInt 1) UINT256)) BOOL,
      canonical_hash = '''', node_count = 5\<rparr> None = Inr (lowering_failure p ''unsupported_node'')"
proof (rule division_never_lowered)
  show "xlir_typed Map.empty Map.empty (Binary ''gt'' (Binary ''div'' (Lit (Literal (JInt 6) UINT256))
        (Lit (Literal (JInt 2) UINT256)) UINT256) (Lit (Literal (JInt 1) UINT256)) BOOL) BOOL"
    by (intro xlir_typed.ordering [where t = UINT256] xlir_typed.arith xlir_typed.lit)
       (simp_all add: operator_classes integer_type_def valid_value_UINT256)
qed (simp_all add: plain_hash_def demo_sha_def list_all_iff)

section \<open>Eligibility and vacuity\<close>

text \<open>
  The eligibility check implements its policy. For supported requirements, the status and
  the reported references depend only on the set of keys the invariant reads, and the reason of
  an unwarranted result is one of four: the two relation tests at the end of the chain never
  decide.
\<close>

theorem legitimacy_refines_policy:
  assumes "set rd \<subseteq> {''source'', ''destination'', ''shared''}" and "set rs \<subseteq> {''pre'', ''post''}"
  shows "\<exists>r. assess_legitimacy i rd rs allowed = Inr r \<and>
    leg_status r = legitimacy_spec (symbol_keys (inv_body i)) (set rd) (set rs) (map_option set allowed) \<and>
    set (referenced_symbols r) = fst ` symbol_keys (inv_body i) \<and>
    security_validity r = ''not_assessed'' \<and>
    (leg_status r \<noteq> Unwarranted \<or>
     leg_reason r \<in> set [''no_grounded_symbols'', ''symbol_outside_legitimacy_context'',
       ''missing_required_domain'', ''missing_required_state''])"
proof -
  obtain r where r: "assess_legitimacy i rd rs allowed = Inr r"
    using assess_legitimacy_total [OF assms] by blast
  from assess_legitimacy_spec [OF r] assess_legitimacy_reason [OF r] r show ?thesis by auto
qed

theorem legitimacy_refines_policy_witness:
  "\<exists>r. assess_legitimacy demo_invariant [''source''] [''pre''] None = Inr r \<and> leg_status r = Eligible"
  using legitimacy_refines_policy [of "[''source'']" "[''pre'']" demo_invariant None]
  by (auto simp: demo_invariant_def demo_expr_def legitimacy_spec_def policy_satisfied_def keys_known_def
      known_domains_def known_states_def)

text \<open>
  The verdicts of the finite vacuity check. A result \<open>BoundedUnsat\<close> is given exactly for an
  exhaustive enumeration each of whose bindings refutes the antecedent without an error; a
  result \<open>Reachable\<close> points at the first binding that satisfies it.
\<close>

theorem vacuity_verdicts:
  assumes "antecedent (inv_body i) = Some l" and "check_antecedent i bs exhaustive = Inr r"
  shows "(vac_status r = BoundedUnsat \<longleftrightarrow> exhaustive \<and> list_all (\<lambda>b. refuted l b None) bs) \<and>
    (vac_status r = Reachable \<longrightarrow>
       (\<exists>k < length bs. checked_bindings r = Suc k \<and> satisfied l (bs ! k) None \<and>
          (\<forall>j < k. refuted l (bs ! j) None)))"
proof -
  from assms have loop: "binding_loop l exhaustive 0 bs = Inr r" by (simp add: check_antecedent_def)
  from binding_loop_bounded_unsat [OF this] binding_loop_reachable [OF this] show ?thesis by auto
qed

theorem vacuity_verdicts_witness:
  "refuted (Lit (Literal (JBool False) BOOL)) Map.empty None"
proof -
  let ?l = "Lit (Literal (JBool False) BOOL)"
  let ?i = "\<lparr>invariant_id = None, inv_body = Binary ''implies'' ?l ?l BOOL,
      canonical_hash = '''', node_count = 3\<rparr>"
  have "check_antecedent ?i [Map.empty] True = Inr (vacuity BoundedUnsat 1 True FiniteBindingsExhausted)"
    by (simp add: check_antecedent_def evaluate_expression_def validate_value_def valid_value_def py_truthy.simps)
  from vacuity_verdicts [OF _ this] show ?thesis by simp
qed

end
