(* ===== verification/Paired_Model.thy ===== *)
theory Paired_Model
  imports Json
begin

text \<open>
  The paired-chain fixture (\<^verbatim>\<open>semantics/paired.py\<close>): messages, bounds, the transition profile, the
  two chains with the channel between them, and the operations that change the fixture. Python
  objects that the code deep-copies are values here; the fixture an operation mutates is the
  value it returns. An error carries the text of the exception; every check precedes the first
  mutation, and the two errors that could follow one (a missing clock, a short history) are
  shown in \<^verbatim>\<open>Paired_Invariants\<close> never to occur on a reachable fixture.
\<close>

datatype action = ENQUEUE | DELIVER | REORG

fun action_value :: "action \<Rightarrow> string" where
  "action_value ENQUEUE = ''enqueue''"
| "action_value DELIVER = ''deliver''"
| "action_value REORG = ''reorg''"

definition action_of :: "json \<Rightarrow> action option" where
  \<comment> \<open>\<^verbatim>\<open>Action(value)\<close>\<close>
  "action_of v =
     (if v = JStr ''enqueue'' then Some ENQUEUE
      else if v = JStr ''deliver'' then Some DELIVER
      else if v = JStr ''reorg'' then Some REORG
      else None)"

lemma action_of_value [simp]: "action_of (JStr (action_value a)) = Some a"
  by (cases a) (simp_all add: action_of_def)

datatype paired_error = PairedValue string | PairedIndex | PairedKey string

section \<open>Bounds, profile and messages\<close>

record transition_bounds =
  max_transactions :: int
  max_channel_transitions :: int
  max_pending :: int

definition default_bounds :: transition_bounds where
  "default_bounds = \<lparr>max_transactions = 6, max_channel_transitions = 12, max_pending = 2\<rparr>"

definition TransitionBounds :: "transition_bounds \<Rightarrow> paired_error + transition_bounds" where
  "TransitionBounds b =
     (if max_transactions b \<le> 0 then Inl (PairedValue ''max_transactions must be a positive integer'')
      else if max_channel_transitions b \<le> 0
        then Inl (PairedValue ''max_channel_transitions must be a positive integer'')
      else if max_pending b \<le> 0 then Inl (PairedValue ''max_pending must be a positive integer'')
      else Inr b)"

record transition_profile =
  allow_reordering :: bool
  allow_duplicate_enqueue :: bool
  allow_pre_finality_reorg :: bool
  finality_depth :: int
  require_attestation :: bool
  authorized_emitters :: "string list"
  authorized_attestors :: "string list"

definition default_profile :: transition_profile where
  "default_profile = \<lparr>allow_reordering = True, allow_duplicate_enqueue = False,
     allow_pre_finality_reorg = False, finality_depth = 0, require_attestation = False,
     authorized_emitters = [], authorized_attestors = []\<rparr>"

definition TransitionProfile :: "transition_profile \<Rightarrow> paired_error + transition_profile" where
  "TransitionProfile p =
     (if finality_depth p < 0 then Inl (PairedValue ''finality_depth must be non-negative'')
      else if allow_pre_finality_reorg p \<and> finality_depth p < 1
        then Inl (PairedValue ''pre-finality reorg requires finality_depth >= 1'')
      else if list_ex (\<lambda>v. v = '''') (authorized_emitters p)
        then Inl (PairedValue ''authorized_emitters cannot contain empty identifiers'')
      else if list_ex (\<lambda>v. v = '''') (authorized_attestors p)
        then Inl (PairedValue ''authorized_attestors cannot contain empty identifiers'')
      else Inr p)"

record message =
  source_domain :: string
  destination_domain :: string
  emitter :: string
  recipient :: string
  nonce :: int
  payload_commitment :: string
  attestation :: "string option"
  attestor :: "string option"
  intent_id :: "string option"

definition Message :: "message \<Rightarrow> paired_error + message" where
  "Message m =
     (if source_domain m = '''' then Inl (PairedValue ''source_domain must be a non-empty string'')
      else if destination_domain m = ''''
        then Inl (PairedValue ''destination_domain must be a non-empty string'')
      else if emitter m = '''' then Inl (PairedValue ''emitter must be a non-empty string'')
      else if recipient m = '''' then Inl (PairedValue ''recipient must be a non-empty string'')
      else if payload_commitment m = ''''
        then Inl (PairedValue ''payload_commitment must be a non-empty string'')
      else if \<not> (0 \<le> nonce m \<and> nonce m < 2 ^ 256) then Inl (PairedValue ''nonce must be a uint256'')
      else if attestation m = Some ''''
        then Inl (PairedValue ''attestation must be a non-empty string when present'')
      else if attestor m = Some ''''
        then Inl (PairedValue ''attestor must be a non-empty string when present'')
      else if intent_id m = Some ''''
        then Inl (PairedValue ''intent_id must be a non-empty string when present'')
      else Inr m)"

type_synonym message_identity = "string \<times> string \<times> string \<times> string \<times> int \<times> string \<times> string"

definition or_empty :: "string option \<Rightarrow> string" where
  "or_empty v = (case v of None \<Rightarrow> '''' | Some s \<Rightarrow> s)"

definition message_identity :: "message \<Rightarrow> message_identity" where
  "message_identity m =
     (source_domain m, destination_domain m, emitter m, recipient m, nonce m,
      or_empty (intent_id m), payload_commitment m)"

definition identity_json :: "message_identity \<Rightarrow> json" where
  "identity_json = (\<lambda>(sd, dd, e, r, n, i, p).
     JArr [JStr sd, JStr dd, JStr e, JStr r, JInt n, JStr i, JStr p])"

definition message_key :: "(json \<Rightarrow> string) \<Rightarrow> message \<Rightarrow> string" where
  "message_key sha m = sha (identity_json (message_identity m))"

section \<open>The state of the fixture\<close>

record chain_state =
  chain_domain :: string
  storage :: "json dict"
  committed_messages :: "message list"
  canonical_history :: "string list"

record action_record =
  act :: action
  act_message :: message
  transaction_index :: nat
  channel_transition_index :: nat
  pending_before :: nat
  pending_after :: nat

record dual_chain_state =
  source :: chain_state
  destination :: chain_state
  pending :: "message list"
  delivered :: "message list"
  clocks :: "int dict"
  observer_state :: "json dict"
  transaction_count :: nat
  channel_transition_count :: nat
  action_log :: "action_record list"

record fixture =
  bounds :: transition_bounds
  profile :: transition_profile
  initial_state :: dual_chain_state
  fx_state :: dual_chain_state

definition initial_chain :: "string \<Rightarrow> chain_state" where
  "initial_chain d =
     \<lparr>chain_domain = d, storage = [], committed_messages = [], canonical_history = []\<rparr>"

definition initial_dual :: "string \<Rightarrow> string \<Rightarrow> dual_chain_state" where
  "initial_dual src dst =
     \<lparr>source = initial_chain src, destination = initial_chain dst, pending = [], delivered = [],
      clocks = [(src, 0), (dst, 0)], observer_state = [], transaction_count = 0,
      channel_transition_count = 0, action_log = []\<rparr>"

definition PairedFixture ::
    "string \<Rightarrow> string \<Rightarrow> transition_bounds \<Rightarrow> transition_profile \<Rightarrow> paired_error + fixture" where
  "PairedFixture src dst b p =
     (if src = dst then Inl (PairedValue ''source and destination domains must differ'')
      else Inr \<lparr>bounds = b, profile = p, initial_state = initial_dual src dst,
                fx_state = initial_dual src dst\<rparr>)"

definition restore :: "dual_chain_state \<Rightarrow> fixture \<Rightarrow> paired_error + fixture" where
  "restore snap fx =
     (if chain_domain (source snap) \<noteq> chain_domain (source (fx_state fx))
        then Inl (PairedValue ''snapshot source domain mismatch'')
      else if chain_domain (destination snap) \<noteq> chain_domain (destination (fx_state fx))
        then Inl (PairedValue ''snapshot destination domain mismatch'')
      else Inr (fx\<lparr>fx_state := snap\<rparr>))"

definition reset_fixture :: "fixture \<Rightarrow> fixture" where
  "reset_fixture fx = fx\<lparr>fx_state := initial_state fx\<rparr>"

end
