(* ===== verification/Paired_Operations.thy ===== *)
theory Paired_Operations
  imports Paired_Model "HOL-Library.Multiset"
begin

text \<open>
  The operations of \<^verbatim>\<open>PairedFixture\<close>: enqueue, deliver, reorg and observe, with their guards in
  the order of the code, and the list operations they use (\<^verbatim>\<open>pop\<close>, \<^verbatim>\<open>del\<close>, the search from the
  end of the channel).
\<close>

section \<open>Guards and helpers\<close>

definition raise :: "string \<Rightarrow> paired_error + 'a" where
  "raise msg = Inl (PairedValue msg)"

lemma raise_not_Inr [simp]: "raise msg \<noteq> Inr x" "Inr x \<noteq> raise msg"
  by (simp_all add: raise_def)

definition validate_message :: "fixture \<Rightarrow> message \<Rightarrow> paired_error + unit" where
  "validate_message fx m =
     (if source_domain m \<noteq> chain_domain (source (fx_state fx))
        then raise ''message source domain mismatch''
      else if destination_domain m \<noteq> chain_domain (destination (fx_state fx))
        then raise ''message destination domain mismatch''
      else if \<not> (0 \<le> nonce m \<and> nonce m < 2 ^ 256) then raise ''message nonce must be a uint256''
      else if emitter m = '''' \<or> recipient m = '''' \<or> payload_commitment m = ''''
        then raise ''message identity fields must be non-empty''
      else if intent_id m = Some '''' then raise ''intent_id must be a non-empty string when present''
      else if authorized_emitters (profile fx) \<noteq> [] \<and>
              emitter m \<notin> set (authorized_emitters (profile fx))
        then raise ''message emitter is not authorized by transition profile''
      else if require_attestation (profile fx) then
        (if or_empty (attestation m) = '''' \<or> or_empty (attestor m) = ''''
           then raise ''message requires an attestation and attestor''
         else if attestor m \<notin> Some ` set (authorized_attestors (profile fx))
           then raise ''message attestor is not authorized by transition profile''
         else Inr ())
      else if attestation m = Some '''' then raise ''attestation cannot be empty''
      else Inr ())"

definition require_capacity :: "fixture \<Rightarrow> action \<Rightarrow> bool \<Rightarrow> paired_error + unit" where
  "require_capacity fx a channel_transition =
     (if max_transactions (bounds fx) \<le> int (transaction_count (fx_state fx))
        then raise (''transaction bound exhausted before '' @ action_value a)
      else if channel_transition \<and>
              max_channel_transitions (bounds fx) \<le> int (channel_transition_count (fx_state fx))
        then raise (''channel transition bound exhausted before '' @ action_value a)
      else Inr ())"

definition record_action ::
    "action \<Rightarrow> message \<Rightarrow> nat \<Rightarrow> bool \<Rightarrow> dual_chain_state \<Rightarrow> dual_chain_state" where
  "record_action a m before channel_transition s =
     (let tx = Suc (transaction_count s);
          ch = (if channel_transition then Suc (channel_transition_count s)
                else channel_transition_count s)
      in s\<lparr>transaction_count := tx, channel_transition_count := ch,
           action_log := action_log s @
             [\<lparr>act = a, act_message = m, transaction_index = tx, channel_transition_index = ch,
               pending_before = before, pending_after = length (pending s)\<rparr>]\<rparr>)"

text \<open>\<^verbatim>\<open>clocks[domain] += k\<close>\<close>

definition add_clock :: "string \<Rightarrow> int \<Rightarrow> dual_chain_state \<Rightarrow> paired_error + dual_chain_state" where
  "add_clock d k s = (case dict_get (clocks s) d of
       None \<Rightarrow> Inl (PairedKey d)
     | Some c \<Rightarrow> Inr (s\<lparr>clocks := dict_put d (c + k) (clocks s)\<rparr>))"

definition delete_at :: "nat \<Rightarrow> 'a list \<Rightarrow> 'a list" where
  "delete_at i xs = take i xs @ drop (Suc i) xs"

text \<open>The last position whose element satisfies the predicate.\<close>

definition last_index :: "('a \<Rightarrow> bool) \<Rightarrow> 'a list \<Rightarrow> nat option" where
  "last_index P xs = find (\<lambda>i. P (xs ! i)) (rev [0 ..< length xs])"

definition same_identity :: "message \<Rightarrow> message \<Rightarrow> bool" where
  "same_identity m n = (message_identity n = message_identity m)"

section \<open>Enqueue\<close>

definition enqueue_effect ::
    "(json \<Rightarrow> string) \<Rightarrow> message \<Rightarrow> dual_chain_state \<Rightarrow> dual_chain_state" where
  "enqueue_effect sha m s =
     s\<lparr>pending := pending s @ [m],
       source := (source s)\<lparr>committed_messages := committed_messages (source s) @ [m],
                           canonical_history := canonical_history (source s) @ [message_key sha m]\<rparr>\<rparr>"

definition enqueue :: "(json \<Rightarrow> string) \<Rightarrow> message \<Rightarrow> fixture \<Rightarrow> paired_error + fixture" where
  "enqueue sha m fx =
     bind_result (validate_message fx m) (\<lambda>_.
     bind_result (require_capacity fx ENQUEUE True) (\<lambda>_.
       if max_pending (bounds fx) \<le> int (length (pending (fx_state fx)))
         then raise ''pending channel bound exhausted''
       else if \<not> allow_duplicate_enqueue (profile fx) \<and>
               list_ex (same_identity m) (committed_messages (source (fx_state fx)))
         then raise ''duplicate message identity''
       else
         bind_result (add_clock (source_domain m) 1 (enqueue_effect sha m (fx_state fx))) (\<lambda>s.
           Inr (fx\<lparr>fx_state := record_action ENQUEUE m (length (pending (fx_state fx))) True s\<rparr>))))"

section \<open>Deliver\<close>

definition received_key :: "message \<Rightarrow> string" where
  "received_key m = ''received:'' @ string_of_int (nonce m)"

definition deliver_effect ::
    "(json \<Rightarrow> string) \<Rightarrow> nat \<Rightarrow> dual_chain_state \<Rightarrow> dual_chain_state" where
  "deliver_effect sha i s =
     (let m = pending s ! i in
      s\<lparr>pending := delete_at i (pending s), delivered := delivered s @ [m],
        destination := (destination s)
          \<lparr>canonical_history := canonical_history (destination s) @ [message_key sha m],
           storage := dict_put (received_key m) (JStr (payload_commitment m)) (storage (destination s))\<rparr>\<rparr>)"

definition deliver :: "(json \<Rightarrow> string) \<Rightarrow> int \<Rightarrow> fixture \<Rightarrow> paired_error + message \<times> fixture" where
  "deliver sha index fx =
     (if pending (fx_state fx) = [] then raise ''cannot deliver from an empty channel''
      else if index < 0 \<or> int (length (pending (fx_state fx))) \<le> index then Inl PairedIndex
      else if \<not> allow_reordering (profile fx) \<and> index \<noteq> 0
        then raise ''reordering is disabled by transition profile''
      else
        bind_result (require_capacity fx DELIVER True) (\<lambda>_.
          let m = pending (fx_state fx) ! nat index in
          bind_result (add_clock (destination_domain m) 1 (deliver_effect sha (nat index) (fx_state fx))) (\<lambda>s.
            Inr (m, fx\<lparr>fx_state := record_action DELIVER m (length (pending (fx_state fx))) True s\<rparr>))))"

section \<open>Reorg\<close>

text \<open>Python's reading of a negative index.\<close>

definition from_end :: "int \<Rightarrow> 'a list \<Rightarrow> int" where
  "from_end index xs = (if index < 0 then index + int (length xs) else index)"

definition reorg_effect :: "nat \<Rightarrow> nat \<Rightarrow> dual_chain_state \<Rightarrow> dual_chain_state" where
  "reorg_effect j i s =
     s\<lparr>pending := delete_at j (pending s),
       source := (source s)\<lparr>committed_messages := delete_at i (committed_messages (source s)),
                           canonical_history := delete_at i (canonical_history (source s))\<rparr>\<rparr>"

definition reorg :: "int \<Rightarrow> fixture \<Rightarrow> paired_error + message \<times> fixture" where
  "reorg raw_index fx =
     (let s = fx_state fx; committed = committed_messages (source s); index = from_end raw_index committed in
      if \<not> allow_pre_finality_reorg (profile fx)
        then raise ''pre-finality reorg is disabled by transition profile''
      else if committed = [] then raise ''cannot reorg an empty canonical history''
      else if index < 0 \<or> int (length committed) \<le> index then Inl PairedIndex
      else if finality_depth (profile fx) \<le> int (length committed) - 1 - index
        then raise ''message is finalized by transition profile''
      else
        bind_result (require_capacity fx REORG False) (\<lambda>_.
          let i = nat index; m = committed ! i in
          (case last_index (same_identity m) (pending s) of
             None \<Rightarrow> raise ''cannot reorg a message already delivered''
           | Some j \<Rightarrow>
               if length (canonical_history (source s)) \<le> i then Inl PairedIndex
               else
                 bind_result (add_clock (source_domain m) (- 1) (reorg_effect j i s)) (\<lambda>s1.
                   Inr (m, fx\<lparr>fx_state := record_action REORG m (length (pending s)) False s1\<rparr>)))))"

definition reorg_latest :: "fixture \<Rightarrow> paired_error + message \<times> fixture" where
  "reorg_latest fx = reorg (- 1) fx"

section \<open>Observe\<close>

definition observe :: "string \<Rightarrow> json \<Rightarrow> fixture \<Rightarrow> paired_error + fixture" where
  "observe key value fx =
     (if key = '''' then raise ''observer key must be non-empty''
      else Inr (fx\<lparr>fx_state := (fx_state fx)
                  \<lparr>observer_state := dict_put key value (observer_state (fx_state fx))\<rparr>\<rparr>))"

section \<open>Lemmas on the helpers\<close>

lemma length_delete_at [simp]: "i < length xs \<Longrightarrow> length (delete_at i xs) = length xs - 1"
  by (auto simp: delete_at_def)

lemma mset_delete_at: "i < length xs \<Longrightarrow> mset xs = add_mset (xs ! i) (mset (delete_at i xs))"
  by (subst id_take_nth_drop [of i xs]) (simp_all add: delete_at_def)

lemma map_delete_at: "map f (delete_at i xs) = delete_at i (map f xs)"
  by (simp add: delete_at_def take_map drop_map)

lemma set_delete_at_subset: "set (delete_at i xs) \<subseteq> set xs"
  by (auto simp: delete_at_def dest: in_set_takeD in_set_dropD)

lemma distinct_delete_at: "distinct xs \<Longrightarrow> distinct (delete_at i xs)"
  by (cases "i < length xs")
     (auto simp: delete_at_def set_take_disj_set_drop_if_distinct)

lemma last_index_SomeD:
  "last_index P xs = Some j \<Longrightarrow> j < length xs \<and> P (xs ! j)"
  by (auto simp: last_index_def find_Some_iff rev_nth)

lemma last_index_None_iff: "last_index P xs = None \<longleftrightarrow> (\<forall>x \<in> set xs. \<not> P x)"
  by (auto simp: last_index_def find_None_iff all_set_conv_all_nth)

lemma record_action_fields [simp]:
  "source (record_action a m n c s) = source s"
  "destination (record_action a m n c s) = destination s"
  "pending (record_action a m n c s) = pending s"
  "delivered (record_action a m n c s) = delivered s"
  "clocks (record_action a m n c s) = clocks s"
  "observer_state (record_action a m n c s) = observer_state s"
  by (simp_all add: record_action_def Let_def)

lemma add_clock_Inr [result_simps]:
  "add_clock d k s = Inr s' \<longleftrightarrow>
   (\<exists>c. dict_get (clocks s) d = Some c \<and> s' = s\<lparr>clocks := dict_put d (c + k) (clocks s)\<rparr>)"
  by (auto simp: add_clock_def split: option.splits)

end
