(* ===== verification/Paired_Invariants.thy ===== *)
theory Paired_Invariants
  imports Paired_Operations
begin

text \<open>
  The fixture as a transition system. \<open>fixture_step\<close> is one mutating operation, \<open>reachable\<close>
  closes the initial fixture under steps, reset and the restoration of a snapshot taken of any
  reachable fixture. \<open>fixture_ok\<close> is the invariant: bounds, the action log, the clocks, the
  histories, the storage, and the channel's accounting of identities.
\<close>

section \<open>What a successful operation did\<close>

lemma validate_message_unit: "validate_message fx m = Inr u \<Longrightarrow> u = ()"
  by simp

lemma enqueue_InrE:
  assumes "enqueue sha m fx = Inr fx'"
  obtains c where "validate_message fx m = Inr ()" "require_capacity fx ENQUEUE True = Inr ()"
    "int (length (pending (fx_state fx))) < max_pending (bounds fx)"
    "allow_duplicate_enqueue (profile fx) \<or>
      (\<forall>n \<in> set (committed_messages (source (fx_state fx))). \<not> same_identity m n)"
    "dict_get (clocks (fx_state fx)) (source_domain m) = Some c"
    "fx' = fx\<lparr>fx_state := record_action ENQUEUE m (length (pending (fx_state fx))) True
       ((enqueue_effect sha m (fx_state fx))
          \<lparr>clocks := dict_put (source_domain m) (c + 1) (clocks (fx_state fx))\<rparr>)\<rparr>"
  using assms that
  by (auto simp: enqueue_def result_simps list_ex_iff enqueue_effect_def split: if_splits)

lemma deliver_InrE:
  assumes "deliver sha index fx = Inr (m, fx')"
  obtains c i where "index = int i" "i < length (pending (fx_state fx))"
    "m = pending (fx_state fx) ! i" "allow_reordering (profile fx) \<or> i = 0"
    "require_capacity fx DELIVER True = Inr ()"
    "dict_get (clocks (fx_state fx)) (destination_domain m) = Some c"
    "fx' = fx\<lparr>fx_state := record_action DELIVER m (length (pending (fx_state fx))) True
       ((deliver_effect sha i (fx_state fx))
          \<lparr>clocks := dict_put (destination_domain m) (c + 1) (clocks (fx_state fx))\<rparr>)\<rparr>"
proof -
  let ?s = "fx_state fx"
  have "0 \<le> index \<and> index < int (length (pending ?s)) \<and> (allow_reordering (profile fx) \<or> index = 0)"
    using assms by (simp add: deliver_def split: if_splits)
  then obtain i where i: "index = int i" "i < length (pending ?s)" "allow_reordering (profile fx) \<or> i = 0"
    by (metis int_nat_eq nat_less_iff nat_0_iff of_nat_eq_0_iff)
  then have "pending ?s \<noteq> []" by auto
  with assms i have "bind_result (require_capacity fx DELIVER True) (\<lambda>_.
          let m = pending ?s ! i in
          bind_result (add_clock (destination_domain m) 1 (deliver_effect sha i ?s)) (\<lambda>s.
            Inr (m, fx\<lparr>fx_state := record_action DELIVER m (length (pending ?s)) True s\<rparr>))) = Inr (m, fx')"
    by (simp add: deliver_def split: if_splits)
  then obtain c where "m = pending ?s ! i" "require_capacity fx DELIVER True = Inr ()"
    "dict_get (clocks ?s) (destination_domain m) = Some c"
    "fx' = fx\<lparr>fx_state := record_action DELIVER m (length (pending ?s)) True
       ((deliver_effect sha i ?s)\<lparr>clocks := dict_put (destination_domain m) (c + 1) (clocks ?s)\<rparr>)\<rparr>"
    by (auto simp: result_simps Let_def deliver_effect_def)
  with i that show thesis by metis
qed

lemma reorg_InrE:
  assumes "reorg index fx = Inr (m, fx')"
  obtains c i j where "int i = from_end index (committed_messages (source (fx_state fx)))"
    "i < length (committed_messages (source (fx_state fx)))"
    "i < length (canonical_history (source (fx_state fx)))"
    "m = committed_messages (source (fx_state fx)) ! i"
    "last_index (same_identity m) (pending (fx_state fx)) = Some j"
    "allow_pre_finality_reorg (profile fx)"
    "int (length (committed_messages (source (fx_state fx)))) - 1 - int i < finality_depth (profile fx)"
    "require_capacity fx REORG False = Inr ()"
    "dict_get (clocks (fx_state fx)) (source_domain m) = Some c"
    "fx' = fx\<lparr>fx_state := record_action REORG m (length (pending (fx_state fx))) False
       ((reorg_effect j i (fx_state fx))
          \<lparr>clocks := dict_put (source_domain m) (c - 1) (clocks (fx_state fx))\<rparr>)\<rparr>"
proof -
  let ?s = "fx_state fx"
  let ?committed = "committed_messages (source ?s)"
  let ?i = "from_end index ?committed"
  have "0 \<le> ?i \<and> ?i < int (length ?committed) \<and>
    allow_pre_finality_reorg (profile fx) \<and> int (length ?committed) - 1 - ?i < finality_depth (profile fx)"
    using assms by (simp add: reorg_def Let_def split: if_splits)
  then obtain i where i: "?i = int i" "i < length ?committed"
    and profile: "allow_pre_finality_reorg (profile fx)"
      "int (length ?committed) - 1 - int i < finality_depth (profile fx)"
    by (metis int_nat_eq nat_less_iff)
  have "bind_result (require_capacity fx REORG False) (\<lambda>_.
          let m = ?committed ! i in
          (case last_index (same_identity m) (pending ?s) of
             None \<Rightarrow> raise ''cannot reorg a message already delivered''
           | Some j \<Rightarrow>
               if length (canonical_history (source ?s)) \<le> i then Inl PairedIndex
               else
                 bind_result (add_clock (source_domain m) (- 1) (reorg_effect j i ?s)) (\<lambda>s1.
                   Inr (m, fx\<lparr>fx_state := record_action REORG m (length (pending ?s)) False s1\<rparr>)))) =
      Inr (m, fx')"
    using assms i profile by (simp add: reorg_def Let_def split: if_splits)
  then obtain j c where "require_capacity fx REORG False = Inr ()" "m = ?committed ! i"
    "last_index (same_identity m) (pending ?s) = Some j" "i < length (canonical_history (source ?s))"
    "dict_get (clocks ?s) (source_domain m) = Some c"
    "fx' = fx\<lparr>fx_state := record_action REORG m (length (pending ?s)) False
       ((reorg_effect j i ?s)\<lparr>clocks := dict_put (source_domain m) (c - 1) (clocks ?s)\<rparr>)\<rparr>"
    by (auto simp: result_simps Let_def reorg_effect_def split: option.splits if_splits)
  with i profile that show thesis by metis
qed

lemma observe_InrE:
  assumes "observe key value fx = Inr fx'"
  obtains "key \<noteq> ''''" "fx' = fx\<lparr>fx_state := (fx_state fx)
     \<lparr>observer_state := dict_put key value (observer_state (fx_state fx))\<rparr>\<rparr>"
  using assms that by (auto simp: observe_def split: if_splits)

lemma require_capacity_Inr:
  "require_capacity fx a ch = Inr u \<longleftrightarrow>
     int (transaction_count (fx_state fx)) < max_transactions (bounds fx) \<and>
     (ch \<longrightarrow> int (channel_transition_count (fx_state fx)) < max_channel_transitions (bounds fx))"
  by (auto simp: require_capacity_def)

section \<open>Steps and reachability\<close>

inductive fixture_step :: "(json \<Rightarrow> string) \<Rightarrow> fixture \<Rightarrow> fixture \<Rightarrow> bool" for sha where
  enqueue: "enqueue sha m fx = Inr fx' \<Longrightarrow> fixture_step sha fx fx'"
| deliver: "deliver sha i fx = Inr (m, fx') \<Longrightarrow> fixture_step sha fx fx'"
| reorg: "reorg i fx = Inr (m, fx') \<Longrightarrow> fixture_step sha fx fx'"
| observe: "observe k v fx = Inr fx' \<Longrightarrow> fixture_step sha fx fx'"

inductive reachable :: "(json \<Rightarrow> string) \<Rightarrow> fixture \<Rightarrow> fixture \<Rightarrow> bool" for sha fx0 where
  start: "reachable sha fx0 fx0"
| step: "reachable sha fx0 fx \<Longrightarrow> fixture_step sha fx fx' \<Longrightarrow> reachable sha fx0 fx'"
| reset: "reachable sha fx0 fx \<Longrightarrow> reachable sha fx0 (reset_fixture fx)"
| restore: "reachable sha fx0 fx \<Longrightarrow> reachable sha fx0 fx1 \<Longrightarrow> restore (fx_state fx1) fx = Inr fx' \<Longrightarrow>
    reachable sha fx0 fx'"

section \<open>The invariant\<close>

text \<open>Log entries carry their position, and count the channel transitions before them.\<close>

definition log_ok :: "action_record list \<Rightarrow> bool" where
  "log_ok log = (\<forall>i < length log. transaction_index (log ! i) = Suc i \<and>
     channel_transition_index (log ! i) =
       length (filter (\<lambda>e. act e \<noteq> REORG) (take (Suc i) log)))"

definition replay_storage :: "message list \<Rightarrow> json dict" where
  "replay_storage ms = fold (\<lambda>m. dict_put (received_key m) (JStr (payload_commitment m))) ms []"

definition ids :: "message list \<Rightarrow> message_identity list" where
  "ids = map message_identity"

text \<open>The profile's checks of a message, on the domains of the fixture.\<close>

definition admissible :: "transition_profile \<Rightarrow> string \<Rightarrow> string \<Rightarrow> message \<Rightarrow> bool" where
  "admissible p src dst m \<longleftrightarrow>
     source_domain m = src \<and> destination_domain m = dst \<and> 0 \<le> nonce m \<and> nonce m < 2 ^ 256 \<and>
     emitter m \<noteq> '''' \<and> recipient m \<noteq> '''' \<and> payload_commitment m \<noteq> '''' \<and>
     intent_id m \<noteq> Some '''' \<and>
     (authorized_emitters p \<noteq> [] \<longrightarrow> emitter m \<in> set (authorized_emitters p)) \<and>
     (require_attestation p \<longrightarrow> or_empty (attestation m) \<noteq> '''' \<and>
        (\<exists>a \<in> set (authorized_attestors p). attestor m = Some a \<and> a \<noteq> ''''))"

lemma validate_message_admissible:
  "validate_message fx m = Inr u \<Longrightarrow>
   admissible (profile fx) (chain_domain (source (fx_state fx))) (chain_domain (destination (fx_state fx))) m"
  by (auto simp: validate_message_def admissible_def or_empty_def split: if_splits option.splits)

definition counters_ok :: "transition_bounds \<Rightarrow> dual_chain_state \<Rightarrow> bool" where
  "counters_ok b s \<longleftrightarrow>
     int (transaction_count s) \<le> max_transactions b \<and>
     int (channel_transition_count s) \<le> max_channel_transitions b \<and>
     int (length (pending s)) \<le> max_pending b \<and>
     transaction_count s = length (action_log s) \<and>
     channel_transition_count s = length (filter (\<lambda>e. act e \<noteq> REORG) (action_log s)) \<and>
     log_ok (action_log s)"

definition chains_ok :: "(json \<Rightarrow> string) \<Rightarrow> string \<Rightarrow> string \<Rightarrow> dual_chain_state \<Rightarrow> bool" where
  "chains_ok sha src dst s \<longleftrightarrow>
     chain_domain (source s) = src \<and> chain_domain (destination s) = dst \<and>
     canonical_history (source s) = map (message_key sha) (committed_messages (source s)) \<and>
     canonical_history (destination s) = map (message_key sha) (delivered s) \<and>
     committed_messages (destination s) = [] \<and> storage (source s) = [] \<and>
     storage (destination s) = replay_storage (delivered s) \<and>
     dict_get (clocks s) src = Some (int (length (committed_messages (source s)))) \<and>
     dict_get (clocks s) dst = Some (int (length (delivered s)))"

definition channel_ok :: "transition_profile \<Rightarrow> string \<Rightarrow> string \<Rightarrow> dual_chain_state \<Rightarrow> bool" where
  "channel_ok p src dst s \<longleftrightarrow>
     mset (ids (committed_messages (source s))) = mset (ids (pending s)) + mset (ids (delivered s)) \<and>
     (\<forall>m \<in> set (committed_messages (source s)) \<union> set (pending s) \<union> set (delivered s).
        admissible p src dst m) \<and>
     (\<not> allow_duplicate_enqueue p \<longrightarrow> distinct (ids (committed_messages (source s)))) \<and>
     (\<not> allow_duplicate_enqueue p \<and> \<not> allow_reordering p \<longrightarrow>
        committed_messages (source s) = delivered s @ pending s)"

definition state_ok ::
    "(json \<Rightarrow> string) \<Rightarrow> transition_bounds \<Rightarrow> transition_profile \<Rightarrow> string \<Rightarrow> string \<Rightarrow> dual_chain_state \<Rightarrow> bool"
where
  "state_ok sha b p src dst s \<longleftrightarrow> counters_ok b s \<and> chains_ok sha src dst s \<and> channel_ok p src dst s"

definition fixture_ok :: "(json \<Rightarrow> string) \<Rightarrow> fixture \<Rightarrow> bool" where
  "fixture_ok sha fx = (let src = chain_domain (source (initial_state fx));
                            dst = chain_domain (destination (initial_state fx)) in
     src \<noteq> dst \<and>
     state_ok sha (bounds fx) (profile fx) src dst (initial_state fx) \<and>
     state_ok sha (bounds fx) (profile fx) src dst (fx_state fx))"

section \<open>Preservation\<close>

lemma log_ok_snoc:
  assumes "log_ok log" "transaction_index e = Suc (length log)"
    and "channel_transition_index e = length (filter (\<lambda>e. act e \<noteq> REORG) (log @ [e]))"
  shows "log_ok (log @ [e])"
  using assms by (auto simp: log_ok_def nth_append less_Suc_eq)

lemma counters_record:
  assumes "counters_ok b s" "require_capacity fx a ch = Inr u" "bounds fx = b" "fx_state fx = s"
    and "transaction_count s1 = transaction_count s"
    and "channel_transition_count s1 = channel_transition_count s" "action_log s1 = action_log s"
    and "int (length (pending s1)) \<le> max_pending b" "ch \<longleftrightarrow> a \<noteq> REORG"
  shows "counters_ok b (record_action a m n ch s1)"
  using assms
  by (auto simp: counters_ok_def record_action_def Let_def require_capacity_Inr intro!: log_ok_snoc)

lemma replay_storage_snoc:
  "replay_storage (ms @ [m]) = dict_put (received_key m) (JStr (payload_commitment m)) (replay_storage ms)"
  by (simp add: replay_storage_def)

lemma enqueue_state_ok:
  assumes "state_ok sha b p src dst (fx_state fx)" "bounds fx = b" "profile fx = p" "src \<noteq> dst"
    and "enqueue sha m fx = Inr fx'"
  shows "state_ok sha b p src dst (fx_state fx')"
  using assms(5)
proof (cases rule: enqueue_InrE)
  case (1 c)
  let ?s = "fx_state fx"
  let ?s1 = "(enqueue_effect sha m ?s)\<lparr>clocks := dict_put (source_domain m) (c + 1) (clocks ?s)\<rparr>"
  from assms(1) have counters: "counters_ok b ?s" and chains: "chains_ok sha src dst ?s"
    and channel: "channel_ok p src dst ?s" by (simp_all add: state_ok_def)
  from validate_message_admissible [OF 1(1)] chains assms(3)
  have m: "admissible p src dst m" by (simp add: chains_ok_def)
  then have "source_domain m = src" by (simp add: admissible_def)
  with 1(5) chains assms(4) have "chains_ok sha src dst ?s1"
    by (simp add: chains_ok_def enqueue_effect_def)
  moreover have "counters_ok b (record_action ENQUEUE m n True ?s1)" for n
    by (rule counters_record [OF counters 1(2) assms(2) refl])
       (use 1(3) assms(2) in \<open>simp_all add: enqueue_effect_def\<close>)
  moreover have "channel_ok p src dst ?s1"
    using channel m 1(4) assms(3)
    by (auto simp: channel_ok_def enqueue_effect_def ids_def same_identity_def)
  ultimately show ?thesis using 1(6)
    by (simp add: state_ok_def chains_ok_def channel_ok_def)
qed

lemma deliver_state_ok:
  assumes "state_ok sha b p src dst (fx_state fx)" "bounds fx = b" "profile fx = p" "src \<noteq> dst"
    and "deliver sha index fx = Inr (m, fx')"
  shows "state_ok sha b p src dst (fx_state fx')"
  using assms(5)
proof (cases rule: deliver_InrE)
  case (1 c i)
  let ?s = "fx_state fx"
  let ?s1 = "(deliver_effect sha i ?s)\<lparr>clocks := dict_put (destination_domain m) (c + 1) (clocks ?s)\<rparr>"
  from assms(1) have counters: "counters_ok b ?s" and chains: "chains_ok sha src dst ?s"
    and channel: "channel_ok p src dst ?s" by (simp_all add: state_ok_def)
  from 1(2,3) have m: "m \<in> set (pending ?s)" by simp
  with channel have "destination_domain m = dst" by (auto simp: channel_ok_def admissible_def)
  with 1(3,6) chains assms(4) have "chains_ok sha src dst ?s1"
    by (simp add: chains_ok_def deliver_effect_def Let_def replay_storage_snoc)
  moreover have "counters_ok b (record_action DELIVER m n True ?s1)" for n
    by (rule counters_record [OF counters 1(5) assms(2) refl])
       (use counters 1(2) in \<open>simp_all add: deliver_effect_def Let_def counters_ok_def\<close>)
  moreover have "channel_ok p src dst ?s1"
  proof -
    have "mset (ids (pending ?s)) = add_mset (message_identity m) (mset (ids (delete_at i (pending ?s))))"
      using mset_delete_at [of i "ids (pending ?s)"] 1(2,3) by (simp add: ids_def map_delete_at)
    moreover have "\<not> allow_reordering p \<Longrightarrow> m # delete_at i (pending ?s) = pending ?s"
      using 1(2-4) assms(3) by (cases "pending ?s") (auto simp: delete_at_def)
    moreover have "delete_at i (pending ?s) = delete_at i (pending ?s)" ..
    ultimately show ?thesis
      using channel m set_delete_at_subset [of i "pending ?s"] 1(3)
      by (auto simp: channel_ok_def deliver_effect_def Let_def ids_def)
  qed
  ultimately show ?thesis using 1(7)
    by (simp add: state_ok_def chains_ok_def channel_ok_def)
qed

lemma delete_at_append: "delete_at (length xs + j) (xs @ ys) = xs @ delete_at j ys"
  by (simp add: delete_at_def)

lemma reorg_state_ok:
  assumes "state_ok sha b p src dst (fx_state fx)" "bounds fx = b" "profile fx = p" "src \<noteq> dst"
    and "reorg index fx = Inr (m, fx')"
  shows "state_ok sha b p src dst (fx_state fx')"
  using assms(5)
proof (cases rule: reorg_InrE)
  case (1 c i j)
  let ?s = "fx_state fx"
  let ?committed = "committed_messages (source ?s)"
  let ?s1 = "(reorg_effect j i ?s)\<lparr>clocks := dict_put (source_domain m) (c - 1) (clocks ?s)\<rparr>"
  from assms(1) have counters: "counters_ok b ?s" and chains: "chains_ok sha src dst ?s"
    and channel: "channel_ok p src dst ?s" by (simp_all add: state_ok_def)
  from 1(2,4) have m: "m \<in> set ?committed" by simp
  from last_index_SomeD [OF 1(5)] have j: "j < length (pending ?s)"
    "message_identity (pending ?s ! j) = message_identity m" by (simp_all add: same_identity_def)
  from m channel have "source_domain m = src" by (auto simp: channel_ok_def admissible_def)
  with 1(2,9) chains assms(4) have "chains_ok sha src dst ?s1"
    by (auto simp: chains_ok_def reorg_effect_def map_delete_at)
  moreover have "counters_ok b (record_action REORG m n False ?s1)" for n
    by (rule counters_record [OF counters 1(8) assms(2) refl])
       (use counters j(1) in \<open>simp_all add: reorg_effect_def counters_ok_def\<close>)
  moreover have "channel_ok p src dst ?s1"
  proof -
    have "mset (ids ?committed) = add_mset (message_identity m) (mset (ids (delete_at i ?committed)))"
      using mset_delete_at [of i "ids ?committed"] 1(2,4) by (simp add: ids_def map_delete_at)
    moreover have "mset (ids (pending ?s)) =
        add_mset (message_identity m) (mset (ids (delete_at j (pending ?s))))"
      using mset_delete_at [of j "ids (pending ?s)"] j by (simp add: ids_def map_delete_at)
    moreover have "distinct (ids ?committed) \<Longrightarrow> distinct (ids (delete_at i ?committed))"
      by (simp add: ids_def map_delete_at distinct_delete_at)
    moreover have "delete_at i ?committed = delivered ?s @ delete_at j (pending ?s)"
      if fifo: "?committed = delivered ?s @ pending ?s" and dist: "distinct (ids ?committed)"
    proof -
      have "ids ?committed ! i = ids ?committed ! (length (delivered ?s) + j)"
        using 1(2,4) j fifo by (simp add: ids_def nth_append)
      then have "i = length (delivered ?s) + j"
        using dist 1(2) j(1) fifo by (simp add: ids_def nth_eq_iff_index_eq)
      with fifo show ?thesis by (simp add: delete_at_append)
    qed
    ultimately show ?thesis
      using channel set_delete_at_subset [of j "pending ?s"] set_delete_at_subset [of i ?committed]
      by (auto simp: channel_ok_def reorg_effect_def)
  qed
  ultimately show ?thesis using 1(10)
    by (simp add: state_ok_def chains_ok_def channel_ok_def)
qed

lemma observe_state_ok:
  assumes "state_ok sha b p src dst (fx_state fx)" "observe k v fx = Inr fx'"
  shows "state_ok sha b p src dst (fx_state fx')"
  using assms(2,1)
  by (cases rule: observe_InrE) (simp add: state_ok_def counters_ok_def chains_ok_def channel_ok_def)

text \<open>What no operation changes.\<close>

lemma fixture_step_frame:
  "fixture_step sha fx fx' \<Longrightarrow>
   bounds fx' = bounds fx \<and> profile fx' = profile fx \<and> initial_state fx' = initial_state fx"
  by (cases rule: fixture_step.cases)
     (auto elim!: enqueue_InrE deliver_InrE reorg_InrE observe_InrE)

lemma fixture_step_ok:
  assumes "fixture_ok sha fx" "fixture_step sha fx fx'"
  shows "fixture_ok sha fx'"
proof -
  let ?src = "chain_domain (source (initial_state fx))" and ?dst = "chain_domain (destination (initial_state fx))"
  have ok: "state_ok sha (bounds fx) (profile fx) ?src ?dst (fx_state fx)" "?src \<noteq> ?dst"
    using assms(1) by (simp_all add: fixture_ok_def Let_def)
  have "state_ok sha (bounds fx) (profile fx) ?src ?dst (fx_state fx')"
    using assms(2)
    by (cases rule: fixture_step.cases)
       (auto intro: enqueue_state_ok [OF ok(1) refl refl ok(2)] deliver_state_ok [OF ok(1) refl refl ok(2)]
          reorg_state_ok [OF ok(1) refl refl ok(2)] observe_state_ok [OF ok(1)])
  with assms(1) fixture_step_frame [OF assms(2)] show ?thesis
    by (simp add: fixture_ok_def Let_def)
qed

lemma reachable_frame:
  "reachable sha fx0 fx \<Longrightarrow>
   bounds fx = bounds fx0 \<and> profile fx = profile fx0 \<and> initial_state fx = initial_state fx0"
proof (induction rule: reachable.induct)
  case (step fx fx')
  with fixture_step_frame show ?case by metis
qed (auto simp: reset_fixture_def restore_def split: if_splits)

theorem reachable_ok:
  "reachable sha fx0 fx \<Longrightarrow> fixture_ok sha fx0 \<Longrightarrow> fixture_ok sha fx"
proof (induction rule: reachable.induct)
  case (step fx fx')
  then show ?case by (auto intro: fixture_step_ok)
next
  case (reset fx)
  then show ?case by (simp add: fixture_ok_def reset_fixture_def Let_def)
next
  case (restore fx fx1 fx')
  with reachable_frame [OF restore.hyps(1)] reachable_frame [OF restore.hyps(2)] show ?case
    by (auto simp: fixture_ok_def restore_def Let_def split: if_splits)
qed simp

lemma PairedFixture_ok:
  assumes "PairedFixture src dst b p = Inr fx" "TransitionBounds b = Inr b"
  shows "fixture_ok sha fx"
  using assms
  by (auto simp: PairedFixture_def TransitionBounds_def fixture_ok_def state_ok_def counters_ok_def
      chains_ok_def channel_ok_def initial_dual_def initial_chain_def log_ok_def replay_storage_def
      ids_def Let_def split: if_splits)

section \<open>When an operation succeeds, and how it fails\<close>

lemma fixture_ok_clocks:
  assumes "fixture_ok sha fx"
  shows "dict_get (clocks (fx_state fx)) (chain_domain (source (fx_state fx))) =
      Some (int (length (committed_messages (source (fx_state fx)))))"
    and "dict_get (clocks (fx_state fx)) (chain_domain (destination (fx_state fx))) =
      Some (int (length (delivered (fx_state fx))))"
  using assms by (simp_all add: fixture_ok_def Let_def state_ok_def chains_ok_def)

lemma validate_message_domains:
  "validate_message fx m = Inr u \<Longrightarrow> source_domain m = chain_domain (source (fx_state fx)) \<and>
     destination_domain m = chain_domain (destination (fx_state fx))"
  by (simp add: validate_message_def split: if_splits)

lemma validate_message_error: "validate_message fx m = Inl e \<Longrightarrow> \<exists>msg. e = PairedValue msg"
  by (auto simp: validate_message_def raise_def split: if_splits)

lemma require_capacity_error: "require_capacity fx a c = Inl e \<Longrightarrow> \<exists>msg. e = PairedValue msg"
  by (auto simp: require_capacity_def raise_def split: if_splits)

definition enqueue_enabled :: "message \<Rightarrow> fixture \<Rightarrow> bool" where
  "enqueue_enabled m fx \<longleftrightarrow>
     validate_message fx m = Inr () \<and> require_capacity fx ENQUEUE True = Inr () \<and>
     int (length (pending (fx_state fx))) < max_pending (bounds fx) \<and>
     (allow_duplicate_enqueue (profile fx) \<or>
      message_identity m \<notin> set (ids (committed_messages (source (fx_state fx)))))"

lemma enqueue_outcome:
  assumes "fixture_ok sha fx"
  shows "if enqueue_enabled m fx then \<exists>fx'. enqueue sha m fx = Inr fx'
    else \<exists>msg. enqueue sha m fx = Inl (PairedValue msg)"
proof (cases "validate_message fx m")
  case (Inl e)
  with validate_message_error [OF Inl] show ?thesis by (auto simp: enqueue_def enqueue_enabled_def)
next
  case valid: (Inr u)
  show ?thesis
  proof (cases "require_capacity fx ENQUEUE True")
    case (Inl e)
    with valid require_capacity_error [OF Inl] show ?thesis
      by (auto simp: enqueue_def enqueue_enabled_def)
  next
    case (Inr u)
    have "list_ex (same_identity m) (committed_messages (source (fx_state fx))) \<longleftrightarrow>
        message_identity m \<in> set (ids (committed_messages (source (fx_state fx))))"
      by (auto simp: list_ex_iff same_identity_def ids_def image_iff eq_commute [of "message_identity m"])
    moreover have "add_clock (source_domain m) 1 (enqueue_effect sha m (fx_state fx)) =
        Inr ((enqueue_effect sha m (fx_state fx))
          \<lparr>clocks := dict_put (source_domain m)
             (int (length (committed_messages (source (fx_state fx)))) + 1) (clocks (fx_state fx))\<rparr>)"
      using fixture_ok_clocks(1) [OF assms] validate_message_domains [OF valid]
      by (simp add: add_clock_def enqueue_effect_def)
    ultimately show ?thesis
      using valid Inr by (simp add: enqueue_def enqueue_enabled_def raise_def)
  qed
qed

lemma reorg_error_reorg_disabled:
  "\<not> allow_pre_finality_reorg (profile fx) \<Longrightarrow> \<exists>msg. reorg i fx = Inl (PairedValue msg)"
  by (simp add: reorg_def Let_def raise_def)

text \<open>A reorg keeps every committed message with at least \<open>finality_depth\<close> confirmations.\<close>

lemma reorg_keeps_finalized:
  assumes "reorg index fx = Inr (m, fx')"
  defines "committed \<equiv> committed_messages (source (fx_state fx))"
  shows "take (length committed - nat (finality_depth (profile fx))) committed =
    take (length committed - nat (finality_depth (profile fx)))
      (committed_messages (source (fx_state fx')))"
  using assms(1)
proof (cases rule: reorg_InrE)
  case (1 c i j)
  then have "length committed - nat (finality_depth (profile fx)) \<le> i"
    by (simp add: committed_def)
  with 1 show ?thesis by (simp add: reorg_effect_def delete_at_def committed_def min_absorb1)
qed

lemma reorg_removes:
  assumes "reorg index fx = Inr (m, fx')"
  shows "mset (committed_messages (source (fx_state fx))) =
      add_mset m (mset (committed_messages (source (fx_state fx'))))"
    and "message_identity m \<in> message_identity ` set (pending (fx_state fx))"
    and "delivered (fx_state fx') = delivered (fx_state fx)"
    and "destination (fx_state fx') = destination (fx_state fx)"
proof -
  from assms obtain i j c where *: "i < length (committed_messages (source (fx_state fx)))"
    "m = committed_messages (source (fx_state fx)) ! i"
    "last_index (same_identity m) (pending (fx_state fx)) = Some j"
    "fx' = fx\<lparr>fx_state := record_action REORG m (length (pending (fx_state fx))) False
       ((reorg_effect j i (fx_state fx))
          \<lparr>clocks := dict_put (source_domain m) (c - 1) (clocks (fx_state fx))\<rparr>)\<rparr>"
    by (rule reorg_InrE)
  from * show "mset (committed_messages (source (fx_state fx))) =
      add_mset m (mset (committed_messages (source (fx_state fx'))))"
    "delivered (fx_state fx') = delivered (fx_state fx)"
    "destination (fx_state fx') = destination (fx_state fx)"
    by (simp_all add: reorg_effect_def mset_delete_at)
  from last_index_SomeD [OF *(3)] show "message_identity m \<in> message_identity ` set (pending (fx_state fx))"
    unfolding same_identity_def by (metis imageI nth_mem)
qed

end
