(* ===== verification/Paired_Explorer.thy ===== *)
theory Paired_Explorer
  imports Complex_Main Contracts_Records Paired_Invariants
begin

text \<open>
  The exhaustive explorer of the fixture (\<^verbatim>\<open>backends/paired_explorer.py\<close>). Floating-point seconds
  are rationals; a NaN or an infinity is outside the model (\<^verbatim>\<open>SearchControl\<close> refuses them). The
  clock and the cancellation callback are the functions of their successive calls, and the
  predicate is a parameter that may raise.
\<close>

section \<open>Deadlines\<close>

record search_control =
  query_timeout_seconds :: rat
  campaign_deadline_seconds :: rat
  campaign_elapsed_seconds :: rat

definition SearchControl :: "search_control \<Rightarrow> paired_error + search_control" where
  "SearchControl c =
     (if query_timeout_seconds c \<le> 0 \<or> campaign_deadline_seconds c \<le> 0
        then raise ''search deadlines must be positive''
      else if campaign_deadline_seconds c < query_timeout_seconds c
        then raise ''query timeout cannot exceed campaign deadline''
      else if campaign_elapsed_seconds c < 0
        then raise ''campaign elapsed time cannot be negative''
      else Inr c)"

definition remaining_seconds :: "search_control \<Rightarrow> rat" where
  "remaining_seconds c =
     min (query_timeout_seconds c) (max 0 (campaign_deadline_seconds c - campaign_elapsed_seconds c))"

definition expiration_reason :: "search_control \<Rightarrow> rat \<Rightarrow> string" where
  "expiration_reason c elapsed =
     (if campaign_deadline_seconds c \<le> campaign_elapsed_seconds c + elapsed
        then ''campaign_deadline'' else ''query_timeout'')"

section \<open>Fingerprints\<close>

definition message_value :: "message \<Rightarrow> json" where
  "message_value m = JObj
     [(''source_domain'', JStr (source_domain m)), (''destination_domain'', JStr (destination_domain m)),
      (''emitter'', JStr (emitter m)), (''recipient'', JStr (recipient m)), (''nonce'', JInt (nonce m)),
      (''intent_id'', option_json (intent_id m)), (''payload_commitment'', JStr (payload_commitment m)),
      (''attestation'', option_json (attestation m)), (''attestor'', option_json (attestor m))]"

definition chain_value :: "chain_state \<Rightarrow> json" where
  "chain_value c = JObj
     [(''domain'', JStr (chain_domain c)), (''storage'', JObj (storage c)),
      (''committed_messages'', JArr (map message_value (committed_messages c)))]"

definition action_value_json :: "action_record \<Rightarrow> json" where
  "action_value_json e = JObj
     [(''action'', JStr (action_value (act e))), (''message'', message_value (act_message e)),
      (''transaction_index'', JInt (int (transaction_index e))),
      (''channel_transition_index'', JInt (int (channel_transition_index e))),
      (''pending_before'', JInt (int (pending_before e))),
      (''pending_after'', JInt (int (pending_after e)))]"

definition fingerprint_value :: "fixture \<Rightarrow> json" where
  "fingerprint_value fx = (let s = fx_state fx in JObj
     [(''source'', chain_value (source s)), (''destination'', chain_value (destination s)),
      (''pending'', JArr (map message_value (pending s))),
      (''delivered'', JArr (map message_value (delivered s))),
      (''clocks'', JObj (map (\<lambda>(d, c). (d, JInt c)) (clocks s))),
      (''observer_state'', JObj (observer_state s)),
      (''transaction_count'', JInt (int (transaction_count s))),
      (''channel_transition_count'', JInt (int (channel_transition_count s))),
      (''action_log'', JArr (map action_value_json (action_log s))),
      (''remaining_transactions'', JInt (max_transactions (bounds fx) - int (transaction_count s))),
      (''remaining_channel_transitions'',
        JInt (max_channel_transitions (bounds fx) - int (channel_transition_count s))),
      (''canonical_history'', JObj
        [(''source'', JArr (map JStr (canonical_history (source s)))),
         (''destination'', JArr (map JStr (canonical_history (destination s))))])])"

definition fingerprint :: "(json \<Rightarrow> string) \<Rightarrow> fixture \<Rightarrow> string" where
  "fingerprint sha fx = sha (fingerprint_value fx)"

section \<open>Successors\<close>

record explorer =
  messages :: "message list"
  max_states :: nat

definition BoundedPairedExplorer :: "message list \<Rightarrow> int \<Rightarrow> paired_error + explorer" where
  "BoundedPairedExplorer ms limit =
     (if limit \<le> 0 then raise ''max_states must be positive''
      else if card (set (ids ms)) \<noteq> length ms
        then raise ''candidate messages must have unique identities''
      else Inr \<lparr>messages = ms, max_states = nat limit\<rparr>)"

definition clone :: "fixture \<Rightarrow> paired_error + fixture" where
  "clone fx =
     bind_result (PairedFixture (chain_domain (source (fx_state fx)))
         (chain_domain (destination (fx_state fx))) (bounds fx) (profile fx))
       (restore (fx_state fx))"

text \<open>
  One branch: clone, apply the operation, keep the result unless it raised one of the exceptions
  the branch catches; another exception leaves the search.
\<close>

fun value_error :: "paired_error \<Rightarrow> bool" where
  "value_error (PairedValue _) = True"
| "value_error _ = False"

fun value_or_index_error :: "paired_error \<Rightarrow> bool" where
  "value_or_index_error (PairedKey _) = False"
| "value_or_index_error _ = True"

definition branch ::
    "fixture \<Rightarrow> (paired_error \<Rightarrow> bool) \<Rightarrow> (fixture \<Rightarrow> paired_error + fixture) \<Rightarrow> paired_error + fixture list"
where
  "branch fx caught operation = bind_result (clone fx) (\<lambda>copy.
     case operation copy of
       Inl e \<Rightarrow> if caught e then Inr [] else Inl e
     | Inr fx' \<Rightarrow> Inr [fx'])"

definition drop_message :: "paired_error + message \<times> fixture \<Rightarrow> paired_error + fixture" where
  "drop_message r = bind_result r (\<lambda>(m, fx). Inr fx)"

definition enqueue_branches ::
    "explorer \<Rightarrow> (json \<Rightarrow> string) \<Rightarrow> fixture \<Rightarrow> paired_error + fixture list list" where
  "enqueue_branches E sha fx = map_result (\<lambda>m.
     if message_identity m \<in> set (ids (committed_messages (source (fx_state fx)))) \<and>
        \<not> allow_duplicate_enqueue (profile fx) then Inr []
     else branch fx value_error (enqueue sha m)) (messages E)"

definition deliver_branches :: "(json \<Rightarrow> string) \<Rightarrow> fixture \<Rightarrow> paired_error + fixture list list" where
  "deliver_branches sha fx = map_result (\<lambda>i. branch fx value_or_index_error (\<lambda>copy. drop_message (deliver sha (int i) copy)))
     [0 ..< length (pending (fx_state fx))]"

definition reorg_branches :: "fixture \<Rightarrow> paired_error + fixture list" where
  "reorg_branches fx =
     (if allow_pre_finality_reorg (profile fx) then branch fx value_error (\<lambda>copy. drop_message (reorg_latest copy))
      else Inr [])"

definition successors ::
    "explorer \<Rightarrow> (json \<Rightarrow> string) \<Rightarrow> fixture \<Rightarrow> paired_error + fixture list" where
  "successors E sha fx =
     bind_result (enqueue_branches E sha fx) (\<lambda>es.
     bind_result (deliver_branches sha fx) (\<lambda>ds.
     bind_result (reorg_branches fx) (\<lambda>rs. Inr (concat es @ concat ds @ rs))))"

section \<open>The search\<close>

record search_result =
  sr_status :: search_status
  explored_states :: nat
  explored_paths :: nat
  schedule_count :: nat
  sr_complete :: bool
  sr_reason :: "string option"
  sr_witness :: "action_record list"
  elapsed_seconds :: rat
  cache_hits :: nat

text \<open>The local variables of the loop, and the environment it consults.\<close>

record search_vars =
  queue :: "fixture list"
  seen :: "string list"
  paths :: nat
  schedules :: nat
  hits :: nat

type_synonym predicate = "dual_chain_state \<Rightarrow> string + bool"

record search_env =
  control :: search_control
  clock :: "nat \<Rightarrow> rat"
  cancelled :: "(nat \<Rightarrow> bool) option"

text \<open>\<open>n\<close> is the number of earlier calls of the clock.\<close>

definition search_outcome ::
    "search_env \<Rightarrow> nat \<Rightarrow> search_vars \<Rightarrow> search_status \<Rightarrow> bool \<Rightarrow> string option \<Rightarrow> action_record list
       \<Rightarrow> search_result" where
  "search_outcome env n vs status cmplt reason trail =
     \<lparr>sr_status = status, explored_states = length (seen vs), explored_paths = paths vs,
      schedule_count = schedules vs, sr_complete = cmplt, sr_reason = reason, sr_witness = trail,
      elapsed_seconds = max 0 (clock env n - clock env 0), cache_hits = hits vs\<rparr>"

text \<open>
  The checks at the head of an iteration, in order: cancellation, the campaign's and the query's
  budget, the state limit. \<open>k\<close> counts the iterations: the clock is read once before the loop and
  once per iteration.
\<close>

definition loop_guard ::
    "explorer \<Rightarrow> search_env \<Rightarrow> nat \<Rightarrow> search_vars \<Rightarrow> (search_status \<times> string) option" where
  "loop_guard E env k vs =
     (let elapsed = clock env (Suc k) - clock env 0; budget = remaining_seconds (control env) in
      if (case cancelled env of None \<Rightarrow> False | Some c \<Rightarrow> c k) then Some (SearchUnknown, ''cancelled'')
      else if budget \<le> 0 then Some (SearchTimeout, ''campaign_deadline'')
      else if budget \<le> elapsed then Some (SearchTimeout, expiration_reason (control env) elapsed)
      else if max_states E \<le> length (seen vs) then Some (SearchUnknown, ''state_limit_exhausted'')
      else None)"

function search_loop ::
    "explorer \<Rightarrow> (json \<Rightarrow> string) \<Rightarrow> predicate \<Rightarrow> search_env \<Rightarrow> nat \<Rightarrow> search_vars
       \<Rightarrow> paired_error + search_result" where
  "search_loop E sha violation env k vs = (case queue vs of
       [] \<Rightarrow> Inr (search_outcome env (Suc k) vs SearchBoundedUnsat True
                (Some ''finite_schedule_space_exhausted'') [])
     | current # rest \<Rightarrow>
         (case loop_guard E env k vs of
            Some (status, reason) \<Rightarrow>
              Inr (search_outcome env (Suc (Suc k)) vs status False (Some reason) [])
          | None \<Rightarrow>
              if fingerprint sha current \<in> set (seen vs)
              then search_loop E sha violation env (Suc k) (vs\<lparr>queue := rest, hits := Suc (hits vs)\<rparr>)
              else
                let vs1 = vs\<lparr>queue := rest, seen := seen vs @ [fingerprint sha current]\<rparr> in
                (case violation (fx_state current) of
                   Inl msg \<Rightarrow> Inr (search_outcome env (Suc (Suc k)) vs1 SearchCrash False
                                (Some (''predicate_error:'' @ msg)) [])
                 | Inr True \<Rightarrow> Inr (search_outcome env (Suc (Suc k)) vs1 SearchSat True None
                                (action_log (fx_state current)))
                 | Inr False \<Rightarrow>
                     (case successors E sha current of
                        Inl e \<Rightarrow> Inl e
                      | Inr ss \<Rightarrow>
                          search_loop E sha violation env (Suc k)
                            (vs1\<lparr>queue := rest @ ss, schedules := schedules vs + length ss,
                                 paths := paths vs + length ss\<rparr>)))))"
  by pat_completeness auto
termination
  by (relation "measures [\<lambda>(E, sha, violation, env, k, vs). max_states E - length (seen vs),
                          \<lambda>(E, sha, violation, env, k, vs). length (queue vs)]")
     (auto simp: loop_guard_def Let_def split: if_splits)

declare search_loop.simps [simp del]

definition search ::
    "explorer \<Rightarrow> (json \<Rightarrow> string) \<Rightarrow> predicate \<Rightarrow> search_env \<Rightarrow> fixture \<Rightarrow> paired_error + search_result" where
  "search E sha violation env fx = bind_result (clone fx) (\<lambda>copy.
     search_loop E sha violation env 0
       \<lparr>queue = [copy], seen = [], paths = 0, schedules = 0, hits = 0\<rparr>)"

end
