(* ===== verification/Paired_Search.thy ===== *)
theory Paired_Search
  imports Paired_Explorer
begin

text \<open>
  What the explorer's verdicts mean. The worklist argument is stated once for any transition
  system whose rank decreases (\<open>bounded_system\<close>, \<open>worklist\<close>) and interpreted on the explorer's
  successor function, whose rank is the number of transactions left.
\<close>

section \<open>Worklist search of a bounded transition system\<close>

definition reaches :: "('s \<Rightarrow> 's list) \<Rightarrow> 's \<Rightarrow> 's \<Rightarrow> bool" where
  "reaches succs = (\<lambda>s t. t \<in> set (succs s))\<^sup>*\<^sup>*"

lemma reaches_refl [simp]: "reaches succs s s"
  by (simp add: reaches_def)

lemma reaches_step: "reaches succs s t \<Longrightarrow> u \<in> set (succs t) \<Longrightarrow> reaches succs s u"
  unfolding reaches_def by (rule rtranclp.rtrancl_into_rtrancl)

lemma reaches_unfold: "reaches succs s u \<longleftrightarrow> u = s \<or> (\<exists>t \<in> set (succs s). reaches succs t u)"
  unfolding reaches_def
  by (metis (mono_tags, lifting) converse_rtranclp_into_rtranclp converse_rtranclpE rtranclp.rtrancl_refl)

locale bounded_system =
  fixes succs :: "'s \<Rightarrow> 's list" and rank :: "'s \<Rightarrow> nat"
  assumes rank_decreases: "t \<in> set (succs s) \<Longrightarrow> rank t < rank s"
begin

lemma finite_reaches: "finite {t. reaches succs s t}"
proof (induction "rank s" arbitrary: s rule: less_induct)
  case less
  have "{t. reaches succs s t} = insert s (\<Union>u \<in> set (succs s). {t. reaches succs u t})"
    using reaches_unfold [of succs s] by auto
  moreover have "finite {t. reaches succs u t}" if "u \<in> set (succs s)" for u
    using less rank_decreases [OF that] by blast
  ultimately show ?case by simp
qed

lemma rank_reaches: "reaches succs s t \<Longrightarrow> rank t \<le> rank s"
  unfolding reaches_def
  by (induction rule: rtranclp.induct) (auto dest: rank_decreases)

end

text \<open>
  The invariant of the loop: every seen key stands for a reached state that the predicate
  cleared and whose successors are queued or seen.
\<close>

definition worklist_ok ::
    "('s \<Rightarrow> 's list) \<Rightarrow> ('s \<Rightarrow> 'k) \<Rightarrow> ('s \<Rightarrow> bool) \<Rightarrow> 's \<Rightarrow> 's list \<Rightarrow> 'k list \<Rightarrow> bool" where
  "worklist_ok succs key good s0 q keys \<longleftrightarrow>
     (s0 \<in> set q \<or> key s0 \<in> set keys) \<and> (\<forall>s \<in> set q. reaches succs s0 s) \<and> distinct keys \<and>
     (\<forall>k \<in> set keys. \<exists>s. reaches succs s0 s \<and> key s = k \<and> good s \<and>
        (\<forall>t \<in> set (succs s). t \<in> set q \<or> key t \<in> set keys))"

locale worklist = bounded_system succs rank
  for succs :: "'s \<Rightarrow> 's list" and rank :: "'s \<Rightarrow> nat" +
  fixes key :: "'s \<Rightarrow> 'k" and good :: "'s \<Rightarrow> bool"
begin

lemma worklist_start: "worklist_ok succs key good s0 [s0] []"
  by (simp add: worklist_ok_def)

lemma worklist_skip:
  "worklist_ok succs key good s0 (s # q) keys \<Longrightarrow> key s \<in> set keys \<Longrightarrow>
   worklist_ok succs key good s0 q keys"
  unfolding worklist_ok_def by (metis list.set_intros(2) set_ConsD)

lemma worklist_expand:
  assumes "worklist_ok succs key good s0 (s # q) keys" "key s \<notin> set keys" "good s"
  shows "worklist_ok succs key good s0 (q @ succs s) (keys @ [key s])"
proof -
  have "reaches succs s0 s" using assms(1) by (simp add: worklist_ok_def)
  moreover have "\<forall>k \<in> set keys. \<exists>r. reaches succs s0 r \<and> key r = k \<and> good r \<and>
      (\<forall>t \<in> set (succs r). t \<in> set (q @ succs s) \<or> key t \<in> set (keys @ [key s]))"
  proof
    fix k assume "k \<in> set keys"
    with assms(1) obtain r where r: "reaches succs s0 r" "key r = k" "good r"
      "\<forall>t \<in> set (succs r). t \<in> set (s # q) \<or> key t \<in> set keys"
      unfolding worklist_ok_def by blast
    then have "\<forall>t \<in> set (succs r). t \<in> set (q @ succs s) \<or> key t \<in> set (keys @ [key s])"
      by auto
    with r(1-3) show "\<exists>r. reaches succs s0 r \<and> key r = k \<and> good r \<and>
      (\<forall>t \<in> set (succs r). t \<in> set (q @ succs s) \<or> key t \<in> set (keys @ [key s]))" by blast
  qed
  ultimately show ?thesis
    using assms reaches_step [of succs s0 s] unfolding worklist_ok_def by auto
qed

lemma worklist_done:
  assumes "worklist_ok succs key good s0 [] keys"
    and "inj_on key {t. reaches succs s0 t}" and "reaches succs s0 t"
  shows "good t"
proof -
  have known: "key t \<in> set keys \<Longrightarrow> good t \<and> (\<forall>u \<in> set (succs t). key u \<in> set keys)"
    if "reaches succs s0 t" for t
  proof -
    assume "key t \<in> set keys"
    with assms(1) obtain s where "reaches succs s0 s" "key s = key t" "good s"
      "\<forall>u \<in> set (succs s). key u \<in> set keys" by (fastforce simp: worklist_ok_def)
    with assms(2) that show "good t \<and> (\<forall>u \<in> set (succs t). key u \<in> set keys)"
      by (metis (mono_tags, lifting) inj_onD mem_Collect_eq)
  qed
  have "reaches succs s0 t \<and> key t \<in> set keys"
    using assms(3) unfolding reaches_def
  proof (induction rule: rtranclp_induct)
    case base
    with assms(1) show ?case by (simp add: worklist_ok_def)
  next
    case (step t u)
    with known [unfolded reaches_def] show ?case by (auto intro: rtranclp.rtrancl_into_rtrancl)
  qed
  with known show ?thesis by blast
qed

lemma worklist_keys:
  assumes "worklist_ok succs key good s0 q keys"
  shows "length keys \<le> card {t. reaches succs s0 t}"
proof -
  have "set keys \<subseteq> key ` {t. reaches succs s0 t}"
    using assms by (fastforce simp: worklist_ok_def)
  then have "card (set keys) \<le> card {t. reaches succs s0 t}"
    by (meson card_image_le card_mono finite_imageI finite_reaches le_trans)
  with assms show ?thesis by (simp add: worklist_ok_def distinct_card)
qed

end

section \<open>The explorer's successor function\<close>

definition succ_list :: "explorer \<Rightarrow> (json \<Rightarrow> string) \<Rightarrow> fixture \<Rightarrow> fixture list" where
  "succ_list E sha fx = (case successors E sha fx of Inl e \<Rightarrow> [] | Inr ss \<Rightarrow> ss)"

definition transactions_left :: "fixture \<Rightarrow> nat" where
  "transactions_left fx = nat (max_transactions (bounds fx)) - transaction_count (fx_state fx)"

lemma clone_Inr:
  "clone fx = Inr copy \<Longrightarrow> fx_state copy = fx_state fx \<and> bounds copy = bounds fx \<and> profile copy = profile fx"
  by (auto simp: clone_def result_simps PairedFixture_def restore_def split: if_splits)

text \<open>One scheduled action: enqueue a candidate, deliver a pending message, or reorg the latest.\<close>

inductive schedule_step :: "explorer \<Rightarrow> (json \<Rightarrow> string) \<Rightarrow> fixture \<Rightarrow> fixture \<Rightarrow> bool" for E sha where
  enqueue: "m \<in> set (messages E) \<Longrightarrow> enqueue sha m fx = Inr fx' \<Longrightarrow> schedule_step E sha fx fx'"
| deliver: "deliver sha i fx = Inr (m, fx') \<Longrightarrow> schedule_step E sha fx fx'"
| reorg: "reorg_latest fx = Inr (m, fx') \<Longrightarrow> schedule_step E sha fx fx'"

lemma schedule_step_counts:
  assumes "schedule_step E sha fx fx'"
  shows "bounds fx' = bounds fx" "profile fx' = profile fx" "initial_state fx' = initial_state fx"
    "transaction_count (fx_state fx') = Suc (transaction_count (fx_state fx))"
    "int (transaction_count (fx_state fx)) < max_transactions (bounds fx)"
  using assms
  by (cases rule: schedule_step.cases;
      auto elim!: enqueue_InrE deliver_InrE reorg_InrE
        simp: reorg_latest_def require_capacity_Inr record_action_def Let_def
          enqueue_effect_def deliver_effect_def reorg_effect_def)+

lemma drop_message_Inr [result_simps]: "drop_message r = Inr fx \<longleftrightarrow> (\<exists>m. r = Inr (m, fx))"
  by (auto simp: drop_message_def result_simps)

lemma branch_mem:
  "branch fx caught operation = Inr gs \<Longrightarrow> g \<in> set gs \<Longrightarrow>
   \<exists>copy. clone fx = Inr copy \<and> operation copy = Inr g"
  unfolding branch_def bind_result_eq_Inr
  by (elim exE conjE, rename_tac copy, case_tac "operation copy") (auto split: if_splits)

lemma successors_mem:
  assumes "successors E sha fx = Inr ss" "g \<in> set ss"
  shows "\<exists>copy. clone fx = Inr copy \<and> schedule_step E sha copy g"
proof -
  from assms obtain es ds rs where r: "enqueue_branches E sha fx = Inr es"
    "deliver_branches sha fx = Inr ds" "reorg_branches fx = Inr rs" "ss = concat es @ concat ds @ rs"
    by (auto simp: successors_def result_simps)
  consider gs where "gs \<in> set es" "g \<in> set gs" | gs where "gs \<in> set ds" "g \<in> set gs" | "g \<in> set rs"
    using assms(2) r(4) by auto
  then show ?thesis
  proof cases
    case 1
    with r(1) obtain m where "m \<in> set (messages E)" "branch fx value_error (enqueue sha m) = Inr gs"
      unfolding enqueue_branches_def by (auto dest!: map_result_Inr_set split: if_splits)
    with branch_mem 1(2) schedule_step.enqueue show ?thesis by blast
  next
    case 2
    with r(2) obtain i where
      "branch fx value_or_index_error (\<lambda>copy. drop_message (deliver sha (int i) copy)) = Inr gs"
      unfolding deliver_branches_def by (auto dest!: map_result_Inr_set)
    from branch_mem [OF this 2(2)] show ?thesis
      by (auto simp: result_simps intro: schedule_step.deliver)
  next
    case 3
    with r(3) have "branch fx value_error (\<lambda>copy. drop_message (reorg_latest copy)) = Inr rs"
      by (auto simp: reorg_branches_def split: if_splits)
    from branch_mem [OF this 3] show ?thesis
      by (auto simp: result_simps intro: schedule_step.reorg)
  qed
qed

interpretation explorer_system: bounded_system "succ_list E sha" transactions_left for E sha
proof
  fix s t assume "t \<in> set (succ_list E sha s)"
  then obtain ss where "successors E sha s = Inr ss" "t \<in> set ss"
    by (cases "successors E sha s") (auto simp: succ_list_def)
  from successors_mem [OF this] obtain copy where "clone s = Inr copy" "schedule_step E sha copy t"
    by blast
  with clone_Inr [of s copy] schedule_step_counts [of E sha copy t]
  show "transactions_left t < transactions_left s"
    by (simp add: transactions_left_def)
qed

interpretation explorer_worklist:
  worklist "succ_list E sha" transactions_left "fingerprint sha" "\<lambda>fx. violation (fx_state fx) = Inr False"
  for E sha and violation :: predicate
  by unfold_locales

section \<open>The verdicts\<close>

text \<open>The loop maintains the invariant and never exceeds the limit of states.\<close>

abbreviation loop_ok :: "explorer \<Rightarrow> (json \<Rightarrow> string) \<Rightarrow> predicate \<Rightarrow> fixture \<Rightarrow> search_vars \<Rightarrow> bool" where
  "loop_ok E sha violation fx0 vs \<equiv>
     worklist_ok (succ_list E sha) (fingerprint sha) (\<lambda>fx. violation (fx_state fx) = Inr False)
       fx0 (queue vs) (seen vs)"

lemma succ_list_Inr: "successors E sha fx = Inr ss \<Longrightarrow> succ_list E sha fx = ss"
  by (simp add: succ_list_def)

lemma loop_guard_None: "loop_guard E env k vs = None \<Longrightarrow> length (seen vs) < max_states E"
  by (simp add: loop_guard_def Let_def split: if_splits)

definition sat_meaning :: "explorer \<Rightarrow> (json \<Rightarrow> string) \<Rightarrow> predicate \<Rightarrow> fixture \<Rightarrow> search_result \<Rightarrow> bool" where
  "sat_meaning E sha violation fx0 r \<longleftrightarrow>
     (\<exists>fx. reaches (succ_list E sha) fx0 fx \<and> violation (fx_state fx) = Inr True \<and>
        sr_witness r = action_log (fx_state fx)) \<and> sr_complete r"

definition result_meaning ::
    "explorer \<Rightarrow> (json \<Rightarrow> string) \<Rightarrow> predicate \<Rightarrow> fixture \<Rightarrow> search_result \<Rightarrow> bool" where
  "result_meaning E sha violation fx0 r \<longleftrightarrow>
     explored_states r \<le> max_states E \<and>
     (case sr_status r of
        SearchSat \<Rightarrow> sat_meaning E sha violation fx0 r
      | SearchBoundedUnsat \<Rightarrow> sr_complete r \<and> sr_witness r = [] \<and>
          (inj_on (fingerprint sha) {fx. reaches (succ_list E sha) fx0 fx} \<longrightarrow>
           (\<forall>fx. reaches (succ_list E sha) fx0 fx \<longrightarrow> violation (fx_state fx) = Inr False))
      | SearchCrash \<Rightarrow> \<not> sr_complete r \<and>
          (\<exists>fx msg. reaches (succ_list E sha) fx0 fx \<and> violation (fx_state fx) = Inl msg \<and>
             sr_reason r = Some (''predicate_error:'' @ msg))
      | _ \<Rightarrow> \<not> sr_complete r \<and> sr_witness r = [])"

lemma loop_guard_status:
  "loop_guard E env k vs = Some (status, reason) \<Longrightarrow> status = SearchUnknown \<or> status = SearchTimeout"
  by (auto simp: loop_guard_def Let_def split: if_splits)

theorem search_loop_meaning:
  "search_loop E sha violation env k vs = Inr r \<Longrightarrow> loop_ok E sha violation fx0 vs \<Longrightarrow>
   length (seen vs) \<le> max_states E \<Longrightarrow> result_meaning E sha violation fx0 r"
proof (induction E sha violation env k vs rule: search_loop.induct)
  case (1 E sha violation env k vs)
  note loop = search_loop.simps [of E sha violation env k vs]
  show ?case
  proof (cases "queue vs")
    case Nil
    have cleared: "violation (fx_state fx) = Inr False"
      if "inj_on (fingerprint sha) {fx. reaches (succ_list E sha) fx0 fx}"
        "reaches (succ_list E sha) fx0 fx" for fx
      using explorer_worklist.worklist_done [OF _ that, of violation "seen vs"] "1.prems"(2) Nil by simp
    from Nil "1.prems"(1) have "r = search_outcome env (Suc k) vs SearchBoundedUnsat True
        (Some ''finite_schedule_space_exhausted'') []" by (simp add: loop)
    with cleared "1.prems"(3) show ?thesis
      by (simp add: result_meaning_def search_outcome_def)
  next
    case queue: (Cons current rest)
    show ?thesis
    proof (cases "loop_guard E env k vs")
      case (Some sr)
      obtain status reason where sr: "sr = (status, reason)" by (cases sr)
      with Some queue "1.prems"(1)
      have "r = search_outcome env (Suc (Suc k)) vs status False (Some reason) []" by (simp add: loop)
      with loop_guard_status [of E env k vs status reason] Some sr "1.prems"(3) show ?thesis
        by (auto simp: result_meaning_def search_outcome_def)
    next
      case guard: None
      have step: "search_loop E sha violation env k vs =
          (if fingerprint sha current \<in> set (seen vs)
              then search_loop E sha violation env (Suc k) (vs\<lparr>queue := rest, hits := Suc (hits vs)\<rparr>)
              else
                let vs1 = vs\<lparr>queue := rest, seen := seen vs @ [fingerprint sha current]\<rparr> in
                (case violation (fx_state current) of
                   Inl msg \<Rightarrow> Inr (search_outcome env (Suc (Suc k)) vs1 SearchCrash False
                                (Some (''predicate_error:'' @ msg)) [])
                 | Inr True \<Rightarrow> Inr (search_outcome env (Suc (Suc k)) vs1 SearchSat True None
                                (action_log (fx_state current)))
                 | Inr False \<Rightarrow>
                     (case successors E sha current of
                        Inl e \<Rightarrow> Inl e
                      | Inr ss \<Rightarrow>
                          search_loop E sha violation env (Suc k)
                            (vs1\<lparr>queue := rest @ ss, schedules := schedules vs + length ss,
                                 paths := paths vs + length ss\<rparr>))))"
        using queue guard by (simp add: loop)
      have reached: "reaches (succ_list E sha) fx0 current"
        using "1.prems"(2) queue by (simp add: worklist_ok_def)
      show ?thesis
      proof (cases "fingerprint sha current \<in> set (seen vs)")
        case True
        from "1.IH"(1) [OF queue guard True] "1.prems" True step queue
        show ?thesis
          using explorer_worklist.worklist_skip [of E sha violation fx0 current rest "seen vs"] by simp
      next
        case False
        let ?vs1 = "vs\<lparr>queue := rest, seen := seen vs @ [fingerprint sha current]\<rparr>"
        have room: "length (seen ?vs1) \<le> max_states E"
          using loop_guard_None [OF guard] by simp
        show ?thesis
        proof (cases "violation (fx_state current)")
          case (Inl msg)
          with step False "1.prems"(1) have "r = search_outcome env (Suc (Suc k)) ?vs1 SearchCrash False
              (Some (''predicate_error:'' @ msg)) []" by (simp add: Let_def)
          with reached Inl room show ?thesis
            by (auto simp: result_meaning_def search_outcome_def)
        next
          case (Inr bad)
          show ?thesis
          proof (cases bad)
            case True
            with step False Inr "1.prems"(1) have "r = search_outcome env (Suc (Suc k)) ?vs1 SearchSat True
                None (action_log (fx_state current))" by (simp add: Let_def)
            with reached Inr True room show ?thesis
              by (auto simp: result_meaning_def search_outcome_def sat_meaning_def)
          next
            case good: False
            with step False Inr "1.prems"(1) obtain ss where ss: "successors E sha current = Inr ss"
              "search_loop E sha violation env (Suc k)
                 (?vs1\<lparr>queue := rest @ ss, schedules := schedules vs + length ss,
                       paths := paths vs + length ss\<rparr>) = Inr r"
              by (auto simp: Let_def split: sum.splits)
            have "loop_ok E sha violation fx0 (?vs1\<lparr>queue := rest @ ss,
                schedules := schedules vs + length ss, paths := paths vs + length ss\<rparr>)"
              using explorer_worklist.worklist_expand [of E sha violation fx0 current rest "seen vs"]
                "1.prems"(2) queue False Inr good succ_list_Inr [OF ss(1)] by simp
            with "1.IH"(2) [OF queue guard False refl Inr _ ss(1)] good ss(2) room show ?thesis
              by simp
          qed
        qed
      qed
    qed
  qed
qed

section \<open>Schedules of a settled fixture\<close>

text \<open>A fixture that satisfies its invariant and still carries the initial state it was built with.\<close>

definition settled :: "(json \<Rightarrow> string) \<Rightarrow> fixture \<Rightarrow> bool" where
  "settled sha fx \<longleftrightarrow> fixture_ok sha fx \<and>
     initial_state fx = initial_dual (chain_domain (source (fx_state fx))) (chain_domain (destination (fx_state fx)))"

lemma settled_domains:
  "fixture_ok sha fx \<Longrightarrow> chain_domain (source (fx_state fx)) \<noteq> chain_domain (destination (fx_state fx))"
  by (simp add: fixture_ok_def Let_def state_ok_def chains_ok_def)

lemma clone_settled: "settled sha fx \<Longrightarrow> clone fx = Inr fx"
  using settled_domains [of sha fx]
  by (simp add: settled_def clone_def PairedFixture_def restore_def initial_dual_def initial_chain_def)

lemma schedule_step_fixture_step: "schedule_step E sha fx fx' \<Longrightarrow> fixture_step sha fx fx'"
  by (cases rule: schedule_step.cases) (auto simp: reorg_latest_def intro: fixture_step.intros)

lemma fixture_ok_domains:
  "fixture_ok sha fx \<Longrightarrow> chain_domain (source (fx_state fx)) = chain_domain (source (initial_state fx)) \<and>
     chain_domain (destination (fx_state fx)) = chain_domain (destination (initial_state fx))"
  by (simp add: fixture_ok_def Let_def state_ok_def chains_ok_def)

lemma settled_fixture_step:
  assumes "settled sha fx" "fixture_step sha fx fx'"
  shows "settled sha fx'"
proof -
  have ok: "fixture_ok sha fx" "fixture_ok sha fx'"
    using assms by (auto simp: settled_def intro: fixture_step_ok)
  have "initial_state fx' = initial_state fx" using fixture_step_frame [OF assms(2)] by simp
  with assms(1) ok fixture_ok_domains [OF ok(1)] fixture_ok_domains [OF ok(2)] show ?thesis
    unfolding settled_def by metis
qed

lemmas settled_schedule_step = settled_fixture_step [OF _ schedule_step_fixture_step]

lemma deliver_caught:
  assumes "fixture_ok sha fx" "deliver sha i fx = Inl e"
  shows "value_or_index_error e"
proof (cases "pending (fx_state fx) = [] \<or> i < 0 \<or> int (length (pending (fx_state fx))) \<le> i")
  case True
  with assms(2) show ?thesis by (auto simp: deliver_def raise_def split: if_splits)
next
  case False
  then obtain k where k: "i = int k" "k < length (pending (fx_state fx))"
    by (metis int_nat_eq linorder_not_le nat_less_iff)
  then have "pending (fx_state fx) ! k \<in> set (pending (fx_state fx))" by simp
  with assms(1) have "destination_domain (pending (fx_state fx) ! k) = chain_domain (destination (fx_state fx))"
    by (auto simp: fixture_ok_def Let_def state_ok_def chains_ok_def channel_ok_def admissible_def)
  with fixture_ok_clocks(2) [OF assms(1)]
  have "add_clock (destination_domain (pending (fx_state fx) ! k)) 1 (deliver_effect sha k (fx_state fx)) =
      Inr ((deliver_effect sha k (fx_state fx))\<lparr>clocks := dict_put (chain_domain (destination (fx_state fx)))
        (int (length (delivered (fx_state fx))) + 1) (clocks (fx_state fx))\<rparr>)"
    by (simp add: add_clock_def deliver_effect_def Let_def)
  note clock = this
  show ?thesis
  proof (cases "require_capacity fx DELIVER True")
    case (Inl e')
    with False assms(2) require_capacity_error [OF Inl] show ?thesis
      by (auto simp: deliver_def raise_def split: if_splits)
  next
    case (Inr u)
    with False assms(2) k clock show ?thesis
      by (simp add: deliver_def raise_def Let_def split: if_splits) auto
  qed
qed

lemma reorg_latest_caught:
  assumes "fixture_ok sha fx" "reorg_latest fx = Inl e"
  shows "value_error e"
proof (cases "committed_messages (source (fx_state fx)) = []")
  case True
  with assms(2) show ?thesis by (auto simp: reorg_latest_def reorg_def raise_def Let_def split: if_splits)
next
  case False
  let ?c = "committed_messages (source (fx_state fx))"
  have "from_end (- 1) ?c = int (length ?c - 1)" "length ?c - 1 < length ?c"
    using False by (cases ?c; simp add: from_end_def)+
  then obtain i where i: "from_end (- 1) ?c = int i" "i < length ?c" by blast
  then have "?c ! i \<in> set ?c" by (intro nth_mem)
  with assms(1) have domain: "source_domain (?c ! i) = chain_domain (source (fx_state fx))"
      "length (canonical_history (source (fx_state fx))) = length ?c"
    by (auto simp: fixture_ok_def Let_def state_ok_def chains_ok_def channel_ok_def admissible_def)
  with fixture_ok_clocks(1) [OF assms(1)]
  have "add_clock (source_domain (?c ! i)) (- 1) (reorg_effect j i (fx_state fx)) =
      Inr ((reorg_effect j i (fx_state fx))\<lparr>clocks := dict_put (chain_domain (source (fx_state fx)))
        (int (length ?c) - 1) (clocks (fx_state fx))\<rparr>)" for j
    by (simp add: add_clock_def reorg_effect_def)
  with assms(2) i domain show ?thesis
    by (cases "require_capacity fx REORG False")
       (auto simp: reorg_latest_def reorg_def raise_def Let_def dest!: require_capacity_error
         split: if_splits option.splits)
qed

lemma branch_settled:
  assumes "settled sha fx" "\<And>e. operation fx = Inl e \<Longrightarrow> caught e"
  shows "branch fx caught operation = Inr (case operation fx of Inl e \<Rightarrow> [] | Inr g \<Rightarrow> [g])"
  using assms by (auto simp: branch_def clone_settled split: sum.split)

theorem successors_settled:
  assumes "settled sha fx"
  shows "\<exists>ss. successors E sha fx = Inr ss \<and> (\<forall>g. g \<in> set ss \<longleftrightarrow> schedule_step E sha fx g)"
proof -
  from assms have ok: "fixture_ok sha fx" by (simp add: settled_def)
  define es where "es m = (case enqueue sha m fx of Inl _ \<Rightarrow> [] | Inr g \<Rightarrow> [g])" for m
  define ds where "ds i = (case drop_message (deliver sha (int i) fx) of Inl _ \<Rightarrow> [] | Inr g \<Rightarrow> [g])" for i
  define rs where "rs = (case drop_message (reorg_latest fx) of Inl _ \<Rightarrow> [] | Inr g \<Rightarrow> [g])"
  have e: "branch fx value_error (enqueue sha m) = Inr (es m)" for m
    unfolding es_def
    by (rule branch_settled [OF assms]) (use enqueue_outcome [OF ok, of m] in \<open>auto split: if_splits\<close>)
  have "es m = []" if "message_identity m \<in> set (ids (committed_messages (source (fx_state fx))))"
      "\<not> allow_duplicate_enqueue (profile fx)" for m
    using that enqueue_outcome [OF ok, of m]
    by (auto simp: es_def enqueue_enabled_def split: if_splits)
  with e have "enqueue_branches E sha fx = Inr (map es (messages E))"
    unfolding enqueue_branches_def by (intro map_result_all_Inr) auto
  moreover have "deliver_branches sha fx = Inr (map ds [0 ..< length (pending (fx_state fx))])"
    unfolding deliver_branches_def ds_def
    by (intro map_result_all_Inr branch_settled [OF assms])
       (auto simp: drop_message_def result_simps dest: deliver_caught [OF ok])
  moreover have "reorg_branches fx = Inr rs"
  proof (cases "allow_pre_finality_reorg (profile fx)")
    case True
    have "branch fx value_error (\<lambda>copy. drop_message (reorg_latest copy)) = Inr rs"
      unfolding rs_def
      by (rule branch_settled [OF assms])
         (auto simp: drop_message_def result_simps dest: reorg_latest_caught [OF ok])
    with True show ?thesis by (simp add: reorg_branches_def)
  next
    case False
    then show ?thesis using reorg_error_reorg_disabled [OF False, of "- 1"]
      by (auto simp: reorg_branches_def rs_def reorg_latest_def drop_message_def)
  qed
  ultimately have ss: "successors E sha fx = Inr (concat (map es (messages E)) @
      concat (map ds [0 ..< length (pending (fx_state fx))]) @ rs)"
    by (simp add: successors_def)
  have "g \<in> set (es m) \<longleftrightarrow> enqueue sha m fx = Inr g" for g m
    by (auto simp: es_def split: sum.split)
  moreover have "g \<in> set (ds i) \<longleftrightarrow> (\<exists>m. deliver sha (int i) fx = Inr (m, g))" for g i
    by (auto simp: ds_def drop_message_def bind_result_def split: sum.split)
  moreover have "g \<in> set rs \<longleftrightarrow> (\<exists>m. reorg_latest fx = Inr (m, g))" for g
    by (auto simp: rs_def drop_message_def bind_result_def split: sum.split)
  moreover have "\<exists>k \<in> {0 ..< length (pending (fx_state fx))}. \<exists>m. deliver sha (int k) fx = Inr (m, g)"
    if "deliver sha i fx = Inr (m, g)" for i m g
    using that that by (cases rule: deliver_InrE) auto
  ultimately show ?thesis unfolding ss
    by (auto 4 4 intro: schedule_step.intros elim!: schedule_step.cases)
qed

lemma succ_list_settled: "settled sha fx \<Longrightarrow> g \<in> set (succ_list E sha fx) \<longleftrightarrow> schedule_step E sha fx g"
proof -
  assume "settled sha fx"
  then obtain ss where "successors E sha fx = Inr ss" "\<And>g. g \<in> set ss \<longleftrightarrow> schedule_step E sha fx g"
    using successors_settled [of sha fx E] by blast
  then show ?thesis by (simp add: succ_list_Inr)
qed

lemma reaches_schedule:
  assumes "settled sha fx0"
  shows "reaches (succ_list E sha) fx0 fx \<longleftrightarrow> (schedule_step E sha)\<^sup>*\<^sup>* fx0 fx"
    and "(schedule_step E sha)\<^sup>*\<^sup>* fx0 fx \<Longrightarrow> settled sha fx"
proof -
  show settled: "settled sha fx" if "(schedule_step E sha)\<^sup>*\<^sup>* fx0 fx" for fx
    using that assms by (induction rule: rtranclp_induct) (auto intro: settled_schedule_step)
  have "(schedule_step E sha)\<^sup>*\<^sup>* fx0 fx \<and> settled sha fx" if "reaches (succ_list E sha) fx0 fx" for fx
    using that unfolding reaches_def
  proof (induction rule: rtranclp_induct)
    case base
    show ?case using assms by simp
  next
    case (step fx g)
    then have "schedule_step E sha fx g" using succ_list_settled by blast
    with step.IH settled_schedule_step show ?case by (meson rtranclp.rtrancl_into_rtrancl)
  qed
  moreover have "reaches (succ_list E sha) fx0 fx" if "(schedule_step E sha)\<^sup>*\<^sup>* fx0 fx" for fx
    using that
  proof (induction rule: rtranclp_induct)
    case base
    show ?case by simp
  next
    case (step fx g)
    then show ?case using succ_list_settled [OF settled [OF step.hyps(1)], of g E]
      by (blast intro: reaches_step)
  qed
  ultimately show "reaches (succ_list E sha) fx0 fx \<longleftrightarrow> (schedule_step E sha)\<^sup>*\<^sup>* fx0 fx" by blast
qed

section \<open>The search returns, and decides small spaces\<close>

definition patient :: "search_env \<Rightarrow> bool" where
  "patient env \<longleftrightarrow> cancelled env = None \<and> 0 < remaining_seconds (control env) \<and>
     (\<forall>k. clock env (Suc k) - clock env 0 < remaining_seconds (control env))"

lemma patient_guard:
  "patient env \<Longrightarrow> length (seen vs) < max_states E \<Longrightarrow> loop_guard E env k vs = None"
  by (auto simp: patient_def loop_guard_def Let_def not_le)

lemma search_loop_total:
  "list_all (settled sha) (queue vs) \<Longrightarrow> \<exists>r. search_loop E sha violation env k vs = Inr r"
proof (induction E sha violation env k vs rule: search_loop.induct)
  case (1 E sha violation env k vs)
  note loop = search_loop.simps [of E sha violation env k vs]
  show ?case
  proof (cases "queue vs")
    case Nil
    then show ?thesis by (simp add: loop)
  next
    case queue: (Cons current rest)
    with "1.prems" have settled: "settled sha current" "list_all (settled sha) rest" by simp_all
    show ?thesis
    proof (cases "loop_guard E env k vs")
      case (Some sr)
      with queue show ?thesis by (cases sr) (simp add: loop)
    next
      case guard: None
      show ?thesis
      proof (cases "fingerprint sha current \<in> set (seen vs)")
        case True
        with "1.IH"(1) [OF queue guard True] settled queue guard show ?thesis by (simp add: loop)
      next
        case False
        from successors_settled [OF settled(1), of E] obtain ss where
          ss: "successors E sha current = Inr ss" "\<forall>g \<in> set ss. schedule_step E sha current g" by blast
        then have "list_all (settled sha) (rest @ ss)"
          using settled by (auto simp: list_all_iff intro: settled_schedule_step)
        with "1.IH"(2) [OF queue guard False refl _ _ ss(1)] queue guard False ss(1) show ?thesis
          by (cases "violation (fx_state current)")
             (auto simp: loop Let_def split: bool.split)
      qed
    qed
  qed
qed

text \<open>
  With no deadline, no cancellation and a predicate that returns, the loop can end only with a
  verdict, as long as the limit exceeds the number of reached fixtures.
\<close>

lemma search_loop_decides:
  assumes "patient env" "\<And>s. \<exists>b. violation s = Inr b"
    and "card {fx. reaches (succ_list E sha) fx0 fx} < max_states E"
  shows "search_loop E sha violation env k vs = Inr r \<Longrightarrow> loop_ok E sha violation fx0 vs \<Longrightarrow>
    sr_status r = SearchSat \<or> sr_status r = SearchBoundedUnsat"
  using assms
proof (induction E sha violation env k vs rule: search_loop.induct)
  case (1 E sha violation env k vs)
  note loop = search_loop.simps [of E sha violation env k vs]
  show ?case
  proof (cases "queue vs")
    case Nil
    with "1.prems"(1) show ?thesis by (auto simp: loop search_outcome_def)
  next
    case queue: (Cons current rest)
    have "length (seen vs) < max_states E"
      using explorer_worklist.worklist_keys [OF "1.prems"(2)] "1.prems"(5) by simp
    from patient_guard [OF "1.prems"(3) this] have guard: "loop_guard E env k vs = None" .
    show ?thesis
    proof (cases "fingerprint sha current \<in> set (seen vs)")
      case True
      from explorer_worklist.worklist_skip [of E sha violation fx0 current rest "seen vs"]
      have "loop_ok E sha violation fx0 (vs\<lparr>queue := rest, hits := Suc (hits vs)\<rparr>)"
        using "1.prems"(2) queue True by simp
      with "1.IH"(1) [OF queue guard True _ _ "1.prems"(3-5)] "1.prems"(1) queue guard True
      show ?thesis by (simp add: loop)
    next
      case False
      from "1.prems"(4) obtain b where b: "violation (fx_state current) = Inr b" by blast
      show ?thesis
      proof (cases b)
        case True
        with False b queue guard "1.prems"(1) show ?thesis
          by (auto simp: loop Let_def search_outcome_def)
      next
        case good: False
        let ?vs1 = "vs\<lparr>queue := rest, seen := seen vs @ [fingerprint sha current]\<rparr>"
        from good False b queue guard "1.prems"(1) obtain ss where ss: "successors E sha current = Inr ss"
          "search_loop E sha violation env (Suc k)
             (?vs1\<lparr>queue := rest @ ss, schedules := schedules vs + length ss,
                   paths := paths vs + length ss\<rparr>) = Inr r"
          by (auto simp: loop Let_def split: sum.splits)
        have "loop_ok E sha violation fx0 (?vs1\<lparr>queue := rest @ ss,
            schedules := schedules vs + length ss, paths := paths vs + length ss\<rparr>)"
          using explorer_worklist.worklist_expand [of E sha violation fx0 current rest "seen vs"]
            "1.prems"(2) queue False b good succ_list_Inr [OF ss(1)] by simp
        with "1.IH"(2) [OF queue guard False refl b _ ss(1) _ _ "1.prems"(3-5)] good ss(2)
        show ?thesis by simp
      qed
    qed
  qed
qed

section \<open>The whole search\<close>

abbreviation first_vars :: "fixture \<Rightarrow> search_vars" where
  "first_vars fx \<equiv> \<lparr>queue = [fx], seen = [], paths = 0, schedules = 0, hits = 0\<rparr>"

lemma search_settled:
  "settled sha fx \<Longrightarrow> search E sha violation env fx = search_loop E sha violation env 0 (first_vars fx)"
  by (simp add: search_def clone_settled)

lemma first_vars_ok: "loop_ok E sha violation fx (first_vars fx)"
  using explorer_worklist.worklist_start by simp

lemma search_returns: "settled sha fx \<Longrightarrow> \<exists>r. search E sha violation env fx = Inr r"
  using search_loop_total [of sha "first_vars fx"] by (simp add: search_settled)

lemma search_meaning:
  "settled sha fx \<Longrightarrow> search E sha violation env fx = Inr r \<Longrightarrow> result_meaning E sha violation fx r"
  using search_loop_meaning [OF _ first_vars_ok [of E sha violation fx], of env 0 r]
  by (simp add: search_settled)

lemma search_decides:
  assumes "settled sha fx" "patient env" "\<And>s. \<exists>b. violation s = Inr b"
    and "card {g. (schedule_step E sha)\<^sup>*\<^sup>* fx g} < max_states E"
    and "search E sha violation env fx = Inr r"
  shows "sr_status r = SearchSat \<or> sr_status r = SearchBoundedUnsat"
  using search_loop_decides [OF assms(2,3) _ _ first_vars_ok [of E sha violation fx], of 0 r]
    assms(4,5) reaches_schedule(1) [OF assms(1)]
  by (simp add: search_settled [OF assms(1)])

lemma schedules_finite: "settled sha fx \<Longrightarrow> finite {g. (schedule_step E sha)\<^sup>*\<^sup>* fx g}"
  using explorer_system.finite_reaches [of E sha fx] by (simp add: reaches_schedule(1))

section \<open>Fixtures that a new one reaches\<close>

lemma reachable_state_ok:
  assumes "PairedFixture src dst b p = Inr fx0" "TransitionBounds b = Inr b" "reachable sha fx0 fx"
  shows "state_ok sha b p src dst (fx_state fx)"
proof -
  from assms(1) have fx0: "bounds fx0 = b" "profile fx0 = p" "initial_state fx0 = initial_dual src dst"
    by (auto simp: PairedFixture_def split: if_splits)
  from reachable_ok [OF assms(3) PairedFixture_ok [OF assms(1,2)]] reachable_frame [OF assms(3)]
  show ?thesis by (simp add: fixture_ok_def fx0 Let_def initial_dual_def initial_chain_def)
qed

lemma reachable_settled:
  assumes "PairedFixture src dst b p = Inr fx0" "TransitionBounds b = Inr b" "reachable sha fx0 fx"
  shows "settled sha fx"
proof -
  have ok: "fixture_ok sha fx" by (rule reachable_ok [OF assms(3) PairedFixture_ok [OF assms(1,2)]])
  moreover have "initial_state fx = initial_dual src dst"
    using assms(1) reachable_frame [OF assms(3)] by (auto simp: PairedFixture_def split: if_splits)
  ultimately show ?thesis
    using fixture_ok_domains [OF ok] by (simp add: settled_def initial_dual_def initial_chain_def)
qed

lemma rtranclp_schedule_profile:
  "(schedule_step E sha)\<^sup>*\<^sup>* fx g \<Longrightarrow> profile g = profile fx"
  by (induction rule: rtranclp_induct) (auto dest: schedule_step_counts(2))

lemma BoundedPairedExplorer_distinct:
  "BoundedPairedExplorer ms limit = Inr E \<Longrightarrow> distinct (ids (messages E))"
  by (auto simp: BoundedPairedExplorer_def ids_def split: if_splits intro: card_distinct)

end
