(* ===== verification/Replay_Witness.thy ===== *)
theory Replay_Witness
  imports Paired_Search
begin

text \<open>
  Witnesses (\<^verbatim>\<open>replay/witness.py\<close>): the serialized form of an action record and its strict decoder,
  the replay of a sequence of records on a cloned fixture, the state hash, and the projection of
  a SAT result to a witness.
\<close>

section \<open>Serialized actions\<close>

definition message_dict :: "message \<Rightarrow> json dict" where
  "message_dict m =
     [(''source_domain'', JStr (source_domain m)), (''destination_domain'', JStr (destination_domain m)),
      (''emitter'', JStr (emitter m)), (''recipient'', JStr (recipient m)), (''nonce'', JInt (nonce m)),
      (''intent_id'', option_json (intent_id m)), (''payload_commitment'', JStr (payload_commitment m)),
      (''attestation'', option_json (attestation m)), (''attestor'', option_json (attestor m))]"

definition action_to_dict :: "action_record \<Rightarrow> json dict" where
  "action_to_dict e =
     [(''action'', JStr (action_value (act e))), (''message'', JObj (message_dict (act_message e))),
      (''transaction_index'', JInt (int (transaction_index e))),
      (''channel_transition_index'', JInt (int (channel_transition_index e))),
      (''pending_before'', JInt (int (pending_before e))),
      (''pending_after'', JInt (int (pending_after e)))]"

definition join :: "string \<Rightarrow> string list \<Rightarrow> string" where
  "join sep xs = concat (case xs of [] \<Rightarrow> [] | x # rest \<Rightarrow> x # map (\<lambda>y. sep @ y) rest)"

definition extras :: "json dict \<Rightarrow> string list \<Rightarrow> string list" where
  "extras row allowed = sorted_unique (filter (\<lambda>k. k \<notin> set allowed) (dict_keys row))"

definition required_message_fields :: "string list" where
  "required_message_fields =
     [''source_domain'', ''destination_domain'', ''emitter'', ''recipient'', ''nonce'', ''payload_commitment'']"

definition optional_message_fields :: "string list" where
  "optional_message_fields = [''intent_id'', ''attestation'', ''attestor'']"

definition action_fields :: "string list" where
  "action_fields = [''action'', ''message'', ''transaction_index'', ''channel_transition_index'',
     ''pending_before'', ''pending_after'']"

definition text_of :: "json \<Rightarrow> string" where
  "text_of v = (case v of JStr s \<Rightarrow> s | _ \<Rightarrow> [])"

text \<open>The first of the fields, in order, whose value fails the check.\<close>

definition first_failing :: "(json \<Rightarrow> bool) \<Rightarrow> json dict \<Rightarrow> string list \<Rightarrow> string option" where
  "first_failing ok row ks = find (\<lambda>k. \<not> ok (jget row k)) ks"

definition uint256 :: "json \<Rightarrow> bool" where
  "uint256 v = (case v of JInt i \<Rightarrow> 0 \<le> i \<and> i < 2 ^ 256 | _ \<Rightarrow> False)"

definition natural :: "json \<Rightarrow> bool" where
  "natural v = (case v of JInt i \<Rightarrow> 0 \<le> i | _ \<Rightarrow> False)"

definition nat_of_json :: "json \<Rightarrow> nat" where
  "nat_of_json v = (case v of JInt i \<Rightarrow> nat i | _ \<Rightarrow> 0)"

definition int_of_json :: "json \<Rightarrow> int" where
  "int_of_json v = (case v of JInt i \<Rightarrow> i | _ \<Rightarrow> 0)"

definition message_from_dict :: "json dict \<Rightarrow> paired_error + message" where
  "message_from_dict raw =
     (if \<not> list_all (\<lambda>k. k \<in> set (dict_keys raw)) required_message_fields
        then raise ''witness action message is missing required fields''
      else if extras raw (required_message_fields @ optional_message_fields) \<noteq> []
        then raise (''witness action message has unsupported fields: '' @
               join '', '' (extras raw (required_message_fields @ optional_message_fields)))
      else
        (case first_failing nonempty_str raw
             [''source_domain'', ''destination_domain'', ''emitter'', ''recipient'', ''payload_commitment''] of
           Some k \<Rightarrow> raise (''witness action message '' @ k @ '' must be a non-empty string'')
         | None \<Rightarrow>
             if \<not> uint256 (jget raw ''nonce'') then raise ''witness action message nonce must be a uint256''
             else
               (case first_failing (\<lambda>v. v = JNull \<or> nonempty_str v) raw optional_message_fields of
                  Some k \<Rightarrow> raise (''witness action '' @ k @ '' must be a non-empty string when present'')
                | None \<Rightarrow> Message
                    \<lparr>source_domain = text_of (jget raw ''source_domain''),
                     destination_domain = text_of (jget raw ''destination_domain''),
                     emitter = text_of (jget raw ''emitter''), recipient = text_of (jget raw ''recipient''),
                     nonce = int_of_json (jget raw ''nonce''),
                     payload_commitment = text_of (jget raw ''payload_commitment''),
                     attestation = as_string (jget raw ''attestation''),
                     attestor = as_string (jget raw ''attestor''),
                     intent_id = as_string (jget raw ''intent_id'')\<rparr>)))"

definition action_from_dict :: "json \<Rightarrow> paired_error + action_record" where
  "action_from_dict row = (case row of
       JObj d \<Rightarrow>
         if extras d action_fields \<noteq> []
           then raise (''witness action has unsupported fields: '' @ join '', '' (extras d action_fields))
         else (case action_of (jget d ''action'') of
              None \<Rightarrow> raise ''witness action has invalid action''
            | Some a \<Rightarrow>
                (case jget d ''message'' of
                   JObj raw \<Rightarrow> bind_result (message_from_dict raw) (\<lambda>m.
                     if \<not> list_all (\<lambda>k. natural (jget d k)) [''transaction_index'',
                          ''channel_transition_index'', ''pending_before'', ''pending_after'']
                       then raise ''witness action indices must be integers''
                     else Inr \<lparr>act = a, act_message = m,
                            transaction_index = nat_of_json (jget d ''transaction_index''),
                            channel_transition_index = nat_of_json (jget d ''channel_transition_index''),
                            pending_before = nat_of_json (jget d ''pending_before''),
                            pending_after = nat_of_json (jget d ''pending_after'')\<rparr>)
                 | _ \<Rightarrow> raise ''witness action message must be an object''))
     | _ \<Rightarrow> raise ''witness action must be an object'')"

section \<open>Replay\<close>

text \<open>The first pending message with the identity.\<close>

definition pending_index :: "fixture \<Rightarrow> message \<Rightarrow> paired_error + nat" where
  "pending_index fx m =
     (case find (\<lambda>i. same_identity m (pending (fx_state fx) ! i)) [0 ..< length (pending (fx_state fx))] of
        None \<Rightarrow> raise ''delivery message is not pending''
      | Some i \<Rightarrow> Inr i)"

definition perform :: "(json \<Rightarrow> string) \<Rightarrow> action_record \<Rightarrow> fixture \<Rightarrow> paired_error + fixture" where
  "perform sha expected fx = (case act expected of
       ENQUEUE \<Rightarrow> enqueue sha (act_message expected) fx
     | DELIVER \<Rightarrow> bind_result (pending_index fx (act_message expected)) (\<lambda>i.
         drop_message (deliver sha (int i) fx))
     | REORG \<Rightarrow> drop_message (reorg_latest fx))"

definition check_evidence :: "action_record \<Rightarrow> action_record \<Rightarrow> paired_error + unit" where
  "check_evidence expected actual =
     (if act actual \<noteq> act expected \<or>
         message_identity (act_message actual) \<noteq> message_identity (act_message expected)
        then raise ''action evidence does not match replay result''
      else if transaction_index actual \<noteq> transaction_index expected
        then raise ''transaction index mismatch''
      else if channel_transition_index actual \<noteq> channel_transition_index expected
        then raise ''channel transition index mismatch''
      else Inr ())"

definition replay_step :: "(json \<Rightarrow> string) \<Rightarrow> action_record \<Rightarrow> fixture \<Rightarrow> paired_error + fixture" where
  "replay_step sha expected fx = bind_result (perform sha expected fx) (\<lambda>fx'.
     bind_result (check_evidence expected (last (action_log (fx_state fx')))) (\<lambda>_. Inr fx'))"

fun replay_loop :: "(json \<Rightarrow> string) \<Rightarrow> action_record list \<Rightarrow> fixture \<Rightarrow> paired_error + fixture" where
  "replay_loop sha [] fx = Inr fx"
| "replay_loop sha (e # es) fx = bind_result (replay_step sha e fx) (replay_loop sha es)"

definition replay_action_records ::
    "(json \<Rightarrow> string) \<Rightarrow> fixture \<Rightarrow> action_record list \<Rightarrow> paired_error + fixture" where
  "replay_action_records sha fx es = bind_result (clone fx) (replay_loop sha es)"

section \<open>Hashes and witnesses\<close>

definition chain_dict :: "chain_state \<Rightarrow> json" where
  "chain_dict c = JObj
     [(''domain'', JStr (chain_domain c)), (''storage'', JObj (storage c)),
      (''committed_messages'', JArr (map (\<lambda>m. JObj (message_dict m)) (committed_messages c))),
      (''canonical_history'', JArr (map JStr (canonical_history c)))]"

definition state_hash :: "(json \<Rightarrow> string) \<Rightarrow> dual_chain_state \<Rightarrow> string" where
  "state_hash sha s = sha (JObj
     [(''source'', chain_dict (source s)), (''destination'', chain_dict (destination s)),
      (''pending'', JArr (map (\<lambda>m. JObj (message_dict m)) (pending s))),
      (''delivered'', JArr (map (\<lambda>m. JObj (message_dict m)) (delivered s))),
      (''clocks'', JObj (map (\<lambda>(d, c). (d, JInt c)) (clocks s))),
      (''observer_state'', JObj (observer_state s)),
      (''transaction_count'', JInt (int (transaction_count s))),
      (''channel_transition_count'', JInt (int (channel_transition_count s))),
      (''action_log'', JArr (map (\<lambda>e. JObj (action_to_dict e)) (action_log s)))])"

record witness =
  schema_version :: nat
  witness_id :: string
  query_id :: string
  initial_state_hash :: string
  trace_hash :: string
  wit_actions :: "json dict list"
  wit_domains :: "string list"
  created_at :: string
  proof_objects :: "json dict"
  native_replay_status :: string
  independent_replay_status :: string
  security_relevance :: string
  allowed_capabilities :: "string list"

definition unique_nonempty :: "string list \<Rightarrow> bool" where
  "unique_nonempty xs = (list_all (\<lambda>x. x \<noteq> '''') xs \<and> distinct xs)"

datatype witness_error = ProjectionError string | WitnessValue string | WitnessOther paired_error

definition Witness :: "witness \<Rightarrow> witness_error + witness" where
  "Witness w =
     (if schema_version w \<noteq> 1 then Inl (WitnessValue ''unsupported witness schema_version'')
      else if \<not> strip_nonempty (witness_id w)
        then Inl (WitnessValue ''witness_id must be a non-empty string'')
      else if \<not> strip_nonempty (query_id w)
        then Inl (WitnessValue ''query_id must be a non-empty string'')
      else if \<not> strip_nonempty (created_at w)
        then Inl (WitnessValue ''created_at must be a non-empty string'')
      else if \<not> sha_digest (initial_state_hash w)
        then Inl (WitnessValue ''initial_state_hash must be a lowercase SHA-256 hex digest'')
      else if \<not> sha_digest (trace_hash w)
        then Inl (WitnessValue ''trace_hash must be a lowercase SHA-256 hex digest'')
      else if \<not> unique_nonempty (wit_domains w)
        then Inl (WitnessValue ''witness domains must be unique non-empty strings'')
      else if native_replay_status w \<notin> {''pass'', ''fail'', ''unknown'', ''unsupported''}
        then Inl (WitnessValue ''invalid native_replay_status'')
      else if independent_replay_status w \<notin> {''pass'', ''fail'', ''unknown'', ''unsupported''}
        then Inl (WitnessValue ''invalid independent_replay_status'')
      else if security_relevance w \<notin> {''unassessed'', ''relevant'', ''irrelevant'', ''unknown''}
        then Inl (WitnessValue ''invalid security_relevance'')
      else if \<not> unique_nonempty (allowed_capabilities w)
        then Inl (WitnessValue ''allowed_capabilities must be unique non-empty strings'')
      else Inr w)"

text \<open>
  The arguments of \<^verbatim>\<open>project\<close> besides the result and the fixture; \<open>now\<close> is the current time it
  falls back to.
\<close>

record projection_request =
  req_witness_id :: string
  req_query_id :: string
  req_created_at :: "string option"
  req_now :: string
  req_proof_objects :: "json dict"
  req_capabilities :: "string list"

definition action_domains :: "action_record \<Rightarrow> string list" where
  "action_domains e = [source_domain (act_message e), destination_domain (act_message e)]"

definition project ::
    "(json \<Rightarrow> string) \<Rightarrow> search_result \<Rightarrow> fixture \<Rightarrow> projection_request \<Rightarrow> witness_error + witness" where
  "project sha result fx req =
     (if sr_status result \<noteq> SearchSat \<or> \<not> sr_complete result
        then Inl (ProjectionError ''only complete SAT results can produce a witness'')
      else if req_witness_id req = '''' \<or> req_query_id req = ''''
        then Inl (ProjectionError ''witness_id and query_id are required'')
      else
        let rows = map action_to_dict (sr_witness result) in
        (case replay_action_records sha fx (sr_witness result) of
           Inl (PairedValue msg) \<Rightarrow> Inl (ProjectionError (''search witness is not replayable: '' @ msg))
         | Inl e \<Rightarrow> Inl (WitnessOther e)
         | Inr _ \<Rightarrow> Witness
             \<lparr>schema_version = 1, witness_id = req_witness_id req, query_id = req_query_id req,
              initial_state_hash = state_hash sha (fx_state fx),
              trace_hash = sha (JArr (map JObj rows)), wit_actions = rows,
              wit_domains = sorted_unique (concat (map action_domains (sr_witness result))),
              created_at = (case req_created_at req of
                  None \<Rightarrow> req_now req | Some t \<Rightarrow> if t = '''' then req_now req else t),
              proof_objects = req_proof_objects req, native_replay_status = ''unknown'',
              independent_replay_status = ''unknown'', security_relevance = ''unassessed'',
              allowed_capabilities = req_capabilities req\<rparr>))"

definition witness_dict :: "witness \<Rightarrow> json dict" where
  "witness_dict w =
     [(''schema_version'', JInt (int (schema_version w))), (''witness_id'', JStr (witness_id w)),
      (''query_id'', JStr (query_id w)), (''initial_state_hash'', JStr (initial_state_hash w)),
      (''trace_hash'', JStr (trace_hash w)), (''actions'', JArr (map JObj (wit_actions w))),
      (''domains'', JArr (map JStr (wit_domains w))), (''created_at'', JStr (created_at w)),
      (''proof_objects'', JObj (proof_objects w)),
      (''native_replay_status'', JStr (native_replay_status w)),
      (''independent_replay_status'', JStr (independent_replay_status w)),
      (''security_relevance'', JStr (security_relevance w)),
      (''allowed_capabilities'', JArr (map JStr (allowed_capabilities w)))]"

section \<open>The decoder inverts the encoder\<close>

lemma option_json_ok [simp]: "option_json v = JNull \<or> nonempty_str (option_json v) \<longleftrightarrow> v \<noteq> Some ''''"
  by (cases v) (simp_all add: option_json_def)

lemma Message_Inr_iff:
  "Message m = Inr m' \<longleftrightarrow> m' = m \<and> source_domain m \<noteq> '''' \<and> destination_domain m \<noteq> '''' \<and>
     emitter m \<noteq> '''' \<and> recipient m \<noteq> '''' \<and> payload_commitment m \<noteq> '''' \<and>
     0 \<le> nonce m \<and> nonce m < 2 ^ 256 \<and>
     attestation m \<noteq> Some '''' \<and> attestor m \<noteq> Some '''' \<and> intent_id m \<noteq> Some ''''"
  by (auto simp: Message_def raise_def)

lemma message_from_dict_of_message:
  assumes "Message m = Inr m"
  shows "message_from_dict (message_dict m) = Inr m"
proof -
  have "extras (message_dict m) (required_message_fields @ optional_message_fields) = []"
    by (simp add: extras_def message_dict_def required_message_fields_def optional_message_fields_def)
  moreover have "list_all (\<lambda>k. k \<in> set (dict_keys (message_dict m))) required_message_fields"
    by (simp add: message_dict_def required_message_fields_def)
  moreover have "first_failing nonempty_str (message_dict m)
      [''source_domain'', ''destination_domain'', ''emitter'', ''recipient'', ''payload_commitment''] = None"
    using assms by (simp add: first_failing_def message_dict_def Message_Inr_iff)
  moreover have "first_failing (\<lambda>v. v = JNull \<or> nonempty_str v) (message_dict m) optional_message_fields = None"
    using assms by (simp add: first_failing_def message_dict_def optional_message_fields_def Message_Inr_iff)
  moreover have "uint256 (jget (message_dict m) ''nonce'')"
    using assms by (simp add: uint256_def message_dict_def Message_Inr_iff)
  moreover have "\<lparr>source_domain = text_of (jget (message_dict m) ''source_domain''),
      destination_domain = text_of (jget (message_dict m) ''destination_domain''),
      emitter = text_of (jget (message_dict m) ''emitter''),
      recipient = text_of (jget (message_dict m) ''recipient''),
      nonce = int_of_json (jget (message_dict m) ''nonce''),
      payload_commitment = text_of (jget (message_dict m) ''payload_commitment''),
      attestation = as_string (jget (message_dict m) ''attestation''),
      attestor = as_string (jget (message_dict m) ''attestor''),
      intent_id = as_string (jget (message_dict m) ''intent_id'')\<rparr> = m"
    by (cases m) (simp add: message_dict_def text_of_def int_of_json_def)
  ultimately show ?thesis
    using assms by (simp add: message_from_dict_def)
qed

lemma action_from_dict_of_action:
  assumes "Message (act_message e) = Inr (act_message e)"
  shows "action_from_dict (JObj (action_to_dict e)) = Inr e"
proof -
  have "extras (action_to_dict e) action_fields = []"
    by (simp add: extras_def action_to_dict_def action_fields_def)
  then show ?thesis
    using message_from_dict_of_message [OF assms]
    by (cases e) (simp add: action_from_dict_def action_to_dict_def natural_def nat_of_json_def)
qed

text \<open>And it accepts nothing else than well-formed rows.\<close>

lemma action_from_dict_sound:
  assumes "action_from_dict row = Inr e"
  shows "Message (act_message e) = Inr (act_message e)"
    and "\<exists>d. row = JObj d \<and> set (dict_keys d) \<subseteq> set action_fields \<and>
      jget d ''action'' = JStr (action_value (act e))"
proof -
  from assms obtain d raw a m where d: "row = JObj d" "extras d action_fields = []"
    "action_of (jget d ''action'') = Some a" "message_from_dict raw = Inr m"
    "act e = a" "act_message e = m"
    by (auto simp: action_from_dict_def result_simps split: json.splits if_splits option.splits)
  from d(4) have "Message m = Inr m"
    by (auto simp: message_from_dict_def Message_Inr_iff split: if_splits option.splits)
  with d(6) show "Message (act_message e) = Inr (act_message e)" by simp
  have "set (dict_keys d) \<subseteq> set action_fields"
    using d(2) by (auto simp: extras_def filter_empty_conv)
  moreover have "jget d ''action'' = JStr (action_value a)"
    using d(3) by (auto simp: action_of_def split: if_splits)
  ultimately show "\<exists>d. row = JObj d \<and> set (dict_keys d) \<subseteq> set action_fields \<and>
      jget d ''action'' = JStr (action_value (act e))"
    using d(1,5) by auto
qed

section \<open>Replay follows a schedule\<close>

text \<open>
  Delivery by identity may take another copy of a message than the schedule did, so the channel
  of the replayed fixture can be a permutation of the scheduled one; without reordering the two
  are equal.
\<close>

definition with_pending :: "message list \<Rightarrow> fixture \<Rightarrow> fixture" where
  "with_pending ps fx = fx\<lparr>fx_state := (fx_state fx)\<lparr>pending := ps\<rparr>\<rparr>"

definition channel_match :: "fixture \<Rightarrow> message list \<Rightarrow> bool" where
  "channel_match fx ps \<longleftrightarrow> mset ps = mset (pending (fx_state fx)) \<and>
     (\<not> allow_reordering (profile fx) \<longrightarrow> ps = pending (fx_state fx))"

lemma with_pending_same [simp]: "with_pending (pending (fx_state fx)) fx = fx"
  by (simp add: with_pending_def)

lemma with_pending_fields [simp]:
  "bounds (with_pending ps fx) = bounds fx" "profile (with_pending ps fx) = profile fx"
  "pending (fx_state (with_pending ps fx)) = ps"
  "clocks (fx_state (with_pending ps fx)) = clocks (fx_state fx)"
  "action_log (fx_state (with_pending ps fx)) = action_log (fx_state fx)"
  "source (fx_state (with_pending ps fx)) = source (fx_state fx)"
  by (simp_all add: with_pending_def)

lemma validate_with_pending [simp]: "validate_message (with_pending ps fx) m = validate_message fx m"
  by (simp add: validate_message_def with_pending_def)

lemma capacity_with_pending [simp]: "require_capacity (with_pending ps fx) a c = require_capacity fx a c"
  by (simp add: require_capacity_def with_pending_def)

lemma enqueue_with_pending:
  assumes "enqueue sha m fx = Inr g" "length ps = length (pending (fx_state fx))"
  shows "enqueue sha m (with_pending ps fx) = Inr (with_pending (ps @ [m]) g) \<and>
    pending (fx_state g) = pending (fx_state fx) @ [m]"
  using assms(1)
proof (cases rule: enqueue_InrE)
  case (1 c)
  then have "\<not> (\<not> allow_duplicate_enqueue (profile fx) \<and>
      list_ex (same_identity m) (committed_messages (source (fx_state fx))))"
    by (auto simp: list_ex_iff)
  with 1 assms(2) show ?thesis
    by (simp add: enqueue_def add_clock_def)
       (simp add: enqueue_effect_def with_pending_def record_action_def Let_def)
qed

lemma deliver_with_pending:
  assumes "deliver sha i fx = Inr (m, g)" "length ps = length (pending (fx_state fx))"
    and "j < length ps" "ps ! j = m" "allow_reordering (profile fx) \<or> j = 0"
  shows "deliver sha (int j) (with_pending ps fx) = Inr (m, with_pending (delete_at j ps) g)"
  using assms(1)
proof (cases rule: deliver_InrE)
  case (1 c k)
  have "ps \<noteq> []" "\<not> (\<not> allow_reordering (profile fx) \<and> int j \<noteq> 0)"
    using assms(3,5) by auto
  then have "deliver sha (int j) (with_pending ps fx) =
      Inr (m, with_pending ps fx\<lparr>fx_state := record_action DELIVER m (length ps) True
        ((deliver_effect sha j (fx_state (with_pending ps fx)))
          \<lparr>clocks := dict_put (destination_domain m) (c + 1) (clocks (fx_state fx))\<rparr>)\<rparr>)"
    using assms(3,4) 1(5,6)
    by (simp add: deliver_def add_clock_def Let_def) (simp add: deliver_effect_def Let_def)
  moreover have "length (delete_at j ps) = length (delete_at k (pending (fx_state fx)))"
    using assms(2,3) 1(2) by simp
  ultimately show ?thesis
    using 1(7) assms(2,4) 1(3)
    by (simp add: deliver_effect_def with_pending_def record_action_def Let_def)
qed

lemma reorg_with_pending:
  assumes "reorg i fx = Inr (m, g)" "length ps = length (pending (fx_state fx))"
    and "last_index (same_identity m) ps = Some j"
  shows "reorg i (with_pending ps fx) = Inr (m, with_pending (delete_at j ps) g)"
  using assms(1)
proof (cases rule: reorg_InrE)
  case (1 c k j')
  then have "committed_messages (source (fx_state fx)) \<noteq> []" by auto
  moreover have "from_end i (committed_messages (source (fx_state fx))) = int k" using 1 by simp
  moreover from last_index_SomeD [OF 1(5)] last_index_SomeD [OF assms(3)]
  have "j' < length (pending (fx_state fx))" "j < length ps" by simp_all
  ultimately show ?thesis
    using 1(2-10) assms(2,3)
    by (simp add: reorg_def Let_def add_clock_def)
       (simp add: reorg_effect_def with_pending_def record_action_def Let_def)
qed

definition from_candidates :: "explorer \<Rightarrow> fixture \<Rightarrow> bool" where
  "from_candidates E fx \<longleftrightarrow>
     set (pending (fx_state fx)) \<union> set (committed_messages (source (fx_state fx))) \<subseteq> set (messages E)"

lemma candidate_eq:
  "distinct (ids (messages E)) \<Longrightarrow> m \<in> set (messages E) \<Longrightarrow> n \<in> set (messages E) \<Longrightarrow>
   message_identity m = message_identity n \<Longrightarrow> m = n"
  by (auto simp: ids_def distinct_map dest: inj_onD)

lemma check_evidence_refl [simp]: "check_evidence e e = Inr ()"
  by (simp add: check_evidence_def)

lemma mset_delete_same:
  "mset xs = mset ys \<Longrightarrow> i < length xs \<Longrightarrow> j < length ys \<Longrightarrow> xs ! i = ys ! j \<Longrightarrow>
   mset (delete_at i xs) = mset (delete_at j ys)"
  using mset_delete_at [of i xs] mset_delete_at [of j ys] by simp

lemma log_grows:
  "enqueue sha m fx = Inr g \<Longrightarrow> \<exists>e. action_log (fx_state g) = action_log (fx_state fx) @ [e] \<and>
     act e = ENQUEUE \<and> act_message e = m"
  "deliver sha i fx = Inr (m, g) \<Longrightarrow> \<exists>e. action_log (fx_state g) = action_log (fx_state fx) @ [e] \<and>
     act e = DELIVER \<and> act_message e = m"
  "reorg i fx = Inr (m, g) \<Longrightarrow> \<exists>e. action_log (fx_state g) = action_log (fx_state fx) @ [e] \<and>
     act e = REORG \<and> act_message e = m"
  by (auto elim!: enqueue_InrE deliver_InrE reorg_InrE
      simp: record_action_def Let_def enqueue_effect_def deliver_effect_def reorg_effect_def)

lemma pending_index_found:
  assumes "m \<in> set ps"
  obtains j where "pending_index (with_pending ps fx) m = Inr j" "j < length ps"
    "message_identity (ps ! j) = message_identity m" "ps ! 0 = m \<Longrightarrow> j = 0"
proof -
  have "find (\<lambda>i. same_identity m (ps ! i)) [0 ..< length ps] \<noteq> None"
    using assms by (auto simp: find_None_iff in_set_conv_nth same_identity_def)
  then obtain j where j: "find (\<lambda>i. same_identity m (ps ! i)) [0 ..< length ps] = Some j" by blast
  then have "j < length ps" "same_identity m (ps ! j)" "\<forall>i < j. \<not> same_identity m (ps ! i)"
    by (auto simp: find_Some_iff)
  with j that show thesis by (auto simp: pending_index_def same_identity_def)
qed

lemma replay_deliver:
  assumes "deliver sha i fx = Inr (m, g)" "channel_match fx ps" "from_candidates E fx"
    and "distinct (ids (messages E))"
  shows "\<exists>ps'. bind_result (pending_index (with_pending ps fx) m) (\<lambda>i.
      drop_message (deliver sha (int i) (with_pending ps fx))) = Inr (with_pending ps' g) \<and> channel_match g ps'"
  using assms(1)
proof (cases rule: deliver_InrE)
  case (1 c k)
  have ps: "mset ps = mset (pending (fx_state fx))" "\<not> allow_reordering (profile fx) \<Longrightarrow> ps = pending (fx_state fx)"
    using assms(2) by (simp_all add: channel_match_def)
  have "m \<in> set (pending (fx_state fx))" using 1(2,3) by simp
  with ps(1) have m: "m \<in> set ps" by (metis set_mset_mset)
  obtain j where j: "pending_index (with_pending ps fx) m = Inr j" "j < length ps"
    "message_identity (ps ! j) = message_identity m" "ps ! 0 = m \<Longrightarrow> j = 0"
    using pending_index_found [OF m] by metis
  have "ps ! j \<in> set (messages E)" "m \<in> set (messages E)"
    using nth_mem [OF j(2)] m assms(3) ps(1) by (auto simp: from_candidates_def dest: mset_eq_setD)
  with candidate_eq [OF assms(4)] j(3) have pj: "ps ! j = m" by blast
  have fifo: "\<not> allow_reordering (profile fx) \<Longrightarrow> j = 0 \<and> k = 0"
    using ps(2) 1(3,4) j(4) by auto
  have "deliver sha (int j) (with_pending ps fx) = Inr (m, with_pending (delete_at j ps) g)"
    by (rule deliver_with_pending [OF assms(1) _ j(2) pj]) (use fifo mset_eq_length [OF ps(1)] in auto)
  moreover have "channel_match g (delete_at j ps)"
    using 1(7) mset_delete_same [OF ps(1) j(2) 1(2)] pj 1(3) fifo ps(2)
    by (auto simp: channel_match_def deliver_effect_def Let_def)
  ultimately show ?thesis using j(1) by (auto simp: drop_message_def)
qed

lemma replay_reorg:
  assumes "reorg_latest fx = Inr (m, g)" "channel_match fx ps" "from_candidates E fx"
    and "distinct (ids (messages E))"
  shows "\<exists>ps'. drop_message (reorg_latest (with_pending ps fx)) = Inr (with_pending ps' g) \<and> channel_match g ps'"
  using assms(1)[unfolded reorg_latest_def]
proof (cases rule: reorg_InrE)
  case (1 c i j)
  have ps: "mset ps = mset (pending (fx_state fx))" "\<not> allow_reordering (profile fx) \<Longrightarrow> ps = pending (fx_state fx)"
    using assms(2) by (simp_all add: channel_match_def)
  have sets: "set ps = set (pending (fx_state fx))" using ps(1) by (rule mset_eq_setD)
  note j = last_index_SomeD [OF 1(5)]
  then have "pending (fx_state fx) ! j \<in> set ps" using sets by simp
  with j obtain j' where j': "last_index (same_identity m) ps = Some j'"
    by (metis last_index_None_iff option.exhaust)
  note j'' = last_index_SomeD [OF j']
  have "m \<in> set (messages E)" using 1(2,4) assms(3) nth_mem by (auto simp: from_candidates_def)
  moreover have "ps ! j' \<in> set (messages E)" "pending (fx_state fx) ! j \<in> set (messages E)"
    using j j'' nth_mem sets assms(3) by (fastforce simp: from_candidates_def)+
  ultimately have eq: "ps ! j' = m" "pending (fx_state fx) ! j = m"
    using j j'' candidate_eq [OF assms(4)] by (auto simp: same_identity_def)
  have "reorg (- 1) (with_pending ps fx) = Inr (m, with_pending (delete_at j' ps) g)"
    by (rule reorg_with_pending [OF assms(1)[unfolded reorg_latest_def] mset_eq_length [OF ps(1)] j'])
  moreover have "channel_match g (delete_at j' ps)"
    using 1(10) mset_delete_same [OF ps(1), of j' j] j j'' eq ps(2) 1(5) j'
    by (auto simp: channel_match_def reorg_effect_def)
  ultimately show ?thesis by (auto simp: drop_message_def reorg_latest_def)
qed

lemma from_candidates_step:
  "schedule_step E sha fx g \<Longrightarrow> from_candidates E fx \<Longrightarrow> from_candidates E g"
proof (induction rule: schedule_step.induct)
  case (enqueue m fx fx')
  from enqueue(2,3,1) show ?case
    by (cases rule: enqueue_InrE) (auto simp: from_candidates_def enqueue_effect_def)
next
  case (deliver i fx m fx')
  from deliver(1,2) show ?case
    by (cases rule: deliver_InrE)
       (use set_delete_at_subset in \<open>fastforce simp: from_candidates_def deliver_effect_def Let_def\<close>)
next
  case (reorg fx m fx')
  from reorg(1) [unfolded reorg_latest_def] reorg(2) show ?case
    by (cases rule: reorg_InrE)
       (use set_delete_at_subset in \<open>fastforce simp: from_candidates_def reorg_effect_def\<close>)
qed

text \<open>One scheduled action appends one record, and replaying that record follows the schedule.\<close>

lemma replay_step_follows:
  assumes "schedule_step E sha fx g" "channel_match fx ps" "from_candidates E fx"
    and "distinct (ids (messages E))"
  shows "\<exists>e ps'. action_log (fx_state g) = action_log (fx_state fx) @ [e] \<and>
    replay_step sha e (with_pending ps fx) = Inr (with_pending ps' g) \<and> channel_match g ps'"
  using assms
proof (induction rule: schedule_step.induct)
  case (enqueue m fx fx')
  from log_grows(1) [OF enqueue(2)] obtain e where
    e: "action_log (fx_state fx') = action_log (fx_state fx) @ [e]" "act e = ENQUEUE" "act_message e = m"
    by blast
  have "length ps = length (pending (fx_state fx))"
    using enqueue(3) by (auto simp: channel_match_def dest: mset_eq_length)
  from enqueue_with_pending [OF enqueue(2) this] e
  have "replay_step sha e (with_pending ps fx) = Inr (with_pending (ps @ [m]) fx')"
    by (simp add: replay_step_def perform_def)
  moreover have "channel_match fx' (ps @ [m])"
    using enqueue(2)
    by (cases rule: enqueue_InrE) (use enqueue(3) in \<open>auto simp: channel_match_def enqueue_effect_def\<close>)
  ultimately show ?case using e(1) by blast
next
  case (deliver i fx m fx')
  from log_grows(2) [OF deliver(1)] obtain e where
    e: "action_log (fx_state fx') = action_log (fx_state fx) @ [e]" "act e = DELIVER" "act_message e = m"
    by blast
  from replay_deliver [OF deliver(1-4)] e show ?case
    by (fastforce simp: replay_step_def perform_def)
next
  case (reorg fx m fx')
  from log_grows(3) [OF reorg(1) [unfolded reorg_latest_def]] obtain e where
    e: "action_log (fx_state fx') = action_log (fx_state fx) @ [e]" "act e = REORG" "act_message e = m"
    by blast
  from replay_reorg [OF reorg(1-4)] e show ?case
    by (fastforce simp: replay_step_def perform_def)
qed

lemma replay_loop_append:
  "replay_loop sha (es @ fs) fx = bind_result (replay_loop sha es fx) (replay_loop sha fs)"
  by (induction es arbitrary: fx) (simp_all add: bind_result_def split: sum.split)

definition fresh_channel :: "fixture \<Rightarrow> bool" where
  "fresh_channel fx \<longleftrightarrow> action_log (fx_state fx) = [] \<and> pending (fx_state fx) = [] \<and>
     committed_messages (source (fx_state fx)) = []"

theorem replay_schedule:
  assumes "settled sha fx0" "fresh_channel fx0" "distinct (ids (messages E))"
    and "(schedule_step E sha)\<^sup>*\<^sup>* fx0 fx"
  shows "\<exists>ps. replay_action_records sha fx0 (action_log (fx_state fx)) = Inr (with_pending ps fx) \<and>
    channel_match fx ps"
proof -
  have "from_candidates E fx \<and>
    (\<exists>ps. replay_loop sha (action_log (fx_state fx)) fx0 = Inr (with_pending ps fx) \<and> channel_match fx ps)"
    using assms(4)
  proof (induction rule: rtranclp_induct)
    case base
    have "channel_match fx0 (pending (fx_state fx0))" by (simp add: channel_match_def)
    moreover have "replay_loop sha (action_log (fx_state fx0)) fx0 = Inr (with_pending (pending (fx_state fx0)) fx0)"
      using assms(2) unfolding fresh_channel_def with_pending_same by simp
    moreover have "from_candidates E fx0"
      using assms(2) by (simp add: from_candidates_def fresh_channel_def)
    ultimately show ?case by blast
  next
    case (step fx g)
    then obtain ps where ps: "from_candidates E fx" "channel_match fx ps"
      "replay_loop sha (action_log (fx_state fx)) fx0 = Inr (with_pending ps fx)" by blast
    from replay_step_follows [OF step.hyps(2) ps(2,1) assms(3)] obtain e ps' where
      e: "action_log (fx_state g) = action_log (fx_state fx) @ [e]"
      "replay_step sha e (with_pending ps fx) = Inr (with_pending ps' g)" "channel_match g ps'" by blast
    then have "replay_loop sha (action_log (fx_state g)) fx0 = Inr (with_pending ps' g)"
      using ps(3) by (simp add: replay_loop_append)
    with e(3) from_candidates_step [OF step.hyps(2) ps(1)] show ?case by blast
  qed
  then show ?thesis using clone_settled [OF assms(1)] by (simp add: replay_action_records_def)
qed

end
