(* ===== verification/Paired_Properties.thy ===== *)
theory Paired_Properties
  imports Replay_Witness
begin

text \<open>
  The properties of the two-chain fixture, of the schedule explorer and of witness replay, each
  with a run on one small fixture.
\<close>

section \<open>A concrete fixture\<close>

definition demo_message :: message where
  "demo_message = \<lparr>source_domain = ''S'', destination_domain = ''D'', emitter = ''e'',
     recipient = ''r'', nonce = 7, payload_commitment = ''p'', attestation = None, attestor = None,
     intent_id = None\<rparr>"

definition demo_profile :: transition_profile where
  "demo_profile = default_profile\<lparr>allow_reordering := False, allow_pre_finality_reorg := True,
     finality_depth := 1\<rparr>"

definition demo_fixture :: fixture where
  "demo_fixture = \<lparr>bounds = default_bounds, profile = demo_profile,
     initial_state = initial_dual ''S'' ''D'', fx_state = initial_dual ''S'' ''D''\<rparr>"

lemma demo_start: "PairedFixture ''S'' ''D'' default_bounds demo_profile = Inr demo_fixture"
  by (simp add: PairedFixture_def demo_fixture_def)

lemma default_bounds_valid: "TransitionBounds default_bounds = Inr default_bounds"
  by (simp add: TransitionBounds_def default_bounds_def)

text \<open>A digest that tells the states of the small runs apart.\<close>

definition weight_digest :: "json \<Rightarrow> string" where
  "weight_digest j = string_of_nat (json_weight j)"

definition demo_sent :: fixture where
  "demo_sent = (case enqueue weight_digest demo_message demo_fixture of Inr fx \<Rightarrow> fx | Inl _ \<Rightarrow> demo_fixture)"

lemmas demo_defs = demo_fixture_def demo_profile_def demo_message_def default_profile_def
  default_bounds_def initial_dual_def initial_chain_def

text \<open>The operations unfolded, to run them on the concrete fixture.\<close>

lemmas run_defs = demo_defs enqueue_def validate_message_def require_capacity_def add_clock_def
  enqueue_effect_def record_action_def deliver_def deliver_effect_def reorg_def reorg_latest_def
  reorg_effect_def delete_at_def from_end_def last_index_def same_identity_def
  message_identity_def raise_def Let_def

lemma demo_enqueue: "enqueue weight_digest demo_message demo_fixture = Inr demo_sent"
proof -
  have "\<exists>fx. enqueue weight_digest demo_message demo_fixture = Inr fx"
    by (simp add: run_defs)
  then show ?thesis by (auto simp: demo_sent_def)
qed

lemma demo_committed: "committed_messages (source (fx_state demo_sent)) = [demo_message]"
  by (simp add: demo_sent_def run_defs)

lemma demo_reachable: "reachable weight_digest demo_fixture demo_sent"
  by (rule reachable.step [OF reachable.start fixture_step.enqueue [OF demo_enqueue]])

section \<open>The fixture\<close>

text \<open>
  C3. Message accounting. In every state that any sequence of operations, resets and restores
  reaches from a new fixture: the three bounds hold; the transaction counter is the number of
  actions in the log and the channel counter the number of those that are not reorgs; the messages
  committed on the source chain are, as a multiset of identities, those in flight plus those
  delivered; each chain's clock counts its messages; and every message involved passed the
  profile's checks.
\<close>

theorem accounting:
  assumes "PairedFixture src dst b p = Inr fx0" and "TransitionBounds b = Inr b"
    and "reachable sha fx0 fx"
  shows "let s = fx_state fx; sent = committed_messages (source s) in
    int (transaction_count s) \<le> max_transactions b \<and>
    int (channel_transition_count s) \<le> max_channel_transitions b \<and>
    int (length (pending s)) \<le> max_pending b \<and>
    transaction_count s = length (action_log s) \<and>
    channel_transition_count s = length (filter (\<lambda>e. act e \<noteq> REORG) (action_log s)) \<and>
    mset (map message_identity sent) =
      mset (map message_identity (pending s)) + mset (map message_identity (delivered s)) \<and>
    dict_get (clocks s) src = Some (int (length sent)) \<and>
    dict_get (clocks s) dst = Some (int (length (delivered s))) \<and>
    (\<forall>m \<in> set sent \<union> set (pending s) \<union> set (delivered s). admissible p src dst m)"
  using reachable_state_ok [OF assms]
  by (simp add: state_ok_def counters_ok_def chains_ok_def channel_ok_def ids_def Let_def)

theorem accounting_witness:
  "transaction_count (fx_state demo_sent) = length (action_log (fx_state demo_sent))"
  using accounting [OF demo_start default_bounds_valid demo_reachable] by (simp add: Let_def)

text \<open>
  C13. Replay exclusion. Unless the profile allows duplicate messages, no identity is delivered
  twice and nothing in flight was delivered before; and when it also forbids reordering, the
  destination has received a prefix of what the source committed, in order.
\<close>

theorem replay_exclusion:
  assumes "PairedFixture src dst b p = Inr fx0" and "TransitionBounds b = Inr b"
    and "reachable sha fx0 fx" and "\<not> allow_duplicate_enqueue p"
  shows "distinct (map message_identity (delivered (fx_state fx) @ pending (fx_state fx))) \<and>
    (\<not> allow_reordering p \<longrightarrow>
       committed_messages (source (fx_state fx)) = delivered (fx_state fx) @ pending (fx_state fx))"
proof -
  from reachable_state_ok [OF assms(1-3)] have c: "channel_ok p src dst (fx_state fx)"
    by (simp add: state_ok_def)
  with assms(4) have "mset (ids (delivered (fx_state fx) @ pending (fx_state fx))) =
      mset (ids (committed_messages (source (fx_state fx))))"
    "distinct (ids (committed_messages (source (fx_state fx))))"
    by (simp_all add: channel_ok_def ids_def union_commute)
  then have "distinct (ids (delivered (fx_state fx) @ pending (fx_state fx)))"
    by (metis mset_eq_imp_distinct_iff)
  with c assms(4) show ?thesis unfolding ids_def channel_ok_def by blast
qed

theorem replay_exclusion_witness:
  "committed_messages (source (fx_state demo_sent)) =
     delivered (fx_state demo_sent) @ pending (fx_state demo_sent)"
  using replay_exclusion [OF demo_start default_bounds_valid demo_reachable]
  by (simp add: demo_profile_def default_profile_def)

text \<open>
  Enqueue is total on reachable fixtures and characterised exactly: it succeeds if and only if
  the profile admits the message, the transaction and channel bounds leave room, the channel is
  not full, and the message is not a forbidden duplicate; otherwise it raises ValueError. The
  KeyError of the clock update cannot occur.
\<close>

theorem enqueue_exact:
  assumes "PairedFixture src dst b p = Inr fx0" and "TransitionBounds b = Inr b"
    and "reachable sha fx0 fx"
  shows "if validate_message fx m = Inr () \<and>
      int (transaction_count (fx_state fx)) < max_transactions b \<and>
      int (channel_transition_count (fx_state fx)) < max_channel_transitions b \<and>
      int (length (pending (fx_state fx))) < max_pending b \<and>
      (allow_duplicate_enqueue p \<or>
       message_identity m \<notin> message_identity ` set (committed_messages (source (fx_state fx))))
    then \<exists>fx'. enqueue sha m fx = Inr fx' else \<exists>msg. enqueue sha m fx = Inl (PairedValue msg)"
proof -
  have "bounds fx = b \<and> profile fx = p"
    using assms(1) reachable_frame [OF assms(3)] by (auto simp: PairedFixture_def split: if_splits)
  moreover have "fixture_ok sha fx" by (rule reachable_ok [OF assms(3) PairedFixture_ok [OF assms(1,2)]])
  ultimately show ?thesis
    using enqueue_outcome [of sha fx m] by (simp add: enqueue_enabled_def require_capacity_Inr ids_def)
qed

theorem enqueue_exact_witness:
  "\<exists>msg. enqueue weight_digest demo_message demo_sent = Inl (PairedValue msg)"
proof -
  from demo_committed enqueue_exact [OF demo_start default_bounds_valid demo_reachable, of demo_message]
  show ?thesis by (simp add: demo_profile_def default_profile_def)
qed

text \<open>
  C32. A reorg removes one committed message, which was in flight and had fewer than
  \<open>finality_depth\<close> messages after it; the messages that were final before stay committed, in
  order, and nothing delivered is touched.
\<close>

theorem reorg_respects_finality:
  assumes "reorg index fx = Inr (m, fx')"
  shows "let old = committed_messages (source (fx_state fx));
      new = committed_messages (source (fx_state fx')); final = length old - nat (finality_depth (profile fx))
    in take final new = take final old \<and> mset old = add_mset m (mset new) \<and>
       message_identity m \<in> message_identity ` set (pending (fx_state fx)) \<and>
       delivered (fx_state fx') = delivered (fx_state fx) \<and> destination (fx_state fx') = destination (fx_state fx)"
  using reorg_keeps_finalized [OF assms] reorg_removes [OF assms] by (simp add: Let_def)

theorem reorg_respects_finality_witness:
  "\<exists>fx'. reorg (-1) demo_sent = Inr (demo_message, fx') \<and> committed_messages (source (fx_state fx')) = []"
proof -
  have "\<exists>fx'. reorg (-1) demo_sent = Inr (demo_message, fx')"
    by (simp add: demo_sent_def run_defs)
  then obtain fx' where r: "reorg (-1) demo_sent = Inr (demo_message, fx')" by blast
  from demo_committed reorg_respects_finality [OF r] r show ?thesis by (simp add: Let_def)
qed

definition second_message :: message where
  "second_message = demo_message\<lparr>nonce := 8\<rparr>"

text \<open>
  Finality is not permanent, although the fixture calls a message final once enough messages
  follow it. With depth one: the first of two messages is final (a reorg of it is refused); after
  a reorg of the second it is the tip again, and the same reorg removes it.
\<close>

theorem finality_not_permanent:
  "\<exists>fx1 fx2 fx3 msg. reachable weight_digest demo_fixture fx1 \<and>
     committed_messages (source (fx_state fx1)) = [demo_message, second_message] \<and>
     reorg 0 fx1 = Inl (PairedValue msg) \<and> reorg_latest fx1 = Inr (second_message, fx2) \<and>
     reorg 0 fx2 = Inr (demo_message, fx3)"
proof -
  obtain fx1 where e: "enqueue weight_digest second_message demo_sent = Inr fx1"
    and c1: "committed_messages (source (fx_state fx1)) = [demo_message, second_message]"
    and r1: "\<exists>msg. reorg 0 fx1 = Inl (PairedValue msg)"
    and r2: "\<exists>fx2 fx3. reorg_latest fx1 = Inr (second_message, fx2) \<and> reorg 0 fx2 = Inr (demo_message, fx3)"
    by (simp add: demo_sent_def second_message_def run_defs)
  have "reachable weight_digest demo_fixture fx1"
    by (rule reachable.step [OF demo_reachable fixture_step.enqueue [OF e]])
  with c1 r1 r2 show ?thesis by blast
qed

section \<open>The schedule explorer\<close>

definition demo_explorer :: explorer where
  "demo_explorer = \<lparr>messages = [demo_message], max_states = 10\<rparr>"

definition demo_env :: search_env where
  "demo_env = \<lparr>control = \<lparr>query_timeout_seconds = 1, campaign_deadline_seconds = 100,
       campaign_elapsed_seconds = 0\<rparr>, clock = (\<lambda>_. 0), cancelled = None\<rparr>"

definition some_delivery :: predicate where
  "some_delivery s = Inr (delivered s \<noteq> [])"

lemma demo_settled: "settled weight_digest demo_fixture"
  by (rule reachable_settled [OF demo_start default_bounds_valid reachable.start])



text \<open>
  C4. What a verdict means. A SAT result comes with the action log of a schedule at which the
  predicate holds. When no two reachable states share a fingerprint, a BOUNDED_UNSAT result means
  that the predicate is false after every schedule within the bounds. No result is declared
  complete otherwise, and the state limit is never exceeded.
\<close>

theorem search_verdicts:
  assumes "PairedFixture src dst b p = Inr fx0" and "TransitionBounds b = Inr b"
    and "reachable sha fx0 fx" and "search E sha violation env fx = Inr r"
  shows "explored_states r \<le> max_states E \<and>
    (sr_status r = SearchSat \<longrightarrow>
       (\<exists>g. (schedule_step E sha)\<^sup>*\<^sup>* fx g \<and> violation (fx_state g) = Inr True \<and>
          sr_witness r = action_log (fx_state g))) \<and>
    (sr_status r = SearchBoundedUnsat \<and> inj_on (fingerprint sha) {g. (schedule_step E sha)\<^sup>*\<^sup>* fx g} \<longrightarrow>
       (\<forall>g. (schedule_step E sha)\<^sup>*\<^sup>* fx g \<longrightarrow> violation (fx_state g) = Inr False)) \<and>
    (sr_complete r \<longleftrightarrow> sr_status r = SearchSat \<or> sr_status r = SearchBoundedUnsat)"
  using search_meaning [OF reachable_settled [OF assms(1-3)] assms(4)]
  unfolding reaches_schedule(1) [OF reachable_settled [OF assms(1-3)], symmetric]
  by (auto simp: result_meaning_def sat_meaning_def split: search_status.splits)

lemma demo_search:
  "(case search demo_explorer weight_digest some_delivery demo_env demo_fixture of
      Inl _ \<Rightarrow> False
    | Inr r \<Rightarrow> sr_status r = SearchSat \<and> map act (sr_witness r) = [ENQUEUE, DELIVER])"
  by code_simp

theorem search_verdicts_witness:
  "\<exists>g. (schedule_step demo_explorer weight_digest)\<^sup>*\<^sup>* demo_fixture g \<and> delivered (fx_state g) \<noteq> []"
proof -
  obtain r where "search demo_explorer weight_digest some_delivery demo_env demo_fixture = Inr r"
    "sr_status r = SearchSat"
    using demo_search by (auto split: sum.splits)
  with search_verdicts [OF demo_start default_bounds_valid reachable.start this(1)] show ?thesis
    by (auto simp: some_delivery_def)
qed





section \<open>Witness replay\<close>

text \<open>
  C14. A witness replays. From a new fixture, when the explorer (over candidates its constructor
  accepts) answers SAT, replaying the witness's action log succeeds, with every index it checks
  in agreement, and ends in a violating state up to the order of the messages in flight, which
  is the same too when the profile forbids reordering.
\<close>

theorem witness_replays:
  assumes "PairedFixture src dst b p = Inr fx0" and "TransitionBounds b = Inr b"
    and "BoundedPairedExplorer ms limit = Inr E"
    and "search E sha violation env fx0 = Inr r" and "sr_status r = SearchSat"
  shows "\<exists>fx ps. violation (fx_state fx) = Inr True \<and>
    replay_action_records sha fx0 (sr_witness r) =
      Inr (fx\<lparr>fx_state := (fx_state fx)\<lparr>pending := ps\<rparr>\<rparr>) \<and>
    mset ps = mset (pending (fx_state fx)) \<and> (\<not> allow_reordering p \<longrightarrow> ps = pending (fx_state fx))"
proof -
  have settled: "settled sha fx0" by (rule reachable_settled [OF assms(1,2) reachable.start])
  have fresh: "fresh_channel fx0" and profile: "profile fx0 = p"
    using assms(1)
    by (auto simp: PairedFixture_def fresh_channel_def initial_dual_def initial_chain_def split: if_splits)
  have distinct: "distinct (ids (messages E))" by (rule BoundedPairedExplorer_distinct [OF assms(3)])
  from search_meaning [OF settled assms(4)] assms(5) obtain fx where
    fx: "(schedule_step E sha)\<^sup>*\<^sup>* fx0 fx" "violation (fx_state fx) = Inr True"
      "sr_witness r = action_log (fx_state fx)"
    unfolding result_meaning_def sat_meaning_def reaches_schedule(1) [OF settled] by auto
  have "profile fx = p"
    using rtranclp_schedule_profile [OF fx(1)] profile by simp
  with replay_schedule [OF settled fresh distinct fx(1)] fx show ?thesis
    by (auto simp: channel_match_def with_pending_def)
qed

theorem witness_replays_witness:
  "\<exists>fx. delivered (fx_state fx) \<noteq> [] \<and>
     (\<exists>log. map act log = [ENQUEUE, DELIVER] \<and> replay_action_records weight_digest demo_fixture log = Inr fx)"
proof -
  have "BoundedPairedExplorer [demo_message] 10 = Inr demo_explorer"
    by (simp add: BoundedPairedExplorer_def demo_explorer_def ids_def)
  moreover obtain r where "search demo_explorer weight_digest some_delivery demo_env demo_fixture = Inr r"
    "sr_status r = SearchSat" "map act (sr_witness r) = [ENQUEUE, DELIVER]"
    using demo_search by (auto split: sum.splits)
  ultimately show ?thesis
    using witness_replays [OF demo_start default_bounds_valid, of "[demo_message]" 10 demo_explorer
        weight_digest some_delivery demo_env r]
    by (force simp: some_delivery_def demo_profile_def default_profile_def)
qed

text \<open>
  Action records and their dictionaries correspond. Encoding a record whose message passes
  the constructor and decoding it gives the record back; and the decoder accepts a row only if it
  is an object with known fields, a known action and a valid message.
\<close>

theorem action_dict_roundtrip:
  "(Message (act_message e) = Inr (act_message e) \<longrightarrow> action_from_dict (JObj (action_to_dict e)) = Inr e) \<and>
   (\<forall>row. action_from_dict row = Inr e \<longrightarrow> Message (act_message e) = Inr (act_message e) \<and>
      (\<exists>d. row = JObj d \<and> set (dict_keys d) \<subseteq> set action_fields \<and>
         jget d ''action'' = JStr (action_value (act e))))"
  using action_from_dict_of_action action_from_dict_sound by metis

definition demo_action :: action_record where
  "demo_action = \<lparr>act = ENQUEUE, act_message = demo_message, transaction_index = 1,
     channel_transition_index = 1, pending_before = 0, pending_after = 1\<rparr>"

theorem action_dict_roundtrip_witness:
  "action_from_dict (JObj (action_to_dict demo_action)) = Inr demo_action"
  using action_dict_roundtrip [of demo_action]
  by (simp add: demo_action_def Message_def demo_message_def)

end
