(* ===== verification/Runtime_Events.thy ===== *)
theory Runtime_Events
  imports Complex_Main Contracts_Records
begin

text \<open>
  The append-only event stores and the campaign state machine (\<^verbatim>\<open>runtime/events.py\<close>). An operation
  that may raise after changing its object returns the exception, if any, beside the new state.
  The clock, the time stamp and the fresh event id that an operation obtains from its callbacks
  are its argument \<open>tick\<close>. A JSONL file is the list of the events it holds; whether an atomic
  write succeeds is an oracle of the persistent store.
\<close>

section \<open>Interruption policy\<close>

datatype attempt_state = StatePlanned | StateRunning | StateUncertain | StateTerminal

datatype interruption = WorkerRestart | LostResponse | ProviderOutage | VersionDrift

fun interruption_value :: "interruption \<Rightarrow> string" where
  "interruption_value WorkerRestart = ''worker_restart''"
| "interruption_value LostResponse = ''lost_response''"
| "interruption_value ProviderOutage = ''provider_outage''"
| "interruption_value VersionDrift = ''version_drift''"

definition interruption_of :: "json \<Rightarrow> interruption option" where
  "interruption_of v =
     (if v = JStr ''worker_restart'' then Some WorkerRestart
      else if v = JStr ''lost_response'' then Some LostResponse
      else if v = JStr ''provider_outage'' then Some ProviderOutage
      else if v = JStr ''version_drift'' then Some VersionDrift
      else None)"

lemma interruption_of_value [simp]: "interruption_of (JStr (interruption_value k)) = Some k"
  by (cases k) (simp_all add: interruption_of_def)

datatype resume_action = ResumeSameAttempt | BlockResume

record resume_policy =
  worker_restart :: resume_action
  lost_response :: resume_action
  provider_outage :: resume_action
  version_drift :: resume_action

datatype runtime_error = RuntimeValue string | StoreRejected "nat \<times> event_violation" | DiskError

definition default_policy :: resume_policy where
  "default_policy = \<lparr>worker_restart = ResumeSameAttempt, lost_response = ResumeSameAttempt,
     provider_outage = ResumeSameAttempt, version_drift = BlockResume\<rparr>"

definition ResumePolicy :: "resume_policy \<Rightarrow> runtime_error + resume_policy" where
  "ResumePolicy p =
     (if version_drift p \<noteq> BlockResume
        then Inl (RuntimeValue ''version drift must block same-attempt resume'')
      else Inr p)"

fun action_for :: "resume_policy \<Rightarrow> interruption \<Rightarrow> resume_action" where
  "action_for p WorkerRestart = worker_restart p"
| "action_for p LostResponse = lost_response p"
| "action_for p ProviderOutage = provider_outage p"
| "action_for p VersionDrift = version_drift p"

section \<open>The in-memory store\<close>

record event_store =
  store_events :: "event_log list"
  event_ids :: "string list"
  store_terminal :: "string list"

definition empty_store :: event_store where
  "empty_store = \<lparr>store_events = [], event_ids = [], store_terminal = []\<rparr>"

definition check_append :: "event_log \<Rightarrow> event_store \<Rightarrow> runtime_error option" where
  "check_append ev st =
     (if event_id ev \<in> set (event_ids st) then Some (RuntimeValue ''duplicate event_id'')
      else if terminal ev \<and> ev_attempt_id ev \<in> set (store_terminal st)
        then Some (RuntimeValue ''duplicate terminal event for attempt'')
      else (case validate_event_log (store_events st @ [ev]) of
              [] \<Rightarrow> None
            | e # _ \<Rightarrow> Some (StoreRejected e)))"

text \<open>\<^verbatim>\<open>_commit\<close> after its persistence hook has returned.\<close>

definition commit :: "event_log \<Rightarrow> event_store \<Rightarrow> event_store" where
  "commit ev st =
     \<lparr>store_events = store_events st @ [ev], event_ids = event_id ev # event_ids st,
      store_terminal = (if terminal ev then ev_attempt_id ev # store_terminal st
                        else store_terminal st)\<rparr>"

definition store_append :: "event_log \<Rightarrow> event_store \<Rightarrow> runtime_error option \<times> event_store" where
  "store_append ev st = (case check_append ev st of
       Some e \<Rightarrow> (Some e, st)
     | None \<Rightarrow> (None, commit ev st))"

text \<open>The constructor appends the given events one by one.\<close>

fun append_all :: "event_log list \<Rightarrow> event_store \<Rightarrow> runtime_error + event_store" where
  "append_all [] st = Inr st"
| "append_all (ev # evs) st = (case store_append ev st of
       (Some e, _) \<Rightarrow> Inl e
     | (None, st') \<Rightarrow> append_all evs st')"

definition AppendOnlyEventStore :: "event_log list \<Rightarrow> runtime_error + event_store" where
  "AppendOnlyEventStore evs = append_all evs empty_store"

section \<open>The persistent store\<close>

text \<open>
  \<open>disk_file\<close> is the content of the path, if it exists; \<open>write_ok n\<close> tells whether the \<open>n\<close>-th atomic
  write succeeds. A failed write removes its temporary file and leaves the path as it was.
\<close>

record persistent_store =
  memory :: event_store
  disk_file :: "event_log list option"
  write_ok :: "nat \<Rightarrow> bool"
  writes :: nat

definition write_jsonl_atomic :: "event_log list \<Rightarrow> persistent_store \<Rightarrow> bool \<times> persistent_store" where
  "write_jsonl_atomic evs ps =
     (if write_ok ps (writes ps)
        then (True, ps\<lparr>disk_file := Some evs, writes := Suc (writes ps)\<rparr>)
      else (False, ps\<lparr>writes := Suc (writes ps)\<rparr>))"

definition persistent_append ::
    "event_log \<Rightarrow> persistent_store \<Rightarrow> runtime_error option \<times> persistent_store" where
  "persistent_append ev ps = (case check_append ev (memory ps) of
       Some e \<Rightarrow> (Some e, ps)
     | None \<Rightarrow>
         (case write_jsonl_atomic (store_events (memory ps) @ [ev]) ps of
            (True, ps') \<Rightarrow> (None, ps'\<lparr>memory := commit ev (memory ps')\<rparr>)
          | (False, ps') \<Rightarrow> (Some DiskError, ps')))"

definition PersistentEventStore ::
    "event_log list option \<Rightarrow> (nat \<Rightarrow> bool) \<Rightarrow> runtime_error + persistent_store" where
  "PersistentEventStore content oracle =
     bind_result (case content of None \<Rightarrow> Inr empty_store | Some evs \<Rightarrow> AppendOnlyEventStore evs) (\<lambda>loaded.
     bind_result (append_all (store_events loaded) empty_store) (\<lambda>st.
       Inr \<lparr>memory = st, disk_file = content, write_ok = oracle, writes = 0\<rparr>))"

definition flush :: "persistent_store \<Rightarrow> runtime_error option \<times> persistent_store" where
  "flush ps = (case write_jsonl_atomic (store_events (memory ps)) ps of
       (True, ps') \<Rightarrow> (None, ps')
     | (False, ps') \<Rightarrow> (Some DiskError, ps'))"

section \<open>The campaign state machine\<close>

record tick =
  tick_clock :: seconds
  tick_stamp :: string
  tick_id :: string

record machine =
  m_campaign :: string
  m_attempt :: string
  m_policy :: resume_policy
  m_state :: attempt_state
  m_status :: campaign_status
  m_last :: seconds
  m_interruption :: "interruption option"

definition CampaignStateMachine :: "string \<Rightarrow> string \<Rightarrow> resume_policy \<Rightarrow> runtime_error + machine" where
  "CampaignStateMachine campaign attempt policy =
     (if campaign = '''' \<or> attempt = ''''
        then Inl (RuntimeValue ''campaign_id and attempt_id are required'')
      else Inr \<lparr>m_campaign = campaign, m_attempt = attempt, m_policy = policy,
                m_state = StatePlanned, m_status = CampaignPlanned, m_last = -1,
                m_interruption = None\<rparr>)"

definition terminal_statuses :: "campaign_status list" where
  "terminal_statuses = [CampaignCompleted, CampaignTimeout, CampaignUnsupported,
     CampaignProviderFailure, CampaignToolFailure, CampaignNoValidProposal]"

type_synonym 's event_sink = "event_log \<Rightarrow> 's \<Rightarrow> runtime_error option \<times> 's"

definition lifecycle_event :: "machine \<Rightarrow> tick \<Rightarrow> string \<Rightarrow> json dict \<Rightarrow> bool \<Rightarrow> event_log" where
  "lifecycle_event M t kind pl is_terminal =
     \<lparr>event_id = tick_id t, event_type = kind, ev_campaign_id = m_campaign M,
      ev_attempt_id = m_attempt M, ev_timestamp = tick_stamp t, payload = JObj pl,
      schema_version = 1, terminal = is_terminal, monotonic_seconds = Some (tick_clock t),
      duration_seconds = None, missing_field_reasons = JObj []\<rparr>"

text \<open>The clock reading is stored before the store is asked to append.\<close>

definition machine_append ::
    "'s event_sink \<Rightarrow> tick \<Rightarrow> string \<Rightarrow> json dict \<Rightarrow> bool \<Rightarrow> machine \<Rightarrow> 's
       \<Rightarrow> runtime_error option \<times> machine \<times> 's" where
  "machine_append sink t kind pl is_terminal M s =
     (if tick_clock t < m_last M then (Some (RuntimeValue ''runtime clock moved backwards''), M, s)
      else (case sink (lifecycle_event M t kind pl is_terminal) s of
              (e, s') \<Rightarrow> (e, M\<lparr>m_last := tick_clock t\<rparr>, s')))"

definition start_unchecked ::
    "'s event_sink \<Rightarrow> tick \<Rightarrow> json dict \<Rightarrow> machine \<Rightarrow> 's \<Rightarrow> runtime_error option \<times> machine \<times> 's" where
  "start_unchecked sink t pl M s = (case machine_append sink t ''campaign_started'' pl False M s of
       (Some e, r) \<Rightarrow> (Some e, r)
     | (None, M', s') \<Rightarrow> (None, M'\<lparr>m_state := StateRunning, m_status := CampaignRunning\<rparr>, s'))"

definition start ::
    "'s event_sink \<Rightarrow> tick \<Rightarrow> json dict \<Rightarrow> machine \<Rightarrow> 's \<Rightarrow> runtime_error option \<times> machine \<times> 's" where
  "start sink t pl M s =
     (if m_state M \<noteq> StatePlanned
        then (Some (RuntimeValue ''attempt cannot start from current state''), M, s)
      else start_unchecked sink t pl M s)"

definition mark_uncertain ::
    "'s event_sink \<Rightarrow> tick \<Rightarrow> string \<Rightarrow> interruption \<Rightarrow> machine \<Rightarrow> 's
       \<Rightarrow> runtime_error option \<times> machine \<times> 's" where
  "mark_uncertain sink t reason kind M s =
     (if m_state M \<noteq> StateRunning
        then (Some (RuntimeValue ''only a running attempt can become uncertain''), M, s)
      else if reason = '''' then (Some (RuntimeValue ''uncertain state requires a reason''), M, s)
      else (case machine_append sink t ''attempt_uncertain''
                [(''reason'', JStr reason), (''interruption'', JStr (interruption_value kind))] False M s of
              (Some e, r) \<Rightarrow> (Some e, r)
            | (None, M', s') \<Rightarrow> (None, M'\<lparr>m_state := StateUncertain, m_interruption := Some kind\<rparr>, s')))"

text \<open>\<^verbatim>\<open>{"status": status, **payload}\<close>: the payload's own keys come last and win.\<close>

definition finish_payload :: "campaign_status \<Rightarrow> json dict \<Rightarrow> json dict" where
  "finish_payload status pl =
     foldl (\<lambda>d (k, v). dict_put k v d) [(''status'', JStr (campaign_status_value status))] pl"

definition finish ::
    "'s event_sink \<Rightarrow> tick \<Rightarrow> campaign_status \<Rightarrow> json dict \<Rightarrow> machine \<Rightarrow> 's
       \<Rightarrow> runtime_error option \<times> machine \<times> 's" where
  "finish sink t status pl M s =
     (if status \<notin> set terminal_statuses
        then (Some (RuntimeValue ''finish requires a terminal campaign status''), M, s)
      else if m_state M \<noteq> StateRunning \<and> m_state M \<noteq> StateUncertain
        then (Some (RuntimeValue ''attempt is already terminal or was never started''), M, s)
      else (case machine_append sink t ''campaign_terminal'' (finish_payload status pl) True M s of
              (Some e, r) \<Rightarrow> (Some e, r)
            | (None, M', s') \<Rightarrow> (None, M'\<lparr>m_state := StateTerminal, m_status := status\<rparr>, s')))"

definition resume_kind :: "interruption option \<Rightarrow> machine \<Rightarrow> interruption" where
  "resume_kind kind M = (case kind of
       Some k \<Rightarrow> k
     | None \<Rightarrow> (case m_interruption M of Some k \<Rightarrow> k | None \<Rightarrow> WorkerRestart))"

definition resume ::
    "'s event_sink \<Rightarrow> tick \<Rightarrow> interruption option \<Rightarrow> machine \<Rightarrow> 's
       \<Rightarrow> runtime_error option \<times> machine \<times> 's" where
  "resume sink t kind M s =
     (if m_state M \<noteq> StateUncertain
        then (Some (RuntimeValue (if m_state M = StateTerminal
                then ''attempt is terminal and cannot resume''
                else ''only an uncertain attempt can resume'')), M, s)
      else if action_for (m_policy M) (resume_kind kind M) \<noteq> ResumeSameAttempt
        then (Some (RuntimeValue (''resume blocked by policy for '' @
                interruption_value (resume_kind kind M))), M, s)
      else start_unchecked sink t [(''resumed'', JBool True), (''same_attempt_id'', JBool True)] M s)"

section \<open>Restoring a machine from its events\<close>

definition selects :: "string \<Rightarrow> string \<Rightarrow> event_log \<Rightarrow> bool" where
  "selects campaign attempt ev = (ev_campaign_id ev = campaign \<and> ev_attempt_id ev = attempt)"

definition payload_get :: "event_log \<Rightarrow> string \<Rightarrow> json option" where
  "payload_get ev k = (case payload ev of JObj d \<Rightarrow> dict_get d k | _ \<Rightarrow> None)"

definition observe_clock :: "event_log \<Rightarrow> machine \<Rightarrow> machine" where
  "observe_clock ev M = (case monotonic_seconds ev of
       None \<Rightarrow> M | Some now \<Rightarrow> M\<lparr>m_last := max (m_last M) now\<rparr>)"

definition restore_event :: "event_log \<Rightarrow> machine \<Rightarrow> runtime_error + machine" where
  "restore_event ev M0 = (let M = observe_clock ev M0 in
     if event_type ev = ''campaign_started'' then
       (if m_state M \<noteq> StatePlanned \<and> m_state M \<noteq> StateUncertain
          then Inl (RuntimeValue ''invalid campaign_started lifecycle'')
        else Inr (M\<lparr>m_state := StateRunning, m_status := CampaignRunning\<rparr>))
     else if event_type ev = ''attempt_uncertain'' then
       (if m_state M \<noteq> StateRunning then Inl (RuntimeValue ''invalid attempt_uncertain lifecycle'')
        else (case Option.bind (payload_get ev ''interruption'') interruption_of of
                None \<Rightarrow> Inl (RuntimeValue ''uncertain event has invalid interruption kind'')
              | Some k \<Rightarrow> Inr (M\<lparr>m_state := StateUncertain, m_interruption := Some k\<rparr>)))
     else if event_type ev = ''campaign_terminal'' then
       (if m_state M \<noteq> StateRunning \<and> m_state M \<noteq> StateUncertain
          then Inl (RuntimeValue ''invalid campaign_terminal lifecycle'')
        else (case Option.bind (payload_get ev ''status'') campaign_status_of of
                None \<Rightarrow> Inl (RuntimeValue ''terminal event has invalid campaign status'')
              | Some status \<Rightarrow> Inr (M\<lparr>m_state := StateTerminal, m_status := status\<rparr>)))
     else Inr M)"

fun restore_events :: "event_log list \<Rightarrow> machine \<Rightarrow> runtime_error + machine" where
  "restore_events [] M = Inr M"
| "restore_events (ev # evs) M = bind_result (restore_event ev M) (restore_events evs)"

definition restore_machine ::
    "string \<Rightarrow> string \<Rightarrow> resume_policy \<Rightarrow> event_log list \<Rightarrow> runtime_error + machine" where
  "restore_machine campaign attempt policy evs =
     bind_result (CampaignStateMachine campaign attempt policy) (\<lambda>M.
       let selected = filter (selects campaign attempt) evs in
       if selected = [] then Inl (RuntimeValue ''no events found for campaign attempt'')
       else bind_result (restore_events selected M) (\<lambda>M'.
         if m_state M' = StatePlanned then Inl (RuntimeValue ''campaign attempt has no start event'')
         else Inr M'))"

end
