(* ===== verification/Contracts_Streams.thy ===== *)
theory Contracts_Streams
  imports Contracts_Records
begin

text \<open>
  What an event stream without violations guarantees, stated on positions instead of on the
  running state of the validator: identifiers are unique, nothing of an attempt follows its
  terminal event, and the clock of an attempt never moves backwards.
\<close>

definition valid_stream :: "event_log list \<Rightarrow> bool" where
  "valid_stream evs \<longleftrightarrow> validate_event_log evs = []"

lemma valid_stream_Nil [simp]: "valid_stream []"
  by (simp add: valid_stream_def validate_event_log_def)

lemma valid_stream_snoc:
  "valid_stream (evs @ [ev]) \<longleftrightarrow>
   valid_stream evs \<and> event_violations ev (state_after empty_validation evs) = []"
  by (simp add: valid_stream_def validate_event_log_snoc)

lemma valid_stream_prefix: "valid_stream (xs @ ys) \<Longrightarrow> valid_stream xs"
  by (simp add: valid_stream_def validate_event_log_def validate_from_append)

definition well_formed_event :: "event_log \<Rightarrow> bool" where
  "well_formed_event ev \<longleftrightarrow> schema_version ev = 1 \<and> event_id ev \<noteq> [] \<and> event_type ev \<noteq> [] \<and>
     ev_campaign_id ev \<noteq> [] \<and> ev_attempt_id ev \<noteq> [] \<and> ev_timestamp ev \<noteq> [] \<and> is_obj (payload ev) \<and>
     is_obj (missing_field_reasons ev) \<and> (\<forall>d. duration_seconds ev = Some d \<longrightarrow> 0 \<le> d)"

lemma last_monotonic_state_after:
  "dict_get (last_monotonic (state_after st (evs @ [ev]))) a =
     (if ev_attempt_id ev = a \<and> monotonic_seconds ev \<noteq> None then monotonic_seconds ev
      else dict_get (last_monotonic (state_after st evs)) a)"
  by (auto simp: state_after_append after_event_def split: option.split)

lemma event_violations_Nil:
  "event_violations ev st = [] \<longleftrightarrow> well_formed_event ev \<and> event_id ev \<notin> set (seen_events st) \<and>
     ev_attempt_id ev \<notin> set (terminal_attempts st) \<and>
     (\<forall>now previous. monotonic_seconds ev = Some now \<longrightarrow>
        dict_get (last_monotonic st) (ev_attempt_id ev) = Some previous \<longrightarrow> previous \<le> now)"
  by (auto simp: event_violations_def well_formed_event_def not_less split: if_splits option.split)

lemma valid_stream_snoc_iff:
  "valid_stream (evs @ [ev]) \<longleftrightarrow> valid_stream evs \<and> well_formed_event ev \<and>
     event_id ev \<notin> event_id ` set evs \<and>
     (\<forall>old \<in> set evs. terminal old \<longrightarrow> ev_attempt_id old \<noteq> ev_attempt_id ev) \<and>
     (\<forall>now previous. monotonic_seconds ev = Some now \<longrightarrow>
        dict_get (last_monotonic (state_after empty_validation evs)) (ev_attempt_id ev) = Some previous \<longrightarrow>
        previous \<le> now)"
  by (auto simp: valid_stream_snoc event_violations_Nil seen_events_state_after
      terminal_attempts_state_after empty_validation_def image_iff)

definition clocks_sorted :: "event_log list \<Rightarrow> bool" where
  "clocks_sorted evs = sorted_wrt (\<lambda>x y. ev_attempt_id x = ev_attempt_id y \<longrightarrow>
     (\<forall>s t. monotonic_seconds x = Some s \<longrightarrow> monotonic_seconds y = Some t \<longrightarrow> s \<le> t)) evs"

definition terminal_last :: "event_log list \<Rightarrow> bool" where
  "terminal_last evs = sorted_wrt (\<lambda>x y. terminal x \<longrightarrow> ev_attempt_id x \<noteq> ev_attempt_id y) evs"

text \<open>The clock the validator remembers bounds every earlier reading of the attempt.\<close>

lemma valid_stream_clock_bound:
  "valid_stream evs \<Longrightarrow> ev \<in> set evs \<Longrightarrow> monotonic_seconds ev = Some s \<Longrightarrow>
   \<exists>t. dict_get (last_monotonic (state_after empty_validation evs)) (ev_attempt_id ev) = Some t \<and> s \<le> t"
proof (induction evs rule: rev_induct)
  case Nil
  then show ?case by simp
next
  case (snoc new evs)
  show ?case
  proof (cases "ev = new")
    case True
    with snoc.prems show ?thesis by (simp add: last_monotonic_state_after)
  next
    case False
    with snoc.prems snoc.IH obtain t where
      t: "dict_get (last_monotonic (state_after empty_validation evs)) (ev_attempt_id ev) = Some t" "s \<le> t"
      by (auto simp: valid_stream_snoc_iff)
    show ?thesis
    proof (cases "monotonic_seconds new")
      case None
      with t show ?thesis by (simp add: last_monotonic_state_after)
    next
      case (Some now)
      with snoc.prems(1) t(1) have "ev_attempt_id new = ev_attempt_id ev \<Longrightarrow> t \<le> now"
        by (auto simp: valid_stream_snoc_iff)
      with t Some show ?thesis by (auto simp: last_monotonic_state_after)
    qed
  qed
qed

theorem valid_stream_meaning:
  "valid_stream evs \<Longrightarrow> distinct (map event_id evs) \<and> list_all well_formed_event evs \<and>
     terminal_last evs \<and> clocks_sorted evs"
proof (induction evs rule: rev_induct)
  case Nil
  then show ?case by (simp add: terminal_last_def clocks_sorted_def)
next
  case (snoc ev evs)
  then have valid: "valid_stream evs" by (simp add: valid_stream_snoc_iff)
  have "s \<le> t" if "old \<in> set evs" "ev_attempt_id old = ev_attempt_id ev"
      "monotonic_seconds old = Some s" "monotonic_seconds ev = Some t" for old s t
    using valid_stream_clock_bound [OF valid that(1,3)] snoc.prems that(2,4)
    by (fastforce simp: valid_stream_snoc_iff)
  with snoc.IH [OF valid] snoc.prems show ?case
    by (auto simp: valid_stream_snoc_iff terminal_last_def clocks_sorted_def sorted_wrt_append)
qed

text \<open>The converse: the validator rejects nothing else.\<close>

lemma last_monotonic_recorded:
  "dict_get (last_monotonic (state_after empty_validation evs)) a = Some t \<Longrightarrow>
   \<exists>ev \<in> set evs. ev_attempt_id ev = a \<and> monotonic_seconds ev = Some t"
proof (induction evs rule: rev_induct)
  case Nil
  then show ?case by (simp add: empty_validation_def)
next
  case (snoc ev evs)
  then show ?case by (auto simp: last_monotonic_state_after split: if_splits)
qed

theorem valid_stream_complete:
  "distinct (map event_id evs) \<Longrightarrow> list_all well_formed_event evs \<Longrightarrow> terminal_last evs \<Longrightarrow>
   clocks_sorted evs \<Longrightarrow> valid_stream evs"
proof (induction evs rule: rev_induct)
  case Nil
  then show ?case by simp
next
  case (snoc ev evs)
  have "previous \<le> now" if "monotonic_seconds ev = Some now"
      "dict_get (last_monotonic (state_after empty_validation evs)) (ev_attempt_id ev) = Some previous" for now previous
    using last_monotonic_recorded [OF that(2)] snoc.prems(4) that(1)
    by (fastforce simp: clocks_sorted_def sorted_wrt_append)
  with snoc show ?case
    by (auto simp: valid_stream_snoc_iff terminal_last_def clocks_sorted_def sorted_wrt_append)
qed

section \<open>Reading a status record back\<close>

lemma enum_of_JNull: "enum_of f xs JNull = None"
  by (simp add: enum_of_def)

lemma serialized_fields:
  "campaign_status_of (jget (serialize_statuses c s r a) ''campaign_status'') = Some c"
  "search_status_of (jget (serialize_statuses c s r a) ''search_status'') = s"
  "replay_status_of (jget (serialize_statuses c s r a) ''replay_status'') = r"
  "adjudication_status_of (jget (serialize_statuses c s r a) ''adjudication_status'') = a"
  by (simp_all add: serialize_statuses_def status_json_def campaign_status_of_def search_status_of_def
      replay_status_of_def adjudication_status_of_def enum_of_JNull campaign.enum_of_value
      search.enum_of_value replay.enum_of_value adjudication.enum_of_value split: option.split)

end
