(* ===== verification/Runtime_Lifecycle.thy ===== *)
theory Runtime_Lifecycle
  imports Runtime_Events Contracts_Streams
begin

text \<open>
  The contract between the state machine and a store, discharged for the in-memory and the
  persistent store, and what the machine guarantees over any store of the contract: the stream
  stays valid, the machine can be restored from it, and a terminal attempt stays terminal.
\<close>

section \<open>The contract of a store\<close>

locale sink_contract =
  fixes sink :: "'s event_sink" and events_of :: "'s \<Rightarrow> event_log list" and sink_ok :: "'s \<Rightarrow> bool"
  assumes keeps_ok: "sink_ok s \<Longrightarrow> sink ev s = (e, s') \<Longrightarrow> sink_ok s'"
    and accepts: "sink_ok s \<Longrightarrow> sink ev s = (None, s') \<Longrightarrow> events_of s' = events_of s @ [ev]"
    and refuses: "sink_ok s \<Longrightarrow> sink ev s = (Some err, s') \<Longrightarrow> events_of s' = events_of s"
    and valid: "sink_ok s \<Longrightarrow> valid_stream (events_of s)"
begin

lemma sink_cases:
  assumes "sink_ok s" "sink ev s = (e, s')"
  shows "sink_ok s' \<and> events_of s' = events_of s @ (if e = None then [ev] else [])"
  using assms keeps_ok accepts refuses by (cases e) auto

lemma accepted_fresh:
  assumes "sink_ok s" "sink ev s = (None, s')"
  shows "well_formed_event ev \<and> event_id ev \<notin> event_id ` set (events_of s) \<and>
    (\<forall>old \<in> set (events_of s). terminal old \<longrightarrow> ev_attempt_id old \<noteq> ev_attempt_id ev)"
  using valid [OF keeps_ok [OF assms]] accepts [OF assms] by (simp add: valid_stream_snoc_iff)

end

section \<open>The two stores\<close>

definition store_ok :: "event_store \<Rightarrow> bool" where
  "store_ok st \<longleftrightarrow> valid_stream (store_events st) \<and>
     set (event_ids st) = event_id ` set (store_events st) \<and>
     set (store_terminal st) = ev_attempt_id ` {ev \<in> set (store_events st). terminal ev}"

lemma empty_store_ok: "store_ok empty_store"
  by (simp add: store_ok_def empty_store_def)

lemma commit_ok: "store_ok st \<Longrightarrow> valid_stream (store_events st @ [ev]) \<Longrightarrow> store_ok (commit ev st)"
  by (auto simp: store_ok_def commit_def)

lemma store_events_commit [simp]: "store_events (commit ev st) = store_events st @ [ev]"
  by (simp add: commit_def)

lemma check_append_None:
  "store_ok st \<Longrightarrow> check_append ev st = None \<longleftrightarrow> valid_stream (store_events st @ [ev])"
proof -
  assume st: "store_ok st"
  have "check_append ev st = None \<longleftrightarrow> event_id ev \<notin> set (event_ids st) \<and>
      \<not> (terminal ev \<and> ev_attempt_id ev \<in> set (store_terminal st)) \<and> valid_stream (store_events st @ [ev])"
    by (simp add: check_append_def valid_stream_def split: list.split)
  moreover have "event_id ev \<notin> set (event_ids st) \<and> ev_attempt_id ev \<notin> set (store_terminal st)"
    if "valid_stream (store_events st @ [ev])"
    using that st by (auto simp: valid_stream_snoc_iff store_ok_def)
  ultimately show ?thesis by blast
qed

interpretation memory_sink: sink_contract store_append store_events store_ok
proof
  fix s s' ev e
  assume s: "store_ok s"
  { assume "store_append ev s = (e, s')"
    with s show "store_ok s'"
      by (auto simp: store_append_def check_append_None commit_ok split: option.splits) }
  { assume "store_append ev s = (None, s')"
    with s show "store_events s' = store_events s @ [ev]"
      by (auto simp: store_append_def commit_def split: option.splits) }
  { fix e assume "store_append ev s = (Some e, s')"
    with s show "store_events s' = store_events s"
      by (auto simp: store_append_def split: option.splits) }
  show "valid_stream (store_events s)" using s by (simp add: store_ok_def)
qed

text \<open>The file holds exactly the events in memory; it is missing only while there are none.\<close>

definition persistent_ok :: "persistent_store \<Rightarrow> bool" where
  "persistent_ok ps \<longleftrightarrow> store_ok (memory ps) \<and>
     (disk_file ps = Some (store_events (memory ps)) \<or>
      disk_file ps = None \<and> store_events (memory ps) = [])"

interpretation persistent_sink: sink_contract persistent_append "\<lambda>ps. store_events (memory ps)" persistent_ok
proof
  fix s s' ev e
  assume s: "persistent_ok s"
  then have st: "store_ok (memory s)" by (simp add: persistent_ok_def)
  { assume "persistent_append ev s = (e, s')"
    with s st show "persistent_ok s'"
      by (auto simp: persistent_append_def check_append_None commit_ok persistent_ok_def
          write_jsonl_atomic_def split: option.splits if_splits) }
  { assume "persistent_append ev s = (None, s')"
    with s show "store_events (memory s') = store_events (memory s) @ [ev]"
      by (auto simp: persistent_append_def commit_def write_jsonl_atomic_def split: option.splits if_splits) }
  { fix e assume "persistent_append ev s = (Some e, s')"
    with s show "store_events (memory s') = store_events (memory s)"
      by (auto simp: persistent_append_def write_jsonl_atomic_def split: option.splits if_splits) }
  show "valid_stream (store_events (memory s))" using st by (simp add: store_ok_def)
qed

text \<open>Loading a stream succeeds exactly when the stream is valid, and keeps it.\<close>

lemma append_all_ok:
  "store_ok st \<Longrightarrow> valid_stream (store_events st @ evs) \<Longrightarrow>
   \<exists>st'. append_all evs st = Inr st' \<and> store_ok st' \<and> store_events st' = store_events st @ evs"
proof (induction evs arbitrary: st)
  case Nil
  then show ?case by simp
next
  case (Cons ev evs)
  from Cons.prems(2) have "valid_stream (store_events st @ [ev])"
    using valid_stream_prefix [of "store_events st @ [ev]" evs] by simp
  with Cons.prems(1) have "store_append ev st = (None, commit ev st)" "store_ok (commit ev st)"
    using check_append_None [of st ev] by (simp_all add: store_append_def commit_ok)
  with Cons.IH [of "commit ev st"] Cons.prems(2) show ?case by (simp add: commit_def)
qed

lemma append_all_Inr:
  "append_all evs st = Inr st' \<Longrightarrow> store_ok st \<Longrightarrow>
   store_ok st' \<and> store_events st' = store_events st @ evs"
proof (induction evs arbitrary: st)
  case Nil
  then show ?case by simp
next
  case (Cons ev evs)
  then obtain st1 where st1: "store_append ev st = (None, st1)" "append_all evs st1 = Inr st'"
    by (auto split: prod.splits option.splits)
  with memory_sink.sink_cases [OF Cons.prems(2) st1(1)] Cons.IH show ?case by fastforce
qed

lemma AppendOnlyEventStore_iff:
  "(\<exists>st. AppendOnlyEventStore evs = Inr st) \<longleftrightarrow> valid_stream evs"
  "AppendOnlyEventStore evs = Inr st \<Longrightarrow> store_events st = evs \<and> store_ok st"
  using append_all_ok [OF empty_store_ok, of evs] append_all_Inr [OF _ empty_store_ok, of evs]
  by (auto simp: AppendOnlyEventStore_def empty_store_def store_ok_def)

lemma PersistentEventStore_ok:
  "PersistentEventStore content oracle = Inr ps \<Longrightarrow> persistent_ok ps \<and>
     store_events (memory ps) = (case content of None \<Rightarrow> [] | Some evs \<Rightarrow> evs)"
  using append_all_Inr [OF _ empty_store_ok]
  by (auto simp: PersistentEventStore_def AppendOnlyEventStore_def result_simps persistent_ok_def
      split: option.splits) (auto simp: empty_store_def)

section \<open>Runs of the machine over a store\<close>

text \<open>
  A step is an operation of the machine, whether it raises or not, or an append by another user
  of the store, of an event that is not a lifecycle event of this attempt. The payload of
  \<^verbatim>\<open>finish\<close> is one without a \<^verbatim>\<open>status\<close> key of its own.
\<close>

definition lifecycle_types :: "string list" where
  "lifecycle_types = [''campaign_started'', ''attempt_uncertain'', ''campaign_terminal'']"

inductive machine_step :: "'s event_sink \<Rightarrow> machine \<times> 's \<Rightarrow> machine \<times> 's \<Rightarrow> bool" for sink where
  start: "start sink t pl M s = (e, M', s') \<Longrightarrow> machine_step sink (M, s) (M', s')"
| uncertain: "mark_uncertain sink t reason kind M s = (e, M', s') \<Longrightarrow> machine_step sink (M, s) (M', s')"
| finish: "finish sink t status pl M s = (e, M', s') \<Longrightarrow> ''status'' \<notin> set (dict_keys pl) \<Longrightarrow>
    machine_step sink (M, s) (M', s')"
| resume: "resume sink t k M s = (e, M', s') \<Longrightarrow> machine_step sink (M, s) (M', s')"
| other: "sink ev s = (e, s') \<Longrightarrow>
    \<not> selects (m_campaign M) (m_attempt M) ev \<or> event_type ev \<notin> set lifecycle_types \<Longrightarrow>
    machine_step sink (M, s) (M, s')"

text \<open>Two machines that differ at most in the last clock reading.\<close>

definition agree :: "machine \<Rightarrow> machine \<Rightarrow> bool" where
  "agree M M' \<longleftrightarrow> M' = M\<lparr>m_last := m_last M'\<rparr>"

definition fresh_machine :: "machine \<Rightarrow> machine" where
  "fresh_machine M = M\<lparr>m_state := StatePlanned, m_status := CampaignPlanned, m_last := -1,
     m_interruption := None\<rparr>"

definition own_events :: "machine \<Rightarrow> event_log list \<Rightarrow> event_log list" where
  "own_events M evs = filter (selects (m_campaign M) (m_attempt M)) evs"

text \<open>Replaying the attempt's events from a new machine gives the current one.\<close>

definition recorded :: "machine \<Rightarrow> event_log list \<Rightarrow> bool" where
  "recorded M evs \<longleftrightarrow> (\<exists>M'. restore_events (own_events M evs) (fresh_machine M) = Inr M' \<and> agree M M')"

lemma restore_events_append:
  "restore_events (xs @ ys) M = bind_result (restore_events xs M) (restore_events ys)"
  by (induction xs arbitrary: M) (simp_all add: bind_result_def split: sum.split)

lemma agree_iff:
  "agree M M' \<longleftrightarrow> m_campaign M' = m_campaign M \<and> m_attempt M' = m_attempt M \<and>
     m_policy M' = m_policy M \<and> m_state M' = m_state M \<and> m_status M' = m_status M \<and>
     m_interruption M' = m_interruption M"
  by (cases M; cases M') (auto simp: agree_def)

lemma observe_clock_fields [simp]:
  "m_campaign (observe_clock ev M) = m_campaign M" "m_attempt (observe_clock ev M) = m_attempt M"
  "m_policy (observe_clock ev M) = m_policy M" "m_state (observe_clock ev M) = m_state M"
  "m_status (observe_clock ev M) = m_status M" "m_interruption (observe_clock ev M) = m_interruption M"
  by (simp_all add: observe_clock_def split: option.split)

lemma fresh_machine_cong:
  "m_campaign M' = m_campaign M \<Longrightarrow> m_attempt M' = m_attempt M \<Longrightarrow> m_policy M' = m_policy M \<Longrightarrow>
   fresh_machine M' = fresh_machine M \<and> own_events M' evs = own_events M evs"
  by (cases M; cases M') (simp add: fresh_machine_def own_events_def)

lemma recorded_other:
  assumes "recorded M evs"
    and "\<not> selects (m_campaign M) (m_attempt M) ev \<or> event_type ev \<notin> set lifecycle_types"
  shows "recorded M (evs @ [ev])"
proof (cases "selects (m_campaign M) (m_attempt M) ev")
  case False
  with assms(1) show ?thesis by (simp add: recorded_def own_events_def)
next
  case True
  with assms(2) have "restore_event ev M' = Inr (observe_clock ev M')" for M'
    by (simp add: restore_event_def lifecycle_types_def Let_def)
  with True assms(1) show ?thesis
    by (auto simp: recorded_def own_events_def restore_events_append agree_iff)
qed

lemma recorded_own:
  assumes "recorded M evs" "selects (m_campaign M) (m_attempt M) ev"
    and "m_campaign M1 = m_campaign M" "m_attempt M1 = m_attempt M" "m_policy M1 = m_policy M"
    and "\<And>M'. agree M M' \<Longrightarrow> \<exists>M''. restore_event ev M' = Inr M'' \<and> agree M1 M''"
  shows "recorded M1 (evs @ [ev])"
proof -
  from assms(1) obtain M' where M': "restore_events (own_events M evs) (fresh_machine M) = Inr M'" "agree M M'"
    by (auto simp: recorded_def)
  from assms(6) [OF M'(2)] obtain M'' where "restore_event ev M' = Inr M''" "agree M1 M''" by blast
  moreover have "own_events M1 (evs @ [ev]) = own_events M evs @ [ev]"
    using assms(2-4) by (simp add: own_events_def)
  ultimately show ?thesis
    using M'(1) fresh_machine_cong [OF assms(3-5)] by (simp add: recorded_def restore_events_append)
qed

lemma selects_lifecycle_event: "selects (m_campaign M) (m_attempt M) (lifecycle_event M t kind pl b)"
  by (simp add: selects_def lifecycle_event_def)

lemma finish_payload_status:
  "''status'' \<notin> set (dict_keys pl) \<Longrightarrow>
   dict_get (finish_payload status pl) ''status'' = Some (JStr (campaign_status_value status))"
proof -
  have "dict_get (foldl (\<lambda>d (k, v). dict_put k v d) d pl) ''status'' = dict_get d ''status''"
    if "''status'' \<notin> set (dict_keys pl)" for d :: "json dict"
    using that by (induction pl arbitrary: d) auto
  then show "''status'' \<notin> set (dict_keys pl) \<Longrightarrow> ?thesis" by (simp add: finish_payload_def)
qed

text \<open>What replaying a lifecycle event does to a machine that agrees.\<close>

lemma restore_lifecycle_event:
  "restore_event (lifecycle_event M t ''campaign_started'' pl False) M' =
     (if m_state M' \<noteq> StatePlanned \<and> m_state M' \<noteq> StateUncertain
        then Inl (RuntimeValue ''invalid campaign_started lifecycle'')
      else Inr (M'\<lparr>m_last := max (m_last M') (tick_clock t), m_state := StateRunning, m_status := CampaignRunning\<rparr>))"
  "restore_event (lifecycle_event M t ''attempt_uncertain''
       [(''reason'', r), (''interruption'', JStr (interruption_value k))] False) M' =
     (if m_state M' \<noteq> StateRunning then Inl (RuntimeValue ''invalid attempt_uncertain lifecycle'')
      else Inr (M'\<lparr>m_last := max (m_last M') (tick_clock t), m_state := StateUncertain, m_interruption := Some k\<rparr>))"
  "''status'' \<notin> set (dict_keys pl) \<Longrightarrow>
   restore_event (lifecycle_event M t ''campaign_terminal'' (finish_payload status pl) True) M' =
     (if m_state M' \<noteq> StateRunning \<and> m_state M' \<noteq> StateUncertain
        then Inl (RuntimeValue ''invalid campaign_terminal lifecycle'')
      else Inr (M'\<lparr>m_last := max (m_last M') (tick_clock t), m_state := StateTerminal, m_status := status\<rparr>))"
  by (simp_all add: restore_event_def lifecycle_event_def observe_clock_def payload_get_def Let_def
      finish_payload_status campaign_status_of_def campaign.enum_of_value)

text \<open>A machine operation that reaches the store: what it returns from a result of the store.\<close>

lemma machine_append_cases:
  assumes "machine_append sink t kind pl b M s = (e, M', s')"
  obtains "e = Some (RuntimeValue ''runtime clock moved backwards'')" "M' = M" "s' = s"
  | "sink (lifecycle_event M t kind pl b) s = (e, s')" "M' = M\<lparr>m_last := tick_clock t\<rparr>"
proof (cases "tick_clock t < m_last M")
  case True
  with assms that(1) show thesis by (simp add: machine_append_def)
next
  case False
  with assms that(2) show thesis
    by (cases "sink (lifecycle_event M t kind pl b) s") (simp add: machine_append_def)
qed

context sink_contract
begin

abbreviation run_ok :: "machine \<Rightarrow> 's \<Rightarrow> bool" where
  "run_ok M s \<equiv> sink_ok s \<and> recorded M (events_of s)"

lemma machine_append_run:
  assumes "run_ok M s" "machine_append sink t kind pl b M s = (e, M', s')"
    and "\<And>M0. agree M M0 \<Longrightarrow> \<exists>M2. restore_event (lifecycle_event M t kind pl b) M0 = Inr M2 \<and> agree (f M') M2"
    and "m_campaign (f M') = m_campaign M'" "m_attempt (f M') = m_attempt M'" "m_policy (f M') = m_policy M'"
  shows "if e = None then run_ok (f M') s' else run_ok M' s'"
  using assms(2)
proof (cases rule: machine_append_cases)
  case 1
  with assms(1) show ?thesis by simp
next
  case 2
  note s' = sink_cases [OF conjunct1 [OF assms(1)] 2(1)]
  have fields: "m_campaign (f M') = m_campaign M" "m_attempt (f M') = m_attempt M" "m_policy (f M') = m_policy M"
    using assms(4-6) 2(2) by simp_all
  show ?thesis
  proof (cases e)
    case None
    from recorded_own [OF conjunct2 [OF assms(1)] selects_lifecycle_event fields assms(3)] s' None
    show ?thesis by simp
  next
    case (Some err)
    have "agree M' M0 \<longleftrightarrow> agree M M0" for M0 using 2(2) by (simp add: agree_iff)
    moreover have "fresh_machine M' = fresh_machine M \<and> own_events M' evs = own_events M evs" for evs
      using fresh_machine_cong [of M' M evs] 2(2) by simp
    ultimately have "recorded M' evs \<longleftrightarrow> recorded M evs" for evs by (simp add: recorded_def)
    with s' Some assms(1) show ?thesis by simp
  qed
qed

lemma start_unchecked_run:
  assumes "run_ok M s" "start_unchecked sink t pl M s = (e, M', s')"
    and "m_state M = StatePlanned \<or> m_state M = StateUncertain"
  shows "run_ok M' s'"
proof -
  obtain e1 M1 s1 where a: "machine_append sink t ''campaign_started'' pl False M s = (e1, M1, s1)"
    by (metis prod_cases3)
  let ?f = "\<lambda>M. M\<lparr>m_state := StateRunning, m_status := CampaignRunning\<rparr>"
  have M1: "m_campaign M1 = m_campaign M \<and> m_attempt M1 = m_attempt M \<and> m_policy M1 = m_policy M \<and>
      m_interruption M1 = m_interruption M"
    using a by (cases rule: machine_append_cases) auto
  have "if e1 = None then run_ok (?f M1) s1 else run_ok M1 s1"
    by (rule machine_append_run [OF assms(1) a])
       (use assms(3) M1 in \<open>auto simp: restore_lifecycle_event agree_iff\<close>)
  with a assms(2) show ?thesis by (cases e1) (auto simp: start_unchecked_def)
qed

lemma mark_uncertain_run:
  assumes "run_ok M s" "mark_uncertain sink t reason kind M s = (e, M', s')"
  shows "run_ok M' s'"
proof (cases "m_state M = StateRunning \<and> reason \<noteq> ''''")
  case False
  with assms show ?thesis by (auto simp: mark_uncertain_def split: if_splits)
next
  case True
  let ?pl = "[(''reason'', JStr reason), (''interruption'', JStr (interruption_value kind))]"
  obtain e1 M1 s1 where a: "machine_append sink t ''attempt_uncertain'' ?pl False M s = (e1, M1, s1)"
    by (metis prod_cases3)
  let ?f = "\<lambda>M. M\<lparr>m_state := StateUncertain, m_interruption := Some kind\<rparr>"
  have M1: "m_campaign M1 = m_campaign M \<and> m_attempt M1 = m_attempt M \<and> m_policy M1 = m_policy M \<and>
      m_status M1 = m_status M"
    using a by (cases rule: machine_append_cases) auto
  have "if e1 = None then run_ok (?f M1) s1 else run_ok M1 s1"
    by (rule machine_append_run [OF assms(1) a])
       (use True M1 in \<open>auto simp: restore_lifecycle_event agree_iff\<close>)
  with a True assms(2) show ?thesis by (cases e1) (auto simp: mark_uncertain_def)
qed

lemma finish_run:
  assumes "run_ok M s" "finish sink t status pl M s = (e, M', s')" "''status'' \<notin> set (dict_keys pl)"
  shows "run_ok M' s'"
proof (cases "status \<in> set terminal_statuses \<and> (m_state M = StateRunning \<or> m_state M = StateUncertain)")
  case False
  with assms show ?thesis by (auto simp: finish_def split: if_splits)
next
  case True
  obtain e1 M1 s1 where a: "machine_append sink t ''campaign_terminal'' (finish_payload status pl) True M s = (e1, M1, s1)"
    by (metis prod_cases3)
  let ?f = "\<lambda>M. M\<lparr>m_state := StateTerminal, m_status := status\<rparr>"
  have M1: "m_campaign M1 = m_campaign M \<and> m_attempt M1 = m_attempt M \<and> m_policy M1 = m_policy M \<and>
      m_interruption M1 = m_interruption M"
    using a by (cases rule: machine_append_cases) auto
  have "if e1 = None then run_ok (?f M1) s1 else run_ok M1 s1"
    by (rule machine_append_run [OF assms(1) a])
       (use True M1 assms(3) in \<open>auto simp: restore_lifecycle_event(3) agree_iff\<close>)
  with a True assms(2) show ?thesis by (cases e1) (auto simp: finish_def)
qed

lemma resume_run:
  assumes "run_ok M s" "resume sink t k M s = (e, M', s')"
  shows "run_ok M' s'"
proof (cases "m_state M = StateUncertain \<and> action_for (m_policy M) (resume_kind k M) = ResumeSameAttempt")
  case False
  with assms show ?thesis by (auto simp: resume_def split: if_splits)
next
  case True
  with assms have "start_unchecked sink t [(''resumed'', JBool True), (''same_attempt_id'', JBool True)] M s = (e, M', s')"
    by (simp add: resume_def)
  with start_unchecked_run [OF assms(1)] True show ?thesis by blast
qed

theorem machine_step_run:
  assumes "machine_step sink (M, s) (M', s')" "run_ok M s"
  shows "run_ok M' s'"
  using assms(1)
proof (cases rule: machine_step.cases)
  case (start t pl e)
  then show ?thesis
    using assms(2) start_unchecked_run [OF assms(2), of t pl e M' s']
    by (cases "m_state M = StatePlanned") (simp_all add: start_def)
next
  case (uncertain t reason kind e)
  with assms(2) show ?thesis by (rule mark_uncertain_run)
next
  case (finish t status pl e)
  from finish_run [OF assms(2) finish(1,2)] show ?thesis .
next
  case (resume t k e)
  with assms(2) show ?thesis by (rule resume_run)
next
  case (other ev e)
  with assms(2) sink_cases [of s ev e s'] recorded_other [of M "events_of s" ev] show ?thesis
    by (cases e) simp_all
qed

end

section \<open>Consequences for a run\<close>

text \<open>A terminal machine refuses every operation and nothing changes.\<close>

lemma terminal_refuses:
  assumes "m_state M = StateTerminal"
  shows "\<exists>msg. start sink t pl M s = (Some (RuntimeValue msg), M, s)"
    and "\<exists>msg. mark_uncertain sink t reason kind M s = (Some (RuntimeValue msg), M, s)"
    and "\<exists>msg. finish sink t status pl M s = (Some (RuntimeValue msg), M, s)"
    and "\<exists>msg. resume sink t k M s = (Some (RuntimeValue msg), M, s)"
  using assms by (simp_all add: start_def mark_uncertain_def finish_def resume_def)

text \<open>After version drift no policy lets the attempt resume.\<close>

lemma version_drift_blocks:
  assumes "ResumePolicy (m_policy M) = Inr p" "resume_kind k M = VersionDrift"
  shows "\<exists>msg. resume sink t k M s = (Some (RuntimeValue msg), M, s)"
  using assms by (auto simp: ResumePolicy_def resume_def split: if_splits)

lemma machine_step_policy:
  "machine_step sink x y \<Longrightarrow> m_policy (fst y) = m_policy (fst x) \<and>
     m_campaign (fst y) = m_campaign (fst x) \<and> m_attempt (fst y) = m_attempt (fst x)"
proof (induction rule: machine_step.induct)
  case (start t pl M s e M' s')
  then show ?case
    by (auto simp: start_def start_unchecked_def machine_append_def split: if_splits prod.splits option.splits)
next
  case (uncertain t reason kind M s e M' s')
  then show ?case
    by (auto simp: mark_uncertain_def machine_append_def split: if_splits prod.splits option.splits)
next
  case (finish t status pl M s e M' s')
  then show ?case
    by (auto simp: finish_def machine_append_def split: if_splits prod.splits option.splits)
next
  case (resume t k M s e M' s')
  then show ?case
    by (auto simp: resume_def start_unchecked_def machine_append_def split: if_splits prod.splits option.splits)
qed simp

lemma recorded_restore:
  assumes "recorded M evs" "m_campaign M \<noteq> ''''" "m_attempt M \<noteq> ''''" "m_state M \<noteq> StatePlanned"
  shows "\<exists>M'. restore_machine (m_campaign M) (m_attempt M) (m_policy M) evs = Inr M' \<and> agree M M'"
proof -
  from assms(1) obtain M' where M': "restore_events (own_events M evs) (fresh_machine M) = Inr M'" "agree M M'"
    by (auto simp: recorded_def)
  have "CampaignStateMachine (m_campaign M) (m_attempt M) (m_policy M) = Inr (fresh_machine M)"
    using assms(2,3) by (cases M) (simp add: CampaignStateMachine_def fresh_machine_def)
  moreover have "own_events M evs \<noteq> []"
  proof
    assume "own_events M evs = []"
    with M' assms(4) show False by (auto simp: fresh_machine_def agree_iff)
  qed
  moreover have "m_state M' \<noteq> StatePlanned" using M'(2) assms(4) by (simp add: agree_iff)
  ultimately show ?thesis
    using M' by (simp add: restore_machine_def own_events_def)
qed

lemma recorded_fresh:
  assumes "CampaignStateMachine c a p = Inr M" "filter (selects c a) evs = []"
  shows "recorded M evs"
  using assms by (auto simp: CampaignStateMachine_def recorded_def own_events_def fresh_machine_def
      agree_iff split: if_splits)

context sink_contract
begin

lemma run_steps:
  "(machine_step sink)\<^sup>*\<^sup>* x y \<Longrightarrow> sink_ok (snd x) \<Longrightarrow> recorded (fst x) (events_of (snd x)) \<Longrightarrow>
   sink_ok (snd y) \<and> recorded (fst y) (events_of (snd y)) \<and> m_policy (fst y) = m_policy (fst x) \<and>
   m_campaign (fst y) = m_campaign (fst x) \<and> m_attempt (fst y) = m_attempt (fst x)"
proof (induction rule: rtranclp_induct)
  case base
  then show ?case by simp
next
  case (step y z)
  then show ?case
    using machine_step_run [of "fst y" "snd y" "fst z" "snd z"] machine_step_policy [OF step.hyps(2)]
    by simp
qed

theorem run_restores:
  assumes "CampaignStateMachine c a p = Inr M0" "sink_ok s0" "filter (selects c a) (events_of s0) = []"
    and "(machine_step sink)\<^sup>*\<^sup>* (M0, s0) (M, s)" and "m_state M \<noteq> StatePlanned"
  shows "\<exists>M'. restore_machine c a p (events_of s) = Inr M' \<and> agree M M'"
    and "valid_stream (events_of s)"
proof -
  have M0: "m_campaign M0 = c" "m_attempt M0 = a" "m_policy M0 = p" "c \<noteq> ''''" "a \<noteq> ''''"
    using assms(1) by (auto simp: CampaignStateMachine_def split: if_splits)
  from run_steps [OF assms(4)] recorded_fresh [OF assms(1,3)] assms(2)
  have M: "sink_ok s" "recorded M (events_of s)" "m_policy M = p" "m_campaign M = c" "m_attempt M = a"
    using M0 by simp_all
  from recorded_restore [OF M(2)] M M0 assms(5)
  show "\<exists>M'. restore_machine c a p (events_of s) = Inr M' \<and> agree M M'" by simp
  from valid [OF M(1)] show "valid_stream (events_of s)" .
qed

end

text \<open>A key of the payload wins over the one the machine wrote first.\<close>

lemma foldl_put_get:
  "distinct (dict_keys kvs) \<Longrightarrow>
   dict_get (foldl (\<lambda>d (k, v). dict_put k v d) d kvs) k' =
     (case dict_get kvs k' of None \<Rightarrow> dict_get d k' | Some v \<Rightarrow> Some v)"
proof (induction kvs arbitrary: d)
  case (Cons kv kvs)
  obtain k v where kv: "kv = (k, v)" by (cases kv)
  with Cons.prems have "dict_get kvs k = None" by (auto simp: map_of_eq_None_iff)
  with kv Cons show ?case by (auto split: option.split)
qed simp

lemma finish_payload_get:
  "distinct (dict_keys pl) \<Longrightarrow> dict_get pl ''status'' = Some v \<Longrightarrow>
   dict_get (finish_payload status pl) ''status'' = Some v"
  by (simp add: finish_payload_def foldl_put_get)

end
