(* ===== verification/Provider_Bytes.thy ===== *)
theory Provider_Bytes
  imports Prelude "HOL-Library.Word"
begin

text \<open>
  Base64 as the archive of provider responses uses it (\<^verbatim>\<open>_encode_bytes\<close> and \<^verbatim>\<open>_decode_bytes\<close> of
  \<^verbatim>\<open>providers/ollama.py\<close>): \<^verbatim>\<open>base64.b64encode\<close>, and \<^verbatim>\<open>base64.b64decode(..., validate=True)\<close>, which
  reads groups of four characters of the alphabet, padding only at the very end.
\<close>

type_synonym bytes = "8 word list"

section \<open>Encoding\<close>

definition base64_alphabet :: string where
  "base64_alphabet = ''ABCDEFGHIJKLMNOPQRSTUVWXYZabcdefghijklmnopqrstuvwxyz0123456789+/''"

definition b64_char :: "nat \<Rightarrow> char" where
  "b64_char n = base64_alphabet ! n"

definition b64_value :: "char \<Rightarrow> nat option" where
  "b64_value c = (let n = of_char c :: nat in
     if 65 \<le> n \<and> n \<le> 90 then Some (n - 65)
     else if 97 \<le> n \<and> n \<le> 122 then Some (n - 71)
     else if 48 \<le> n \<and> n \<le> 57 then Some (n + 4)
     else if n = 43 then Some 62
     else if n = 47 then Some 63
     else None)"

definition b64_pad :: char where
  "b64_pad = CHR ''=''"

fun b64_encode :: "bytes \<Rightarrow> string" where
  "b64_encode [] = []"
| "b64_encode [a] =
     (let n = unat a * 16 in [b64_char (n div 64), b64_char (n mod 64), b64_pad, b64_pad])"
| "b64_encode [a, b] =
     (let n = (unat a * 256 + unat b) * 4
      in [b64_char (n div 4096), b64_char (n div 64 mod 64), b64_char (n mod 64), b64_pad])"
| "b64_encode (a # b # c # rest) =
     (let n = (unat a * 256 + unat b) * 256 + unat c
      in b64_char (n div 262144) # b64_char (n div 4096 mod 64) # b64_char (n div 64 mod 64)
           # b64_char (n mod 64) # b64_encode rest)"

section \<open>Decoding\<close>

text \<open>The bytes of a group of two, three or four digits; surplus low bits are dropped.\<close>

fun b64_bytes :: "nat list \<Rightarrow> bytes" where
  "b64_bytes [p, q] = [of_nat ((p * 64 + q) div 16)]"
| "b64_bytes [p, q, r] =
     (let n = ((p * 64 + q) * 64 + r) div 4 in [of_nat (n div 256), of_nat (n mod 256)])"
| "b64_bytes [p, q, r, s] =
     (let n = ((p * 64 + q) * 64 + r) * 64 + s
      in [of_nat (n div 65536), of_nat (n div 256 mod 256), of_nat (n mod 256)])"
| "b64_bytes _ = []"

definition b64_group :: "string \<Rightarrow> bytes option" where
  "b64_group cs = (let vs = map b64_value cs in if None \<in> set vs then None else Some (b64_bytes (map the vs)))"

fun b64_decode :: "string \<Rightarrow> bytes option" where
  "b64_decode [] = Some []"
| "b64_decode (p # q # r # s # rest) =
     (if rest = [] \<and> s = b64_pad
      then (if r = b64_pad then b64_group [p, q] else b64_group [p, q, r])
      else case b64_group [p, q, r, s] of
             None \<Rightarrow> None
           | Some bs \<Rightarrow> map_option (\<lambda>more. bs @ more) (b64_decode rest))"
| "b64_decode _ = None"

section \<open>Decoding what was encoded\<close>

lemma map_b64_value: "map b64_value base64_alphabet = map Some [0 ..< 64]"
  by (simp add: base64_alphabet_def b64_value_def upt_rec)

lemma length_base64_alphabet: "length base64_alphabet = 64"
  by (simp add: base64_alphabet_def)

lemma b64_value_char [simp]: "n < 64 \<Longrightarrow> b64_value (b64_char n) = Some n"
  using arg_cong [OF map_b64_value, of "\<lambda>xs. xs ! n"]
  by (simp add: b64_char_def length_base64_alphabet)

lemma b64_char_not_pad [simp]: "n < 64 \<Longrightarrow> b64_char n \<noteq> b64_pad"
proof
  assume "n < 64" "b64_char n = b64_pad"
  then have "b64_value b64_pad = Some n" by (metis b64_value_char)
  then show False by (simp add: b64_pad_def b64_value_def)
qed

lemma b64_group_chars:
  "\<forall>n \<in> set ns. n < 64 \<Longrightarrow> b64_group (map b64_char ns) = Some (b64_bytes ns)"
  by (auto simp: b64_group_def comp_def map_idI)

lemma byte_le: "unat (a :: 8 word) \<le> 255"
  using unsigned_less [of a, where ?'a = nat] by simp

lemma byte_lt: "unat (a :: 8 word) < 256"
  using byte_le [of a] by linarith

lemma two_bytes_bound: "a \<le> 255 \<Longrightarrow> b \<le> 255 \<Longrightarrow> (a * 256 + b) * 4 < (262144 :: nat)"
  unfolding add_mult_distrib by linarith

lemma three_bytes_bound:
  "a \<le> 255 \<Longrightarrow> b \<le> 255 \<Longrightarrow> c \<le> 255 \<Longrightarrow> (a * 256 + b) * 256 + c < (16777216 :: nat)"
  unfolding add_mult_distrib by linarith

text \<open>The digits of one, two and three bytes give these bytes back.\<close>

lemma b64_one: "((a * 16 div 64) * 64 + a * 16 mod 64) div 16 = (a :: nat)"
  by (simp only: div_mult_mod_eq)

lemma b64_sextets:
  fixes m :: nat
  shows "(m div 4096 * 64 + m div 64 mod 64) * 64 + m mod 64 = m"
proof -
  have "m div 4096 = m div 64 div 64" by (simp add: div_mult2_eq [symmetric])
  then show ?thesis by (simp only: div_mult_mod_eq)
qed

lemma b64_two:
  fixes m :: nat
  shows "(((m * 4) div 4096 * 64 + (m * 4) div 64 mod 64) * 64 + (m * 4) mod 64) div 4 = m"
  unfolding b64_sextets by simp

lemma b64_three:
  fixes m :: nat
  shows "((m div 262144 * 64 + m div 4096 mod 64) * 64 + m div 64 mod 64) * 64 + m mod 64 = m"
proof -
  have "m div 262144 = m div 4096 div 64" "m div 4096 = m div 64 div 64"
    by (simp_all add: div_mult2_eq [symmetric])
  then show ?thesis by (simp only: div_mult_mod_eq)
qed

lemma bytes_of_two:
  fixes a b :: nat
  assumes "b < 256"
  shows "(a * 256 + b) div 256 = a" "(a * 256 + b) mod 256 = b"
  using assms by simp_all

theorem b64_round_trip: "b64_decode (b64_encode bs) = Some bs"
proof (induction bs rule: b64_encode.induct)
  case 1
  then show ?case by simp
next
  case (2 a)
  let ?n = "unat a * 16"
  have lt: "\<forall>n \<in> set [?n div 64, ?n mod 64]. n < 64" using byte_lt [of a] by simp
  have "b64_decode (b64_encode [a]) = b64_group (map b64_char [?n div 64, ?n mod 64])"
    by (simp add: Let_def)
  also have "\<dots> = Some (b64_bytes [?n div 64, ?n mod 64])" by (rule b64_group_chars [OF lt])
  also have "\<dots> = Some [a]" unfolding b64_bytes.simps b64_one by simp
  finally show ?case .
next
  case (3 a b)
  let ?m = "unat a * 256 + unat b"
  let ?n = "?m * 4"
  have "?n < 262144" by (rule two_bytes_bound [OF byte_le byte_le])
  then have lt: "\<forall>n \<in> set [?n div 4096, ?n div 64 mod 64, ?n mod 64]. n < 64" by simp
  then have "b64_char (?n mod 64) \<noteq> b64_pad" by (intro b64_char_not_pad) simp
  then have "b64_decode (b64_encode [a, b])
      = b64_group (map b64_char [?n div 4096, ?n div 64 mod 64, ?n mod 64])"
    by (simp add: Let_def del: b64_char_not_pad)
  also have "\<dots> = Some (b64_bytes [?n div 4096, ?n div 64 mod 64, ?n mod 64])"
    by (rule b64_group_chars [OF lt])
  also have "\<dots> = Some [a, b]"
    unfolding b64_bytes.simps b64_two Let_def bytes_of_two [OF byte_lt] by simp
  finally show ?case .
next
  case (4 a b c rest)
  let ?h = "unat a * 256 + unat b"
  let ?m = "?h * 256 + unat c"
  let ?ds = "[?m div 262144, ?m div 4096 mod 64, ?m div 64 mod 64, ?m mod 64]"
  have "?m < 16777216" by (rule three_bytes_bound [OF byte_le byte_le byte_le])
  then have lt: "\<forall>n \<in> set ?ds. n < 64" by simp
  then have pad: "b64_char (?m mod 64) \<noteq> b64_pad" by (intro b64_char_not_pad) simp
  have "?m div 65536 = ?m div 256 div 256" by (simp add: div_mult2_eq)
  then have bs: "b64_bytes ?ds = [a, b, c]"
    unfolding b64_bytes.simps b64_three Let_def by (simp only: bytes_of_two [OF byte_lt]) simp
  have "b64_group (map b64_char ?ds) = Some [a, b, c]"
    unfolding bs [symmetric] by (rule b64_group_chars [OF lt])
  with pad 4 show ?case by (simp add: Let_def del: b64_char_not_pad)
qed

end
