(* ===== verification/Canonical_Json.thy ===== *)
theory Canonical_Json
  imports Json Provider_Bytes
begin

text \<open>
  The canonical serialization (\<^verbatim>\<open>contracts/canonical.py\<close>): \<^verbatim>\<open>json.dumps\<close> with sorted keys, compact
  separators, ASCII escapes and no NaN. Strings are code points below 256; the text of a \<open>JFloat\<close>
  is the one \<^verbatim>\<open>repr\<close> gives. Equal serializations come from equal values, up to the order of the keys.
\<close>

section \<open>Text\<close>

text \<open>\<^verbatim>\<open>json.dumps(..., allow_nan=False)\<close> raises ValueError on a float that is not finite.\<close>

fun encodable :: "json \<Rightarrow> bool" where
  "encodable (JFloat t) = (t \<notin> {''NaN'', ''Infinity'', ''-Infinity''})"
| "encodable (JArr xs) = list_all encodable xs"
| "encodable (JObj d) = list_all (\<lambda>kv. encodable (snd kv)) d"
| "encodable _ = True"

definition hex_char :: "nat \<Rightarrow> char" where
  "hex_char n = ''0123456789abcdef'' ! n"

definition escape_char :: "char \<Rightarrow> string" where
  "escape_char c = (let n = of_char c :: nat in
     if n = 34 then [CHR 0x5C, CHR 0x22]
     else if n = 92 then [CHR 0x5C, CHR 0x5C]
     else if n = 10 then [CHR 0x5C, CHR ''n'']
     else if n = 13 then [CHR 0x5C, CHR ''r'']
     else if n = 9 then [CHR 0x5C, CHR ''t'']
     else if n = 12 then [CHR 0x5C, CHR ''f'']
     else if n = 8 then [CHR 0x5C, CHR ''b'']
     else if 32 \<le> n \<and> n \<le> 126 then [c]
     else [CHR 0x5C, CHR ''u'', CHR ''0'', CHR ''0'', hex_char (n div 16), hex_char (n mod 16)])"

definition json_string :: "string \<Rightarrow> string" where
  "json_string s = CHR 0x22 # concat (map escape_char s) @ [CHR 0x22]"

fun join_text :: "string list \<Rightarrow> string" where
  "join_text [] = []"
| "join_text [x] = x"
| "join_text (x # xs) = x @ CHR '','' # join_text xs"

definition member_text :: "string \<times> string \<Rightarrow> string" where
  "member_text kv = json_string (fst kv) @ CHR '':'' # snd kv"

fun canonical_text :: "json \<Rightarrow> string" where
  "canonical_text JNull = ''null''"
| "canonical_text (JBool b) = (if b then ''true'' else ''false'')"
| "canonical_text (JInt i) = string_of_int i"
| "canonical_text (JFloat t) = t"
| "canonical_text (JStr s) = json_string s"
| "canonical_text (JArr xs) = CHR ''['' # join_text (map canonical_text xs) @ '']''"
| "canonical_text (JObj d) =
     CHR ''{'' # join_text (map member_text (sort_key fst (map (\<lambda>kv. (fst kv, canonical_text (snd kv))) d))) @ ''}''"

definition text_bytes :: "string \<Rightarrow> bytes" where
  "text_bytes s = map (\<lambda>c. of_nat (of_char c)) s"

text \<open>\<open>None\<close> is the ValueError.\<close>

definition canonical_json :: "json \<Rightarrow> bytes option" where
  "canonical_json v = (if encodable v then Some (text_bytes (canonical_text v)) else None)"

text \<open>\<open>sha\<close> hashes the canonical bytes of a value that has them.\<close>

definition sha256_hex :: "(json \<Rightarrow> string) \<Rightarrow> json \<Rightarrow> string option" where
  "sha256_hex sha v = (if encodable v then Some (sha v) else None)"

section \<open>Strings are read back\<close>

definition hex_value :: "char \<Rightarrow> nat" where
  "hex_value c = (let n = of_char c :: nat in if n < 58 then n - 48 else n - 87)"

text \<open>One character of an escaped string.\<close>

definition read_escape :: "char \<Rightarrow> string \<Rightarrow> char \<times> string" where
  "read_escape c s =
     (if c = CHR ''n'' then (CHR 0x0A, s) else if c = CHR ''r'' then (CHR 0x0D, s)
      else if c = CHR ''t'' then (CHR 0x09, s) else if c = CHR ''f'' then (CHR 0x0C, s)
      else if c = CHR ''b'' then (CHR 0x08, s)
      else if c = CHR ''u'' then (char_of (16 * hex_value (s ! 2) + hex_value (s ! 3)), drop 4 s)
      else (c, s))"

fun read_char :: "string \<Rightarrow> char \<times> string" where
  "read_char (c # s) =
     (if c = CHR 0x5C then (case s of e # s' \<Rightarrow> read_escape e s' | [] \<Rightarrow> (c, s)) else (c, s))"
| "read_char [] = (CHR 0x00, [])"

lemma hex_value_char: "n < 16 \<Longrightarrow> hex_value (hex_char n) = n"
proof -
  have "map (\<lambda>k. hex_value (hex_char k)) [0 ..< 16] = [0 ..< 16]" by code_simp
  then show "n < 16 \<Longrightarrow> hex_value (hex_char n) = n"
    by (metis (mono_tags, lifting) add_0 diff_zero length_upt nth_map nth_upt)
qed

lemma read_char_escape: "read_char (escape_char c @ s) = (c, s)"
proof -
  define n where "n = (of_char c :: nat)"
  have c: "c = char_of n" by (simp add: n_def)
  have lt: "n < 256" by (simp add: n_def)
  have hex: "16 * hex_value (hex_char (n div 16)) + hex_value (hex_char (n mod 16)) = n"
    using lt by (simp add: hex_value_char)
  consider "n \<in> {34, 92, 10, 13, 9, 12, 8}" | "n \<notin> {34, 92, 10, 13, 9, 12, 8}" "32 \<le> n" "n \<le> 126"
    | "n \<notin> {34, 92, 10, 13, 9, 12, 8}" "\<not> (32 \<le> n \<and> n \<le> 126)" by blast
  then show ?thesis
  proof cases
    case 1
    then show ?thesis
      unfolding c by (elim insertE emptyE) (simp_all add: escape_char_def read_escape_def char_of_def bit_iff_odd)
  next
    case 2
    have "c \<noteq> CHR 0x5C"
      using 2 by (auto simp: n_def)
    with 2 show ?thesis by (simp add: escape_char_def n_def [symmetric] Let_def)
  next
    case 3
    then have "c \<noteq> CHR 0x5C" by (auto simp: n_def)
    with 3 show ?thesis
      by (simp add: escape_char_def read_escape_def n_def [symmetric] Let_def hex numeral_2_eq_2 numeral_3_eq_3 c [symmetric])
  qed
qed

lemma escape_char_head: "escape_char c = x # xs \<Longrightarrow> x \<noteq> CHR 0x22"
  by (auto simp: escape_char_def Let_def split: if_splits)

lemma escape_char_head': "x # xs = escape_char c \<Longrightarrow> x \<noteq> CHR 0x22"
  by (metis escape_char_head)

lemma escape_char_nonempty: "escape_char c \<noteq> []"
  by (auto simp: escape_char_def Let_def)

lemma escaped_unambiguous:
  "concat (map escape_char s) @ CHR 0x22 # r = concat (map escape_char s') @ CHR 0x22 # r' \<Longrightarrow> s = s' \<and> r = r'"
proof (induction s arbitrary: s')
  case Nil
  then show ?case
    by (cases s') (auto dest: escape_char_head escape_char_head' simp: escape_char_nonempty Cons_eq_append_conv)
next
  case (Cons c s)
  show ?case
  proof (cases s')
    case Nil
    with Cons.prems show ?thesis
      by (auto dest: escape_char_head escape_char_head' simp: escape_char_nonempty append_eq_Cons_conv)
  next
    case (Cons c' s'')
    note s' = this
    let ?t = "concat (map escape_char s) @ CHR 0x22 # r" and ?t' = "concat (map escape_char s'') @ CHR 0x22 # r'"
    have "escape_char c @ ?t = escape_char c' @ ?t'" using Cons.prems s' by simp
    then have "read_char (escape_char c @ ?t) = read_char (escape_char c' @ ?t')" by simp
    then have "c = c'" "?t = ?t'" unfolding read_char_escape by simp_all
    with Cons.IH [OF \<open>?t = ?t'\<close>] s' show ?thesis by simp
  qed
qed

lemma json_string_unambiguous: "json_string s @ r = json_string s' @ r' \<longleftrightarrow> s = s' \<and> r = r'"
  using escaped_unambiguous [of s r s' r'] by (auto simp: json_string_def)

section \<open>Values are determined by their text\<close>

text \<open>A value with its keys in order, and the text of a value whose keys are in order.\<close>

fun normal_json :: "json \<Rightarrow> json" where
  "normal_json (JArr xs) = JArr (map normal_json xs)"
| "normal_json (JObj d) = JObj (sort_key fst (map (\<lambda>kv. (fst kv, normal_json (snd kv))) d))"
| "normal_json v = v"

fun plain_text :: "json \<Rightarrow> string" where
  "plain_text (JArr xs) = CHR ''['' # join_text (map plain_text xs) @ '']''"
| "plain_text (JObj d) =
     CHR ''{'' # join_text (map (\<lambda>kv. json_string (fst kv) @ CHR '':'' # plain_text (snd kv)) d) @ ''}''"
| "plain_text v = canonical_text v"

lemma canonical_text_normal: "canonical_text v = plain_text (normal_json v)"
proof (induction v rule: canonical_text.induct)
  case (6 xs)
  then show ?case by (simp add: comp_def cong: map_cong)
next
  case (7 d)
  have "map (\<lambda>kv. (fst kv, canonical_text (snd kv))) d
      = map (\<lambda>kv. (fst kv, plain_text (snd kv))) (map (\<lambda>kv. (fst kv, normal_json (snd kv))) d)"
    using 7 by simp
  then have "canonical_text (JObj d) = CHR ''{'' # join_text (map member_text
      (map (\<lambda>kv. (fst kv, plain_text (snd kv))) (map (\<lambda>kv. (fst kv, normal_json (snd kv))) (sort_key fst d)))) @ ''}''"
    by (simp only: canonical_text.simps sort_map_snd)
  then show ?case by (simp add: sort_map_snd comp_def member_text_def)
qed auto

text \<open>The texts of numbers: a float is not written like an integer.\<close>

definition decimal_char :: "char \<Rightarrow> bool" where
  "decimal_char c \<longleftrightarrow> c \<in> set ''0123456789''"

definition number_char :: "char \<Rightarrow> bool" where
  "number_char c \<longleftrightarrow> decimal_char c \<or> c \<in> set ''+-.e''"

definition float_repr :: "string \<Rightarrow> bool" where
  "float_repr t \<longleftrightarrow> t \<noteq> [] \<and> (hd t = CHR ''-'' \<or> decimal_char (hd t)) \<and> list_all number_char t \<and>
     (CHR ''.'' \<in> set t \<or> CHR ''e'' \<in> set t)"

fun floats_ok :: "json \<Rightarrow> bool" where
  "floats_ok (JFloat t) = float_repr t"
| "floats_ok (JArr xs) = list_all floats_ok xs"
| "floats_ok (JObj d) = list_all (\<lambda>kv. floats_ok (snd kv)) d"
| "floats_ok _ = True"

definition ends_value :: "string \<Rightarrow> bool" where
  "ends_value r \<longleftrightarrow> r = [] \<or> hd r \<in> {CHR '','', CHR '']'', CHR ''}''}"

lemma decimal_digit_char: "n < 10 \<Longrightarrow> decimal_char (digit_char n)"
  unfolding digit_char_def decimal_char_def by (rule nth_mem) simp

lemma decimal_string_of_nat: "list_all decimal_char (string_of_nat n)"
proof (induction n rule: string_of_nat.induct)
  case (1 n)
  then show ?case
    by (cases "n < 10") (simp_all add: string_of_nat_small string_of_nat_large decimal_digit_char)
qed

lemma decimal_char_not: "\<not> decimal_char CHR ''-''" "\<not> decimal_char CHR ''.''" "\<not> decimal_char CHR ''e''"
  by (simp_all add: decimal_char_def)

lemma string_of_int_chars: "list_all (\<lambda>c. c = CHR ''-'' \<or> decimal_char c) (string_of_int i)"
  using decimal_string_of_nat by (auto simp: string_of_int_def list_all_iff)

lemma string_of_int_eq_iff: "string_of_int i = string_of_int j \<longleftrightarrow> i = j"
proof -
  have "CHR ''-'' \<notin> set (string_of_nat n)" for n
    using decimal_string_of_nat [of n] decimal_char_not(1) unfolding list_all_iff by blast
  then have "CHR ''-'' # string_of_nat m \<noteq> string_of_nat n" "string_of_nat n \<noteq> CHR ''-'' # string_of_nat m" for m n
    by (metis list.set_intros(1))+
  then show ?thesis by (auto simp: string_of_int_def)
qed

lemma string_of_int_head: "\<exists>c cs. string_of_int i = c # cs \<and> (c = CHR ''-'' \<or> decimal_char c)"
  using string_of_int_chars [of i] by (cases "string_of_int i") (auto simp: string_of_int_def split: if_splits)

definition number_text :: "string \<Rightarrow> bool" where
  "number_text t \<longleftrightarrow> list_all number_char t \<and> (\<exists>c cs. t = c # cs \<and> (c = CHR ''-'' \<or> decimal_char c))"

lemma number_text_int: "number_text (string_of_int i)"
  using string_of_int_chars [of i] string_of_int_head [of i]
  by (auto simp: number_text_def number_char_def list_all_iff)

lemma number_text_float: "float_repr t \<Longrightarrow> number_text t"
  by (cases t) (auto simp: number_text_def float_repr_def)

lemma float_not_int: "float_repr t \<Longrightarrow> t \<noteq> string_of_int i"
proof
  assume "float_repr t" "t = string_of_int i"
  then obtain c where "c \<in> {CHR ''.'', CHR ''e''}" "c \<in> set (string_of_int i)"
    by (auto simp: float_repr_def)
  moreover from this(2) have "c = CHR ''-'' \<or> decimal_char c"
    using string_of_int_chars unfolding list_all_iff by blast
  ultimately show False using decimal_char_not by auto
qed

lemma number_unambiguous:
  assumes "number_text s" "number_text s'" "ends_value r" "ends_value r'" "s @ r = s' @ r'"
  shows "s = s' \<and> r = r'"
proof -
  have split: "takeWhile number_char (t @ q) = t" if "number_text t" "ends_value q" for t q
  proof -
    have "\<not> number_char (hd q)" if "q \<noteq> []"
      using \<open>ends_value q\<close> that by (auto simp: ends_value_def number_char_def decimal_char_def)
    then have "takeWhile number_char q = []" by (cases q) auto
    with \<open>number_text t\<close> show ?thesis by (simp add: number_text_def takeWhile_append2 list_all_iff)
  qed
  from split [OF assms(1,3)] split [OF assms(2,4)] assms(5) have "s = s'" by metis
  with assms(5) show ?thesis by simp
qed

text \<open>Sequences of texts that end where a value ends.\<close>

lemma join_text_Cons: "join_text (x # xs) = x @ (if xs = [] then [] else CHR '','' # join_text xs)"
  by (cases xs) auto

lemma join_unambiguous:
  assumes "\<And>x y r r'. x \<in> set xs \<Longrightarrow> y \<in> Q \<Longrightarrow> ends_value r \<Longrightarrow> ends_value r' \<Longrightarrow> f x @ r = f y @ r'
      \<Longrightarrow> x = y \<and> r = r'"
    and "set ys \<subseteq> Q" and "\<And>y. y \<in> set xs \<union> Q \<Longrightarrow> \<exists>c cs. f y = c # cs \<and> c \<noteq> e" and "e \<in> {CHR '']'', CHR ''}''}"
    and "join_text (map f xs) @ e # r = join_text (map f ys) @ e # r'"
  shows "xs = ys \<and> r = r'"
  using assms
proof (induction xs arbitrary: ys)
  case Nil
  show ?case
  proof (cases ys)
    case (Cons y ys')
    obtain c cs where "f y = c # cs" "c \<noteq> e" using Nil.prems(2) Nil.prems(3) [of y] Cons by auto
    with Nil.prems(5) Cons show ?thesis by (simp add: join_text_Cons)
  qed (use Nil.prems(5) in simp)
next
  case (Cons x xs)
  show ?case
  proof (cases ys)
    case Nil
    obtain c cs where "f x = c # cs" "c \<noteq> e" using Cons.prems(3) [of x] by auto
    with Cons.prems(5) Nil show ?thesis by (simp add: join_text_Cons)
  next
    case (Cons y ys')
    let ?t = "(if xs = [] then [] else CHR '','' # join_text (map f xs)) @ e # r"
    let ?t' = "(if ys' = [] then [] else CHR '','' # join_text (map f ys')) @ e # r'"
    have eq: "f x @ ?t = f y @ ?t'" using Cons.prems(5) Cons by (simp add: join_text_Cons)
    have ends: "ends_value ?t" "ends_value ?t'" using Cons.prems(4) by (auto simp: ends_value_def)
    have "y \<in> Q" "set ys' \<subseteq> Q" using Cons.prems(2) Cons by auto
    with Cons.prems(1) [OF list.set_intros(1) _ ends eq] have "x = y" and t: "?t = ?t'" by auto
    have "xs = ys' \<and> r = r'"
    proof (cases "xs = [] \<or> ys' = []")
      case True
      with t Cons.prems(4) show ?thesis by (auto split: if_splits)
    next
      case False
      with t have "join_text (map f xs) @ e # r = join_text (map f ys') @ e # r'" by simp
      then show ?thesis
        using Cons.prems(1,3,4) \<open>set ys' \<subseteq> Q\<close> by (intro Cons.IH) auto
    qed
    with \<open>x = y\<close> Cons show ?thesis by simp
  qed
qed

text \<open>The first character tells the kind of a value.\<close>

definition text_kind :: "char \<Rightarrow> nat" where
  "text_kind c =
     (if c = CHR ''n'' then 0 else if c = CHR ''t'' then 1 else if c = CHR ''f'' then 2
      else if c = CHR 0x22 then 4 else if c = CHR ''['' then 5 else if c = CHR ''{'' then 6
      else if c = CHR '']'' \<or> c = CHR ''}'' then 7 else 3)"

fun value_kind :: "json \<Rightarrow> nat" where
  "value_kind JNull = 0" | "value_kind (JBool b) = (if b then 1 else 2)"
| "value_kind (JInt i) = 3" | "value_kind (JFloat t) = 3" | "value_kind (JStr s) = 4"
| "value_kind (JArr xs) = 5" | "value_kind (JObj d) = 6"

lemma decimal_kind: "decimal_char c \<Longrightarrow> text_kind c = 3"
proof -
  have "list_all (\<lambda>c. text_kind c = 3) ''0123456789''" by (simp add: text_kind_def)
  then show "decimal_char c \<Longrightarrow> text_kind c = 3" unfolding decimal_char_def list_all_iff by blast
qed

lemma number_kind: "number_text t \<Longrightarrow> \<exists>c cs. t = c # cs \<and> text_kind c = 3"
proof -
  have "text_kind CHR ''-'' = 3" by (simp add: text_kind_def)
  then show "number_text t \<Longrightarrow> \<exists>c cs. t = c # cs \<and> text_kind c = 3"
    unfolding number_text_def using decimal_kind by blast
qed

lemma plain_text_head: "floats_ok v \<Longrightarrow> \<exists>c cs. plain_text v = c # cs \<and> text_kind c = value_kind v"
proof (cases v)
  case (JInt i)
  then show ?thesis using number_kind [OF number_text_int] by simp
next
  case (JFloat t)
  assume "floats_ok v"
  with JFloat show ?thesis using number_kind [OF number_text_float] by simp
qed (auto simp: text_kind_def json_string_def)

lemma number_value:
  assumes "floats_ok v" "value_kind v = 3"
  shows "number_text (plain_text v)"
  using assms by (cases v) (auto simp: number_text_int number_text_float split: if_splits)

lemma number_value_eq:
  assumes "floats_ok v" "value_kind v = 3" "floats_ok w" "value_kind w = 3" "plain_text v = plain_text w"
  shows "v = w"
  using assms float_not_int float_not_int [THEN not_sym]
  by (cases v; cases w) (auto simp: string_of_int_eq_iff split: if_splits)

lemma numbers_unambiguous:
  assumes "floats_ok v" "value_kind v = 3" "floats_ok w" "ends_value r" "ends_value r'"
    and "plain_text v @ r = plain_text w @ r'"
  shows "v = w \<and> r = r'"
proof -
  have "value_kind w = 3"
    using plain_text_head [OF assms(1)] plain_text_head [OF assms(3)] assms(2,6) by auto
  then have "plain_text v = plain_text w \<and> r = r'"
    using number_unambiguous [OF number_value number_value] assms by blast
  with number_value_eq \<open>value_kind w = 3\<close> assms show ?thesis by blast
qed

lemmas plain_text_cases = plain_text.induct [case_names arr obj null bool int float str]

lemma plain_text_unambiguous:
  "floats_ok v \<Longrightarrow> floats_ok w \<Longrightarrow> ends_value r \<Longrightarrow> ends_value r' \<Longrightarrow> plain_text v @ r = plain_text w @ r'
     \<Longrightarrow> v = w \<and> r = r'"
proof (induction v arbitrary: w r r' rule: plain_text_cases)
  case (arr xs)
  have "value_kind w = 5"
    using plain_text_head [OF arr.prems(2)] arr.prems(5) by (auto simp: text_kind_def)
  then obtain ys where w: "w = JArr ys" by (cases w) (auto split: if_splits)
  have "xs = ys \<and> r = r'"
  proof (rule join_unambiguous [where Q = "{y. floats_ok y}" and f = plain_text and e = "CHR '']''"])
    show "x = y \<and> q = q'" if "x \<in> set xs" "y \<in> {y. floats_ok y}" "ends_value q" "ends_value q'"
      "plain_text x @ q = plain_text y @ q'" for x y q q'
      using arr.IH [OF that(1)] that arr.prems(1) by (simp add: list_all_iff)
    show "\<exists>c cs. plain_text y = c # cs \<and> c \<noteq> CHR '']''" if "y \<in> set xs \<union> {y. floats_ok y}" for y
    proof -
      have "floats_ok y" using that arr.prems(1) by (auto simp: list_all_iff)
      from plain_text_head [OF this] show ?thesis by (cases y) (auto simp: text_kind_def split: if_splits)
    qed
  qed (use arr.prems w in \<open>auto simp: list_all_iff\<close>)
  with w show ?case by simp
next
  case (obj d)
  have "value_kind w = 6"
    using plain_text_head [OF obj.prems(2)] obj.prems(5) by (auto simp: text_kind_def)
  then obtain e where w: "w = JObj e" by (cases w) (auto split: if_splits)
  let ?f = "\<lambda>kv. json_string (fst kv) @ CHR '':'' # plain_text (snd kv)"
  have "d = e \<and> r = r'"
  proof (rule join_unambiguous [where Q = "{kv. floats_ok (snd kv)}" and f = ?f and e = "CHR ''}''"])
    show "x = y \<and> q = q'" if "x \<in> set d" "y \<in> {kv. floats_ok (snd kv)}" "ends_value q" "ends_value q'"
      "?f x @ q = ?f y @ q'" for x y q q'
    proof -
      have "fst x = fst y" "plain_text (snd x) @ q = plain_text (snd y) @ q'"
        using that(5) json_string_unambiguous [of "fst x" "CHR '':'' # plain_text (snd x) @ q"] by simp_all
      with obj.IH [OF that(1)] that obj.prems(1) show ?thesis by (simp add: list_all_iff prod_eq_iff)
    qed
  qed (use obj.prems w in \<open>auto simp: list_all_iff json_string_def\<close>)
  with w show ?case by simp
next
  case null
  then show ?case using plain_text_head [of w] by (cases w) (auto simp: text_kind_def split: if_splits)
next
  case (bool b)
  then show ?case using plain_text_head [of w] by (cases w) (auto simp: text_kind_def split: if_splits)
next
  case (int i)
  with numbers_unambiguous [of "JInt i" w r r'] show ?case by simp
next
  case (float t)
  with numbers_unambiguous [of "JFloat t" w r r'] show ?case by simp
next
  case (str s)
  have "value_kind w = 4"
    using plain_text_head [OF str.prems(2)] str.prems(5) by (auto simp: text_kind_def json_string_def)
  then show ?case
    using str.prems(5) by (cases w) (auto simp: json_string_unambiguous split: if_splits)
qed

lemma floats_ok_normal: "floats_ok v \<Longrightarrow> floats_ok (normal_json v)"
  by (induction v rule: normal_json.induct) (auto simp: list_all_iff)

lemma floats_ok_encodable: "floats_ok v \<Longrightarrow> encodable v"
  by (induction v rule: encodable.induct) (auto simp: list_all_iff float_repr_def decimal_char_def)

lemma text_bytes_inj: "text_bytes s = text_bytes t \<longleftrightarrow> s = t"
proof -
  have "inj (\<lambda>c. of_nat (of_char c) :: 8 word)"
  proof (rule injI)
    fix c d assume "(of_nat (of_char c) :: 8 word) = of_nat (of_char d)"
    then have "unat (of_nat (of_char c) :: 8 word) = unat (of_nat (of_char d) :: 8 word)" by simp
    then show "c = d" by (simp add: unat_of_nat)
  qed
  then show ?thesis by (simp add: text_bytes_def inj_map_eq_map)
qed

lemma canonical_text_eq_iff:
  assumes "floats_ok v" "floats_ok w"
  shows "canonical_text v = canonical_text w \<longleftrightarrow> normal_json v = normal_json w"
  using plain_text_unambiguous [OF floats_ok_normal [OF assms(1)] floats_ok_normal [OF assms(2)], of "[]" "[]"]
  by (auto simp: canonical_text_normal ends_value_def)

end
