(* ===== verification/Provider_Response.thy ===== *)
theory Provider_Response
  imports Complex_Main Canonical_Json
begin

text \<open>
  A provider's answer with the evidence it carries, and its archive form
  (\<^verbatim>\<open>ProviderResponse\<close> of \<^verbatim>\<open>providers/ollama.py\<close>). \<open>shab\<close> is \<^verbatim>\<open>sha256_bytes\<close>. Seconds are rationals;
  a \<open>float_text\<close> gives the text \<^verbatim>\<open>json.dumps\<close> writes for a float, and the finite value of a text.
\<close>

section \<open>The record\<close>

record provider_response =
  resp_request :: string
  resp_hash :: "string option"
  resp_status :: json
  resp_text :: "string option"
  resp_model :: "string option"
  resp_finish :: "string option"
  resp_usage :: "int option dict"
  resp_attempts :: int
  resp_partial :: bool
  resp_error :: "string option"
  resp_detail :: "string option"
  resp_request_body :: "bytes option"
  resp_response_body :: "bytes option"
  resp_headers :: "string dict"
  resp_elapsed :: "rat option"

definition response_ok :: "provider_response \<Rightarrow> bool" where
  "response_ok r = (resp_error r = None \<and> resp_text r \<noteq> None)"

datatype provider_error = ProviderValue string | ProviderRaised string

record float_text =
  write_float :: "rat \<Rightarrow> string"
  read_float :: "string \<Rightarrow> rat option"

section \<open>The archive form\<close>

definition encode_bytes :: "bytes option \<Rightarrow> json" where
  "encode_bytes v = (case v of None \<Rightarrow> JNull | Some bs \<Rightarrow> JStr (b64_encode bs))"

definition decode_bytes :: "json \<Rightarrow> provider_error + bytes option" where
  "decode_bytes v = (case v of
       JNull \<Rightarrow> Inr None
     | JStr s \<Rightarrow> (case b64_decode s of
           None \<Rightarrow> Inl (ProviderValue ''provider archive byte field is not valid base64'')
         | Some bs \<Rightarrow> Inr (Some bs))
     | _ \<Rightarrow> Inl (ProviderValue ''provider archive byte fields must be base64 strings''))"

definition usage_json :: "int option dict \<Rightarrow> json" where
  "usage_json u = JObj (map (\<lambda>(k, v). (k, int_option v)) u)"

definition headers_json :: "string dict \<Rightarrow> json" where
  "headers_json h = JObj (map (\<lambda>(k, v). (k, JStr v)) (sort_key fst h))"

definition elapsed_json :: "float_text \<Rightarrow> rat option \<Rightarrow> json" where
  "elapsed_json F v = (case v of None \<Rightarrow> JNull | Some t \<Rightarrow> JFloat (write_float F t))"

definition response_dict :: "float_text \<Rightarrow> provider_response \<Rightarrow> json dict" where
  "response_dict F r =
     [(''request_hash'', JStr (resp_request r)), (''response_hash'', option_json (resp_hash r)),
      (''http_status'', resp_status r), (''response_text'', option_json (resp_text r)),
      (''response_model'', option_json (resp_model r)), (''finish_reason'', option_json (resp_finish r)),
      (''usage'', usage_json (resp_usage r)), (''attempts'', JInt (resp_attempts r)),
      (''partial'', JBool (resp_partial r)), (''error'', option_json (resp_error r)),
      (''error_detail'', option_json (resp_detail r)),
      (''request_body_b64'', encode_bytes (resp_request_body r)),
      (''response_body_b64'', encode_bytes (resp_response_body r)),
      (''response_headers'', headers_json (resp_headers r)),
      (''elapsed_seconds'', elapsed_json F (resp_elapsed r))]"

section \<open>Reading an archive row\<close>

definition response_required :: "string list" where
  "response_required =
     [''request_hash'', ''response_hash'', ''http_status'', ''response_text'', ''response_model'',
      ''finish_reason'', ''usage'', ''attempts'', ''partial'']"

text \<open>\<^verbatim>\<open>None\<close> or a non-negative integer that is not a boolean.\<close>

fun usage_value :: "json \<Rightarrow> int option option" where
  "usage_value JNull = Some None"
| "usage_value (JInt i) = (if 0 \<le> i then Some (Some i) else None)"
| "usage_value _ = None"

definition read_usage :: "json \<Rightarrow> provider_error + int option dict" where
  "read_usage v = (case v of
       JObj d \<Rightarrow>
         if list_ex (\<lambda>(k, x). usage_value x = None) d
         then Inl (ProviderValue ''provider archive usage must contain non-negative integers or null'')
         else Inr (map (\<lambda>(k, x). (k, the (usage_value x))) d)
     | _ \<Rightarrow> Inl (ProviderValue ''provider archive usage must be an object''))"

definition read_headers :: "json option \<Rightarrow> provider_error + string dict" where
  "read_headers v = (case v of
       None \<Rightarrow> Inr []
     | Some (JObj d) \<Rightarrow>
         if list_ex (\<lambda>(k, x). as_string x = None) d
         then Inl (ProviderValue ''provider archive response_headers must be a string map'')
         else Inr (map (\<lambda>(k, x). (k, the (as_string x))) d)
     | Some _ \<Rightarrow> Inl (ProviderValue ''provider archive response_headers must be a string map''))"

text \<open>An integer number of seconds becomes the float of the same value.\<close>

definition read_elapsed :: "float_text \<Rightarrow> json \<Rightarrow> provider_error + rat option" where
  "read_elapsed F v =
     (let bad = Inl (ProviderValue ''provider archive elapsed_seconds must be finite and non-negative'') in
      case v of
        JNull \<Rightarrow> Inr None
      | JInt i \<Rightarrow> if i < 0 then bad else Inr (Some (of_int i))
      | JFloat s \<Rightarrow> (case read_float F s of
            None \<Rightarrow> bad | Some t \<Rightarrow> if t < 0 then bad else Inr (Some t))
      | _ \<Rightarrow> bad)"

text \<open>A status that is not an integer is dropped; a boolean is an integer.\<close>

fun status_value :: "json \<Rightarrow> json" where
  "status_value (JInt i) = JInt i"
| "status_value (JBool b) = JBool b"
| "status_value _ = JNull"

definition check_bodies ::
    "(bytes \<Rightarrow> string) \<Rightarrow> string \<Rightarrow> string option \<Rightarrow> bytes option \<Rightarrow> bytes option \<Rightarrow> provider_error option" where
  "check_bodies shab rq rs qb sb =
     (if (case qb of None \<Rightarrow> False | Some b \<Rightarrow> shab b \<noteq> rq)
        then Some (ProviderValue ''provider archive request body hash mismatch'')
      else if (case sb of None \<Rightarrow> False | Some b \<Rightarrow> rs \<noteq> Some (shab b))
        then Some (ProviderValue ''provider archive response body hash mismatch'')
      else None)"

definition response_from_dict ::
    "(bytes \<Rightarrow> string) \<Rightarrow> float_text \<Rightarrow> json dict \<Rightarrow> provider_error + provider_response" where
  "response_from_dict shab F d =
     (if list_ex (\<lambda>k. dict_get d k = None) response_required
        then Inl (ProviderValue ''provider archive response is missing required fields'')
      else bind_result (read_usage (jget d ''usage'')) (\<lambda>usage.
        bind_result (read_headers (dict_get d ''response_headers'')) (\<lambda>headers.
        if \<not> nonempty_str (jget d ''request_hash'')
          then Inl (ProviderValue ''provider archive request_hash must be a non-empty string'')
        else (case jget d ''attempts'' of JInt attempts \<Rightarrow>
          if attempts < 0
            then Inl (ProviderValue ''provider archive attempts must be a non-negative integer'')
          else (case as_bool (jget d ''partial'') of
              None \<Rightarrow> Inl (ProviderValue ''provider archive partial must be boolean'')
            | Some partial \<Rightarrow>
                bind_result (read_elapsed F (jget d ''elapsed_seconds'')) (\<lambda>elapsed.
                bind_result (decode_bytes (jget d ''request_body_b64'')) (\<lambda>request_body.
                bind_result (decode_bytes (jget d ''response_body_b64'')) (\<lambda>response_body.
                  let rq = the (as_string (jget d ''request_hash''));
                      rs = as_string (jget d ''response_hash'')
                  in case check_bodies shab rq rs request_body response_body of
                       Some e \<Rightarrow> Inl e
                     | None \<Rightarrow> Inr
                         \<lparr>resp_request = rq, resp_hash = rs,
                          resp_status = status_value (jget d ''http_status''),
                          resp_text = as_string (jget d ''response_text''),
                          resp_model = as_string (jget d ''response_model''),
                          resp_finish = as_string (jget d ''finish_reason''),
                          resp_usage = usage, resp_attempts = attempts, resp_partial = partial,
                          resp_error = as_string (jget d ''error''),
                          resp_detail = as_string (jget d ''error_detail''),
                          resp_request_body = request_body, resp_response_body = response_body,
                          resp_headers = headers, resp_elapsed = elapsed\<rparr>))))
        | _ \<Rightarrow> Inl (ProviderValue ''provider archive attempts must be a non-negative integer'')))))"

section \<open>Round trip\<close>

text \<open>The values a response may hold, and the responses whose bodies match their hashes.\<close>

definition usage_ok :: "int option dict \<Rightarrow> bool" where
  "usage_ok u = list_all (\<lambda>(k, v). case v of None \<Rightarrow> True | Some i \<Rightarrow> 0 \<le> i) u"

definition response_wf :: "(bytes \<Rightarrow> string) \<Rightarrow> provider_response \<Rightarrow> bool" where
  "response_wf shab r \<longleftrightarrow>
     resp_request r \<noteq> '''' \<and> status_value (resp_status r) = resp_status r \<and> usage_ok (resp_usage r) \<and>
     0 \<le> resp_attempts r \<and> (case resp_elapsed r of None \<Rightarrow> True | Some t \<Rightarrow> 0 \<le> t) \<and>
     check_bodies shab (resp_request r) (resp_hash r) (resp_request_body r) (resp_response_body r) = None"

definition float_law :: "float_text \<Rightarrow> bool" where
  "float_law F \<longleftrightarrow> (\<forall>t. read_float F (write_float F t) = Some t)"

lemma decode_encode_bytes [simp]: "decode_bytes (encode_bytes v) = Inr v"
  by (cases v) (simp_all add: decode_bytes_def encode_bytes_def b64_round_trip)

lemma usage_value_int_option:
  "(case v of None \<Rightarrow> True | Some i \<Rightarrow> 0 \<le> i) \<Longrightarrow> usage_value (int_option v) = Some v"
  by (cases v) (simp_all add: int_option_def)

lemma read_usage_json [simp]:
  assumes "usage_ok u"
  shows "read_usage (usage_json u) = Inr u"
proof -
  have v: "usage_value (int_option v) = Some v" if "(k, v) \<in> set u" for k v
    using assms that by (intro usage_value_int_option) (auto simp: usage_ok_def list_all_iff)
  then have "\<not> list_ex (\<lambda>(k, x). usage_value x = None) (map (\<lambda>(k, v). (k, int_option v)) u)"
    by (auto simp: list_ex_iff)
  moreover have "map (\<lambda>(k, x). (k, the (usage_value x))) (map (\<lambda>(k, v). (k, int_option v)) u) = u"
    unfolding map_map by (rule map_idI) (auto dest: v)
  ultimately show ?thesis by (simp add: read_usage_def usage_json_def)
qed

lemma read_headers_json [simp]: "read_headers (Some (headers_json h)) = Inr (sort_key fst h)"
proof -
  have "map (\<lambda>(k, x). (k, the (as_string x))) (map (\<lambda>(k, v). (k, JStr v)) d) = d" for d :: "string dict"
    by (induction d) (auto simp: as_string_def)
  then show ?thesis
    by (auto simp: read_headers_def headers_json_def list_ex_iff as_string_def)
qed

lemma read_elapsed_json [simp]:
  assumes "float_law F" "case v of None \<Rightarrow> True | Some t \<Rightarrow> 0 \<le> t"
  shows "read_elapsed F (elapsed_json F v) = Inr v"
  using assms by (cases v) (simp_all add: read_elapsed_def elapsed_json_def float_law_def Let_def)

lemma response_dict_lookup:
  "jget (response_dict F r) ''request_hash'' = JStr (resp_request r)"
  "jget (response_dict F r) ''response_hash'' = option_json (resp_hash r)"
  "jget (response_dict F r) ''http_status'' = resp_status r"
  "jget (response_dict F r) ''response_text'' = option_json (resp_text r)"
  "jget (response_dict F r) ''response_model'' = option_json (resp_model r)"
  "jget (response_dict F r) ''finish_reason'' = option_json (resp_finish r)"
  "jget (response_dict F r) ''usage'' = usage_json (resp_usage r)"
  "jget (response_dict F r) ''attempts'' = JInt (resp_attempts r)"
  "jget (response_dict F r) ''partial'' = JBool (resp_partial r)"
  "jget (response_dict F r) ''error'' = option_json (resp_error r)"
  "jget (response_dict F r) ''error_detail'' = option_json (resp_detail r)"
  "jget (response_dict F r) ''request_body_b64'' = encode_bytes (resp_request_body r)"
  "jget (response_dict F r) ''response_body_b64'' = encode_bytes (resp_response_body r)"
  "dict_get (response_dict F r) ''response_headers'' = Some (headers_json (resp_headers r))"
  "jget (response_dict F r) ''elapsed_seconds'' = elapsed_json F (resp_elapsed r)"
  "list_ex (\<lambda>k. dict_get (response_dict F r) k = None) response_required = False"
  by (simp_all add: response_dict_def response_required_def)

lemma response_round_trip:
  assumes "response_wf shab r" "float_law F"
  shows "response_from_dict shab F (response_dict F r) = Inr (r\<lparr>resp_headers := sort_key fst (resp_headers r)\<rparr>)"
proof -
  have wf: "resp_request r \<noteq> ''''" "status_value (resp_status r) = resp_status r" "usage_ok (resp_usage r)"
    "\<not> resp_attempts r < 0" "case resp_elapsed r of None \<Rightarrow> True | Some t \<Rightarrow> 0 \<le> t"
    "check_bodies shab (resp_request r) (resp_hash r) (resp_request_body r) (resp_response_body r) = None"
    using assms(1) by (simp_all add: response_wf_def)
  have str: "as_string (JStr s) = Some s" "as_bool (JBool b) = Some b" for s b
    by (simp_all add: as_string_def as_bool_def)
  show ?thesis
    unfolding response_from_dict_def response_dict_lookup
    using wf assms(2) by (simp add: str Let_def)
qed

end
