(* ===== verification/Method_Proposal.thy ===== *)
theory Method_Proposal
  imports Xlir_Model Provider_Response
begin

text \<open>
  Prompt templates, ordered proposal slots and the identity of a candidate
  (\<^verbatim>\<open>methods/proposal.py\<close>). A candidate is a compiled invariant or a parsed JSON value. \<open>sha\<close> is
  \<^verbatim>\<open>sha256_hex\<close>, \<open>loads\<close> is \<^verbatim>\<open>json.loads\<close> with \<open>None\<close> for a JSONDecodeError.
\<close>

section \<open>Policy and template\<close>

datatype method_error = MethodValue string | MethodIndex string | ParserRaised string

record prompt_policy =
  allow_memory :: bool
  allow_tools :: bool
  allow_retrieval :: bool
  proposal_slots :: int

definition default_prompt_policy :: prompt_policy where
  "default_prompt_policy =
     \<lparr>allow_memory = False, allow_tools = False, allow_retrieval = False, proposal_slots = 8\<rparr>"

definition PromptPolicy :: "prompt_policy \<Rightarrow> method_error + prompt_policy" where
  "PromptPolicy p =
     (if proposal_slots p \<le> 0 then Inl (MethodValue ''proposal_slots must be positive'')
      else if allow_memory p \<or> allow_tools p \<or> allow_retrieval p
        then Inl (MethodValue ''CrossLLM proposal policy forbids memory, tools and retrieval'')
      else Inr p)"

definition policy_dict :: "prompt_policy \<Rightarrow> json" where
  "policy_dict p = JObj
     [(''allow_memory'', JBool (allow_memory p)), (''allow_tools'', JBool (allow_tools p)),
      (''allow_retrieval'', JBool (allow_retrieval p)), (''proposal_slots'', JInt (proposal_slots p))]"

record prompt_template =
  template_id :: string
  template_version :: string
  template_text :: string
  template_policy :: prompt_policy

text \<open>\<^verbatim>\<open>text.count(p)\<close> and \<^verbatim>\<open>text.replace(p, new)\<close> for a non-empty \<open>p\<close>: from left to right, not overlapping.\<close>

function count_sub :: "string \<Rightarrow> string \<Rightarrow> nat" where
  "count_sub p s =
     (if s = [] \<or> p = [] then 0
      else if take (length p) s = p then Suc (count_sub p (drop (length p) s))
      else count_sub p (tl s))"
  by pat_completeness auto
termination by (relation "measure (\<lambda>(p, s). length s)") auto

function replace_sub :: "string \<Rightarrow> string \<Rightarrow> string \<Rightarrow> string" where
  "replace_sub p new s =
     (if s = [] \<or> p = [] then s
      else if take (length p) s = p then new @ replace_sub p new (drop (length p) s)
      else hd s # replace_sub p new (tl s))"
  by pat_completeness auto
termination by (relation "measure (\<lambda>(p, new, s). length s)") auto

declare count_sub.simps [simp del] replace_sub.simps [simp del]

definition placeholder :: string where
  "placeholder = ''{artifact_pack}''"

definition PromptTemplate :: "prompt_template \<Rightarrow> method_error + prompt_template" where
  "PromptTemplate t =
     (if template_id t = '''' \<or> template_version t = '''' \<or> template_text t = ''''
        then Inl (MethodValue ''prompt template identity and text are required'')
      else if count_sub placeholder (template_text t) \<noteq> 1
        then Inl (MethodValue ''prompt template must contain exactly one artifact_pack placeholder'')
      else Inr t)"

definition template_hash :: "(json \<Rightarrow> string) \<Rightarrow> prompt_template \<Rightarrow> string" where
  "template_hash sha t = sha (JObj
     [(''template_id'', JStr (template_id t)), (''version'', JStr (template_version t)),
      (''text'', JStr (template_text t)), (''policy'', policy_dict (template_policy t))])"

definition render :: "prompt_template \<Rightarrow> string \<Rightarrow> string" where
  "render t pack = replace_sub placeholder pack (template_text t)"

section \<open>Candidates\<close>

datatype candidate = Compiled invariant | Parsed json

text \<open>The claimed hash and the body a candidate exposes.\<close>

definition claimed_hash :: "candidate \<Rightarrow> json" where
  "claimed_hash c = (case c of
       Compiled i \<Rightarrow> JStr (canonical_hash i)
     | Parsed (JObj d) \<Rightarrow> jget d ''canonical_hash''
     | Parsed _ \<Rightarrow> JNull)"

definition exposed_body :: "candidate \<Rightarrow> json" where
  "exposed_body c = (case c of
       Compiled i \<Rightarrow> as_dict (inv_body i)
     | Parsed (JObj d) \<Rightarrow> jget d ''body''
     | Parsed _ \<Rightarrow> JNull)"

definition semantic_identity :: "(json \<Rightarrow> string) \<Rightarrow> candidate \<Rightarrow> string option" where
  "semantic_identity sha c = (case claimed_hash c of
       JStr h \<Rightarrow>
         if sha_digest h \<and> is_obj (exposed_body c) \<and> sha256_hex sha (exposed_body c) = Some h
         then Some h else None
     | _ \<Rightarrow> None)"

text \<open>
  A compiled invariant is not JSON: hashing it raises TypeError, which becomes ValueError.
\<close>

definition candidate_identity ::
    "(json \<Rightarrow> string) \<Rightarrow> candidate \<Rightarrow> method_error + string \<times> string option" where
  "candidate_identity sha c = (case semantic_identity sha c of
       Some h \<Rightarrow> Inr (h, Some h)
     | None \<Rightarrow>
         (case (case c of Compiled _ \<Rightarrow> None | Parsed v \<Rightarrow> sha256_hex sha v) of
            Some h \<Rightarrow> Inr (h, None)
          | None \<Rightarrow> Inl (MethodValue ''candidate cannot be assigned a deterministic identity'')))"

section \<open>Slots\<close>

datatype slot_status =
  SlotPending | SlotCandidate | SlotDuplicate | SlotAbstain | SlotInvalid | SlotTruncated
  | SlotRefusal | SlotProviderFailure

fun slot_status_value :: "slot_status \<Rightarrow> string" where
  "slot_status_value SlotPending = ''pending''"
| "slot_status_value SlotCandidate = ''candidate''"
| "slot_status_value SlotDuplicate = ''duplicate''"
| "slot_status_value SlotAbstain = ''abstain''"
| "slot_status_value SlotInvalid = ''invalid''"
| "slot_status_value SlotTruncated = ''truncated''"
| "slot_status_value SlotRefusal = ''refusal''"
| "slot_status_value SlotProviderFailure = ''provider_failure''"

record proposal_slot =
  slot_id :: string
  slot_index :: nat
  slot_state :: slot_status
  slot_response_hash :: "string option"
  slot_candidate :: "candidate option"
  slot_reason :: "string option"
  slot_ast_hash :: "string option"

definition candidate_json :: "candidate option \<Rightarrow> json" where
  "candidate_json c = (case c of
       None \<Rightarrow> JNull | Some (Compiled i) \<Rightarrow> invariant_as_dict i | Some (Parsed v) \<Rightarrow> v)"

definition slot_dict :: "proposal_slot \<Rightarrow> json dict" where
  "slot_dict s =
     [(''slot_id'', JStr (slot_id s)), (''index'', JInt (int (slot_index s))),
      (''status'', JStr (slot_status_value (slot_state s))),
      (''raw_response_hash'', option_json (slot_response_hash s)),
      (''candidate'', candidate_json (slot_candidate s)), (''reason'', option_json (slot_reason s)),
      (''canonical_ast_hash'', option_json (slot_ast_hash s))]"

record ordered_slots =
  os_attempt :: string
  os_policy :: prompt_policy
  os_slots :: "proposal_slot list"

definition pending_slot :: "string \<Rightarrow> nat \<Rightarrow> proposal_slot" where
  "pending_slot attempt i =
     \<lparr>slot_id = attempt @ '':slot:'' @ string_of_nat i, slot_index = i, slot_state = SlotPending,
      slot_response_hash = None, slot_candidate = None, slot_reason = None, slot_ast_hash = None\<rparr>"

definition OrderedProposalSlots :: "string \<Rightarrow> prompt_policy \<Rightarrow> method_error + ordered_slots" where
  "OrderedProposalSlots attempt p =
     (if attempt = '''' then Inl (MethodValue ''attempt_id is required'')
      else Inr \<lparr>os_attempt = attempt, os_policy = p,
                os_slots = map (pending_slot attempt) [0 ..< nat (proposal_slots p)]\<rparr>)"

definition record_slot ::
    "int \<Rightarrow> slot_status \<Rightarrow> string option \<Rightarrow> candidate option \<Rightarrow> string option \<Rightarrow> string option
       \<Rightarrow> ordered_slots \<Rightarrow> method_error + proposal_slot \<times> ordered_slots" where
  "record_slot index status response_hash cand reason ast os =
     (if index < 0 \<or> int (length (os_slots os)) \<le> index
        then Inl (MethodIndex ''proposal slot index out of bounds'')
      else if status = SlotPending then Inl (MethodValue ''recorded slot status must be terminal'')
      else let current = os_slots os ! nat index in
        if slot_state current \<noteq> SlotPending
          then Inl (MethodValue ''proposal slot already has a terminal record'')
        else if status = SlotCandidate \<and> cand = None
          then Inl (MethodValue ''candidate slot requires candidate payload'')
        else if status \<noteq> SlotCandidate \<and> cand \<noteq> None
          then Inl (MethodValue ''non-candidate slot cannot carry a candidate payload'')
        else if (case ast of None \<Rightarrow> False | Some h \<Rightarrow> \<not> sha_digest h)
          then Inl (MethodValue ''canonical_ast_hash must be a lowercase SHA-256 digest'')
        else if ast \<noteq> None \<and> status \<notin> {SlotCandidate, SlotDuplicate}
          then Inl (MethodValue ''canonical_ast_hash requires a candidate or duplicate slot'')
        else
          let updated = \<lparr>slot_id = slot_id current, slot_index = nat index, slot_state = status,
                         slot_response_hash = response_hash, slot_candidate = cand,
                         slot_reason = reason, slot_ast_hash = ast\<rparr>
          in Inr (updated, os\<lparr>os_slots := (os_slots os)[nat index := updated]\<rparr>))"

definition slots_complete :: "ordered_slots \<Rightarrow> bool" where
  "slots_complete os = list_all (\<lambda>s. slot_state s \<noteq> SlotPending) (os_slots os)"

section \<open>Classifying a response\<close>

definition blank :: "string option \<Rightarrow> bool" where
  "blank t = (case t of None \<Rightarrow> True | Some s \<Rightarrow> \<not> strip_nonempty s)"

definition classify_response ::
    "(string \<Rightarrow> json option) \<Rightarrow> provider_response \<Rightarrow> candidate option
       \<Rightarrow> slot_status \<times> candidate option \<times> string option" where
  "classify_response loads r cand =
     (if resp_error r \<noteq> None then (SlotProviderFailure, None, resp_error r)
      else if resp_partial r then (SlotTruncated, None, Some ''provider_response_partial'')
      else if blank (resp_text r) then (SlotRefusal, None, Some ''empty_response'')
      else (case loads (the (resp_text r)) of
         None \<Rightarrow> (SlotInvalid, None, Some ''response_not_json'')
       | Some parsed \<Rightarrow>
           (case (case parsed of JObj d \<Rightarrow> if jget d ''abstain'' = JBool True then Some d else None | _ \<Rightarrow> None) of
              Some d \<Rightarrow> (SlotAbstain, None, Some (case jget d ''reason'' of JStr s \<Rightarrow> s | _ \<Rightarrow> ''explicit_abstain''))
            | None \<Rightarrow>
                if cand \<noteq> None then (SlotCandidate, cand, None)
                else (SlotInvalid, None, Some ''candidate_not_compiled''))))"

end
