(* ===== verification/Method_Runner.thy ===== *)
theory Method_Runner
  imports Method_Proposal
begin

text \<open>
  The ordered proposal loop of one method attempt (\<^verbatim>\<open>methods/runner.py\<close>), token measurement
  (\<^verbatim>\<open>providers/tokenizer.py\<close>) and token budgets (\<^verbatim>\<open>providers/budget.py\<close>). The provider client is
  the function \<open>propose\<close> of the slot index; the candidate parser may raise.
\<close>

section \<open>Token measurement\<close>

record tokenizer_identity =
  encoding_id :: string
  tokenizer_revision :: string
  tokenizer_artifact :: string

definition TokenizerIdentity :: "tokenizer_identity \<Rightarrow> method_error + tokenizer_identity" where
  "TokenizerIdentity t =
     (if encoding_id t = '''' \<or> tokenizer_revision t = '''' \<or> tokenizer_artifact t = ''''
        then Inl (MethodValue ''tokenizer identity requires encoding, revision and artifact hash'')
      else Inr t)"

definition identity_fields :: "tokenizer_identity \<Rightarrow> json dict" where
  "identity_fields t =
     [(''encoding_id'', JStr (encoding_id t)), (''revision'', JStr (tokenizer_revision t)),
      (''artifact_hash'', JStr (tokenizer_artifact t))]"

definition identity_hash :: "(json \<Rightarrow> string) \<Rightarrow> tokenizer_identity \<Rightarrow> string" where
  "identity_hash sha t = sha (JObj (identity_fields t))"

definition tokenizer_dict :: "(json \<Rightarrow> string) \<Rightarrow> tokenizer_identity \<Rightarrow> json" where
  "tokenizer_dict sha t = JObj (identity_fields t @ [(''identity_hash'', JStr (identity_hash sha t))])"

datatype encoder_result = EncoderRaised string | EncoderText | EncoderNotIterable | EncoderTokens "json list"

definition token_id :: "json \<Rightarrow> bool" where
  "token_id v = (case v of JInt i \<Rightarrow> 0 \<le> i | _ \<Rightarrow> False)"

text \<open>The left side is TokenizationError with its message.\<close>

definition token_count :: "(string \<Rightarrow> encoder_result) \<Rightarrow> string \<Rightarrow> string + int" where
  "token_count encoder text = (case encoder text of
       EncoderRaised e \<Rightarrow> Inl (''encoder_failed:'' @ e)
     | EncoderText \<Rightarrow> Inl ''encoder must return a sequence of token IDs''
     | EncoderNotIterable \<Rightarrow> Inl ''encoder result is not iterable''
     | EncoderTokens vs \<Rightarrow>
         if list_all token_id vs then Inr (int (length vs)) else Inl ''encoder returned invalid token IDs'')"

record token_measurement =
  measured_by :: tokenizer_identity
  prompt_tokens :: "int option"
  generated_tokens :: "int option"
  missing_reasons :: "string dict"

definition count_value :: "string + int \<Rightarrow> int option" where
  "count_value r = (case r of Inl _ \<Rightarrow> None | Inr n \<Rightarrow> Some n)"

definition count_missing :: "string \<Rightarrow> string + int \<Rightarrow> string dict" where
  "count_missing key r = (case r of Inl e \<Rightarrow> [(key, e)] | Inr _ \<Rightarrow> [])"

definition measure_tokens ::
    "tokenizer_identity \<Rightarrow> (string \<Rightarrow> encoder_result) \<Rightarrow> string \<Rightarrow> string option \<Rightarrow> token_measurement" where
  "measure_tokens identity encoder prompt generated =
     (let p = token_count encoder prompt;
          g = (case generated of None \<Rightarrow> Inl ''generated_text_unavailable'' | Some t \<Rightarrow> token_count encoder t)
      in \<lparr>measured_by = identity, prompt_tokens = count_value p, generated_tokens = count_value g,
          missing_reasons = count_missing ''prompt_tokens'' p @ count_missing ''generated_tokens'' g\<rparr>)"

definition measurement_dict :: "(json \<Rightarrow> string) \<Rightarrow> token_measurement \<Rightarrow> json" where
  "measurement_dict sha m = JObj
     [(''tokenizer'', tokenizer_dict sha (measured_by m)), (''prompt_tokens'', int_option (prompt_tokens m)),
      (''generated_tokens'', int_option (generated_tokens m)),
      (''missing_field_reasons'', JObj (map (\<lambda>(k, v). (k, JStr v)) (missing_reasons m)))]"

section \<open>Budgets\<close>

datatype budget_status = BudgetPass | BudgetFail | BudgetUnknown

record token_budget =
  input_cap :: int
  generated_cap :: int

definition default_budget :: token_budget where
  "default_budget = \<lparr>input_cap = 32768, generated_cap = 8192\<rparr>"

definition TokenBudget :: "token_budget \<Rightarrow> method_error + token_budget" where
  "TokenBudget b =
     (if input_cap b \<le> 0 \<or> generated_cap b \<le> 0 then Inl (MethodValue ''token caps must be positive'') else Inr b)"

record budget_check =
  check_status :: budget_status
  check_prompt :: "int option"
  check_generated :: "int option"
  check_reason :: "string option"

definition budget_result :: "string \<Rightarrow> int option \<Rightarrow> int option \<Rightarrow> token_budget \<Rightarrow> budget_check" where
  "budget_result unavailable prompt generated b =
     (let result = (\<lambda>status reason. \<lparr>check_status = status, check_prompt = prompt,
                                     check_generated = generated, check_reason = reason\<rparr>) in
      case (prompt, generated) of
        (Some p, Some g) \<Rightarrow>
          if input_cap b < p then result BudgetFail (Some ''input_token_cap_exceeded'')
          else if generated_cap b < g then result BudgetFail (Some ''generated_token_cap_exceeded'')
          else result BudgetPass None
      | _ \<Rightarrow> result BudgetUnknown (Some unavailable))"

text \<open>\<^verbatim>\<open>response.usage.get(key)\<close>.\<close>

definition usage_get :: "provider_response \<Rightarrow> string \<Rightarrow> int option" where
  "usage_get r k = (case dict_get (resp_usage r) k of None \<Rightarrow> None | Some v \<Rightarrow> v)"

definition validate_usage :: "provider_response \<Rightarrow> token_budget \<Rightarrow> budget_check" where
  "validate_usage r b =
     budget_result ''provider_usage_unavailable'' (usage_get r ''prompt_tokens'') (usage_get r ''generated_tokens'') b"

definition validate_measurement :: "token_measurement \<Rightarrow> token_budget \<Rightarrow> budget_check" where
  "validate_measurement m b =
     budget_result ''tokenizer_measurement_unavailable'' (prompt_tokens m) (generated_tokens m) b"

section \<open>The loop\<close>

datatype method_track = TrackCrossLLM | TrackDirect | TrackT0

fun method_track_value :: "method_track \<Rightarrow> string" where
  "method_track_value TrackCrossLLM = ''X''"
| "method_track_value TrackDirect = ''P''"
| "method_track_value TrackT0 = ''T0''"

record method_run =
  run_track :: method_track
  run_backbone :: string
  run_attempt :: string
  run_template_hash :: string
  run_pack_hash :: string
  run_settings :: "json dict"
  run_slots :: "proposal_slot list"
  run_responses :: "provider_response list"
  run_measurements :: "token_measurement list"
  run_checks :: "budget_check list"

fun budget_status_value :: "budget_status \<Rightarrow> string" where
  "budget_status_value BudgetPass = ''pass''"
| "budget_status_value BudgetFail = ''fail''"
| "budget_status_value BudgetUnknown = ''unknown''"

definition check_dict :: "budget_check \<Rightarrow> json" where
  "check_dict c = JObj
     [(''status'', JStr (budget_status_value (check_status c))), (''prompt_tokens'', int_option (check_prompt c)),
      (''generated_tokens'', int_option (check_generated c)), (''reason'', option_json (check_reason c))]"

definition run_dict :: "(json \<Rightarrow> string) \<Rightarrow> float_text \<Rightarrow> method_run \<Rightarrow> json" where
  "run_dict sha F m = JObj
     [(''track'', JStr (method_track_value (run_track m))), (''backbone'', JStr (run_backbone m)),
      (''attempt_id'', JStr (run_attempt m)), (''template_hash'', JStr (run_template_hash m)),
      (''artifact_pack_hash'', JStr (run_pack_hash m)), (''settings'', JObj (run_settings m)),
      (''slots'', JArr (map (\<lambda>s. JObj (slot_dict s)) (run_slots m))),
      (''provider_responses'', JArr (map (\<lambda>r. JObj (response_dict F r)) (run_responses m))),
      (''token_measurements'', JArr (map (measurement_dict sha) (run_measurements m))),
      (''budget_checks'', JArr (map check_dict (run_checks m)))]"

text \<open>\<^verbatim>\<open>parse_candidate\<close> may return nothing, return a candidate, or raise; the loop catches two kinds.\<close>

datatype parse_result = Candidate "candidate option" | ParseValueError | ParseTypeError | ParseOther string

type_synonym candidate_parser = "string \<Rightarrow> parse_result"

record method_runner =
  propose :: "nat \<Rightarrow> provider_response"
  runner_slots :: int
  token_counter :: "(tokenizer_identity \<times> (string \<Rightarrow> encoder_result)) option"
  runner_budget :: token_budget

definition model_mismatch :: "string option \<Rightarrow> provider_response \<Rightarrow> bool" where
  "model_mismatch expected r = (case expected of
       None \<Rightarrow> False | Some m \<Rightarrow> resp_error r = None \<and> resp_model r \<noteq> Some m)"

definition parsed_candidate ::
    "candidate_parser \<Rightarrow> string option \<Rightarrow> provider_response \<Rightarrow> method_error + candidate option" where
  "parsed_candidate parser expected r =
     (if \<not> model_mismatch expected r \<and> response_ok r \<and> \<not> resp_partial r then
        (case parser (the (resp_text r)) of
           Candidate c \<Rightarrow> Inr c
         | ParseOther e \<Rightarrow> Inl (ParserRaised e)
         | _ \<Rightarrow> Inr None)
      else Inr None)"

type_synonym slot_outcome = "slot_status \<times> candidate option \<times> string option"

definition classified ::
    "(string \<Rightarrow> json option) \<Rightarrow> string option \<Rightarrow> provider_response \<Rightarrow> candidate option \<Rightarrow> slot_outcome" where
  "classified loads expected r c =
     (if model_mismatch expected r then (SlotProviderFailure, None, Some ''response_model_mismatch'')
      else classify_response loads r c)"

text \<open>The identity and the semantic hash of a classified candidate, when it has them.\<close>

definition identities :: "(json \<Rightarrow> string) \<Rightarrow> candidate option \<Rightarrow> string option \<times> string option" where
  "identities sha c = (case c of
       None \<Rightarrow> (None, None)
     | Some cand \<Rightarrow> (case candidate_identity sha cand of
          Inl _ \<Rightarrow> (None, None) | Inr (h, ast) \<Rightarrow> (Some h, ast)))"

definition deduplicated :: "string option \<Rightarrow> string list \<Rightarrow> slot_outcome \<Rightarrow> slot_outcome" where
  "deduplicated h seen oc = (case h of
       Some x \<Rightarrow> if x \<in> set seen then (SlotDuplicate, None, Some ''duplicate_candidate'') else oc
     | None \<Rightarrow> oc)"

definition slot_check :: "method_runner \<Rightarrow> string \<Rightarrow> provider_response \<Rightarrow> token_measurement list \<times> budget_check" where
  "slot_check R prompt r =
     (let usage = validate_usage r (runner_budget R) in
      case token_counter R of
        None \<Rightarrow> ([], usage)
      | Some (identity, encoder) \<Rightarrow>
          let m = measure_tokens identity encoder prompt (resp_text r);
              measured = validate_measurement m (runner_budget R)
          in ([m], if check_status measured = BudgetFail then measured
                   else if check_status usage \<noteq> BudgetFail then measured else usage))"

definition enforced :: "budget_check \<Rightarrow> slot_outcome \<Rightarrow> slot_outcome" where
  "enforced check oc = (case oc of (status, c, reason) \<Rightarrow>
     if check_status check = BudgetFail \<and> status \<notin> {SlotDuplicate, SlotProviderFailure}
     then (SlotInvalid, None, check_reason check) else oc)"

record run_vars =
  rv_slots :: ordered_slots
  rv_recorded :: "proposal_slot list"
  rv_responses :: "provider_response list"
  rv_measurements :: "token_measurement list"
  rv_checks :: "budget_check list"
  rv_hashes :: "string list"

definition run_slot ::
    "(json \<Rightarrow> string) \<Rightarrow> (string \<Rightarrow> json option) \<Rightarrow> method_runner \<Rightarrow> candidate_parser \<Rightarrow> string option \<Rightarrow> string
       \<Rightarrow> nat \<Rightarrow> run_vars \<Rightarrow> method_error + run_vars" where
  "run_slot sha loads R parser expected prompt i v =
     (let r = propose R i in
      bind_result (parsed_candidate parser expected r) (\<lambda>c.
        let oc = classified loads expected r c;
            (h, ast) = identities sha (fst (snd oc));
            (ms, check) = slot_check R prompt r;
            (status, cand, reason) = enforced check (deduplicated h (rv_hashes v) oc)
        in bind_result (record_slot (int i) status (resp_hash r) cand reason
                          (if status \<in> {SlotCandidate, SlotDuplicate} then ast else None) (rv_slots v)) (\<lambda>(s, os).
           Inr \<lparr>rv_slots = os, rv_recorded = rv_recorded v @ [os_slots os ! i],
                rv_responses = rv_responses v @ [r],
                rv_measurements = rv_measurements v @ ms, rv_checks = rv_checks v @ [check],
                rv_hashes = (case h of
                    Some x \<Rightarrow> if status = SlotCandidate then x # rv_hashes v else rv_hashes v
                  | None \<Rightarrow> rv_hashes v)\<rparr>)))"

fun run_slots_from ::
    "(json \<Rightarrow> string) \<Rightarrow> (string \<Rightarrow> json option) \<Rightarrow> method_runner \<Rightarrow> candidate_parser \<Rightarrow> string option \<Rightarrow> string
       \<Rightarrow> nat list \<Rightarrow> run_vars \<Rightarrow> method_error + run_vars" where
  "run_slots_from sha loads R parser expected prompt [] v = Inr v"
| "run_slots_from sha loads R parser expected prompt (i # is) v =
     bind_result (run_slot sha loads R parser expected prompt i v)
       (run_slots_from sha loads R parser expected prompt is)"

definition MethodRunner :: "method_runner \<Rightarrow> method_error + method_runner" where
  "MethodRunner R =
     (if runner_slots R \<le> 0 then Inl (MethodValue ''proposal_slots must be positive'') else Inr R)"

record run_request =
  rq_track :: method_track
  rq_backbone :: string
  rq_model :: string
  rq_attempt :: string
  rq_template :: prompt_template
  rq_pack_text :: string
  rq_pack_hash :: string
  rq_settings :: "json dict"
  rq_parser :: "candidate_parser option"
  rq_expected :: "string option"

definition run_method ::
    "(json \<Rightarrow> string) \<Rightarrow> (string \<Rightarrow> json option) \<Rightarrow> method_runner \<Rightarrow> run_request \<Rightarrow> method_error + method_run" where
  "run_method sha loads R q =
     (if rq_backbone q = '''' \<or> rq_model q = '''' \<or> rq_pack_hash q = ''''
        then Inl (MethodValue ''backbone, model and artifact_pack_hash are required'')
      else if rq_expected q = Some ''''
        then Inl (MethodValue ''expected_response_model must be non-empty when provided'')
      else if proposal_slots (template_policy (rq_template q)) \<noteq> runner_slots R
        then Inl (MethodValue ''template and runner slot counts must match'')
      else
        let prompt = render (rq_template q) (rq_pack_text q);
            parser = (case rq_parser q of None \<Rightarrow> (\<lambda>_. Candidate None) | Some p \<Rightarrow> p)
        in bind_result (OrderedProposalSlots (rq_attempt q) (template_policy (rq_template q))) (\<lambda>os.
           bind_result (run_slots_from sha loads R parser (rq_expected q) prompt [0 ..< nat (runner_slots R)]
               \<lparr>rv_slots = os, rv_recorded = [], rv_responses = [], rv_measurements = [], rv_checks = [], rv_hashes = []\<rparr>) (\<lambda>v.
             Inr \<lparr>run_track = rq_track q, run_backbone = rq_backbone q, run_attempt = rq_attempt q,
                  run_template_hash = template_hash sha (rq_template q), run_pack_hash = rq_pack_hash q,
                  run_settings = rq_settings q, run_slots = rv_recorded v,
                  run_responses = rv_responses v, run_measurements = rv_measurements v,
                  run_checks = rv_checks v\<rparr>)))"

end
