(* ===== verification/Runtime_Method_Events.thy ===== *)
theory Runtime_Method_Events
  imports Runtime_Lifecycle Method_Runner
begin

text \<open>
  The runtime events of one method run (\<^verbatim>\<open>runtime/method_events.py\<close>), appended to any event store.
  \<open>ids\<close> gives the identifiers the factory returns on its successive calls; an event that carries
  a credential is refused before it is stored, and what was appended before it stays.
\<close>

section \<open>Credentials\<close>

definition credential_names :: "string list" where
  "credential_names = [''api_key'', ''ollama_api_key'', ''authorization'', ''bearer_token'']"

fun has_secret :: "json \<Rightarrow> bool" where
  "has_secret (JObj d) = list_ex (\<lambda>kv. map ascii_lower (fst kv) \<in> set credential_names \<or> has_secret (snd kv)) d"
| "has_secret (JArr xs) = list_ex has_secret xs"
| "has_secret _ = False"

definition secret_error :: runtime_error where
  "secret_error = RuntimeValue ''method runtime events cannot archive provider credentials''"

section \<open>The events of a run\<close>

definition run_metadata :: "method_run \<Rightarrow> json dict" where
  "run_metadata m =
     [(''track'', JStr (method_track_value (run_track m))), (''backbone'', JStr (run_backbone m)),
      (''attempt_id'', JStr (run_attempt m)), (''template_hash'', JStr (run_template_hash m)),
      (''artifact_pack_hash'', JStr (run_pack_hash m)), (''settings'', JObj (run_settings m))]"

definition providerless_t0 :: "method_run \<Rightarrow> bool" where
  "providerless_t0 m \<longleftrightarrow> run_track m = TrackT0 \<and> run_responses m = []"

definition slot_events :: "float_text \<Rightarrow> method_run \<Rightarrow> nat \<Rightarrow> (string \<times> json dict) list" where
  "slot_events F m i =
     (let track = (''track'', JStr (method_track_value (run_track m)));
          index = (''slot_index'', JInt (int i))
      in (if providerless_t0 m then []
          else [(''provider_response'', [track, index, (''response'', JObj (response_dict F (run_responses m ! i)))])])
         @ [(''proposal_slot_recorded'',
             [track, index, (''slot'', JObj (slot_dict (run_slots m ! i))),
              (''provider_response'', if providerless_t0 m then JNull
                                    else JStr ''recorded_in_provider_response_event''),
              (''provider_call'', JBool (\<not> providerless_t0 m))])])"

definition completion_payload :: "method_run \<Rightarrow> json dict" where
  "completion_payload m = run_metadata m @
     [(''slot_count'', JInt (int (length (run_slots m)))),
      (''provider_call_count'', JInt (int (length (run_responses m)))),
      (''token_measurement_count'', JInt (int (length (run_measurements m)))),
      (''budget_check_count'', JInt (int (length (run_checks m))))]"

definition run_events :: "float_text \<Rightarrow> method_run \<Rightarrow> (string \<times> json dict) list" where
  "run_events F m =
     (''method_started'', run_metadata m) #
     concat (map (slot_events F m) [0 ..< length (run_slots m)]) @
     [(''method_completed'', completion_payload m)]"

definition method_event :: "string \<Rightarrow> string \<Rightarrow> string \<Rightarrow> string \<Rightarrow> string \<times> json dict \<Rightarrow> event_log" where
  "method_event campaign timestamp attempt identifier e =
     \<lparr>event_id = identifier, event_type = fst e, ev_campaign_id = campaign, ev_attempt_id = attempt,
      ev_timestamp = timestamp, payload = JObj (snd e), schema_version = 1, terminal = False,
      monotonic_seconds = None, duration_seconds = None, missing_field_reasons = JObj []\<rparr>"

section \<open>Appending them\<close>

fun append_events ::
    "'s event_sink \<Rightarrow> (nat \<Rightarrow> string) \<Rightarrow> (string \<Rightarrow> string \<times> json dict \<Rightarrow> event_log) \<Rightarrow> nat
       \<Rightarrow> (string \<times> json dict) list \<Rightarrow> 's \<Rightarrow> (runtime_error + nat) \<times> 's" where
  "append_events sink ids event n [] s = (Inr n, s)"
| "append_events sink ids event n (e # es) s =
     (if has_secret (JObj (snd e)) then (Inl secret_error, s)
      else case sink (event (ids n) e) s of
             (Some err, s') \<Rightarrow> (Inl err, s')
           | (None, s') \<Rightarrow> append_events sink ids event (Suc n) es s')"

definition append_method_run_events ::
    "float_text \<Rightarrow> 's event_sink \<Rightarrow> (nat \<Rightarrow> string) \<Rightarrow> string \<Rightarrow> string \<Rightarrow> method_run \<Rightarrow> 's
       \<Rightarrow> (runtime_error + nat) \<times> 's" where
  "append_method_run_events F sink ids campaign timestamp m s =
     (if campaign = '''' \<or> timestamp = ''''
        then (Inl (RuntimeValue ''campaign_id and timestamp are required''), s)
      else if \<not> providerless_t0 m \<and> length (run_responses m) \<noteq> length (run_slots m)
        then (Inl (RuntimeValue ''method run must have one provider response per proposal slot''), s)
      else if has_secret (JObj (run_metadata m)) then (Inl secret_error, s)
      else append_events sink ids (method_event campaign timestamp (run_attempt m)) 0 (run_events F m) s)"

section \<open>What is appended\<close>

definition event_run ::
    "(nat \<Rightarrow> string) \<Rightarrow> (string \<Rightarrow> string \<times> json dict \<Rightarrow> event_log) \<Rightarrow> nat \<Rightarrow> (string \<times> json dict) list \<Rightarrow> event_log list" where
  "event_run ids event n es = map (\<lambda>(i, e). event (ids i) e) (enumerate n es)"

lemma event_run_simps [simp]:
  "event_run ids event n [] = []"
  "event_run ids event n (e # es) = event (ids n) e # event_run ids event (Suc n) es"
  by (simp_all add: event_run_def)

text \<open>A store that keeps the sink contract receives the events in order, and all of them or a prefix.\<close>

context sink_contract begin

lemma append_events_stores:
  assumes "sink_ok s" "append_events sink ids event n es s = (r, s')"
  shows "sink_ok s' \<and> (\<exists>k \<le> length es. events_of s' = events_of s @ event_run ids event n (take k es) \<and>
    list_all (\<lambda>e. \<not> has_secret (JObj (snd e))) (take k es) \<and> (\<forall>c. r = Inr c \<longrightarrow> k = length es \<and> c = n + length es))"
  using assms
proof (induction es arbitrary: n s)
  case Nil
  then show ?case by auto
next
  case (Cons e es)
  show ?case
  proof (cases "has_secret (JObj (snd e))")
    case True
    with Cons.prems show ?thesis by (auto intro!: exI [of _ 0])
  next
    case safe: False
    obtain err s1 where s1: "sink (event (ids n) e) s = (err, s1)" by fastforce
    note kept = sink_cases [OF Cons.prems(1) s1]
    show ?thesis
    proof (cases err)
      case (Some x)
      with Cons.prems safe s1 kept show ?thesis by (auto intro!: exI [of _ 0])
    next
      case None
      then have "append_events sink ids event (Suc n) es s1 = (r, s')" using Cons.prems safe s1 by simp
      from Cons.IH [OF _ this] kept obtain k where "sink_ok s'" "k \<le> length es"
        "events_of s' = events_of s1 @ event_run ids event (Suc n) (take k es)"
        "list_all (\<lambda>e. \<not> has_secret (JObj (snd e))) (take k es)"
        "\<forall>c. r = Inr c \<longrightarrow> k = length es \<and> c = Suc n + length es" by blast
      with kept None safe show ?thesis by (intro conjI exI [of _ "Suc k"]) auto
    qed
  qed
qed

end

lemma length_run_events:
  "length (run_events F m) = 2 + length (run_slots m) + (if providerless_t0 m then 0 else length (run_slots m))"
proof -
  have "sum_list (map (\<lambda>i. length (slot_events F m i)) is) = length is + (if providerless_t0 m then 0 else length is)"
    for "is"
    by (induction "is") (auto simp: slot_events_def Let_def)
  then show ?thesis by (simp add: run_events_def length_concat comp_def)
qed

text \<open>The record of each slot, and before it the provider's answer, in the order of the slots.\<close>

lemma run_events_slots:
  "filter (\<lambda>e. fst e = ''proposal_slot_recorded'') (run_events F m) =
     map (\<lambda>i. last (slot_events F m i)) [0 ..< length (run_slots m)]"
proof -
  have "filter (\<lambda>e. fst e = ''proposal_slot_recorded'') (concat (map (slot_events F m) is))
      = map (\<lambda>i. last (slot_events F m i)) is" for "is"
    by (induction "is") (auto simp: slot_events_def Let_def)
  then show ?thesis by (simp add: run_events_def)
qed

section \<open>When all of them are accepted\<close>

definition fresh_ids :: "(nat \<Rightarrow> string) \<Rightarrow> nat \<Rightarrow> nat \<Rightarrow> event_store \<Rightarrow> bool" where
  "fresh_ids ids n k s \<longleftrightarrow> inj_on ids {n ..< n + k} \<and>
     (\<forall>i \<in> {n ..< n + k}. ids i \<noteq> '''' \<and> ids i \<notin> event_id ` set (store_events s))"

definition open_attempt :: "string \<Rightarrow> event_store \<Rightarrow> bool" where
  "open_attempt attempt s \<longleftrightarrow> (\<forall>ev \<in> set (store_events s). terminal ev \<longrightarrow> ev_attempt_id ev \<noteq> attempt)"

lemma store_accepts_method_event:
  assumes "store_ok s" "campaign \<noteq> ''''" "timestamp \<noteq> ''''" "attempt \<noteq> ''''" "fst e \<noteq> ''''"
    and "i \<noteq> ''''" "i \<notin> event_id ` set (store_events s)" "open_attempt attempt s"
  shows "store_append (method_event campaign timestamp attempt i e) s
    = (None, commit (method_event campaign timestamp attempt i e) s)"
proof -
  let ?ev = "method_event campaign timestamp attempt i e"
  have "valid_stream (store_events s @ [?ev])"
    using assms by (auto simp: valid_stream_snoc_iff store_ok_def well_formed_event_def method_event_def open_attempt_def)
  moreover have "\<not> terminal ?ev" by (simp add: method_event_def)
  ultimately have "check_append ?ev s = None"
    using assms(1,7) by (auto simp: check_append_def store_ok_def valid_stream_def method_event_def)
  then show ?thesis by (simp add: store_append_def)
qed

lemma append_events_all:
  assumes "store_ok s" "campaign \<noteq> ''''" "timestamp \<noteq> ''''" "attempt \<noteq> ''''"
    and "fresh_ids ids n (length es) s" "open_attempt attempt s"
    and "list_all (\<lambda>e. fst e \<noteq> '''' \<and> \<not> has_secret (JObj (snd e))) es"
  shows "\<exists>s'. append_events store_append ids (method_event campaign timestamp attempt) n es s = (Inr (n + length es), s')"
  using assms
proof (induction es arbitrary: n s)
  case Nil
  then show ?case by simp
next
  case (Cons e es)
  let ?ev = "method_event campaign timestamp attempt (ids n) e" and ?s = "commit (method_event campaign timestamp attempt (ids n) e) s"
  have n: "n \<in> {n ..< n + length (e # es)}" "{Suc n ..< Suc n + length es} \<subseteq> {n ..< n + length (e # es)}" by auto
  then have new: "ids n \<noteq> ''''" "ids n \<notin> event_id ` set (store_events s)" using Cons.prems(5) by (auto simp: fresh_ids_def)
  have step: "store_append ?ev s = (None, ?s)"
    using Cons.prems new by (intro store_accepts_method_event) auto
  have "store_ok ?s" using memory_sink.keeps_ok [OF Cons.prems(1) step] .
  moreover have "fresh_ids ids (Suc n) (length es) ?s"
    unfolding fresh_ids_def
  proof (intro conjI ballI)
    show "inj_on ids {Suc n ..< Suc n + length es}"
      using Cons.prems(5) n(2) by (auto simp: fresh_ids_def intro: inj_on_subset)
    fix i assume i: "i \<in> {Suc n ..< Suc n + length es}"
    then have "ids i \<noteq> ids n"
      using Cons.prems(5) n inj_onD [of ids "{n ..< n + length (e # es)}" i n] by (auto simp: fresh_ids_def)
    with i n(2) Cons.prems(5) show "ids i \<noteq> ''''" "ids i \<notin> event_id ` set (store_events ?s)"
      by (auto simp: fresh_ids_def method_event_def)
  qed
  moreover have "open_attempt attempt ?s"
    using Cons.prems(6) by (auto simp: open_attempt_def commit_def method_event_def)
  ultimately obtain s' where "append_events store_append ids (method_event campaign timestamp attempt) (Suc n) es ?s
      = (Inr (Suc n + length es), s')" using Cons.IH Cons.prems(2-4,7) by fastforce
  with step Cons.prems(7) show ?case by simp
qed

end
