(* ===== verification/Runtime_Properties.thy ===== *)
theory Runtime_Properties
  imports Runtime_Lifecycle Runtime_Method_Events
begin

text \<open>
  The properties of the event contract, the event stores and the campaign state machine.
\<close>

section \<open>Runs of a persistent store\<close>

inductive store_step :: "persistent_store \<Rightarrow> persistent_store \<Rightarrow> bool" where
  append: "persistent_append ev ps = (e, ps') \<Longrightarrow> store_step ps ps'"
| flush: "flush ps = (e, ps') \<Longrightarrow> store_step ps ps'"

lemma store_step_keeps:
  assumes "store_step ps ps'" "persistent_ok ps"
  shows "persistent_ok ps' \<and> (\<exists>more. store_events (memory ps') = store_events (memory ps) @ more)"
  using assms(1)
proof (cases rule: store_step.cases)
  case (append ev e)
  from persistent_sink.keeps_ok [OF assms(2) append] persistent_sink.sink_cases [OF assms(2) append]
  show ?thesis by auto
next
  case (flush e)
  with assms(2) show ?thesis
    by (auto simp: flush_def write_jsonl_atomic_def persistent_ok_def split: if_splits)
qed

lemma store_run_keeps:
  "store_step\<^sup>*\<^sup>* ps ps' \<Longrightarrow> persistent_ok ps \<Longrightarrow>
   persistent_ok ps' \<and> (\<exists>more. store_events (memory ps') = store_events (memory ps) @ more)"
proof (induction rule: rtranclp_induct)
  case (step ps1 ps2)
  then show ?case using store_step_keeps [OF step.hyps(2)] by (metis append.assoc)
qed simp

lemma PersistentEventStore_reload:
  assumes "persistent_ok ps"
  shows "\<exists>ps'. PersistentEventStore (disk_file ps) oracle = Inr ps' \<and>
    store_events (memory ps') = store_events (memory ps)"
proof -
  let ?evs = "store_events (memory ps)"
  have "valid_stream ?evs" using assms by (simp add: persistent_ok_def store_ok_def)
  then obtain st where st: "append_all ?evs empty_store = Inr st" "store_events st = ?evs"
    using append_all_ok [OF empty_store_ok, of ?evs] by (auto simp: empty_store_def)
  from assms consider "disk_file ps = Some ?evs" | "disk_file ps = None" "?evs = []"
    by (auto simp: persistent_ok_def)
  then show ?thesis
  proof cases
    case 1
    with st show ?thesis by (simp add: PersistentEventStore_def AppendOnlyEventStore_def)
  next
    case 2
    then show ?thesis by (simp add: PersistentEventStore_def empty_store_def)
  qed
qed

section \<open>A concrete attempt\<close>

definition demo_tick :: "nat \<Rightarrow> tick" where
  "demo_tick n = \<lparr>tick_clock = of_nat n, tick_stamp = ''now'', tick_id = string_of_nat n\<rparr>"

definition demo_machine :: machine where
  "demo_machine = \<lparr>m_campaign = ''c'', m_attempt = ''a'', m_policy = default_policy,
     m_state = StatePlanned, m_status = CampaignPlanned, m_last = -1, m_interruption = None\<rparr>"

definition demo_store :: persistent_store where
  "demo_store = \<lparr>memory = empty_store, disk_file = None, write_ok = (\<lambda>_. True), writes = 0\<rparr>"


lemma demo_new_store: "PersistentEventStore None (\<lambda>_. True) = Inr demo_store"
  by (simp add: PersistentEventStore_def demo_store_def empty_store_def)

text \<open>
  C34. The event validator decides the stream contract: it reports nothing exactly when the event
  identifiers are distinct, each event is well formed, no event follows a terminal event of its
  attempt, and the clock readings of an attempt never decrease.
\<close>

theorem validate_event_log_decides:
  "validate_event_log evs = [] \<longleftrightarrow>
     distinct (map event_id evs) \<and> list_all well_formed_event evs \<and> terminal_last evs \<and> clocks_sorted evs"
  using valid_stream_meaning [of evs] valid_stream_complete [of evs] by (auto simp: valid_stream_def)

text \<open>
  C33. Durability. However appends and flushes are interleaved, and whichever of the atomic writes
  fail, the file always holds exactly the events in memory (or is absent while there are none),
  they extend the loaded ones, they form a valid stream, and loading the file again gives them back.
\<close>

theorem persistent_store_durable:
  assumes "PersistentEventStore content oracle = Inr ps0" and "store_step\<^sup>*\<^sup>* ps0 ps"
  shows "(disk_file ps = Some (store_events (memory ps)) \<or> disk_file ps = None \<and> store_events (memory ps) = []) \<and>
    validate_event_log (store_events (memory ps)) = [] \<and>
    (\<exists>more. store_events (memory ps) = (case content of None \<Rightarrow> [] | Some evs \<Rightarrow> evs) @ more) \<and>
    (\<exists>ps'. PersistentEventStore (disk_file ps) oracle' = Inr ps' \<and>
       store_events (memory ps') = store_events (memory ps))"
proof -
  from store_run_keeps [OF assms(2)] PersistentEventStore_ok [OF assms(1)]
  have ok: "persistent_ok ps"
    and more: "\<exists>more. store_events (memory ps) = (case content of None \<Rightarrow> [] | Some evs \<Rightarrow> evs) @ more"
    by auto
  from ok have "validate_event_log (store_events (memory ps)) = []"
    by (simp add: persistent_ok_def store_ok_def valid_stream_def)
  with ok more PersistentEventStore_reload [OF ok, of oracle'] show ?thesis
    by (auto simp: persistent_ok_def)
qed

theorem persistent_store_durable_witness:
  "\<exists>ps'. PersistentEventStore (disk_file demo_store) (\<lambda>_. False) = Inr ps'"
  using persistent_store_durable [OF demo_new_store rtranclp.rtrancl_refl, of "\<lambda>_. False"] by blast





text \<open>
  Refusals. A terminal attempt refuses start, suspension, completion and resumption, and under
  every policy the constructor accepts an attempt does not resume after version drift; a refused
  operation changes neither the machine nor the store, whatever the store is.
\<close>

theorem lifecycle_refusals:
  assumes "ResumePolicy (m_policy M) = Inr p"
  shows "(m_state M = StateTerminal \<longrightarrow>
      (\<exists>e. start sink t pl M s = (Some e, M, s)) \<and>
      (\<exists>e. mark_uncertain sink t reason kind M s = (Some e, M, s)) \<and>
      (\<exists>e. finish sink t status pl M s = (Some e, M, s)) \<and>
      (\<exists>e. resume sink t k M s = (Some e, M, s))) \<and>
    (resume_kind k M = VersionDrift \<longrightarrow> (\<exists>e. resume sink t k M s = (Some e, M, s)))"
  using terminal_refuses [of M] version_drift_blocks [OF assms] by metis

theorem lifecycle_refusals_witness:
  "\<exists>e. resume persistent_append (demo_tick 1) (Some VersionDrift) demo_machine demo_store =
     (Some e, demo_machine, demo_store)"
proof -
  have policy: "ResumePolicy (m_policy demo_machine) = Inr default_policy"
    by (simp add: demo_machine_def ResumePolicy_def default_policy_def)
  have "resume_kind (Some VersionDrift) demo_machine = VersionDrift" by (simp add: resume_kind_def)
  with lifecycle_refusals [OF policy, where sink = persistent_append and t = "demo_tick 1"
      and k = "Some VersionDrift" and s = demo_store] show ?thesis by blast
qed

text \<open>
  The stored terminal status is the payload's, not the machine's: when the payload passed to
  \<open>finish\<close> has a \<^verbatim>\<open>status\<close> key, the event carries that value, and restoring the event gives the
  status it names, or fails if it names none, whatever status the attempt finished with.
\<close>

theorem finish_payload_overrides:
  assumes "m_state M = StateRunning" and "dict_get pl ''status'' = Some v" and "distinct (dict_keys pl)"
  shows "restore_event (lifecycle_event M t ''campaign_terminal'' (finish_payload status pl) True) M =
    (case campaign_status_of v of
       None \<Rightarrow> Inl (RuntimeValue ''terminal event has invalid campaign status'')
     | Some other \<Rightarrow> Inr (M\<lparr>m_last := max (m_last M) (tick_clock t), m_state := StateTerminal,
                             m_status := other\<rparr>))"
  using assms
  by (simp add: restore_event_def lifecycle_event_def observe_clock_def payload_get_def
      finish_payload_get Let_def split: option.split)

theorem finish_payload_overrides_witness:
  "restore_event (lifecycle_event (demo_machine\<lparr>m_state := StateRunning\<rparr>) (demo_tick 3) ''campaign_terminal''
      (finish_payload CampaignCompleted [(''status'', JStr ''nonsense'')]) True)
      (demo_machine\<lparr>m_state := StateRunning\<rparr>) =
    Inl (RuntimeValue ''terminal event has invalid campaign status'')"
  using finish_payload_overrides [of "demo_machine\<lparr>m_state := StateRunning\<rparr>"
      "[(''status'', JStr ''nonsense'')]" "JStr ''nonsense''" "demo_tick 3" CampaignCompleted]
  by (simp add: campaign_status_of_def enum_of_def campaign_members_def)

section \<open>Method runs in the event stream\<close>

text \<open>
  Appending a method run to the persistent store adds its events in order: all of them exactly
  when it returns, with their number, and otherwise the ones before the failure. The store stays
  valid and on disk, and nothing with a credential-like key is ever appended.
\<close>

theorem method_events_recorded:
  assumes "persistent_ok ps"
    and "append_method_run_events F persistent_append ids campaign timestamp m ps = (r, ps')"
  shows "persistent_ok ps' \<and> (\<exists>k. store_events (memory ps') = store_events (memory ps) @
      event_run ids (method_event campaign timestamp (run_attempt m)) 0 (take k (run_events F m)) \<and>
    (\<forall>e \<in> set (take k (run_events F m)). \<not> has_secret (JObj (snd e))) \<and>
    (\<forall>c. r = Inr c \<longrightarrow> k = c \<and>
       c = 2 + length (run_slots m) + (if providerless_t0 m then 0 else length (run_slots m)) \<and>
       take k (run_events F m) = run_events F m))"
proof -
  consider "ps' = ps" "\<exists>e. r = Inl e"
    | "append_events persistent_append ids (method_event campaign timestamp (run_attempt m)) 0 (run_events F m) ps
        = (r, ps')"
    using assms(2) by (auto simp: append_method_run_events_def split: if_splits)
  then show ?thesis
  proof cases
    case 1
    with assms(1) show ?thesis by (intro conjI exI [of _ 0]) auto
  next
    case 2
    from persistent_sink.append_events_stores [OF assms(1) 2] show ?thesis
      by (auto simp: list_all_iff length_run_events)
  qed
qed

definition demo_t0_run :: method_run where
  "demo_t0_run = \<lparr>run_track = TrackT0, run_backbone = ''b'', run_attempt = ''a'', run_template_hash = ''t'',
     run_pack_hash = ''h'', run_settings = [(''provider'', JStr ''none'')], run_slots = [pending_slot ''a'' 0],
     run_responses = [], run_measurements = [], run_checks = []\<rparr>"

definition demo_float_text :: float_text where
  "demo_float_text = \<lparr>write_float = (\<lambda>_. ''0.0''), read_float = (\<lambda>_. Some 0)\<rparr>"

theorem method_events_recorded_witness:
  "\<exists>ps'. append_method_run_events demo_float_text persistent_append string_of_nat ''c'' ''now'' demo_t0_run demo_store
      = (Inr 3, ps') \<and> persistent_ok ps' \<and>
     store_events (memory ps') = event_run string_of_nat (method_event ''c'' ''now'' ''a'') 0 (run_events demo_float_text demo_t0_run)"
proof -
  have demo: "persistent_ok demo_store"
    by (simp add: persistent_ok_def store_ok_def demo_store_def empty_store_def)
  have "case append_method_run_events demo_float_text persistent_append string_of_nat ''c'' ''now'' demo_t0_run demo_store
      of (r, ps') \<Rightarrow> r = Inr 3" by code_simp
  then obtain ps' where run: "append_method_run_events demo_float_text persistent_append string_of_nat ''c'' ''now''
      demo_t0_run demo_store = (Inr 3, ps')" by auto
  have start: "store_events (memory demo_store) = []" "run_attempt demo_t0_run = ''a''"
    by (simp_all add: demo_store_def empty_store_def demo_t0_run_def)
  from method_events_recorded [OF demo run] run show ?thesis unfolding start by auto
qed

end
