(* ===== verification/Adjudication_Ledger.thy ===== *)
theory Adjudication_Ledger
  imports Contracts_Records
begin

text \<open>
  The method-blinded adjudication ledger (\<^verbatim>\<open>adjudication/ledger.py\<close>): its records with the checks
  of their constructors, the ledger's operations, and the import and export of its JSON form.
  \<open>sha\<close> is \<^verbatim>\<open>sha256_hex\<close>; \<open>now\<close> is the current time, used where no time is given. Writing and
  reading files is left out.
\<close>

section \<open>Enumerations\<close>

datatype first_failure =
    MalformedSerialization | UnresolvedReference | TypeDomainMismatch | UnwarrantedProperty
  | Vacuity | Duplication | SolverInfeasibility | TimeoutOrUnsupported | ReplayFailure
  | NonSecurityBehavior | TrueVulnerability

fun first_failure_value :: "first_failure \<Rightarrow> string" where
  "first_failure_value MalformedSerialization = ''malformed_serialization''"
| "first_failure_value UnresolvedReference = ''unresolved_reference''"
| "first_failure_value TypeDomainMismatch = ''type_domain_mismatch''"
| "first_failure_value UnwarrantedProperty = ''unwarranted_property''"
| "first_failure_value Vacuity = ''vacuity''"
| "first_failure_value Duplication = ''duplication''"
| "first_failure_value SolverInfeasibility = ''solver_infeasibility''"
| "first_failure_value TimeoutOrUnsupported = ''timeout_or_unsupported''"
| "first_failure_value ReplayFailure = ''replay_failure''"
| "first_failure_value NonSecurityBehavior = ''non_security_behavior''"
| "first_failure_value TrueVulnerability = ''true_vulnerability''"

definition first_failure_members :: "first_failure list" where
  "first_failure_members =
     [MalformedSerialization, UnresolvedReference, TypeDomainMismatch, UnwarrantedProperty, Vacuity,
      Duplication, SolverInfeasibility, TimeoutOrUnsupported, ReplayFailure, NonSecurityBehavior,
      TrueVulnerability]"

datatype label_status = LabelConfirmed | LabelRejected | LabelUnresolved

fun label_status_value :: "label_status \<Rightarrow> string" where
  "label_status_value LabelConfirmed = ''confirmed''"
| "label_status_value LabelRejected = ''rejected''"
| "label_status_value LabelUnresolved = ''unresolved''"

definition label_status_members :: "label_status list" where
  "label_status_members = [LabelConfirmed, LabelRejected, LabelUnresolved]"

datatype mapping_status = Mapped | Unmapped | Uncertain

fun mapping_status_value :: "mapping_status \<Rightarrow> string" where
  "mapping_status_value Mapped = ''mapped''"
| "mapping_status_value Unmapped = ''unmapped''"
| "mapping_status_value Uncertain = ''uncertain''"

definition mapping_status_members :: "mapping_status list" where
  "mapping_status_members = [Mapped, Unmapped, Uncertain]"

interpretation failure_enum: enumeration first_failure_value first_failure_members
proof
  show "m \<in> set first_failure_members" for m by (cases m) (simp_all add: first_failure_members_def)
qed (simp add: first_failure_members_def)

interpretation label_enum: enumeration label_status_value label_status_members
proof
  show "m \<in> set label_status_members" for m by (cases m) (simp_all add: label_status_members_def)
qed (simp add: label_status_members_def)

interpretation mapping_enum: enumeration mapping_status_value mapping_status_members
proof
  show "m \<in> set mapping_status_members" for m by (cases m) (simp_all add: mapping_status_members_def)
qed (simp add: mapping_status_members_def)

section \<open>Errors and field checks\<close>

datatype ledger_error = LedgerValue string | LedgerKey string

definition refuse :: "string \<Rightarrow> ledger_error + 'a" where
  "refuse msg = Inl (LedgerValue msg)"

lemma refuse_not_Inr [simp]: "refuse msg \<noteq> Inr x" "Inr x \<noteq> refuse msg"
  by (simp_all add: refuse_def)

fun error_text :: "ledger_error \<Rightarrow> string" where
  "error_text (LedgerValue msg) = msg"
| "error_text (LedgerKey msg) = [CHR 0x27] @ msg @ [CHR 0x27]"

definition required_string :: "json dict \<Rightarrow> string \<Rightarrow> ledger_error + string" where
  "required_string row k = (case jget row k of
       JStr s \<Rightarrow> if s = '''' then refuse (k @ '' must be a non-empty string'') else Inr s
     | _ \<Rightarrow> refuse (k @ '' must be a non-empty string''))"

definition optional_string :: "json dict \<Rightarrow> string \<Rightarrow> ledger_error + string option" where
  "optional_string row k = (case jget row k of
       JNull \<Rightarrow> Inr None
     | JStr s \<Rightarrow> if s = '''' then refuse (k @ '' must be a non-empty string or null'') else Inr (Some s)
     | _ \<Rightarrow> refuse (k @ '' must be a non-empty string or null''))"

definition required_object :: "json dict \<Rightarrow> string \<Rightarrow> ledger_error + json dict" where
  "required_object row k = (case jget row k of
       JObj d \<Rightarrow> Inr d
     | _ \<Rightarrow> refuse (k @ '' must be an object''))"

definition enum_field ::
    "('a \<Rightarrow> string) \<Rightarrow> 'a list \<Rightarrow> json dict \<Rightarrow> string \<Rightarrow> ledger_error + 'a" where
  \<comment> \<open>\<^verbatim>\<open>EnumType(_required_string(row, k))\<close>\<close>
  "enum_field name members row k = bind_result (required_string row k) (\<lambda>s.
     case enum_of name members (JStr s) of
       None \<Rightarrow> refuse (s @ '' is not a valid value'')
     | Some v \<Rightarrow> Inr v)"

text \<open>\<^verbatim>\<open>row == expected\<close> as Python compares: true equals one.\<close>

definition value_eq :: "json \<Rightarrow> json \<Rightarrow> bool" where
  "value_eq a b = (a = b \<or> (case (a, b) of
       (JBool x, JInt i) \<Rightarrow> i = (if x then 1 else 0)
     | (JInt i, JBool x) \<Rightarrow> i = (if x then 1 else 0)
     | _ \<Rightarrow> False))"

definition dict_eq :: "json dict \<Rightarrow> json dict \<Rightarrow> bool" where
  "dict_eq d e = (list_all (\<lambda>k. k \<in> set (dict_keys e)) (dict_keys d) \<and>
     list_all (\<lambda>k. k \<in> set (dict_keys d)) (dict_keys e) \<and>
     list_all (\<lambda>k. value_eq (jget d k) (jget e k)) (dict_keys d))"

lemma dict_eq_refl [simp]: "dict_eq d d"
  by (simp add: dict_eq_def list_all_iff value_eq_def)

section \<open>Blinded findings\<close>

definition forbidden_names :: "string list" where
  "forbidden_names = [''method'', ''method_id'', ''track'', ''backbone'', ''model'', ''model_tag'',
     ''provider'', ''checkpoint'', ''served_weight_digest'']"

fun forbidden_keys :: "json \<Rightarrow> string list" where
  "forbidden_keys (JObj d) =
     sorted_unique (filter (\<lambda>k. map ascii_lower k \<in> set forbidden_names) (dict_keys d) @
       concat (map (\<lambda>kv. forbidden_keys (snd kv)) d))"
| "forbidden_keys (JArr vs) = sorted_unique (concat (map forbidden_keys vs))"
| "forbidden_keys _ = []"

record finding =
  finding_id :: string
  instance_id :: string
  claim :: "json dict"
  evidence_hash :: "string option"
  raw_claim_hash :: "string option"
  root_cause_id :: "string option"

definition join_comma :: "string list \<Rightarrow> string" where
  "join_comma xs = concat (case xs of [] \<Rightarrow> [] | x # rest \<Rightarrow> x # map (\<lambda>y. '', '' @ y) rest)"

definition BlindedFinding :: "finding \<Rightarrow> ledger_error + finding" where
  "BlindedFinding f =
     (if finding_id f = '''' \<or> instance_id f = '''' then refuse ''finding_id and instance_id are required''
      else if forbidden_keys (JObj (claim f)) \<noteq> []
        then refuse (''blinded claim contains method identity: '' @ join_comma (forbidden_keys (JObj (claim f))))
      else Inr f)"

definition finding_dict :: "finding \<Rightarrow> json dict" where
  "finding_dict f =
     [(''finding_id'', JStr (finding_id f)), (''instance_id'', JStr (instance_id f)),
      (''claim'', JObj (claim f)), (''evidence_hash'', option_json (evidence_hash f)),
      (''raw_claim_hash'', option_json (raw_claim_hash f)),
      (''root_cause_id'', option_json (root_cause_id f))]"

section \<open>Labels, reconciliations, relabels and mappings\<close>

record label =
  lab_finding :: string
  rater_id :: string
  lab_role :: string
  lab_status :: label_status
  lab_failure :: first_failure
  lab_uncertainty :: "string option"
  confidence :: "string option"
  lab_version :: string
  lab_created :: string

definition falsy :: "string option \<Rightarrow> bool" where
  "falsy v = (v = None \<or> v = Some '''')"

definition Label :: "label \<Rightarrow> ledger_error + label" where
  "Label l =
     (if lab_finding l = '''' \<or> rater_id l = '''' \<or> lab_role l = ''''
        then refuse ''label finding_id, rater_id and role are required''
      else if lab_status l = LabelUnresolved \<and> falsy (lab_uncertainty l)
        then refuse ''unresolved label requires uncertainty_reason''
      else if lab_status l = LabelConfirmed \<and> lab_failure l \<noteq> TrueVulnerability
        then refuse ''confirmed label must use true_vulnerability first failure''
      else if lab_status l \<noteq> LabelConfirmed \<and> lab_failure l = TrueVulnerability
        then refuse ''non-confirmed label cannot use true_vulnerability first failure''
      else Inr l)"

definition label_dict :: "label \<Rightarrow> json dict" where
  "label_dict l =
     [(''finding_id'', JStr (lab_finding l)), (''rater_id'', JStr (rater_id l)),
      (''role'', JStr (lab_role l)), (''status'', JStr (label_status_value (lab_status l))),
      (''first_failure'', JStr (first_failure_value (lab_failure l))),
      (''uncertainty_reason'', option_json (lab_uncertainty l)),
      (''confidence'', option_json (confidence l)), (''label_version'', JStr (lab_version l)),
      (''created_at'', JStr (lab_created l))]"

record reconciliation =
  rec_finding :: string
  label_ids :: "string list"
  adjudicator_id :: string
  rec_status :: label_status
  rec_failure :: first_failure
  rec_reason :: string
  rec_uncertainty :: "string option"
  rater_roles :: "string list"
  role_overlap :: bool
  rec_version :: string
  rec_created :: string

definition Reconciliation :: "reconciliation \<Rightarrow> ledger_error + reconciliation" where
  "Reconciliation r =
     (if length (label_ids r) < 2 then refuse ''reconciliation requires two pre-consensus labels''
      else if rec_finding r = '''' \<or> adjudicator_id r = '''' \<or> rec_reason r = ''''
        then refuse ''reconciliation identity and reason are required''
      else if rec_status r = LabelUnresolved \<and> falsy (rec_uncertainty r)
        then refuse ''unresolved reconciliation requires uncertainty_reason''
      else Inr r)"

definition reconciliation_dict :: "reconciliation \<Rightarrow> json dict" where
  "reconciliation_dict r =
     [(''finding_id'', JStr (rec_finding r)), (''label_ids'', JArr (map JStr (label_ids r))),
      (''adjudicator_id'', JStr (adjudicator_id r)),
      (''status'', JStr (label_status_value (rec_status r))),
      (''first_failure'', JStr (first_failure_value (rec_failure r))),
      (''reason'', JStr (rec_reason r)), (''uncertainty_reason'', option_json (rec_uncertainty r)),
      (''rater_roles'', JArr (map JStr (rater_roles r))), (''role_overlap'', JBool (role_overlap r)),
      (''label_version'', JStr (rec_version r)), (''created_at'', JStr (rec_created r))]"

record relabel_event =
  rel_finding :: string
  previous_status :: label_status
  new_status :: label_status
  actor_id :: string
  rel_reason :: string
  rel_created :: string

definition relabel_dict :: "relabel_event \<Rightarrow> json dict" where
  "relabel_dict e =
     [(''finding_id'', JStr (rel_finding e)),
      (''previous_status'', JStr (label_status_value (previous_status e))),
      (''new_status'', JStr (label_status_value (new_status e))), (''actor_id'', JStr (actor_id e)),
      (''reason'', JStr (rel_reason e)), (''created_at'', JStr (rel_created e))]"

record requirement_mapping =
  map_finding :: string
  requirement_id :: "string option"
  map_status :: mapping_status
  reviewer_id :: string
  map_reason :: string
  map_created :: string

definition RequirementMapping :: "requirement_mapping \<Rightarrow> ledger_error + requirement_mapping" where
  "RequirementMapping m =
     (if map_finding m = '''' \<or> reviewer_id m = '''' \<or> map_reason m = ''''
        then refuse ''requirement mapping identity and reason are required''
      else if map_status m = Mapped \<and> falsy (requirement_id m)
        then refuse ''mapped requirement requires requirement_id''
      else if map_status m \<noteq> Mapped \<and> requirement_id m \<noteq> None
        then refuse ''unmapped or uncertain requirement cannot carry requirement_id''
      else Inr m)"

definition mapping_dict :: "requirement_mapping \<Rightarrow> json dict" where
  "mapping_dict m =
     [(''finding_id'', JStr (map_finding m)), (''requirement_id'', option_json (requirement_id m)),
      (''status'', JStr (mapping_status_value (map_status m))), (''reviewer_id'', JStr (reviewer_id m)),
      (''reason'', JStr (map_reason m)), (''created_at'', JStr (map_created m))]"

section \<open>The ledger and its operations\<close>

record ledger =
  findings :: "finding dict"
  labels :: "((string \<times> string) \<times> label) list"
  reconciliations :: "reconciliation dict"
  effective_status :: "label_status dict"
  relabels :: "relabel_event list"
  mappings :: "requirement_mapping dict"

definition AdjudicationLedger :: "finding list \<Rightarrow> ledger_error + ledger" where
  "AdjudicationLedger fs =
     (if length (remdups (map finding_id fs)) \<noteq> length fs then refuse ''finding IDs must be unique''
      else Inr \<lparr>findings = map (\<lambda>f. (finding_id f, f)) fs, labels = [], reconciliations = [],
                effective_status = [], relabels = [], mappings = []\<rparr>)"

definition ledger_labels :: "ledger \<Rightarrow> label list" where
  "ledger_labels L = map snd (labels L)"

definition labels_of :: "ledger \<Rightarrow> string \<Rightarrow> label list" where
  "labels_of L fid = filter (\<lambda>l. lab_finding l = fid) (ledger_labels L)"

definition add_label :: "label \<Rightarrow> ledger \<Rightarrow> ledger_error + ledger" where
  "add_label l L =
     (if lab_finding l \<notin> set (dict_keys (findings L)) then Inl (LedgerKey ''label references unknown finding'')
      else if (lab_finding l, rater_id l) \<in> set (dict_keys (labels L))
        then refuse ''rater cannot overwrite a pre-consensus label''
      else Inr (L\<lparr>labels := dict_put (lab_finding l, rater_id l) l (labels L)\<rparr>))"

text \<open>The record that \<^verbatim>\<open>reconcile\<close> builds from the two labels of a finding.\<close>

definition consensus :: "label list \<Rightarrow> (label_status \<times> first_failure) option" where
  "consensus ls = (case ls of
       [] \<Rightarrow> None
     | first # _ \<Rightarrow>
         if list_all (\<lambda>l. lab_status l = lab_status first \<and> lab_failure l = lab_failure first) ls
           then Some (lab_status first, lab_failure first) else None)"

definition build_reconciliation ::
    "label list \<Rightarrow> string \<Rightarrow> string \<Rightarrow> string \<Rightarrow> string option \<Rightarrow> string \<Rightarrow> ledger_error + reconciliation" where
  "build_reconciliation ls fid adjudicator reason uncertainty created =
     (if consensus ls = None \<and> falsy uncertainty then refuse ''disagreement requires uncertainty_reason''
      else (case (case consensus ls of Some p \<Rightarrow> p | None \<Rightarrow> (LabelUnresolved, TimeoutOrUnsupported)) of
              (status, failure) \<Rightarrow> Reconciliation
                \<lparr>rec_finding = fid, label_ids = map (\<lambda>l. rater_id l @ '':'' @ lab_finding l) ls,
                 adjudicator_id = adjudicator, rec_status = status, rec_failure = failure,
                 rec_reason = reason, rec_uncertainty = uncertainty, rater_roles = map lab_role ls,
                 role_overlap = (length (remdups (map lab_role ls)) \<noteq> length ls),
                 rec_version = ''v1'', rec_created = created\<rparr>))"

definition reconcile ::
    "string \<Rightarrow> string \<Rightarrow> string \<Rightarrow> string \<Rightarrow> string option \<Rightarrow> string option \<Rightarrow> ledger
       \<Rightarrow> ledger_error + reconciliation \<times> ledger" where
  "reconcile now fid adjudicator reason uncertainty created L =
     (let ls = labels_of L fid in
      if fid \<notin> set (dict_keys (findings L)) then Inl (LedgerKey ''unknown finding'')
      else if length ls \<noteq> 2 then refuse ''exactly two independent labels are required''
      else if length (remdups (map rater_id ls)) \<noteq> length ls
        then refuse ''labels must come from distinct raters''
      else if list_ex (\<lambda>l. rater_id l = adjudicator) ls
        then refuse ''adjudicator must be independent of raters''
      else if fid \<in> set (dict_keys (reconciliations L)) then refuse ''finding already reconciled''
      else
        bind_result (build_reconciliation ls fid adjudicator reason uncertainty
            (case created of None \<Rightarrow> now | Some t \<Rightarrow> if t = '''' then now else t)) (\<lambda>r.
          Inr (r, L\<lparr>reconciliations := dict_put fid r (reconciliations L),
                    effective_status := dict_put fid (rec_status r) (effective_status L)\<rparr>)))"

definition relabel ::
    "string \<Rightarrow> string \<Rightarrow> label_status \<Rightarrow> string \<Rightarrow> string \<Rightarrow> string option \<Rightarrow> ledger
       \<Rightarrow> ledger_error + relabel_event \<times> ledger" where
  "relabel now fid status actor reason created L =
     (case dict_get (reconciliations L) fid of
        None \<Rightarrow> refuse ''only a reconciled finding can be relabeled''
      | Some current \<Rightarrow>
          if actor = '''' \<or> reason = '''' then refuse ''relabel requires actor and reason''
          else
            let e = \<lparr>rel_finding = fid,
                     previous_status = (case dict_get (effective_status L) fid of
                         None \<Rightarrow> rec_status current | Some s \<Rightarrow> s),
                     new_status = status, actor_id = actor, rel_reason = reason,
                     rel_created = (case created of None \<Rightarrow> now | Some t \<Rightarrow> if t = '''' then now else t)\<rparr>
            in Inr (e, L\<lparr>relabels := relabels L @ [e],
                         effective_status := dict_put fid status (effective_status L)\<rparr>))"

definition map_requirement :: "requirement_mapping \<Rightarrow> ledger \<Rightarrow> ledger_error + ledger" where
  "map_requirement m L =
     (if map_finding m \<notin> set (dict_keys (findings L))
        then Inl (LedgerKey ''mapping references unknown finding'')
      else if map_finding m \<in> set (dict_keys (mappings L))
        then refuse ''finding already has a requirement mapping''
      else Inr (L\<lparr>mappings := dict_put (map_finding m) m (mappings L)\<rparr>))"

definition dedup_key :: "finding \<Rightarrow> string \<times> string" where
  "dedup_key f = (instance_id f, if falsy (root_cause_id f) then finding_id f else the (root_cause_id f))"

fun deduplicate :: "(string \<times> string) list \<Rightarrow> finding list \<Rightarrow> string list" where
  "deduplicate seen [] = []"
| "deduplicate seen (f # fs) =
     (if dedup_key f \<in> set seen then deduplicate seen fs
      else finding_id f # deduplicate (dedup_key f # seen) fs)"

definition deduplicated_finding_ids :: "ledger \<Rightarrow> string list" where
  "deduplicated_finding_ids L = deduplicate [] (map snd (findings L))"

end
