(* ===== verification/Adjudication_Export.thy ===== *)
theory Adjudication_Export
  imports Adjudication_Ledger
begin

text \<open>
  The JSON forms of the ledger (\<^verbatim>\<open>adjudication/ledger.py\<close>): the blinded export and its import, the
  import of labels, and the complete ledger with its hash.
\<close>

section \<open>Exports\<close>

definition ledger_findings :: "ledger \<Rightarrow> finding list" where
  "ledger_findings L = map snd (findings L)"

definition findings_json :: "finding list \<Rightarrow> json" where
  "findings_json fs = JArr (map (\<lambda>f. JObj (finding_dict f)) fs)"

definition export_blinded :: "(json \<Rightarrow> string) \<Rightarrow> ledger \<Rightarrow> json dict" where
  "export_blinded sha L =
     [(''schema_version'', JInt 1), (''export_id'', JStr (sha (findings_json (ledger_findings L)))),
      (''findings'', findings_json (ledger_findings L)), (''method_identity_included'', JBool False)]"

definition export_labels :: "(json \<Rightarrow> string) \<Rightarrow> ledger \<Rightarrow> json dict" where
  "export_labels sha L =
     [(''schema_version'', JInt 1), (''finding_export_id'', jget (export_blinded sha L) ''export_id''),
      (''labels'', JArr (map (\<lambda>l. JObj (label_dict l)) (ledger_labels L))),
      (''method_identity_included'', JBool False)]"

definition ledger_payload :: "ledger \<Rightarrow> json dict" where
  "ledger_payload L =
     [(''schema_version'', JInt 1), (''findings'', findings_json (ledger_findings L)),
      (''labels'', JArr (map (\<lambda>l. JObj (label_dict l)) (ledger_labels L))),
      (''reconciliations'', JArr (map (\<lambda>kv. JObj (reconciliation_dict (snd kv))) (reconciliations L))),
      (''relabel_history'', JArr (map (\<lambda>e. JObj (relabel_dict e)) (relabels L))),
      (''requirement_mappings'', JArr (map (\<lambda>kv. JObj (mapping_dict (snd kv))) (mappings L)))]"

definition ledger_dict :: "(json \<Rightarrow> string) \<Rightarrow> ledger \<Rightarrow> json dict" where
  "ledger_dict sha L = ledger_payload L @ [(''ledger_hash'', JStr (sha (JObj (ledger_payload L))))]"

section \<open>Importing findings and labels\<close>

definition parse_finding :: "nat \<Rightarrow> json \<Rightarrow> ledger_error + finding" where
  "parse_finding index row = (case row of
       JObj d \<Rightarrow>
         if forbidden_keys row \<noteq> []
           then refuse (''blinded finding contains forbidden fields: '' @ join_comma (forbidden_keys row))
         else
           (case
              bind_result (required_string d ''finding_id'') (\<lambda>fid.
              bind_result (required_string d ''instance_id'') (\<lambda>iid.
              bind_result (required_object d ''claim'') (\<lambda>c.
              bind_result (optional_string d ''evidence_hash'') (\<lambda>eh.
              bind_result (optional_string d ''raw_claim_hash'') (\<lambda>rh.
              bind_result (optional_string d ''root_cause_id'') (\<lambda>rc.
                BlindedFinding \<lparr>finding_id = fid, instance_id = iid, claim = c, evidence_hash = eh,
                  raw_claim_hash = rh, root_cause_id = rc\<rparr>)))))) of
              Inl e \<Rightarrow> refuse (''invalid blinded finding '' @ string_of_nat index @ '': '' @ error_text e)
            | Inr f \<Rightarrow> Inr f)
     | _ \<Rightarrow> refuse (''blinded finding '' @ string_of_nat index @ '' must be an object''))"

definition from_blinded :: "(json \<Rightarrow> string) \<Rightarrow> json dict \<Rightarrow> ledger_error + ledger" where
  "from_blinded sha p =
     (if \<not> equals_one (jget p ''schema_version'') \<or> jget p ''method_identity_included'' \<noteq> JBool False
        then refuse ''invalid blinded finding export contract''
      else (case jget p ''findings'' of
         JArr rows \<Rightarrow>
           bind_result (map_result (\<lambda>(i, row). parse_finding i row) (enumerate 1 rows)) (\<lambda>fs.
             if jget p ''export_id'' \<noteq> JStr (sha (findings_json fs))
               then refuse ''blinded finding export hash mismatch''
             else AdjudicationLedger fs)
       | _ \<Rightarrow> refuse ''blinded finding export requires a findings array''))"

definition label_from_dict :: "json dict \<Rightarrow> ledger_error + label" where
  "label_from_dict d =
     bind_result (required_string d ''finding_id'') (\<lambda>fid.
     bind_result (required_string d ''rater_id'') (\<lambda>rid.
     bind_result (required_string d ''role'') (\<lambda>role.
     bind_result (enum_field label_status_value label_status_members d ''status'') (\<lambda>st.
     bind_result (enum_field first_failure_value first_failure_members d ''first_failure'') (\<lambda>ff.
     bind_result (optional_string d ''uncertainty_reason'') (\<lambda>ur.
     bind_result (optional_string d ''confidence'') (\<lambda>cf.
     bind_result (required_string d ''label_version'') (\<lambda>lv.
     bind_result (required_string d ''created_at'') (\<lambda>ca.
       Label \<lparr>lab_finding = fid, rater_id = rid, lab_role = role, lab_status = st, lab_failure = ff,
              lab_uncertainty = ur, confidence = cf, lab_version = lv, lab_created = ca\<rparr>)))))))))"

definition import_row :: "json \<Rightarrow> ledger \<Rightarrow> ledger_error + ledger" where
  "import_row row L = (case row of
       JObj d \<Rightarrow> bind_result (label_from_dict d) (\<lambda>l. add_label l L)
     | _ \<Rightarrow> refuse ''label must be an object'')"

text \<open>The labels imported before a failing row stay in the ledger.\<close>

fun import_rows :: "nat \<Rightarrow> json list \<Rightarrow> ledger \<Rightarrow> ledger_error option \<times> ledger" where
  "import_rows i [] L = (None, L)"
| "import_rows i (row # rows) L = (case import_row row L of
       Inl e \<Rightarrow> (Some (LedgerValue (''invalid label '' @ string_of_nat i @ '': '' @ error_text e)), L)
     | Inr L' \<Rightarrow> import_rows (Suc i) rows L')"

definition import_labels ::
    "(json \<Rightarrow> string) \<Rightarrow> json dict \<Rightarrow> ledger \<Rightarrow> ledger_error option \<times> ledger" where
  "import_labels sha p L =
     (if \<not> equals_one (jget p ''schema_version'') \<or> jget p ''method_identity_included'' \<noteq> JBool False
        then (Some (LedgerValue ''invalid label export contract''), L)
      else if jget p ''finding_export_id'' \<noteq> jget (export_blinded sha L) ''export_id''
        then (Some (LedgerValue ''labels refer to a different blinded finding export''), L)
      else (case jget p ''labels'' of
         JArr rows \<Rightarrow> import_rows 1 rows L
       | _ \<Rightarrow> (Some (LedgerValue ''label export requires a labels array''), L)))"

section \<open>Restoring a complete ledger\<close>

text \<open>\<^verbatim>\<open>payload.get(key, [])\<close> must be an array of objects.\<close>

definition rows_of :: "json dict \<Rightarrow> string \<Rightarrow> string \<Rightarrow> ledger_error + json list" where
  "rows_of p k msg = (case dict_get p k of
       None \<Rightarrow> Inr []
     | Some (JArr rows) \<Rightarrow> Inr rows
     | Some _ \<Rightarrow> refuse msg)"

fun fold_rows ::
    "(json dict \<Rightarrow> ledger \<Rightarrow> ledger_error + ledger) \<Rightarrow> string \<Rightarrow> json list \<Rightarrow> ledger \<Rightarrow> ledger_error + ledger" where
  "fold_rows f msg [] L = Inr L"
| "fold_rows f msg (row # rows) L = (case row of
       JObj d \<Rightarrow> bind_result (f d L) (fold_rows f msg rows)
     | _ \<Rightarrow> refuse msg)"

definition restore_label :: "json dict \<Rightarrow> ledger \<Rightarrow> ledger_error + ledger" where
  "restore_label d L = bind_result (label_from_dict d) (\<lambda>l. add_label l L)"

definition drop_missing :: "json dict \<Rightarrow> string list \<Rightarrow> json dict \<Rightarrow> json dict" where
  "drop_missing d legacy row = filter (\<lambda>kv. fst kv \<notin> set legacy \<or> fst kv \<in> set (dict_keys row)) d"

definition restore_reconciliation :: "string \<Rightarrow> json dict \<Rightarrow> ledger \<Rightarrow> ledger_error + ledger" where
  "restore_reconciliation now d L =
     bind_result (required_string d ''finding_id'') (\<lambda>fid.
     bind_result (required_string d ''adjudicator_id'') (\<lambda>adj.
     bind_result (required_string d ''reason'') (\<lambda>reason.
     bind_result (optional_string d ''uncertainty_reason'') (\<lambda>ur.
     bind_result (required_string d ''created_at'') (\<lambda>ca.
     bind_result (reconcile now fid adj reason ur (Some ca) L) (\<lambda>(r, L').
       if dict_eq (drop_missing (reconciliation_dict r) [''rater_roles'', ''role_overlap''] d) d then Inr L'
       else refuse (''reconciliation invariant/hash mismatch for '' @ fid)))))))"

definition restore_relabel :: "string \<Rightarrow> json dict \<Rightarrow> ledger \<Rightarrow> ledger_error + ledger" where
  "restore_relabel now d L =
     bind_result (required_string d ''finding_id'') (\<lambda>fid.
     bind_result (enum_field label_status_value label_status_members d ''new_status'') (\<lambda>st.
     bind_result (required_string d ''actor_id'') (\<lambda>actor.
     bind_result (required_string d ''reason'') (\<lambda>reason.
     bind_result (required_string d ''created_at'') (\<lambda>ca.
     bind_result (relabel now fid st actor reason (Some ca) L) (\<lambda>(e, L').
       if dict_eq (relabel_dict e) d then Inr L' else refuse ''relabel history mismatch''))))))"

definition restore_mapping :: "json dict \<Rightarrow> ledger \<Rightarrow> ledger_error + ledger" where
  "restore_mapping d L =
     bind_result (required_string d ''finding_id'') (\<lambda>fid.
     bind_result (optional_string d ''requirement_id'') (\<lambda>req.
     bind_result (enum_field mapping_status_value mapping_status_members d ''status'') (\<lambda>st.
     bind_result (required_string d ''reviewer_id'') (\<lambda>rev.
     bind_result (required_string d ''reason'') (\<lambda>reason.
     bind_result (required_string d ''created_at'') (\<lambda>ca.
     bind_result (RequirementMapping \<lparr>map_finding = fid, requirement_id = req, map_status = st,
         reviewer_id = rev, map_reason = reason, map_created = ca\<rparr>) (\<lambda>m.
       map_requirement m L)))))))"

definition from_dict :: "(json \<Rightarrow> string) \<Rightarrow> string \<Rightarrow> json dict \<Rightarrow> ledger_error + ledger" where
  "from_dict sha now p =
     (if \<not> equals_one (jget p ''schema_version'') then refuse ''unsupported adjudication ledger schema''
      else (case jget p ''ledger_hash'' of
         JStr supplied \<Rightarrow>
           if supplied \<noteq> sha (JObj (filter (\<lambda>kv. fst kv \<noteq> ''ledger_hash'') p))
             then refuse ''ledger hash mismatch''
           else
             let fs = (case dict_get p ''findings'' of None \<Rightarrow> JArr [] | Some v \<Rightarrow> v) in
             bind_result (from_blinded sha
               [(''schema_version'', JInt 1), (''export_id'', JStr (sha fs)), (''findings'', fs),
                (''method_identity_included'', JBool False)]) (\<lambda>L0.
             bind_result (rows_of p ''labels'' ''ledger labels must be an array'') (\<lambda>ls.
             bind_result (fold_rows restore_label ''ledger label must be an object'' ls L0) (\<lambda>L1.
             bind_result (rows_of p ''reconciliations'' ''ledger reconciliations must be an array'') (\<lambda>rs.
             bind_result (fold_rows (restore_reconciliation now) ''ledger reconciliation must be an object'' rs L1) (\<lambda>L2.
             bind_result (rows_of p ''relabel_history'' ''ledger relabel_history must be an array'') (\<lambda>es.
             bind_result (fold_rows (restore_relabel now) ''ledger relabel event must be an object'' es L2) (\<lambda>L3.
             bind_result (rows_of p ''requirement_mappings'' ''ledger requirement_mappings must be an array'') (\<lambda>ms.
               fold_rows restore_mapping ''requirement mapping must be an object'' ms L3))))))))
       | _ \<Rightarrow> refuse ''ledger ledger_hash is required''))"

end
