(* ===== verification/Adjudication_RoundTrip.thy ===== *)
theory Adjudication_RoundTrip
  imports Adjudication_Export "HOL-Library.Sublist"
begin

text \<open>
  The invariant of a ledger, preserved by its operations as long as a reconciled finding takes no
  further label, and the theorem that rests on it: the complete JSON form of the ledger is read
  back to the same ledger.
\<close>

section \<open>Dictionaries that grow at the end\<close>

lemma dict_put_left: "k \<in> set (dict_keys d) \<Longrightarrow> dict_put k v (d @ e) = dict_put k v d @ e"
  by (induction d) auto

lemma dict_keys_put: "k \<in> set (dict_keys d) \<Longrightarrow> dict_keys (dict_put k v d) = dict_keys d"
  by (induction d) auto

lemma dict_get_in_keys: "dict_get d k = Some v \<Longrightarrow> k \<in> set (dict_keys d)"
  by (force dest: map_of_SomeD)

section \<open>The invariant\<close>

definition option_ok :: "string option \<Rightarrow> bool" where
  "option_ok v = (v \<noteq> Some '''')"

definition finding_ok :: "finding \<Rightarrow> bool" where
  "finding_ok f \<longleftrightarrow> BlindedFinding f = Inr f \<and> option_ok (evidence_hash f) \<and>
     option_ok (raw_claim_hash f) \<and> option_ok (root_cause_id f)"

definition label_ok :: "label \<Rightarrow> bool" where
  "label_ok l \<longleftrightarrow> Label l = Inr l \<and> option_ok (lab_uncertainty l) \<and> option_ok (confidence l) \<and>
     lab_version l \<noteq> '''' \<and> lab_created l \<noteq> ''''"

definition mapping_ok :: "requirement_mapping \<Rightarrow> bool" where
  "mapping_ok m \<longleftrightarrow> RequirementMapping m = Inr m \<and> option_ok (requirement_id m) \<and> map_created m \<noteq> ''''"

definition reconciliation_ok :: "label list \<Rightarrow> reconciliation \<Rightarrow> bool" where
  "reconciliation_ok ls r \<longleftrightarrow> length ls = 2 \<and> \<not> list_ex (\<lambda>l. rater_id l = adjudicator_id r) ls \<and>
     option_ok (rec_uncertainty r) \<and> rec_created r \<noteq> '''' \<and>
     build_reconciliation ls (rec_finding r) (adjudicator_id r) (rec_reason r) (rec_uncertainty r)
       (rec_created r) = Inr r"

text \<open>The relabel events, in order, start from the statuses given and each record the status before.\<close>

fun chain :: "label_status dict \<Rightarrow> relabel_event list \<Rightarrow> label_status dict option" where
  "chain eff [] = Some eff"
| "chain eff (e # es) =
     (if dict_get eff (rel_finding e) = Some (previous_status e)
        then chain (dict_put (rel_finding e) (new_status e) eff) es else None)"

definition relabel_ok :: "relabel_event \<Rightarrow> bool" where
  "relabel_ok e \<longleftrightarrow> rel_finding e \<noteq> '''' \<and> actor_id e \<noteq> '''' \<and> rel_reason e \<noteq> '''' \<and> rel_created e \<noteq> ''''"

definition consensus_statuses :: "reconciliation dict \<Rightarrow> label_status dict" where
  "consensus_statuses rs = map (\<lambda>kv. (fst kv, rec_status (snd kv))) rs"

text \<open>What each entry of a dictionary satisfies, given the known finding ids.\<close>

definition finding_entry :: "string \<times> finding \<Rightarrow> bool" where
  "finding_entry kv \<longleftrightarrow> fst kv = finding_id (snd kv) \<and> finding_ok (snd kv)"

definition label_entry :: "string list \<Rightarrow> (string \<times> string) \<times> label \<Rightarrow> bool" where
  "label_entry known kv \<longleftrightarrow> fst kv = (lab_finding (snd kv), rater_id (snd kv)) \<and> label_ok (snd kv) \<and>
     lab_finding (snd kv) \<in> set known"

definition reconciliation_entry ::
    "string list \<Rightarrow> (string \<Rightarrow> label list) \<Rightarrow> string \<times> reconciliation \<Rightarrow> bool" where
  "reconciliation_entry known of_finding kv \<longleftrightarrow> fst kv = rec_finding (snd kv) \<and> fst kv \<in> set known \<and>
     reconciliation_ok (of_finding (fst kv)) (snd kv)"

definition mapping_entry :: "string list \<Rightarrow> string \<times> requirement_mapping \<Rightarrow> bool" where
  "mapping_entry known kv \<longleftrightarrow> fst kv = map_finding (snd kv) \<and> fst kv \<in> set known \<and> mapping_ok (snd kv)"

definition ledger_ok :: "ledger \<Rightarrow> bool" where
  "ledger_ok L \<longleftrightarrow>
     distinct (dict_keys (findings L)) \<and> list_all finding_entry (findings L) \<and>
     distinct (dict_keys (labels L)) \<and> list_all (label_entry (dict_keys (findings L))) (labels L) \<and>
     distinct (dict_keys (reconciliations L)) \<and>
     list_all (reconciliation_entry (dict_keys (findings L)) (labels_of L)) (reconciliations L) \<and>
     list_all relabel_ok (relabels L) \<and>
     chain (consensus_statuses (reconciliations L)) (relabels L) = Some (effective_status L) \<and>
     distinct (dict_keys (mappings L)) \<and>
     list_all (mapping_entry (dict_keys (findings L))) (mappings L)"

section \<open>Reading back one record\<close>

lemma optional_string_ok [simp]:
  "jget d k = option_json v \<Longrightarrow> option_ok v \<Longrightarrow> optional_string d k = Inr v"
  by (cases v) (auto simp: optional_string_def option_json_def option_ok_def)

lemma required_string_ok [simp]: "jget d k = JStr s \<Longrightarrow> s \<noteq> '''' \<Longrightarrow> required_string d k = Inr s"
  by (simp add: required_string_def)

lemma enum_field_ok:
  "jget d k = JStr (label_status_value st) \<Longrightarrow>
   enum_field label_status_value label_status_members d k = Inr st"
  "jget d k = JStr (first_failure_value ff) \<Longrightarrow>
   enum_field first_failure_value first_failure_members d k = Inr ff"
  "jget d k = JStr (mapping_status_value ms) \<Longrightarrow>
   enum_field mapping_status_value mapping_status_members d k = Inr ms"
proof -
  have "label_status_value st \<noteq> ''''" "first_failure_value ff \<noteq> ''''" "mapping_status_value ms \<noteq> ''''"
    by (cases st; cases ff; cases ms; simp)+
  then show "jget d k = JStr (label_status_value st) \<Longrightarrow>
      enum_field label_status_value label_status_members d k = Inr st"
    "jget d k = JStr (first_failure_value ff) \<Longrightarrow>
      enum_field first_failure_value first_failure_members d k = Inr ff"
    "jget d k = JStr (mapping_status_value ms) \<Longrightarrow>
      enum_field mapping_status_value mapping_status_members d k = Inr ms"
    by (simp_all add: enum_field_def label_enum.enum_of_value failure_enum.enum_of_value
        mapping_enum.enum_of_value)
qed

lemma Label_Inr: "Label l = Inr l' \<Longrightarrow> l' = l \<and> lab_finding l \<noteq> '''' \<and> rater_id l \<noteq> '''' \<and> lab_role l \<noteq> ''''"
  by (auto simp: Label_def split: if_splits)

lemma label_from_dict_of_label:
  assumes "label_ok l"
  shows "label_from_dict (label_dict l) = Inr l"
proof -
  have l: "Label l = Inr l" using assms by (simp add: label_ok_def)
  note ok = Label_Inr [OF l]
  have fields:
    "jget (label_dict l) ''finding_id'' = JStr (lab_finding l)"
    "jget (label_dict l) ''rater_id'' = JStr (rater_id l)"
    "jget (label_dict l) ''role'' = JStr (lab_role l)"
    "jget (label_dict l) ''status'' = JStr (label_status_value (lab_status l))"
    "jget (label_dict l) ''first_failure'' = JStr (first_failure_value (lab_failure l))"
    "jget (label_dict l) ''uncertainty_reason'' = option_json (lab_uncertainty l)"
    "jget (label_dict l) ''confidence'' = option_json (confidence l)"
    "jget (label_dict l) ''label_version'' = JStr (lab_version l)"
    "jget (label_dict l) ''created_at'' = JStr (lab_created l)"
    by (simp_all add: label_dict_def)
  have eta: "\<lparr>lab_finding = lab_finding l, rater_id = rater_id l, lab_role = lab_role l,
      lab_status = lab_status l, lab_failure = lab_failure l, lab_uncertainty = lab_uncertainty l,
      confidence = confidence l, lab_version = lab_version l, lab_created = lab_created l\<rparr> = l"
    by (cases l) simp
  show ?thesis
    using assms ok l by (simp add: label_from_dict_def label_ok_def fields enum_field_ok eta)
qed

lemma RequirementMapping_Inr:
  "RequirementMapping m = Inr m' \<Longrightarrow> m' = m \<and> map_finding m \<noteq> '''' \<and> reviewer_id m \<noteq> '''' \<and> map_reason m \<noteq> ''''"
  by (auto simp: RequirementMapping_def split: if_splits)

lemma Reconciliation_Inr:
  "Reconciliation r = Inr r' \<Longrightarrow> r' = r \<and> rec_finding r \<noteq> '''' \<and> adjudicator_id r \<noteq> '''' \<and> rec_reason r \<noteq> ''''"
  by (auto simp: Reconciliation_def split: if_splits)

lemma build_reconciliation_Inr:
  assumes "build_reconciliation ls fid adj reason ur ca = Inr r"
  shows "rec_finding r = fid \<and> adjudicator_id r = adj \<and> rec_reason r = reason \<and> rec_uncertainty r = ur \<and>
    rec_created r = ca \<and> fid \<noteq> '''' \<and> adj \<noteq> '''' \<and> reason \<noteq> ''''"
  using assms
  by (auto simp: build_reconciliation_def dest!: Reconciliation_Inr split: if_splits prod.splits)

lemma finding_row_clean: "finding_ok f \<Longrightarrow> forbidden_keys (JObj (finding_dict f)) = []"
proof -
  assume "finding_ok f"
  then have "forbidden_keys (JObj (claim f)) = []"
    by (auto simp: finding_ok_def BlindedFinding_def split: if_splits)
  moreover have "forbidden_keys (option_json v) = []" for v
    by (cases v) (simp_all add: option_json_def)
  ultimately show ?thesis
    by (simp add: finding_dict_def forbidden_names_def ascii_lower_def del: forbidden_keys.simps(1))
       (simp add: finding_dict_def forbidden_names_def ascii_lower_def)
qed

lemma parse_finding_of_finding:
  assumes "finding_ok f"
  shows "parse_finding i (JObj (finding_dict f)) = Inr f"
proof -
  have f: "BlindedFinding f = Inr f" "finding_id f \<noteq> ''''" "instance_id f \<noteq> ''''"
    using assms by (auto simp: finding_ok_def BlindedFinding_def split: if_splits)
  have fields:
    "jget (finding_dict f) ''finding_id'' = JStr (finding_id f)"
    "jget (finding_dict f) ''instance_id'' = JStr (instance_id f)"
    "jget (finding_dict f) ''claim'' = JObj (claim f)"
    "jget (finding_dict f) ''evidence_hash'' = option_json (evidence_hash f)"
    "jget (finding_dict f) ''raw_claim_hash'' = option_json (raw_claim_hash f)"
    "jget (finding_dict f) ''root_cause_id'' = option_json (root_cause_id f)"
    by (simp_all add: finding_dict_def)
  have eta: "\<lparr>finding_id = finding_id f, instance_id = instance_id f, claim = claim f,
      evidence_hash = evidence_hash f, raw_claim_hash = raw_claim_hash f,
      root_cause_id = root_cause_id f\<rparr> = f"
    by (cases f) simp
  show ?thesis
    using assms f finding_row_clean [OF assms]
    by (simp add: parse_finding_def fields eta finding_ok_def required_object_def
        del: forbidden_keys.simps)
qed

lemma restore_mapping_of_mapping:
  assumes "mapping_ok m" "map_finding m \<in> set (dict_keys (findings L))"
    and "map_finding m \<notin> set (dict_keys (mappings L))"
  shows "restore_mapping (mapping_dict m) L = Inr (L\<lparr>mappings := mappings L @ [(map_finding m, m)]\<rparr>)"
proof -
  have m: "RequirementMapping m = Inr m" using assms(1) by (simp add: mapping_ok_def)
  note ok = RequirementMapping_Inr [OF m]
  have fields:
    "jget (mapping_dict m) ''finding_id'' = JStr (map_finding m)"
    "jget (mapping_dict m) ''requirement_id'' = option_json (requirement_id m)"
    "jget (mapping_dict m) ''status'' = JStr (mapping_status_value (map_status m))"
    "jget (mapping_dict m) ''reviewer_id'' = JStr (reviewer_id m)"
    "jget (mapping_dict m) ''reason'' = JStr (map_reason m)"
    "jget (mapping_dict m) ''created_at'' = JStr (map_created m)"
    by (simp_all add: mapping_dict_def)
  have eta: "\<lparr>map_finding = map_finding m, requirement_id = requirement_id m, map_status = map_status m,
      reviewer_id = reviewer_id m, map_reason = map_reason m, map_created = map_created m\<rparr> = m"
    by (cases m) simp
  show ?thesis
    using assms ok m
    by (simp add: restore_mapping_def fields eta enum_field_ok mapping_ok_def map_requirement_def dict_put_new)
qed

lemma restore_label_of_label:
  assumes "label_ok l" "lab_finding l \<in> set (dict_keys (findings L))"
    and "(lab_finding l, rater_id l) \<notin> set (dict_keys (labels L))"
  shows "restore_label (label_dict l) L = Inr (L\<lparr>labels := labels L @ [((lab_finding l, rater_id l), l)]\<rparr>)"
  using assms label_from_dict_of_label [OF assms(1)]
  by (simp add: restore_label_def add_label_def dict_put_new)

lemma distinct_raters:
  assumes "distinct (dict_keys (labels L))" "list_all (label_entry known) (labels L)"
  shows "distinct (map rater_id (labels_of L fid))"
proof -
  have "map fst (labels L) = map (\<lambda>kv. (lab_finding (snd kv), rater_id (snd kv))) (labels L)"
    using assms(2) by (simp add: list_all_iff label_entry_def)
  with assms(1) have "distinct (map (\<lambda>l. (lab_finding l, rater_id l)) (ledger_labels L))"
    by (simp add: ledger_labels_def comp_def)
  then have "distinct (map (\<lambda>l. (lab_finding l, rater_id l)) (labels_of L fid))"
    by (simp add: labels_of_def distinct_map_filter)
  then show ?thesis
    by (auto simp: distinct_map labels_of_def inj_on_def)
qed

lemma restore_reconciliation_of_reconciliation:
  assumes "reconciliation_ok (labels_of L (rec_finding r)) r" "rec_finding r \<in> set (dict_keys (findings L))"
    and "rec_finding r \<notin> set (dict_keys (reconciliations L))"
    and "distinct (map rater_id (labels_of L (rec_finding r)))"
    and "rec_finding r \<notin> set (dict_keys (effective_status L))"
  shows "restore_reconciliation now (reconciliation_dict r) L =
    Inr (L\<lparr>reconciliations := reconciliations L @ [(rec_finding r, r)],
            effective_status := effective_status L @ [(rec_finding r, rec_status r)]\<rparr>)"
proof -
  let ?ls = "labels_of L (rec_finding r)"
  have b: "build_reconciliation ?ls (rec_finding r) (adjudicator_id r) (rec_reason r)
      (rec_uncertainty r) (rec_created r) = Inr r"
    using assms(1) by (simp add: reconciliation_ok_def)
  note ok = build_reconciliation_Inr [OF b]
  have fields:
    "jget (reconciliation_dict r) ''finding_id'' = JStr (rec_finding r)"
    "jget (reconciliation_dict r) ''adjudicator_id'' = JStr (adjudicator_id r)"
    "jget (reconciliation_dict r) ''reason'' = JStr (rec_reason r)"
    "jget (reconciliation_dict r) ''uncertainty_reason'' = option_json (rec_uncertainty r)"
    "jget (reconciliation_dict r) ''created_at'' = JStr (rec_created r)"
    by (simp_all add: reconciliation_dict_def)
  have "drop_missing (reconciliation_dict r) legacy (reconciliation_dict r) = reconciliation_dict r" for legacy
    unfolding drop_missing_def by (rule filter_True) auto
  moreover have "length (remdups (map rater_id ?ls)) = length ?ls"
    using assms(4) by (simp add: distinct_remdups_id)
  moreover have "reconcile now (rec_finding r) (adjudicator_id r) (rec_reason r) (rec_uncertainty r)
      (Some (rec_created r)) L =
      Inr (r, L\<lparr>reconciliations := reconciliations L @ [(rec_finding r, r)],
            effective_status := effective_status L @ [(rec_finding r, rec_status r)]\<rparr>)"
    using assms b calculation(2) by (simp add: reconcile_def reconciliation_ok_def dict_put_new)
  ultimately show ?thesis
    using assms(1) ok by (simp add: restore_reconciliation_def fields reconciliation_ok_def)
qed

lemma restore_relabel_of_relabel:
  assumes "relabel_ok e" "dict_get (reconciliations L) (rel_finding e) = Some r"
    and "dict_get (effective_status L) (rel_finding e) = Some (previous_status e)"
  shows "restore_relabel now (relabel_dict e) L =
    Inr (L\<lparr>relabels := relabels L @ [e],
            effective_status := dict_put (rel_finding e) (new_status e) (effective_status L)\<rparr>)"
proof -
  have fields:
    "jget (relabel_dict e) ''finding_id'' = JStr (rel_finding e)"
    "jget (relabel_dict e) ''new_status'' = JStr (label_status_value (new_status e))"
    "jget (relabel_dict e) ''actor_id'' = JStr (actor_id e)"
    "jget (relabel_dict e) ''reason'' = JStr (rel_reason e)"
    "jget (relabel_dict e) ''created_at'' = JStr (rel_created e)"
    by (simp_all add: relabel_dict_def)
  have eta: "\<lparr>rel_finding = rel_finding e, previous_status = previous_status e, new_status = new_status e,
      actor_id = actor_id e, rel_reason = rel_reason e, rel_created = rel_created e\<rparr> = e"
    by (cases e) simp
  show ?thesis
    using assms
    by (simp add: restore_relabel_def fields enum_field_ok relabel_def relabel_ok_def Let_def eta)
qed

section \<open>Reading back the sections of a ledger\<close>

lemma restore_labels:
  assumes "distinct (dict_keys (seen @ rest))" "list_all (label_entry (dict_keys (findings L))) rest"
  shows "fold_rows restore_label msg (map (\<lambda>kv. JObj (label_dict (snd kv))) rest) (L\<lparr>labels := seen\<rparr>) =
    Inr (L\<lparr>labels := seen @ rest\<rparr>)"
  using assms
proof (induction rest arbitrary: seen)
  case Nil
  then show ?case by simp
next
  case (Cons kv rest)
  obtain k l where kv: "kv = (k, l)" by (cases kv)
  from Cons.prems kv have "restore_label (label_dict l) (L\<lparr>labels := seen\<rparr>) = Inr (L\<lparr>labels := seen @ [(k, l)]\<rparr>)"
    using restore_label_of_label [of l "L\<lparr>labels := seen\<rparr>"] by (auto simp: label_entry_def)
  moreover have "distinct (dict_keys ((seen @ [(k, l)]) @ rest))" using Cons.prems(1) kv by simp
  note Cons.IH [OF this]
  ultimately show ?case using Cons.prems(2) kv by simp
qed

lemma restore_reconciliations:
  assumes "distinct (dict_keys (seen @ rest))" "\<forall>fid. distinct (map rater_id (labels_of L fid))"
    and "list_all (reconciliation_entry (dict_keys (findings L)) (labels_of L)) rest"
  shows "fold_rows (restore_reconciliation now) msg (map (\<lambda>kv. JObj (reconciliation_dict (snd kv))) rest)
      (L\<lparr>reconciliations := seen, effective_status := consensus_statuses seen\<rparr>) =
    Inr (L\<lparr>reconciliations := seen @ rest, effective_status := consensus_statuses (seen @ rest)\<rparr>)"
  using assms
proof (induction rest arbitrary: seen)
  case Nil
  then show ?case by simp
next
  case (Cons kv rest)
  obtain k r where kv: "kv = (k, r)" by (cases kv)
  let ?L = "L\<lparr>reconciliations := seen, effective_status := consensus_statuses seen\<rparr>"
  have labels: "labels_of ?L fid = labels_of L fid" for fid
    by (simp add: labels_of_def ledger_labels_def)
  have keys: "dict_keys (consensus_statuses seen) = dict_keys seen"
    by (simp add: consensus_statuses_def comp_def)
  have "restore_reconciliation now (reconciliation_dict r) ?L =
      Inr (L\<lparr>reconciliations := seen @ [(k, r)], effective_status := consensus_statuses (seen @ [(k, r)])\<rparr>)"
    using restore_reconciliation_of_reconciliation [of ?L r now] Cons.prems kv labels keys
    by (auto simp: consensus_statuses_def reconciliation_entry_def)
  moreover have "distinct (dict_keys ((seen @ [(k, r)]) @ rest))" using Cons.prems(1) kv by simp
  note Cons.IH [OF this Cons.prems(2)]
  ultimately show ?case using Cons.prems(3) kv by simp
qed

lemma chain_keys: "chain eff es = Some eff' \<Longrightarrow> dict_keys eff' = dict_keys eff"
proof (induction es arbitrary: eff)
  case Nil
  then show ?case by simp
next
  case (Cons e es)
  then have "rel_finding e \<in> set (dict_keys eff)"
    by (auto split: if_splits dest: dict_get_in_keys simp del: list.set_map)
  with Cons show ?case by (simp add: dict_keys_put split: if_splits)
qed

lemma restore_relabels:
  assumes "chain eff rest = Some eff'" "list_all relabel_ok rest"
    and "set (dict_keys eff) \<subseteq> set (dict_keys (reconciliations L))"
  shows "fold_rows (restore_relabel now) msg (map (\<lambda>e. JObj (relabel_dict e)) rest)
      (L\<lparr>relabels := seen, effective_status := eff\<rparr>) =
    Inr (L\<lparr>relabels := seen @ rest, effective_status := eff'\<rparr>)"
  using assms
proof (induction rest arbitrary: seen eff)
  case Nil
  then show ?case by simp
next
  case (Cons e es)
  then have e: "dict_get eff (rel_finding e) = Some (previous_status e)"
    "chain (dict_put (rel_finding e) (new_status e) eff) es = Some eff'" by (simp_all split: if_splits)
  then have key: "rel_finding e \<in> set (dict_keys eff)" using dict_get_in_keys by metis
  with Cons.prems(3) obtain r where "dict_get (reconciliations L) (rel_finding e) = Some r"
    by (metis domD dom_map_of_conv_image_fst in_mono list.set_map)
  with restore_relabel_of_relabel [of e "L\<lparr>relabels := seen, effective_status := eff\<rparr>"] Cons.prems(2) e(1)
  have "restore_relabel now (relabel_dict e) (L\<lparr>relabels := seen, effective_status := eff\<rparr>) =
      Inr (L\<lparr>relabels := seen @ [e], effective_status := dict_put (rel_finding e) (new_status e) eff\<rparr>)"
    by simp
  moreover have "set (dict_keys (dict_put (rel_finding e) (new_status e) eff)) \<subseteq> set (dict_keys (reconciliations L))"
    using Cons.prems(3) by (simp only: dict_keys_put [OF key])
  with Cons.IH [OF e(2), of "seen @ [e]"] Cons.prems(2)
  have "fold_rows (restore_relabel now) msg (map (\<lambda>e. JObj (relabel_dict e)) es)
      (L\<lparr>relabels := seen @ [e], effective_status := dict_put (rel_finding e) (new_status e) eff\<rparr>) =
    Inr (L\<lparr>relabels := (seen @ [e]) @ es, effective_status := eff'\<rparr>)" by simp
  ultimately show ?case by simp
qed

lemma restore_mappings:
  assumes "distinct (dict_keys (seen @ rest))" "list_all (mapping_entry (dict_keys (findings L))) rest"
  shows "fold_rows restore_mapping msg (map (\<lambda>kv. JObj (mapping_dict (snd kv))) rest) (L\<lparr>mappings := seen\<rparr>) =
    Inr (L\<lparr>mappings := seen @ rest\<rparr>)"
  using assms
proof (induction rest arbitrary: seen)
  case Nil
  then show ?case by simp
next
  case (Cons kv rest)
  obtain k m where kv: "kv = (k, m)" by (cases kv)
  from Cons.prems kv have "restore_mapping (mapping_dict m) (L\<lparr>mappings := seen\<rparr>) = Inr (L\<lparr>mappings := seen @ [(k, m)]\<rparr>)"
    using restore_mapping_of_mapping [of m "L\<lparr>mappings := seen\<rparr>"] by (auto simp: mapping_entry_def)
  moreover have "distinct (dict_keys ((seen @ [(k, m)]) @ rest))" using Cons.prems(1) kv by simp
  note Cons.IH [OF this]
  ultimately show ?case using Cons.prems(2) kv by simp
qed

lemma restore_findings:
  assumes "distinct (dict_keys fs)" "list_all finding_entry fs"
  shows "from_blinded sha
     [(''schema_version'', JInt 1), (''export_id'', JStr (sha (findings_json (map snd fs)))),
      (''findings'', findings_json (map snd fs)), (''method_identity_included'', JBool False)] =
    Inr \<lparr>findings = fs, labels = [], reconciliations = [], effective_status = [], relabels = [], mappings = []\<rparr>"
proof -
  let ?rows = "map (\<lambda>f. JObj (finding_dict f)) (map snd fs)"
  have entries: "\<forall>kv \<in> set fs. finding_id (snd kv) = fst kv \<and> finding_ok (snd kv)"
    using assms(2) by (simp add: list_all_iff finding_entry_def)
  have "map_result (\<lambda>(i, row). parse_finding i row) (enumerate 1 ?rows) =
      Inr (map (\<lambda>(i, row). snd (fs ! (i - 1))) (enumerate 1 ?rows))"
  proof (rule map_result_all_Inr)
    fix z assume "z \<in> set (enumerate 1 ?rows)"
    then have z: "1 \<le> fst z" "fst z < length fs + 1" "?rows ! (fst z - 1) = snd z"
      by (simp_all add: in_set_enumerate_eq del: map_map)
    define i where "i = fst z - 1"
    with z have i: "i < length fs" "z = (Suc i, JObj (finding_dict (snd (fs ! i))))"
      by (cases z; force)+
    then have "finding_ok (snd (fs ! i))" using entries nth_mem by blast
    with i(2) show "(\<lambda>(i, row). parse_finding i row) z = Inr ((\<lambda>(i, row). snd (fs ! (i - 1))) z)"
      by (simp add: parse_finding_of_finding)
  qed
  moreover have "map (\<lambda>(i, row). snd (fs ! (i - 1))) (enumerate 1 ?rows) = map snd fs"
    by (rule nth_equalityI) (simp_all add: nth_enumerate_eq)
  moreover have "AdjudicationLedger (map snd fs) =
      Inr \<lparr>findings = fs, labels = [], reconciliations = [], effective_status = [], relabels = [], mappings = []\<rparr>"
  proof -
    have keys: "map (finding_id \<circ> snd) fs = dict_keys fs" using entries by simp
    have "map ((\<lambda>f. (finding_id f, f)) \<circ> snd) fs = fs"
      by (rule map_idI) (use entries in \<open>auto simp: prod_eq_iff\<close>)
    then show ?thesis
      using assms(1) by (simp add: AdjudicationLedger_def distinct_remdups_id keys)
  qed
  ultimately show ?thesis
    by (simp add: from_blinded_def equals_one_def findings_json_def)
qed

theorem from_dict_ledger_dict:
  assumes "ledger_ok L"
  shows "from_dict sha now (ledger_dict sha L) = Inr L"
proof -
  let ?L0 = "\<lparr>findings = findings L, labels = [], reconciliations = [], effective_status = [],
    relabels = [], mappings = []\<rparr>"
  let ?L1 = "?L0\<lparr>labels := labels L\<rparr>"
  let ?L2 = "?L1\<lparr>reconciliations := reconciliations L, effective_status := consensus_statuses (reconciliations L)\<rparr>"
  let ?L3 = "?L1\<lparr>reconciliations := reconciliations L, relabels := relabels L, effective_status := effective_status L\<rparr>"
  note ok = assms [unfolded ledger_ok_def]
  have labels: "labels_of ?L1 = labels_of L"
    by (rule ext) (simp add: labels_of_def ledger_labels_def)
  have raters: "\<forall>fid. distinct (map rater_id (labels_of ?L1 fid))"
    unfolding labels using distinct_raters ok by blast
  have s0: "from_blinded sha
     [(''schema_version'', JInt 1), (''export_id'', JStr (sha (findings_json (ledger_findings L)))),
      (''findings'', findings_json (ledger_findings L)), (''method_identity_included'', JBool False)] = Inr ?L0"
    using restore_findings [of "findings L" sha] ok by (simp add: ledger_findings_def)
  have s1: "fold_rows restore_label msg (map (\<lambda>l. JObj (label_dict l)) (ledger_labels L)) ?L0 = Inr ?L1" for msg
    using restore_labels [of "[]" "labels L" ?L0 msg] ok by (simp add: ledger_labels_def comp_def)
  have s2: "fold_rows (restore_reconciliation now) msg
      (map (\<lambda>kv. JObj (reconciliation_dict (snd kv))) (reconciliations L)) ?L1 = Inr ?L2" for msg
    using restore_reconciliations [of "[]" "reconciliations L" ?L1 now msg] ok raters
    unfolding labels by (simp add: consensus_statuses_def)
  have s3: "fold_rows (restore_relabel now) msg (map (\<lambda>e. JObj (relabel_dict e)) (relabels L)) ?L2 = Inr ?L3" for msg
    using restore_relabels [of "consensus_statuses (reconciliations L)" "relabels L" "effective_status L"
        "?L1\<lparr>reconciliations := reconciliations L\<rparr>" now msg "[]"] ok
    by (simp add: consensus_statuses_def comp_def)
  have s4: "fold_rows restore_mapping msg (map (\<lambda>kv. JObj (mapping_dict (snd kv))) (mappings L)) ?L3 =
      Inr (?L3\<lparr>mappings := mappings L\<rparr>)" for msg
    using restore_mappings [of "[]" "mappings L" ?L3 msg] ok by simp
  have "filter (\<lambda>kv. fst kv \<noteq> ''ledger_hash'') (ledger_dict sha L) = ledger_payload L"
    by (simp add: ledger_dict_def ledger_payload_def)
  moreover have "?L3\<lparr>mappings := mappings L\<rparr> = L" by (cases L) simp
  moreover have fields:
    "jget (ledger_dict sha L) ''schema_version'' = JInt 1"
    "jget (ledger_dict sha L) ''ledger_hash'' = JStr (sha (JObj (ledger_payload L)))"
    "dict_get (ledger_dict sha L) ''findings'' = Some (findings_json (ledger_findings L))"
    "rows_of (ledger_dict sha L) ''labels'' msg = Inr (map (\<lambda>l. JObj (label_dict l)) (ledger_labels L))"
    "rows_of (ledger_dict sha L) ''reconciliations'' msg =
       Inr (map (\<lambda>kv. JObj (reconciliation_dict (snd kv))) (reconciliations L))"
    "rows_of (ledger_dict sha L) ''relabel_history'' msg = Inr (map (\<lambda>e. JObj (relabel_dict e)) (relabels L))"
    "rows_of (ledger_dict sha L) ''requirement_mappings'' msg =
       Inr (map (\<lambda>kv. JObj (mapping_dict (snd kv))) (mappings L))" for msg
    by (simp_all add: ledger_dict_def ledger_payload_def rows_of_def)
  ultimately show ?thesis
    by (simp only: from_dict_def fields equals_one_def Let_def s0 s1 s2 s3 s4 json.case option.case
        bind_result_Inr simp_thms if_True if_False)
qed

section \<open>The operations keep the invariant\<close>

text \<open>
  A step of an adjudication: a label for a finding that is not reconciled yet, a reconciliation,
  a relabel or a mapping. Given texts are not empty, as the exported form requires.
\<close>

inductive ledger_step :: "string \<Rightarrow> ledger \<Rightarrow> ledger \<Rightarrow> bool" for now where
  label: "label_ok l \<Longrightarrow> lab_finding l \<notin> set (dict_keys (reconciliations L)) \<Longrightarrow> add_label l L = Inr L' \<Longrightarrow>
    ledger_step now L L'"
| reconcile: "option_ok uncertainty \<Longrightarrow> reconcile now fid adj reason uncertainty created L = Inr (r, L') \<Longrightarrow>
    ledger_step now L L'"
| relabel: "relabel now fid status actor reason created L = Inr (e, L') \<Longrightarrow> ledger_step now L L'"
| mapping: "mapping_ok m \<Longrightarrow> map_requirement m L = Inr L' \<Longrightarrow> ledger_step now L L'"

lemma consensus_statuses_keys [simp]: "map fst (consensus_statuses rs) = map fst rs"
  by (simp add: consensus_statuses_def comp_def)

lemma chain_append_key:
  "chain eff es = Some eff' \<Longrightarrow> k \<notin> set (dict_keys eff) \<Longrightarrow> chain (eff @ [(k, s)]) es = Some (eff' @ [(k, s)])"
proof (induction es arbitrary: eff)
  case Nil
  then show ?case by simp
next
  case (Cons e es)
  then have e: "dict_get eff (rel_finding e) = Some (previous_status e)"
    "chain (dict_put (rel_finding e) (new_status e) eff) es = Some eff'" by (simp_all split: if_splits)
  then have key: "rel_finding e \<in> set (dict_keys eff)" using dict_get_in_keys by metis
  from Cons.IH [OF e(2)] Cons.prems(2) e(1) show ?case
    by (simp add: dict_put_left [OF key] dict_keys_put [OF key] map_add_Some_iff del: list.set_map)
qed

lemma chain_snoc:
  "chain eff es = Some eff' \<Longrightarrow> dict_get eff' (rel_finding e) = Some (previous_status e) \<Longrightarrow>
   chain eff (es @ [e]) = Some (dict_put (rel_finding e) (new_status e) eff')"
  by (induction es arbitrary: eff) (auto split: if_splits)

lemma ledger_effective_keys: "ledger_ok L \<Longrightarrow> map fst (effective_status L) = map fst (reconciliations L)"
  using chain_keys by (fastforce simp: ledger_ok_def)

lemma known_nonempty: "ledger_ok L \<Longrightarrow> fid \<in> set (dict_keys (findings L)) \<Longrightarrow> fid \<noteq> ''''"
  by (auto simp: ledger_ok_def list_all_iff finding_entry_def finding_ok_def BlindedFinding_def
      split: if_splits)

lemma add_label_keeps:
  assumes "ledger_ok L" "label_ok l" "lab_finding l \<notin> set (dict_keys (reconciliations L))"
    and "add_label l L = Inr L'"
  shows "ledger_ok L'"
proof -
  have l: "lab_finding l \<in> set (dict_keys (findings L))"
    "(lab_finding l, rater_id l) \<notin> set (dict_keys (labels L))"
    "L' = L\<lparr>labels := labels L @ [((lab_finding l, rater_id l), l)]\<rparr>"
    using assms(4) by (auto simp: add_label_def dict_put_new split: if_splits)
  have labels: "labels_of L' fid = labels_of L fid @ (if lab_finding l = fid then [l] else [])" for fid
    by (simp add: labels_of_def ledger_labels_def l(3))
  have "reconciliation_entry (dict_keys (findings L)) (labels_of L') kv"
    if "reconciliation_entry (dict_keys (findings L)) (labels_of L) kv" "kv \<in> set (reconciliations L)" for kv
  proof -
    have "fst kv \<in> set (dict_keys (reconciliations L))" using that(2) by simp
    with assms(3) have "fst kv \<noteq> lab_finding l" by metis
    then have "labels_of L' (fst kv) = labels_of L (fst kv)" by (simp add: labels)
    with that(1) show ?thesis unfolding reconciliation_entry_def by metis
  qed
  then have "list_all (reconciliation_entry (dict_keys (findings L)) (labels_of L')) (reconciliations L)"
    using assms(1) by (simp add: ledger_ok_def list_all_iff)
  moreover have "label_entry (dict_keys (findings L)) ((lab_finding l, rater_id l), l)"
    using assms(2) l(1) by (simp add: label_entry_def)
  moreover have "distinct (dict_keys (labels L'))"
    using assms(1) l by (simp add: ledger_ok_def)
  ultimately show ?thesis using assms(1) by (simp add: ledger_ok_def l(3))
qed

lemma reconcile_keeps:
  assumes "ledger_ok L" "option_ok uncertainty" "now \<noteq> ''''"
    and "reconcile now fid adj reason uncertainty created L = Inr (r, L')"
  shows "ledger_ok L'"
proof -
  define time where "time = (case created of None \<Rightarrow> now | Some t \<Rightarrow> if t = '''' then now else t)"
  have time: "time \<noteq> ''''" using assms(3) by (auto simp: time_def split: option.splits)
  have r: "fid \<in> set (dict_keys (findings L))" "length (labels_of L fid) = 2"
    "\<not> list_ex (\<lambda>l. rater_id l = adj) (labels_of L fid)" "fid \<notin> set (dict_keys (reconciliations L))"
    "build_reconciliation (labels_of L fid) fid adj reason uncertainty time = Inr r"
    "L' = L\<lparr>reconciliations := dict_put fid r (reconciliations L),
            effective_status := dict_put fid (rec_status r) (effective_status L)\<rparr>"
    using assms(4) by (auto simp: reconcile_def Let_def result_simps time_def split: if_splits)
  have keys: "fid \<notin> set (dict_keys (effective_status L))"
    using r(4) ledger_effective_keys [OF assms(1)] by simp
  have L': "L' = L\<lparr>reconciliations := reconciliations L @ [(fid, r)],
      effective_status := effective_status L @ [(fid, rec_status r)]\<rparr>"
    using r(4,6) keys by (simp add: dict_put_new)
  have labels: "labels_of L' = labels_of L"
    by (rule ext) (simp add: L' labels_of_def ledger_labels_def)
  have fields: "rec_finding r = fid" "adjudicator_id r = adj" "rec_reason r = reason"
      "rec_uncertainty r = uncertainty" "rec_created r = time"
    using build_reconciliation_Inr [OF r(5)] by simp_all
  have "reconciliation_entry (dict_keys (findings L)) (labels_of L) (fid, r)"
    using r(1-3,5) time assms(2) by (simp add: reconciliation_entry_def reconciliation_ok_def fields)
  moreover have "chain (consensus_statuses (reconciliations L')) (relabels L') = Some (effective_status L')"
    using chain_append_key [of "consensus_statuses (reconciliations L)" "relabels L" "effective_status L" fid]
      assms(1) r(4)
    by (simp add: L' ledger_ok_def consensus_statuses_def comp_def)
  moreover have "distinct (dict_keys (reconciliations L'))"
    using assms(1) r(4) by (simp add: L' ledger_ok_def)
  ultimately show ?thesis using assms(1) unfolding ledger_ok_def labels by (simp add: L')
qed

lemma relabel_keeps:
  assumes "ledger_ok L" "now \<noteq> ''''" "relabel now fid status actor reason created L = Inr (e, L')"
  shows "ledger_ok L'"
proof -
  obtain current where current: "dict_get (reconciliations L) fid = Some current"
    using assms(3) by (cases "dict_get (reconciliations L) fid") (auto simp: relabel_def)
  then have "fid \<in> set (dict_keys (reconciliations L))" using dict_get_in_keys by metis
  then have "fid \<in> set (dict_keys (effective_status L))" using ledger_effective_keys [OF assms(1)] by simp
  then obtain s where s: "dict_get (effective_status L) fid = Some s"
    by (metis domD dom_map_of_conv_image_fst list.set_map)
  have "reconciliation_entry (dict_keys (findings L)) (labels_of L) (fid, current)"
    using assms(1) map_of_SomeD [OF current] unfolding ledger_ok_def list_all_iff by blast
  then have "fid \<in> set (dict_keys (findings L))" unfolding reconciliation_entry_def fst_conv by blast
  then have fid: "fid \<noteq> ''''" by (rule known_nonempty [OF assms(1)])
  have e: "rel_finding e = fid" "previous_status e = s" "new_status e = status" "relabel_ok e"
    "L' = L\<lparr>relabels := relabels L @ [e], effective_status := dict_put fid status (effective_status L)\<rparr>"
    using assms(2,3) current s fid
    by (auto simp: relabel_def relabel_ok_def Let_def split: if_splits option.splits)
  have "chain (consensus_statuses (reconciliations L)) (relabels L @ [e]) =
      Some (dict_put fid status (effective_status L))"
    using chain_snoc [of _ "relabels L" "effective_status L" e] assms(1) s e(1-3) by (simp add: ledger_ok_def)
  moreover have "labels_of L' = labels_of L"
    by (rule ext) (simp add: e(5) labels_of_def ledger_labels_def)
  ultimately show ?thesis using assms(1) e(4) by (simp add: ledger_ok_def e(5))
qed

lemma map_requirement_keeps:
  assumes "ledger_ok L" "mapping_ok m" "map_requirement m L = Inr L'"
  shows "ledger_ok L'"
proof -
  have m: "map_finding m \<in> set (dict_keys (findings L))" "map_finding m \<notin> set (dict_keys (mappings L))"
    "L' = L\<lparr>mappings := mappings L @ [(map_finding m, m)]\<rparr>"
    using assms(3) by (auto simp: map_requirement_def dict_put_new split: if_splits)
  have "labels_of L' = labels_of L"
    by (rule ext) (simp add: m(3) labels_of_def ledger_labels_def)
  moreover have "mapping_entry (dict_keys (findings L)) (map_finding m, m)"
    using assms(2) m(1) by (simp add: mapping_entry_def)
  moreover have "distinct (dict_keys (mappings L'))" using assms(1) m by (simp add: ledger_ok_def)
  ultimately show ?thesis using assms(1) by (simp add: ledger_ok_def m(3))
qed

lemma ledger_step_keeps: "ledger_step now L L' \<Longrightarrow> now \<noteq> '''' \<Longrightarrow> ledger_ok L \<Longrightarrow> ledger_ok L'"
  by (induction rule: ledger_step.induct)
     (auto intro: add_label_keeps reconcile_keeps relabel_keeps map_requirement_keeps)

lemma AdjudicationLedger_ok:
  assumes "AdjudicationLedger fs = Inr L" "list_all finding_ok fs"
  shows "ledger_ok L"
proof -
  have "L = \<lparr>findings = map (\<lambda>f. (finding_id f, f)) fs, labels = [], reconciliations = [],
      effective_status = [], relabels = [], mappings = []\<rparr>" "length (remdups (map finding_id fs)) = length fs"
    using assms(1) by (simp_all add: AdjudicationLedger_def split: if_splits)
  moreover from this(2) have "distinct (map finding_id fs)"
    using length_remdups_eq [of "map finding_id fs"] by simp
  ultimately show ?thesis
    using assms(2) by (simp add: ledger_ok_def finding_entry_def list_all_iff comp_def consensus_statuses_def)
qed

theorem ledger_run_ok:
  "(ledger_step now)\<^sup>*\<^sup>* L L' \<Longrightarrow> now \<noteq> '''' \<Longrightarrow> ledger_ok L \<Longrightarrow> ledger_ok L'"
  by (induction rule: rtranclp_induct) (auto intro: ledger_step_keeps)

section \<open>The consensus rule\<close>

lemma reconcile_rule:
  assumes "reconcile now fid adj reason uncertainty created L = Inr (r, L')"
  shows "dict_get (reconciliations L) fid = None" "dict_get (reconciliations L') fid = Some r"
    "\<exists>x y. labels_of L fid = [x, y] \<and> rater_id x \<noteq> rater_id y \<and> adj \<noteq> rater_id x \<and> adj \<noteq> rater_id y \<and>
       (if lab_status x = lab_status y \<and> lab_failure x = lab_failure y
        then rec_status r = lab_status x \<and> rec_failure r = lab_failure x
        else rec_status r = LabelUnresolved \<and> (\<exists>u. uncertainty = Some u \<and> u \<noteq> ''''))"
    "labels L' = labels L"
    "dict_get (effective_status L') k =
       (if k = fid then Some (rec_status r) else dict_get (effective_status L) k)"
proof -
  from assms have fid: "fid \<notin> set (dict_keys (reconciliations L))" and
    len: "length (labels_of L fid) = 2" and
    raters: "length (remdups (map rater_id (labels_of L fid))) = length (labels_of L fid)" and
    adj: "\<not> list_ex (\<lambda>l. rater_id l = adj) (labels_of L fid)"
    by (simp_all add: reconcile_def Let_def split: if_split_asm)
  from assms obtain t where
    r: "build_reconciliation (labels_of L fid) fid adj reason uncertainty t = Inr r" and
    L': "L' = L\<lparr>reconciliations := dict_put fid r (reconciliations L),
             effective_status := dict_put fid (rec_status r) (effective_status L)\<rparr>"
    by (auto simp: reconcile_def Let_def result_simps split: if_split_asm)
  show "dict_get (reconciliations L) fid = None" using fid by (simp add: map_of_eq_None_iff)
  show "dict_get (reconciliations L') fid = Some r" "labels L' = labels L"
    "dict_get (effective_status L') k =
       (if k = fid then Some (rec_status r) else dict_get (effective_status L) k)"
    by (simp_all add: L')
  from len obtain x y where xy: "labels_of L fid = [x, y]" by (auto simp: numeral_2_eq_2 length_Suc_conv)
  with raters adj have "rater_id x \<noteq> rater_id y \<and> adj \<noteq> rater_id x \<and> adj \<noteq> rater_id y"
    by (auto split: if_split_asm)
  moreover have "if lab_status x = lab_status y \<and> lab_failure x = lab_failure y
        then rec_status r = lab_status x \<and> rec_failure r = lab_failure x
        else rec_status r = LabelUnresolved \<and> (\<exists>u. uncertainty = Some u \<and> u \<noteq> '''')"
    using r by (auto simp: build_reconciliation_def xy consensus_def Reconciliation_def falsy_def
        split: if_split_asm)
  ultimately show "\<exists>x y. labels_of L fid = [x, y] \<and> rater_id x \<noteq> rater_id y \<and> adj \<noteq> rater_id x \<and> adj \<noteq> rater_id y \<and>
       (if lab_status x = lab_status y \<and> lab_failure x = lab_failure y
        then rec_status r = lab_status x \<and> rec_failure r = lab_failure x
        else rec_status r = LabelUnresolved \<and> (\<exists>u. uncertainty = Some u \<and> u \<noteq> ''''))"
    using xy by blast
qed

section \<open>Deduplication\<close>

lemma deduplicate_spec:
  "\<exists>kept. deduplicate seen fs = map finding_id kept \<and> subseq kept fs \<and>
     distinct (map dedup_key kept) \<and> dedup_key ` set kept = dedup_key ` set fs - set seen"
proof (induction fs arbitrary: seen)
  case Nil
  then show ?case by simp
next
  case (Cons f fs)
  show ?case
  proof (cases "dedup_key f \<in> set seen")
    case True
    with Cons.IH [of seen] show ?thesis by (auto intro: subseq_Cons')
  next
    case False
    from Cons.IH [of "dedup_key f # seen"] obtain kept where
      "deduplicate (dedup_key f # seen) fs = map finding_id kept" "subseq kept fs"
      "distinct (map dedup_key kept)"
      "dedup_key ` set kept = dedup_key ` set fs - set (dedup_key f # seen)" by blast
    with False have "deduplicate seen (f # fs) = map finding_id (f # kept) \<and> subseq (f # kept) (f # fs) \<and>
        distinct (map dedup_key (f # kept)) \<and>
        dedup_key ` set (f # kept) = dedup_key ` set (f # fs) - set seen" by auto
    then show ?thesis by blast
  qed
qed

end
