(* ===== verification/Adjudication_Properties.thy ===== *)
theory Adjudication_Properties
  imports Adjudication_RoundTrip
begin

text \<open>
  The properties of the adjudication ledger: its export, its consensus rule and its deduplication.
\<close>

section \<open>A concrete ledger\<close>

definition demo_finding :: finding where
  "demo_finding = \<lparr>finding_id = ''f'', instance_id = ''i'', claim = [],
     evidence_hash = None, raw_claim_hash = None, root_cause_id = None\<rparr>"

definition demo_label :: "string \<Rightarrow> label" where
  "demo_label rater = \<lparr>lab_finding = ''f'', rater_id = rater, lab_role = ''security'',
     lab_status = LabelConfirmed, lab_failure = TrueVulnerability, lab_uncertainty = None,
     confidence = None, lab_version = ''v1'', lab_created = ''t''\<rparr>"

definition demo_mapping :: requirement_mapping where
  "demo_mapping = \<lparr>map_finding = ''f'', requirement_id = Some ''R1'', map_status = Mapped,
     reviewer_id = ''z'', map_reason = ''why'', map_created = ''t''\<rparr>"

definition demo_ledger :: ledger where
  "demo_ledger = \<lparr>findings = [(''f'', demo_finding)], labels = [], reconciliations = [],
     effective_status = [], relabels = [], mappings = []\<rparr>"


text \<open>A run: two labels and their reconciliation.\<close>

definition demo_reconciled :: "ledger_error + reconciliation \<times> ledger" where
  "demo_reconciled =
     bind_result (add_label (demo_label ''a'') demo_ledger) (\<lambda>L1.
     bind_result (add_label (demo_label ''b'') L1) (reconcile ''t'' ''f'' ''c'' ''agreed'' None None))"



text \<open>
  The consensus rule. A reconciliation that succeeds is the first of its finding, rests on
  exactly two labels of distinct raters, neither of whom is the adjudicator, and has the labels'
  verdict when they agree; when they disagree it is unresolved and has a stated uncertainty. It
  changes the effective status of that finding only.
\<close>

theorem reconcile_consensus:
  assumes "reconcile now fid adj reason uncertainty created L = Inr (r, L')"
  shows "dict_get (reconciliations L) fid = None \<and> dict_get (reconciliations L') fid = Some r \<and>
    (\<exists>x y. labels_of L fid = [x, y] \<and> rater_id x \<noteq> rater_id y \<and> adj \<noteq> rater_id x \<and> adj \<noteq> rater_id y \<and>
       (if lab_status x = lab_status y \<and> lab_failure x = lab_failure y
        then rec_status r = lab_status x \<and> rec_failure r = lab_failure x
        else rec_status r = LabelUnresolved \<and> (\<exists>u. uncertainty = Some u \<and> u \<noteq> ''''))) \<and>
    labels L' = labels L \<and>
    (\<forall>k. dict_get (effective_status L') k =
       (if k = fid then Some (rec_status r) else dict_get (effective_status L) k))"
  using reconcile_rule [OF assms] by blast

lemma demo_labels_reconcile:
  "(case bind_result (add_label (demo_label ''a'') demo_ledger) (add_label (demo_label ''b'')) of
      Inl _ \<Rightarrow> False
    | Inr L \<Rightarrow> (case reconcile ''t'' ''f'' ''c'' ''agreed'' None None L of Inl _ \<Rightarrow> False | Inr _ \<Rightarrow> True) \<and>
        (\<forall>l \<in> set (labels_of L ''f''). lab_status l = LabelConfirmed \<and> lab_failure l = TrueVulnerability))"
  by code_simp

theorem reconcile_consensus_witness:
  "\<exists>r L. demo_reconciled = Inr (r, L) \<and> rec_status r = LabelConfirmed"
proof -
  obtain L2 r L where L2: "bind_result (add_label (demo_label ''a'') demo_ledger)
      (add_label (demo_label ''b'')) = Inr L2"
    and r: "reconcile ''t'' ''f'' ''c'' ''agreed'' None None L2 = Inr (r, L)"
    and lx: "\<forall>l \<in> set (labels_of L2 ''f''). lab_status l = LabelConfirmed \<and> lab_failure l = TrueVulnerability"
    using demo_labels_reconcile by (auto split: sum.splits)
  from reconcile_consensus [OF r] lx have "rec_status r = LabelConfirmed" by (auto split: if_splits)
  moreover from L2 r have "demo_reconciled = Inr (r, L)"
    by (auto simp: demo_reconciled_def result_simps)
  ultimately show ?thesis by blast
qed

definition late_label :: "ledger_error + ledger" where
  "late_label = bind_result demo_reconciled (\<lambda>(r, L). add_label (demo_label ''d'') L)"

text \<open>
  The ledger accepts a label after the finding was reconciled, and such a ledger cannot be
  restored from its own export: the reconciliation it exports rests on two labels, and the import
  finds three.
\<close>

theorem late_label_unrestorable:
  "(case late_label of
      Inl _ \<Rightarrow> False
    | Inr L \<Rightarrow> from_dict (\<lambda>_. ''h'') ''u'' (ledger_dict (\<lambda>_. ''h'') L) =
        Inl (LedgerValue ''exactly two independent labels are required''))"
  by code_simp

text \<open>
  Deduplication keeps the first finding of each group, where a group is an instance with a root
  cause (a finding without a root cause is its own): every finding's group is represented, no
  group twice, and the kept ids are in ledger order.
\<close>

theorem deduplicate_first_of_group:
  "\<exists>kept. deduplicate [] fs = map finding_id kept \<and> subseq kept fs \<and>
     distinct (map dedup_key kept) \<and> dedup_key ` set kept = dedup_key ` set fs"
  using deduplicate_spec [of "[]" fs] by auto

end
