(* ===== verification/Method_Slots.thy ===== *)
theory Method_Slots
  imports Method_Runner
begin

text \<open>
  What one method run leaves in its slots: every slot gets exactly one terminal record, accepted
  candidates have different identities, and the budget is enforced.
\<close>

section \<open>One slot\<close>

lemma classified_outcome:
  assumes "classified loads expected r c = (status, cand, reason)"
  shows "status \<noteq> SlotPending" "status \<noteq> SlotDuplicate" "cand \<noteq> None \<longleftrightarrow> status = SlotCandidate"
  using assms
  by (auto simp: classified_def classify_response_def split: if_splits option.splits)

lemma identities_ast: "identities sha c = (h, Some a) \<Longrightarrow> sha_digest a"
  by (auto simp: identities_def candidate_identity_def semantic_identity_def
      split: option.splits sum.splits json.splits if_splits)

text \<open>The outcome of the whole chain of decisions for a slot.\<close>

definition decided ::
    "(json \<Rightarrow> string) \<Rightarrow> (string \<Rightarrow> json option) \<Rightarrow> method_runner \<Rightarrow> string option \<Rightarrow> string \<Rightarrow> string list
       \<Rightarrow> provider_response \<Rightarrow> candidate option \<Rightarrow> slot_outcome" where
  "decided sha loads R expected prompt seen r c =
     (let oc = classified loads expected r c in
      enforced (snd (slot_check R prompt r)) (deduplicated (fst (identities sha (fst (snd oc)))) seen oc))"

lemma decided_outcome:
  assumes "decided sha loads R expected prompt seen r c = (status, cand, reason)"
  shows "status \<noteq> SlotPending" "cand \<noteq> None \<longleftrightarrow> status = SlotCandidate"
    and "check_status (snd (slot_check R prompt r)) = BudgetFail \<Longrightarrow>
      status \<in> {SlotInvalid, SlotDuplicate, SlotProviderFailure}"
    and "status = SlotCandidate \<Longrightarrow> cand = fst (snd (classified loads expected r c)) \<and>
      (case fst (identities sha cand) of None \<Rightarrow> True | Some h \<Rightarrow> h \<notin> set seen)"
    and "status = SlotDuplicate \<Longrightarrow>
      \<exists>h. fst (identities sha (fst (snd (classified loads expected r c)))) = Some h \<and> h \<in> set seen"
proof -
  obtain s0 c0 r0 where oc: "classified loads expected r c = (s0, c0, r0)" by (metis prod.exhaust)
  note facts = classified_outcome [OF oc]
  from assms facts show "status \<noteq> SlotPending" "cand \<noteq> None \<longleftrightarrow> status = SlotCandidate"
    by (auto simp: decided_def Let_def oc enforced_def deduplicated_def split: option.splits if_splits)
  from assms facts show "check_status (snd (slot_check R prompt r)) = BudgetFail \<Longrightarrow>
      status \<in> {SlotInvalid, SlotDuplicate, SlotProviderFailure}"
    by (auto simp: decided_def Let_def oc enforced_def deduplicated_def split: option.splits if_splits)
  from assms facts show "status = SlotCandidate \<Longrightarrow> cand = fst (snd (classified loads expected r c)) \<and>
      (case fst (identities sha cand) of None \<Rightarrow> True | Some h \<Rightarrow> h \<notin> set seen)"
    by (auto simp: decided_def Let_def oc enforced_def deduplicated_def split: option.splits if_splits)
  from assms facts show "status = SlotDuplicate \<Longrightarrow>
      \<exists>h. fst (identities sha (fst (snd (classified loads expected r c)))) = Some h \<and> h \<in> set seen"
    by (auto simp: decided_def Let_def oc enforced_def deduplicated_def split: option.splits if_splits)
qed

lemma record_slot_pending:
  assumes "i < length (os_slots os)" "slot_state (os_slots os ! i) = SlotPending"
    and "status \<noteq> SlotPending" "cand \<noteq> None \<longleftrightarrow> status = SlotCandidate"
    and "\<And>a. ast = Some a \<Longrightarrow> sha_digest a \<and> status \<in> {SlotCandidate, SlotDuplicate}"
  shows "record_slot (int i) status h cand reason ast os =
    (let s = \<lparr>slot_id = slot_id (os_slots os ! i), slot_index = i, slot_state = status,
              slot_response_hash = h, slot_candidate = cand, slot_reason = reason, slot_ast_hash = ast\<rparr>
     in Inr (s, os\<lparr>os_slots := (os_slots os)[i := s]\<rparr>))"
proof -
  have "\<not> (case ast of None \<Rightarrow> False | Some a \<Rightarrow> \<not> sha_digest a)"
    and "\<not> (ast \<noteq> None \<and> status \<notin> {SlotCandidate, SlotDuplicate})"
    using assms(5) by (cases ast; simp)+
  moreover have "\<not> (status = SlotCandidate \<and> cand = None)" "\<not> (status \<noteq> SlotCandidate \<and> cand \<noteq> None)"
    using assms(4) by auto
  ultimately show ?thesis
    using assms(1-3) unfolding record_slot_def Let_def by simp
qed

section \<open>The loop\<close>

definition accepted_identity :: "(json \<Rightarrow> string) \<Rightarrow> proposal_slot \<Rightarrow> string list" where
  "accepted_identity sha s = (case fst (identities sha (slot_candidate s)) of None \<Rightarrow> [] | Some h \<Rightarrow> [h])"

definition accepted_identities :: "(json \<Rightarrow> string) \<Rightarrow> proposal_slot list \<Rightarrow> string list" where
  "accepted_identities sha ss = concat (map (accepted_identity sha) ss)"

text \<open>What slot \<open>i\<close> says, given the slots recorded before it.\<close>

definition slot_ok ::
    "(json \<Rightarrow> string) \<Rightarrow> (string \<Rightarrow> json option) \<Rightarrow> method_runner \<Rightarrow> candidate_parser \<Rightarrow> string option \<Rightarrow> string
       \<Rightarrow> string \<Rightarrow> proposal_slot list \<Rightarrow> nat \<Rightarrow> bool" where
  "slot_ok sha loads R parser expected prompt attempt ss i \<longleftrightarrow>
     (\<exists>c. parsed_candidate parser expected (propose R i) = Inr c \<and>
        decided sha loads R expected prompt (accepted_identities sha (take i ss)) (propose R i) c =
          (slot_state (ss ! i), slot_candidate (ss ! i), slot_reason (ss ! i))) \<and>
     slot_id (ss ! i) = attempt @ '':slot:'' @ string_of_nat i \<and> slot_index (ss ! i) = i \<and>
     slot_response_hash (ss ! i) = resp_hash (propose R i)"

definition run_ok ::
    "(json \<Rightarrow> string) \<Rightarrow> (string \<Rightarrow> json option) \<Rightarrow> method_runner \<Rightarrow> candidate_parser \<Rightarrow> string option \<Rightarrow> string
       \<Rightarrow> string \<Rightarrow> nat \<Rightarrow> nat \<Rightarrow> run_vars \<Rightarrow> bool" where
  "run_ok sha loads R parser expected prompt attempt n k v \<longleftrightarrow>
     k \<le> n \<and> length (rv_recorded v) = k \<and>
     os_slots (rv_slots v) = rv_recorded v @ map (pending_slot attempt) [k ..< n] \<and>
     rv_responses v = map (propose R) [0 ..< k] \<and>
     rv_checks v = map (\<lambda>i. snd (slot_check R prompt (propose R i))) [0 ..< k] \<and>
     set (rv_hashes v) = set (accepted_identities sha (rv_recorded v)) \<and>
     (\<forall>i < k. slot_ok sha loads R parser expected prompt attempt (rv_recorded v) i)"

lemma identities_None [simp]: "identities sha None = (None, None)"
  by (simp add: identities_def)

lemma decided_seen:
  "set seen = set seen' \<Longrightarrow>
   decided sha loads R expected prompt seen r c = decided sha loads R expected prompt seen' r c"
  by (simp add: decided_def deduplicated_def Let_def cong: option.case_cong if_cong)

definition slot_record ::
    "string \<Rightarrow> nat \<Rightarrow> slot_outcome \<Rightarrow> string option \<Rightarrow> string option \<Rightarrow> proposal_slot" where
  "slot_record attempt i oc h ast =
     \<lparr>slot_id = attempt @ '':slot:'' @ string_of_nat i, slot_index = i, slot_state = fst oc,
      slot_response_hash = h, slot_candidate = fst (snd oc), slot_reason = snd (snd oc), slot_ast_hash = ast\<rparr>"

lemma slot_record_sel [simp]:
  "slot_id (slot_record attempt i oc h ast) = attempt @ '':slot:'' @ string_of_nat i"
  "slot_index (slot_record attempt i oc h ast) = i"
  "slot_state (slot_record attempt i oc h ast) = fst oc"
  "slot_response_hash (slot_record attempt i oc h ast) = h"
  "slot_candidate (slot_record attempt i oc h ast) = fst (snd oc)"
  "slot_reason (slot_record attempt i oc h ast) = snd (snd oc)"
  by (simp_all add: slot_record_def)

lemma run_slot_unfold:
  assumes ok: "run_ok sha loads R parser expected prompt attempt n k v" and k: "k < n"
    and c: "parsed_candidate parser expected (propose R k) = Inr c"
    and d: "decided sha loads R expected prompt (rv_hashes v) (propose R k) c = (status, cand, reason)"
  obtains ms ast s where
    "s = slot_record attempt k (status, cand, reason) (resp_hash (propose R k)) ast"
    "run_slot sha loads R parser expected prompt k v =
       Inr \<lparr>rv_slots = (rv_slots v)\<lparr>os_slots := (os_slots (rv_slots v))[k := s]\<rparr>,
            rv_recorded = rv_recorded v @ [s], rv_responses = rv_responses v @ [propose R k],
            rv_measurements = rv_measurements v @ ms,
            rv_checks = rv_checks v @ [snd (slot_check R prompt (propose R k))],
            rv_hashes = (if status = SlotCandidate then accepted_identity sha s @ rv_hashes v else rv_hashes v)\<rparr>"
proof -
  let ?r = "propose R k" and ?os = "os_slots (rv_slots v)"
  let ?oc = "classified loads expected ?r c"
  obtain h ast where h: "identities sha (fst (snd ?oc)) = (h, ast)" by fastforce
  obtain ms check where sc: "slot_check R prompt ?r = (ms, check)" by fastforce
  define ast' where "ast' = (if status \<in> {SlotCandidate, SlotDuplicate} then ast else None)"
  define s where "s = slot_record attempt k (status, cand, reason) (resp_hash ?r) ast'"
  from ok k have slot: "?os ! k = pending_slot attempt k" "k < length ?os"
    by (auto simp: run_ok_def nth_append)
  have rec: "record_slot (int k) status (resp_hash ?r) cand reason ast' (rv_slots v) =
    Inr (s, (rv_slots v)\<lparr>os_slots := ?os[k := s]\<rparr>)"
    using slot decided_outcome(1,2) [OF d] identities_ast h
    by (subst record_slot_pending) (auto simp: pending_slot_def ast'_def s_def slot_record_def Let_def split: if_splits)
  have e: "enforced check (deduplicated h (rv_hashes v) ?oc) = (status, cand, reason)"
    using d h sc by (simp add: decided_def Let_def)
  have acc: "status = SlotCandidate \<Longrightarrow> fst (identities sha cand) = h"
    using decided_outcome(4) [OF d] h by simp
  have hs: "(case h of Some x \<Rightarrow> if status = SlotCandidate then x # rv_hashes v else rv_hashes v
      | None \<Rightarrow> rv_hashes v) =
    (if status = SlotCandidate then accepted_identity sha s @ rv_hashes v else rv_hashes v)"
    using acc by (cases h) (simp_all add: accepted_identity_def s_def)
  have upd: "?os[k := s] ! k = s" using slot(2) by simp
  have "run_slot sha loads R parser expected prompt k v =
     Inr \<lparr>rv_slots = (rv_slots v)\<lparr>os_slots := ?os[k := s]\<rparr>,
          rv_recorded = rv_recorded v @ [s], rv_responses = rv_responses v @ [?r],
          rv_measurements = rv_measurements v @ ms, rv_checks = rv_checks v @ [snd (slot_check R prompt ?r)],
          rv_hashes = (if status = SlotCandidate then accepted_identity sha s @ rv_hashes v else rv_hashes v)\<rparr>"
    by (simp only: run_slot_def Let_def c bind_result_Inr h sc prod.case e snd_conv fst_conv
        ast'_def [symmetric] rec hs ordered_slots.select_convs ordered_slots.update_convs ordered_slots.simps) (simp add: upd sc)
  with s_def show thesis by (rule that)
qed

lemma run_slot_ok:
  assumes ok: "run_ok sha loads R parser expected prompt attempt n k v" and k: "k < n"
    and res: "run_slot sha loads R parser expected prompt k v = Inr v'"
  shows "run_ok sha loads R parser expected prompt attempt n (Suc k) v'"
proof -
  let ?r = "propose R k"
  from res obtain c where c: "parsed_candidate parser expected ?r = Inr c"
    by (auto simp: run_slot_def Let_def result_simps)
  obtain status cand reason where
    d: "decided sha loads R expected prompt (rv_hashes v) ?r c = (status, cand, reason)"
    by (metis prod.exhaust)
  obtain ms ast s where s: "s = slot_record attempt k (status, cand, reason) (resp_hash ?r) ast"
    and run: "run_slot sha loads R parser expected prompt k v =
       Inr \<lparr>rv_slots = (rv_slots v)\<lparr>os_slots := (os_slots (rv_slots v))[k := s]\<rparr>,
            rv_recorded = rv_recorded v @ [s], rv_responses = rv_responses v @ [?r],
            rv_measurements = rv_measurements v @ ms,
            rv_checks = rv_checks v @ [snd (slot_check R prompt ?r)],
            rv_hashes = (if status = SlotCandidate then accepted_identity sha s @ rv_hashes v else rv_hashes v)\<rparr>"
    by (rule run_slot_unfold [OF ok k c d])
  from run res have v': "os_slots (rv_slots v') = (os_slots (rv_slots v))[k := s]" "rv_recorded v' = rv_recorded v @ [s]"
      "rv_responses v' = rv_responses v @ [?r]" "rv_checks v' = rv_checks v @ [snd (slot_check R prompt ?r)]"
      "rv_hashes v' = (if status = SlotCandidate then accepted_identity sha s @ rv_hashes v else rv_hashes v)"
    by auto
  note ok' = ok [unfolded run_ok_def]
  from ok' k have os: "(os_slots (rv_slots v))[k := s] = (rv_recorded v @ [s]) @ map (pending_slot attempt) [Suc k ..< n]"
    by (simp add: upt_conv_Cons list_update_append)
  have hashes: "set (rv_hashes v') = set (accepted_identities sha (rv_recorded v'))"
    using ok' v'(2,5) decided_outcome(2) [OF d] s
    by (auto simp: accepted_identities_def accepted_identity_def)
  have "slot_ok sha loads R parser expected prompt attempt (rv_recorded v @ [s]) k"
  proof -
    have "length (rv_recorded v) = k" using ok' by simp
    then have "take k (rv_recorded v @ [s]) = rv_recorded v" "(rv_recorded v @ [s]) ! k = s"
      by (auto simp: nth_append)
    moreover have "decided sha loads R expected prompt (accepted_identities sha (rv_recorded v)) ?r c =
        (status, cand, reason)"
      using ok' d decided_seen by metis
    ultimately show ?thesis using c s unfolding slot_ok_def by simp
  qed
  moreover have "slot_ok sha loads R parser expected prompt attempt (rv_recorded v @ [s]) i" if "i < k" for i
    using ok' that by (simp add: slot_ok_def nth_append)
  ultimately have "\<forall>i < Suc k. slot_ok sha loads R parser expected prompt attempt (rv_recorded v') i"
    using v'(2) by (simp add: less_Suc_eq)
  then show ?thesis
    using ok' k os hashes v' by (simp add: run_ok_def)
qed

lemma run_slots_ok:
  assumes "run_ok sha loads R parser expected prompt attempt n k v"
    and "run_slots_from sha loads R parser expected prompt [k ..< n] v = Inr v'"
  shows "run_ok sha loads R parser expected prompt attempt n n v'"
  using assms
proof (induction "n - k" arbitrary: k v)
  case 0
  then show ?case by (simp add: run_ok_def)
next
  case (Suc d)
  then have k: "k < n" by simp
  with Suc.prems(2) obtain w where w: "run_slot sha loads R parser expected prompt k v = Inr w"
    "run_slots_from sha loads R parser expected prompt [Suc k ..< n] w = Inr v'"
    by (auto simp: upt_conv_Cons result_simps)
  from Suc.hyps(2) have "d = n - Suc k" by simp
  from Suc.hyps(1) [OF this run_slot_ok [OF Suc.prems(1) k w(1)] w(2)] show ?case .
qed

text \<open>The loop stops early only where a parser raises something it does not catch.\<close>

lemma run_slots_total:
  assumes "run_ok sha loads R parser expected prompt attempt n k v"
    and "\<And>i. i < n \<Longrightarrow> \<exists>c. parsed_candidate parser expected (propose R i) = Inr c"
  shows "\<exists>v'. run_slots_from sha loads R parser expected prompt [k ..< n] v = Inr v'"
  using assms
proof (induction "n - k" arbitrary: k v)
  case 0
  then show ?case by simp
next
  case (Suc d)
  then have k: "k < n" by simp
  with Suc.prems(2) obtain c where c: "parsed_candidate parser expected (propose R k) = Inr c"
    by blast
  obtain status cand reason where
    d: "decided sha loads R expected prompt (rv_hashes v) (propose R k) c = (status, cand, reason)"
    by (metis prod.exhaust)
  obtain w where w: "run_slot sha loads R parser expected prompt k v = Inr w"
    by (rule run_slot_unfold [OF Suc.prems(1) k c d]) blast
  from Suc.hyps(2) have "d = n - Suc k" by simp
  from Suc.hyps(1) [OF this run_slot_ok [OF Suc.prems(1) k w] Suc.prems(2)] w k show ?case
    by (simp add: upt_conv_Cons)
qed

lemma accepted_distinct:
  assumes "\<forall>i < k. slot_ok sha loads R parser expected prompt attempt ss i" and "k \<le> length ss"
  shows "distinct (accepted_identities sha (take k ss))"
  using assms
proof (induction k)
  case (Suc k)
  then have ok: "slot_ok sha loads R parser expected prompt attempt ss k" and k: "k < length ss" by simp_all
  from ok obtain c where
    d: "decided sha loads R expected prompt (accepted_identities sha (take k ss)) (propose R k) c =
          (slot_state (ss ! k), slot_candidate (ss ! k), slot_reason (ss ! k))"
    unfolding slot_ok_def by blast
  have "accepted_identity sha (ss ! k) = [] \<or> (\<exists>h. accepted_identity sha (ss ! k) = [h] \<and>
      h \<notin> set (accepted_identities sha (take k ss)))"
    using decided_outcome(2,4) [OF d]
    by (cases "slot_candidate (ss ! k)") (auto simp: accepted_identity_def split: option.splits)
  with Suc k show ?case
    by (auto simp: take_Suc_conv_app_nth accepted_identities_def)
qed (simp add: accepted_identities_def)

section \<open>The whole run\<close>

definition request_ok :: "method_runner \<Rightarrow> run_request \<Rightarrow> bool" where
  "request_ok R q =
     (rq_backbone q \<noteq> '''' \<and> rq_model q \<noteq> '''' \<and> rq_pack_hash q \<noteq> '''' \<and> rq_expected q \<noteq> Some '''' \<and>
      proposal_slots (template_policy (rq_template q)) = runner_slots R \<and> rq_attempt q \<noteq> '''')"

definition parser_of :: "run_request \<Rightarrow> candidate_parser" where
  "parser_of q = (case rq_parser q of None \<Rightarrow> (\<lambda>_. Candidate None) | Some p \<Rightarrow> p)"

definition run_start :: "run_request \<Rightarrow> nat \<Rightarrow> run_vars" where
  "run_start q n =
     \<lparr>rv_slots = \<lparr>os_attempt = rq_attempt q, os_policy = template_policy (rq_template q),
                os_slots = map (pending_slot (rq_attempt q)) [0 ..< n]\<rparr>,
      rv_recorded = [], rv_responses = [], rv_measurements = [], rv_checks = [], rv_hashes = []\<rparr>"

lemma run_start_ok: "run_ok sha loads R parser expected prompt (rq_attempt q) n 0 (run_start q n)"
  by (simp add: run_ok_def run_start_def accepted_identities_def)

lemma run_method_unfold:
  "run_method sha loads R q = Inr m \<longleftrightarrow>
   request_ok R q \<and> (\<exists>v. run_slots_from sha loads R (parser_of q) (rq_expected q)
       (render (rq_template q) (rq_pack_text q)) [0 ..< nat (runner_slots R)]
       (run_start q (nat (runner_slots R))) = Inr v \<and>
     m = \<lparr>run_track = rq_track q, run_backbone = rq_backbone q, run_attempt = rq_attempt q,
          run_template_hash = template_hash sha (rq_template q), run_pack_hash = rq_pack_hash q,
          run_settings = rq_settings q, run_slots = rv_recorded v, run_responses = rv_responses v,
          run_measurements = rv_measurements v, run_checks = rv_checks v\<rparr>)"
  by (auto simp: run_method_def request_ok_def parser_of_def run_start_def OrderedProposalSlots_def
      Let_def result_simps split: if_splits)

lemma run_method_slots:
  fixes R :: method_runner
  defines "n \<equiv> nat (runner_slots R)"
  assumes "run_method sha loads R q = Inr m"
  shows "length (run_slots m) = n" "run_responses m = map (propose R) [0 ..< n]"
    and "run_checks m = map (\<lambda>i. snd (slot_check R (render (rq_template q) (rq_pack_text q)) (propose R i))) [0 ..< n]"
    and "i < n \<Longrightarrow> slot_ok sha loads R (parser_of q) (rq_expected q)
          (render (rq_template q) (rq_pack_text q)) (rq_attempt q) (run_slots m) i"
proof -
  from assms obtain v where v: "run_slots_from sha loads R (parser_of q) (rq_expected q)
       (render (rq_template q) (rq_pack_text q)) [0 ..< n] (run_start q n) = Inr v"
    and m: "run_slots m = rv_recorded v" "run_responses m = rv_responses v" "run_checks m = rv_checks v"
    by (auto simp: run_method_unfold)
  from run_slots_ok [OF run_start_ok v] m
  show "length (run_slots m) = n" "run_responses m = map (propose R) [0 ..< n]"
    and "run_checks m = map (\<lambda>i. snd (slot_check R (render (rq_template q) (rq_pack_text q)) (propose R i))) [0 ..< n]"
    and "i < n \<Longrightarrow> slot_ok sha loads R (parser_of q) (rq_expected q)
          (render (rq_template q) (rq_pack_text q)) (rq_attempt q) (run_slots m) i"
    by (simp_all add: run_ok_def)
qed

lemma run_method_returns:
  "(\<exists>m. run_method sha loads R q = Inr m) \<longleftrightarrow>
   request_ok R q \<and>
   (\<forall>i < nat (runner_slots R). \<exists>c. parsed_candidate (parser_of q) (rq_expected q) (propose R i) = Inr c)"
proof
  assume "\<exists>m. run_method sha loads R q = Inr m"
  then obtain m where m: "run_method sha loads R q = Inr m" ..
  with run_method_slots(4) [OF m] show "request_ok R q \<and>
   (\<forall>i < nat (runner_slots R). \<exists>c. parsed_candidate (parser_of q) (rq_expected q) (propose R i) = Inr c)"
    by (auto simp: run_method_unfold slot_ok_def)
next
  assume r: "request_ok R q \<and>
   (\<forall>i < nat (runner_slots R). \<exists>c. parsed_candidate (parser_of q) (rq_expected q) (propose R i) = Inr c)"
  then have "\<exists>v. run_slots_from sha loads R (parser_of q) (rq_expected q)
       (render (rq_template q) (rq_pack_text q)) [0 ..< nat (runner_slots R)]
       (run_start q (nat (runner_slots R))) = Inr v"
    by (intro run_slots_total [OF run_start_ok]) simp
  with r show "\<exists>m. run_method sha loads R q = Inr m"
    by (auto simp: run_method_unfold)
qed

lemma run_method_decided:
  assumes "run_method sha loads R q = Inr m" "i < length (run_slots m)"
  obtains c where "parsed_candidate (parser_of q) (rq_expected q) (propose R i) = Inr c"
    "decided sha loads R (rq_expected q) (render (rq_template q) (rq_pack_text q))
       (accepted_identities sha (take i (run_slots m))) (propose R i) c =
     (slot_state (run_slots m ! i), slot_candidate (run_slots m ! i), slot_reason (run_slots m ! i))"
proof -
  have "i < nat (runner_slots R)" using assms(2) by (simp add: run_method_slots(1) [OF assms(1)])
  from run_method_slots(4) [OF assms(1) this] show thesis
    unfolding slot_ok_def using that by blast
qed

lemma method_slot_candidate:
  assumes "run_method sha loads R q = Inr m" "i < length (run_slots m)"
  shows "slot_candidate (run_slots m ! i) \<noteq> None \<longleftrightarrow> slot_state (run_slots m ! i) = SlotCandidate"
  by (rule run_method_decided [OF assms], rule decided_outcome(2))

lemma accepted_take:
  assumes "h \<in> set (accepted_identities sha (take i ss))"
  obtains j where "j < i" "j < length ss" "fst (identities sha (slot_candidate (ss ! j))) = Some h"
proof -
  from assms obtain s where s: "s \<in> set (take i ss)" "h \<in> set (accepted_identity sha s)"
    by (auto simp: accepted_identities_def)
  from s(1) obtain j where "j < i" "j < length ss" "s = ss ! j"
    by (auto simp: in_set_conv_nth [of s])
  with s(2) that show thesis by (auto simp: accepted_identity_def split: option.splits)
qed

lemma classified_source:
  assumes "fst (identities sha (fst (snd (classified loads expected r c)))) = Some h"
  shows "fst (identities sha c) = Some h \<and> c \<noteq> None"
  using assms
  by (auto simp: classified_def classify_response_def split: if_splits option.splits)

section \<open>The prompt\<close>

lemma count_sub_Nil [simp]: "count_sub p [] = 0"
  by (simp add: count_sub.simps)

lemma replace_sub_none: "count_sub p s = 0 \<Longrightarrow> replace_sub p new s = s"
proof (induction s)
  case Nil
  then show ?case by (simp add: replace_sub.simps [of p new "[]"])
next
  case (Cons a s)
  then have "p = [] \<or> take (length p) (a # s) \<noteq> p \<and> count_sub p s = 0"
    by (auto simp: count_sub.simps [of p "a # s"] split: if_splits)
  with Cons.IH show ?case by (auto simp: replace_sub.simps [of p new "a # s"])
qed

lemma replace_sub_once:
  assumes "count_sub p s = 1"
  shows "\<exists>before after. s = before @ p @ after \<and> count_sub p before = 0 \<and> count_sub p after = 0 \<and>
    (\<forall>new. replace_sub p new s = before @ new @ after)"
  using assms
proof (induction s)
  case (Cons a s)
  show ?case
  proof (cases "take (length p) (a # s) = p")
    case True
    have "count_sub p (drop (length p) (a # s)) = 0" and "p \<noteq> []"
      using Cons.prems True by (auto simp: count_sub.simps [of p "a # s"] split: if_splits)
    moreover have "a # s = [] @ p @ drop (length p) (a # s)"
      by (metis True append_take_drop_id append_Nil)
    moreover have "replace_sub p new (a # s) = [] @ new @ drop (length p) (a # s)" for new
      using True calculation by (simp add: replace_sub.simps [of p new "a # s"] replace_sub_none)
    ultimately show ?thesis by (metis count_sub_Nil)
  next
    case False
    with Cons obtain before after where s: "s = before @ p @ after" "count_sub p before = 0"
        "count_sub p after = 0" "\<And>new. replace_sub p new s = before @ new @ after"
      by (auto simp: count_sub.simps [of p "a # s"] split: if_splits)
    have "take (length p) (a # before) \<noteq> p"
    proof
      assume *: "take (length p) (a # before) = p"
      then have "length p \<le> length (a # before)"
        by (metis length_take min.absorb_iff2 min.commute)
      with * False s(1) show False by (cases "length p") (simp_all add: take_append)
    qed
    then have "count_sub p (a # before) = 0"
      using s(2) by (simp add: count_sub.simps [of p "a # before"])
    moreover have "replace_sub p new (a # s) = (a # before) @ new @ after" for new
      using False s(4) Cons.prems by (auto simp: replace_sub.simps [of p new "a # s"] count_sub.simps [of p "a # s"] split: if_splits)
    ultimately show ?thesis using s by (metis append_Cons)
  qed
qed simp

end
