(* ===== verification/Method_T0.thy ===== *)
theory Method_T0
  imports Method_Runner Xlir_Compiler
begin

text \<open>
  The offline template proposer of the T0 ablation (\<^verbatim>\<open>methods/t0.py\<close>): the template library with its
  checks, the public storage symbols of an artifact pack, and the slots it fills. Every
  T0InputError and ValueError is a \<open>MethodValue\<close>. \<open>sha\<close> is \<^verbatim>\<open>sha256_hex\<close>.
\<close>

section \<open>The template library\<close>

record t0_template =
  t0_id :: string
  t0_kind :: string
  t0_operator :: string
  t0_left :: string
  t0_right :: string
  t0_selection :: string

definition t0_template_dict :: "t0_template \<Rightarrow> json" where
  "t0_template_dict t = JObj
     [(''template_id'', JStr (t0_id t)), (''kind'', JStr (t0_kind t)), (''operator'', JStr (t0_operator t)),
      (''left_state'', JStr (t0_left t)), (''right_state'', JStr (t0_right t)),
      (''selection'', JStr (t0_selection t))]"

text \<open>The maximum is the JSON value it was read as: Python also takes \<^verbatim>\<open>true\<close> for an integer.\<close>

record t0_library =
  t0_revision :: string
  t0_max_slots :: json
  t0_templates :: "t0_template list"

definition library_hash :: "(json \<Rightarrow> string) \<Rightarrow> t0_library \<Rightarrow> string" where
  "library_hash sha L = sha (JObj
     [(''schema_version'', JInt 1), (''generator_revision'', JStr (t0_revision L)),
      (''max_slots'', t0_max_slots L), (''templates'', JArr (map t0_template_dict (t0_templates L)))])"

definition required_field :: "string \<Rightarrow> json dict \<Rightarrow> string \<Rightarrow> method_error + string" where
  "required_field what d k = (case jget d k of
       JStr s \<Rightarrow> if s = '''' then Inl (MethodValue (what @ k @ '' must be a non-empty string'')) else Inr s
     | _ \<Rightarrow> Inl (MethodValue (what @ k @ '' must be a non-empty string'')))"

definition parse_template :: "json \<Rightarrow> method_error + t0_template" where
  "parse_template row = (case row of
       JObj d \<Rightarrow>
         bind_result (required_field ''T0 template '' d ''template_id'') (\<lambda>i.
         bind_result (required_field ''T0 template '' d ''kind'') (\<lambda>k.
         bind_result (required_field ''T0 template '' d ''operator'') (\<lambda>op.
         bind_result (required_field ''T0 template '' d ''left_state'') (\<lambda>l.
         bind_result (required_field ''T0 template '' d ''right_state'') (\<lambda>r.
         bind_result (required_field ''T0 template '' d ''selection'') (\<lambda>s.
           if k \<noteq> ''invariant'' \<or> op \<noteq> ''eq'' \<or> l \<notin> {''pre'', ''post''} \<or> r \<notin> {''pre'', ''post''}
             then Inl (MethodValue (''unsupported T0 template grammar: '' @ i))
           else Inr \<lparr>t0_id = i, t0_kind = k, t0_operator = op, t0_left = l, t0_right = r, t0_selection = s\<rparr>))))))
     | _ \<Rightarrow> Inl (MethodValue ''T0 template must be an object''))"

text \<open>\<open>None\<close> is a file that cannot be read or is not JSON.\<close>

definition library_from_file :: "json option \<Rightarrow> method_error + t0_library" where
  "library_from_file content = (case content of
       None \<Rightarrow> Inl (MethodValue ''cannot read T0 template library'')
     | Some (JObj raw) \<Rightarrow>
         if \<not> equals_one (jget raw ''schema_version'')
           then Inl (MethodValue ''T0 template library schema_version must be 1'')
         else (case (as_string (jget raw ''generator_revision''), number_value (jget raw ''max_slots''),
                     jget raw ''templates'') of
             (Some revision, Some max_slots, JArr rows) \<Rightarrow>
               if revision = '''' \<or> max_slots \<le> 0 \<or> rows = []
                 then Inl (MethodValue ''T0 template library identity or templates are invalid'')
               else bind_result (map_result parse_template rows) (\<lambda>ts.
                 if \<not> distinct (map t0_id ts) then Inl (MethodValue ''T0 template IDs must be unique'')
                 else Inr \<lparr>t0_revision = revision, t0_max_slots = jget raw ''max_slots'', t0_templates = ts\<rparr>)
           | _ \<Rightarrow> Inl (MethodValue ''T0 template library identity or templates are invalid''))
     | Some _ \<Rightarrow> Inl (MethodValue ''T0 template library schema_version must be 1''))"

definition T0DeterministicProposer :: "t0_library \<Rightarrow> method_error + t0_library" where
  "T0DeterministicProposer L =
     (if t0_templates L = [] then Inl (MethodValue ''T0 requires at least one template'') else Inr L)"

section \<open>The artifact pack\<close>

definition private_fields :: "string list" where
  "private_fields = [''gold_property'', ''trigger_calldata'', ''exploit_payload'', ''mutation_diff'',
     ''private_key'', ''rpc_url'', ''property_oracle'']"

definition private_name :: "string \<Rightarrow> bool" where
  "private_name k \<longleftrightarrow> map ascii_lower k \<in> set private_fields"

text \<open>\<^verbatim>\<open>_assert_public_pack\<close>: the message of the first private field, depth first.\<close>

fun assert_public :: "string \<Rightarrow> json \<Rightarrow> string option"
and assert_public_members :: "string \<Rightarrow> (string \<times> json) list \<Rightarrow> string option"
and assert_public_items :: "string \<Rightarrow> nat \<Rightarrow> json list \<Rightarrow> string option" where
  "assert_public path (JObj d) = assert_public_members path d"
| "assert_public path (JArr xs) = assert_public_items path 0 xs"
| "assert_public path _ = None"
| "assert_public_members path [] = None"
| "assert_public_members path ((k, v) # d) =
     (if private_name k then Some (path @ ''.'' @ k @ '': forbidden private field'')
      else case assert_public (path @ ''.'' @ k) v of
             Some e \<Rightarrow> Some e | None \<Rightarrow> assert_public_members path d)"
| "assert_public_items path i [] = None"
| "assert_public_items path i (x # xs) =
     (case assert_public (path @ ''['' @ string_of_nat i @ '']'') x of
        Some e \<Rightarrow> Some e | None \<Rightarrow> assert_public_items path (Suc i) xs)"

definition scalar_types :: "string list" where
  "scalar_types = [''bool'', ''uint256'', ''int256'', ''address'', ''bytes32'']"

text \<open>One storage row; \<open>Inr None\<close> is a row that is passed over.\<close>

definition storage_symbol :: "json \<Rightarrow> method_error + artifact_symbol option" where
  "storage_symbol row = (case row of
       JObj d \<Rightarrow>
         if list_ex (\<lambda>k. \<not> nonempty_str (jget d k)) [''symbol_id'', ''path'', ''name'', ''domain'', ''kind'', ''type'']
           then Inl (MethodValue ''public storage symbol has incomplete identity'')
         else let field = (\<lambda>k. the (as_string (jget d k))) in
           if field ''kind'' \<noteq> ''storage'' \<or> field ''type'' \<notin> set scalar_types then Inr None
           else Inr (Some \<lparr>sym_id = field ''symbol_id'', sym_path = field ''path'', sym_name = field ''name'',
                       sym_domain = field ''domain'', sym_kind = field ''kind'', sym_type = field ''type''\<rparr>)
     | _ \<Rightarrow> Inl (MethodValue ''public storage symbol must be an object''))"

definition public_scalar_symbols :: "json dict \<Rightarrow> method_error + artifact_symbol list" where
  "public_scalar_symbols pack =
     (let storage = (case jget pack ''public_files'' of JObj fs \<Rightarrow> jget fs ''storage_symbols.json'' | _ \<Rightarrow> JNull);
          rows = (case storage of JObj d \<Rightarrow> jget d ''symbols'' | _ \<Rightarrow> JNull)
      in case rows of
           JArr rs \<Rightarrow> bind_result (map_result storage_symbol rs) (\<lambda>ss.
             Inr (sort_key sym_id (List.map_filter id ss)))
         | _ \<Rightarrow> Inl (MethodValue ''public artifact pack has no storage_symbols.json symbols''))"

section \<open>The proposal\<close>

definition state_read :: "string \<Rightarrow> string \<Rightarrow> json" where
  "state_read sid state = JObj [(''kind'', JStr ''symbol''), (''symbol_id'', JStr sid), (''state'', JStr state)]"

definition candidate_payload :: "t0_template \<Rightarrow> artifact_symbol \<Rightarrow> json dict" where
  "candidate_payload t s =
     [(''kind'', JStr (t0_kind t)), (''invariant_id'', JStr (''t0.'' @ t0_id t @ ''.'' @ sym_id s)),
      (''body'', JObj [(''kind'', JStr ''binary''), (''operator'', JStr (t0_operator t)),
                     (''left'', state_read (sym_id s) (t0_left t)),
                     (''right'', state_read (sym_id s) (t0_right t))])]"

text \<open>Only the first template is used.\<close>

definition candidate_payloads :: "t0_library \<Rightarrow> artifact_symbol list \<Rightarrow> (string \<times> json dict) list" where
  "candidate_payloads L ss =
     map (\<lambda>s. (t0_id (hd (t0_templates L)), candidate_payload (hd (t0_templates L)) s)) ss"

definition t0_slot ::
    "string \<Rightarrow> nat \<Rightarrow> slot_status \<Rightarrow> candidate option \<Rightarrow> string option \<Rightarrow> string option \<Rightarrow> proposal_slot" where
  "t0_slot attempt i status c reason ast =
     \<lparr>slot_id = attempt @ '':slot:'' @ string_of_nat i, slot_index = i, slot_state = status,
      slot_response_hash = None, slot_candidate = c, slot_reason = reason, slot_ast_hash = ast\<rparr>"

text \<open>One iteration: the slot, and the template and candidate hash it adds.\<close>

definition compiler_message :: "compiler_error \<Rightarrow> string" where
  "compiler_message e = (case e of NodeLimitNotPositive \<Rightarrow> ''maximum_ast_nodes must be positive''
                         | DuplicateSymbolId \<Rightarrow> ''symbol table contains duplicate symbol_id values'')"

definition t0_step ::
    "(json \<Rightarrow> string) \<Rightarrow> string \<Rightarrow> artifact_symbol list \<Rightarrow> (string \<times> json dict) list \<Rightarrow> nat
       \<Rightarrow> method_error + proposal_slot \<times> (string \<times> string) option" where
  "t0_step sha attempt ss cs i =
     (if i < length cs then
        let (template, payload) = cs ! i in
        bind_result (candidate_identity sha (Parsed (JObj payload))) (\<lambda>(digest, _).
          case from_symbols ss 256 of
            Inl e \<Rightarrow> Inl (MethodValue (compiler_message e))
          | Inr C \<Rightarrow>
              let compiled = compile sha C (JObj payload) in
              case comp_invariant compiled of
                None \<Rightarrow> Inl (MethodValue (''generated T0 candidate did not compile: '' @ template))
              | Some made \<Rightarrow>
                  if \<not> comp_ok compiled
                    then Inl (MethodValue (''generated T0 candidate did not compile: '' @ template))
                  else Inr (t0_slot attempt i SlotCandidate (Some (Parsed (JObj payload))) None (Some (canonical_hash made)),
                            Some (template, digest)))
      else Inr (t0_slot attempt i SlotAbstain None (Some ''no_remaining_public_scalar_symbol'') None, None))"

record t0_run =
  t0_method_run :: method_run
  t0_library_hash :: string
  t0_selected :: "string list"
  t0_candidate_hashes :: "string list"

definition t0_run_dict :: "(json \<Rightarrow> string) \<Rightarrow> float_text \<Rightarrow> t0_run \<Rightarrow> json" where
  "t0_run_dict sha F r = (case run_dict sha F (t0_method_run r) of
       JObj d \<Rightarrow> JObj (d @
         [(''template_library_hash'', JStr (t0_library_hash r)), (''selected_template_ids'', strings_json (t0_selected r)),
          (''candidate_hashes'', strings_json (t0_candidate_hashes r)),
          (''generator'', JStr ''offline_deterministic_t0'')])
     | v \<Rightarrow> v)"

definition t0_settings :: "(json \<Rightarrow> string) \<Rightarrow> t0_library \<Rightarrow> int \<Rightarrow> json dict" where
  "t0_settings sha L n =
     [(''generator_revision'', JStr (t0_revision L)), (''template_library_hash'', JStr (library_hash sha L)),
      (''proposal_slots'', JInt n), (''provider'', JStr ''none''), (''thinking'', JStr ''not_applicable'')]"

text \<open>\<open>given\<close> is the hash of the pack when the caller knows it.\<close>

definition pack_hash :: "(json \<Rightarrow> string) \<Rightarrow> string option \<Rightarrow> json dict \<Rightarrow> method_error + string" where
  "pack_hash sha given pack =
     (if given \<noteq> None \<and> given \<noteq> Some '''' then Inr (the given)
      else case sha256_hex sha (JObj pack) of
             None \<Rightarrow> Inl (MethodValue ''Out of range float values are not JSON compliant'')
           | Some h \<Rightarrow> Inr h)"

definition t0_propose ::
    "(json \<Rightarrow> string) \<Rightarrow> t0_library \<Rightarrow> json dict \<Rightarrow> string \<Rightarrow> string option \<Rightarrow> int \<Rightarrow> method_error + t0_run" where
  "t0_propose sha L pack attempt given n =
     (if attempt = '''' then Inl (MethodValue ''T0 attempt_id is required'')
      else if n \<le> 0 \<or> the (number_value (t0_max_slots L)) < n
        then Inl (MethodValue ''proposal_slots must be within the T0 library maximum'')
      else case assert_public ''$'' (JObj pack) of
        Some e \<Rightarrow> Inl (MethodValue e)
      | None \<Rightarrow>
          bind_result (public_scalar_symbols pack) (\<lambda>ss.
          bind_result (pack_hash sha given pack) (\<lambda>h.
          bind_result (map_result (t0_step sha attempt ss (candidate_payloads L ss)) [0 ..< nat n]) (\<lambda>steps.
            let selected = List.map_filter snd steps;
                run = \<lparr>run_track = TrackT0, run_backbone = ''deterministic'', run_attempt = attempt,
                       run_template_hash = library_hash sha L, run_pack_hash = h,
                       run_settings = t0_settings sha L n, run_slots = map fst steps, run_responses = [],
                       run_measurements = [], run_checks = []\<rparr>
            in Inr \<lparr>t0_method_run = run, t0_library_hash = library_hash sha L,
                    t0_selected = map fst selected, t0_candidate_hashes = map snd selected\<rparr>))))"

end
