(* ===== verification/Method_Templates.thy ===== *)
theory Method_Templates
  imports Method_T0 Xlir_Safety
begin

text \<open>
  What the template proposer produces: every candidate it builds compiles against the symbols of
  its pack, so a checked library fills its slots, and a pack with a private field is refused.
\<close>

section \<open>Private fields\<close>

text \<open>All keys of a value, at any depth.\<close>

fun json_keys :: "json \<Rightarrow> string list" where
  "json_keys (JObj d) = concat (map (\<lambda>kv. fst kv # json_keys (snd kv)) d)"
| "json_keys (JArr xs) = concat (map json_keys xs)"
| "json_keys _ = []"

lemma assert_public_iff:
  "assert_public path v = None \<longleftrightarrow> (\<forall>k \<in> set (json_keys v). \<not> private_name k)"
  "assert_public_members path d = None \<longleftrightarrow> (\<forall>kv \<in> set d. \<not> private_name (fst kv) \<and>
     (\<forall>k \<in> set (json_keys (snd kv)). \<not> private_name k))"
  "assert_public_items path i xs = None \<longleftrightarrow> (\<forall>x \<in> set xs. \<forall>k \<in> set (json_keys x). \<not> private_name k)"
  by (induction path v and path d and path i xs rule: assert_public_assert_public_members_assert_public_items.induct)
     (auto split: option.splits)

section \<open>Candidates compile\<close>

definition template_ok :: "t0_template \<Rightarrow> bool" where
  "template_ok t \<longleftrightarrow> t0_kind t = ''invariant'' \<and> t0_operator t = ''eq'' \<and>
     t0_left t \<in> {''pre'', ''post''} \<and> t0_right t \<in> {''pre'', ''post''}"

definition symbol_ok :: "artifact_symbol \<Rightarrow> bool" where
  "symbol_ok s \<longleftrightarrow> sym_id s \<noteq> '''' \<and> sym_type s \<in> set scalar_types"

definition candidate_body :: "t0_template \<Rightarrow> artifact_symbol \<Rightarrow> expr" where
  "candidate_body t s =
     (let ty = the (ValueType (JStr (sym_type s)));
          read = (\<lambda>state. SymbolRef (sym_id s) ty (sym_domain s) state)
      in Binary ''eq'' (read (t0_left t)) (read (t0_right t)) BOOL)"

lemma scalar_type_known: "sym_type s \<in> set scalar_types \<Longrightarrow> \<exists>ty. ValueType (JStr (sym_type s)) = Some ty"
  by (auto simp: scalar_types_def ValueType_def)

lemma compile_state_read:
  assumes "symbols C (sym_id s) = Some s" "symbol_ok s" "st \<in> {''pre'', ''post''}" "nodes c < maximum_ast_nodes C"
  shows "compile_expression C (state_read (sym_id s) st) path c =
    Inr (SymbolRef (sym_id s) (the (ValueType (JStr (sym_type s)))) (sym_domain s) st, c\<lparr>nodes := Suc (nodes c)\<rparr>)"
proof -
  let ?raw = "[(''kind'', JStr ''symbol''), (''symbol_id'', JStr (sym_id s)), (''state'', JStr st)]"
  obtain ty where "ValueType (JStr (sym_type s)) = Some ty"
    using scalar_type_known assms(2) by (auto simp: symbol_ok_def)
  then have "compile_symbol C ?raw path = Inr (SymbolRef (sym_id s) ty (sym_domain s) st)" for path
    using assms by (auto simp: compile_symbol_def symbol_ok_def op_in_def Let_def)
  moreover have "expression_kind ?raw path = Inr ''symbol''" for path
    by (simp add: expression_kind_def allowed_fields_def has_extra_fields_def Let_def)
  ultimately show ?thesis
    using assms \<open>ValueType (JStr (sym_type s)) = Some ty\<close>
    by (subst compile_expression.simps) (simp add: state_read_def Let_def)
qed

lemma compile_candidate:
  assumes "symbols C (sym_id s) = Some s" "symbol_ok s" "template_ok t" "3 \<le> maximum_ast_nodes C"
  shows "compile sha C (JObj (candidate_payload t s)) =
    \<lparr>comp_invariant = Some \<lparr>invariant_id = Some (''t0.'' @ t0_id t @ ''.'' @ sym_id s), inv_body = candidate_body t s,
       canonical_hash = sha (as_dict (candidate_body t s)), node_count = 3\<rparr>, abstained = False, diagnostics = []\<rparr>"
proof -
  let ?raw = "[(''kind'', JStr ''binary''), (''operator'', JStr ''eq''), (''left'', state_read (sym_id s) (t0_left t)),
      (''right'', state_read (sym_id s) (t0_right t))]"
  let ?body = "candidate_body t s" and ?st = "\<lambda>n. \<lparr>nodes = n, bound_variables = Map.empty\<rparr>"
  obtain ty where ty: "ValueType (JStr (sym_type s)) = Some ty"
    using scalar_type_known assms(2) by (auto simp: symbol_ok_def)
  have states: "t0_left t \<in> {''pre'', ''post''}" "t0_right t \<in> {''pre'', ''post''}"
    using assms(3) by (auto simp: template_ok_def)
  have reads: "compile_expression C (state_read (sym_id s) (t0_left t)) p (?st 1) =
      Inr (SymbolRef (sym_id s) ty (sym_domain s) (t0_left t), ?st 2)"
    "compile_expression C (state_read (sym_id s) (t0_right t)) p (?st 2) =
      Inr (SymbolRef (sym_id s) ty (sym_domain s) (t0_right t), ?st 3)" for p
    using compile_state_read [OF assms(1,2) states(1), of "?st 1" p]
      compile_state_read [OF assms(1,2) states(2), of "?st 2" p] assms(4) ty
    by (simp_all add: numeral_2_eq_2 numeral_3_eq_3)
  have "compile_binary (\<lambda>j p s. compile_expression C j p s) ?raw ''$.body'' (?st 1) = Inr (?body, ?st 3)"
    by (simp add: compile_binary_def reads [simplified] Let_def)
       (simp add: binary_result_def operator_classes candidate_body_def ty Let_def)
  moreover have "expression_kind ?raw ''$.body'' = Inr ''binary''"
    by (simp add: expression_kind_def allowed_fields_def has_extra_fields_def Let_def)
  ultimately have expr: "compile_expression C (JObj ?raw) ''$.body'' (?st 0) = Inr (?body, ?st 3)"
    using assms(4) by (subst compile_expression.simps) (simp add: Let_def)
  have bool: "vtype ?body = BOOL" by (simp add: candidate_body_def Let_def)
  show ?thesis
    using assms(3) by (simp add: compile_def candidate_payload_def compile_body_def has_extra_fields_def
        template_ok_def expr bool Let_def)
qed

section \<open>A run of the proposer\<close>

lemma storage_symbol_ok: "storage_symbol row = Inr (Some s) \<Longrightarrow> symbol_ok s"
proof -
  assume r: "storage_symbol row = Inr (Some s)"
  then obtain d where "row = JObj d" by (auto simp: storage_symbol_def split: json.splits)
  moreover have "the (as_string v) \<noteq> ''''" if "nonempty_str v" for v
    using that by (cases v) (auto simp: as_string_def)
  ultimately show "symbol_ok s" using r
    by (auto simp: storage_symbol_def symbol_ok_def Let_def split: if_splits)
qed

lemma public_scalar_symbols_ok:
  assumes "public_scalar_symbols pack = Inr ss"
  shows "\<forall>s \<in> set ss. symbol_ok s"
proof -
  obtain rs xs where "map_result storage_symbol rs = Inr xs" "ss = sort_key sym_id (List.map_filter id xs)"
    using assms by (auto simp: public_scalar_symbols_def Let_def result_simps split: json.splits)
  then show ?thesis
    by (auto simp: List.map_filter_def storage_symbol_ok dest: map_result_Inr_set)
qed

lemma candidate_payload_encodable: "encodable (JObj (candidate_payload t s))"
  by (simp add: candidate_payload_def state_read_def)

lemma candidate_payload_identity:
  "candidate_identity sha (Parsed (JObj (candidate_payload t s))) = Inr (sha (JObj (candidate_payload t s)), None)"
proof -
  have "claimed_hash (Parsed (JObj (candidate_payload t s))) = JNull"
    by (simp add: claimed_hash_def candidate_payload_def)
  then show ?thesis
    using candidate_payload_encodable [of t s]
    by (simp add: candidate_identity_def semantic_identity_def sha256_hex_def)
qed

text \<open>The slot that the code fills at one index, written out.\<close>

definition expected_slot :: "(json \<Rightarrow> string) \<Rightarrow> string \<Rightarrow> t0_template \<Rightarrow> artifact_symbol list \<Rightarrow> nat \<Rightarrow> proposal_slot" where
  "expected_slot sha attempt t ss i =
     (if i < length ss
      then t0_slot attempt i SlotCandidate (Some (Parsed (JObj (candidate_payload t (ss ! i))))) None
             (Some (sha (as_dict (candidate_body t (ss ! i)))))
      else t0_slot attempt i SlotAbstain None (Some ''no_remaining_public_scalar_symbol'') None)"

definition expected_choice ::
    "(json \<Rightarrow> string) \<Rightarrow> t0_template \<Rightarrow> artifact_symbol list \<Rightarrow> nat \<Rightarrow> (string \<times> string) option" where
  "expected_choice sha t ss i =
     (if i < length ss then Some (t0_id t, sha (JObj (candidate_payload t (ss ! i)))) else None)"

lemma from_symbols_lookup:
  assumes "distinct (map sym_id ss)"
  shows "\<exists>C. from_symbols ss 256 = Inr C \<and> maximum_ast_nodes C = 256 \<and> (\<forall>s \<in> set ss. symbols C (sym_id s) = Some s)"
  using assms by (auto simp: from_symbols_def make_compiler_def comp_def intro!: map_of_is_SomeI)

lemma t0_step_slot:
  assumes "distinct (map sym_id ss)" "\<forall>s \<in> set ss. symbol_ok s" "template_ok t" "t = hd (t0_templates L)"
  shows "t0_step sha attempt ss (candidate_payloads L ss) i
    = Inr (expected_slot sha attempt t ss i, expected_choice sha t ss i)"
proof (cases "i < length ss")
  case True
  obtain C where C: "from_symbols ss 256 = Inr C" "maximum_ast_nodes C = 256"
    "\<forall>s \<in> set ss. symbols C (sym_id s) = Some s"
    using from_symbols_lookup [OF assms(1)] by blast
  let ?s = "ss ! i"
  have s: "symbols C (sym_id ?s) = Some ?s" "symbol_ok ?s" using C(3) assms(2) True by auto
  note made = compile_candidate [OF s assms(3)]
  show ?thesis
    using True C(1,2)
    by (simp add: t0_step_def candidate_payloads_def assms(4) [symmetric] candidate_payload_identity made
        comp_ok_def expected_slot_def expected_choice_def Let_def)
next
  case False
  then show ?thesis
    by (simp add: t0_step_def candidate_payloads_def expected_slot_def expected_choice_def)
qed

lemma map_filter_choice:
  "List.map_filter snd (map (\<lambda>i. (f i, expected_choice sha t ss i)) [0 ..< n]) =
     map (\<lambda>i. (t0_id t, sha (JObj (candidate_payload t (ss ! i))))) [0 ..< min n (length ss)]"
proof (induction n)
  case 0
  then show ?case by (simp add: List.map_filter_def)
next
  case (Suc n)
  then show ?case
    by (cases "n < length ss") (simp_all add: List.map_filter_def expected_choice_def min_def)
qed

lemma parse_template_ok: "parse_template row = Inr t \<Longrightarrow> template_ok t"
  by (auto simp: parse_template_def template_ok_def result_simps split: json.splits if_splits)

lemma library_from_file_ok:
  assumes "library_from_file content = Inr L"
  shows "t0_templates L \<noteq> [] \<and> (\<forall>t \<in> set (t0_templates L). template_ok t) \<and> distinct (map t0_id (t0_templates L))"
proof -
  obtain rows where "rows \<noteq> []" "map_result parse_template rows = Inr (t0_templates L)"
    "distinct (map t0_id (t0_templates L))"
    using assms by (auto simp: library_from_file_def result_simps split: option.splits json.splits if_splits)
  then show ?thesis
    by (auto dest: map_result_Inr_set map_result_Inr_length parse_template_ok)
qed

lemma t0_propose_slots:
  assumes "library_from_file content = Inr L" "attempt \<noteq> ''''" "0 < n" "n \<le> the (number_value (t0_max_slots L))"
    and "assert_public ''$'' (JObj pack) = None" "public_scalar_symbols pack = Inr ss" "distinct (map sym_id ss)"
    and "pack_hash sha given pack = Inr h" "t = hd (t0_templates L)"
  shows "\<exists>run. t0_propose sha L pack attempt given n = Inr run \<and>
    run_slots (t0_method_run run) = map (expected_slot sha attempt t ss) [0 ..< nat n] \<and>
    t0_selected run = replicate (min (nat n) (length ss)) (t0_id t) \<and>
    t0_candidate_hashes run = map (\<lambda>i. sha (JObj (candidate_payload t (ss ! i)))) [0 ..< min (nat n) (length ss)]"
proof -
  have t: "template_ok t" using library_from_file_ok [OF assms(1)] assms(9) by auto
  have "map_result (t0_step sha attempt ss (candidate_payloads L ss)) [0 ..< nat n]
      = Inr (map (\<lambda>i. (expected_slot sha attempt t ss i, expected_choice sha t ss i)) [0 ..< nat n])"
    by (rule map_result_all_Inr) (rule t0_step_slot [OF assms(7) public_scalar_symbols_ok [OF assms(6)] t assms(9)])
  then show ?thesis
    using assms(2-6,8)
    by (simp add: t0_propose_def map_filter_choice Let_def comp_def map_replicate_const)
qed

end
