(* ===== verification/Method_Properties.thy ===== *)
theory Method_Properties
  imports Method_Slots Method_Templates
begin

text \<open>
  The properties of a method attempt: what a run leaves in its slots, when it returns, and what
  the rendered prompt is.
\<close>

section \<open>A concrete attempt\<close>

definition demo_digest :: "json \<Rightarrow> string" where
  "demo_digest v = replicate 64 (if v = JObj [] then CHR ''a'' else CHR ''b'')"

definition demo_response :: "string \<Rightarrow> int \<Rightarrow> provider_response" where
  "demo_response text n =
     \<lparr>resp_request = ''q'', resp_hash = Some ''r'', resp_status = JInt 200, resp_text = Some text,
      resp_model = Some ''m'', resp_finish = None,
      resp_usage = [(''prompt_tokens'', Some 7), (''generated_tokens'', Some n)], resp_attempts = 1,
      resp_partial = False, resp_error = None, resp_detail = None, resp_request_body = None,
      resp_response_body = None, resp_headers = [], resp_elapsed = None\<rparr>"

text \<open>Slots: over the budget, accepted, accepted, the first accepted one again, refused.\<close>

definition demo_runner :: method_runner where
  "demo_runner =
     \<lparr>propose = (\<lambda>i. [demo_response ''{}'' 9000, demo_response ''{}'' 5, demo_response ''[]'' 5,
                     demo_response ''{}'' 6, demo_response '''' 0] ! i),
      runner_slots = 5, token_counter = None, runner_budget = default_budget\<rparr>"

definition demo_loads :: "string \<Rightarrow> json option" where
  "demo_loads t = (if t = ''{}'' then Some (JObj []) else if t = ''[]'' then Some (JArr []) else None)"

definition demo_parser :: candidate_parser where
  "demo_parser t = (case demo_loads t of None \<Rightarrow> ParseValueError | Some v \<Rightarrow> Candidate (Some (Parsed v)))"

definition demo_template :: prompt_template where
  "demo_template = \<lparr>template_id = ''t'', template_version = ''1'', template_text = ''<{artifact_pack}>'',
     template_policy = \<lparr>allow_memory = False, allow_tools = False, allow_retrieval = False, proposal_slots = 5\<rparr>\<rparr>"

definition demo_request :: run_request where
  "demo_request = \<lparr>rq_track = TrackCrossLLM, rq_backbone = ''b'', rq_model = ''m'', rq_attempt = ''a'',
     rq_template = demo_template, rq_pack_text = ''pack'', rq_pack_hash = ''h'', rq_settings = [],
     rq_parser = Some demo_parser, rq_expected = Some ''m''\<rparr>"

lemma demo_states:
  "(case run_method demo_digest demo_loads demo_runner demo_request of
      Inl _ \<Rightarrow> False
    | Inr m \<Rightarrow> map slot_state (run_slots m) =
        [SlotInvalid, SlotCandidate, SlotCandidate, SlotDuplicate, SlotRefusal])"
  by code_simp

lemma demo_run: "\<exists>m. run_method demo_digest demo_loads demo_runner demo_request = Inr m \<and>
    map slot_state (run_slots m) = [SlotInvalid, SlotCandidate, SlotCandidate, SlotDuplicate, SlotRefusal]"
  using demo_states by (auto split: sum.splits)

section \<open>The slots of a run\<close>

text \<open>
  C26. A run that returns has called the provider once per slot, in order, and has given every
  slot exactly one terminal record under its own identifier and with the hash of its own
  response; a slot carries a candidate if and only if it is an accepted one.
\<close>

theorem method_run_slots:
  assumes "run_method sha loads R q = Inr m"
  shows "run_responses m = map (propose R) [0 ..< nat (runner_slots R)] \<and>
    length (run_slots m) = nat (runner_slots R) \<and> length (run_checks m) = nat (runner_slots R) \<and>
    (\<forall>i < nat (runner_slots R).
       slot_id (run_slots m ! i) = rq_attempt q @ '':slot:'' @ string_of_nat i \<and>
       slot_index (run_slots m ! i) = i \<and> slot_state (run_slots m ! i) \<noteq> SlotPending \<and>
       slot_response_hash (run_slots m ! i) = resp_hash (propose R i) \<and>
       (slot_candidate (run_slots m ! i) \<noteq> None \<longleftrightarrow> slot_state (run_slots m ! i) = SlotCandidate))"
proof (intro conjI allI impI)
  note facts = run_method_slots [OF assms]
  show "run_responses m = map (propose R) [0 ..< nat (runner_slots R)]"
    "length (run_slots m) = nat (runner_slots R)" "length (run_checks m) = nat (runner_slots R)"
    using facts(1-3) by simp_all
  fix i assume i: "i < nat (runner_slots R)"
  from facts(4) [OF i]
  show "slot_id (run_slots m ! i) = rq_attempt q @ '':slot:'' @ string_of_nat i"
    "slot_index (run_slots m ! i) = i" "slot_response_hash (run_slots m ! i) = resp_hash (propose R i)"
    by (simp_all add: slot_ok_def)
  from i have i: "i < length (run_slots m)" by (simp add: facts(1))
  then show "slot_state (run_slots m ! i) \<noteq> SlotPending"
    by (rule run_method_decided [OF assms]) (rule decided_outcome(1))
  show "slot_candidate (run_slots m ! i) \<noteq> None \<longleftrightarrow> slot_state (run_slots m ! i) = SlotCandidate"
    by (rule method_slot_candidate [OF assms i])
qed

theorem method_run_slots_witness:
  "\<exists>m. run_method demo_digest demo_loads demo_runner demo_request = Inr m \<and>
    length (run_slots m) = 5 \<and> slot_id (run_slots m ! 3) = ''a:slot:3''"
proof -
  obtain m where m: "run_method demo_digest demo_loads demo_runner demo_request = Inr m"
    using demo_run by blast
  from method_run_slots [OF m] have "length (run_slots m) = 5 \<and> slot_id (run_slots m ! 3) = ''a:slot:3''"
    by (simp add: demo_runner_def demo_request_def string_of_nat.simps [of 3] digit_char_def)
  with m show ?thesis by blast
qed

text \<open>
  The caps of the budget, on the two ledgers of a response: the counts the provider reports, and
  the lengths of the configured tokenizer's output. A ledger speaks only when it has both counts.
\<close>

definition reported_over_cap :: "token_budget \<Rightarrow> provider_response \<Rightarrow> bool" where
  "reported_over_cap b r \<longleftrightarrow> (\<exists>x y.
     dict_get (resp_usage r) ''prompt_tokens'' = Some (Some x) \<and>
     dict_get (resp_usage r) ''generated_tokens'' = Some (Some y) \<and>
     (input_cap b < x \<or> generated_cap b < y))"

definition counted_over_cap ::
    "token_budget \<Rightarrow> (string \<Rightarrow> encoder_result) \<Rightarrow> string \<Rightarrow> provider_response \<Rightarrow> bool" where
  "counted_over_cap b encoder prompt r \<longleftrightarrow> (\<exists>xs t ys.
     encoder prompt = EncoderTokens xs \<and> resp_text r = Some t \<and> encoder t = EncoderTokens ys \<and>
     list_all token_id xs \<and> list_all token_id ys \<and>
     (input_cap b < int (length xs) \<or> generated_cap b < int (length ys)))"

definition breaks_budget :: "method_runner \<Rightarrow> string \<Rightarrow> provider_response \<Rightarrow> bool" where
  "breaks_budget R prompt r \<longleftrightarrow> reported_over_cap (runner_budget R) r \<or>
     (\<exists>identity encoder. token_counter R = Some (identity, encoder) \<and>
        counted_over_cap (runner_budget R) encoder prompt r)"

lemma budget_result_fails:
  "check_status (budget_result reason p g b) = BudgetFail \<longleftrightarrow>
     (\<exists>x y. p = Some x \<and> g = Some y \<and> (input_cap b < x \<or> generated_cap b < y))"
  by (auto simp: budget_result_def Let_def split: option.split)

lemma validate_usage_fails: "check_status (validate_usage r b) = BudgetFail \<longleftrightarrow> reported_over_cap b r"
  unfolding validate_usage_def budget_result_fails reported_over_cap_def usage_get_def
  by (auto split: option.splits)

lemma token_count_Inr:
  "token_count encoder t = Inr n \<longleftrightarrow>
     (\<exists>vs. encoder t = EncoderTokens vs \<and> list_all token_id vs \<and> n = int (length vs))"
  by (auto simp: token_count_def split: encoder_result.split)

lemma count_value_Some: "count_value c = Some n \<longleftrightarrow> c = Inr n"
  by (auto simp: count_value_def split: sum.split)

lemma validate_measurement_fails:
  "check_status (validate_measurement (measure_tokens identity encoder prompt (resp_text r)) b) = BudgetFail \<longleftrightarrow>
     counted_over_cap b encoder prompt r"
  unfolding validate_measurement_def budget_result_fails counted_over_cap_def
  by (cases "resp_text r") (auto simp: measure_tokens_def Let_def count_value_Some token_count_Inr)

lemma slot_check_fails: "check_status (snd (slot_check R prompt r)) = BudgetFail \<longleftrightarrow> breaks_budget R prompt r"
  by (auto simp: slot_check_def Let_def breaks_budget_def validate_usage_fails validate_measurement_fails
      split: option.split prod.split)

text \<open>
  C25. The candidates a run accepts are pairwise different by identity hash, a slot is called a
  duplicate only when an earlier slot was accepted with the same identity, and a response that
  breaks the token budget is never accepted and so never counts for later duplicates. A response
  breaks the budget when the provider reports both token counts and one exceeds its cap, or when a
  tokenizer is configured, encodes both the rendered prompt and the response's text, and one of the
  two lengths exceeds its cap (a ledger with a missing count decides nothing); the recorded check
  says fail for exactly these responses.
\<close>

theorem method_candidates_distinct:
  assumes "run_method sha loads R q = Inr m"
  shows "distinct (accepted_identities sha (run_slots m)) \<and>
    (\<forall>i < length (run_slots m). slot_state (run_slots m ! i) = SlotDuplicate \<longrightarrow>
       (\<exists>j < i. \<exists>c. parsed_candidate (parser_of q) (rq_expected q) (propose R i) = Inr c \<and>
          slot_state (run_slots m ! j) = SlotCandidate \<and>
          fst (identities sha (slot_candidate (run_slots m ! j))) = fst (identities sha c) \<and> c \<noteq> None)) \<and>
    (\<forall>i < length (run_slots m).
       (check_status (run_checks m ! i) = BudgetFail \<longleftrightarrow>
          breaks_budget R (render (rq_template q) (rq_pack_text q)) (propose R i)) \<and>
       (breaks_budget R (render (rq_template q) (rq_pack_text q)) (propose R i) \<longrightarrow>
          slot_state (run_slots m ! i) \<in> {SlotInvalid, SlotDuplicate, SlotProviderFailure}))"
proof (intro conjI allI impI)
  note facts = run_method_slots [OF assms]
  show "distinct (accepted_identities sha (run_slots m))"
    using accepted_distinct [of "length (run_slots m)"] facts(1,4) by fastforce
  fix i assume i: "i < length (run_slots m)"
  from run_method_decided [OF assms i] obtain c where
    c: "parsed_candidate (parser_of q) (rq_expected q) (propose R i) = Inr c"
    and d: "decided sha loads R (rq_expected q) (render (rq_template q) (rq_pack_text q))
          (accepted_identities sha (take i (run_slots m))) (propose R i) c =
        (slot_state (run_slots m ! i), slot_candidate (run_slots m ! i), slot_reason (run_slots m ! i))"
    by metis
  let ?prompt = "render (rq_template q) (rq_pack_text q)"
  show "check_status (run_checks m ! i) = BudgetFail \<longleftrightarrow> breaks_budget R ?prompt (propose R i)"
    using i facts(1,3) by (simp add: slot_check_fails)
  show "slot_state (run_slots m ! i) \<in> {SlotInvalid, SlotDuplicate, SlotProviderFailure}"
    if "breaks_budget R ?prompt (propose R i)"
    using decided_outcome(3) [OF d] that by (simp add: slot_check_fails)
  assume "slot_state (run_slots m ! i) = SlotDuplicate"
  from decided_outcome(5) [OF d this] obtain h where
    h: "fst (identities sha (fst (snd (classified loads (rq_expected q) (propose R i) c)))) = Some h"
    and seen: "h \<in> set (accepted_identities sha (take i (run_slots m)))" by blast
  from classified_source [OF h] have hc: "fst (identities sha c) = Some h" "c \<noteq> None" by auto
  from accepted_take [OF seen] obtain j where j: "j < i"
    and hj: "fst (identities sha (slot_candidate (run_slots m ! j))) = Some h" by metis
  from hj have "slot_candidate (run_slots m ! j) \<noteq> None" by (cases "slot_candidate (run_slots m ! j)") auto
  then have "slot_state (run_slots m ! j) = SlotCandidate"
    using method_slot_candidate [OF assms, of j] i j by simp
  with c hc hj j
  show "\<exists>j < i. \<exists>c. parsed_candidate (parser_of q) (rq_expected q) (propose R i) = Inr c \<and>
          slot_state (run_slots m ! j) = SlotCandidate \<and>
          fst (identities sha (slot_candidate (run_slots m ! j))) = fst (identities sha c) \<and> c \<noteq> None"
    by auto
qed

theorem method_candidates_distinct_witness:
  "\<exists>m. run_method demo_digest demo_loads demo_runner demo_request = Inr m \<and>
    distinct (accepted_identities demo_digest (run_slots m)) \<and>
    slot_state (run_slots m ! 3) = SlotDuplicate \<and>
    (\<exists>j < 3. slot_state (run_slots m ! j) = SlotCandidate)"
proof -
  obtain m where m: "run_method demo_digest demo_loads demo_runner demo_request = Inr m"
    and st: "map slot_state (run_slots m) = [SlotInvalid, SlotCandidate, SlotCandidate, SlotDuplicate, SlotRefusal]"
    using demo_run by (elim exE conjE)
  have len: "length (run_slots m) = 5" using arg_cong [OF st, of length] by simp
  then have dup: "slot_state (run_slots m ! 3) = SlotDuplicate"
    using arg_cong [OF st, of "\<lambda>xs. xs ! 3"] by simp
  have three: "3 < length (run_slots m)" using len by simp
  note facts = method_candidates_distinct [OF m, THEN conjunct1]
    method_candidates_distinct [OF m, THEN conjunct2, THEN conjunct1, rule_format, OF three dup]
  then have "\<exists>j < 3. slot_state (run_slots m ! j) = SlotCandidate" by blast
  with m dup facts(1) show ?thesis by blast
qed

text \<open>
  A run returns if and only if the request is well formed (backbone, model, pack hash and
  attempt given, expected model not empty, slot counts equal) and no response makes the parser
  raise anything but ValueError or TypeError: no other failure, in particular no malformed
  response, exceeded budget or unhashable candidate, stops the loop or skips a slot.
\<close>

theorem method_run_returns:
  "(\<exists>m. run_method sha loads R q = Inr m) \<longleftrightarrow>
   request_ok R q \<and>
   \<not> (\<exists>i < nat (runner_slots R). \<exists>e text.
        \<not> model_mismatch (rq_expected q) (propose R i) \<and> resp_error (propose R i) = None \<and>
        \<not> resp_partial (propose R i) \<and> resp_text (propose R i) = Some text \<and>
        parser_of q text = ParseOther e)"
proof -
  have "(\<exists>c. parsed_candidate parser expected r = Inr c) \<longleftrightarrow>
    \<not> (\<exists>e text. \<not> model_mismatch expected r \<and> resp_error r = None \<and> \<not> resp_partial r \<and>
          resp_text r = Some text \<and> parser text = ParseOther e)" for parser expected r
    by (cases "resp_text r") (auto simp: parsed_candidate_def response_ok_def split: parse_result.splits)
  then show ?thesis by (simp add: run_method_returns)
qed

theorem method_run_returns_witness:
  "(\<exists>m. run_method demo_digest demo_loads demo_runner demo_request = Inr m) \<and>
   request_ok demo_runner demo_request \<and>
   \<not> (\<exists>m. run_method demo_digest demo_loads demo_runner (demo_request\<lparr>rq_parser := Some (\<lambda>_. ParseOther ''KeyError'')\<rparr>) = Inr m)"
proof (intro conjI)
  show one: "\<exists>m. run_method demo_digest demo_loads demo_runner demo_request = Inr m"
    using demo_run by blast
  then show "request_ok demo_runner demo_request" by (simp only: method_run_returns)
  let ?q = "demo_request\<lparr>rq_parser := Some (\<lambda>_. ParseOther ''KeyError'')\<rparr>"
  have "0 < nat (runner_slots demo_runner)" "propose demo_runner 0 = demo_response ''{}'' 9000"
    by (simp_all add: demo_runner_def)
  moreover have "\<not> model_mismatch (rq_expected ?q) (demo_response ''{}'' 9000)"
    by (simp add: demo_request_def model_mismatch_def demo_response_def)
  moreover have "parser_of ?q ''{}'' = ParseOther ''KeyError''" by (simp add: parser_of_def)
  moreover have "resp_error (demo_response ''{}'' 9000) = None" "\<not> resp_partial (demo_response ''{}'' 9000)"
    "resp_text (demo_response ''{}'' 9000) = Some ''{}''"
    by (simp_all add: demo_response_def)
  ultimately show "\<not> (\<exists>m. run_method demo_digest demo_loads demo_runner ?q = Inr m)"
    unfolding method_run_returns by metis
qed

section \<open>The prompt\<close>

text \<open>
  A template that its constructor accepts has exactly one placeholder, and rendering puts
  the artifact pack there and leaves the rest of the text as it is, whatever the pack contains
  (a placeholder inside the pack is not expanded).
\<close>

theorem render_fills_placeholder:
  assumes "PromptTemplate t = Inr t'"
  shows "t' = t \<and> (\<exists>before after. template_text t = before @ placeholder @ after \<and>
    count_sub placeholder before = 0 \<and> count_sub placeholder after = 0 \<and>
    (\<forall>pack. render t pack = before @ pack @ after))"
proof -
  from assms have t: "t' = t" "count_sub placeholder (template_text t) = 1"
    by (auto simp: PromptTemplate_def split: if_splits)
  from replace_sub_once [OF t(2)] show ?thesis by (simp add: t(1) render_def)
qed

theorem render_fills_placeholder_witness:
  "PromptTemplate demo_template = Inr demo_template \<and>
   (\<exists>before after. template_text demo_template = before @ placeholder @ after \<and>
      (\<forall>pack. render demo_template pack = before @ pack @ after))"
proof -
  have t: "PromptTemplate demo_template = Inr demo_template" by code_simp
  from render_fills_placeholder [OF t] t show ?thesis by blast
qed

section \<open>The template proposer\<close>

text \<open>A pack with a private field anywhere is refused.\<close>

lemma t0_refuses_private:
  assumes "k \<in> set (json_keys (JObj pack))" "private_name k"
  shows "\<exists>e. t0_propose sha L pack attempt given n = Inl e"
proof -
  have "assert_public ''$'' (JObj pack) \<noteq> None" unfolding assert_public_iff(1) using assms by blast
  then show ?thesis by (auto simp: t0_propose_def)
qed

text \<open>
  With a checked template library and a pack without private fields whose scalar symbols have
  distinct identifiers, the template proposer always returns a run with the requested number of
  slots: one candidate for each symbol, in the order of the identifiers, as long as slots remain,
  and an abstention in every other slot. Each candidate compiles against these symbols, and its slot
  records the canonical hash of what it compiles to: the error for a candidate that does not compile
  cannot occur.
\<close>

theorem t0_slots_filled:
  assumes "library_from_file content = Inr L" "attempt \<noteq> ''''" "0 < n" "n \<le> the (number_value (t0_max_slots L))"
    and "\<forall>k \<in> set (json_keys (JObj pack)). \<not> private_name k"
    and "public_scalar_symbols pack = Inr ss" "distinct (map sym_id ss)" "pack_hash sha given pack = Inr h"
  shows "\<exists>run C. t0_propose sha L pack attempt given n = Inr run \<and> from_symbols ss 256 = Inr C \<and>
    length (run_slots (t0_method_run run)) = nat n \<and>
    (\<forall>i < nat n. let slot = run_slots (t0_method_run run) ! i in
       slot_index slot = i \<and>
       (if i < length ss
        then slot_state slot = SlotCandidate \<and> (\<exists>payload made.
          slot_candidate slot = Some (Parsed payload) \<and>
          compile sha C payload = \<lparr>comp_invariant = Some made, abstained = False, diagnostics = []\<rparr> \<and>
          slot_ast_hash slot = Some (canonical_hash made) \<and>
          inv_body made = candidate_body (hd (t0_templates L)) (ss ! i))
        else slot_state slot = SlotAbstain))"
proof -
  let ?t = "hd (t0_templates L)"
  have public: "assert_public ''$'' (JObj pack) = None" unfolding assert_public_iff(1) using assms(5) .
  obtain run where run: "t0_propose sha L pack attempt given n = Inr run"
    "run_slots (t0_method_run run) = map (expected_slot sha attempt ?t ss) [0 ..< nat n]"
    using t0_propose_slots [OF assms(1-4) public assms(6-8) refl] by blast
  obtain C where C: "from_symbols ss 256 = Inr C" "maximum_ast_nodes C = 256" "\<forall>s \<in> set ss. symbols C (sym_id s) = Some s"
    using from_symbols_lookup [OF assms(7)] by blast
  have t: "template_ok ?t" using library_from_file_ok [OF assms(1)] by auto
  have "compile sha C (JObj (candidate_payload ?t (ss ! i))) =
      \<lparr>comp_invariant = Some \<lparr>invariant_id = Some (''t0.'' @ t0_id ?t @ ''.'' @ sym_id (ss ! i)),
         inv_body = candidate_body ?t (ss ! i), canonical_hash = sha (as_dict (candidate_body ?t (ss ! i))),
         node_count = 3\<rparr>, abstained = False, diagnostics = []\<rparr>" if "i < length ss" for i
    using that C public_scalar_symbols_ok [OF assms(6)] t by (intro compile_candidate) auto
  then show ?thesis
    using run C(1) by (intro exI [of _ run] exI [of _ C]) (auto simp: expected_slot_def t0_slot_def Let_def)
qed

definition demo_library :: json where
  "demo_library = JObj [(''schema_version'', JInt 1), (''generator_revision'', JStr ''r''), (''max_slots'', JInt 8),
     (''templates'', JArr [JObj [(''template_id'', JStr ''stable''), (''kind'', JStr ''invariant''),
        (''operator'', JStr ''eq''), (''left_state'', JStr ''pre''), (''right_state'', JStr ''post''),
        (''selection'', JStr ''all'')]])]"

definition demo_pack :: "json dict" where
  "demo_pack = [(''public_files'', JObj [(''storage_symbols.json'', JObj [(''symbols'', JArr
     [JObj [(''symbol_id'', JStr ''b''), (''path'', JStr ''p''), (''name'', JStr ''n''), (''domain'', JStr ''source''),
            (''kind'', JStr ''storage''), (''type'', JStr ''uint256'')],
      JObj [(''symbol_id'', JStr ''a''), (''path'', JStr ''p''), (''name'', JStr ''n''), (''domain'', JStr ''source''),
            (''kind'', JStr ''storage''), (''type'', JStr ''bool'')]])])])]"

theorem t0_slots_filled_witness:
  "\<exists>L run. library_from_file (Some demo_library) = Inr L \<and> t0_propose demo_digest L demo_pack ''a'' None 3 = Inr run \<and>
     map slot_state (run_slots (t0_method_run run)) = [SlotCandidate, SlotCandidate, SlotAbstain]"
proof -
  have "case library_from_file (Some demo_library) of Inl e \<Rightarrow> False | Inr L \<Rightarrow> number_value (t0_max_slots L) = Some 8"
    by code_simp
  then obtain L where L: "library_from_file (Some demo_library) = Inr L" "number_value (t0_max_slots L) = Some 8"
    by (auto split: sum.splits)
  have "list_all (\<lambda>k. \<not> private_name k) (json_keys (JObj demo_pack))" by code_simp
  then have public: "\<forall>k \<in> set (json_keys (JObj demo_pack)). \<not> private_name k" by (simp add: list_all_iff)
  have "case public_scalar_symbols demo_pack of Inl e \<Rightarrow> False | Inr ss \<Rightarrow> length ss = 2 \<and> distinct (map sym_id ss)"
    by code_simp
  then obtain ss where ss: "public_scalar_symbols demo_pack = Inr ss" "length ss = 2" "distinct (map sym_id ss)"
    by (auto split: sum.splits)
  have "pack_hash demo_digest None demo_pack = Inr (demo_digest (JObj demo_pack))"
    by (simp add: pack_hash_def sha256_hex_def demo_pack_def)
  from t0_slots_filled [OF L(1) _ _ _ public ss(1,3) this, of "''a''" 3] L(2) obtain run C where
    run: "t0_propose demo_digest L demo_pack ''a'' None 3 = Inr run" "length (run_slots (t0_method_run run)) = 3"
      "\<forall>i < 3. let slot = run_slots (t0_method_run run) ! i in slot_index slot = i \<and>
         (if i < length ss then slot_state slot = SlotCandidate \<and> (\<exists>payload made.
            slot_candidate slot = Some (Parsed payload) \<and>
            compile demo_digest C payload = \<lparr>comp_invariant = Some made, abstained = False, diagnostics = []\<rparr> \<and>
            slot_ast_hash slot = Some (canonical_hash made) \<and>
            inv_body made = candidate_body (hd (t0_templates L)) (ss ! i)) else slot_state slot = SlotAbstain)"
    by auto
  from run(3) ss(2) have "slot_state (run_slots (t0_method_run run) ! 0) = SlotCandidate"
    "slot_state (run_slots (t0_method_run run) ! 1) = SlotCandidate"
    "slot_state (run_slots (t0_method_run run) ! 2) = SlotAbstain"
    by (auto simp: Let_def dest: spec [of _ 0] spec [of _ 1] spec [of _ 2])
  then have "map slot_state (run_slots (t0_method_run run)) = [SlotCandidate, SlotCandidate, SlotAbstain]"
    using run(2) by (intro nth_equalityI) (auto simp: less_Suc_eq numeral_3_eq_3 numeral_2_eq_2)
  with L(1) run(1) show ?thesis by (intro exI conjI)
qed

end
