(* ===== verification/Provider_Client.thy ===== *)
theory Provider_Client
  imports Provider_Response
begin

text \<open>
  The Ollama client with its retries, cancellation and deadline (\<^verbatim>\<open>providers/ollama.py\<close>). Everything
  outside the program is one environment over a state \<open>'w\<close>: the clock, the sender, the sleeper
  and the cancellation callback each return their answer and the next state. A call that
  never returns is \<open>None\<close>: the back-off loop ends only if the clock lets it. \<open>read\<close> is
  \<^verbatim>\<open>json.loads(body.decode("utf-8"))\<close> with the message of its error on the left.
\<close>

section \<open>Policy and request\<close>

record retry_policy =
  max_retries :: int
  backoff_seconds :: "rat list"

definition default_retry_policy :: retry_policy where
  "default_retry_policy = \<lparr>max_retries = 2, backoff_seconds = [2, 10]\<rparr>"

definition RetryPolicy :: "retry_policy \<Rightarrow> provider_error + retry_policy" where
  "RetryPolicy p =
     (if max_retries p < 0 \<or> list_ex (\<lambda>t. t < 0) (backoff_seconds p)
        then Inl (ProviderValue ''retry policy values must be non-negative'')
      else if max_retries p \<noteq> 0 \<and> int (length (backoff_seconds p)) < max_retries p
        then Inl (ProviderValue ''backoff_seconds must cover every retry'')
      else Inr p)"

record provider_request =
  pr_model :: string
  pr_prompt :: string
  pr_settings :: "json dict"

definition request_document :: "provider_request \<Rightarrow> json" where
  "request_document q = JObj
     [(''model'', JStr (pr_model q)),
      (''messages'', JArr [JObj [(''role'', JStr ''user''), (''content'', JStr (pr_prompt q))]]),
      (''stream'', JBool False), (''options'', JObj (pr_settings q))]"

definition request_body :: "provider_request \<Rightarrow> bytes option" where
  "request_body q = canonical_json (request_document q)"

record transport_response =
  status_code :: int
  tr_headers :: "string dict"
  tr_body :: bytes

text \<open>
  A sender returns a response, raises a transport error (\<^verbatim>\<open>TimeoutError\<close>, \<^verbatim>\<open>URLError\<close>, \<^verbatim>\<open>OSError\<close>)
  with its message, or raises anything else.
\<close>

datatype send_result = Sent transport_response | SendFailed string | SendRaised provider_error

datatype poll_result = PollContinue | PollCancel | PollRaised string

record 'w environment =
  env_clock :: "'w \<Rightarrow> rat \<times> 'w"
  env_send :: "string \<Rightarrow> bytes \<Rightarrow> rat \<Rightarrow> 'w \<Rightarrow> send_result \<times> 'w"
  env_sleep :: "rat \<Rightarrow> 'w \<Rightarrow> 'w"

record 'w control =
  ctl_cancelled :: "('w \<Rightarrow> poll_result \<times> 'w) option"
  ctl_deadline :: "rat option"

record provider_client =
  pc_endpoint :: string
  pc_timeout :: rat
  pc_policy :: retry_policy
  pc_key :: "string option"

definition cloud_endpoint :: string where
  "cloud_endpoint = ''https://ollama.com/api/chat''"

text \<open>\<open>custom\<close> says that a sender was given; \<open>key\<close> is the API key, from the call or the environment variable.\<close>

definition OllamaClient ::
    "string \<Rightarrow> rat \<Rightarrow> retry_policy option \<Rightarrow> bool \<Rightarrow> string option \<Rightarrow> provider_error + provider_client" where
  "OllamaClient endpoint timeout policy custom key =
     (if timeout \<le> 0 then Inl (ProviderValue ''request_timeout_seconds must be positive'')
      else if \<not> custom \<and> endpoint \<noteq> cloud_endpoint
        then Inl (ProviderValue ''Ollama Cloud transport requires the canonical endpoint'')
      else if \<not> custom \<and> (key = None \<or> key = Some '''')
        then Inl (ProviderValue ''OLLAMA_API_KEY is required for Ollama Cloud requests'')
      else Inr \<lparr>pc_endpoint = endpoint, pc_timeout = timeout,
                pc_policy = (case policy of None \<Rightarrow> default_retry_policy | Some p \<Rightarrow> p), pc_key = key\<rparr>)"

text \<open>The default sender over \<^verbatim>\<open>urlopen\<close>, which answers, raises HTTPError with its response, or fails.\<close>

datatype url_result = UrlOpened transport_response | UrlHttpError transport_response | UrlFailed string

definition http_headers :: "string option \<Rightarrow> string dict" where
  "http_headers key =
     [(''Content-Type'', ''application/json'')]
     @ (case key of None \<Rightarrow> [] | Some k \<Rightarrow> if k = '''' then [] else [(''Authorization'', ''Bearer '' @ k)])"

definition http_sender ::
    "(string \<Rightarrow> bytes \<Rightarrow> string dict \<Rightarrow> rat \<Rightarrow> 'w \<Rightarrow> url_result \<times> 'w) \<Rightarrow> string option
       \<Rightarrow> string \<Rightarrow> bytes \<Rightarrow> rat \<Rightarrow> 'w \<Rightarrow> send_result \<times> 'w" where
  "http_sender urlopen key endpoint body timeout w =
     (if endpoint \<noteq> cloud_endpoint
        then (SendRaised (ProviderValue ''Ollama Cloud transport requires the canonical endpoint''), w)
      else case urlopen endpoint body (http_headers key) timeout w of
          (UrlOpened r, w') \<Rightarrow> (Sent r, w')
        | (UrlHttpError r, w') \<Rightarrow> (Sent r, w')
        | (UrlFailed e, w') \<Rightarrow> (SendFailed e, w'))"

section \<open>Control\<close>

text \<open>\<^verbatim>\<open>_control_reason\<close>: the callback first, then the deadline; the clock is read only for a deadline.\<close>

definition deadline_reason ::
    "'w environment \<Rightarrow> 'w control \<Rightarrow> rat \<Rightarrow> 'w \<Rightarrow> string option \<times> 'w" where
  "deadline_reason E ctl started w = (case ctl_deadline ctl of
       None \<Rightarrow> (None, w)
     | Some d \<Rightarrow> (case env_clock E w of (t, w') \<Rightarrow>
         (if d \<le> t - started then Some ''campaign_deadline'' else None, w')))"

definition control_reason ::
    "'w environment \<Rightarrow> 'w control \<Rightarrow> rat \<Rightarrow> 'w \<Rightarrow> string option \<times> 'w" where
  "control_reason E ctl started w = (case ctl_cancelled ctl of
       None \<Rightarrow> deadline_reason E ctl started w
     | Some poll \<Rightarrow> (case poll w of
           (PollCancel, w') \<Rightarrow> (Some ''cancelled'', w')
         | (PollRaised e, w') \<Rightarrow> (Some (''cancellation_error:'' @ e), w')
         | (PollContinue, w') \<Rightarrow> deadline_reason E ctl started w'))"

text \<open>The time to sleep next, or \<open>None\<close> when the deadline has passed.\<close>

definition sleep_slice ::
    "'w environment \<Rightarrow> 'w control \<Rightarrow> rat \<Rightarrow> rat \<Rightarrow> 'w \<Rightarrow> rat option \<times> 'w" where
  "sleep_slice E ctl started remaining w =
     (let slice = min remaining (1 / 20) in
      case ctl_deadline ctl of
        None \<Rightarrow> (Some slice, w)
      | Some d \<Rightarrow> (case env_clock E w of (t, w') \<Rightarrow>
          let left = d - (t - started) in
          (if left \<le> 0 then None else Some (min slice left), w')))"

partial_function (option) sleep_loop ::
    "'w environment \<Rightarrow> 'w control \<Rightarrow> rat \<Rightarrow> rat \<Rightarrow> 'w \<Rightarrow> (string option \<times> 'w) option" where
  "sleep_loop E ctl started remaining w =
     (if remaining \<le> 0 then Some (control_reason E ctl started w)
      else case control_reason E ctl started w of
          (Some reason, w1) \<Rightarrow> Some (Some reason, w1)
        | (None, w1) \<Rightarrow> (case sleep_slice E ctl started remaining w1 of
              (None, w2) \<Rightarrow> Some (Some ''campaign_deadline'', w2)
            | (Some s, w2) \<Rightarrow> sleep_loop E ctl started (remaining - s) (env_sleep E s w2)))"

declare sleep_loop.simps [code]

definition controlled_sleep ::
    "'w environment \<Rightarrow> 'w control \<Rightarrow> rat \<Rightarrow> rat \<Rightarrow> 'w \<Rightarrow> (string option \<times> 'w) option" where
  "controlled_sleep E ctl delay started w =
     (if ctl_cancelled ctl = None \<and> ctl_deadline ctl = None then Some (None, env_sleep E delay w)
      else sleep_loop E ctl started delay w)"

section \<open>Responses\<close>

definition no_usage :: "int option dict" where
  "no_usage = [(''prompt_tokens'', None), (''generated_tokens'', None)]"

text \<open>\<open>body\<close> and \<open>rq\<close> are the request's body and hash.\<close>

definition failure_response ::
    "(bytes \<Rightarrow> string) \<Rightarrow> bytes \<Rightarrow> nat \<Rightarrow> string \<Rightarrow> string option \<Rightarrow> transport_response option \<Rightarrow> rat
       \<Rightarrow> provider_response" where
  "failure_response shab body attempts error detail response elapsed =
     \<lparr>resp_request = shab body, resp_hash = map_option (\<lambda>r. shab (tr_body r)) response,
      resp_status = (case response of None \<Rightarrow> JNull | Some r \<Rightarrow> JInt (status_code r)),
      resp_text = None, resp_model = None, resp_finish = None, resp_usage = no_usage,
      resp_attempts = int attempts, resp_partial = False, resp_error = Some error, resp_detail = detail,
      resp_request_body = Some body, resp_response_body = map_option tr_body response,
      resp_headers = (case response of None \<Rightarrow> [] | Some r \<Rightarrow> tr_headers r),
      resp_elapsed = Some (max 0 elapsed)\<rparr>"

text \<open>\<^verbatim>\<open>_optional_int\<close>.\<close>

fun optional_int :: "json \<Rightarrow> int option" where
  "optional_int (JInt i) = (if 0 \<le> i then Some i else None)"
| "optional_int _ = None"

text \<open>The text of an answer: \<^verbatim>\<open>message.content\<close>, or \<^verbatim>\<open>response\<close> when there is no message object.\<close>

definition answer_text :: "json dict \<Rightarrow> json" where
  "answer_text d = (case jget d ''message'' of JObj m \<Rightarrow> jget m ''content'' | _ \<Rightarrow> jget d ''response'')"

definition decode_response ::
    "(bytes \<Rightarrow> string) \<Rightarrow> (bytes \<Rightarrow> string + json) \<Rightarrow> bytes \<Rightarrow> transport_response \<Rightarrow> nat \<Rightarrow> rat
       \<Rightarrow> provider_response" where
  "decode_response shab read body r attempts elapsed =
     (let malformed = (\<lambda>error detail. failure_response shab body attempts error (Some detail) (Some r) elapsed) in
      case read (tr_body r) of
        Inl e \<Rightarrow> malformed ''malformed_json'' e
      | Inr (JObj d) \<Rightarrow> (case answer_text d of
            JStr text \<Rightarrow>
              \<lparr>resp_request = shab body, resp_hash = Some (shab (tr_body r)),
               resp_status = JInt (status_code r), resp_text = Some text,
               resp_model = as_string (jget d ''model''), resp_finish = as_string (jget d ''done_reason''),
               resp_usage = [(''prompt_tokens'', optional_int (jget d ''prompt_eval_count'')),
                             (''generated_tokens'', optional_int (jget d ''eval_count''))],
               resp_attempts = int attempts, resp_partial = (jget d ''done'' = JBool False),
               resp_error = None, resp_detail = None, resp_request_body = Some body,
               resp_response_body = Some (tr_body r), resp_headers = tr_headers r,
               resp_elapsed = Some (max 0 elapsed)\<rparr>
          | _ \<Rightarrow> malformed ''missing_content'' ''response has no string message.content or response'')
      | Inr _ \<Rightarrow> malformed ''malformed_payload'' ''response JSON must be an object'')"

definition retryable :: "int \<Rightarrow> bool" where
  "retryable status = (status = 429 \<or> (500 \<le> status \<and> status \<le> 599))"

section \<open>The retry loop\<close>

record retry_vars =
  rt_attempts :: nat
  rt_status :: "int option"
  rt_detail :: "string option"
  rt_response :: "transport_response option"

type_synonym 'w outcome = "((provider_error + provider_response) \<times> 'w) option"

definition fail_now ::
    "'w environment \<Rightarrow> (bytes \<Rightarrow> string) \<Rightarrow> bytes \<Rightarrow> rat \<Rightarrow> nat \<Rightarrow> string \<Rightarrow> string option
       \<Rightarrow> transport_response option \<Rightarrow> 'w \<Rightarrow> 'w outcome" where
  "fail_now E shab body started attempts error detail response w = (case env_clock E w of (t, w') \<Rightarrow>
     Some (Inr (failure_response shab body attempts error detail response (t - started)), w'))"

definition send_timeout :: "'w environment \<Rightarrow> 'w control \<Rightarrow> rat \<Rightarrow> rat \<Rightarrow> 'w \<Rightarrow> rat \<times> 'w" where
  "send_timeout E ctl timeout started w = (case ctl_deadline ctl of
       None \<Rightarrow> (timeout, w)
     | Some d \<Rightarrow> (case env_clock E w of (t, w') \<Rightarrow> (min timeout (max (1 / 1000) (d - (t - started))), w')))"

text \<open>\<^verbatim>\<open>str(last_status)\<close>, the detail of a loop that ended without one.\<close>

definition status_text :: "int option \<Rightarrow> string" where
  "status_text s = (case s of None \<Rightarrow> ''None'' | Some i \<Rightarrow> string_of_int i)"

definition http_detail :: "int \<Rightarrow> string" where
  "http_detail status = ''HTTP '' @ string_of_int status"

fun retry_loop ::
    "'w environment \<Rightarrow> (bytes \<Rightarrow> string) \<Rightarrow> (bytes \<Rightarrow> string + json) \<Rightarrow> provider_client \<Rightarrow> 'w control \<Rightarrow> bytes
       \<Rightarrow> rat \<Rightarrow> nat list \<Rightarrow> retry_vars \<Rightarrow> 'w \<Rightarrow> 'w outcome" where
  "retry_loop E shab read C ctl body started [] v w =
     fail_now E shab body started (rt_attempts v) ''transport_failure''
       (Some (case rt_detail v of Some d \<Rightarrow> if d = '''' then status_text (rt_status v) else d
              | None \<Rightarrow> status_text (rt_status v)))
       (rt_response v) w"
| "retry_loop E shab read C ctl body started (i # is) v w =
     (let again = int i < max_retries (pc_policy C);
          stop = (\<lambda>attempts reason response. fail_now E shab body started attempts reason (Some reason) response);
          back_off = (\<lambda>v' w'. case controlled_sleep E ctl (backoff_seconds (pc_policy C) ! i) started w' of
                None \<Rightarrow> None
              | Some (Some reason, w'') \<Rightarrow> stop (rt_attempts v') reason (rt_response v') w''
              | Some (None, w'') \<Rightarrow> retry_loop E shab read C ctl body started is v' w'')
      in case control_reason E ctl started w of
           (Some reason, w1) \<Rightarrow> stop (rt_attempts v) reason (rt_response v) w1
         | (None, w1) \<Rightarrow>
             (let attempts = Suc (rt_attempts v) in
              case send_timeout E ctl (pc_timeout C) started w1 of (timeout, w2) \<Rightarrow>
              (case env_send E (pc_endpoint C) body timeout w2 of
                 (SendRaised e, w3) \<Rightarrow> Some (Inl e, w3)
               | (SendFailed e, w3) \<Rightarrow>
                   (let v' = v\<lparr>rt_attempts := attempts, rt_detail := Some e\<rparr> in
                    if again then back_off v' w3
                    else fail_now E shab body started attempts ''transport_failure'' (Some e) (rt_response v') w3)
               | (Sent r, w3) \<Rightarrow>
                   (let v' = v\<lparr>rt_attempts := attempts, rt_status := Some (status_code r), rt_response := Some r\<rparr> in
                    if retryable (status_code r) \<and> again
                      then back_off (v'\<lparr>rt_detail := Some (http_detail (status_code r))\<rparr>) w3
                    else if status_code r < 200 \<or> 300 \<le> status_code r
                      then fail_now E shab body started attempts ''http_failure''
                             (Some (http_detail (status_code r))) (Some r) w3
                    else case env_clock E w3 of (t, w4) \<Rightarrow>
                      Some (Inr (decode_response shab read body r attempts (t - started)), w4)))))"

definition propose_request ::
    "'w environment \<Rightarrow> (bytes \<Rightarrow> string) \<Rightarrow> (bytes \<Rightarrow> string + json) \<Rightarrow> provider_client \<Rightarrow> 'w control
       \<Rightarrow> provider_request \<Rightarrow> 'w \<Rightarrow> 'w outcome" where
  "propose_request E shab read C ctl q w =
     (if pr_model q = '''' then Some (Inl (ProviderValue ''provider request requires model and prompt''), w)
      else if (case ctl_deadline ctl of None \<Rightarrow> False | Some d \<Rightarrow> d \<le> 0)
        then Some (Inl (ProviderValue ''campaign_deadline_seconds must be positive''), w)
      else case request_body q of
          None \<Rightarrow> Some (Inl (ProviderValue ''Out of range float values are not JSON compliant''), w)
        | Some body \<Rightarrow> (case env_clock E w of (started, w1) \<Rightarrow>
            retry_loop E shab read C ctl body started [0 ..< Suc (nat (max_retries (pc_policy C)))]
              \<lparr>rt_attempts = 0, rt_status = None, rt_detail = None, rt_response = None\<rparr> w1))"

end
