(* ===== verification/Provider_Archive.thy ===== *)
theory Provider_Archive
  imports Provider_Client
begin

text \<open>
  The archive of responses and the queue-based fake server (\<^verbatim>\<open>ArchiveReplay\<close> and
  \<^verbatim>\<open>FakeProviderServer\<close> of \<^verbatim>\<open>providers/ollama.py\<close>). A file is its JSON value; a write that fails leaves
  the file as it was, since \<^verbatim>\<open>save\<close> writes beside it and renames.
\<close>

section \<open>Archive\<close>

type_synonym archive = "(string \<times> provider_response) list"

definition request_hash :: "(bytes \<Rightarrow> string) \<Rightarrow> provider_request \<Rightarrow> provider_error + string" where
  "request_hash shab q = (case request_body q of
       None \<Rightarrow> Inl (ProviderValue ''Out of range float values are not JSON compliant'')
     | Some b \<Rightarrow> Inr (shab b))"

definition archive_record ::
    "(bytes \<Rightarrow> string) \<Rightarrow> archive \<Rightarrow> provider_request \<Rightarrow> provider_response \<Rightarrow> provider_error + archive" where
  "archive_record shab a q r = bind_result (request_hash shab q) (\<lambda>h.
     if resp_request r \<noteq> h then Inl (ProviderValue ''archive request hash mismatch'')
     else Inr (dict_put h r a))"

definition archive_miss :: "string \<Rightarrow> provider_response" where
  "archive_miss h =
     \<lparr>resp_request = h, resp_hash = None, resp_status = JNull, resp_text = None, resp_model = None,
      resp_finish = None, resp_usage = no_usage, resp_attempts = 0, resp_partial = False,
      resp_error = Some ''archive_miss'', resp_detail = Some ''request hash is not in the archive'',
      resp_request_body = None, resp_response_body = None, resp_headers = [], resp_elapsed = None\<rparr>"

definition archive_replay ::
    "(bytes \<Rightarrow> string) \<Rightarrow> archive \<Rightarrow> provider_request \<Rightarrow> provider_error + provider_response" where
  "archive_replay shab a q = bind_result (request_hash shab q) (\<lambda>h. case dict_get a h of
       None \<Rightarrow> Inr (archive_miss h)
     | Some r \<Rightarrow> Inr (r\<lparr>resp_attempts := 1\<rparr>))"

text \<open>\<^verbatim>\<open>json.dumps(..., sort_keys=True)\<close> orders the keys of every object.\<close>

definition archive_document :: "float_text \<Rightarrow> archive \<Rightarrow> json" where
  "archive_document F a =
     normal_json (JObj (map (\<lambda>kr. (fst kr, JObj (response_dict F (snd kr)))) (sort_key fst a)))"

definition archive_save ::
    "float_text \<Rightarrow> bool \<Rightarrow> archive \<Rightarrow> json option \<Rightarrow> (provider_error + unit) \<times> json option" where
  "archive_save F writable a old =
     (if writable then (Inr (), Some (archive_document F a)) else (Inl (ProviderRaised ''OSError''), old))"

definition load_row ::
    "(bytes \<Rightarrow> string) \<Rightarrow> float_text \<Rightarrow> string \<times> json \<Rightarrow> provider_error + string \<times> provider_response" where
  "load_row shab F kv = (case snd kv of
       JObj d \<Rightarrow> bind_result (response_from_dict shab F d) (\<lambda>r.
         if resp_request r \<noteq> fst kv then Inl (ProviderValue (''provider archive key mismatch: '' @ fst kv))
         else Inr (fst kv, r))
     | _ \<Rightarrow> Inl (ProviderValue ''provider archive entries must be objects''))"

definition archive_load :: "(bytes \<Rightarrow> string) \<Rightarrow> float_text \<Rightarrow> json \<Rightarrow> provider_error + archive" where
  "archive_load shab F v = (case v of
       JObj d \<Rightarrow> map_result (load_row shab F) d
     | _ \<Rightarrow> Inl (ProviderValue ''provider archive must be an object''))"

section \<open>A saved archive is loaded back\<close>

text \<open>A response whose dictionaries have their keys in order: equal to it as a Python value.\<close>

definition ordered_response :: "provider_response \<Rightarrow> provider_response" where
  "ordered_response r =
     r\<lparr>resp_usage := sort_key fst (resp_usage r), resp_headers := sort_key fst (resp_headers r)\<rparr>"

definition archive_wf :: "(bytes \<Rightarrow> string) \<Rightarrow> archive \<Rightarrow> bool" where
  "archive_wf shab a \<longleftrightarrow> distinct (dict_keys a) \<and>
     (\<forall>(k, r) \<in> set a. response_wf shab r \<and> resp_request r = k)"

lemma response_from_dict_cong:
  assumes "dict_get d = dict_get d'"
  shows "response_from_dict shab F d = response_from_dict shab F d'"
proof -
  have "jget d = jget d'" using assms by (simp add: jget_def fun_eq_iff)
  show ?thesis unfolding response_from_dict_def assms \<open>jget d = jget d'\<close> by (rule refl)
qed

lemma distinct_response_dict: "distinct (dict_keys (response_dict F r))"
  by (simp add: response_dict_def)

lemma normal_usage_json: "normal_json (usage_json u) = usage_json (sort_key fst u)"
proof -
  have "usage_json w = JObj (map (\<lambda>kv. (fst kv, int_option (snd kv))) w)" for w
    by (simp add: usage_json_def split_beta)
  moreover have "normal_json (int_option v) = int_option v" for v by (cases v) (simp_all add: int_option_def)
  ultimately show ?thesis by (simp add: sort_map_snd comp_def)
qed

lemma normal_headers_json: "normal_json (headers_json h) = headers_json (sort_key fst h)"
proof -
  have "headers_json w = JObj (map (\<lambda>kv. (fst kv, JStr (snd kv))) (sort_key fst w))" for w
    by (simp add: headers_json_def split_beta)
  then show ?thesis by (simp add: sort_map_snd comp_def)
qed

lemma normal_response_dict:
  assumes "status_value (resp_status r) = resp_status r"
  shows "map (\<lambda>kv. (fst kv, normal_json (snd kv))) (response_dict F r) = response_dict F (ordered_response r)"
proof -
  have "normal_json (option_json s) = option_json s" for s by (cases s) (simp_all add: option_json_def)
  moreover have "normal_json (encode_bytes b) = encode_bytes b" for b by (cases b) (simp_all add: encode_bytes_def)
  moreover have "normal_json (elapsed_json F e) = elapsed_json F e" for e by (cases e) (simp_all add: elapsed_json_def)
  moreover have "normal_json (resp_status r) = resp_status r" using assms by (cases "resp_status r") auto
  ultimately show ?thesis
    by (simp add: response_dict_def ordered_response_def normal_usage_json normal_headers_json)
qed

lemma usage_ok_sort: "usage_ok (sort_key fst u) = usage_ok u"
  by (simp add: usage_ok_def list_all_iff)

lemma response_wf_ordered: "response_wf shab (ordered_response r) = response_wf shab r"
  by (simp add: response_wf_def ordered_response_def usage_ok_sort)

lemma load_saved_row:
  assumes "response_wf shab r" "float_law F" "resp_request r = k"
  shows "load_row shab F (k, normal_json (JObj (response_dict F r))) = Inr (k, ordered_response r)"
proof -
  let ?d = "map (\<lambda>kv. (fst kv, normal_json (snd kv))) (response_dict F r)"
  have status: "status_value (resp_status r) = resp_status r" using assms(1) by (simp add: response_wf_def)
  have "distinct (dict_keys ?d)" using distinct_response_dict [of F r] by (simp add: comp_def)
  then have "response_from_dict shab F (sort_key fst ?d) = response_from_dict shab F ?d"
    by (intro response_from_dict_cong dict_get_sort)
  also have "\<dots> = Inr ((ordered_response r)\<lparr>resp_headers := sort_key fst (resp_headers (ordered_response r))\<rparr>)"
    unfolding normal_response_dict [OF status]
    using assms response_wf_ordered by (intro response_round_trip) auto
  also have "\<dots> = Inr (ordered_response r)" by (simp add: ordered_response_def)
  finally show ?thesis using assms(3) by (simp add: load_row_def ordered_response_def)
qed

lemma archive_load_save:
  assumes "archive_wf shab a" "float_law F"
  shows "archive_load shab F (archive_document F a) = Inr (map (\<lambda>kr. (fst kr, ordered_response (snd kr))) (sort_key fst a))"
proof -
  let ?row = "\<lambda>kr. (fst kr, normal_json (JObj (response_dict F (snd kr))))"
  have doc: "archive_document F a = JObj (map ?row (sort_key fst a))"
  proof -
    have "archive_document F a = JObj (sort_key fst (map ?row (sort_key fst a)))"
      by (simp add: archive_document_def comp_def)
    then show ?thesis
      using sort_map_snd [of "\<lambda>r. normal_json (JObj (response_dict F r))" "sort_key fst a"] by simp
  qed
  have "load_row shab F (?row kr) = Inr (fst kr, ordered_response (snd kr))" if "kr \<in> set (sort_key fst a)" for kr
    using that assms by (intro load_saved_row) (auto simp: archive_wf_def)
  then have "map_result (\<lambda>kr. load_row shab F (?row kr)) (sort_key fst a)
      = Inr (map (\<lambda>kr. (fst kr, ordered_response (snd kr))) (sort_key fst a))"
    by (rule map_result_all_Inr)
  then show ?thesis by (simp add: archive_load_def doc map_result_map)
qed

section \<open>The fake server\<close>

datatype fake_item = FakeResponse transport_response | FakeTransportError string | FakeError string

record fake_server =
  fs_responses :: "fake_item list"
  fs_requests :: "bytes list"

definition fake_send :: "bytes \<Rightarrow> fake_server \<Rightarrow> send_result \<times> fake_server" where
  "fake_send body s =
     (let s' = s\<lparr>fs_requests := fs_requests s @ [body]\<rparr> in
      case fs_responses s of
        [] \<Rightarrow> (SendRaised (ProviderRaised ''fake server has no response''), s')
      | x # rest \<Rightarrow> (case x of FakeResponse r \<Rightarrow> Sent r | FakeTransportError e \<Rightarrow> SendFailed e
                    | FakeError e \<Rightarrow> SendRaised (ProviderRaised e),
                   s'\<lparr>fs_responses := rest\<rparr>))"

text \<open>The environment of a client whose sender is a fake server, beside any clock, sleeper and callback.\<close>

definition fake_environment ::
    "('c \<Rightarrow> rat \<times> 'c) \<Rightarrow> (rat \<Rightarrow> 'c \<Rightarrow> 'c) \<Rightarrow> (fake_server \<times> 'c) environment" where
  "fake_environment clock sleep =
     \<lparr>env_clock = (\<lambda>(s, c). case clock c of (t, c') \<Rightarrow> (t, (s, c'))),
      env_send = (\<lambda>_ body _ (s, c). case fake_send body s of (x, s') \<Rightarrow> (x, (s', c))),
      env_sleep = (\<lambda>t (s, c). (s, sleep t c))\<rparr>"

definition fake_control :: "'c control \<Rightarrow> (fake_server \<times> 'c) control" where
  "fake_control ctl =
     \<lparr>ctl_cancelled = map_option (\<lambda>poll (s, c). case poll c of (x, c') \<Rightarrow> (x, (s, c'))) (ctl_cancelled ctl),
      ctl_deadline = ctl_deadline ctl\<rparr>"

end
