(* ===== verification/Provider_Runs.thy ===== *)
theory Provider_Runs
  imports Provider_Archive
begin

text \<open>
  What a call of the client does in any environment: its responses are well formed, and the back-off
  loop ends when the clock is steady. With the fake server as sender, the server's queue and its
  log record every attempt.
\<close>

section \<open>The back-off loop ends\<close>

text \<open>
  A steady clock never runs backwards, and sleeping lasts at least as long as asked: what
  \<^verbatim>\<open>time.monotonic\<close> and \<^verbatim>\<open>time.sleep\<close> promise. \<open>now\<close> is the time of a state.
\<close>

definition steady :: "'w environment \<Rightarrow> 'w control \<Rightarrow> ('w \<Rightarrow> rat) \<Rightarrow> bool" where
  "steady E ctl now \<longleftrightarrow>
     (\<forall>w t w'. env_clock E w = (t, w') \<longrightarrow> now w \<le> t \<and> t \<le> now w') \<and>
     (\<forall>s w. 0 \<le> s \<longrightarrow> now w + s \<le> now (env_sleep E s w)) \<and>
     (\<forall>poll w x w'. ctl_cancelled ctl = Some poll \<longrightarrow> poll w = (x, w') \<longrightarrow> now w \<le> now w')"

lemma control_reason_late:
  assumes "steady E ctl now" "ctl_deadline ctl = Some d" "started + d \<le> now w"
  shows "\<exists>reason w'. control_reason E ctl started w = (Some reason, w')"
proof -
  have late: "\<exists>reason w'. deadline_reason E ctl started u = (Some reason, w')" if "started + d \<le> now u" for u
  proof -
    obtain t u' where t: "env_clock E u = (t, u')" by fastforce
    then have "now u \<le> t" using assms(1) by (simp add: steady_def)
    with that have "d \<le> t - started" by simp
    with t assms(2) show ?thesis by (simp add: deadline_reason_def)
  qed
  show ?thesis
  proof (cases "ctl_cancelled ctl")
    case None
    with late [OF assms(3)] show ?thesis by (simp add: control_reason_def)
  next
    case (Some poll)
    obtain x u where u: "poll w = (x, u)" by fastforce
    then have "now w \<le> now u" using assms(1) Some by (simp add: steady_def)
    with assms(3) late [of u] Some u show ?thesis by (cases x) (simp_all add: control_reason_def)
  qed
qed

lemma sleep_slice_cases:
  assumes "sleep_slice E ctl started remaining w = (Some s, w')" "0 < remaining"
  obtains "s = min remaining (1 / 20)"
  | d t where "ctl_deadline ctl = Some d" "env_clock E w = (t, w')" "s = d - (t - started)" "0 < s"
proof (cases "ctl_deadline ctl")
  case None
  with assms that(1) show ?thesis by (simp add: sleep_slice_def)
next
  case (Some d)
  obtain t u where t: "env_clock E w = (t, u)" by fastforce
  with assms Some have "u = w'" "0 < d - (t - started)" "s = min (min remaining (1 / 20)) (d - (t - started))"
    by (auto simp: sleep_slice_def Let_def split: if_splits)
  with that Some t show ?thesis by (cases "min remaining (1 / 20) \<le> d - (t - started)") auto
qed

lemma sleep_loop_ends:
  assumes "ctl_deadline ctl = None \<or> steady E ctl now" "remaining \<le> of_nat n / 20"
  shows "\<exists>x. sleep_loop E ctl started remaining w = Some x"
  using assms(2)
proof (induction n arbitrary: remaining w)
  case 0
  then show ?case by (subst sleep_loop.simps) simp
next
  case (Suc n)
  note unfold = sleep_loop.simps [of E ctl started]
  obtain reason w1 where c: "control_reason E ctl started w = (reason, w1)" by fastforce
  obtain s w2 where s: "sleep_slice E ctl started remaining w1 = (s, w2)" by fastforce
  show ?case
  proof (cases "remaining \<le> 0 \<or> reason \<noteq> None \<or> s = None")
    case True
    then show ?thesis by (subst unfold) (auto simp: c s split: option.splits)
  next
    case False
    then obtain x where x: "s = Some x" "reason = None" "0 < remaining" by auto
    let ?w = "env_sleep E x w2"
    have eq: "sleep_loop E ctl started remaining w = sleep_loop E ctl started (remaining - x) ?w"
      using x by (subst unfold) (simp add: c s)
    from s x have "sleep_slice E ctl started remaining w1 = (Some x, w2)" by simp
    then show ?thesis
    proof (rule sleep_slice_cases)
      assume 1: "x = min remaining (1 / 20)"
      have "remaining - x \<le> of_nat n / 20"
      proof (cases "remaining \<le> 1 / 20")
        case True
        with 1 show ?thesis by simp
      next
        case False
        with 1 have "x = 1 / 20" by simp
        with Suc.prems show ?thesis by (simp add: field_simps)
      qed
      with Suc.IH eq show ?thesis by simp
    next
      fix d t assume 2: "ctl_deadline ctl = Some d" "env_clock E w1 = (t, w2)" "x = d - (t - started)" "0 < x"
      with assms(1) have st: "steady E ctl now" by auto
      with 2 have "t \<le> now w2" "now w2 + x \<le> now ?w" by (auto simp: steady_def)
      with 2 have "started + d \<le> now ?w" by simp
      from control_reason_late [OF st 2(1) this] obtain r w3 where
        "control_reason E ctl started ?w = (Some r, w3)" by blast
      then have "\<exists>y. sleep_loop E ctl started (remaining - x) ?w = Some y"
        by (subst unfold) simp
      with eq show ?thesis by simp
    qed (use x in simp)
  qed
qed

lemma controlled_sleep_ends:
  assumes "ctl_deadline ctl = None \<or> steady E ctl now"
  shows "\<exists>reason w'. controlled_sleep E ctl delay started w = Some (reason, w')"
proof -
  obtain n :: nat where "20 * delay \<le> of_nat n" using real_arch_simple by blast
  then have "delay \<le> of_nat n / 20" by simp
  from sleep_loop_ends [OF assms this] show ?thesis by (auto simp: controlled_sleep_def)
qed

lemma fail_now_returns: "\<exists>r w'. fail_now E shab body started attempts error detail response w = Some (r, w')"
  by (cases "env_clock E w") (simp add: fail_now_def)

lemma retry_loop_returns:
  assumes "ctl_deadline ctl = None \<or> steady E ctl now"
  shows "\<exists>r w'. retry_loop E shab read C ctl body started is v w = Some (r, w')"
proof (induction "is" arbitrary: v w)
  case Nil
  then show ?case by (simp add: fail_now_returns)
next
  case (Cons i "is")
  obtain reason w1 where c: "control_reason E ctl started w = (reason, w1)" by fastforce
  obtain timeout w2 where t: "send_timeout E ctl (pc_timeout C) started w1 = (timeout, w2)" by fastforce
  obtain x w3 where x: "env_send E (pc_endpoint C) body timeout w2 = (x, w3)" by fastforce
  obtain t' w4 where t': "env_clock E w3 = (t', w4)" by fastforce
  obtain stop w5 where s: "controlled_sleep E ctl (backoff_seconds (pc_policy C) ! i) started w3 = Some (stop, w5)"
    using controlled_sleep_ends [OF assms] by blast
  show ?case
  proof (cases reason)
    case (Some r)
    then show ?thesis by (simp add: c fail_now_returns)
  next
    case None
    have again: "\<exists>r w'. (case controlled_sleep E ctl (backoff_seconds (pc_policy C) ! i) started w3 of
        None \<Rightarrow> None
      | Some (Some reason, w'') \<Rightarrow>
          fail_now E shab body started (rt_attempts v') reason (Some reason) (rt_response v') w''
      | Some (None, w'') \<Rightarrow> retry_loop E shab read C ctl body started is v' w'') = Some (r, w')" for v'
      using Cons.IH fail_now_returns by (cases stop) (simp_all add: s)
    show ?thesis
      by (cases x) (simp_all add: None c t x t' Let_def again fail_now_returns)
  qed
qed

lemma propose_request_returns:
  assumes "ctl_deadline ctl = None \<or> steady E ctl now"
  shows "\<exists>r w'. propose_request E shab read C ctl q w = Some (r, w')"
proof -
  obtain t w1 where "env_clock E w = (t, w1)" by fastforce
  moreover have "\<exists>r w'. retry_loop E shab read C ctl body t [0 ..< Suc (nat (max_retries (pc_policy C)))]
      \<lparr>rt_attempts = 0, rt_status = None, rt_detail = None, rt_response = None\<rparr> w1 = Some (r, w')" for body
    by (rule retry_loop_returns [OF assms])
  ultimately show ?thesis
    by (cases "request_body q") (simp_all add: propose_request_def del: retry_loop.simps upt_Suc)
qed

section \<open>Every response can be archived\<close>

definition made_by_client :: "(bytes \<Rightarrow> string) \<Rightarrow> (bytes \<Rightarrow> string + json) \<Rightarrow> bytes \<Rightarrow> provider_response \<Rightarrow> bool" where
  "made_by_client shab read body r \<longleftrightarrow>
     (\<exists>n e d resp t. r = failure_response shab body n e d resp t) \<or>
     (\<exists>resp n t. r = decode_response shab read body resp n t)"

lemma made_failure [intro]: "made_by_client shab read body (failure_response shab body n e d resp t)"
  unfolding made_by_client_def by blast

lemma made_decode [intro]: "made_by_client shab read body (decode_response shab read body resp n t)"
  unfolding made_by_client_def by blast

lemma failure_response_wf: "shab body \<noteq> '''' \<Longrightarrow> response_wf shab (failure_response shab body n e d resp t)"
  by (cases resp) (simp_all add: response_wf_def failure_response_def usage_ok_def no_usage_def check_bodies_def)

lemma optional_int_nonneg: "optional_int v = Some i \<Longrightarrow> 0 \<le> i"
  by (cases v) (auto split: if_splits)

lemma decode_response_wf:
  assumes "shab body \<noteq> ''''"
  shows "response_wf shab (decode_response shab read body resp n t)"
proof (cases "\<exists>d s. read (tr_body resp) = Inr (JObj d) \<and> answer_text d = JStr s")
  case True
  then obtain d s where "read (tr_body resp) = Inr (JObj d)" "answer_text d = JStr s" by blast
  with assms show ?thesis
    by (auto simp: decode_response_def response_wf_def usage_ok_def check_bodies_def
        dest: optional_int_nonneg split: option.split)
next
  case False
  then have "\<exists>e d. decode_response shab read body resp n t = failure_response shab body n e d (Some resp) t"
    by (auto simp: decode_response_def Let_def split: sum.split json.split)
  then show ?thesis using failure_response_wf [of shab body] assms by auto
qed

lemma made_by_client_wf: "made_by_client shab read body r \<Longrightarrow> shab body \<noteq> '''' \<Longrightarrow> response_wf shab r"
  by (auto simp: made_by_client_def failure_response_wf decode_response_wf)

lemma fail_now_made:
  "fail_now E shab body started n e d resp w = Some (Inr r, w') \<Longrightarrow> made_by_client shab read body r"
  by (auto simp: fail_now_def split: prod.splits)

lemma retry_loop_made:
  "retry_loop E shab read C ctl body started is v w = Some (Inr r, w') \<Longrightarrow> made_by_client shab read body r"
proof (induction "is" arbitrary: v w)
  case Nil
  then show ?case by (simp add: fail_now_made)
next
  case (Cons i "is")
  obtain reason w1 where c: "control_reason E ctl started w = (reason, w1)" by fastforce
  obtain timeout w2 where t: "send_timeout E ctl (pc_timeout C) started w1 = (timeout, w2)" by fastforce
  obtain x w3 where x: "env_send E (pc_endpoint C) body timeout w2 = (x, w3)" by fastforce
  obtain t' w4 where t': "env_clock E w3 = (t', w4)" by fastforce
  note made = Cons.IH fail_now_made
  have again: "made_by_client shab read body r"
    if "(case controlled_sleep E ctl (backoff_seconds (pc_policy C) ! i) started w3 of
        None \<Rightarrow> None
      | Some (Some reason, w'') \<Rightarrow>
          fail_now E shab body started (rt_attempts v') reason (Some reason) (rt_response v') w''
      | Some (None, w'') \<Rightarrow> retry_loop E shab read C ctl body started is v' w'') = Some (Inr r, w')" for v'
    using that made by (auto split: option.splits prod.splits)
  show ?case
  proof (cases reason)
    case (Some reason')
    with Cons.prems show ?thesis by (simp add: c fail_now_made)
  next
    case None
    show ?thesis
      using Cons.prems again fail_now_made
      by (cases x) (auto simp: None c t x t' Let_def split: if_splits)
  qed
qed

lemma propose_request_made:
  assumes "propose_request E shab read C ctl q w = Some (Inr r, w')"
  shows "\<exists>body. request_body q = Some body \<and> made_by_client shab read body r"
  using assms
  by (auto simp: propose_request_def simp del: retry_loop.simps upt_Suc
      dest!: retry_loop_made split: if_splits option.splits prod.splits)

lemma made_by_client_request: "made_by_client shab read body r \<Longrightarrow> resp_request r = shab body"
  by (auto simp: made_by_client_def failure_response_def decode_response_def Let_def
      split: sum.split json.split)

lemma archive_wf_record:
  assumes "archive_wf shab a" "response_wf shab r" "archive_record shab a q r = Inr a'"
  shows "archive_wf shab a'"
proof -
  obtain h where h: "request_hash shab q = Inr h" "resp_request r = h" "a' = dict_put h r a"
    using assms(3) by (auto simp: archive_record_def result_simps split: if_splits)
  have "set a' \<subseteq> insert (h, r) (set a)" unfolding h(3) by (induction a) auto
  moreover have "distinct (dict_keys a')" using assms(1) by (simp add: archive_wf_def h(3) distinct_update)
  ultimately show ?thesis using assms(1,2) h(2) by (auto simp: archive_wf_def)
qed

section \<open>What the fake server sees\<close>

lemma fake_simps [simp]:
  "env_clock (fake_environment clock sleep) (s, c) = (fst (clock c), (s, snd (clock c)))"
  "env_send (fake_environment clock sleep) endpoint body timeout (s, c) =
     (fst (fake_send body s), (snd (fake_send body s), c))"
  "env_sleep (fake_environment clock sleep) t (s, c) = (s, sleep t c)"
  "ctl_deadline (fake_control ctl) = ctl_deadline ctl"
  by (simp_all add: fake_environment_def fake_control_def split_beta)

lemma fake_deadline_reason:
  "deadline_reason (fake_environment clock sleep) k started (s, c) = (reason, w') \<Longrightarrow> fst w' = s"
  by (auto simp: deadline_reason_def split: option.splits)

lemma fake_control_reason:
  assumes "control_reason (fake_environment clock sleep) (fake_control ctl) started (s, c) = (reason, w')"
  shows "fst w' = s"
proof (cases "ctl_cancelled ctl")
  case None
  with assms show ?thesis
    by (auto simp: control_reason_def fake_control_def dest: fake_deadline_reason)
next
  case (Some poll)
  obtain x c' where "poll c = (x, c')" by fastforce
  with assms Some show ?thesis
    by (cases x) (auto simp: control_reason_def fake_control_def dest: fake_deadline_reason)
qed

lemma fake_sleep_slice:
  "sleep_slice (fake_environment clock sleep) k started remaining (s, c) = (x, w') \<Longrightarrow> fst w' = s"
  by (auto simp: sleep_slice_def Let_def split: option.splits)

lemma fake_send_timeout:
  "send_timeout (fake_environment clock sleep) k timeout started (s, c) = (x, w') \<Longrightarrow> fst w' = s"
  by (auto simp: send_timeout_def split: option.splits)

lemma fake_sleep_loop:
  assumes "sleep_loop (fake_environment clock sleep) (fake_control ctl) started remaining w = Some y"
  shows "fst (snd y) = fst w"
proof -
  let ?E = "fake_environment clock sleep" and ?ctl = "fake_control ctl"
  let ?P = "\<lambda>E k started r u y. E = ?E \<longrightarrow> k = ?ctl \<longrightarrow> fst (snd y) = fst u"
  have "?P ?E ?ctl started remaining w y"
  proof (rule sleep_loop.raw_induct [where P = ?P, OF _ assms], intro impI)
    fix f E k started' r u y
    assume IH: "\<And>E k started r u y. f E k started r u = Some y \<Longrightarrow> ?P E k started r u y"
      and body: "(if r \<le> 0 then Some (control_reason E k started' u)
        else case control_reason E k started' u of
            (Some reason, w1) \<Rightarrow> Some (Some reason, w1)
          | (None, w1) \<Rightarrow> (case sleep_slice E k started' r w1 of
                (None, w2) \<Rightarrow> Some (Some ''campaign_deadline'', w2)
              | (Some s, w2) \<Rightarrow> f E k started' (r - s) (env_sleep E s w2))) = Some y"
      and E: "E = ?E" "k = ?ctl"
    obtain s c where u: "u = (s, c)" by (cases u)
    obtain why s1 c1 where w1: "control_reason ?E ?ctl started' (s, c) = (why, (s1, c1))"
      by (metis surj_pair)
    obtain x s2 c2 where w2: "sleep_slice ?E ?ctl started' r (s1, c1) = (x, (s2, c2))"
      by (metis surj_pair)
    have f: "s1 = s" "s2 = s" using fake_control_reason [OF w1] fake_sleep_slice [OF w2] by simp_all
    note w1 = w1 [unfolded f] and w2 = w2 [unfolded f]
    show "fst (snd y) = fst u"
    proof (cases "r \<le> 0 \<or> why \<noteq> None \<or> x = None")
      case True
      then show ?thesis
        using body [unfolded E u] f u by (auto simp: w1 w2 split: if_splits option.splits)
    next
      case False
      then obtain t where t: "x = Some t" "why = None" by auto
      then have "f ?E ?ctl started' (r - t) (s, sleep t c2) = Some y"
        using body [unfolded E u] False by (simp add: w1 w2)
      from IH [OF this] u show ?thesis by simp
    qed
  qed
  then show ?thesis by simp
qed

lemma fake_controlled_sleep:
  assumes "controlled_sleep (fake_environment clock sleep) (fake_control ctl) delay started w = Some (reason, w')"
  shows "fst w' = fst w"
proof (cases "ctl_cancelled (fake_control ctl) = None \<and> ctl_deadline (fake_control ctl) = None")
  case True
  with assms show ?thesis by (cases w) (auto simp: controlled_sleep_def)
next
  case False
  then have "sleep_loop (fake_environment clock sleep) (fake_control ctl) started delay w = Some (reason, w')"
    using assms by (auto simp: controlled_sleep_def)
  from fake_sleep_loop [OF this] show ?thesis by simp
qed

lemma fake_fail_now:
  assumes "fail_now (fake_environment clock sleep) shab body started n e d resp w = Some (r, w')"
  shows "fst w' = fst w \<and> (\<exists>t. r = Inr (failure_response shab body n e d resp t))"
  using assms by (cases w) (auto simp: fail_now_def)

text \<open>
  A call with the fake server takes items off its queue, one per attempt; every one but the last
  asked for another attempt, and an answer without an error was decoded from the last one.
\<close>

fun retry_item :: "fake_item \<Rightarrow> bool" where
  "retry_item (FakeResponse r) = retryable (status_code r)"
| "retry_item (FakeTransportError e) = True"
| "retry_item (FakeError e) = False"

definition answered_by :: "(bytes \<Rightarrow> string + json) \<Rightarrow> fake_item list \<Rightarrow> provider_response \<Rightarrow> bool" where
  "answered_by read used r \<longleftrightarrow> (\<exists>before resp d s. used = before @ [FakeResponse resp] \<and>
     200 \<le> status_code resp \<and> status_code resp < 300 \<and> read (tr_body resp) = Inr (JObj d) \<and>
     answer_text d = JStr s \<and> resp_text r = Some s \<and> resp_response_body r = Some (tr_body resp) \<and>
     resp_status r = JInt (status_code resp))"

definition call_trace ::
    "(bytes \<Rightarrow> string + json) \<Rightarrow> bytes \<Rightarrow> nat \<Rightarrow> fake_server \<Rightarrow> fake_item list \<Rightarrow> fake_server \<Rightarrow> provider_response \<Rightarrow> bool" where
  "call_trace read body before s used s' r \<longleftrightarrow>
     fs_responses s = used @ fs_responses s' \<and>
     fs_requests s' = fs_requests s @ replicate (length used) body \<and>
     resp_attempts r = int (before + length used) \<and>
     (\<forall>x \<in> set (butlast used). retry_item x) \<and> (resp_error r = None \<longrightarrow> answered_by read used r)"

lemma call_trace_stop:
  assumes "fail_now (fake_environment clock sleep) shab body started n e d resp (s, c) = Some (Inr r, (s', c'))"
  shows "call_trace read body n s [] s' r"
  using fake_fail_now [OF assms] by (auto simp: call_trace_def failure_response_def)

lemma call_trace_step:
  assumes "fs_responses s = x # fs_responses s1" "fs_requests s1 = fs_requests s @ [body]"
    and "call_trace read body (Suc n) s1 used s' r" "used \<noteq> [] \<longrightarrow> retry_item x"
    and "resp_error r = None \<longrightarrow> used \<noteq> [] \<or> answered_by read [x] r"
  shows "call_trace read body n s (x # used) s' r"
proof -
  have "answered_by read (x # used) r" if "answered_by read used r"
    using that by (auto simp: answered_by_def)
  with assms show ?thesis by (cases used) (auto simp: call_trace_def)
qed

lemma decode_attempts [simp]: "resp_attempts (decode_response shab read body resp n t) = int n"
  by (auto simp: decode_response_def failure_response_def Let_def split: sum.split json.split)

lemma decode_answered:
  assumes "resp_error (decode_response shab read body resp n t) = None"
    and "200 \<le> status_code resp" "status_code resp < 300"
  shows "answered_by read [FakeResponse resp] (decode_response shab read body resp n t)"
proof -
  from assms(1) obtain d s where "read (tr_body resp) = Inr (JObj d)" "answer_text d = JStr s"
    by (auto simp: decode_response_def failure_response_def Let_def split: sum.splits json.splits)
  with assms show ?thesis by (auto simp: answered_by_def decode_response_def Let_def)
qed

lemma fake_send_Cons:
  assumes "fake_send body s = (x, s1)" "\<nexists>e. x = SendRaised e"
  obtains item where "fs_responses s = item # fs_responses s1" "fs_requests s1 = fs_requests s @ [body]"
    "(\<exists>resp. x = Sent resp \<and> item = FakeResponse resp) \<or> (\<exists>e. x = SendFailed e \<and> item = FakeTransportError e)"
  using assms by (auto simp: fake_send_def Let_def split: list.splits fake_item.splits)

lemma retry_loop_trace:
  assumes "retry_loop (fake_environment clock sleep) shab read C (fake_control ctl) body started is v (s, c)
      = Some (Inr r, (s', c'))"
  shows "\<exists>used. call_trace read body (rt_attempts v) s used s' r \<and> length used \<le> length is"
  using assms
proof (induction "is" arbitrary: v s c)
  case Nil
  then have "call_trace read body (rt_attempts v) s [] s' r" by (auto intro: call_trace_stop)
  then show ?case by fastforce
next
  case (Cons i "is")
  let ?E = "fake_environment clock sleep" and ?ctl = "fake_control ctl"
  obtain reason s1 c1 where c: "control_reason ?E ?ctl started (s, c) = (reason, (s1, c1))" by (metis surj_pair)
  obtain timeout s2 c2 where t: "send_timeout ?E ?ctl (pc_timeout C) started (s1, c1) = (timeout, (s2, c2))"
    by (metis surj_pair)
  have eq: "s1 = s" "s2 = s" using fake_control_reason [OF c] fake_send_timeout [OF t] by simp_all
  note c = c [unfolded eq] and t = t [unfolded eq]
  obtain x s3 where x: "fake_send body s = (x, s3)" by fastforce
  show ?case
  proof (cases "reason = None")
    case False
    with Cons.prems c have "call_trace read body (rt_attempts v) s [] s' r" by (auto intro: call_trace_stop)
    then show ?thesis by fastforce
  next
    case None: True
    note step = Cons.prems [unfolded retry_loop.simps c None t prod.case option.case Let_def fake_simps x fst_conv snd_conv]
    have "\<nexists>e. x = SendRaised e" using step by auto
    from fake_send_Cons [OF x this] obtain item where item: "fs_responses s = item # fs_responses s3"
      "fs_requests s3 = fs_requests s @ [body]"
      "(\<exists>resp. x = Sent resp \<and> item = FakeResponse resp) \<or> (\<exists>e. x = SendFailed e \<and> item = FakeTransportError e)" .
    note once = call_trace_step [OF item(1,2)]
    have again: "\<exists>used. call_trace read body (rt_attempts v) s used s' r \<and> length used \<le> length (i # is)"
      if "(case controlled_sleep ?E ?ctl (backoff_seconds (pc_policy C) ! i) started (s3, c2) of
          None \<Rightarrow> None
        | Some (Some reason, w'') \<Rightarrow>
            fail_now ?E shab body started (rt_attempts v') reason (Some reason) (rt_response v') w''
        | Some (None, w'') \<Rightarrow> retry_loop ?E shab read C ?ctl body started is v' w'') = Some (Inr r, (s', c'))"
        and "rt_attempts v' = Suc (rt_attempts v)" "retry_item item" for v'
    proof -
      from that(1) obtain stop s4 c4 where w: "controlled_sleep ?E ?ctl (backoff_seconds (pc_policy C) ! i) started (s3, c2)
          = Some (stop, (s4, c4))" by (auto split: option.splits)
      then have "s4 = s3" using fake_controlled_sleep by fastforce
      show ?thesis
      proof (cases stop)
        case None
        with that(1) w \<open>s4 = s3\<close> have "retry_loop ?E shab read C ?ctl body started is v' (s3, c4) = Some (Inr r, (s', c'))"
          by simp
        from Cons.IH [OF this] that(2) obtain used where "call_trace read body (Suc (rt_attempts v)) s3 used s' r"
          "length used \<le> length is" by auto
        moreover from this have "resp_error r = None \<longrightarrow> used \<noteq> []" by (auto simp: call_trace_def answered_by_def)
        ultimately show ?thesis using once [of read _ used s' r] that(3) by fastforce
      next
        case (Some why)
        with that(1) w \<open>s4 = s3\<close> have f: "fail_now ?E shab body started (rt_attempts v') why (Some why) (rt_response v')
            (s3, c4) = Some (Inr r, (s', c'))" by simp
        have "resp_error r \<noteq> None" using fake_fail_now [OF f] by (auto simp: failure_response_def)
        with call_trace_stop [OF f] that(2) once [of read "rt_attempts v" "[]" s' r] show ?thesis by fastforce
      qed
    qed
    have stop: "\<exists>used. call_trace read body (rt_attempts v) s used s' r \<and> length used \<le> length (i # is)"
      if "fail_now ?E shab body started (Suc (rt_attempts v)) e d resp (s3, c2) = Some (Inr r, (s', c'))" for e d resp
    proof -
      have "resp_error r \<noteq> None" using fake_fail_now [OF that] by (auto simp: failure_response_def)
      with call_trace_stop [OF that] once [of read "rt_attempts v" "[]" s' r] show ?thesis by fastforce
    qed
    show ?thesis
    proof (cases x)
      case (SendFailed e)
      with item(3) have "retry_item item" by auto
      then show ?thesis using step again stop unfolding SendFailed
        by (auto simp: split: if_splits)
    next
      case (Sent resp)
      then have item_eq: "item = FakeResponse resp" using item(3) by auto
      consider "retryable (status_code resp)" "int i < max_retries (pc_policy C)"
        | "\<not> (retryable (status_code resp) \<and> int i < max_retries (pc_policy C))"
          "status_code resp < 200 \<or> 300 \<le> status_code resp"
        | "\<not> (retryable (status_code resp) \<and> int i < max_retries (pc_policy C))"
          "200 \<le> status_code resp" "status_code resp < 300" by linarith
      then show ?thesis
      proof cases
        case 1
        then have "retry_item item" by (simp add: item_eq)
        with 1 step again show ?thesis unfolding Sent by auto
      next
        case 2
        then show ?thesis using step stop unfolding Sent by (auto split: if_splits)
      next
        case 3
        obtain t' where r: "r = decode_response shab read body resp (Suc (rt_attempts v)) t'" and s': "s' = s3"
          using step 3 unfolding Sent by (auto split: if_splits)
        have "call_trace read body (Suc (rt_attempts v)) s3 [] s' r \<or> resp_error r = None"
          by (auto simp: call_trace_def r s')
        moreover have "call_trace read body (rt_attempts v) s [item] s' r"
          using item(1,2) decode_answered [of shab read body resp] 3
          by (auto simp: call_trace_def r s' item_eq)
        ultimately show ?thesis by fastforce
      qed
    qed (use \<open>\<nexists>e. x = SendRaised e\<close> in simp)
  qed
qed

end
