(* ===== verification/Provider_Properties.thy ===== *)
theory Provider_Properties
  imports Provider_Runs
begin

text \<open>
  The properties of the provider client, its archive and the canonical serialization both use.
\<close>

section \<open>A concrete exchange\<close>

definition demo_reply :: "int \<Rightarrow> fake_item" where
  "demo_reply status = FakeResponse \<lparr>status_code = status, tr_headers = [(''b'', ''1''), (''a'', ''2'')], tr_body = [7, 255, 0]\<rparr>"

text \<open>A server that is down, then busy, then answers; the clock shows the time slept.\<close>

definition demo_server :: fake_server where
  "demo_server = \<lparr>fs_responses = [FakeTransportError ''refused'', demo_reply 503, demo_reply 200], fs_requests = []\<rparr>"

definition demo_environment :: "(fake_server \<times> rat) environment" where
  "demo_environment = fake_environment (\<lambda>c. (c, c)) (\<lambda>t c. c + t)"

definition demo_control :: "(fake_server \<times> rat) control" where
  "demo_control = fake_control \<lparr>ctl_cancelled = None, ctl_deadline = Some 100\<rparr>"

definition demo_client :: provider_client where
  "demo_client = \<lparr>pc_endpoint = ''e'', pc_timeout = 180, pc_policy = \<lparr>max_retries = 2, backoff_seconds = [1 / 20, 1 / 20]\<rparr>,
     pc_key = None\<rparr>"

definition demo_question :: provider_request where
  "demo_question = \<lparr>pr_model = ''m'', pr_prompt = ''p'', pr_settings = [(''seed'', JInt 1)]\<rparr>"

definition demo_read :: "bytes \<Rightarrow> string + json" where
  "demo_read b = (if b = [7, 255, 0]
     then Inr (JObj [(''model'', JStr ''m''), (''message'', JObj [(''content'', JStr ''{}'')]), (''eval_count'', JInt 3)])
     else Inl ''bad'')"

definition demo_sha :: "bytes \<Rightarrow> string" where
  "demo_sha b = ''h'' @ string_of_nat (length b)"

text \<open>A text for every rational, and the value of a text.\<close>

definition demo_floats :: float_text where
  "demo_floats =
     \<lparr>write_float = (\<lambda>t. case quotient_of t of (p, q) \<Rightarrow>
        (if p < 0 then ''-'' else []) @ replicate (nat \<bar>p\<bar>) CHR ''1'' @ replicate (nat q) CHR ''2''),
      read_float = (\<lambda>s. Some ((if CHR ''-'' \<in> set s then - 1 else 1)
        * of_nat (length (filter (\<lambda>c. c = CHR ''1'') s)) / of_nat (length (filter (\<lambda>c. c = CHR ''2'') s))))\<rparr>"

lemma demo_floats_law: "float_law demo_floats"
  unfolding float_law_def
proof
  fix t :: rat
  obtain p q where pq: "quotient_of t = (p, q)" by fastforce
  then have "0 < q" "t = of_int p / of_int q" using quotient_of_denom_pos quotient_of_div by auto
  moreover from this have "(of_nat (nat q) :: rat) = of_int q" by simp
  moreover have "(if p < 0 then - 1 else 1) * (of_nat (nat \<bar>p\<bar>) :: rat) = of_int p"
    by (cases "p < 0") simp_all
  moreover have "write_float demo_floats t =
      (if p < 0 then ''-'' else []) @ replicate (nat \<bar>p\<bar>) CHR ''1'' @ replicate (nat q) CHR ''2''"
    by (simp add: demo_floats_def pq)
  moreover have "read_float demo_floats ((if p < 0 then ''-'' else []) @ replicate (nat \<bar>p\<bar>) CHR ''1'' @ replicate (nat q) CHR ''2'')
      = Some ((if p < 0 then - 1 else 1) * of_nat (nat \<bar>p\<bar>) / of_nat (nat q))"
    by (simp add: demo_floats_def)
  ultimately show "read_float demo_floats (write_float demo_floats t) = Some t" by simp
qed

lemma demo_steady: "steady demo_environment demo_control snd"
  by (auto simp: steady_def demo_environment_def demo_control_def fake_control_def)

section \<open>The client\<close>

text \<open>
  A proposal call always returns: without a campaign deadline whatever the clock does, and
  with one whenever the clock does not run backwards and sleeping lasts as long as asked.
\<close>

theorem client_returns:
  assumes "ctl_deadline ctl = None \<or> steady E ctl now"
  shows "\<exists>answer w'. propose_request E shab read C ctl q w = Some (answer, w')"
  by (rule propose_request_returns [OF assms])

theorem client_returns_witness:
  "\<exists>answer w'. propose_request demo_environment demo_sha demo_read demo_client demo_control demo_question (demo_server, 0)
     = Some (answer, w')"
  by (rule client_returns [where now = snd]) (simp add: demo_steady)

text \<open>
  C18. One call makes at most one attempt more than the retries of its policy. Every attempt sends
  the same body and consumes one answer of the server; each answer but the last was a transport
  failure or a retryable status, the reported number of attempts is the number of requests the
  server saw, and a response without an error carries the text of the last answer, whose status
  is a success.
\<close>

theorem client_attempts:
  assumes "propose_request (fake_environment clock sleep) shab read C (fake_control ctl) q (s, c) = Some (Inr r, (s', c'))"
    and "RetryPolicy (pc_policy C) = Inr p"
  shows "\<exists>body used. request_body q = Some body \<and> resp_request r = shab body \<and>
    fs_responses s = used @ fs_responses s' \<and> fs_requests s' = fs_requests s @ replicate (length used) body \<and>
    resp_attempts r = int (length used) \<and> int (length used) \<le> max_retries p + 1 \<and>
    (\<forall>x \<in> set (butlast used). retry_item x) \<and> (resp_error r = None \<longrightarrow> answered_by read used r)"
proof -
  have p: "p = pc_policy C" "0 \<le> max_retries p" using assms(2) by (auto simp: RetryPolicy_def split: if_splits)
  obtain body where body: "request_body q = Some body" "made_by_client shab read body r"
    using propose_request_made [OF assms(1)] by blast
  with assms(1) obtain v started where loop: "retry_loop (fake_environment clock sleep) shab read C (fake_control ctl) body
      started [0 ..< Suc (nat (max_retries p))] v (s, snd (clock c)) = Some (Inr r, (s', c'))" "rt_attempts v = 0"
    by (auto simp: propose_request_def p(1) simp del: retry_loop.simps upt_Suc split: if_splits)
  from retry_loop_trace [OF loop(1)] loop(2) p(2) body made_by_client_request [OF body(2)] show ?thesis
    by (fastforce simp: call_trace_def)
qed

lemma demo_exchange:
  "propose_request demo_environment demo_sha demo_read demo_client demo_control demo_question (demo_server, 0) =
     (case request_body demo_question of
        None \<Rightarrow> None
      | Some body \<Rightarrow> Some (Inr (decode_response demo_sha demo_read body
          \<lparr>status_code = 200, tr_headers = [(''b'', ''1''), (''a'', ''2'')], tr_body = [7, 255, 0]\<rparr> 3 (1 / 10)),
          (\<lparr>fs_responses = [], fs_requests = [body, body, body]\<rparr>, 1 / 10)))"
  by code_simp

lemma demo_returns: "\<exists>r w'. propose_request demo_environment demo_sha demo_read demo_client demo_control demo_question
    (demo_server, 0) = Some (Inr r, w')"
proof -
  have "request_body demo_question \<noteq> None" by code_simp
  then obtain body where "request_body demo_question = Some body" by blast
  from demo_exchange [unfolded this option.case] show ?thesis by (intro exI)
qed

lemma demo_policy: "\<exists>p. RetryPolicy (pc_policy demo_client) = Inr p \<and> max_retries p = 2"
  by (simp add: RetryPolicy_def demo_client_def)

theorem client_attempts_witness:
  "\<exists>(r :: provider_response) (s' :: fake_server) body used. fs_responses demo_server = used @ fs_responses s' \<and>
     fs_requests s' = replicate (length used) body \<and> resp_attempts r = int (length used) \<and> length used \<le> 3"
proof -
  obtain r s' c' where run: "propose_request (fake_environment (\<lambda>c. (c, c)) (\<lambda>t c. c + t)) demo_sha demo_read
      demo_client (fake_control \<lparr>ctl_cancelled = None, ctl_deadline = Some 100\<rparr>) demo_question (demo_server, 0)
      = Some (Inr r, (s', c'))"
    using demo_returns unfolding demo_environment_def demo_control_def by auto
  obtain p where "RetryPolicy (pc_policy demo_client) = Inr p" "max_retries p = 2" using demo_policy by blast
  from client_attempts [OF run this(1)] obtain body used where
    "fs_responses demo_server = used @ fs_responses s'"
    "fs_requests s' = fs_requests demo_server @ replicate (length used) body"
    "resp_attempts r = int (length used)" "int (length used) \<le> max_retries p + 1" by blast
  with \<open>max_retries p = 2\<close> show ?thesis
    by (intro exI [of _ r] exI [of _ s'] exI [of _ body] exI [of _ used]) (simp add: demo_server_def)
qed

text \<open>
  C27. The client's own answer can always be recorded, and an archive that is saved and loaded
  again replays it: the same response, up to the order of its dictionaries, with one attempt.
\<close>

theorem recorded_response_replays:
  assumes "archive_wf shab a" "float_law F" "\<forall>b. shab b \<noteq> ''''"
    and "propose_request E shab read C ctl q w = Some (Inr r, w')"
  shows "\<exists>a' a''. archive_record shab a q r = Inr a' \<and>
    archive_save F True a' old = (Inr (), Some (archive_document F a')) \<and>
    archive_load shab F (archive_document F a') = Inr a'' \<and>
    archive_replay shab a'' q = Inr ((ordered_response r)\<lparr>resp_attempts := 1\<rparr>)"
proof -
  obtain body where body: "request_body q = Some body" "made_by_client shab read body r"
    using propose_request_made [OF assms(4)] by blast
  then have h: "request_hash shab q = Inr (resp_request r)"
    using made_by_client_request by (fastforce simp: request_hash_def)
  define a' where "a' = dict_put (resp_request r) r a"
  have rec: "archive_record shab a q r = Inr a'" by (simp add: archive_record_def h a'_def)
  have "response_wf shab r" using made_by_client_wf [OF body(2)] assms(3) by blast
  with archive_wf_record [OF assms(1) _ rec] have wf: "archive_wf shab a'" by blast
  define a'' where "a'' = map (\<lambda>kr. (fst kr, ordered_response (snd kr))) (sort_key fst a')"
  have load: "archive_load shab F (archive_document F a') = Inr a''"
    unfolding a''_def by (rule archive_load_save [OF wf assms(2)])
  have "dict_get a'' (resp_request r) = Some (ordered_response r)"
    using wf by (simp add: a''_def dict_get_map_snd dict_get_sort archive_wf_def a'_def del: map_of_eq_Some_iff)
  with rec load show ?thesis by (auto simp: archive_replay_def archive_save_def h)
qed

theorem recorded_response_replays_witness:
  "\<exists>r w' a' a''. propose_request demo_environment demo_sha demo_read demo_client demo_control demo_question
       (demo_server, 0) = Some (Inr r, w') \<and> archive_record demo_sha [] demo_question r = Inr a' \<and>
     archive_load demo_sha demo_floats (archive_document demo_floats a') = Inr a'' \<and>
     archive_replay demo_sha a'' demo_question = Inr ((ordered_response r)\<lparr>resp_attempts := 1\<rparr>)"
proof -
  obtain r w' where run: "propose_request demo_environment demo_sha demo_read demo_client demo_control demo_question
      (demo_server, 0) = Some (Inr r, w')" using demo_returns by blast
  have "archive_wf demo_sha []" "\<forall>b. demo_sha b \<noteq> ''''" by (simp_all add: archive_wf_def demo_sha_def)
  from recorded_response_replays [OF this(1) demo_floats_law this(2) run, of None] run show ?thesis by blast
qed

section \<open>The canonical serialization\<close>

text \<open>
  C17. Two values whose floats are written as Python writes them have the same canonical bytes
  exactly when they differ only in the order of their dictionary keys: a canonical hash identifies
  the value, as far as SHA-256 does.
\<close>

theorem canonical_json_injective:
  assumes "floats_ok v" "floats_ok w"
  shows "canonical_json v = canonical_json w \<longleftrightarrow> normal_json v = normal_json w"
  using canonical_text_eq_iff [OF assms] assms
  by (simp add: canonical_json_def floats_ok_encodable text_bytes_inj)

theorem canonical_json_injective_witness:
  "canonical_json (JObj [(''b'', JFloat ''1.5''), (''a'', JArr [JStr ''x'', JInt (- 3)])])
     = canonical_json (JObj [(''a'', JArr [JStr ''x'', JInt (- 3)]), (''b'', JFloat ''1.5'')])"
proof -
  have "floats_ok (JObj [(''b'', JFloat ''1.5''), (''a'', JArr [JStr ''x'', JInt (- 3)])])"
    "floats_ok (JObj [(''a'', JArr [JStr ''x'', JInt (- 3)]), (''b'', JFloat ''1.5'')])"
    by code_simp+
  from canonical_json_injective [OF this] show ?thesis by simp
qed

end
