(* ===== verification/Replay_Evaluator.thy ===== *)
theory Replay_Evaluator
  imports Complex_Main Canonical_Json Contracts_Records Xlir_Pipeline Xlir_Safety "HOL-Library.Product_Lexorder"
begin

text \<open>
  The verdict on a witness from its replay evidence (\<^verbatim>\<open>replay/assessment.py\<close>): the reasons, the
  status computed from their texts, and the constructor's own checks. Seconds are rationals.
\<close>

section \<open>Assessments\<close>

datatype assessment_status = AssessConfirmed | AssessPending | AssessRejected

fun assessment_status_value :: "assessment_status \<Rightarrow> string" where
  "assessment_status_value AssessConfirmed = ''confirmed''"
| "assessment_status_value AssessPending = ''pending''"
| "assessment_status_value AssessRejected = ''rejected''"

record replay_assessment =
  ra_witness :: string
  ra_model_valid :: "bool option"
  ra_native :: replay_status
  ra_independent :: replay_status
  ra_relevance :: "bool option"
  ra_allowed :: "string list"
  ra_required :: "string list"
  ra_status :: assessment_status
  ra_reasons :: "string list"
  ra_native_seconds :: "rat option"
  ra_evaluator_seconds :: "rat option"

datatype assessment_error = AssessmentValue string

definition negative_seconds :: "rat option \<Rightarrow> bool" where
  "negative_seconds v = (case v of None \<Rightarrow> False | Some t \<Rightarrow> t < 0)"

definition ReplayAssessment :: "replay_assessment \<Rightarrow> assessment_error + replay_assessment" where
  "ReplayAssessment a =
     (if ra_witness a = '''' then Inl (AssessmentValue ''witness_id is required'')
      else if negative_seconds (ra_native_seconds a)
        then Inl (AssessmentValue ''native_witness_seconds must be non-negative'')
      else if negative_seconds (ra_evaluator_seconds a)
        then Inl (AssessmentValue ''evaluator_reproduction_seconds must be non-negative'')
      else if \<not> set (ra_required a) \<subseteq> set (ra_allowed a)
        then Inl (AssessmentValue ''required capabilities are not allowed by the witness'')
      else Inr a)"

definition assessment_confirmed :: "replay_assessment \<Rightarrow> bool" where
  "assessment_confirmed a = (ra_status a = AssessConfirmed)"

text \<open>\<open>secs\<close> is the JSON number of a float.\<close>

definition assessment_dict :: "(rat \<Rightarrow> json) \<Rightarrow> replay_assessment \<Rightarrow> json" where
  "assessment_dict secs a = JObj
     [(''schema_version'', JInt 1), (''witness_id'', JStr (ra_witness a)),
      (''model_trace_valid'', bool_option (ra_model_valid a)),
      (''native_replay_status'', JStr (replay_status_value (ra_native a))),
      (''independent_replay_status'', JStr (replay_status_value (ra_independent a))),
      (''security_relevance'', bool_option (ra_relevance a)),
      (''allowed_capabilities'', strings_json (ra_allowed a)),
      (''required_capabilities'', strings_json (ra_required a)),
      (''status'', JStr (assessment_status_value (ra_status a))), (''reasons'', strings_json (ra_reasons a)),
      (''native_witness_seconds'', json_option (map_option secs (ra_native_seconds a))),
      (''evaluator_reproduction_seconds'', json_option (map_option secs (ra_evaluator_seconds a)))]"

section \<open>The verdict\<close>

definition flag_reasons :: "string \<Rightarrow> string \<Rightarrow> bool option \<Rightarrow> string list" where
  "flag_reasons failed unassessed v =
     (case v of None \<Rightarrow> [unassessed] | Some b \<Rightarrow> if b then [] else [failed])"

definition replay_reasons :: "string \<Rightarrow> replay_status \<Rightarrow> string list" where
  "replay_reasons name status =
     (if status = ReplayFail then [name @ ''_failed'']
      else if status \<noteq> ReplayPass then [name @ ''_'' @ replay_status_value status] else [])"

definition capability_reasons :: "string list \<Rightarrow> string list \<Rightarrow> string list" where
  "capability_reasons allowed required =
     (let missing = sorted_unique (filter (\<lambda>c. c \<notin> set allowed) required)
      in if missing = [] then [] else [''capability_not_allowed:'' @ join_text missing])"

text \<open>\<^verbatim>\<open>s.endswith(p)\<close> and \<^verbatim>\<open>s.startswith(p)\<close>.\<close>

definition ends_with :: "string \<Rightarrow> string \<Rightarrow> bool" where
  "ends_with s p = (length p \<le> length s \<and> drop (length s - length p) s = p)"

definition starts_with :: "string \<Rightarrow> string \<Rightarrow> bool" where
  "starts_with s p = (take (length p) s = p)"

definition hard_reason :: "string \<Rightarrow> bool" where
  "hard_reason r = (ends_with r ''failed'' \<or> ends_with r ''invalid'' \<or> starts_with r ''capability_not_allowed'')"

record assessment_input =
  ai_witness :: string
  ai_model_valid :: "bool option"
  ai_native :: replay_status
  ai_independent :: replay_status
  ai_relevance :: "bool option"
  ai_allowed :: "string list"
  ai_required :: "string list"
  ai_native_seconds :: "rat option"
  ai_evaluator_seconds :: "rat option"

definition assessment_reasons :: "assessment_input \<Rightarrow> string list" where
  "assessment_reasons x =
     flag_reasons ''model_trace_invalid'' ''model_trace_unassessed'' (ai_model_valid x)
     @ replay_reasons ''native_replay'' (ai_native x)
     @ replay_reasons ''independent_replay'' (ai_independent x)
     @ flag_reasons ''security_relevance_failed'' ''security_relevance_unassessed'' (ai_relevance x)
     @ capability_reasons (ai_allowed x) (ai_required x)"

definition assess_witness :: "assessment_input \<Rightarrow> assessment_error + replay_assessment" where
  "assess_witness x =
     (if ai_witness x = '''' then Inl (AssessmentValue ''witness_id is required'')
      else
        let reasons = assessment_reasons x;
            (status, shown) =
              (if list_ex hard_reason reasons then (AssessRejected, reasons)
               else if reasons \<noteq> [] then (AssessPending, reasons)
               else (AssessConfirmed, [''all_required_replay_and_relevance_checks_passed'']))
        in ReplayAssessment
             \<lparr>ra_witness = ai_witness x, ra_model_valid = ai_model_valid x, ra_native = ai_native x,
              ra_independent = ai_independent x, ra_relevance = ai_relevance x,
              ra_allowed = sorted_unique (ai_allowed x), ra_required = sorted_unique (ai_required x),
              ra_status = status, ra_reasons = shown,
              ra_native_seconds = ai_native_seconds x, ra_evaluator_seconds = ai_evaluator_seconds x\<rparr>)"

section \<open>The reasons decide the status\<close>

definition layer_failed :: "assessment_input \<Rightarrow> bool" where
  "layer_failed x \<longleftrightarrow> ai_model_valid x = Some False \<or> ai_native x = ReplayFail \<or>
     ai_independent x = ReplayFail \<or> ai_relevance x = Some False"

definition layers_passed :: "assessment_input \<Rightarrow> bool" where
  "layers_passed x \<longleftrightarrow> ai_model_valid x = Some True \<and> ai_native x = ReplayPass \<and>
     ai_independent x = ReplayPass \<and> ai_relevance x = Some True"

lemma capability_reasons_Nil: "capability_reasons allowed required = [] \<longleftrightarrow> set required \<subseteq> set allowed"
  by (auto simp: capability_reasons_def Let_def filter_empty_conv)

lemma hard_capability: "list_ex hard_reason (capability_reasons allowed required) \<longleftrightarrow> \<not> set required \<subseteq> set allowed"
proof (cases "set required \<subseteq> set allowed")
  case True
  then show ?thesis by (simp add: capability_reasons_Nil [THEN iffD2])
next
  case False
  then have "filter (\<lambda>c. c \<notin> set allowed) required \<noteq> []" by (auto simp: filter_empty_conv)
  with False show ?thesis
    by (simp add: capability_reasons_def Let_def hard_reason_def starts_with_def)
qed

lemma hard_flag:
  "list_ex hard_reason (flag_reasons ''model_trace_invalid'' ''model_trace_unassessed'' v) \<longleftrightarrow> v = Some False"
  "list_ex hard_reason (flag_reasons ''security_relevance_failed'' ''security_relevance_unassessed'' v) \<longleftrightarrow> v = Some False"
  by (auto simp: flag_reasons_def hard_reason_def ends_with_def starts_with_def split: option.split)

lemma hard_replay:
  "list_ex hard_reason (replay_reasons ''native_replay'' s) \<longleftrightarrow> s = ReplayFail"
  "list_ex hard_reason (replay_reasons ''independent_replay'' s) \<longleftrightarrow> s = ReplayFail"
  by (cases s; simp add: replay_reasons_def hard_reason_def ends_with_def starts_with_def)+

lemma hard_reasons:
  "list_ex hard_reason (assessment_reasons x) \<longleftrightarrow> layer_failed x \<or> \<not> set (ai_required x) \<subseteq> set (ai_allowed x)"
  unfolding assessment_reasons_def list_ex_append hard_flag hard_replay hard_capability layer_failed_def by blast

lemma no_reasons:
  "assessment_reasons x = [] \<longleftrightarrow> layers_passed x \<and> set (ai_required x) \<subseteq> set (ai_allowed x)"
  by (auto simp: assessment_reasons_def flag_reasons_def replay_reasons_def capability_reasons_Nil layers_passed_def
      split: option.splits if_splits)

text \<open>
  The independent evaluation of an invariant on an observation (\<^verbatim>\<open>replay/evaluator.py\<close>). \<open>sha\<close> hashes a
  value; \<open>shown\<close> is the text of an evaluation error. An observation's bindings are a dictionary whose
  keys are symbol, state and domain.
\<close>

section \<open>Observations\<close>

datatype evaluator_error = EvaluatorValue string | EvaluatorRaised eval_exn

record observation =
  obs_id :: string
  obs_trace_hash :: string
  obs_bindings :: "((string \<times> string \<times> string) \<times> json) list"

definition SourceObservation :: "observation \<Rightarrow> evaluator_error + observation" where
  "SourceObservation ob =
     (if obs_id ob = '''' then Inl (EvaluatorValue ''observation_id is required'')
      else if \<not> sha_digest (obs_trace_hash ob)
        then Inl (EvaluatorValue ''trace_hash must be a lowercase SHA-256 hex digest'')
      else if list_ex (\<lambda>((sid, st, dm), v). sid = '''' \<or> st = '''' \<or> dm = '''') (obs_bindings ob)
        then Inl (EvaluatorValue ''observation binding key fields must be non-empty strings'')
      else if list_ex (\<lambda>((sid, st, dm), v). st \<notin> {''pre'', ''post''}) (obs_bindings ob)
        then Inl (EvaluatorValue ''observation binding state must be pre or post'')
      else Inr ob)"

definition binding_row :: "(string \<times> string \<times> string) \<times> json \<Rightarrow> json" where
  "binding_row b = (case b of ((sid, st, dm), v) \<Rightarrow>
     JObj [(''symbol_id'', JStr sid), (''state'', JStr st), (''domain'', JStr dm), (''value'', v)])"

definition observation_dict :: "observation \<Rightarrow> json" where
  "observation_dict ob = JObj
     [(''schema_version'', JInt 1), (''observation_id'', JStr (obs_id ob)),
      (''trace_hash'', JStr (obs_trace_hash ob)),
      (''bindings'', JArr (map binding_row (sort_key fst (obs_bindings ob))))]"

text \<open>\<^verbatim>\<open>sha256_hex\<close>, which raises ValueError on a float that is not finite.\<close>

definition hash_value :: "(json \<Rightarrow> string) \<Rightarrow> json \<Rightarrow> evaluator_error + string" where
  "hash_value sha v = (case sha256_hex sha v of
       None \<Rightarrow> Inl (EvaluatorValue ''Out of range float values are not JSON compliant'')
     | Some h \<Rightarrow> Inr h)"

definition observation_hash :: "(json \<Rightarrow> string) \<Rightarrow> observation \<Rightarrow> evaluator_error + string" where
  "observation_hash sha ob = hash_value sha (observation_dict ob)"

section \<open>The evaluator's identity\<close>

record evaluator_spec =
  es_id :: string
  es_revision :: string
  es_artifact :: string
  es_initialization :: string
  es_profile :: string
  es_engine :: string
  es_support :: "string option"

definition PropertyEvaluatorSpec :: "evaluator_spec \<Rightarrow> evaluator_error + evaluator_spec" where
  "PropertyEvaluatorSpec s =
     (if es_id s = '''' \<or> es_revision s = '''' \<or> es_engine s = ''''
        then Inl (EvaluatorValue ''property evaluator identity is incomplete'')
      else if \<not> list_all sha_digest [es_artifact s, es_initialization s, es_profile s]
        then Inl (EvaluatorValue ''artifact, initialization and profile hashes must be lowercase SHA-256 hex digests'')
      else if (case es_support s of None \<Rightarrow> False | Some h \<Rightarrow> \<not> sha_digest h)
        then Inl (EvaluatorValue ''support_matrix_hash must be a lowercase SHA-256 hex digest'')
      else Inr s)"

definition evaluator_spec_dict :: "evaluator_spec \<Rightarrow> json" where
  "evaluator_spec_dict s = JObj
     [(''schema_version'', JInt 1), (''evaluator_id'', JStr (es_id s)),
      (''evaluator_revision'', JStr (es_revision s)), (''artifact_hash'', JStr (es_artifact s)),
      (''initialization_hash'', JStr (es_initialization s)), (''profile_hash'', JStr (es_profile s)),
      (''semantic_engine'', JStr (es_engine s)), (''support_matrix_hash'', option_json (es_support s))]"

definition evaluator_spec_hash :: "(json \<Rightarrow> string) \<Rightarrow> evaluator_spec \<Rightarrow> string" where
  "evaluator_spec_hash sha s = sha (evaluator_spec_dict s)"

section \<open>Results\<close>

record evaluation_result =
  er_spec_hash :: string
  er_property_hash :: string
  er_observation_hash :: string
  er_trace_hash :: string
  er_status :: replay_status
  er_holds :: "bool option"
  er_relevance :: string
  er_reason :: "string option"

definition PropertyEvaluationResult :: "evaluation_result \<Rightarrow> evaluator_error + evaluation_result" where
  "PropertyEvaluationResult r =
     (if \<not> list_all sha_digest [er_spec_hash r, er_property_hash r, er_observation_hash r, er_trace_hash r]
        then Inl (EvaluatorValue ''result hashes must be lowercase SHA-256 hex digests'')
      else if er_relevance r \<notin> {''unassessed'', ''relevant'', ''irrelevant'', ''unknown''}
        then Inl (EvaluatorValue ''invalid security_relevance'')
      else if er_status r \<in> {ReplayPass, ReplayFail} \<and> er_holds r = None
        then Inl (EvaluatorValue ''pass/fail property results require property_holds'')
      else if er_status r \<in> {ReplayUnknown, ReplayUnsupported} \<and> er_holds r \<noteq> None
        then Inl (EvaluatorValue ''unknown/unsupported property results cannot claim property_holds'')
      else Inr r)"

definition evaluation_dict :: "evaluation_result \<Rightarrow> json" where
  "evaluation_dict r = JObj
     [(''schema_version'', JInt 1), (''evaluator_spec_hash'', JStr (er_spec_hash r)),
      (''property_hash'', JStr (er_property_hash r)), (''observation_hash'', JStr (er_observation_hash r)),
      (''trace_hash'', JStr (er_trace_hash r)), (''status'', JStr (replay_status_value (er_status r))),
      (''property_holds'', bool_option (er_holds r)), (''security_relevance'', JStr (er_relevance r)),
      (''reason'', option_json (er_reason r))]"

section \<open>Evaluation\<close>

definition evaluation_of ::
    "(json \<Rightarrow> string) \<Rightarrow> evaluator_spec \<Rightarrow> observation \<Rightarrow> string \<Rightarrow> replay_status \<Rightarrow> bool option \<Rightarrow> string option
       \<Rightarrow> evaluator_error + evaluation_result" where
  "evaluation_of sha s ob property_hash status holds reason =
     bind_result (observation_hash sha ob) (\<lambda>oh.
       PropertyEvaluationResult
         \<lparr>er_spec_hash = evaluator_spec_hash sha s, er_property_hash = property_hash, er_observation_hash = oh,
          er_trace_hash = obs_trace_hash ob, er_status = status, er_holds = holds,
          er_relevance = ''unassessed'', er_reason = reason\<rparr>)"

definition evaluate_property ::
    "(json \<Rightarrow> string) \<Rightarrow> (eval_reason \<Rightarrow> string) \<Rightarrow> evaluator_spec \<Rightarrow> invariant \<Rightarrow> observation
       \<Rightarrow> evaluator_error + evaluation_result" where
  "evaluate_property sha shown s i ob = (case sha256_hex sha (as_dict (inv_body i)) of
       None \<Rightarrow> evaluation_of sha s ob (sha (JObj [(''invalid_invariant'', JStr ''Invariant'')])) ReplayUnknown None
         (Some ''invalid_invariant:ValueError:Out of range float values are not JSON compliant'')
     | Some property_hash \<Rightarrow>
         if canonical_hash i \<noteq> property_hash
           then evaluation_of sha s ob property_hash ReplayUnknown None (Some ''invariant_canonical_hash_mismatch'')
         else (case evaluate_invariant i (dict_get (obs_bindings ob)) of
             Inl (EvaluationError r) \<Rightarrow> evaluation_of sha s ob property_hash ReplayUnknown None
               (Some (''observation_binding_error:'' @ shown r))
           | Inl e \<Rightarrow> Inl (EvaluatorRaised e)
           | Inr holds \<Rightarrow> evaluation_of sha s ob property_hash (if holds then ReplayPass else ReplayFail)
               (Some holds) None))"

section \<open>Compiled invariants\<close>

lemma valid_value_encodable: "valid_value v t \<Longrightarrow> encodable v"
  by (cases v) (auto simp: valid_value_def is_hex_literal_def split: value_type.splits)

lemma typed_encodable: "xlir_typed \<Sigma> \<Gamma> e t \<Longrightarrow> encodable (as_dict e)"
proof (induction rule: xlir_typed.induct)
  case (lit v t \<Gamma>)
  then show ?case by (simp add: literal_as_dict_def type_json_def valid_value_encodable)
next
  case (quantifier op x \<Gamma> t lits e)
  then show ?case
    by (auto simp: list_all_iff literal_as_dict_def type_json_def dest: valid_value_encodable)
qed (simp_all add: type_json_def)

lemma compiled_hash:
  assumes "comp_invariant (compile sha C pl) = Some i"
  shows "sha256_hex sha (as_dict (inv_body i)) = Some (canonical_hash i)"
  using typed_encodable [OF compile_Some_ok(1) [OF assms]] compile_Some_ok(3) [OF assms]
  by (simp add: sha256_hex_def)

lemma evaluation_of_returns:
  assumes "\<forall>v. sha_digest (sha v)" "sha_digest (obs_trace_hash ob)" "sha_digest property_hash"
    and "encodable (observation_dict ob)" "(status \<in> {ReplayPass, ReplayFail}) = (holds \<noteq> None)"
  shows "\<exists>r. evaluation_of sha s ob property_hash status holds reason = Inr r \<and> er_status r = status \<and>
    er_holds r = holds \<and> er_property_hash r = property_hash \<and> er_relevance r = ''unassessed''"
  using assms
  by (cases status) (auto simp: evaluation_of_def observation_hash_def hash_value_def sha256_hex_def
      evaluator_spec_hash_def PropertyEvaluationResult_def)

end
