(* ===== verification/Replay_Properties.thy ===== *)
theory Replay_Properties
  imports Replay_Evaluator
begin

text \<open>
  The properties of witness assessment and of the independent property evaluation.
\<close>

section \<open>The verdict on a witness\<close>

text \<open>
  The status of an assessment is decided by its evidence: confirmed exactly when the model
  trace, both replays and the security relevance all passed, rejected exactly when one of them
  failed, pending otherwise. An assessment is returned exactly when the witness has an identity, the
  times are not negative and every required capability is allowed: a capability that is not allowed,
  for which the code computes a rejection, always ends in an exception instead.
\<close>

theorem witness_verdict:
  "((\<exists>a. assess_witness x = Inr a) \<longleftrightarrow> ai_witness x \<noteq> '''' \<and> \<not> negative_seconds (ai_native_seconds x) \<and>
      \<not> negative_seconds (ai_evaluator_seconds x) \<and> set (ai_required x) \<subseteq> set (ai_allowed x)) \<and>
   (\<forall>a. assess_witness x = Inr a \<longrightarrow>
      ra_status a = (if layer_failed x then AssessRejected else if layers_passed x then AssessConfirmed else AssessPending))"
proof -
  have "layers_passed x \<Longrightarrow> \<not> layer_failed x" by (auto simp: layers_passed_def layer_failed_def)
  then show ?thesis
    using hard_reasons [of x] no_reasons [of x]
    by (auto simp: assess_witness_def ReplayAssessment_def Let_def split: if_splits)
qed

definition demo_evidence :: assessment_input where
  "demo_evidence = \<lparr>ai_witness = ''w'', ai_model_valid = Some True, ai_native = ReplayPass,
     ai_independent = ReplayUnsupported, ai_relevance = Some True, ai_allowed = [''reorg''], ai_required = [''reorg''],
     ai_native_seconds = None, ai_evaluator_seconds = Some 2\<rparr>"

theorem witness_verdict_witness:
  "(\<exists>a. assess_witness demo_evidence = Inr a \<and> ra_status a = AssessPending) \<and>
   (\<nexists>a. assess_witness (demo_evidence\<lparr>ai_required := [''mint'']\<rparr>) = Inr a)"
proof
  have "ai_witness demo_evidence \<noteq> ''''" "\<not> negative_seconds (ai_native_seconds demo_evidence)"
    "\<not> negative_seconds (ai_evaluator_seconds demo_evidence)"
    "set (ai_required demo_evidence) \<subseteq> set (ai_allowed demo_evidence)"
    by (simp_all add: demo_evidence_def negative_seconds_def)
  with witness_verdict [of demo_evidence] obtain a where "assess_witness demo_evidence = Inr a" by blast
  moreover have "\<not> layer_failed demo_evidence" "\<not> layers_passed demo_evidence"
    by (simp_all add: demo_evidence_def layer_failed_def layers_passed_def)
  ultimately show "\<exists>a. assess_witness demo_evidence = Inr a \<and> ra_status a = AssessPending"
    using witness_verdict [of demo_evidence] by auto
  have "\<not> set (ai_required (demo_evidence\<lparr>ai_required := [''mint'']\<rparr>)) \<subseteq> set (ai_allowed (demo_evidence\<lparr>ai_required := [''mint'']\<rparr>))"
    by (simp add: demo_evidence_def)
  then show "\<nexists>a. assess_witness (demo_evidence\<lparr>ai_required := [''mint'']\<rparr>) = Inr a"
    using witness_verdict [of "demo_evidence\<lparr>ai_required := [''mint'']\<rparr>"] by blast
qed

section \<open>The independent evaluator\<close>

lemma encodable_observation:
  "encodable (observation_dict ob) \<longleftrightarrow> (\<forall>(key, v) \<in> set (obs_bindings ob). encodable v)"
  by (fastforce simp: observation_dict_def binding_row_def list_all_iff)

lemma evaluation_of_raises:
  "\<not> encodable (observation_dict ob) \<Longrightarrow> evaluation_of sha s ob h status holds reason =
     Inl (EvaluatorValue ''Out of range float values are not JSON compliant'')"
  by (simp add: evaluation_of_def observation_hash_def hash_value_def sha256_hex_def)

text \<open>
  C28. The independent evaluation of a compiled invariant on an observation its constructor accepts,
  with a digest function that always gives 64 lower-case hexadecimal digits.
  When every bound value has a canonical JSON text (no float that is not finite), it returns a
  result whose hash is the invariant's own: it passes exactly when the concrete evaluator returns
  true, fails exactly when it returns false, and is unknown, claiming nothing, exactly when the
  evaluator raises its error. When some bound value is such a float, even of a symbol that the
  invariant does not read, the evaluation raises ValueError and there is no result, although the
  module says that invalid bindings remain unknown.
\<close>

theorem independent_evaluation_decides:
  assumes "comp_invariant (compile sha C pl) = Some i" "\<forall>v. sha_digest (sha v)"
    and "SourceObservation ob = Inr ob'"
  shows "if \<forall>(key, v) \<in> set (obs_bindings ob). encodable v
    then \<exists>r. evaluate_property sha shown s i ob = Inr r \<and> er_property_hash r = canonical_hash i \<and>
      er_relevance r = ''unassessed'' \<and>
      (er_status r, er_holds r) = (case evaluate_invariant i (dict_get (obs_bindings ob)) of
         Inr True \<Rightarrow> (ReplayPass, Some True) | Inr False \<Rightarrow> (ReplayFail, Some False) | Inl e \<Rightarrow> (ReplayUnknown, None))
    else evaluate_property sha shown s i ob =
      Inl (EvaluatorValue ''Out of range float values are not JSON compliant'')"
proof -
  have trace: "sha_digest (obs_trace_hash ob)" using assms(3) by (auto simp: SourceObservation_def split: if_splits)
  have digest: "sha_digest (canonical_hash i)" using compile_Some_ok(3) [OF assms(1)] assms(2) by simp
  note result = evaluation_of_returns [OF assms(2) trace digest]
  have "safe_outcome (\<lambda>v. value_ok False v BOOL) (evaluate_expression (inv_body i) (dict_get (obs_bindings ob)) None 0)"
    by (rule evaluate_expression_safe [OF compile_Some_ok(1) [OF assms(1)]]) simp
  from require_bool_outcome [OF this] have outcome:
    "(\<exists>b. evaluate_invariant i (dict_get (obs_bindings ob)) = Inr b) \<or>
     (\<exists>reason. evaluate_invariant i (dict_get (obs_bindings ob)) = eval_error reason)"
    by (auto simp: evaluate_invariant_def)
  then have "evaluate_property sha shown s i ob = Inl (EvaluatorValue ''Out of range float values are not JSON compliant'')"
    if "\<not> encodable (observation_dict ob)"
    using evaluation_of_raises [OF that] by (auto simp: evaluate_property_def compiled_hash [OF assms(1)])
  moreover have "\<exists>r. evaluate_property sha shown s i ob = Inr r \<and> er_property_hash r = canonical_hash i \<and>
      er_relevance r = ''unassessed'' \<and>
      (er_status r, er_holds r) = (case evaluate_invariant i (dict_get (obs_bindings ob)) of
         Inr True \<Rightarrow> (ReplayPass, Some True) | Inr False \<Rightarrow> (ReplayFail, Some False) | Inl e \<Rightarrow> (ReplayUnknown, None))"
    if enc: "encodable (observation_dict ob)"
    using outcome
  proof (elim disjE exE)
    fix b assume 1: "evaluate_invariant i (dict_get (obs_bindings ob)) = Inr b"
    from 1 result [OF enc, of "if b then ReplayPass else ReplayFail" "Some b" s None] show ?thesis
      by (cases b) (auto simp: evaluate_property_def compiled_hash [OF assms(1)])
  next
    fix reason assume 2: "evaluate_invariant i (dict_get (obs_bindings ob)) = eval_error reason"
    from 2 result [OF enc, of ReplayUnknown None s "Some (''observation_binding_error:'' @ shown reason)"] show ?thesis
      by (auto simp: evaluate_property_def compiled_hash [OF assms(1)])
  qed
  ultimately show ?thesis unfolding encodable_observation by simp
qed

definition digest_of :: "json \<Rightarrow> string" where
  "digest_of v = replicate 64 CHR ''a''"

definition demo_symbol :: artifact_symbol where
  "demo_symbol = \<lparr>sym_id = ''s'', sym_path = ''p'', sym_name = ''n'', sym_domain = ''source'', sym_kind = ''storage'',
     sym_type = ''bool''\<rparr>"

definition demo_observation :: observation where
  "demo_observation = \<lparr>obs_id = ''o'', obs_trace_hash = replicate 64 CHR ''0'',
     obs_bindings = [((''s'', ''post'', ''source''), JBool False)]\<rparr>"

definition demo_spec :: evaluator_spec where
  "demo_spec = \<lparr>es_id = ''e'', es_revision = ''1'', es_artifact = replicate 64 CHR ''1'',
     es_initialization = replicate 64 CHR ''2'', es_profile = replicate 64 CHR ''3'', es_engine = ''concrete'',
     es_support = None\<rparr>"

theorem independent_evaluation_decides_witness:
  "\<exists>C i r. comp_invariant (compile digest_of C (JObj [(''kind'', JStr ''invariant''), (''body'',
        JObj [(''kind'', JStr ''symbol''), (''symbol_id'', JStr ''s''), (''state'', JStr ''post'')])])) = Some i \<and>
     evaluate_property digest_of (\<lambda>_. '''') demo_spec i demo_observation = Inr r \<and> er_status r = ReplayFail"
proof -
  let ?C = "\<lparr>symbols = [''s'' \<mapsto> demo_symbol], maximum_ast_nodes = 256\<rparr>"
  let ?pl = "JObj [(''kind'', JStr ''invariant''), (''body'',
        JObj [(''kind'', JStr ''symbol''), (''symbol_id'', JStr ''s''), (''state'', JStr ''post'')])]"
  have "case comp_invariant (compile digest_of ?C ?pl) of None \<Rightarrow> False
      | Some i \<Rightarrow> evaluate_invariant i (dict_get (obs_bindings demo_observation)) = Inr False"
    by code_simp
  then obtain i where i: "comp_invariant (compile digest_of ?C ?pl) = Some i"
    "evaluate_invariant i (dict_get (obs_bindings demo_observation)) = Inr False"
    by (auto split: option.splits)
  have "\<forall>v. sha_digest (digest_of v)" by (simp add: digest_of_def sha_digest_def list_all_iff)
  moreover have "SourceObservation demo_observation = Inr demo_observation"
    "\<forall>(key, v) \<in> set (obs_bindings demo_observation). encodable v"
    by (simp_all add: SourceObservation_def demo_observation_def sha_digest_def list_all_iff)
  ultimately obtain r where "evaluate_property digest_of (\<lambda>_. '''') demo_spec i demo_observation = Inr r"
    "(er_status r, er_holds r) = (ReplayFail, Some False)"
    using independent_evaluation_decides [OF i(1), of demo_observation demo_observation "\<lambda>_. ''''" demo_spec] i(2)
    by (auto)
  with i(1) show ?thesis by (intro exI conjI) auto
qed

end
