(* ===== verification/Verification_Records.thy ===== *)
theory Verification_Records
  imports Method_Runner Contracts_Records
begin

text \<open>
  The records every verification method shares (\<^verbatim>\<open>verification/records.py\<close>) and the conversion of
  a method run into verification inputs (\<^verbatim>\<open>verification/inputs.py\<close>). A dataclass with a
  \<^verbatim>\<open>__post_init__\<close> is a record and a constructor function that may raise. The raw provider
  response of an input is carried along by the code and read by nothing here, so it is left out.
\<close>

datatype verify_error = VerifyValue string | VerifyKey string | VerifyLowering | VerifyDisk

section \<open>Stage statuses\<close>

datatype stage_status =
  StagePending | StagePassed | StageFailed | StageUnknown | StageUnsupported | StageTimeout
  | StageCrash | StageNotApplicable

fun stage_status_value :: "stage_status \<Rightarrow> string" where
  "stage_status_value StagePending = ''pending''"
| "stage_status_value StagePassed = ''passed''"
| "stage_status_value StageFailed = ''failed''"
| "stage_status_value StageUnknown = ''unknown''"
| "stage_status_value StageUnsupported = ''unsupported''"
| "stage_status_value StageTimeout = ''timeout''"
| "stage_status_value StageCrash = ''crash''"
| "stage_status_value StageNotApplicable = ''not_applicable''"

definition stage_members :: "stage_status list" where
  "stage_members = [StagePending, StagePassed, StageFailed, StageUnknown, StageUnsupported,
     StageTimeout, StageCrash, StageNotApplicable]"

definition stage_status_of :: "json \<Rightarrow> stage_status option" where
  "stage_status_of = enum_of stage_status_value stage_members"

interpretation stage_enum: enumeration stage_status_value stage_members
proof
  show "m \<in> set stage_members" for m by (cases m) (simp_all add: stage_members_def)
  show "distinct (map stage_status_value stage_members)" by (simp add: stage_members_def)
qed

lemma stage_status_of_value [simp]: "stage_status_of (JStr (stage_status_value s)) = Some s"
  by (simp add: stage_status_of_def stage_enum.enum_of_value)

section \<open>Pairs and candidates\<close>

record pair_key =
  pair_lineage :: string
  pair_instance :: string
  pair_replicate :: int

definition PairKey :: "pair_key \<Rightarrow> verify_error + pair_key" where
  "PairKey k =
     (if pair_lineage k = '''' \<or> pair_instance k = ''''
        then Inl (VerifyValue ''pair key requires lineage_id and instance_id'')
      else if pair_replicate k \<le> 0
        then Inl (VerifyValue ''pair key replicate must be a positive integer'')
      else Inr k)"

definition pair_dict :: "pair_key \<Rightarrow> json dict" where
  "pair_dict k = [(''lineage_id'', JStr (pair_lineage k)), (''instance_id'', JStr (pair_instance k)),
     (''replicate'', JInt (pair_replicate k))]"

record candidate_input =
  ci_campaign :: string
  ci_attempt :: string
  ci_pair :: pair_key
  ci_arm :: string
  ci_index :: int
  ci_slot :: string
  ci_status :: string
  ci_ast_hash :: "string option"
  ci_response_hash :: "string option"
  ci_candidate :: "candidate option"

definition CandidateInput :: "candidate_input \<Rightarrow> verify_error + candidate_input" where
  "CandidateInput c =
     (if ci_campaign c = '''' \<or> ci_attempt c = '''' \<or> ci_arm c = '''' \<or> ci_slot c = ''''
        then Inl (VerifyValue ''candidate identity is incomplete'')
      else if ci_index c < 0 then Inl (VerifyValue ''candidate slot_index must be non-negative'')
      else if ci_status c = ''candidate'' \<and> ci_candidate c = None
        then Inl (VerifyValue ''candidate slot is missing its candidate payload'')
      else if ci_status c \<noteq> ''candidate'' \<and> ci_candidate c \<noteq> None
        then Inl (VerifyValue ''non-candidate slot cannot carry candidate payload'')
      else Inr c)"

definition prefix_position :: "candidate_input \<Rightarrow> int" where
  "prefix_position c = ci_index c + 1"

section \<open>Stage results\<close>

record stage_result =
  stage_name :: string
  stage_state :: stage_status
  stage_reason :: "string option"
  stage_elapsed :: "json option"
  stage_evidence :: "json dict option"

text \<open>
  \<^verbatim>\<open>elapsed < 0\<close> for an integer, a Boolean or a float; a float is its text, negative when it has a
  minus sign and a digit other than zero (or is minus infinity).
\<close>

fun negative_number :: "json \<Rightarrow> bool" where
  "negative_number (JInt i) = (i < 0)"
| "negative_number (JFloat t) =
     (take 1 t = ''-'' \<and>
      list_ex (\<lambda>c. c \<in> set ''123456789I'') (takeWhile (\<lambda>c. c \<notin> set ''eE'') (drop 1 t)))"
| "negative_number _ = False"

fun is_number :: "json \<Rightarrow> bool" where
  "is_number (JInt i) = True"
| "is_number (JBool b) = True"
| "is_number (JFloat t) = True"
| "is_number _ = False"

definition StageResult :: "stage_result \<Rightarrow> verify_error + stage_result" where
  "StageResult s =
     (if stage_name s = '''' then Inl (VerifyValue ''stage name is required'')
      else if (case stage_elapsed s of None \<Rightarrow> False | Some v \<Rightarrow> negative_number v)
        then Inl (VerifyValue ''stage elapsed_seconds must be non-negative'')
      else if stage_state s = StagePassed \<and> stage_reason s \<noteq> None
        then Inl (VerifyValue ''passed stage cannot carry a failure reason'')
      else Inr s)"

definition stage_dict :: "stage_result \<Rightarrow> json" where
  "stage_dict s = JObj
     [(''stage'', JStr (stage_name s)), (''status'', JStr (stage_status_value (stage_state s))),
      (''reason'', option_json (stage_reason s)), (''elapsed_seconds'', json_option (stage_elapsed s)),
      (''evidence'', obj_option (stage_evidence s))]"

section \<open>Outcomes\<close>

record verification_outcome =
  vo_candidate :: candidate_input
  vo_stages :: "stage_result list"
  vo_violation :: "bool option"
  vo_holds :: "bool option"
  vo_relevance :: "bool option"
  vo_verified :: "bool option"
  vo_first_failure :: "string option"
  vo_cache_hit :: bool

definition required_stages :: "string list" where
  "required_stages = [''grounding'', ''symbolic_search'', ''witness_check'', ''independent_replay'']"

definition outcome_stage_status :: "stage_result list \<Rightarrow> string \<Rightarrow> stage_status" where
  "outcome_stage_status ss name =
     (case find (\<lambda>s. stage_name s = name) ss of None \<Rightarrow> StagePending | Some s \<Rightarrow> stage_state s)"

definition VerificationOutcome :: "verification_outcome \<Rightarrow> verify_error + verification_outcome" where
  "VerificationOutcome o' =
     (if \<not> distinct (map stage_name (vo_stages o'))
        then Inl (VerifyValue ''verification stages must be unique per candidate'')
      else if vo_verified o' = Some True \<and>
              \<not> list_all (\<lambda>n. outcome_stage_status (vo_stages o') n = StagePassed) required_stages
        then Inl (VerifyValue ''verified finding requires all required stages to pass'')
      else if vo_verified o' = Some True \<and> vo_violation o' \<noteq> Some True
        then Inl (VerifyValue ''verified finding requires candidate_violation=true'')
      else if vo_verified o' = Some True \<and> vo_holds o' \<noteq> Some False
        then Inl (VerifyValue ''verified finding requires property_holds=false'')
      else if vo_verified o' = Some True \<and> vo_relevance o' \<noteq> Some True
        then Inl (VerifyValue ''verified finding requires security_relevance=true'')
      else Inr o')"

definition availability :: "verification_outcome \<Rightarrow> string" where
  "availability o' =
     (if vo_verified o' = Some True then ''available''
      else if list_ex (\<lambda>s. stage_state s = StageTimeout) (vo_stages o') then ''timeout''
      else if list_ex (\<lambda>s. stage_state s = StageUnsupported) (vo_stages o') then ''unsupported''
      else ''unknown'')"

definition outcome_dict :: "verification_outcome \<Rightarrow> json dict" where
  "outcome_dict o' = (let c = vo_candidate o' in
     [(''schema_version'', JInt 1), (''record_type'', JStr ''verification_outcome''),
      (''campaign_id'', JStr (ci_campaign c)), (''attempt_id'', JStr (ci_attempt c)),
      (''arm'', JStr (ci_arm c)), (''instance_id'', JStr (pair_instance (ci_pair c))),
      (''lineage_id'', JStr (pair_lineage (ci_pair c))),
      (''replicate'', JInt (pair_replicate (ci_pair c))), (''slot_index'', JInt (ci_index c)),
      (''slot_id'', JStr (ci_slot c)), (''canonical_ast_hash'', option_json (ci_ast_hash c)),
      (''stages'', JArr (map stage_dict (vo_stages o'))),
      (''candidate_violation'', bool_option (vo_violation o')),
      (''property_holds'', bool_option (vo_holds o')),
      (''security_relevance'', bool_option (vo_relevance o')),
      (''verified_finding'', bool_option (vo_verified o')),
      (''availability'', JStr (availability o')),
      (''first_failure'', option_json (vo_first_failure o')),
      (''cache_hit'', JBool (vo_cache_hit o'))])"

text \<open>\<open>pystr\<close> is Python's \<^verbatim>\<open>str\<close> on a JSON value.\<close>

definition stage_from_dict :: "(json \<Rightarrow> string) \<Rightarrow> json \<Rightarrow> verify_error + stage_result" where
  "stage_from_dict pystr row = (case row of
       JObj d \<Rightarrow>
         (case dict_get d ''stage'' of
            None \<Rightarrow> Inl (VerifyKey ''stage'')
          | Some name \<Rightarrow>
              (case dict_get d ''status'' of
                 None \<Rightarrow> Inl (VerifyKey ''status'')
               | Some v \<Rightarrow>
                   (case stage_status_of v of
                      None \<Rightarrow> Inl (VerifyValue ''not a valid StageStatus'')
                    | Some status \<Rightarrow> StageResult
                        \<lparr>stage_name = pystr name, stage_state = status,
                         stage_reason = as_string (jget d ''reason''),
                         stage_elapsed = (if is_number (jget d ''elapsed_seconds'')
                                          then Some (jget d ''elapsed_seconds'') else None),
                         stage_evidence = as_object (jget d ''evidence'')\<rparr>)))
     | _ \<Rightarrow> Inl (VerifyValue ''cached verification stage must be an object''))"

definition outcome_from_dict ::
    "(json \<Rightarrow> string) \<Rightarrow> candidate_input \<Rightarrow> json dict \<Rightarrow> bool \<Rightarrow> verify_error + verification_outcome" where
  "outcome_from_dict pystr c d hit = (case jget d ''stages'' of
       JArr rows \<Rightarrow>
         bind_result (map_result (stage_from_dict pystr) rows) (\<lambda>stages.
           VerificationOutcome
             \<lparr>vo_candidate = c, vo_stages = stages,
              vo_violation = as_bool (jget d ''candidate_violation''),
              vo_holds = as_bool (jget d ''property_holds''),
              vo_relevance = as_bool (jget d ''security_relevance''),
              vo_verified = as_bool (jget d ''verified_finding''),
              vo_first_failure = as_string (jget d ''first_failure''), vo_cache_hit = hit\<rparr>)
     | _ \<Rightarrow> Inl (VerifyValue ''cached verification outcome has no stages''))"

section \<open>Inputs from a method run\<close>

definition required_input :: "json dict \<Rightarrow> string \<Rightarrow> string \<Rightarrow> verify_error + string" where
  "required_input row field fallback =
     (case (case dict_get row field of None \<Rightarrow> JStr fallback | Some v \<Rightarrow> v) of
        JStr s \<Rightarrow> if s = '''' then Inl (VerifyValue (field @ '' must be a non-empty string'')) else Inr s
      | _ \<Rightarrow> Inl (VerifyValue (field @ '' must be a non-empty string'')))"

definition optional_input :: "json \<Rightarrow> verify_error + string option" where
  "optional_input v = (case v of
       JNull \<Rightarrow> Inr None
     | JStr s \<Rightarrow> if s = '''' then Inl (VerifyValue ''optional hash fields must be non-empty strings'')
                else Inr (Some s)
     | _ \<Rightarrow> Inl (VerifyValue ''optional hash fields must be non-empty strings''))"

text \<open>
  The row of a slot is its \<^verbatim>\<open>as_dict\<close>, so a compiled invariant enters as its dictionary; the index
  of a row is an integer.
\<close>

definition input_from_slot ::
    "string \<Rightarrow> string \<Rightarrow> pair_key \<Rightarrow> string \<Rightarrow> nat \<Rightarrow> proposal_slot \<Rightarrow> verify_error + candidate_input" where
  "input_from_slot campaign attempt pair arm i s =
     (let row = slot_dict s in
      if jget row ''index'' \<noteq> JInt (int i) then Inl (VerifyValue ''proposal slot has non-canonical index'')
      else case jget row ''status'' of
        JStr status \<Rightarrow>
          if status = '''' then Inl (VerifyValue ''proposal slot has no status'')
          else
            bind_result (required_input row ''slot_id'' (attempt @ '':slot:'' @ string_of_nat i)) (\<lambda>sid.
            bind_result (optional_input (jget row ''canonical_ast_hash'')) (\<lambda>ast.
            bind_result (optional_input (jget row ''raw_response_hash'')) (\<lambda>h.
              CandidateInput
                \<lparr>ci_campaign = campaign, ci_attempt = attempt, ci_pair = pair, ci_arm = arm,
                 ci_index = int i, ci_slot = sid, ci_status = status, ci_ast_hash = ast,
                 ci_response_hash = h,
                 ci_candidate = (if status \<noteq> ''candidate'' \<or> jget row ''candidate'' = JNull then None
                                 else Some (Parsed (jget row ''candidate'')))\<rparr>)))
      | _ \<Rightarrow> Inl (VerifyValue ''proposal slot has no status''))"

definition candidates_from_method_run ::
    "method_run \<Rightarrow> string \<Rightarrow> pair_key \<Rightarrow> string \<Rightarrow> verify_error + candidate_input list" where
  "candidates_from_method_run run campaign pair arm =
     (if campaign = '''' \<or> arm = '''' then Inl (VerifyValue ''campaign_id and arm are required'')
      else if run_responses run \<noteq> [] \<and> length (run_responses run) \<noteq> length (run_slots run)
        then Inl (VerifyValue ''method run provider response count must match slot count'')
      else map_result (\<lambda>(i, s). input_from_slot campaign (run_attempt run) pair arm i s)
             (enumerate 0 (run_slots run)))"

section \<open>The runtime identity of a case\<close>

record runtime_spec =
  spec_case :: string
  spec_lineage :: string
  spec_instance :: string
  spec_source_hash :: string
  spec_build_hash :: string
  spec_deployment_hash :: string
  spec_profile_hash :: string
  spec_compiler_hash :: string
  spec_source :: string
  spec_destination :: string
  spec_actions :: "string list"
  spec_observations :: "string list"
  spec_addresses :: "string dict"
  spec_actors :: "string dict"
  spec_initial :: "json dict"
  spec_mode :: string
  spec_metadata :: "json dict option"

definition spec_hashes :: "runtime_spec \<Rightarrow> string list" where
  "spec_hashes s = [spec_source_hash s, spec_build_hash s, spec_deployment_hash s, spec_profile_hash s,
     spec_compiler_hash s]"

definition nonempty_pairs :: "string dict \<Rightarrow> bool" where
  "nonempty_pairs d = list_all (\<lambda>(k, v). k \<noteq> '''' \<and> v \<noteq> '''') d"

definition CaseRuntimeSpec :: "runtime_spec \<Rightarrow> verify_error + runtime_spec" where
  "CaseRuntimeSpec s =
     (if '''' \<in> {spec_case s, spec_lineage s, spec_instance s, spec_source s, spec_destination s}
        then Inl (VerifyValue ''runtime spec identity and domains are required'')
      else if spec_source s = spec_destination s
        then Inl (VerifyValue ''runtime spec domains must be distinct'')
      else if \<not> list_all sha_digest (spec_hashes s)
        then Inl (VerifyValue ''runtime spec hashes must be lowercase SHA-256 digests'')
      else if '''' \<in> set (spec_actions s) then Inl (VerifyValue ''supported_actions must contain non-empty strings'')
      else if \<not> distinct (spec_actions s)
        then Inl (VerifyValue ''supported_actions must not contain duplicates'')
      else if '''' \<in> set (spec_observations s)
        then Inl (VerifyValue ''observation_points must contain non-empty strings'')
      else if \<not> distinct (spec_observations s)
        then Inl (VerifyValue ''observation_points must not contain duplicates'')
      else if \<not> nonempty_pairs (spec_addresses s) \<or> \<not> nonempty_pairs (spec_actors s)
        then Inl (VerifyValue ''keys and values must be non-empty strings'')
      else if spec_mode s = '''' then Inl (VerifyValue ''runtime_mode must be a non-empty string'')
      else Inr s)"

definition string_dict :: "string dict \<Rightarrow> json" where
  "string_dict d = JObj (map (\<lambda>(k, v). (k, JStr v)) d)"

definition spec_payload :: "runtime_spec \<Rightarrow> json dict" where
  "spec_payload s =
     [(''case_id'', JStr (spec_case s)), (''lineage_id'', JStr (spec_lineage s)),
      (''instance_id'', JStr (spec_instance s)),
      (''source_artifact_hash'', JStr (spec_source_hash s)),
      (''build_manifest_hash'', JStr (spec_build_hash s)),
      (''deployment_hash'', JStr (spec_deployment_hash s)),
      (''profile_hash'', JStr (spec_profile_hash s)), (''compiler_hash'', JStr (spec_compiler_hash s)),
      (''source_domain'', JStr (spec_source s)), (''destination_domain'', JStr (spec_destination s)),
      (''supported_actions'', strings_json (spec_actions s)),
      (''observation_points'', strings_json (spec_observations s)),
      (''contract_addresses'', string_dict (spec_addresses s)), (''actors'', string_dict (spec_actors s)),
      (''initial_state'', JObj (spec_initial s)), (''runtime_mode'', JStr (spec_mode s)),
      (''metadata'', obj_option (spec_metadata s))]"

definition runtime_hash :: "(json \<Rightarrow> string) \<Rightarrow> runtime_spec \<Rightarrow> verify_error + string" where
  "runtime_hash sha s = (case candidate_identity sha (Parsed (JObj (spec_payload s))) of
       Inl _ \<Rightarrow> Inl (VerifyValue ''candidate cannot be assigned a deterministic identity'')
     | Inr (h, _) \<Rightarrow> Inr h)"

definition spec_dict :: "(json \<Rightarrow> string) \<Rightarrow> runtime_spec \<Rightarrow> verify_error + json" where
  "spec_dict sha s = bind_result (runtime_hash sha s) (\<lambda>h. Inr (JObj
     ([(''schema_version'', JInt 1), (''record_type'', JStr ''case_runtime_spec'')]
      @ spec_payload s @ [(''runtime_hash'', JStr h)])))"

end
