(* ===== verification/Verification_Bindings.thy ===== *)
theory Verification_Bindings
  imports Verification_Records
begin

text \<open>
  The runtime binding records (\<^verbatim>\<open>verification/runtime.py\<close>) and the cache of outcomes
  (\<^verbatim>\<open>verification/cache.py\<close>). Reading a case's bindings from artifact files is not modelled.
\<close>

section \<open>Symbol and action bindings\<close>

datatype binding_status =
  BindingBound | BindingMissing | BindingUnsupported | BindingAmbiguous | BindingInvalid

fun binding_status_value :: "binding_status \<Rightarrow> string" where
  "binding_status_value BindingBound = ''bound''"
| "binding_status_value BindingMissing = ''missing''"
| "binding_status_value BindingUnsupported = ''unsupported''"
| "binding_status_value BindingAmbiguous = ''ambiguous''"
| "binding_status_value BindingInvalid = ''invalid''"

record symbol_binding =
  sb_symbol :: string
  sb_type :: "string option"
  sb_domain :: string
  sb_contract :: string
  sb_location :: "string option"
  sb_states :: "string list"
  sb_slot :: "int option"
  sb_offset :: "int option"
  sb_getter :: "string option"
  sb_decode :: "string option"
  sb_status :: binding_status
  sb_reason :: "string option"
  sb_evidence :: "json dict option"

definition SymbolRuntimeBinding :: "symbol_binding \<Rightarrow> verify_error + symbol_binding" where
  "SymbolRuntimeBinding b =
     (if sb_symbol b = '''' \<or> sb_domain b = '''' \<or> sb_contract b = ''''
        then Inl (VerifyValue ''symbol binding identity is incomplete'')
      else if \<not> list_all (\<lambda>s. s \<in> {''pre'', ''post''}) (sb_states b)
        then Inl (VerifyValue ''symbol binding state must be pre or post'')
      else if \<not> distinct (sb_states b) then Inl (VerifyValue ''symbol binding states must be unique'')
      else if (case sb_slot b of None \<Rightarrow> False | Some n \<Rightarrow> n < 0)
        then Inl (VerifyValue ''symbol binding slot must be non-negative'')
      else if (case sb_offset b of None \<Rightarrow> False | Some n \<Rightarrow> n < 0 \<or> 32 \<le> n)
        then Inl (VerifyValue ''symbol binding offset must be a byte within a storage word'')
      else Inr b)"

definition symbol_executable :: "symbol_binding \<Rightarrow> bool" where
  "symbol_executable b = (sb_status b = BindingBound \<and> sb_location b \<notin> {None, Some ''''})"

definition symbol_binding_dict :: "symbol_binding \<Rightarrow> json" where
  "symbol_binding_dict b = JObj
     [(''symbol_id'', JStr (sb_symbol b)), (''symbol_type'', option_json (sb_type b)),
      (''domain'', JStr (sb_domain b)), (''contract'', JStr (sb_contract b)),
      (''location'', option_json (sb_location b)), (''state_locations'', strings_json (sb_states b)),
      (''slot'', int_option (sb_slot b)), (''offset_bytes'', int_option (sb_offset b)),
      (''getter'', option_json (sb_getter b)), (''decode_rule'', option_json (sb_decode b)),
      (''status'', JStr (binding_status_value (sb_status b))), (''reason'', option_json (sb_reason b)),
      (''evidence'', obj_option (sb_evidence b)), (''executable'', JBool (symbol_executable b))]"

record action_binding =
  ab_id :: string
  ab_action :: string
  ab_caller :: string
  ab_domain :: string
  ab_contract :: "string option"
  ab_function :: "string option"
  ab_signature :: "string option"
  ab_selector :: "string option"
  ab_encoder :: "json dict option"
  ab_value :: string
  ab_transition :: string
  ab_status :: binding_status
  ab_reason :: "string option"
  ab_evidence :: "json dict option"

text \<open>\<^verbatim>\<open>0x[0-9a-fA-F]{8}\<close>.\<close>

definition selector_text :: "string \<Rightarrow> bool" where
  "selector_text s = (length s = 10 \<and> take 2 s = ''0x'' \<and>
     list_all (\<lambda>c. c \<in> set ''0123456789abcdefABCDEF'') (drop 2 s))"

definition ActionRuntimeBinding :: "action_binding \<Rightarrow> verify_error + action_binding" where
  "ActionRuntimeBinding b =
     (if ab_id b = '''' \<or> ab_action b = '''' \<or> ab_caller b = '''' \<or> ab_domain b = ''''
        then Inl (VerifyValue ''action binding identity is incomplete'')
      else if (case ab_selector b of None \<Rightarrow> False | Some s \<Rightarrow> \<not> selector_text s)
        then Inl (VerifyValue ''action selector must be a four-byte hex value'')
      else Inr b)"

definition action_executable :: "action_binding \<Rightarrow> bool" where
  "action_executable b = (ab_status b = BindingBound \<and> ab_signature b \<noteq> None \<and> ab_selector b \<noteq> None)"

definition action_binding_dict :: "action_binding \<Rightarrow> json" where
  "action_binding_dict b = JObj
     [(''action_id'', JStr (ab_id b)), (''action'', JStr (ab_action b)),
      (''caller_role'', JStr (ab_caller b)), (''domain'', JStr (ab_domain b)),
      (''contract'', option_json (ab_contract b)), (''function_symbol_id'', option_json (ab_function b)),
      (''signature'', option_json (ab_signature b)), (''selector'', option_json (ab_selector b)),
      (''calldata_encoder'', obj_option (ab_encoder b)), (''value_policy'', JStr (ab_value b)),
      (''state_transition'', JStr (ab_transition b)),
      (''status'', JStr (binding_status_value (ab_status b))), (''reason'', option_json (ab_reason b)),
      (''evidence'', obj_option (ab_evidence b)), (''executable'', JBool (action_executable b))]"

section \<open>The bindings of a case\<close>

record case_bindings =
  cb_runtime :: runtime_spec
  cb_symbols :: "symbol_binding list"
  cb_actions :: "action_binding list"
  cb_missing :: "string list"
  cb_diagnostics :: "string list"

definition bound_symbol_count :: "case_bindings \<Rightarrow> nat" where
  "bound_symbol_count cb = length (filter (\<lambda>b. sb_status b = BindingBound) (cb_symbols cb))"

definition bound_action_count :: "case_bindings \<Rightarrow> nat" where
  "bound_action_count cb = length (filter (\<lambda>b. ab_status b = BindingBound) (cb_actions cb))"

definition executable_action_count :: "case_bindings \<Rightarrow> nat" where
  "executable_action_count cb = length (filter action_executable (cb_actions cb))"

definition bindings_status :: "case_bindings \<Rightarrow> string" where
  "bindings_status cb =
     (if cb_diagnostics cb \<noteq> [] then ''invalid''
      else if cb_symbols cb = [] \<and> cb_actions cb = [] then ''unsupported''
      else if bound_symbol_count cb \<noteq> 0 \<or> bound_action_count cb \<noteq> 0
        then (if cb_missing cb = [] then ''metadata_bound'' else ''partial'')
      else ''unsupported'')"

definition bindings_dict :: "(json \<Rightarrow> string) \<Rightarrow> case_bindings \<Rightarrow> verify_error + json" where
  "bindings_dict sha cb = bind_result (spec_dict sha (cb_runtime cb)) (\<lambda>spec. Inr (JObj
     [(''schema_version'', JInt 1), (''record_type'', JStr ''case_runtime_bindings''),
      (''case_id'', JStr (spec_case (cb_runtime cb))), (''lineage_id'', JStr (spec_lineage (cb_runtime cb))),
      (''instance_id'', JStr (spec_instance (cb_runtime cb))), (''runtime'', spec),
      (''status'', JStr (bindings_status cb)), (''missing_fields'', strings_json (cb_missing cb)),
      (''diagnostics'', strings_json (cb_diagnostics cb)),
      (''symbols'', JArr (map symbol_binding_dict (cb_symbols cb))),
      (''actions'', JArr (map action_binding_dict (cb_actions cb))),
      (''coverage'', JObj
        [(''symbol_total'', JInt (int (length (cb_symbols cb)))),
         (''symbol_bound'', JInt (int (bound_symbol_count cb))),
         (''action_total'', JInt (int (length (cb_actions cb)))),
         (''action_bound'', JInt (int (bound_action_count cb))),
         (''action_executable'', JInt (int (executable_action_count cb)))])]))"

text \<open>The counts of a binding matrix: the four known statuses first, at zero.\<close>

definition matrix_counts :: "case_bindings list \<Rightarrow> (string \<times> nat) list" where
  "matrix_counts cases = foldl (\<lambda>counts cb.
       dict_put (bindings_status cb)
         ((case dict_get counts (bindings_status cb) of None \<Rightarrow> 0 | Some n \<Rightarrow> n) + 1) counts)
     [(''metadata_bound'', 0), (''partial'', 0), (''unsupported'', 0), (''invalid'', 0)] cases"

section \<open>Cache keys\<close>

record cache_key =
  ck_runtime :: string
  ck_ast :: string
  ck_revision :: string
  ck_bounds :: string
  ck_replay :: "string option"
  ck_executor :: "string option"

definition optional_digest :: "string option \<Rightarrow> bool" where
  "optional_digest v = (case v of None \<Rightarrow> True | Some s \<Rightarrow> sha_digest s)"

definition VerificationCacheKey :: "cache_key \<Rightarrow> verify_error + cache_key" where
  "VerificationCacheKey k =
     (if \<not> list_all sha_digest [ck_runtime k, ck_ast k, ck_bounds k]
        then Inl (VerifyValue ''cache key hashes must be lowercase SHA-256 digests'')
      else if ck_revision k = '''' then Inl (VerifyValue ''adapter_revision is required'')
      else if \<not> optional_digest (ck_replay k)
        then Inl (VerifyValue ''replay_spec_hash must be a lowercase SHA-256 digest'')
      else if \<not> optional_digest (ck_executor k)
        then Inl (VerifyValue ''executor_spec_hash must be a lowercase SHA-256 digest'')
      else Inr k)"

definition key_dict :: "cache_key \<Rightarrow> json" where
  "key_dict k = JObj
     [(''case_runtime_hash'', JStr (ck_runtime k)), (''canonical_ast_hash'', JStr (ck_ast k)),
      (''adapter_revision'', JStr (ck_revision k)), (''bounds_hash'', JStr (ck_bounds k)),
      (''replay_spec_hash'', option_json (ck_replay k)),
      (''executor_spec_hash'', option_json (ck_executor k))]"

definition key_hash :: "(json \<Rightarrow> string) \<Rightarrow> cache_key \<Rightarrow> string" where
  "key_hash sha k = sha (key_dict k)"

section \<open>The cache\<close>

text \<open>
  The entries in memory and the entries of the file (\<open>None\<close> when there is no file). Whether a write
  succeeds is an argument; a failing one raises OSError and leaves both as they were.
\<close>

record file_cache =
  cache_entries :: "(string \<times> json dict) list"
  cache_file :: "(string \<times> json dict) list option"

definition cache_lookup :: "(json \<Rightarrow> string) \<Rightarrow> file_cache \<Rightarrow> cache_key \<Rightarrow> json dict option" where
  "cache_lookup sha fc k = dict_get (cache_entries fc) (key_hash sha k)"

definition cache_record :: "(json \<Rightarrow> string) \<Rightarrow> cache_key \<Rightarrow> json dict \<Rightarrow> json dict" where
  "cache_record sha k outcome =
     [(''schema_version'', JInt 1), (''record_type'', JStr ''verification_cache_entry''),
      (''cache_key'', key_dict k), (''cache_key_hash'', JStr (key_hash sha k)),
      (''outcome'', JObj outcome)]"

text \<open>\<^verbatim>\<open>{key: dict(entries[key]) for key in sorted(entries)}\<close>.\<close>

definition sorted_entries :: "(string \<times> json dict) list \<Rightarrow> (string \<times> json dict) list" where
  "sorted_entries es = sort_key fst es"

definition cache_persist ::
    "bool \<Rightarrow> (string \<times> json dict) list \<Rightarrow> file_cache \<Rightarrow> verify_error + file_cache" where
  "cache_persist writes es fc =
     (if writes then Inr (fc\<lparr>cache_file := Some (sorted_entries es)\<rparr>) else Inl VerifyDisk)"

text \<open>
  Python's \<^verbatim>\<open>==\<close> on JSON values: a Boolean is an integer, the order of a dictionary does not matter.
  Floats are compared by their printed text.
\<close>

lemma json_size_member:
  "x \<in> set xs \<Longrightarrow> size x \<le> size_list size xs"
  "(k, x) \<in> set d \<Longrightarrow> size x \<le> size_list (size_prod (\<lambda>_. 0) size) d"
  by (induction xs, auto) (induction d, auto)

function json_same :: "json \<Rightarrow> json \<Rightarrow> bool" where
  "json_same v w = (case (v, w) of
       (JArr xs, JArr ys) \<Rightarrow> length xs = length ys \<and> list_all (\<lambda>(x, y). json_same x y) (zip xs ys)
     | (JObj d, JObj e) \<Rightarrow> length d = length e \<and>
         list_all (\<lambda>kv. case map_of e (fst kv) of None \<Rightarrow> False | Some y \<Rightarrow> json_same (snd kv) y) d
     | _ \<Rightarrow> v = w \<or> number_value v \<noteq> None \<and> number_value v = number_value w)"
  by pat_completeness auto
termination
  by (relation "measure (\<lambda>(v, w). size v)")
     (auto simp: less_Suc_eq_le json_size_member dest!: set_zip_leftD)

declare json_same.simps [simp del]

definition cache_put ::
    "bool \<Rightarrow> (json \<Rightarrow> string) \<Rightarrow> cache_key \<Rightarrow> json dict \<Rightarrow> file_cache \<Rightarrow> verify_error + file_cache" where
  "cache_put writes sha k outcome fc =
     (let entry = cache_record sha k outcome in
      case dict_get (cache_entries fc) (key_hash sha k) of
        Some current \<Rightarrow>
          if \<not> json_same (JObj current) (JObj entry)
          then Inl (VerifyValue ''verification cache key already has a different outcome'')
          else Inr fc
      | None \<Rightarrow>
          let es = dict_put (key_hash sha k) entry (cache_entries fc)
          in bind_result (cache_persist writes es fc) (\<lambda>fc'. Inr (fc'\<lparr>cache_entries := es\<rparr>)))"

text \<open>Opening a cache on the parsed text of its file; \<open>None\<close> is a missing file.\<close>

definition load_entry :: "string \<times> json \<Rightarrow> verify_error + string \<times> json dict" where
  "load_entry kv = (case snd kv of
       JObj d \<Rightarrow>
         if \<not> sha_digest (fst kv) then Inl (VerifyValue ''verification cache contains an invalid entry'')
         else if jget d ''cache_key_hash'' \<noteq> JStr (fst kv)
           then Inl (VerifyValue ''verification cache key hash mismatch'')
         else Inr (fst kv, d)
     | _ \<Rightarrow> Inl (VerifyValue ''verification cache contains an invalid entry''))"

definition cache_load :: "json \<Rightarrow> verify_error + (string \<times> json dict) list" where
  "cache_load document = (case document of
       JObj d \<Rightarrow>
         if \<not> json_same (jget d ''schema_version'') (JInt 1) \<or>
            jget d ''record_type'' \<noteq> JStr ''verification_cache''
           then Inl (VerifyValue ''invalid verification cache header'')
         else (case jget d ''entries'' of
             JObj es \<Rightarrow> map_result load_entry es
           | _ \<Rightarrow> Inl (VerifyValue ''verification cache entries must be an object''))
     | _ \<Rightarrow> Inl (VerifyValue ''invalid verification cache header''))"

definition cache_document :: "(string \<times> json dict) list \<Rightarrow> json" where
  "cache_document es = JObj
     [(''schema_version'', JInt 1), (''record_type'', JStr ''verification_cache''),
      (''entries'', JObj (map (\<lambda>(k, r). (k, JObj r)) es))]"

definition FileVerificationCache :: "(string \<times> json dict) list option \<Rightarrow> verify_error + file_cache" where
  "FileVerificationCache disk = (case disk of
       None \<Rightarrow> Inr \<lparr>cache_entries = [], cache_file = None\<rparr>
     | Some es \<Rightarrow> bind_result (cache_load (cache_document es)) (\<lambda>loaded.
         Inr \<lparr>cache_entries = loaded, cache_file = Some es\<rparr>))"

end
