(* ===== verification/Verification_Adapter.thy ===== *)
theory Verification_Adapter
  imports Verification_Bindings Xlir_Pipeline "HOL-Library.Product_Lexorder"
begin

text \<open>
  From a proposal to a search request (\<^verbatim>\<open>verification/adapter.py\<close>): compile the candidate, resolve every
  symbol it reads against the case's bindings, lower it, and collect the executable actions.
  \<open>text_of\<close> gives the free-text message of a diagnostic, which the compiler's model leaves out.
\<close>

section \<open>The symbols an invariant reads\<close>

record symbol_reference =
  ref_symbol :: string
  ref_type :: value_type
  ref_domain :: string
  ref_state :: string

text \<open>\<^verbatim>\<open>found\<close>: keyed by symbol, state and domain; a later occurrence replaces the value.\<close>

fun collect_references ::
    "expr \<Rightarrow> ((string \<times> string \<times> string) \<times> symbol_reference) list
       \<Rightarrow> ((string \<times> string \<times> string) \<times> symbol_reference) list" where
  "collect_references (SymbolRef sid t dm st) found =
     dict_put (sid, st, dm) \<lparr>ref_symbol = sid, ref_type = t, ref_domain = dm, ref_state = st\<rparr> found"
| "collect_references (Unary op e t) found = collect_references e found"
| "collect_references (Temporal op e h t) found = collect_references e found"
| "collect_references (Binary op l r t) found = collect_references r (collect_references l found)"
| "collect_references (Quantifier op x xt lits e t) found = collect_references e found"
| "collect_references _ found = found"

definition symbol_references :: "expr \<Rightarrow> symbol_reference list" where
  "symbol_references e = map snd (sort_key fst (collect_references e []))"

section \<open>Resolving them\<close>

definition shown :: "string option \<Rightarrow> string" where
  "shown v = (case v of None \<Rightarrow> ''None'' | Some s \<Rightarrow> s)"

definition binding_failures :: "symbol_reference \<Rightarrow> symbol_binding \<Rightarrow> string list" where
  "binding_failures r b =
     (if sb_status b \<noteq> BindingBound
        then [''runtime_binding_'' @ binding_status_value (sb_status b) @ '':'' @ ref_symbol r @ '':'' @
              (case sb_reason b of None \<Rightarrow> ''unspecified''
               | Some s \<Rightarrow> if s = '''' then ''unspecified'' else s)]
      else
        (if sb_type b \<noteq> Some (value_type_name (ref_type r))
           then [''runtime_type_mismatch:'' @ ref_symbol r @ '':'' @ shown (sb_type b) @ '':'' @
                 value_type_name (ref_type r)] else []) @
        (if ref_domain r \<noteq> sb_domain b
           then [''runtime_domain_mismatch:'' @ ref_symbol r @ '':'' @ sb_domain b @ '':'' @ ref_domain r]
           else []) @
        (if ref_state r \<notin> set (sb_states b)
           then [''runtime_state_unavailable:'' @ ref_symbol r @ '':'' @ ref_state r] else []))"

text \<open>\<^verbatim>\<open>{item.symbol_id: item for item in case.symbols}\<close>: the last binding of a symbol counts.\<close>

definition binding_table :: "case_bindings \<Rightarrow> string \<rightharpoonup> symbol_binding" where
  "binding_table cb = map_of (rev (map (\<lambda>b. (sb_symbol b, b)) (cb_symbols cb)))"

fun resolve ::
    "(string \<rightharpoonup> symbol_binding) \<Rightarrow> symbol_reference list \<Rightarrow> symbol_binding list \<times> string list" where
  "resolve table [] = ([], [])"
| "resolve table (r # rs) =
     (let (resolved, failures) = resolve table rs in
      case table (ref_symbol r) of
        None \<Rightarrow> (resolved, (''missing_runtime_binding:'' @ ref_symbol r) # failures)
      | Some b \<Rightarrow> (b # resolved, binding_failures r b @ failures))"

section \<open>The adapter\<close>

datatype adapter_status =
  AdapterAbstained | AdapterInvalid | AdapterUnsupported | AdapterGrounded | AdapterReady

fun adapter_status_value :: "adapter_status \<Rightarrow> string" where
  "adapter_status_value AdapterAbstained = ''abstained''"
| "adapter_status_value AdapterInvalid = ''invalid''"
| "adapter_status_value AdapterUnsupported = ''unsupported''"
| "adapter_status_value AdapterGrounded = ''grounded''"
| "adapter_status_value AdapterReady = ''ready''"

record runtime_plan =
  rp_candidate :: candidate_input
  rp_status :: adapter_status
  rp_hash :: "string option"
  rp_invariant :: "invariant option"
  rp_bindings :: "symbol_binding list"
  rp_diagnostics :: "string list"
  rp_request :: "json dict option"
  rp_key :: "string option"

definition plan_executable :: "runtime_plan \<Rightarrow> bool" where
  "plan_executable p = (rp_status p = AdapterReady)"

definition plan_dict :: "runtime_plan \<Rightarrow> json dict" where
  "plan_dict p = (let c = rp_candidate p in
     [(''schema_version'', JInt 1), (''record_type'', JStr ''runtime_candidate_plan''),
      (''campaign_id'', JStr (ci_campaign c)), (''attempt_id'', JStr (ci_attempt c)),
      (''arm'', JStr (ci_arm c)), (''slot_index'', JInt (ci_index c)), (''slot_id'', JStr (ci_slot c)),
      (''status'', JStr (adapter_status_value (rp_status p))),
      (''canonical_ast_hash'', option_json (rp_hash p)),
      (''symbol_bindings'', JArr (map symbol_binding_dict (rp_bindings p))),
      (''diagnostics'', strings_json (rp_diagnostics p)),
      (''search_request'', obj_option (rp_request p)), (''cache_key'', option_json (rp_key p))])"

record candidate_adapter =
  ad_case :: case_bindings
  ad_compiler :: xlir_compiler
  ad_revision :: string
  ad_bounds :: "json dict"
  ad_replay :: "string option"
  ad_executor :: "string option"
  ad_deferred :: "string list"

definition deferrable_fields :: "string list" where
  "deferrable_fields = [''actor_addresses'', ''contract_addresses'']"

definition RuntimeCandidateAdapter ::
    "case_bindings \<Rightarrow> artifact_symbol list \<Rightarrow> int \<Rightarrow> string \<Rightarrow> json dict \<Rightarrow> string option
       \<Rightarrow> string option \<Rightarrow> string list \<Rightarrow> verify_error + candidate_adapter" where
  "RuntimeCandidateAdapter cb syms limit revision bounds replay executor deferred =
     (case from_symbols syms limit of
        Inl _ \<Rightarrow> Inl (VerifyValue ''symbol table or node limit is invalid'')
      | Inr C \<Rightarrow>
          if revision = '''' then Inl (VerifyValue ''adapter_revision is required'')
          else if \<not> set deferred \<subseteq> set deferrable_fields
            then Inl (VerifyValue ''unsupported deferred runtime fields'')
          else Inr \<lparr>ad_case = cb, ad_compiler = C, ad_revision = revision, ad_bounds = bounds,
                    ad_replay = replay, ad_executor = executor, ad_deferred = deferred\<rparr>)"

text \<open>\<^verbatim>\<open>sha256_hex\<close>: a float that is not finite raises ValueError.\<close>

definition hash_json :: "(json \<Rightarrow> string) \<Rightarrow> json \<Rightarrow> verify_error + string" where
  "hash_json sha v = (case sha256_hex sha v of
       None \<Rightarrow> Inl (VerifyValue ''Out of range float values are not JSON compliant'') | Some h \<Rightarrow> Inr h)"

text \<open>\<^verbatim>\<open>XLIRLowerer().lower\<close> on a trace length read from the bounds: only a positive integer is one.\<close>

definition lower_bounded ::
    "(json \<Rightarrow> string) \<Rightarrow> invariant \<Rightarrow> json dict \<Rightarrow> lower_exn + lowering_result" where
  "lower_bounded sha i bounds = (case jget bounds ''trace_length'' of
       JNull \<Rightarrow> lower sha i None
     | JInt n \<Rightarrow> lower sha i (Some n)
     | _ \<Rightarrow> Inr (lowering_failure ''$'' ''invalid_trace_length''))"

definition ir_dict :: "solver_ir \<Rightarrow> json" where
  "ir_dict x = JObj
     [(''schema_version'', JInt 1), (''invariant_id'', option_json (ir_invariant_id x)),
      (''root'', JStr (node_term (ir_root x))),
      (''nodes'', JArr (map (\<lambda>n. JObj
         [(''node_id'', JStr (node_id n)), (''xlir_path'', JStr (xlir_path n)),
          (''sort'', JStr (node_sort n)), (''term'', JStr (node_term n))]) (ir_nodes x))),
      (''source_map'', string_dict (source_map x)), (''symbol_names'', string_dict (ir_symbol_names x)),
      (''invariant_hash'', JStr (invariant_hash x)),
      (''trace_length'', int_option (map_option int (ir_trace_length x)))]"

definition diagnostic_text :: "(diagnostic \<Rightarrow> string) \<Rightarrow> diagnostic \<Rightarrow> string" where
  "diagnostic_text text_of d = diag_code d @ '':'' @ diag_path d @ '':'' @ text_of d"

definition search_request ::
    "candidate_adapter \<Rightarrow> invariant \<Rightarrow> solver_ir \<Rightarrow> symbol_binding list \<Rightarrow> action_binding list
       \<Rightarrow> json \<Rightarrow> string \<Rightarrow> string \<Rightarrow> json dict" where
  "search_request A i x resolved bound spec rhash ihash =
     (let s = cb_runtime (ad_case A) in
      [(''schema_version'', JInt 1), (''record_type'', JStr ''candidate_runtime_search_request''),
       (''execution_contract'', JObj
         [(''candidate_specific'', JBool True), (''source_backed'', JBool True),
          (''fresh_state_per_stage'', JBool True), (''predicate_semantics'', JStr ''xlir-lowered-v1'')]),
       (''lineage_id'', JStr (spec_lineage s)), (''case_id'', JStr (spec_case s)),
       (''instance_id'', JStr (spec_instance s)), (''runtime'', spec), (''runtime_hash'', JStr rhash),
       (''canonical_ast_hash'', JStr (canonical_hash i)), (''predicate'', as_dict (inv_body i)),
       (''predicate_lowering'', ir_dict x), (''symbol_bindings'', JArr (map symbol_binding_dict resolved)),
       (''actions'', JArr (map action_binding_dict bound)),
       (''executable_action_ids'', strings_json (map ab_id (filter action_executable bound))),
       (''unsupported_action_ids'', strings_json (map ab_id (filter (\<lambda>a. \<not> action_executable a) bound))),
       (''adapter_revision'', JStr (ad_revision A)), (''bounds'', JObj (ad_bounds A)),
       (''deferred_runtime_fields'', strings_json (sorted_unique (ad_deferred A))),
       (''replay_spec_hash'', option_json (ad_replay A)),
       (''executor_spec_hash'', option_json (ad_executor A)),
       (''artifact_hash'', JStr (spec_source_hash s)), (''deployment_hash'', JStr (spec_deployment_hash s)),
       (''initial_state_hash'', JStr ihash), (''source_domain'', JStr (spec_source s)),
       (''destination_domain'', JStr (spec_destination s)),
       (''observation_points'', strings_json (spec_observations s)),
       (''actors'', string_dict (spec_actors s)), (''initial_state'', JObj (spec_initial s))])"

text \<open>A plan without a request: everything but the ready and the partly grounded ones.\<close>

definition plain_plan ::
    "candidate_input \<Rightarrow> adapter_status \<Rightarrow> invariant option \<Rightarrow> symbol_binding list \<Rightarrow> string list
       \<Rightarrow> runtime_plan" where
  "plain_plan c status i resolved notes =
     \<lparr>rp_candidate = c, rp_status = status, rp_hash = map_option canonical_hash i, rp_invariant = i,
      rp_bindings = resolved, rp_diagnostics = notes, rp_request = None, rp_key = None\<rparr>"

definition adapt_lowered ::
    "(json \<Rightarrow> string) \<Rightarrow> candidate_adapter \<Rightarrow> candidate_input \<Rightarrow> invariant \<Rightarrow> symbol_binding list
       \<Rightarrow> solver_ir \<Rightarrow> verify_error + runtime_plan" where
  "adapt_lowered sha A c i resolved x =
     (let s = cb_runtime (ad_case A);
          bound = filter (\<lambda>a. ab_status a = BindingBound) (cb_actions (ad_case A));
          executable = filter action_executable bound in
      if bound = [] then Inr (plain_plan c AdapterUnsupported (Some i) resolved [''no_bound_runtime_actions''])
      else if executable = []
        then Inr (plain_plan c AdapterGrounded (Some i) resolved [''no_executable_runtime_actions''])
      else
        bind_result (spec_dict sha s) (\<lambda>spec.
        bind_result (runtime_hash sha s) (\<lambda>rhash.
        bind_result (hash_json sha (JObj (spec_initial s))) (\<lambda>ihash.
        bind_result (hash_json sha (JObj (ad_bounds A))) (\<lambda>bhash.
        bind_result (VerificationCacheKey
            \<lparr>ck_runtime = rhash, ck_ast = canonical_hash i, ck_revision = ad_revision A,
             ck_bounds = bhash, ck_replay = ad_replay A, ck_executor = ad_executor A\<rparr>) (\<lambda>k.
          Inr \<lparr>rp_candidate = c,
               rp_status = (if set (cb_missing (ad_case A)) \<subseteq> set (ad_deferred A)
                            then AdapterReady else AdapterGrounded),
               rp_hash = Some (canonical_hash i), rp_invariant = Some i, rp_bindings = resolved,
               rp_diagnostics = [],
               rp_request = Some (search_request A i x resolved bound spec rhash ihash),
               rp_key = Some (key_hash sha k)\<rparr>))))))"

definition adapt_invariant ::
    "(json \<Rightarrow> string) \<Rightarrow> (diagnostic \<Rightarrow> string) \<Rightarrow> candidate_adapter \<Rightarrow> candidate_input \<Rightarrow> invariant
       \<Rightarrow> verify_error + runtime_plan" where
  "adapt_invariant sha text_of A c i =
     (let (resolved, failures) = resolve (binding_table (ad_case A)) (symbol_references (inv_body i)) in
      if failures \<noteq> [] then Inr (plain_plan c AdapterUnsupported (Some i) resolved failures)
      else case lower_bounded sha i (ad_bounds A) of
        Inl _ \<Rightarrow> Inl VerifyLowering
      | Inr lowered \<Rightarrow>
          (case ir lowered of
             None \<Rightarrow> Inr (plain_plan c AdapterUnsupported (Some i) resolved
               (''xlir_lowering_failed'' # map (diagnostic_text text_of) (lower_diagnostics lowered)))
           | Some x \<Rightarrow>
               if lower_diagnostics lowered \<noteq> []
                 then Inr (plain_plan c AdapterUnsupported (Some i) resolved
                   (''xlir_lowering_failed'' # map (diagnostic_text text_of) (lower_diagnostics lowered)))
               else adapt_lowered sha A c i resolved x))"

definition adapt ::
    "(json \<Rightarrow> string) \<Rightarrow> (diagnostic \<Rightarrow> string) \<Rightarrow> candidate_adapter \<Rightarrow> candidate_input
       \<Rightarrow> verify_error + runtime_plan" where
  "adapt sha text_of A c =
     (if ci_status c \<noteq> ''candidate''
        then Inr (plain_plan c AdapterAbstained None [] [''proposal_slot_not_candidate''])
      else case ci_candidate c of
        None \<Rightarrow> Inr (plain_plan c AdapterAbstained None [] [''proposal_slot_not_candidate''])
      | Some (Compiled i) \<Rightarrow> adapt_invariant sha text_of A c i
      | Some (Parsed v) \<Rightarrow>
          (let r = compile sha (ad_compiler A) v in
           if abstained r
             then Inr (plain_plan c AdapterAbstained None [] [''proposal_explicitly_abstained''])
           else (case comp_invariant r of
               None \<Rightarrow> Inr (plain_plan c AdapterInvalid None [] (map (diagnostic_text text_of) (diagnostics r)))
             | Some i \<Rightarrow>
                 if diagnostics r \<noteq> []
                   then Inr (plain_plan c AdapterInvalid None [] (map (diagnostic_text text_of) (diagnostics r)))
                 else adapt_invariant sha text_of A c i)))"

end
