(* ===== verification/Verification_Pipeline.thy ===== *)
theory Verification_Pipeline
  imports Verification_Adapter
begin

text \<open>
  The shared verification pipeline (\<^verbatim>\<open>verification/pipeline.py\<close>) and its driver
  (\<^verbatim>\<open>verification/runner.py\<close>). A back end is a function of the plan that may raise or return
  something that is no stage result; the one that serves a call is an argument of that call, so a
  back end with a state of its own is covered too.
\<close>

section \<open>Back ends\<close>

datatype executor_result = ExecutorRaised string | ExecutorOther | ExecutorStage stage_result

type_synonym stage_executor = "runtime_plan \<Rightarrow> executor_result"

record executors =
  ex_search :: "stage_executor option"
  ex_witness :: "stage_executor option"
  ex_replay :: "stage_executor option"

definition downstream :: "string list" where
  "downstream = [''symbolic_search'', ''witness_check'', ''independent_replay'']"

definition executor_of :: "executors \<Rightarrow> string \<Rightarrow> stage_executor option" where
  "executor_of E name =
     (if name = ''symbolic_search'' then ex_search E
      else if name = ''witness_check'' then ex_witness E
      else if name = ''independent_replay'' then ex_replay E
      else None)"

text \<open>A stage result made by the pipeline itself, with a reason.\<close>

definition made_stage :: "string \<Rightarrow> stage_status \<Rightarrow> string \<Rightarrow> stage_result" where
  "made_stage name status reason =
     \<lparr>stage_name = name, stage_state = status, stage_reason = Some reason, stage_elapsed = None,
      stage_evidence = None\<rparr>"

definition run_stage :: "executors \<Rightarrow> string \<Rightarrow> runtime_plan \<Rightarrow> stage_result" where
  "run_stage E name p =
     (case executor_of E name of
        None \<Rightarrow> made_stage name StageUnsupported (name @ ''_executor_not_configured'')
      | Some execute \<Rightarrow>
          (case execute p of
             ExecutorRaised e \<Rightarrow> made_stage name StageCrash (name @ ''_executor_crash:'' @ e)
           | ExecutorOther \<Rightarrow> made_stage name StageCrash (name @ ''_executor_returned_invalid_result'')
           | ExecutorStage s \<Rightarrow>
               if stage_name s \<noteq> name
                 then made_stage name StageCrash (name @ ''_executor_stage_mismatch'')
               else s))"

section \<open>Grounding\<close>

fun join_notes :: "string list \<Rightarrow> string" where
  "join_notes [] = ''''"
| "join_notes [x] = x"
| "join_notes (x # xs) = x @ '';'' @ join_notes xs"

definition notes_or :: "string list \<Rightarrow> string \<Rightarrow> string" where
  "notes_or notes fallback = (if join_notes notes = '''' then fallback else join_notes notes)"

definition grounding_result :: "runtime_plan \<Rightarrow> stage_result" where
  "grounding_result p =
     (case rp_status p of
        AdapterAbstained \<Rightarrow> made_stage ''grounding'' StageNotApplicable ''proposal_abstained''
      | AdapterInvalid \<Rightarrow>
          made_stage ''grounding'' StageFailed (notes_or (rp_diagnostics p) ''xlir_invalid'')
      | AdapterUnsupported \<Rightarrow>
          made_stage ''grounding'' StageUnsupported
            (notes_or (rp_diagnostics p) ''runtime_binding_unsupported'')
      | _ \<Rightarrow>
          \<lparr>stage_name = ''grounding'', stage_state = StagePassed, stage_reason = None,
           stage_elapsed = None,
           stage_evidence = Some [(''canonical_ast_hash'', option_json (rp_hash p)),
             (''adapter_status'', JStr (adapter_status_value (rp_status p)))]\<rparr>)"

section \<open>The downstream stages\<close>

record evidence_values =
  ev_violation :: "bool option"
  ev_holds :: "bool option"
  ev_relevance :: "bool option"

definition no_values :: evidence_values where
  "no_values = \<lparr>ev_violation = None, ev_holds = None, ev_relevance = None\<rparr>"

definition updated_value :: "json dict \<Rightarrow> string \<Rightarrow> bool option \<Rightarrow> bool option" where
  "updated_value evidence field old =
     (case as_bool (jget evidence field) of None \<Rightarrow> old | Some b \<Rightarrow> Some b)"

definition read_evidence :: "stage_result \<Rightarrow> evidence_values \<Rightarrow> evidence_values" where
  "read_evidence s v = (case stage_evidence s of
       None \<Rightarrow> v
     | Some e \<Rightarrow>
         \<lparr>ev_violation = updated_value e ''candidate_violation'' (ev_violation v),
          ev_holds = updated_value e ''property_holds'' (ev_holds v),
          ev_relevance = updated_value e ''security_relevance'' (ev_relevance v)\<rparr>)"

definition skipped :: "string list \<Rightarrow> string \<Rightarrow> stage_result list" where
  "skipped names reason = map (\<lambda>n. made_stage n StageNotApplicable reason) names"

fun run_downstream ::
    "executors \<Rightarrow> runtime_plan \<Rightarrow> string list \<Rightarrow> evidence_values \<Rightarrow> stage_result list \<times> evidence_values" where
  "run_downstream E p [] v = ([], v)"
| "run_downstream E p (name # later) v =
     (let s = run_stage E name p; v' = read_evidence s v in
      if stage_state s \<noteq> StagePassed then (s # skipped later (name @ ''_not_passed''), v')
      else let (ss, v'') = run_downstream E p later v' in (s # ss, v''))"

definition run_stages :: "executors \<Rightarrow> runtime_plan \<Rightarrow> stage_result list \<times> evidence_values" where
  "run_stages E p =
     (let g = grounding_result p in
      if stage_state g \<noteq> StagePassed then (g # skipped downstream ''grounding_not_passed'', no_values)
      else if \<not> plan_executable p
        then (g # made_stage ''symbolic_search'' StageUnsupported ''runtime_binding_not_execution_ready''
                # skipped (tl downstream) ''symbolic_search_not_passed'', no_values)
      else let (ss, v) = run_downstream E p downstream no_values in (g # ss, v))"

definition first_failed_stage :: "stage_result list \<Rightarrow> string option" where
  "first_failed_stage ss =
     map_option stage_name (find (\<lambda>s. stage_state s \<notin> {StagePassed, StageNotApplicable}) ss)"

definition make_outcome :: "candidate_input \<Rightarrow> stage_result list \<times> evidence_values \<Rightarrow> verification_outcome" where
  "make_outcome c r = (case r of (ss, v) \<Rightarrow>
     \<lparr>vo_candidate = c, vo_stages = ss, vo_violation = ev_violation v, vo_holds = ev_holds v,
      vo_relevance = ev_relevance v,
      vo_verified =
        (if list_all (\<lambda>n. outcome_stage_status ss n = StagePassed) (''grounding'' # downstream)
         then Some (ev_violation v = Some True \<and> ev_holds v = Some False \<and> ev_relevance v = Some True)
         else None),
      vo_first_failure = first_failed_stage ss, vo_cache_hit = False\<rparr>)"

section \<open>Verification\<close>

record verification_pipeline =
  vp_adapter :: candidate_adapter
  vp_executor_spec :: "string option"

text \<open>The case, the executors' own spec hash and deferred fields are given to the constructor.\<close>

definition SharedVerificationPipeline ::
    "case_bindings \<Rightarrow> artifact_symbol list \<Rightarrow> string \<Rightarrow> json dict \<Rightarrow> string option \<Rightarrow> string option
       \<Rightarrow> string option \<Rightarrow> string list \<Rightarrow> verify_error + verification_pipeline" where
  "SharedVerificationPipeline cb syms revision bounds replay executor_spec own_spec deferred =
     bind_result (RuntimeCandidateAdapter cb syms 256 revision bounds replay None deferred) (\<lambda>A.
       Inr \<lparr>vp_adapter = A,
            vp_executor_spec = (if executor_spec = None then own_spec else executor_spec)\<rparr>)"

definition pipeline_key ::
    "(json \<Rightarrow> string) \<Rightarrow> verification_pipeline \<Rightarrow> runtime_plan \<Rightarrow> verify_error + cache_key option" where
  "pipeline_key sha P p =
     (case rp_hash p of
        None \<Rightarrow> Inr None
      | Some ast \<Rightarrow>
          bind_result (runtime_hash sha (cb_runtime (ad_case (vp_adapter P)))) (\<lambda>rhash.
          bind_result (hash_json sha (JObj (ad_bounds (vp_adapter P)))) (\<lambda>bhash.
          bind_result (VerificationCacheKey
              \<lparr>ck_runtime = rhash, ck_ast = ast, ck_revision = ad_revision (vp_adapter P),
               ck_bounds = bhash, ck_replay = ad_replay (vp_adapter P),
               ck_executor = vp_executor_spec P\<rparr>) (\<lambda>k. Inr (Some k)))))"

definition cached_outcome ::
    "(json \<Rightarrow> string) \<Rightarrow> (json \<Rightarrow> string) \<Rightarrow> candidate_input \<Rightarrow> cache_key option \<Rightarrow> file_cache option
       \<Rightarrow> verify_error + verification_outcome option" where
  "cached_outcome pystr sha c key cache =
     (case (key, cache) of
        (Some k, Some fc) \<Rightarrow>
          (case cache_lookup sha fc k of
             None \<Rightarrow> Inr None
           | Some entry \<Rightarrow>
               (case jget entry ''outcome'' of
                  JObj d \<Rightarrow> bind_result (outcome_from_dict pystr c d True) (\<lambda>o'. Inr (Some o'))
                | _ \<Rightarrow> Inl (VerifyValue ''verification cache entry has no outcome object'')))
      | _ \<Rightarrow> Inr None)"

definition store_outcome ::
    "bool \<Rightarrow> (json \<Rightarrow> string) \<Rightarrow> verification_outcome \<Rightarrow> cache_key option \<Rightarrow> file_cache option
       \<Rightarrow> verify_error + file_cache option" where
  "store_outcome writes sha o' key cache =
     (case (key, cache) of
        (Some k, Some fc) \<Rightarrow>
          bind_result (cache_put writes sha k (outcome_dict o') fc) (\<lambda>fc'. Inr (Some fc'))
      | _ \<Rightarrow> Inr cache)"

definition verify ::
    "(json \<Rightarrow> string) \<Rightarrow> bool \<Rightarrow> (json \<Rightarrow> string) \<Rightarrow> (diagnostic \<Rightarrow> string) \<Rightarrow> verification_pipeline
       \<Rightarrow> executors \<Rightarrow> candidate_input \<Rightarrow> file_cache option
       \<Rightarrow> verify_error + verification_outcome \<times> file_cache option" where
  "verify pystr writes sha text_of P E c cache =
     bind_result (adapt sha text_of (vp_adapter P) c) (\<lambda>p.
     bind_result (pipeline_key sha P p) (\<lambda>key.
     bind_result (cached_outcome pystr sha c key cache) (\<lambda>hit.
       case hit of
         Some o' \<Rightarrow> Inr (o', cache)
       | None \<Rightarrow>
           bind_result (VerificationOutcome (make_outcome c (run_stages E p))) (\<lambda>o'.
           bind_result (store_outcome writes sha o' key cache) (\<lambda>cache'. Inr (o', cache'))))))"

text \<open>\<^verbatim>\<open>verify_candidates\<close>: one pipeline for all of them, in order.\<close>

fun verify_candidates ::
    "(json \<Rightarrow> string) \<Rightarrow> (nat \<Rightarrow> bool) \<Rightarrow> (json \<Rightarrow> string) \<Rightarrow> (diagnostic \<Rightarrow> string) \<Rightarrow> verification_pipeline
       \<Rightarrow> (nat \<Rightarrow> executors) \<Rightarrow> nat \<Rightarrow> candidate_input list \<Rightarrow> file_cache option
       \<Rightarrow> verify_error + verification_outcome list \<times> file_cache option" where
  "verify_candidates pystr writes sha text_of P E n [] cache = Inr ([], cache)"
| "verify_candidates pystr writes sha text_of P E n (c # cs) cache =
     bind_result (verify pystr (writes n) sha text_of P (E n) c cache) (\<lambda>(o', cache1).
     bind_result (verify_candidates pystr writes sha text_of P E (Suc n) cs cache1) (\<lambda>(os, cache2).
       Inr (o' # os, cache2)))"

definition verify_method_run ::
    "(json \<Rightarrow> string) \<Rightarrow> (nat \<Rightarrow> bool) \<Rightarrow> (json \<Rightarrow> string) \<Rightarrow> (diagnostic \<Rightarrow> string) \<Rightarrow> verification_pipeline
       \<Rightarrow> (nat \<Rightarrow> executors) \<Rightarrow> method_run \<Rightarrow> string \<Rightarrow> pair_key \<Rightarrow> string \<Rightarrow> file_cache option
       \<Rightarrow> verify_error + verification_outcome list \<times> file_cache option" where
  "verify_method_run pystr writes sha text_of P E run campaign pair arm cache =
     bind_result (candidates_from_method_run run campaign pair arm) (\<lambda>cs.
       verify_candidates pystr writes sha text_of P E 0 cs cache)"

end
