(* ===== verification/Verification_Campaigns.thy ===== *)
theory Verification_Campaigns
  imports Verification_Pipeline
begin

text \<open>
  Archived and verified campaigns: \<^verbatim>\<open>CampaignArchive\<close> of \<^verbatim>\<open>verification/records.py\<close>, the campaign record of
  \<^verbatim>\<open>verification/metrics.py\<close>, and \<^verbatim>\<open>verify_method_campaign\<close> of \<^verbatim>\<open>verification/runner.py\<close>. \<open>pystr\<close> is Python's
  \<^verbatim>\<open>str\<close> on a JSON value.
\<close>

section \<open>Campaign archives\<close>

record campaign_archive =
  ca_campaign :: string
  ca_attempt :: string
  ca_pair :: pair_key
  ca_arm :: string
  ca_method :: string
  ca_backbone :: string
  ca_model_tag :: string
  ca_config_hash :: string
  ca_settings_hash :: string
  ca_pack_hash :: string
  ca_slots :: "json dict list"
  ca_responses :: "json dict list"
  ca_checks :: "json dict list"
  ca_raw :: "json dict"
  ca_path :: string

definition archive_identity :: "campaign_archive \<Rightarrow> string list" where
  "archive_identity a = [ca_campaign a, ca_attempt a, ca_arm a, ca_method a, ca_backbone a, ca_model_tag a,
     ca_config_hash a, ca_settings_hash a, ca_pack_hash a, ca_path a]"

definition archive_providerless :: "campaign_archive \<Rightarrow> bool" where
  "archive_providerless a \<longleftrightarrow> ca_method a = ''t0'' \<and> ca_responses a = [] \<and> ca_checks a = []"

definition CampaignArchive :: "campaign_archive \<Rightarrow> verify_error + campaign_archive" where
  "CampaignArchive a =
     (if list_ex (\<lambda>s. s = '''') (archive_identity a)
        then Inl (VerifyValue ''campaign archive identity is incomplete'')
      else if \<not> archive_providerless a \<and>
              (length (ca_slots a) \<noteq> length (ca_responses a) \<or> length (ca_slots a) \<noteq> length (ca_checks a))
        then Inl (VerifyValue ''archive slot collections must have equal length'')
      else if ca_slots a = [] then Inl (VerifyValue ''archive must contain at least one slot'')
      else Inr a)"

definition slot_count :: "campaign_archive \<Rightarrow> nat" where
  "slot_count a = length (ca_slots a)"

definition status_is :: "json \<Rightarrow> int \<Rightarrow> bool" where
  "status_is v n = (v = JInt n \<or> v = JFloat (string_of_int n @ ''.0''))"

definition provider_failure_count :: "campaign_archive \<Rightarrow> nat" where
  "provider_failure_count a = length (filter
     (\<lambda>r. jget r ''error'' \<noteq> JNull \<or> \<not> status_is (jget r ''http_status'') 200) (ca_responses a))"

definition candidate_count :: "campaign_archive \<Rightarrow> nat" where
  "candidate_count a = length (filter (\<lambda>s. jget s ''status'' = JStr ''candidate'') (ca_slots a))"

text \<open>\<^verbatim>\<open>str(d.get(key, fallback))\<close>.\<close>

definition text_or :: "(json \<Rightarrow> string) \<Rightarrow> json dict \<Rightarrow> string \<Rightarrow> string \<Rightarrow> string" where
  "text_or pystr d k fallback = (case dict_get d k of None \<Rightarrow> fallback | Some v \<Rightarrow> pystr v)"

definition archive_input ::
    "(json \<Rightarrow> string) \<Rightarrow> campaign_archive \<Rightarrow> nat \<Rightarrow> json dict \<Rightarrow> json dict \<Rightarrow> verify_error + candidate_input" where
  "archive_input pystr a i slot response = CandidateInput
     \<lparr>ci_campaign = ca_campaign a, ci_attempt = ca_attempt a, ci_pair = ca_pair a, ci_arm = ca_arm a,
      ci_index = int i, ci_slot = text_or pystr slot ''slot_id'' (ca_attempt a @ '':slot:'' @ string_of_nat i),
      ci_status = text_or pystr slot ''status'' ''invalid'',
      ci_ast_hash = as_string (jget slot ''canonical_ast_hash''),
      ci_response_hash = as_string (jget response ''response_hash''),
      ci_candidate = (if jget slot ''candidate'' = JNull then None else Some (Parsed (jget slot ''candidate'')))\<rparr>"

definition archive_inputs :: "(json \<Rightarrow> string) \<Rightarrow> campaign_archive \<Rightarrow> verify_error + candidate_input list" where
  "archive_inputs pystr a =
     (let responses = (if archive_providerless a then replicate (length (ca_slots a)) [] else ca_responses a)
      in map_result (\<lambda>(i, (slot, response)). archive_input pystr a i slot response)
           (enumerate 0 (zip (ca_slots a) responses)))"

text \<open>The identities of the candidates, as a set.\<close>

definition candidate_digests :: "(json \<Rightarrow> string) \<Rightarrow> candidate_input list \<Rightarrow> verify_error + string list" where
  "candidate_digests sha cs = map_result (\<lambda>c. case ci_candidate c of
       None \<Rightarrow> Inl (VerifyValue ''candidate cannot be assigned a deterministic identity'')
     | Some cand \<Rightarrow> (case candidate_identity sha cand of
          Inl _ \<Rightarrow> Inl (VerifyValue ''candidate cannot be assigned a deterministic identity'')
        | Inr (h, _) \<Rightarrow> Inr h))
     (filter (\<lambda>c. ci_status c = ''candidate'') cs)"

definition unique_candidate_count ::
    "(json \<Rightarrow> string) \<Rightarrow> (json \<Rightarrow> string) \<Rightarrow> campaign_archive \<Rightarrow> verify_error + nat" where
  "unique_candidate_count pystr sha a =
     bind_result (archive_inputs pystr a) (\<lambda>cs.
     bind_result (candidate_digests sha cs) (\<lambda>hs. Inr (length (remdups hs))))"

section \<open>Verified campaigns\<close>

datatype campaign_availability = CampaignAvailable | CampaignMissing | CampaignUnsupportedRuntime | CampaignUnknown

fun campaign_availability_value :: "campaign_availability \<Rightarrow> string" where
  "campaign_availability_value CampaignAvailable = ''available''"
| "campaign_availability_value CampaignMissing = ''missing''"
| "campaign_availability_value CampaignUnsupportedRuntime = ''unsupported''"
| "campaign_availability_value CampaignUnknown = ''unknown''"

record verification_campaign =
  vc_campaign :: string
  vc_arm :: string
  vc_pair :: pair_key
  vc_truth :: string
  vc_slots :: int
  vc_outcomes :: "verification_outcome list"
  vc_availability :: campaign_availability
  vc_missing :: "string option"
  vc_model :: string
  vc_family :: string
  vc_timing :: "json dict option"

definition outcome_slot :: "verification_outcome \<Rightarrow> string \<times> int" where
  "outcome_slot o' = (ci_campaign (vo_candidate o'), ci_index (vo_candidate o'))"

definition belongs :: "verification_campaign \<Rightarrow> verification_outcome \<Rightarrow> bool" where
  "belongs c o' \<longleftrightarrow> ci_campaign (vo_candidate o') = vc_campaign c \<and> ci_arm (vo_candidate o') = vc_arm c \<and>
     ci_pair (vo_candidate o') = vc_pair c"

text \<open>The loop over the outcomes: the first one that does not fit.\<close>

fun outcome_error :: "verification_campaign \<Rightarrow> verification_outcome list \<Rightarrow> string option" where
  "outcome_error c [] = None"
| "outcome_error c (o' # os) =
     (if \<not> belongs c o' then Some ''candidate outcome does not belong to campaign''
      else if vc_slots c \<le> ci_index (vo_candidate o') then Some ''candidate outcome slot exceeds campaign slot_count''
      else outcome_error c os)"

definition VerificationCampaign :: "verification_campaign \<Rightarrow> verify_error + verification_campaign" where
  "VerificationCampaign c =
     (if vc_campaign c = '''' \<or> vc_arm c = '''' \<or> vc_slots c \<le> 0
        then Inl (VerifyValue ''verification campaign identity and slot_count are required'')
      else if vc_truth c \<notin> {''positive'', ''negative'', ''unresolved''}
        then Inl (VerifyValue ''ground_truth must be positive, negative or unresolved'')
      else if \<not> distinct (map outcome_slot (vc_outcomes c))
        then Inl (VerifyValue ''duplicate candidate outcome would double count a slot'')
      else case outcome_error c (vc_outcomes c) of
          Some e \<Rightarrow> Inl (VerifyValue e)
        | None \<Rightarrow>
            if vc_availability c = CampaignAvailable \<and> vc_missing c \<noteq> None
              then Inl (VerifyValue ''available campaign cannot have a missing reason'')
            else if vc_availability c \<noteq> CampaignAvailable \<and> (vc_missing c = None \<or> vc_missing c = Some '''')
              then Inl (VerifyValue ''unavailable campaign requires a missing reason'')
            else Inr c)"

definition group_key :: "verification_campaign \<Rightarrow> string" where
  "group_key c = vc_arm c @ ''|'' @ vc_model c @ ''|'' @ vc_family c"

section \<open>From a method run to a campaign\<close>

definition response_failed :: "provider_response \<Rightarrow> bool" where
  "response_failed r \<longleftrightarrow> resp_error r \<noteq> None \<or> resp_status r \<noteq> JNull \<and> \<not> status_is (resp_status r) 200"

definition campaign_status_of_run ::
    "method_run \<Rightarrow> verification_outcome list \<Rightarrow> campaign_availability \<times> string option" where
  "campaign_status_of_run m os =
     (let statuses = map stage_state (concat (map vo_stages os)) in
      if list_ex response_failed (run_responses m)
        then (CampaignUnknown, Some ''provider_failure_or_partial_archive'')
      else if StageCrash \<in> set statuses then (CampaignUnknown, Some ''verification_stage_crash'')
      else if StageTimeout \<in> set statuses \<or> StageUnknown \<in> set statuses
        then (CampaignUnknown, Some ''verification_stage_incomplete'')
      else if StageUnsupported \<in> set statuses
        then (CampaignUnsupportedRuntime, Some ''runtime_or_backend_unsupported'')
      else (CampaignAvailable, None))"

definition verify_method_campaign ::
    "(json \<Rightarrow> string) \<Rightarrow> (nat \<Rightarrow> bool) \<Rightarrow> (json \<Rightarrow> string) \<Rightarrow> (diagnostic \<Rightarrow> string) \<Rightarrow> verification_pipeline
       \<Rightarrow> (nat \<Rightarrow> executors) \<Rightarrow> method_run \<Rightarrow> string \<Rightarrow> pair_key \<Rightarrow> string \<Rightarrow> string \<Rightarrow> string \<Rightarrow> string
       \<Rightarrow> file_cache option \<Rightarrow> verify_error + verification_campaign \<times> file_cache option" where
  "verify_method_campaign pystr writes sha text_of P E m campaign pair arm truth model family cache =
     bind_result (verify_method_run pystr writes sha text_of P E m campaign pair arm cache) (\<lambda>(os, cache').
       let (status, reason) = campaign_status_of_run m os in
       bind_result (VerificationCampaign
           \<lparr>vc_campaign = campaign, vc_arm = arm, vc_pair = pair, vc_truth = truth, vc_slots = int (length os),
            vc_outcomes = os, vc_availability = status, vc_missing = reason, vc_model = model,
            vc_family = family, vc_timing = None\<rparr>) (\<lambda>c. Inr (c, cache')))"

section \<open>A verified campaign is well formed\<close>

lemma outcome_error_None:
  "outcome_error c os = None \<longleftrightarrow> (\<forall>o' \<in> set os. belongs c o' \<and> ci_index (vo_candidate o') < vc_slots c)"
  by (induction os) (auto simp: not_le)

lemma campaign_reason:
  "campaign_status_of_run m os = (status, reason) \<Longrightarrow> (status = CampaignAvailable \<longleftrightarrow> reason = None) \<and> reason \<noteq> Some ''''"
  by (auto simp: campaign_status_of_run_def Let_def split: if_splits)

end
