(* ===== verification/Verification_Metrics.thy ===== *)
theory Verification_Metrics
  imports Verification_Campaigns "HOL-Library.Product_Lexorder"
begin

text \<open>
  The verification metrics with their denominators (\<^verbatim>\<open>verification/metrics.py\<close>). A proportion is the
  exact rational that the code's float division rounds. \<open>sha\<close> is the hash of a value's canonical JSON,
  \<open>repr\<close> Python's \<^verbatim>\<open>!r\<close> on a string.
\<close>

section \<open>Metrics\<close>

record metric =
  mt_value :: "rat option"
  mt_hits :: nat
  mt_known :: nat
  mt_total :: nat
  mt_missing :: nat
  mt_note :: "string option"

text \<open>\<open>secs\<close> is the JSON number of a float.\<close>

definition metric_dict :: "(rat \<Rightarrow> json) \<Rightarrow> metric \<Rightarrow> json" where
  "metric_dict secs m = JObj
     [(''value'', json_option (map_option secs (mt_value m))), (''hits'', JInt (int (mt_hits m))),
      (''known'', JInt (int (mt_known m))), (''total'', JInt (int (mt_total m))),
      (''missing'', JInt (int (mt_missing m))), (''note'', option_json (mt_note m))]"

definition proportion :: "nat \<Rightarrow> nat \<Rightarrow> rat option" where
  "proportion hits known = (if known = 0 then None else Some (of_nat hits / of_nat known))"

definition verified_hit :: "int \<Rightarrow> verification_campaign \<Rightarrow> bool" where
  "verified_hit prefix c =
     list_ex (\<lambda>o'. ci_index (vo_candidate o') < prefix \<and> vo_verified o' = Some True) (vc_outcomes c)"

definition campaign_available :: "verification_campaign \<Rightarrow> bool" where
  "campaign_available c = (vc_availability c = CampaignAvailable)"

definition prefix_metric :: "string \<Rightarrow> verification_campaign list \<Rightarrow> int \<Rightarrow> metric" where
  "prefix_metric empty_note rows prefix =
     (let known = filter campaign_available rows;
          hits = length (filter (verified_hit prefix) known)
      in \<lparr>mt_value = proportion hits (length known), mt_hits = hits, mt_known = length known,
          mt_total = length rows, mt_missing = length rows - length known,
          mt_note = (if known = [] then Some empty_note else None)\<rparr>)"

definition recall_metric :: "verification_campaign list \<Rightarrow> int \<Rightarrow> metric" where
  "recall_metric = prefix_metric ''no_available_campaigns''"

definition false_alert_metric :: "verification_campaign list \<Rightarrow> int \<Rightarrow> metric" where
  "false_alert_metric = prefix_metric ''no_available_negative_controls''"

definition fdp_metric :: "verification_campaign list \<Rightarrow> int \<Rightarrow> metric" where
  "fdp_metric rows prefix =
     (let known = filter (\<lambda>c. campaign_available c \<and> vc_truth c \<in> {''positive'', ''negative''}) rows;
          alerts = filter (verified_hit prefix) known;
          false_alerts = length (filter (\<lambda>c. vc_truth c = ''negative'') alerts)
      in \<lparr>mt_value = proportion false_alerts (length alerts), mt_hits = false_alerts,
          mt_known = length alerts, mt_total = length rows, mt_missing = length rows - length known,
          mt_note = (if alerts = [] then Some ''no_verified_alerts'' else None)\<rparr>)"

section \<open>Stage denominators\<close>

text \<open>Counting nested dictionaries, in the order of their keys.\<close>

definition count_by :: "(string \<times> string) list \<Rightarrow> (string \<times> (string \<times> nat) list) list" where
  "count_by events =
     map (\<lambda>s. (s, map (\<lambda>t. (t, count_list events (s, t)))
                     (sorted_unique (map snd (filter (\<lambda>e. fst e = s) events)))))
       (sorted_unique (map fst events))"

definition stage_events :: "verification_outcome list \<Rightarrow> (string \<times> string) list" where
  "stage_events os =
     concat (map (\<lambda>o'. map (\<lambda>s. (stage_name s, stage_status_value (stage_state s))) (vo_stages o')) os)"

definition campaign_events :: "verification_campaign \<Rightarrow> (string \<times> string) list" where
  "campaign_events c =
     (''campaign'', campaign_availability_value (vc_availability c)) # stage_events (vc_outcomes c)"

definition stage_denominators :: "verification_campaign list \<Rightarrow> (string \<times> (string \<times> nat) list) list" where
  "stage_denominators rows = count_by (concat (map campaign_events rows))"

definition dimensions :: "verification_campaign \<Rightarrow> string list" where
  "dimensions c =
     [''method='' @ vc_arm c, ''model='' @ vc_model c, ''arm='' @ vc_arm c,
      ''lineage='' @ pair_lineage (vc_pair c), ''property_family='' @ vc_family c, ''case_cohort='' @ vc_truth c]"

definition scope_name :: "string \<Rightarrow> int \<Rightarrow> string" where
  "scope_name dimension prefix = dimension @ ''|prefix='' @ string_of_int prefix"

definition scoped_events :: "int list \<Rightarrow> verification_campaign \<Rightarrow> (string \<times> string \<times> string) list" where
  "scoped_events prefixes c = concat (map (\<lambda>prefix.
     let selected = filter (\<lambda>o'. ci_index (vo_candidate o') < prefix) (vc_outcomes c) in
     concat (map (\<lambda>dimension. map (\<lambda>e. (scope_name dimension prefix, e))
       ((''campaign'', campaign_availability_value (vc_availability c)) # stage_events selected)) (dimensions c))) prefixes)"

definition scoped_stage_denominators ::
    "verification_campaign list \<Rightarrow> int list \<Rightarrow> (string \<times> (string \<times> (string \<times> nat) list) list) list" where
  "scoped_stage_denominators rows prefixes =
     (let events = concat (map (scoped_events prefixes) rows) in
      map (\<lambda>scope. (scope, count_by (map snd (filter (\<lambda>e. fst e = scope) events)))) (sorted_unique (map fst events)))"

section \<open>Paired effects\<close>

definition hit_value :: "bool \<Rightarrow> rat" where
  "hit_value b = (if b then 1 else 0)"

definition mean_of :: "rat list \<Rightarrow> rat" where
  "mean_of xs = sum_list xs / of_nat (length xs)"

text \<open>The campaign of an arm for a pair: the last one with this pair and arm.\<close>

definition arm_row :: "verification_campaign list \<Rightarrow> pair_key \<Rightarrow> string \<Rightarrow> verification_campaign option" where
  "arm_row rows pair arm = find (\<lambda>c. vc_pair c = pair \<and> vc_arm c = arm) (rev rows)"

definition pair_effect ::
    "verification_campaign list \<Rightarrow> string \<Rightarrow> string \<Rightarrow> int \<Rightarrow> pair_key \<Rightarrow> (string \<times> rat) option" where
  "pair_effect rows left right prefix pair = (case (arm_row rows pair left, arm_row rows pair right) of
       (Some l, Some r) \<Rightarrow>
         if \<not> campaign_available l \<or> \<not> campaign_available r \<or> vc_truth l \<noteq> vc_truth r then None
         else Some (pair_lineage pair, hit_value (verified_hit prefix l) - hit_value (verified_hit prefix r))
     | _ \<Rightarrow> None)"

definition contrast_effects :: "verification_campaign list \<Rightarrow> string \<Rightarrow> string \<Rightarrow> int \<Rightarrow> rat list" where
  "contrast_effects rows left right prefix =
     (let effects = List.map_filter (pair_effect rows left right prefix) (ordered_unique (map vc_pair rows))
      in map (\<lambda>lineage. mean_of (map snd (filter (\<lambda>e. fst e = lineage) effects))) (sorted_unique (map fst effects)))"

definition paired_effects ::
    "verification_campaign list \<Rightarrow> (string \<times> string) list \<Rightarrow> int list \<Rightarrow> (string \<times> (string \<times> rat list) list) list" where
  "paired_effects rows contrasts prefixes =
     foldl (\<lambda>result (left, right). dict_put (left @ ''-minus-'' @ right)
         (map (\<lambda>prefix. (string_of_int prefix, contrast_effects rows left right prefix)) prefixes) result) [] contrasts"

section \<open>The computation\<close>

definition metric_prefixes :: "int list \<Rightarrow> verify_error + int list" where
  "metric_prefixes values =
     (let result = ordered_unique values in
      if result = [] \<or> list_ex (\<lambda>v. v \<le> 0) result
        then Inl (VerifyValue ''verification prefixes must be positive integers'')
      else Inr result)"

fun pair_arms_error :: "(string \<Rightarrow> string) \<Rightarrow> int list \<Rightarrow> verification_campaign list \<Rightarrow> (pair_key \<times> string) list \<Rightarrow> string option" where
  "pair_arms_error repr prefixes [] known = None"
| "pair_arms_error repr prefixes (c # cs) known =
     (if list_ex (\<lambda>p. vc_slots c < p) prefixes
        then Some (''campaign '' @ repr (vc_campaign c) @ '' has slot_count '' @ string_of_int (vc_slots c) @ '', which is smaller than a requested prefix'')
      else if (vc_pair c, vc_arm c) \<in> set known
        then Some ''duplicate arm for matched pair would invalidate paired metrics''
      else pair_arms_error repr prefixes cs ((vc_pair c, vc_arm c) # known))"

definition validate_campaigns :: "(string \<Rightarrow> string) \<Rightarrow> verification_campaign list \<Rightarrow> int list \<Rightarrow> string option" where
  "validate_campaigns repr rows prefixes =
     (if \<not> distinct (map vc_campaign rows)
        then Some ''duplicate campaign_id would double count verification metrics''
      else pair_arms_error repr prefixes rows [])"

definition campaign_dict :: "verification_campaign \<Rightarrow> json" where
  "campaign_dict c = JObj
     [(''campaign_id'', JStr (vc_campaign c)), (''arm'', JStr (vc_arm c)), (''pair_key'', JObj (pair_dict (vc_pair c))),
      (''ground_truth'', JStr (vc_truth c)), (''slot_count'', JInt (vc_slots c)),
      (''availability'', JStr (campaign_availability_value (vc_availability c))),
      (''missing_reason'', option_json (vc_missing c)), (''model_tag'', JStr (vc_model c)),
      (''property_family'', JStr (vc_family c)), (''timing'', obj_option (vc_timing c)),
      (''outcomes'', JArr (map (\<lambda>o'. JObj (outcome_dict o')) (vc_outcomes c)))]"

definition campaign_input_hash ::
    "(json \<Rightarrow> string) \<Rightarrow> verification_campaign list \<Rightarrow> int list \<Rightarrow> verify_error + string" where
  "campaign_input_hash sha rows prefixes = hash_json sha (JObj
     [(''prefixes'', JArr (map JInt prefixes)), (''campaigns'', JArr (map campaign_dict rows))])"

record verification_metrics =
  vm_prefixes :: "int list"
  vm_groups :: "string list"
  vm_recall :: "(string \<times> (int \<times> metric) list) list"
  vm_false_alert :: "(string \<times> metric) list"
  vm_fdp :: "(string \<times> metric) list"
  vm_denominators :: "(string \<times> (string \<times> (string \<times> nat) list) list) list"
  vm_count :: nat
  vm_hash :: string
  vm_paired :: "(string \<times> (string \<times> rat list) list) list"
  vm_scoped :: "(string \<times> (string \<times> (string \<times> nat) list) list) list"

definition counts_json :: "(string \<times> (string \<times> nat) list) list \<Rightarrow> json" where
  "counts_json stages = JObj (map (\<lambda>(s, ts). (s, JObj (map (\<lambda>(t, n). (t, JInt (int n))) ts))) stages)"

definition metrics_dict :: "(rat \<Rightarrow> json) \<Rightarrow> verification_metrics \<Rightarrow> json" where
  "metrics_dict secs m = JObj
     [(''schema_version'', JInt 1), (''record_type'', JStr ''verification_metrics''),
      (''prefixes'', JArr (map JInt (vm_prefixes m))), (''groups'', strings_json (vm_groups m)),
      (''verified_recall'', JObj (map (\<lambda>(g, ms).
         (g, JObj (map (\<lambda>(p, x). (string_of_int p, metric_dict secs x)) ms))) (vm_recall m))),
      (''false_alert_rate'', JObj (map (\<lambda>(g, x). (g, metric_dict secs x)) (vm_false_alert m))),
      (''false_discovery_proportion'', JObj (map (\<lambda>(g, x). (g, metric_dict secs x)) (vm_fdp m))),
      (''stage_denominators'', JObj (map (\<lambda>(g, c). (g, counts_json c)) (vm_denominators m))),
      (''scoped_stage_denominators'', JObj (map (\<lambda>(g, c). (g, counts_json c)) (vm_scoped m))),
      (''campaign_count'', JInt (int (vm_count m))), (''input_hash'', JStr (vm_hash m)),
      (''paired_effects'', JObj (map (\<lambda>(n, ps). (n, JObj (map (\<lambda>(p, xs). (p, JArr (map secs xs))) ps))) (vm_paired m)))]"

definition row_key :: "verification_campaign \<Rightarrow> (string \<times> string \<times> int) \<times> string \<times> string" where
  "row_key c = ((pair_lineage (vc_pair c), pair_instance (vc_pair c), pair_replicate (vc_pair c)), vc_arm c, vc_campaign c)"

definition in_group :: "string \<Rightarrow> verification_campaign list \<Rightarrow> verification_campaign list" where
  "in_group g rows = filter (\<lambda>c. group_key c = g) rows"

definition with_truth :: "string \<Rightarrow> verification_campaign list \<Rightarrow> verification_campaign list" where
  "with_truth truth rows = filter (\<lambda>c. vc_truth c = truth) rows"

definition compute_verification_metrics ::
    "(string \<Rightarrow> string) \<Rightarrow> (json \<Rightarrow> string) \<Rightarrow> verification_campaign list \<Rightarrow> int list \<Rightarrow> (string \<times> string) list
       \<Rightarrow> verify_error + verification_metrics" where
  "compute_verification_metrics repr sha campaigns prefixes contrasts =
     bind_result (metric_prefixes prefixes) (\<lambda>ps.
       let rows = sort_key row_key campaigns in
       case validate_campaigns repr rows ps of
         Some e \<Rightarrow> Inl (VerifyValue e)
       | None \<Rightarrow>
           let groups = sorted_unique (map group_key rows) in
           bind_result (campaign_input_hash sha rows ps) (\<lambda>h. Inr
             \<lparr>vm_prefixes = ps, vm_groups = groups,
              vm_recall = map (\<lambda>g. (g, map (\<lambda>p. (p, recall_metric (with_truth ''positive'' (in_group g rows)) p)) ps)) groups,
              vm_false_alert = map (\<lambda>g. (g, false_alert_metric (with_truth ''negative'' (in_group g rows)) (last ps))) groups,
              vm_fdp = map (\<lambda>g. (g, fdp_metric (in_group g rows) (last ps))) groups,
              vm_denominators = map (\<lambda>g. (g, stage_denominators (in_group g rows))) groups,
              vm_count = length rows, vm_hash = h, vm_paired = paired_effects rows contrasts ps,
              vm_scoped = scoped_stage_denominators rows ps\<rparr>))"

section \<open>Means\<close>

lemma mean_of_range:
  assumes "xs \<noteq> []" "\<forall>x \<in> set xs. a \<le> x \<and> x \<le> b"
  shows "a \<le> mean_of xs \<and> mean_of xs \<le> b"
proof -
  have "a * of_nat (length xs) \<le> sum_list xs \<and> sum_list xs \<le> b * of_nat (length xs)"
    using assms(2) by (induction xs) (auto simp: algebra_simps)
  moreover have "0 < (of_nat (length xs) :: rat)" using assms(1) by simp
  ultimately show ?thesis by (simp add: mean_of_def pos_le_divide_eq pos_divide_le_eq)
qed

end
