(* ===== verification/Verification_Outcomes.thy ===== *)
theory Verification_Outcomes
  imports Verification_Pipeline "HOL-Library.Multiset"
begin

text \<open>
  What the parts of the pipeline guarantee: the shape of the stage list, what a ready plan has
  established about its invariant, and that the cache gives back what was stored.
\<close>

section \<open>The stages\<close>

lemma made_stage_sel [simp]:
  "stage_name (made_stage n st r) = n" "stage_state (made_stage n st r) = st"
  "stage_reason (made_stage n st r) = Some r" "stage_elapsed (made_stage n st r) = None"
  "stage_evidence (made_stage n st r) = None"
  by (simp_all add: made_stage_def)

lemma run_stage_name [simp]: "stage_name (run_stage E n p) = n"
  by (auto simp: run_stage_def split: option.split executor_result.split)

lemma grounding_name [simp]: "stage_name (grounding_result p) = ''grounding''"
  by (simp add: grounding_result_def split: adapter_status.split)

lemma skipped_names [simp]: "map stage_name (skipped ns r) = ns" "length (skipped ns r) = length ns"
  by (simp_all add: skipped_def comp_def)

lemma skipped_state [simp]: "s \<in> set (skipped ns r) \<Longrightarrow> stage_state s = StageNotApplicable"
  by (auto simp: skipped_def)

lemma run_downstream_names [simp]: "map stage_name (fst (run_downstream E p ns v)) = ns"
  by (induction E p ns v rule: run_downstream.induct) (auto simp: Let_def case_prod_beta)

lemma required_eq: "''grounding'' # downstream = required_stages"
  by (simp add: required_stages_def downstream_def)

lemma downstream_Cons: "''symbolic_search'' # tl downstream = downstream"
  by (simp add: downstream_def)

lemma run_stages_names [simp]: "map stage_name (fst (run_stages E p)) = required_stages"
  by (simp add: run_stages_def Let_def case_prod_beta required_eq downstream_Cons)

text \<open>A stage that does not pass makes every later one not applicable.\<close>

fun cut_off :: "stage_result list \<Rightarrow> bool" where
  "cut_off [] = True"
| "cut_off (s # ss) =
     (if stage_state s = StagePassed then cut_off ss
      else list_all (\<lambda>t. stage_state t = StageNotApplicable) ss)"

lemma cut_off_later:
  "cut_off ss \<Longrightarrow> i < j \<Longrightarrow> j < length ss \<Longrightarrow> stage_state (ss ! i) \<noteq> StagePassed \<Longrightarrow>
   stage_state (ss ! j) = StageNotApplicable"
proof (induction ss arbitrary: i j)
  case (Cons s ss)
  then obtain j' where j: "j = Suc j'" by (cases j) auto
  show ?case
  proof (cases i)
    case 0
    with Cons.prems j show ?thesis by (simp add: list_all_length)
  next
    case (Suc i')
    with Cons.prems j have "i' < j'" "j' < length ss" "stage_state (ss ! i') \<noteq> StagePassed" by simp_all
    moreover have "cut_off ss"
    proof (cases "stage_state s = StagePassed")
      case False
      with Cons.prems(1) have all: "list_all (\<lambda>t. stage_state t = StageNotApplicable) ss" by simp
      show ?thesis using all by (induction ss) auto
    qed (use Cons.prems in simp)
    ultimately show ?thesis using Cons.IH [of i' j'] j by simp
  qed
qed simp

lemma cut_off_skipped: "list_all (\<lambda>t. stage_state t = StageNotApplicable) (skipped ns r)"
  by (simp add: list_all_iff)

lemma run_downstream_cut_off: "cut_off (fst (run_downstream E p ns v))"
  by (induction E p ns v rule: run_downstream.induct)
     (auto simp: Let_def case_prod_beta cut_off_skipped)

lemma run_stages_cut_off: "cut_off (fst (run_stages E p))"
  using run_downstream_cut_off [of E p downstream no_values]
  by (auto simp: run_stages_def Let_def case_prod_beta cut_off_skipped)

section \<open>The outcome\<close>

lemma distinct_required: "distinct required_stages"
  by (simp add: required_stages_def)

lemma make_outcome_ok: "VerificationOutcome (make_outcome c (run_stages E p)) = Inr (make_outcome c (run_stages E p))"
proof -
  obtain ss v where r: "run_stages E p = (ss, v)" by fastforce
  from run_stages_names [of E p] have "map stage_name ss = required_stages" by (simp add: r)
  then show ?thesis
    using distinct_required by (auto simp: VerificationOutcome_def make_outcome_def r required_eq)
qed

lemma stage_status_nth:
  assumes "map stage_name ss = ns" "distinct ns" "i < length ns"
  shows "outcome_stage_status ss (ns ! i) = stage_state (ss ! i)"
proof -
  have "find (\<lambda>s. stage_name s = ns ! i) ss = Some (ss ! i)"
    unfolding find_Some_iff using assms
    using nth_eq_iff_index_eq [of "map stage_name ss" _ i] by (intro exI [of _ i]) force
  then show ?thesis by (simp add: outcome_stage_status_def)
qed

lemma all_passed_iff:
  assumes "map stage_name ss = required_stages"
  shows "list_all (\<lambda>n. outcome_stage_status ss n = StagePassed) required_stages \<longleftrightarrow>
    (\<forall>s \<in> set ss. stage_state s = StagePassed)"
proof -
  have "length ss = length required_stages" using assms by (metis length_map)
  then show ?thesis
    using stage_status_nth [OF assms distinct_required]
    by (auto simp: list_all_length all_set_conv_all_nth)
qed

lemma verify_uncached:
  assumes "adapt sha text_of (vp_adapter P) c = Inr p" "pipeline_key sha P p = Inr key"
  shows "verify pystr writes sha text_of P E c None = Inr (make_outcome c (run_stages E p), None)"
  using assms
  by (cases key) (simp_all add: verify_def cached_outcome_def store_outcome_def make_outcome_ok)

lemma verify_missing:
  assumes "adapt sha text_of (vp_adapter P) c = Inr p" "pipeline_key sha P p = Inr key"
    and "\<And>k fc. key = Some k \<Longrightarrow> cache = Some fc \<Longrightarrow> cache_lookup sha fc k = None"
    and "writes \<or> cache = None"
  shows "\<exists>cache'. verify pystr writes sha text_of P E c cache = Inr (make_outcome c (run_stages E p), cache') \<and>
    (cache' = None \<longleftrightarrow> cache = None)"
proof (cases "key = None \<or> cache = None")
  case True
  then have "cached_outcome pystr sha c key cache = Inr None" "store_outcome writes sha o' key cache = Inr cache" for o'
    by (auto simp: cached_outcome_def store_outcome_def split: option.split)
  with assms(1,2) show ?thesis by (simp add: verify_def make_outcome_ok)
next
  case False
  then obtain k fc where kf: "key = Some k" "cache = Some fc" by auto
  with assms(3) have "cache_lookup sha fc k = None" by blast
  with assms kf show ?thesis
    by (simp add: verify_def cached_outcome_def store_outcome_def make_outcome_ok cache_put_def
        cache_lookup_def cache_persist_def Let_def)
qed

lemma verify_uncached_Inr:
  assumes "verify pystr writes sha text_of P E c None = Inr (o', cache')"
  obtains p key where "adapt sha text_of (vp_adapter P) c = Inr p" "pipeline_key sha P p = Inr key"
    "o' = make_outcome c (run_stages E p)" "cache' = None"
proof -
  from assms obtain p key where pk: "adapt sha text_of (vp_adapter P) c = Inr p"
    "pipeline_key sha P p = Inr key"
    unfolding verify_def by (auto simp: result_simps)
  with assms verify_uncached [OF pk] that show thesis by auto
qed

text \<open>A run that passes every stage went through every back end.\<close>

lemma run_downstream_passed:
  assumes "\<forall>s \<in> set (fst (run_downstream E p ns v)). stage_state s = StagePassed" "n \<in> set ns"
  shows "\<exists>f s. executor_of E n = Some f \<and> f p = ExecutorStage s \<and> stage_name s = n \<and>
    stage_state s = StagePassed"
  using assms
proof (induction E p ns v rule: run_downstream.induct)
  case (2 E p name later v)
  let ?s = "run_stage E name p"
  let ?rest = "fst (run_downstream E p later (read_evidence ?s v))"
  from "2.prems"(1) have s: "stage_state ?s = StagePassed"
    by (auto simp: Let_def case_prod_beta split: if_splits)
  then have "fst (run_downstream E p (name # later) v) = ?s # ?rest"
    by (simp add: Let_def case_prod_beta)
  from "2.prems"(1) [unfolded this] have rest: "\<forall>s \<in> set ?rest. stage_state s = StagePassed" by simp
  show ?case
  proof (cases "n = name")
    case True
    with s show ?thesis
      by (auto simp: run_stage_def split: option.splits executor_result.splits if_splits)
  next
    case False
    with "2.prems"(2) have "n \<in> set later" by simp
    with "2.IH" [OF refl refl] s rest show ?thesis by simp
  qed
qed simp

lemma run_stages_passed:
  assumes "\<forall>s \<in> set (fst (run_stages E p)). stage_state s = StagePassed"
  shows "rp_status p = AdapterReady"
    and "n \<in> set downstream \<Longrightarrow> \<exists>f s. executor_of E n = Some f \<and> f p = ExecutorStage s \<and>
      stage_name s = n \<and> stage_state s = StagePassed"
proof -
  have g: "stage_state (grounding_result p) = StagePassed" and e: "plan_executable p"
    using assms by (auto simp: run_stages_def Let_def case_prod_beta split: if_splits)
  from e show "rp_status p = AdapterReady" by (simp add: plan_executable_def)
  from assms g e have "\<forall>s \<in> set (fst (run_downstream E p downstream no_values)). stage_state s = StagePassed"
    by (auto simp: run_stages_def Let_def case_prod_beta)
  then show "n \<in> set downstream \<Longrightarrow> \<exists>f s. executor_of E n = Some f \<and> f p = ExecutorStage s \<and>
      stage_name s = n \<and> stage_state s = StagePassed"
    by (rule run_downstream_passed)
qed

section \<open>The evidence the stages supplied\<close>

text \<open>
  What a list of stages says about a field, read off the list alone: the Booleans they give for
  it, in order, and the last of them, if there is one.
\<close>

definition supplied :: "string \<Rightarrow> stage_result \<Rightarrow> bool list" where
  "supplied field s = (case stage_evidence s of
       None \<Rightarrow> []
     | Some e \<Rightarrow> (case jget e field of JBool b \<Rightarrow> [b] | _ \<Rightarrow> []))"

definition last_supplied :: "string \<Rightarrow> stage_result list \<Rightarrow> bool option" where
  "last_supplied field ss =
     (let bs = concat (map (supplied field) ss) in if bs = [] then None else Some (List.last bs))"

definition newer :: "bool option \<Rightarrow> bool option \<Rightarrow> bool option" where
  "newer old new = (case new of None \<Rightarrow> old | Some b \<Rightarrow> Some b)"

lemma newer_simps [simp]: "newer None v = v" "newer v None = v"
  by (simp_all add: newer_def split: option.split)

lemma newer_assoc: "newer (newer u v) w = newer u (newer v w)"
  by (simp add: newer_def split: option.split)

lemma last_supplied_Nil [simp]: "last_supplied field [] = None"
  by (simp add: last_supplied_def)

lemma last_supplied_Cons:
  "last_supplied field (s # ss) = newer (last_supplied field [s]) (last_supplied field ss)"
  by (simp add: last_supplied_def newer_def Let_def)

lemma updated_value_newer:
  "stage_evidence s = Some e \<Longrightarrow> updated_value e field old = newer old (last_supplied field [s])"
  by (simp add: updated_value_def last_supplied_def supplied_def newer_def as_bool_def split: json.split)

lemma read_evidence_newer:
  "read_evidence s v =
     \<lparr>ev_violation = newer (ev_violation v) (last_supplied ''candidate_violation'' [s]),
      ev_holds = newer (ev_holds v) (last_supplied ''property_holds'' [s]),
      ev_relevance = newer (ev_relevance v) (last_supplied ''security_relevance'' [s])\<rparr>"
proof (cases "stage_evidence s")
  case None
  then show ?thesis by (simp add: read_evidence_def last_supplied_def supplied_def)
next
  case (Some e)
  then show ?thesis by (simp add: read_evidence_def updated_value_newer [OF Some])
qed

lemma last_supplied_skipped [simp]: "last_supplied field (skipped ns r) = None"
  by (simp add: last_supplied_def skipped_def supplied_def o_def)

lemma last_supplied_grounding [simp]:
  "last_supplied field [grounding_result p] = None"
  by (simp add: last_supplied_def supplied_def grounding_result_def option_json_def
      split: adapter_status.split option.split)

lemma run_downstream_evidence:
  "snd (run_downstream E p ns v) =
     \<lparr>ev_violation = newer (ev_violation v) (last_supplied ''candidate_violation'' (fst (run_downstream E p ns v))),
      ev_holds = newer (ev_holds v) (last_supplied ''property_holds'' (fst (run_downstream E p ns v))),
      ev_relevance = newer (ev_relevance v) (last_supplied ''security_relevance'' (fst (run_downstream E p ns v)))\<rparr>"
proof (induction E p ns v rule: run_downstream.induct)
  case (2 E p name later v)
  then show ?case
    by (simp add: Let_def case_prod_beta read_evidence_newer newer_assoc
        last_supplied_Cons [of _ "run_stage E name p" "skipped later x" for x]
        last_supplied_Cons [of _ "run_stage E name p" "fst (run_downstream E p later x)" for x])
qed simp

lemma run_stages_evidence:
  "snd (run_stages E p) =
     \<lparr>ev_violation = last_supplied ''candidate_violation'' (fst (run_stages E p)),
      ev_holds = last_supplied ''property_holds'' (fst (run_stages E p)),
      ev_relevance = last_supplied ''security_relevance'' (fst (run_stages E p))\<rparr>"
proof -
  have made: "last_supplied field (made_stage n st r # ss) = last_supplied field ss" for field n st r ss
    by (simp add: last_supplied_def supplied_def)
  have ground: "last_supplied field (grounding_result p # ss) = last_supplied field ss" for field ss
    using last_supplied_Cons [of field "grounding_result p" ss] by simp
  show ?thesis
  proof (cases "stage_state (grounding_result p) = StagePassed \<and> plan_executable p")
    case True
    then show ?thesis
      using run_downstream_evidence [of E p downstream no_values]
      by (simp add: run_stages_def Let_def case_prod_beta no_values_def ground)
  qed (auto simp: run_stages_def Let_def no_values_def ground made)
qed

lemma make_outcome_evidence:
  "vo_violation (make_outcome c (run_stages E p)) =
     last_supplied ''candidate_violation'' (vo_stages (make_outcome c (run_stages E p)))"
  "vo_holds (make_outcome c (run_stages E p)) =
     last_supplied ''property_holds'' (vo_stages (make_outcome c (run_stages E p)))"
  "vo_relevance (make_outcome c (run_stages E p)) =
     last_supplied ''security_relevance'' (vo_stages (make_outcome c (run_stages E p)))"
  using run_stages_evidence [of E p] by (simp_all add: make_outcome_def case_prod_beta)

text \<open>The later stages of a run that passes are what the back ends returned.\<close>

definition returned_by :: "executors \<Rightarrow> runtime_plan \<Rightarrow> string \<Rightarrow> stage_result \<Rightarrow> bool" where
  "returned_by E p n s \<longleftrightarrow>
     (\<exists>f. executor_of E n = Some f \<and> f p = ExecutorStage s \<and> stage_name s = n \<and> stage_state s = StagePassed)"

lemma run_downstream_returned:
  "\<forall>s \<in> set (fst (run_downstream E p ns v)). stage_state s = StagePassed \<Longrightarrow>
   list_all2 (returned_by E p) ns (fst (run_downstream E p ns v))"
proof (induction E p ns v rule: run_downstream.induct)
  case (2 E p name later v)
  let ?s = "run_stage E name p"
  have passed: "stage_state ?s = StagePassed"
    using 2(2) by (auto simp: Let_def case_prod_beta split: if_splits)
  then have r: "fst (run_downstream E p (name # later) v) = ?s # fst (run_downstream E p later (read_evidence ?s v))"
    by (simp add: Let_def case_prod_beta)
  have "returned_by E p name ?s"
    using passed by (auto simp: run_stage_def returned_by_def split: option.splits executor_result.splits if_splits)
  moreover have "list_all2 (returned_by E p) later (fst (run_downstream E p later (read_evidence ?s v)))"
    using 2(1) [OF refl refl] passed 2(2) unfolding r by simp
  ultimately show ?case unfolding r by simp
qed simp

text \<open>
  The stage of a back end that was called: what it returned, when that is a result for this stage; a
  crash when it raised or returned anything else; unsupported when there is none.
\<close>

definition answered_by :: "executors \<Rightarrow> runtime_plan \<Rightarrow> string \<Rightarrow> stage_result \<Rightarrow> bool" where
  "answered_by E p n s \<longleftrightarrow> (case executor_of E n of
       None \<Rightarrow> stage_state s = StageUnsupported
     | Some f \<Rightarrow> (if \<exists>r. f p = ExecutorStage r \<and> stage_name r = n then f p = ExecutorStage s
                  else stage_state s = StageCrash))"

lemma run_stage_answered: "answered_by E p n (run_stage E n p)"
  by (auto simp: answered_by_def run_stage_def split: option.split executor_result.split)

lemma run_downstream_called:
  "i < length ns \<Longrightarrow> \<forall>j < i. stage_state (fst (run_downstream E p ns v) ! j) = StagePassed \<Longrightarrow>
   fst (run_downstream E p ns v) ! i = run_stage E (ns ! i) p"
proof (induction E p ns v arbitrary: i rule: run_downstream.induct)
  case (2 E p name later v)
  let ?s = "run_stage E name p"
  have head: "fst (run_downstream E p (name # later) v) ! 0 = ?s" by (simp add: Let_def case_prod_beta)
  show ?case
  proof (cases i)
    case 0
    with head show ?thesis by simp
  next
    case (Suc i')
    with 2(3) head have passed: "stage_state ?s = StagePassed" by (metis zero_less_Suc)
    then have r: "fst (run_downstream E p (name # later) v) = ?s # fst (run_downstream E p later (read_evidence ?s v))"
      by (simp add: Let_def case_prod_beta)
    have earlier: "\<forall>j < i'. stage_state (fst (run_downstream E p later (read_evidence ?s v)) ! j) = StagePassed"
    proof (intro allI impI)
      fix j assume "j < i'"
      with 2(3) have "stage_state (fst (run_downstream E p (name # later) v) ! Suc j) = StagePassed"
        by (simp only: Suc Suc_less_eq)
      then show "stage_state (fst (run_downstream E p later (read_evidence ?s v)) ! j) = StagePassed"
        by (simp only: r nth_Cons_Suc)
    qed
    from 2(2) have "i' < length later" by (simp add: Suc)
    from 2(1) [OF refl refl _ this earlier] passed show ?thesis unfolding r Suc nth_Cons_Suc by blast
  qed
qed simp

lemma run_stages_answered:
  assumes "i < 3" "\<forall>j \<le> i. stage_state (fst (run_stages E p) ! j) = StagePassed"
  shows "if rp_status p = AdapterReady then answered_by E p (downstream ! i) (fst (run_stages E p) ! Suc i)
    else stage_state (fst (run_stages E p) ! Suc i) = StageUnsupported"
proof -
  have "fst (run_stages E p) ! 0 = grounding_result p" by (simp add: run_stages_def Let_def case_prod_beta)
  with assms(2) have g: "stage_state (grounding_result p) = StagePassed" by (metis le0)
  show ?thesis
  proof (cases "plan_executable p")
    case True
    with g have r: "fst (run_stages E p) = grounding_result p # fst (run_downstream E p downstream no_values)"
      by (simp add: run_stages_def Let_def case_prod_beta)
    have "\<forall>j < i. stage_state (fst (run_downstream E p downstream no_values) ! j) = StagePassed"
    proof (intro allI impI)
      fix j assume "j < i"
      with assms(2) have "stage_state (fst (run_stages E p) ! Suc j) = StagePassed" by simp
      then show "stage_state (fst (run_downstream E p downstream no_values) ! j) = StagePassed" by (simp add: r)
    qed
    with assms(1) run_downstream_called [of i downstream E p no_values] run_stage_answered True
    show ?thesis by (simp add: r downstream_def plan_executable_def)
  next
    case False
    with g have r: "fst (run_stages E p) = grounding_result p #
        made_stage ''symbolic_search'' StageUnsupported ''runtime_binding_not_execution_ready''
        # skipped (tl downstream) ''symbolic_search_not_passed''"
      by (simp add: run_stages_def Let_def)
    have "i = 0"
    proof (rule ccontr)
      assume "i \<noteq> 0"
      then have "Suc 0 \<le> i" by simp
      with assms(2) have "stage_state (fst (run_stages E p) ! Suc 0) = StagePassed" by blast
      then show False by (simp add: r)
    qed
    with False r show ?thesis by (simp add: plan_executable_def)
  qed
qed

lemma run_stages_returned:
  assumes "\<forall>s \<in> set (fst (run_stages E p)). stage_state s = StagePassed"
  shows "\<exists>ss. fst (run_stages E p) = grounding_result p # ss \<and> list_all2 (returned_by E p) downstream ss"
proof -
  have g: "stage_state (grounding_result p) = StagePassed" and e: "plan_executable p"
    using assms by (auto simp: run_stages_def Let_def case_prod_beta split: if_splits)
  then have r: "fst (run_stages E p) = grounding_result p # fst (run_downstream E p downstream no_values)"
    by (simp add: run_stages_def Let_def case_prod_beta)
  with assms run_downstream_returned [of E p downstream no_values] show ?thesis by auto
qed

section \<open>What a ready plan has established\<close>

definition bound_to :: "symbol_reference \<Rightarrow> symbol_binding \<Rightarrow> bool" where
  "bound_to r b \<longleftrightarrow> sb_symbol b = ref_symbol r \<and> sb_status b = BindingBound \<and>
     sb_type b = Some (value_type_name (ref_type r)) \<and> sb_domain b = ref_domain r \<and>
     ref_state r \<in> set (sb_states b)"

lemma binding_table_Some:
  "binding_table cb sid = Some b \<Longrightarrow> b \<in> set (cb_symbols cb) \<and> sb_symbol b = sid"
  by (auto simp: binding_table_def dest!: map_of_SomeD)

lemma resolve_bound:
  assumes "resolve (binding_table cb) rs = (res, [])" "r \<in> set rs"
  shows "\<exists>b \<in> set (cb_symbols cb). bound_to r b"
  using assms
proof (induction rs arbitrary: res)
  case (Cons a rs)
  obtain res' fs where rec: "resolve (binding_table cb) rs = (res', fs)" by fastforce
  with Cons.prems(1) obtain b where b: "binding_table cb (ref_symbol a) = Some b" "binding_failures a b = []"
    and fs: "fs = []"
    by (auto split: option.splits)
  show ?case
  proof (cases "r = a")
    case True
    from binding_table_Some [OF b(1)] have "b \<in> set (cb_symbols cb)" "sb_symbol b = ref_symbol a" by auto
    with b(2) True show ?thesis
      by (intro bexI [of _ b]) (auto simp: binding_failures_def bound_to_def split: if_splits)
  next
    case False
    with Cons.prems(2) Cons.IH rec fs show ?thesis by auto
  qed
qed simp

text \<open>Every symbol the expression reads is among its references.\<close>

definition reference_key :: "symbol_reference \<Rightarrow> string \<times> string \<times> string" where
  "reference_key r = (ref_symbol r, ref_state r, ref_domain r)"

lemma set_update_cases: "kv \<in> set (AList.update k v al) \<Longrightarrow> kv = (k, v) \<or> kv \<in> set al"
  by (induction al) (auto split: if_splits)

definition keyed :: "((string \<times> string \<times> string) \<times> symbol_reference) list \<Rightarrow> bool" where
  "keyed found \<longleftrightarrow> (\<forall>kv \<in> set found. fst kv = reference_key (snd kv))"

lemma collect_references_keyed: "keyed found \<Longrightarrow> keyed (collect_references e found)"
proof (induction e found rule: collect_references.induct)
  case (1 sid t dm st found)
  then show ?case by (auto simp: keyed_def reference_key_def dest!: set_update_cases)
qed simp_all

lemma collect_references_dom:
  "fst ` set (collect_references e found) = fst ` set found \<union> symbol_keys e"
proof (induction e found rule: collect_references.induct)
  case (1 sid t dm st found)
  show ?case
    using dom_update [of "(sid, st, dm)" "\<lparr>ref_symbol = sid, ref_type = t, ref_domain = dm, ref_state = st\<rparr>" found]
    by simp
qed auto

lemma symbol_references_keys: "reference_key ` set (symbol_references e) = symbol_keys e"
proof -
  have "keyed (collect_references e [])" by (rule collect_references_keyed) (simp add: keyed_def)
  then have "(reference_key \<circ> snd) ` set (collect_references e []) = fst ` set (collect_references e [])"
    by (intro image_cong) (simp_all add: keyed_def)
  then show ?thesis by (simp add: collect_references_dom symbol_references_def image_image)
qed

lemma adapt_lowered_ready:
  assumes "adapt_lowered sha A c i resolved x = Inr p" "rp_status p = AdapterReady"
  shows "rp_invariant p = Some i" "\<exists>a \<in> set (cb_actions (ad_case A)). action_executable a"
    and "set (cb_missing (ad_case A)) \<subseteq> set (ad_deferred A)"
  using assms
  by (auto simp: adapt_lowered_def plain_plan_def Let_def result_simps filter_empty_conv split: if_splits)

lemma adapt_invariant_ready:
  assumes "adapt_invariant sha text_of A c i = Inr p" "rp_status p = AdapterReady"
  shows "rp_invariant p = Some i" "\<exists>a \<in> set (cb_actions (ad_case A)). action_executable a"
    and "set (cb_missing (ad_case A)) \<subseteq> set (ad_deferred A)"
    and "\<forall>r \<in> set (symbol_references (inv_body i)). \<exists>b \<in> set (cb_symbols (ad_case A)). bound_to r b"
    and "\<exists>x. lower_bounded sha i (ad_bounds A) = Inr \<lparr>ir = Some x, lower_diagnostics = []\<rparr>"
proof -
  obtain res fs where r: "resolve (binding_table (ad_case A)) (symbol_references (inv_body i)) = (res, fs)"
    by fastforce
  from assms r have fs: "fs = []" by (auto simp: adapt_invariant_def plain_plan_def split: if_splits)
  from assms r fs obtain low where low: "lower_bounded sha i (ad_bounds A) = Inr low"
    by (auto simp: adapt_invariant_def split: sum.splits)
  from assms r fs low obtain x where x: "ir low = Some x" "lower_diagnostics low = []"
    and p: "adapt_lowered sha A c i res x = Inr p"
    by (auto simp: adapt_invariant_def plain_plan_def split: option.splits if_splits)
  from adapt_lowered_ready [OF p assms(2)]
  show "rp_invariant p = Some i" "\<exists>a \<in> set (cb_actions (ad_case A)). action_executable a"
    "set (cb_missing (ad_case A)) \<subseteq> set (ad_deferred A)" by auto
  from resolve_bound [OF r [unfolded fs]]
  show "\<forall>r \<in> set (symbol_references (inv_body i)). \<exists>b \<in> set (cb_symbols (ad_case A)). bound_to r b" by blast
  from low x show "\<exists>x. lower_bounded sha i (ad_bounds A) = Inr \<lparr>ir = Some x, lower_diagnostics = []\<rparr>"
    by (intro exI [of _ x]) (cases low, simp)
qed

text \<open>Where the invariant of a plan comes from.\<close>

definition candidate_source :: "(json \<Rightarrow> string) \<Rightarrow> xlir_compiler \<Rightarrow> candidate_input \<Rightarrow> invariant \<Rightarrow> bool" where
  "candidate_source sha C c i \<longleftrightarrow> ci_status c = ''candidate'' \<and>
     (ci_candidate c = Some (Compiled i) \<or>
      (\<exists>v. ci_candidate c = Some (Parsed v) \<and> comp_invariant (compile sha C v) = Some i))"

lemma adapt_ready:
  assumes "adapt sha text_of A c = Inr p" "rp_status p = AdapterReady"
  obtains i where "candidate_source sha (ad_compiler A) c i" "adapt_invariant sha text_of A c i = Inr p"
  using assms that
  by (auto simp: adapt_def candidate_source_def plain_plan_def Let_def
      split: if_splits option.splits candidate.splits)

section \<open>Outcomes survive the cache\<close>

definition stage_valid :: "stage_result \<Rightarrow> bool" where
  "stage_valid s \<longleftrightarrow> StageResult s = Inr s \<and>
     (case stage_elapsed s of None \<Rightarrow> True | Some v \<Rightarrow> is_number v)"

lemma stage_from_dict_stage_dict:
  assumes "stage_valid s" "\<forall>x. pystr (JStr x) = x"
  shows "stage_from_dict pystr (stage_dict s) = Inr s"
proof -
  have "StageResult s = Inr s" using assms(1) by (simp add: stage_valid_def)
  with assms show ?thesis
    by (cases s, cases "stage_elapsed s")
       (simp_all add: stage_from_dict_def stage_dict_def stage_valid_def json_option_def)
qed

lemma stages_from_dicts:
  assumes "\<forall>x. pystr (JStr x) = x"
  shows "\<forall>s \<in> set ss. stage_valid s \<Longrightarrow> map_result (stage_from_dict pystr) (map stage_dict ss) = Inr ss"
  by (induction ss) (simp_all add: stage_from_dict_stage_dict [OF _ assms])

lemma VerificationOutcome_relabel:
  "VerificationOutcome o' = Inr o' \<Longrightarrow>
   VerificationOutcome (o'\<lparr>vo_candidate := c, vo_cache_hit := hit\<rparr>) = Inr (o'\<lparr>vo_candidate := c, vo_cache_hit := hit\<rparr>)"
  by (simp add: VerificationOutcome_def split: if_splits)

lemma outcome_from_dict_outcome_dict:
  assumes "VerificationOutcome o' = Inr o'" "\<forall>s \<in> set (vo_stages o'). stage_valid s"
    and "\<forall>x. pystr (JStr x) = x"
  shows "outcome_from_dict pystr c (outcome_dict o') hit = Inr (o'\<lparr>vo_candidate := c, vo_cache_hit := hit\<rparr>)"
proof -
  note stages = stages_from_dicts [OF assms(3,2)]
  have fields: "jget (outcome_dict o') ''stages'' = JArr (map stage_dict (vo_stages o'))"
    "jget (outcome_dict o') ''candidate_violation'' = bool_option (vo_violation o')"
    "jget (outcome_dict o') ''property_holds'' = bool_option (vo_holds o')"
    "jget (outcome_dict o') ''security_relevance'' = bool_option (vo_relevance o')"
    "jget (outcome_dict o') ''verified_finding'' = bool_option (vo_verified o')"
    "jget (outcome_dict o') ''first_failure'' = option_json (vo_first_failure o')"
    by (simp_all add: outcome_dict_def Let_def)
  have "o'\<lparr>vo_candidate := c, vo_cache_hit := hit\<rparr> =
      \<lparr>vo_candidate = c, vo_stages = vo_stages o', vo_violation = vo_violation o', vo_holds = vo_holds o',
       vo_relevance = vo_relevance o', vo_verified = vo_verified o',
       vo_first_failure = vo_first_failure o', vo_cache_hit = hit\<rparr>"
    by (cases o') simp
  with VerificationOutcome_relabel [OF assms(1), of hit c] show ?thesis
    by (simp add: outcome_from_dict_def fields stages)
qed

definition executors_valid :: "executors \<Rightarrow> runtime_plan \<Rightarrow> bool" where
  "executors_valid E p \<longleftrightarrow> (\<forall>n f s. executor_of E n = Some f \<and> f p = ExecutorStage s \<longrightarrow> stage_valid s)"

lemma made_stage_valid: "n \<noteq> '''' \<Longrightarrow> st \<noteq> StagePassed \<Longrightarrow> stage_valid (made_stage n st r)"
  by (simp add: stage_valid_def StageResult_def)

lemma run_stage_valid: "executors_valid E p \<Longrightarrow> n \<noteq> '''' \<Longrightarrow> stage_valid (run_stage E n p)"
  by (auto simp: run_stage_def executors_valid_def made_stage_valid split: option.split executor_result.split)

lemma grounding_valid: "stage_valid (grounding_result p)"
  by (auto simp: grounding_result_def made_stage_valid split: adapter_status.split)
     (simp_all add: stage_valid_def StageResult_def)

lemma skipped_valid: "s \<in> set (skipped ns r) \<Longrightarrow> '''' \<notin> set ns \<Longrightarrow> stage_valid s"
  by (auto simp: skipped_def intro: made_stage_valid)

lemma run_downstream_valid:
  assumes "executors_valid E p" "'''' \<notin> set ns"
  shows "\<forall>s \<in> set (fst (run_downstream E p ns v)). stage_valid s"
  using assms
proof (induction E p ns v rule: run_downstream.induct)
  case (2 E p name later v)
  then show ?case
    using run_stage_valid [of E p name] skipped_valid [of _ later]
    by (auto simp: Let_def case_prod_beta)
qed simp

lemma run_stages_valid:
  assumes "executors_valid E p"
  shows "\<forall>s \<in> set (fst (run_stages E p)). stage_valid s"
proof -
  have "'''' \<notin> set downstream" "'''' \<notin> set (tl downstream)" by (simp_all add: downstream_def)
  with assms grounding_valid [of p] run_downstream_valid [of E p downstream no_values] skipped_valid show ?thesis
    by (auto simp: run_stages_def Let_def case_prod_beta intro: made_stage_valid)
qed

section \<open>The cache keeps what it was given\<close>

definition cache_ok :: "file_cache \<Rightarrow> bool" where
  "cache_ok fc \<longleftrightarrow> distinct (map fst (cache_entries fc)) \<and>
     (\<forall>(k, r) \<in> set (cache_entries fc). load_entry (k, JObj r) = Inr (k, r)) \<and>
     cache_file fc = (if cache_entries fc = [] then None else Some (sorted_entries (cache_entries fc)))"

lemma sorted_entries_facts [simp]:
  "set (sorted_entries es) = set es" "distinct (map fst (sorted_entries es)) \<longleftrightarrow> distinct (map fst es)"
proof -
  show s: "set (sorted_entries es) = set es" by (simp add: sorted_entries_def)
  have "mset (map fst (sorted_entries es)) = mset (map fst es)" by (simp only: sorted_entries_def mset_map mset_sort)
  then show "distinct (map fst (sorted_entries es)) \<longleftrightarrow> distinct (map fst es)"
    by (rule mset_eq_imp_distinct_iff)
qed

lemma map_of_sorted_entries:
  "distinct (map fst es) \<Longrightarrow> map_of (sorted_entries es) = map_of es"
  by (subst map_of_inject_set) simp_all

lemma load_entries:
  "\<forall>(k, r) \<in> set es. load_entry (k, JObj r) = Inr (k, r) \<Longrightarrow>
   map_result load_entry (map (\<lambda>(k, r). (k, JObj r)) es) = Inr es"
  by (induction es) auto

lemma cache_reopens:
  assumes "cache_ok fc"
  obtains fc' where "FileVerificationCache (cache_file fc) = Inr fc'"
    "map_of (cache_entries fc') = map_of (cache_entries fc)"
proof (cases "cache_entries fc = []")
  case True
  with assms that [of "\<lparr>cache_entries = [], cache_file = None\<rparr>"] show thesis
    by (simp add: cache_ok_def FileVerificationCache_def)
next
  case False
  let ?es = "sorted_entries (cache_entries fc)"
  from assms have "\<forall>(k, r) \<in> set ?es. load_entry (k, JObj r) = Inr (k, r)" by (simp add: cache_ok_def)
  then have "cache_load (cache_document ?es) = Inr ?es"
    by (simp add: cache_load_def cache_document_def load_entries json_same.simps)
  with assms False that [of "\<lparr>cache_entries = ?es, cache_file = Some ?es\<rparr>"] show thesis
    by (simp add: cache_ok_def FileVerificationCache_def map_of_sorted_entries)
qed

lemma cache_put_new:
  assumes "cache_put writes sha k d fc = Inr fc'" "cache_lookup sha fc k = None"
    and "cache_ok fc" "sha_digest (key_hash sha k)"
  shows "cache_ok fc'" "map_of (cache_entries fc') = (map_of (cache_entries fc))(key_hash sha k \<mapsto> cache_record sha k d)"
proof -
  let ?es = "dict_put (key_hash sha k) (cache_record sha k d) (cache_entries fc)"
  from assms(1,2) have fc': "cache_entries fc' = ?es" "cache_file fc' = Some (sorted_entries ?es)"
    by (auto simp: cache_put_def cache_lookup_def cache_persist_def Let_def result_simps split: if_splits)
  have "load_entry (key_hash sha k, JObj (cache_record sha k d)) = Inr (key_hash sha k, cache_record sha k d)"
    using assms(4) by (simp add: load_entry_def cache_record_def)
  moreover have "?es \<noteq> []" by (cases "cache_entries fc") auto
  moreover have "distinct (map fst ?es)" using assms(3) by (simp add: cache_ok_def distinct_update)
  ultimately show "cache_ok fc'"
    using assms(3) fc' by (auto simp: cache_ok_def dest!: set_update_cases)
  show "map_of (cache_entries fc') = (map_of (cache_entries fc))(key_hash sha k \<mapsto> cache_record sha k d)"
    by (simp add: fc' update_conv')
qed

text \<open>A verification with an empty place in the cache fills it with its outcome.\<close>

lemma verify_stores:
  assumes "adapt sha text_of (vp_adapter P) c = Inr p" "pipeline_key sha P p = Inr (Some k)"
    and "cache_lookup sha fc k = None"
    and "verify pystr writes sha text_of P E c (Some fc) = Inr (o', Some fc')"
  shows "o' = make_outcome c (run_stages E p)" "cache_put writes sha k (outcome_dict o') fc = Inr fc'"
  using assms
  by (auto simp: verify_def cached_outcome_def store_outcome_def make_outcome_ok result_simps)

lemma verify_answers:
  assumes "adapt sha text_of (vp_adapter P) c = Inr p" "pipeline_key sha P p = Inr (Some k)"
    and "map_of (cache_entries fc) (key_hash sha k) = Some (cache_record sha k (outcome_dict o'))"
    and "VerificationOutcome o' = Inr o'" "\<forall>s \<in> set (vo_stages o'). stage_valid s"
    and "\<forall>x. pystr (JStr x) = x"
  shows "verify pystr writes sha text_of P E c (Some fc) =
    Inr (o'\<lparr>vo_candidate := c, vo_cache_hit := True\<rparr>, Some fc)"
proof -
  have "jget (cache_record sha k (outcome_dict o')) ''outcome'' = JObj (outcome_dict o')"
    by (simp add: cache_record_def)
  then have "cached_outcome pystr sha c (Some k) (Some fc) =
      Inr (Some (o'\<lparr>vo_candidate := c, vo_cache_hit := True\<rparr>))"
    using assms(3) outcome_from_dict_outcome_dict [OF assms(4-6)]
    by (simp add: cached_outcome_def cache_lookup_def)
  with assms(1,2) show ?thesis by (simp add: verify_def)
qed

section \<open>Compiled candidates\<close>

text \<open>A compiled invariant's own dictionary is not a proposal: it has two fields too many.\<close>

lemma compile_serialized:
  "compile sha C (invariant_as_dict i) = failure_result (Diagnostic ''$'' ''unsupported_fields'')"
proof -
  obtain d where d: "invariant_as_dict i = JObj d" by (simp add: invariant_as_dict_def)
  then have "jget d ''abstain'' = JNull" "jget d ''kind'' = JStr ''invariant''"
    "has_extra_fields d [''kind'', ''invariant_id'', ''body'']"
    by (auto simp: invariant_as_dict_def has_extra_fields_def)
  then show ?thesis by (simp add: d compile_def compile_body_def)
qed

lemma input_from_slot_Inr:
  assumes "input_from_slot campaign attempt pair arm i s = Inr c"
    and "slot_state s = SlotCandidate" "slot_candidate s = Some (Compiled j)"
  shows "ci_status c = ''candidate''" "ci_candidate c = Some (Parsed (invariant_as_dict j))"
proof -
  have "jget (slot_dict s) ''status'' = JStr ''candidate''"
    "jget (slot_dict s) ''candidate'' = invariant_as_dict j" "invariant_as_dict j \<noteq> JNull"
    using assms(2,3) by (simp_all add: slot_dict_def candidate_json_def invariant_as_dict_def)
  with assms(1) show "ci_status c = ''candidate''" "ci_candidate c = Some (Parsed (invariant_as_dict j))"
    by (auto simp: input_from_slot_def CandidateInput_def Let_def result_simps split: if_splits)
qed

lemma candidates_nth:
  assumes "candidates_from_method_run m campaign pair arm = Inr cs"
  shows "length cs = length (run_slots m)"
    and "i < length (run_slots m) \<Longrightarrow>
      input_from_slot campaign (run_attempt m) pair arm i (run_slots m ! i) = Inr (cs ! i)"
proof -
  from assms have r: "map_result (\<lambda>(i, s). input_from_slot campaign (run_attempt m) pair arm i s)
      (enumerate 0 (run_slots m)) = Inr cs"
    by (simp add: candidates_from_method_run_def split: if_splits)
  from map_result_Inr_length [OF r] show "length cs = length (run_slots m)" by simp
  from map_result_Inr_nth [OF r, of i] show "i < length (run_slots m) \<Longrightarrow>
      input_from_slot campaign (run_attempt m) pair arm i (run_slots m ! i) = Inr (cs ! i)"
    by (simp add: nth_enumerate_eq)
qed

lemma outcome_from_dict_hit: "outcome_from_dict pystr c d hit = Inr o' \<Longrightarrow> vo_cache_hit o' = hit"
  by (auto simp: outcome_from_dict_def VerificationOutcome_def Let_def result_simps
      split: json.splits if_splits)

lemma verify_fresh:
  assumes "verify pystr writes sha text_of P E c cache = Inr (o', cache')" "\<not> vo_cache_hit o'"
  shows "\<exists>p. adapt sha text_of (vp_adapter P) c = Inr p \<and> o' = make_outcome c (run_stages E p)"
proof -
  from assms(1) obtain p key hit where p: "adapt sha text_of (vp_adapter P) c = Inr p"
    and hit: "cached_outcome pystr sha c key cache = Inr hit"
    and rest: "(case hit of Some o' \<Rightarrow> Inr (o', cache)
       | None \<Rightarrow> bind_result (VerificationOutcome (make_outcome c (run_stages E p))) (\<lambda>o'.
           bind_result (store_outcome writes sha o' key cache) (\<lambda>cache'. Inr (o', cache')))) = Inr (o', cache')"
    by (auto simp: verify_def result_simps)
  have "hit = None"
  proof (rule ccontr)
    assume "hit \<noteq> None"
    with rest hit have "cached_outcome pystr sha c key cache = Inr (Some o')" by auto
    then have "vo_cache_hit o'"
      by (auto simp: cached_outcome_def result_simps dest: outcome_from_dict_hit
          split: option.splits json.splits)
    with assms(2) show False by simp
  qed
  with rest p show ?thesis by (auto simp: make_outcome_ok result_simps)
qed

end
