(* ===== verification/Verification_Properties.thy ===== *)
theory Verification_Properties
  imports Verification_Outcomes
begin

text \<open>
  The properties of the shared verification pipeline, from a candidate of a method run to its
  stored outcome.
\<close>

section \<open>A concrete case\<close>

definition sample_sha :: "json \<Rightarrow> string" where
  "sample_sha v = replicate 64 (CHR ''a'')"

definition sample_str :: "json \<Rightarrow> string" where
  "sample_str v = (case v of JStr s \<Rightarrow> s | _ \<Rightarrow> ''?'')"

definition sample_symbol :: artifact_symbol where
  "sample_symbol = \<lparr>sym_id = ''s'', sym_path = ''p'', sym_name = ''n'', sym_domain = ''a'',
     sym_kind = ''storage'', sym_type = ''uint256''\<rparr>"

definition sample_binding :: symbol_binding where
  "sample_binding = \<lparr>sb_symbol = ''s'', sb_type = Some ''uint256'', sb_domain = ''a'', sb_contract = ''C'',
     sb_location = Some ''storage(0)'', sb_states = [''pre'', ''post''], sb_slot = Some 0,
     sb_offset = Some 0, sb_getter = None, sb_decode = None, sb_status = BindingBound,
     sb_reason = None, sb_evidence = None\<rparr>"

definition sample_action :: action_binding where
  "sample_action = \<lparr>ab_id = ''x'', ab_action = ''C.f'', ab_caller = ''user'', ab_domain = ''a'',
     ab_contract = Some ''C'', ab_function = None, ab_signature = Some ''f()'',
     ab_selector = Some ''0x26121ff0'', ab_encoder = None, ab_value = ''zero'', ab_transition = ''t'',
     ab_status = BindingBound, ab_reason = None, ab_evidence = None\<rparr>"

definition sample_spec :: runtime_spec where
  "sample_spec = (let h = replicate 64 (CHR ''a'') in
     \<lparr>spec_case = ''c'', spec_lineage = ''l'', spec_instance = ''i'', spec_source_hash = h,
      spec_build_hash = h, spec_deployment_hash = h, spec_profile_hash = h, spec_compiler_hash = h,
      spec_source = ''a'', spec_destination = ''b'', spec_actions = [], spec_observations = [],
      spec_addresses = [], spec_actors = [], spec_initial = [], spec_mode = ''unknown'',
      spec_metadata = None\<rparr>)"

definition sample_case :: case_bindings where
  "sample_case = \<lparr>cb_runtime = sample_spec, cb_symbols = [sample_binding], cb_actions = [sample_action],
     cb_missing = [], cb_diagnostics = []\<rparr>"

definition sample_compiler :: xlir_compiler where
  "sample_compiler = \<lparr>symbols = map_of [(''s'', sample_symbol)], maximum_ast_nodes = 256\<rparr>"

definition sample_pipeline :: verification_pipeline where
  "sample_pipeline = \<lparr>vp_adapter =
      \<lparr>ad_case = sample_case, ad_compiler = sample_compiler, ad_revision = ''runtime-adapter-v1'',
       ad_bounds = [], ad_replay = None, ad_executor = None, ad_deferred = []\<rparr>,
     vp_executor_spec = None\<rparr>"

lemma sample_pipeline_made:
  "SharedVerificationPipeline sample_case [sample_symbol] ''runtime-adapter-v1'' [] None None None [] =
   Inr sample_pipeline"
  by (simp add: SharedVerificationPipeline_def RuntimeCandidateAdapter_def from_symbols_def
      make_compiler_def sample_pipeline_def sample_compiler_def sample_symbol_def)

definition sample_proposal :: json where
  "sample_proposal = JObj
     [(''kind'', JStr ''invariant''),
      (''body'', JObj [(''kind'', JStr ''binary''), (''operator'', JStr ''eq''),
         (''left'', JObj [(''kind'', JStr ''symbol''), (''symbol_id'', JStr ''s''), (''state'', JStr ''pre'')]),
         (''right'', JObj [(''kind'', JStr ''symbol''), (''symbol_id'', JStr ''s''), (''state'', JStr ''post'')])])]"

definition sample_input :: candidate_input where
  "sample_input = \<lparr>ci_campaign = ''k'', ci_attempt = ''a'',
     ci_pair = \<lparr>pair_lineage = ''l'', pair_instance = ''i'', pair_replicate = 1\<rparr>, ci_arm = ''x'',
     ci_index = 0, ci_slot = ''a:slot:0'', ci_status = ''candidate'', ci_ast_hash = None,
     ci_response_hash = None, ci_candidate = Some (Parsed sample_proposal)\<rparr>"

text \<open>Back ends that pass, the last one with the evidence of a violation.\<close>

definition passing :: "string \<Rightarrow> json dict option \<Rightarrow> stage_executor" where
  "passing n e = (\<lambda>p. ExecutorStage \<lparr>stage_name = n, stage_state = StagePassed, stage_reason = None,
     stage_elapsed = None, stage_evidence = e\<rparr>)"

definition sample_executors :: executors where
  "sample_executors =
     \<lparr>ex_search = Some (passing ''symbolic_search'' (Some [(''candidate_violation'', JBool True)])),
      ex_witness = Some (passing ''witness_check'' None),
      ex_replay = Some (passing ''independent_replay''
        (Some [(''property_holds'', JBool False), (''security_relevance'', JBool True)]))\<rparr>"

lemma sample_digest: "sha_digest (sample_sha v)"
  by (simp add: sha_digest_def sample_sha_def list_all_iff)

definition sample_invariant :: invariant where
  "sample_invariant = \<lparr>invariant_id = None,
     inv_body = Binary ''eq'' (SymbolRef ''s'' UINT256 ''a'' ''pre'') (SymbolRef ''s'' UINT256 ''a'' ''post'') BOOL,
     canonical_hash = sample_sha JNull, node_count = 3\<rparr>"

lemma sample_compiled:
  "compile sample_sha sample_compiler sample_proposal =
     \<lparr>comp_invariant = Some sample_invariant, abstained = False, diagnostics = []\<rparr>"
  by code_simp

lemma sample_lowered:
  "\<exists>x. lower_bounded sample_sha sample_invariant [] = Inr \<lparr>ir = Some x, lower_diagnostics = []\<rparr>"
proof -
  have "case lower_bounded sample_sha sample_invariant [] of
      Inl e \<Rightarrow> False | Inr r \<Rightarrow> ir r \<noteq> None \<and> lower_diagnostics r = []" by code_simp
  then obtain r x where "lower_bounded sample_sha sample_invariant [] = Inr r" "ir r = Some x"
    "lower_diagnostics r = []"
    by (auto split: sum.splits)
  then show ?thesis by (intro exI [of _ x]) (cases r, simp)
qed

lemma sample_resolved:
  "resolve (binding_table sample_case) (symbol_references (inv_body sample_invariant)) =
     ([sample_binding, sample_binding], [])"
  by code_simp

lemma sample_runtime_hash: "runtime_hash sample_sha sample_spec = Inr (sample_sha JNull)"
  by (simp add: runtime_hash_def candidate_identity_def semantic_identity_def claimed_hash_def
      sha256_hex_def spec_payload_def sample_spec_def sample_sha_def Let_def obj_option_def
      strings_json_def string_dict_def)

lemma sample_case_fields:
  "cb_runtime sample_case = sample_spec" "cb_missing sample_case = []"
  "cb_actions sample_case = [sample_action]" "ab_status sample_action = BindingBound"
  "action_executable sample_action" "spec_initial sample_spec = []"
  by (simp_all add: sample_case_def sample_action_def action_executable_def sample_spec_def Let_def)

lemma sample_hash: "hash_json sample_sha (JObj []) = Inr (sample_sha JNull)"
  by (simp add: hash_json_def sha256_hex_def sample_sha_def)

lemma sample_key:
  "VerificationCacheKey \<lparr>ck_runtime = sample_sha JNull, ck_ast = sample_sha JNull,
     ck_revision = ''runtime-adapter-v1'', ck_bounds = sample_sha JNull, ck_replay = None, ck_executor = None\<rparr> =
   Inr \<lparr>ck_runtime = sample_sha JNull, ck_ast = sample_sha JNull,
     ck_revision = ''runtime-adapter-v1'', ck_bounds = sample_sha JNull, ck_replay = None, ck_executor = None\<rparr>"
  by (simp add: VerificationCacheKey_def sample_digest optional_digest_def)

lemma sample_ready:
  obtains p where "adapt sample_sha text_of (vp_adapter sample_pipeline) sample_input = Inr p"
    "rp_status p = AdapterReady" "rp_hash p = Some (sample_sha JNull)"
proof -
  obtain x where x: "lower_bounded sample_sha sample_invariant [] = Inr \<lparr>ir = Some x, lower_diagnostics = []\<rparr>"
    using sample_lowered by blast
  have h: "canonical_hash sample_invariant = sample_sha JNull" by (simp add: sample_invariant_def)
  let ?A = "vp_adapter sample_pipeline"
  have A: "ad_case ?A = sample_case" "ad_compiler ?A = sample_compiler" "ad_bounds ?A = []"
    "ad_replay ?A = None" "ad_executor ?A = None" "ad_revision ?A = ''runtime-adapter-v1''"
    by (simp_all add: sample_pipeline_def)
  have "\<exists>p. adapt_lowered sample_sha ?A sample_input sample_invariant [sample_binding, sample_binding] x = Inr p \<and>
      rp_status p = AdapterReady \<and> rp_hash p = Some (sample_sha JNull)"
    by (simp add: adapt_lowered_def Let_def A h sample_case_fields sample_runtime_hash spec_dict_def
        sample_hash sample_key)
  moreover have "adapt sample_sha text_of ?A sample_input =
      adapt_lowered sample_sha ?A sample_input sample_invariant [sample_binding, sample_binding] x"
  proof -
    have "ci_status sample_input = ''candidate''" "ci_candidate sample_input = Some (Parsed sample_proposal)"
      by (simp_all add: sample_input_def)
    with x show ?thesis
      by (simp add: adapt_def adapt_invariant_def Let_def A sample_compiled sample_resolved)
  qed
  ultimately show thesis using that by auto
qed

lemma sample_pipeline_key:
  "rp_hash p = Some (sample_sha JNull) \<Longrightarrow> pipeline_key sample_sha sample_pipeline p = Inr (Some
     \<lparr>ck_runtime = sample_sha JNull, ck_ast = sample_sha JNull, ck_revision = ''runtime-adapter-v1'',
      ck_bounds = sample_sha JNull, ck_replay = None, ck_executor = None\<rparr>)"
  using sample_key sample_hash sample_runtime_hash
  by (simp add: pipeline_key_def sample_pipeline_def sample_case_fields)

lemma sample_outcome:
  assumes "rp_status p = AdapterReady"
  shows "vo_verified (make_outcome sample_input (run_stages sample_executors p)) = Some True"
proof -
  have "stage_state (grounding_result p) = StagePassed" "plan_executable p"
    using assms by (simp_all add: grounding_result_def plan_executable_def)
  then show ?thesis
    by (simp add: make_outcome_def run_stages_def downstream_def Let_def run_stage_def executor_of_def
        sample_executors_def passing_def no_values_def read_evidence_def updated_value_def as_bool_def
        outcome_stage_status_def)
qed

section \<open>What a verified finding means\<close>

text \<open>
  C12. A finding that a run of the pipeline verifies (not one read from the cache) is backed by
  everything it claims: the candidate is an invariant that the compiler accepted (or was given
  compiled); every symbol it reads is bound in the case, with its type, domain and state; it
  lowers to solver terms; an executable action exists and no runtime field is missing but the
  deferred ones; all three back ends were called on this plan and passed, and the three later stages
  of the outcome are the results they returned. The verdict is their evidence and nothing else: of
  the Booleans these results supply for candidate_violation there is a last one and it is true, the
  last one they supply for property_holds is false and the last for security_relevance is true, so
  a finding for which a field was never supplied is not verified.
\<close>

theorem verified_finding_sound:
  assumes "verify pystr writes sha text_of P E c cache = Inr (o', cache')"
    and "vo_verified o' = Some True" "\<not> vo_cache_hit o'"
  shows "\<exists>i p. candidate_source sha (ad_compiler (vp_adapter P)) c i \<and>
    adapt sha text_of (vp_adapter P) c = Inr p \<and> rp_invariant p = Some i \<and>
    (\<forall>(sid, st, dm) \<in> symbol_keys (inv_body i). \<exists>r \<in> set (symbol_references (inv_body i)).
       \<exists>b \<in> set (cb_symbols (ad_case (vp_adapter P))).
         reference_key r = (sid, st, dm) \<and> bound_to r b) \<and>
    (\<exists>x. lower_bounded sha i (ad_bounds (vp_adapter P)) = Inr \<lparr>ir = Some x, lower_diagnostics = []\<rparr>) \<and>
    (\<exists>a \<in> set (cb_actions (ad_case (vp_adapter P))). action_executable a) \<and>
    set (cb_missing (ad_case (vp_adapter P))) \<subseteq> set (ad_deferred (vp_adapter P)) \<and>
    (\<forall>n \<in> set downstream. \<exists>f s. executor_of E n = Some f \<and> f p = ExecutorStage s \<and>
       stage_name s = n \<and> stage_state s = StagePassed) \<and>
    (\<exists>ss. tl (vo_stages o') = ss \<and> list_all2 (returned_by E p) downstream ss \<and>
       last_supplied ''candidate_violation'' ss = Some True \<and>
       last_supplied ''property_holds'' ss = Some False \<and>
       last_supplied ''security_relevance'' ss = Some True) \<and>
    vo_violation o' = Some True \<and> vo_holds o' = Some False \<and> vo_relevance o' = Some True"
proof -
  let ?A = "vp_adapter P"
  obtain p where p: "adapt sha text_of ?A c = Inr p" and o': "o' = make_outcome c (run_stages E p)"
    using verify_fresh [OF assms(1,3)] by blast
  obtain ss v where r: "run_stages E p = (ss, v)" by fastforce
  have names: "map stage_name ss = required_stages" using run_stages_names [of E p] by (simp add: r)
  from assms(2) have all: "list_all (\<lambda>n. outcome_stage_status ss n = StagePassed) required_stages"
    and v: "vo_violation o' = Some True" "vo_holds o' = Some False" "vo_relevance o' = Some True"
    by (auto simp: o' make_outcome_def r required_eq split: if_splits)
  then have "\<forall>s \<in> set (fst (run_stages E p)). stage_state s = StagePassed"
    using all_passed_iff [OF names] by (simp add: r)
  note passed = run_stages_passed [OF this] and returned = run_stages_returned [OF this]
  obtain ds where ds: "vo_stages o' = grounding_result p # ds" "list_all2 (returned_by E p) downstream ds"
    using returned by (auto simp: o' make_outcome_def r)
  have quiet: "last_supplied field (vo_stages o') = last_supplied field ds" for field
    unfolding ds(1) using last_supplied_Cons [of field "grounding_result p" ds] by simp
  have "last_supplied ''candidate_violation'' ds = Some True" "last_supplied ''property_holds'' ds = Some False"
    "last_supplied ''security_relevance'' ds = Some True"
    using v make_outcome_evidence [of c E p] quiet unfolding o' by simp_all
  with ds have evidence: "\<exists>ss. tl (vo_stages o') = ss \<and> list_all2 (returned_by E p) downstream ss \<and>
      last_supplied ''candidate_violation'' ss = Some True \<and> last_supplied ''property_holds'' ss = Some False \<and>
      last_supplied ''security_relevance'' ss = Some True" by simp
  obtain i where src: "candidate_source sha (ad_compiler ?A) c i"
    and i: "adapt_invariant sha text_of ?A c i = Inr p"
    by (rule adapt_ready [OF p passed(1)])
  note facts = adapt_invariant_ready [OF i passed(1)]
  have "\<forall>(sid, st, dm) \<in> symbol_keys (inv_body i). \<exists>r \<in> set (symbol_references (inv_body i)).
      \<exists>b \<in> set (cb_symbols (ad_case ?A)). reference_key r = (sid, st, dm) \<and> bound_to r b"
    using facts(4) unfolding symbol_references_keys [symmetric] by fastforce
  with src p facts(1-3,5) passed(2) v evidence show ?thesis by blast
qed

theorem verified_finding_sound_witness:
  "\<exists>o' i. verify sample_str True sample_sha (\<lambda>d. '''') sample_pipeline sample_executors sample_input None =
     Inr (o', None) \<and> candidate_source sample_sha sample_compiler sample_input i"
proof -
  obtain p where p: "adapt sample_sha (\<lambda>d. '''') (vp_adapter sample_pipeline) sample_input = Inr p"
    "rp_status p = AdapterReady" "rp_hash p = Some (sample_sha JNull)"
    by (rule sample_ready)
  note run = verify_uncached [OF p(1) sample_pipeline_key [OF p(3)], of sample_str True sample_executors]
  have hit: "\<not> vo_cache_hit (make_outcome sample_input (run_stages sample_executors p))"
    by (simp add: make_outcome_def case_prod_beta)
  from verified_finding_sound [OF run sample_outcome [OF p(2)] hit] run show ?thesis
    by (auto simp: sample_pipeline_def)
qed



section \<open>The cache\<close>

text \<open>
  C35. An outcome that was stored is what every later verification with the same cache key gets,
  marked as a cache hit and for its own candidate, whatever the back ends would do then, both
  from the cache in memory and from one reopened on the file; the entries that were there before
  stay as they are, and the cache keeps its invariant.
\<close>

theorem cache_replays_outcome:
  assumes run: "verify pystr writes sha text_of P E c (Some fc) = Inr (o', Some fc')"
    and p: "adapt sha text_of (vp_adapter P) c = Inr p" "pipeline_key sha P p = Inr (Some k)"
    and q: "adapt sha text_of (vp_adapter P) d = Inr q" "pipeline_key sha P q = Inr (Some k)"
    and cache: "cache_ok fc" "cache_lookup sha fc k = None"
    and valid: "executors_valid E p"
    and hash: "\<forall>v. sha_digest (sha v)" and str: "\<forall>s. pystr (JStr s) = s"
  shows "cache_ok fc' \<and> map_of (cache_entries fc) \<subseteq>\<^sub>m map_of (cache_entries fc') \<and>
    (\<exists>fc''. FileVerificationCache (cache_file fc') = Inr fc'' \<and>
      (\<forall>E' writes'. \<forall>store \<in> {fc', fc''}.
         verify pystr writes' sha text_of P E' d (Some store) =
           Inr (o'\<lparr>vo_candidate := d, vo_cache_hit := True\<rparr>, Some store)))"
proof -
  note stored = verify_stores [OF p cache(2) run]
  have "sha_digest (key_hash sha k)" using hash by (simp add: key_hash_def)
  note put = cache_put_new [OF stored(2) cache(2,1) this]
  obtain fc'' where fc'': "FileVerificationCache (cache_file fc') = Inr fc''"
    "map_of (cache_entries fc'') = map_of (cache_entries fc')"
    by (rule cache_reopens [OF put(1)])
  have o': "VerificationOutcome o' = Inr o'" "\<forall>s \<in> set (vo_stages o'). stage_valid s"
    using make_outcome_ok run_stages_valid [OF valid] by (simp_all add: stored(1) make_outcome_def case_prod_beta)
  have "verify pystr writes' sha text_of P E' d (Some store) =
      Inr (o'\<lparr>vo_candidate := d, vo_cache_hit := True\<rparr>, Some store)" if "store \<in> {fc', fc''}" for E' writes' store
  proof (rule verify_answers [OF q _ o' str])
    show "map_of (cache_entries store) (key_hash sha k) = Some (cache_record sha k (outcome_dict o'))"
      using that fc''(2) put(2) by auto
  qed
  moreover have "map_of (cache_entries fc) \<subseteq>\<^sub>m map_of (cache_entries fc')"
    using cache(2) by (auto simp: put(2) map_le_def cache_lookup_def)
  ultimately show ?thesis using put(1) fc''(1) by blast
qed

theorem cache_replays_outcome_witness:
  "\<exists>o' fc'. verify sample_str True sample_sha (\<lambda>d. '''') sample_pipeline sample_executors sample_input
      (Some \<lparr>cache_entries = [], cache_file = None\<rparr>) = Inr (o', Some fc') \<and>
    verify sample_str True sample_sha (\<lambda>d. '''') sample_pipeline
      \<lparr>ex_search = None, ex_witness = None, ex_replay = None\<rparr> sample_input (Some fc') =
    Inr (o'\<lparr>vo_candidate := sample_input, vo_cache_hit := True\<rparr>, Some fc')"
proof -
  let ?fc = "\<lparr>cache_entries = [], cache_file = None\<rparr> :: file_cache"
  let ?k = "\<lparr>ck_runtime = sample_sha JNull, ck_ast = sample_sha JNull, ck_revision = ''runtime-adapter-v1'',
      ck_bounds = sample_sha JNull, ck_replay = None, ck_executor = None\<rparr>"
  obtain p where p: "adapt sample_sha (\<lambda>d. '''') (vp_adapter sample_pipeline) sample_input = Inr p"
    "rp_hash p = Some (sample_sha JNull)"
    by (rule sample_ready)
  note k = sample_pipeline_key [OF p(2)]
  have fc: "cache_ok ?fc" "cache_lookup sample_sha ?fc ?k = None"
    by (simp_all add: cache_ok_def cache_lookup_def)
  have valid: "executors_valid sample_executors p"
    by (auto simp: executors_valid_def executor_of_def sample_executors_def passing_def stage_valid_def
        StageResult_def split: if_splits)
  obtain o' fc' where run: "verify sample_str True sample_sha (\<lambda>d. '''') sample_pipeline sample_executors
      sample_input (Some ?fc) = Inr (o', Some fc')"
    using p(1) k fc(2)
    by (simp add: verify_def cached_outcome_def store_outcome_def make_outcome_ok cache_put_def
        cache_lookup_def cache_persist_def Let_def)
  have hash: "\<forall>v. sha_digest (sample_sha v)" and str: "\<forall>s. sample_str (JStr s) = s"
    by (simp_all add: sample_digest sample_str_def)
  from cache_replays_outcome [OF run p(1) k p(1) k fc valid hash str] run show ?thesis by blast
qed

section \<open>Compiled candidates are lost\<close>

text \<open>
  C40. A slot that a method run accepted with a compiled invariant is never verified: the
  conversion to verification inputs hands on the invariant's own dictionary, which the pipeline
  compiles again as a proposal and refuses for its extra fields, so the outcome fails at
  grounding, for every case, symbol table and back end, and nothing reaches the search.
\<close>

theorem compiled_candidate_never_verified:
  assumes "candidates_from_method_run m campaign pair arm = Inr cs" "i < length (run_slots m)"
    and "slot_state (run_slots m ! i) = SlotCandidate" "slot_candidate (run_slots m ! i) = Some (Compiled j)"
  shows "\<exists>o'. verify pystr writes sha text_of P E (cs ! i) cache = Inr (o', cache) \<and>
    vo_verified o' = None \<and> vo_first_failure o' = Some ''grounding'' \<and>
    list_all (\<lambda>s. stage_state s = StageNotApplicable) (tl (vo_stages o'))"
proof -
  let ?C = "ad_compiler (vp_adapter P)"
  from candidates_nth(2) [OF assms(1,2)]
  have input: "input_from_slot campaign (run_attempt m) pair arm i (run_slots m ! i) = Inr (cs ! i)" .
  note c = input_from_slot_Inr [OF input assms(3,4)]
  define p where "p = plain_plan (cs ! i) AdapterInvalid None []
    (map (diagnostic_text text_of) [Diagnostic ''$'' ''unsupported_fields''])"
  have "adapt sha text_of (vp_adapter P) (cs ! i) = Inr p"
    by (simp add: adapt_def c compile_serialized failure_result_def p_def)
  moreover have "pipeline_key sha P p = Inr None"
    by (simp add: pipeline_key_def p_def plain_plan_def)
  ultimately have v: "verify pystr writes sha text_of P E (cs ! i) cache =
      Inr (make_outcome (cs ! i) (run_stages E p), cache)"
    by (simp add: verify_def cached_outcome_def store_outcome_def make_outcome_ok)
  have g: "stage_state (grounding_result p) = StageFailed"
    by (simp add: grounding_result_def p_def plain_plan_def)
  then have r: "run_stages E p = (grounding_result p # skipped downstream ''grounding_not_passed'', no_values)"
    by (simp add: run_stages_def)
  have "vo_verified (make_outcome (cs ! i) (run_stages E p)) = None"
    "vo_first_failure (make_outcome (cs ! i) (run_stages E p)) = Some ''grounding''"
    "list_all (\<lambda>s. stage_state s = StageNotApplicable) (tl (vo_stages (make_outcome (cs ! i) (run_stages E p))))"
    using g by (simp_all add: r make_outcome_def outcome_stage_status_def first_failed_stage_def cut_off_skipped)
  with v show ?thesis by blast
qed

definition compiled_run :: method_run where
  "compiled_run = \<lparr>run_track = TrackCrossLLM, run_backbone = ''b'', run_attempt = ''a'',
     run_template_hash = ''t'', run_pack_hash = ''h'', run_settings = [],
     run_slots = [\<lparr>slot_id = ''a:slot:0'', slot_index = 0, slot_state = SlotCandidate,
       slot_response_hash = None, slot_candidate = Some (Compiled sample_invariant), slot_reason = None,
       slot_ast_hash = None\<rparr>],
     run_responses = [], run_measurements = [], run_checks = []\<rparr>"

theorem compiled_candidate_never_verified_witness:
  "\<exists>cs o'. candidates_from_method_run compiled_run ''k'' (ci_pair sample_input) ''x'' = Inr cs \<and>
    verify sample_str True sample_sha (\<lambda>d. '''') sample_pipeline sample_executors (cs ! 0) None = Inr (o', None) \<and>
    vo_first_failure o' = Some ''grounding''"
proof -
  have "case candidates_from_method_run compiled_run ''k'' (ci_pair sample_input) ''x'' of
      Inl e \<Rightarrow> False | Inr cs \<Rightarrow> length cs = 1"
    by code_simp
  then obtain cs where cs: "candidates_from_method_run compiled_run ''k'' (ci_pair sample_input) ''x'' = Inr cs"
    by (auto split: sum.splits)
  have "0 < length (run_slots compiled_run)" "slot_state (run_slots compiled_run ! 0) = SlotCandidate"
    "slot_candidate (run_slots compiled_run ! 0) = Some (Compiled sample_invariant)"
    by (simp_all add: compiled_run_def)
  from compiled_candidate_never_verified [OF cs this, of sample_str True sample_sha "\<lambda>d. ''''"
      sample_pipeline sample_executors None] cs
  show ?thesis by blast
qed

end
