(* ===== verification/Metrics_Properties.thy ===== *)
theory Metrics_Properties
  imports Verification_Metrics Verification_Properties
begin

text \<open>
  What verified campaigns and their metrics guarantee.
\<close>

section \<open>The campaign of a method run\<close>

lemma outcome_from_dict_candidate: "outcome_from_dict pystr c d hit = Inr o' \<Longrightarrow> vo_candidate o' = c"
  by (auto simp: outcome_from_dict_def VerificationOutcome_def Let_def result_simps
      split: json.splits if_splits)

lemma make_outcome_candidate: "vo_candidate (make_outcome c r) = c"
  by (simp add: make_outcome_def case_prod_beta)

lemma verify_candidate:
  assumes "verify pystr writes sha text_of P E c cache = Inr (o', cache')"
  shows "vo_candidate o' = c"
proof -
  from assms obtain p key hit where hit: "cached_outcome pystr sha c key cache = Inr hit"
    and rest: "(case hit of Some o' \<Rightarrow> Inr (o', cache)
       | None \<Rightarrow> bind_result (VerificationOutcome (make_outcome c (run_stages E p))) (\<lambda>o'.
           bind_result (store_outcome writes sha o' key cache) (\<lambda>cache'. Inr (o', cache')))) = Inr (o', cache')"
    by (auto simp: verify_def result_simps)
  show ?thesis
  proof (cases hit)
    case None
    with rest show ?thesis by (auto simp: make_outcome_ok make_outcome_candidate result_simps)
  next
    case (Some o'')
    with rest have "hit = Some o'" by simp
    with hit show ?thesis
      by (auto simp: cached_outcome_def result_simps dest: outcome_from_dict_candidate
          split: option.splits json.splits)
  qed
qed

lemma verify_candidates_candidates:
  "verify_candidates pystr writes sha text_of P E n cs cache = Inr (os, cache') \<Longrightarrow> map vo_candidate os = cs"
  by (induction cs arbitrary: n cache os) (auto simp: result_simps dest: verify_candidate)

lemma input_from_slot_identity:
  "input_from_slot campaign attempt pair arm i s = Inr c \<Longrightarrow>
     ci_campaign c = campaign \<and> ci_arm c = arm \<and> ci_pair c = pair \<and> ci_index c = int i"
  by (auto simp: input_from_slot_def CandidateInput_def Let_def result_simps split: json.splits if_splits)

lemma method_run_outcomes:
  assumes "verify_method_run pystr writes sha text_of P E m campaign pair arm cache = Inr (os, cache')"
  shows "length os = length (run_slots m)"
    and "i < length os \<Longrightarrow> ci_campaign (vo_candidate (os ! i)) = campaign \<and> ci_arm (vo_candidate (os ! i)) = arm \<and>
      ci_pair (vo_candidate (os ! i)) = pair \<and> ci_index (vo_candidate (os ! i)) = int i"
    and "campaign \<noteq> '''' \<and> arm \<noteq> ''''"
proof -
  from assms obtain cs where cs: "candidates_from_method_run m campaign pair arm = Inr cs"
    and os: "verify_candidates pystr writes sha text_of P E 0 cs cache = Inr (os, cache')"
    by (auto simp: verify_method_run_def result_simps)
  have c: "cs = map vo_candidate os" using verify_candidates_candidates [OF os] by simp
  with candidates_nth(1) [OF cs] show len: "length os = length (run_slots m)" by simp
  show "i < length os \<Longrightarrow> ci_campaign (vo_candidate (os ! i)) = campaign \<and> ci_arm (vo_candidate (os ! i)) = arm \<and>
      ci_pair (vo_candidate (os ! i)) = pair \<and> ci_index (vo_candidate (os ! i)) = int i"
    using candidates_nth(2) [OF cs, of i] input_from_slot_identity len by (fastforce simp: c)
  from cs show "campaign \<noteq> '''' \<and> arm \<noteq> ''''" by (simp add: candidates_from_method_run_def split: if_splits)
qed

text \<open>What can make a campaign unavailable: a failed provider response, or a stage in some state.\<close>

definition provider_failed :: "method_run \<Rightarrow> bool" where
  "provider_failed m \<longleftrightarrow> (\<exists>r \<in> set (run_responses m).
     resp_error r \<noteq> None \<or> resp_status r \<noteq> JNull \<and> \<not> status_is (resp_status r) 200)"

definition stage_seen :: "verification_outcome list \<Rightarrow> stage_status \<Rightarrow> bool" where
  "stage_seen os st \<longleftrightarrow> (\<exists>o' \<in> set os. \<exists>s \<in> set (vo_stages o'). stage_state s = st)"

lemma campaign_status_cases:
  "campaign_status_of_run m os =
     (if provider_failed m then (CampaignUnknown, Some ''provider_failure_or_partial_archive'')
      else if stage_seen os StageCrash then (CampaignUnknown, Some ''verification_stage_crash'')
      else if stage_seen os StageTimeout \<or> stage_seen os StageUnknown
        then (CampaignUnknown, Some ''verification_stage_incomplete'')
      else if stage_seen os StageUnsupported
        then (CampaignUnsupportedRuntime, Some ''runtime_or_backend_unsupported'')
      else (CampaignAvailable, None))"
proof -
  have "list_ex response_failed (run_responses m) \<longleftrightarrow> provider_failed m"
    by (simp add: provider_failed_def list_ex_iff response_failed_def)
  moreover have "st \<in> set (map stage_state (concat (map vo_stages os))) \<longleftrightarrow> stage_seen os st" for st
    by (auto simp: stage_seen_def)
  ultimately show ?thesis unfolding campaign_status_of_run_def Let_def by (simp only:)
qed

lemma campaign_refused:
  assumes "verify_method_run pystr writes sha text_of P E m campaign pair arm cache = Inr (os, cache')"
    and "run_slots m = [] \<or> truth \<notin> {''positive'', ''negative'', ''unresolved''}"
  shows "\<exists>e. verify_method_campaign pystr writes sha text_of P E m campaign pair arm truth model family cache =
    Inl (VerifyValue e)"
  using assms method_run_outcomes(1) [OF assms(1)]
  by (auto simp: verify_method_campaign_def VerificationCampaign_def split: prod.split)

text \<open>
  C38. Once the candidates of a method run are verified, its campaign is refused only when the run
  has no slots or the ground truth is not one of the three allowed words. Otherwise it holds the
  outcomes of all slots of the run in order, slot \<open>i\<close> under index \<open>i\<close>, and its availability and the
  reason it carries are fixed by the first of these that applies: a provider response failed
  (unknown, provider failure); a stage of some outcome crashed (unknown, crash); one timed out or is
  unknown (unknown, incomplete); one is unsupported (unsupported, backend); none of them (available,
  and no reason).
\<close>

theorem method_campaign_accepted:
  assumes run: "verify_method_run pystr writes sha text_of P E m campaign pair arm cache = Inr (os, cache')"
  shows "if run_slots m \<noteq> [] \<and> truth \<in> {''positive'', ''negative'', ''unresolved''}
    then \<exists>c. verify_method_campaign pystr writes sha text_of P E m campaign pair arm truth model family cache =
        Inr (c, cache') \<and> vc_outcomes c = os \<and> vc_slots c = int (length (run_slots m)) \<and>
      map (\<lambda>o'. ci_index (vo_candidate o')) os = map int [0..<length (run_slots m)] \<and>
      (vc_availability c = CampaignAvailable \<longleftrightarrow> \<not> provider_failed m \<and> \<not> stage_seen os StageCrash \<and>
         \<not> stage_seen os StageTimeout \<and> \<not> stage_seen os StageUnknown \<and> \<not> stage_seen os StageUnsupported) \<and>
      (vc_availability c, vc_missing c) =
        (if provider_failed m then (CampaignUnknown, Some ''provider_failure_or_partial_archive'')
         else if stage_seen os StageCrash then (CampaignUnknown, Some ''verification_stage_crash'')
         else if stage_seen os StageTimeout \<or> stage_seen os StageUnknown
           then (CampaignUnknown, Some ''verification_stage_incomplete'')
         else if stage_seen os StageUnsupported
           then (CampaignUnsupportedRuntime, Some ''runtime_or_backend_unsupported'')
         else (CampaignAvailable, None))
    else \<exists>e. verify_method_campaign pystr writes sha text_of P E m campaign pair arm truth model family cache =
      Inl (VerifyValue e)"
proof (cases "run_slots m \<noteq> [] \<and> truth \<in> {''positive'', ''negative'', ''unresolved''}")
  case False
  with campaign_refused [OF run] show ?thesis by auto
next
  case True
  then have slots: "run_slots m \<noteq> []" and truth: "truth \<in> {''positive'', ''negative'', ''unresolved''}" by auto
  note facts = method_run_outcomes [OF run]
  obtain status reason where status: "campaign_status_of_run m os = (status, reason)" by fastforce
  let ?c = "\<lparr>vc_campaign = campaign, vc_arm = arm, vc_pair = pair, vc_truth = truth, vc_slots = int (length os),
    vc_outcomes = os, vc_availability = status, vc_missing = reason, vc_model = model,
    vc_family = family, vc_timing = None\<rparr>"
  have index: "map (\<lambda>o'. ci_index (vo_candidate o')) os = map int [0..<length os]"
    using facts(2) by (intro nth_equalityI) simp_all
  then have "distinct (map (\<lambda>o'. ci_index (vo_candidate o')) os)"
    by (simp add: distinct_map inj_on_def)
  then have "distinct (map snd (map outcome_slot os))" by (simp add: outcome_slot_def o_def)
  then have dist: "distinct (map outcome_slot os)" using distinct_map by blast
  have none: "outcome_error ?c os = None"
    using facts(2) by (auto simp: outcome_error_None belongs_def in_set_conv_nth)
  have made: "VerificationCampaign ?c = Inr ?c"
    using facts(1,3) slots truth dist none campaign_reason [OF status]
    by (auto simp: VerificationCampaign_def)
  have ran: "verify_method_campaign pystr writes sha text_of P E m campaign pair arm truth model family cache = Inr (?c, cache')"
    by (simp add: verify_method_campaign_def run status made)
  note verdict = status [unfolded campaign_status_cases]
  have avail: "vc_availability ?c = CampaignAvailable \<longleftrightarrow> \<not> provider_failed m \<and> \<not> stage_seen os StageCrash \<and>
      \<not> stage_seen os StageTimeout \<and> \<not> stage_seen os StageUnknown \<and> \<not> stage_seen os StageUnsupported"
    using verdict by (auto split: if_splits)
  have pair: "(vc_availability ?c, vc_missing ?c) =
        (if provider_failed m then (CampaignUnknown, Some ''provider_failure_or_partial_archive'')
         else if stage_seen os StageCrash then (CampaignUnknown, Some ''verification_stage_crash'')
         else if stage_seen os StageTimeout \<or> stage_seen os StageUnknown
           then (CampaignUnknown, Some ''verification_stage_incomplete'')
         else if stage_seen os StageUnsupported
           then (CampaignUnsupportedRuntime, Some ''runtime_or_backend_unsupported'')
         else (CampaignAvailable, None))"
    using verdict by simp
  show ?thesis unfolding if_P [OF True]
  proof (intro exI [of _ ?c] conjI)
    show "verify_method_campaign pystr writes sha text_of P E m campaign pair arm truth model family cache = Inr (?c, cache')"
      by (rule ran)
    show "map (\<lambda>o'. ci_index (vo_candidate o')) os = map int [0..<length (run_slots m)]" using facts(1) index by simp
    show "vc_availability ?c = CampaignAvailable \<longleftrightarrow> \<not> provider_failed m \<and> \<not> stage_seen os StageCrash \<and>
      \<not> stage_seen os StageTimeout \<and> \<not> stage_seen os StageUnknown \<and> \<not> stage_seen os StageUnsupported"
      by (rule avail)
  qed (use facts(1) pair in simp_all)
qed

theorem method_campaign_accepted_witness:
  "\<exists>os c. verify_method_run sample_str (\<lambda>i. True) sample_sha (\<lambda>d. '''') sample_pipeline (\<lambda>i. sample_executors)
      compiled_run ''k'' (ci_pair sample_input) ''x'' None = Inr (os, None) \<and>
    verify_method_campaign sample_str (\<lambda>i. True) sample_sha (\<lambda>d. '''') sample_pipeline (\<lambda>i. sample_executors)
      compiled_run ''k'' (ci_pair sample_input) ''x'' ''positive'' ''m'' ''f'' None = Inr (c, None) \<and> vc_slots c = 1"
proof -
  have "case verify_method_run sample_str (\<lambda>i. True) sample_sha (\<lambda>d. '''') sample_pipeline (\<lambda>i. sample_executors)
      compiled_run ''k'' (ci_pair sample_input) ''x'' None of Inl e \<Rightarrow> False | Inr (os, c) \<Rightarrow> c = None"
    by code_simp
  then obtain os where os: "verify_method_run sample_str (\<lambda>i. True) sample_sha (\<lambda>d. '''') sample_pipeline
      (\<lambda>i. sample_executors) compiled_run ''k'' (ci_pair sample_input) ''x'' None = Inr (os, None)"
    by (auto split: sum.splits)
  from method_campaign_accepted [OF os, of "''positive''" "''m''" "''f''"] os show ?thesis
    by (fastforce simp: compiled_run_def)
qed

section \<open>The metrics do not depend on the order of the campaigns\<close>

lemma metrics_unfold:
  "compute_verification_metrics repr sha campaigns prefixes contrasts = Inr m \<Longrightarrow>
     metric_prefixes prefixes = Inr (vm_prefixes m) \<and>
     validate_campaigns repr (sort_key row_key campaigns) (vm_prefixes m) = None \<and>
     vm_recall m = map (\<lambda>g. (g, map (\<lambda>p. (p, recall_metric
       (with_truth ''positive'' (in_group g (sort_key row_key campaigns))) p)) (vm_prefixes m))) (vm_groups m)"
  by (auto simp: compute_verification_metrics_def Let_def result_simps split: option.splits)

lemma sort_row_key_mset:
  assumes "mset rows = mset rows'" "distinct (map vc_campaign rows)"
  shows "sort_key row_key rows = sort_key row_key rows'"
proof (rule sort_key_inj_key_eq)
  show "mset rows = mset (sort_key row_key rows')" using assms(1) by simp
  from assms(2) show "inj_on row_key (set rows)"
    by (auto simp: distinct_map inj_on_def row_key_def)
qed simp

lemma distinct_campaigns_mset:
  "mset rows = mset rows' \<Longrightarrow> distinct (map vc_campaign rows) = distinct (map vc_campaign rows')"
  by (rule mset_eq_imp_distinct_iff) simp

text \<open>
  The metrics are a function of the collection of campaigns, not of the order in which they
  are given: a permuted input gives the same metrics, the same input hash or the same error.
\<close>

theorem metrics_order_independent:
  assumes "mset campaigns = mset campaigns'"
  shows "compute_verification_metrics repr sha campaigns prefixes contrasts =
    compute_verification_metrics repr sha campaigns' prefixes contrasts"
proof (cases "distinct (map vc_campaign campaigns)")
  case True
  from sort_row_key_mset [OF assms this] show ?thesis by (simp add: compute_verification_metrics_def)
next
  case False
  have "\<not> distinct (map vc_campaign (sort_key row_key cs))" if "mset cs = mset campaigns" for cs
    using False distinct_campaigns_mset [of "sort_key row_key cs" campaigns] that by simp
  from this [of campaigns] this [of campaigns'] assms show ?thesis
    by (simp add: compute_verification_metrics_def validate_campaigns_def Let_def)
qed

definition sample_repr :: "string \<Rightarrow> string" where
  "sample_repr s = CHR 0x27 # s @ [CHR 0x27]"

definition sample_verified :: verification_outcome where
  "sample_verified = \<lparr>vo_candidate = sample_input, vo_stages = map (\<lambda>n. made_stage n StagePassed ''ok'') required_stages,
     vo_violation = Some True, vo_holds = Some False, vo_relevance = Some True, vo_verified = Some True,
     vo_first_failure = None, vo_cache_hit = False\<rparr>"

definition sample_campaign :: "string \<Rightarrow> string \<Rightarrow> string \<Rightarrow> verification_outcome list \<Rightarrow> verification_campaign" where
  "sample_campaign name arm truth os = \<lparr>vc_campaign = name, vc_arm = arm, vc_pair = ci_pair sample_input,
     vc_truth = truth, vc_slots = 1, vc_outcomes = os, vc_availability = CampaignAvailable, vc_missing = None,
     vc_model = ''m'', vc_family = ''f'', vc_timing = None\<rparr>"

theorem metrics_order_independent_witness:
  "compute_verification_metrics sample_repr sample_sha
      [sample_campaign ''k'' ''x'' ''positive'' [sample_verified], sample_campaign ''l'' ''y'' ''negative'' []] [1] [] =
    compute_verification_metrics sample_repr sample_sha
      [sample_campaign ''l'' ''y'' ''negative'' [], sample_campaign ''k'' ''x'' ''positive'' [sample_verified]] [1] []"
  by (rule metrics_order_independent) simp

section \<open>What a recall counts\<close>

lemma with_truth_sorted:
  "length (filter P (with_truth t (in_group g (sort_key row_key rows)))) = length (filter P (with_truth t (in_group g rows)))"
proof -
  have "mset (filter P (with_truth t (in_group g (sort_key row_key rows)))) =
      mset (filter P (with_truth t (in_group g rows)))"
    by (simp add: with_truth_def in_group_def)
  then show ?thesis by (metis size_mset)
qed

lemma prefix_metric_counts:
  shows "mt_total (prefix_metric note rows p) = length rows" "mt_known (prefix_metric note rows p) = length (filter campaign_available rows)"
    "mt_hits (prefix_metric note rows p) = length (filter (\<lambda>c. campaign_available c \<and> verified_hit p c) rows)"
    "mt_known (prefix_metric note rows p) + mt_missing (prefix_metric note rows p) = mt_total (prefix_metric note rows p)" "mt_hits (prefix_metric note rows p) \<le> mt_known (prefix_metric note rows p)"
    "mt_value (prefix_metric note rows p) = None \<longleftrightarrow> mt_known (prefix_metric note rows p) = 0" "mt_value (prefix_metric note rows p) = Some v \<Longrightarrow> 0 \<le> v \<and> v \<le> 1"
proof -
  have le: "length (filter (verified_hit p) (filter campaign_available rows)) \<le> length (filter campaign_available rows)"
    "length (filter campaign_available rows) \<le> length rows"
    by (rule length_filter_le)+
  then show "mt_total (prefix_metric note rows p) = length rows" "mt_known (prefix_metric note rows p) = length (filter campaign_available rows)"
    "mt_hits (prefix_metric note rows p) = length (filter (\<lambda>c. campaign_available c \<and> verified_hit p c) rows)"
    "mt_known (prefix_metric note rows p) + mt_missing (prefix_metric note rows p) = mt_total (prefix_metric note rows p)" "mt_hits (prefix_metric note rows p) \<le> mt_known (prefix_metric note rows p)"
    "mt_value (prefix_metric note rows p) = None \<longleftrightarrow> mt_known (prefix_metric note rows p) = 0"
    by (simp_all add: prefix_metric_def Let_def proportion_def conj_commute)
  show "mt_value (prefix_metric note rows p) = Some v \<Longrightarrow> 0 \<le> v \<and> v \<le> 1"
    using le(1) by (auto simp: prefix_metric_def Let_def proportion_def divide_le_eq_1 split: if_splits)
qed

lemma verified_hit_mono: "p \<le> q \<Longrightarrow> verified_hit p c \<Longrightarrow> verified_hit q c"
  unfolding verified_hit_def list_ex_iff by (meson order_less_le_trans)

lemma prefix_metric_value:
  "mt_value (prefix_metric note rows p) = (if mt_known (prefix_metric note rows p) = 0 then None
     else Some (of_nat (mt_hits (prefix_metric note rows p)) / of_nat (mt_known (prefix_metric note rows p))))"
  by (simp add: prefix_metric_def Let_def proportion_def)

definition positives :: "string \<Rightarrow> verification_campaign list \<Rightarrow> verification_campaign list" where
  "positives g campaigns = filter (\<lambda>c. vc_truth c = ''positive'' \<and>
     vc_arm c @ ''|'' @ vc_model c @ ''|'' @ vc_family c = g) campaigns"

lemma positives_eq: "with_truth ''positive'' (in_group g campaigns) = positives g campaigns"
  by (simp add: with_truth_def in_group_def positives_def group_key_def conj_commute)

lemma verified_hit_iff:
  "campaign_available c \<and> verified_hit p c \<longleftrightarrow> vc_availability c = CampaignAvailable \<and>
     (\<exists>o' \<in> set (vc_outcomes c). ci_index (vo_candidate o') < p \<and> vo_verified o' = Some True)"
  by (simp add: campaign_available_def verified_hit_def list_ex_iff)

text \<open>
  C29. A verified-recall metric counts exactly the positive campaigns of its group (same arm, model
  and property family): the known ones are those that are available, the hits are the available ones
  with a verified finding at an index below the prefix, an unavailable campaign is missing and never
  a miss. The value is the hits divided by the known campaigns, a proportion in \<open>[0, 1]\<close> that exists
  exactly when a campaign is available, and the hits never decrease with the prefix.
\<close>

theorem verified_recall_accounts:
  assumes "compute_verification_metrics repr sha campaigns prefixes contrasts = Inr m"
    and "(g, ms) \<in> set (vm_recall m)" "(p, x) \<in> set ms"
  shows "p \<in> set prefixes \<and> 0 < p \<and>
    mt_total x = length (positives g campaigns) \<and>
    mt_known x = length (filter (\<lambda>c. vc_availability c = CampaignAvailable) (positives g campaigns)) \<and>
    mt_known x + mt_missing x = mt_total x \<and>
    mt_missing x = length (filter (\<lambda>c. vc_availability c \<noteq> CampaignAvailable) (positives g campaigns)) \<and>
    mt_hits x = length (filter (\<lambda>c. vc_availability c = CampaignAvailable \<and>
        (\<exists>o' \<in> set (vc_outcomes c). ci_index (vo_candidate o') < p \<and> vo_verified o' = Some True))
      (positives g campaigns)) \<and>
    mt_value x = (if mt_known x = 0 then None else Some (of_nat (mt_hits x) / of_nat (mt_known x))) \<and>
    (\<forall>v. mt_value x = Some v \<longrightarrow> 0 \<le> v \<and> v \<le> 1) \<and>
    (\<forall>q y. (q, y) \<in> set ms \<and> p \<le> q \<longrightarrow> mt_hits x \<le> mt_hits y \<and> mt_known x = mt_known y)"
proof -
  note facts = metrics_unfold [OF assms(1)]
  let ?rows = "with_truth ''positive'' (in_group g (sort_key row_key campaigns))"
  have ms: "ms = map (\<lambda>p. (p, recall_metric ?rows p)) (vm_prefixes m)" using facts assms(2) by auto
  with assms(3) have p: "p \<in> set (vm_prefixes m)" and x: "x = prefix_metric ''no_available_campaigns'' ?rows p"
    by (auto simp: recall_metric_def)
  note same = with_truth_sorted [of _ "''positive''" g campaigns]
  have total: "mt_total x = length (positives g campaigns)"
    using same [of "\<lambda>_. True"] by (simp add: x prefix_metric_counts positives_eq)
  have known: "mt_known x = length (filter (\<lambda>c. vc_availability c = CampaignAvailable) (positives g campaigns))"
    using same [of campaign_available]
    by (simp add: x prefix_metric_counts positives_eq campaign_available_def [abs_def])
  have "length (filter campaign_available rows) + length (filter (\<lambda>c. vc_availability c \<noteq> CampaignAvailable) rows) =
      length rows" for rows
    using sum_length_filter_compl [of campaign_available rows] by (simp add: campaign_available_def)
  from this [of ?rows] have missing:
    "mt_missing x = length (filter (\<lambda>c. vc_availability c \<noteq> CampaignAvailable) (positives g campaigns))"
    using prefix_metric_counts(1,2,4) [of "''no_available_campaigns''" ?rows p] same by (simp add: x positives_eq)
  have mono: "mt_hits x \<le> mt_hits y \<and> mt_known x = mt_known y" if "(q, y) \<in> set ms" "p \<le> q" for q y
  proof -
    from that have "y = prefix_metric ''no_available_campaigns'' ?rows q" by (auto simp: ms recall_metric_def)
    moreover have "length (filter (\<lambda>c. campaign_available c \<and> verified_hit p c) ?rows)
        \<le> length (filter (\<lambda>c. campaign_available c \<and> verified_hit q c) ?rows)"
      using verified_hit_mono [OF that(2)] by (intro length_filter_mono) blast
    ultimately show ?thesis by (simp add: x prefix_metric_counts)
  qed
  have "vm_prefixes m = ordered_unique prefixes" "\<forall>v \<in> set prefixes. 0 < v"
    using facts by (auto simp: metric_prefixes_def Let_def list_ex_iff not_le split: if_splits)
  with p have "p \<in> set prefixes \<and> 0 < p" by simp
  moreover have "mt_hits x = length (filter (\<lambda>c. vc_availability c = CampaignAvailable \<and>
      (\<exists>o' \<in> set (vc_outcomes c). ci_index (vo_candidate o') < p \<and> vo_verified o' = Some True)) (positives g campaigns))"
    using same unfolding verified_hit_iff [symmetric] by (simp add: x prefix_metric_counts(3) positives_eq)
  moreover have "mt_known x + mt_missing x = mt_total x"
    unfolding x by (rule prefix_metric_counts)
  moreover have "mt_value x = (if mt_known x = 0 then None else Some (of_nat (mt_hits x) / of_nat (mt_known x)))"
    unfolding x by (rule prefix_metric_value)
  moreover have "\<forall>v. mt_value x = Some v \<longrightarrow> 0 \<le> v \<and> v \<le> 1"
    unfolding x by (intro allI impI) (rule prefix_metric_counts(7))
  ultimately show ?thesis using total known missing mono by blast
qed

theorem verified_recall_accounts_witness:
  "\<exists>m x. compute_verification_metrics sample_repr sample_sha [sample_campaign ''k'' ''x'' ''positive'' [sample_verified]] [1] [] = Inr m \<and>
     (''x|m|f'', [(1, x)]) \<in> set (vm_recall m) \<and> mt_known x + mt_missing x = mt_total x \<and> mt_hits x = 1"
proof -
  let ?rows = "[sample_campaign ''k'' ''x'' ''positive'' [sample_verified]]"
  have "metric_prefixes [1] = Inr [1]" "validate_campaigns sample_repr ?rows [1] = None" by code_simp+
  moreover have "case campaign_input_hash sample_sha ?rows [1] of Inl e \<Rightarrow> False | Inr h \<Rightarrow> True" by code_simp
  then obtain h where "campaign_input_hash sample_sha ?rows [1] = Inr h" by (auto split: sum.splits)
  moreover have "sorted_unique (map group_key ?rows) = [''x|m|f'']" by code_simp
  ultimately obtain m where m: "compute_verification_metrics sample_repr sample_sha ?rows [1] [] = Inr m"
    and "vm_recall m = [(''x|m|f'', [(1, recall_metric (with_truth ''positive'' (in_group ''x|m|f'' ?rows)) 1)])]"
    by (simp add: compute_verification_metrics_def Let_def)
  then obtain x where r: "vm_recall m = [(''x|m|f'', [(1, x)])]" by blast
  have "length (filter (\<lambda>c. vc_availability c = CampaignAvailable \<and>
      (\<exists>o' \<in> set (vc_outcomes c). ci_index (vo_candidate o') < 1 \<and> vo_verified o' = Some True)) (positives ''x|m|f'' ?rows)) = 1"
    by code_simp
  with verified_recall_accounts [OF m, of "''x|m|f''" "[(1, x)]" 1 x] m r show ?thesis by auto
qed

section \<open>Paired effects\<close>

lemma pair_effect_swap:
  "pair_effect rows right left prefix pair = map_option (\<lambda>(l, v). (l, - v)) (pair_effect rows left right prefix pair)"
  by (auto simp: pair_effect_def split: option.splits)

lemma map_filter_swap:
  "List.map_filter (pair_effect rows right left prefix) ps =
     map (\<lambda>(l, v). (l, - v)) (List.map_filter (pair_effect rows left right prefix) ps)"
  by (induction ps) (auto simp: List.map_filter_def pair_effect_swap [of rows right left])

lemma pair_effect_bound: "pair_effect rows left right prefix pair = Some e \<Longrightarrow> \<bar>snd e\<bar> \<le> 1"
  by (auto simp: pair_effect_def hit_value_def split: option.splits if_splits)

lemma mean_of_uminus: "mean_of (map uminus xs) = - mean_of xs"
proof -
  have "sum_list (map uminus xs) = - sum_list xs" by (induction xs) simp_all
  then show ?thesis by (simp add: mean_of_def)
qed

lemma mean_of_bound: "(\<And>x. x \<in> set xs \<Longrightarrow> \<bar>x\<bar> \<le> 1) \<Longrightarrow> \<bar>mean_of xs\<bar> \<le> 1"
proof (cases "xs = []")
  case False
  assume "\<And>x. x \<in> set xs \<Longrightarrow> \<bar>x\<bar> \<le> 1"
  with mean_of_range [OF False, of "-1" 1] have "-1 \<le> mean_of xs" "mean_of xs \<le> 1" by (simp_all add: abs_le_iff)
  then show ?thesis by (simp add: abs_le_iff)
qed (simp add: mean_of_def)

text \<open>
  A paired contrast is antisymmetric: exchanging the two arms negates the effect of every
  lineage, in the same order; and every effect is in \<open>[-1, 1]\<close>.
\<close>

theorem paired_effects_antisymmetric:
  "contrast_effects rows right left prefix = map uminus (contrast_effects rows left right prefix) \<and>
   list_all (\<lambda>v. \<bar>v\<bar> \<le> 1) (contrast_effects rows left right prefix)"
proof -
  let ?e = "List.map_filter (pair_effect rows left right prefix) (ordered_unique (map vc_pair rows))"
  have "map snd (filter (\<lambda>e. fst e = l) (map (\<lambda>(l, v). (l, - v)) es)) =
      map uminus (map snd (filter (\<lambda>e. fst e = l) es))" for l and es :: "(string \<times> rat) list"
    by (induction es) auto
  moreover have "map fst (map (\<lambda>(l, v). (l, - v)) es) = map fst es" for es :: "(string \<times> rat) list"
    by (induction es) auto
  ultimately have "contrast_effects rows right left prefix =
      map (\<lambda>l. - mean_of (map snd (filter (\<lambda>e. fst e = l) ?e))) (sorted_unique (map fst ?e))"
    by (simp only: contrast_effects_def Let_def map_filter_swap [of rows right left] mean_of_uminus)
  then have swap: "contrast_effects rows right left prefix = map uminus (contrast_effects rows left right prefix)"
    by (simp only: contrast_effects_def Let_def map_map o_def)
  have "\<bar>snd e\<bar> \<le> 1" if "e \<in> set ?e" for e
    using that pair_effect_bound by (auto simp: List.map_filter_def)
  then have "list_all (\<lambda>v. \<bar>v\<bar> \<le> 1) (contrast_effects rows left right prefix)"
    unfolding contrast_effects_def Let_def list_all_iff by (auto intro!: mean_of_bound)
  with swap show ?thesis by simp
qed

end
