(* ===== verification/Analysis_Recall.thy ===== *)
theory Analysis_Recall
  imports Verification_Metrics
begin

text \<open>
  The two recall endpoints (\<^verbatim>\<open>analysis/proposal_recall.py\<close>): recall over the prefixes of stored proposals,
  and recall over scheduled campaigns by budget.
\<close>

datatype analysis_error = AnalysisValue string

section \<open>Records\<close>

datatype batch_availability = BatchAvailable | BatchMissing

record recall_value =
  rv_value :: "rat option"
  rv_hits :: nat
  rv_known :: nat
  rv_total :: nat
  rv_missing :: nat
  rv_note :: "string option"

definition recall_value_dict :: "(rat \<Rightarrow> json) \<Rightarrow> recall_value \<Rightarrow> json" where
  "recall_value_dict secs m = JObj
     [(''value'', json_option (map_option secs (rv_value m))), (''hits'', JInt (int (rv_hits m))),
      (''known'', JInt (int (rv_known m))), (''total'', JInt (int (rv_total m))),
      (''missing'', JInt (int (rv_missing m))), (''note'', option_json (rv_note m))]"

record proposal_batch =
  pb_batch :: string
  pb_instance :: string
  pb_ordered :: "string list"
  pb_gold :: "string list"
  pb_availability :: batch_availability
  pb_missing :: "string option"

definition ProposalBatch :: "proposal_batch \<Rightarrow> analysis_error + proposal_batch" where
  "ProposalBatch b =
     (if pb_batch b = '''' \<or> pb_instance b = '''' then Inl (AnalysisValue ''proposal batch identity is required'')
      else if '''' \<in> set (pb_ordered b) then Inl (AnalysisValue ''ordered proposal IDs must be non-empty strings'')
      else if '''' \<in> set (pb_gold b) then Inl (AnalysisValue ''gold property IDs must be non-empty strings'')
      else if \<not> distinct (pb_gold b) then Inl (AnalysisValue ''gold property IDs must be unique'')
      else if pb_availability b = BatchAvailable then
        (if pb_gold b = [] \<or> pb_missing b \<noteq> None
           then Inl (AnalysisValue ''available proposal batch requires gold properties and no missing reason'')
         else Inr b)
      else if pb_missing b = None \<or> pb_missing b = Some ''''
        then Inl (AnalysisValue ''missing proposal batch requires a reason'')
      else Inr b)"

record prefix_recall_result =
  pr_prefixes :: "int list"
  pr_metrics :: "(int \<times> recall_value) list"
  pr_endpoint :: string

definition metrics_json :: "(rat \<Rightarrow> json) \<Rightarrow> (int \<times> recall_value) list \<Rightarrow> json" where
  "metrics_json secs ms = JObj (map (\<lambda>(n, m). (string_of_int n, recall_value_dict secs m)) ms)"

definition prefix_recall_dict :: "(rat \<Rightarrow> json) \<Rightarrow> prefix_recall_result \<Rightarrow> json" where
  "prefix_recall_dict secs r = JObj
     [(''schema_version'', JInt 1), (''endpoint'', JStr (pr_endpoint r)),
      (''prefixes'', JArr (map JInt (pr_prefixes r))), (''metrics'', metrics_json secs (pr_metrics r)),
      (''endpoint_separation'', JStr ''stored_ordered_proposals_only'')]"

record end_to_end_observation =
  eo_observation :: string
  eo_instance :: string
  eo_budget :: int
  eo_detected :: "bool option"
  eo_availability :: batch_availability
  eo_missing :: "string option"

definition EndToEndObservation :: "end_to_end_observation \<Rightarrow> analysis_error + end_to_end_observation" where
  "EndToEndObservation x =
     (if eo_observation x = '''' \<or> eo_instance x = '''' \<or> eo_budget x \<le> 0
        then Inl (AnalysisValue ''end-to-end observation identity and budget are required'')
      else if eo_availability x = BatchAvailable then
        (if eo_detected x = None \<or> eo_missing x \<noteq> None
           then Inl (AnalysisValue ''available end-to-end observation requires detected boolean'')
         else Inr x)
      else if eo_missing x = None
        then Inl (AnalysisValue ''missing end-to-end observation requires a reason'')
      else Inr x)"

record end_to_end_result =
  er_budgets :: "int list"
  er_metrics :: "(int \<times> recall_value) list"
  er_endpoint :: string

definition end_to_end_dict :: "(rat \<Rightarrow> json) \<Rightarrow> end_to_end_result \<Rightarrow> json" where
  "end_to_end_dict secs r = JObj
     [(''schema_version'', JInt 1), (''endpoint'', JStr (er_endpoint r)),
      (''budgets'', JArr (map JInt (er_budgets r))), (''metrics'', metrics_json secs (er_metrics r)),
      (''endpoint_separation'', JStr ''scheduled_campaign_outcomes_only'')]"

section \<open>The endpoints\<close>

definition recall_prefixes :: "int list \<Rightarrow> analysis_error + int list" where
  "recall_prefixes values =
     (let result = ordered_unique values in
      if result = [] \<or> list_ex (\<lambda>v. v \<le> 0) result
        then Inl (AnalysisValue ''prefix/budget values must be positive'')
      else Inr result)"

definition unique_ids :: "string list \<Rightarrow> string \<Rightarrow> analysis_error + unit" where
  "unique_ids identifiers label =
     (if '''' \<in> set identifiers \<or> \<not> distinct identifiers
        then Inl (AnalysisValue (label @ '' must be unique and non-empty''))
      else Inr ())"

definition batch_hit :: "int \<Rightarrow> proposal_batch \<Rightarrow> bool" where
  "batch_hit prefix b = list_ex (\<lambda>p. p \<in> set (pb_gold b)) (take (nat prefix) (pb_ordered b))"

definition batch_recall :: "proposal_batch list \<Rightarrow> int \<Rightarrow> recall_value" where
  "batch_recall rows prefix =
     (let known_rows = filter (\<lambda>b. pb_availability b = BatchAvailable) rows;
          hits = length (filter (batch_hit prefix) known_rows);
          known = length known_rows
      in \<lparr>rv_value = proportion hits known, rv_hits = hits, rv_known = known, rv_total = length rows,
          rv_missing = length rows - known,
          rv_note = (if known \<noteq> 0 then None else Some ''no_available_proposal_batches'')\<rparr>)"

definition proposal_prefix_recall ::
    "proposal_batch list \<Rightarrow> int list \<Rightarrow> analysis_error + prefix_recall_result" where
  "proposal_prefix_recall batches prefixes =
     bind_result (recall_prefixes prefixes) (\<lambda>ps.
     bind_result (unique_ids (map pb_batch batches) ''proposal batch IDs'') (\<lambda>_. Inr
       \<lparr>pr_prefixes = ps, pr_metrics = map (\<lambda>p. (p, batch_recall batches p)) ps,
        pr_endpoint = ''proposal_prefix_recall''\<rparr>))"

definition budget_recall :: "end_to_end_observation list \<Rightarrow> int \<Rightarrow> recall_value" where
  "budget_recall rows budget =
     (let selected = filter (\<lambda>x. eo_budget x = budget) rows;
          known_rows = filter (\<lambda>x. eo_availability x = BatchAvailable) selected;
          hits = length (filter (\<lambda>x. eo_detected x = Some True) known_rows);
          known = length known_rows
      in \<lparr>rv_value = proportion hits known, rv_hits = hits, rv_known = known, rv_total = length selected,
          rv_missing = length selected - known,
          rv_note = (if selected = [] then Some ''no_scheduled_observations''
                     else if known = 0 then Some ''no_available_observations'' else None)\<rparr>)"

definition end_to_end_budget_recall ::
    "end_to_end_observation list \<Rightarrow> int list \<Rightarrow> analysis_error + end_to_end_result" where
  "end_to_end_budget_recall observations budgets =
     bind_result (recall_prefixes budgets) (\<lambda>bs.
     bind_result (unique_ids (map eo_observation observations) ''end-to-end observation IDs'') (\<lambda>_.
       if list_ex (\<lambda>x. eo_budget x \<notin> set bs) observations
         then Inl (AnalysisValue ''observation budget is outside the requested endpoint'')
       else Inr \<lparr>er_budgets = bs, er_metrics = map (\<lambda>b. (b, budget_recall observations b)) bs,
                  er_endpoint = ''end_to_end_budget_recall''\<rparr>))"

section \<open>Laws\<close>

lemma batch_hit_mono: "p \<le> q \<Longrightarrow> batch_hit p b \<Longrightarrow> batch_hit q b"
  unfolding batch_hit_def list_ex_iff using set_take_subset_set_take [of "nat p" "nat q" "pb_ordered b"]
  by (auto simp: nat_mono)

text \<open>Every observation is scheduled under exactly one budget.\<close>

lemma budget_totals:
  assumes "end_to_end_budget_recall observations budgets = Inr r"
  shows "sum_list (map (\<lambda>m. rv_total (snd m)) (er_metrics r)) = length observations"
proof -
  from assms have r: "er_metrics r = map (\<lambda>b. (b, budget_recall observations b)) (ordered_unique budgets)"
    and inside: "\<forall>x \<in> set observations. eo_budget x \<in> set (ordered_unique budgets)"
    by (auto simp: end_to_end_budget_recall_def recall_prefixes_def Let_def result_simps list_ex_iff split: if_splits)
  have "sum_list (map (\<lambda>b. length (filter (\<lambda>x. eo_budget x = b) xs)) bs) = length xs"
    if "distinct bs" "\<forall>x \<in> set xs. eo_budget x \<in> set bs" for bs and xs :: "end_to_end_observation list"
    using that
  proof (induction xs)
    case (Cons x xs)
    have "sum_list (map (\<lambda>b. length (filter (\<lambda>y. eo_budget y = b) (x # xs))) bs) =
        sum_list (map (\<lambda>b. (if b = eo_budget x then 1 else 0) + length (filter (\<lambda>y. eo_budget y = b) xs)) bs)"
      by (rule arg_cong [where f = sum_list]) (auto intro: map_cong)
    also have "\<dots> = sum_list (map (\<lambda>b. if b = eo_budget x then 1 else 0) bs) + length xs"
      using Cons by (simp add: sum_list_addf)
    also have "sum_list (map (\<lambda>b. if b = eo_budget x then 1 else 0) bs) = (1::nat)"
      using Cons.prems by (simp add: sum_list_distinct_conv_sum_set)
    finally show ?case by simp
  qed simp
  from this [OF distinct_ordered_unique inside] show ?thesis
    by (simp add: r o_def budget_recall_def Let_def)
qed

end
