(* ===== verification/Analysis_Estimands.thy ===== *)
theory Analysis_Estimands
  imports Analysis_Recall
begin

text \<open>
  The estimands over raw campaign outcomes (\<^verbatim>\<open>analysis/estimands.py\<close>): hierarchy-aware rates, false
  discoveries, time endpoints with their survival table, and paired effects. Measurements are exact
  rationals, where the code has (finite) floats.
\<close>

section \<open>Raw outcomes\<close>

datatype outcome_availability =
    OutcomeAvailable | OutcomeProviderFailure | OutcomeTimeout | OutcomeUnsupported | OutcomeUnknown

fun outcome_availability_value :: "outcome_availability \<Rightarrow> string" where
  "outcome_availability_value OutcomeAvailable = ''available''"
| "outcome_availability_value OutcomeProviderFailure = ''provider_failure''"
| "outcome_availability_value OutcomeTimeout = ''timeout''"
| "outcome_availability_value OutcomeUnsupported = ''unsupported''"
| "outcome_availability_value OutcomeUnknown = ''unknown''"

record campaign_outcome =
  co_campaign :: string
  co_instance :: string
  co_lineage :: string
  co_method :: string
  co_replicate :: int
  co_truth :: string
  co_detected :: "bool option"
  co_useful :: "bool option"
  co_claim :: "bool option"
  co_correct :: "bool option"
  co_witness :: "bool option"
  co_replay :: "bool option"
  co_claim_time :: "rat option"
  co_witness_time :: "rat option"
  co_horizon :: rat
  co_availability :: outcome_availability
  co_failure :: "string option"

definition negative_time :: "rat option \<Rightarrow> bool" where
  "negative_time t = (case t of None \<Rightarrow> False | Some v \<Rightarrow> v < 0)"

definition CampaignOutcome :: "campaign_outcome \<Rightarrow> analysis_error + campaign_outcome" where
  "CampaignOutcome c =
     (if list_ex (\<lambda>s. s = '''') [co_campaign c, co_instance c, co_lineage c, co_method c]
        then Inl (AnalysisValue ''campaign identity fields are required'')
      else if co_replicate c \<le> 0 then Inl (AnalysisValue ''replicate must be positive'')
      else if co_truth c \<notin> {''positive'', ''negative'', ''unresolved''}
        then Inl (AnalysisValue ''ground_truth must be positive, negative or unresolved'')
      else if co_horizon c \<le> 0 then Inl (AnalysisValue ''horizon_seconds must be finite and positive'')
      else if negative_time (co_claim_time c)
        then Inl (AnalysisValue ''claim_time_seconds must be finite and non-negative'')
      else if negative_time (co_witness_time c)
        then Inl (AnalysisValue ''witness_time_seconds must be finite and non-negative'')
      else Inr c)"

section \<open>Metrics\<close>

record measure =
  ms_value :: "rat option"
  ms_known :: nat
  ms_total :: nat
  ms_missing :: nat
  ms_note :: "string option"

definition measure_dict :: "(rat \<Rightarrow> json) \<Rightarrow> measure \<Rightarrow> json dict" where
  "measure_dict secs m =
     [(''value'', json_option (map_option secs (ms_value m))), (''known'', JInt (int (ms_known m))),
      (''total'', JInt (int (ms_total m))), (''missing'', JInt (int (ms_missing m))),
      (''note'', option_json (ms_note m))]"

text \<open>\<^verbatim>\<open>d.setdefault(key, []).append(value)\<close> over the items in order.\<close>

definition group_values :: "('k \<times> 'v) list \<Rightarrow> ('k \<times> 'v list) list" where
  "group_values xs =
     map (\<lambda>k. (k, map snd (filter (\<lambda>e. fst e = k) xs))) (ordered_unique (map fst xs))"

text \<open>Instances are averaged first, then the instances of a lineage; lineages in the order of their names.\<close>

definition lineage_means :: "((string \<times> string) \<times> rat) list \<Rightarrow> rat list" where
  "lineage_means scores =
     (let instance_means = map (\<lambda>(k, vs). (k, mean_of vs)) (group_values scores);
          by_lineage = group_values (map (\<lambda>((lineage, _), v). (lineage, v)) instance_means)
      in map (\<lambda>(_, vs). mean_of vs) (sort_key fst by_lineage))"

definition mean_option :: "rat list \<Rightarrow> rat option" where
  "mean_option xs = (if xs = [] then None else Some (mean_of xs))"

definition unit_key :: "campaign_outcome \<Rightarrow> string \<times> string" where
  "unit_key c = (co_lineage c, co_instance c)"

definition binary_scores :: "(campaign_outcome \<Rightarrow> bool option) \<Rightarrow> campaign_outcome list \<Rightarrow> ((string \<times> string) \<times> rat) list" where
  "binary_scores field selected =
     List.map_filter (\<lambda>c. map_option (\<lambda>b. (unit_key c, hit_value b)) (field c)) selected"

definition select_rows :: "campaign_outcome list \<Rightarrow> string \<Rightarrow> string \<Rightarrow> campaign_outcome list" where
  "select_rows rows method truth = filter (\<lambda>c. co_method c = method \<and> co_truth c = truth) rows"

definition hierarchical_binary ::
    "campaign_outcome list \<Rightarrow> string \<Rightarrow> string \<Rightarrow> (campaign_outcome \<Rightarrow> bool option) \<Rightarrow> measure" where
  "hierarchical_binary rows method truth field =
     (let selected = select_rows rows method truth;
          scores = binary_scores field selected;
          means = lineage_means scores
      in \<lparr>ms_value = mean_option means, ms_known = length scores, ms_total = length selected,
          ms_missing = length selected - length scores,
          ms_note = (if means \<noteq> [] then None else Some ''no_known_measurements'')\<rparr>)"

definition false_discovery :: "campaign_outcome list \<Rightarrow> string \<Rightarrow> measure" where
  "false_discovery rows method =
     (let claims = filter (\<lambda>c. co_claim c = Some True) (select_rows rows method ''negative'');
          known = filter (\<lambda>c. co_correct c \<noteq> None) claims;
          false_claims = filter (\<lambda>c. co_correct c = Some False) known
      in \<lparr>ms_value = proportion (length false_claims) (length known), ms_known = length known,
          ms_total = length claims, ms_missing = length claims - length known,
          ms_note = (if claims = [] then Some ''precision_NA_no_claims'' else None)\<rparr>)"

section \<open>Time endpoints\<close>

record time_endpoint =
  te_restricted :: measure
  te_conditioned :: measure
  te_intention :: measure
  te_survival :: "(rat \<times> nat \<times> nat \<times> rat) list"

text \<open>A survival row: the time, the number at risk, the events and the survival.\<close>

definition survival_row_dict :: "(rat \<Rightarrow> json) \<Rightarrow> rat \<times> nat \<times> nat \<times> rat \<Rightarrow> json" where
  "survival_row_dict secs = (\<lambda>(time, risk, events, survival). JObj
     [(''time'', secs time), (''at_risk'', JInt (int risk)), (''events'', JInt (int events)),
      (''survival'', secs survival)])"

definition time_endpoint_dict :: "(rat \<Rightarrow> json) \<Rightarrow> time_endpoint \<Rightarrow> json" where
  "time_endpoint_dict secs t = JObj
     [(''restricted'', JObj (measure_dict secs (te_restricted t))),
      (''availability_conditioned'', JObj (measure_dict secs (te_conditioned t))),
      (''intention_to_run'', JObj (measure_dict secs (te_intention t))),
      (''kaplan_meier'', JArr (map (survival_row_dict secs) (te_survival t)))]"

text \<open>The event (or censoring) time of a row, which is also its restricted score.\<close>

definition censored_time :: "(campaign_outcome \<Rightarrow> rat option) \<Rightarrow> campaign_outcome \<Rightarrow> rat" where
  "censored_time field c = (case field c of None \<Rightarrow> co_horizon c | Some v \<Rightarrow> min v (co_horizon c))"

definition time_event :: "(campaign_outcome \<Rightarrow> rat option) \<Rightarrow> campaign_outcome \<Rightarrow> bool" where
  "time_event field c = (case field c of
       None \<Rightarrow> False | Some v \<Rightarrow> co_availability c = OutcomeAvailable \<and> v \<le> co_horizon c)"

fun survival_rows :: "(rat \<times> bool) list \<Rightarrow> rat list \<Rightarrow> rat \<Rightarrow> (rat \<times> nat \<times> nat \<times> rat) list" where
  "survival_rows obs [] survival = []"
| "survival_rows obs (t # ts) survival =
     (let risk = length (filter (\<lambda>(u, _). t \<le> u) obs);
          events = length (filter (\<lambda>(u, e). u = t \<and> e) obs);
          survival' = (if 0 < risk then survival * (1 - of_nat events / of_nat risk) else survival)
      in (t, risk, events, survival') # survival_rows obs ts survival')"

definition kaplan_meier ::
    "(campaign_outcome \<Rightarrow> rat option) \<Rightarrow> campaign_outcome list \<Rightarrow> (rat \<times> nat \<times> nat \<times> rat) list" where
  "kaplan_meier field rows =
     (let obs = map (\<lambda>c. (censored_time field c, time_event field c)) rows
      in survival_rows obs (sorted_unique (map fst obs)) 1)"

definition time_scores ::
    "(campaign_outcome \<Rightarrow> rat option) \<Rightarrow> campaign_outcome list \<Rightarrow> ((string \<times> string) \<times> rat) list" where
  "time_scores field rows = map (\<lambda>c. (unit_key c, censored_time field c)) rows"

definition known_times :: "(campaign_outcome \<Rightarrow> rat option) \<Rightarrow> campaign_outcome list \<Rightarrow> nat" where
  "known_times field rows = length (filter (\<lambda>c. field c \<noteq> None) rows)"

definition no_rows_measure :: measure where
  "no_rows_measure = \<lparr>ms_value = None, ms_known = 0, ms_total = 0, ms_missing = 0, ms_note = Some ''no_positive_rows''\<rparr>"

definition endpoint_of :: "campaign_outcome list \<Rightarrow> string \<Rightarrow> (campaign_outcome \<Rightarrow> rat option) \<Rightarrow> time_endpoint" where
  "endpoint_of rows method field =
     (let selected = select_rows rows method ''positive'' in
      if selected = [] then
        \<lparr>te_restricted = no_rows_measure, te_conditioned = no_rows_measure, te_intention = no_rows_measure,
         te_survival = []\<rparr>
      else
        let means = lineage_means (time_scores field selected);
            known = known_times field selected;
            available = filter (\<lambda>c. co_availability c = OutcomeAvailable) selected;
            conditioned = lineage_means (time_scores field available);
            conditioned_known = known_times field available
        in \<lparr>te_restricted = \<lparr>ms_value = Some (mean_of means), ms_known = known, ms_total = length selected,
              ms_missing = length selected - known, ms_note = Some ''censored_at_horizon''\<rparr>,
            te_conditioned = \<lparr>ms_value = mean_option conditioned, ms_known = conditioned_known,
              ms_total = length available, ms_missing = length available - conditioned_known,
              ms_note = Some (if conditioned \<noteq> [] then ''availability_conditioned'' else ''no_available_rows'')\<rparr>,
            te_intention = \<lparr>ms_value = Some (of_nat (length available) / of_nat (length selected)),
              ms_known = length selected, ms_total = length selected, ms_missing = 0,
              ms_note = Some ''available_execution_fraction''\<rparr>,
            te_survival = kaplan_meier field selected\<rparr>)"

definition hierarchical_time :: "campaign_outcome list \<Rightarrow> string \<Rightarrow> (campaign_outcome \<Rightarrow> rat option) \<Rightarrow> measure" where
  "hierarchical_time rows method field = te_restricted (endpoint_of rows method field)"

section \<open>Paired effects\<close>

type_synonym replicate_key = "string \<times> string \<times> int"

definition replicate_key :: "campaign_outcome \<Rightarrow> replicate_key" where
  "replicate_key c = (co_lineage c, co_instance c, co_replicate c)"

text \<open>A replicate's value for a method: the last row written.\<close>

definition replicate_value :: "campaign_outcome list \<Rightarrow> replicate_key \<Rightarrow> string \<Rightarrow> rat option" where
  "replicate_value rows k method = (case find (\<lambda>c. replicate_key c = k \<and> co_method c = method) (rev rows) of
       None \<Rightarrow> None | Some c \<Rightarrow> map_option hit_value (co_detected c))"

definition replicate_effect :: "campaign_outcome list \<Rightarrow> string \<Rightarrow> string \<Rightarrow> replicate_key \<Rightarrow> ((string \<times> string) \<times> rat) option" where
  "replicate_effect rows left right k = (case (replicate_value rows k left, replicate_value rows k right) of
       (Some l, Some r) \<Rightarrow> Some ((fst k, fst (snd k)), l - r) | _ \<Rightarrow> None)"

definition paired_rows :: "campaign_outcome list \<Rightarrow> string \<Rightarrow> string \<Rightarrow> campaign_outcome list" where
  "paired_rows rows left right =
     filter (\<lambda>c. co_truth c = ''positive'' \<and> co_method c \<in> {left, right} \<and> co_detected c \<noteq> None) rows"

definition paired_lineage_effects :: "campaign_outcome list \<Rightarrow> string \<Rightarrow> string \<Rightarrow> rat list" where
  "paired_lineage_effects rows left right =
     (let paired = paired_rows rows left right;
          effects = List.map_filter (replicate_effect paired left right) (sorted_unique (map replicate_key paired))
      in lineage_means effects)"

section \<open>The report\<close>

text \<open>The four counts of every stage; availability counts the campaigns by their availability.\<close>

definition stage_counts :: "campaign_outcome list \<Rightarrow> (campaign_outcome \<Rightarrow> bool option) \<Rightarrow> nat dict" where
  "stage_counts selected field =
     (let known = length (filter (\<lambda>c. field c \<noteq> None) selected) in
      [(''total'', length selected), (''known'', known), (''missing'', length selected - known),
       (''positive'', length (filter (\<lambda>c. field c = Some True) selected))])"

definition availability_counts :: "campaign_outcome list \<Rightarrow> nat dict" where
  "availability_counts selected =
     map (\<lambda>(k, vs). (k, length vs)) (group_values (map (\<lambda>c. (outcome_availability_value (co_availability c), ())) selected))"

definition method_denominators :: "campaign_outcome list \<Rightarrow> string \<Rightarrow> nat dict dict" where
  "method_denominators rows method =
     (let selected = filter (\<lambda>c. co_method c = method) rows in
      map (\<lambda>(name, field). (name, stage_counts selected field))
        [(''detected'', co_detected), (''useful_proposal'', co_useful), (''native_witness'', co_witness),
         (''independent_replay'', co_replay), (''claim_emitted'', co_claim)] @
      [(''availability'', availability_counts selected)])"

record analysis_report =
  rep_methods :: "string list"
  rep_recall :: "measure dict"
  rep_useful :: "measure dict"
  rep_false_alert :: "measure dict"
  rep_fdp :: "measure dict"
  rep_witness :: "measure dict"
  rep_replay :: "measure dict"
  rep_witness_time :: "measure dict"
  rep_claim_time :: "measure dict"
  rep_paired :: "rat list dict"
  rep_denominators :: "nat dict dict dict"
  rep_time :: "time_endpoint dict dict"

definition measures_json :: "(rat \<Rightarrow> json) \<Rightarrow> measure dict \<Rightarrow> json" where
  "measures_json secs d = JObj (map (\<lambda>(k, m). (k, JObj (measure_dict secs m))) d)"

definition denominators_json :: "nat dict dict \<Rightarrow> json" where
  "denominators_json d = JObj (map (\<lambda>(k, ns). (k, JObj (map (\<lambda>(n, v). (n, JInt (int v))) ns))) d)"

definition report_dict :: "(rat \<Rightarrow> json) \<Rightarrow> analysis_report \<Rightarrow> json" where
  "report_dict secs r = JObj
     [(''schema_version'', JInt 1), (''methods'', strings_json (rep_methods r)),
      (''recall'', measures_json secs (rep_recall r)),
      (''useful_proposal_recall'', measures_json secs (rep_useful r)),
      (''false_alert_rate'', measures_json secs (rep_false_alert r)),
      (''false_discovery_proportion'', measures_json secs (rep_fdp r)),
      (''native_witness_yield'', measures_json secs (rep_witness r)),
      (''independent_replay_rate'', measures_json secs (rep_replay r)),
      (''witness_time'', measures_json secs (rep_witness_time r)),
      (''claim_time'', measures_json secs (rep_claim_time r)),
      (''paired_effects'', JObj (map (\<lambda>(k, vs). (k, JArr (map secs vs))) (rep_paired r))),
      (''stage_denominators'', JObj (map (\<lambda>(k, d). (k, denominators_json d)) (rep_denominators r))),
      (''time_details'', JObj (map (\<lambda>(k, ts).
         (k, JObj (map (\<lambda>(f, t). (f, time_endpoint_dict secs t)) ts))) (rep_time r)))]"

definition outcome_key :: "campaign_outcome \<Rightarrow> (string \<times> string) \<times> string \<times> int \<times> string" where
  "outcome_key c = ((co_lineage c, co_instance c), co_method c, co_replicate c, co_campaign c)"

definition analyze_outcomes ::
    "campaign_outcome list \<Rightarrow> (string \<times> string) option \<Rightarrow> analysis_error + analysis_report" where
  "analyze_outcomes outcomes compare_methods =
     (let rows = sort_key outcome_key outcomes in
      if \<not> distinct (map co_campaign rows)
        then Inl (AnalysisValue ''duplicate campaign_id would double count a raw outcome'')
      else
        let methods = sorted_unique (map co_method rows);
            per = (\<lambda>f. map (\<lambda>m. (m, f m)) methods) :: (string \<Rightarrow> measure) \<Rightarrow> measure dict
        in
        bind_result (case compare_methods of
            None \<Rightarrow> Inr []
          | Some (left, right) \<Rightarrow>
              if left \<notin> set methods \<or> right \<notin> set methods
                then Inl (AnalysisValue ''compare_methods must be present in outcomes'')
              else Inr [(left @ ''-minus-'' @ right, paired_lineage_effects rows left right)]) (\<lambda>paired. Inr
          \<lparr>rep_methods = methods,
           rep_recall = per (\<lambda>m. hierarchical_binary rows m ''positive'' co_detected),
           rep_useful = per (\<lambda>m. hierarchical_binary rows m ''positive'' co_useful),
           rep_false_alert = per (\<lambda>m. hierarchical_binary rows m ''negative'' co_claim),
           rep_fdp = per (false_discovery rows),
           rep_witness = per (\<lambda>m. hierarchical_binary rows m ''positive'' co_witness),
           rep_replay = per (\<lambda>m. hierarchical_binary rows m ''positive'' co_replay),
           rep_witness_time = per (\<lambda>m. hierarchical_time rows m co_witness_time),
           rep_claim_time = per (\<lambda>m. hierarchical_time rows m co_claim_time),
           rep_paired = paired,
           rep_denominators = map (\<lambda>m. (m, method_denominators rows m)) methods,
           rep_time = map (\<lambda>m. (m, [(''witness_time'', endpoint_of rows m co_witness_time),
             (''claim_time'', endpoint_of rows m co_claim_time)])) methods\<rparr>))"

text \<open>
  Verified campaigns as raw outcomes of the analysis (\<^verbatim>\<open>analysis/verification.py\<close>). \<open>seconds\<close> is the
  number of an elapsed time.
\<close>

section \<open>Projections of the selected outcomes\<close>

definition occurs_in :: "string \<Rightarrow> string \<Rightarrow> bool" where
  "occurs_in needle hay = list_ex (\<lambda>i. take (length needle) (drop i hay) = needle) [0..<length hay + 1]"

definition outcome_statuses :: "verification_outcome list \<Rightarrow> stage_status list" where
  "outcome_statuses os = concat (map (\<lambda>o'. map stage_state (vo_stages o')) os)"

definition analysis_availability :: "verification_campaign \<Rightarrow> verification_outcome list \<Rightarrow> outcome_availability" where
  "analysis_availability c os =
     (if vc_availability c = CampaignAvailable then OutcomeAvailable
      else let reason = (case vc_missing c of None \<Rightarrow> '''' | Some r \<Rightarrow> r) in
        if occurs_in ''provider_failure'' reason then OutcomeProviderFailure
        else if StageTimeout \<in> set (outcome_statuses os) \<or> occurs_in ''timeout'' reason then OutcomeTimeout
        else if vc_availability c = CampaignUnsupportedRuntime then OutcomeUnsupported
        else OutcomeUnknown)"

definition any_verified :: "verification_outcome list \<Rightarrow> outcome_availability \<Rightarrow> bool option" where
  "any_verified os a =
     (if a \<noteq> OutcomeAvailable then None else Some (list_ex (\<lambda>o'. vo_verified o' = Some True) os))"

definition candidate_outcomes :: "verification_outcome list \<Rightarrow> verification_outcome list" where
  "candidate_outcomes os = filter (\<lambda>o'. ci_status (vo_candidate o') = ''candidate'') os"

definition any_grounded_candidate :: "verification_outcome list \<Rightarrow> bool option" where
  "any_grounded_candidate os =
     (let candidates = candidate_outcomes os in
      if candidates = [] then Some False
      else Some (list_ex (\<lambda>o'. outcome_stage_status (vo_stages o') ''grounding'' = StagePassed) candidates))"

definition any_stage :: "verification_outcome list \<Rightarrow> string \<Rightarrow> stage_status \<Rightarrow> bool option" where
  "any_stage os name status =
     (if os = [] then Some False
      else let selected = candidate_outcomes os in
        if selected = [] then Some False
        else Some (list_ex (\<lambda>o'. outcome_stage_status (vo_stages o') name = status) selected))"

definition by_slot :: "verification_outcome list \<Rightarrow> verification_outcome list" where
  "by_slot os = sort_key (\<lambda>o'. ci_index (vo_candidate o')) os"

fun first_stage_time :: "(json \<Rightarrow> rat) \<Rightarrow> string \<Rightarrow> verification_outcome list \<Rightarrow> rat option" where
  "first_stage_time seconds name [] = None"
| "first_stage_time seconds name (o' # os) =
     (case find (\<lambda>s. stage_name s = name) (vo_stages o') of
        None \<Rightarrow> first_stage_time seconds name os
      | Some s \<Rightarrow> (case stage_elapsed s of
            Some v \<Rightarrow> if stage_state s = StagePassed then Some (seconds v) else first_stage_time seconds name os
          | None \<Rightarrow> first_stage_time seconds name os))"

definition claim_stages :: "string list" where
  "claim_stages = [''symbolic_search'', ''witness_check'', ''independent_replay'']"

text \<open>The first verified outcome decides, also when it has no time.\<close>

definition first_verified_time :: "(json \<Rightarrow> rat) \<Rightarrow> verification_outcome list \<Rightarrow> rat option" where
  "first_verified_time seconds os = (case find (\<lambda>o'. vo_verified o' = Some True) os of
       None \<Rightarrow> None
     | Some o' \<Rightarrow>
         let values = List.map_filter stage_elapsed (filter (\<lambda>s. stage_name s \<in> set claim_stages) (vo_stages o'))
         in if values = [] then None else Some (sum_list (map seconds values)))"

definition present :: "string option \<Rightarrow> bool" where
  "present t \<longleftrightarrow> t \<noteq> None \<and> t \<noteq> Some ''''"

definition campaign_first_failure :: "verification_campaign \<Rightarrow> verification_outcome list \<Rightarrow> string option" where
  "campaign_first_failure c os =
     (if present (vc_missing c) then vc_missing c
      else case find (\<lambda>o'. present (vo_first_failure o')) os of None \<Rightarrow> None | Some o' \<Rightarrow> vo_first_failure o')"

section \<open>The bridge\<close>

definition within_prefix :: "int \<Rightarrow> verification_campaign \<Rightarrow> verification_outcome list" where
  "within_prefix prefix c = filter (\<lambda>o'. ci_index (vo_candidate o') < prefix) (vc_outcomes c)"

definition analysis_row :: "(json \<Rightarrow> rat) \<Rightarrow> int \<Rightarrow> rat \<Rightarrow> verification_campaign \<Rightarrow> campaign_outcome" where
  "analysis_row seconds prefix horizon c =
     (let selected = within_prefix prefix c;
          availability = analysis_availability c selected;
          detected = any_verified selected availability
      in \<lparr>co_campaign = vc_campaign c, co_instance = pair_instance (vc_pair c), co_lineage = pair_lineage (vc_pair c),
          co_method = vc_arm c, co_replicate = pair_replicate (vc_pair c), co_truth = vc_truth c,
          co_detected = detected, co_useful = any_grounded_candidate selected, co_claim = detected,
          co_correct = (if detected = Some True then Some (vc_truth c = ''positive'') else None),
          co_witness = any_stage selected ''witness_check'' StagePassed,
          co_replay = any_stage selected ''independent_replay'' StagePassed,
          co_claim_time = (if detected = Some True then first_verified_time seconds (by_slot selected) else None),
          co_witness_time = first_stage_time seconds ''witness_check'' (by_slot selected),
          co_horizon = horizon, co_availability = availability,
          co_failure = campaign_first_failure c (by_slot selected)\<rparr>)"

definition campaigns_to_analysis_outcomes ::
    "(json \<Rightarrow> rat) \<Rightarrow> verification_campaign list \<Rightarrow> int \<Rightarrow> rat \<Rightarrow> analysis_error + campaign_outcome list" where
  "campaigns_to_analysis_outcomes seconds campaigns prefix horizon =
     (if prefix \<le> 0 then Inl (AnalysisValue ''prefix must be a positive integer'')
      else if horizon \<le> 0 then Inl (AnalysisValue ''horizon_seconds must be positive'')
      else bind_result (map_result (\<lambda>c.
          if vc_slots c < prefix then Inl (AnalysisValue ''prefix cannot exceed campaign slot_count'')
          else CampaignOutcome (analysis_row seconds prefix horizon c)) campaigns) (\<lambda>rows.
        Inr (sort_key outcome_key rows)))"

end
