(* ===== verification/Analysis_Properties.thy ===== *)
theory Analysis_Properties
  imports Analysis_Estimands Verification_Properties
begin

text \<open>
  What the estimands guarantee, and how they relate to the verification metrics on the same campaigns.
\<close>

section \<open>Rates\<close>

lemma group_values_nonempty: "(k, vs) \<in> set (group_values xs) \<Longrightarrow> vs \<noteq> []"
  by (force simp: group_values_def filter_empty_conv)

lemma group_values_from: "(k, vs) \<in> set (group_values xs) \<Longrightarrow> v \<in> set vs \<Longrightarrow> (k, v) \<in> set xs"
  by (auto simp: group_values_def)

lemma group_values_eq_Nil [simp]: "group_values xs = [] \<longleftrightarrow> xs = []"
  by (simp add: group_values_def)

lemma group_means_range:
  assumes "\<forall>(k, v) \<in> set xs. a \<le> v \<and> v \<le> b"
  shows "\<forall>(k, v) \<in> set (map (\<lambda>(k, vs). (k, mean_of vs)) (group_values xs)). a \<le> v \<and> v \<le> b"
proof -
  have "a \<le> mean_of vs \<and> mean_of vs \<le> b" if "(k, vs) \<in> set (group_values xs)" for k vs
    using that group_values_nonempty group_values_from assms by (intro mean_of_range) fastforce+
  then show ?thesis by fastforce
qed

lemma lineage_means_facts:
  "lineage_means scores = [] \<longleftrightarrow> scores = []"
  "\<forall>(k, v) \<in> set scores. a \<le> v \<and> v \<le> b \<Longrightarrow> \<forall>v \<in> set (lineage_means scores). a \<le> v \<and> v \<le> b"
proof -
  let ?inst = "map (\<lambda>(k, vs). (k, mean_of vs)) (group_values scores)"
  let ?lin = "map (\<lambda>((lineage, i), v). (lineage, v)) ?inst"
  show "lineage_means scores = [] \<longleftrightarrow> scores = []"
    by (simp add: lineage_means_def Let_def flip: length_0_conv)
      (simp add: length_0_conv)
  assume "\<forall>(k, v) \<in> set scores. a \<le> v \<and> v \<le> b"
  then have "\<forall>(k, v) \<in> set ?inst. a \<le> v \<and> v \<le> b" by (rule group_means_range)
  then have "\<forall>(k, v) \<in> set ?lin. a \<le> v \<and> v \<le> b" by fastforce
  then have "\<forall>(k, v) \<in> set (map (\<lambda>(k, vs). (k, mean_of vs)) (group_values ?lin)). a \<le> v \<and> v \<le> b"
    by (rule group_means_range)
  then show "\<forall>v \<in> set (lineage_means scores). a \<le> v \<and> v \<le> b"
    by (fastforce simp: lineage_means_def Let_def)
qed

lemma binary_scores_length: "length (binary_scores field rows) = length (filter (\<lambda>c. field c \<noteq> None) rows)"
  by (induction rows) (auto simp: binary_scores_def List.map_filter_def)

text \<open>
  A hierarchical rate keeps its denominators: known and missing rows together are the selected ones,
  a row is known exactly when it has a measurement, and the value, which exists exactly when
  something is known, is in \<open>[0, 1]\<close>.
\<close>

theorem hierarchical_rate_accounts:
  "let m = hierarchical_binary rows method truth field; selected = select_rows rows method truth in
   ms_total m = length selected \<and> ms_known m + ms_missing m = ms_total m \<and>
   ms_known m = length (filter (\<lambda>c. field c \<noteq> None) selected) \<and>
   (case ms_value m of None \<Rightarrow> ms_known m = 0 | Some v \<Rightarrow> 0 < ms_known m \<and> 0 \<le> v \<and> v \<le> 1)"
proof -
  let ?selected = "select_rows rows method truth"
  let ?scores = "binary_scores field ?selected"
  have "\<forall>(k, v) \<in> set ?scores. 0 \<le> v \<and> v \<le> 1"
    by (auto simp: binary_scores_def List.map_filter_def hit_value_def)
  from lineage_means_facts(2) [OF this] mean_of_range [of "lineage_means ?scores" 0 1]
  have "lineage_means ?scores \<noteq> [] \<Longrightarrow> 0 \<le> mean_of (lineage_means ?scores) \<and> mean_of (lineage_means ?scores) \<le> 1"
    by blast
  then have "case mean_option (lineage_means ?scores) of
      None \<Rightarrow> length ?scores = 0 | Some v \<Rightarrow> 0 < length ?scores \<and> 0 \<le> v \<and> v \<le> 1"
    by (simp add: mean_option_def lineage_means_facts(1))
  moreover have "length ?scores \<le> length ?selected" by (simp add: binary_scores_length)
  ultimately show ?thesis
    unfolding hierarchical_binary_def Let_def measure.simps binary_scores_length by simp
qed

section \<open>Survival\<close>

definition survival_of :: "rat \<times> nat \<times> nat \<times> rat \<Rightarrow> rat" where
  "survival_of r = snd (snd (snd r))"

lemma survival_rows_times: "map fst (survival_rows obs ts s) = ts"
  by (induction obs ts s rule: survival_rows.induct) (simp_all add: Let_def)

lemma survival_step:
  assumes "0 \<le> (s :: rat)" "e \<le> n" "0 < n"
  shows "0 \<le> s * (1 - of_nat e / of_nat n) \<and> s * (1 - of_nat e / of_nat n) \<le> s"
proof -
  have "0 \<le> (of_nat e / of_nat n :: rat)" "(of_nat e / of_nat n :: rat) \<le> 1" using assms(2,3) by simp_all
  then show ?thesis using assms(1) by (simp add: mult_left_le)
qed

lemma survival_rows_facts:
  assumes "0 \<le> s" "set ts \<subseteq> fst ` set obs"
  shows "list_all (\<lambda>(t, risk, events, v). 0 < risk \<and> events \<le> risk \<and> 0 \<le> v \<and> v \<le> s) (survival_rows obs ts s) \<and>
    sorted_wrt (\<lambda>r r'. survival_of r' \<le> survival_of r) (survival_rows obs ts s)"
  using assms
proof (induction obs ts s rule: survival_rows.induct)
  case (2 obs t ts s)
  let ?risk = "length (filter (\<lambda>(u, _). t \<le> u) obs)" and ?events = "length (filter (\<lambda>(u, e). u = t \<and> e) obs)"
  have events: "?events \<le> ?risk" by (rule length_filter_mono) auto
  from "2.prems"(2) have "filter (\<lambda>(u, _). t \<le> u) obs \<noteq> []" by (fastforce simp: filter_empty_conv)
  then have risk: "0 < ?risk" by simp
  let ?s = "s * (1 - of_nat ?events / of_nat ?risk)"
  note step = survival_step [OF "2.prems"(1) events risk]
  from "2.IH" [OF refl refl refl] "2.prems"(2) step risk
  have IH: "list_all (\<lambda>(t, risk, events, v). 0 < risk \<and> events \<le> risk \<and> 0 \<le> v \<and> v \<le> ?s) (survival_rows obs ts ?s)"
    "sorted_wrt (\<lambda>r r'. survival_of r' \<le> survival_of r) (survival_rows obs ts ?s)"
    by simp_all
  have "survival_rows obs (t # ts) s = (t, ?risk, ?events, ?s) # survival_rows obs ts ?s"
    using risk by (simp add: Let_def)
  with IH events risk step show ?case by (fastforce simp: list_all_iff survival_of_def)
qed simp

text \<open>
  The survival table is a survival curve: its times strictly increase, at every one of them some
  campaign is at risk and at most those have their event, and the survival is in \<open>[0, 1]\<close> and never
  increases.
\<close>

theorem kaplan_meier_curve:
  "let table = kaplan_meier field rows in
   sorted_wrt (\<lambda>r r'. fst r < fst r' \<and> survival_of r' \<le> survival_of r) table \<and>
   list_all (\<lambda>(t, risk, events, v). 0 < risk \<and> events \<le> risk \<and> 0 \<le> v \<and> v \<le> 1) table"
proof -
  define obs where "obs = map (\<lambda>c. (censored_time field c, time_event field c)) rows"
  define table where "table = survival_rows obs (sorted_unique (map fst obs)) 1"
  have table: "kaplan_meier field rows = table" by (simp add: kaplan_meier_def table_def obs_def Let_def)
  have "sorted_wrt (<) (map fst table)"
    by (simp add: table_def survival_rows_times strict_sorted_iff)
  then have "sorted_wrt (\<lambda>r r'. fst r < fst r') table" by (simp add: sorted_wrt_map)
  moreover have "list_all (\<lambda>(t, risk, events, v). 0 < risk \<and> events \<le> risk \<and> 0 \<le> v \<and> v \<le> 1) table"
    "sorted_wrt (\<lambda>r r'. survival_of r' \<le> survival_of r) table"
    unfolding table_def using survival_rows_facts [of 1 "sorted_unique (map fst obs)" obs] by simp_all
  ultimately show ?thesis by (simp add: table Let_def sorted_wrt_iff_nth_less)
qed

section \<open>From verified campaigns\<close>

lemma CampaignOutcome_Inr: "CampaignOutcome c = Inr c' \<Longrightarrow> c' = c"
  by (auto simp: CampaignOutcome_def split: if_splits)

lemma bridged_rows:
  assumes "campaigns_to_analysis_outcomes seconds campaigns prefix horizon = Inr rows"
  shows "rows = sort_key outcome_key (map (analysis_row seconds prefix horizon) campaigns)"
proof -
  let ?f = "\<lambda>c. if vc_slots c < prefix then Inl (AnalysisValue ''prefix cannot exceed campaign slot_count'')
      else CampaignOutcome (analysis_row seconds prefix horizon c)"
  from assms obtain made where made: "map_result ?f campaigns = Inr made" and rows: "rows = sort_key outcome_key made"
    by (auto simp: campaigns_to_analysis_outcomes_def result_simps split: if_splits)
  have "made = map (analysis_row seconds prefix horizon) campaigns"
  proof (rule nth_equalityI)
    show "length made = length (map (analysis_row seconds prefix horizon) campaigns)"
      using map_result_Inr_length [OF made] by simp
  next
    fix i assume "i < length made"
    then have i: "i < length campaigns" using map_result_Inr_length [OF made] by simp
    with map_result_Inr_nth [OF made i] show "made ! i = map (analysis_row seconds prefix horizon) campaigns ! i"
      by (auto dest: CampaignOutcome_Inr split: if_splits)
  qed
  with rows show ?thesis by simp
qed

lemma length_filter_sort: "length (filter P (sort_key f xs)) = length (filter P xs)"
  by (metis mset_filter mset_sort size_mset)

lemma bridged_count:
  assumes "campaigns_to_analysis_outcomes seconds campaigns prefix horizon = Inr rows"
  shows "length (filter P rows) = length (filter (\<lambda>c. P (analysis_row seconds prefix horizon c)) campaigns)"
  unfolding bridged_rows [OF assms] length_filter_sort by (simp add: filter_map o_def)

lemma analysis_row_sel [simp]:
  "co_method (analysis_row seconds prefix horizon c) = vc_arm c" "co_truth (analysis_row seconds prefix horizon c) = vc_truth c"
  "co_claim (analysis_row seconds prefix horizon c) = co_detected (analysis_row seconds prefix horizon c)"
  "co_correct (analysis_row seconds prefix horizon c) =
     (if co_detected (analysis_row seconds prefix horizon c) = Some True then Some (vc_truth c = ''positive'') else None)"
  by (simp_all add: analysis_row_def Let_def)

lemma analysis_row_detected:
  "co_detected (analysis_row seconds prefix horizon c) =
     (if campaign_available c then Some (verified_hit prefix c) else None)"
  by (auto simp: analysis_row_def Let_def any_verified_def analysis_availability_def campaign_available_def
      verified_hit_def within_prefix_def list_ex_iff)

definition two_campaigns :: "verification_campaign list" where
  "two_campaigns = map (\<lambda>(name, arm, truth). \<lparr>vc_campaign = name, vc_arm = arm,
     vc_pair = \<lparr>pair_lineage = ''l'', pair_instance = ''i'', pair_replicate = 1\<rparr>, vc_truth = truth, vc_slots = 1,
     vc_outcomes = [], vc_availability = CampaignAvailable, vc_missing = None, vc_model = ''m'', vc_family = ''f'',
     vc_timing = None\<rparr>) [(''a'', ''x'', ''positive''), (''b'', ''y'', ''negative'')]"

lemma two_campaigns_rows:
  obtains rows where "campaigns_to_analysis_outcomes (\<lambda>v. 0) two_campaigns 1 60 = Inr rows"
proof -
  have "case campaigns_to_analysis_outcomes (\<lambda>v. 0) two_campaigns 1 60 of Inl e \<Rightarrow> False | Inr rows \<Rightarrow> True"
    by code_simp
  with that show thesis by (auto split: sum.splits)
qed

text \<open>
  The analysis counts what the verification metrics count: on the same campaigns and prefix, the
  recall of an arm has the same total, known and missing campaigns, and its positive detections are
  the hits of the verified recall.
\<close>

theorem analysis_recall_agrees:
  assumes "campaigns_to_analysis_outcomes seconds campaigns prefix horizon = Inr rows"
  shows "let m = hierarchical_binary rows arm ''positive'' co_detected;
             x = recall_metric (filter (\<lambda>c. vc_arm c = arm) (with_truth ''positive'' campaigns)) prefix in
    ms_total m = mt_total x \<and> ms_known m = mt_known x \<and> ms_missing m = mt_missing x \<and>
    length (filter (\<lambda>r. co_detected r = Some True) (select_rows rows arm ''positive'')) = mt_hits x"
proof -
  note count = bridged_count [OF assms]
  have total: "length (select_rows rows arm ''positive'') =
      length (filter (\<lambda>c. vc_arm c = arm) (with_truth ''positive'' campaigns))"
    by (simp add: select_rows_def with_truth_def count conj_commute)
  have known: "length (filter (\<lambda>r. co_detected r \<noteq> None) (select_rows rows arm ''positive'')) =
      length (filter campaign_available (filter (\<lambda>c. vc_arm c = arm) (with_truth ''positive'' campaigns)))"
    unfolding select_rows_def with_truth_def filter_filter count
    by (rule arg_cong [where f = length], rule filter_cong) (auto simp: analysis_row_detected)
  have hits: "length (filter (\<lambda>r. co_detected r = Some True) (select_rows rows arm ''positive'')) =
      length (filter (verified_hit prefix) (filter campaign_available
        (filter (\<lambda>c. vc_arm c = arm) (with_truth ''positive'' campaigns))))"
    unfolding select_rows_def with_truth_def filter_filter count
    by (rule arg_cong [where f = length], rule filter_cong) (auto simp: analysis_row_detected)
  show ?thesis
    by (simp only: hierarchical_binary_def recall_metric_def prefix_metric_def Let_def measure.simps metric.simps
        binary_scores_length total known hits simp_thms)
qed

theorem analysis_recall_agrees_witness:
  "\<exists>rows. campaigns_to_analysis_outcomes (\<lambda>v. 0) two_campaigns 1 60 = Inr rows \<and>
    ms_known (hierarchical_binary rows ''x'' ''positive'' co_detected) = 1"
proof -
  obtain rows where rows: "campaigns_to_analysis_outcomes (\<lambda>v. 0) two_campaigns 1 60 = Inr rows"
    by (rule two_campaigns_rows)
  have "mt_known (recall_metric (filter (\<lambda>c. vc_arm c = ''x'') (with_truth ''positive'' two_campaigns)) 1) = 1"
    by code_simp
  with analysis_recall_agrees [OF rows, of "''x''"] rows show ?thesis by (auto simp: Let_def)
qed

text \<open>
  On verified campaigns the false-discovery proportion of the analysis carries no information: its
  denominator holds only claims on negative controls, so it is 1 whenever it exists. And a missing
  stage is never missing there: usefulness, witness and replay are always measured, also for a
  campaign that was not available.
\<close>

theorem analysis_fdp_degenerate:
  assumes "campaigns_to_analysis_outcomes seconds campaigns prefix horizon = Inr rows"
  shows "(ms_value (false_discovery rows arm) = None \<or> ms_value (false_discovery rows arm) = Some 1) \<and>
    ms_missing (false_discovery rows arm) = 0 \<and>
    list_all (\<lambda>r. co_useful r \<noteq> None \<and> co_witness r \<noteq> None \<and> co_replay r \<noteq> None) rows"
proof -
  let ?claims = "filter (\<lambda>c. co_claim c = Some True) (select_rows rows arm ''negative'')"
  have rows: "set rows = analysis_row seconds prefix horizon ` set campaigns"
    by (simp add: bridged_rows [OF assms])
  then have claims: "co_correct r = Some False" if "r \<in> set ?claims" for r
    using that by (auto simp: select_rows_def)
  have "filter (\<lambda>c. co_correct c \<noteq> None) ?claims = ?claims"
    "filter (\<lambda>c. co_correct c = Some False) ?claims = ?claims"
    by (rule filter_True; simp add: claims del: set_filter)+
  then have "false_discovery rows arm = \<lparr>ms_value = proportion (length ?claims) (length ?claims),
      ms_known = length ?claims, ms_total = length ?claims, ms_missing = length ?claims - length ?claims,
      ms_note = (if ?claims = [] then Some ''precision_NA_no_claims'' else None)\<rparr>"
    by (simp only: false_discovery_def Let_def)
  moreover have "list_all (\<lambda>r. co_useful r \<noteq> None \<and> co_witness r \<noteq> None \<and> co_replay r \<noteq> None) rows"
    by (auto simp: list_all_iff rows analysis_row_def Let_def any_grounded_candidate_def any_stage_def)
  ultimately show ?thesis by (auto simp: proportion_def)
qed

theorem analysis_fdp_degenerate_witness:
  "\<exists>rows. campaigns_to_analysis_outcomes (\<lambda>v. 0) two_campaigns 1 60 = Inr rows \<and>
    ms_missing (false_discovery rows ''y'') = 0"
proof -
  obtain rows where "campaigns_to_analysis_outcomes (\<lambda>v. 0) two_campaigns 1 60 = Inr rows"
    by (rule two_campaigns_rows)
  with analysis_fdp_degenerate [OF this] show ?thesis by blast
qed

end
