(* ===== verification/Analysis_Inference.thy ===== *)
theory Analysis_Inference
  imports Analysis_Recall
begin

text \<open>
  Inference over lineage effects (\<^verbatim>\<open>analysis/inference.py\<close> and \<^verbatim>\<open>analysis/reporting.py\<close>): the exact sign
  test, Holm's correction, the paired bootstrap and the families of contrasts. Values are exact
  rationals. \<^verbatim>\<open>random.Random(seed).choices\<close> is a parameter: \<open>choices seed i n k\<close> are the positions that
  the \<open>i\<close>-th call draws, \<open>k\<close> of them, from a population of \<open>n\<close>.
\<close>

section \<open>The sign test\<close>

record sign_test_result =
  st_wins :: nat
  st_losses :: nat
  st_ties :: nat
  st_effective :: nat
  st_p_value :: "rat option"

definition sign_test_dict :: "(rat \<Rightarrow> json) \<Rightarrow> sign_test_result \<Rightarrow> json" where
  "sign_test_dict secs r = JObj
     [(''wins'', JInt (int (st_wins r))), (''losses'', JInt (int (st_losses r))), (''ties'', JInt (int (st_ties r))),
      (''effective_n'', JInt (int (st_effective r))), (''p_value'', json_option (map_option secs (st_p_value r)))]"

definition tail_count :: "nat \<Rightarrow> nat \<Rightarrow> nat" where
  "tail_count n observed =
     sum_list (map (\<lambda>k. n choose k) (filter (\<lambda>k. min k (n - k) \<le> observed) [0..<n + 1]))"

definition exact_two_sided_sign_test :: "rat list \<Rightarrow> sign_test_result" where
  "exact_two_sided_sign_test effects =
     (let wins = length (filter (\<lambda>v. 0 < v) effects);
          losses = length (filter (\<lambda>v. v < 0) effects);
          n = wins + losses
      in \<lparr>st_wins = wins, st_losses = losses, st_ties = length effects - wins - losses, st_effective = n,
          st_p_value = (if n = 0 then None
            else Some (of_nat (tail_count n (min wins losses)) / 2 ^ n))\<rparr>)"

section \<open>Holm's correction\<close>

text \<open>The factor \<open>total - index\<close> is the number of values that are left.\<close>

fun holm_steps :: "rat \<Rightarrow> (string \<times> rat) list \<Rightarrow> rat dict" where
  "holm_steps running [] = []"
| "holm_steps running ((key, v) # rest) =
     (let running' = max running (min 1 (of_nat (length rest + 1) * v))
      in (key, running') # holm_steps running' rest)"

definition p_order :: "string \<times> rat \<Rightarrow> rat \<times> string" where
  "p_order = (\<lambda>(key, v). (v, key))"

definition holm_adjust :: "rat dict \<Rightarrow> analysis_error + rat dict" where
  "holm_adjust p_values =
     (if list_ex (\<lambda>(_, v). v < 0 \<or> 1 < v) p_values then Inl (AnalysisValue ''p-values must be in [0, 1]'')
      else Inr (holm_steps 0 (sort_key p_order p_values)))"

section \<open>The bootstrap\<close>

record bootstrap_summary =
  bs_estimate :: "rat option"
  bs_low :: "rat option"
  bs_high :: "rat option"
  bs_draws :: int
  bs_seed :: int
  bs_lineages :: nat

definition bootstrap_dict :: "(rat \<Rightarrow> json) \<Rightarrow> bootstrap_summary \<Rightarrow> json" where
  "bootstrap_dict secs b = JObj
     [(''estimate'', json_option (map_option secs (bs_estimate b))), (''ci_low'', json_option (map_option secs (bs_low b))),
      (''ci_high'', json_option (map_option secs (bs_high b))), (''draws'', JInt (bs_draws b)),
      (''seed'', JInt (bs_seed b)), (''lineage_count'', JInt (int (bs_lineages b)))]"

text \<open>Linear interpolation between the two neighbours of the position.\<close>

definition interpolate :: "rat list \<Rightarrow> rat \<Rightarrow> rat" where
  "interpolate values probability =
     (let position = of_nat (length values - 1) * probability;
          lower = nat \<lfloor>position\<rfloor>;
          upper = min (lower + 1) (length values - 1);
          fraction = position - of_nat lower
      in values ! lower + (values ! upper - values ! lower) * fraction)"

definition quantile :: "rat list \<Rightarrow> rat \<Rightarrow> analysis_error + rat" where
  "quantile values probability =
     (if values = [] then Inl (AnalysisValue ''quantile requires values'') else Inr (interpolate values probability))"

type_synonym choices = "int \<Rightarrow> nat \<Rightarrow> nat \<Rightarrow> nat \<Rightarrow> nat list"

definition resample :: "choices \<Rightarrow> int \<Rightarrow> rat list \<Rightarrow> nat \<Rightarrow> rat" where
  "resample choices seed values i = mean_of (map ((!) values) (choices seed i (length values) (length values)))"

definition lineage_values :: "rat dict \<Rightarrow> rat list" where
  "lineage_values effects = map snd (sort_key fst effects)"

definition paired_lineage_bootstrap ::
    "choices \<Rightarrow> rat dict \<Rightarrow> int \<Rightarrow> int \<Rightarrow> rat \<Rightarrow> analysis_error + bootstrap_summary" where
  "paired_lineage_bootstrap choices lineage_effects draws seed confidence =
     (if draws \<le> 0 then Inl (AnalysisValue ''draws must be positive'')
      else if \<not> (0 < confidence \<and> confidence < 1)
        then Inl (AnalysisValue ''confidence must be between zero and one'')
      else
        let values = lineage_values lineage_effects in
        if values = [] then
          Inr \<lparr>bs_estimate = None, bs_low = None, bs_high = None, bs_draws = draws, bs_seed = seed, bs_lineages = 0\<rparr>
        else
          let samples = sort (map (resample choices seed values) [0..<nat draws]);
              alpha = (1 - confidence) / 2
          in bind_result (quantile samples alpha) (\<lambda>low.
             bind_result (quantile samples (1 - alpha)) (\<lambda>high. Inr
               \<lparr>bs_estimate = Some (mean_of values), bs_low = Some low, bs_high = Some high, bs_draws = draws,
                bs_seed = seed, bs_lineages = length values\<rparr>)))"

section \<open>Families of contrasts\<close>

record contrast_inference =
  cn_contrast :: string
  cn_sign :: sign_test_result
  cn_bootstrap :: bootstrap_summary
  cn_adjusted :: "rat option"

definition contrast_dict :: "(rat \<Rightarrow> json) \<Rightarrow> contrast_inference \<Rightarrow> json" where
  "contrast_dict secs c = JObj
     [(''contrast'', JStr (cn_contrast c)), (''sign_test'', sign_test_dict secs (cn_sign c)),
      (''bootstrap'', bootstrap_dict secs (cn_bootstrap c)),
      (''adjusted_p_value'', json_option (map_option secs (cn_adjusted c)))]"

fun contrasts_error :: "rat dict dict \<Rightarrow> string option" where
  "contrasts_error [] = None"
| "contrasts_error ((name, values) # rest) =
     (if \<not> strip_nonempty name then Some ''contrast names must be non-empty strings''
      else if list_ex (\<lambda>(lineage, _). \<not> strip_nonempty lineage) values
        then Some ''contrast effects must be finite numeric lineage mappings''
      else contrasts_error rest)"

definition raw_p_values :: "sign_test_result dict \<Rightarrow> rat dict" where
  "raw_p_values signs = List.map_filter (\<lambda>(name, r). map_option (\<lambda>p. (name, p)) (st_p_value r)) signs"

text \<open>One contrast of the family, with its place in the order of the names.\<close>

definition infer_contrast ::
    "choices \<Rightarrow> sign_test_result dict \<Rightarrow> rat dict \<Rightarrow> int \<Rightarrow> int \<Rightarrow> nat \<times> string \<times> rat dict
       \<Rightarrow> analysis_error + contrast_inference" where
  "infer_contrast choices signs adjusted draws seed = (\<lambda>(index, name, values).
     bind_result (paired_lineage_bootstrap choices values draws (seed + int index) (95 / 100)) (\<lambda>b. Inr
       \<lparr>cn_contrast = name, cn_sign = the (dict_get signs name), cn_bootstrap = b,
        cn_adjusted = dict_get adjusted name\<rparr>))"

definition family_signs :: "rat dict dict \<Rightarrow> sign_test_result dict" where
  "family_signs family = map (\<lambda>(name, values). (name, exact_two_sided_sign_test (map snd values))) family"

definition analyze_contrast_family ::
    "choices \<Rightarrow> rat dict dict \<Rightarrow> int \<Rightarrow> int \<Rightarrow> rat \<Rightarrow> analysis_error + contrast_inference list" where
  "analyze_contrast_family choices contrasts draws seed alpha =
     (if \<not> (0 < alpha \<and> alpha \<le> 1) then Inl (AnalysisValue ''alpha must be in (0, 1]'')
      else case contrasts_error contrasts of
        Some e \<Rightarrow> Inl (AnalysisValue e)
      | None \<Rightarrow>
          let family = sort_key fst contrasts; signs = family_signs family in
          bind_result (holm_adjust (raw_p_values signs)) (\<lambda>adjusted.
            map_result (infer_contrast choices signs adjusted draws seed) (enumerate 0 family)))"

definition leave_one_lineage_out :: "rat dict \<Rightarrow> rat option dict" where
  "leave_one_lineage_out values =
     map (\<lambda>lineage.
       let remaining = map snd (filter (\<lambda>(k, _). k \<noteq> lineage) values)
       in (lineage, if remaining = [] then None else Some (mean_of remaining))) (map fst (sort_key fst values))"

end
