(* ===== verification/Analysis_Inference_Properties.thy ===== *)
theory Analysis_Inference_Properties
  imports Analysis_Inference "HOL-Library.Multiset"
begin

text \<open>
  What the inference procedures compute, against their textbook definitions.
\<close>

section \<open>The sign test\<close>

lemma tail_count_sum: "tail_count n m = (\<Sum>k \<in> {k. k \<le> n \<and> min k (n - k) \<le> m}. n choose k)"
proof -
  have "set (filter (\<lambda>k. min k (n - k) \<le> m) [0..<n + 1]) = {k. k \<le> n \<and> min k (n - k) \<le> m}" by auto
  then show ?thesis
    unfolding tail_count_def by (subst sum_list_distinct_conv_sum_set) simp_all
qed

lemma upper_tail_sum:
  assumes "m \<le> n"
  shows "(\<Sum>k \<in> {n - m..n}. n choose k) = (\<Sum>k\<le>m. n choose k)"
proof (rule sum.reindex_bij_witness [of _ "\<lambda>k. n - k" "\<lambda>k. n - k"])
  fix k assume "k \<in> {n - m..n}"
  then show "n choose (n - k) = n choose k" using binomial_symmetric [of k n] by simp
qed (use assms in auto)

lemma tail_count_doubled:
  assumes "m \<le> n"
  shows "tail_count n m = min (2 ^ n) (2 * (\<Sum>k\<le>m. n choose k))"
proof (cases "2 * m < n")
  case True
  then have "{k. k \<le> n \<and> min k (n - k) \<le> m} = {..m} \<union> {n - m..n}" and "{..m} \<inter> {n - m..n} = {}"
    by auto
  then have both: "tail_count n m = 2 * (\<Sum>k\<le>m. n choose k)"
    using upper_tail_sum [OF assms] by (simp add: tail_count_sum sum.union_disjoint)
  have "tail_count n m \<le> (\<Sum>k\<le>n. n choose k)"
    unfolding tail_count_sum by (rule sum_mono2) auto
  with both show ?thesis by (simp add: choose_row_sum)
next
  case False
  then have every: "{k. k \<le> n \<and> min k (n - k) \<le> m} = {..n}" and all: "{..n} = {..m} \<union> {n - m..n}"
    using assms by auto
  have "tail_count n m = 2 ^ n" by (simp only: tail_count_sum every choose_row_sum)
  moreover have "(\<Sum>k\<le>n. n choose k) \<le> (\<Sum>k\<le>m. n choose k) + (\<Sum>k \<in> {n - m..n}. n choose k)"
    unfolding all using sum.union_inter [of "{..m}" "{n - m..n}" "\<lambda>k. n choose k"] by simp
  then have "2 ^ n \<le> 2 * (\<Sum>k\<le>m. n choose k)"
    using upper_tail_sum [OF assms] by (simp add: choose_row_sum)
  ultimately show ?thesis by simp
qed

lemma sign_counts:
  "length (filter (\<lambda>v. 0 < v) xs) + length (filter (\<lambda>v. v < 0) xs) \<le> length (xs :: rat list)"
  by (induction xs) auto

lemma tail_count_pos: "0 < tail_count n m"
proof -
  have "n choose 0 \<le> (\<Sum>k \<in> {k. k \<le> n \<and> min k (n - k) \<le> m}. n choose k)"
    by (rule member_le_sum) auto
  then show ?thesis by (simp add: tail_count_sum)
qed

text \<open>
  C39. The sign test's p-value is the doubled lower tail of the fair binomial at the smaller of the two
  counts, capped at 1: it exists exactly when some effect is not zero, lies in \<open>(0, 1]\<close>, and does not
  change when all effects change their sign; wins, losses and ties cover all effects.
\<close>

theorem sign_test_two_sided:
  "let r = exact_two_sided_sign_test effects; n = st_effective r; m = min (st_wins r) (st_losses r);
       p = min 1 (2 * (\<Sum>k\<le>m. of_nat (n choose k)) / 2 ^ n) in
   st_wins r + st_losses r + st_ties r = length effects \<and>
   st_p_value r = (if list_all (\<lambda>v. v = 0) effects then None else Some p) \<and> 0 < p \<and> p \<le> 1 \<and>
   st_p_value (exact_two_sided_sign_test (map uminus effects)) = st_p_value r"
proof -
  define w l where "w = length (filter (\<lambda>v. 0 < v) effects)" and "l = length (filter (\<lambda>v. v < 0) effects)"
  define p where "p = min 1 (2 * (\<Sum>k\<le>min w l. rat_of_nat ((w + l) choose k)) / 2 ^ (w + l))"
  let ?r = "exact_two_sided_sign_test effects"
  have "rat_of_nat (tail_count (w + l) (min w l)) = min (2 ^ (w + l)) (2 * (\<Sum>k\<le>min w l. of_nat ((w + l) choose k)))"
    by (subst tail_count_doubled) (simp_all add: of_nat_min)
  then have tail: "rat_of_nat (tail_count (w + l) (min w l)) / 2 ^ (w + l) = p"
    by (simp add: p_def min_divide_distrib_right)
  have fields: "st_wins ?r = w" "st_losses ?r = l" "st_ties ?r = length effects - w - l" "st_effective ?r = w + l"
    "st_p_value ?r = (if w + l = 0 then None else Some p)"
    by (simp_all only: exact_two_sided_sign_test_def Let_def sign_test_result.simps w_def l_def
        tail [unfolded w_def l_def])
  have "length (filter (\<lambda>v. 0 < v) (map uminus effects)) = l" "length (filter (\<lambda>v. v < 0) (map uminus effects)) = w"
    unfolding w_def l_def by (induction effects) auto
  then have "st_p_value (exact_two_sided_sign_test (map uminus effects)) = (if w + l = 0 then None else Some p)"
    by (simp only: exact_two_sided_sign_test_def Let_def sign_test_result.simps add.commute [of l w]
        min.commute [of l w] tail)
  moreover have "w + l = 0 \<longleftrightarrow> list_all (\<lambda>v. v = 0) effects"
    unfolding w_def l_def by (auto simp: list_all_iff filter_empty_conv not_less intro: antisym)
  moreover have "0 < p" using tail_count_pos [of "w + l" "min w l"] by (simp add: tail [symmetric])
  moreover have "p \<le> 1" by (simp add: p_def)
  moreover have "w + l \<le> length effects" using sign_counts by (simp add: w_def l_def)
  ultimately show ?thesis by (simp only: Let_def fields p_def [symmetric]) simp
qed

section \<open>Holm's correction\<close>

lemma holm_steps_keys [simp]: "map fst (holm_steps r ps) = map fst ps"
  by (induction r ps rule: holm_steps.induct) (simp_all add: Let_def)

lemma holm_steps_length [simp]: "length (holm_steps r ps) = length ps"
  by (metis holm_steps_keys length_map)

lemma holm_steps_le:
  "i < length ps \<Longrightarrow> snd (holm_steps r ps ! i) \<le> a \<longleftrightarrow>
     r \<le> a \<and> (\<forall>j\<le>i. min 1 (of_nat (length ps - j) * snd (ps ! j)) \<le> a)"
proof (induction r ps arbitrary: i rule: holm_steps.induct)
  case (2 r key v rest)
  show ?case
  proof (cases i)
    case (Suc i')
    have "(\<forall>j\<le>Suc i'. P j) \<longleftrightarrow> P 0 \<and> (\<forall>j\<le>i'. P (Suc j))" for P
      by (metis Suc_le_mono le0 not0_implies_Suc)
    with Suc 2 show ?thesis by (auto simp: Let_def)
  qed (simp add: Let_def)
qed simp

lemma holm_order:
  "mset (sort_key p_order ps) = mset ps" "sorted (map snd (sort_key p_order ps))"
  "sorted_wrt (\<lambda>(k, v) (k', v'). v < v' \<or> v = v' \<and> k \<le> k') (sort_key p_order ps)"
proof -
  show "mset (sort_key p_order ps) = mset ps" by simp
  have s: "sorted_wrt (\<lambda>x y. p_order x \<le> p_order y) (sort_key p_order ps)"
    using sorted_sort_key [of p_order ps] by (simp add: sorted_map)
  then show "sorted_wrt (\<lambda>(k, v) (k', v'). v < v' \<or> v = v' \<and> k \<le> k') (sort_key p_order ps)"
    by (rule sorted_wrt_mono_rel [rotated]) (auto simp: p_order_def)
  show "sorted (map snd (sort_key p_order ps))"
    unfolding sorted_map by (rule sorted_wrt_mono_rel [OF _ s]) (auto simp: p_order_def)
qed

text \<open>
  C19. Holm's adjusted p-values are those of the step-down procedure: the adjusted keys come in an
  order of the given pairs \<open>p\<^sub>0 \<le> p\<^sub>1 \<le> \<dots>\<close> in which the raw values never decrease and equal
  values are ordered by their key; the hypothesis of rank \<open>i\<close> in it is rejected at a level \<open>0 \<le> \<alpha> < 1\<close>
  exactly when \<open>(n - j) p\<^sub>j \<le> \<alpha>\<close> for all ranks \<open>j \<le> i\<close>. No value is adjusted below its raw one or
  above 1, and the adjusted values never decrease along the order.
\<close>

theorem holm_step_down:
  assumes "holm_adjust p_values = Inr adjusted" and "i < length p_values" and "0 \<le> \<alpha>" "\<alpha> < 1"
  shows "\<exists>ps. mset ps = mset p_values \<and> sorted (map snd ps) \<and>
    sorted_wrt (\<lambda>(k, v) (k', v'). v < v' \<or> v = v' \<and> k \<le> k') ps \<and>
    map fst adjusted = map fst ps \<and>
    (snd (adjusted ! i) \<le> \<alpha> \<longleftrightarrow> (\<forall>j\<le>i. of_nat (length p_values - j) * snd (ps ! j) \<le> \<alpha>)) \<and>
    snd (ps ! i) \<le> snd (adjusted ! i) \<and> snd (adjusted ! i) \<le> 1 \<and>
    (\<forall>j\<le>i. snd (adjusted ! j) \<le> snd (adjusted ! i))"
proof -
  let ?ps = "sort_key p_order p_values"
  note order = holm_order [of p_values]
  from assms(1) have adj: "adjusted = holm_steps 0 ?ps" and range: "\<forall>(_, v) \<in> set p_values. 0 \<le> v \<and> v \<le> 1"
    by (auto simp: holm_adjust_def list_ex_iff not_less split: if_splits)
  note le = holm_steps_le [of i ?ps 0, folded adj]
  from assms(2) have i: "i < length ?ps" by simp
  then have v: "0 \<le> snd (?ps ! i)" "snd (?ps ! i) \<le> 1"
    using range nth_mem [OF i] by (auto simp: case_prod_beta)
  have "min 1 (of_nat (length ?ps - i) * snd (?ps ! i)) \<le> snd (adjusted ! i)"
    using le [OF i, of "snd (adjusted ! i)"] by blast
  moreover have "snd (?ps ! i) \<le> of_nat (length ?ps - i) * snd (?ps ! i)"
    using v(1) i mult_right_mono [of 1 "of_nat (length ?ps - i)" "snd (?ps ! i)"] by simp
  ultimately have "snd (?ps ! i) \<le> snd (adjusted ! i)" using v(2) by (simp add: min_def split: if_splits)
  moreover have "snd (adjusted ! i) \<le> 1" using le [OF i, of 1] by simp
  moreover have "snd (adjusted ! i) \<le> \<alpha> \<longleftrightarrow> (\<forall>j\<le>i. of_nat (length p_values - j) * snd (?ps ! j) \<le> \<alpha>)"
    using le [OF i, of \<alpha>] assms(3,4) by (simp add: min_le_iff_disj)
  moreover have "snd (adjusted ! j) \<le> snd (adjusted ! i)" if "j \<le> i" for j
    using that i le [of "snd (adjusted ! i)"] holm_steps_le [of j ?ps 0 "snd (adjusted ! i)", folded adj]
    by force
  ultimately show ?thesis using order by (intro exI [of _ ?ps]) (simp add: adj)
qed

theorem holm_step_down_witness:
  "\<exists>adjusted. holm_adjust [(''a'', 1 / 100), (''b'', 1 / 50)] = Inr adjusted \<and> snd (adjusted ! 1) \<le> 1 / 20"
proof -
  let ?p = "[(''a'', 1 / 100), (''b'', 1 / 50 :: rat)]"
  obtain adjusted where a: "holm_adjust ?p = Inr adjusted" by (simp add: holm_adjust_def)
  from holm_step_down [OF a, of 1 "1 / 20"] obtain ps where ps: "mset ps = mset ?p" "sorted (map snd ps)"
    "snd (adjusted ! 1) \<le> 1 / 20 \<longleftrightarrow> (\<forall>j\<le>1. of_nat (2 - j) * snd (ps ! j) \<le> 1 / 20)" by auto
  have "sorted_list_of_multiset (mset (map snd ps)) = map snd ps"
    using sorted_list_of_multiset_mset [of "map snd ps"] sorted_sort_id [OF ps(2)] by (simp only:)
  moreover have "mset (map snd ps) = {#1 / 100, 1 / 50#}" using ps(1) by simp
  ultimately have v: "map snd ps = [1 / 100, 1 / 50]" by simp
  then have "length ps = 2" by (metis length_map length_Cons list.size(3) One_nat_def Suc_1)
  with v have "snd (ps ! 0) = 1 / 100" "snd (ps ! 1) = 1 / 50"
    by (metis nth_map nth_Cons_0 zero_less_numeral) (metis \<open>length ps = 2\<close> v nth_map nth_Cons_Suc nth_Cons_0 One_nat_def one_less_numeral_iff semiring_norm(76))
  with a ps(3) show ?thesis by (auto simp: le_Suc_eq)
qed

section \<open>The bootstrap\<close>

lemma interpolate_position:
  fixes p :: rat
  assumes "xs \<noteq> []" "0 \<le> p" "p \<le> 1"
  defines "k \<equiv> nat \<lfloor>of_nat (length xs - 1) * p\<rfloor>"
  shows "k < length xs" "of_nat k \<le> of_nat (length xs - 1) * p" "of_nat (length xs - 1) * p < of_nat k + 1"
proof -
  let ?x = "of_nat (length xs - 1) * p"
  have x: "0 \<le> ?x" "?x \<le> of_nat (length xs - 1)"
    using assms(2,3) mult_left_le [of p "of_nat (length xs - 1)"] by simp_all
  then have k: "of_nat k = (of_int \<lfloor>?x\<rfloor> :: rat)" by (simp add: k_def)
  show lower: "of_nat k \<le> ?x" and "?x < of_nat k + 1"
    unfolding k using of_int_floor_le floor_less_iff [of ?x "\<lfloor>?x\<rfloor> + 1"] by (simp_all add: algebra_simps)
  from lower x have "of_nat k \<le> (of_nat (length xs - 1) :: rat)" by simp
  then show "k < length xs" using assms(1) by (simp only: of_nat_le_iff) (cases xs, simp_all)
qed

lemma interpolate_between:
  fixes p :: rat
  assumes "sorted xs" "xs \<noteq> []" "0 \<le> p" "p \<le> 1"
  defines "k \<equiv> nat \<lfloor>of_nat (length xs - 1) * p\<rfloor>"
  shows "xs ! k \<le> interpolate xs p" "interpolate xs p \<le> xs ! min (k + 1) (length xs - 1)"
proof -
  note pos = interpolate_position [OF assms(2-4), folded k_def]
  let ?u = "min (k + 1) (length xs - 1)" and ?f = "of_nat (length xs - 1) * p - of_nat k"
  have f: "0 \<le> ?f" "?f \<le> 1" using pos by simp_all
  have d: "0 \<le> xs ! ?u - xs ! k" using pos(1) assms(1) by (simp add: sorted_nth_mono)
  have eq: "interpolate xs p = xs ! k + (xs ! ?u - xs ! k) * ?f" by (simp add: interpolate_def Let_def k_def)
  show "xs ! k \<le> interpolate xs p" using mult_nonneg_nonneg [OF d f(1)] by (simp add: eq)
  show "interpolate xs p \<le> xs ! ?u" using mult_left_le [OF f(2) d] by (simp add: eq)
qed

lemma interpolate_mono:
  fixes p q :: rat
  assumes "sorted xs" "xs \<noteq> []" "0 \<le> p" "p \<le> q" "q \<le> 1"
  shows "interpolate xs p \<le> interpolate xs q"
proof -
  let ?n = "length xs - 1" and ?k = "\<lambda>p. nat \<lfloor>of_nat (length xs - 1) * p\<rfloor>"
  have pq: "of_nat ?n * p \<le> of_nat ?n * q" using assms(4) by (simp add: mult_left_mono)
  then have k: "?k p \<le> ?k q" by (intro nat_mono floor_mono)
  note P = interpolate_position [of xs p] interpolate_between [of xs p]
    and Q = interpolate_position [of xs q] interpolate_between [of xs q]
  show ?thesis
  proof (cases "?k p = ?k q")
    case True
    define k where "k = ?k p"
    have "k < length xs" unfolding k_def using P(1) assms by (meson order_trans)
    then have "0 \<le> xs ! min (k + 1) ?n - xs ! k" using assms(1) by (simp add: sorted_nth_mono)
    with pq show ?thesis
      unfolding interpolate_def Let_def k_def [symmetric] True [symmetric] by (simp add: mult_left_mono)
  next
    case False
    with k have "?k p + 1 \<le> ?k q" by simp
    then have "min (?k p + 1) ?n \<le> ?k q" by (rule min.coboundedI1)
    moreover have "?k q < length xs" using Q(1) assms by (meson order_trans)
    ultimately have "xs ! min (?k p + 1) ?n \<le> xs ! ?k q"
      by (rule sorted_nth_mono [OF assms(1)])
    moreover have "interpolate xs p \<le> xs ! min (?k p + 1) ?n" using P(5) assms by (meson order_trans)
    moreover have "xs ! ?k q \<le> interpolate xs q" using Q(4) assms by (meson order_trans)
    ultimately show ?thesis by (meson order_trans)
  qed
qed

lemma interpolate_range:
  assumes "sorted xs" "xs \<noteq> []" "0 \<le> p" "p \<le> 1" "\<forall>x \<in> set xs. a \<le> x \<and> x \<le> b"
  shows "a \<le> interpolate xs p \<and> interpolate xs p \<le> b"
proof -
  note k = interpolate_position(1) [OF assms(2-4)]
  have "min (nat \<lfloor>of_nat (length xs - 1) * p\<rfloor> + 1) (length xs - 1) < length xs" using assms(2) by (cases xs) auto
  with k assms(5) interpolate_between [OF assms(1-4)] show ?thesis by (meson nth_mem order_trans)
qed

text \<open>What the library promises of \<^verbatim>\<open>choices\<close>: as many positions as asked, all in the population.\<close>

definition choices_law :: "choices \<Rightarrow> bool" where
  "choices_law choices \<longleftrightarrow>
     (\<forall>seed i n k. 0 < n \<longrightarrow> length (choices seed i n k) = k \<and> (\<forall>j \<in> set (choices seed i n k). j < n))"

lemma resample_range:
  assumes "choices_law choices" "values \<noteq> []" "\<forall>x \<in> set values. a \<le> x \<and> x \<le> b"
  shows "a \<le> resample choices seed values i \<and> resample choices seed values i \<le> b"
proof -
  let ?c = "choices seed i (length values) (length values)"
  from assms(1,2) have len: "length ?c = length values" and inside: "\<forall>j \<in> set ?c. j < length values"
    by (simp_all add: choices_law_def)
  from len assms(2) have "map ((!) values) ?c \<noteq> []" by auto
  moreover have "\<forall>x \<in> set (map ((!) values) ?c). a \<le> x \<and> x \<le> b" using inside assms(3) by auto
  ultimately show ?thesis unfolding resample_def by (rule mean_of_range)
qed

text \<open>
  Whatever positions the generator draws, the bootstrap interval is ordered and, like the
  estimate, lies within the range of the lineage effects; it exists as soon as there is an effect.
\<close>

theorem bootstrap_interval_within_effects:
  assumes "choices_law choices" "effects \<noteq> []" "0 < draws" "0 < confidence" "confidence < 1"
    and "\<forall>x \<in> set (map snd effects). a \<le> x \<and> x \<le> b"
  shows "\<exists>s e l h. paired_lineage_bootstrap choices effects draws seed confidence = Inr s \<and>
    bs_estimate s = Some e \<and> bs_low s = Some l \<and> bs_high s = Some h \<and> bs_lineages s = length effects \<and>
    a \<le> l \<and> l \<le> h \<and> h \<le> b \<and> a \<le> e \<and> e \<le> b"
proof -
  let ?v = "lineage_values effects"
  let ?s = "sort (map (resample choices seed ?v) [0..<nat draws])" and ?a = "(1 - confidence) / 2"
  have v: "length ?v = length effects" "\<forall>x \<in> set ?v. a \<le> x \<and> x \<le> b"
    using assms(6) by (simp_all add: lineage_values_def)
  with assms(2) have ne: "?v \<noteq> []" by auto
  have "length ?s \<noteq> 0" using assms(3) by simp
  then have s: "?s \<noteq> []" "sorted ?s" by (simp_all only: length_0_conv sorted_sort not_False_eq_True)
  have range: "\<forall>x \<in> set ?s. a \<le> x \<and> x \<le> b" using resample_range [OF assms(1) ne v(2)] by auto
  have alpha: "0 \<le> ?a" "?a \<le> 1 - ?a" "1 - ?a \<le> 1" "?a \<le> 1" "0 \<le> 1 - ?a" using assms(4,5) by (simp_all add: field_simps)
  have "paired_lineage_bootstrap choices effects draws seed confidence = Inr
      \<lparr>bs_estimate = Some (mean_of ?v), bs_low = Some (interpolate ?s ?a), bs_high = Some (interpolate ?s (1 - ?a)),
       bs_draws = draws, bs_seed = seed, bs_lineages = length ?v\<rparr>"
    using assms(3-5) ne s(1) by (simp add: paired_lineage_bootstrap_def Let_def quantile_def)
  moreover have "interpolate ?s ?a \<le> interpolate ?s (1 - ?a)" using interpolate_mono s alpha by blast
  moreover have "a \<le> interpolate ?s ?a" "interpolate ?s (1 - ?a) \<le> b"
    using interpolate_range [OF s(2,1) _ _ range] alpha by blast+
  moreover note mean_of_range [OF ne v(2)]
  ultimately show ?thesis by (simp add: v(1))
qed

definition sample_choices :: choices where
  "sample_choices seed i n k = map (\<lambda>j. (i + j) mod n) [0..<k]"

lemma sample_choices_law: "choices_law sample_choices"
  by (auto simp: choices_law_def sample_choices_def)

theorem bootstrap_interval_within_effects_witness:
  "\<exists>s l h. paired_lineage_bootstrap sample_choices [(''a'', 1), (''b'', -1)] 3 0 (1 / 2) = Inr s \<and>
    bs_low s = Some l \<and> bs_high s = Some h \<and> -1 \<le> l \<and> h \<le> 1"
  using bootstrap_interval_within_effects [OF sample_choices_law, of "[(''a'', 1), (''b'', -1)]" 3 "1 / 2" "-1" 1 0]
  by auto

end
