(* ===== verification/Analysis_Agreement.thy ===== *)
theory Analysis_Agreement
  imports Analysis_Inference Analysis_Estimands
begin

text \<open>
  Agreement of two annotators (\<^verbatim>\<open>analysis/agreement.py\<close>) and the stratified sample of records to label
  (\<^verbatim>\<open>analysis/sampling.py\<close>). \<^verbatim>\<open>rng.choices\<close> is the parameter of \<^verbatim>\<open>Analysis_Inference\<close>; \<open>sample seed i n k\<close>
  are the positions that the \<open>i\<close>-th call of \<^verbatim>\<open>rng.sample\<close> takes from a population of \<open>n\<close>, \<open>k\<close> of them.
\<close>

section \<open>Agreement\<close>

definition pair_labels :: "(string \<times> string) list \<Rightarrow> string list" where
  "pair_labels pairs = sorted_unique (map fst pairs @ map snd pairs)"

definition observed_agreement :: "(string \<times> string) list \<Rightarrow> rat" where
  "observed_agreement pairs =
     of_nat (sum_list (map (\<lambda>l. count_list pairs (l, l)) (pair_labels pairs))) / of_nat (length pairs)"

definition expected_agreement :: "(string \<times> string) list \<Rightarrow> rat" where
  "expected_agreement pairs =
     of_nat (sum_list (map (\<lambda>l. count_list (map fst pairs) l * count_list (map snd pairs) l) (pair_labels pairs))) /
     (of_nat (length pairs))\<^sup>2"

definition kappa_of :: "rat \<Rightarrow> rat \<Rightarrow> rat" where
  "kappa_of observed expected =
     (if expected = 1 \<and> observed = 1 then 1 else if expected = 1 then 0
      else (observed - expected) / (1 - expected))"

definition agreement_statistics :: "(string \<times> string) list \<Rightarrow> rat option \<times> rat option" where
  "agreement_statistics pairs =
     (if pairs = [] then (None, None)
      else let observed = observed_agreement pairs
           in (Some observed, Some (kappa_of observed (expected_agreement pairs))))"

record agreement_summary =
  ag_matched :: nat
  ag_missing_left :: nat
  ag_missing_right :: nat
  ag_observed :: "rat option"
  ag_kappa :: "rat option"
  ag_confusion :: "nat dict dict"
  ag_observed_ci :: "(rat \<times> rat) option"
  ag_kappa_ci :: "(rat \<times> rat) option"

definition interval_json :: "(rat \<Rightarrow> json) \<Rightarrow> (rat \<times> rat) option \<Rightarrow> json" where
  "interval_json secs ci = (case ci of None \<Rightarrow> JNull | Some (low, high) \<Rightarrow> JArr [secs low, secs high])"

definition agreement_dict :: "(rat \<Rightarrow> json) \<Rightarrow> agreement_summary \<Rightarrow> json" where
  "agreement_dict secs a = JObj
     [(''matched'', JInt (int (ag_matched a))), (''missing_left'', JInt (int (ag_missing_left a))),
      (''missing_right'', JInt (int (ag_missing_right a))),
      (''observed_agreement'', json_option (map_option secs (ag_observed a))),
      (''kappa'', json_option (map_option secs (ag_kappa a))), (''confusion'', denominators_json (ag_confusion a)),
      (''observed_agreement_ci'', interval_json secs (ag_observed_ci a)),
      (''kappa_ci'', interval_json secs (ag_kappa_ci a))]"

definition confusion_matrix :: "(string \<times> string) list \<Rightarrow> nat dict dict" where
  "confusion_matrix pairs =
     (let labels = pair_labels pairs
      in map (\<lambda>row. (row, map (\<lambda>column. (column, count_list pairs (row, column))) labels)) labels)"

text \<open>The values are finite, so the interpolation is never replaced by the mean.\<close>

definition bootstrap_interval :: "rat list \<Rightarrow> rat \<Rightarrow> (rat \<times> rat) option" where
  "bootstrap_interval values confidence =
     (if values = [] then None
      else let alpha = (1 - confidence) / 2
           in Some (interpolate (sort values) alpha, interpolate (sort values) (1 - alpha)))"

definition label_pair :: "string dict \<Rightarrow> string dict \<Rightarrow> string \<Rightarrow> string \<times> string" where
  "label_pair left right key = (the (dict_get left key), the (dict_get right key))"

definition matched_keys :: "string dict \<Rightarrow> string dict \<Rightarrow> string list" where
  "matched_keys left right = sorted_unique (filter (\<lambda>k. k \<in> set (dict_keys right)) (dict_keys left))"

text \<open>The findings of every cluster, and one draw of complete clusters.\<close>

definition cluster_groups :: "string dict \<Rightarrow> string list \<Rightarrow> string list dict" where
  "cluster_groups clusters keys = group_values (map (\<lambda>k. (the (dict_get clusters k), k)) keys)"

definition cluster_draw ::
    "choices \<Rightarrow> int \<Rightarrow> string dict \<Rightarrow> string dict \<Rightarrow> string list dict \<Rightarrow> nat \<Rightarrow> rat option \<times> rat option" where
  "cluster_draw choices seed left right groups i =
     (let ids = sort (dict_keys groups);
          sampled = map ((!) ids) (choices seed i (length ids) (length ids))
      in agreement_statistics (concat (map (\<lambda>c. map (label_pair left right) (the (dict_get groups c))) sampled)))"

definition clusters_error :: "string dict \<Rightarrow> string list \<Rightarrow> string option" where
  "clusters_error clusters keys =
     (if set (dict_keys clusters) \<noteq> set keys then Some ''clusters must cover exactly the matched label IDs''
      else if list_ex (\<lambda>k. dict_get clusters k = Some '''') keys then Some ''cluster IDs must be non-empty strings''
      else None)"

definition summarize_agreement ::
    "choices \<Rightarrow> string dict \<Rightarrow> string dict \<Rightarrow> string dict option \<Rightarrow> int \<Rightarrow> int \<Rightarrow> rat \<Rightarrow> analysis_error + agreement_summary" where
  "summarize_agreement choices left right clusters draws seed confidence =
     (if draws \<le> 1 then Inl (AnalysisValue ''draws must be greater than one'')
      else if \<not> (0 < confidence \<and> confidence < 1)
        then Inl (AnalysisValue ''confidence must be between zero and one'')
      else
        let keys = matched_keys left right;
            missing_left = length (remdups (filter (\<lambda>k. k \<notin> set (dict_keys left)) (dict_keys right)));
            missing_right = length (remdups (filter (\<lambda>k. k \<notin> set (dict_keys right)) (dict_keys left)));
            pairs = map (label_pair left right) keys;
            (observed, kappa) = agreement_statistics pairs;
            summary = \<lparr>ag_matched = length keys, ag_missing_left = missing_left, ag_missing_right = missing_right,
              ag_observed = observed, ag_kappa = kappa,
              ag_confusion = (if keys = [] then [] else confusion_matrix pairs),
              ag_observed_ci = None, ag_kappa_ci = None\<rparr>
        in if keys = [] then Inr summary
           else case clusters of
             None \<Rightarrow> Inr summary
           | Some cs \<Rightarrow> (case clusters_error cs keys of
                 Some e \<Rightarrow> Inl (AnalysisValue e)
               | None \<Rightarrow>
                   let groups = cluster_groups cs keys;
                       results = map (cluster_draw choices seed left right groups) [0..<nat draws]
                   in Inr (summary\<lparr>
                     ag_observed_ci := bootstrap_interval (List.map_filter fst results) confidence,
                     ag_kappa_ci := bootstrap_interval (List.map_filter snd results) confidence\<rparr>)))"

section \<open>Stratified sampling\<close>

record sampled_record =
  sr_record :: string
  sr_stratum :: string
  sr_probability :: rat
  sr_weight :: rat

definition sampled_dict :: "(rat \<Rightarrow> json) \<Rightarrow> sampled_record \<Rightarrow> json" where
  "sampled_dict secs r = JObj
     [(''record_id'', JStr (sr_record r)), (''stratum'', JStr (sr_stratum r)),
      (''inclusion_probability'', secs (sr_probability r)), (''weight'', secs (sr_weight r))]"

type_synonym sampler = "int \<Rightarrow> nat \<Rightarrow> nat \<Rightarrow> nat \<Rightarrow> nat list"

fun identifiers_error :: "string list \<Rightarrow> string list \<Rightarrow> string option" where
  "identifiers_error seen_ids [] = None"
| "identifiers_error seen_ids (i # is') =
     (if i = '''' then Some ''sample records require non-empty IDs''
      else if i \<in> set seen_ids then Some ''sample record IDs must be unique''
      else identifiers_error (i # seen_ids) is')"

definition sample_stratum ::
    "sampler \<Rightarrow> int \<Rightarrow> nat \<Rightarrow> string \<Rightarrow> string list \<Rightarrow> nat \<Rightarrow> sampled_record list" where
  "sample_stratum sample seed calls key population requested =
     (let selected = sort (map ((!) population) (sample seed calls (length population) requested));
          probability = of_nat requested / of_nat (length population)
      in map (\<lambda>i. \<lparr>sr_record = i, sr_stratum = key, sr_probability = probability, sr_weight = 1 / probability\<rparr>) selected)"

text \<open>The strata in the order of their names; \<open>calls\<close> counts the calls of the generator so far.\<close>

fun sample_strata ::
    "sampler \<Rightarrow> int \<Rightarrow> int dict \<Rightarrow> nat \<Rightarrow> string list dict \<Rightarrow> analysis_error + sampled_record list" where
  "sample_strata sample seed sizes calls [] = Inr []"
| "sample_strata sample seed sizes calls ((key, ids) # rest) =
     (let population = sort ids; requested = (case dict_get sizes key of None \<Rightarrow> 0 | Some n \<Rightarrow> n) in
      if requested < 0 then Inl (AnalysisValue ''sample sizes must be non-negative'')
      else if int (length population) < requested
        then Inl (AnalysisValue (''sample size exceeds population in stratum '' @ key))
      else if requested = 0 then sample_strata sample seed sizes calls rest
      else bind_result (sample_strata sample seed sizes (Suc calls) rest) (\<lambda>later.
        Inr (sample_stratum sample seed calls key population (nat requested) @ later)))"

text \<open>A record enters by its stratum and its identifier, which are all the code uses of it.\<close>

definition stratified_sample ::
    "sampler \<Rightarrow> (string \<times> string) list \<Rightarrow> int dict \<Rightarrow> int \<Rightarrow> analysis_error + sampled_record list" where
  "stratified_sample sample records sizes seed =
     (case identifiers_error [] (map snd records) of
        Some e \<Rightarrow> Inl (AnalysisValue e)
      | None \<Rightarrow> sample_strata sample seed sizes 0 (sort_key fst (group_values records)))"

end
