(* ===== verification/Analysis_Agreement_Properties.thy ===== *)
theory Analysis_Agreement_Properties
  imports Analysis_Agreement
begin

text \<open>
  Bounds of the agreement statistics and the design weights of the stratified sample.
\<close>

section \<open>Agreement\<close>

lemma sum_count_list:
  assumes "set xs \<subseteq> L" "finite L"
  shows "(\<Sum>l\<in>L. count_list xs l) = length xs"
  using assms by (metis sum_count_set order_refl)

lemma count_agreeing:
  assumes "set (map fst pairs) \<subseteq> L" "finite L"
  shows "(\<Sum>l\<in>L. count_list pairs (l, l)) = length (filter (\<lambda>(a, b). a = b) pairs)"
  using assms(1)
proof (induction pairs)
  case (Cons p pairs)
  obtain a b where p: "p = (a, b)" by force
  have "(\<Sum>l\<in>L. count_list (p # pairs) (l, l)) =
      (\<Sum>l\<in>L. (if l = a \<and> a = b then 1 else 0) + count_list pairs (l, l))"
    by (rule sum.cong) (auto simp: p)
  also have "\<dots> = (\<Sum>l\<in>L. if l = a then if a = b then 1 else 0 else 0) + (\<Sum>l\<in>L. count_list pairs (l, l))"
    by (simp add: sum.distrib)
  also have "\<dots> = (if a = b then 1 else 0) + length (filter (\<lambda>(a, b). a = b) pairs)"
    using Cons assms(2) by (simp add: p)
  finally show ?case by (simp add: p)
qed simp

lemma sum_list_labels: "sum_list (map f (pair_labels pairs)) = (\<Sum>l \<in> set (pair_labels pairs). f l)"
  by (simp add: pair_labels_def sum_list_distinct_conv_sum_set)

lemma observed_agreement_eq:
  "observed_agreement pairs = of_nat (length (filter (\<lambda>(a, b). a = b) pairs)) / of_nat (length pairs)"
proof -
  have "set (map fst pairs) \<subseteq> set (pair_labels pairs)" by (simp add: pair_labels_def)
  from count_agreeing [OF this] show ?thesis by (simp add: observed_agreement_def sum_list_labels)
qed

lemma count_list_full: "count_list xs x = length xs \<Longrightarrow> y \<in> set xs \<Longrightarrow> y = x"
proof (induction xs)
  case (Cons a xs)
  have "count_list xs x \<le> length xs" by (rule count_le_length)
  with Cons show ?case by (auto split: if_splits)
qed simp

text \<open>Expected agreement is at most 1, and 1 only when both annotators gave one and the same label.\<close>

lemma expected_agreement_le:
  assumes "pairs \<noteq> []"
  shows "expected_agreement pairs \<le> 1"
    and "expected_agreement pairs = 1 \<Longrightarrow> filter (\<lambda>(a, b). a = b) pairs = pairs"
proof -
  let ?L = "set (pair_labels pairs)" and ?n = "length pairs"
  let ?a = "count_list (map fst pairs)" and ?b = "count_list (map snd pairs)"
  have a: "(\<Sum>l\<in>?L. ?a l) = ?n" and b: "(\<Sum>l\<in>?L. ?b l) = ?n"
    by (subst sum_count_list; simp add: pair_labels_def)+
  have b_le: "?b l \<le> ?n" for l using count_le_length [of "map snd pairs" l] by simp
  have sq: "(\<Sum>l\<in>?L. ?a l * ?n) = ?n * ?n" by (simp flip: a sum_distrib_right)
  have e: "expected_agreement pairs = of_nat (\<Sum>l\<in>?L. ?a l * ?b l) / of_nat (?n * ?n)"
    by (simp add: expected_agreement_def sum_list_labels power2_eq_square)
  have le: "(\<Sum>l\<in>?L. ?a l * ?b l) \<le> ?n * ?n"
    unfolding sq [symmetric] by (intro sum_mono mult_le_mono2 b_le)
  have pos: "0 < rat_of_nat (?n * ?n)" using assms by simp
  show "expected_agreement pairs \<le> 1"
    using pos le unfolding e by (simp only: divide_le_eq_1_pos of_nat_le_iff)
  assume "expected_agreement pairs = 1"
  then have eq: "(\<Sum>l\<in>?L. ?a l * ?b l) = (\<Sum>l\<in>?L. ?a l * ?n)"
    unfolding e sq using pos by (simp only: divide_eq_1_iff of_nat_eq_iff)
  have full: "?b l = ?n" if "l \<in> set (map fst pairs)" for l
  proof -
    have "l \<in> ?L" using that by (simp add: pair_labels_def)
    moreover have "?a i * ?b i \<le> ?a i * ?n" for i by (simp add: b_le)
    ultimately have "?a l * ?b l = ?a l * ?n"
      using sum_mono_inv [OF eq, of l] by simp
    moreover have "0 < ?a l" using that by (metis count_list_0_iff gr0I)
    ultimately show ?thesis by simp
  qed
  have "snd p = fst p" if "p \<in> set pairs" for p
  proof -
    have "count_list (map snd pairs) (fst p) = length (map snd pairs)" using full [of "fst p"] that by simp
    moreover have "snd p \<in> set (map snd pairs)" using that by simp
    ultimately show ?thesis by (rule count_list_full)
  qed
  then show "filter (\<lambda>(a, b). a = b) pairs = pairs" by (fastforce intro: filter_True)
qed

lemma swapped_labels: "pair_labels (map prod.swap pairs) = pair_labels pairs"
  unfolding pair_labels_def by (rule sorted_unique_cong) (auto simp: o_def)

text \<open>
  C30. On a non-empty sample the observed agreement is the share of equally labelled findings, kappa is at
  most 1 and 1 exactly at full agreement, and both are symmetric in the two annotators. The code's
  branch for expected agreement 1 without observed agreement 1 is never taken.
\<close>

theorem kappa_bounds:
  assumes "pairs \<noteq> []"
  shows "\<exists>o' k. agreement_statistics pairs = (Some o', Some k) \<and>
    o' = of_nat (length (filter (\<lambda>(a, b). a = b) pairs)) / of_nat (length pairs) \<and>
    0 \<le> o' \<and> o' \<le> 1 \<and> k \<le> 1 \<and> (k = 1 \<longleftrightarrow> o' = 1) \<and> (o' = 1 \<longleftrightarrow> filter (\<lambda>(a, b). a = b) pairs = pairs) \<and>
    \<not> (expected_agreement pairs = 1 \<and> o' \<noteq> 1) \<and>
    agreement_statistics (map prod.swap pairs) = (Some o', Some k)"
proof -
  let ?o = "observed_agreement pairs" and ?e = "expected_agreement pairs" and ?n = "length pairs"
  let ?f = "filter (\<lambda>(a, b). a = b) pairs"
  have n: "0 < rat_of_nat ?n" using assms by simp
  have o: "?o = of_nat (length ?f) / of_nat ?n" by (rule observed_agreement_eq)
  have one: "?o = 1 \<longleftrightarrow> ?f = pairs"
    using n by (simp add: o) (metis length_filter_less filter_id_conv order_less_irrefl)
  have bound: "0 \<le> ?o" "?o \<le> 1" using n length_filter_le [of _ pairs] by (simp_all add: o)
  note e = expected_agreement_le [OF assms]
  have unreachable: "?e = 1 \<Longrightarrow> ?o = 1" using e(2) one by blast
  have k: "kappa_of ?o ?e \<le> 1 \<and> (kappa_of ?o ?e = 1 \<longleftrightarrow> ?o = 1)"
  proof (cases "?e = 1")
    case False
    with e(1) have "0 < 1 - ?e" by simp
    then have "kappa_of ?o ?e \<le> 1 \<longleftrightarrow> ?o \<le> 1" "kappa_of ?o ?e = 1 \<longleftrightarrow> ?o = 1"
      using False by (simp_all add: kappa_of_def divide_le_eq_1_pos divide_eq_1_iff)
    with bound(2) show ?thesis by simp
  qed (simp add: kappa_of_def unreachable)
  have "length (filter (\<lambda>(a, b). a = b) (map prod.swap pairs)) = length ?f"
    by (induction pairs) auto
  then have "observed_agreement (map prod.swap pairs) = ?o" by (simp add: observed_agreement_eq)
  moreover have "expected_agreement (map prod.swap pairs) = ?e"
    by (simp add: expected_agreement_def swapped_labels o_def mult.commute)
  ultimately have "agreement_statistics (map prod.swap pairs) = agreement_statistics pairs"
    using assms by (simp add: agreement_statistics_def Let_def)
  moreover have "agreement_statistics pairs = (Some ?o, Some (kappa_of ?o ?e))"
    using assms by (simp add: agreement_statistics_def Let_def)
  ultimately show ?thesis using o one bound unreachable k by metis
qed

theorem kappa_bounds_witness:
  "\<exists>k. agreement_statistics [(''yes'', ''yes''), (''no'', ''yes'')] = (Some (1 / 2), Some k) \<and> k \<noteq> 1"
  using kappa_bounds [of "[(''yes'', ''yes''), (''no'', ''yes'')]"] by auto

section \<open>Stratified sampling\<close>

text \<open>What the library promises of \<^verbatim>\<open>sample\<close>: distinct positions of the population, as many as asked.\<close>

definition sampler_law :: "sampler \<Rightarrow> bool" where
  "sampler_law sample \<longleftrightarrow> (\<forall>seed i n k. k \<le> n \<longrightarrow>
     length (sample seed i n k) = k \<and> distinct (sample seed i n k) \<and> (\<forall>j \<in> set (sample seed i n k). j < n))"

definition requested_size :: "int dict \<Rightarrow> string \<Rightarrow> int" where
  "requested_size sizes key = (case dict_get sizes key of None \<Rightarrow> 0 | Some n \<Rightarrow> n)"

lemma sample_strata_Cons:
  assumes "sample_strata sample seed sizes c ((k, ids) # rest) = Inr rs"
  obtains "requested_size sizes k = 0" "sample_strata sample seed sizes c rest = Inr rs"
  | later where "0 < requested_size sizes k" "requested_size sizes k \<le> int (length ids)"
      "sample_strata sample seed sizes (Suc c) rest = Inr later"
      "rs = sample_stratum sample seed c k (sort ids) (nat (requested_size sizes k)) @ later"
  using assms unfolding sample_strata.simps requested_size_def [symmetric] Let_def
  by (auto simp: result_simps not_less split: if_splits)

lemma sample_stratum_key: "r \<in> set (sample_stratum sample seed i k p n) \<Longrightarrow> sr_stratum r = k"
  by (auto simp: sample_stratum_def Let_def)

lemma sample_strata_strata:
  "sample_strata sample seed sizes c strata = Inr rs \<Longrightarrow> r \<in> set rs \<Longrightarrow> sr_stratum r \<in> fst ` set strata"
proof (induction strata arbitrary: c rs)
  case (Cons s rest)
  obtain k ids where s: "s = (k, ids)" by force
  from Cons.prems(1) [unfolded s] show ?case
  proof (rule sample_strata_Cons)
    assume "sample_strata sample seed sizes c rest = Inr rs"
    from Cons.IH [OF this Cons.prems(2)] show ?thesis by simp
  next
    fix later assume later: "sample_strata sample seed sizes (Suc c) rest = Inr later"
      and rs: "rs = sample_stratum sample seed c k (sort ids) (nat (requested_size sizes k)) @ later"
    have "sr_stratum r = k \<or> sr_stratum r \<in> fst ` set rest"
      using Cons.prems(2) Cons.IH [OF later] sample_stratum_key unfolding rs set_append by blast
    then show ?thesis by (auto simp: s)
  qed
qed simp

lemma sample_strata_absent:
  "sample_strata sample seed sizes c strata = Inr rs \<Longrightarrow> key \<notin> fst ` set strata \<Longrightarrow>
     filter (\<lambda>r. sr_stratum r = key) rs = []"
  using sample_strata_strata by (fastforce simp: filter_empty_conv)

lemma filter_sample_stratum:
  "filter (\<lambda>r. sr_stratum r = key) (sample_stratum sample seed i k p n) =
     (if key = k then sample_stratum sample seed i k p n else [])"
  using sample_stratum_key by (auto simp: filter_id_conv filter_empty_conv)

lemma sample_strata_stratum:
  assumes "sample_strata sample seed sizes c strata = Inr rs" "distinct (map fst strata)" "(key, ids) \<in> set strata"
  shows "requested_size sizes key = 0 \<and> filter (\<lambda>r. sr_stratum r = key) rs = [] \<or>
    0 < requested_size sizes key \<and> requested_size sizes key \<le> int (length ids) \<and>
    (\<exists>i. filter (\<lambda>r. sr_stratum r = key) rs =
       sample_stratum sample seed i key (sort ids) (nat (requested_size sizes key)))"
  using assms
proof (induction strata arbitrary: c rs)
  case (Cons s rest)
  obtain k ids' where s: "s = (k, ids')" by force
  have absent: "k \<notin> fst ` set rest" and dist: "distinct (map fst rest)" using Cons.prems(2) by (auto simp: s)
  from Cons.prems(1) [unfolded s] show ?case
  proof (rule sample_strata_Cons)
    assume zero: "requested_size sizes k = 0" and rest: "sample_strata sample seed sizes c rest = Inr rs"
    show ?thesis
    proof (cases "key = k")
      case True
      with zero sample_strata_absent [OF rest absent] show ?thesis by simp
    next
      case False
      with Cons.prems(3) have "(key, ids) \<in> set rest" by (simp add: s)
      from Cons.IH [OF rest dist this] show ?thesis .
    qed
  next
    fix later assume pos: "0 < requested_size sizes k" and le: "requested_size sizes k \<le> int (length ids')"
      and rest: "sample_strata sample seed sizes (Suc c) rest = Inr later"
      and rs: "rs = sample_stratum sample seed c k (sort ids') (nat (requested_size sizes k)) @ later"
    show ?thesis
    proof (cases "key = k")
      case True
      have "ids = ids'" using Cons.prems(3) absent by (auto simp: s True rev_image_eqI)
      with True pos le sample_strata_absent [OF rest absent] show ?thesis
        by (auto simp: rs filter_sample_stratum)
    next
      case False
      with Cons.prems(3) have "(key, ids) \<in> set rest" by (simp add: s)
      from Cons.IH [OF rest dist this] False show ?thesis by (simp add: rs filter_sample_stratum)
    qed
  qed
qed simp

lemma sample_stratum_design:
  assumes "sampler_law sample" "0 < n" "n \<le> length population" "distinct population"
    and rs: "rs = sample_stratum sample seed i key population n"
  shows "length rs = n" "distinct (map sr_record rs)" "set (map sr_record rs) \<subseteq> set population"
    "sum_list (map sr_weight rs) = of_nat (length population)"
proof -
  let ?c = "sample seed i (length population) n"
  have law: "length ?c = n" "distinct ?c" "\<forall>j \<in> set ?c. j < length population"
    using assms(1,3) by (simp_all add: sampler_law_def)
  then show len: "length rs = n" by (simp add: rs sample_stratum_def)
  have rec: "map sr_record rs = sort (map ((!) population) ?c)"
    by (simp add: rs sample_stratum_def o_def)
  have "inj_on ((!) population) (set ?c)" using law(3) assms(4) by (auto simp: inj_on_def nth_eq_iff_index_eq)
  then show "distinct (map sr_record rs)" using law(2) by (simp add: rec distinct_map)
  show "set (map sr_record rs) \<subseteq> set population" using law(3) by (auto simp: rec)
  have "map sr_weight rs = replicate n (of_nat (length population) / of_nat n)"
    using len by (auto simp: rs sample_stratum_def map_eq_conv o_def intro: replicate_eqI)
  then show "sum_list (map sr_weight rs) = of_nat (length population)"
    using assms(2) by (simp add: sum_list_replicate)
qed

lemma identifiers_error_None: "identifiers_error known is' = None \<Longrightarrow> distinct is' \<and> set is' \<inter> set known = {}"
  by (induction known is' rule: identifiers_error.induct) (auto split: if_splits)

text \<open>
  C31. The stratified sample has the design it promises: from every stratum it takes as many records as
  requested, all of that stratum and none twice, and their design weights sum to the size of the
  stratum; a stratum for which nothing is requested contributes nothing.
\<close>

theorem stratified_sample_design:
  assumes "sampler_law sample" "stratified_sample sample records sizes seed = Inr rs" "key \<in> fst ` set records"
  shows "let chosen = filter (\<lambda>r. sr_stratum r = key) rs;
             population = map snd (filter (\<lambda>r. fst r = key) records);
             n = requested_size sizes key in
    0 \<le> n \<and> n \<le> int (length population) \<and> int (length chosen) = n \<and> distinct (map sr_record chosen) \<and>
    set (map sr_record chosen) \<subseteq> set population \<and>
    sum_list (map sr_weight chosen) = (if n = 0 then 0 else of_nat (length population))"
proof -
  let ?p = "map snd (filter (\<lambda>r. fst r = key) records)" and ?chosen = "filter (\<lambda>r. sr_stratum r = key) rs"
  from assms(2) have ids: "identifiers_error [] (map snd records) = None"
    and rs: "sample_strata sample seed sizes 0 (sort_key fst (group_values records)) = Inr rs"
    by (auto simp: stratified_sample_def split: option.splits)
  have "distinct (map snd records)" using identifiers_error_None [OF ids] by simp
  then have p: "distinct (sort ?p)" by (simp add: distinct_map inj_on_def)
  have keys: "distinct (map fst (sort_key fst (group_values records)))"
    by (simp add: group_values_def o_def)
  have stratum: "(key, ?p) \<in> set (sort_key fst (group_values records))"
    using assms(3) by (auto simp: group_values_def)
  from sample_strata_stratum [OF rs keys stratum] show ?thesis
  proof (elim disjE conjE exE)
    fix i assume pos: "0 < requested_size sizes key" and le: "requested_size sizes key \<le> int (length ?p)"
      and chosen: "?chosen = sample_stratum sample seed i key (sort ?p) (nat (requested_size sizes key))"
    from pos le have "0 < nat (requested_size sizes key)" "nat (requested_size sizes key) \<le> length (sort ?p)"
      by simp_all
    note design = sample_stratum_design [OF assms(1) this p chosen]
    with pos le show ?thesis by (simp add: Let_def)
  qed (simp add: Let_def)
qed

definition first_positions :: sampler where
  "first_positions seed i n k = [0..<k]"

lemma first_positions_law: "sampler_law first_positions"
  by (auto simp: sampler_law_def first_positions_def)

theorem stratified_sample_design_witness:
  "\<exists>rs. stratified_sample first_positions [(''s'', ''a''), (''s'', ''b''), (''t'', ''c'')] [(''s'', 1)] 0 = Inr rs \<and>
    sum_list (map sr_weight (filter (\<lambda>r. sr_stratum r = ''s'') rs)) = 2"
proof -
  let ?r = "[(''s'', ''a''), (''s'', ''b''), (''t'', ''c'')]"
  have "case stratified_sample first_positions ?r [(''s'', 1)] 0 of Inl e \<Rightarrow> False | Inr rs \<Rightarrow> True" by code_simp
  then obtain rs where rs: "stratified_sample first_positions ?r [(''s'', 1)] 0 = Inr rs" by (auto split: sum.splits)
  have "requested_size [(''s'', 1)] ''s'' = 1" by code_simp
  with stratified_sample_design [OF first_positions_law rs, of "''s''"] rs show ?thesis by (auto simp: Let_def)
qed

end
