(* ===== verification/Runtime_Resources.thy ===== *)
theory Runtime_Resources
  imports Json Complex_Main
begin

text \<open>
  The quota-aware scheduler of one worker (\<^verbatim>\<open>runtime/resources.py\<close>). The scheduler's attributes are the
  record \<open>scheduler\<close>; a method that mutates them returns the new record. Core seconds are finite
  floats, which are rationals; \<open>rd\<close> is the rounding of one floating-point addition or subtraction, so
  every \<^verbatim>\<open>+=\<close> and every sum in a comparison rounds where the code does. The lock is left out: every
  method holds it from its first to its last statement.
\<close>

datatype resource_error = ResourceValue string

type_synonym rounding = "rat \<Rightarrow> rat"

section \<open>Records\<close>

datatype admission_status = Admitted | Queued | Rejected

fun admission_status_value :: "admission_status \<Rightarrow> string" where
  "admission_status_value Admitted = ''admitted''"
| "admission_status_value Queued = ''queued''"
| "admission_status_value Rejected = ''rejected''"

record envelope =
  env_cpu :: int
  env_memory :: int
  env_concurrent :: int
  env_solvers :: int

definition default_envelope :: envelope where
  "default_envelope = \<lparr>env_cpu = 4, env_memory = 16 * 1024 ^ 3, env_concurrent = 4, env_solvers = 1\<rparr>"

definition ResourceEnvelope :: "envelope \<Rightarrow> resource_error + envelope" where
  "ResourceEnvelope e =
     (if env_cpu e \<le> 0 then Inl (ResourceValue ''cpu_cores must be positive'')
      else if env_memory e \<le> 0 then Inl (ResourceValue ''memory_bytes must be positive'')
      else if env_concurrent e \<le> 0 then Inl (ResourceValue ''max_concurrent_campaigns must be positive'')
      else if env_solvers e \<noteq> 1 then Inl (ResourceValue ''exactly one solver process per profile is required'')
      else Inr e)"

definition envelope_dict :: "envelope \<Rightarrow> json" where
  "envelope_dict e = JObj
     [(''cpu_cores'', JInt (env_cpu e)), (''memory_bytes'', JInt (env_memory e)),
      (''max_concurrent_campaigns'', JInt (env_concurrent e)),
      (''max_solver_processes_per_profile'', JInt (env_solvers e))]"

record quota =
  qt_core :: "rat option"
  qt_input :: "int option"
  qt_generated :: "int option"

definition no_quota :: quota where
  "no_quota = \<lparr>qt_core = None, qt_input = None, qt_generated = None\<rparr>"

definition negative :: "'a::linordered_idom option \<Rightarrow> bool" where
  "negative v = (case v of None \<Rightarrow> False | Some n \<Rightarrow> n < 0)"

definition Quota :: "quota \<Rightarrow> resource_error + quota" where
  "Quota q =
     (if negative (qt_core q) then Inl (ResourceValue ''max_core_seconds must be non-negative'')
      else if negative (qt_input q) then Inl (ResourceValue ''max_input_tokens must be non-negative'')
      else if negative (qt_generated q) then Inl (ResourceValue ''max_generated_tokens must be non-negative'')
      else Inr q)"

record resource_request =
  rq_campaign :: string
  rq_cpu :: int
  rq_memory :: int
  rq_profile :: "string option"
  rq_core :: rat
  rq_input :: "int option"
  rq_generated :: "int option"

definition ResourceRequest :: "resource_request \<Rightarrow> resource_error + resource_request" where
  "ResourceRequest r =
     (if rq_campaign r = '''' then Inl (ResourceValue ''campaign_id is required'')
      else if rq_cpu r \<le> 0 \<or> rq_memory r \<le> 0 then Inl (ResourceValue ''requested CPU and memory must be positive'')
      else if rq_core r < 0 then Inl (ResourceValue ''estimated_core_seconds must be non-negative'')
      else if negative (rq_input r) then Inl (ResourceValue ''estimated_input_tokens must be non-negative'')
      else if negative (rq_generated r) then Inl (ResourceValue ''estimated_generated_tokens must be non-negative'')
      else Inr r)"

record resource_usage =
  us_core :: rat
  us_solver :: rat
  us_memory :: "int option"
  us_wall :: rat
  us_input :: "int option"
  us_generated :: "int option"
  us_cost :: "rat option"
  us_missing :: "(string \<times> string) list"

definition ResourceUsage :: "resource_usage \<Rightarrow> resource_error + resource_usage" where
  "ResourceUsage u =
     (if us_core u < 0 then Inl (ResourceValue ''cpu_core_seconds must be non-negative'')
      else if us_solver u < 0 then Inl (ResourceValue ''solver_seconds must be non-negative'')
      else if us_wall u < 0 then Inl (ResourceValue ''wall_seconds must be non-negative'')
      else if negative (us_memory u) then Inl (ResourceValue ''memory_high_water_bytes must be non-negative'')
      else if negative (us_input u) then Inl (ResourceValue ''input_tokens must be non-negative'')
      else if negative (us_generated u) then Inl (ResourceValue ''generated_tokens must be non-negative'')
      else if negative (us_cost u) then Inl (ResourceValue ''cost_usd must be non-negative'')
      else Inr u)"

text \<open>\<open>secs\<close> is the JSON number of a float.\<close>

definition resource_vector :: "(rat \<Rightarrow> json) \<Rightarrow> resource_usage \<Rightarrow> json" where
  "resource_vector secs u = JObj
     [(''schema_version'', JInt 1), (''cpu_core_seconds'', secs (us_core u)), (''solver_seconds'', secs (us_solver u)),
      (''memory_high_water_bytes'', int_option (us_memory u)), (''wall_seconds'', secs (us_wall u)),
      (''input_tokens'', int_option (us_input u)), (''generated_tokens'', int_option (us_generated u)),
      (''cost_usd'', json_option (map_option secs (us_cost u))),
      (''missing_field_reasons'', JObj (map (\<lambda>(k, v). (k, JStr v)) (us_missing u)))]"

record resource_observation =
  ob_cpu :: "int option"
  ob_memory :: "int option"

record admission_decision =
  dc_status :: admission_status
  dc_campaign :: string
  dc_reason :: string
  dc_lease :: "string option"
  dc_position :: "nat option"

record lease =
  ls_id :: string
  ls_request :: resource_request

section \<open>The scheduler\<close>

record scheduler =
  sc_envelope :: envelope
  sc_quota :: quota
  sc_active :: "(string \<times> lease) list"
  sc_queue :: "resource_request list"
  sc_used_core :: rat
  sc_used_input :: int
  sc_used_generated :: int
  sc_reserved_core :: rat
  sc_reserved_input :: int
  sc_reserved_generated :: int
  sc_throttled :: nat
  sc_next :: nat

definition WorkerResourceScheduler :: "envelope option \<Rightarrow> quota option \<Rightarrow> scheduler" where
  "WorkerResourceScheduler e q =
     \<lparr>sc_envelope = (case e of None \<Rightarrow> default_envelope | Some e \<Rightarrow> e),
      sc_quota = (case q of None \<Rightarrow> no_quota | Some q \<Rightarrow> q), sc_active = [], sc_queue = [],
      sc_used_core = 0, sc_used_input = 0, sc_used_generated = 0, sc_reserved_core = 0, sc_reserved_input = 0,
      sc_reserved_generated = 0, sc_throttled = 0, sc_next = 1\<rparr>"

definition running :: "scheduler \<Rightarrow> resource_request list" where
  "running s = map (\<lambda>kl. ls_request (snd kl)) (sc_active s)"

record resource_snapshot =
  sn_active :: nat
  sn_queued :: nat
  sn_cpu :: int
  sn_memory :: int
  sn_core :: rat
  sn_input :: int
  sn_generated :: int
  sn_profiles :: "string list"
  sn_throttled :: nat

definition scheduler_snapshot :: "scheduler \<Rightarrow> resource_snapshot" where
  "scheduler_snapshot s =
     \<lparr>sn_active = length (sc_active s), sn_queued = length (sc_queue s),
      sn_cpu = sum_list (map rq_cpu (running s)), sn_memory = sum_list (map rq_memory (running s)),
      sn_core = sc_used_core s, sn_input = sc_used_input s, sn_generated = sc_used_generated s,
      sn_profiles = sort (List.map_filter rq_profile (running s)), sn_throttled = sc_throttled s\<rparr>"

definition tokens :: "int option \<Rightarrow> int" where
  "tokens v = (case v of None \<Rightarrow> 0 | Some n \<Rightarrow> n)"

definition over_estimate :: "int option \<Rightarrow> int option \<Rightarrow> bool" where
  "over_estimate limit estimate = (case (limit, estimate) of (Some m, Some n) \<Rightarrow> m < n | _ \<Rightarrow> False)"

definition permanent_rejection :: "scheduler \<Rightarrow> resource_request \<Rightarrow> string option" where
  "permanent_rejection s r =
     (if env_cpu (sc_envelope s) < rq_cpu r then Some ''requested CPU exceeds worker envelope''
      else if env_memory (sc_envelope s) < rq_memory r then Some ''requested memory exceeds worker envelope''
      else if rq_profile r \<noteq> None \<and> env_solvers (sc_envelope s) \<noteq> 1 then Some ''unsupported solver process policy''
      else if (case qt_core (sc_quota s) of None \<Rightarrow> False | Some m \<Rightarrow> m < rq_core r)
        then Some ''estimated core-seconds exceed quota''
      else if over_estimate (qt_input (sc_quota s)) (rq_input r) then Some ''estimated input tokens exceed quota''
      else if over_estimate (qt_generated (sc_quota s)) (rq_generated r)
        then Some ''estimated generated tokens exceed quota''
      else None)"

definition quota_allows_estimate :: "rounding \<Rightarrow> scheduler \<Rightarrow> resource_request \<Rightarrow> bool" where
  "quota_allows_estimate rd s r =
     (if (case qt_core (sc_quota s) of None \<Rightarrow> False
          | Some m \<Rightarrow> m < rd (rd (sc_used_core s + sc_reserved_core s) + rq_core r)) then False
      else if over_estimate (qt_input (sc_quota s))
          (map_option (\<lambda>n. sc_used_input s + sc_reserved_input s + n) (rq_input r)) then False
      else if over_estimate (qt_generated (sc_quota s))
          (map_option (\<lambda>n. sc_used_generated s + sc_reserved_generated s + n) (rq_generated r)) then False
      else True)"

definition profile_active :: "scheduler \<Rightarrow> resource_request \<Rightarrow> bool" where
  "profile_active s r = (case rq_profile r of
       None \<Rightarrow> False | Some p \<Rightarrow> p \<in> set (sn_profiles (scheduler_snapshot s)))"

definition can_admit :: "rounding \<Rightarrow> scheduler \<Rightarrow> resource_request \<Rightarrow> bool" where
  "can_admit rd s r =
     (let sn = scheduler_snapshot s; e = sc_envelope s in
      if env_concurrent e \<le> int (sn_active sn) then False
      else if env_cpu e < sn_cpu sn + rq_cpu r then False
      else if env_memory e < sn_memory sn + rq_memory r then False
      else if profile_active s r then False
      else quota_allows_estimate rd s r)"

definition queue_reason :: "scheduler \<Rightarrow> resource_request \<Rightarrow> string" where
  "queue_reason s r =
     (let sn = scheduler_snapshot s; e = sc_envelope s in
      if env_concurrent e \<le> int (sn_active sn) then ''campaign concurrency limit''
      else if env_cpu e < sn_cpu sn + rq_cpu r then ''CPU capacity unavailable''
      else if env_memory e < sn_memory sn + rq_memory r then ''memory capacity unavailable''
      else if profile_active s r then ''solver profile is already active''
      else ''quota temporarily unavailable'')"

definition reserve :: "rounding \<Rightarrow> resource_request \<Rightarrow> scheduler \<Rightarrow> scheduler" where
  "reserve rd r s = s\<lparr>sc_reserved_core := rd (sc_reserved_core s + rq_core r),
     sc_reserved_input := sc_reserved_input s + tokens (rq_input r),
     sc_reserved_generated := sc_reserved_generated s + tokens (rq_generated r)\<rparr>"

definition unreserve :: "rounding \<Rightarrow> resource_request \<Rightarrow> scheduler \<Rightarrow> scheduler" where
  "unreserve rd r s = s\<lparr>sc_reserved_core := rd (sc_reserved_core s - rq_core r),
     sc_reserved_input := sc_reserved_input s - tokens (rq_input r),
     sc_reserved_generated := sc_reserved_generated s - tokens (rq_generated r)\<rparr>"

definition lease_name :: "nat \<Rightarrow> string" where
  "lease_name n = ''lease-'' @ string_of_nat n"

definition admit :: "rounding \<Rightarrow> resource_request \<Rightarrow> scheduler \<Rightarrow> admission_decision \<times> scheduler" where
  "admit rd r s =
     (let lid = lease_name (sc_next s) in
      (\<lparr>dc_status = Admitted, dc_campaign = rq_campaign r, dc_reason = ''resources_available'',
        dc_lease = Some lid, dc_position = None\<rparr>,
       reserve rd r (s\<lparr>sc_next := sc_next s + 1, sc_active := dict_put lid \<lparr>ls_id = lid, ls_request = r\<rparr> (sc_active s)\<rparr>)))"

definition rejected :: "resource_request \<Rightarrow> string \<Rightarrow> admission_decision" where
  "rejected r reason = \<lparr>dc_status = Rejected, dc_campaign = rq_campaign r, dc_reason = reason,
     dc_lease = None, dc_position = None\<rparr>"

definition submit :: "rounding \<Rightarrow> resource_request \<Rightarrow> scheduler \<Rightarrow> admission_decision \<times> scheduler" where
  "submit rd r s = (case permanent_rejection s r of
       Some reason \<Rightarrow> (rejected r reason, s)
     | None \<Rightarrow>
         if can_admit rd s r then admit rd r s
         else let s' = s\<lparr>sc_queue := sc_queue s @ [r], sc_throttled := sc_throttled s + 1\<rparr> in
           (\<lparr>dc_status = Queued, dc_campaign = rq_campaign r, dc_reason = queue_reason s' r, dc_lease = None,
             dc_position = Some (length (sc_queue s'))\<rparr>, s'))"

text \<open>The loop of \<^verbatim>\<open>release\<close>, over the queue it starts with.\<close>

fun drain :: "rounding \<Rightarrow> resource_request list \<Rightarrow> scheduler \<Rightarrow> admission_decision list \<times> scheduler" where
  "drain rd [] s = ([], s\<lparr>sc_queue := []\<rparr>)"
| "drain rd (r # rs) s = (case permanent_rejection s r of
       Some reason \<Rightarrow> (let (ds, s') = drain rd rs s in (rejected r reason # ds, s'))
     | None \<Rightarrow>
         if \<not> can_admit rd s r then ([], s\<lparr>sc_queue := r # rs\<rparr>)
         else let (d, s1) = admit rd r s; (ds, s') = drain rd rs s1 in (d # ds, s'))"

definition release ::
    "rounding \<Rightarrow> string \<Rightarrow> resource_usage \<Rightarrow> scheduler \<Rightarrow> resource_error + admission_decision list \<times> scheduler" where
  "release rd lid u s = (case dict_get (sc_active s) lid of
       None \<Rightarrow> Inl (ResourceValue ''unknown or already released lease'')
     | Some l \<Rightarrow>
         let s1 = unreserve rd (ls_request l) (s\<lparr>sc_active := filter (\<lambda>kl. fst kl \<noteq> lid) (sc_active s)\<rparr>);
             s2 = s1\<lparr>sc_used_core := rd (sc_used_core s1 + us_core u),
               sc_used_input := sc_used_input s1 + tokens (us_input u),
               sc_used_generated := sc_used_generated s1 + tokens (us_generated u)\<rparr>
         in Inr (drain rd (sc_queue s2) s2))"

fun remove_campaign :: "string \<Rightarrow> resource_request list \<Rightarrow> resource_request list" where
  "remove_campaign c [] = []"
| "remove_campaign c (r # rs) = (if rq_campaign r = c then rs else r # remove_campaign c rs)"

definition cancel_queued :: "string \<Rightarrow> scheduler \<Rightarrow> bool \<times> scheduler" where
  "cancel_queued c s =
     (list_ex (\<lambda>r. rq_campaign r = c) (sc_queue s), s\<lparr>sc_queue := remove_campaign c (sc_queue s)\<rparr>)"

definition observe_resources :: "scheduler \<Rightarrow> resource_request \<Rightarrow> resource_observation \<Rightarrow> string list" where
  "observe_resources s r ob =
     (case ob_cpu ob of None \<Rightarrow> [] | Some n \<Rightarrow>
        (if env_cpu (sc_envelope s) < n then [''worker CPU envelope exceeded''] else []) @
        (if rq_cpu r < n then [''campaign CPU allocation exceeded''] else [])) @
     (case ob_memory ob of None \<Rightarrow> [] | Some n \<Rightarrow>
        (if env_memory (sc_envelope s) < n then [''worker memory envelope exceeded''] else []) @
        (if rq_memory r < n then [''campaign memory allocation exceeded''] else []))"

section \<open>Runs\<close>

inductive scheduler_step :: "rounding \<Rightarrow> scheduler \<Rightarrow> scheduler \<Rightarrow> bool" for rd where
  submitted: "ResourceRequest r = Inr r \<Longrightarrow> submit rd r s = (d, s') \<Longrightarrow> scheduler_step rd s s'"
| released: "ResourceUsage u = Inr u \<Longrightarrow> release rd lid u s = Inr (ds, s') \<Longrightarrow> scheduler_step rd s s'"
| cancelled: "cancel_queued c s = (found, s') \<Longrightarrow> scheduler_step rd s s'"

inductive_cases scheduler_stepE: "scheduler_step rd s s'"

inductive scheduler_run :: "rounding \<Rightarrow> scheduler \<Rightarrow> bool" for rd where
  fresh: "ResourceEnvelope (sc_envelope s) = Inr e \<Longrightarrow> s = WorkerResourceScheduler (Some e) q \<Longrightarrow> scheduler_run rd s"
| stepped: "scheduler_run rd s \<Longrightarrow> scheduler_step rd s s' \<Longrightarrow> scheduler_run rd s'"

section \<open>The invariant\<close>

definition leases_ok :: "scheduler \<Rightarrow> bool" where
  "leases_ok s \<longleftrightarrow> distinct (dict_keys (sc_active s)) \<and>
     (\<forall>kl \<in> set (sc_active s). ls_id (snd kl) = fst kl \<and> fst kl \<in> lease_name ` {..<sc_next s})"

definition capacity_ok :: "scheduler \<Rightarrow> bool" where
  "capacity_ok s \<longleftrightarrow>
     sum_list (map rq_cpu (running s)) \<le> env_cpu (sc_envelope s) \<and>
     sum_list (map rq_memory (running s)) \<le> env_memory (sc_envelope s) \<and>
     int (length (sc_active s)) \<le> env_concurrent (sc_envelope s) \<and>
     distinct (List.map_filter rq_profile (running s))"

text \<open>
  The reserved tokens are integers and exact; the reserved core seconds are only when no addition
  rounds.
\<close>

definition reservations_ok :: "rounding \<Rightarrow> scheduler \<Rightarrow> bool" where
  "reservations_ok rd s \<longleftrightarrow>
     ((\<forall>x. rd x = x) \<longrightarrow> sc_reserved_core s = sum_list (map rq_core (running s))) \<and>
     sc_reserved_input s = sum_list (map (\<lambda>r. tokens (rq_input r)) (running s)) \<and>
     sc_reserved_generated s = sum_list (map (\<lambda>r. tokens (rq_generated r)) (running s))"

definition requests_ok :: "scheduler \<Rightarrow> bool" where
  "requests_ok s \<longleftrightarrow> (\<forall>r \<in> set (running s) \<union> set (sc_queue s). ResourceRequest r = Inr r \<and> permanent_rejection s r = None)"

definition scheduler_ok :: "rounding \<Rightarrow> scheduler \<Rightarrow> bool" where
  "scheduler_ok rd s \<longleftrightarrow> leases_ok s \<and> capacity_ok s \<and> reservations_ok rd s \<and> requests_ok s"

end
