(* ===== verification/Runtime_Scheduler.thy ===== *)
theory Runtime_Scheduler
  imports Runtime_Resources "HOL-Library.Multiset"
begin

text \<open>
  Every run of the scheduler keeps its invariant, however core seconds are rounded: the capacity of
  the worker, one process per solver profile, fresh leases, and token reservations that are the
  estimates of the running campaigns. When a campaign may start is stated apart from the code's test.
\<close>

named_theorems scheduler_simps

lemma permanent_rejection_cong [scheduler_simps]:
  "sc_envelope s' = sc_envelope s \<Longrightarrow> sc_quota s' = sc_quota s \<Longrightarrow> permanent_rejection s' r = permanent_rejection s r"
  by (simp add: permanent_rejection_def)

lemma running_queue [simp]: "running (s\<lparr>sc_queue := q\<rparr>) = running s"
  by (simp add: running_def)

lemma can_admit_queue [simp]: "can_admit rd (s\<lparr>sc_queue := q\<rparr>) r = can_admit rd s r"
proof -
  have "profile_active (s\<lparr>sc_queue := q\<rparr>) r = profile_active s r"
    by (cases "rq_profile r") (simp_all add: profile_active_def scheduler_snapshot_def)
  moreover have "quota_allows_estimate rd (s\<lparr>sc_queue := q\<rparr>) r = quota_allows_estimate rd s r"
    by (cases "qt_core (sc_quota s)") (simp_all add: quota_allows_estimate_def)
  ultimately show ?thesis by (simp add: can_admit_def Let_def scheduler_snapshot_def)
qed

lemma ResourceRequest_ok:
  "ResourceRequest r = Inr r' \<longleftrightarrow> r' = r \<and> rq_campaign r \<noteq> '''' \<and> 0 < rq_cpu r \<and> 0 < rq_memory r \<and> 0 \<le> rq_core r \<and>
     \<not> negative (rq_input r) \<and> \<not> negative (rq_generated r)"
  by (auto simp: ResourceRequest_def not_le)

lemma tokens_nonneg: "\<not> negative v \<Longrightarrow> 0 \<le> tokens v"
  by (simp add: negative_def tokens_def split: option.splits)

lemma scheduler_ok_cong:
  assumes "scheduler_ok rd s" "sc_active s' = sc_active s" "sc_next s' = sc_next s" "sc_envelope s' = sc_envelope s"
    "sc_quota s' = sc_quota s" "sc_reserved_core s' = sc_reserved_core s"
    "sc_reserved_input s' = sc_reserved_input s" "sc_reserved_generated s' = sc_reserved_generated s"
    and "\<forall>r \<in> set (sc_queue s'). ResourceRequest r = Inr r \<and> permanent_rejection s r = None"
  shows "scheduler_ok rd s'"
proof -
  have run: "running s' = running s" by (simp add: running_def assms(2))
  have "leases_ok s'" using assms(1) by (simp add: scheduler_ok_def leases_ok_def assms(2,3))
  moreover have "capacity_ok s'" using assms(1) by (simp add: scheduler_ok_def capacity_ok_def run assms(2,4))
  moreover have "reservations_ok rd s'" using assms(1) by (simp add: scheduler_ok_def reservations_ok_def run assms(6-8))
  moreover have "requests_ok s'"
    using assms(1,9) by (simp add: scheduler_ok_def requests_ok_def run permanent_rejection_cong [OF assms(4,5)] ball_Un)
  ultimately show ?thesis by (simp add: scheduler_ok_def)
qed

lemma queued_ok:
  "scheduler_ok rd s \<Longrightarrow> r \<in> set (sc_queue s) \<Longrightarrow> ResourceRequest r = Inr r \<and> permanent_rejection s r = None"
  by (simp add: scheduler_ok_def requests_ok_def)

lemma fresh_lease: "leases_ok s \<Longrightarrow> lease_name (sc_next s) \<notin> set (dict_keys (sc_active s))"
  unfolding leases_ok_def lease_name_def by force

section \<open>Admission\<close>

text \<open>
  Room for one more campaign beside the running ones \<open>busy\<close>: a free place, cores, memory, no other
  process on its solver profile, and for each limit of the quota that applies, what was used, what the
  running campaigns reserve and the campaign's estimate stay within it. The reserved core seconds are
  a rounded accumulator.
\<close>

definition worker_fits ::
    "rounding \<Rightarrow> envelope \<Rightarrow> quota \<Rightarrow> rat \<Rightarrow> rat \<Rightarrow> int \<Rightarrow> int \<Rightarrow> resource_request list \<Rightarrow> resource_request \<Rightarrow> bool" where
  "worker_fits rd e q used reserved used_in used_gen busy r \<longleftrightarrow>
     int (length busy) < env_concurrent e \<and>
     sum_list (map rq_cpu busy) + rq_cpu r \<le> env_cpu e \<and>
     sum_list (map rq_memory busy) + rq_memory r \<le> env_memory e \<and>
     (\<forall>p. rq_profile r = Some p \<longrightarrow> Some p \<notin> rq_profile ` set busy) \<and>
     (\<forall>m. qt_core q = Some m \<longrightarrow> rd (rd (used + reserved) + rq_core r) \<le> m) \<and>
     (\<forall>m n. qt_input q = Some m \<and> rq_input r = Some n \<longrightarrow>
        used_in + sum_list (map (\<lambda>b. tokens (rq_input b)) busy) + n \<le> m) \<and>
     (\<forall>m n. qt_generated q = Some m \<and> rq_generated r = Some n \<longrightarrow>
        used_gen + sum_list (map (\<lambda>b. tokens (rq_generated b)) busy) + n \<le> m)"

definition reserved_after :: "rounding \<Rightarrow> rat \<Rightarrow> resource_request list \<Rightarrow> rat" where
  "reserved_after rd a rs = foldl (\<lambda>a r. rd (a + rq_core r)) a rs"

lemma reserved_after_simps [simp]:
  "reserved_after rd a [] = a" "reserved_after rd a (r # rs) = reserved_after rd (rd (a + rq_core r)) rs"
  by (simp_all add: reserved_after_def)

lemma over_estimate_iff: "\<not> over_estimate a b \<longleftrightarrow> (\<forall>m n. a = Some m \<and> b = Some n \<longrightarrow> n \<le> m)"
  by (auto simp: over_estimate_def not_less split: option.split)

lemma map_filter_mem: "p \<in> set (List.map_filter f xs) \<longleftrightarrow> Some p \<in> f ` set xs"
  by (induction xs) (auto simp: List.map_filter_simps split: option.splits)

lemma can_admit_fits:
  assumes "reservations_ok rd s"
  shows "can_admit rd s r \<longleftrightarrow> worker_fits rd (sc_envelope s) (sc_quota s) (sc_used_core s) (sc_reserved_core s)
    (sc_used_input s) (sc_used_generated s) (running s) r"
proof -
  have "int (sn_active (scheduler_snapshot s)) = int (length (running s))"
    by (simp add: scheduler_snapshot_def running_def)
  moreover have "profile_active s r \<longleftrightarrow> \<not> (\<forall>p. rq_profile r = Some p \<longrightarrow> Some p \<notin> rq_profile ` set (running s))"
    by (cases "rq_profile r") (simp_all add: profile_active_def scheduler_snapshot_def map_filter_mem)
  moreover have "quota_allows_estimate rd s r \<longleftrightarrow>
      (\<forall>m. qt_core (sc_quota s) = Some m \<longrightarrow> rd (rd (sc_used_core s + sc_reserved_core s) + rq_core r) \<le> m) \<and>
      \<not> over_estimate (qt_input (sc_quota s)) (map_option (\<lambda>n. sc_used_input s + sc_reserved_input s + n) (rq_input r)) \<and>
      \<not> over_estimate (qt_generated (sc_quota s)) (map_option (\<lambda>n. sc_used_generated s + sc_reserved_generated s + n) (rq_generated r))"
    by (cases "qt_core (sc_quota s)") (simp_all add: quota_allows_estimate_def not_less)
  moreover have "sc_reserved_input s = sum_list (map (\<lambda>b. tokens (rq_input b)) (running s))"
    "sc_reserved_generated s = sum_list (map (\<lambda>b. tokens (rq_generated b)) (running s))"
    using assms by (simp_all add: reservations_ok_def)
  ultimately show ?thesis
    unfolding can_admit_def worker_fits_def over_estimate_iff Let_def
    by (simp add: scheduler_snapshot_def) (auto simp: not_le not_less)
qed

lemma can_admit_capacity:
  assumes "can_admit rd s r"
  shows "int (length (sc_active s)) < env_concurrent (sc_envelope s)"
    "sum_list (map rq_cpu (running s)) + rq_cpu r \<le> env_cpu (sc_envelope s)"
    "sum_list (map rq_memory (running s)) + rq_memory r \<le> env_memory (sc_envelope s)"
    "rq_profile r = Some p \<Longrightarrow> p \<notin> set (List.map_filter rq_profile (running s))"
    "quota_allows_estimate rd s r"
  using assms
  by (auto simp: can_admit_def Let_def scheduler_snapshot_def profile_active_def split: if_splits option.splits)

lemma admit_facts:
  assumes "leases_ok s" "admit rd r s = (d, s')"
  shows "running s' = running s @ [r]" "sc_queue s' = sc_queue s" "sc_envelope s' = sc_envelope s"
    "sc_quota s' = sc_quota s" "dc_status d = Admitted" "dc_campaign d = rq_campaign r"
    "dc_lease d = Some (lease_name (sc_next s))"
    "sc_active s' = sc_active s @ [(lease_name (sc_next s), \<lparr>ls_id = lease_name (sc_next s), ls_request = r\<rparr>)]"
    "sc_used_core s' = sc_used_core s" "sc_next s' = sc_next s + 1"
    "sc_used_input s' = sc_used_input s" "sc_used_generated s' = sc_used_generated s"
    "sc_reserved_core s' = rd (sc_reserved_core s + rq_core r)"
    "sc_reserved_input s' = sc_reserved_input s + tokens (rq_input r)"
    "sc_reserved_generated s' = sc_reserved_generated s + tokens (rq_generated r)"
proof -
  from fresh_lease [OF assms(1)] show active: "sc_active s' = sc_active s @ [(lease_name (sc_next s), \<lparr>ls_id = lease_name (sc_next s), ls_request = r\<rparr>)]"
    using assms(2) by (auto simp: admit_def Let_def reserve_def dict_put_new)
  then show "running s' = running s @ [r]" by (simp add: running_def)
qed (use assms(2) in \<open>auto simp: admit_def Let_def reserve_def\<close>)

lemma map_filter_append: "List.map_filter f (xs @ ys) = List.map_filter f xs @ List.map_filter f ys"
  by (simp add: List.map_filter_def)

lemma admit_ok:
  assumes ok: "scheduler_ok rd s" and "can_admit rd s r" "admit rd r s = (d, s')"
    and "ResourceRequest r = Inr r" "permanent_rejection s r = None"
  shows "scheduler_ok rd s'"
proof -
  from ok have leases: "leases_ok s" by (simp add: scheduler_ok_def)
  note facts = admit_facts [OF leases assms(3)] and cap = can_admit_capacity [OF assms(2)]
  have "leases_ok s'"
    using leases fresh_lease [OF leases] unfolding leases_ok_def facts by (auto simp: less_Suc_eq)
  moreover have "distinct (List.map_filter rq_profile (running s) @ List.map_filter rq_profile [r])"
    using ok cap(4) by (cases "rq_profile r") (auto simp: scheduler_ok_def capacity_ok_def List.map_filter_def)
  then have "capacity_ok s'" using cap(1-3) by (simp add: capacity_ok_def facts map_filter_append)
  moreover have "reservations_ok rd s'" using ok by (simp add: scheduler_ok_def reservations_ok_def facts)
  moreover have "requests_ok s'"
    using ok assms(4,5) by (simp add: scheduler_ok_def requests_ok_def facts permanent_rejection_cong [OF facts(3,4)] ball_Un)
  ultimately show ?thesis by (simp add: scheduler_ok_def)
qed

lemma submit_ok:
  assumes "scheduler_ok rd s" "ResourceRequest r = Inr r" "submit rd r s = (d, s')"
  shows "scheduler_ok rd s'"
proof (cases "permanent_rejection s r")
  case None
  show ?thesis
  proof (cases "can_admit rd s r")
    case True
    with None assms(3) have "admit rd r s = (d, s')" by (simp add: submit_def)
    with assms(1,2) True None show ?thesis by (blast intro: admit_ok)
  next
    case False
    with None assms(3) have s': "s' = s\<lparr>sc_queue := sc_queue s @ [r], sc_throttled := sc_throttled s + 1\<rparr>"
      by (simp add: submit_def Let_def)
    show ?thesis by (rule scheduler_ok_cong [OF assms(1)]) (use assms(2) None queued_ok [OF assms(1)] in \<open>auto simp: s'\<close>)
  qed
qed (use assms in \<open>simp add: submit_def\<close>)

section \<open>Release\<close>

lemma drain_facts:
  assumes "scheduler_ok rd s" "\<forall>r \<in> set rs. ResourceRequest r = Inr r \<and> permanent_rejection s r = None"
    and "drain rd rs s = (ds, s')"
  shows "\<exists>now. rs = now @ sc_queue s' \<and> running s' = running s @ now \<and>
    list_all (\<lambda>d. dc_status d = Admitted) ds \<and> map dc_campaign ds = map rq_campaign now \<and>
    (\<forall>k < length now. worker_fits rd (sc_envelope s) (sc_quota s) (sc_used_core s)
       (reserved_after rd (sc_reserved_core s) (take k now)) (sc_used_input s) (sc_used_generated s)
       (running s @ take k now) (now ! k)) \<and>
    (sc_queue s' \<noteq> [] \<longrightarrow> \<not> worker_fits rd (sc_envelope s) (sc_quota s) (sc_used_core s)
       (reserved_after rd (sc_reserved_core s) now) (sc_used_input s) (sc_used_generated s)
       (running s @ now) (hd (sc_queue s'))) \<and> scheduler_ok rd s' \<and>
    sc_envelope s' = sc_envelope s \<and> sc_quota s' = sc_quota s \<and> sc_used_core s' = sc_used_core s \<and>
    sc_used_input s' = sc_used_input s \<and> sc_used_generated s' = sc_used_generated s"
  using assms
proof (induction rs arbitrary: s ds)
  case Nil
  have "scheduler_ok rd (s\<lparr>sc_queue := []\<rparr>)" by (rule scheduler_ok_cong [OF Nil.prems(1)]) simp_all
  with Nil.prems(3) show ?case by auto
next
  case (Cons r rs)
  from Cons.prems(2) have r: "ResourceRequest r = Inr r" "permanent_rejection s r = None" by simp_all
  from Cons.prems(1) have reservations: "reservations_ok rd s" by (simp add: scheduler_ok_def)
  show ?case
  proof (cases "can_admit rd s r")
    case False
    with Cons.prems(3) r have "ds = []" "s' = s\<lparr>sc_queue := r # rs\<rparr>" by simp_all
    moreover have "scheduler_ok rd (s\<lparr>sc_queue := r # rs\<rparr>)"
      by (rule scheduler_ok_cong [OF Cons.prems(1)]) (use Cons.prems(2) in simp_all)
    ultimately show ?thesis using False can_admit_fits [OF reservations, of r] by simp
  next
    case True
    obtain d s1 where d: "admit rd r s = (d, s1)" by force
    with Cons.prems(3) True r obtain ds1 where rest: "drain rd rs s1 = (ds1, s')" and ds: "ds = d # ds1"
      by (auto split: prod.splits)
    from Cons.prems(1) have leases: "leases_ok s" by (simp add: scheduler_ok_def)
    note facts = admit_facts [OF leases d]
    from Cons.prems(2) have valid: "\<forall>r \<in> set rs. ResourceRequest r = Inr r \<and> permanent_rejection s1 r = None"
      by (simp add: permanent_rejection_cong [OF facts(3,4)])
    from Cons.IH [OF admit_ok [OF Cons.prems(1) True d r] valid rest] obtain now where
      "rs = now @ sc_queue s'" "running s' = running s1 @ now" "list_all (\<lambda>d. dc_status d = Admitted) ds1"
      "map dc_campaign ds1 = map rq_campaign now"
      "\<forall>k < length now. worker_fits rd (sc_envelope s1) (sc_quota s1) (sc_used_core s1)
         (reserved_after rd (sc_reserved_core s1) (take k now)) (sc_used_input s1) (sc_used_generated s1)
         (running s1 @ take k now) (now ! k)"
      "sc_queue s' \<noteq> [] \<longrightarrow> \<not> worker_fits rd (sc_envelope s1) (sc_quota s1) (sc_used_core s1)
         (reserved_after rd (sc_reserved_core s1) now) (sc_used_input s1) (sc_used_generated s1)
         (running s1 @ now) (hd (sc_queue s'))" "scheduler_ok rd s'"
      "sc_envelope s' = sc_envelope s1" "sc_quota s' = sc_quota s1" "sc_used_core s' = sc_used_core s1"
      "sc_used_input s' = sc_used_input s1" "sc_used_generated s' = sc_used_generated s1" by blast
    then show ?thesis using True can_admit_fits [OF reservations, of r]
      by (intro exI [of _ "r # now"]) (simp add: ds facts less_Suc_eq_0_disj all_conj_distrib nth_Cons split: nat.split)
  qed
qed

lemma distinct_map_filter_filter:
  "distinct (List.map_filter f (map g xs)) \<Longrightarrow> distinct (List.map_filter f (map g (filter P xs)))"
proof (induction xs)
  case (Cons x xs)
  have "set (List.map_filter f (map g (filter P xs))) \<subseteq> set (List.map_filter f (map g xs))"
    by (auto simp: List.map_filter_def)
  with Cons show ?case by (cases "f (g x)") (auto simp: List.map_filter_simps)
qed (simp add: List.map_filter_simps)

lemma running_without:
  assumes "leases_ok s" "dict_get (sc_active s) lid = Some l"
  shows "mset (running s) = add_mset (ls_request l) (mset (map (\<lambda>kl. ls_request (snd kl)) (filter (\<lambda>kl. fst kl \<noteq> lid) (sc_active s))))"
proof -
  have "mset (map (\<lambda>kl. ls_request (snd kl)) xs) =
      add_mset (ls_request l) (mset (map (\<lambda>kl. ls_request (snd kl)) (filter (\<lambda>kl. fst kl \<noteq> lid) xs)))"
    if "distinct (dict_keys xs)" "dict_get xs lid = Some l" for xs
    using that
  proof (induction xs)
    case (Cons kl xs)
    show ?case
    proof (cases "fst kl = lid")
      case True
      have "fst x \<noteq> lid" if "x \<in> set xs" for x using True Cons.prems(1) that by (cases kl) force
      then have "filter (\<lambda>kl. fst kl \<noteq> lid) xs = xs" by (simp add: filter_id_conv)
      with True Cons.prems show ?thesis by (cases kl) simp
    next
      case False
      with Cons show ?thesis by (cases kl) simp
    qed
  qed simp
  from this [OF _ assms(2)] assms(1) show ?thesis by (simp add: leases_ok_def running_def)
qed

lemma sum_list_mset: "mset xs = add_mset y (mset ys) \<Longrightarrow> sum_list (map f xs) = f y + sum_list (map f ys)"
  for f :: "'a \<Rightarrow> 'b::ab_group_add"
  by (metis image_mset_add_mset mset_map sum_mset.insert sum_mset_sum_list)

definition closed_lease :: "rounding \<Rightarrow> string \<Rightarrow> lease \<Rightarrow> resource_usage \<Rightarrow> scheduler \<Rightarrow> scheduler" where
  "closed_lease rd lid l u s =
     (let s1 = unreserve rd (ls_request l) (s\<lparr>sc_active := filter (\<lambda>kl. fst kl \<noteq> lid) (sc_active s)\<rparr>) in
      s1\<lparr>sc_used_core := rd (sc_used_core s1 + us_core u), sc_used_input := sc_used_input s1 + tokens (us_input u),
         sc_used_generated := sc_used_generated s1 + tokens (us_generated u)\<rparr>)"

lemma release_Inr:
  "release rd lid u s = Inr (ds, s') \<longleftrightarrow>
     (\<exists>l. dict_get (sc_active s) lid = Some l \<and> drain rd (sc_queue s) (closed_lease rd lid l u s) = (ds, s'))"
  by (auto simp: release_def closed_lease_def Let_def unreserve_def split: option.splits)

lemma closed_lease_sel [simp]:
  "sc_queue (closed_lease rd lid l u s) = sc_queue s" "sc_envelope (closed_lease rd lid l u s) = sc_envelope s"
  "sc_quota (closed_lease rd lid l u s) = sc_quota s" "sc_next (closed_lease rd lid l u s) = sc_next s"
  "sc_active (closed_lease rd lid l u s) = filter (\<lambda>kl. fst kl \<noteq> lid) (sc_active s)"
  "sc_used_core (closed_lease rd lid l u s) = rd (sc_used_core s + us_core u)"
  "sc_used_input (closed_lease rd lid l u s) = sc_used_input s + tokens (us_input u)"
  "sc_used_generated (closed_lease rd lid l u s) = sc_used_generated s + tokens (us_generated u)"
  "sc_reserved_core (closed_lease rd lid l u s) = rd (sc_reserved_core s - rq_core (ls_request l))"
  "sc_reserved_input (closed_lease rd lid l u s) = sc_reserved_input s - tokens (rq_input (ls_request l))"
  "sc_reserved_generated (closed_lease rd lid l u s) = sc_reserved_generated s - tokens (rq_generated (ls_request l))"
  "running (closed_lease rd lid l u s) = map (\<lambda>kl. ls_request (snd kl)) (filter (\<lambda>kl. fst kl \<noteq> lid) (sc_active s))"
  by (simp_all add: closed_lease_def Let_def unreserve_def running_def)

lemma closed_lease_ok:
  assumes ok: "scheduler_ok rd s" and l: "dict_get (sc_active s) lid = Some l"
  shows "scheduler_ok rd (closed_lease rd lid l u s)"
proof -
  let ?s = "closed_lease rd lid l u s"
  from ok have leases: "leases_ok s" by (simp add: scheduler_ok_def)
  have m: "mset (running s) = add_mset (ls_request l) (mset (running ?s))"
    using running_without [OF leases l] by simp
  then have subset: "set (running ?s) \<subseteq> set (running s)" and in_s: "ls_request l \<in> set (running s)"
    by (auto simp del: closed_lease_sel simp flip: set_mset_mset)
  have req: "0 < rq_cpu (ls_request l)" "0 < rq_memory (ls_request l)"
    using ok in_s by (auto simp: scheduler_ok_def requests_ok_def ResourceRequest_ok)
  have "leases_ok ?s" using leases unfolding leases_ok_def closed_lease_sel by (simp add: distinct_map_filter)
  moreover have cap: "capacity_ok s" using ok by (simp add: scheduler_ok_def)
  have "int (length (filter (\<lambda>kl. fst kl \<noteq> lid) (sc_active s))) \<le> env_concurrent (sc_envelope s)"
    using cap length_filter_le [of "\<lambda>kl. fst kl \<noteq> lid" "sc_active s"] unfolding capacity_ok_def by linarith
  with cap req have "capacity_ok ?s"
    using sum_list_mset [OF m, of rq_cpu] sum_list_mset [OF m, of rq_memory]
    by (auto simp: capacity_ok_def running_def [of s] intro: distinct_map_filter_filter)
  moreover have "reservations_ok rd ?s"
    using ok sum_list_mset [OF m, of rq_core] sum_list_mset [OF m, of "\<lambda>r. tokens (rq_input r)"]
      sum_list_mset [OF m, of "\<lambda>r. tokens (rq_generated r)"]
    by (simp add: scheduler_ok_def reservations_ok_def)
  moreover have "requests_ok ?s"
    using ok subset unfolding scheduler_ok_def requests_ok_def
    by (auto simp: permanent_rejection_cong [of ?s s] simp del: closed_lease_sel(12))
  ultimately show ?thesis by (simp add: scheduler_ok_def)
qed

lemma release_facts:
  assumes ok: "scheduler_ok rd s" and run: "release rd lid u s = Inr (ds, s')"
  obtains l base now where "dict_get (sc_active s) lid = Some l" "sc_queue s = now @ sc_queue s'"
    "mset (running s) = add_mset (ls_request l) (mset base)" "running s' = base @ now"
    "list_all (\<lambda>d. dc_status d = Admitted) ds" "map dc_campaign ds = map rq_campaign now"
    "\<forall>k < length now. worker_fits rd (sc_envelope s) (sc_quota s) (rd (sc_used_core s + us_core u))
       (reserved_after rd (rd (sc_reserved_core s - rq_core (ls_request l))) (take k now))
       (sc_used_input s + tokens (us_input u)) (sc_used_generated s + tokens (us_generated u))
       (base @ take k now) (now ! k)"
    "sc_queue s' \<noteq> [] \<longrightarrow> \<not> worker_fits rd (sc_envelope s) (sc_quota s) (rd (sc_used_core s + us_core u))
       (reserved_after rd (rd (sc_reserved_core s - rq_core (ls_request l))) now)
       (sc_used_input s + tokens (us_input u)) (sc_used_generated s + tokens (us_generated u))
       (base @ now) (hd (sc_queue s'))"
    "scheduler_ok rd s'" "sc_envelope s' = sc_envelope s" "sc_quota s' = sc_quota s"
    "sc_used_core s' = rd (sc_used_core s + us_core u)"
    "sc_used_input s' = sc_used_input s + tokens (us_input u)"
    "sc_used_generated s' = sc_used_generated s + tokens (us_generated u)"
proof -
  from run obtain l where l: "dict_get (sc_active s) lid = Some l"
    and d: "drain rd (sc_queue s) (closed_lease rd lid l u s) = (ds, s')" by (auto simp: release_Inr)
  let ?s = "closed_lease rd lid l u s"
  from ok have leases: "leases_ok s" by (simp add: scheduler_ok_def)
  have base: "mset (running s) = add_mset (ls_request l) (mset (running ?s))"
    using running_without [OF leases l] by simp
  have "\<forall>r \<in> set (sc_queue s). ResourceRequest r = Inr r \<and> permanent_rejection ?s r = None"
    using ok by (simp add: scheduler_ok_def requests_ok_def permanent_rejection_cong [of ?s s])
  from drain_facts [OF closed_lease_ok [OF ok l] this d] obtain now where now: "sc_queue s = now @ sc_queue s'"
    "running s' = running ?s @ now" "list_all (\<lambda>d. dc_status d = Admitted) ds"
    "map dc_campaign ds = map rq_campaign now"
    "\<forall>k < length now. worker_fits rd (sc_envelope ?s) (sc_quota ?s) (sc_used_core ?s)
       (reserved_after rd (sc_reserved_core ?s) (take k now)) (sc_used_input ?s) (sc_used_generated ?s)
       (running ?s @ take k now) (now ! k)"
    "sc_queue s' \<noteq> [] \<longrightarrow> \<not> worker_fits rd (sc_envelope ?s) (sc_quota ?s) (sc_used_core ?s)
       (reserved_after rd (sc_reserved_core ?s) now) (sc_used_input ?s) (sc_used_generated ?s)
       (running ?s @ now) (hd (sc_queue s'))"
    "scheduler_ok rd s'" "sc_envelope s' = sc_envelope ?s" "sc_quota s' = sc_quota ?s"
    "sc_used_core s' = sc_used_core ?s" "sc_used_input s' = sc_used_input ?s"
    "sc_used_generated s' = sc_used_generated ?s" by blast
  show thesis
    by (rule that [OF l now(1) base now(2-4)]) (use now(5-12) in simp_all)
qed

lemma release_kept:
  assumes "scheduler_ok rd s" "release rd lid u s = Inr (ds, s')"
  shows "sc_envelope s' = sc_envelope s \<and> sc_quota s' = sc_quota s \<and>
    sc_used_input s' = sc_used_input s + tokens (us_input u)"
  by (rule release_facts [OF assms]) (intro conjI; assumption)

section \<open>All runs\<close>

lemma remove_campaign_set: "set (remove_campaign c rs) \<subseteq> set rs"
  by (induction rs) auto

lemma scheduler_step_ok:
  assumes "scheduler_ok rd s" "scheduler_step rd s s'"
  shows "scheduler_ok rd s'"
  using assms(2)
proof (cases rule: scheduler_step.cases)
  case (submitted r d)
  with assms(1) show ?thesis by (blast intro: submit_ok)
next
  case (released u lid ds)
  from release_facts [OF assms(1) released(2)] show ?thesis by blast
next
  case (cancelled c found)
  then have "s' = s\<lparr>sc_queue := remove_campaign c (sc_queue s)\<rparr>" by (simp add: cancel_queued_def)
  moreover have "\<forall>r \<in> set (remove_campaign c (sc_queue s)). ResourceRequest r = Inr r \<and> permanent_rejection s r = None"
    using remove_campaign_set [of c "sc_queue s"] queued_ok [OF assms(1)] by blast
  ultimately show ?thesis by (auto intro!: scheduler_ok_cong [OF assms(1)])
qed

lemma scheduler_run_ok: "scheduler_run rd s \<Longrightarrow> scheduler_ok rd s"
proof (induction rule: scheduler_run.induct)
  case (fresh s e q)
  then show ?case
    by (simp add: WorkerResourceScheduler_def ResourceEnvelope_def scheduler_ok_def leases_ok_def capacity_ok_def
        reservations_ok_def requests_ok_def running_def List.map_filter_simps split: if_splits)
qed (rule scheduler_step_ok)

lemma submit_kept:
  assumes "scheduler_ok rd s" "submit rd r s = (d, s')"
  shows "sc_envelope s' = sc_envelope s \<and> sc_quota s' = sc_quota s \<and> sc_used_input s' = sc_used_input s"
proof -
  from assms(1) have leases: "leases_ok s" by (simp add: scheduler_ok_def)
  show ?thesis
  proof (cases "permanent_rejection s r = None \<and> can_admit rd s r")
    case True
    with assms(2) have "admit rd r s = (d, s')" by (simp add: submit_def)
    from admit_facts [OF leases this] show ?thesis by simp
  qed (use assms(2) in \<open>auto simp: submit_def Let_def split: option.splits\<close>)
qed

text \<open>Used input tokens never shrink, and the limits never change.\<close>

lemma scheduler_step_kept:
  assumes "scheduler_ok rd s" "scheduler_step rd s s'"
  shows "sc_envelope s' = sc_envelope s \<and> sc_quota s' = sc_quota s \<and> sc_used_input s \<le> sc_used_input s'"
  using assms(2)
proof (cases rule: scheduler_step.cases)
  case (submitted r d)
  with submit_kept [OF assms(1) submitted(2)] show ?thesis by simp
next
  case (released u lid ds)
  from released(1) have "0 \<le> tokens (us_input u)"
    by (intro tokens_nonneg) (simp add: ResourceUsage_def split: if_splits)
  with release_kept [OF assms(1) released(2)] show ?thesis by simp
qed (auto simp: cancel_queued_def)

lemma scheduler_steps_kept:
  assumes "(scheduler_step rd)\<^sup>*\<^sup>* s s'" "scheduler_ok rd s"
  shows "scheduler_ok rd s' \<and> sc_envelope s' = sc_envelope s \<and> sc_quota s' = sc_quota s \<and> sc_used_input s \<le> sc_used_input s'"
  using assms
proof (induction rule: rtranclp_induct)
  case (step s1 s2)
  then have "scheduler_ok rd s1" by simp
  with step scheduler_step_ok [OF _ step(2)] scheduler_step_kept [OF _ step(2)] show ?case by fastforce
qed simp

lemma reserved_nonneg: "scheduler_ok rd s \<Longrightarrow> 0 \<le> sc_reserved_input s"
  by (auto simp: scheduler_ok_def reservations_ok_def requests_ok_def ResourceRequest_ok
      intro!: sum_list_nonneg tokens_nonneg)

lemma exhausted_never_admits:
  assumes "scheduler_ok rd s" "qt_input (sc_quota s) = Some m" "rq_input r = Some n" "m < sc_used_input s + n"
  shows "\<not> can_admit rd s r"
proof
  assume "can_admit rd s r"
  then have "quota_allows_estimate rd s r" by (rule can_admit_capacity)
  with reserved_nonneg [OF assms(1)] assms(2-4) show False
    by (simp add: quota_allows_estimate_def over_estimate_def split: if_splits)
qed

end
