(* ===== verification/Runtime_Resource_Properties.thy ===== *)
theory Runtime_Resource_Properties
  imports Runtime_Scheduler
begin

text \<open>
  What the resource scheduler guarantees in every run, and where it departs from its description.
\<close>

section \<open>A run\<close>

definition small_request :: "string \<Rightarrow> int \<Rightarrow> rat \<Rightarrow> resource_request" where
  "small_request c cores estimate = \<lparr>rq_campaign = c, rq_cpu = cores, rq_memory = 1, rq_profile = None,
     rq_core = estimate, rq_input = None, rq_generated = None\<rparr>"

definition spent :: "rat \<Rightarrow> resource_usage" where
  "spent n = \<lparr>us_core = n, us_solver = 0, us_memory = None, us_wall = 0, us_input = None, us_generated = None,
     us_cost = None, us_missing = []\<rparr>"

definition limited :: scheduler where
  "limited = WorkerResourceScheduler (Some default_envelope) (Some \<lparr>qt_core = Some 10, qt_input = None, qt_generated = None\<rparr>)"

lemma limited_run: "scheduler_run rd limited"
  unfolding limited_def
  by (rule scheduler_run.fresh [where e = default_envelope and
        q = "Some \<lparr>qt_core = Some 10, qt_input = None, qt_generated = None\<rparr>"])
    (simp_all add: WorkerResourceScheduler_def ResourceEnvelope_def default_envelope_def)

lemma submit_run:
  "scheduler_run rd s \<Longrightarrow> ResourceRequest r = Inr r \<Longrightarrow> scheduler_run rd (snd (submit rd r s))"
  by (rule scheduler_run.stepped, assumption, rule scheduler_step.submitted [where d = "fst (submit rd r s)"]) simp_all

lemma small_request_ok: "c \<noteq> '''' \<Longrightarrow> 0 < n \<Longrightarrow> 0 \<le> e \<Longrightarrow> ResourceRequest (small_request c n e) = Inr (small_request c n e)"
  by (simp add: ResourceRequest_ok small_request_def negative_def)

definition busy :: "rounding \<Rightarrow> scheduler" where
  "busy rd = snd (submit rd (small_request ''b'' 3 1) (snd (submit rd (small_request ''a'' 2 1) limited)))"

lemma busy_run: "scheduler_run rd (busy rd)"
  unfolding busy_def by (intro submit_run small_request_ok limited_run) simp_all

section \<open>Capacity\<close>

text \<open>
  C36. In every run the worker is never overcommitted, whatever rounding the float arithmetic on core
  seconds has: the running campaigns are at most the concurrency limit, their cores and memory sum up
  to what the worker has at most, no two of them use the same solver profile, the snapshot reports
  these sums, and the reserved input and generated tokens are exactly the estimates of the running
  campaigns. The reserved core seconds are exactly that only if no addition rounds; with floats they
  drift, as \<open>float_residue_blocks\<close> shows.
\<close>

theorem scheduler_never_overcommits:
  assumes "scheduler_run rd s"
  shows "let sn = scheduler_snapshot s; e = sc_envelope s in
    int (length (running s)) \<le> env_concurrent e \<and> sum_list (map rq_cpu (running s)) \<le> env_cpu e \<and>
    sum_list (map rq_memory (running s)) \<le> env_memory e \<and> distinct (List.map_filter rq_profile (running s)) \<and>
    sn_active sn = length (running s) \<and> sn_cpu sn = sum_list (map rq_cpu (running s)) \<and>
    sn_memory sn = sum_list (map rq_memory (running s)) \<and>
    mset (sn_profiles sn) = mset (List.map_filter rq_profile (running s)) \<and>
    sc_reserved_input s = sum_list (map (\<lambda>r. tokens (rq_input r)) (running s)) \<and>
    sc_reserved_generated s = sum_list (map (\<lambda>r. tokens (rq_generated r)) (running s)) \<and>
    ((\<forall>x. rd x = x) \<longrightarrow> sc_reserved_core s = sum_list (map rq_core (running s)))"
  using scheduler_run_ok [OF assms]
  by (simp add: scheduler_ok_def capacity_ok_def reservations_ok_def scheduler_snapshot_def Let_def running_def)

theorem scheduler_never_overcommits_witness:
  "scheduler_run (\<lambda>x. x) (busy (\<lambda>x. x)) \<and> sn_cpu (scheduler_snapshot (busy (\<lambda>x. x))) = 2 \<and>
   sum_list (map rq_cpu (running (busy (\<lambda>x. x)))) = 2 \<and> sc_reserved_core (busy (\<lambda>x. x)) = 1"
proof -
  let ?s = "busy (\<lambda>x. x)"
  have "sn_cpu (scheduler_snapshot ?s) = 2" "map rq_core (running ?s) = [1]" by code_simp+
  with scheduler_never_overcommits [OF busy_run [of "\<lambda>x. x"]] busy_run [of "\<lambda>x. x"] show ?thesis
    by (simp add: Let_def)
qed

section \<open>The queue\<close>

text \<open>
  C37. Releasing a lease loses nothing and keeps the order of the queue. The released campaign stops
  running and its usage is booked; then a prefix of the queue starts, in order and each with an
  admission, the rest keeps waiting in order, and no queued campaign is rejected then. Each campaign
  of the prefix has room beside those that run when it starts: a free place, cores, memory, no other
  process on its solver profile, and every limit of the quota holds for what was used, what the
  running campaigns reserve and its own estimate (core seconds with the rounding of the float
  arithmetic). The first campaign that keeps waiting has no such room, so the prefix is the longest
  possible one.
\<close>

theorem release_drains_in_order:
  assumes "scheduler_run rd s" "release rd lid u s = Inr (ds, s')"
  shows "\<exists>l base now. dict_get (sc_active s) lid = Some l \<and> sc_queue s = now @ sc_queue s' \<and>
    mset (running s) = add_mset (ls_request l) (mset base) \<and> running s' = base @ now \<and>
    map dc_campaign ds = map rq_campaign now \<and> list_all (\<lambda>d. dc_status d = Admitted) ds \<and>
    sc_used_core s' = rd (sc_used_core s + us_core u) \<and>
    sc_used_input s' = sc_used_input s + tokens (us_input u) \<and>
    sc_used_generated s' = sc_used_generated s + tokens (us_generated u) \<and>
    (\<forall>k < length now. worker_fits rd (sc_envelope s) (sc_quota s) (sc_used_core s')
       (reserved_after rd (rd (sc_reserved_core s - rq_core (ls_request l))) (take k now))
       (sc_used_input s') (sc_used_generated s') (base @ take k now) (now ! k)) \<and>
    (sc_queue s' \<noteq> [] \<longrightarrow> \<not> worker_fits rd (sc_envelope s) (sc_quota s) (sc_used_core s')
       (reserved_after rd (rd (sc_reserved_core s - rq_core (ls_request l))) now)
       (sc_used_input s') (sc_used_generated s') (base @ now) (hd (sc_queue s')))"
proof (rule release_facts [OF scheduler_run_ok [OF assms(1)] assms(2)], goal_cases)
  case (1 l base now)
  then show ?case by (intro exI [of _ l] exI [of _ base] exI [of _ now]) simp
qed

theorem release_drains_in_order_witness:
  "\<exists>ds s'. release (\<lambda>x. x) ''lease-1'' (spent 1) (busy (\<lambda>x. x)) = Inr (ds, s') \<and>
     map dc_campaign ds = [''b''] \<and> sc_queue s' = []"
proof -
  have "case release (\<lambda>x. x) ''lease-1'' (spent 1) (busy (\<lambda>x. x)) of Inl e \<Rightarrow> False | Inr (ds, s') \<Rightarrow> sc_queue s' = []"
    by code_simp
  then obtain ds s' where r: "release (\<lambda>x. x) ''lease-1'' (spent 1) (busy (\<lambda>x. x)) = Inr (ds, s')" "sc_queue s' = []"
    by (auto split: sum.splits)
  have "map rq_campaign (sc_queue (busy (\<lambda>x. x))) = [''b'']" by code_simp
  with release_drains_in_order [OF busy_run r(1)] r show ?thesis by auto
qed

text \<open>
  The description calls the scheduler first in, first out, but only \<open>release\<close> respects the queue: a
  campaign that is submitted while others wait is admitted at once when it fits.
\<close>

lemma submission_overtakes_queue:
  "\<exists>s r d s'. scheduler_run (\<lambda>x. x) s \<and> sc_queue s \<noteq> [] \<and> ResourceRequest r = Inr r \<and>
     submit (\<lambda>x. x) r s = (d, s') \<and> dc_status d = Admitted"
proof -
  have "sc_queue (busy (\<lambda>x. x)) \<noteq> []"
    "dc_status (fst (submit (\<lambda>x. x) (small_request ''c'' 1 1) (busy (\<lambda>x. x)))) = Admitted" by code_simp+
  with busy_run [of "\<lambda>x. x"] small_request_ok [of "''c''" 1 1] show ?thesis
    by (metis prod.collapse less_numeral_extra(1) list.distinct(1) zero_le_one)
qed

text \<open>
  A request that the remaining quota can no longer hold is not refused but queued, and waits
  forever: in no later state of any run is it admitted, and while it is at the head of the queue no
  release admits anything.
\<close>

theorem exhausted_quota_starves:
  assumes "scheduler_run rd s" "qt_input (sc_quota s) = Some m" "rq_input r = Some n" "m < sc_used_input s + n"
    and "permanent_rejection s r = None" "(scheduler_step rd)\<^sup>*\<^sup>* s s'"
  shows "dc_status (fst (submit rd r s')) = Queued \<and>
    (\<forall>lid u ds s'' rest. sc_queue s' = r # rest \<and> 0 \<le> tokens (us_input u) \<and> release rd lid u s' = Inr (ds, s'') \<longrightarrow>
       ds = [] \<and> sc_queue s'' = sc_queue s')"
proof -
  note kept = scheduler_steps_kept [OF assms(6) scheduler_run_ok [OF assms(1)]]
  have none: "permanent_rejection s' r = None" using kept assms(5) by (simp add: permanent_rejection_cong [of s' s])
  have never: "\<not> can_admit rd s' r" using kept assms(2-4) by (intro exhausted_never_admits [of rd s' m r n]) auto
  have "ds = [] \<and> sc_queue s'' = sc_queue s'"
    if q: "sc_queue s' = r # rest" and u: "0 \<le> tokens (us_input u)" and run: "release rd lid u s' = Inr (ds, s'')"
    for lid u ds s'' rest
  proof -
    obtain l where l: "dict_get (sc_active s') lid = Some l"
      and d: "drain rd (sc_queue s') (closed_lease rd lid l u s') = (ds, s'')" using run by (auto simp: release_Inr)
    have "\<not> can_admit rd (closed_lease rd lid l u s') r"
      using kept assms(2-4) u closed_lease_ok [OF _ l] by (intro exhausted_never_admits [of _ _ m _ n]) auto
    moreover have "permanent_rejection (closed_lease rd lid l u s') r = None"
      using none by (simp add: permanent_rejection_cong [of "closed_lease rd lid l u s'" s'])
    ultimately have "drain rd (sc_queue s') (closed_lease rd lid l u s') =
        ([], closed_lease rd lid l u s'\<lparr>sc_queue := sc_queue s'\<rparr>)"
      by (simp add: q)
    with d show ?thesis by auto
  qed
  then have waits: "\<forall>lid u ds s'' rest. sc_queue s' = r # rest \<and> 0 \<le> tokens (us_input u) \<and>
       release rd lid u s' = Inr (ds, s'') \<longrightarrow> ds = [] \<and> sc_queue s'' = sc_queue s'" by blast
  have "dc_status (fst (submit rd r s')) = Queued" using none never by (simp add: submit_def Let_def)
  with waits show ?thesis by blast
qed

definition token_limited :: scheduler where
  "token_limited = WorkerResourceScheduler (Some default_envelope) (Some \<lparr>qt_core = None, qt_input = Some 10, qt_generated = None\<rparr>)"

definition token_request :: "string \<Rightarrow> int \<Rightarrow> resource_request" where
  "token_request c n = (small_request c 1 0)\<lparr>rq_input := Some n\<rparr>"

definition drained :: scheduler where
  "drained = snd (projr (release (\<lambda>x. x) ''lease-1'' ((spent 0)\<lparr>us_input := Some 8\<rparr>)
     (snd (submit (\<lambda>x. x) (token_request ''a'' 1) token_limited))))"

lemma token_request_ok: "c \<noteq> '''' \<Longrightarrow> 0 \<le> n \<Longrightarrow> ResourceRequest (token_request c n) = Inr (token_request c n)"
  by (simp add: ResourceRequest_ok token_request_def small_request_def negative_def)

lemma token_limited_run: "scheduler_run rd token_limited"
  unfolding token_limited_def
  by (rule scheduler_run.fresh [where e = default_envelope and
        q = "Some \<lparr>qt_core = None, qt_input = Some 10, qt_generated = None\<rparr>"])
    (simp_all add: WorkerResourceScheduler_def ResourceEnvelope_def default_envelope_def)

lemma drained_run: "scheduler_run (\<lambda>x. x) drained"
proof -
  let ?u = "(spent 0)\<lparr>us_input := Some 8\<rparr>" and ?s = "snd (submit (\<lambda>x. x) (token_request ''a'' 1) token_limited)"
  have "case release (\<lambda>x. x) ''lease-1'' ?u ?s of Inl e \<Rightarrow> False | Inr r \<Rightarrow> True" by code_simp
  then obtain ds s' where r: "release (\<lambda>x. x) ''lease-1'' ?u ?s = Inr (ds, s')" by (auto split: sum.splits)
  have "scheduler_run (\<lambda>x. x) ?s" by (intro submit_run token_request_ok token_limited_run) simp_all
  moreover have "ResourceUsage ?u = Inr ?u" by (simp add: ResourceUsage_def spent_def negative_def)
  ultimately have "scheduler_run (\<lambda>x. x) s'" using r by (blast intro: scheduler_run.stepped scheduler_step.released)
  with r show ?thesis by (simp add: drained_def)
qed

theorem exhausted_quota_starves_witness:
  "scheduler_run (\<lambda>x. x) drained \<and> dc_status (fst (submit (\<lambda>x. x) (token_request ''z'' 5) drained)) = Queued"
proof -
  have "qt_input (sc_quota drained) = Some 10" "permanent_rejection drained (token_request ''z'' 5) = None"
    "rq_input (token_request ''z'' 5) = Some 5" "10 < sc_used_input drained + 5"
    by code_simp+
  from exhausted_quota_starves [OF drained_run this(1,3,4,2) rtranclp.rtrancl_refl] drained_run show ?thesis by simp
qed

section \<open>Core seconds drift\<close>

text \<open>Rounding to binary64, half to even, on its normal range.\<close>

function bits :: "int \<Rightarrow> int" where
  "bits n = (if n \<le> 0 then 0 else 1 + bits (n div 2))"
  by pat_completeness auto

termination by (relation "measure nat") auto

definition power_of_two :: "int \<Rightarrow> rat" where
  "power_of_two k = (if 0 \<le> k then 2 ^ nat k else 1 / 2 ^ nat (- k))"

definition nearest :: "int \<Rightarrow> rat \<Rightarrow> int" where
  "nearest f d = (if d < 1 / 2 then f else if 1 / 2 < d then f + 1 else if even f then f else f + 1)"

definition half_even :: "rat \<Rightarrow> int" where
  "half_even x = nearest \<lfloor>x\<rfloor> (x - of_int \<lfloor>x\<rfloor>)"

definition exponent_at :: "rat \<Rightarrow> int \<Rightarrow> int" where
  "exponent_at x k = (if power_of_two k \<le> x then k else k - 1)"

definition exponent :: "rat \<Rightarrow> int" where
  "exponent x = exponent_at x (bits (fst (quotient_of x)) - bits (snd (quotient_of x)))"

definition round_to :: "rat \<Rightarrow> rat \<Rightarrow> rat" where
  "round_to ulp x = of_int (half_even (x / ulp)) * ulp"

definition binary64 :: rounding where
  "binary64 x = (if x = 0 then 0 else round_to (power_of_two (exponent \<bar>x\<bar> - 52)) x)"

text \<open>The floats 0.1, 0.3 and 0.4.\<close>

definition tenth :: rat where "tenth = 3602879701896397 / 2 ^ 55"
definition three_tenths :: rat where "three_tenths = 5404319552844595 / 2 ^ 54"
definition four_tenths :: rat where "four_tenths = 3602879701896397 / 2 ^ 53"

text \<open>What is left of 0.1 + 0.3 - 0.1 - 0.3.\<close>

definition left_over :: rat where "left_over = 1 / 2 ^ 54"

definition seconds_limited :: "rat \<Rightarrow> scheduler" where
  "seconds_limited m = WorkerResourceScheduler (Some default_envelope)
     (Some \<lparr>qt_core = Some m, qt_input = None, qt_generated = None\<rparr>)"

lemma seconds_limited_run: "scheduler_run rd (seconds_limited m)"
  unfolding seconds_limited_def
  by (rule scheduler_run.fresh [where e = default_envelope and
        q = "Some \<lparr>qt_core = Some m, qt_input = None, qt_generated = None\<rparr>"])
    (simp_all add: WorkerResourceScheduler_def ResourceEnvelope_def default_envelope_def)

text \<open>A worker of which only the reserved core seconds and the next lease have changed.\<close>

definition idle_worker :: "rat \<Rightarrow> rat \<Rightarrow> scheduler" where
  "idle_worker m residue = (seconds_limited m)\<lparr>sc_reserved_core := residue, sc_next := 3\<rparr>"

lemmas scheduler_defs = submit_def permanent_rejection_def can_admit_def quota_allows_estimate_def over_estimate_def
  profile_active_def scheduler_snapshot_def admit_def reserve_def release_def unreserve_def tokens_def
  seconds_limited_def WorkerResourceScheduler_def default_envelope_def small_request_def running_def
  lease_name_def spent_def Let_def

lemma lease_names: "string_of_nat (Suc 0) = ''1''" "string_of_nat 2 = ''2''" "string_of_nat (Suc (Suc 0)) = ''2''"
  by (simp_all add: string_of_nat.simps [of "Suc 0"] string_of_nat.simps [of 2] string_of_nat.simps [of "Suc (Suc 0)"]
      digit_char_def)

text \<open>Two campaigns run on it and are released without using anything.\<close>

lemma idle_worker_run:
  assumes "rd 0 = 0" "rd a = a" "rd (a + b) = m" "rd (m - a) = x" "rd (x - b) = residue"
    and "0 \<le> a" "0 \<le> b" "a \<le> m" "b \<le> m"
  shows "scheduler_run rd (idle_worker m residue)"
proof -
  let ?s1 = "snd (submit rd (small_request ''a'' 1 a) (seconds_limited m))"
  let ?s2 = "snd (submit rd (small_request ''b'' 1 b) ?s1)"
  have "scheduler_run rd ?s2"
    using assms(6,7) by (intro submit_run small_request_ok seconds_limited_run) simp_all
  moreover have u: "ResourceUsage (spent 0) = Inr (spent 0)" by (simp add: ResourceUsage_def spent_def negative_def)
  moreover have "\<exists>s3. release rd ''lease-1'' (spent 0) ?s2 = Inr ([], s3) \<and>
      release rd ''lease-2'' (spent 0) s3 = Inr ([], idle_worker m residue)"
    using assms by (simp add: scheduler_defs lease_names idle_worker_def List.map_filter_simps)
  ultimately show ?thesis by (blast intro: scheduler_run.stepped scheduler_step.released)
qed

lemma tenths_values:
  "binary64 0 = 0" "binary64 tenth = tenth" "binary64 four_tenths = four_tenths"
  "binary64 (tenth + three_tenths) = four_tenths" "binary64 (four_tenths - tenth) = 5404319552844596 / 2 ^ 54"
  "binary64 (5404319552844596 / 2 ^ 54 - three_tenths) = (1 / 2 ^ 54)" "binary64 (1 / 2 ^ 54) = (1 / 2 ^ 54)"
  "four_tenths < binary64 ((1 / 2 ^ 54) + four_tenths)"
  by code_simp+

lemmas tenths = tenths_values [folded left_over_def]

text \<open>
  Two campaigns with estimates of 0.1 and 0.3 core seconds run and are released without using any.
  The worker is idle and nothing is used, but the reserved core seconds are not zero again, and a
  campaign whose estimate is the whole quota of 0.4, which a new worker admits, is queued; no lease is
  left to release, so nothing ever starts it.
\<close>

theorem float_residue_blocks:
  "let s = idle_worker four_tenths left_over; r = small_request ''c'' 1 four_tenths in
   scheduler_run binary64 s \<and> sc_active s = [] \<and> sc_queue s = [] \<and> sc_used_core s = 0 \<and>
   sc_reserved_core s \<noteq> 0 \<and>
   dc_status (fst (submit binary64 r (seconds_limited four_tenths))) = Admitted \<and>
   dc_status (fst (submit binary64 r s)) = Queued"
proof -
  have "scheduler_run binary64 (idle_worker four_tenths left_over)"
    by (rule idle_worker_run [of _ tenth three_tenths _ "5404319552844596 / 2 ^ 54"])
      (use tenths in \<open>simp_all add: tenth_def three_tenths_def four_tenths_def left_over_def\<close>)
  moreover have "dc_status (fst (submit binary64 (small_request ''c'' 1 four_tenths) (seconds_limited four_tenths))) = Admitted"
    using tenths by (simp add: scheduler_defs List.map_filter_simps)
  moreover have "dc_status (fst (submit binary64 (small_request ''c'' 1 four_tenths) (idle_worker four_tenths left_over))) = Queued"
    using tenths by (simp add: scheduler_defs idle_worker_def List.map_filter_simps)
  ultimately show ?thesis by (simp add: Let_def idle_worker_def seconds_limited_def WorkerResourceScheduler_def left_over_def)
qed

end
