(* ===== verification/Symbolic_Encoding.thy ===== *)
theory Symbolic_Encoding
  imports Prelude Paired_Explorer
begin

text \<open>
  The expressions of the solver's Python interface that the symbolic explorer builds
  (\<^verbatim>\<open>z3.Int\<close>, \<^verbatim>\<open>z3.If\<close>, \<^verbatim>\<open>z3.And\<close>, ...), as syntax, with the documented meaning of each
  constructor under an assignment of the integer variables. The solver itself is not modelled: its
  answers are parameters of the search.
\<close>

section \<open>Syntax\<close>

datatype 'v iterm = IntVal int | IntVar 'v | Plus "'v iterm" int | IntIf "'v bform" "'v iterm" "'v iterm"
and 'v bform = BoolVal bool
  | Eq "'v iterm" "'v iterm" | Ne "'v iterm" "'v iterm" | Le "'v iterm" "'v iterm" | Lt "'v iterm" "'v iterm"
  | And "'v bform list" | Or "'v bform list" | Implies "'v bform" "'v bform"
  | BoolIf "'v bform" "'v bform" "'v bform"

section \<open>Meaning\<close>

fun ival :: "('v \<Rightarrow> int) \<Rightarrow> 'v iterm \<Rightarrow> int"
  and holds :: "('v \<Rightarrow> int) \<Rightarrow> 'v bform \<Rightarrow> bool" where
  "ival m (IntVal i) = i"
| "ival m (IntVar v) = m v"
| "ival m (Plus t i) = ival m t + i"
| "ival m (IntIf c t u) = (if holds m c then ival m t else ival m u)"
| "holds m (BoolVal b) = b"
| "holds m (Eq t u) = (ival m t = ival m u)"
| "holds m (Ne t u) = (ival m t \<noteq> ival m u)"
| "holds m (Le t u) = (ival m t \<le> ival m u)"
| "holds m (Lt t u) = (ival m t < ival m u)"
| "holds m (And fs) = list_all (holds m) fs"
| "holds m (Or fs) = list_ex (holds m) fs"
| "holds m (Implies f g) = (holds m f \<longrightarrow> holds m g)"
| "holds m (BoolIf c f g) = (if holds m c then holds m f else holds m g)"

text \<open>All assertions on a solver's stack.\<close>

definition satisfies :: "('v \<Rightarrow> int) \<Rightarrow> 'v bform list \<Rightarrow> bool" where
  "satisfies m fs = list_all (holds m) fs"

named_theorems solver_simps \<open>the meaning of the constraint builders\<close>

lemma satisfies_simps [simp]:
  "satisfies m []"
  "satisfies m (f # fs) \<longleftrightarrow> holds m f \<and> satisfies m fs"
  "satisfies m (fs @ gs) \<longleftrightarrow> satisfies m fs \<and> satisfies m gs"
  by (simp_all add: satisfies_def)

lemma satisfies_map: "satisfies m (map f xs) \<longleftrightarrow> (\<forall>x \<in> set xs. holds m (f x))"
  by (simp add: satisfies_def list_all_iff)

lemma satisfies_concat_map: "satisfies m (concat (map f xs)) \<longleftrightarrow> (\<forall>x \<in> set xs. satisfies m (f x))"
  by (induction xs) simp_all

lemma satisfies_set: "satisfies m fs \<longleftrightarrow> (\<forall>f \<in> set fs. holds m f)"
  by (simp add: satisfies_def list_all_iff)

section \<open>The solver's interface\<close>

text \<open>
  An answer of \<^verbatim>\<open>solver.check()\<close>: a model is partial, \<^verbatim>\<open>model.eval(v, model_completion=True)\<close> gives
  the default 0 where it has no value.
\<close>

datatype 'v solver_answer = Sat "'v \<Rightarrow> int option" | Unsat | UnknownAnswer string

definition completed :: "('v \<Rightarrow> int option) \<Rightarrow> 'v \<Rightarrow> int" where
  "completed m v = (case m v of None \<Rightarrow> 0 | Some i \<Rightarrow> i)"

text \<open>
  The documented contract of the answers: every completion of a model satisfies the assertions,
  and there is no satisfying assignment when the answer is unsat.
\<close>

definition answer_sound :: "'v bform list \<Rightarrow> 'v solver_answer \<Rightarrow> bool" where
  "answer_sound fs a = (case a of
       Sat m \<Rightarrow> \<forall>total. (\<forall>v i. m v = Some i \<longrightarrow> total v = i) \<longrightarrow> satisfies total fs
     | Unsat \<Rightarrow> \<forall>total. \<not> satisfies total fs
     | UnknownAnswer reason \<Rightarrow> True)"

lemma completed_satisfies: "answer_sound fs (Sat m) \<Longrightarrow> satisfies (completed m) fs"
  by (simp add: answer_sound_def completed_def)

text \<open>
  A variable on which no completion may differ has a value in the model: otherwise two completions
  with different values both satisfy the assertions.
\<close>

lemma sat_determined:
  assumes "answer_sound fs (Sat m)" "\<And>total. satisfies total fs \<Longrightarrow> lo \<le> total v \<and> total v \<le> hi"
  obtains i where "m v = Some i" "completed m v = i"
proof (cases "m v")
  case None
  define total where "total = (\<lambda>w. if w = v then hi + 1 else completed m w)"
  have "satisfies total fs"
    using assms(1) None by (auto simp: answer_sound_def total_def completed_def)
  with assms(2) [of total] show thesis by (simp add: total_def)
next
  case (Some i)
  with that show thesis by (simp add: completed_def)
qed

text \<open>
  The symbolic encoding of the fixture's bounded schedules (\<^verbatim>\<open>backends/symbolic_paired.py\<close>): the
  variables of every step, the constraints of the initial state and of one transition, the checks
  of the initial fixture, and the decoding of a solver model to a list of actions.
\<close>

section \<open>Variables\<close>

datatype sym_var =
    ActionKind nat | ActionMessage nat
  | PendingCount nat | CommittedCount nat | DeliveredCount nat
  | TxCount nat | ChannelCount nat | SourceClock nat | DestinationClock nat
  | PendingSlot nat nat | CommittedSlot nat nat | DeliveredSlot nat nat

fun var_name :: "sym_var \<Rightarrow> string" where
  "var_name (ActionKind t) = ''action_kind_'' @ string_of_nat t"
| "var_name (ActionMessage t) = ''action_message_'' @ string_of_nat t"
| "var_name (PendingCount t) = ''pending_count_'' @ string_of_nat t"
| "var_name (CommittedCount t) = ''committed_count_'' @ string_of_nat t"
| "var_name (DeliveredCount t) = ''delivered_count_'' @ string_of_nat t"
| "var_name (TxCount t) = ''tx_count_'' @ string_of_nat t"
| "var_name (ChannelCount t) = ''channel_count_'' @ string_of_nat t"
| "var_name (SourceClock t) = ''source_clock_'' @ string_of_nat t"
| "var_name (DestinationClock t) = ''destination_clock_'' @ string_of_nat t"
| "var_name (PendingSlot t i) = ''pending_'' @ string_of_nat t @ ''_'' @ string_of_nat i"
| "var_name (CommittedSlot t i) = ''committed_'' @ string_of_nat t @ ''_'' @ string_of_nat i"
| "var_name (DeliveredSlot t i) = ''delivered_'' @ string_of_nat t @ ''_'' @ string_of_nat i"

type_synonym form = "sym_var bform"
type_synonym expr_term = "sym_var iterm"

text \<open>\<open>_arrays\<close>: the variables of one step.\<close>

definition slots :: "(nat \<Rightarrow> sym_var) \<Rightarrow> nat \<Rightarrow> expr_term list" where
  "slots v width = map (\<lambda>i. IntVar (v i)) [0..<width]"

section \<open>The explorer\<close>

record symbolic_explorer =
  candidates :: "message list"
  model_limit :: nat

definition SymbolicPairedExplorer :: "message list \<Rightarrow> int \<Rightarrow> paired_error + symbolic_explorer" where
  "SymbolicPairedExplorer ms limit =
     (if limit \<le> 0 then raise ''max_models must be positive''
      else if card (set (ids ms)) \<noteq> length ms
        then raise ''candidate messages must have unique identities''
      else Inr \<lparr>candidates = ms, model_limit = nat limit\<rparr>)"

text \<open>\<open>_indices\<close>: a dictionary from identities to positions, where a later entry wins.\<close>

definition index_of :: "symbolic_explorer \<Rightarrow> message \<Rightarrow> int" where
  "index_of S m = (case last_index (same_identity m) (candidates S) of None \<Rightarrow> - 1 | Some i \<Rightarrow> int i)"

definition indices :: "symbolic_explorer \<Rightarrow> message list \<Rightarrow> int list" where
  "indices S ms = map (index_of S) ms"

definition known_identity :: "symbolic_explorer \<Rightarrow> message \<Rightarrow> bool" where
  "known_identity S m = (message_identity m \<in> set (ids (candidates S)))"

definition validate_initial :: "symbolic_explorer \<Rightarrow> fixture \<Rightarrow> paired_error + unit" where
  "validate_initial S fx = (let s = fx_state fx; b = bounds fx in
     if max_transactions b < int (transaction_count s) then raise ''initial transaction count exceeds bound''
     else if max_channel_transitions b < int (channel_transition_count s)
       then raise ''initial channel transition count exceeds bound''
     else if max_pending b < int (length (pending s)) then raise ''initial pending queue exceeds bound''
     else if max_transactions b < int (length (committed_messages (source s)))
       then raise ''initial committed history exceeds bound''
     else if max_transactions b < int (length (delivered s)) then raise ''initial delivered history exceeds bound''
     else if \<not> list_all (known_identity S) (pending s @ committed_messages (source s) @ delivered s)
       then raise ''initial state contains a message outside candidate domain''
     else if allow_pre_finality_reorg (profile fx) \<and> finality_depth (profile fx) < 1
       then raise ''pre-finality reorg requires positive finality depth''
     else Inr ())"

section \<open>Constraint builders\<close>

definition frame_when :: "form \<Rightarrow> expr_term \<Rightarrow> expr_term \<Rightarrow> form list" where
  "frame_when c before after = [Implies c (Eq after before)]"

definition increment_when :: "form \<Rightarrow> expr_term \<Rightarrow> expr_term \<Rightarrow> form list" where
  "increment_when c before after = [Implies c (Eq after (Plus before 1))]"

definition frame_array_when :: "form \<Rightarrow> expr_term list \<Rightarrow> expr_term list \<Rightarrow> form list" where
  "frame_array_when c before after = map (\<lambda>(l, r). Implies c (Eq r l)) (zip before after)"

definition append_relation ::
    "form \<Rightarrow> expr_term \<Rightarrow> expr_term \<Rightarrow> expr_term list \<Rightarrow> expr_term list \<Rightarrow> expr_term \<Rightarrow> form list" where
  "append_relation c count_before count_after before after selected =
     Implies c (Eq count_after (Plus count_before 1)) #
     map (\<lambda>slot. Implies c
         (BoolIf (Lt (IntVal (int slot)) count_before) (Eq (after ! slot) (before ! slot))
           (BoolIf (Eq (IntVal (int slot)) count_before) (Eq (after ! slot) selected)
             (Eq (after ! slot) (IntVal (- 1))))))
       [0..<min (length before) (length after)]"

definition first_match :: "expr_term \<Rightarrow> expr_term list \<Rightarrow> expr_term \<Rightarrow> nat \<Rightarrow> form" where
  "first_match count_before before selected position =
     And ([Lt (IntVal (int position)) count_before, Eq (before ! position) selected] @
       map (\<lambda>prior. Ne (before ! prior) selected) [0..<position])"

definition last_match :: "expr_term \<Rightarrow> expr_term list \<Rightarrow> expr_term option \<Rightarrow> nat \<Rightarrow> form" where
  "last_match count_before before selected position = (case selected of
       None \<Rightarrow> And [Eq count_before (IntVal (int position + 1))]
     | Some sel \<Rightarrow>
         And ([Lt (IntVal (int position)) count_before, Eq (before ! position) sel] @
           map (\<lambda>later. Ne (before ! later) sel) [position + 1..<length before]))"

definition shifted_target :: "expr_term \<Rightarrow> expr_term list \<Rightarrow> nat \<Rightarrow> nat \<Rightarrow> expr_term" where
  "shifted_target count_before before slot position =
     IntIf (BoolVal (slot < position)) (before ! slot)
       (IntIf (Lt (IntVal (int slot)) (Plus count_before (- 1)))
         (if slot + 1 < length before then before ! (slot + 1) else IntVal (- 1)) (IntVal (- 1)))"

text \<open>The common body of \<open>_remove_relation\<close> and \<open>_remove_last_relation\<close>, which differ in the matches.\<close>

definition removal ::
    "form \<Rightarrow> expr_term \<Rightarrow> expr_term \<Rightarrow> expr_term list \<Rightarrow> expr_term list \<Rightarrow> (nat \<Rightarrow> form) \<Rightarrow> form list" where
  "removal c count_before count_after before after matches =
     Implies c (Eq count_after (Plus count_before (- 1))) #
     Implies c (Or (map matches [0..<length before])) #
     map (\<lambda>slot. Implies c (Or (map (\<lambda>position.
         And [matches position, Eq (after ! slot) (shifted_target count_before before slot position)])
         [0..<length before]))) [0..<length after]"

definition remove_relation ::
    "form \<Rightarrow> expr_term \<Rightarrow> expr_term \<Rightarrow> expr_term list \<Rightarrow> expr_term list \<Rightarrow> expr_term \<Rightarrow> form list" where
  "remove_relation c count_before count_after before after selected =
     removal c count_before count_after before after (first_match count_before before selected)"

definition remove_last_relation ::
    "form \<Rightarrow> expr_term \<Rightarrow> expr_term \<Rightarrow> expr_term list \<Rightarrow> expr_term list \<Rightarrow> expr_term option \<Rightarrow> form list" where
  "remove_last_relation c count_before count_after before after selected =
     removal c count_before count_after before after (last_match count_before before selected)"

definition contains :: "expr_term list \<Rightarrow> expr_term \<Rightarrow> expr_term \<Rightarrow> form" where
  "contains array held selected =
     Or (map (\<lambda>slot. And [Lt (IntVal (int slot)) held, Eq (array ! slot) selected]) [0..<length array])"

definition latest_is_selected :: "expr_term list \<Rightarrow> expr_term \<Rightarrow> expr_term \<Rightarrow> form" where
  "latest_is_selected array held selected =
     Or (map (\<lambda>slot. And [Eq held (IntVal (int slot + 1)), Eq (array ! slot) selected]) [0..<length array])"

text \<open>The profile's checks of a candidate, computed when the constraint is built.\<close>

definition candidate_valid :: "fixture \<Rightarrow> message \<Rightarrow> bool" where
  "candidate_valid fx m \<longleftrightarrow>
     source_domain m = chain_domain (source (fx_state fx)) \<and>
     destination_domain m = chain_domain (destination (fx_state fx)) \<and> 0 \<le> nonce m \<and>
     emitter m \<noteq> '''' \<and> recipient m \<noteq> '''' \<and> payload_commitment m \<noteq> '''' \<and> intent_id m \<noteq> Some '''' \<and>
     (authorized_emitters (profile fx) \<noteq> [] \<longrightarrow> emitter m \<in> set (authorized_emitters (profile fx))) \<and>
     (if require_attestation (profile fx)
      then or_empty (attestation m) \<noteq> '''' \<and> or_empty (attestor m) \<noteq> '''' \<and>
        attestor m \<in> Some ` set (authorized_attestors (profile fx))
      else attestation m \<noteq> Some '''')"

definition candidate_allowed :: "symbolic_explorer \<Rightarrow> fixture \<Rightarrow> expr_term \<Rightarrow> form" where
  "candidate_allowed S fx selected =
     (if candidates S = [] then BoolVal False
      else Or (map (\<lambda>i. And [Eq selected (IntVal (int i)), BoolVal (candidate_valid fx (candidates S ! i))])
        [0..<length (candidates S)]))"

section \<open>The encoding\<close>

definition tx_width :: "fixture \<Rightarrow> nat" where "tx_width fx = nat (max_transactions (bounds fx))"
definition pending_width :: "fixture \<Rightarrow> nat" where "pending_width fx = nat (max_pending (bounds fx))"

definition pin_values :: "(nat \<Rightarrow> sym_var) \<Rightarrow> nat \<Rightarrow> int list \<Rightarrow> form list" where
  "pin_values v width values =
     map (\<lambda>i. Eq (IntVar (v i)) (IntVal (if i < length values then values ! i else - 1))) [0..<width]"

definition count_bounds :: "fixture \<Rightarrow> nat \<Rightarrow> form list" where
  "count_bounds fx t = concat (map (\<lambda>(v, limit). [Le (IntVal 0) (IntVar v), Le (IntVar v) (IntVal limit)])
     [(PendingCount t, max_pending (bounds fx)), (CommittedCount t, max_transactions (bounds fx)),
      (DeliveredCount t, max_transactions (bounds fx)), (TxCount t, max_transactions (bounds fx)),
      (ChannelCount t, max_channel_transitions (bounds fx))])"

definition clock_or_zero :: "dual_chain_state \<Rightarrow> string \<Rightarrow> int" where
  "clock_or_zero s d = (case dict_get (clocks s) d of None \<Rightarrow> 0 | Some c \<Rightarrow> c)"

definition initial_constraints :: "symbolic_explorer \<Rightarrow> fixture \<Rightarrow> nat \<Rightarrow> form list" where
  "initial_constraints S fx steps = (let s = fx_state fx in
     [Eq (IntVar (PendingCount 0)) (IntVal (int (length (pending s)))),
      Eq (IntVar (CommittedCount 0)) (IntVal (int (length (committed_messages (source s))))),
      Eq (IntVar (DeliveredCount 0)) (IntVal (int (length (delivered s)))),
      Eq (IntVar (TxCount 0)) (IntVal (int (transaction_count s))),
      Eq (IntVar (ChannelCount 0)) (IntVal (int (channel_transition_count s))),
      Eq (IntVar (SourceClock 0)) (IntVal (clock_or_zero s (chain_domain (source s)))),
      Eq (IntVar (DestinationClock 0)) (IntVal (clock_or_zero s (chain_domain (destination s))))] @
     pin_values (PendingSlot 0) (pending_width fx) (indices S (pending s)) @
     pin_values (CommittedSlot 0) (tx_width fx) (indices S (committed_messages (source s))) @
     pin_values (DeliveredSlot 0) (tx_width fx) (indices S (delivered s)) @
     concat (map (count_bounds fx) [0..<steps + 1]))"

definition action_shape :: "symbolic_explorer \<Rightarrow> nat \<Rightarrow> form list" where
  "action_shape S t = (let k = IntVar (ActionKind t); sel = IntVar (ActionMessage t) in
     [Le (IntVal 0) k, Le k (IntVal 3), Le (IntVal (- 1)) sel, Lt sel (IntVal (int (length (candidates S)))),
      Implies (Eq k (IntVal 0)) (Eq sel (IntVal (- 1))), Implies (Ne k (IntVal 0)) (Le (IntVal 0) sel)] @
     (if t = 0 then [] else [Implies (Eq (IntVar (ActionKind (t - 1))) (IntVal 0)) (Eq k (IntVal 0))]))"

definition noop_constraints :: "fixture \<Rightarrow> nat \<Rightarrow> form list" where
  "noop_constraints fx t = (let c = Eq (IntVar (ActionKind t)) (IntVal 0) in
     concat (map (\<lambda>v. frame_when c (IntVar (v t)) (IntVar (v (t + 1))))
       [PendingCount, CommittedCount, DeliveredCount, TxCount, ChannelCount, SourceClock, DestinationClock]) @
     frame_array_when c (slots (PendingSlot t) (pending_width fx)) (slots (PendingSlot (t + 1)) (pending_width fx)) @
     frame_array_when c (slots (CommittedSlot t) (tx_width fx)) (slots (CommittedSlot (t + 1)) (tx_width fx)) @
     frame_array_when c (slots (DeliveredSlot t) (tx_width fx)) (slots (DeliveredSlot (t + 1)) (tx_width fx)))"

definition fresh_selection :: "symbolic_explorer \<Rightarrow> fixture \<Rightarrow> nat \<Rightarrow> form list" where
  "fresh_selection S fx t =
     [Implies (Eq (IntVar (CommittedSlot t slot)) (IntVal (int i))) (Ne (IntVar (ActionMessage t)) (IntVal (int i))).
        slot \<leftarrow> [0..<tx_width fx], i \<leftarrow> [0..<length (candidates S)]]"

definition enqueue_constraints :: "symbolic_explorer \<Rightarrow> fixture \<Rightarrow> nat \<Rightarrow> form list" where
  "enqueue_constraints S fx t =
     (let c = Eq (IntVar (ActionKind t)) (IntVal 1); sel = IntVar (ActionMessage t);
          valid = And [Lt (IntVar (PendingCount t)) (IntVal (max_pending (bounds fx))),
            Lt (IntVar (TxCount t)) (IntVal (max_transactions (bounds fx))),
            Lt (IntVar (ChannelCount t)) (IntVal (max_channel_transitions (bounds fx))),
            candidate_allowed S fx sel];
          guard = (if allow_duplicate_enqueue (profile fx) then valid
                   else And (valid # map (\<lambda>f. And [f]) (fresh_selection S fx t)))
      in Implies c guard #
        append_relation c (IntVar (PendingCount t)) (IntVar (PendingCount (t + 1)))
          (slots (PendingSlot t) (pending_width fx)) (slots (PendingSlot (t + 1)) (pending_width fx)) sel @
        append_relation c (IntVar (CommittedCount t)) (IntVar (CommittedCount (t + 1)))
          (slots (CommittedSlot t) (tx_width fx)) (slots (CommittedSlot (t + 1)) (tx_width fx)) sel @
        frame_when c (IntVar (DeliveredCount t)) (IntVar (DeliveredCount (t + 1))) @
        frame_array_when c (slots (DeliveredSlot t) (tx_width fx)) (slots (DeliveredSlot (t + 1)) (tx_width fx)) @
        increment_when c (IntVar (TxCount t)) (IntVar (TxCount (t + 1))) @
        increment_when c (IntVar (ChannelCount t)) (IntVar (ChannelCount (t + 1))) @
        increment_when c (IntVar (SourceClock t)) (IntVar (SourceClock (t + 1))) @
        frame_when c (IntVar (DestinationClock t)) (IntVar (DestinationClock (t + 1))))"

definition pending_has_selected :: "fixture \<Rightarrow> nat \<Rightarrow> form" where
  "pending_has_selected fx t =
     contains (slots (PendingSlot t) (pending_width fx)) (IntVar (PendingCount t)) (IntVar (ActionMessage t))"

definition deliver_constraints :: "fixture \<Rightarrow> nat \<Rightarrow> form list" where
  "deliver_constraints fx t =
     (let c = Eq (IntVar (ActionKind t)) (IntVal 2); sel = IntVar (ActionMessage t);
          valid = And [Lt (IntVal 0) (IntVar (PendingCount t)),
            Lt (IntVar (TxCount t)) (IntVal (max_transactions (bounds fx))),
            Lt (IntVar (ChannelCount t)) (IntVal (max_channel_transitions (bounds fx))),
            pending_has_selected fx t];
          guard = (if allow_reordering (profile fx) then valid
                   else And [valid, Eq (IntVar (PendingSlot t 0)) sel])
      in Implies c guard #
        remove_relation c (IntVar (PendingCount t)) (IntVar (PendingCount (t + 1)))
          (slots (PendingSlot t) (pending_width fx)) (slots (PendingSlot (t + 1)) (pending_width fx)) sel @
        frame_when c (IntVar (CommittedCount t)) (IntVar (CommittedCount (t + 1))) @
        frame_array_when c (slots (CommittedSlot t) (tx_width fx)) (slots (CommittedSlot (t + 1)) (tx_width fx)) @
        append_relation c (IntVar (DeliveredCount t)) (IntVar (DeliveredCount (t + 1)))
          (slots (DeliveredSlot t) (tx_width fx)) (slots (DeliveredSlot (t + 1)) (tx_width fx)) sel @
        increment_when c (IntVar (TxCount t)) (IntVar (TxCount (t + 1))) @
        increment_when c (IntVar (ChannelCount t)) (IntVar (ChannelCount (t + 1))) @
        frame_when c (IntVar (SourceClock t)) (IntVar (SourceClock (t + 1))) @
        increment_when c (IntVar (DestinationClock t)) (IntVar (DestinationClock (t + 1))))"

definition reorg_constraints :: "fixture \<Rightarrow> nat \<Rightarrow> form list" where
  "reorg_constraints fx t =
     (let c = Eq (IntVar (ActionKind t)) (IntVal 3); sel = IntVar (ActionMessage t)
      in Implies c (And [BoolVal (allow_pre_finality_reorg (profile fx)),
            Lt (IntVal 0) (IntVar (CommittedCount t)),
            Lt (IntVar (TxCount t)) (IntVal (max_transactions (bounds fx))),
            latest_is_selected (slots (CommittedSlot t) (tx_width fx)) (IntVar (CommittedCount t)) sel,
            pending_has_selected fx t]) #
        remove_last_relation c (IntVar (CommittedCount t)) (IntVar (CommittedCount (t + 1)))
          (slots (CommittedSlot t) (tx_width fx)) (slots (CommittedSlot (t + 1)) (tx_width fx)) None @
        remove_last_relation c (IntVar (PendingCount t)) (IntVar (PendingCount (t + 1)))
          (slots (PendingSlot t) (pending_width fx)) (slots (PendingSlot (t + 1)) (pending_width fx)) (Some sel) @
        frame_array_when c (slots (DeliveredSlot t) (tx_width fx)) (slots (DeliveredSlot (t + 1)) (tx_width fx)) @
        increment_when c (IntVar (TxCount t)) (IntVar (TxCount (t + 1))) @
        frame_when c (IntVar (ChannelCount t)) (IntVar (ChannelCount (t + 1))) @
        [Implies c (Eq (IntVar (SourceClock (t + 1))) (Plus (IntVar (SourceClock t)) (- 1)))] @
        frame_when c (IntVar (DestinationClock t)) (IntVar (DestinationClock (t + 1))))"

definition transition_constraints :: "symbolic_explorer \<Rightarrow> fixture \<Rightarrow> nat \<Rightarrow> form list" where
  "transition_constraints S fx t =
     noop_constraints fx t @ enqueue_constraints S fx t @ deliver_constraints fx t @ reorg_constraints fx t @
     (let k = IntVar (ActionKind t) in
      [Implies (Ne k (IntVal 0)) (Or [Eq k (IntVal 1), Eq k (IntVal 2), Eq k (IntVal 3)])])"

definition encoding_value :: "symbolic_explorer \<Rightarrow> fixture \<Rightarrow> nat \<Rightarrow> json" where
  "encoding_value S fx steps = JObj
     [(''encoding'', JStr ''ordered-array-paired-transition-v1''),
      (''messages'', JArr (map message_value (candidates S))),
      (''bounds'', JObj
        [(''max_transactions'', JInt (max_transactions (bounds fx))),
         (''max_channel_transitions'', JInt (max_channel_transitions (bounds fx))),
         (''max_pending'', JInt (max_pending (bounds fx)))]),
      (''profile'', JObj
        [(''allow_reordering'', JBool (allow_reordering (profile fx))),
         (''allow_duplicate_enqueue'', JBool (allow_duplicate_enqueue (profile fx))),
         (''allow_pre_finality_reorg'', JBool (allow_pre_finality_reorg (profile fx))),
         (''finality_depth'', JInt (finality_depth (profile fx))),
         (''require_attestation'', JBool (require_attestation (profile fx))),
         (''authorized_emitters'', strings_json (authorized_emitters (profile fx))),
         (''authorized_attestors'', strings_json (authorized_attestors (profile fx)))]),
      (''steps'', JInt (int steps))]"

record encoding =
  assertions :: "form list"
  kinds :: "sym_var list"
  selections :: "sym_var list"
  enc_steps :: nat
  encoding_hash :: string

definition encode_assertions :: "symbolic_explorer \<Rightarrow> fixture \<Rightarrow> nat \<Rightarrow> form list" where
  "encode_assertions S fx steps =
     concat (map (action_shape S) [0..<steps]) @ initial_constraints S fx steps @
     concat (map (transition_constraints S fx) [0..<steps])"

definition steps_left :: "fixture \<Rightarrow> nat" where
  "steps_left fx = nat (max 0 (max_transactions (bounds fx) - int (transaction_count (fx_state fx))))"

definition encode ::
    "symbolic_explorer \<Rightarrow> (json \<Rightarrow> string) \<Rightarrow> fixture \<Rightarrow> paired_error + encoding" where
  "encode S sha fx = bind_result (validate_initial S fx) (\<lambda>_. let steps = steps_left fx in
     Inr \<lparr>assertions = encode_assertions S fx steps, kinds = map ActionKind [0..<steps],
       selections = map ActionMessage [0..<steps], enc_steps = steps,
       encoding_hash = sha (encoding_value S fx steps)\<rparr>)"

section \<open>Models\<close>

fun action_of_kind :: "int \<Rightarrow> action option" where
  "action_of_kind k = (if k = 1 then Some ENQUEUE else if k = 2 then Some DELIVER
     else if k = 3 then Some REORG else None)"

text \<open>The loop of \<open>_decode\<close>, with the flag that a NOOP was seen.\<close>

fun decode_actions ::
    "symbolic_explorer \<Rightarrow> (sym_var \<Rightarrow> int option) \<Rightarrow> bool \<Rightarrow> (sym_var \<times> sym_var) list
       \<Rightarrow> string + (action \<times> nat) list" where
  "decode_actions S m saw_noop [] = Inr []"
| "decode_actions S m saw_noop ((kv, sv) # rest) = (case m kv of
       None \<Rightarrow> Inl (''missing assignment for '' @ var_name kv)
     | Some k \<Rightarrow> (case m sv of
         None \<Rightarrow> Inl (''missing assignment for '' @ var_name sv)
       | Some sel \<Rightarrow>
           if saw_noop then
             (if k \<noteq> 0 \<or> sel \<noteq> - 1 then Inl ''symbolic assignment has an action after NOOP''
              else decode_actions S m True rest)
           else if k = 0 then
             (if sel \<noteq> - 1 then Inl ''NOOP assignment must select message -1''
              else decode_actions S m True rest)
           else if sel < 0 \<or> int (length (candidates S)) \<le> sel
             then Inl ''symbolic assignment message index is out of bounds''
           else (case action_of_kind k of
               None \<Rightarrow> Inl ''symbolic model contains an unknown action kind''
             | Some a \<Rightarrow> bind_result (decode_actions S m False rest) (\<lambda>as. Inr ((a, nat sel) # as)))))"

definition decode ::
    "symbolic_explorer \<Rightarrow> encoding \<Rightarrow> (sym_var \<Rightarrow> int option) \<Rightarrow> string + (action \<times> nat) list" where
  "decode S enc m = decode_actions S m False (zip (kinds enc) (selections enc))"

definition block_model :: "encoding \<Rightarrow> (sym_var \<Rightarrow> int option) \<Rightarrow> form" where
  "block_model enc m = Or (map (\<lambda>(k, sel).
     Or [Ne (IntVar k) (IntVal (completed m k)), Ne (IntVar sel) (IntVal (completed m sel))])
     (zip (kinds enc) (selections enc)))"

section \<open>Native replay\<close>

definition first_index :: "('a \<Rightarrow> bool) \<Rightarrow> 'a list \<Rightarrow> nat option" where
  "first_index P xs = find (\<lambda>i. P (xs ! i)) [0..<length xs]"

text \<open>
  One action on the replayed fixture. \<open>next\<close> raises \<^verbatim>\<open>StopIteration\<close> when no pending message has the
  identity; the replay turns every exception of an action except a missing clock into None.
\<close>

datatype replay_failure = ReplayMismatch | ReplayKey string

fun as_failure :: "paired_error \<Rightarrow> replay_failure" where
  "as_failure (PairedKey k) = ReplayKey k"
| "as_failure e = ReplayMismatch"

definition replay_action ::
    "symbolic_explorer \<Rightarrow> (json \<Rightarrow> string) \<Rightarrow> action \<times> nat \<Rightarrow> fixture \<Rightarrow> replay_failure + fixture" where
  "replay_action S sha ai fx = (let m = candidates S ! snd ai in case fst ai of
       ENQUEUE \<Rightarrow> (case enqueue sha m fx of Inl e \<Rightarrow> Inl (as_failure e) | Inr fx' \<Rightarrow> Inr fx')
     | DELIVER \<Rightarrow> (case first_index (same_identity m) (pending (fx_state fx)) of
           None \<Rightarrow> Inl ReplayMismatch
         | Some i \<Rightarrow> (case deliver sha (int i) fx of
               Inl e \<Rightarrow> Inl (as_failure e) | Inr (d, fx') \<Rightarrow> Inr fx'))
     | REORG \<Rightarrow> (case reorg_latest fx of Inl e \<Rightarrow> Inl (as_failure e) | Inr (d, fx') \<Rightarrow> Inr fx'))"

text \<open>The fixtures after each action.\<close>

fun replay_actions ::
    "symbolic_explorer \<Rightarrow> (json \<Rightarrow> string) \<Rightarrow> (action \<times> nat) list \<Rightarrow> fixture \<Rightarrow> replay_failure + fixture list" where
  "replay_actions S sha [] fx = Inr []"
| "replay_actions S sha (a # as) fx = bind_result (replay_action S sha a fx) (\<lambda>fx'.
     bind_result (replay_actions S sha as fx') (\<lambda>fxs. Inr (fx' # fxs)))"

text \<open>\<open>_replay\<close> also returns the fixture before the first action.\<close>

definition symbolic_replay ::
    "symbolic_explorer \<Rightarrow> (json \<Rightarrow> string) \<Rightarrow> (action \<times> nat) list \<Rightarrow> fixture \<Rightarrow> replay_failure + fixture list" where
  "symbolic_replay S sha as fx = bind_result (replay_actions S sha as fx) (\<lambda>fxs. Inr (fx # fxs))"

definition prefix_witness ::
    "symbolic_explorer \<Rightarrow> (json \<Rightarrow> string) \<Rightarrow> (action \<times> nat) list \<Rightarrow> nat \<Rightarrow> fixture
       \<Rightarrow> replay_failure + action_record list" where
  "prefix_witness S sha as n fx = bind_result (symbolic_replay S sha (take n as) fx) (\<lambda>fxs.
     Inr (action_log (fx_state (List.last fxs))))"

end
