(* ===== verification/Symbolic_Relations.thy ===== *)
theory Symbolic_Relations
  imports Symbolic_Encoding Paired_Search
begin

text \<open>
  What the constraint builders mean when the arrays before the step hold a list of message indices,
  padded with -1: appending, removing the first match, removing the last, and the guards.
\<close>

definition padded :: "int list \<Rightarrow> nat \<Rightarrow> int" where
  "padded xs i = (if i < length xs then xs ! i else - 1)"

definition array_is :: "('v \<Rightarrow> int) \<Rightarrow> 'v iterm list \<Rightarrow> int list \<Rightarrow> bool" where
  "array_is m ts xs \<longleftrightarrow> (\<forall>i < length ts. ival m (ts ! i) = padded xs i)"

lemma length_slots [simp]: "length (slots v w) = w"
  by (simp add: slots_def)

lemma nth_slots [simp]: "i < w \<Longrightarrow> slots v w ! i = IntVar (v i)"
  by (simp add: slots_def)

lemma array_is_slots: "array_is m (slots v w) xs \<longleftrightarrow> (\<forall>i < w. m (v i) = padded xs i)"
  by (simp add: array_is_def)

lemma padded_inj:
  assumes "length xs = length ys" "length ys \<le> w" "\<forall>i < w. padded xs i = padded ys i"
  shows "xs = ys"
  using assms by (intro nth_equalityI) (auto simp: padded_def split: if_splits)

section \<open>Frames\<close>

lemma frame_when_iff [solver_simps]: "satisfies m (frame_when c b a) \<longleftrightarrow> (holds m c \<longrightarrow> ival m a = ival m b)"
  by (simp add: frame_when_def)

lemma increment_when_iff [solver_simps]:
  "satisfies m (increment_when c b a) \<longleftrightarrow> (holds m c \<longrightarrow> ival m a = ival m b + 1)"
  by (simp add: increment_when_def)

lemma frame_array_when_iff:
  assumes "length a = length b" "array_is m b xs"
  shows "satisfies m (frame_array_when c b a) \<longleftrightarrow> (holds m c \<longrightarrow> array_is m a xs)"
proof -
  have "satisfies m (frame_array_when c b a) \<longleftrightarrow> (\<forall>i < length b. holds m c \<longrightarrow> ival m (a ! i) = ival m (b ! i))"
    using assms(1) by (auto simp: frame_array_when_def satisfies_map set_zip)
  with assms show ?thesis by (auto simp: array_is_def)
qed

section \<open>Appending\<close>

lemma append_relation_iff:
  assumes "length a = length b" "array_is m b xs" "ival m cb = int (length xs)"
  shows "satisfies m (append_relation c cb ca b a sel) \<longleftrightarrow>
    (holds m c \<longrightarrow> ival m ca = int (length xs) + 1 \<and> array_is m a (xs @ [ival m sel]))"
proof -
  have "holds m (BoolIf (Lt (IntVal (int i)) cb) (Eq (a ! i) (b ! i))
           (BoolIf (Eq (IntVal (int i)) cb) (Eq (a ! i) sel) (Eq (a ! i) (IntVal (- 1))))) \<longleftrightarrow>
      ival m (a ! i) = padded (xs @ [ival m sel]) i" if "i < length b" for i
  proof -
    have "ival m (b ! i) = padded xs i" using assms(2) that by (simp add: array_is_def)
    then show ?thesis using assms(3)
      by (cases "i < length xs"; cases "i = length xs") (simp_all add: padded_def nth_append)
  qed
  then have "satisfies m (append_relation c cb ca b a sel) \<longleftrightarrow>
      (holds m c \<longrightarrow> ival m ca = int (length xs) + 1) \<and>
      (\<forall>i < length b. holds m c \<longrightarrow> ival m (a ! i) = padded (xs @ [ival m sel]) i)"
    using assms(1,3) by (auto simp: append_relation_def satisfies_map simp del: holds.simps(9))
  with assms(1) show ?thesis by (auto simp: array_is_def)
qed

section \<open>Removing\<close>

lemma padded_delete_at:
  "p < length xs \<Longrightarrow> padded (delete_at p xs) i =
     (if i < p then xs ! i else if i < length xs - 1 then xs ! (i + 1) else - 1)"
  by (auto simp: padded_def delete_at_def nth_append min_def)

lemma shifted_target_iff:
  assumes "array_is m b xs" "ival m cb = int (length xs)" "length xs \<le> length b" "p < length xs"
  shows "i < length b \<Longrightarrow> ival m (shifted_target cb b i p) = padded (delete_at p xs) i"
proof -
  assume i: "i < length b"
  have b: "\<And>j. j < length b \<Longrightarrow> ival m (b ! j) = padded xs j" using assms(1) by (simp add: array_is_def)
  consider "i < p" | "p \<le> i" "i < length xs - 1" | "p \<le> i" "length xs - 1 \<le> i" by linarith
  then show ?thesis
  proof cases
    case 1
    with b [OF i] assms(4) show ?thesis by (simp add: shifted_target_def padded_delete_at padded_def [of xs])
  next
    case 2
    with b [of "i + 1"] assms(2-4) show ?thesis
      by (simp add: shifted_target_def padded_delete_at padded_def [of xs] less_diff_conv)
  next
    case 3
    then have "\<not> int i < int (length xs) - 1" by linarith
    with 3 assms(2-4) show ?thesis by (simp add: shifted_target_def padded_delete_at)
  qed
qed

text \<open>When exactly the position \<open>P\<close> satisfies its match, the removal deletes that position.\<close>

lemma removal_iff:
  assumes "length a = length b" "array_is m b xs" "ival m cb = int (length xs)" "length xs \<le> length b"
    and matches: "\<And>i. i < length b \<Longrightarrow> holds m (matches i) \<longleftrightarrow> P = Some i"
    and P: "\<And>p. P = Some p \<Longrightarrow> p < length xs"
  shows "satisfies m (removal c cb ca b a matches) \<longleftrightarrow>
    (holds m c \<longrightarrow> (\<exists>p. P = Some p \<and> ival m ca = int (length xs) - 1 \<and> array_is m a (delete_at p xs)))"
proof (cases P)
  case None
  then have "\<not> holds m (Or (map matches [0..<length b]))" using matches by (simp add: list_ex_iff)
  with None show ?thesis by (auto simp: removal_def satisfies_map)
next
  case (Some p)
  then have p: "p < length xs" by (rule P)
  have "holds m (Or (map matches [0..<length b]))" using matches Some p assms(4) by (auto simp: list_ex_iff)
  moreover have "holds m (Or (map (\<lambda>q. And [matches q, Eq (a ! i) (shifted_target cb b i q)]) [0..<length b])) \<longleftrightarrow>
      ival m (a ! i) = padded (delete_at p xs) i" if "i < length b" for i
    using matches Some p assms(4) shifted_target_iff [OF assms(2-4) p that]
    by (auto simp: list_ex_iff)
  ultimately show ?thesis
    using assms(1,3) Some by (auto simp: removal_def satisfies_map array_is_def simp del: holds.simps(7))
qed

lemma first_index_Some:
  "first_index P xs = Some i \<longleftrightarrow> i < length xs \<and> P (xs ! i) \<and> (\<forall>j < i. \<not> P (xs ! j))"
  by (auto simp: first_index_def find_Some_iff)

lemma first_index_None: "first_index P xs = None \<longleftrightarrow> (\<forall>x \<in> set xs. \<not> P x)"
  by (auto simp: first_index_def find_None_iff all_set_conv_all_nth)

lemma last_index_Some:
  "last_index P xs = Some i \<longleftrightarrow> i < length xs \<and> P (xs ! i) \<and> (\<forall>j. i < j \<and> j < length xs \<longrightarrow> \<not> P (xs ! j))"
proof
  assume "last_index P xs = Some i"
  then obtain k where k: "k < length xs" "i = length xs - Suc k" "P (xs ! i)"
    "\<forall>j < k. \<not> P (xs ! (length xs - Suc j))"
    by (auto simp: last_index_def find_Some_iff rev_nth)
  have "\<not> P (xs ! j)" if "i < j" "j < length xs" for j
    using k(4) [rule_format, of "length xs - Suc j"] that k(1,2) by simp
  with k show "i < length xs \<and> P (xs ! i) \<and> (\<forall>j. i < j \<and> j < length xs \<longrightarrow> \<not> P (xs ! j))" by simp
next
  assume i: "i < length xs \<and> P (xs ! i) \<and> (\<forall>j. i < j \<and> j < length xs \<longrightarrow> \<not> P (xs ! j))"
  then have "\<exists>k. last_index P xs = Some k"
    using last_index_None_iff [of P xs] by (cases "last_index P xs") auto
  then obtain k where k: "last_index P xs = Some k" ..
  then have "k < length xs" "P (xs ! k)" by (auto dest: last_index_SomeD)
  moreover have "\<not> k < i"
  proof
    assume "k < i"
    from k obtain n where n: "n < length xs" "k = length xs - Suc n" "\<forall>j < n. \<not> P (xs ! (length xs - Suc j))"
      by (auto simp: last_index_def find_Some_iff rev_nth)
    then have "length xs - Suc i < n" using i \<open>k < i\<close> by linarith
    with n(3) have "\<not> P (xs ! (length xs - Suc (length xs - Suc i)))" by blast
    with i show False by simp
  qed
  ultimately have "k = i" using i by (metis linorder_neqE_nat)
  with k show "last_index P xs = Some i" by simp
qed

section \<open>Guards and matches\<close>

lemma array_nth: "array_is m b xs \<Longrightarrow> i < length b \<Longrightarrow> ival m (b ! i) = padded xs i"
  by (simp add: array_is_def)

lemma contains_iff:
  assumes "array_is m b xs" "ival m cb = int (length xs)" "length xs \<le> length b"
  shows "holds m (contains b cb sel) \<longleftrightarrow> ival m sel \<in> set xs"
proof -
  have "holds m (contains b cb sel) \<longleftrightarrow> (\<exists>i < length b. i < length xs \<and> padded xs i = ival m sel)"
    using assms(2) array_nth [OF assms(1)] by (auto simp: contains_def list_ex_iff)
  also have "\<dots> \<longleftrightarrow> ival m sel \<in> set xs"
    using assms(3) by (auto simp: padded_def in_set_conv_nth)
  finally show ?thesis .
qed

lemma latest_is_selected_iff:
  assumes "array_is m b xs" "ival m cb = int (length xs)" "length xs \<le> length b"
  shows "holds m (latest_is_selected b cb sel) \<longleftrightarrow> xs \<noteq> [] \<and> List.last xs = ival m sel"
proof -
  have "holds m (latest_is_selected b cb sel) \<longleftrightarrow> (\<exists>i < length b. length xs = i + 1 \<and> padded xs i = ival m sel)"
    using assms(2) array_nth [OF assms(1)] by (auto simp: latest_is_selected_def list_ex_iff)
  also have "\<dots> \<longleftrightarrow> xs \<noteq> [] \<and> List.last xs = ival m sel"
    using assms(3) by (cases xs) (auto simp: padded_def last_conv_nth)
  finally show ?thesis .
qed

lemma first_match_iff:
  assumes "array_is m b xs" "ival m cb = int (length xs)" "i < length b"
  shows "holds m (first_match cb b sel i) \<longleftrightarrow> first_index (\<lambda>x. x = ival m sel) xs = Some i"
proof -
  have "holds m (first_match cb b sel i) \<longleftrightarrow>
      i < length xs \<and> padded xs i = ival m sel \<and> (\<forall>j < i. padded xs j \<noteq> ival m sel)"
    using assms(2,3) array_nth [OF assms(1)] by (auto simp: first_match_def list_all_iff)
  then show ?thesis by (auto simp: first_index_Some padded_def)
qed

lemma last_match_iff:
  assumes "array_is m b xs" "ival m cb = int (length xs)" "length xs \<le> length b" "i < length b" "0 \<le> ival m sel"
  shows "holds m (last_match cb b (Some sel) i) \<longleftrightarrow> last_index (\<lambda>x. x = ival m sel) xs = Some i"
proof -
  have "holds m (last_match cb b (Some sel) i) \<longleftrightarrow>
      i < length xs \<and> padded xs i = ival m sel \<and> (\<forall>j. i < j \<and> j < length b \<longrightarrow> padded xs j \<noteq> ival m sel)"
    using assms(2,4) array_nth [OF assms(1)] by (auto simp: last_match_def list_all_iff)
  moreover have "padded xs j \<noteq> ival m sel" if "length xs \<le> j" for j
    using assms(5) that by (simp add: padded_def)
  ultimately have "holds m (last_match cb b (Some sel) i) \<longleftrightarrow>
      i < length xs \<and> padded xs i = ival m sel \<and> (\<forall>j. i < j \<and> j < length xs \<longrightarrow> padded xs j \<noteq> ival m sel)"
    using assms(3) by (meson linorder_not_le order.strict_trans2)
  then show ?thesis by (auto simp: last_index_Some padded_def)
qed

lemma last_match_None_iff:
  assumes "ival m cb = int (length xs)"
  shows "holds m (last_match cb b None i) \<longleftrightarrow> (if xs = [] then None else Some (length xs - 1)) = Some i"
  using assms by (cases xs) (auto simp: last_match_def)

lemma remove_relation_iff:
  assumes "length a = length b" "array_is m b xs" "ival m cb = int (length xs)" "length xs \<le> length b"
  shows "satisfies m (remove_relation c cb ca b a sel) \<longleftrightarrow>
    (holds m c \<longrightarrow> (\<exists>p. first_index (\<lambda>x. x = ival m sel) xs = Some p \<and> ival m ca = int (length xs) - 1 \<and>
       array_is m a (delete_at p xs)))"
  unfolding remove_relation_def
  by (rule removal_iff [OF assms]) (auto simp: first_match_iff [OF assms(2,3)] first_index_Some)

lemma remove_last_relation_iff:
  assumes "length a = length b" "array_is m b xs" "ival m cb = int (length xs)" "length xs \<le> length b"
    and "0 \<le> ival m sel"
  shows "satisfies m (remove_last_relation c cb ca b a (Some sel)) \<longleftrightarrow>
    (holds m c \<longrightarrow> (\<exists>p. last_index (\<lambda>x. x = ival m sel) xs = Some p \<and> ival m ca = int (length xs) - 1 \<and>
       array_is m a (delete_at p xs)))"
  unfolding remove_last_relation_def
  by (rule removal_iff [OF assms(1-4)]) (auto simp: last_match_iff [OF assms(2-4) _ assms(5)] last_index_Some)

lemma remove_latest_iff:
  assumes "length a = length b" "array_is m b xs" "ival m cb = int (length xs)" "length xs \<le> length b"
  shows "satisfies m (remove_last_relation c cb ca b a None) \<longleftrightarrow>
    (holds m c \<longrightarrow> xs \<noteq> [] \<and> ival m ca = int (length xs) - 1 \<and> array_is m a (butlast xs))"
proof -
  have "satisfies m (remove_last_relation c cb ca b a None) \<longleftrightarrow>
    (holds m c \<longrightarrow> (\<exists>p. (if xs = [] then None else Some (length xs - 1)) = Some p \<and>
       ival m ca = int (length xs) - 1 \<and> array_is m a (delete_at p xs)))"
    unfolding remove_last_relation_def
    by (rule removal_iff [OF assms])
      (simp add: last_match_None_iff [OF assms(3)], auto split: if_splits)
  moreover have "xs \<noteq> [] \<Longrightarrow> delete_at (length xs - 1) xs = butlast xs"
    by (simp add: delete_at_def butlast_conv_take)
  ultimately show ?thesis by auto
qed

section \<open>A builder whose condition is false\<close>

lemma idle_builders:
  assumes "\<not> holds m c"
  shows "satisfies m (frame_when c b a)" "satisfies m (increment_when c b a)"
    "satisfies m (frame_array_when c bs as)" "satisfies m (append_relation c b a bs as sel)"
    "satisfies m (remove_relation c b a bs as sel)" "satisfies m (remove_last_relation c b a bs as osel)"
  using assms
  by (auto simp: frame_when_def increment_when_def frame_array_when_def append_relation_def removal_def
      remove_relation_def remove_last_relation_def satisfies_map)

text \<open>
  One transition of the encoding against one operation of the fixture: what an operation changes,
  when it is possible, and what the constraints of a step say when the variables of the step hold
  the fixture's histories.
\<close>

section \<open>Effects of an operation\<close>

abbreviation committed :: "fixture \<Rightarrow> message list" where
  "committed fx \<equiv> committed_messages (source (fx_state fx))"

abbreviation in_flight :: "fixture \<Rightarrow> message list" where
  "in_flight fx \<equiv> pending (fx_state fx)"

abbreviation received :: "fixture \<Rightarrow> message list" where
  "received fx \<equiv> delivered (fx_state fx)"

text \<open>The histories and counters after an operation.\<close>

definition histories :: "fixture \<Rightarrow> message list \<times> message list \<times> message list \<times> nat \<times> nat" where
  "histories fx = (in_flight fx, committed fx, received fx, transaction_count (fx_state fx),
     channel_transition_count (fx_state fx))"

lemma enqueue_histories:
  assumes "enqueue sha m g = Inr g'"
  shows "histories g' = (in_flight g @ [m], committed g @ [m], received g,
    Suc (transaction_count (fx_state g)), Suc (channel_transition_count (fx_state g)))"
  using assms
  by (cases rule: enqueue_InrE) (simp add: histories_def record_action_def enqueue_effect_def Let_def)

lemma deliver_histories:
  assumes "deliver sha (int i) g = Inr (m, g')"
  shows "histories g' = (delete_at i (in_flight g), committed g, received g @ [in_flight g ! i],
    Suc (transaction_count (fx_state g)), Suc (channel_transition_count (fx_state g))) \<and> i < length (in_flight g)"
  using assms
  by (cases rule: deliver_InrE) (simp add: histories_def record_action_def deliver_effect_def Let_def)

lemma delete_latest: "xs \<noteq> [] \<Longrightarrow> delete_at (length xs - 1) xs = butlast xs"
  by (simp add: delete_at_def butlast_conv_take)

lemma reorg_latest_histories:
  assumes "reorg_latest g = Inr (m, g')"
  obtains j where "last_index (same_identity (List.last (committed g))) (in_flight g) = Some j"
    "histories g' = (delete_at j (in_flight g), butlast (committed g), received g,
       Suc (transaction_count (fx_state g)), channel_transition_count (fx_state g))"
    "committed g \<noteq> []" "allow_pre_finality_reorg (profile g)"
    "int (transaction_count (fx_state g)) < max_transactions (bounds g)"
proof -
  from assms have "reorg (- 1) g = Inr (m, g')" by (simp add: reorg_latest_def)
  then obtain c i j where r: "int i = from_end (- 1) (committed g)" "i < length (committed g)"
    "m = committed g ! i" "last_index (same_identity m) (in_flight g) = Some j"
    "allow_pre_finality_reorg (profile g)" "require_capacity g REORG False = Inr ()"
    "g' = g\<lparr>fx_state := record_action REORG m (length (in_flight g)) False
       ((reorg_effect j i (fx_state g))\<lparr>clocks := dict_put (source_domain m) (c - 1) (clocks (fx_state g))\<rparr>)\<rparr>"
    by (rule reorg_InrE)
  then have i: "i = length (committed g) - 1" and ne: "committed g \<noteq> []" by (auto simp: from_end_def)
  then have "m = List.last (committed g)" using r(3) by (simp add: last_conv_nth)
  moreover have "histories g' = (delete_at j (in_flight g), butlast (committed g), received g,
       Suc (transaction_count (fx_state g)), channel_transition_count (fx_state g))"
    using r(7) delete_latest [OF ne] i by (simp add: histories_def record_action_def reorg_effect_def Let_def)
  ultimately show thesis using that r(4,5,6) ne by (simp add: require_capacity_Inr)
qed

section \<open>When an operation succeeds\<close>

lemma settled_ok: "settled sha g \<Longrightarrow> fixture_ok sha g"
  by (simp add: settled_def)

lemma settled_channel:
  assumes "settled sha g"
  shows "channel_ok (profile g) (chain_domain (source (fx_state g))) (chain_domain (destination (fx_state g))) (fx_state g)"
    and "canonical_history (source (fx_state g)) = map (message_key sha) (committed g)"
    and "counters_ok (bounds g) (fx_state g)"
  using assms fixture_ok_domains [OF settled_ok [OF assms]]
  by (simp_all add: settled_def fixture_ok_def Let_def state_ok_def chains_ok_def)

lemma settled_admissible:
  assumes "settled sha g" "m \<in> set (in_flight g) \<union> set (committed g)"
  shows "source_domain m = chain_domain (source (fx_state g)) \<and>
    destination_domain m = chain_domain (destination (fx_state g))"
  using settled_channel(1) [OF assms(1)] assms(2) by (auto simp: channel_ok_def admissible_def)

lemma deliver_succeeds:
  assumes "settled sha g" "i < length (in_flight g)" "allow_reordering (profile g) \<or> i = 0"
    and "require_capacity g DELIVER True = Inr ()"
  shows "\<exists>m g'. deliver sha (int i) g = Inr (m, g')"
proof -
  have "in_flight g ! i \<in> set (in_flight g)" using assms(2) by simp
  then have "destination_domain (in_flight g ! i) = chain_domain (destination (fx_state g))"
    using settled_admissible [OF assms(1)] by blast
  with fixture_ok_clocks(2) [OF settled_ok [OF assms(1)]]
  have "\<exists>s. add_clock (destination_domain (in_flight g ! i)) 1 (deliver_effect sha i (fx_state g)) = Inr s"
    by (simp add: add_clock_def deliver_effect_def Let_def)
  moreover have "in_flight g \<noteq> []" using assms(2) by auto
  ultimately show ?thesis using assms(2-4) by (auto simp: deliver_def Let_def)
qed

lemma reorg_latest_succeeds:
  assumes "settled sha g" "committed g \<noteq> []" "allow_pre_finality_reorg (profile g)" "1 \<le> finality_depth (profile g)"
    and "require_capacity g REORG False = Inr ()"
    and "last_index (same_identity (List.last (committed g))) (in_flight g) = Some j"
  shows "\<exists>m g'. reorg_latest g = Inr (m, g')"
proof -
  let ?i = "length (committed g) - 1"
  have i: "?i < length (committed g)" "committed g ! ?i = List.last (committed g)"
    "nat (int (length (committed g)) - 1) = ?i" "\<not> length (committed g) \<le> ?i"
    using assms(2) by (cases "committed g"; simp add: last_conv_nth nat_diff_distrib)+
  have "List.last (committed g) \<in> set (committed g)" using assms(2) by simp
  then have "source_domain (List.last (committed g)) = chain_domain (source (fx_state g))"
    using settled_admissible [OF assms(1)] by blast
  with fixture_ok_clocks(1) [OF settled_ok [OF assms(1)]]
  have "\<exists>s. add_clock (source_domain (List.last (committed g))) (- 1) (reorg_effect j ?i (fx_state g)) = Inr s"
    by (simp add: add_clock_def reorg_effect_def)
  moreover have "length (canonical_history (source (fx_state g))) = length (committed g)"
    using settled_channel(2) [OF assms(1)] by simp
  ultimately show ?thesis
    using assms(2-6) i by (auto simp: reorg_latest_def reorg_def Let_def from_end_def)
qed

section \<open>Candidates\<close>

definition valid_explorer :: "symbolic_explorer \<Rightarrow> bool" where
  "valid_explorer S \<longleftrightarrow> distinct (ids (candidates S)) \<and> list_all (\<lambda>m. Message m = Inr m) (candidates S)"

lemma SymbolicPairedExplorer_valid:
  assumes "SymbolicPairedExplorer ms limit = Inr S" "list_all (\<lambda>m. Message m = Inr m) ms"
  shows "valid_explorer S" "candidates S = ms"
proof -
  have "candidates S = ms" "card (set (ids ms)) = length (ids ms)"
    using assms(1) by (auto simp: SymbolicPairedExplorer_def ids_def split: if_splits)
  with assms(2) card_distinct show "valid_explorer S" "candidates S = ms"
    by (auto simp: valid_explorer_def)
qed

lemma index_of_iff:
  assumes "valid_explorer S" "known_identity S m" "i < length (candidates S)"
  shows "index_of S m = int i \<longleftrightarrow> message_identity m = message_identity (candidates S ! i)"
proof -
  from assms(2) obtain k where k: "last_index (same_identity m) (candidates S) = Some k"
    using last_index_None_iff [of "same_identity m" "candidates S"]
    by (cases "last_index (same_identity m) (candidates S)")
      (auto simp: known_identity_def ids_def same_identity_def)
  from last_index_SomeD [OF k] have k': "k < length (candidates S)"
    "message_identity (candidates S ! k) = message_identity m" by (auto simp: same_identity_def)
  have "k = i \<longleftrightarrow> message_identity (candidates S ! k) = message_identity (candidates S ! i)"
    using assms(1,3) k'(1) by (auto simp: valid_explorer_def ids_def distinct_conv_nth)
  with k k'(2) show ?thesis by (simp add: index_of_def)
qed

lemma index_of_range:
  assumes "known_identity S m"
  obtains i where "i < length (candidates S)" "index_of S m = int i"
    "message_identity (candidates S ! i) = message_identity m"
proof -
  from assms obtain k where k: "last_index (same_identity m) (candidates S) = Some k"
    using last_index_None_iff [of "same_identity m" "candidates S"]
    by (cases "last_index (same_identity m) (candidates S)")
      (auto simp: known_identity_def ids_def same_identity_def)
  with last_index_SomeD [OF k] that [of k] show thesis by (auto simp: index_of_def same_identity_def)
qed

lemma index_of_candidate:
  "valid_explorer S \<Longrightarrow> i < length (candidates S) \<Longrightarrow> index_of S (candidates S ! i) = int i"
  by (subst index_of_iff) (auto simp: known_identity_def ids_def)

end
