(* ===== verification/Symbolic_Exact.thy ===== *)
theory Symbolic_Exact
  imports Symbolic_Relations
begin

text \<open>
  The encoding is exact: in every model the actions are possible on the fixture one after the
  other, and every sequence of possible actions extends to a model. \<open>guards_at\<close> says that the
  variables the guards read hold the fixture's state at a step, \<open>state_at\<close> that all variables do.
\<close>

section \<open>The variables of a step\<close>

definition guards_at :: "symbolic_explorer \<Rightarrow> (sym_var \<Rightarrow> int) \<Rightarrow> nat \<Rightarrow> fixture \<Rightarrow> bool" where
  "guards_at S m t g \<longleftrightarrow>
     m (PendingCount t) = int (length (in_flight g)) \<and> m (CommittedCount t) = int (length (committed g)) \<and>
     m (TxCount t) = int (transaction_count (fx_state g)) \<and>
     m (ChannelCount t) = int (channel_transition_count (fx_state g)) \<and>
     array_is m (slots (PendingSlot t) (pending_width g)) (indices S (in_flight g)) \<and>
     array_is m (slots (CommittedSlot t) (tx_width g)) (indices S (committed g))"

definition state_at :: "symbolic_explorer \<Rightarrow> (sym_var \<Rightarrow> int) \<Rightarrow> nat \<Rightarrow> fixture \<Rightarrow> bool" where
  "state_at S m t g \<longleftrightarrow> guards_at S m t g \<and> m (DeliveredCount t) = int (length (received g)) \<and>
     m (SourceClock t) = int (length (committed g)) \<and> m (DestinationClock t) = int (length (received g)) \<and>
     array_is m (slots (DeliveredSlot t) (tx_width g)) (indices S (received g))"

text \<open>A fixture that the search may reach from \<open>fx\<close>.\<close>

definition history_bounded :: "fixture \<Rightarrow> bool" where
  "history_bounded g \<longleftrightarrow> length (committed g) \<le> transaction_count (fx_state g) \<and>
     length (received g) \<le> transaction_count (fx_state g)"

definition same_frame :: "fixture \<Rightarrow> fixture \<Rightarrow> bool" where
  "same_frame fx g \<longleftrightarrow> bounds g = bounds fx \<and> profile g = profile fx \<and>
     chain_domain (source (fx_state g)) = chain_domain (source (fx_state fx)) \<and>
     chain_domain (destination (fx_state g)) = chain_domain (destination (fx_state fx))"

definition symbolic_ok :: "symbolic_explorer \<Rightarrow> (json \<Rightarrow> string) \<Rightarrow> fixture \<Rightarrow> fixture \<Rightarrow> bool" where
  "symbolic_ok S sha fx g \<longleftrightarrow> valid_explorer S \<and> settled sha g \<and> history_bounded g \<and> same_frame fx g \<and>
     list_all (known_identity S) (in_flight g @ committed g @ received g) \<and>
     (allow_pre_finality_reorg (profile g) \<longrightarrow> 1 \<le> finality_depth (profile g))"

lemma symbolic_okD:
  assumes "symbolic_ok S sha fx g"
  shows "valid_explorer S" "settled sha g" "same_frame fx g"
    "\<And>m. m \<in> set (in_flight g) \<union> set (committed g) \<union> set (received g) \<Longrightarrow> known_identity S m"
    "pending_width fx = pending_width g" "tx_width fx = tx_width g"
    "length (in_flight g) \<le> pending_width g" "length (committed g) \<le> tx_width g" "length (received g) \<le> tx_width g"
  using assms settled_channel(3) [of sha g]
  by (auto simp: symbolic_ok_def same_frame_def pending_width_def tx_width_def counters_ok_def history_bounded_def
      list_all_iff)

lemma index_in_indices:
  assumes "valid_explorer S" "i < length (candidates S)" "\<And>m. m \<in> set ms \<Longrightarrow> known_identity S m"
  shows "int i \<in> set (indices S ms) \<longleftrightarrow> message_identity (candidates S ! i) \<in> set (ids ms)"
proof -
  have "\<forall>m \<in> set ms. int i = index_of S m \<longleftrightarrow> message_identity (candidates S ! i) = message_identity m"
    using index_of_iff [OF assms(1) assms(3) assms(2)] by metis
  then show ?thesis by (simp add: indices_def ids_def image_iff)
qed

lemma first_index_indices:
  assumes "valid_explorer S" "i < length (candidates S)" "\<And>m. m \<in> set ms \<Longrightarrow> known_identity S m"
  shows "first_index (\<lambda>x. x = int i) (indices S ms) = first_index (same_identity (candidates S ! i)) ms"
  unfolding first_index_def indices_def length_map
  by (rule find_cong) (use index_of_iff [OF assms(1) assms(3) assms(2)] in \<open>auto simp: same_identity_def\<close>)

lemma last_index_indices:
  assumes "valid_explorer S" "i < length (candidates S)" "\<And>m. m \<in> set ms \<Longrightarrow> known_identity S m"
  shows "last_index (\<lambda>x. x = int i) (indices S ms) = last_index (same_identity (candidates S ! i)) ms"
  unfolding last_index_def indices_def length_map
  by (rule find_cong) (use index_of_iff [OF assms(1) assms(3) assms(2)] in \<open>auto simp: same_identity_def\<close>)

lemma length_indices [simp]: "length (indices S ms) = length ms"
  by (simp add: indices_def)

lemma indices_append [simp]: "indices S (ms @ ns) = indices S ms @ indices S ns"
  by (simp add: indices_def)

lemma indices_delete_at: "indices S (delete_at i ms) = delete_at i (indices S ms)"
  by (simp add: indices_def map_delete_at)

lemma indices_butlast: "indices S (butlast ms) = butlast (indices S ms)"
  by (simp add: indices_def map_butlast)

section \<open>Enqueue\<close>

abbreviation kind_is :: "nat \<Rightarrow> int \<Rightarrow> form" where
  "kind_is t k \<equiv> Eq (IntVar (ActionKind t)) (IntVal k)"

lemma candidate_valid_iff:
  assumes "same_frame fx g" "valid_explorer S" "c \<in> set (candidates S)"
  shows "candidate_valid fx c \<longleftrightarrow> validate_message g c = Inr ()"
proof -
  have "nonce c < 2 ^ 256" using assms(2,3)
    by (auto simp: valid_explorer_def list_all_iff Message_def split: if_splits)
  with assms(1) show ?thesis
    by (auto simp: candidate_valid_def validate_message_def same_frame_def)
qed

lemma candidate_allowed_iff:
  assumes "m v = int i" "i < length (candidates S)"
  shows "holds m (candidate_allowed S fx (IntVar v)) \<longleftrightarrow> candidate_valid fx (candidates S ! i)"
  using assms by (auto simp: candidate_allowed_def list_ex_iff)

lemma fresh_selection_iff:
  assumes "m (ActionMessage t) = int i" "i < length (candidates S)" "length xs \<le> tx_width fx"
    and "array_is m (slots (CommittedSlot t) (tx_width fx)) xs"
  shows "satisfies m (fresh_selection S fx t) \<longleftrightarrow> int i \<notin> set xs"
proof -
  have "satisfies m (fresh_selection S fx t) \<longleftrightarrow> (\<forall>slot < tx_width fx. m (CommittedSlot t slot) \<noteq> int i)"
    using assms(1,2) by (fastforce simp: fresh_selection_def satisfies_concat_map satisfies_map)
  also have "\<dots> \<longleftrightarrow> (\<forall>slot < length xs. xs ! slot \<noteq> int i)"
    using assms(3,4) by (auto simp: array_is_slots padded_def)
  finally show ?thesis by (auto simp: in_set_conv_nth)
qed

lemma enqueue_guard:
  assumes ok: "symbolic_ok S sha fx g" and at: "guards_at S m t g"
    and sel: "m (ActionMessage t) = int i" "i < length (candidates S)"
  shows "(int (length (in_flight g)) < max_pending (bounds fx) \<and>
      int (transaction_count (fx_state g)) < max_transactions (bounds fx) \<and>
      int (channel_transition_count (fx_state g)) < max_channel_transitions (bounds fx) \<and>
      holds m (candidate_allowed S fx (IntVar (ActionMessage t))) \<and>
      (\<not> allow_duplicate_enqueue (profile fx) \<longrightarrow> satisfies m (fresh_selection S fx t))) \<longleftrightarrow>
    enqueue_enabled (candidates S ! i) g"
proof -
  note D = symbolic_okD [OF ok]
  have "int i \<in> set (indices S (committed g)) \<longleftrightarrow> message_identity (candidates S ! i) \<in> set (ids (committed g))"
    using D(4) by (intro index_in_indices [OF D(1) sel(2)]) blast
  then have "satisfies m (fresh_selection S fx t) \<longleftrightarrow>
      message_identity (candidates S ! i) \<notin> set (ids (committed g))"
    using fresh_selection_iff [of m t i S "indices S (committed g)" fx] sel at D(6,8) by (simp add: guards_at_def)
  with candidate_allowed_iff [of m "ActionMessage t", OF sel] candidate_valid_iff [OF D(3,1)] D(3) sel(2)
  show ?thesis
    by (auto simp: enqueue_enabled_def require_capacity_Inr same_frame_def)
qed

lemma enqueue_constraints_holds:
  assumes "symbolic_ok S sha fx g" "guards_at S m t g" "m (ActionKind t) = 1"
  shows "satisfies m (enqueue_constraints S fx t) \<longleftrightarrow>
    ((int (length (in_flight g)) < max_pending (bounds fx) \<and>
      int (transaction_count (fx_state g)) < max_transactions (bounds fx) \<and>
      int (channel_transition_count (fx_state g)) < max_channel_transitions (bounds fx) \<and>
      holds m (candidate_allowed S fx (IntVar (ActionMessage t))) \<and>
      (\<not> allow_duplicate_enqueue (profile fx) \<longrightarrow> satisfies m (fresh_selection S fx t))) \<and>
    m (PendingCount (t + 1)) = int (length (in_flight g)) + 1 \<and>
    array_is m (slots (PendingSlot (t + 1)) (pending_width g)) (indices S (in_flight g) @ [m (ActionMessage t)]) \<and>
    m (CommittedCount (t + 1)) = int (length (committed g)) + 1 \<and>
    array_is m (slots (CommittedSlot (t + 1)) (tx_width g)) (indices S (committed g) @ [m (ActionMessage t)]) \<and>
    m (DeliveredCount (t + 1)) = m (DeliveredCount t) \<and>
    satisfies m (frame_array_when (kind_is t 1) (slots (DeliveredSlot t) (tx_width fx)) (slots (DeliveredSlot (t + 1)) (tx_width fx))) \<and>
    m (TxCount (t + 1)) = int (transaction_count (fx_state g)) + 1 \<and>
    m (ChannelCount (t + 1)) = int (channel_transition_count (fx_state g)) + 1 \<and>
    m (SourceClock (t + 1)) = m (SourceClock t) + 1 \<and> m (DestinationClock (t + 1)) = m (DestinationClock t))"
proof -
  note D = symbolic_okD [OF assms(1)]
  have c: "holds m (kind_is t 1)" using assms(3) by simp
  have p: "satisfies m (append_relation (kind_is t 1) (IntVar (PendingCount t)) (IntVar (PendingCount (t + 1)))
      (slots (PendingSlot t) (pending_width fx)) (slots (PendingSlot (t + 1)) (pending_width fx)) (IntVar (ActionMessage t))) \<longleftrightarrow>
    m (PendingCount (t + 1)) = int (length (in_flight g)) + 1 \<and>
    array_is m (slots (PendingSlot (t + 1)) (pending_width g)) (indices S (in_flight g) @ [m (ActionMessage t)])"
    using assms(2,3) D(5) by (subst append_relation_iff [where xs = "indices S (in_flight g)"]) (simp_all add: guards_at_def)
  have q: "satisfies m (append_relation (kind_is t 1) (IntVar (CommittedCount t)) (IntVar (CommittedCount (t + 1)))
      (slots (CommittedSlot t) (tx_width fx)) (slots (CommittedSlot (t + 1)) (tx_width fx)) (IntVar (ActionMessage t))) \<longleftrightarrow>
    m (CommittedCount (t + 1)) = int (length (committed g)) + 1 \<and>
    array_is m (slots (CommittedSlot (t + 1)) (tx_width g)) (indices S (committed g) @ [m (ActionMessage t)])"
    using assms(2,3) D(6) by (subst append_relation_iff [where xs = "indices S (committed g)"]) (simp_all add: guards_at_def)
  have w: "list_all (holds m) (map (\<lambda>f. And [f]) fs) \<longleftrightarrow> satisfies m fs" for fs
    by (simp add: satisfies_def list_all_iff)
  let ?v = "And [Lt (IntVar (PendingCount t)) (IntVal (max_pending (bounds fx))),
      Lt (IntVar (TxCount t)) (IntVal (max_transactions (bounds fx))),
      Lt (IntVar (ChannelCount t)) (IntVal (max_channel_transitions (bounds fx))),
      candidate_allowed S fx (IntVar (ActionMessage t))]"
  have guard: "holds m (if allow_duplicate_enqueue (profile fx) then ?v
        else And (?v # map (\<lambda>f. And [f]) (fresh_selection S fx t))) \<longleftrightarrow>
     int (length (in_flight g)) < max_pending (bounds fx) \<and>
      int (transaction_count (fx_state g)) < max_transactions (bounds fx) \<and>
      int (channel_transition_count (fx_state g)) < max_channel_transitions (bounds fx) \<and>
      holds m (candidate_allowed S fx (IntVar (ActionMessage t))) \<and>
      (\<not> allow_duplicate_enqueue (profile fx) \<longrightarrow> satisfies m (fresh_selection S fx t))"
    using assms(2) by (simp add: guards_at_def w)
  show ?thesis
    using assms(2) c
    unfolding enqueue_constraints_def Let_def satisfies_simps p q frame_when_iff increment_when_iff holds.simps(8) guard
    by (simp add: guards_at_def split del: if_split)
qed

text \<open>In a model, an enqueue step is possible and leads to the next step's variables.\<close>

lemma enqueue_step_sound:
  assumes "symbolic_ok S sha fx g" "guards_at S m t g" "m (ActionKind t) = 1"
    and "m (ActionMessage t) = int i" "i < length (candidates S)" "satisfies m (enqueue_constraints S fx t)"
  shows "\<exists>g'. enqueue sha (candidates S ! i) g = Inr g' \<and> guards_at S m (t + 1) g'"
proof -
  note D = symbolic_okD [OF assms(1)]
  note C = assms(6) [unfolded enqueue_constraints_holds [OF assms(1-3)]]
  have "enqueue_enabled (candidates S ! i) g"
    using enqueue_guard [OF assms(1,2,4,5)] C by blast
  with enqueue_outcome [OF settled_ok [OF D(2)], of "candidates S ! i"]
  obtain g' where g': "enqueue sha (candidates S ! i) g = Inr g'" by auto
  then have "bounds g' = bounds g" by (auto elim: enqueue_InrE)
  moreover have "indices S [candidates S ! i] = [m (ActionMessage t)]"
    using index_of_candidate [OF D(1) assms(5)] assms(4) by (simp add: indices_def)
  ultimately have "guards_at S m (t + 1) g'"
    using enqueue_histories [OF g'] C by (simp add: guards_at_def histories_def pending_width_def tx_width_def)
  with g' show ?thesis by blast
qed

lemma enqueue_step_complete:
  assumes "symbolic_ok S sha fx g" "state_at S m t g" "m (ActionKind t) = 1"
    and "m (ActionMessage t) = int i" "i < length (candidates S)"
    and "enqueue sha (candidates S ! i) g = Inr g'" "state_at S m (t + 1) g'"
  shows "satisfies m (enqueue_constraints S fx t)"
proof -
  note D = symbolic_okD [OF assms(1)]
  have at: "guards_at S m t g" using assms(2) by (simp add: state_at_def)
  have "enqueue_enabled (candidates S ! i) g"
    using enqueue_outcome [OF settled_ok [OF D(2)], of "candidates S ! i"] assms(6) by (auto split: if_splits)
  note guard = this [folded enqueue_guard [OF assms(1) at assms(4,5)]]
  have b: "bounds g' = bounds g" using assms(6) by (auto elim: enqueue_InrE)
  have i: "indices S [candidates S ! i] = [m (ActionMessage t)]"
    using index_of_candidate [OF D(1) assms(5)] assms(4) by (simp add: indices_def)
  have "satisfies m (frame_array_when (kind_is t 1) (slots (DeliveredSlot t) (tx_width fx)) (slots (DeliveredSlot (t + 1)) (tx_width fx)))"
    using assms(2,7) enqueue_histories [OF assms(6)] b D(6)
    by (subst frame_array_when_iff [where xs = "indices S (received g)"])
      (simp_all add: state_at_def histories_def tx_width_def)
  with guard assms(2,7) enqueue_histories [OF assms(6)] b i show ?thesis
    unfolding enqueue_constraints_holds [OF assms(1) at assms(3)]
    by (simp add: state_at_def guards_at_def histories_def tx_width_def pending_width_def)
qed

section \<open>Deliver\<close>

lemma pending_selected:
  assumes "symbolic_ok S sha fx g" "guards_at S m t g" "m (ActionMessage t) = int i"
  shows "holds m (pending_has_selected fx t) \<longleftrightarrow> int i \<in> set (indices S (in_flight g))"
  using assms(2,3) symbolic_okD(5,7) [OF assms(1)]
  by (simp add: pending_has_selected_def guards_at_def contains_iff [where xs = "indices S (in_flight g)"])

lemma in_flight_first:
  assumes "symbolic_ok S sha fx g" "i < length (candidates S)"
  shows "first_index (\<lambda>x. x = int i) (indices S (in_flight g)) = first_index (same_identity (candidates S ! i)) (in_flight g)"
    and "last_index (\<lambda>x. x = int i) (indices S (in_flight g)) = last_index (same_identity (candidates S ! i)) (in_flight g)"
  using symbolic_okD(1,4) [OF assms(1)] assms(2)
  by (auto intro!: first_index_indices last_index_indices)

lemma deliver_constraints_holds:
  assumes "symbolic_ok S sha fx g" "guards_at S m t g" "m (ActionKind t) = 2"
    and "m (ActionMessage t) = int i" "i < length (candidates S)"
  shows "satisfies m (deliver_constraints fx t) \<longleftrightarrow>
    (0 < length (in_flight g) \<and>
      int (transaction_count (fx_state g)) < max_transactions (bounds fx) \<and>
      int (channel_transition_count (fx_state g)) < max_channel_transitions (bounds fx) \<and>
      int i \<in> set (indices S (in_flight g)) \<and>
      (\<not> allow_reordering (profile fx) \<longrightarrow> m (PendingSlot t 0) = int i)) \<and>
    (\<exists>p. first_index (same_identity (candidates S ! i)) (in_flight g) = Some p \<and>
      m (PendingCount (t + 1)) = int (length (in_flight g)) - 1 \<and>
      array_is m (slots (PendingSlot (t + 1)) (pending_width g)) (delete_at p (indices S (in_flight g)))) \<and>
    m (CommittedCount (t + 1)) = int (length (committed g)) \<and>
    array_is m (slots (CommittedSlot (t + 1)) (tx_width g)) (indices S (committed g)) \<and>
    satisfies m (append_relation (kind_is t 2) (IntVar (DeliveredCount t)) (IntVar (DeliveredCount (t + 1)))
      (slots (DeliveredSlot t) (tx_width g)) (slots (DeliveredSlot (t + 1)) (tx_width g)) (IntVar (ActionMessage t))) \<and>
    m (TxCount (t + 1)) = int (transaction_count (fx_state g)) + 1 \<and>
    m (ChannelCount (t + 1)) = int (channel_transition_count (fx_state g)) + 1 \<and>
    m (SourceClock (t + 1)) = m (SourceClock t) \<and> m (DestinationClock (t + 1)) = m (DestinationClock t) + 1"
proof -
  note D = symbolic_okD [OF assms(1)]
  have c: "holds m (kind_is t 2)" using assms(3) by simp
  have p: "satisfies m (remove_relation (kind_is t 2) (IntVar (PendingCount t)) (IntVar (PendingCount (t + 1)))
      (slots (PendingSlot t) (pending_width fx)) (slots (PendingSlot (t + 1)) (pending_width fx)) (IntVar (ActionMessage t))) \<longleftrightarrow>
    (\<exists>p. first_index (same_identity (candidates S ! i)) (in_flight g) = Some p \<and>
      m (PendingCount (t + 1)) = int (length (in_flight g)) - 1 \<and>
      array_is m (slots (PendingSlot (t + 1)) (pending_width g)) (delete_at p (indices S (in_flight g))))"
    unfolding in_flight_first(1) [OF assms(1,5), symmetric]
    using assms(2-4) D(5,7)
    by (subst remove_relation_iff [where xs = "indices S (in_flight g)"]) (simp_all add: guards_at_def)
  have q: "satisfies m (frame_array_when (kind_is t 2) (slots (CommittedSlot t) (tx_width fx)) (slots (CommittedSlot (t + 1)) (tx_width fx))) \<longleftrightarrow>
    array_is m (slots (CommittedSlot (t + 1)) (tx_width g)) (indices S (committed g))"
    using assms(2,3) D(6) by (subst frame_array_when_iff [where xs = "indices S (committed g)"]) (simp_all add: guards_at_def)
  let ?v = "And [Lt (IntVal 0) (IntVar (PendingCount t)),
      Lt (IntVar (TxCount t)) (IntVal (max_transactions (bounds fx))),
      Lt (IntVar (ChannelCount t)) (IntVal (max_channel_transitions (bounds fx))), pending_has_selected fx t]"
  have guard: "holds m (if allow_reordering (profile fx) then ?v
        else And [?v, Eq (IntVar (PendingSlot t 0)) (IntVar (ActionMessage t))]) \<longleftrightarrow>
     0 < length (in_flight g) \<and>
      int (transaction_count (fx_state g)) < max_transactions (bounds fx) \<and>
      int (channel_transition_count (fx_state g)) < max_channel_transitions (bounds fx) \<and>
      int i \<in> set (indices S (in_flight g)) \<and>
      (\<not> allow_reordering (profile fx) \<longrightarrow> m (PendingSlot t 0) = int i)"
    using assms(2,4) pending_selected [OF assms(1,2,4)] by (simp add: guards_at_def)
  show ?thesis
    using assms(2) c
    unfolding deliver_constraints_def Let_def satisfies_simps p q frame_when_iff increment_when_iff holds.simps(8) guard
    by (simp add: guards_at_def D(6) split del: if_split)
qed

lemma deliver_step_sound:
  assumes "symbolic_ok S sha fx g" "guards_at S m t g" "m (ActionKind t) = 2"
    and "m (ActionMessage t) = int i" "i < length (candidates S)" "satisfies m (deliver_constraints fx t)"
  shows "\<exists>p d g'. first_index (same_identity (candidates S ! i)) (in_flight g) = Some p \<and>
    deliver sha (int p) g = Inr (d, g') \<and> guards_at S m (t + 1) g'"
proof -
  note D = symbolic_okD [OF assms(1)]
  note C = assms(6) [unfolded deliver_constraints_holds [OF assms(1-5)]]
  from C obtain p where p: "first_index (same_identity (candidates S ! i)) (in_flight g) = Some p"
    "m (PendingCount (t + 1)) = int (length (in_flight g)) - 1"
    "array_is m (slots (PendingSlot (t + 1)) (pending_width g)) (delete_at p (indices S (in_flight g)))" by blast
  have len: "p < length (in_flight g)" using p(1) by (simp add: first_index_Some)
  have fifo: "allow_reordering (profile g) \<or> p = 0"
  proof (rule disjCI)
    assume "p \<noteq> 0"
    have i: "first_index (\<lambda>x. x = int i) (indices S (in_flight g)) = Some p"
      using p(1) in_flight_first(1) [OF assms(1,5)] by simp
    with \<open>p \<noteq> 0\<close> have "indices S (in_flight g) ! 0 \<noteq> int i" by (auto simp: first_index_Some)
    moreover have "in_flight g \<noteq> []" using len by auto
    then have "m (PendingSlot t 0) = indices S (in_flight g) ! 0"
      using assms(2) len D(7) by (simp add: guards_at_def array_is_slots padded_def)
    ultimately show "allow_reordering (profile g)" using C D(3) by (auto simp: same_frame_def)
  qed
  have "require_capacity g DELIVER True = Inr ()"
    using C D(3) by (simp add: require_capacity_Inr same_frame_def)
  from deliver_succeeds [OF D(2) len fifo this] obtain d g' where g': "deliver sha (int p) g = Inr (d, g')" by blast
  then have "bounds g' = bounds g" by (auto elim: deliver_InrE)
  moreover have "int (length (in_flight g) - 1) = int (length (in_flight g)) - 1" using len by simp
  ultimately have "guards_at S m (t + 1) g'"
    using deliver_histories [OF g'] C p(2,3) len
    by (simp add: guards_at_def histories_def pending_width_def tx_width_def indices_delete_at)
  with p(1) g' show ?thesis by blast
qed

lemma deliver_step_complete:
  assumes "symbolic_ok S sha fx g" "state_at S m t g" "m (ActionKind t) = 2"
    and "m (ActionMessage t) = int i" "i < length (candidates S)"
    and "first_index (same_identity (candidates S ! i)) (in_flight g) = Some p"
    and "deliver sha (int p) g = Inr (d, g')" "state_at S m (t + 1) g'"
  shows "satisfies m (deliver_constraints fx t)"
proof -
  note D = symbolic_okD [OF assms(1)]
  have at: "guards_at S m t g" and at': "guards_at S m (t + 1) g'" using assms(2,8) by (simp_all add: state_at_def)
  have b: "bounds g' = bounds g" using assms(7) by (auto elim: deliver_InrE)
  have len: "p < length (in_flight g)" "message_identity (in_flight g ! p) = message_identity (candidates S ! i)"
    using assms(6) by (simp_all add: first_index_Some same_identity_def)
  have idx: "indices S [in_flight g ! p] = [m (ActionMessage t)]"
    using index_of_iff [OF D(1) D(4) assms(5)] len assms(4) by (simp add: indices_def)
  have "allow_reordering (profile g) \<or> p = 0" "require_capacity g DELIVER True = Inr ()"
    using assms(7) by (auto elim: deliver_InrE)
  then have caps: "int (transaction_count (fx_state g)) < max_transactions (bounds fx)"
    "int (channel_transition_count (fx_state g)) < max_channel_transitions (bounds fx)"
    "allow_reordering (profile fx) \<or> p = 0"
    using D(3) by (simp_all add: require_capacity_Inr same_frame_def)
  have sel: "indices S (in_flight g) ! p = int i" using idx len(1) assms(4) by (simp add: indices_def)
  then have mem: "int i \<in> set (indices S (in_flight g))" using len(1) by (metis length_indices nth_mem)
  have fifo: "\<not> allow_reordering (profile fx) \<longrightarrow> m (PendingSlot t 0) = int i"
    using at caps(3) sel len(1) D(7) by (auto simp: guards_at_def array_is_slots padded_def)
  have "satisfies m (append_relation (kind_is t 2) (IntVar (DeliveredCount t)) (IntVar (DeliveredCount (t + 1)))
      (slots (DeliveredSlot t) (tx_width g)) (slots (DeliveredSlot (t + 1)) (tx_width g)) (IntVar (ActionMessage t)))"
    using assms(2,8) deliver_histories [OF assms(7)] b idx
    by (subst append_relation_iff [where xs = "indices S (received g)"])
      (simp_all add: state_at_def histories_def tx_width_def)
  moreover have "int (length (in_flight g) - 1) = int (length (in_flight g)) - 1" using len(1) by simp
  moreover have "0 < length (in_flight g)" using len(1) by linarith
  ultimately show ?thesis
    unfolding deliver_constraints_holds [OF assms(1) at assms(3-5)]
    using assms(2,6,8) deliver_histories [OF assms(7)] b caps(1,2) mem fifo at at' len(1)
    by (simp add: state_at_def guards_at_def histories_def tx_width_def pending_width_def indices_delete_at)
qed

section \<open>Reorg\<close>

lemma reorg_constraints_holds:
  assumes "symbolic_ok S sha fx g" "guards_at S m t g" "m (ActionKind t) = 3"
    and "m (ActionMessage t) = int i" "i < length (candidates S)"
  shows "satisfies m (reorg_constraints fx t) \<longleftrightarrow>
    (allow_pre_finality_reorg (profile fx) \<and> committed g \<noteq> [] \<and>
      int (transaction_count (fx_state g)) < max_transactions (bounds fx) \<and>
      List.last (indices S (committed g)) = int i \<and> int i \<in> set (indices S (in_flight g))) \<and>
    m (CommittedCount (t + 1)) = int (length (committed g)) - 1 \<and>
    array_is m (slots (CommittedSlot (t + 1)) (tx_width g)) (butlast (indices S (committed g))) \<and>
    (\<exists>p. last_index (same_identity (candidates S ! i)) (in_flight g) = Some p \<and>
      m (PendingCount (t + 1)) = int (length (in_flight g)) - 1 \<and>
      array_is m (slots (PendingSlot (t + 1)) (pending_width g)) (delete_at p (indices S (in_flight g)))) \<and>
    satisfies m (frame_array_when (kind_is t 3) (slots (DeliveredSlot t) (tx_width g)) (slots (DeliveredSlot (t + 1)) (tx_width g))) \<and>
    m (TxCount (t + 1)) = int (transaction_count (fx_state g)) + 1 \<and>
    m (ChannelCount (t + 1)) = int (channel_transition_count (fx_state g)) \<and>
    m (SourceClock (t + 1)) = m (SourceClock t) - 1 \<and> m (DestinationClock (t + 1)) = m (DestinationClock t)"
proof -
  note D = symbolic_okD [OF assms(1)]
  have c: "holds m (kind_is t 3)" using assms(3) by simp
  have ne: "indices S (committed g) \<noteq> [] \<longleftrightarrow> committed g \<noteq> []" by (simp add: indices_def)
  have p: "satisfies m (remove_last_relation (kind_is t 3) (IntVar (PendingCount t)) (IntVar (PendingCount (t + 1)))
      (slots (PendingSlot t) (pending_width fx)) (slots (PendingSlot (t + 1)) (pending_width fx)) (Some (IntVar (ActionMessage t)))) \<longleftrightarrow>
    (\<exists>p. last_index (same_identity (candidates S ! i)) (in_flight g) = Some p \<and>
      m (PendingCount (t + 1)) = int (length (in_flight g)) - 1 \<and>
      array_is m (slots (PendingSlot (t + 1)) (pending_width g)) (delete_at p (indices S (in_flight g))))"
    unfolding in_flight_first(2) [OF assms(1,5), symmetric]
    using assms(2-4) D(5,7)
    by (subst remove_last_relation_iff [where xs = "indices S (in_flight g)"]) (simp_all add: guards_at_def)
  have q: "satisfies m (remove_last_relation (kind_is t 3) (IntVar (CommittedCount t)) (IntVar (CommittedCount (t + 1)))
      (slots (CommittedSlot t) (tx_width fx)) (slots (CommittedSlot (t + 1)) (tx_width fx)) None) \<longleftrightarrow>
    committed g \<noteq> [] \<and> m (CommittedCount (t + 1)) = int (length (committed g)) - 1 \<and>
    array_is m (slots (CommittedSlot (t + 1)) (tx_width g)) (butlast (indices S (committed g)))"
    using assms(2,3) D(6,8) ne
    by (subst remove_latest_iff [where xs = "indices S (committed g)"]) (simp_all add: guards_at_def)
  have latest: "holds m (latest_is_selected (slots (CommittedSlot t) (tx_width fx)) (IntVar (CommittedCount t))
      (IntVar (ActionMessage t))) \<longleftrightarrow> committed g \<noteq> [] \<and> List.last (indices S (committed g)) = int i"
    using assms(2,4) D(6,8) ne
    by (subst latest_is_selected_iff [where xs = "indices S (committed g)"]) (simp_all add: guards_at_def)
  have guard: "holds m (And [BoolVal (allow_pre_finality_reorg (profile fx)), Lt (IntVal 0) (IntVar (CommittedCount t)),
      Lt (IntVar (TxCount t)) (IntVal (max_transactions (bounds fx))),
      latest_is_selected (slots (CommittedSlot t) (tx_width fx)) (IntVar (CommittedCount t)) (IntVar (ActionMessage t)),
      pending_has_selected fx t]) \<longleftrightarrow>
     allow_pre_finality_reorg (profile fx) \<and> committed g \<noteq> [] \<and>
      int (transaction_count (fx_state g)) < max_transactions (bounds fx) \<and>
      List.last (indices S (committed g)) = int i \<and> int i \<in> set (indices S (in_flight g))"
    using assms(2) pending_selected [OF assms(1,2,4)] latest by (auto simp: guards_at_def)
  show ?thesis
    using assms(2) c
    unfolding reorg_constraints_def Let_def satisfies_simps p q frame_when_iff increment_when_iff holds.simps(8) guard
    by (auto simp: guards_at_def D(6))
qed

lemma last_indices: "ms \<noteq> [] \<Longrightarrow> List.last (indices S ms) = index_of S (List.last ms)"
  by (simp add: indices_def last_map)

lemma latest_identity:
  assumes "symbolic_ok S sha fx g" "committed g \<noteq> []" "i < length (candidates S)"
  shows "List.last (indices S (committed g)) = int i \<longleftrightarrow>
    message_identity (List.last (committed g)) = message_identity (candidates S ! i)"
proof -
  have "known_identity S (List.last (committed g))"
    using assms(2) symbolic_okD(4) [OF assms(1)] by auto
  with index_of_iff [OF symbolic_okD(1) [OF assms(1)] this assms(3)] last_indices [OF assms(2)]
  show ?thesis by simp
qed

lemma same_identity_eq: "message_identity m = message_identity n \<Longrightarrow> same_identity m = same_identity n"
  by (simp add: same_identity_def fun_eq_iff)

lemma reorg_step_sound:
  assumes "symbolic_ok S sha fx g" "guards_at S m t g" "m (ActionKind t) = 3"
    and "m (ActionMessage t) = int i" "i < length (candidates S)" "satisfies m (reorg_constraints fx t)"
  shows "\<exists>d g'. reorg_latest g = Inr (d, g') \<and> guards_at S m (t + 1) g'"
proof -
  note D = symbolic_okD [OF assms(1)]
  note C = assms(6) [unfolded reorg_constraints_holds [OF assms(1-5)]]
  from C have ne: "committed g \<noteq> []" and allow: "allow_pre_finality_reorg (profile g)"
    using D(3) by (auto simp: same_frame_def)
  have same: "same_identity (List.last (committed g)) = same_identity (candidates S ! i)"
    using C latest_identity [OF assms(1) ne assms(5)] by (blast intro: same_identity_eq)
  from C obtain p where p: "last_index (same_identity (candidates S ! i)) (in_flight g) = Some p"
    "m (PendingCount (t + 1)) = int (length (in_flight g)) - 1"
    "array_is m (slots (PendingSlot (t + 1)) (pending_width g)) (delete_at p (indices S (in_flight g)))" by blast
  have len: "p < length (in_flight g)" using last_index_SomeD [OF p(1)] by simp
  have cap: "require_capacity g REORG False = Inr ()"
    using C D(3) by (simp add: require_capacity_Inr same_frame_def)
  have depth: "1 \<le> finality_depth (profile g)" using allow assms(1) by (simp add: symbolic_ok_def)
  from reorg_latest_succeeds [OF D(2) ne allow depth cap] p(1) same
  obtain d g' where g': "reorg_latest g = Inr (d, g')" by auto
  then obtain j where j: "last_index (same_identity (List.last (committed g))) (in_flight g) = Some j"
    and h: "histories g' = (delete_at j (in_flight g), butlast (committed g), received g,
       Suc (transaction_count (fx_state g)), channel_transition_count (fx_state g))"
    by (rule reorg_latest_histories)
  from j p(1) same have "j = p" by simp
  have "bounds g' = bounds g" using g' by (auto simp: reorg_latest_def elim: reorg_InrE)
  moreover have "int (length (in_flight g) - 1) = int (length (in_flight g)) - 1" using len by simp
  moreover have "int (length (committed g) - 1) = int (length (committed g)) - 1" using ne by (cases "committed g") simp_all
  ultimately have "guards_at S m (t + 1) g'"
    using h C p(2,3) len \<open>j = p\<close>
    by (simp add: guards_at_def histories_def pending_width_def tx_width_def indices_delete_at indices_butlast)
  with g' show ?thesis by blast
qed

lemma reorg_step_complete:
  assumes "symbolic_ok S sha fx g" "state_at S m t g" "m (ActionKind t) = 3"
    and "m (ActionMessage t) = int i" "i < length (candidates S)"
    and "reorg_latest g = Inr (d, g')" "state_at S m (t + 1) g'"
    and "message_identity (List.last (committed g)) = message_identity (candidates S ! i)"
  shows "satisfies m (reorg_constraints fx t)"
proof -
  note D = symbolic_okD [OF assms(1)]
  have at: "guards_at S m t g" and at': "guards_at S m (t + 1) g'" using assms(2,7) by (simp_all add: state_at_def)
  from assms(6) obtain j where j: "last_index (same_identity (List.last (committed g))) (in_flight g) = Some j"
    and h: "histories g' = (delete_at j (in_flight g), butlast (committed g), received g,
       Suc (transaction_count (fx_state g)), channel_transition_count (fx_state g))"
    and ne: "committed g \<noteq> []" and allow: "allow_pre_finality_reorg (profile g)"
    and tx: "int (transaction_count (fx_state g)) < max_transactions (bounds g)"
    by (rule reorg_latest_histories)
  have same: "same_identity (List.last (committed g)) = same_identity (candidates S ! i)"
    by (rule same_identity_eq [OF assms(8)])
  have b: "bounds g' = bounds g" using assms(6) by (auto simp: reorg_latest_def elim: reorg_InrE)
  have len: "j < length (in_flight g)" "message_identity (in_flight g ! j) = message_identity (candidates S ! i)"
    using last_index_SomeD [OF j] assms(8) by (simp_all add: same_identity_def)
  have "index_of S (in_flight g ! j) = int i"
    using index_of_iff [OF D(1) D(4) assms(5)] len by simp
  then have mem: "int i \<in> set (indices S (in_flight g))"
    using len(1) by (metis indices_def length_indices nth_map nth_mem)
  have last: "List.last (indices S (committed g)) = int i"
    using latest_identity [OF assms(1) ne assms(5)] assms(8) by simp
  have "satisfies m (frame_array_when (kind_is t 3) (slots (DeliveredSlot t) (tx_width g)) (slots (DeliveredSlot (t + 1)) (tx_width g)))"
    using assms(2,7) h b
    by (subst frame_array_when_iff [where xs = "indices S (received g)"])
      (simp_all add: state_at_def histories_def tx_width_def)
  moreover have "int (length (in_flight g) - 1) = int (length (in_flight g)) - 1" using len(1) by simp
  moreover have "int (length (committed g) - 1) = int (length (committed g)) - 1" using ne by (cases "committed g") simp_all
  ultimately show ?thesis
    unfolding reorg_constraints_holds [OF assms(1) at assms(3-5)]
    using assms(2,7) h b D(3) allow tx ne last mem at at' len(1) j same
    by (simp add: state_at_def guards_at_def histories_def tx_width_def pending_width_def indices_delete_at
        indices_butlast same_frame_def)
qed

end
