(* ===== verification/Symbolic_Runs.thy ===== *)
theory Symbolic_Runs
  imports Symbolic_Exact
begin

text \<open>
  From one step to the whole encoding: the sequences of actions of its models are exactly the
  sequences of actions that the fixture can perform.
\<close>

section \<open>One transition\<close>

text \<open>An action whose message index the encoding selects, and the fixture it leads to.\<close>

definition encoded_action :: "symbolic_explorer \<Rightarrow> (json \<Rightarrow> string) \<Rightarrow> action \<times> nat \<Rightarrow> fixture \<Rightarrow> fixture \<Rightarrow> bool" where
  "encoded_action S sha ai g g' \<longleftrightarrow> snd ai < length (candidates S) \<and> replay_action S sha ai g = Inr g' \<and>
     (fst ai = REORG \<longrightarrow> message_identity (List.last (committed g)) = message_identity (candidates S ! snd ai))"

fun kind_of :: "action \<Rightarrow> int" where
  "kind_of ENQUEUE = 1" | "kind_of DELIVER = 2" | "kind_of REORG = 3"

lemma action_of_kind_of [simp]: "action_of_kind (kind_of a) = Some a" "kind_of a \<noteq> 0" "0 \<le> kind_of a" "kind_of a \<le> 3"
  by (cases a; simp)+

declare action_of_kind.simps [simp del]

lemma idle_constraints:
  "m (ActionKind t) \<noteq> 0 \<Longrightarrow> satisfies m (noop_constraints fx t)"
  "m (ActionKind t) \<noteq> 1 \<Longrightarrow> satisfies m (enqueue_constraints S fx t)"
  "m (ActionKind t) \<noteq> 2 \<Longrightarrow> satisfies m (deliver_constraints fx t)"
  "m (ActionKind t) \<noteq> 3 \<Longrightarrow> satisfies m (reorg_constraints fx t)"
  by (simp_all add: noop_constraints_def enqueue_constraints_def deliver_constraints_def reorg_constraints_def
      Let_def idle_builders)

lemma noop_constraints_holds:
  assumes "m (ActionKind t) = 0" "state_at S m t g" "symbolic_ok S sha fx g"
  shows "satisfies m (noop_constraints fx t) \<longleftrightarrow> state_at S m (t + 1) g"
proof -
  note D = symbolic_okD [OF assms(3)]
  have c: "holds m (kind_is t 0)" using assms(1) by simp
  have frames: "satisfies m (frame_array_when (kind_is t 0) (slots (v t) w) (slots (v (Suc t)) w)) \<longleftrightarrow>
      array_is m (slots (v (Suc t)) w) xs" if "array_is m (slots (v t) w) xs" for v w xs
    using that c by (simp add: frame_array_when_iff)
  show ?thesis
    using assms(2) c D(5,6)
    by (auto simp: noop_constraints_def Let_def state_at_def guards_at_def frames frame_when_iff)
qed

lemma noop_step_sound:
  assumes "m (ActionKind t) = 0" "guards_at S m t g" "symbolic_ok S sha fx g" "satisfies m (noop_constraints fx t)"
  shows "guards_at S m (t + 1) g"
proof -
  note D = symbolic_okD [OF assms(3)]
  have c: "holds m (kind_is t 0)" using assms(1) by simp
  have frames: "satisfies m (frame_array_when (kind_is t 0) (slots (v t) w) (slots (v (Suc t)) w)) \<longleftrightarrow>
      array_is m (slots (v (Suc t)) w) xs" if "array_is m (slots (v t) w) xs" for v w xs
    using that c by (simp add: frame_array_when_iff)
  show ?thesis
    using assms(2,4) c D(5,6)
    by (auto simp: noop_constraints_def Let_def guards_at_def frames frame_when_iff)
qed

text \<open>What the shape constraints allow.\<close>

lemma action_shape_iff:
  "satisfies m (action_shape S t) \<longleftrightarrow>
    (m (ActionKind t) = 0 \<and> m (ActionMessage t) = - 1 \<or>
     (\<exists>a i. m (ActionKind t) = kind_of a \<and> m (ActionMessage t) = int i \<and> i < length (candidates S))) \<and>
    (0 < t \<and> m (ActionKind (t - 1)) = 0 \<longrightarrow> m (ActionKind t) = 0)"
proof -
  have "0 \<le> k \<and> k \<le> 3 \<longleftrightarrow> k = 0 \<or> (\<exists>a. k = kind_of a)" for k
  proof
    assume "0 \<le> k \<and> k \<le> 3"
    then consider "k = 0" | "k = 1" | "k = 2" | "k = 3" by linarith
    then show "k = 0 \<or> (\<exists>a. k = kind_of a)" by cases (metis kind_of.simps)+
  qed auto
  note kinds = this
  have sels: "(\<exists>i. s = int i \<and> i < n) \<longleftrightarrow> 0 \<le> s \<and> s < int n" for s n
    by (metis nat_less_iff nat_int of_nat_0_le_iff zero_le_imp_eq_int of_nat_less_iff)
  let ?k = "m (ActionKind t)" and ?s = "m (ActionMessage t)"
  have "satisfies m (action_shape S t) \<longleftrightarrow>
      (0 \<le> ?k \<and> ?k \<le> 3) \<and> - 1 \<le> ?s \<and> ?s < int (length (candidates S)) \<and>
      (?k = 0 \<longrightarrow> ?s = - 1) \<and> (?k \<noteq> 0 \<longrightarrow> 0 \<le> ?s) \<and> (0 < t \<and> m (ActionKind (t - 1)) = 0 \<longrightarrow> ?k = 0)"
    by (auto simp: action_shape_def Let_def)
  moreover have "\<not> (?k = 0 \<and> (\<exists>a. ?k = kind_of a))" by (metis action_of_kind_of(2))
  ultimately show ?thesis
    using sels [of ?s "length (candidates S)"] unfolding kinds
    by (cases "?k = 0") auto
qed

section \<open>The fixture's side of a step\<close>

lemma encoded_action_cases:
  assumes "encoded_action S sha ai g g'"
  obtains (enqueue) i where "ai = (ENQUEUE, i)" "i < length (candidates S)" "enqueue sha (candidates S ! i) g = Inr g'"
  | (deliver) i p d where "ai = (DELIVER, i)" "i < length (candidates S)"
      "first_index (same_identity (candidates S ! i)) (in_flight g) = Some p" "deliver sha (int p) g = Inr (d, g')"
  | (reorg) i d where "ai = (REORG, i)" "i < length (candidates S)" "reorg_latest g = Inr (d, g')"
      "message_identity (List.last (committed g)) = message_identity (candidates S ! i)"
proof -
  obtain a i where ai: "ai = (a, i)" by (cases ai)
  show thesis
    using assms that
    by (cases a) (auto simp: ai encoded_action_def replay_action_def split: sum.splits option.splits)
qed

lemma encoded_action_intros:
  "i < length (candidates S) \<Longrightarrow> enqueue sha (candidates S ! i) g = Inr g' \<Longrightarrow> encoded_action S sha (ENQUEUE, i) g g'"
  "i < length (candidates S) \<Longrightarrow> first_index (same_identity (candidates S ! i)) (in_flight g) = Some p \<Longrightarrow>
     deliver sha (int p) g = Inr (d, g') \<Longrightarrow> encoded_action S sha (DELIVER, i) g g'"
  "i < length (candidates S) \<Longrightarrow> reorg_latest g = Inr (d, g') \<Longrightarrow>
     message_identity (List.last (committed g)) = message_identity (candidates S ! i) \<Longrightarrow>
     encoded_action S sha (REORG, i) g g'"
  by (simp_all add: encoded_action_def replay_action_def)

text \<open>The explicit explorer over the same candidates.\<close>

definition as_explorer :: "symbolic_explorer \<Rightarrow> explorer" where
  "as_explorer S = \<lparr>messages = candidates S, max_states = 1\<rparr>"

lemma encoded_schedule_step: "encoded_action S sha ai g g' \<Longrightarrow> schedule_step (as_explorer S) sha g g'"
  by (erule encoded_action_cases)
    (auto intro: schedule_step.deliver schedule_step.reorg schedule_step.enqueue [rotated] simp: as_explorer_def)

lemma histories_eq:
  "histories g' = (ps, cs, rs, tx, ch) \<Longrightarrow> in_flight g' = ps \<and> committed g' = cs \<and> received g' = rs \<and>
     transaction_count (fx_state g') = tx \<and> channel_transition_count (fx_state g') = ch"
  by (simp add: histories_def)

text \<open>Every scheduled action keeps the candidates' identities and the bounds on the histories.\<close>

lemma schedule_step_symbolic_ok:
  assumes ok: "symbolic_ok S sha fx g" and step: "schedule_step (as_explorer S) sha g g'"
  shows "symbolic_ok S sha fx g'"
proof -
  note D = symbolic_okD [OF ok]
  have settled: "settled sha g'" by (rule settled_schedule_step [OF D(2) step])
  have frame: "bounds g' = bounds g" "profile g' = profile g" "initial_state g' = initial_state g"
    using schedule_step_counts [OF step] by simp_all
  then have "same_frame fx g'"
    using D(2,3) settled by (auto simp: same_frame_def settled_def initial_dual_def initial_chain_def)
  moreover have "history_bounded g' \<and>
      set (in_flight g') \<union> set (committed g') \<union> set (received g') \<subseteq> {m. known_identity S m}"
    using step
  proof (cases rule: schedule_step.cases)
    case (enqueue m)
    then have "known_identity S m" by (simp add: as_explorer_def known_identity_def ids_def)
    with enqueue_histories [OF enqueue(2)] ok D(4) show ?thesis
      by (auto dest!: histories_eq simp: history_bounded_def symbolic_ok_def)
  next
    case (deliver i m)
    then obtain k where k: "i = int k" by (auto elim: deliver_InrE)
    from deliver_histories [OF deliver(1) [unfolded k]] have h: "k < length (in_flight g)"
      "in_flight g' = delete_at k (in_flight g)" "committed g' = committed g" "received g' = received g @ [in_flight g ! k]"
      "transaction_count (fx_state g') = Suc (transaction_count (fx_state g))"
      by (auto dest!: histories_eq)
    have "in_flight g ! k \<in> set (in_flight g)" using h(1) by simp
    with h D(4) ok set_delete_at_subset [of k "in_flight g"] show ?thesis
      by (auto simp: history_bounded_def symbolic_ok_def)
  next
    case (reorg m)
    then obtain j where "histories g' = (delete_at j (in_flight g), butlast (committed g), received g,
       Suc (transaction_count (fx_state g)), channel_transition_count (fx_state g))"
      by (rule reorg_latest_histories)
    moreover have "set (butlast (committed g)) \<subseteq> set (committed g)" by (auto dest: in_set_butlastD)
    ultimately show ?thesis using D(4) ok set_delete_at_subset [of j "in_flight g"]
      by (fastforce dest!: histories_eq simp: history_bounded_def symbolic_ok_def)
  qed
  ultimately show ?thesis
    using ok settled frame by (auto simp: symbolic_ok_def list_all_iff)
qed

lemma encoded_symbolic_ok: "symbolic_ok S sha fx g \<Longrightarrow> encoded_action S sha ai g g' \<Longrightarrow> symbolic_ok S sha fx g'"
  using schedule_step_symbolic_ok encoded_schedule_step by blast

lemma transition_sound:
  assumes ok: "symbolic_ok S sha fx g" and at: "guards_at S m t g"
    and sat: "satisfies m (transition_constraints S fx t)"
    and kind: "m (ActionKind t) = kind_of a" "m (ActionMessage t) = int i" "i < length (candidates S)"
  shows "\<exists>g'. encoded_action S sha (a, i) g g' \<and> guards_at S m (t + 1) g'"
proof (cases a)
  case ENQUEUE
  with enqueue_step_sound [OF ok at _ kind(2,3)] sat kind(1,3) show ?thesis
    by (auto simp: transition_constraints_def intro: encoded_action_intros)
next
  case DELIVER
  with deliver_step_sound [OF ok at _ kind(2,3)] sat kind(1,3) show ?thesis
    by (fastforce simp: transition_constraints_def intro: encoded_action_intros)
next
  case REORG
  then have k: "m (ActionKind t) = 3" and r: "satisfies m (reorg_constraints fx t)"
    using kind(1) sat by (simp_all add: transition_constraints_def)
  then have "committed g \<noteq> []" "List.last (indices S (committed g)) = int i"
    using reorg_constraints_holds [OF ok at k kind(2,3)] by simp_all
  with latest_identity [OF ok _ kind(3)]
  have "message_identity (List.last (committed g)) = message_identity (candidates S ! i)" by blast
  with reorg_step_sound [OF ok at k kind(2,3) r] REORG kind(3) show ?thesis
    by (blast intro: encoded_action_intros)
qed

lemma transition_complete:
  assumes ok: "symbolic_ok S sha fx g" and at: "state_at S m t g" "state_at S m (t + 1) g'"
    and act: "encoded_action S sha (a, i) g g'" "m (ActionKind t) = kind_of a" "m (ActionMessage t) = int i"
  shows "satisfies m (transition_constraints S fx t)"
  using act(1)
proof (cases rule: encoded_action_cases)
  case (enqueue k)
  with act at enqueue_step_complete [OF ok at(1) _ _ _ _ at(2)] show ?thesis
    by (simp add: transition_constraints_def idle_constraints Let_def)
next
  case (deliver k p d)
  with act at deliver_step_complete [OF ok at(1) _ _ _ _ _ at(2)] show ?thesis
    by (simp add: transition_constraints_def idle_constraints Let_def)
next
  case (reorg k d)
  with act at reorg_step_complete [OF ok at(1) _ _ _ _ at(2)] show ?thesis
    by (simp add: transition_constraints_def idle_constraints Let_def)
qed

lemma transition_idle:
  assumes "symbolic_ok S sha fx g" "state_at S m t g" "state_at S m (t + 1) g" "m (ActionKind t) = 0"
  shows "satisfies m (transition_constraints S fx t)"
  using assms noop_constraints_holds [OF assms(4,2,1)]
  by (simp add: transition_constraints_def idle_constraints Let_def)

section \<open>Runs\<close>

fun encoded_run ::
    "symbolic_explorer \<Rightarrow> (json \<Rightarrow> string) \<Rightarrow> fixture \<Rightarrow> (action \<times> nat) list \<Rightarrow> fixture list \<Rightarrow> bool" where
  "encoded_run S sha g [] gs \<longleftrightarrow> gs = []"
| "encoded_run S sha g (ai # as) gs \<longleftrightarrow> (case gs of [] \<Rightarrow> False
     | g' # gs' \<Rightarrow> encoded_action S sha ai g g' \<and> encoded_run S sha g' as gs')"

lemma encoded_run_Nil [simp]: "Ex (encoded_run S sha g [])"
  by (rule exI [of _ "[]"]) simp

lemma encoded_run_replay: "encoded_run S sha g as gs \<Longrightarrow> replay_actions S sha as g = Inr gs"
  by (induction as arbitrary: g gs) (auto simp: encoded_action_def split: list.splits)

lemma encoded_run_length: "encoded_run S sha g as gs \<Longrightarrow> length gs = length as"
  by (induction as arbitrary: g gs) (auto split: list.splits)

lemma encoded_run_Cons: "encoded_run S sha g (ai # as) (g' # gs) \<longleftrightarrow> encoded_action S sha ai g g' \<and> encoded_run S sha g' as gs"
  by simp

lemma encoded_run_ok:
  "encoded_run S sha g as gs \<Longrightarrow> symbolic_ok S sha fx g \<Longrightarrow> g' \<in> set gs \<Longrightarrow> symbolic_ok S sha fx g'"
  by (induction as arbitrary: g gs) (auto split: list.splits dest: encoded_symbolic_ok)

lemma encoded_run_nth:
  "encoded_run S sha g as gs \<Longrightarrow> t < length as \<Longrightarrow> encoded_action S sha (as ! t) ((g # gs) ! t) ((g # gs) ! Suc t)"
  by (induction as arbitrary: g gs t) (auto simp: nth_Cons split: list.splits nat.splits)

lemma encoded_run_reachable:
  "encoded_run S sha g as gs \<Longrightarrow> g' \<in> set gs \<Longrightarrow> (schedule_step (as_explorer S) sha)\<^sup>*\<^sup>* g g'"
  by (induction as arbitrary: g gs)
    (auto split: list.splits intro: converse_rtranclp_into_rtranclp dest: encoded_schedule_step)

text \<open>Each action uses a transaction, so a run has no more actions than the encoding has steps.\<close>

lemma encoded_run_steps:
  "encoded_run S sha g as gs \<Longrightarrow> length as \<le> nat (max_transactions (bounds g) - int (transaction_count (fx_state g)))"
proof (induction as arbitrary: g gs)
  case (Cons ai as)
  then obtain g' gs' where gs: "gs = g' # gs'" "encoded_action S sha ai g g'" "encoded_run S sha g' as gs'"
    by (auto split: list.splits)
  from schedule_step_counts [OF encoded_schedule_step [OF gs(2)]] Cons.IH [OF gs(3)] show ?case by simp
qed simp

section \<open>Models decode to runs\<close>

text \<open>A model that assigns the actions of the steps.\<close>

definition assigns :: "(sym_var \<Rightarrow> int option) \<Rightarrow> nat \<Rightarrow> bool" where
  "assigns m n \<longleftrightarrow> (\<forall>t < n. m (ActionKind t) \<noteq> None \<and> m (ActionMessage t) \<noteq> None)"

lemma assignsD:
  "assigns m n \<Longrightarrow> t < n \<Longrightarrow> m (ActionKind t) = Some (completed m (ActionKind t)) \<and>
     m (ActionMessage t) = Some (completed m (ActionMessage t))"
  by (auto simp: assigns_def completed_def)

definition step_variables :: "nat \<Rightarrow> nat \<Rightarrow> (sym_var \<times> sym_var) list" where
  "step_variables t n = zip (map ActionKind [t..<n]) (map ActionMessage [t..<n])"

lemma step_variables_Cons: "t < n \<Longrightarrow> step_variables t n = (ActionKind t, ActionMessage t) # step_variables (Suc t) n"
  by (simp add: step_variables_def upt_conv_Cons)

lemma step_variables_Nil [simp]: "n \<le> t \<Longrightarrow> step_variables t n = []"
  by (simp add: step_variables_def)

lemma decode_noops:
  assumes "assigns m n" "\<forall>t < n. satisfies (completed m) (action_shape S t)"
    and "0 < t" "completed m (ActionKind (t - 1)) = 0" "t \<le> n"
  shows "decode_actions S m True (step_variables t n) = Inr []"
  using assms(3-5)
proof (induction "n - t" arbitrary: t)
  case (Suc k)
  then have t: "t < n" by simp
  then have "completed m (ActionKind t) = 0 \<and> completed m (ActionMessage t) = - 1"
    using assms(2) Suc.prems by (auto simp: action_shape_iff)
  with Suc.hyps(1) [of "Suc t"] Suc.hyps(2) assignsD [OF assms(1) t] t show ?case
    by (simp add: step_variables_Cons)
qed simp

lemma decode_runs:
  assumes "assigns m n" "\<forall>t < n. satisfies (completed m) (action_shape S t)"
    and "\<forall>t < n. satisfies (completed m) (transition_constraints S fx t)"
    and "symbolic_ok S sha fx g" "guards_at S (completed m) t g" "t \<le> n"
  shows "\<exists>as gs. decode_actions S m False (step_variables t n) = Inr as \<and> encoded_run S sha g as gs"
  using assms(4-6)
proof (induction "n - t" arbitrary: t g)
  case 0
  then have "decode_actions S m False (step_variables t n) = Inr [] \<and> encoded_run S sha g [] []" by simp
  then show ?case by blast
next
  case (Suc k)
  then have t: "t < n" by simp
  note A = assignsD [OF assms(1) t]
  consider "completed m (ActionKind t) = 0" "completed m (ActionMessage t) = - 1"
    | a i where "completed m (ActionKind t) = kind_of a" "completed m (ActionMessage t) = int i" "i < length (candidates S)"
    using assms(2) [rule_format, OF t] unfolding action_shape_iff by blast
  then show ?case
  proof cases
    case 1
    with decode_noops [OF assms(1,2), of "Suc t"] t A show ?thesis by (simp add: step_variables_Cons)
  next
    case 2
    from transition_sound [OF Suc.prems(1,2) _ 2] assms(3) t
    obtain g' where g': "encoded_action S sha (a, i) g g'" "guards_at S (completed m) (Suc t) g'" by auto
    have "k = n - Suc t" "Suc t \<le> n" using Suc.hyps(2) t by linarith+
    from Suc.hyps(1) [OF this(1) encoded_symbolic_ok [OF Suc.prems(1) g'(1)] g'(2) this(2)]
    obtain as gs where as: "decode_actions S m False (step_variables (Suc t) n) = Inr as" "encoded_run S sha g' as gs"
      by blast
    have "decode_actions S m False (step_variables t n) = Inr ((a, i) # as)"
      using as(1) A 2 t by (simp add: step_variables_Cons)
    moreover have "encoded_run S sha g ((a, i) # as) (g' # gs)" using g'(1) as(2) by simp
    ultimately show ?thesis by blast
  qed
qed

section \<open>The initial constraints\<close>

lemma pin_values_iff: "satisfies m (pin_values v w xs) \<longleftrightarrow> array_is m (slots v w) xs"
  by (auto simp: pin_values_def satisfies_map array_is_slots padded_def)

lemma settled_clocks:
  assumes "settled sha g"
  shows "clock_or_zero (fx_state g) (chain_domain (source (fx_state g))) = int (length (committed g))"
    and "clock_or_zero (fx_state g) (chain_domain (destination (fx_state g))) = int (length (received g))"
  using fixture_ok_clocks [OF settled_ok [OF assms]] by (simp_all add: clock_or_zero_def)

lemma initial_constraints_iff:
  assumes "symbolic_ok S sha fx fx"
  shows "satisfies m (initial_constraints S fx n) \<longleftrightarrow> state_at S m 0 fx \<and> (\<forall>t \<le> n. satisfies m (count_bounds fx t))"
  using settled_clocks [OF symbolic_okD(2) [OF assms]]
  by (auto simp: initial_constraints_def Let_def pin_values_iff state_at_def guards_at_def satisfies_concat_map less_Suc_eq_le)

lemma count_bounds_hold:
  assumes "symbolic_ok S sha fx g" "state_at S m t g"
  shows "satisfies m (count_bounds fx t)"
proof -
  have "counters_ok (bounds g) (fx_state g)" by (rule settled_channel(3) [OF symbolic_okD(2) [OF assms(1)]])
  moreover have "bounds g = bounds fx" "history_bounded g" using assms(1) by (simp_all add: symbolic_ok_def same_frame_def)
  ultimately show ?thesis
    using assms(2) by (simp add: count_bounds_def counters_ok_def history_bounded_def state_at_def guards_at_def)
qed

section \<open>The model of a run\<close>

fun run_model :: "symbolic_explorer \<Rightarrow> (action \<times> nat) list \<Rightarrow> fixture list \<Rightarrow> sym_var \<Rightarrow> int" where
  "run_model S as hs (ActionKind t) = (if t < length as then kind_of (fst (as ! t)) else 0)"
| "run_model S as hs (ActionMessage t) = (if t < length as then int (snd (as ! t)) else - 1)"
| "run_model S as hs (PendingCount t) = int (length (in_flight (hs ! min t (length as))))"
| "run_model S as hs (CommittedCount t) = int (length (committed (hs ! min t (length as))))"
| "run_model S as hs (DeliveredCount t) = int (length (received (hs ! min t (length as))))"
| "run_model S as hs (TxCount t) = int (transaction_count (fx_state (hs ! min t (length as))))"
| "run_model S as hs (ChannelCount t) = int (channel_transition_count (fx_state (hs ! min t (length as))))"
| "run_model S as hs (SourceClock t) = int (length (committed (hs ! min t (length as))))"
| "run_model S as hs (DestinationClock t) = int (length (received (hs ! min t (length as))))"
| "run_model S as hs (PendingSlot t i) = padded (indices S (in_flight (hs ! min t (length as)))) i"
| "run_model S as hs (CommittedSlot t i) = padded (indices S (committed (hs ! min t (length as)))) i"
| "run_model S as hs (DeliveredSlot t i) = padded (indices S (received (hs ! min t (length as)))) i"

lemma run_model_state: "state_at S (run_model S as hs) t (hs ! min t (length as))"
  by (simp add: state_at_def guards_at_def array_is_slots)

lemma run_model_satisfies:
  assumes ok: "symbolic_ok S sha fx fx" and run: "encoded_run S sha fx as gs" and n: "n = steps_left fx"
  shows "satisfies (run_model S as (fx # gs)) (encode_assertions S fx n)"
proof -
  let ?m = "run_model S as (fx # gs)" and ?at = "\<lambda>t. (fx # gs) ! min t (length as)"
  have len: "length gs = length as" by (rule encoded_run_length [OF run])
  have at_ok: "symbolic_ok S sha fx (?at t)" for t
  proof -
    have "?at t \<in> set (fx # gs)" using len by (intro nth_mem) simp
    with ok encoded_run_ok [OF run ok] show ?thesis by auto
  qed
  have "satisfies ?m (action_shape S t)" for t
  proof (cases "t < length as")
    case True
    have "snd (as ! t) < length (candidates S)"
      using encoded_run_nth [OF run True] by (simp add: encoded_action_def)
    with True show ?thesis by (auto simp: action_shape_iff)
  qed (simp add: action_shape_iff)
  moreover have "satisfies ?m (transition_constraints S fx t)" for t
  proof (cases "t < length as")
    case True
    obtain a i where ai: "as ! t = (a, i)" by (cases "as ! t")
    have at: "?at t = (fx # gs) ! t" "?at (t + 1) = (fx # gs) ! Suc t" using True by (simp_all add: min_def)
    have "encoded_action S sha (a, i) (?at t) (?at (t + 1))"
      using encoded_run_nth [OF run True] unfolding at ai .
    from transition_complete [OF at_ok run_model_state run_model_state this] True ai show ?thesis by simp
  next
    case False
    then have at: "?at (t + 1) = ?at t" by (simp add: min_def)
    have "state_at S ?m (t + 1) (?at t)" using run_model_state [of S as "fx # gs" "t + 1"] unfolding at .
    from transition_idle [OF at_ok run_model_state this] False show ?thesis by simp
  qed
  moreover have "state_at S ?m 0 fx" using run_model_state [of S as "fx # gs" 0] by simp
  moreover have "satisfies ?m (count_bounds fx t)" for t
    by (rule count_bounds_hold [OF at_ok run_model_state])
  ultimately show ?thesis
    using initial_constraints_iff [OF ok] by (simp add: encode_assertions_def satisfies_concat_map)
qed

lemma decode_run_model:
  assumes run: "encoded_run S sha fx as gs" and len: "length as \<le> n"
  shows "decode_actions S (\<lambda>v. Some (run_model S as (fx # gs) v)) False (step_variables 0 n) = Inr as"
proof -
  let ?m = "\<lambda>v. Some (run_model S as (fx # gs) v)"
  have noops: "decode_actions S ?m saw (step_variables t n) = Inr []" if "length as \<le> t" for t saw
    using that
  proof (induction "n - t" arbitrary: t saw)
    case (Suc k)
    then have "t < n" by simp
    with Suc.hyps(1) [of "Suc t" True] Suc.hyps(2) Suc.prems show ?case by (simp add: step_variables_Cons)
  qed simp
  have "decode_actions S ?m False (step_variables t n) = Inr (drop t as)" if "t \<le> length as" for t
    using that
  proof (induction "length as - t" arbitrary: t)
    case 0
    then show ?case using noops [of t False] by simp
  next
    case (Suc k)
    then have t: "t < length as" "t < n" using len by simp_all
    obtain a i where ai: "as ! t = (a, i)" by (cases "as ! t")
    have "i < length (candidates S)" using encoded_run_nth [OF run t(1)] by (simp add: ai encoded_action_def)
    moreover have "drop t as = (a, i) # drop (Suc t) as" using t(1) ai by (metis Cons_nth_drop_Suc)
    ultimately show ?case
      using Suc.hyps(1) [of "Suc t"] Suc.hyps(2) t ai
      by (simp add: step_variables_Cons)
  qed
  from this [of 0] show ?thesis by simp
qed

section \<open>Exactness\<close>

lemma models_decode:
  assumes "symbolic_ok S sha fx fx" "satisfies (completed m) (encode_assertions S fx n)" "assigns m n"
  shows "\<exists>as gs. decode_actions S m False (step_variables 0 n) = Inr as \<and> encoded_run S sha fx as gs"
proof (rule decode_runs [OF assms(3)])
  show "guards_at S (completed m) 0 fx"
    using assms(2) initial_constraints_iff [OF assms(1)] by (simp add: encode_assertions_def state_at_def)
qed (use assms in \<open>simp_all add: encode_assertions_def satisfies_concat_map\<close>)

lemma model_bounds:
  assumes "satisfies m (encode_assertions S fx n)" "t < n"
  shows "0 \<le> m (ActionKind t) \<and> m (ActionKind t) \<le> 3 \<and> - 1 \<le> m (ActionMessage t) \<and>
    m (ActionMessage t) \<le> int (length (candidates S))"
proof -
  have "satisfies m (action_shape S t)" using assms by (auto simp: encode_assertions_def satisfies_concat_map)
  then show ?thesis by (simp add: action_shape_def Let_def)
qed

text \<open>The models of the encoding are the runs of the fixture.\<close>

lemma encoding_exact:
  assumes ok: "symbolic_ok S sha fx fx" and n: "n = steps_left fx"
  shows "(\<exists>total. satisfies total (encode_assertions S fx n) \<and>
      decode_actions S (\<lambda>v. Some (total v)) False (step_variables 0 n) = Inr as) \<longleftrightarrow> (\<exists>gs. encoded_run S sha fx as gs)"
proof
  assume "\<exists>total. satisfies total (encode_assertions S fx n) \<and>
      decode_actions S (\<lambda>v. Some (total v)) False (step_variables 0 n) = Inr as"
  then obtain total where t: "satisfies total (encode_assertions S fx n)"
    "decode_actions S (\<lambda>v. Some (total v)) False (step_variables 0 n) = Inr as" by blast
  have "completed (\<lambda>v. Some (total v)) = total" by (simp add: completed_def fun_eq_iff)
  then show "\<exists>gs. encoded_run S sha fx as gs"
    using models_decode [OF ok, of "\<lambda>v. Some (total v)" n] t by (auto simp: assigns_def)
next
  assume "\<exists>gs. encoded_run S sha fx as gs"
  then obtain gs where run: "encoded_run S sha fx as gs" ..
  have "length as \<le> n" using encoded_run_steps [OF run] n by (simp add: steps_left_def)
  from run_model_satisfies [OF ok run n] decode_run_model [OF run this]
  show "\<exists>total. satisfies total (encode_assertions S fx n) \<and>
      decode_actions S (\<lambda>v. Some (total v)) False (step_variables 0 n) = Inr as" by blast
qed

section \<open>All schedules\<close>

text \<open>
  The encoding removes the first queue entry with the selected identity. That is every delivery of
  the fixture when no two entries share an identity, or when only the head may be delivered.
\<close>

definition unambiguous :: "transition_profile \<Rightarrow> bool" where
  "unambiguous p \<longleftrightarrow> \<not> allow_duplicate_enqueue p \<or> \<not> allow_reordering p"

lemma first_index_distinct:
  assumes "distinct (ids ms)" "p < length ms"
  shows "first_index (same_identity (ms ! p)) ms = Some p"
  using assms by (auto simp: first_index_Some same_identity_def ids_def distinct_conv_nth)

lemma schedule_encoded:
  assumes ok: "symbolic_ok S sha fx g" and un: "unambiguous (profile g)"
    and step: "schedule_step (as_explorer S) sha g g'"
  shows "\<exists>ai. encoded_action S sha ai g g'"
  using step
proof (cases rule: schedule_step.cases)
  case (enqueue m)
  then obtain i where "i < length (candidates S)" "m = candidates S ! i"
    by (auto simp: as_explorer_def in_set_conv_nth)
  with enqueue show ?thesis by (blast intro: encoded_action_intros)
next
  case (deliver i m)
  then obtain k where k: "i = int k" "k < length (in_flight g)" "allow_reordering (profile g) \<or> k = 0"
    by (auto elim: deliver_InrE)
  then have "known_identity S (in_flight g ! k)" using symbolic_okD(4) [OF ok] by simp
  then obtain c where c: "c < length (candidates S)" "message_identity (candidates S ! c) = message_identity (in_flight g ! k)"
    by (rule index_of_range)
  have "first_index (same_identity (in_flight g ! k)) (in_flight g) = Some k"
  proof (cases "allow_duplicate_enqueue (profile g)")
    case True
    then have "k = 0" using un k(3) by (simp add: unambiguous_def)
    with k(2) show ?thesis by (simp add: first_index_Some same_identity_def)
  next
    case False
    then have "distinct (ids (committed g))" "mset (ids (committed g)) = mset (ids (in_flight g)) + mset (ids (received g))"
      using settled_channel(1) [OF symbolic_okD(2) [OF ok]] by (simp_all add: channel_ok_def)
    then have "distinct (ids (in_flight g) @ ids (received g))"
      by (metis mset_append mset_eq_imp_distinct_iff)
    with k(2) show ?thesis by (simp add: first_index_distinct)
  qed
  with same_identity_eq [OF c(2)] have "first_index (same_identity (candidates S ! c)) (in_flight g) = Some k" by simp
  with deliver c(1) k(1) show ?thesis by (blast intro: encoded_action_intros)
next
  case (reorg m)
  then have ne: "committed g \<noteq> []" by (auto elim: reorg_latest_histories)
  then have "known_identity S (List.last (committed g))" using symbolic_okD(4) [OF ok] by simp
  then obtain c where "c < length (candidates S)" "message_identity (candidates S ! c) = message_identity (List.last (committed g))"
    by (rule index_of_range)
  with reorg show ?thesis by (metis encoded_action_intros(3))
qed

lemma encoded_run_append:
  "encoded_run S sha g as gs \<Longrightarrow> encoded_action S sha ai (List.last (g # gs)) g' \<Longrightarrow> encoded_run S sha g (as @ [ai]) (gs @ [g'])"
  by (induction as arbitrary: g gs) (auto split: list.splits if_splits)

lemma schedules_encoded:
  assumes "(schedule_step (as_explorer S) sha)\<^sup>*\<^sup>* fx g" "symbolic_ok S sha fx fx" "unambiguous (profile fx)"
  shows "\<exists>as gs. encoded_run S sha fx as gs \<and> List.last (fx # gs) = g \<and> symbolic_ok S sha fx g"
  using assms
proof (induction rule: rtranclp_induct)
  case base
  then have "encoded_run S sha fx [] [] \<and> List.last [fx] = fx" by simp
  with base show ?case by blast
next
  case (step g g')
  then obtain as gs where r: "encoded_run S sha fx as gs" "List.last (fx # gs) = g" "symbolic_ok S sha fx g" by blast
  then have "unambiguous (profile g)" using step.prems(2) by (simp add: symbolic_ok_def same_frame_def)
  from schedule_encoded [OF r(3) this step.hyps(2)] obtain ai where "encoded_action S sha ai g g'" ..
  then have "encoded_run S sha fx (as @ [ai]) (gs @ [g'])" using encoded_run_append [OF r(1)] r(2) by simp
  with schedule_step_symbolic_ok [OF r(3) step.hyps(2)] show ?case by (metis last_ConsR last_snoc snoc_eq_iff_butlast)
qed

section \<open>Fixtures that the encoding accepts\<close>

lemma reachable_history_bounded:
  "reachable sha fx0 fx \<Longrightarrow> history_bounded fx0 \<and> history_bounded (reset_fixture fx0) \<Longrightarrow>
   history_bounded fx \<and> initial_state fx = initial_state fx0"
proof (induction rule: reachable.induct)
  case (step g g')
  have "initial_state g' = initial_state fx0" using step fixture_step_frame [OF step.hyps(2)] by simp
  moreover from step.hyps(2) have "history_bounded g'"
  proof (cases rule: fixture_step.cases)
    case (enqueue m)
    from enqueue_histories [OF enqueue] step show ?thesis by (simp add: history_bounded_def histories_def)
  next
    case (deliver i m)
    then obtain k where "i = int k" by (auto elim: deliver_InrE)
    with deliver_histories [of sha k g m g'] deliver step show ?thesis by (simp add: history_bounded_def histories_def)
  next
    case (reorg i m)
    with step show ?thesis
      by (auto elim!: reorg_InrE simp: history_bounded_def record_action_def reorg_effect_def Let_def)
  next
    case (observe k v)
    with step show ?thesis by (auto elim!: observe_InrE simp: history_bounded_def)
  qed
  ultimately show ?case by blast
qed (auto simp: reset_fixture_def history_bounded_def restore_def split: if_splits)

lemma encode_symbolic_ok:
  assumes "encode S sha fx = Inr enc" "valid_explorer S" "settled sha fx" "history_bounded fx"
  shows "symbolic_ok S sha fx fx" "enc_steps enc = steps_left fx"
    "assertions enc = encode_assertions S fx (steps_left fx)"
    "zip (kinds enc) (selections enc) = step_variables 0 (steps_left fx)"
proof -
  from assms(1) have v: "validate_initial S fx = Inr ()" and
    e: "enc = \<lparr>assertions = encode_assertions S fx (steps_left fx), kinds = map ActionKind [0..<steps_left fx],
       selections = map ActionMessage [0..<steps_left fx], enc_steps = steps_left fx,
       encoding_hash = sha (encoding_value S fx (steps_left fx))\<rparr>"
    by (auto simp: encode_def result_simps Let_def)
  from v assms(2-4) show "symbolic_ok S sha fx fx"
    by (auto simp: symbolic_ok_def validate_initial_def Let_def same_frame_def split: if_splits)
  from e show "enc_steps enc = steps_left fx" "assertions enc = encode_assertions S fx (steps_left fx)"
    "zip (kinds enc) (selections enc) = step_variables 0 (steps_left fx)" by (simp_all add: step_variables_def)
qed

end
