(* ===== verification/Solver_Control.thy ===== *)
theory Solver_Control
  imports Prelude Complex_Main
begin

text \<open>
  The cancellation bridge of the solver backends (\<^verbatim>\<open>backends/solver_control.py\<close>). The clock, the
  cancellation callback and the solver read and change an outside world \<open>'w\<close>; the solver is given
  its assertions (of type \<open>'f\<close>) and timeout, and answers (\<open>'a\<close>) or raises.
\<close>

section \<open>The outside world\<close>

datatype native_error = SolverException string | OtherException string

text \<open>
  \<open>worker_polls\<close> is how often the polling loop of \<^verbatim>\<open>check_solver\<close> finds the worker thread alive;
  \<open>solver_run\<close> is told whether the solver was interrupted.
\<close>

record ('w, 'f, 'a) solver_world =
  monotonic :: "'w \<Rightarrow> rat \<times> 'w"
  cancel_callback :: "('w \<Rightarrow> (string + bool) \<times> 'w) option"
  worker_polls :: "'w \<Rightarrow> nat \<times> 'w"
  solver_run :: "'f list \<Rightarrow> int \<Rightarrow> bool \<Rightarrow> 'w \<Rightarrow> (native_error + 'a) \<times> 'w"
  solver_version :: string

record 'a solver_check =
  check_result :: 'a
  interrupted :: bool
  callback_error :: "string option"

text \<open>The polling loop: interrupted, and the callback's exception.\<close>

fun poll_loop :: "('w \<Rightarrow> (string + bool) \<times> 'w) \<Rightarrow> nat \<Rightarrow> 'w \<Rightarrow> (bool \<times> string option) \<times> 'w" where
  "poll_loop c 0 w = ((False, None), w)"
| "poll_loop c (Suc n) w = (case c w of
       (Inl e, w1) \<Rightarrow> ((False, Some e), w1)
     | (Inr b, w1) \<Rightarrow> if b then ((True, None), w1) else poll_loop c n w1)"

definition check_solver ::
    "('w, 'f, 'a) solver_world \<Rightarrow> 'f list \<Rightarrow> int \<Rightarrow> 'w \<Rightarrow> (native_error + 'a solver_check) \<times> 'w" where
  "check_solver W fs timeout w = (case cancel_callback W of
       None \<Rightarrow> (case solver_run W fs timeout False w of
           (Inl e, w1) \<Rightarrow> (Inl e, w1)
         | (Inr a, w1) \<Rightarrow> (Inr \<lparr>check_result = a, interrupted = False, callback_error = None\<rparr>, w1))
     | Some c \<Rightarrow>
         (let (n, w1) = worker_polls W w; ((stopped, failed), w2) = poll_loop c n w1 in
          case solver_run W fs timeout (stopped \<or> failed \<noteq> None) w2 of
            (Inl e, w3) \<Rightarrow> (Inl e, w3)
          | (Inr a, w3) \<Rightarrow> (Inr \<lparr>check_result = a, interrupted = stopped, callback_error = failed\<rparr>, w3)))"

section \<open>What the callers share\<close>

text \<open>The milliseconds given to \<^verbatim>\<open>solver.set\<close>.\<close>

definition solver_timeout :: "rat \<Rightarrow> int" where
  "solver_timeout remaining = max 1 \<lfloor>remaining * 1000\<rfloor>"

text \<open>\<^verbatim>\<open>"timeout" in solver_reason.lower()\<close>, for the ASCII reasons of the solver.\<close>

definition lower_char :: "char \<Rightarrow> char" where
  "lower_char c = (let n = of_char c :: nat in if 65 \<le> n \<and> n \<le> 90 then char_of (n + 32) else c)"

fun substring_of :: "string \<Rightarrow> string \<Rightarrow> bool" where
  "substring_of p [] = (p = [])"
| "substring_of p (c # cs) = (take (length p) (c # cs) = p \<or> substring_of p cs)"

end
