(* ===== verification/Symbolic_Search.thy ===== *)
theory Symbolic_Search
  imports Symbolic_Runs Solver_Control
begin

text \<open>
  The symbolic search (\<^verbatim>\<open>SymbolicPairedExplorer.search\<close>), over the outside world of
  \<open>Solver_Control\<close>.
\<close>

section \<open>Control\<close>

record symbolic_control =
  deadlines :: search_control
  max_models :: int

definition SymbolicSearchControl :: "symbolic_control \<Rightarrow> paired_error + symbolic_control" where
  "SymbolicSearchControl c =
     bind_result (SearchControl (deadlines c)) (\<lambda>_.
       if max_models c \<le> 0 then raise ''max_models must be positive'' else Inr c)"

definition default_control :: "symbolic_explorer \<Rightarrow> symbolic_control" where
  "default_control S = \<lparr>deadlines = \<lparr>query_timeout_seconds = 30, campaign_deadline_seconds = 3600,
     campaign_elapsed_seconds = 0\<rparr>, max_models = int (model_limit S)\<rparr>"

type_synonym 'w world = "('w, form, sym_var solver_answer) solver_world"

section \<open>Results\<close>

record symbolic_result =
  sy_status :: search_status
  sy_states :: nat
  sy_paths :: nat
  sy_schedules :: nat
  sy_complete :: bool
  sy_reason :: "string option"
  sy_witness :: "action_record list"
  sy_elapsed :: rat
  sy_cache_hits :: nat
  sy_solver :: string
  sy_hash :: string

definition symbolic_result_dict :: "(rat \<Rightarrow> json) \<Rightarrow> symbolic_result \<Rightarrow> json" where
  "symbolic_result_dict number r = JObj
     [(''status'', JStr (search_status_value (sy_status r))), (''explored_states'', JInt (int (sy_states r))),
      (''explored_paths'', JInt (int (sy_paths r))), (''schedule_count'', JInt (int (sy_schedules r))),
      (''complete'', JBool (sy_complete r)), (''reason'', option_json (sy_reason r)),
      (''witness_length'', JInt (int (length (sy_witness r)))), (''elapsed_seconds'', number (sy_elapsed r)),
      (''cache_hits'', JInt (int (sy_cache_hits r))), (''solver'', JStr (sy_solver r)),
      (''encoding_hash'', JStr (sy_hash r))]"

text \<open>What a search carries besides the loop's counters.\<close>

record 'w search_setup =
  explorer_of :: symbolic_explorer
  digest :: "json \<Rightarrow> string"
  violated :: predicate
  world_of :: "'w world"
  limits :: symbolic_control
  started_at :: rat
  start_fixture :: fixture

definition symbolic_outcome ::
    "'w search_setup \<Rightarrow> search_status \<Rightarrow> bool \<Rightarrow> string option \<Rightarrow> string \<Rightarrow> nat \<Rightarrow> action_record list
       \<Rightarrow> 'w \<Rightarrow> symbolic_result \<times> 'w" where
  "symbolic_outcome X status cmplt reason hash explored trail w =
     (let (t, w1) = monotonic (world_of X) w in
      (\<lparr>sy_status = status, sy_states = explored, sy_paths = explored, sy_schedules = explored,
        sy_complete = cmplt, sy_reason = reason, sy_witness = trail, sy_elapsed = max 0 (t - started_at X),
        sy_cache_hits = 0, sy_solver = ''z3-'' @ solver_version (world_of X), sy_hash = hash\<rparr>, w1))"

datatype symbolic_error = FixtureRaised paired_error | NativeRaised string | KeyRaised string

section \<open>The loop\<close>

text \<open>The checks before a query: a verdict, or the elapsed time.\<close>

definition query_guard ::
    "'w search_setup \<Rightarrow> nat \<Rightarrow> 'w \<Rightarrow> ((search_status \<times> string) + rat) \<times> 'w" where
  "query_guard X explored w =
     (let (c, w1) = (case cancel_callback (world_of X) of None \<Rightarrow> (Inr False, w) | Some cb \<Rightarrow> cb w) in
      case c of
        Inl e \<Rightarrow> (Inl (SearchCrash, ''cancellation_error:'' @ e), w1)
      | Inr stop \<Rightarrow>
          if stop then (Inl (SearchUnknown, ''cancelled''), w1)
          else
            let (t, w2) = monotonic (world_of X) w1; elapsed = t - started_at X;
                d = deadlines (limits X); budget = remaining_seconds d in
            if budget \<le> 0 then (Inl (SearchTimeout, ''campaign_deadline''), w2)
            else if budget \<le> elapsed then (Inl (SearchTimeout, expiration_reason d elapsed), w2)
            else if max_models (limits X) \<le> int explored then (Inl (SearchUnknown, ''model_limit_exhausted''), w2)
            else (Inr elapsed, w2))"

definition unknown_verdict :: "'w search_setup \<Rightarrow> string \<Rightarrow> 'w \<Rightarrow> (search_status \<times> string) \<times> 'w" where
  "unknown_verdict X given w =
     (let (t, w1) = monotonic (world_of X) w; elapsed = t - started_at X;
          reason = (if given = '''' then ''solver_unknown'' else given);
          d = deadlines (limits X) in
      (if remaining_seconds d \<le> elapsed \<or> substring_of ''timeout'' (map lower_char reason)
       then (SearchTimeout, expiration_reason d elapsed) else (SearchUnknown, reason), w1))"

datatype scan = Clear | Raised string | Violates nat

text \<open>The predicate on the replayed states, from the given index on.\<close>

fun scan_states :: "predicate \<Rightarrow> nat \<Rightarrow> fixture list \<Rightarrow> scan" where
  "scan_states violation i [] = Clear"
| "scan_states violation i (g # gs) = (case violation (fx_state g) of
       Inl e \<Rightarrow> Raised e
     | Inr bad \<Rightarrow> if bad then Violates i else scan_states violation (Suc i) gs)"

text \<open>One model: a verdict, an exception, or the formula that blocks it.\<close>

definition use_model ::
    "'w search_setup \<Rightarrow> encoding \<Rightarrow> (sym_var \<Rightarrow> int option)
       \<Rightarrow> symbolic_error + (nat \<times> search_status \<times> bool \<times> string \<times> action_record list) option" where
  "use_model X enc m = (let S = explorer_of X; sha = digest X; fx = start_fixture X in
     case decode S enc m of
       Inl e \<Rightarrow> Inr (Some (0, SearchCrash, False, ''model_decode_error:'' @ e, []))
     | Inr as \<Rightarrow> (case clone fx of
         Inl e \<Rightarrow> Inl (FixtureRaised e)
       | Inr copy \<Rightarrow> (case symbolic_replay S sha as copy of
           Inl (ReplayKey k) \<Rightarrow> Inl (KeyRaised k)
         | Inl ReplayMismatch \<Rightarrow> Inr (Some (1, SearchCrash, False, ''symbolic_native_transition_mismatch'', []))
         | Inr gs \<Rightarrow> (case scan_states (violated X) 0 gs of
             Clear \<Rightarrow> Inr None
           | Raised e \<Rightarrow> Inr (Some (1, SearchCrash, False, ''predicate_error:'' @ e, []))
           | Violates i \<Rightarrow> (case prefix_witness S sha as i copy of
               Inl (ReplayKey k) \<Rightarrow> Inl (KeyRaised k)
             | Inl ReplayMismatch \<Rightarrow> Inl (NativeRaised ''replay'')
             | Inr trail \<Rightarrow> Inr (Some (1, SearchSat, True, ''symbolic_model_replayed'', trail)))))))"

text \<open>One iteration: it returns, or it blocks the model and continues.\<close>

definition loop_step ::
    "'w search_setup \<Rightarrow> encoding \<Rightarrow> form list \<Rightarrow> nat \<Rightarrow> 'w
       \<Rightarrow> ((symbolic_error + symbolic_result) \<times> 'w) + (form \<times> 'w)" where
  "loop_step X enc stack explored w =
     (let stop = (\<lambda>n status cmplt reason trail w1.
        Inl (apfst Inr (symbolic_outcome X status cmplt (Some reason) (encoding_hash enc) (explored + n) trail w1))) in
      case query_guard X explored w of
        (Inl (status, reason), w1) \<Rightarrow> stop 0 status False reason [] w1
      | (Inr elapsed, w1) \<Rightarrow>
         (case check_solver (world_of X) stack
             (solver_timeout (remaining_seconds (deadlines (limits X)) - elapsed)) w1 of
            (Inl (SolverException e), w2) \<Rightarrow> stop 0 SearchCrash False (''solver_error:'' @ e) [] w2
          | (Inl (OtherException e), w2) \<Rightarrow> Inl (Inl (NativeRaised e), w2)
          | (Inr r, w2) \<Rightarrow>
              (case callback_error r of
                 Some e \<Rightarrow> stop 0 SearchCrash False (''cancellation_error:'' @ e) [] w2
               | None \<Rightarrow>
                   if interrupted r then stop 0 SearchUnknown False ''cancelled'' [] w2
                   else (case check_result r of
                       Unsat \<Rightarrow> stop 0 SearchBoundedUnsat True ''finite_symbolic_schedule_space_exhausted'' [] w2
                     | UnknownAnswer given \<Rightarrow>
                         (let ((status, reason), w3) = unknown_verdict X given w2 in stop 0 status False reason [] w3)
                     | Sat m \<Rightarrow> (case use_model X enc m of
                           Inl e \<Rightarrow> Inl (Inl e, w2)
                         | Inr (Some (n, status, cmplt, reason, trail)) \<Rightarrow> stop n status cmplt reason trail w2
                         | Inr None \<Rightarrow> Inr (block_model enc m, w2))))))"

lemma query_guard_limit:
  "query_guard X explored w = (Inr elapsed, w') \<Longrightarrow> int explored < max_models (limits X)"
  by (auto simp: query_guard_def Let_def split: prod.splits option.splits sum.splits if_splits)

lemma loop_step_limit: "loop_step X enc stack explored w = Inr (f, w') \<Longrightarrow> int explored < max_models (limits X)"
  by (cases "query_guard X explored w"; cases "fst (query_guard X explored w)")
    (auto simp: loop_step_def Let_def dest: query_guard_limit split: prod.splits)

function symbolic_loop ::
    "'w search_setup \<Rightarrow> encoding \<Rightarrow> form list \<Rightarrow> nat \<Rightarrow> 'w \<Rightarrow> (symbolic_error + symbolic_result) \<times> 'w" where
  "symbolic_loop X enc stack explored w = (case loop_step X enc stack explored w of
       Inl finished \<Rightarrow> finished
     | Inr (block, w') \<Rightarrow> symbolic_loop X enc (stack @ [block]) (Suc explored) w')"
  by pat_completeness auto
termination
  by (relation "measure (\<lambda>(X, enc, stack, explored, w). nat (max_models (limits X)) - explored)")
    (auto dest!: loop_step_limit)

declare symbolic_loop.simps [simp del]

text \<open>\<open>search\<close>, from its start time on: \<open>X\<close> holds the time already read.\<close>

definition symbolic_search ::
    "'w search_setup \<Rightarrow> 'w \<Rightarrow> (symbolic_error + symbolic_result) \<times> 'w" where
  "symbolic_search X0 w0 =
     (let (t, w) = monotonic (world_of X0) w0; X = X0\<lparr>started_at := t\<rparr>; fx = start_fixture X in
      case encode (explorer_of X) (digest X) fx of
        Inl (PairedValue msg) \<Rightarrow> apfst Inr (symbolic_outcome X SearchUnsupported False (Some msg) '''' 0 [] w)
      | Inl e \<Rightarrow> (Inl (FixtureRaised e), w)
      | Inr enc \<Rightarrow> (case clone fx of
          Inl e \<Rightarrow> (Inl (FixtureRaised e), w)
        | Inr copy \<Rightarrow> (case violated X (fx_state copy) of
            Inl e \<Rightarrow> apfst Inr (symbolic_outcome X SearchCrash False (Some (''predicate_error:'' @ e)) (encoding_hash enc) 0 [] w)
          | Inr bad \<Rightarrow>
              if bad then apfst Inr (symbolic_outcome X SearchSat True (Some ''predicate_satisfied_at_initial_state'')
                (encoding_hash enc) 0 [] w)
              else symbolic_loop X enc (assertions enc) 0 w)))"

end
