(* ===== verification/Symbolic_Verdicts.thy ===== *)
theory Symbolic_Verdicts
  imports Symbolic_Search
begin

text \<open>
  What the verdicts of the symbolic search mean, for any solver whose answers are sound. The
  invariant of the loop: every run of the fixture is still a model of the assertions, or its states
  were cleared by the predicate.
\<close>

definition sound_solver :: "'w world \<Rightarrow> bool" where
  "sound_solver W \<longleftrightarrow> (\<forall>fs timeout stopped w a w'. solver_run W fs timeout stopped w = (Inr a, w') \<longrightarrow> answer_sound fs a)"

lemma sound_solverD: "sound_solver W \<Longrightarrow> solver_run W fs timeout stopped w = (Inr a, w') \<Longrightarrow> answer_sound fs a"
  unfolding sound_solver_def by blast

lemma check_solver_sound:
  "sound_solver W \<Longrightarrow> check_solver W fs timeout w = (Inr r, w') \<Longrightarrow> answer_sound fs (check_result r)"
  by (auto simp: check_solver_def split: option.splits prod.splits sum.splits intro: sound_solverD)

section \<open>Replay of a decoded model\<close>

lemma encoded_run_symbolic_replay:
  "encoded_run S sha fx as gs \<Longrightarrow> symbolic_replay S sha as fx = Inr (fx # gs)"
  by (simp add: symbolic_replay_def encoded_run_replay)

lemma encoded_run_take:
  "encoded_run S sha g as gs \<Longrightarrow> encoded_run S sha g (take n as) (take n gs)"
proof (induction as arbitrary: g gs n)
  case (Cons ai as)
  then show ?case by (cases n) (auto split: list.splits)
qed simp

lemma prefix_witness_run:
  assumes "encoded_run S sha fx as gs" "i \<le> length as"
  shows "prefix_witness S sha as i fx = Inr (action_log (fx_state ((fx # gs) ! i)))"
proof -
  have "List.last (fx # take i gs) = (fx # gs) ! i"
    using assms encoded_run_length [OF assms(1)] by (cases i) (auto simp: last_conv_nth)
  with encoded_run_symbolic_replay [OF encoded_run_take [OF assms(1)]] show ?thesis
    by (simp add: prefix_witness_def)
qed

text \<open>A run is determined by its actions.\<close>

lemma encoded_run_unique: "encoded_run S sha g as gs \<Longrightarrow> encoded_run S sha g as gs' \<Longrightarrow> gs = gs'"
  by (metis encoded_run_replay sum.inject(2))

lemma scan_states_Clear: "scan_states v i gs = Clear \<longleftrightarrow> (\<forall>g \<in> set gs. v (fx_state g) = Inr False)"
  by (induction gs arbitrary: i) (auto split: sum.splits)

lemma scan_states_Violates:
  "scan_states v i gs = Violates j \<Longrightarrow> i \<le> j \<and> j < i + length gs \<and> v (fx_state (gs ! (j - i))) = Inr True"
proof (induction gs arbitrary: i)
  case (Cons g gs)
  then show ?case
    by (cases "v (fx_state g)") (fastforce simp: nth_Cons' split: if_splits)+
qed simp

section \<open>The invariant\<close>

definition run_cleared :: "predicate \<Rightarrow> fixture \<Rightarrow> fixture list \<Rightarrow> bool" where
  "run_cleared v fx gs \<longleftrightarrow> (\<forall>g \<in> set (fx # gs). v (fx_state g) = Inr False)"

definition stack_ok :: "'w search_setup \<Rightarrow> form list \<Rightarrow> bool" where
  "stack_ok X stack = (let S = explorer_of X; sha = digest X; fx = start_fixture X in
     (\<exists>blocks. stack = encode_assertions S fx (steps_left fx) @ blocks) \<and>
     (\<forall>as gs. encoded_run S sha fx as gs \<longrightarrow>
        satisfies (run_model S as (fx # gs)) stack \<or> run_cleared (violated X) fx gs))"

text \<open>A search over an accepted explorer and a settled fixture.\<close>

definition search_ready :: "'w search_setup \<Rightarrow> encoding \<Rightarrow> bool" where
  "search_ready X enc \<longleftrightarrow> encode (explorer_of X) (digest X) (start_fixture X) = Inr enc \<and>
     symbolic_ok (explorer_of X) (digest X) (start_fixture X) (start_fixture X) \<and> sound_solver (world_of X)"

lemma search_readyD:
  assumes "search_ready X enc"
  shows "assertions enc = encode_assertions (explorer_of X) (start_fixture X) (steps_left (start_fixture X))"
    and "zip (kinds enc) (selections enc) = step_variables 0 (steps_left (start_fixture X))"
    and "clone (start_fixture X) = Inr (start_fixture X)"
proof -
  have "encode (explorer_of X) (digest X) (start_fixture X) = Inr enc" "valid_explorer (explorer_of X)"
    "settled (digest X) (start_fixture X)" "history_bounded (start_fixture X)"
    using assms by (simp_all add: search_ready_def symbolic_ok_def)
  from encode_symbolic_ok [OF this] clone_settled [OF this(3)]
  show "assertions enc = encode_assertions (explorer_of X) (start_fixture X) (steps_left (start_fixture X))"
    "zip (kinds enc) (selections enc) = step_variables 0 (steps_left (start_fixture X))"
    "clone (start_fixture X) = Inr (start_fixture X)" by simp_all
qed

lemma stack_ok_start:
  assumes "search_ready X enc"
  shows "stack_ok X (assertions enc)"
  using run_model_satisfies [OF _ _ refl] assms search_readyD(1) [OF assms]
  by (auto simp: stack_ok_def search_ready_def Let_def)

text \<open>What a satisfiable query gives: a run of the fixture, exactly the decoded actions.\<close>

lemma model_decodes:
  assumes ready: "search_ready X enc" and stack: "stack_ok X stack" and sound: "answer_sound stack (Sat m)"
  shows "\<exists>as gs. decode (explorer_of X) enc m = Inr as \<and>
    encoded_run (explorer_of X) (digest X) (start_fixture X) as gs \<and> assigns m (steps_left (start_fixture X))"
proof -
  let ?S = "explorer_of X" and ?fx = "start_fixture X"
  let ?n = "steps_left ?fx"
  from stack obtain blocks where b: "stack = encode_assertions ?S ?fx ?n @ blocks"
    by (auto simp: stack_ok_def Let_def)
  have enc: "satisfies total (encode_assertions ?S ?fx ?n)" if "satisfies total stack" for total
    using that by (simp add: b)
  have assigned: "assigns m ?n"
    unfolding assigns_def
  proof (intro allI impI)
    fix t assume t: "t < ?n"
    obtain i where "m (ActionKind t) = Some i"
      by (rule sat_determined [OF sound, of 0 "ActionKind t" 3]) (use model_bounds [OF enc t] in auto)
    moreover obtain j where "m (ActionMessage t) = Some j"
      by (rule sat_determined [OF sound, of "- 1" "ActionMessage t" "int (length (candidates ?S))"])
        (use model_bounds [OF enc t] in auto)
    ultimately show "m (ActionKind t) \<noteq> None \<and> m (ActionMessage t) \<noteq> None" by simp
  qed
  have "satisfies (completed m) (encode_assertions ?S ?fx ?n)"
    by (rule enc [OF completed_satisfies [OF sound]])
  with models_decode [OF _ this assigned, of "digest X"] ready assigned search_readyD(2) [OF ready] show ?thesis
    by (auto simp: search_ready_def decode_def)
qed

text \<open>The blocking formula excludes only models with the same actions.\<close>

lemma set_step_variables: "set (step_variables 0 n) = (\<lambda>t. (ActionKind t, ActionMessage t)) ` {..<n}"
  by (auto simp: step_variables_def zip_map_map zip_same_conv_map)

lemma block_model_iff:
  "zip (kinds enc) (selections enc) = step_variables 0 n \<Longrightarrow>
   holds f (block_model enc m) \<longleftrightarrow>
     (\<exists>t < n. f (ActionKind t) \<noteq> completed m (ActionKind t) \<or> f (ActionMessage t) \<noteq> completed m (ActionMessage t))"
  by (auto simp: block_model_def list_ex_iff set_step_variables)

lemma decode_cong:
  assumes "\<forall>t < n. m (ActionKind t) = m' (ActionKind t) \<and> m (ActionMessage t) = m' (ActionMessage t)"
  shows "decode_actions S m saw (step_variables t n) = decode_actions S m' saw (step_variables t n)"
proof (induction "n - t" arbitrary: t saw)
  case (Suc k)
  then have t: "t < n" by simp
  have "k = n - Suc t" using Suc.hyps(2) by linarith
  note IH = Suc.hyps(1) [OF this]
  have "m (ActionKind t) = m' (ActionKind t)" "m (ActionMessage t) = m' (ActionMessage t)" using assms t by blast+
  note eqs = this
  show ?case unfolding step_variables_Cons [OF t] decode_actions.simps IH eqs ..
qed simp

lemma blocked_run:
  assumes ready: "search_ready X enc" and m: "decode (explorer_of X) enc m = Inr as"
    "assigns m (steps_left (start_fixture X))"
    and run: "encoded_run (explorer_of X) (digest X) (start_fixture X) as' gs'"
    and blocked: "\<not> holds (run_model (explorer_of X) as' (start_fixture X # gs')) (block_model enc m)"
  shows "as' = as"
proof -
  let ?n = "steps_left (start_fixture X)" and ?S = "explorer_of X"
  let ?total = "run_model ?S as' (start_fixture X # gs')"
  note Z = search_readyD(2) [OF ready]
  have "\<forall>t < ?n. m (ActionKind t) = Some (?total (ActionKind t)) \<and> m (ActionMessage t) = Some (?total (ActionMessage t))"
    using blocked block_model_iff [OF Z] assignsD [OF m(2)] by metis
  then have "decode_actions ?S m False (step_variables 0 ?n) =
      decode_actions ?S (\<lambda>v. Some (?total v)) False (step_variables 0 ?n)"
    by (intro decode_cong) simp
  moreover have "length as' \<le> ?n"
    using encoded_run_steps [OF run] by (simp add: steps_left_def)
  ultimately show ?thesis
    using decode_run_model [OF run] m(1) Z by (simp add: decode_def)
qed

lemma stack_ok_block:
  assumes ready: "search_ready X enc" and stack: "stack_ok X stack" and m: "decode (explorer_of X) enc m = Inr as"
    "assigns m (steps_left (start_fixture X))"
    and run: "encoded_run (explorer_of X) (digest X) (start_fixture X) as gs"
    and clear: "run_cleared (violated X) (start_fixture X) gs"
  shows "stack_ok X (stack @ [block_model enc m])"
proof -
  have "satisfies (run_model (explorer_of X) as' (start_fixture X # gs')) (stack @ [block_model enc m]) \<or>
      run_cleared (violated X) (start_fixture X) gs'"
    if r: "encoded_run (explorer_of X) (digest X) (start_fixture X) as' gs'" for as' gs'
  proof (cases "holds (run_model (explorer_of X) as' (start_fixture X # gs')) (block_model enc m)")
    case True
    with stack r show ?thesis by (auto simp: stack_ok_def Let_def)
  next
    case False
    from blocked_run [OF ready m r False] have "gs' = gs" using encoded_run_unique run r by blast
    with clear show ?thesis by simp
  qed
  with stack show ?thesis by (auto simp: stack_ok_def Let_def)
qed

section \<open>The verdicts\<close>

abbreviation scheduled :: "'w search_setup \<Rightarrow> fixture \<Rightarrow> bool" where
  "scheduled X \<equiv> (schedule_step (as_explorer (explorer_of X)) (digest X))\<^sup>*\<^sup>* (start_fixture X)"

definition violation_found :: "'w search_setup \<Rightarrow> action_record list \<Rightarrow> bool" where
  "violation_found X trail \<longleftrightarrow>
     (\<exists>g. scheduled X g \<and> violated X (fx_state g) = Inr True \<and> trail = action_log (fx_state g))"

definition predicate_raised :: "'w search_setup \<Rightarrow> string \<Rightarrow> bool" where
  "predicate_raised X reason \<longleftrightarrow>
     (\<exists>g e. scheduled X g \<and> violated X (fx_state g) = Inl e \<and> reason = ''predicate_error:'' @ e)"

lemma scan_states_Raised: "scan_states v i gs = Raised e \<Longrightarrow> \<exists>g \<in> set gs. v (fx_state g) = Inl e"
  by (induction gs arbitrary: i) (auto split: sum.splits if_splits)

lemma use_model_meaning:
  assumes ready: "search_ready X enc" and stack: "stack_ok X stack" and sound: "answer_sound stack (Sat m)"
  shows "case use_model X enc m of
      Inl e \<Rightarrow> False
    | Inr None \<Rightarrow> stack_ok X (stack @ [block_model enc m])
    | Inr (Some (n, status, cmplt, reason, trail)) \<Rightarrow> n = 1 \<and>
        (status = SearchSat \<and> cmplt \<and> violation_found X trail \<or>
         status = SearchCrash \<and> \<not> cmplt \<and> trail = [] \<and> predicate_raised X reason)"
proof -
  let ?S = "explorer_of X" and ?sha = "digest X" and ?fx = "start_fixture X"
  from model_decodes [OF ready stack sound] obtain as gs where
    m: "decode ?S enc m = Inr as" "assigns m (steps_left ?fx)" and run: "encoded_run ?S ?sha ?fx as gs" by blast
  have reach: "scheduled X g" if "g \<in> set (?fx # gs)" for g
    using that encoded_run_reachable [OF run] by auto
  have use: "use_model X enc m = (case scan_states (violated X) 0 (?fx # gs) of
      Clear \<Rightarrow> Inr None
    | Raised e \<Rightarrow> Inr (Some (1, SearchCrash, False, ''predicate_error:'' @ e, []))
    | Violates i \<Rightarrow> (case prefix_witness ?S ?sha as i ?fx of
        Inl (ReplayKey k) \<Rightarrow> Inl (KeyRaised k)
      | Inl ReplayMismatch \<Rightarrow> Inl (NativeRaised ''replay'')
      | Inr trail \<Rightarrow> Inr (Some (1, SearchSat, True, ''symbolic_model_replayed'', trail))))"
    by (simp add: use_model_def m(1) search_readyD(3) [OF ready] encoded_run_symbolic_replay [OF run])
  show ?thesis
  proof (cases "scan_states (violated X) 0 (?fx # gs)")
    case Clear
    then have "run_cleared (violated X) ?fx gs" unfolding run_cleared_def scan_states_Clear .
    with stack_ok_block [OF ready stack m run] Clear show ?thesis by (simp only: use scan.case sum.case option.case)
  next
    case (Raised e)
    from scan_states_Raised [OF this] reach have "predicate_raised X (''predicate_error:'' @ e)"
      unfolding predicate_raised_def by blast
    with Raised show ?thesis by (simp only: use scan.case sum.case option.case prod.case) simp
  next
    case (Violates i)
    from scan_states_Violates [OF this] have i: "i < length (?fx # gs)" "violated X (fx_state ((?fx # gs) ! i)) = Inr True"
      by simp_all
    then have "i \<le> length as" using encoded_run_length [OF run] by simp
    note trail = prefix_witness_run [OF run this]
    have "(?fx # gs) ! i \<in> set (?fx # gs)" by (rule nth_mem [OF i(1)])
    with reach i(2) have "violation_found X (action_log (fx_state ((?fx # gs) ! i)))"
      unfolding violation_found_def by blast
    with Violates show ?thesis by (simp only: use trail scan.case sum.case option.case prod.case) simp
  qed
qed

definition symbolic_meaning :: "'w search_setup \<Rightarrow> symbolic_result \<Rightarrow> bool" where
  "symbolic_meaning X r \<longleftrightarrow>
     int (sy_states r) \<le> max_models (limits X) \<and>
     (case sy_status r of
        SearchSat \<Rightarrow> sy_complete r \<and> violation_found X (sy_witness r)
      | SearchBoundedUnsat \<Rightarrow> sy_complete r \<and> sy_witness r = [] \<and>
          (\<forall>as gs. encoded_run (explorer_of X) (digest X) (start_fixture X) as gs \<longrightarrow>
             run_cleared (violated X) (start_fixture X) gs)
      | SearchCrash \<Rightarrow> \<not> sy_complete r \<and> sy_witness r = [] \<and>
          (\<exists>reason. sy_reason r = Some reason \<and> (predicate_raised X reason \<or>
             (\<exists>e. reason = ''solver_error:'' @ e) \<or> (\<exists>e. reason = ''cancellation_error:'' @ e)))
      | _ \<Rightarrow> \<not> sy_complete r \<and> sy_witness r = [])"

lemma query_guard_verdict:
  "query_guard X explored w = (Inl (status, reason), w') \<Longrightarrow>
   status = SearchUnknown \<or> status = SearchTimeout \<or> status = SearchCrash \<and> (\<exists>e. reason = ''cancellation_error:'' @ e)"
  by (auto simp: query_guard_def Let_def split: prod.splits option.splits sum.splits if_splits)

lemma unknown_verdict_status:
  "unknown_verdict X given w = ((status, reason), w') \<Longrightarrow> status = SearchUnknown \<or> status = SearchTimeout"
  by (auto simp: unknown_verdict_def Let_def split: prod.splits if_splits)

lemma symbolic_outcome_sel:
  assumes "symbolic_outcome X status cmplt reason hash explored trail w = (r, w')"
  shows "sy_status r = status" "sy_complete r = cmplt" "sy_reason r = reason" "sy_witness r = trail"
    "sy_states r = explored" "sy_hash r = hash"
  using assms by (auto simp: symbolic_outcome_def split: prod.splits)

lemma apfst_Inr_eq: "apfst Inr p = (Inr r, w) \<longleftrightarrow> p = (r, w)"
  by (cases p) simp

lemma loop_step_continues:
  assumes ready: "search_ready X enc" and stack: "stack_ok X stack"
    and step: "loop_step X enc stack explored w = Inr (f, w')"
  shows "stack_ok X (stack @ [f])"
proof -
  obtain elapsed w1 where g: "query_guard X explored w = (Inr elapsed, w1)"
    using step by (cases "query_guard X explored w"; cases "fst (query_guard X explored w)")
      (auto simp: loop_step_def Let_def split: prod.splits)
  obtain r w2 where c: "check_solver (world_of X) stack
      (solver_timeout (remaining_seconds (deadlines (limits X)) - elapsed)) w1 = (Inr r, w2)"
    using step by (auto simp: loop_step_def Let_def g split: prod.splits sum.splits native_error.splits)
  obtain m where m: "check_result r = Sat m" "use_model X enc m = Inr None" "f = block_model enc m"
    using step by (auto simp: loop_step_def Let_def g c split: prod.splits sum.splits option.splits
        solver_answer.splits if_splits)
  have "answer_sound stack (Sat m)"
    using check_solver_sound [OF _ c] ready m(1) by (simp add: search_ready_def)
  from use_model_meaning [OF ready stack this] m show ?thesis by simp
qed

lemma loop_step_meaning:
  assumes ready: "search_ready X enc" and stack: "stack_ok X stack" and limit: "int explored \<le> max_models (limits X)"
    and step: "loop_step X enc stack explored w = Inl (Inr r, w')"
  shows "symbolic_meaning X r"
proof (cases "query_guard X explored w")
  case g: (Pair v w1)
  show ?thesis
  proof (cases v)
    case (Inl sr)
    obtain status reason where sr: "sr = (status, reason)" by (cases sr)
    have "symbolic_outcome X status False (Some reason) (encoding_hash enc) explored [] w1 = (r, w')"
      using step by (simp add: loop_step_def Let_def g Inl sr apfst_Inr_eq)
    note R = symbolic_outcome_sel [OF this]
    from query_guard_verdict [OF g [unfolded Inl sr]] limit show ?thesis
      unfolding symbolic_meaning_def R by auto
  next
    case (Inr elapsed)
    let ?check = "check_solver (world_of X) stack
      (solver_timeout (remaining_seconds (deadlines (limits X)) - elapsed)) w1"
    have room: "int explored < max_models (limits X)" by (rule query_guard_limit [OF g [unfolded Inr]])
    show ?thesis
    proof (cases ?check)
      case c: (Pair res w2)
      show ?thesis
      proof (cases res)
        case (Inl e)
        then obtain msg where e: "e = SolverException msg"
          using step by (cases e) (simp_all add: loop_step_def Let_def g Inr c)
        have "symbolic_outcome X SearchCrash False (Some (''solver_error:'' @ msg)) (encoding_hash enc) explored [] w2 = (r, w')"
          using step by (simp add: loop_step_def Let_def g Inr c Inl e apfst_Inr_eq)
        note R = symbolic_outcome_sel [OF this]
        from limit show ?thesis unfolding symbolic_meaning_def R by auto
      next
        case check: (Inr ck)
        note unfolded = loop_step_def Let_def g Inr c check apfst_Inr_eq
        have sound: "answer_sound stack (check_result ck)"
          using check_solver_sound [of "world_of X" stack _ w1 ck w2] c check ready by (simp add: search_ready_def)
        consider (failed) e where "callback_error ck = Some e"
          | (stopped) "callback_error ck = None" "interrupted ck"
          | (answer) "callback_error ck = None" "\<not> interrupted ck" by fastforce
        then show ?thesis
        proof cases
          case failed
          then have "symbolic_outcome X SearchCrash False (Some (''cancellation_error:'' @ e)) (encoding_hash enc) explored [] w2 = (r, w')"
            using step by (simp add: unfolded)
          note R = symbolic_outcome_sel [OF this]
          from limit show ?thesis unfolding symbolic_meaning_def R by auto
        next
          case stopped
          then have "symbolic_outcome X SearchUnknown False (Some ''cancelled'') (encoding_hash enc) explored [] w2 = (r, w')"
            using step by (simp add: unfolded)
          note R = symbolic_outcome_sel [OF this]
          from limit show ?thesis unfolding symbolic_meaning_def R by auto
        next
          case answer
          show ?thesis
          proof (cases "check_result ck")
            case (Sat m)
            have step': "(case use_model X enc m of
                Inl e \<Rightarrow> Inl (Inl e, w2)
              | Inr (Some (n, status, cmplt, reason, trail)) \<Rightarrow>
                  Inl (apfst Inr (symbolic_outcome X status cmplt (Some reason) (encoding_hash enc) (explored + n) trail w2))
              | Inr None \<Rightarrow> Inr (block_model enc m, w2)) = Inl (Inr r, w')"
              using step answer Sat by (simp add: unfolded)
            note M = use_model_meaning [OF ready stack sound [unfolded Sat]]
            then obtain n status cmplt reason trail where u: "use_model X enc m = Inr (Some (n, status, cmplt, reason, trail))"
              using step' by (auto split: sum.splits option.splits)
            from u step' have "symbolic_outcome X status cmplt (Some reason) (encoding_hash enc) (explored + n) trail w2 = (r, w')"
              by (simp add: apfst_Inr_eq)
            note R = symbolic_outcome_sel [OF this]
            have "n = 1 \<and> (status = SearchSat \<and> cmplt \<and> violation_found X trail \<or>
               status = SearchCrash \<and> \<not> cmplt \<and> trail = [] \<and> predicate_raised X reason)"
              using M u by simp
            then show ?thesis unfolding symbolic_meaning_def R using room by auto
          next
            case Unsat
            then have "symbolic_outcome X SearchBoundedUnsat True (Some ''finite_symbolic_schedule_space_exhausted'')
                (encoding_hash enc) explored [] w2 = (r, w')"
              using step answer by (simp add: unfolded)
            note R = symbolic_outcome_sel [OF this]
            from sound Unsat have "\<And>f. \<not> satisfies f stack" by (simp add: answer_sound_def)
            with stack limit show ?thesis unfolding symbolic_meaning_def R
              by (auto simp: stack_ok_def Let_def)
          next
            case (UnknownAnswer given)
            obtain status reason w3 where v: "unknown_verdict X given w2 = ((status, reason), w3)"
              by (metis prod.collapse)
            have "symbolic_outcome X status False (Some reason) (encoding_hash enc) explored [] w3 = (r, w')"
              using step answer UnknownAnswer v by (simp add: unfolded)
            note R = symbolic_outcome_sel [OF this]
            from unknown_verdict_status [OF v] limit show ?thesis unfolding symbolic_meaning_def R by auto
          qed
        qed
      qed
    qed
  qed
qed

lemma symbolic_loop_meaning:
  "symbolic_loop X enc stack explored w = (Inr r, w') \<Longrightarrow> search_ready X enc \<Longrightarrow> stack_ok X stack \<Longrightarrow>
   int explored \<le> max_models (limits X) \<Longrightarrow> symbolic_meaning X r"
proof (induction X enc stack explored w rule: symbolic_loop.induct)
  case (1 X enc stack explored w)
  note loop = symbolic_loop.simps [of X enc stack explored w]
  show ?case
  proof (cases "loop_step X enc stack explored w")
    case (Inl finished)
    with "1.prems" loop_step_meaning show ?thesis by (metis loop sum.case(1))
  next
    case (Inr fw)
    obtain f w1 where fw: "fw = (f, w1)" by (cases fw)
    note step = Inr [unfolded fw]
    have "symbolic_loop X enc (stack @ [f]) (Suc explored) w1 = (Inr r, w')"
      using "1.prems"(1) step by (simp add: loop)
    moreover have "int (Suc explored) \<le> max_models (limits X)" using loop_step_limit [OF step] by simp
    ultimately show ?thesis
      using "1.IH" [OF Inr fw [symmetric]] "1.prems"(2) loop_step_continues [OF "1.prems"(2,3) step] by blast
  qed
qed

section \<open>The whole search\<close>

lemma symbolic_search_meaning:
  assumes run: "symbolic_search X w = (Inr r, w')" and limit: "0 \<le> max_models (limits X)"
    and ok: "valid_explorer (explorer_of X)" "settled (digest X) (start_fixture X)" "history_bounded (start_fixture X)"
      "sound_solver (world_of X)"
  shows "symbolic_meaning X r \<or>
    sy_status r = SearchUnsupported \<and> \<not> sy_complete r \<and> sy_states r = 0 \<and>
      (\<exists>e. encode (explorer_of X) (digest X) (start_fixture X) = Inl e) \<or>
    sy_status r = SearchSat \<and> sy_complete r \<and> sy_witness r = [] \<and> sy_states r = 0 \<and>
      violated X (fx_state (start_fixture X)) = Inr True"
proof -
  obtain t w1 where t: "monotonic (world_of X) w = (t, w1)" by (metis prod.collapse)
  let ?X = "X\<lparr>started_at := t\<rparr>"
  have fields: "explorer_of ?X = explorer_of X" "digest ?X = digest X" "violated ?X = violated X"
    "start_fixture ?X = start_fixture X" "limits ?X = limits X" by simp_all
  have same: "symbolic_meaning ?X r = symbolic_meaning X r" for r
    unfolding symbolic_meaning_def violation_found_def predicate_raised_def fields ..
  note clone = clone_settled [OF ok(2)]
  show ?thesis
  proof (cases "encode (explorer_of X) (digest X) (start_fixture X)")
    case (Inl e)
    then obtain msg where "e = PairedValue msg" using run by (cases e) (simp_all add: symbolic_search_def t Let_def)
    with run Inl have "symbolic_outcome ?X SearchUnsupported False (Some msg) '''' 0 [] w1 = (r, w')"
      by (simp add: symbolic_search_def t Let_def apfst_Inr_eq)
    note R = symbolic_outcome_sel [OF this]
    from Inl show ?thesis using R by simp
  next
    case (Inr enc)
    have ready: "search_ready ?X enc"
      using encode_symbolic_ok(1) [OF Inr ok(1-3)] ok(4) Inr by (simp add: search_ready_def)
    have here: "scheduled X (start_fixture X)" by simp
    show ?thesis
    proof (cases "violated X (fx_state (start_fixture X))")
      case (Inl e)
      with run Inr clone have "symbolic_outcome ?X SearchCrash False (Some (''predicate_error:'' @ e)) (encoding_hash enc) 0 [] w1 = (r, w')"
        by (simp add: symbolic_search_def t Let_def apfst_Inr_eq)
      note R = symbolic_outcome_sel [OF this]
      have "predicate_raised X (''predicate_error:'' @ e)"
        unfolding predicate_raised_def using here Inl by blast
      with limit have "symbolic_meaning X r" unfolding symbolic_meaning_def R by auto
      then show ?thesis ..
    next
      case bad: (Inr bad)
      show ?thesis
      proof (cases bad)
        case True
        with run Inr clone bad have "symbolic_outcome ?X SearchSat True (Some ''predicate_satisfied_at_initial_state'')
            (encoding_hash enc) 0 [] w1 = (r, w')"
          by (simp add: symbolic_search_def t Let_def apfst_Inr_eq)
        note R = symbolic_outcome_sel [OF this]
        from bad True show ?thesis using R by simp
      next
        case False
        with run Inr clone bad have "symbolic_loop ?X enc (assertions enc) 0 w1 = (Inr r, w')"
          by (simp add: symbolic_search_def t Let_def)
        from symbolic_loop_meaning [OF this ready stack_ok_start [OF ready]] limit same show ?thesis by simp
      qed
    qed
  qed
qed

text \<open>No exception of the search's own leaves it: only what the native solver raises.\<close>

lemma loop_step_raises:
  assumes ready: "search_ready X enc" and stack: "stack_ok X stack"
    and step: "loop_step X enc stack explored w = Inl (Inl e, w')"
  shows "\<exists>msg. e = NativeRaised msg"
proof -
  have eq: "apfst Inr p = (Inl e, w') \<longleftrightarrow> False" for p :: "symbolic_result \<times> 'a" by (cases p) simp
  obtain elapsed w1 where g: "query_guard X explored w = (Inr elapsed, w1)"
    using step by (cases "query_guard X explored w"; cases "fst (query_guard X explored w)")
      (auto simp: loop_step_def Let_def eq split: prod.splits)
  obtain res w2 where c: "check_solver (world_of X) stack
      (solver_timeout (remaining_seconds (deadlines (limits X)) - elapsed)) w1 = (res, w2)" by (metis prod.collapse)
  show ?thesis
  proof (cases res)
    case (Inl ne)
    with step show ?thesis by (cases ne) (auto simp: loop_step_def Let_def g c eq)
  next
    case (Inr ck)
    obtain m where m: "check_result ck = Sat m" "use_model X enc m = Inl e"
      using step by (auto simp: loop_step_def Let_def g c Inr eq split: prod.splits sum.splits option.splits
          solver_answer.splits if_splits)
    have "answer_sound stack (Sat m)"
      using check_solver_sound [of "world_of X" stack _ w1 ck w2] c Inr ready m(1) by (simp add: search_ready_def)
    from use_model_meaning [OF ready stack this] m(2) show ?thesis by simp
  qed
qed

lemma symbolic_loop_raises:
  "symbolic_loop X enc stack explored w = (Inl e, w') \<Longrightarrow> search_ready X enc \<Longrightarrow> stack_ok X stack \<Longrightarrow>
   \<exists>msg. e = NativeRaised msg"
proof (induction X enc stack explored w rule: symbolic_loop.induct)
  case (1 X enc stack explored w)
  note loop = symbolic_loop.simps [of X enc stack explored w]
  show ?case
  proof (cases "loop_step X enc stack explored w")
    case (Inl finished)
    with "1.prems" loop_step_raises show ?thesis by (metis loop sum.case(1))
  next
    case (Inr fw)
    obtain f w1 where fw: "fw = (f, w1)" by (cases fw)
    note step = Inr [unfolded fw]
    have "symbolic_loop X enc (stack @ [f]) (Suc explored) w1 = (Inl e, w')"
      using "1.prems"(1) step by (simp add: loop)
    then show ?thesis
      using "1.IH" [OF Inr fw [symmetric]] "1.prems"(2) loop_step_continues [OF "1.prems"(2,3) step] by blast
  qed
qed

text \<open>A run that ends in a violating state contradicts BOUNDED_UNSAT, when the encoding sees every schedule.\<close>

lemma unsat_covers_schedules:
  assumes "symbolic_meaning X r" "sy_status r = SearchBoundedUnsat"
    and "symbolic_ok (explorer_of X) (digest X) (start_fixture X) (start_fixture X)"
    and "unambiguous (profile (start_fixture X))" "scheduled X g"
  shows "violated X (fx_state g) = Inr False"
proof -
  from schedules_encoded [OF assms(5,3,4)] obtain as gs where r: "encoded_run (explorer_of X) (digest X) (start_fixture X) as gs"
    "List.last (start_fixture X # gs) = g" by blast
  have "List.last (start_fixture X # gs) \<in> set (start_fixture X # gs)" by (rule last_in_set) simp
  with assms(1,2) r show ?thesis by (auto simp: symbolic_meaning_def run_cleared_def)
qed

end
