(* ===== verification/Symbolic_Decisive.thy ===== *)
theory Symbolic_Decisive
  imports Symbolic_Verdicts
begin

text \<open>
  The search ends with an answer when the solver always answers: every model it is given is a new
  run of the fixture, and there are finitely many.
\<close>

section \<open>Decoding is injective\<close>

lemma action_of_kind_Some: "action_of_kind k = Some a \<Longrightarrow> k = kind_of a"
  by (auto simp: action_of_kind.simps split: if_splits)

lemma decode_after_noop: "decode_actions S m True vs = Inr as \<Longrightarrow> as = [] \<and> (\<forall>(kv, sv) \<in> set vs. m kv = Some 0 \<and> m sv = Some (- 1))"
  by (induction vs arbitrary: as) (auto split: option.splits if_splits)

lemma decode_step:
  assumes "decode_actions S m False ((kv, sv) # vs) = Inr as"
  shows "(as = [] \<and> m kv = Some 0 \<and> m sv = Some (- 1) \<and> decode_actions S m True vs = Inr []) \<or>
    (\<exists>a i as'. as = (a, i) # as' \<and> m kv = Some (kind_of a) \<and> m sv = Some (int i) \<and> decode_actions S m False vs = Inr as')"
proof -
  obtain k sel where ks: "m kv = Some k" "m sv = Some sel"
    using assms by (auto split: option.splits)
  show ?thesis
  proof (cases "k = 0")
    case True
    with assms ks show ?thesis by (auto split: if_splits dest: decode_after_noop)
  next
    case False
    then obtain a as' where a: "action_of_kind k = Some a" "0 \<le> sel" "as = (a, nat sel) # as'"
      "decode_actions S m False vs = Inr as'"
      using assms ks by (auto simp: result_simps split: option.splits if_splits)
    with ks action_of_kind_Some [OF a(1)] show ?thesis by auto
  qed
qed

lemma decode_injective:
  "decode_actions S m False vs = Inr as \<Longrightarrow> decode_actions S m' False vs = Inr as \<Longrightarrow>
   \<forall>(kv, sv) \<in> set vs. m kv = m' kv \<and> m sv = m' sv"
proof (induction vs arbitrary: as)
  case (Cons v vs)
  obtain kv sv where v: "v = (kv, sv)" by (cases v)
  from decode_step [OF Cons.prems(1) [unfolded v]] decode_step [OF Cons.prems(2) [unfolded v]]
  show ?case
  proof (elim disjE exE conjE)
    assume "decode_actions S m True vs = Inr []" "decode_actions S m' True vs = Inr []"
      and h: "m kv = Some 0" "m sv = Some (- 1)" "m' kv = Some 0" "m' sv = Some (- 1)"
    from decode_after_noop [OF this(1)] decode_after_noop [OF this(2)] have "\<forall>(kv, sv) \<in> set vs. m kv = m' kv \<and> m sv = m' sv"
      by fastforce
    with h v show ?thesis by simp
  next
    fix a i as1 a' i' as2
    assume "as = (a, i) # as1" "as = (a', i') # as2" "m kv = Some (kind_of a)" "m sv = Some (int i)"
      "decode_actions S m False vs = Inr as1" "m' kv = Some (kind_of a')" "m' sv = Some (int i')"
      "decode_actions S m' False vs = Inr as2"
    with Cons.IH [of as1] v show ?thesis by simp
  qed simp_all
qed simp

section \<open>Progress\<close>

definition all_runs :: "'w search_setup \<Rightarrow> (action \<times> nat) list set" where
  "all_runs X = {as. \<exists>gs. encoded_run (explorer_of X) (digest X) (start_fixture X) as gs}"

lemma encoded_run_indices: "encoded_run S sha g as gs \<Longrightarrow> ai \<in> set as \<Longrightarrow> snd ai < length (candidates S)"
  by (induction as arbitrary: g gs) (auto simp: encoded_action_def split: list.splits)

lemma finite_all_runs: "finite (all_runs X)"
proof (rule finite_subset)
  let ?A = "{ENQUEUE, DELIVER, REORG} \<times> {..<length (candidates (explorer_of X))}"
  show "all_runs X \<subseteq> {as. set as \<subseteq> ?A \<and> length as \<le> steps_left (start_fixture X)}"
  proof
    fix as assume "as \<in> all_runs X"
    then obtain gs where run: "encoded_run (explorer_of X) (digest X) (start_fixture X) as gs" by (auto simp: all_runs_def)
    have "(a, i) \<in> ?A" if "(a, i) \<in> set as" for a i
      using encoded_run_indices [OF run that] by (cases a) simp_all
    moreover have "length as \<le> steps_left (start_fixture X)" using encoded_run_steps [OF run] by (simp add: steps_left_def)
    ultimately show "as \<in> {as. set as \<subseteq> ?A \<and> length as \<le> steps_left (start_fixture X)}" by auto
  qed
  show "finite {as. set as \<subseteq> ?A \<and> length as \<le> steps_left (start_fixture X)}"
    by (rule finite_lists_length_le) simp
qed

text \<open>As many runs are excluded by the assertions as models were explored.\<close>

definition excluded_runs :: "'w search_setup \<Rightarrow> encoding \<Rightarrow> form list \<Rightarrow> nat \<Rightarrow> bool" where
  "excluded_runs X enc stack explored \<longleftrightarrow> (\<exists>B \<subseteq> all_runs X. card B = explored \<and>
     (\<forall>m. satisfies (completed m) stack \<and> assigns m (steps_left (start_fixture X)) \<longrightarrow>
        decode (explorer_of X) enc m \<notin> Inr ` B))"

lemma excluded_runs_start: "excluded_runs X enc stack 0"
  unfolding excluded_runs_def by (rule exI [of _ "{}"]) simp

lemma excluded_runs_bound: "excluded_runs X enc stack explored \<Longrightarrow> explored \<le> card (all_runs X)"
  unfolding excluded_runs_def using card_mono [OF finite_all_runs] by blast

lemma excluded_runs_step:
  assumes ready: "search_ready X enc" and stack: "stack_ok X stack" and sound: "answer_sound stack (Sat m)"
    and B: "excluded_runs X enc stack explored"
  shows "excluded_runs X enc (stack @ [block_model enc m]) (Suc explored)"
proof -
  let ?n = "steps_left (start_fixture X)"
  from model_decodes [OF ready stack sound] obtain as gs where
    m: "decode (explorer_of X) enc m = Inr as" "assigns m ?n"
    and run: "encoded_run (explorer_of X) (digest X) (start_fixture X) as gs" by blast
  from B obtain B where B: "B \<subseteq> all_runs X" "card B = explored"
    "\<And>m. satisfies (completed m) stack \<Longrightarrow> assigns m ?n \<Longrightarrow> decode (explorer_of X) enc m \<notin> Inr ` B"
    unfolding excluded_runs_def by blast
  have new: "as \<notin> B" using B(3) [OF completed_satisfies [OF sound] m(2)] m(1) by auto
  have other: "decode (explorer_of X) enc m' \<noteq> Inr as"
    if s: "satisfies (completed m') (stack @ [block_model enc m])" "assigns m' ?n" for m'
  proof
    assume "decode (explorer_of X) enc m' = Inr as"
    with m(1) have "\<forall>(kv, sv) \<in> set (step_variables 0 ?n). m kv = m' kv \<and> m sv = m' sv"
      unfolding decode_def search_readyD(2) [OF ready] by (intro decode_injective) simp_all
    then have "\<forall>t < ?n. completed m' (ActionKind t) = completed m (ActionKind t) \<and>
        completed m' (ActionMessage t) = completed m (ActionMessage t)"
      by (auto simp: set_step_variables completed_def)
    moreover have "holds (completed m') (block_model enc m)" using s(1) by simp
    ultimately show False using block_model_iff [OF search_readyD(2) [OF ready]] by metis
  qed
  have "card (insert as B) = Suc explored"
    using new B(1,2) finite_subset [OF B(1) finite_all_runs] by simp
  moreover have "insert as B \<subseteq> all_runs X" using B(1) run by (auto simp: all_runs_def)
  moreover have "decode (explorer_of X) enc m' \<notin> Inr ` insert as B"
    if "satisfies (completed m') (stack @ [block_model enc m])" "assigns m' ?n" for m'
    using other [OF that] B(3) [of m'] that by auto
  ultimately show ?thesis unfolding excluded_runs_def by blast
qed

section \<open>A world that lets the search finish\<close>

text \<open>
  No callback, a clock that stays within the budget, a solver that answers sat or unsat on the
  assertions of the encoding with any blocking formulas.
\<close>

definition decisive_world :: "'w world \<Rightarrow> search_control \<Rightarrow> encoding \<Rightarrow> bool" where
  "decisive_world W d enc \<longleftrightarrow> cancel_callback W = None \<and> 0 < remaining_seconds d \<and>
     (\<forall>w w'. fst (monotonic W w) - fst (monotonic W w') < remaining_seconds d) \<and>
     (\<forall>ms timeout w. \<exists>a w'. solver_run W (assertions enc @ map (block_model enc) ms) timeout False w = (Inr a, w') \<and>
        (\<forall>reason. a \<noteq> UnknownAnswer reason))"

lemma decisive_guard:
  assumes "decisive_world (world_of X) (deadlines (limits X)) enc" "int explored < max_models (limits X)"
    and "\<exists>w0. started_at X = fst (monotonic (world_of X) w0)"
  shows "\<exists>elapsed w'. query_guard X explored w = (Inr elapsed, w')"
proof -
  obtain t w1 where t: "monotonic (world_of X) w = (t, w1)" by (metis prod.collapse)
  have "t - started_at X < remaining_seconds (deadlines (limits X))"
    using assms(1,3) t unfolding decisive_world_def by (metis fst_conv)
  with assms(1,2) t show ?thesis by (auto simp: query_guard_def Let_def decisive_world_def)
qed

lemma decisive_step:
  assumes ready: "search_ready X enc" and stack: "stack_ok X stack"
    and world: "decisive_world (world_of X) (deadlines (limits X)) enc" "int explored < max_models (limits X)"
      "\<exists>w0. started_at X = fst (monotonic (world_of X) w0)" "stack = assertions enc @ map (block_model enc) ms"
    and total: "\<And>s. \<exists>b. violated X s = Inr b"
  shows "(\<exists>r w'. loop_step X enc stack explored w = Inl (Inr r, w') \<and>
      (sy_status r = SearchSat \<or> sy_status r = SearchBoundedUnsat)) \<or>
    (\<exists>m w'. answer_sound stack (Sat m) \<and> loop_step X enc stack explored w = Inr (block_model enc m, w'))"
proof -
  from decisive_guard [OF world(1-3)] obtain elapsed w1 where g: "query_guard X explored w = (Inr elapsed, w1)" by blast
  let ?timeout = "solver_timeout (remaining_seconds (deadlines (limits X)) - elapsed)"
  obtain a w2 where a: "solver_run (world_of X) stack ?timeout False w1 = (Inr a, w2)" "\<And>reason. a \<noteq> UnknownAnswer reason"
    using world(1) unfolding decisive_world_def world(4) by blast
  have c: "check_solver (world_of X) stack ?timeout w1 =
      (Inr \<lparr>check_result = a, interrupted = False, callback_error = None\<rparr>, w2)"
    using a(1) world(1) by (simp add: check_solver_def decisive_world_def)
  have sound: "answer_sound stack a" using a(1) ready by (auto simp: search_ready_def intro: sound_solverD)
  have stop: "\<exists>r w'. (Inl (apfst Inr (symbolic_outcome X status cmplt reason hash n trail w2)) ::
      ((symbolic_error + symbolic_result) \<times> 'a) + (form \<times> 'a)) = Inl (Inr r, w') \<and> sy_status r = status"
    for status cmplt reason hash n trail
    by (cases "symbolic_outcome X status cmplt reason hash n trail w2") (auto dest: symbolic_outcome_sel)
  show ?thesis
  proof (cases a)
    case Unsat
    then have "loop_step X enc stack explored w = Inl (apfst Inr (symbolic_outcome X SearchBoundedUnsat True
        (Some ''finite_symbolic_schedule_space_exhausted'') (encoding_hash enc) explored [] w2))"
      by (simp add: loop_step_def Let_def g c)
    with stop [of SearchBoundedUnsat] show ?thesis by metis
  next
    case (Sat m)
    note M = use_model_meaning [OF ready stack sound [unfolded Sat]]
    show ?thesis
    proof (cases "use_model X enc m")
      case (Inl e)
      with M show ?thesis by simp
    next
      case (Inr v)
      show ?thesis
      proof (cases v)
        case None
        with Inr Sat have "loop_step X enc stack explored w = Inr (block_model enc m, w2)"
          by (simp add: loop_step_def Let_def g c)
        with sound Sat show ?thesis by blast
      next
        case (Some q)
        obtain n status cmplt reason trail where q: "q = (n, status, cmplt, reason, trail)" by (cases q)
        have "\<not> predicate_raised X reason" using total unfolding predicate_raised_def by (metis Inl_Inr_False)
        with M Inr Some q have "status = SearchSat" by auto
        moreover have "loop_step X enc stack explored w = Inl (apfst Inr (symbolic_outcome X status cmplt (Some reason)
            (encoding_hash enc) (explored + n) trail w2))"
          using Inr Some q Sat by (simp add: loop_step_def Let_def g c)
        ultimately show ?thesis using stop [of status] by metis
      qed
    qed
  next
    case (UnknownAnswer reason)
    with a(2) show ?thesis by blast
  qed
qed

lemma decisive_loop:
  "search_ready X enc \<Longrightarrow> stack_ok X stack \<Longrightarrow> excluded_runs X enc stack explored \<Longrightarrow>
   decisive_world (world_of X) (deadlines (limits X)) enc \<Longrightarrow> stack = assertions enc @ map (block_model enc) ms \<Longrightarrow> int (card (all_runs X)) < max_models (limits X) \<Longrightarrow>
   \<exists>w0. started_at X = fst (monotonic (world_of X) w0) \<Longrightarrow> (\<And>s. \<exists>b. violated X s = Inr b) \<Longrightarrow>
   \<exists>r w'. symbolic_loop X enc stack explored w = (Inr r, w') \<and> (sy_status r = SearchSat \<or> sy_status r = SearchBoundedUnsat)"
proof (induction X enc stack explored w arbitrary: ms rule: symbolic_loop.induct)
  case (1 X enc stack explored w)
  note loop = symbolic_loop.simps [of X enc stack explored w]
  have room: "int explored < max_models (limits X)" using excluded_runs_bound [OF "1.prems"(3)] "1.prems"(6) by linarith
  from decisive_step [OF "1.prems"(1,2,4) room "1.prems"(7,5,8), of w]
  show ?case
  proof (elim disjE exE conjE)
    fix r w' assume "loop_step X enc stack explored w = Inl (Inr r, w')" "sy_status r = SearchSat"
    then show ?thesis by (simp add: loop)
  next
    fix r w' assume "loop_step X enc stack explored w = Inl (Inr r, w')" "sy_status r = SearchBoundedUnsat"
    then show ?thesis by (simp add: loop)
  next
    fix m w' assume m: "answer_sound stack (Sat m)" and step: "loop_step X enc stack explored w = Inr (block_model enc m, w')"
    have "symbolic_loop X enc stack explored w = symbolic_loop X enc (stack @ [block_model enc m]) (Suc explored) w'"
      using step by (simp add: loop)
    moreover from "1.IH" [OF step refl "1.prems"(1) loop_step_continues [OF "1.prems"(1,2) step]
        excluded_runs_step [OF "1.prems"(1,2) m "1.prems"(3)] "1.prems"(4) _ "1.prems"(6-8), of "ms @ [m]"]
      "1.prems"(5)
    have "\<exists>r w''. symbolic_loop X enc (stack @ [block_model enc m]) (Suc explored) w' = (Inr r, w'') \<and>
      (sy_status r = SearchSat \<or> sy_status r = SearchBoundedUnsat)" by simp
    ultimately show ?thesis by simp
  qed
qed

end
