(* ===== verification/Symbolic_Properties.thy ===== *)
theory Symbolic_Properties
  imports Symbolic_Decisive Paired_Properties
begin

text \<open>
  The properties of the symbolic explorer, with a small search run in full, and two defects of the
  encoding.
\<close>

section \<open>Setting up\<close>

definition setup_for ::
    "symbolic_explorer \<Rightarrow> (json \<Rightarrow> string) \<Rightarrow> predicate \<Rightarrow> 'w world \<Rightarrow> symbolic_control \<Rightarrow> fixture \<Rightarrow> 'w search_setup" where
  "setup_for S sha v W c fx = \<lparr>explorer_of = S, digest = sha, violated = v, world_of = W, limits = c,
     started_at = 0, start_fixture = fx\<rparr>"

lemma reachable_symbolic:
  assumes "PairedFixture src dst b p = Inr fx0" "TransitionBounds b = Inr b" "reachable sha fx0 fx"
  shows "settled sha fx" "history_bounded fx" "profile fx = p"
proof -
  show "settled sha fx" by (rule reachable_settled [OF assms])
  have "history_bounded fx0 \<and> history_bounded (reset_fixture fx0)"
    using assms(1) by (auto simp: PairedFixture_def history_bounded_def reset_fixture_def initial_dual_def
        initial_chain_def split: if_splits)
  from reachable_history_bounded [OF assms(3) this] show "history_bounded fx" by simp
  show "profile fx = p"
    using assms(1) reachable_frame [OF assms(3)] by (auto simp: PairedFixture_def split: if_splits)
qed

text \<open>
  A solver that answers sat with the first of some given assignments that satisfies the assertions,
  and unsat only when an empty disjunction is asserted: sound whatever it is given.
\<close>

definition guessing_solver :: "(sym_var \<Rightarrow> int) list \<Rightarrow> form list \<Rightarrow> sym_var solver_answer" where
  "guessing_solver guesses fs = (case find (\<lambda>m. satisfies m fs) guesses of
       Some m \<Rightarrow> Sat (\<lambda>v. Some (m v))
     | None \<Rightarrow> if Or [] \<in> set fs then Unsat else UnknownAnswer '''')"

definition guessing_world :: "(sym_var \<Rightarrow> int) list \<Rightarrow> unit world" where
  "guessing_world guesses = \<lparr>monotonic = (\<lambda>w. (0, w)), cancel_callback = None, worker_polls = (\<lambda>w. (0, w)),
     solver_run = (\<lambda>fs timeout stopped w. (Inr (guessing_solver guesses fs), w)), solver_version = ''4''\<rparr>"

lemma guessing_sound: "sound_solver (guessing_world guesses)"
proof -
  have "answer_sound fs (guessing_solver guesses fs)" for fs
  proof (cases "find (\<lambda>m. satisfies m fs) guesses")
    case None
    have "\<not> satisfies f fs" if "Or [] \<in> set fs" for f using that by (auto simp: satisfies_set intro!: bexI)
    with None show ?thesis by (simp add: guessing_solver_def answer_sound_def)
  next
    case (Some m)
    then have "satisfies m fs" by (auto simp: find_Some_iff)
    moreover have "f = m" if "\<forall>v i. Some (m v) = Some i \<longrightarrow> f v = i" for f using that by (simp add: fun_eq_iff)
    ultimately show ?thesis using Some by (auto simp: guessing_solver_def answer_sound_def)
  qed
  then show ?thesis by (auto simp: sound_solver_def guessing_world_def)
qed

section \<open>The encoding\<close>

text \<open>
  C5. The encoding is exact. Over a reachable fixture that the search accepts, a list of actions is
  decoded from some model of the assertions exactly when the fixture can perform these actions one
  after the other, each with the message index that the encoding selects.
\<close>

theorem encoding_equals_runs:
  assumes "PairedFixture src dst b p = Inr fx0" "TransitionBounds b = Inr b" "reachable sha fx0 fx"
    and "SymbolicPairedExplorer ms limit = Inr S" "list_all (\<lambda>m. Message m = Inr m) ms"
    and "encode S sha fx = Inr enc"
  shows "(\<exists>f. satisfies f (assertions enc) \<and> decode S enc (\<lambda>v. Some (f v)) = Inr as) \<longleftrightarrow>
    (\<exists>gs. encoded_run S sha fx as gs)"
proof -
  note R = reachable_symbolic [OF assms(1-3)]
  note E = encode_symbolic_ok [OF assms(6) SymbolicPairedExplorer_valid(1) [OF assms(4,5)] R(1,2)]
  from encoding_exact [OF E(1) refl] show ?thesis by (simp add: E(3,4) decode_def)
qed

section \<open>Verdicts\<close>

text \<open>
  C6. What a symbolic verdict means, for a search over a reachable fixture with messages that passed
  their own checks, and any solver whose answers are sound. SAT comes with the
  action log of a schedule at which the predicate holds (or an empty one for the initial state);
  BOUNDED_UNSAT means that the predicate is false after every schedule within the bounds, if
  messages cannot be enqueued twice or cannot be reordered; only these two are complete; a CRASH has
  one of three causes only, that the predicate raised at the state of some schedule, that the solver
  raised or that the cancel callback raised, so no model ever disagrees with the native replay or
  fails to decode; no more models than the limit (which is positive) are used.
\<close>

theorem symbolic_verdicts:
  assumes "PairedFixture src dst b p = Inr fx0" "TransitionBounds b = Inr b" "reachable sha fx0 fx"
    and "SymbolicPairedExplorer ms limit = Inr S" "list_all (\<lambda>m. Message m = Inr m) ms"
    and "sound_solver W" "0 < max_models c"
    and "symbolic_search (setup_for S sha violation W c fx) w = (Inr r, w')"
  shows "(sy_status r = SearchSat \<longrightarrow>
      (\<exists>g. (schedule_step (as_explorer S) sha)\<^sup>*\<^sup>* fx g \<and> violation (fx_state g) = Inr True \<and>
         (sy_witness r = action_log (fx_state g) \<or> g = fx \<and> sy_witness r = []))) \<and>
    (sy_status r = SearchBoundedUnsat \<and> (\<not> allow_duplicate_enqueue p \<or> \<not> allow_reordering p) \<longrightarrow>
      (\<forall>g. (schedule_step (as_explorer S) sha)\<^sup>*\<^sup>* fx g \<longrightarrow> violation (fx_state g) = Inr False)) \<and>
    (sy_complete r \<longleftrightarrow> sy_status r = SearchSat \<or> sy_status r = SearchBoundedUnsat) \<and>
    (sy_status r = SearchCrash \<longrightarrow> sy_reason r \<noteq> Some ''symbolic_native_transition_mismatch'' \<and>
      (\<forall>e. sy_reason r \<noteq> Some (''model_decode_error:'' @ e)) \<and>
      ((\<exists>g e. (schedule_step (as_explorer S) sha)\<^sup>*\<^sup>* fx g \<and> violation (fx_state g) = Inl e \<and>
          sy_reason r = Some (''predicate_error:'' @ e)) \<or>
       (\<exists>e. sy_reason r = Some (''solver_error:'' @ e)) \<or>
       (\<exists>e. sy_reason r = Some (''cancellation_error:'' @ e)))) \<and>
    int (sy_states r) \<le> max_models c"
proof -
  let ?X = "setup_for S sha violation W c fx"
  note R = reachable_symbolic [OF assms(1-3)]
  note S = SymbolicPairedExplorer_valid [OF assms(4,5)]
  have fields: "explorer_of ?X = S" "digest ?X = sha" "violated ?X = violation" "start_fixture ?X = fx"
    "limits ?X = c" "world_of ?X = W" by (simp_all add: setup_for_def)
  from symbolic_search_meaning [OF assms(8)] R(1,2) S(1) assms(6,7) fields
  have M: "symbolic_meaning ?X r \<or> sy_status r = SearchUnsupported \<and> \<not> sy_complete r \<and> sy_states r = 0 \<or>
    sy_status r = SearchSat \<and> sy_complete r \<and> sy_witness r = [] \<and> sy_states r = 0 \<and> violation (fx_state fx) = Inr True"
    by auto
  have unsat: "violation (fx_state g) = Inr False"
    if "symbolic_meaning ?X r" "sy_status r = SearchBoundedUnsat" "unambiguous p"
      "(schedule_step (as_explorer S) sha)\<^sup>*\<^sup>* fx g" for g
  proof -
    have "symbolic_ok S sha fx fx"
    proof (cases "encode S sha fx")
      case (Inl e)
      with assms(8) have "sy_status r = SearchUnsupported"
        by (auto simp: symbolic_search_def Let_def fields apfst_Inr_eq setup_for_def split: prod.splits paired_error.splits
            dest: symbolic_outcome_sel(1))
      with that(2) show ?thesis by simp
    next
      case (Inr enc)
      from encode_symbolic_ok(1) [OF this S(1) R(1,2)] show ?thesis .
    qed
    with unsat_covers_schedules [OF that(1,2)] that(3,4) R(3) fields show ?thesis by simp
  qed
  show ?thesis
  proof (intro conjI)
    show "sy_status r = SearchSat \<longrightarrow> (\<exists>g. (schedule_step (as_explorer S) sha)\<^sup>*\<^sup>* fx g \<and> violation (fx_state g) = Inr True \<and>
         (sy_witness r = action_log (fx_state g) \<or> g = fx \<and> sy_witness r = []))"
      using M fields by (auto simp: symbolic_meaning_def violation_found_def)
    show "sy_status r = SearchBoundedUnsat \<and> (\<not> allow_duplicate_enqueue p \<or> \<not> allow_reordering p) \<longrightarrow>
      (\<forall>g. (schedule_step (as_explorer S) sha)\<^sup>*\<^sup>* fx g \<longrightarrow> violation (fx_state g) = Inr False)"
      using M unsat by (auto simp: unambiguous_def)
    show "sy_complete r \<longleftrightarrow> sy_status r = SearchSat \<or> sy_status r = SearchBoundedUnsat"
      using M by (auto simp: symbolic_meaning_def split: search_status.splits)
    have crash: "(\<exists>g e. (schedule_step (as_explorer S) sha)\<^sup>*\<^sup>* fx g \<and> violation (fx_state g) = Inl e \<and>
          sy_reason r = Some (''predicate_error:'' @ e)) \<or>
       (\<exists>e. sy_reason r = Some (''solver_error:'' @ e)) \<or>
       (\<exists>e. sy_reason r = Some (''cancellation_error:'' @ e))" if "sy_status r = SearchCrash"
      using M that fields by (auto simp: symbolic_meaning_def predicate_raised_def)
    then show "sy_status r = SearchCrash \<longrightarrow> sy_reason r \<noteq> Some ''symbolic_native_transition_mismatch'' \<and>
      (\<forall>e. sy_reason r \<noteq> Some (''model_decode_error:'' @ e)) \<and>
      ((\<exists>g e. (schedule_step (as_explorer S) sha)\<^sup>*\<^sup>* fx g \<and> violation (fx_state g) = Inl e \<and>
          sy_reason r = Some (''predicate_error:'' @ e)) \<or>
       (\<exists>e. sy_reason r = Some (''solver_error:'' @ e)) \<or>
       (\<exists>e. sy_reason r = Some (''cancellation_error:'' @ e)))"
      by (intro impI conjI) auto
    show "int (sy_states r) \<le> max_models c" using M assms(7) fields by (auto simp: symbolic_meaning_def)
  qed
qed

section \<open>A search run in full\<close>

definition tiny_bounds :: transition_bounds where
  "tiny_bounds = \<lparr>max_transactions = 2, max_channel_transitions = 2, max_pending = 1\<rparr>"

definition tiny_fixture :: fixture where
  "tiny_fixture = \<lparr>bounds = tiny_bounds, profile = demo_profile, initial_state = initial_dual ''S'' ''D'',
     fx_state = initial_dual ''S'' ''D''\<rparr>"

lemma tiny_start: "PairedFixture ''S'' ''D'' tiny_bounds demo_profile = Inr tiny_fixture"
  by (simp add: PairedFixture_def tiny_fixture_def)

lemma tiny_bounds_valid: "TransitionBounds tiny_bounds = Inr tiny_bounds"
  by (simp add: TransitionBounds_def tiny_bounds_def)

definition tiny_explorer :: symbolic_explorer where
  "tiny_explorer = \<lparr>candidates = [demo_message], model_limit = 10\<rparr>"

lemma tiny_explorer_made: "SymbolicPairedExplorer [demo_message] 10 = Inr tiny_explorer"
  by (simp add: SymbolicPairedExplorer_def tiny_explorer_def ids_def)

lemma demo_message_valid: "list_all (\<lambda>m. Message m = Inr m) [demo_message]"
  by (simp add: Message_def demo_message_def)

definition tiny_actions :: "(action \<times> nat) list" where
  "tiny_actions = [(ENQUEUE, 0), (DELIVER, 0)]"

definition tiny_states :: "fixture list" where
  "tiny_states = (case replay_actions tiny_explorer weight_digest tiny_actions tiny_fixture of Inl e \<Rightarrow> [] | Inr gs \<Rightarrow> gs)"

definition tiny_world :: "unit world" where
  "tiny_world = guessing_world [run_model tiny_explorer tiny_actions (tiny_fixture # tiny_states)]"

definition tiny_control :: symbolic_control where
  "tiny_control = default_control tiny_explorer"

lemma tiny_encoded: "encoded_run tiny_explorer weight_digest tiny_fixture tiny_actions tiny_states"
  by code_simp

lemma tiny_encode: "\<exists>enc. encode tiny_explorer weight_digest tiny_fixture = Inr enc"
proof -
  have "case encode tiny_explorer weight_digest tiny_fixture of Inl e \<Rightarrow> False | Inr enc \<Rightarrow> True" by code_simp
  then show ?thesis by (auto split: sum.splits)
qed

theorem encoding_equals_runs_witness:
  "\<exists>enc f. encode tiny_explorer weight_digest tiny_fixture = Inr enc \<and> satisfies f (assertions enc) \<and>
     decode tiny_explorer enc (\<lambda>v. Some (f v)) = Inr [(ENQUEUE, 0), (DELIVER, 0)]"
proof -
  obtain enc where enc: "encode tiny_explorer weight_digest tiny_fixture = Inr enc" using tiny_encode ..
  from encoding_equals_runs [OF tiny_start tiny_bounds_valid reachable.start tiny_explorer_made demo_message_valid enc,
      of tiny_actions] tiny_encoded enc
  show ?thesis unfolding tiny_actions_def by blast
qed

lemma tiny_search:
  "case symbolic_search (setup_for tiny_explorer weight_digest some_delivery tiny_world tiny_control tiny_fixture) () of
     (Inr r, w) \<Rightarrow> sy_status r = SearchSat \<and> sy_witness r \<noteq> [] | (Inl e, w) \<Rightarrow> False"
  by code_simp

theorem symbolic_verdicts_witness:
  "\<exists>g. (schedule_step (as_explorer tiny_explorer) weight_digest)\<^sup>*\<^sup>* tiny_fixture g \<and> received g \<noteq> []"
proof -
  obtain r w where r: "symbolic_search (setup_for tiny_explorer weight_digest some_delivery tiny_world tiny_control tiny_fixture) () = (Inr r, w)"
    "sy_status r = SearchSat" using tiny_search by (auto split: prod.splits sum.splits)
  have "sound_solver tiny_world" unfolding tiny_world_def by (rule guessing_sound)
  moreover have "0 < max_models tiny_control" by (simp add: tiny_control_def default_control_def tiny_explorer_def)
  ultimately show ?thesis
    using symbolic_verdicts [OF tiny_start tiny_bounds_valid reachable.start tiny_explorer_made demo_message_valid _ _ r(1)] r(2)
    by (auto simp: some_delivery_def)
qed

section \<open>The two explorers agree\<close>

lemma schedule_step_messages:
  "messages E = candidates S \<Longrightarrow> schedule_step E sha fx fx' \<longleftrightarrow> schedule_step (as_explorer S) sha fx fx'"
  by (auto simp: as_explorer_def elim!: schedule_step.cases intro: schedule_step.intros)

text \<open>
  C7. The symbolic and the explicit explorer do not contradict each other: over the same
  candidates, with a sound solver and fingerprints that tell states apart, one never answers SAT
  where the other answers BOUNDED_UNSAT, provided that messages cannot be enqueued twice or cannot
  be reordered.
\<close>

theorem explorers_agree:
  assumes "PairedFixture src dst b p = Inr fx0" "TransitionBounds b = Inr b" "reachable sha fx0 fx"
    and "SymbolicPairedExplorer ms limit = Inr S" "list_all (\<lambda>m. Message m = Inr m) ms"
    and "sound_solver W" "0 < max_models c" "BoundedPairedExplorer ms limit = Inr E"
    and "symbolic_search (setup_for S sha violation W c fx) w = (Inr r, w')"
    and "search E sha violation env fx = Inr re"
    and "\<not> allow_duplicate_enqueue p \<or> \<not> allow_reordering p"
    and "inj_on (fingerprint sha) {g. (schedule_step E sha)\<^sup>*\<^sup>* fx g}"
  shows "\<not> (sy_status r = SearchSat \<and> sr_status re = SearchBoundedUnsat) \<and>
    \<not> (sy_status r = SearchBoundedUnsat \<and> sr_status re = SearchSat)"
proof -
  have "messages E = ms" using assms(8) by (auto simp: BoundedPairedExplorer_def split: if_splits)
  with SymbolicPairedExplorer_valid(2) [OF assms(4,5)] have "messages E = candidates S" by simp
  then have steps: "schedule_step E sha = schedule_step (as_explorer S) sha"
    using schedule_step_messages by (intro ext) blast
  note reached = reaches_schedule(1) [OF reachable_settled [OF assms(1-3)]]
  have inj: "inj_on (fingerprint sha) {g. reaches (succ_list E sha) fx g}"
    using assms(12) by (simp add: reached)
  from search_meaning [OF reachable_settled [OF assms(1-3)] assms(10)]
  have explicit: "sr_status re = SearchBoundedUnsat \<Longrightarrow> (schedule_step E sha)\<^sup>*\<^sup>* fx g \<Longrightarrow> violation (fx_state g) = Inr False"
    "sr_status re = SearchSat \<Longrightarrow> \<exists>g. (schedule_step E sha)\<^sup>*\<^sup>* fx g \<and> violation (fx_state g) = Inr True" for g
    using inj by (auto simp: result_meaning_def sat_meaning_def reached)
  note R = reachable_symbolic [OF assms(1-3)]
  note S = SymbolicPairedExplorer_valid [OF assms(4,5)]
  let ?X = "setup_for S sha violation W c fx"
  have fields: "explorer_of ?X = S" "digest ?X = sha" "violated ?X = violation" "start_fixture ?X = fx"
    "limits ?X = c" "world_of ?X = W" by (simp_all add: setup_for_def)
  from symbolic_search_meaning [OF assms(9)] R(1,2) S(1) assms(6,7) fields
  have M: "symbolic_meaning ?X r \<or> sy_status r = SearchUnsupported \<or>
    sy_status r = SearchSat \<and> violation (fx_state fx) = Inr True" by auto
  have ok: "symbolic_ok S sha fx fx" if "sy_status r = SearchBoundedUnsat"
  proof (cases "encode S sha fx")
    case (Inl e)
    with assms(9) that show ?thesis
      by (auto simp: symbolic_search_def Let_def fields apfst_Inr_eq setup_for_def split: prod.splits paired_error.splits
          dest: symbolic_outcome_sel(1))
  next
    case (Inr enc)
    from encode_symbolic_ok(1) [OF this S(1) R(1,2)] show ?thesis .
  qed
  have "\<exists>g. (schedule_step E sha)\<^sup>*\<^sup>* fx g \<and> violation (fx_state g) = Inr True" if "sy_status r = SearchSat"
    using M that fields steps by (auto simp: symbolic_meaning_def violation_found_def)
  moreover have "violation (fx_state g) = Inr False"
    if "sy_status r = SearchBoundedUnsat" "(schedule_step E sha)\<^sup>*\<^sup>* fx g" for g
    using unsat_covers_schedules [of ?X r g] M that ok [OF that(1)] assms(11) R(3) fields steps
    by (auto simp: unambiguous_def)
  ultimately show ?thesis using explicit by force
qed

section \<open>Termination with an answer\<close>

text \<open>
  C8. The symbolic search decides. Over a reachable fixture that the encoding accepts (on one that
  it refuses, the search answers UNSUPPORTED), with messages that passed their own checks: when
  there is no cancel callback, a positive budget remains that exceeds the difference of any two
  clock readings, the predicate does not raise at any state, the solver is sound and answers each
  query of the search with sat or unsat without raising, and the fixture has fewer runs than the
  model limit, the search returns SAT or BOUNDED_UNSAT.
\<close>

theorem symbolic_search_decides:
  assumes "PairedFixture src dst b p = Inr fx0" "TransitionBounds b = Inr b" "reachable sha fx0 fx"
    and "SymbolicPairedExplorer ms limit = Inr S" "list_all (\<lambda>m. Message m = Inr m) ms"
    and "encode S sha fx = Inr enc" "sound_solver W" "decisive_world W (deadlines c) enc"
    and "int (card {as. \<exists>gs. encoded_run S sha fx as gs}) < max_models c" "\<And>s. \<exists>v. violation s = Inr v"
  shows "\<exists>r w'. symbolic_search (setup_for S sha violation W c fx) w = (Inr r, w') \<and>
    (sy_status r = SearchSat \<or> sy_status r = SearchBoundedUnsat)"
proof -
  note R = reachable_symbolic [OF assms(1-3)]
  note S = SymbolicPairedExplorer_valid [OF assms(4,5)]
  obtain t w1 where t: "monotonic W w = (t, w1)" by (metis prod.collapse)
  let ?X = "setup_for S sha violation W c fx\<lparr>started_at := t\<rparr>"
  have fields: "explorer_of ?X = S" "digest ?X = sha" "violated ?X = violation" "start_fixture ?X = fx"
    "limits ?X = c" "world_of ?X = W" "started_at ?X = t" by (simp_all add: setup_for_def)
  have ready: "search_ready ?X enc"
    using encode_symbolic_ok(1) [OF assms(6) S(1) R(1,2)] assms(6,7) fields by (simp add: search_ready_def)
  obtain bad where bad: "violation (fx_state fx) = Inr bad" using assms(10) by blast
  have search: "symbolic_search (setup_for S sha violation W c fx) w =
      (if bad then apfst Inr (symbolic_outcome ?X SearchSat True (Some ''predicate_satisfied_at_initial_state'')
         (encoding_hash enc) 0 [] w1) else symbolic_loop ?X enc (assertions enc) 0 w1)"
    using t bad clone_settled [OF R(1)] assms(6) by (simp add: symbolic_search_def Let_def setup_for_def)
  show ?thesis
  proof (cases bad)
    case True
    obtain r w2 where o: "symbolic_outcome ?X SearchSat True (Some ''predicate_satisfied_at_initial_state'')
         (encoding_hash enc) 0 [] w1 = (r, w2)" by (metis prod.collapse)
    with symbolic_outcome_sel(1) [OF o] search True show ?thesis by simp
  next
    case False
    have w0: "\<exists>w0. started_at ?X = fst (monotonic (world_of ?X) w0)" using t fields by (intro exI [of _ w]) simp
    have runs: "int (card (all_runs ?X)) < max_models (limits ?X)" using assms(9) fields by (simp add: all_runs_def)
    have world: "decisive_world (world_of ?X) (deadlines (limits ?X)) enc" using assms(8) fields by simp
    have v: "\<And>s. \<exists>b. violated ?X s = Inr b" using assms(10) fields by simp
    from decisive_loop [OF ready stack_ok_start [OF ready] excluded_runs_start world _ runs w0 v, of "[]"]
    show ?thesis using search False by simp
  qed
qed

text \<open>The tiny fixture after its two transactions: only the empty run is left.\<close>

definition spent_fixture :: fixture where
  "spent_fixture = List.last tiny_states"

definition spent_world :: "unit world" where
  "spent_world = guessing_world [run_model tiny_explorer [] [spent_fixture]]"

lemma spent_schedule: "(schedule_step (as_explorer tiny_explorer) weight_digest)\<^sup>*\<^sup>* tiny_fixture spent_fixture"
proof -
  have "tiny_states \<noteq> []" by code_simp
  then have "spent_fixture \<in> set tiny_states" by (simp add: spent_fixture_def)
  with encoded_run_reachable [OF tiny_encoded] show ?thesis by blast
qed

lemma schedule_reachable: "(schedule_step E sha)\<^sup>*\<^sup>* fx g \<Longrightarrow> reachable sha fx0 fx \<Longrightarrow> reachable sha fx0 g"
  by (induction rule: rtranclp_induct) (auto intro: reachable.step schedule_step_fixture_step)

lemma spent_reachable: "reachable weight_digest tiny_fixture spent_fixture"
  by (rule schedule_reachable [OF spent_schedule reachable.start])

lemma spent_runs: "{as. \<exists>gs. encoded_run tiny_explorer weight_digest spent_fixture as gs} \<subseteq> {[]}"
proof -
  have "nat (max_transactions (bounds spent_fixture) - int (transaction_count (fx_state spent_fixture))) = 0" by code_simp
  with encoded_run_steps [of tiny_explorer weight_digest spent_fixture] show ?thesis by fastforce
qed

theorem symbolic_search_decides_witness:
  "\<exists>r w. symbolic_search (setup_for tiny_explorer weight_digest some_delivery spent_world tiny_control spent_fixture) () = (Inr r, w) \<and>
    (sy_status r = SearchSat \<or> sy_status r = SearchBoundedUnsat)"
proof -
  have "case encode tiny_explorer weight_digest spent_fixture of Inl e \<Rightarrow> False
    | Inr enc \<Rightarrow> kinds enc = [] \<and> selections enc = [] \<and> satisfies (run_model tiny_explorer [] [spent_fixture]) (assertions enc)"
    by code_simp
  then obtain enc where enc: "encode tiny_explorer weight_digest spent_fixture = Inr enc" "kinds enc = []"
    "satisfies (run_model tiny_explorer [] [spent_fixture]) (assertions enc)" by (auto split: sum.splits)
  have block: "block_model enc m = Or []" for m by (simp add: block_model_def enc(2))
  have "guessing_solver [run_model tiny_explorer [] [spent_fixture]] (assertions enc @ map (block_model enc) ms) \<noteq>
      UnknownAnswer reason" for ms reason
    using enc(3) by (cases ms) (auto simp: guessing_solver_def block)
  then have world: "decisive_world spent_world (deadlines tiny_control) enc"
    by (auto simp: decisive_world_def spent_world_def guessing_world_def tiny_control_def default_control_def remaining_seconds_def)
  have "card {as. \<exists>gs. encoded_run tiny_explorer weight_digest spent_fixture as gs} \<le> 1"
    using card_mono [OF _ spent_runs] by simp
  then have "int (card {as. \<exists>gs. encoded_run tiny_explorer weight_digest spent_fixture as gs}) < max_models tiny_control"
    by (simp add: tiny_control_def default_control_def tiny_explorer_def)
  moreover have "sound_solver spent_world" unfolding spent_world_def by (rule guessing_sound)
  moreover have "\<exists>v. some_delivery s = Inr v" for s by (simp add: some_delivery_def)
  ultimately show ?thesis
    using symbolic_search_decides [OF tiny_start tiny_bounds_valid spent_reachable tiny_explorer_made demo_message_valid
        enc(1) _ world, of some_delivery "()"] by blast
qed

lemma spent_final: "(schedule_step E sha)\<^sup>*\<^sup>* spent_fixture g \<Longrightarrow> g = spent_fixture"
proof (induction rule: rtranclp_induct)
  case (step g g')
  have "\<not> int (transaction_count (fx_state spent_fixture)) < max_transactions (bounds spent_fixture)" by code_simp
  with step schedule_step_counts(5) [of E sha g g'] show ?case by simp
qed simp

theorem explorers_agree_witness:
  "\<exists>r w re. symbolic_search (setup_for tiny_explorer weight_digest some_delivery spent_world tiny_control spent_fixture) () = (Inr r, w) \<and>
     search demo_explorer weight_digest some_delivery demo_env spent_fixture = Inr re \<and>
     sr_status re = SearchSat \<and> sy_status r \<noteq> SearchBoundedUnsat"
proof -
  have "case symbolic_search (setup_for tiny_explorer weight_digest some_delivery spent_world tiny_control spent_fixture) () of
      (Inr r, w) \<Rightarrow> True | (Inl e, w) \<Rightarrow> False" by code_simp
  then obtain r w where r: "symbolic_search (setup_for tiny_explorer weight_digest some_delivery spent_world tiny_control spent_fixture) () = (Inr r, w)"
    by (auto split: prod.splits sum.splits)
  have "case search demo_explorer weight_digest some_delivery demo_env spent_fixture of
      Inr re \<Rightarrow> sr_status re = SearchSat | Inl e \<Rightarrow> False" by code_simp
  then obtain re where re: "search demo_explorer weight_digest some_delivery demo_env spent_fixture = Inr re"
    "sr_status re = SearchSat" by (auto split: sum.splits)
  have "BoundedPairedExplorer [demo_message] 10 = Inr demo_explorer"
    by (simp add: BoundedPairedExplorer_def demo_explorer_def ids_def)
  moreover have "sound_solver spent_world" unfolding spent_world_def by (rule guessing_sound)
  moreover have "0 < max_models tiny_control" by (simp add: tiny_control_def default_control_def tiny_explorer_def)
  moreover have "\<not> allow_reordering demo_profile" by (simp add: demo_profile_def)
  moreover have "inj_on (fingerprint weight_digest) {g. (schedule_step demo_explorer weight_digest)\<^sup>*\<^sup>* spent_fixture g}"
    by (auto intro!: inj_onI dest: spent_final)
  ultimately have "\<not> (sy_status r = SearchBoundedUnsat \<and> sr_status re = SearchSat)"
    using explorers_agree [OF tiny_start tiny_bounds_valid spent_reachable tiny_explorer_made demo_message_valid _ _ _ r re(1)]
    by blast
  with r re show ?thesis by blast
qed

section \<open>Two defects of the encoding\<close>

text \<open>
  The constraints of a reorg step frame the delivery array but not the delivery count: a model may
  claim a delivery that never happened. The tiny fixture's model of an enqueue and its reorg stays a
  model when the count after the reorg is changed.
\<close>

definition reorg_model :: "sym_var \<Rightarrow> int" where
  "reorg_model = (let as = [(ENQUEUE, 0), (REORG, 0)] in
     (run_model tiny_explorer as (tiny_fixture #
        (case replay_actions tiny_explorer weight_digest as tiny_fixture of Inl e \<Rightarrow> [] | Inr gs \<Rightarrow> gs)))
     (DeliveredCount 2 := 2))"

lemma delivered_count_free:
  "\<exists>enc. encode tiny_explorer weight_digest tiny_fixture = Inr enc \<and> satisfies reorg_model (assertions enc) \<and>
     decode tiny_explorer enc (\<lambda>v. Some (reorg_model v)) = Inr [(ENQUEUE, 0), (REORG, 0)] \<and>
     reorg_model (DeliveredCount 2) = 2"
proof -
  have "case encode tiny_explorer weight_digest tiny_fixture of Inl e \<Rightarrow> False
    | Inr enc \<Rightarrow> satisfies reorg_model (assertions enc) \<and>
       decode tiny_explorer enc (\<lambda>v. Some (reorg_model v)) = Inr [(ENQUEUE, 0), (REORG, 0)] \<and>
       reorg_model (DeliveredCount 2) = 2" by code_simp
  then show ?thesis by (auto split: sum.splits)
qed

text \<open>
  When messages may be enqueued twice and reordered, the fixture can deliver the second of two
  entries with the same identity, the encoding only the first. After enqueueing a, b and a again and
  delivering the last entry, a and b wait in this order: the fixture reaches this state, no run of
  the encoding does, so the search reports the space as exhausted without having seen it.
\<close>

definition doubling_profile :: transition_profile where
  "doubling_profile = default_profile\<lparr>allow_duplicate_enqueue := True\<rparr>"

definition doubling_fixture :: fixture where
  "doubling_fixture = \<lparr>bounds = \<lparr>max_transactions = 4, max_channel_transitions = 4, max_pending = 3\<rparr>,
     profile = doubling_profile, initial_state = initial_dual ''S'' ''D'', fx_state = initial_dual ''S'' ''D''\<rparr>"

definition doubling_explorer :: symbolic_explorer where
  "doubling_explorer = \<lparr>candidates = [demo_message, second_message], model_limit = 1000\<rparr>"

definition swapped :: "fixture \<Rightarrow> bool" where
  "swapped g \<longleftrightarrow> committed g = [demo_message, second_message, demo_message] \<and> received g = [demo_message] \<and>
     in_flight g = [demo_message, second_message]"

fun run_operations :: "(fixture \<Rightarrow> paired_error + fixture) list \<Rightarrow> fixture \<Rightarrow> paired_error + fixture" where
  "run_operations [] g = Inr g"
| "run_operations (f # fs) g = bind_result (f g) (run_operations fs)"

definition doubling_operations :: "(fixture \<Rightarrow> paired_error + fixture) list" where
  "doubling_operations = [enqueue weight_digest demo_message, enqueue weight_digest second_message,
     enqueue weight_digest demo_message, \<lambda>g. drop_message (deliver weight_digest 2 g)]"

lemma doubling_reached:
  "\<exists>g. (schedule_step (as_explorer doubling_explorer) weight_digest)\<^sup>*\<^sup>* doubling_fixture g \<and> swapped g"
proof -
  have steps: "(schedule_step (as_explorer doubling_explorer) weight_digest)\<^sup>*\<^sup>* g h"
    if "run_operations fs g = Inr h" "set fs \<subseteq> set doubling_operations" for fs g h
    using that
  proof (induction fs arbitrary: g)
    case (Cons f fs)
    then obtain g' where g': "f g = Inr g'" "run_operations fs g' = Inr h" by (auto simp: result_simps)
    have "schedule_step (as_explorer doubling_explorer) weight_digest g g'"
      using Cons.prems(2) g'(1)
      by (auto simp: doubling_operations_def as_explorer_def doubling_explorer_def result_simps intro: schedule_step.intros)
    with Cons.IH [OF g'(2)] Cons.prems(2) show ?case by (auto intro: converse_rtranclp_into_rtranclp)
  qed simp
  have "case run_operations doubling_operations doubling_fixture of Inl e \<Rightarrow> False | Inr g \<Rightarrow> swapped g" by code_simp
  then obtain g where "run_operations doubling_operations doubling_fixture = Inr g" "swapped g" by (auto split: sum.splits)
  with steps [OF this(1)] show ?thesis by auto
qed

lemma two_candidates:
  "i < length (candidates doubling_explorer) \<Longrightarrow>
   candidates doubling_explorer ! i = demo_message \<or> candidates doubling_explorer ! i = second_message"
  by (auto simp: doubling_explorer_def less_Suc_eq)

text \<open>In a run of the encoding the messages in flight are the committed ones without the first of each delivery.\<close>

definition first_removed :: "fixture \<Rightarrow> bool" where
  "first_removed g \<longleftrightarrow> in_flight g = fold remove1 (received g) (committed g) \<and>
     mset (committed g) = mset (received g) + mset (in_flight g) \<and>
     set (in_flight g) \<subseteq> {demo_message, second_message} \<and> \<not> allow_pre_finality_reorg (profile g)"

lemma distinct_identities: "message_identity demo_message \<noteq> message_identity second_message"
  by (simp add: message_identity_def second_message_def demo_message_def)

lemma remove1_first: "first_index (\<lambda>x. x = a) xs = Some p \<Longrightarrow> delete_at p xs = remove1 a xs"
proof (induction xs arbitrary: p)
  case (Cons x xs)
  show ?case
  proof (cases "x = a")
    case True
    with Cons.prems have "p = 0" by (auto simp: first_index_Some)
    with True show ?thesis by (simp add: delete_at_def)
  next
    case False
    with Cons.prems obtain q where q: "p = Suc q" by (cases p) (auto simp: first_index_Some)
    with Cons.prems False have "first_index (\<lambda>x. x = a) xs = Some q" by (auto simp: first_index_Some)
    with Cons.IH q False show ?thesis by (simp add: delete_at_def)
  qed
qed (simp add: first_index_Some)

lemma fold_remove1_append:
  "mset ds \<subseteq># mset cs \<Longrightarrow> fold remove1 ds (cs @ xs) = fold remove1 ds cs @ xs"
proof (induction ds arbitrary: cs)
  case (Cons d ds)
  then have "d \<in> set cs" "mset ds \<subseteq># mset (remove1 d cs)"
    by (auto simp: insert_subset_eq_iff)
  with Cons.IH show ?case by (simp add: remove1_append)
qed simp

lemma first_removed_step:
  assumes inv: "first_removed g" and step: "encoded_action doubling_explorer sha ai g g'"
  shows "first_removed g'"
  using step
proof (cases rule: encoded_action_cases)
  case (enqueue i)
  note h = histories_eq [OF enqueue_histories [OF enqueue(3)]]
  have "profile g' = profile g" using enqueue(3) by (auto elim: enqueue_InrE)
  moreover have "fold remove1 (received g) (committed g @ [candidates doubling_explorer ! i]) =
      fold remove1 (received g) (committed g) @ [candidates doubling_explorer ! i]"
    using inv by (intro fold_remove1_append) (simp add: first_removed_def)
  ultimately show ?thesis using inv h two_candidates [OF enqueue(2)] by (auto simp: first_removed_def)
next
  case (deliver i p d)
  let ?c = "candidates doubling_explorer ! i"
  note h = histories_eq [OF conjunct1 [OF deliver_histories [OF deliver(4)]]]
  have p: "p < length (in_flight g)" using deliver(3) by (simp add: first_index_Some)
  have same: "same_identity ?c m \<longleftrightarrow> m = ?c" if "m \<in> {demo_message, second_message}" for m
    unfolding same_identity_def using that two_candidates [OF deliver(2)] distinct_identities
    by (metis insertE singletonD)
  have "first_index (same_identity ?c) (in_flight g) = first_index (\<lambda>x. x = ?c) (in_flight g)"
    unfolding first_index_def
  proof (rule find_cong [OF refl])
    fix j assume "j \<in> set [0..<length (in_flight g)]"
    then have "in_flight g ! j \<in> set (in_flight g)" by simp
    then have "in_flight g ! j \<in> {demo_message, second_message}" using inv unfolding first_removed_def by blast
    then show "same_identity ?c (in_flight g ! j) = (in_flight g ! j = ?c)" by (rule same)
  qed
  then have first: "first_index (\<lambda>x. x = ?c) (in_flight g) = Some p" using deliver(3) by simp
  then have c: "in_flight g ! p = ?c" by (simp add: first_index_Some)
  have rest: "delete_at p (in_flight g) = remove1 ?c (in_flight g)" by (rule remove1_first [OF first])
  have "?c \<in> set (in_flight g)" using p c by (metis nth_mem)
  moreover have "profile g' = profile g" using deliver(4) by (auto elim: deliver_InrE)
  moreover have "set (remove1 ?c (in_flight g)) \<subseteq> {demo_message, second_message}"
    using inv set_remove1_subset [of ?c "in_flight g"] unfolding first_removed_def by (meson subset_trans)
  ultimately show ?thesis using inv h c rest unfolding first_removed_def by simp
next
  case (reorg i d)
  with inv show ?thesis by (auto elim: reorg_latest_histories simp: first_removed_def)
qed

lemma first_removed_run: "encoded_run doubling_explorer sha g as gs \<Longrightarrow> first_removed g \<Longrightarrow> h \<in> set (g # gs) \<Longrightarrow> first_removed h"
  by (induction as arbitrary: g gs) (auto split: list.splits dest: first_removed_step)

lemma duplicate_delivery_missed:
  "(\<exists>g. (schedule_step (as_explorer doubling_explorer) weight_digest)\<^sup>*\<^sup>* doubling_fixture g \<and> swapped g) \<and>
   (\<forall>as gs. encoded_run doubling_explorer weight_digest doubling_fixture as gs \<longrightarrow> \<not> list_ex swapped (doubling_fixture # gs))"
proof (intro conjI allI impI doubling_reached)
  fix as gs assume run: "encoded_run doubling_explorer weight_digest doubling_fixture as gs"
  have start: "first_removed doubling_fixture"
    by (simp add: first_removed_def doubling_fixture_def doubling_profile_def default_profile_def initial_dual_def initial_chain_def)
  have "demo_message \<noteq> second_message" using distinct_identities by metis
  then have "\<not> swapped g" if "first_removed g" for g
    using that by (auto simp: swapped_def first_removed_def)
  with first_removed_run [OF run start] show "\<not> list_ex swapped (doubling_fixture # gs)" by (auto simp: list_ex_iff)
qed

end
