(* ===== verification/Smt_Encoding.thy ===== *)
theory Smt_Encoding
  imports Xlir_Safety Canonical_Json Solver_Control Contracts_Records
begin

unbundle bit_operations_syntax

text \<open>
  The bit-vector expressions of the solver's Python interface that \<^verbatim>\<open>backends/smt.py\<close> builds, as
  syntax, with the documented (SMT-LIB) meaning of every operator and of the overflow predicates
  under an assignment of the constants. A bit vector of width \<open>n\<close> is an integer in \<open>[0, 2 ^ n)\<close>.
\<close>

section \<open>Syntax\<close>

datatype bv_op = BvAdd | BvSub | BvMul | BvSDiv | BvUDiv | BvSRem | BvURem
  | BvAnd | BvOr | BvXor | BvShl | BvLshr | BvAshr

datatype bv_term = BvConst string nat | BvVal int nat | BvNeg bv_term | BvNot bv_term
  | BvApp bv_op bv_term bv_term

text \<open>The Boolean argument says whether the operands are read as signed.\<close>

datatype bv_pred = BvEq | BvDistinct | BvGe bool | BvLe bool | BvGt bool | BvLt bool
  | AddNoOverflow bool | AddNoUnderflow | SubNoOverflow | SubNoUnderflow bool
  | MulNoOverflow bool | MulNoUnderflow | SDivNoOverflow

datatype formula = FConst string | FVal bool | FNot formula | FAnd "formula list" | FOr "formula list"
  | FImplies formula formula | FIff formula formula | FDistinct formula formula
  | BvPred bv_pred bv_term bv_term | NegNoOverflow bv_term

text \<open>An expression of the interface is a Boolean or a bit vector.\<close>

datatype smt_expr = ZForm formula | ZBits bv_term

fun width :: "bv_term \<Rightarrow> nat" where
  "width (BvConst c n) = n"
| "width (BvVal i n) = n"
| "width (BvNeg a) = width a"
| "width (BvNot a) = width a"
| "width (BvApp op a b) = width a"

section \<open>Meaning\<close>

definition signed_view :: "nat \<Rightarrow> int \<Rightarrow> int" where
  "signed_view n x = (if 2 ^ (n - 1) \<le> x then x - 2 ^ n else x)"

fun bv_value :: "bv_op \<Rightarrow> nat \<Rightarrow> int \<Rightarrow> int \<Rightarrow> int" where
  "bv_value BvAdd n x y = (x + y) mod 2 ^ n"
| "bv_value BvSub n x y = (x - y) mod 2 ^ n"
| "bv_value BvMul n x y = (x * y) mod 2 ^ n"
| "bv_value BvSDiv n x y =
     (if y = 0 then (if signed_view n x < 0 then 1 else 2 ^ n - 1)
      else trunc_div (signed_view n x) (signed_view n y) mod 2 ^ n)"
| "bv_value BvUDiv n x y = (if y = 0 then 2 ^ n - 1 else x div y)"
| "bv_value BvSRem n x y =
     (if y = 0 then x else trunc_mod (signed_view n x) (signed_view n y) mod 2 ^ n)"
| "bv_value BvURem n x y = (if y = 0 then x else x mod y)"
| "bv_value BvAnd n x y = x AND y"
| "bv_value BvOr n x y = x OR y"
| "bv_value BvXor n x y = x XOR y"
| "bv_value BvShl n x y = (if int n \<le> y then 0 else push_bit (nat y) x mod 2 ^ n)"
| "bv_value BvLshr n x y = (if int n \<le> y then 0 else drop_bit (nat y) x)"
| "bv_value BvAshr n x y =
     (if int n \<le> y then (if signed_view n x < 0 then 2 ^ n - 1 else 0)
      else drop_bit (nat y) (signed_view n x) mod 2 ^ n)"

definition viewed :: "bool \<Rightarrow> nat \<Rightarrow> int \<Rightarrow> int" where
  "viewed s n x = (if s then signed_view n x else x)"

definition upper_limit :: "bool \<Rightarrow> nat \<Rightarrow> int" where
  "upper_limit s n = (if s then 2 ^ (n - 1) else 2 ^ n)"

fun bv_holds :: "bv_pred \<Rightarrow> nat \<Rightarrow> int \<Rightarrow> int \<Rightarrow> bool" where
  "bv_holds BvEq n x y = (x = y)"
| "bv_holds BvDistinct n x y = (x \<noteq> y)"
| "bv_holds (BvGe s) n x y = (viewed s n y \<le> viewed s n x)"
| "bv_holds (BvLe s) n x y = (viewed s n x \<le> viewed s n y)"
| "bv_holds (BvGt s) n x y = (viewed s n y < viewed s n x)"
| "bv_holds (BvLt s) n x y = (viewed s n x < viewed s n y)"
| "bv_holds (AddNoOverflow s) n x y = (viewed s n x + viewed s n y < upper_limit s n)"
| "bv_holds AddNoUnderflow n x y = (- (2 ^ (n - 1)) \<le> signed_view n x + signed_view n y)"
| "bv_holds SubNoOverflow n x y = (signed_view n x - signed_view n y < 2 ^ (n - 1))"
| "bv_holds (SubNoUnderflow s) n x y =
     ((if s then - (2 ^ (n - 1)) else 0) \<le> viewed s n x - viewed s n y)"
| "bv_holds (MulNoOverflow s) n x y = (viewed s n x * viewed s n y < upper_limit s n)"
| "bv_holds MulNoUnderflow n x y = (- (2 ^ (n - 1)) \<le> signed_view n x * signed_view n y)"
| "bv_holds SDivNoOverflow n x y =
     (\<not> (signed_view n x = - (2 ^ (n - 1)) \<and> signed_view n y = - 1))"

text \<open>An assignment of the Boolean and of the bit-vector constants.\<close>

record assignment =
  bool_of :: "string \<Rightarrow> bool"
  bits_of :: "string \<Rightarrow> nat \<Rightarrow> int"

fun bits_value :: "assignment \<Rightarrow> bv_term \<Rightarrow> int" where
  "bits_value J (BvConst c n) = bits_of J c n mod 2 ^ n"
| "bits_value J (BvVal i n) = i mod 2 ^ n"
| "bits_value J (BvNeg a) = (- bits_value J a) mod 2 ^ width a"
| "bits_value J (BvNot a) = (NOT (bits_value J a)) mod 2 ^ width a"
| "bits_value J (BvApp op a b) = bv_value op (width a) (bits_value J a) (bits_value J b)"

fun truth :: "assignment \<Rightarrow> formula \<Rightarrow> bool" where
  "truth J (FConst c) = bool_of J c"
| "truth J (FVal b) = b"
| "truth J (FNot f) = (\<not> truth J f)"
| "truth J (FAnd fs) = list_all (truth J) fs"
| "truth J (FOr fs) = list_ex (truth J) fs"
| "truth J (FImplies f g) = (truth J f \<longrightarrow> truth J g)"
| "truth J (FIff f g) = (truth J f = truth J g)"
| "truth J (FDistinct f g) = (truth J f \<noteq> truth J g)"
| "truth J (BvPred p a b) = bv_holds p (width a) (bits_value J a) (bits_value J b)"
| "truth J (NegNoOverflow a) = (signed_view (width a) (bits_value J a) \<noteq> - (2 ^ (width a - 1)))"

definition all_true :: "assignment \<Rightarrow> formula list \<Rightarrow> bool" where
  "all_true J fs = list_all (truth J) fs"

lemma all_true_simps [simp]:
  "all_true J []"
  "all_true J (f # fs) \<longleftrightarrow> truth J f \<and> all_true J fs"
  "all_true J (fs @ gs) \<longleftrightarrow> all_true J fs \<and> all_true J gs"
  by (simp_all add: all_true_def)

section \<open>Answers\<close>

text \<open>A model is partial; \<^verbatim>\<open>model_completion=True\<close> adds the default where it has no value.\<close>

record partial_model =
  bool_part :: "string \<rightharpoonup> bool"
  bits_part :: "string \<Rightarrow> nat \<Rightarrow> int option"

datatype smt_answer = SmtSat partial_model | SmtUnsat | SmtUnknown string

definition completion :: "partial_model \<Rightarrow> assignment" where
  "completion m = \<lparr>
     bool_of = \<lambda>c. (case bool_part m c of None \<Rightarrow> False | Some b \<Rightarrow> b),
     bits_of = \<lambda>c n. (case bits_part m c n of None \<Rightarrow> 0 | Some i \<Rightarrow> i)\<rparr>"

text \<open>The documented contract of the answers.\<close>

definition sound_answer :: "formula list \<Rightarrow> smt_answer \<Rightarrow> bool" where
  "sound_answer fs a = (case a of
       SmtSat m \<Rightarrow> all_true (completion m) fs
     | SmtUnsat \<Rightarrow> \<forall>J. \<not> all_true J fs
     | SmtUnknown reason \<Rightarrow> True)"

section \<open>Hexadecimal text\<close>

text \<open>\<^verbatim>\<open>f"0x{number:0{width}x}"\<close>, for a number that fits.\<close>

fun hex_padded :: "nat \<Rightarrow> int \<Rightarrow> string" where
  "hex_padded 0 i = []"
| "hex_padded (Suc w) i = hex_padded w (i div 16) @ [hex_char (nat (i mod 16))]"

definition hex_text :: "nat \<Rightarrow> int \<Rightarrow> string" where
  "hex_text w i = ''0x'' @ hex_padded w i"

lemma hex_digit_char: "n < 16 \<Longrightarrow> hex_digit (hex_char n) = Some n \<and> hex_char n \<noteq> CHR ''_''
    \<and> \<not> c_isspace (hex_char n) \<and> hex_char n \<notin> {CHR ''+'', CHR ''-'', CHR ''x'', CHR ''X''}"
proof -
  have "list_all (\<lambda>n. hex_digit (hex_char n) = Some n \<and> hex_char n \<noteq> CHR ''_''
    \<and> \<not> c_isspace (hex_char n) \<and> hex_char n \<notin> {CHR ''+'', CHR ''-'', CHR ''x'', CHR ''X''}) [0 ..< 16]"
    by code_simp
  then show "n < 16 \<Longrightarrow> ?thesis" by (simp only: list_all_iff set_upt) auto
qed

lemma hex_digits_padded:
  "0 \<le> i \<Longrightarrow> i < 16 ^ w \<Longrightarrow>
   hex_digits prev acc (hex_padded w i @ s) =
     hex_digits (prev \<or> 0 < w) (acc * 16 ^ w + nat i) s"
proof (induction w arbitrary: i prev acc s)
  case 0
  then show ?case by simp
next
  case (Suc w)
  have "i < 16 * p \<Longrightarrow> i div 16 < p" for p :: int by presburger
  then have bounds: "i div 16 < 16 ^ w" "0 \<le> i div 16"
    using Suc.prems by (simp_all add: pos_imp_zdiv_nonneg_iff)
  have digit: "nat (i mod 16) < 16" by auto
  have "16 * nat (i div 16) + nat (i mod 16) = nat i"
    using Suc.prems by (simp add: nat_div_distrib nat_mod_distrib)
  moreover have "16 * a + b = c \<Longrightarrow> 16 * (p + a) + b = 16 * p + c" for a b c p :: nat by simp
  ultimately have "16 * (acc * 16 ^ w + nat (i div 16)) + nat (i mod 16) = 16 * (acc * 16 ^ w) + nat i"
    by blast
  then have total: "16 * (acc * 16 ^ w + nat (i div 16)) + nat (i mod 16) = acc * 16 ^ Suc w + nat i"
    by (simp only: power_Suc mult.left_commute)
  have "hex_digits prev acc (hex_padded w (i div 16) @ hex_char (nat (i mod 16)) # s) =
      hex_digits True (16 * (acc * 16 ^ w + nat (i div 16)) + nat (i mod 16)) s"
    using Suc.IH [of "i div 16" prev acc "hex_char (nat (i mod 16)) # s"] bounds digit
    by (simp add: hex_digit_char)
  then show ?case by (simp only: total hex_padded.simps append_assoc append.simps zero_less_Suc simp_thms)
qed

lemma length_hex_padded [simp]: "length (hex_padded w i) = w"
  by (induction w arbitrary: i) simp_all

lemma hex_padded_Cons:
  assumes "0 \<le> i" "i < 16 ^ w" "0 < w"
  obtains c cs where "hex_padded w i = c # cs" "c \<notin> {CHR ''+'', CHR ''-''}" "\<not> c_isspace c"
    "\<And>x cs'. cs = x # cs' \<Longrightarrow> x \<notin> {CHR ''x'', CHR ''X''}" "c \<noteq> CHR ''_''"
proof -
  have ok: "c \<in> set (hex_padded w i) \<Longrightarrow> \<exists>n < 16. c = hex_char n" for c
  proof (induction w arbitrary: i)
    case (Suc w)
    have "nat (i mod 16) < 16" by auto
    with Suc show ?case by (auto dest: Suc.IH)
  qed simp
  obtain c cs where c: "hex_padded w i = c # cs"
    using assms(3) by (metis length_hex_padded length_greater_0_conv neq_Nil_conv)
  from ok [of c] obtain n where "n < 16" "c = hex_char n" by (auto simp: c)
  moreover have "x \<notin> {CHR ''x'', CHR ''X''}" if "cs = x # cs'" for x cs'
    using ok [of x] that by (auto simp: c dest: hex_digit_char)
  ultimately show thesis using that [OF c] hex_digit_char [of n] by auto
qed

text \<open>\<^verbatim>\<open>int(text, 16)\<close> reads the number back, with the prefix and without it.\<close>

lemma int16_hex_text:
  assumes "0 \<le> i" "i < 16 ^ w" "0 < w"
  shows "py_int16 (hex_text w i) = Some i" "py_int16 (drop 2 (hex_text w i)) = Some i"
proof -
  obtain c cs where c: "hex_padded w i = c # cs" "c \<notin> {CHR ''+'', CHR ''-''}" "\<not> c_isspace c"
    "\<And>x cs'. cs = x # cs' \<Longrightarrow> x \<notin> {CHR ''x'', CHR ''X''}" "c \<noteq> CHR ''_''"
    using hex_padded_Cons [OF assms] by metis
  have digits: "hex_digits False 0 (c # cs) = Some (nat i)"
    using hex_digits_padded [OF assms(1,2), of False 0 "[]"] assms(3) by (simp add: c(1))
  have "hex_body (c # cs) = Some (nat i)"
    using c(4) digits by (cases cs) auto
  then show "py_int16 (drop 2 (hex_text w i)) = Some i"
    using c assms(1) by (simp add: hex_text_def py_int16_def)
  have "hex_body (hex_text w i) = Some (nat i)"
    using c(5) digits by (simp add: hex_text_def c(1))
  then show "py_int16 (hex_text w i) = Some i"
    using assms(1) by (simp add: hex_text_def py_int16_def c_isspace_def)
qed

text \<open>
  The translation of \<^verbatim>\<open>backends/smt.py\<close>: \<^verbatim>\<open>Z3XLIRBackend._translate\<close> over the interface of
  \<open>Smt_Terms\<close>. The dictionary of variables and the list of constraints that the code mutates are
  the state \<open>tstate\<close>.
\<close>

section \<open>Errors and the library\<close>

text \<open>
  \<open>ValueRaised\<close> is a ValueError, \<open>SolverRaised\<close> a TypeError or a Z3Exception, both of which
  \<^verbatim>\<open>_check\<close> catches; \<open>EscapingError\<close> is any other exception.
\<close>

datatype translate_exn = ValueRaised string | SolverRaised string | EscapingError string

text \<open>
  What the library does outside its documented sorts: an operator on operands of other sorts; the
  text of \<^verbatim>\<open>repr\<close>, the
  text of the ValueError of \<^verbatim>\<open>int(s, 16)\<close>, a literal that is no value of its type. None of
  them is reached for a compiled invariant.
\<close>

record z3_native =
  ill_sorted :: "string \<Rightarrow> smt_expr list \<Rightarrow> translate_exn + smt_expr"
  repr_text :: "string \<Rightarrow> string"
  bad_hex :: "string \<Rightarrow> string"
  odd_literal :: "value_type \<Rightarrow> json \<Rightarrow> translate_exn + smt_expr"

record tstate =
  variables :: "(smt_expr \<times> value_type) dict"
  constraints :: "formula list"

section \<open>Leaves\<close>

definition sort_width :: "value_type \<Rightarrow> nat" where
  "sort_width t = (if t = ADDRESS then 160 else 256)"

text \<open>\<^verbatim>\<open>z3.Const(name, Z3XLIRBackend._sorts[value_type])\<close>.\<close>

definition sorted_const :: "string \<Rightarrow> value_type \<Rightarrow> smt_expr" where
  "sorted_const name t = (if t = BOOL then ZForm (FConst name) else ZBits (BvConst name (sort_width t)))"

definition variable_key :: "int option \<Rightarrow> nat \<Rightarrow> string \<Rightarrow> string \<Rightarrow> string \<Rightarrow> string" where
  "variable_key tlen index sid st dm = sid @ ''|'' @ st @ ''|'' @ dm @
     (case tlen of None \<Rightarrow> [] | Some _ \<Rightarrow> ''|trace_index='' @ string_of_nat index)"

definition const_name :: "(json \<Rightarrow> string) \<Rightarrow> string \<Rightarrow> string" where
  "const_name sha key = ''s_'' @ take 16 (sha (JStr key))"

definition translate_symbol ::
    "(json \<Rightarrow> string) \<Rightarrow> string \<Rightarrow> value_type \<Rightarrow> tstate \<Rightarrow> smt_expr \<times> tstate" where
  "translate_symbol sha key t st = (case dict_get (variables st) key of
       Some (z, _) \<Rightarrow> (z, st)
     | None \<Rightarrow> (let z = sorted_const (const_name sha key) t in
         (z, st\<lparr>variables := dict_put key (z, t) (variables st)\<rparr>)))"

definition translate_literal :: "z3_native \<Rightarrow> json \<Rightarrow> value_type \<Rightarrow> translate_exn + smt_expr" where
  "translate_literal Z v t =
     (if t = BOOL then (case v of JBool b \<Rightarrow> Inr (ZForm (FVal b)) | _ \<Rightarrow> odd_literal Z t v)
      else case v of
        JStr s \<Rightarrow> (case py_int16 s of
            Some i \<Rightarrow> Inr (ZBits (BvVal i (sort_width t)))
          | None \<Rightarrow> Inl (ValueRaised (bad_hex Z s)))
      | JInt i \<Rightarrow> Inr (ZBits (BvVal i (sort_width t)))
      | _ \<Rightarrow> odd_literal Z t v)"

section \<open>Operators\<close>

text \<open>The Booleans of a list of expressions, when all are.\<close>

fun formulas :: "smt_expr list \<Rightarrow> formula list option" where
  "formulas [] = Some []"
| "formulas (ZForm f # zs) = map_option (\<lambda>fs. f # fs) (formulas zs)"
| "formulas (ZBits a # zs) = None"

text \<open>\<^verbatim>\<open>z3.And(*terms)\<close> or \<^verbatim>\<open>z3.Or(*terms)\<close>, the constant for no terms.\<close>

definition join_terms :: "z3_native \<Rightarrow> bool \<Rightarrow> smt_expr list \<Rightarrow> translate_exn + smt_expr" where
  "join_terms Z every zs =
     (if zs = [] then Inr (ZForm (FVal every))
      else case formulas zs of
        Some fs \<Rightarrow> Inr (ZForm (if every then FAnd fs else FOr fs))
      | None \<Rightarrow> ill_sorted Z (if every then ''And'' else ''Or'') zs)"

definition with_constraints :: "formula list \<Rightarrow> tstate \<Rightarrow> tstate" where
  "with_constraints cs st = st\<lparr>constraints := constraints st @ cs\<rparr>"

definition keep_state :: "tstate \<Rightarrow> 'e + 'a \<Rightarrow> 'e + 'a \<times> tstate" where
  "keep_state st r = bind_result r (\<lambda>z. Inr (z, st))"

definition translate_unary ::
    "z3_native \<Rightarrow> string \<Rightarrow> value_type \<Rightarrow> smt_expr \<Rightarrow> tstate \<Rightarrow> translate_exn + smt_expr \<times> tstate" where
  "translate_unary Z op t z st =
     (if op = ''not'' then (case z of
          ZForm f \<Rightarrow> Inr (ZForm (FNot f), st)
        | ZBits a \<Rightarrow> keep_state st (ill_sorted Z op [z]))
      else if op = ''neg'' then
        (if t \<noteq> INT256 then Inl (ValueRaised ''neg requires int256'')
         else case z of
           ZBits a \<Rightarrow> Inr (ZBits (BvNeg a), with_constraints [NegNoOverflow a] st)
         | ZForm f \<Rightarrow> keep_state st (ill_sorted Z op [z]))
      else if op = ''bitnot'' then
        (if \<not> integer_type t then Inl (ValueRaised ''bitnot requires an integer'')
         else case z of
           ZBits a \<Rightarrow> Inr (ZBits (BvNot a), st)
         | ZForm f \<Rightarrow> keep_state st (ill_sorted Z op [z]))
      else Inl (ValueRaised ''unsupported unary operator''))"

text \<open>An operator on two Booleans.\<close>

definition boolean_term :: "string \<Rightarrow> formula \<Rightarrow> formula \<Rightarrow> formula option" where
  "boolean_term op f g =
     (if op = ''and'' then Some (FAnd [f, g])
      else if op = ''or'' then Some (FOr [f, g])
      else if op = ''implies'' then Some (FImplies f g)
      else if op = ''eq'' then Some (FIff f g)
      else if op = ''neq'' then Some (FDistinct f g)
      else None)"

text \<open>
  An operator on two bit vectors of one width, with its constraints: \<open>lt\<close> is the value type of the
  left operand, \<open>t\<close> that of the expression.
\<close>

definition compare_bits :: "string \<Rightarrow> value_type \<Rightarrow> bv_pred option" where
  "compare_bits op lt = (let s = (lt = INT256) in
     if op = ''eq'' then Some BvEq
     else if op = ''neq'' then Some BvDistinct
     else if op = ''ge'' then Some (BvGe s)
     else if op = ''le'' then Some (BvLe s)
     else if op = ''gt'' then Some (BvGt s)
     else if op = ''lt'' then Some (BvLt s)
     else None)"

definition compute_bits :: "string \<Rightarrow> value_type \<Rightarrow> nat \<Rightarrow> bv_term \<Rightarrow> bv_term \<Rightarrow> (bv_op \<times> formula list) option" where
  "compute_bits op t n a b = (let s = (t = INT256); P = (\<lambda>p. BvPred p a b);
       nonzero = BvPred BvDistinct b (BvVal 0 n) in
     if op = ''add'' then
       Some (BvAdd, if s then [P (AddNoOverflow True), P AddNoUnderflow] else [P (AddNoOverflow False)])
     else if op = ''sub'' then
       Some (BvSub, if s then [P (SubNoUnderflow True), P SubNoOverflow] else [P (SubNoUnderflow False)])
     else if op = ''mul'' then
       Some (BvMul, if s then [P (MulNoOverflow True), P MulNoUnderflow] else [P (MulNoOverflow False)])
     else if op = ''div'' then
       Some (if s then (BvSDiv, [nonzero, P SDivNoOverflow]) else (BvUDiv, [nonzero]))
     else if op = ''mod'' then Some (if s then BvSRem else BvURem, [nonzero])
     else if op = ''band'' then Some (BvAnd, [])
     else if op = ''bor'' then Some (BvOr, [])
     else if op = ''bxor'' then Some (BvXor, [])
     else if op = ''shl'' then Some (BvShl, [])
     else if op = ''shr'' then Some (BvLshr, [])
     else if op = ''sar'' then Some (BvAshr, [])
     else None)"

definition known_binary :: "string list" where
  "known_binary = [''and'', ''or'', ''implies'', ''eq'', ''neq'', ''ge'', ''le'', ''gt'', ''lt'', ''add'', ''sub'',
     ''mul'', ''div'', ''mod'', ''band'', ''bor'', ''bxor'', ''shl'', ''shr'', ''sar'']"

definition translate_binary ::
    "z3_native \<Rightarrow> string \<Rightarrow> value_type \<Rightarrow> value_type \<Rightarrow> smt_expr \<Rightarrow> smt_expr \<Rightarrow> tstate
       \<Rightarrow> translate_exn + smt_expr \<times> tstate" where
  "translate_binary Z op lt t left right st = (let other = keep_state st (ill_sorted Z op [left, right]) in
     if op \<notin> set known_binary then Inl (ValueRaised ''unsupported binary operator'')
     else case (left, right) of
       (ZForm f, ZForm g) \<Rightarrow> (case boolean_term op f g of Some h \<Rightarrow> Inr (ZForm h, st) | None \<Rightarrow> other)
     | (ZBits a, ZBits b) \<Rightarrow>
         if width a \<noteq> width b then other
         else (case compare_bits op lt of
             Some p \<Rightarrow> Inr (ZForm (BvPred p a b), st)
           | None \<Rightarrow> (case compute_bits op t (width b) a b of
               Some (f, cs) \<Rightarrow> Inr (ZBits (BvApp f a b), with_constraints cs st)
             | None \<Rightarrow> other))
     | _ \<Rightarrow> other)"

section \<open>The translation\<close>

fun translate ::
    "z3_native \<Rightarrow> (json \<Rightarrow> string) \<Rightarrow> int option \<Rightarrow> expr \<Rightarrow> nat \<Rightarrow> (string \<rightharpoonup> smt_expr) \<Rightarrow> tstate
       \<Rightarrow> translate_exn + smt_expr \<times> tstate" where
  "translate Z sha tlen (SymbolRef sid t dm s) i bd st =
     Inr (translate_symbol sha (variable_key tlen i sid s dm) t st)"
| "translate Z sha tlen (BoundRef x t) i bd st = (case bd x of
       None \<Rightarrow> Inl (ValueRaised (''unresolved bound variable '' @ repr_text Z x))
     | Some z \<Rightarrow> Inr (z, st))"
| "translate Z sha tlen (Lit l) i bd st = keep_state st (translate_literal Z (lit_value l) (lit_type l))"
| "translate Z sha tlen (Quantifier op x xt lits e t) i bd st =
     bind_result (fold_result (\<lambda>l s. bind_result (translate_literal Z (lit_value l) (lit_type l)) (\<lambda>z.
         translate Z sha tlen e i (bd(x \<mapsto> z)) s)) lits st) (\<lambda>(terms, st1).
       if op = ''forall'' then keep_state st1 (join_terms Z True terms)
       else if op = ''exists'' then keep_state st1 (join_terms Z False terms)
       else Inl (ValueRaised ''unsupported quantifier operator''))"
| "translate Z sha tlen (Temporal op e h t) i bd st = (case tlen of
       None \<Rightarrow> Inl (ValueRaised ''temporal translation requires positive trace_length'')
     | Some n \<Rightarrow>
         if n \<le> 0 then Inl (ValueRaised ''temporal translation requires positive trace_length'')
         else if op = ''once'' then (case h of
             None \<Rightarrow> Inl (EscapingError ''AssertionError'')
           | Some horizon \<Rightarrow>
               bind_result (fold_result (\<lambda>p s. translate Z sha tlen e p bd s) (once_positions i horizon) st)
                 (\<lambda>(terms, st1). keep_state st1 (join_terms Z False terms)))
         else if op = ''globally'' then
           bind_result (fold_result (\<lambda>p s. translate Z sha tlen e p bd s) [0 ..< nat n] st)
             (\<lambda>(terms, st1). keep_state st1 (join_terms Z True terms))
         else Inl (ValueRaised ''unsupported temporal operator''))"
| "translate Z sha tlen (Unary op e t) i bd st =
     bind_result (translate Z sha tlen e i bd st) (\<lambda>(z, st1). translate_unary Z op t z st1)"
| "translate Z sha tlen (Binary op l r t) i bd st =
     bind_result (translate Z sha tlen l i bd st) (\<lambda>(left, st1).
     bind_result (translate Z sha tlen r i bd st1) (\<lambda>(right, st2).
       translate_binary Z op (vtype l) t left right st2))"

end
