(* ===== verification/Smt_Operators.thy ===== *)
theory Smt_Operators
  imports Smt_Encoding
begin

unbundle bit_operations_syntax

text \<open>
  The operators of the translation against those of the evaluator: when the operands' bit patterns
  are those of the evaluator's values, the constraints the translation adds hold exactly when the
  evaluator returns, and then the result has the pattern of the evaluator's result.
\<close>

section \<open>Patterns of values\<close>

definition bits256 :: "int \<Rightarrow> int" where
  "bits256 i = i mod 2 ^ 256"

definition pattern :: "json \<Rightarrow> int" where
  "pattern v = (case v of
       JInt i \<Rightarrow> bits256 i
     | JStr s \<Rightarrow> (case py_int16 s of Some i \<Rightarrow> i | None \<Rightarrow> 0)
     | _ \<Rightarrow> 0)"

definition hex_width :: "value_type \<Rightarrow> nat" where
  "hex_width t = (if t = ADDRESS then 40 else 64)"

text \<open>
  A value the solver can speak of: addresses and byte strings in canonical (padded, lower case)
  form. The evaluator compares them as strings, the solver as numbers.
\<close>

definition hex_typed :: "value_type \<Rightarrow> bool" where
  "hex_typed t = (t = ADDRESS \<or> t = BYTES32)"

definition good_value :: "json \<Rightarrow> value_type \<Rightarrow> bool" where
  "good_value v t = (valid_value v t \<and> (hex_typed t \<longrightarrow>
     0 \<le> pattern v \<and> pattern v < 16 ^ hex_width t \<and> v = JStr (hex_text (hex_width t) (pattern v))))"

definition represents :: "assignment \<Rightarrow> smt_expr \<Rightarrow> json \<Rightarrow> value_type \<Rightarrow> bool" where
  "represents J z v t = (good_value v t \<and> (case z of
       ZForm f \<Rightarrow> t = BOOL \<and> v = JBool (truth J f)
     | ZBits a \<Rightarrow> t \<noteq> BOOL \<and> width a = sort_width t \<and> bits_value J a = pattern v))"

definition well_sorted :: "smt_expr \<Rightarrow> value_type \<Rightarrow> bool" where
  "well_sorted z t = (case z of ZForm f \<Rightarrow> t = BOOL | ZBits a \<Rightarrow> t \<noteq> BOOL \<and> width a = sort_width t)"

lemma represents_sorted: "represents J z v t \<Longrightarrow> well_sorted z t"
  by (auto simp: represents_def well_sorted_def split: smt_expr.splits)

lemma represents_good: "represents J z v t \<Longrightarrow> good_value v t"
  by (simp add: represents_def)

lemma good_value_valid: "good_value v t \<Longrightarrow> valid_value v t"
  by (simp add: good_value_def)

lemma well_sorted_simps [simp]:
  "well_sorted z BOOL \<longleftrightarrow> (\<exists>f. z = ZForm f)"
  "well_sorted (ZForm f) t \<longleftrightarrow> t = BOOL"
  "well_sorted (ZBits a) t \<longleftrightarrow> t \<noteq> BOOL \<and> width a = sort_width t"
  by (auto simp: well_sorted_def split: smt_expr.splits)

lemma well_sorted_integer: "integer_type t \<Longrightarrow> well_sorted z t \<longleftrightarrow> (\<exists>a. z = ZBits a \<and> width a = 256)"
  by (auto simp: well_sorted_def integer_type_def sort_width_def split: smt_expr.splits)

lemma represents_BOOL: "represents J z v BOOL \<longleftrightarrow> (\<exists>f. z = ZForm f \<and> v = JBool (truth J f))"
  by (auto simp: represents_def good_value_def hex_typed_def valid_value_BOOL split: smt_expr.splits)

lemma represents_ZForm [simp]: "represents J (ZForm f) (JBool b) BOOL \<longleftrightarrow> b = truth J f"
  by (auto simp: represents_BOOL)

lemma represents_bits:
  "t \<noteq> BOOL \<Longrightarrow> represents J z v t \<longleftrightarrow>
     (\<exists>a. z = ZBits a \<and> width a = sort_width t \<and> good_value v t \<and> bits_value J a = pattern v)"
  by (auto simp: represents_def split: smt_expr.splits)

lemma integer_not_hex: "integer_type t \<Longrightarrow> \<not> hex_typed t \<and> t \<noteq> BOOL \<and> sort_width t = 256"
  by (auto simp: integer_type_def hex_typed_def sort_width_def)

lemma represents_integer:
  "integer_type t \<Longrightarrow> represents J z v t \<longleftrightarrow>
     (\<exists>a i. z = ZBits a \<and> v = JInt i \<and> width a = 256 \<and> valid_value (JInt i) t \<and>
        bits_value J a = bits256 i)"
  by (auto simp: represents_bits integer_not_hex good_value_def pattern_def integer_type_def
      valid_value_iffs)

section \<open>Signed and unsigned readings\<close>

lemma signed_bits256: "valid_value (JInt i) INT256 \<Longrightarrow> signed_view 256 (bits256 i) = i"
proof (cases "0 \<le> i")
  case True
  assume "valid_value (JInt i) INT256"
  with True have r: "0 \<le> i" "i < 2 ^ 255" by (simp_all add: valid_value_INT256)
  then have "bits256 i = i" unfolding bits256_def by (intro mod_pos_pos_trivial) simp_all
  with r show ?thesis by (simp add: signed_view_def)
next
  case False
  assume "valid_value (JInt i) INT256"
  with False have r: "i < 0" "- (2 ^ 255) \<le> i" by (simp_all add: valid_value_INT256)
  then have "(i + 2 ^ 256) mod 2 ^ 256 = i + 2 ^ 256" by (intro mod_pos_pos_trivial) simp_all
  then have "bits256 i = i + 2 ^ 256" unfolding bits256_def by (simp only: mod_add_self2)
  with r show ?thesis by (simp add: signed_view_def)
qed

lemma unsigned_bits256: "valid_value (JInt i) UINT256 \<Longrightarrow> bits256 i = i"
  by (simp add: valid_value_UINT256 bits256_def)

lemma viewed_bits256:
  "integer_type t \<Longrightarrow> valid_value (JInt i) t \<Longrightarrow> viewed (t = INT256) 256 (bits256 i) = i"
  by (auto simp: integer_type_def viewed_def signed_bits256 unsigned_bits256)

lemma bits256_normalize: "bits256 (normalize_integer i t) = bits256 i"
proof -
  have "(i mod m - m) mod m = i mod m" for m :: int
    by (metis minus_mod_self2 mod_mod_trivial)
  then show ?thesis by (simp only: bits256_def normalize_integer_def uint256_limit_def Let_def mod_mod_trivial split: if_split) simp
qed

lemma good_value_integer: "integer_type t \<Longrightarrow> good_value v t \<longleftrightarrow> valid_value v t"
  by (simp add: good_value_def integer_not_hex)

lemma pattern_integer [simp]: "pattern (JInt i) = bits256 i"
  by (simp add: pattern_def)

lemma pattern_inject:
  assumes "good_value v t" "good_value u t" "t \<noteq> BOOL"
  shows "pattern v = pattern u \<longleftrightarrow> v = u"
proof (cases "hex_typed t")
  case True
  with assms show ?thesis unfolding good_value_def by metis
next
  case False
  with assms(3) have t: "integer_type t" by (cases t) (auto simp: hex_typed_def integer_type_def)
  from assms t obtain i j where "v = JInt i" "u = JInt j" "valid_value (JInt i) t" "valid_value (JInt j) t"
    by (auto simp: good_value_integer integer_type_def valid_value_iffs)
  with viewed_bits256 [OF t] show ?thesis by (metis pattern_integer)
qed

lemma good_value_py_eq:
  assumes "good_value v t" "good_value u t"
  shows "py_eq v u \<longleftrightarrow> v = u"
proof (cases "hex_typed t")
  case True
  with assms obtain s r where "v = JStr s" "u = JStr r" unfolding good_value_def by metis
  then show ?thesis by (simp add: py_eq_def)
next
  case False
  with assms show ?thesis
    by (cases t) (auto simp: good_value_def valid_value_iffs hex_typed_def py_eq_def)
qed

section \<open>Bit operations on patterns\<close>

lemma bits256_take: "bits256 i = take_bit 256 i"
  by (simp only: bits256_def take_bit_eq_mod)

lemma bits256_idem [simp]: "bits256 (bits256 i) = bits256 i"
  by (simp add: bits256_def)

lemma bv_value_bits256:
  "bv_value BvAdd 256 (bits256 i) (bits256 j) = bits256 (i + j)"
  "bv_value BvSub 256 (bits256 i) (bits256 j) = bits256 (i - j)"
  "bv_value BvMul 256 (bits256 i) (bits256 j) = bits256 (i * j)"
  "bv_value BvAnd 256 (bits256 i) (bits256 j) = bits256 (i AND j)"
  "bv_value BvOr 256 (bits256 i) (bits256 j) = bits256 (i OR j)"
  "bv_value BvXor 256 (bits256 i) (bits256 j) = bits256 (i XOR j)"
  by (simp_all only: bv_value.simps bits256_def mod_add_eq mod_diff_eq mod_mult_eq)
    (simp_all only: take_bit_eq_mod [symmetric] take_bit_and take_bit_or take_bit_xor)

lemma bits256_0: "bits256 0 = 0"
  by (simp add: bits256_def)

lemma neg_bits256: "(- bits256 i) mod 2 ^ 256 = bits256 (- i)"
  by (simp only: bits256_def mod_minus_eq)

lemma not_bits256: "(NOT (bits256 i)) mod 2 ^ 256 = bits256 (NOT i)"
  by (simp only: bits256_take take_bit_eq_mod [symmetric] take_bit_not_take_bit)

lemma shl_bits256:
  "bv_value BvShl 256 (bits256 i) j = (if 256 \<le> j then 0 else bits256 (push_bit (nat j) i))"
proof -
  have "take_bit 256 (push_bit n (take_bit 256 i)) = take_bit 256 (push_bit n i)" for n
    by (auto simp: bit_eq_iff bit_take_bit_iff bit_push_bit_iff)
  then show ?thesis by (simp only: bv_value.simps bits256_take take_bit_eq_mod [symmetric] of_nat_numeral)
qed

section \<open>Results\<close>

text \<open>The constraints hold exactly when the evaluation returns, and then the expression has its value.\<close>

definition agrees :: "assignment \<Rightarrow> formula list \<Rightarrow> smt_expr \<Rightarrow> eval_exn + json \<Rightarrow> value_type \<Rightarrow> bool" where
  "agrees J cs z r t = ((all_true J cs \<longleftrightarrow> \<not> isl r) \<and> (\<forall>v. r = Inr v \<longrightarrow> represents J z v t))"

lemma agreesI:
  assumes "integer_type t" "width c = 256" "\<not> isl r \<Longrightarrow> bits_value J c = bits256 k"
    and "safe_outcome (\<lambda>v. value_ok True v t) r" "\<And>v. r = Inr v \<Longrightarrow> v = JInt k"
    and "all_true J cs \<longleftrightarrow> \<not> isl r"
  shows "agrees J cs (ZBits c) r t"
proof -
  have "represents J (ZBits c) v t" if "r = Inr v" for v
  proof -
    from assms(5) [OF that] have v: "v = JInt k" .
    with assms(4) that have "valid_value (JInt k) t" by (simp add: value_ok_def)
    moreover have "bits_value J c = bits256 k" by (rule assms(3)) (simp add: that)
    ultimately show ?thesis using assms(1,2) v by (simp add: represents_integer)
  qed
  with assms(6) show ?thesis by (simp add: agrees_def)
qed

lemma checked_isl: "integer_type t \<Longrightarrow> \<not> isl (checked_integer_result (JInt k) t) \<longleftrightarrow> valid_value (JInt k) t"
  by (auto simp: integer_type_def checked_integer_result_def py_int_fun_def valid_value_iffs
      uint256_limit_def int256_min_def int256_max_def)

lemma checked_value: "checked_integer_result (JInt k) t = Inr v \<Longrightarrow> v = JInt k"
  by (auto simp: checked_integer_result_def py_int_fun_def split: if_splits)

section \<open>Unary operators\<close>

lemma unary_agrees:
  assumes "op = ''not'' \<and> t = BOOL \<or> op = ''neg'' \<and> t = INT256 \<or> op = ''bitnot'' \<and> integer_type t"
    and "well_sorted z t"
  obtains z' cs where "translate_unary Z op t z st = Inr (z', with_constraints cs st)" "well_sorted z' t"
    "\<And>v. represents J z v t \<Longrightarrow> agrees J cs z' (eval_unary op v t) t"
  using assms(1)
proof (elim disjE conjE)
  assume op: "op = ''not''" "t = BOOL"
  with assms(2) obtain f where z: "z = ZForm f" by auto
  show thesis
    by (rule that [of "ZForm (FNot f)" "[]"])
      (auto simp: op z translate_unary_def with_constraints_def eval_unary_def agrees_def represents_BOOL)
next
  assume op: "op = ''neg''" "t = INT256"
  then have t: "integer_type t" by (simp add: integer_type_def)
  with assms(2) obtain a where z: "z = ZBits a" "width a = 256" by (auto simp: well_sorted_integer)
  show thesis
  proof (rule that [of "ZBits (BvNeg a)" "[NegNoOverflow a]"])
    fix v assume v: "represents J z v t"
    with t z obtain i where i: "v = JInt i" "valid_value (JInt i) t" "bits_value J a = bits256 i"
      by (auto simp: represents_integer)
    have safe: "safe_outcome (\<lambda>v. value_ok True v t) (eval_unary op v t)"
      using i op by (intro eval_unary_safe) (simp_all add: value_ok_def)
    have "truth J (NegNoOverflow a) \<longleftrightarrow> i \<noteq> - (2 ^ 255)"
      using i(2) by (simp add: z(2) i(3) op(2) signed_bits256)
    moreover have "bits_value J (BvNeg a) = bits256 (- i)"
      by (simp only: bits_value.simps z(2) i(3) neg_bits256)
    ultimately show "agrees J [NegNoOverflow a] (ZBits (BvNeg a)) (eval_unary op v t) t"
      using z i op by (intro agreesI [where k = "- i"] t safe)
        (auto simp: eval_unary_def py_eq_def py_int_fun_def int256_min_def simp del: truth.simps bits_value.simps
          split: if_splits)
  qed (use op z in \<open>simp_all add: translate_unary_def sort_width_def\<close>)
next
  assume op: "op = ''bitnot''" and t: "integer_type t"
  with assms(2) obtain a where z: "z = ZBits a" "width a = 256" by (auto simp: well_sorted_integer)
  show thesis
  proof (rule that [of "ZBits (BvNot a)" "[]"])
    fix v assume v: "represents J z v t"
    with t z obtain i where i: "v = JInt i" "valid_value (JInt i) t" "bits_value J a = bits256 i"
      by (auto simp: represents_integer)
    have safe: "safe_outcome (\<lambda>v. value_ok True v t) (eval_unary op v t)"
      using i op t by (intro eval_unary_safe) (simp_all add: value_ok_def)
    have "bits_value J (BvNot a) = bits256 (normalize_integer (NOT i) t)"
      by (simp only: bits_value.simps z(2) i(3) not_bits256 bits256_normalize)
    then show "agrees J [] (ZBits (BvNot a)) (eval_unary op v t) t"
      using z i op t by (intro agreesI [OF t _ _ safe])
        (auto simp: eval_unary_def py_int_fun_def simp del: bits_value.simps)
  qed (use op t z integer_not_hex [OF t] in \<open>auto simp: translate_unary_def with_constraints_def\<close>)
qed


section \<open>Comparisons\<close>

lemma translate_binary_bits:
  "op \<in> set known_binary \<Longrightarrow> width a = width b \<Longrightarrow> translate_binary Z op lt t (ZBits a) (ZBits b) st =
     (case compare_bits op lt of
        Some p \<Rightarrow> Inr (ZForm (BvPred p a b), st)
      | None \<Rightarrow> (case compute_bits op t (width b) a b of
          Some (f, cs) \<Rightarrow> Inr (ZBits (BvApp f a b), with_constraints cs st)
        | None \<Rightarrow> keep_state st (ill_sorted Z op [ZBits a, ZBits b])))"
  by (simp add: translate_binary_def Let_def)

lemma with_no_constraints [simp]: "with_constraints [] st = st"
  by (simp add: with_constraints_def)

lemma comparison_agrees:
  assumes "op \<in> set comparison_binary" "well_sorted z t" "well_sorted y t"
  obtains f where "translate_binary Z op t BOOL z y st = Inr (ZForm f, st)"
    "\<And>v u. represents J z v t \<Longrightarrow> represents J y u t \<Longrightarrow>
       eval_binary op v u BOOL = Inr (JBool (truth J f))"
proof -
  have op: "op = ''eq'' \<or> op = ''neq''" and known: "op \<in> set known_binary"
    using assms(1) by (auto simp: comparison_binary_def known_binary_def)
  have eval: "eval_binary op v u BOOL = Inr (JBool ((v = u) = (op = ''eq'')))"
    if "represents J z v t" "represents J y u t" for v u
    using good_value_py_eq [OF that [THEN represents_good]] op assms(1)
    by (auto simp: eval_binary_def eval_comparison_def)
  show thesis
  proof (cases "t = BOOL")
    case True
    with assms obtain f g where "z = ZForm f" "y = ZForm g" by auto
    with op eval True show thesis
      by (intro that [of "if op = ''eq'' then FIff f g else FDistinct f g"])
        (auto simp: translate_binary_def boolean_term_def known_binary_def represents_BOOL)
  next
    case False
    with assms(2,3) obtain a b where z: "z = ZBits a" "y = ZBits b" "width a = width b"
      by (auto simp: well_sorted_def split: smt_expr.splits)
    show thesis
    proof (rule that [of "BvPred (if op = ''eq'' then BvEq else BvDistinct) a b"])
      show "translate_binary Z op t BOOL z y st = Inr (ZForm (BvPred (if op = ''eq'' then BvEq else BvDistinct) a b), st)"
        using op by (auto simp: z translate_binary_bits known_binary_def compare_bits_def)
      fix v u assume r: "represents J z v t" "represents J y u t"
      then have "bits_value J a = pattern v" "bits_value J b = pattern u"
        by (simp_all add: represents_def z)
      with pattern_inject [OF r [THEN represents_good] False] op eval [OF r]
      show "eval_binary op v u BOOL = Inr (JBool (truth J (BvPred (if op = ''eq'' then BvEq else BvDistinct) a b)))"
        by auto
    qed
  qed
qed

lemma ordering_agrees:
  assumes "op \<in> set ordering_binary" "integer_type t" "well_sorted z t" "well_sorted y t"
  obtains f where "translate_binary Z op t BOOL z y st = Inr (ZForm f, st)"
    "\<And>v u. represents J z v t \<Longrightarrow> represents J y u t \<Longrightarrow>
       eval_binary op v u BOOL = Inr (JBool (truth J f))"
proof -
  let ?s = "t = INT256"
  define p where "p = (if op = ''ge'' then BvGe ?s else if op = ''le'' then BvLe ?s
    else if op = ''gt'' then BvGt ?s else BvLt ?s)"
  from assms obtain a b where z: "z = ZBits a" "y = ZBits b" "width a = 256" "width b = 256"
    by (auto simp: well_sorted_integer)
  have op: "op = ''ge'' \<or> op = ''le'' \<or> op = ''gt'' \<or> op = ''lt''"
    using assms(1) by (auto simp: ordering_binary_def)
  show thesis
  proof (rule that [of "BvPred p a b"])
    show "translate_binary Z op t BOOL z y st = Inr (ZForm (BvPred p a b), st)"
      using op by (elim disjE) (simp_all add: z translate_binary_bits known_binary_def compare_bits_def p_def)
    fix v u assume "represents J z v t" "represents J y u t"
    with assms(2) z obtain i j where ij: "v = JInt i" "u = JInt j" "valid_value (JInt i) t" "valid_value (JInt j) t"
      "bits_value J a = bits256 i" "bits_value J b = bits256 j"
      by (auto simp: represents_integer)
    have "eval_binary op v u BOOL = eval_comparison op v u"
      using assms(1) by (simp add: eval_binary_def)
    also have "\<dots> = Inr (JBool (truth J (BvPred p a b)))"
      using op viewed_bits256 [OF assms(2)] ij(3,4)
      by (auto simp: eval_comparison_def py_less_def py_less_eq_def py_int_op_def p_def z ij)
    finally show "eval_binary op v u BOOL = Inr (JBool (truth J (BvPred p a b)))" .
  qed
qed


section \<open>Arithmetic, bitwise and shift operators\<close>

lemma strict_values:
  "valid_value (JInt i) t \<Longrightarrow> value_ok True (JInt i) t"
  by (rule value_ok_valid)

text \<open>What is shared: the operator is translated to \<open>f\<close> with constraints \<open>cs\<close>.\<close>

lemma compute_translated:
  assumes "compare_bits op lt = None" "op \<in> set known_binary" "width a = 256" "width b = 256"
    and "compute_bits op t 256 a b = Some (f, cs)"
  shows "translate_binary Z op lt t (ZBits a) (ZBits b) st = Inr (ZBits (BvApp f a b), with_constraints cs st)"
  using assms by (simp add: translate_binary_bits)

lemma bits256_zero: "integer_type t \<Longrightarrow> valid_value (JInt j) t \<Longrightarrow> bits256 j = 0 \<longleftrightarrow> j = 0"
  using viewed_bits256 [of t j] by (auto simp: viewed_def signed_view_def bits256_def split: if_splits)

lemma INT256_integer [simp]: "integer_type INT256" "integer_type UINT256"
  by (simp_all add: integer_type_def)

lemma arithmetic_constraints:
  assumes "op \<in> set arithmetic_binary" "integer_type t" "valid_value (JInt i) t" "valid_value (JInt j) t"
    and "width a = 256" "bits_value J a = bits256 i" "bits_value J b = bits256 j"
    and "compute_bits op t 256 a b = Some (f, cs)"
  shows "all_true J cs \<longleftrightarrow> \<not> isl (eval_arithmetic op (JInt i) (JInt j) t)"
proof -
  note view = viewed_bits256 [OF assms(2,3)] viewed_bits256 [OF assms(2,4)]
  have op: "op = ''add'' \<or> op = ''sub'' \<or> op = ''mul'' \<or> op = ''div'' \<or> op = ''mod''"
    using assms(1) by (auto simp: arithmetic_binary_def)
  show ?thesis
  proof (cases "t = INT256")
    case True
    with view have v: "signed_view 256 (bits256 i) = i" "signed_view 256 (bits256 j) = j" by (simp_all add: viewed_def)
    show ?thesis
      using op True assms(3-8) bits256_zero [of t j] v
      by (elim disjE)
        (auto simp: compute_bits_def eval_arithmetic_def py_add_def py_mul_def py_int_op_def py_less_def py_eq_def
          viewed_def upper_limit_def checked_isl valid_value_INT256 int256_min_def split: if_splits)
  next
    case False
    with assms(2) have t: "t = UINT256" by (simp add: integer_type_def)
    with view have v: "bits256 i = i" "bits256 j = j" by (simp_all add: viewed_def)
    show ?thesis
      using op t assms(3-8) v
      by (elim disjE)
        (auto simp: compute_bits_def eval_arithmetic_def py_add_def py_mul_def py_int_op_def py_less_def py_eq_def
          viewed_def upper_limit_def checked_isl valid_value_UINT256 split: if_splits)
  qed
qed

definition arithmetic_result :: "string \<Rightarrow> value_type \<Rightarrow> int \<Rightarrow> int \<Rightarrow> int" where
  "arithmetic_result op t i j = (if op = ''add'' then i + j else if op = ''sub'' then i - j else if op = ''mul'' then i * j
      else if op = ''div'' then (if t = INT256 then trunc_div i j else i div j)
      else (if t = INT256 then trunc_mod i j else i mod j))"

lemma signed_division_bits256:
  "y \<noteq> 0 \<Longrightarrow> bv_value BvSDiv 256 x y = bits256 (trunc_div (signed_view 256 x) (signed_view 256 y))"
  "y \<noteq> 0 \<Longrightarrow> bv_value BvSRem 256 x y = bits256 (trunc_mod (signed_view 256 x) (signed_view 256 y))"
  by (simp_all only: bv_value.simps bits256_def if_False)

lemma arithmetic_value:
  assumes "op \<in> set arithmetic_binary" "integer_type t" "valid_value (JInt i) t" "valid_value (JInt j) t"
    and "width a = 256" "bits_value J a = bits256 i" "bits_value J b = bits256 j"
    and "compute_bits op t 256 a b = Some (f, cs)"
    and "\<not> isl (eval_arithmetic op (JInt i) (JInt j) t)"
  shows "bits_value J (BvApp f a b) = bits256 (arithmetic_result op t i j)"
proof -
  note view = viewed_bits256 [OF assms(2,3)] viewed_bits256 [OF assms(2,4)]
  have op: "op = ''add'' \<or> op = ''sub'' \<or> op = ''mul'' \<or> (op = ''div'' \<or> op = ''mod'') \<and> j \<noteq> 0"
  proof -
    have "isl (eval_arithmetic op (JInt i) (JInt 0) t)" if "op = ''div'' \<or> op = ''mod''"
      using that by (elim disjE) (simp_all add: eval_arithmetic_def py_eq_def)
    with assms(9) have "op = ''div'' \<or> op = ''mod'' \<Longrightarrow> j \<noteq> 0" by blast
    with assms(1) show ?thesis unfolding arithmetic_binary_def list.set insert_iff empty_iff by blast
  qed
  have val: "bits_value J (BvApp f a b) = bv_value f 256 (bits256 i) (bits256 j)"
    by (simp add: assms(5-7))
  have "bv_value f 256 (bits256 i) (bits256 j) = bits256 (arithmetic_result op t i j)" (is ?eq)
  proof (cases "t = INT256")
    case True
    with view have v: "signed_view 256 (bits256 i) = i" "signed_view 256 (bits256 j) = j" by (simp_all add: viewed_def)
    have f: "f = (if op = ''add'' then BvAdd else if op = ''sub'' then BvSub else if op = ''mul'' then BvMul
        else if op = ''div'' then BvSDiv else BvSRem)"
      using op assms(8) True by (elim disjE conjE) (simp_all add: compute_bits_def)
    have "j \<noteq> 0 \<Longrightarrow> bits256 j \<noteq> 0" using bits256_zero [OF assms(2,4)] by simp
    note division = signed_division_bits256 [OF this, of "bits256 i", unfolded v]
    from op show ?eq
    proof (elim disjE conjE)
      assume "op = ''div''" "j \<noteq> 0"
      with f True division(1) show ?eq
        by (simp add: arithmetic_result_def del: bv_value.simps)
    next
      assume "op = ''mod''" "j \<noteq> 0"
      with f True division(2) show ?eq
        by (simp add: arithmetic_result_def del: bv_value.simps)
    qed (simp_all add: f arithmetic_result_def bv_value_bits256 del: bv_value.simps)
  next
    case False
    with assms(2) have t: "t = UINT256" by (simp add: integer_type_def)
    with view have v: "bits256 i = i" "bits256 j = j" by (simp_all add: viewed_def)
    from op show ?eq
    proof (elim disjE conjE)
      assume "op = ''div''" "j \<noteq> 0"
      with unsigned_bits256 [OF unsigned_div_valid] assms(3,4,8) t v show ?eq
        by (auto simp: compute_bits_def arithmetic_result_def)
    next
      assume "op = ''mod''" "j \<noteq> 0"
      with unsigned_bits256 [OF unsigned_mod_valid] assms(4,8) t v show ?eq
        by (auto simp: compute_bits_def arithmetic_result_def)
    qed (use assms(8) t in \<open>auto simp: compute_bits_def arithmetic_result_def bv_value_bits256
        simp del: bv_value.simps\<close>)
  qed
  then show ?thesis by (simp only: val)
qed

lemma arithmetic_agrees:
  assumes "op \<in> set arithmetic_binary" "integer_type t" "well_sorted z t" "well_sorted y t"
  obtains z' cs where "translate_binary Z op t t z y st = Inr (z', with_constraints cs st)" "well_sorted z' t"
    "\<And>v u. represents J z v t \<Longrightarrow> represents J y u t \<Longrightarrow> agrees J cs z' (eval_binary op v u t) t"
proof -
  from assms obtain a b where z: "z = ZBits a" "y = ZBits b" "width a = 256" "width b = 256"
    by (auto simp: well_sorted_integer)
  have op: "op = ''add'' \<or> op = ''sub'' \<or> op = ''mul'' \<or> op = ''div'' \<or> op = ''mod''"
    using assms(1) by (auto simp: arithmetic_binary_def)
  obtain f cs where c: "compute_bits op t 256 a b = Some (f, cs)"
    using op by (cases "t = INT256") (auto simp: compute_bits_def Let_def)
  have known: "compare_bits op t = None" "op \<in> set known_binary"
    using op by (auto simp: compare_bits_def known_binary_def)
  show thesis
  proof (rule that [of "ZBits (BvApp f a b)" cs])
    show "translate_binary Z op t t z y st = Inr (ZBits (BvApp f a b), with_constraints cs st)"
      unfolding z(1,2) using known z(3,4) c by (rule compute_translated)
    show "well_sorted (ZBits (BvApp f a b)) t"
      using integer_not_hex [OF assms(2)] by (simp add: z(3))
    fix v u assume "represents J z v t" "represents J y u t"
    with assms(2) z obtain i j where ij: "v = JInt i" "u = JInt j" "valid_value (JInt i) t" "valid_value (JInt j) t"
      "bits_value J a = bits256 i" "bits_value J b = bits256 j"
      by (auto simp: represents_integer)
    have eval: "eval_binary op v u t = eval_arithmetic op v u t"
      using operator_disjoint(3) [OF assms(1)] assms(1) by (simp add: eval_binary_def)
    have safe: "safe_outcome (\<lambda>w. value_ok True w t) (eval_arithmetic op v u t)"
      by (rule eval_arithmetic_safe [OF assms(1,2)]) (simp_all add: ij strict_values)
    have "agrees J cs (ZBits (BvApp f a b)) (eval_arithmetic op v u t) t"
      using assms(2)
    proof (rule agreesI)
      show "width (BvApp f a b) = 256" by (simp add: z(3))
      show "safe_outcome (\<lambda>w. value_ok True w t) (eval_arithmetic op v u t)" by (rule safe)
      show "w = JInt (arithmetic_result op t i j)" if "eval_arithmetic op v u t = Inr w" for w
        using that op
        by (auto simp: eval_arithmetic_def arithmetic_result_def ij py_add_def py_mul_def py_int_op_def py_less_def
            result_simps dest: checked_value split: if_splits)
      show "all_true J cs \<longleftrightarrow> \<not> isl (eval_arithmetic op v u t)"
        unfolding ij(1,2) using assms(1,2) ij(3,4) z(3) ij(5,6) c by (rule arithmetic_constraints)
      show "bits_value J (BvApp f a b) = bits256 (arithmetic_result op t i j)"
        if "\<not> isl (eval_arithmetic op v u t)"
        using assms(1,2) ij(3,4) z(3) ij(5,6) c that unfolding ij(1,2) by (rule arithmetic_value)
    qed
    with eval show "agrees J cs (ZBits (BvApp f a b)) (eval_binary op v u t) t" by simp
  qed
qed

lemma bitwise_agrees:
  assumes "op \<in> set bitwise_binary" "integer_type t" "well_sorted z t" "well_sorted y t"
  obtains z' cs where "translate_binary Z op t t z y st = Inr (z', with_constraints cs st)" "well_sorted z' t"
    "\<And>v u. represents J z v t \<Longrightarrow> represents J y u t \<Longrightarrow> agrees J cs z' (eval_binary op v u t) t"
proof -
  from assms obtain a b where z: "z = ZBits a" "y = ZBits b" "width a = 256" "width b = 256"
    by (auto simp: well_sorted_integer)
  have op: "op = ''band'' \<or> op = ''bor'' \<or> op = ''bxor''"
    using assms(1) by (auto simp: bitwise_binary_def)
  define f where "f = (if op = ''band'' then BvAnd else if op = ''bor'' then BvOr else BvXor)"
  have c: "compute_bits op t 256 a b = Some (f, [])"
    using op by (auto simp: compute_bits_def f_def)
  have known: "compare_bits op t = None" "op \<in> set known_binary"
    using op by (auto simp: compare_bits_def known_binary_def)
  show thesis
  proof (rule that [of "ZBits (BvApp f a b)" "[]"])
    show "translate_binary Z op t t z y st = Inr (ZBits (BvApp f a b), with_constraints [] st)"
      unfolding z(1,2) using known z(3,4) c by (rule compute_translated)
    show "well_sorted (ZBits (BvApp f a b)) t"
      using integer_not_hex [OF assms(2)] by (simp add: z(3))
    fix v u assume "represents J z v t" "represents J y u t"
    with assms(2) z obtain i j where ij: "v = JInt i" "u = JInt j" "valid_value (JInt i) t" "valid_value (JInt j) t"
      "bits_value J a = bits256 i" "bits_value J b = bits256 j"
      by (auto simp: represents_integer)
    define k where "k = (if op = ''band'' then i AND j else if op = ''bor'' then i OR j else i XOR j)"
    have eval: "eval_binary op v u t = Inr (JInt (normalize_integer k t))"
      using operator_disjoint(4) [OF assms(1)] assms(1)
      by (simp add: eval_binary_def eval_bitwise_def py_int_op_def ij k_def)
    have "bits_value J (BvApp f a b) = bits256 k"
      using op by (elim disjE)
        (simp_all only: bits_value.simps z(3) ij f_def k_def bv_value_bits256 if_True if_False, simp_all add: bv_value_bits256(4-6) [unfolded bv_value.simps])
    then show "agrees J [] (ZBits (BvApp f a b)) (eval_binary op v u t) t"
      using assms(2) by (auto simp: agrees_def eval represents_integer z(3) bits256_normalize normalize_integer_valid)
  qed
qed

lemma shift_value:
  "0 \<le> j \<Longrightarrow> bv_value BvShl 256 (bits256 i) j =
     bits256 (if 256 \<le> j then 0 else normalize_integer (push_bit (nat j) i) t)"
  "valid_value (JInt i) UINT256 \<Longrightarrow> bv_value BvLshr 256 (bits256 i) j =
     bits256 (if 256 \<le> j then 0 else drop_bit (nat j) (normalize_integer i UINT256))"
  "valid_value (JInt i) INT256 \<Longrightarrow> bv_value BvAshr 256 (bits256 i) j =
     bits256 (if 256 \<le> j then (if i < 0 then -1 else 0) else drop_bit (nat j) i)"
proof -
  show "bv_value BvShl 256 (bits256 i) j = bits256 (if 256 \<le> j then 0 else normalize_integer (push_bit (nat j) i) t)"
    by (simp add: shl_bits256 bits256_normalize bits256_0 del: bv_value.simps)
next
  assume i: "valid_value (JInt i) UINT256"
  then have "normalize_integer i UINT256 = i"
    by (simp add: normalize_integer_def uint256_limit_def valid_value_UINT256)
  moreover have "bits256 (drop_bit (nat j) i) = drop_bit (nat j) i"
    using drop_bit_valid [OF i, of "nat j"] by (intro unsigned_bits256) simp
  ultimately show "bv_value BvLshr 256 (bits256 i) j =
     bits256 (if 256 \<le> j then 0 else drop_bit (nat j) (normalize_integer i UINT256))"
    using unsigned_bits256 [OF i] by (simp add: bits256_def)
next
  assume "valid_value (JInt i) INT256"
  from signed_bits256 [OF this] show "bv_value BvAshr 256 (bits256 i) j =
     bits256 (if 256 \<le> j then (if i < 0 then -1 else 0) else drop_bit (nat j) i)"
    by (simp add: bits256_def)
qed

lemma shift_agrees:
  assumes "op \<in> set shift_binary" "integer_type t" "op = ''sar'' \<Longrightarrow> t = INT256" "op = ''shr'' \<Longrightarrow> t \<noteq> INT256"
    and "well_sorted z t" "well_sorted y UINT256"
  obtains z' cs where "translate_binary Z op t t z y st = Inr (z', with_constraints cs st)" "well_sorted z' t"
    "\<And>v u. represents J z v t \<Longrightarrow> represents J y u UINT256 \<Longrightarrow> agrees J cs z' (eval_binary op v u t) t"
proof -
  have ui: "integer_type UINT256" by (simp add: integer_type_def)
  from assms ui obtain a b where z: "z = ZBits a" "y = ZBits b" "width a = 256" "width b = 256"
    by (auto simp: well_sorted_integer)
  have op: "op = ''shl'' \<or> op = ''shr'' \<and> t = UINT256 \<or> op = ''sar'' \<and> t = INT256"
    using assms(1-4) by (auto simp: shift_binary_def integer_type_def)
  define f where "f = (if op = ''shl'' then BvShl else if op = ''shr'' then BvLshr else BvAshr)"
  have c: "compute_bits op t 256 a b = Some (f, [])"
    using op by (auto simp: compute_bits_def f_def)
  have known: "compare_bits op t = None" "op \<in> set known_binary"
    using op by (auto simp: compare_bits_def known_binary_def)
  show thesis
  proof (rule that [of "ZBits (BvApp f a b)" "[]"])
    show "translate_binary Z op t t z y st = Inr (ZBits (BvApp f a b), with_constraints [] st)"
      unfolding z(1,2) using known z(3,4) c by (rule compute_translated)
    show "well_sorted (ZBits (BvApp f a b)) t"
      using integer_not_hex [OF assms(2)] by (simp add: z(3))
    fix v u assume "represents J z v t" "represents J y u UINT256"
    with assms(2) ui z obtain i j where ij: "v = JInt i" "u = JInt j" "valid_value (JInt i) t"
      "valid_value (JInt j) UINT256" "bits_value J a = bits256 i" "bits_value J b = bits256 j"
      by (auto simp: represents_integer)
    have j: "bits256 j = j" "0 \<le> j" using ij(4) by (simp_all add: unsigned_bits256 valid_value_UINT256)
    define k where "k = (if 256 \<le> j then (if op = ''sar'' \<and> i < 0 then -1 else 0)
      else if op = ''shl'' then normalize_integer (push_bit (nat j) i) t
      else if op = ''shr'' then drop_bit (nat j) (normalize_integer i UINT256)
      else drop_bit (nat j) i)"
    have eval: "eval_binary op v u t = eval_shift op v u t"
      using operator_disjoint(5) [OF assms(1)] assms(1) by (simp only: eval_binary_def Un_iff simp_thms if_True if_False)
    have shift: "eval_shift op v u t = Inr (JInt k)"
      using op j(2) by (auto simp: eval_shift_def ij k_def py_less_eq_def py_less_def py_int_op_def)
    have "safe_outcome (\<lambda>w. value_ok True w t) (eval_shift op v u t)"
      by (rule eval_shift_safe) (use assms ij in \<open>simp_all add: strict_values\<close>)
    with shift have valid: "valid_value (JInt k) t" by (simp add: value_ok_def)
    have "bits_value J (BvApp f a b) = bv_value f 256 (bits256 i) j"
      by (simp add: z(3) ij j(1))
    also have "\<dots> = bits256 k"
      using op ij(3) j(2) shift_value(1) [of j i t] shift_value(2,3) [of i j]
      by (elim disjE conjE) (simp_all add: f_def k_def del: bv_value.simps)
    finally have "bits_value J (BvApp f a b) = bits256 k" .
    then show "agrees J [] (ZBits (BvApp f a b)) (eval_binary op v u t) t"
      using assms(2) valid by (auto simp: agrees_def eval shift represents_integer z(3))
  qed
qed

end
