(* ===== verification/Smt_Meaning.thy ===== *)
theory Smt_Meaning
  imports Smt_Operators
begin

text \<open>
  What a translated expression means. For an expression of the compiler's typing judgement, over
  constants that carry the trace's values, the accumulated constraints hold exactly when every
  subexpression evaluates, at every position and for every value of the bound variables, and then
  the translated expression has the evaluator's value.
\<close>

section \<open>Evaluation without short circuits\<close>

text \<open>
  Every subexpression evaluates: the evaluator itself stops at the first decisive operand, so it
  may return where this does not hold.
\<close>

fun evaluates_throughout ::
    "expr \<Rightarrow> bindings \<Rightarrow> (string \<rightharpoonup> json) \<Rightarrow> bindings list option \<Rightarrow> nat \<Rightarrow> bool" where
  "evaluates_throughout (Quantifier op x xt lits e t) bs bd tr i =
     list_all (\<lambda>l. evaluates_throughout e bs (bd(x \<mapsto> lit_value l)) tr i) lits"
| "evaluates_throughout (Temporal op e h t) bs bd tr i = (case tr of
       None \<Rightarrow> False
     | Some states \<Rightarrow> list_all (\<lambda>p. p < length states \<and> evaluates_throughout e (states ! p) bd tr p)
         (case h of Some horizon \<Rightarrow> once_positions i horizon | None \<Rightarrow> [0 ..< length states]))"
| "evaluates_throughout (Unary op e t) bs bd tr i =
     (evaluates_throughout e bs bd tr i \<and> \<not> isl (evaluate (Unary op e t) bs bd tr i))"
| "evaluates_throughout (Binary op l r t) bs bd tr i =
     (evaluates_throughout l bs bd tr i \<and> evaluates_throughout r bs bd tr i \<and>
      \<not> isl (evaluate (Binary op l r t) bs bd tr i))"
| "evaluates_throughout e bs bd tr i = (\<not> isl (evaluate e bs bd tr i))"

section \<open>What the translation is given\<close>

fun symbol_refs :: "expr \<Rightarrow> (string \<times> value_type \<times> string \<times> string) set" where
  "symbol_refs (SymbolRef sid t dm st) = {(sid, t, dm, st)}"
| "symbol_refs (Unary op e t) = symbol_refs e"
| "symbol_refs (Binary op l r t) = symbol_refs l \<union> symbol_refs r"
| "symbol_refs (Quantifier op x xt lits e t) = symbol_refs e"
| "symbol_refs (Temporal op e h t) = symbol_refs e"
| "symbol_refs _ = {}"

text \<open>The literals are in canonical form.\<close>

fun good_literals :: "expr \<Rightarrow> bool" where
  "good_literals (Lit l) = good_value (lit_value l) (lit_type l)"
| "good_literals (Unary op e t) = good_literals e"
| "good_literals (Binary op l r t) = (good_literals l \<and> good_literals r)"
| "good_literals (Quantifier op x xt lits e t) =
     (list_all (\<lambda>l. good_value (lit_value l) (lit_type l)) lits \<and> good_literals e)"
| "good_literals (Temporal op e h t) = good_literals e"
| "good_literals _ = True"

fun has_temporal :: "expr \<Rightarrow> bool" where
  "has_temporal (Unary op e t) = has_temporal e"
| "has_temporal (Binary op l r t) = (has_temporal l \<or> has_temporal r)"
| "has_temporal (Quantifier op x xt lits e t) = has_temporal e"
| "has_temporal (Temporal op e h t) = True"
| "has_temporal _ = False"

definition state_at :: "bindings list option \<Rightarrow> bindings \<Rightarrow> nat \<Rightarrow> bindings" where
  "state_at tr bs p = (case tr of None \<Rightarrow> bs | Some states \<Rightarrow> states ! p)"

definition trace_length :: "bindings list option \<Rightarrow> int option" where
  "trace_length tr = map_option (\<lambda>states. int (length states)) tr"

text \<open>
  The symbols of an expression, at every position: their keys have the types \<open>T\<close>, and the constants
  of those keys carry the values the trace gives them.
\<close>

record reading =
  model_of :: assignment
  hash_of :: "json \<Rightarrow> string"
  type_of_key :: "string \<Rightarrow> value_type"
  trace_of :: "bindings list option"
  base_of :: bindings

definition key_at :: "reading \<Rightarrow> nat \<Rightarrow> string \<Rightarrow> string \<Rightarrow> string \<Rightarrow> string" where
  "key_at R p sid s dm = variable_key (trace_length (trace_of R)) p sid s dm"

definition typed_keys :: "reading \<Rightarrow> expr \<Rightarrow> bool" where
  "typed_keys R e = (\<forall>(sid, t, dm, s) \<in> symbol_refs e. \<forall>p. index_ok (trace_of R) p \<longrightarrow>
     type_of_key R (key_at R p sid s dm) = t)"

definition carries :: "reading \<Rightarrow> expr \<Rightarrow> bool" where
  "carries R e = (\<forall>(sid, t, dm, s) \<in> symbol_refs e. \<forall>p. index_ok (trace_of R) p \<longrightarrow>
     (\<exists>v. state_at (trace_of R) (base_of R) p (sid, s, dm) = Some v \<and>
        represents (model_of R) (sorted_const (const_name (hash_of R) (key_at R p sid s dm)) t) v t))"

lemmas reading_defs = typed_keys_def carries_def

lemma typed_keys_simps [simp]:
  "typed_keys R (Unary op e t) = typed_keys R e"
  "typed_keys R (Binary op l r t) \<longleftrightarrow> typed_keys R l \<and> typed_keys R r"
  "typed_keys R (Quantifier op x xt lits e t) = typed_keys R e"
  "typed_keys R (Temporal op e h t) = typed_keys R e"
  by (simp_all add: typed_keys_def ball_Un)

lemma carries_simps [simp]:
  "carries R (Unary op e t) = carries R e"
  "carries R (Binary op l r t) \<longleftrightarrow> carries R l \<and> carries R r"
  "carries R (Quantifier op x xt lits e t) = carries R e"
  "carries R (Temporal op e h t) = carries R e"
  by (simp_all add: carries_def ball_Un)

text \<open>The dictionary of variables holds the constants of its keys.\<close>

definition variables_ok :: "reading \<Rightarrow> tstate \<Rightarrow> bool" where
  "variables_ok R st = (\<forall>key z t. (key, z, t) \<in> set (variables st) \<longrightarrow>
     t = type_of_key R key \<and> z = sorted_const (const_name (hash_of R) key) t)"

text \<open>The values of the bound variables.\<close>

definition bound_ok ::
    "assignment \<Rightarrow> (string \<rightharpoonup> value_type) \<Rightarrow> (string \<rightharpoonup> smt_expr) \<Rightarrow> (string \<rightharpoonup> json) \<Rightarrow> bool" where
  "bound_ok J \<Gamma> zd bd = (\<forall>x t. \<Gamma> x = Some t \<longrightarrow> (\<exists>z v. zd x = Some z \<and> bd x = Some v \<and> represents J z v t))"

lemma bound_ok_upd:
  "bound_ok J \<Gamma> zd bd \<Longrightarrow> represents J z v t \<Longrightarrow> bound_ok J (\<Gamma>(x \<mapsto> t)) (zd(x \<mapsto> z)) (bd(x \<mapsto> v))"
  by (simp add: bound_ok_def)

lemma bound_ok_env: "bound_ok J \<Gamma> zd bd \<Longrightarrow> env_ok \<Gamma> bd"
  unfolding bound_ok_def env_ok_def by (metis represents_good good_value_valid)

section \<open>Loops\<close>

lemma formulas_map [simp]: "formulas (map ZForm fs) = Some fs"
  by (induction fs) simp_all

lemma join_terms_formulas:
  obtains g where "join_terms Z every (map ZForm fs) = Inr (ZForm g)"
    "\<And>J. truth J g = (if every then list_all (truth J) fs else list_ex (truth J) fs)"
  by (cases "fs = []"; cases every) (fastforce simp: join_terms_def)+

lemma results_map:
  "all_results f (map g xs) = all_results (\<lambda>x. f (g x)) xs"
  "any_results f (map g xs) = any_results (\<lambda>x. f (g x)) xs"
  by (induction xs; simp cong: if_cong)+

text \<open>
  A loop of translations of Booleans: \<open>D x\<close> says that the body evaluates throughout for \<open>x\<close>, and
  \<open>E x\<close> is its evaluation; both are related to the formulas under \<open>C\<close>.
\<close>

lemma fold_translate:
  assumes "variables_ok R st"
    and "\<And>x s. x \<in> set xs \<Longrightarrow> variables_ok R s \<Longrightarrow> \<exists>f cs s'. F x s = Inr (ZForm f, s') \<and>
      constraints s' = constraints s @ cs \<and> variables_ok R s' \<and>
      (C \<longrightarrow> (all_true J cs \<longleftrightarrow> D x) \<and> (D x \<longrightarrow> E x = Inr (JBool (truth J f))))"
  obtains fs cs st' where "fold_result F xs st = Inr (map ZForm fs, st')"
    "constraints st' = constraints st @ cs" "variables_ok R st'"
    "C \<Longrightarrow> all_true J cs \<longleftrightarrow> list_all D xs"
    "C \<Longrightarrow> list_all D xs \<Longrightarrow> all_results E xs = Inr (JBool (list_all (truth J) fs)) \<and>
       any_results E xs = Inr (JBool (list_ex (truth J) fs))"
  using assms
proof (induction xs arbitrary: st thesis)
  case Nil
  then show ?case by (auto intro: Nil.prems(1) [of "[]" st "[]"])
next
  case (Cons x xs)
  obtain f cs s where f: "F x st = Inr (ZForm f, s)" "constraints s = constraints st @ cs" "variables_ok R s"
    "C \<longrightarrow> (all_true J cs \<longleftrightarrow> D x) \<and> (D x \<longrightarrow> E x = Inr (JBool (truth J f)))"
    using Cons.prems(2) Cons.prems(3) [of x st] by auto
  obtain fs ds st' where rest: "fold_result F xs s = Inr (map ZForm fs, st')"
    "constraints st' = constraints s @ ds" "variables_ok R st'"
    "C \<Longrightarrow> all_true J ds \<longleftrightarrow> list_all D xs"
    "C \<Longrightarrow> list_all D xs \<Longrightarrow> all_results E xs = Inr (JBool (list_all (truth J) fs)) \<and>
       any_results E xs = Inr (JBool (list_ex (truth J) fs))"
    using Cons.IH [OF _ f(3)] Cons.prems(3) by (metis (no_types, lifting) list.set_intros(2))
  show ?case
    by (rule Cons.prems(1) [of "f # fs" st' "cs @ ds"]) (use f rest in auto)
qed

section \<open>Leaves\<close>

lemma translate_literal_good:
  assumes "good_value v t"
  obtains z where "translate_literal Z v t = Inr z" "\<And>J. represents J z v t"
proof (cases "hex_typed t")
  case True
  then have t: "t \<noteq> BOOL" "0 < hex_width t" "(16::int) ^ hex_width t = 2 ^ sort_width t"
    by (auto simp: hex_typed_def hex_width_def sort_width_def)
  from True assms have r: "0 \<le> pattern v" "pattern v < 16 ^ hex_width t"
    "v = JStr (hex_text (hex_width t) (pattern v))" by (auto simp: good_value_def)
  show thesis
  proof (rule that [of "ZBits (BvVal (pattern v) (sort_width t))"])
    show "translate_literal Z v t = Inr (ZBits (BvVal (pattern v) (sort_width t)))"
    proof -
      obtain s where "v = JStr s" "py_int16 s = Some (pattern v)"
        using r(3) int16_hex_text(1) [OF r(1,2) t(2)] by metis
      then show ?thesis using t(1) by (simp add: translate_literal_def)
    qed
    show "represents J (ZBits (BvVal (pattern v) (sort_width t))) v t" for J
    proof -
      have "pattern v mod 2 ^ sort_width t = pattern v"
        using r(1,2) unfolding t(3) by (rule mod_pos_pos_trivial)
      then show ?thesis using t(1) assms by (simp add: represents_def)
    qed
  qed
next
  case False
  show thesis
  proof (cases "t = BOOL")
    case True
    with assms obtain b where "v = JBool b" by (auto simp: good_value_def valid_value_BOOL)
    with True that [of "ZForm (FVal b)"] show thesis by (simp add: translate_literal_def)
  next
    case no: False
    with False have t: "integer_type t" by (cases t) (auto simp: hex_typed_def integer_type_def)
    from assms t obtain i where i: "v = JInt i" "valid_value (JInt i) t"
      by (auto simp: good_value_integer integer_type_def valid_value_iffs)
    have "bits_value J (BvVal i 256) = bits256 i" for J by (simp only: bits_value.simps bits256_def)
    with i t that [of "ZBits (BvVal i 256)"] integer_not_hex [OF t] no show thesis
      by (simp add: translate_literal_def represents_integer del: bits_value.simps)
  qed
qed

lemma dict_put_memberD: "x \<in> set (dict_put k v d) \<Longrightarrow> x = (k, v) \<or> x \<in> set d"
  by (induction d) (auto split: if_splits)

lemma translate_symbol_ok:
  assumes "variables_ok R st" "type_of_key R key = t"
  obtains st' where "translate_symbol (hash_of R) key t st = (sorted_const (const_name (hash_of R) key) t, st')"
    "constraints st' = constraints st" "variables_ok R st'"
proof (cases "dict_get (variables st) key")
  case None
  let ?z = "sorted_const (const_name (hash_of R) key) t"
  show thesis
    by (rule that [of "st\<lparr>variables := dict_put key (?z, t) (variables st)\<rparr>"])
      (use assms None in \<open>auto simp: translate_symbol_def variables_ok_def Let_def dest: dict_put_memberD\<close>)
next
  case (Some a)
  with assms have "a = (sorted_const (const_name (hash_of R) key) t, t)"
    by (cases a) (auto simp: variables_ok_def dest: map_of_SomeD)
  with Some assms show thesis
    by (intro that [of st]) (simp_all add: translate_symbol_def)
qed

lemma sorted_const_sorted: "well_sorted (sorted_const name t) t"
  by (auto simp: sorted_const_def)

text \<open>
  The translation of an expression of the typing judgement, by induction on its derivation.
\<close>

definition exact ::
    "reading \<Rightarrow> z3_native \<Rightarrow> expr \<Rightarrow> (string \<rightharpoonup> smt_expr) \<Rightarrow> (string \<rightharpoonup> json) \<Rightarrow> nat \<Rightarrow> value_type \<Rightarrow> tstate \<Rightarrow> bool" where
  "exact R Z e zd bd i t st = (\<exists>z cs st'.
     translate Z (hash_of R) (trace_length (trace_of R)) e i zd st = Inr (z, st') \<and>
     constraints st' = constraints st @ cs \<and> variables_ok R st' \<and> well_sorted z t \<and>
     (carries R e \<longrightarrow>
        (all_true (model_of R) cs \<longleftrightarrow> evaluates_throughout e (state_at (trace_of R) (base_of R) i) bd (trace_of R) i) \<and>
        (evaluates_throughout e (state_at (trace_of R) (base_of R) i) bd (trace_of R) i \<longrightarrow>
           (\<exists>v. evaluate e (state_at (trace_of R) (base_of R) i) bd (trace_of R) i = Inr v \<and>
              represents (model_of R) z v t))))"

lemma exactI:
  assumes "translate Z (hash_of R) (trace_length (trace_of R)) e i zd st = Inr (z, st')"
    and "constraints st' = constraints st @ cs" "variables_ok R st'" "well_sorted z t"
    and "carries R e \<Longrightarrow>
      all_true (model_of R) cs \<longleftrightarrow> evaluates_throughout e (state_at (trace_of R) (base_of R) i) bd (trace_of R) i"
    and "carries R e \<Longrightarrow> evaluates_throughout e (state_at (trace_of R) (base_of R) i) bd (trace_of R) i \<Longrightarrow>
      \<exists>v. evaluate e (state_at (trace_of R) (base_of R) i) bd (trace_of R) i = Inr v \<and> represents (model_of R) z v t"
  shows "exact R Z e zd bd i t st"
  using assms unfolding exact_def by blast

lemma exactE:
  assumes "exact R Z e zd bd i t st"
  obtains z cs st' where "translate Z (hash_of R) (trace_length (trace_of R)) e i zd st = Inr (z, st')"
    and "constraints st' = constraints st @ cs" "variables_ok R st'" "well_sorted z t"
    and "carries R e \<Longrightarrow>
      all_true (model_of R) cs \<longleftrightarrow> evaluates_throughout e (state_at (trace_of R) (base_of R) i) bd (trace_of R) i"
    and "carries R e \<Longrightarrow> evaluates_throughout e (state_at (trace_of R) (base_of R) i) bd (trace_of R) i \<Longrightarrow>
      \<exists>v. evaluate e (state_at (trace_of R) (base_of R) i) bd (trace_of R) i = Inr v \<and> represents (model_of R) z v t"
  using assms unfolding exact_def by blast

lemma with_constraints_simps [simp]:
  "constraints (with_constraints cs st) = constraints st @ cs"
  "variables (with_constraints cs st) = variables st"
  "variables_ok R (with_constraints cs st) \<longleftrightarrow> variables_ok R st"
  by (simp_all add: with_constraints_def variables_ok_def)

section \<open>Leaves\<close>

lemma exact_symbol:
  assumes "typed_keys R (SymbolRef sid t dm s)" "variables_ok R st" "index_ok (trace_of R) i"
  shows "exact R Z (SymbolRef sid t dm s) zd bd i t st"
proof -
  let ?key = "key_at R i sid s dm"
  from assms have "type_of_key R ?key = t" by (simp add: typed_keys_def)
  from translate_symbol_ok [OF assms(2) this] obtain st' where
    q: "translate_symbol (hash_of R) ?key t st = (sorted_const (const_name (hash_of R) ?key) t, st')"
    "constraints st' = constraints st" "variables_ok R st'" .
  show ?thesis
  proof (rule exactI [where cs = "[]"])
    show "translate Z (hash_of R) (trace_length (trace_of R)) (SymbolRef sid t dm s) i zd st =
        Inr (sorted_const (const_name (hash_of R) ?key) t, st')"
      using q(1) by (simp add: key_at_def)
    assume "carries R (SymbolRef sid t dm s)"
    with assms(3) obtain v where "state_at (trace_of R) (base_of R) i (sid, s, dm) = Some v"
      "represents (model_of R) (sorted_const (const_name (hash_of R) ?key) t) v t"
      by (auto simp: carries_def)
    moreover from this(2) have "valid_value v t" by (rule good_value_valid [OF represents_good])
    ultimately show "all_true (model_of R) [] \<longleftrightarrow>
        evaluates_throughout (SymbolRef sid t dm s) (state_at (trace_of R) (base_of R) i) bd (trace_of R) i"
      "\<exists>v. evaluate (SymbolRef sid t dm s) (state_at (trace_of R) (base_of R) i) bd (trace_of R) i = Inr v \<and>
         represents (model_of R) (sorted_const (const_name (hash_of R) ?key) t) v t"
      by (simp_all add: validate_value_def)
  qed (use q in \<open>simp_all add: sorted_const_sorted\<close>)
qed

lemma exact_bound:
  assumes "\<Gamma> x = Some t" "bound_ok (model_of R) \<Gamma> zd bd" "variables_ok R st"
  shows "exact R Z (BoundRef x t) zd bd i t st"
proof -
  from assms(1,2) obtain z v where z: "zd x = Some z" "bd x = Some v" "represents (model_of R) z v t"
    unfolding bound_ok_def by blast
  then have "valid_value v t" by (simp add: good_value_valid represents_good)
  with z assms(3) show ?thesis
    by (intro exactI [where cs = "[]" and z = z and st' = st]) (simp_all add: represents_sorted validate_value_def)
qed

lemma exact_literal:
  assumes "good_value v t" "variables_ok R st"
  shows "exact R Z (Lit (Literal v t)) zd bd i t st"
proof -
  obtain z where z: "translate_literal Z v t = Inr z" "\<And>J. represents J z v t"
    using translate_literal_good [OF assms(1), of Z] by blast
  with assms good_value_valid [OF assms(1)] show ?thesis
    by (intro exactI [where cs = "[]" and z = z and st' = st])
      (simp_all add: keep_state_def represents_sorted [OF z(2)] validate_value_def)
qed

section \<open>Operators\<close>

lemma exact_unary:
  assumes "op = ''not'' \<and> t = BOOL \<or> op = ''neg'' \<and> t = INT256 \<or> op = ''bitnot'' \<and> integer_type t"
    and "exact R Z e zd bd i t st"
  shows "exact R Z (Unary op e t) zd bd i t st"
  using assms(2)
proof (rule exactE)
  let ?bs = "state_at (trace_of R) (base_of R) i"
  fix z cs st' assume z: "translate Z (hash_of R) (trace_length (trace_of R)) e i zd st = Inr (z, st')"
    "constraints st' = constraints st @ cs" "variables_ok R st'" "well_sorted z t"
    "carries R e \<Longrightarrow> all_true (model_of R) cs \<longleftrightarrow> evaluates_throughout e ?bs bd (trace_of R) i"
    "carries R e \<Longrightarrow> evaluates_throughout e ?bs bd (trace_of R) i \<Longrightarrow>
      \<exists>v. evaluate e ?bs bd (trace_of R) i = Inr v \<and> represents (model_of R) z v t"
  obtain z' ds where z': "translate_unary Z op t z st' = Inr (z', with_constraints ds st')" "well_sorted z' t"
    "\<And>v. represents (model_of R) z v t \<Longrightarrow> agrees (model_of R) ds z' (eval_unary op v t) t"
    using unary_agrees [OF assms(1) z(4)] by metis
  have result: "(all_true (model_of R) ds \<longleftrightarrow> \<not> isl (evaluate (Unary op e t) ?bs bd (trace_of R) i)) \<and>
      (\<not> isl (evaluate (Unary op e t) ?bs bd (trace_of R) i) \<longrightarrow>
        (\<exists>v. evaluate (Unary op e t) ?bs bd (trace_of R) i = Inr v \<and> represents (model_of R) z' v t))"
    if "carries R e" "evaluates_throughout e ?bs bd (trace_of R) i"
  proof -
    from z(6) [OF that] obtain v where v: "evaluate e ?bs bd (trace_of R) i = Inr v" "represents (model_of R) z v t"
      by blast
    from z'(3) [OF v(2)] v(1) show ?thesis
      by (cases "eval_unary op v t") (simp_all add: agrees_def)
  qed
  show ?thesis
  proof (rule exactI [where cs = "cs @ ds" and z = z' and st' = "with_constraints ds st'"])
    assume "carries R (Unary op e t)"
    then have c: "carries R e" by simp
    show "all_true (model_of R) (cs @ ds) \<longleftrightarrow> evaluates_throughout (Unary op e t) ?bs bd (trace_of R) i"
      using z(5) [OF c] result [OF c] by auto
    show "\<exists>v. evaluate (Unary op e t) ?bs bd (trace_of R) i = Inr v \<and> represents (model_of R) z' v t"
      if "evaluates_throughout (Unary op e t) ?bs bd (trace_of R) i"
      using that result [OF c] by auto
  qed (use z z' in simp_all)
qed

text \<open>
  A binary operator: \<open>E\<close> is what the evaluator makes of two operands that evaluate, and the
  translation agrees with it.
\<close>

lemma exact_binary:
  assumes l: "exact R Z l zd bd i t1 st" and r: "\<And>s. variables_ok R s \<Longrightarrow> exact R Z r zd bd i t2 s"
    and lt: "vtype l = lt"
    and op: "\<And>z y s. well_sorted z t1 \<Longrightarrow> well_sorted y t2 \<Longrightarrow> \<exists>z' ds.
      translate_binary Z op lt t z y s = Inr (z', with_constraints ds s) \<and> well_sorted z' t \<and>
      (\<forall>v u. represents (model_of R) z v t1 \<longrightarrow> represents (model_of R) y u t2 \<longrightarrow>
         agrees (model_of R) ds z' (E v u) t)"
    and E: "\<And>v u z y. evaluate l (state_at (trace_of R) (base_of R) i) bd (trace_of R) i = Inr v \<Longrightarrow>
      evaluate r (state_at (trace_of R) (base_of R) i) bd (trace_of R) i = Inr u \<Longrightarrow>
      represents (model_of R) z v t1 \<Longrightarrow> represents (model_of R) y u t2 \<Longrightarrow>
      evaluate (Binary op l r t) (state_at (trace_of R) (base_of R) i) bd (trace_of R) i = E v u"
  shows "exact R Z (Binary op l r t) zd bd i t st"
proof -
  let ?bs = "state_at (trace_of R) (base_of R) i"
  let ?ev = "\<lambda>e. evaluate e ?bs bd (trace_of R) i"
  let ?dev = "\<lambda>e. evaluates_throughout e ?bs bd (trace_of R) i"
  obtain z cs s1 where z: "translate Z (hash_of R) (trace_length (trace_of R)) l i zd st = Inr (z, s1)"
    "constraints s1 = constraints st @ cs" "variables_ok R s1" "well_sorted z t1"
    "carries R l \<Longrightarrow> all_true (model_of R) cs \<longleftrightarrow> ?dev l"
    "carries R l \<Longrightarrow> ?dev l \<Longrightarrow> \<exists>v. ?ev l = Inr v \<and> represents (model_of R) z v t1"
    using l by (rule exactE) (rule that; blast)
  obtain y es s2 where y: "translate Z (hash_of R) (trace_length (trace_of R)) r i zd s1 = Inr (y, s2)"
    "constraints s2 = constraints s1 @ es" "variables_ok R s2" "well_sorted y t2"
    "carries R r \<Longrightarrow> all_true (model_of R) es \<longleftrightarrow> ?dev r"
    "carries R r \<Longrightarrow> ?dev r \<Longrightarrow> \<exists>v. ?ev r = Inr v \<and> represents (model_of R) y v t2"
    using r [OF z(3)] by (rule exactE) (rule that; blast)
  obtain z' ds where z': "translate_binary Z op lt t z y s2 = Inr (z', with_constraints ds s2)" "well_sorted z' t"
    "\<And>v u. represents (model_of R) z v t1 \<Longrightarrow> represents (model_of R) y u t2 \<Longrightarrow>
       agrees (model_of R) ds z' (E v u) t"
    using op [OF z(4) y(4), of s2] by blast
  have result: "(all_true (model_of R) ds \<longleftrightarrow> \<not> isl (?ev (Binary op l r t))) \<and>
      (\<not> isl (?ev (Binary op l r t)) \<longrightarrow>
        (\<exists>v. ?ev (Binary op l r t) = Inr v \<and> represents (model_of R) z' v t))"
    if c: "carries R l" "carries R r" and d: "?dev l" "?dev r"
  proof -
    obtain v u where v: "?ev l = Inr v" "represents (model_of R) z v t1"
      and u: "?ev r = Inr u" "represents (model_of R) y u t2"
      using z(6) [OF c(1) d(1)] y(6) [OF c(2) d(2)] by blast
    from z'(3) [OF v(2) u(2)] show ?thesis
      unfolding E [OF v(1) u(1) v(2) u(2)] by (cases "E v u") (simp_all add: agrees_def)
  qed
  show ?thesis
  proof (rule exactI [where cs = "cs @ es @ ds" and z = z' and st' = "with_constraints ds s2"])
    assume "carries R (Binary op l r t)"
    then have c: "carries R l" "carries R r" by simp_all
    show "all_true (model_of R) (cs @ es @ ds) \<longleftrightarrow> ?dev (Binary op l r t)"
      unfolding all_true_simps evaluates_throughout.simps z(5) [OF c(1)] y(5) [OF c(2)] using result [OF c] by blast
    show "\<exists>v. ?ev (Binary op l r t) = Inr v \<and> represents (model_of R) z' v t" if "?dev (Binary op l r t)"
      using that result [OF c] unfolding evaluates_throughout.simps by blast
  qed (use z y z' lt in simp_all)
qed

lemma exact_boolean:
  assumes "op \<in> set boolean_binary" "vtype l = BOOL"
    and "exact R Z l zd bd i BOOL st" "\<And>s. variables_ok R s \<Longrightarrow> exact R Z r zd bd i BOOL s"
  shows "exact R Z (Binary op l r BOOL) zd bd i BOOL st"
proof -
  have op: "op = ''and'' \<or> op = ''or'' \<or> op = ''implies''"
    using assms(1) by (auto simp: boolean_binary_def)
  define E :: "json \<Rightarrow> json \<Rightarrow> eval_exn + json" where
    "E v u = (if op = ''and'' then (if py_truthy v then Inr u else Inr v)
      else if op = ''or'' then (if py_truthy v then Inr v else Inr u)
      else (if py_truthy v then Inr u else Inr (JBool True)))" for v u
  show ?thesis
  proof (rule exact_binary [OF assms(3,4,2), where E = E])
    fix z y s assume "well_sorted z BOOL" "well_sorted y BOOL"
    then obtain f g where z: "z = ZForm f" "y = ZForm g" by auto
    obtain h where h: "boolean_term op f g = Some h"
      "h = (if op = ''and'' then FAnd [f, g] else if op = ''or'' then FOr [f, g] else FImplies f g)"
      using op by (auto simp: boolean_term_def)
    have "translate_binary Z op BOOL BOOL z y s = Inr (ZForm h, with_constraints [] s)"
      using op h(1) by (auto simp: translate_binary_def known_binary_def z)
    moreover have "agrees (model_of R) [] (ZForm h) (E v u) BOOL"
      if "represents (model_of R) z v BOOL" "represents (model_of R) y u BOOL" for v u
      using op that by (auto simp: represents_BOOL z agrees_def E_def h(2))
    ultimately show "\<exists>z' ds. translate_binary Z op BOOL BOOL z y s = Inr (z', with_constraints ds s) \<and>
        well_sorted z' BOOL \<and> (\<forall>v u. represents (model_of R) z v BOOL \<longrightarrow> represents (model_of R) y u BOOL \<longrightarrow>
          agrees (model_of R) ds z' (E v u) BOOL)"
      by (intro exI [of _ "ZForm h"] exI [of _ "[]"]) simp
  qed (use op in \<open>auto simp: E_def\<close>)
qed

lemma exact_strict:
  assumes "op \<notin> set boolean_binary" "vtype l = lt"
    and "exact R Z l zd bd i t1 st" "\<And>s. variables_ok R s \<Longrightarrow> exact R Z r zd bd i t2 s"
    and "\<And>z y s. well_sorted z t1 \<Longrightarrow> well_sorted y t2 \<Longrightarrow> \<exists>z' ds.
      translate_binary Z op lt t z y s = Inr (z', with_constraints ds s) \<and> well_sorted z' t \<and>
      (\<forall>v u. represents (model_of R) z v t1 \<longrightarrow> represents (model_of R) y u t2 \<longrightarrow>
         agrees (model_of R) ds z' (eval_binary op v u t) t)"
  shows "exact R Z (Binary op l r t) zd bd i t st"
  by (rule exact_binary [OF assms(3,4,2,5)])
    (simp_all only: eval_binary_strict [OF assms(1)] bind_result_Inr)

text \<open>A comparison or an ordering adds no constraint.\<close>

lemma exact_predicate:
  assumes "op \<notin> set boolean_binary" "vtype l = t"
    and "exact R Z l zd bd i t st" "\<And>s. variables_ok R s \<Longrightarrow> exact R Z r zd bd i t s"
    and "\<And>z y s. well_sorted z t \<Longrightarrow> well_sorted y t \<Longrightarrow> \<exists>f.
      translate_binary Z op t BOOL z y s = Inr (ZForm f, s) \<and>
      (\<forall>v u. represents (model_of R) z v t \<longrightarrow> represents (model_of R) y u t \<longrightarrow>
         eval_binary op v u BOOL = Inr (JBool (truth (model_of R) f)))"
  shows "exact R Z (Binary op l r BOOL) zd bd i BOOL st"
proof (rule exact_strict [OF assms(1-4)])
  fix z y s assume "well_sorted z t" "well_sorted y t"
  from assms(5) [OF this, of s] obtain f where "translate_binary Z op t BOOL z y s = Inr (ZForm f, s)"
    "\<And>v u. represents (model_of R) z v t \<Longrightarrow> represents (model_of R) y u t \<Longrightarrow>
       eval_binary op v u BOOL = Inr (JBool (truth (model_of R) f))" by blast
  then show "\<exists>z' ds. translate_binary Z op t BOOL z y s = Inr (z', with_constraints ds s) \<and>
      well_sorted z' BOOL \<and> (\<forall>v u. represents (model_of R) z v t \<longrightarrow> represents (model_of R) y u t \<longrightarrow>
        agrees (model_of R) ds z' (eval_binary op v u BOOL) BOOL)"
    by (intro exI [of _ "ZForm f"] exI [of _ "[]"]) (simp add: agrees_def)
qed

section \<open>Quantifiers and temporal operators\<close>

lemma exact_formula:
  assumes "exact R Z e zd bd i BOOL st"
  shows "\<exists>f cs st'. translate Z (hash_of R) (trace_length (trace_of R)) e i zd st = Inr (ZForm f, st') \<and>
    constraints st' = constraints st @ cs \<and> variables_ok R st' \<and>
    (carries R e \<longrightarrow>
      (all_true (model_of R) cs \<longleftrightarrow> evaluates_throughout e (state_at (trace_of R) (base_of R) i) bd (trace_of R) i) \<and>
      (evaluates_throughout e (state_at (trace_of R) (base_of R) i) bd (trace_of R) i \<longrightarrow>
        evaluate e (state_at (trace_of R) (base_of R) i) bd (trace_of R) i = Inr (JBool (truth (model_of R) f))))"
  using assms unfolding exact_def represents_BOOL by (auto; blast)

text \<open>The end of both loops.\<close>

lemma exact_joined:
  assumes "fold_result F xs st = Inr (map ZForm fs, st')" "constraints st' = constraints st @ cs" "variables_ok R st'"
    and "translate Z (hash_of R) (trace_length (trace_of R)) e i zd st =
      bind_result (fold_result F xs st) (\<lambda>(terms, st1). keep_state st1 (join_terms Z every terms))"
    and "carries R e \<Longrightarrow>
      all_true (model_of R) cs \<longleftrightarrow> evaluates_throughout e (state_at (trace_of R) (base_of R) i) bd (trace_of R) i"
    and "carries R e \<Longrightarrow> evaluates_throughout e (state_at (trace_of R) (base_of R) i) bd (trace_of R) i \<Longrightarrow>
      evaluate e (state_at (trace_of R) (base_of R) i) bd (trace_of R) i =
        Inr (JBool (if every then list_all (truth (model_of R)) fs else list_ex (truth (model_of R)) fs))"
  shows "exact R Z e zd bd i BOOL st"
proof -
  obtain g where g: "join_terms Z every (map ZForm fs) = Inr (ZForm g)"
    "\<And>J. truth J g = (if every then list_all (truth J) fs else list_ex (truth J) fs)"
    using join_terms_formulas [of Z every fs] by metis
  show ?thesis
    by (rule exactI [where cs = cs and z = "ZForm g" and st' = st'])
      (use assms g in \<open>simp_all add: keep_state_def\<close>)
qed

lemma exact_quantifier:
  assumes "op \<in> {''forall'', ''exists''}" "variables_ok R st" "bound_ok (model_of R) \<Gamma> zd bd"
    and lits: "list_all (\<lambda>l. lit_type l = xt \<and> valid_value (lit_value l) xt) lits"
      "list_all (\<lambda>l. good_value (lit_value l) (lit_type l)) lits"
    and body: "\<And>zd' bd' s. bound_ok (model_of R) (\<Gamma>(x \<mapsto> xt)) zd' bd' \<Longrightarrow> variables_ok R s \<Longrightarrow>
      exact R Z e zd' bd' i BOOL s"
  shows "exact R Z (Quantifier op x xt lits e BOOL) zd bd i BOOL st"
proof -
  let ?bs = "state_at (trace_of R) (base_of R) i"
  define F where "F = (\<lambda>l s. bind_result (translate_literal Z (lit_value l) (lit_type l)) (\<lambda>z.
    translate Z (hash_of R) (trace_length (trace_of R)) e i (zd(x \<mapsto> z)) s))"
  define D where "D = (\<lambda>l. evaluates_throughout e ?bs (bd(x \<mapsto> lit_value l)) (trace_of R) i)"
  define E where "E = (\<lambda>l. evaluate e ?bs (bd(x \<mapsto> lit_value l)) (trace_of R) i)"
  obtain fs cs st' where fs: "fold_result F lits st = Inr (map ZForm fs, st')"
    "constraints st' = constraints st @ cs" "variables_ok R st'"
    "carries R e \<Longrightarrow> all_true (model_of R) cs \<longleftrightarrow> list_all D lits"
    "carries R e \<Longrightarrow> list_all D lits \<Longrightarrow> all_results E lits = Inr (JBool (list_all (truth (model_of R)) fs)) \<and>
       any_results E lits = Inr (JBool (list_ex (truth (model_of R)) fs))"
  proof (rule fold_translate [OF assms(2), of lits F "carries R e" "model_of R" D E])
    fix l s assume l: "l \<in> set lits" "variables_ok R s"
    with lits have l': "good_value (lit_value l) (lit_type l)" "lit_type l = xt" by (auto simp: list_all_iff)
    obtain z where z: "translate_literal Z (lit_value l) (lit_type l) = Inr z"
      "\<And>J. represents J z (lit_value l) (lit_type l)"
      using translate_literal_good [OF l'(1), of Z] by blast
    have "exact R Z e (zd(x \<mapsto> z)) (bd(x \<mapsto> lit_value l)) i BOOL s"
      using z(2) l'(2) by (intro body l bound_ok_upd assms(3)) simp
    from exact_formula [OF this] z(1)
    show "\<exists>f cs s'. F l s = Inr (ZForm f, s') \<and> constraints s' = constraints s @ cs \<and> variables_ok R s' \<and>
        (carries R e \<longrightarrow> (all_true (model_of R) cs \<longleftrightarrow> D l) \<and> (D l \<longrightarrow> E l = Inr (JBool (truth (model_of R) f))))"
      by (simp add: F_def D_def E_def)
  qed (rule that)
  show ?thesis
  proof (rule exact_joined [OF fs(1-3), where every = "op = ''forall''"])
    show "translate Z (hash_of R) (trace_length (trace_of R)) (Quantifier op x xt lits e BOOL) i zd st =
        bind_result (fold_result F lits st) (\<lambda>(terms, st1). keep_state st1 (join_terms Z (op = ''forall'') terms))"
      using assms(1) by (auto simp: F_def)
  qed (use assms(1) fs(4,5) in \<open>auto simp: D_def E_def validate_literals [OF lits(1)] results_map\<close>)
qed

text \<open>Both temporal operators translate their operand at a list of positions inside the trace.\<close>

lemma exact_positions:
  assumes "trace_of R = Some states" "variables_ok R st" "\<And>p. p \<in> set ps \<Longrightarrow> p < length states"
    and body: "\<And>p s. p < length states \<Longrightarrow> variables_ok R s \<Longrightarrow> exact R Z e zd bd p BOOL s"
    and shape: "translate Z (hash_of R) (trace_length (trace_of R)) (Temporal op e h BOOL) i zd st =
      bind_result (fold_result (\<lambda>p s. translate Z (hash_of R) (trace_length (trace_of R)) e p zd s) ps st)
        (\<lambda>(terms, st1). keep_state st1 (join_terms Z every terms))"
    and eval: "evaluate (Temporal op e h BOOL) (states ! i) bd (Some states) i =
      (if every then all_results else any_results)
        (\<lambda>p. bind_result (trace_at states p) (\<lambda>bs'. evaluate e bs' bd (Some states) p)) ps"
    and dev: "evaluates_throughout (Temporal op e h BOOL) (states ! i) bd (Some states) i \<longleftrightarrow>
      list_all (\<lambda>p. evaluates_throughout e (states ! p) bd (Some states) p) ps"
  shows "exact R Z (Temporal op e h BOOL) zd bd i BOOL st"
proof -
  let ?F = "\<lambda>p s. translate Z (hash_of R) (trace_length (trace_of R)) e p zd s"
  define D where "D = (\<lambda>p. evaluates_throughout e (states ! p) bd (Some states) p)"
  define E where "E = (\<lambda>p. bind_result (trace_at states p) (\<lambda>bs'. evaluate e bs' bd (Some states) p))"
  have at: "state_at (trace_of R) (base_of R) p = states ! p" for p by (simp add: state_at_def assms(1))
  obtain fs cs st' where fs: "fold_result ?F ps st = Inr (map ZForm fs, st')"
    "constraints st' = constraints st @ cs" "variables_ok R st'"
    "carries R e \<Longrightarrow> all_true (model_of R) cs \<longleftrightarrow> list_all D ps"
    "carries R e \<Longrightarrow> list_all D ps \<Longrightarrow> all_results E ps = Inr (JBool (list_all (truth (model_of R)) fs)) \<and>
       any_results E ps = Inr (JBool (list_ex (truth (model_of R)) fs))"
  proof (rule fold_translate [OF assms(2), of ps ?F "carries R e" "model_of R" D E])
    fix p s assume p: "p \<in> set ps" "variables_ok R s"
    from exact_formula [OF body [OF assms(3) [OF p(1)] p(2)]] assms(3) [OF p(1)]
    show "\<exists>f cs s'. ?F p s = Inr (ZForm f, s') \<and> constraints s' = constraints s @ cs \<and> variables_ok R s' \<and>
        (carries R e \<longrightarrow> (all_true (model_of R) cs \<longleftrightarrow> D p) \<and> (D p \<longrightarrow> E p = Inr (JBool (truth (model_of R) f))))"
      unfolding D_def E_def trace_at_def assms(1) by (simp add: state_at_def)
  qed (rule that)
  show ?thesis
  proof (rule exact_joined [OF fs(1-3) shape])
    show "all_true (model_of R) cs \<longleftrightarrow>
        evaluates_throughout (Temporal op e h BOOL) (state_at (trace_of R) (base_of R) i) bd (trace_of R) i"
      if "carries R (Temporal op e h BOOL)"
      using that fs(4) dev unfolding at by (simp only: assms(1) D_def carries_simps)
    show "evaluate (Temporal op e h BOOL) (state_at (trace_of R) (base_of R) i) bd (trace_of R) i =
        Inr (JBool (if every then list_all (truth (model_of R)) fs else list_ex (truth (model_of R)) fs))"
      if "carries R (Temporal op e h BOOL)"
        "evaluates_throughout (Temporal op e h BOOL) (state_at (trace_of R) (base_of R) i) bd (trace_of R) i"
    proof -
      from that dev have "carries R e" "list_all D ps"
        unfolding at by (simp_all only: assms(1) D_def carries_simps)
      from fs(5) [OF this] show ?thesis
        unfolding at unfolding assms(1) eval E_def by simp
    qed
  qed
qed

section \<open>Expressions\<close>

text \<open>Temporal operators need a trace; without one the translation raises.\<close>

definition trace_suits :: "reading \<Rightarrow> expr \<Rightarrow> bool" where
  "trace_suits R e \<longleftrightarrow> (has_temporal e \<longrightarrow> trace_of R \<noteq> None)"

theorem translation_exact:
  assumes "xlir_typed \<Sigma> \<Gamma> e t" "no_signed_shr e" "good_literals e" "typed_keys R e" "trace_suits R e"
    and "index_ok (trace_of R) i" "bound_ok (model_of R) \<Gamma> zd bd" "variables_ok R st"
  shows "exact R Z e zd bd i t st"
  using assms
proof (induction arbitrary: i zd bd st rule: xlir_typed.induct)
  case (symbol sid a t s \<Gamma>)
  then show ?case by (intro exact_symbol)
next
  case (bound x \<Gamma> t)
  then show ?case by (intro exact_bound)
next
  case (lit v t \<Gamma>)
  then show ?case by (intro exact_literal) simp_all
next
  case (not \<Gamma> e)
  then show ?case by (intro exact_unary not.IH) (simp_all add: trace_suits_def)
next
  case (neg \<Gamma> e)
  then show ?case by (intro exact_unary neg.IH) (simp_all add: trace_suits_def)
next
  case (bitnot t \<Gamma> e)
  then show ?case by (intro exact_unary bitnot.IH) (simp_all add: trace_suits_def)
next
  case (boolean op \<Gamma> l r)
  have "vtype l = BOOL" using boolean.hyps(2) by (rule xlir_typed_vtype)
  with boolean show ?case by (intro exact_boolean) (simp_all add: trace_suits_def)
next
  case (comparison op \<Gamma> l t r)
  have vt: "vtype l = t" using comparison.hyps(2) by (rule xlir_typed_vtype)
  have op: "op \<notin> set boolean_binary" using operator_disjoint(1) [OF comparison.hyps(1)] by blast
  show ?case
  proof (rule exact_predicate [OF op vt])
    show "\<exists>f. translate_binary Z op t BOOL z y s = Inr (ZForm f, s) \<and>
        (\<forall>v u. represents (model_of R) z v t \<longrightarrow> represents (model_of R) y u t \<longrightarrow>
           eval_binary op v u BOOL = Inr (JBool (truth (model_of R) f)))"
      if "well_sorted z t" "well_sorted y t" for z y s
      using comparison_agrees [OF comparison.hyps(1) that, of Z s "model_of R"] by metis
  qed (use comparison in \<open>simp_all add: trace_suits_def\<close>)
next
  case (ordering op t \<Gamma> l r)
  have vt: "vtype l = t" using ordering.hyps(3) by (rule xlir_typed_vtype)
  have op: "op \<notin> set boolean_binary" using operator_disjoint(2) [OF ordering.hyps(1)] by blast
  show ?case
  proof (rule exact_predicate [OF op vt])
    show "\<exists>f. translate_binary Z op t BOOL z y s = Inr (ZForm f, s) \<and>
        (\<forall>v u. represents (model_of R) z v t \<longrightarrow> represents (model_of R) y u t \<longrightarrow>
           eval_binary op v u BOOL = Inr (JBool (truth (model_of R) f)))"
      if "well_sorted z t" "well_sorted y t" for z y s
      using ordering_agrees [OF ordering.hyps(1,2) that, of Z s "model_of R"] by metis
  qed (use ordering in \<open>simp_all add: trace_suits_def\<close>)
next
  case (arith op t \<Gamma> l r)
  have vt: "vtype l = t" using arith.hyps(3) by (rule xlir_typed_vtype)
  have op: "op \<notin> set boolean_binary" using arith.hyps(1) operator_disjoint(3,4) by blast
  show ?case
  proof (rule exact_strict [OF op vt])
    fix z y s assume w: "well_sorted z t" "well_sorted y t"
    show "\<exists>z' ds. translate_binary Z op t t z y s = Inr (z', with_constraints ds s) \<and> well_sorted z' t \<and>
        (\<forall>v u. represents (model_of R) z v t \<longrightarrow> represents (model_of R) y u t \<longrightarrow>
           agrees (model_of R) ds z' (eval_binary op v u t) t)"
    proof (cases "op \<in> set arithmetic_binary")
      case True
      from arithmetic_agrees [OF this arith.hyps(2) w, of Z s "model_of R"] show ?thesis by metis
    next
      case False
      with arith.hyps(1) have "op \<in> set bitwise_binary" by blast
      from bitwise_agrees [OF this arith.hyps(2) w, of Z s "model_of R"] show ?thesis by metis
    qed
  qed (use arith in \<open>simp_all add: trace_suits_def\<close>)
next
  case (shift op t \<Gamma> l r)
  have vt: "vtype l = t" using shift.hyps(4) by (rule xlir_typed_vtype)
  have op: "op \<notin> set boolean_binary" using operator_disjoint(5) [OF shift.hyps(1)] by blast
  have shr: "op = ''shr'' \<Longrightarrow> t \<noteq> INT256" using shift.prems(1) by simp
  show ?case
  proof (rule exact_strict [OF op vt])
    show "\<exists>z' ds. translate_binary Z op t t z y s = Inr (z', with_constraints ds s) \<and> well_sorted z' t \<and>
        (\<forall>v u. represents (model_of R) z v t \<longrightarrow> represents (model_of R) y u UINT256 \<longrightarrow>
           agrees (model_of R) ds z' (eval_binary op v u t) t)"
      if "well_sorted z t" "well_sorted y UINT256" for z y s
      using shift_agrees [OF shift.hyps(1-3) shr that, of Z s "model_of R"] by metis
  qed (use shift in \<open>simp_all add: trace_suits_def\<close>)
next
  case (quantifier op x \<Gamma> t lits e)
  have body: "exact R Z e zd' bd' i BOOL s"
    if "bound_ok (model_of R) (\<Gamma>(x \<mapsto> t)) zd' bd'" "variables_ok R s" for zd' bd' s
    using quantifier.prems that by (intro quantifier.IH) (simp_all add: trace_suits_def del: fun_upd_apply)
  show ?case
    by (rule exact_quantifier [OF quantifier.hyps(1) _ _ _ _ body])
      (use quantifier in \<open>simp_all del: fun_upd_apply\<close>)
next
  case (once h \<Gamma> e)
  then obtain states where tr: "trace_of R = Some states" by (auto simp: trace_suits_def)
  with once.prems(5) have i: "i < length states" by (simp add: index_ok_def)
  have pos: "\<not> int (length states) \<le> 0" using i by linarith
  have inside: "p < length states" if "p \<in> set (once_positions i h)" for p
    using once_positions_less [OF that] i by simp
  show ?case
  proof (rule exact_positions [OF tr, where ps = "once_positions i h" and every = False])
    show "exact R Z e zd bd p BOOL s" if "p < length states" "variables_ok R s" for p s
      using once that tr by (intro once.IH) (simp_all add: trace_suits_def index_ok_def)
    show "evaluates_throughout (Temporal ''once'' e (Some h) BOOL) (states ! i) bd (Some states) i \<longleftrightarrow>
        list_all (\<lambda>p. evaluates_throughout e (states ! p) bd (Some states) p) (once_positions i h)"
      using inside by (auto simp: list_all_iff)
  qed (use once inside pos in \<open>simp_all add: trace_length_def tr\<close>)
next
  case (globally \<Gamma> e)
  then obtain states where tr: "trace_of R = Some states" by (auto simp: trace_suits_def)
  with globally.prems(5) have i: "i < length states" by (simp add: index_ok_def)
  have pos: "\<not> int (length states) \<le> 0" using i by linarith
  show ?case
  proof (rule exact_positions [OF tr, where ps = "[0 ..< length states]" and every = True])
    show "exact R Z e zd bd p BOOL s" if "p < length states" "variables_ok R s" for p s
      using globally that tr by (intro globally.IH) (simp_all add: trace_suits_def index_ok_def)
  qed (use globally pos in \<open>simp_all add: trace_length_def tr list_all_iff\<close>)
qed

end
