(* ===== verification/Smt_Search.thy ===== *)
theory Smt_Search
  imports Smt_Meaning
begin

text \<open>
  The queries of \<^verbatim>\<open>backends/smt.py\<close>: the control, the result, \<^verbatim>\<open>_check\<close> with its deadlines,
  cancellation and error paths, and the two public queries. Seconds are (finite) rationals;
  \<open>number_text\<close> writes one as the float the code hashes.
\<close>

section \<open>Control\<close>

record smt_control =
  smt_timeout :: rat
  smt_deadline :: rat
  smt_spent :: rat

definition SMTControl :: "smt_control \<Rightarrow> string + smt_control" where
  "SMTControl c =
     (if smt_timeout c \<le> 0 \<or> smt_deadline c \<le> 0 then Inl ''SMT deadlines must be positive''
      else if smt_deadline c < smt_timeout c then Inl ''SMT timeout cannot exceed campaign deadline''
      else if smt_spent c < 0 then Inl ''campaign elapsed time cannot be negative''
      else Inr c)"

definition default_smt_control :: smt_control where
  "default_smt_control = \<lparr>smt_timeout = 30, smt_deadline = 3600, smt_spent = 0\<rparr>"

definition smt_remaining :: "smt_control \<Rightarrow> rat" where
  "smt_remaining c = min (smt_timeout c) (max 0 (smt_deadline c - smt_spent c))"

definition smt_expiration :: "smt_control \<Rightarrow> rat \<Rightarrow> string" where
  "smt_expiration c elapsed =
     (if smt_deadline c \<le> smt_spent c + elapsed then ''campaign_deadline'' else ''query_timeout'')"

section \<open>Results\<close>

record smt_result =
  sm_status :: search_status
  sm_complete :: bool
  sm_model :: "json dict"
  sm_reason :: "string option"
  sm_elapsed :: rat
  sm_solver :: string
  sm_query_hash :: string
  sm_states :: nat
  sm_paths :: nat
  sm_schedules :: nat
  sm_cache_hits :: nat

definition smt_result_dict :: "(rat \<Rightarrow> json) \<Rightarrow> smt_result \<Rightarrow> json" where
  "smt_result_dict number r = JObj
     [(''status'', JStr (search_status_value (sm_status r))), (''complete'', JBool (sm_complete r)),
      (''model'', JObj (sm_model r)), (''reason'', option_json (sm_reason r)),
      (''elapsed_seconds'', number (sm_elapsed r)), (''solver'', JStr (sm_solver r)),
      (''query_hash'', JStr (sm_query_hash r)), (''explored_states'', JInt (int (sm_states r))),
      (''explored_paths'', JInt (int (sm_paths r))), (''schedule_count'', JInt (int (sm_schedules r))),
      (''cache_hits'', JInt (int (sm_cache_hits r)))]"

text \<open>\<^verbatim>\<open>_model_values\<close>: an unsigned integer is printed in hexadecimal, as a byte string is.\<close>

definition printed_value :: "assignment \<Rightarrow> smt_expr \<Rightarrow> value_type \<Rightarrow> json" where
  "printed_value J z t = (case z of
       ZForm f \<Rightarrow> JBool (truth J f)
     | ZBits a \<Rightarrow>
         if t = INT256 then JInt (signed_view (width a) (bits_value J a))
         else JStr (hex_text (if t = ADDRESS then 40 else 64) (bits_value J a)))"

definition model_values :: "partial_model \<Rightarrow> (smt_expr \<times> value_type) dict \<Rightarrow> json dict" where
  "model_values m vars = map (\<lambda>kv. (fst kv, printed_value (completion m) (fst (snd kv)) (snd (snd kv))))
     (sort_key fst vars)"

section \<open>The session\<close>

record 'w smt_session =
  library_of :: z3_native
  digest_of :: "json \<Rightarrow> string"
  number_text :: "rat \<Rightarrow> json"
  solver_of :: "('w, formula, smt_answer) solver_world"

definition smt_solver_name :: "'w smt_session \<Rightarrow> string" where
  "smt_solver_name X = ''z3-'' @ solver_version (solver_of X)"

definition smt_outcome ::
    "'w smt_session \<Rightarrow> search_status \<Rightarrow> bool \<Rightarrow> json dict \<Rightarrow> string option \<Rightarrow> rat \<Rightarrow> string \<Rightarrow> 'w \<Rightarrow> smt_result \<times> 'w" where
  "smt_outcome X status cmplt model reason started hash w =
     (let (t, w1) = monotonic (solver_of X) w in
      (\<lparr>sm_status = status, sm_complete = cmplt, sm_model = model,
        sm_reason = reason, sm_elapsed = max 0 (t - started),
        sm_solver = smt_solver_name X, sm_query_hash = hash, sm_states = 0, sm_paths = 0, sm_schedules = 0,
        sm_cache_hits = 0\<rparr>, w1))"

definition smt_query_hash :: "'w smt_session \<Rightarrow> invariant \<Rightarrow> string \<Rightarrow> smt_control \<Rightarrow> int option \<Rightarrow> string" where
  "smt_query_hash X i query c tlen = digest_of X (JObj
     [(''invariant'', JStr (canonical_hash i)), (''query'', JStr query),
      (''timeout_seconds'', number_text X (smt_timeout c)),
      (''campaign_deadline_seconds'', number_text X (smt_deadline c)),
      (''campaign_elapsed_seconds'', number_text X (smt_spent c)),
      (''solver'', JStr (smt_solver_name X)),
      (''encoding'', JStr ''xlir-finite-temporal-v4-checked-arithmetic-and-bitvectors''),
      (''trace_length'', case tlen of None \<Rightarrow> JNull | Some n \<Rightarrow> JInt n)])"

text \<open>One call of the cancellation callback, when there is one.\<close>

definition ask_cancelled :: "'w smt_session \<Rightarrow> 'w \<Rightarrow> (string + bool) \<times> 'w" where
  "ask_cancelled X w = (case cancel_callback (solver_of X) of None \<Rightarrow> (Inr False, w) | Some c \<Rightarrow> c w)"

section \<open>A query\<close>

text \<open>
  The assertions of a query, and the variables. \<open>AddRaises\<close> is the exception of \<^verbatim>\<open>solver.add\<close>, which
  is called outside the \<^verbatim>\<open>try\<close>.
\<close>

definition query_body :: "invariant \<Rightarrow> string \<Rightarrow> translate_exn + expr" where
  "query_body i query =
     (if query = ''antecedent'' then (case inv_body i of
          Binary op l r t \<Rightarrow> Inr l
        | _ \<Rightarrow> Inl (ValueRaised ''antecedent query requires an implication''))
      else Inr (inv_body i))"

definition smt_query ::
    "'w smt_session \<Rightarrow> invariant \<Rightarrow> string \<Rightarrow> int option \<Rightarrow> translate_exn + (smt_expr \<times> value_type) dict \<times> formula list" where
  "smt_query X i query tlen =
     bind_result (query_body i query) (\<lambda>e.
     bind_result (translate (library_of X) (digest_of X) tlen e 0 Map.empty \<lparr>variables = [], constraints = []\<rparr>)
       (\<lambda>(z, st). bind_result (if query = ''antecedent'' then Inr z else
             (case z of ZForm f \<Rightarrow> Inr (ZForm (FNot f)) | ZBits a \<Rightarrow> ill_sorted (library_of X) ''Not'' [z]))
         (\<lambda>q. case q of
            ZForm f \<Rightarrow> Inr (variables st, constraints st @ [f])
          | ZBits a \<Rightarrow> Inl (EscapingError ''solver.add''))))"

text \<open>What follows the solver's answer.\<close>

definition answer_outcome ::
    "'w smt_session \<Rightarrow> (smt_expr \<times> value_type) dict \<Rightarrow> smt_answer \<Rightarrow> smt_control \<Rightarrow> rat \<Rightarrow> string \<Rightarrow> 'w
       \<Rightarrow> smt_result \<times> 'w" where
  "answer_outcome X vars a c started hash w = (case a of
       SmtSat m \<Rightarrow> smt_outcome X SearchSat True (model_values m vars) None started hash w
     | SmtUnsat \<Rightarrow> smt_outcome X SearchBoundedUnsat True [] (Some ''finite_xlir_formula_exhausted'') started hash w
     | SmtUnknown given \<Rightarrow>
         (let (t, w1) = monotonic (solver_of X) w; elapsed = t - started;
              reason = (if given = [] then ''solver_unknown'' else given) in
          if smt_remaining c \<le> elapsed \<or> substring_of ''timeout'' (map lower_char reason)
          then smt_outcome X SearchTimeout False [] (Some (smt_expiration c elapsed)) started hash w1
          else smt_outcome X SearchUnknown False [] (Some reason) started hash w1))"

text \<open>The solver call, with the checks after it.\<close>

definition run_query ::
    "'w smt_session \<Rightarrow> (smt_expr \<times> value_type) dict \<Rightarrow> formula list \<Rightarrow> smt_control \<Rightarrow> rat \<Rightarrow> string \<Rightarrow> 'w
       \<Rightarrow> (string + smt_result) \<times> 'w" where
  "run_query X vars fs c started hash w =
     (let stop = (\<lambda>status reason w1. apfst Inr (smt_outcome X status False [] (Some reason) started hash w1)) in
      case check_solver (solver_of X) fs (solver_timeout (smt_remaining c)) w of
        (Inl (SolverException e), w1) \<Rightarrow> stop SearchCrash (''solver_error:'' @ e) w1
      | (Inl (OtherException e), w1) \<Rightarrow> (Inl e, w1)
      | (Inr r, w1) \<Rightarrow> (case callback_error r of
            Some e \<Rightarrow> stop SearchCrash (''cancellation_error:'' @ e) w1
          | None \<Rightarrow>
              if interrupted r then stop SearchUnknown ''cancelled'' w1
              else (case ask_cancelled X w1 of
                  (Inl e, w2) \<Rightarrow> stop SearchCrash (''cancellation_error:'' @ e) w2
                | (Inr b, w2) \<Rightarrow>
                    if b then stop SearchUnknown ''cancelled'' w2
                    else apfst Inr (answer_outcome X vars (check_result r) c started hash w2))))"

definition trace_length_message :: string where
  "trace_length_message = ''temporal translation requires positive trace_length''"

definition smt_check ::
    "'w smt_session \<Rightarrow> invariant \<Rightarrow> string \<Rightarrow> smt_control option \<Rightarrow> int option \<Rightarrow> 'w
       \<Rightarrow> (string + smt_result) \<times> 'w" where
  "smt_check X i query control tlen w0 =
     (let c = (case control of None \<Rightarrow> default_smt_control | Some c \<Rightarrow> c);
          (started, w) = monotonic (solver_of X) w0;
          hash = smt_query_hash X i query c tlen;
          stop = (\<lambda>status reason w1. apfst Inr (smt_outcome X status False [] (Some reason) started hash w1)) in
      if smt_remaining c \<le> 0 then stop SearchTimeout ''campaign_deadline'' w
      else case ask_cancelled X w of
        (Inl e, w1) \<Rightarrow> stop SearchCrash (''cancellation_error:'' @ e) w1
      | (Inr b, w1) \<Rightarrow>
          if b then stop SearchUnknown ''cancelled'' w1
          else (case smt_query X i query tlen of
              Inl (ValueRaised msg) \<Rightarrow>
                if msg = trace_length_message then stop SearchUnsupported ''trace_length_required'' w1
                else stop SearchCrash (''translation_error:'' @ msg) w1
            | Inl (SolverRaised msg) \<Rightarrow> stop SearchCrash (''translation_error:'' @ msg) w1
            | Inl (EscapingError msg) \<Rightarrow> (Inl msg, w1)
            | Inr (vars, fs) \<Rightarrow> run_query X vars fs c started hash w1))"

definition check_violation ::
    "'w smt_session \<Rightarrow> invariant \<Rightarrow> smt_control option \<Rightarrow> int option \<Rightarrow> 'w \<Rightarrow> (string + smt_result) \<times> 'w" where
  "check_violation X i control tlen w = smt_check X i ''violation'' control tlen w"

definition root_implication :: "expr \<Rightarrow> bool" where
  "root_implication e = (case e of Binary op l r t \<Rightarrow> op = ''implies'' | _ \<Rightarrow> False)"

definition smt_check_antecedent ::
    "'w smt_session \<Rightarrow> invariant \<Rightarrow> smt_control option \<Rightarrow> int option \<Rightarrow> 'w \<Rightarrow> (string + smt_result) \<times> 'w" where
  "smt_check_antecedent X i control tlen w =
     (if \<not> root_implication (inv_body i) then
        (Inr \<lparr>sm_status = SearchUnsupported, sm_complete = False, sm_model = [],
          sm_reason = Some ''root_is_not_implication'', sm_elapsed = 0, sm_solver = smt_solver_name X,
          sm_query_hash = digest_of X (JObj [(''invariant'', JStr (canonical_hash i)), (''query'', JStr ''antecedent'')]),
          sm_states = 0, sm_paths = 0, sm_schedules = 0, sm_cache_hits = 0\<rparr>, w)
      else smt_check X i ''antecedent'' control tlen w)"

text \<open>
  What the verdicts of a query mean for the evaluator, when the solver answers soundly: a model
  gives a trace on which the queried expression evaluates to the queried truth value, and an
  exhausted query leaves no such trace among those on which every subexpression evaluates.
\<close>

section \<open>Traces of a given length\<close>

text \<open>Without a trace length the query speaks of one state.\<close>

definition trace_for :: "int option \<Rightarrow> bindings list \<Rightarrow> bindings list option" where
  "trace_for tlen ss = (case tlen of None \<Rightarrow> None | Some _ \<Rightarrow> Some ss)"

definition fits :: "int option \<Rightarrow> bindings list \<Rightarrow> bool" where
  "fits tlen ss = (int (length ss) = (case tlen of None \<Rightarrow> 1 | Some n \<Rightarrow> n))"

definition length_suits :: "expr \<Rightarrow> int option \<Rightarrow> bool" where
  "length_suits e tlen = (case tlen of None \<Rightarrow> \<not> has_temporal e | Some n \<Rightarrow> 0 < n)"

definition evaluated :: "expr \<Rightarrow> int option \<Rightarrow> bindings list \<Rightarrow> eval_exn + json" where
  "evaluated e tlen ss = evaluate_expression e (ss ! 0) (trace_for tlen ss) 0"

definition throughout :: "expr \<Rightarrow> int option \<Rightarrow> bindings list \<Rightarrow> bool" where
  "throughout e tlen ss = evaluates_throughout e (ss ! 0) Map.empty (trace_for tlen ss) 0"

section \<open>Symbol instances\<close>

type_synonym symbol_ref = "string \<times> value_type \<times> string \<times> string"

definition instances :: "int option \<Rightarrow> expr \<Rightarrow> (symbol_ref \<times> nat) set" where
  "instances tlen e = symbol_refs e \<times> {p. int p < (case tlen of None \<Rightarrow> 1 | Some n \<Rightarrow> n)}"

definition instance_key :: "int option \<Rightarrow> symbol_ref \<times> nat \<Rightarrow> string" where
  "instance_key tlen x = (case x of ((sid, t, dm, s), p) \<Rightarrow> variable_key tlen p sid s dm)"

definition distinct_keys :: "int option \<Rightarrow> expr \<Rightarrow> bool" where
  "distinct_keys tlen e = inj_on (instance_key tlen) (instances tlen e)"

text \<open>The constants' names (a prefix of a digest of the key) are distinct.\<close>

definition distinct_names :: "(json \<Rightarrow> string) \<Rightarrow> int option \<Rightarrow> expr \<Rightarrow> bool" where
  "distinct_names sha tlen e = inj_on (\<lambda>x. const_name sha (instance_key tlen x)) (instances tlen e)"

lemma distinct_names_keys: "distinct_names sha tlen e \<Longrightarrow> distinct_keys tlen e"
  by (auto simp: distinct_names_def distinct_keys_def inj_on_def)

text \<open>A trace gives every symbol of the expression a value the solver can speak of.\<close>

definition covers :: "int option \<Rightarrow> expr \<Rightarrow> bindings list \<Rightarrow> bool" where
  "covers tlen e ss \<longleftrightarrow> (\<forall>((sid, t, dm, s), p) \<in> instances tlen e.
     \<exists>v. (ss ! p) (sid, s, dm) = Some v \<and> good_value v t)"

lemma typed_refs:
  "xlir_typed \<Sigma> \<Gamma> e ty \<Longrightarrow> (sid, t, dm, s) \<in> symbol_refs e \<Longrightarrow>
   \<exists>a. \<Sigma> sid = Some a \<and> ValueType (JStr (sym_type a)) = Some t \<and> dm = sym_domain a"
  by (induction rule: xlir_typed.induct) auto

section \<open>The values of the constants\<close>

definition const_value :: "assignment \<Rightarrow> string \<Rightarrow> value_type \<Rightarrow> json" where
  "const_value J name t =
     (if t = BOOL then JBool (bool_of J name)
      else let i = bits_of J name (sort_width t) mod 2 ^ sort_width t in
        if t = UINT256 then JInt i
        else if t = INT256 then JInt (signed_view 256 i)
        else JStr (hex_text (hex_width t) i))"

lemma hex_text_valid:
  assumes "hex_typed t" "0 \<le> i" "i < 16 ^ hex_width t"
  shows "valid_value (JStr (hex_text (hex_width t) i)) t" "pattern (JStr (hex_text (hex_width t) i)) = i"
proof -
  from assms(1) have w: "0 < hex_width t" by (auto simp: hex_width_def)
  note read = int16_hex_text [OF assms(2,3) w]
  show "pattern (JStr (hex_text (hex_width t) i)) = i"
    using read(1) by (simp add: pattern_def)
  show "valid_value (JStr (hex_text (hex_width t) i)) t"
    using assms(1) read(2)
    by (auto simp: hex_typed_def valid_value_def is_hex_literal_def hex_text_def hex_width_def)
qed

lemma const_value_represents: "represents J (sorted_const name t) (const_value J name t) t"
proof (cases "hex_typed t")
  case True
  define i where "i = bits_of J name (sort_width t) mod 2 ^ sort_width t"
  have "(16::int) ^ hex_width t = 2 ^ sort_width t"
    using True by (auto simp: hex_typed_def hex_width_def sort_width_def)
  then have "0 \<le> i" "i < 16 ^ hex_width t" by (simp_all add: i_def)
  from hex_text_valid [OF True this] this True show ?thesis
    by (auto simp: represents_def good_value_def sorted_const_def const_value_def hex_typed_def Let_def
        simp flip: i_def)
next
  case False
  show ?thesis
  proof (cases "t = BOOL")
    case True
    then show ?thesis by (simp add: sorted_const_def const_value_def)
  next
    case no: False
    with False have t: "integer_type t" by (cases t) (auto simp: hex_typed_def integer_type_def)
    define i where "i = bits_of J name 256 mod 2 ^ 256"
    have i: "0 \<le> i" "i < 2 ^ 256" by (simp_all add: i_def)
    then have b: "bits256 i = i" unfolding bits256_def by (rule mod_pos_pos_trivial)
    show ?thesis
    proof (cases "t = UINT256")
      case True
      then have "const_value J name t = JInt i" "sorted_const name t = ZBits (BvConst name 256)"
        by (simp_all add: const_value_def sort_width_def i_def Let_def sorted_const_def)
      with i b True show ?thesis
        by (simp add: represents_integer valid_value_UINT256 i_def)
    next
      case no: False
      with t have t': "t = INT256" by (simp add: integer_type_def)
      then have v: "const_value J name t = JInt (signed_view 256 i)" "sorted_const name t = ZBits (BvConst name 256)"
        by (simp_all add: const_value_def sort_width_def i_def Let_def sorted_const_def)
      have "valid_value (JInt (signed_view 256 i)) INT256"
        using i by (simp add: valid_value_INT256 signed_view_def)
      moreover have "bits256 (signed_view 256 i) = i"
      proof -
        have "signed_view 256 i = i \<or> signed_view 256 i = i - 2 ^ 256" by (simp add: signed_view_def)
        moreover have "bits256 (i - 2 ^ 256) = bits256 i" unfolding bits256_def by (rule minus_mod_self2)
        ultimately show ?thesis using b by auto
      qed
      ultimately show ?thesis using v t' by (simp add: represents_integer i_def)
    qed
  qed
qed


text \<open>Constants for the values of a trace, when their names are distinct.\<close>

lemma pattern_range: "good_value v t \<Longrightarrow> t \<noteq> BOOL \<Longrightarrow> pattern v mod 2 ^ sort_width t = pattern v"
proof (cases "hex_typed t")
  case True
  assume "good_value v t"
  with True have "0 \<le> pattern v" "pattern v < 16 ^ hex_width t" by (simp_all add: good_value_def)
  moreover have "(16::int) ^ hex_width t = 2 ^ sort_width t"
    using True by (auto simp: hex_typed_def hex_width_def sort_width_def)
  ultimately show ?thesis by (simp add: mod_pos_pos_trivial)
next
  case False
  assume "good_value v t" "t \<noteq> BOOL"
  with False have t: "integer_type t" by (cases t) (auto simp: hex_typed_def integer_type_def)
  with \<open>good_value v t\<close> obtain i where "v = JInt i" by (auto simp: good_value_def integer_type_def valid_value_iffs)
  with integer_not_hex [OF t] have "pattern v = bits256 i" "sort_width t = 256" by simp_all
  then show ?thesis by (simp only: bits256_def mod_mod_trivial)
qed

lemma assignment_exists:
  assumes "inj_on name I" "\<And>x. x \<in> I \<Longrightarrow> good_value (val x) (ty x)"
  obtains J where "\<And>x. x \<in> I \<Longrightarrow> represents J (sorted_const (name x) (ty x)) (val x) (ty x)"
proof -
  define owner where "owner = inv_into I name"
  have owner: "owner (name x) = x" if "x \<in> I" for x
    unfolding owner_def using assms(1) that by (rule inv_into_f_f)
  define J where "J = \<lparr>bool_of = \<lambda>c. val (owner c) = JBool True, bits_of = \<lambda>c n. pattern (val (owner c))\<rparr>"
  show thesis
  proof (rule that)
    fix x assume x: "x \<in> I"
    show "represents J (sorted_const (name x) (ty x)) (val x) (ty x)"
    proof (cases "ty x = BOOL")
      case True
      with assms(2) [OF x] obtain b where "val x = JBool b" by (auto simp: good_value_def valid_value_BOOL)
      with True x show ?thesis by (simp add: sorted_const_def J_def owner)
    next
      case False
      with assms(2) [OF x] pattern_range [OF assms(2) [OF x] False] x show ?thesis
        by (simp add: sorted_const_def represents_def J_def owner)
    qed
  qed
qed

section \<open>The translation of a whole query\<close>

definition reading_for :: "assignment \<Rightarrow> (json \<Rightarrow> string) \<Rightarrow> (string \<Rightarrow> value_type) \<Rightarrow> int option \<Rightarrow> bindings list \<Rightarrow> reading" where
  "reading_for J sha T tlen ss = \<lparr>model_of = J, hash_of = sha, type_of_key = T, trace_of = trace_for tlen ss,
     base_of = ss ! 0\<rparr>"

lemma reading_for_simps [simp]:
  "model_of (reading_for J sha T tlen ss) = J" "hash_of (reading_for J sha T tlen ss) = sha"
  "type_of_key (reading_for J sha T tlen ss) = T" "trace_of (reading_for J sha T tlen ss) = trace_for tlen ss"
  "base_of (reading_for J sha T tlen ss) = ss ! 0"
  by (simp_all add: reading_for_def)

lemma trace_length_for: "fits tlen ss \<Longrightarrow> trace_length (trace_for tlen ss) = tlen"
  by (cases tlen) (simp_all add: trace_length_def trace_for_def fits_def)

text \<open>Positions, with and without a trace: without one, the key and the state do not depend on them.\<close>

lemma position_ok:
  assumes "fits tlen ss" "index_ok (trace_for tlen ss) p"
  obtains q where "int q < (case tlen of None \<Rightarrow> 1 | Some n \<Rightarrow> n)"
    "variable_key tlen p = variable_key tlen q" "state_at (trace_for tlen ss) (ss ! 0) p = ss ! q"
proof (cases tlen)
  case None
  then show thesis by (intro that [of 0]) (simp_all add: variable_key_def state_at_def trace_for_def fun_eq_iff)
next
  case (Some n)
  with assms show thesis
    by (intro that [of p]) (simp_all add: trace_for_def index_ok_def fits_def state_at_def)
qed

lemma query_translated:
  assumes typed: "xlir_typed \<Sigma> Map.empty e BOOL" and shr: "no_signed_shr e" and lits: "good_literals e"
    and len: "length_suits e tlen" and keys: "distinct_keys tlen e"
  obtains f st where "translate Z sha tlen e 0 Map.empty \<lparr>variables = [], constraints = []\<rparr> = Inr (ZForm f, st)"
    "\<And>key z t. (key, z, t) \<in> set (variables st) \<Longrightarrow> z = sorted_const (const_name sha key) t \<and>
       (\<forall>x \<in> instances tlen e. instance_key tlen x = key \<longrightarrow> fst (snd (fst x)) = t)"
    "\<And>J ss. fits tlen ss \<Longrightarrow>
       (\<And>sid t dm s p. ((sid, t, dm, s), p) \<in> instances tlen e \<Longrightarrow> \<exists>v. (ss ! p) (sid, s, dm) = Some v \<and>
          represents J (sorted_const (const_name sha (variable_key tlen p sid s dm)) t) v t) \<Longrightarrow>
       (all_true J (constraints st) \<longleftrightarrow> throughout e tlen ss) \<and>
       (throughout e tlen ss \<longrightarrow> evaluated e tlen ss = Inr (JBool (truth J f)))"
proof -
  define T where "T key = (fst (snd (fst (inv_into (instances tlen e) (instance_key tlen) key))) :: value_type)" for key
  have T: "T (instance_key tlen x) = fst (snd (fst x))" if "x \<in> instances tlen e" for x
    using inv_into_f_f [OF keys [unfolded distinct_keys_def] that] by (simp add: T_def)
  let ?st0 = "\<lparr>variables = [], constraints = []\<rparr> :: tstate"
  have main: "exact (reading_for J sha T tlen ss) Z e Map.empty Map.empty 0 BOOL ?st0" if "fits tlen ss" for J ss
  proof (rule translation_exact [OF typed shr lits])
    show "typed_keys (reading_for J sha T tlen ss) e"
      unfolding typed_keys_def
    proof (clarify, simp)
      fix sid t dm s p assume r: "(sid, t, dm, s) \<in> symbol_refs e" "index_ok (trace_for tlen ss) p"
      from position_ok [OF that r(2)] obtain q where q: "int q < (case tlen of None \<Rightarrow> 1 | Some n \<Rightarrow> n)"
        "variable_key tlen p = variable_key tlen q" by metis
      from r(1) q(1) have "((sid, t, dm, s), q) \<in> instances tlen e" by (simp add: instances_def)
      from T [OF this] q(2) show "T (key_at (reading_for J sha T tlen ss) p sid s dm) = t"
        by (simp add: key_at_def trace_length_for [OF that] instance_key_def)
    qed
    show "trace_suits (reading_for J sha T tlen ss) e"
      using len by (cases tlen) (simp_all add: trace_suits_def length_suits_def trace_for_def)
    show "index_ok (trace_of (reading_for J sha T tlen ss)) 0"
      using len that by (cases tlen) (auto simp: index_ok_def trace_for_def fits_def length_suits_def)
    show "bound_ok (model_of (reading_for J sha T tlen ss)) Map.empty Map.empty Map.empty"
      by (simp add: bound_ok_def)
    show "variables_ok (reading_for J sha T tlen ss) ?st0"
      by (simp add: variables_ok_def)
  qed
  define n where "n = (case tlen of None \<Rightarrow> 1 | Some n \<Rightarrow> nat n)"
  have fits0: "fits tlen (replicate n Map.empty)"
    using len by (cases tlen) (simp_all add: fits_def n_def length_suits_def)
  define J0 where "J0 = \<lparr>bool_of = \<lambda>_. False, bits_of = \<lambda>_ _. 0\<rparr>"
  from main [OF fits0, of J0] obtain z st where
    tr: "translate Z sha tlen e 0 Map.empty ?st0 = Inr (z, st)" and z: "well_sorted z BOOL"
    and vars: "variables_ok (reading_for J0 sha T tlen (replicate n Map.empty)) st"
    by (auto simp: exact_def trace_length_for [OF fits0])
  from z obtain f where f: "z = ZForm f" by auto
  show thesis
  proof (rule that [of f st])
    show "translate Z sha tlen e 0 Map.empty ?st0 = Inr (ZForm f, st)" using tr f by simp
    show "z' = sorted_const (const_name sha key) t \<and>
        (\<forall>x \<in> instances tlen e. instance_key tlen x = key \<longrightarrow> fst (snd (fst x)) = t)"
      if "(key, z', t) \<in> set (variables st)" for key z' t
    proof -
      from vars that have "t = T key" "z' = sorted_const (const_name sha key) t" by (auto simp: variables_ok_def)
      with T show ?thesis by (metis (no_types, lifting))
    qed
    fix J ss assume fits: "fits tlen ss" and good: "\<And>sid t dm s p. ((sid, t, dm, s), p) \<in> instances tlen e \<Longrightarrow>
      \<exists>v. (ss ! p) (sid, s, dm) = Some v \<and>
        represents J (sorted_const (const_name sha (variable_key tlen p sid s dm)) t) v t"
    have "carries (reading_for J sha T tlen ss) e"
      unfolding carries_def
    proof (clarify, simp)
      fix sid t dm s p assume r: "(sid, t, dm, s) \<in> symbol_refs e" "index_ok (trace_for tlen ss) p"
      from position_ok [OF fits r(2)] obtain q where q: "int q < (case tlen of None \<Rightarrow> 1 | Some n \<Rightarrow> n)"
        "variable_key tlen p = variable_key tlen q" "state_at (trace_for tlen ss) (ss ! 0) p = ss ! q" by metis
      from r(1) q(1) have "((sid, t, dm, s), q) \<in> instances tlen e" by (simp add: instances_def)
      from good [OF this] q(2,3)
      show "\<exists>v. state_at (trace_for tlen ss) (ss ! 0) p (sid, s, dm) = Some v \<and>
          represents J (sorted_const (const_name sha (key_at (reading_for J sha T tlen ss) p sid s dm)) t) v t"
        by (simp add: key_at_def trace_length_for [OF fits])
    qed
    moreover have at: "state_at (trace_for tlen ss) (ss ! 0) 0 = ss ! 0"
      by (cases tlen) (simp_all add: state_at_def trace_for_def)
    moreover have "evaluated e tlen ss = evaluate e (ss ! 0) Map.empty (trace_for tlen ss) 0"
      using fits len
      by (cases tlen) (simp_all add: evaluated_def evaluate_expression_def trace_for_def fits_def length_suits_def)
    ultimately show "(all_true J (constraints st) \<longleftrightarrow> throughout e tlen ss) \<and>
        (throughout e tlen ss \<longrightarrow> evaluated e tlen ss = Inr (JBool (truth J f)))"
      using exact_formula [OF main [OF fits, of J]] tr f
      by (auto simp: trace_length_for [OF fits] throughout_def)
  qed
qed


section \<open>Sound solvers\<close>

definition sound_smt :: "('w, formula, smt_answer) solver_world \<Rightarrow> bool" where
  "sound_smt W = (\<forall>fs timeout stop w a w'. solver_run W fs timeout stop w = (Inr a, w') \<longrightarrow> sound_answer fs a)"

lemma sound_smtD: "sound_smt W \<Longrightarrow> solver_run W fs timeout stop w = (Inr a, w') \<Longrightarrow> sound_answer fs a"
  unfolding sound_smt_def by blast

lemma smt_answer_sound:
  assumes "sound_smt W" "check_solver W fs timeout w = (Inr r, w')"
  shows "sound_answer fs (check_result r)"
  using assms(2) by (auto simp: check_solver_def Let_def dest: sound_smtD [OF assms(1)]
      split: option.splits sum.splits prod.splits)

lemma smt_outcome_fields:
  "sm_status (fst (smt_outcome X status cmplt m reason started hash w)) = status"
  "sm_model (fst (smt_outcome X status cmplt m reason started hash w)) = m"
  "sm_complete (fst (smt_outcome X status cmplt m reason started hash w)) = cmplt"
  by (simp_all add: smt_outcome_def split_beta)

definition decisive :: "search_status \<Rightarrow> bool" where
  "decisive status = (status = SearchSat \<or> status = SearchBoundedUnsat)"

text \<open>A run that ends with another status.\<close>

lemma stop_not_decisive:
  assumes "apfst Inr (smt_outcome X status cmplt m reason started hash w) = (Inr r, w')" "\<not> decisive status"
  shows "\<not> decisive (sm_status r)"
proof -
  have "r = fst (smt_outcome X status cmplt m reason started hash w)"
    using assms(1) by (cases "smt_outcome X status cmplt m reason started hash w") auto
  with assms(2) show ?thesis by (simp add: smt_outcome_fields)
qed

lemma decisive_simps [simp]:
  "decisive SearchSat" "decisive SearchBoundedUnsat" "\<not> decisive SearchUnknown" "\<not> decisive SearchTimeout"
  "\<not> decisive SearchUnsupported" "\<not> decisive SearchCrash"
  by (simp_all add: decisive_def)

text \<open>A decisive status comes from the solver's answer to the query's assertions.\<close>

lemma answer_outcome_decisive:
  assumes "r = fst (answer_outcome X vars a c started hash w)" "decisive (sm_status r)" "sound_answer fs a"
  shows "(sm_status r = SearchSat \<and> sm_complete r \<and>
       (\<exists>m. sm_model r = model_values m vars \<and> all_true (completion m) fs)) \<or>
     (sm_status r = SearchBoundedUnsat \<and> sm_complete r \<and> (\<forall>J. \<not> all_true J fs))"
  using assms
  by (cases a) (auto simp: answer_outcome_def smt_outcome_fields sound_answer_def Let_def split: prod.splits if_splits)

lemma run_query_decisive:
  assumes "run_query X vars fs c started hash w = (Inr r, w')" "decisive (sm_status r)" "sound_smt (solver_of X)"
  shows "(sm_status r = SearchSat \<and> sm_complete r \<and>
       (\<exists>m. sm_model r = model_values m vars \<and> all_true (completion m) fs)) \<or>
     (sm_status r = SearchBoundedUnsat \<and> sm_complete r \<and> (\<forall>J. \<not> all_true J fs))"
proof -
  obtain q w1 where q: "check_solver (solver_of X) fs (solver_timeout (smt_remaining c)) w = (q, w1)" by fastforce
  note stop = stop_not_decisive [THEN notE, OF _ _ assms(2)]
  obtain k where k: "q = Inr k" "callback_error k = None" "\<not> interrupted k"
    using assms(1) q
    by (cases q; cases "callback_error (projr q)"; cases "interrupted (projr q)"; cases "projl q")
      (auto simp: run_query_def Let_def elim!: stop split: native_error.splits)
  obtain b w2 where b: "ask_cancelled X w1 = (b, w2)" by fastforce
  with assms(1) q k have "b = Inr False" "apfst Inr (answer_outcome X vars (check_result k) c started hash w2) = (Inr r :: string + smt_result, w')"
    by (auto simp: run_query_def Let_def elim!: stop split: sum.splits if_splits)
  then have "r = fst (answer_outcome X vars (check_result k) c started hash w2)"
    by (cases "answer_outcome X vars (check_result k) c started hash w2") auto
  from answer_outcome_decisive [OF this assms(2) smt_answer_sound [OF assms(3) q [unfolded k(1)]]]
  show ?thesis .
qed

lemma smt_check_decisive:
  assumes "smt_check X i query control tlen w = (Inr r, w')" "decisive (sm_status r)" "sound_smt (solver_of X)"
  obtains vars fs where "smt_query X i query tlen = Inr (vars, fs)"
    "(sm_status r = SearchSat \<and> sm_complete r \<and>
       (\<exists>m. sm_model r = model_values m vars \<and> all_true (completion m) fs)) \<or>
     (sm_status r = SearchBoundedUnsat \<and> sm_complete r \<and> (\<forall>J. \<not> all_true J fs))"
proof -
  note stop = stop_not_decisive [THEN notE, OF _ _ assms(2)]
  obtain started w1 where s: "monotonic (solver_of X) w = (started, w1)" by fastforce
  obtain b w2 where b: "ask_cancelled X w1 = (b, w2)" by fastforce
  define c where "c = (case control of None \<Rightarrow> default_smt_control | Some c \<Rightarrow> c)"
  have "\<not> smt_remaining c \<le> 0 \<and> b = Inr False"
    using assms(1) s b by (auto simp: smt_check_def Let_def c_def elim!: stop split: sum.splits if_splits)
  then have run: "(case smt_query X i query tlen of
              Inl (ValueRaised msg) \<Rightarrow>
                if msg = trace_length_message
                then apfst Inr (smt_outcome X SearchUnsupported False [] (Some ''trace_length_required'') started
                       (smt_query_hash X i query c tlen) w2)
                else apfst Inr (smt_outcome X SearchCrash False [] (Some (''translation_error:'' @ msg)) started
                       (smt_query_hash X i query c tlen) w2)
            | Inl (SolverRaised msg) \<Rightarrow> apfst Inr (smt_outcome X SearchCrash False []
                (Some (''translation_error:'' @ msg)) started (smt_query_hash X i query c tlen) w2)
            | Inl (EscapingError msg) \<Rightarrow> (Inl msg, w2)
            | Inr (vars, fs) \<Rightarrow> run_query X vars fs c started (smt_query_hash X i query c tlen) w2) = (Inr r, w')"
    using assms(1) s b unfolding c_def by (simp add: smt_check_def Let_def)
  obtain vars fs where q: "smt_query X i query tlen = Inr (vars, fs)"
  proof (cases "smt_query X i query tlen")
    case (Inl e)
    with run have False by (cases e) (auto elim!: stop split: if_splits)
    then show thesis ..
  next
    case (Inr p)
    then show thesis by (intro that [of "fst p" "snd p"]) simp
  qed
  with run have "run_query X vars fs c started (smt_query_hash X i query c tlen) w2 = (Inr r, w')" by simp
  from that [OF q run_query_decisive [OF this assms(2,3)]] show thesis .
qed


section \<open>The assertions of a query\<close>

text \<open>
  A model gives the queried expression a truth value: \<^verbatim>\<open>_check\<close> asserts the antecedent of an
  implication, and the negation of a whole invariant.
\<close>

lemma query_formulas:
  assumes "query_body i query = Inr e" "xlir_typed \<Sigma> Map.empty e BOOL" "no_signed_shr e" "good_literals e"
    and "length_suits e tlen" "distinct_keys tlen e" "smt_query X i query tlen = Inr (vars, fs)"
  shows "\<And>key z t. (key, z, t) \<in> set vars \<Longrightarrow> z = sorted_const (const_name (digest_of X) key) t \<and>
       (\<forall>x \<in> instances tlen e. instance_key tlen x = key \<longrightarrow> fst (snd (fst x)) = t)"
    and "\<And>J ss. fits tlen ss \<Longrightarrow>
       (\<And>sid t dm s p. ((sid, t, dm, s), p) \<in> instances tlen e \<Longrightarrow> \<exists>v. (ss ! p) (sid, s, dm) = Some v \<and>
          represents J (sorted_const (const_name (digest_of X) (variable_key tlen p sid s dm)) t) v t) \<Longrightarrow>
       all_true J fs \<longleftrightarrow> throughout e tlen ss \<and> evaluated e tlen ss = Inr (JBool (query = ''antecedent''))"
proof -
  obtain f st where tr: "translate (library_of X) (digest_of X) tlen e 0 Map.empty \<lparr>variables = [], constraints = []\<rparr> =
      Inr (ZForm f, st)"
    and vars: "\<And>key z t. (key, z, t) \<in> set (variables st) \<Longrightarrow> z = sorted_const (const_name (digest_of X) key) t \<and>
       (\<forall>x \<in> instances tlen e. instance_key tlen x = key \<longrightarrow> fst (snd (fst x)) = t)"
    and meaning: "\<And>J ss. fits tlen ss \<Longrightarrow>
       (\<And>sid t dm s p. ((sid, t, dm, s), p) \<in> instances tlen e \<Longrightarrow> \<exists>v. (ss ! p) (sid, s, dm) = Some v \<and>
          represents J (sorted_const (const_name (digest_of X) (variable_key tlen p sid s dm)) t) v t) \<Longrightarrow>
       (all_true J (constraints st) \<longleftrightarrow> throughout e tlen ss) \<and>
       (throughout e tlen ss \<longrightarrow> evaluated e tlen ss = Inr (JBool (truth J f)))"
    using query_translated [OF assms(2-6), of "library_of X" "digest_of X"] by blast
  have q: "vars = variables st" "fs = constraints st @ [if query = ''antecedent'' then f else FNot f]"
    using assms(1,7) tr by (auto simp: smt_query_def split: if_splits)
  show "z = sorted_const (const_name (digest_of X) key) t \<and>
       (\<forall>x \<in> instances tlen e. instance_key tlen x = key \<longrightarrow> fst (snd (fst x)) = t)"
    if "(key, z, t) \<in> set vars" for key z t
    using vars that q(1) by simp
  show "all_true J fs \<longleftrightarrow> throughout e tlen ss \<and> evaluated e tlen ss = Inr (JBool (query = ''antecedent''))"
    if "fits tlen ss" "\<And>sid t dm s p. ((sid, t, dm, s), p) \<in> instances tlen e \<Longrightarrow> \<exists>v. (ss ! p) (sid, s, dm) = Some v \<and>
          represents J (sorted_const (const_name (digest_of X) (variable_key tlen p sid s dm)) t) v t" for J ss
    using meaning [OF that] by (auto simp: q(2))
qed

section \<open>Verdicts\<close>

text \<open>The form in which the reported model prints a value.\<close>

definition printed :: "value_type \<Rightarrow> json \<Rightarrow> json" where
  "printed t v = (if t = UINT256 then JStr (hex_text 64 (pattern v)) else v)"

definition describes :: "json dict \<Rightarrow> int option \<Rightarrow> expr \<Rightarrow> bindings list \<Rightarrow> bool" where
  "describes model tlen e ss \<longleftrightarrow> (\<forall>sid t dm s p j.
     ((sid, t, dm, s), p) \<in> instances tlen e \<longrightarrow> (variable_key tlen p sid s dm, j) \<in> set model \<longrightarrow> map_option (printed t) ((ss ! p) (sid, s, dm)) = Some j)"

lemma printed_const: "printed_value J (sorted_const name t) t = printed t (const_value J name t)"
proof (cases "t = UINT256")
  case True
  have "bits256 (bits_of J name 256 mod 2 ^ 256) = bits_of J name 256 mod 2 ^ 256"
    by (simp only: bits256_def mod_mod_trivial)
  with True show ?thesis
    by (simp add: printed_value_def sorted_const_def printed_def const_value_def sort_width_def Let_def)
next
  case False
  then show ?thesis
    by (cases t) (simp_all add: printed_value_def sorted_const_def printed_def const_value_def sort_width_def
        hex_width_def Let_def)
qed

definition state_of_model ::
    "(string \<rightharpoonup> artifact_symbol) \<Rightarrow> assignment \<Rightarrow> (json \<Rightarrow> string) \<Rightarrow> int option \<Rightarrow> nat \<Rightarrow> bindings" where
  "state_of_model \<Sigma> J sha tlen p = (\<lambda>(sid, s, dm). case \<Sigma> sid of
       None \<Rightarrow> None
     | Some a \<Rightarrow> map_option (const_value J (const_name sha (variable_key tlen p sid s dm)))
         (ValueType (JStr (sym_type a))))"

theorem verdict_sat:
  assumes body: "query_body i query = Inr e" and typed: "xlir_typed \<Sigma> Map.empty e BOOL"
    and rest: "no_signed_shr e" "good_literals e" "length_suits e tlen" "distinct_keys tlen e"
    and run: "smt_check X i query control tlen w = (Inr r, w')" "sound_smt (solver_of X)" "sm_status r = SearchSat"
  shows "sm_complete r \<and> (\<exists>ss. fits tlen ss \<and> covers tlen e ss \<and> throughout e tlen ss \<and>
    evaluated e tlen ss = Inr (JBool (query = ''antecedent'')) \<and> describes (sm_model r) tlen e ss)"
proof -
  obtain vars fs where q: "smt_query X i query tlen = Inr (vars, fs)"
    and "sm_complete r \<and> (\<exists>m. sm_model r = model_values m vars \<and> all_true (completion m) fs)"
    using smt_check_decisive [OF run(1) _ run(2)] run(3) by (metis decisive_simps(1) search_status.distinct(1))
  then obtain m where m: "sm_complete r" "sm_model r = model_values m vars" "all_true (completion m) fs" by blast
  let ?J = "completion m" and ?n = "case tlen of None \<Rightarrow> 1 | Some n \<Rightarrow> nat n"
  define ss where "ss = map (state_of_model \<Sigma> ?J (digest_of X) tlen) [0 ..< ?n]"
  have fits: "fits tlen ss"
    using rest(3) by (cases tlen) (simp_all add: fits_def ss_def length_suits_def)
  have at: "(ss ! p) (sid, s, dm) = Some (const_value ?J (const_name (digest_of X) (variable_key tlen p sid s dm)) t)"
    if "((sid, t, dm, s), p) \<in> instances tlen e" for sid t dm s p
  proof -
    from that typed_refs [OF typed, of sid t dm s] obtain a where
      "\<Sigma> sid = Some a" "ValueType (JStr (sym_type a)) = Some t" by (auto simp: instances_def)
    moreover from that have "p < ?n" by (cases tlen) (auto simp: instances_def)
    ultimately show ?thesis by (simp add: ss_def state_of_model_def)
  qed
  have "describes (sm_model r) tlen e ss"
    unfolding describes_def
  proof (intro allI impI)
    fix sid t dm s p j assume x: "((sid, t, dm, s), p) \<in> instances tlen e"
      and "(variable_key tlen p sid s dm, j) \<in> set (sm_model r)"
    then obtain z u where z: "(variable_key tlen p sid s dm, z, u) \<in> set vars" "j = printed_value ?J z u"
      by (auto simp: m(2) model_values_def)
    from query_formulas(1) [OF body typed rest q z(1)] x
    have "z = sorted_const (const_name (digest_of X) (variable_key tlen p sid s dm)) t" "u = t"
      by (auto simp: instance_key_def)
    with at [OF x] z(2) show "map_option (printed t) ((ss ! p) (sid, s, dm)) = Some j"
      by (simp add: printed_const)
  qed
  moreover have "covers tlen e ss"
    unfolding covers_def using at const_value_represents [THEN represents_good] by fastforce
  moreover have "throughout e tlen ss \<and> evaluated e tlen ss = Inr (JBool (query = ''antecedent''))"
    using query_formulas(2) [OF body typed rest q fits, of ?J] at const_value_represents m(3) by blast
  ultimately show ?thesis using m(1) fits by blast
qed

text \<open>A trace with distinct constant names has an assignment.\<close>

lemma trace_assignment:
  assumes "distinct_names sha tlen e" "covers tlen e ss"
  obtains J where "\<And>sid t dm s p. ((sid, t, dm, s), p) \<in> instances tlen e \<Longrightarrow> \<exists>v. (ss ! p) (sid, s, dm) = Some v \<and>
    represents J (sorted_const (const_name sha (variable_key tlen p sid s dm)) t) v t"
proof -
  define val :: "symbol_ref \<times> nat \<Rightarrow> json" where
    "val = (\<lambda>((sid, t, dm, s), p). the ((ss ! p) (sid, s, dm)))"
  define ty :: "symbol_ref \<times> nat \<Rightarrow> value_type" where "ty = (\<lambda>x. fst (snd (fst x)))"
  have val: "(ss ! p) (sid, s, dm) = Some (val ((sid, t, dm, s), p)) \<and> good_value (val ((sid, t, dm, s), p)) t"
    if "((sid, t, dm, s), p) \<in> instances tlen e" for sid t dm s p
    using assms(2) that unfolding covers_def val_def by fastforce
  then have good: "good_value (val x) (ty x)" if "x \<in> instances tlen e" for x
    using that by (cases x) (auto simp: ty_def)
  obtain J where J: "\<And>x. x \<in> instances tlen e \<Longrightarrow>
      represents J (sorted_const (const_name sha (instance_key tlen x)) (ty x)) (val x) (ty x)"
    using assignment_exists [OF assms(1) [unfolded distinct_names_def], of val ty] good by blast
  show thesis
  proof (rule that)
    fix sid t dm s p assume x: "((sid, t, dm, s), p) \<in> instances tlen e"
    show "\<exists>v. (ss ! p) (sid, s, dm) = Some v \<and>
        represents J (sorted_const (const_name sha (variable_key tlen p sid s dm)) t) v t"
      using J [OF x] val [OF x] by (auto simp: instance_key_def ty_def)
  qed
qed

theorem verdict_unsat:
  assumes body: "query_body i query = Inr e" and typed: "xlir_typed \<Sigma> Map.empty e BOOL"
    and rest: "no_signed_shr e" "good_literals e" "length_suits e tlen"
    and names: "distinct_names (digest_of X) tlen e"
    and run: "smt_check X i query control tlen w = (Inr r, w')" "sound_smt (solver_of X)"
      "sm_status r = SearchBoundedUnsat"
    and trace: "fits tlen ss" "covers tlen e ss" "throughout e tlen ss"
  shows "sm_complete r \<and> evaluated e tlen ss = Inr (JBool (query \<noteq> ''antecedent''))"
proof -
  obtain vars fs where q: "smt_query X i query tlen = Inr (vars, fs)"
    and none: "sm_complete r" "\<And>J. \<not> all_true J fs"
    using smt_check_decisive [OF run(1) _ run(2)] run(3) by (metis decisive_simps(2) search_status.distinct(1))
  obtain J where J: "\<And>sid t dm s p. ((sid, t, dm, s), p) \<in> instances tlen e \<Longrightarrow> \<exists>v. (ss ! p) (sid, s, dm) = Some v \<and>
      represents J (sorted_const (const_name (digest_of X) (variable_key tlen p sid s dm)) t) v t"
    using trace_assignment [OF names trace(2)] by blast
  note keys = distinct_names_keys [OF names]
  have "evaluated e tlen ss \<noteq> Inr (JBool (query = ''antecedent''))"
    using query_formulas(2) [OF body typed rest keys q trace(1) J] none(2) trace(3) by blast
  moreover obtain b where "evaluated e tlen ss = Inr (JBool b)"
    using query_translated [OF typed rest keys, of "library_of X" "digest_of X"] trace(1,3) J by metis
  ultimately show ?thesis using none(1) by auto
qed

end
