(* ===== verification/Smt_Properties.thy ===== *)
theory Smt_Properties
  imports Smt_Search Xlir_Vacuity
begin

text \<open>
  Properties of the solver backend: what a model and an exhausted query say about the concrete
  evaluator, and the antecedent query that the vacuity check relies on.
\<close>

section \<open>A concrete session\<close>

text \<open>
  A sound solver: it refutes only the given sets of assertions, and answers with the first of some
  given models that satisfies the assertions.
\<close>

definition table_solver :: "formula list list \<Rightarrow> partial_model list \<Rightarrow> formula list \<Rightarrow> smt_answer" where
  "table_solver hopeless guesses fs =
     (if fs \<in> set hopeless then SmtUnsat
      else case find (\<lambda>m. all_true (completion m) fs) guesses of
        Some m \<Rightarrow> SmtSat m
      | None \<Rightarrow> SmtUnknown ''incomplete'')"

definition table_world :: "formula list list \<Rightarrow> partial_model list \<Rightarrow> (unit, formula, smt_answer) solver_world" where
  "table_world hopeless guesses = \<lparr>monotonic = (\<lambda>w. (0, w)), cancel_callback = None, worker_polls = (\<lambda>w. (0, w)),
     solver_run = (\<lambda>fs timeout stopped w. (Inr (table_solver hopeless guesses fs), w)), solver_version = ''4''\<rparr>"

lemma table_world_sound:
  assumes "\<And>fs J. fs \<in> set hopeless \<Longrightarrow> \<not> all_true J fs"
  shows "sound_smt (table_world hopeless guesses)"
proof -
  have "sound_answer fs (table_solver hopeless guesses fs)" for fs
    using assms by (auto simp: table_solver_def sound_answer_def find_Some_iff split: option.splits)
  then show ?thesis by (auto simp: sound_smt_def table_world_def)
qed

text \<open>A digest whose prefix tells the positions of a trace apart.\<close>

definition reversing_digest :: "json \<Rightarrow> string" where
  "reversing_digest j = (case j of JStr s \<Rightarrow> rev s | _ \<Rightarrow> [])"

definition plain_library :: z3_native where
  "plain_library = \<lparr>ill_sorted = (\<lambda>op zs. Inl (SolverRaised op)), repr_text = id, bad_hex = id,
     odd_literal = (\<lambda>t v. Inl (SolverRaised ''literal''))\<rparr>"

definition table_session :: "formula list list \<Rightarrow> partial_model list \<Rightarrow> unit smt_session" where
  "table_session hopeless guesses = \<lparr>library_of = plain_library, digest_of = reversing_digest,
     number_text = (\<lambda>q. JInt \<lfloor>q\<rfloor>), solver_of = table_world hopeless guesses\<rparr>"

lemma session_sound:
  "(\<And>fs J. fs \<in> set hopeless \<Longrightarrow> \<not> all_true J fs) \<Longrightarrow> sound_smt (solver_of (table_session hopeless guesses))"
  using table_world_sound [of hopeless guesses] by (simp add: table_session_def)

text \<open>An amount that is declared, and invariants over it.\<close>

definition amount_symbols :: "string \<rightharpoonup> artifact_symbol" where
  "amount_symbols = [''amount'' \<mapsto> \<lparr>sym_id = ''amount'', sym_path = ''a.sol'', sym_name = ''amount'',
     sym_domain = ''source'', sym_kind = ''state'', sym_type = ''uint256''\<rparr>]"

definition amount_above :: "int \<Rightarrow> expr" where
  "amount_above n = Binary ''gt'' (SymbolRef ''amount'' UINT256 ''source'' ''post'') (Lit (Literal (JInt n) UINT256)) BOOL"

definition amount_step :: "int \<Rightarrow> int \<Rightarrow> expr" where
  "amount_step m n = Binary ''implies'' (amount_above m) (amount_above n) BOOL"

definition wrapped :: "expr \<Rightarrow> invariant" where
  "wrapped e = \<lparr>invariant_id = None, inv_body = e, canonical_hash = ''h'', node_count = ast_nodes e\<rparr>"

definition always_amount :: "int \<Rightarrow> int \<Rightarrow> invariant" where
  "always_amount m n = wrapped (Temporal ''globally'' (amount_step m n) None BOOL)"

lemma amount_typed: "0 \<le> n \<Longrightarrow> n < 2 ^ 256 \<Longrightarrow> xlir_typed amount_symbols \<Gamma> (amount_above n) BOOL"
  unfolding amount_above_def
proof (rule xlir_typed.ordering)
  have "xlir_typed amount_symbols \<Gamma> (SymbolRef ''amount'' UINT256 (sym_domain \<lparr>sym_id = ''amount'', sym_path = ''a.sol'',
      sym_name = ''amount'', sym_domain = ''source'', sym_kind = ''state'', sym_type = ''uint256''\<rparr>) ''post'') UINT256"
    by (rule xlir_typed.symbol) (simp_all add: amount_symbols_def ValueType_def)
  then show "xlir_typed amount_symbols \<Gamma> (SymbolRef ''amount'' UINT256 ''source'' ''post'') UINT256" by simp
qed (auto simp: ordering_binary_def valid_value_UINT256 intro: xlir_typed.lit)

lemma step_typed:
  "0 \<le> m \<Longrightarrow> m < 2 ^ 256 \<Longrightarrow> 0 \<le> n \<Longrightarrow> n < 2 ^ 256 \<Longrightarrow> xlir_typed amount_symbols \<Gamma> (amount_step m n) BOOL"
  unfolding amount_step_def by (rule xlir_typed.boolean) (auto simp: boolean_binary_def intro: amount_typed)

lemma always_typed:
  "0 \<le> m \<Longrightarrow> m < 2 ^ 256 \<Longrightarrow> 0 \<le> n \<Longrightarrow> n < 2 ^ 256 \<Longrightarrow>
   xlir_typed amount_symbols \<Gamma> (inv_body (always_amount m n)) BOOL"
  by (simp add: always_amount_def wrapped_def xlir_typed.globally step_typed)

lemma always_instances:
  "instances (Some 2) (inv_body (always_amount m n)) =
     {((''amount'', UINT256, ''source'', ''post''), 0), ((''amount'', UINT256, ''source'', ''post''), 1)}"
  by (auto simp: instances_def always_amount_def wrapped_def amount_step_def amount_above_def)

lemma amount_names: "distinct_names reversing_digest (Some 2) (inv_body (always_amount m n))"
proof -
  let ?name = "\<lambda>p. const_name reversing_digest (variable_key (Some 2) p ''amount'' ''post'' ''source'')"
  have "?name 0 \<noteq> ?name 1" by code_simp
  then show ?thesis
    unfolding distinct_names_def always_instances by (auto simp: instance_key_def)
qed

lemma amount_shape:
  "no_signed_shr (inv_body (always_amount m n))" "length_suits (inv_body (always_amount m n)) (Some 2)"
  "0 \<le> m \<Longrightarrow> m < 2 ^ 256 \<Longrightarrow> 0 \<le> n \<Longrightarrow> n < 2 ^ 256 \<Longrightarrow> good_literals (inv_body (always_amount m n))"
  by (simp_all add: always_amount_def wrapped_def amount_step_def amount_above_def length_suits_def
      good_value_integer valid_value_UINT256)

section \<open>Models are counterexamples\<close>

text \<open>The evaluator's verdict on a trace, or on the single state of a query without trace length.\<close>

definition concrete_verdict :: "invariant \<Rightarrow> int option \<Rightarrow> bindings list \<Rightarrow> eval_exn + bool" where
  "concrete_verdict i tlen ss = (case tlen of None \<Rightarrow> evaluate_invariant i (ss ! 0) | Some _ \<Rightarrow> evaluate_trace i ss)"

lemma concrete_verdict_evaluated:
  assumes "evaluated (inv_body i) tlen ss = Inr (JBool b)" "fits tlen ss" "length_suits (inv_body i) tlen"
  shows "concrete_verdict i tlen ss = Inr b"
proof (cases tlen)
  case None
  with assms(1) show ?thesis
    by (simp add: concrete_verdict_def evaluate_invariant_def evaluated_def trace_for_def require_bool_def)
next
  case (Some n)
  with assms(2,3) obtain s rest where "ss = s # rest"
    by (cases ss) (auto simp: fits_def length_suits_def)
  with assms(1) Some show ?thesis
    by (simp add: concrete_verdict_def evaluate_trace_def evaluated_def trace_for_def require_bool_def)
qed

text \<open>
  C9. A sat answer of the violation query is a counterexample for the evaluator. It is for a
  compiled (well-typed) invariant that meets four conditions: it has no right shift of an
  int256 operand (the evaluator leaves the unsigned result, the solver reads it as signed); its
  literals are in canonical form
  (addresses and byte strings padded and in lower case, integers in the range of their type); its
  symbols have distinct variable keys; a trace length is given and positive, or the invariant has no
  temporal operator. With a solver whose models satisfy its assertions: the result is complete, and
  there is a trace of the queried length (one state when no length is given), giving every symbol a
  canonical value, on which the evaluator returns false, with no error on the way, and every value of
  the reported model is the printed value the trace gives that symbol at that position.
\<close>

theorem smt_sat_is_a_violation:
  assumes "xlir_typed \<Sigma> Map.empty (inv_body i) BOOL" "no_signed_shr (inv_body i)" "good_literals (inv_body i)"
    and "length_suits (inv_body i) tlen" "distinct_keys tlen (inv_body i)" "sound_smt (solver_of X)"
    and "check_violation X i control tlen w = (Inr r, w')" "sm_status r = SearchSat"
  shows "sm_complete r \<and> (\<exists>ss. fits tlen ss \<and> covers tlen (inv_body i) ss \<and>
    concrete_verdict i tlen ss = Inr False \<and> describes (sm_model r) tlen (inv_body i) ss)"
proof -
  have "query_body i ''violation'' = Inr (inv_body i)" by (simp add: query_body_def)
  from verdict_sat [OF this assms(1-5) assms(7) [unfolded check_violation_def] assms(6,8)]
  show ?thesis using concrete_verdict_evaluated [OF _ _ assms(4)] by fastforce
qed

definition seven_model :: partial_model where
  "seven_model = \<lparr>bool_part = Map.empty, bits_part = (\<lambda>c n. Some 7)\<rparr>"

theorem smt_sat_is_a_violation_witness:
  "\<exists>r ss. fst (check_violation (table_session [] [seven_model]) (always_amount 5 9) None (Some 2) ()) = Inr r \<and>
     length ss = 2 \<and> evaluate_trace (always_amount 5 9) ss = Inr False \<and>
     describes (sm_model r) (Some 2) (inv_body (always_amount 5 9)) ss \<and> sm_model r \<noteq> []"
proof -
  let ?i = "always_amount 5 9" and ?X = "table_session [] [seven_model]"
  have "case check_violation ?X ?i None (Some 2) () of (Inr r, _) \<Rightarrow> sm_status r = SearchSat \<and> sm_model r \<noteq> [] | _ \<Rightarrow> False"
    by code_simp
  then obtain r w where r: "check_violation ?X ?i None (Some 2) () = (Inr r, w)" "sm_status r = SearchSat" "sm_model r \<noteq> []"
    by (auto split: prod.splits sum.splits)
  have sound: "sound_smt (solver_of ?X)" by (rule session_sound) simp
  have keys: "distinct_keys (Some 2) (inv_body ?i)" by (rule distinct_names_keys [OF amount_names])
  have "xlir_typed amount_symbols Map.empty (inv_body ?i) BOOL" by (rule always_typed) simp_all
  from smt_sat_is_a_violation [OF this amount_shape(1) _ amount_shape(2) keys sound r(1,2)] amount_shape(3) [of 5 9]
  obtain ss where "fits (Some 2) ss" "concrete_verdict ?i (Some 2) ss = Inr False"
    "describes (sm_model r) (Some 2) (inv_body ?i) ss" by auto
  with r show ?thesis by (intro exI [of _ r] exI [of _ ss]) (simp add: fits_def concrete_verdict_def)
qed

section \<open>Exhausted queries\<close>

text \<open>
  C10. A bounded-unsat answer of the violation query exhausts the traces of the queried length. It is
  for a compiled (well-typed) invariant that meets four conditions: it has no right shift of an
  int256 operand; its literals are in canonical form (addresses and byte strings padded and in lower case,
  integers in the range of their type; \<open>address_spelling_missed\<close> shows why); the solver constants of
  its symbols have distinct names; a trace length is given and positive, or the invariant has no
  temporal operator. With a sound solver, the result is complete and the evaluator returns true on
  every trace of that length that gives the symbols canonical values of their types and on which every
  subexpression evaluates. The last condition is needed: see \<open>guarded_division_missed\<close>.
\<close>

theorem smt_unsat_exhausts:
  assumes "xlir_typed \<Sigma> Map.empty (inv_body i) BOOL" "no_signed_shr (inv_body i)" "good_literals (inv_body i)"
    and "length_suits (inv_body i) tlen" "distinct_names (digest_of X) tlen (inv_body i)" "sound_smt (solver_of X)"
    and "check_violation X i control tlen w = (Inr r, w')" "sm_status r = SearchBoundedUnsat"
    and "fits tlen ss" "covers tlen (inv_body i) ss" "throughout (inv_body i) tlen ss"
  shows "sm_complete r \<and> concrete_verdict i tlen ss = Inr True"
proof -
  have "query_body i ''violation'' = Inr (inv_body i)" by (simp add: query_body_def)
  from verdict_unsat [OF this assms(1-5) assms(7) [unfolded check_violation_def] assms(6,8-11)]
  show ?thesis using concrete_verdict_evaluated [OF _ assms(9,4)] by simp
qed

definition always_assertions :: "formula list" where
  "always_assertions = (case smt_query (table_session [] []) (always_amount 5 3) ''violation'' (Some 2) of
     Inr (vars, fs) \<Rightarrow> fs | Inl e \<Rightarrow> [])"

lemma always_assertions_eq: "always_assertions =
   [FNot (FAnd (map (\<lambda>p. let a = BvConst (const_name reversing_digest (variable_key (Some 2) p ''amount'' ''post'' ''source'')) 256 in
      FImplies (BvPred (BvGt False) a (BvVal 5 256)) (BvPred (BvGt False) a (BvVal 3 256))) [0, 1]))]"
  by code_simp

lemma always_assertions_unsat: "\<not> all_true J always_assertions"
proof -
  have "5 < x \<longrightarrow> 3 < x" for x :: int by simp
  then show ?thesis unfolding always_assertions_eq Let_def by (simp add: viewed_def)
qed

definition steady_states :: "bindings list" where
  "steady_states = replicate 2 (\<lambda>_. Some (JInt 7))"

theorem smt_unsat_exhausts_witness:
  "\<exists>r. fst (check_violation (table_session [always_assertions] []) (always_amount 5 3) None (Some 2) ()) = Inr r \<and>
     sm_status r = SearchBoundedUnsat \<and> sm_complete r \<and> evaluate_trace (always_amount 5 3) steady_states = Inr True"
proof -
  let ?i = "always_amount 5 3" and ?X = "table_session [always_assertions] []"
  have "case check_violation ?X ?i None (Some 2) () of (Inr r, _) \<Rightarrow> sm_status r = SearchBoundedUnsat | _ \<Rightarrow> False"
    by code_simp
  then obtain r w where r: "check_violation ?X ?i None (Some 2) () = (Inr r, w)" "sm_status r = SearchBoundedUnsat"
    by (auto split: prod.splits sum.splits)
  have sound: "sound_smt (solver_of ?X)" by (rule session_sound) (simp add: always_assertions_unsat)
  have names: "distinct_names (digest_of ?X) (Some 2) (inv_body ?i)"
    using amount_names by (simp add: table_session_def)
  have typed: "xlir_typed amount_symbols Map.empty (inv_body ?i) BOOL" by (rule always_typed) simp_all
  have ss: "fits (Some 2) steady_states" "covers (Some 2) (inv_body ?i) steady_states"
    by (simp_all add: fits_def steady_states_def covers_def always_instances good_value_integer valid_value_UINT256
        eval_nat_numeral)
  have t: "throughout (inv_body ?i) (Some 2) steady_states" by code_simp
  have lits: "good_literals (inv_body ?i)" by (rule amount_shape(3)) simp_all
  from smt_unsat_exhausts [OF typed amount_shape(1) lits amount_shape(2) names sound r ss t] r show ?thesis
    by (intro exI [of _ r]) (simp add: concrete_verdict_def)
qed

section \<open>The antecedent query\<close>

text \<open>The vacuity check's answer from the antecedent query (\<^verbatim>\<open>check_antecedent_smt\<close>).\<close>

definition vacuity_of :: "invariant \<Rightarrow> smt_result \<Rightarrow> vacuity_result" where
  "vacuity_of i r = check_antecedent_smt (\<lambda>_. (sm_status r, sm_complete r, sm_reason r)) i"

lemma antecedent_query:
  assumes "inv_body i = Binary ''implies'' l rhs BOOL" "xlir_typed \<Sigma> Map.empty (inv_body i) BOOL"
  shows "query_body i ''antecedent'' = Inr l" "xlir_typed \<Sigma> Map.empty l BOOL"
proof -
  show "query_body i ''antecedent'' = Inr l" by (simp add: query_body_def assms(1))
  show "xlir_typed \<Sigma> Map.empty l BOOL"
    using assms(2) unfolding assms(1)
    by (cases rule: xlir_typed.cases)
      (auto simp: comparison_binary_def ordering_binary_def arithmetic_binary_def bitwise_binary_def shift_binary_def)
qed

text \<open>
  C11. The vacuity check by the solver is right about the antecedent of a compiled (well-typed)
  implication. The antecedent has to meet four conditions: it has no right shift of an int256 operand;
  its literals are in canonical form (addresses and byte strings padded and in lower case, integers in
  the range of their type); the solver constants of its symbols have distinct names; a trace length is
  given and positive, or it has no temporal operator. With a sound solver: reachable means that the
  evaluator returns true for the antecedent on some trace of the queried length (one state when none
  is given) with canonical values, and bounded unsat that it returns false on every such trace on
  which every subexpression of the antecedent evaluates.
\<close>

theorem smt_vacuity_sound:
  assumes "inv_body i = Binary ''implies'' l rhs BOOL" "xlir_typed \<Sigma> Map.empty (inv_body i) BOOL"
    and "no_signed_shr l" "good_literals l" "length_suits l tlen" "distinct_names (digest_of X) tlen l"
    and "sound_smt (solver_of X)" "smt_check_antecedent X i control tlen w = (Inr r, w')"
  shows "(vac_status (vacuity_of i r) = Reachable \<longrightarrow>
      (\<exists>ss. fits tlen ss \<and> covers tlen l ss \<and> evaluated l tlen ss = Inr (JBool True))) \<and>
    (vac_status (vacuity_of i r) = BoundedUnsat \<longrightarrow>
      (\<forall>ss. fits tlen ss \<and> covers tlen l ss \<and> throughout l tlen ss \<longrightarrow> evaluated l tlen ss = Inr (JBool False)))"
proof -
  from assms(8) have run: "smt_check X i ''antecedent'' control tlen w = (Inr r, w')"
    by (simp add: smt_check_antecedent_def root_implication_def assms(1))
  note q = antecedent_query [OF assms(1,2)]
  have status: "vac_status (vacuity_of i r) = Reachable \<longleftrightarrow> sm_status r = SearchSat"
    "vac_status (vacuity_of i r) = BoundedUnsat \<longleftrightarrow> sm_status r = SearchBoundedUnsat"
    by (simp_all add: vacuity_of_def check_antecedent_smt_def assms(1))
  have "\<exists>ss. fits tlen ss \<and> covers tlen l ss \<and> evaluated l tlen ss = Inr (JBool True)" if "sm_status r = SearchSat"
    using verdict_sat [OF q assms(3-5) distinct_names_keys [OF assms(6)] run assms(7) that] by auto
  moreover have "evaluated l tlen ss = Inr (JBool False)"
    if "sm_status r = SearchBoundedUnsat" "fits tlen ss" "covers tlen l ss" "throughout l tlen ss" for ss
    using verdict_unsat [OF q assms(3-6) run assms(7) that(1-4)] by simp
  ultimately show ?thesis unfolding status by blast
qed

theorem smt_vacuity_sound_witness:
  "\<exists>r ss. fst (smt_check_antecedent (table_session [] [seven_model]) (wrapped (amount_step 5 3)) None None ()) = Inr r \<and>
     vac_status (vacuity_of (wrapped (amount_step 5 3)) r) = Reachable \<and>
     evaluated (amount_above 5) None ss = Inr (JBool True)"
proof -
  let ?i = "wrapped (amount_step 5 3)" and ?X = "table_session [] [seven_model]"
  have "case smt_check_antecedent ?X ?i None None () of (Inr r, _) \<Rightarrow> vac_status (vacuity_of ?i r) = Reachable | _ \<Rightarrow> False"
    by code_simp
  then obtain r w where r: "smt_check_antecedent ?X ?i None None () = (Inr r, w)" "vac_status (vacuity_of ?i r) = Reachable"
    by (auto split: prod.splits sum.splits)
  have sound: "sound_smt (solver_of ?X)" by (rule session_sound) simp
  have body: "inv_body ?i = Binary ''implies'' (amount_above 5) (amount_above 3) BOOL"
    by (simp add: wrapped_def amount_step_def)
  have typed: "xlir_typed amount_symbols Map.empty (inv_body ?i) BOOL" by (simp add: wrapped_def step_typed)
  have "distinct_names (digest_of ?X) None (amount_above 5)"
    by (auto simp: distinct_names_def inj_on_def instances_def amount_above_def)
  from smt_vacuity_sound [OF body typed _ _ _ this sound r(1)] r show ?thesis
    by (fastforce simp: amount_above_def length_suits_def good_value_integer valid_value_UINT256)
qed

section \<open>What the queries do not see\<close>

text \<open>\<open>amount \<noteq> 0 \<and> 10 / amount \<le> 10\<close>.\<close>

definition guarded_division :: invariant where
  "guarded_division = (let a = SymbolRef ''amount'' UINT256 ''source'' ''post''; n = (\<lambda>i. Lit (Literal (JInt i) UINT256)) in
     wrapped (Binary ''and'' (Binary ''neq'' a (n 0) BOOL)
       (Binary ''le'' (Binary ''div'' (n 10) a UINT256) (n 10) BOOL) BOOL))"

definition guarded_assertions :: "formula list" where
  "guarded_assertions = (case smt_query (table_session [] []) guarded_division ''violation'' None of
     Inr (vars, fs) \<Rightarrow> fs | Inl e \<Rightarrow> [])"

text \<open>
  The evaluator stops at the false guard and reports the violation at amount 0; the query asserts that
  the divisor is not zero for the whole formula, so no assignment satisfies it, and a sound solver's
  unsat becomes a complete bounded-unsat result.
\<close>

theorem guarded_division_missed:
  "(\<forall>J. \<not> all_true J guarded_assertions) \<and> sound_smt (solver_of (table_session [guarded_assertions] [])) \<and>
   (\<exists>r. fst (check_violation (table_session [guarded_assertions] []) guarded_division None None ()) = Inr r \<and>
      sm_status r = SearchBoundedUnsat \<and> sm_complete r) \<and>
   evaluate_invariant guarded_division (\<lambda>_. Some (JInt 0)) = Inr False"
proof -
  define a where "a = BvConst (const_name reversing_digest (variable_key None 0 ''amount'' ''post'' ''source'')) 256"
  have eq: "guarded_assertions = [BvPred BvDistinct a (BvVal 0 256),
     FNot (FAnd [BvPred BvDistinct a (BvVal 0 256),
       BvPred (BvLe False) (BvApp BvUDiv (BvVal 10 256) a) (BvVal 10 256)])]"
    unfolding a_def by code_simp
  have unsat: "\<not> all_true J guarded_assertions" for J
  proof -
    have "0 \<le> bits_value J a" by (simp add: a_def)
    then have "10 div bits_value J a \<le> 10" if "bits_value J a \<noteq> 0"
      using zdiv_mono2 [of 10 1 "bits_value J a"] that by simp
    then show ?thesis unfolding eq by (auto simp: viewed_def a_def)
  qed
  have "case check_violation (table_session [guarded_assertions] []) guarded_division None None () of
      (Inr r, _) \<Rightarrow> sm_status r = SearchBoundedUnsat \<and> sm_complete r | _ \<Rightarrow> False"
    by code_simp
  then have run: "\<exists>r. fst (check_violation (table_session [guarded_assertions] []) guarded_division None None ()) = Inr r \<and>
      sm_status r = SearchBoundedUnsat \<and> sm_complete r"
    by (auto split: prod.splits sum.splits)
  have "evaluate_invariant guarded_division (\<lambda>_. Some (JInt 0)) = Inr False" by code_simp
  with unsat run session_sound [of "[guarded_assertions]" "[]"] show ?thesis by auto
qed

lemma hex_digits_repeated:
  "hex_digit c = Some d \<Longrightarrow> c \<noteq> CHR ''_'' \<Longrightarrow> hex_digits True acc (replicate n c) = Some (((\<lambda>a. 16 * a + d) ^^ n) acc)"
  by (induction n arbitrary: acc) (simp_all add: funpow_Suc_right del: funpow.simps(2))

lemma repeated_address:
  assumes "hex_digit c = Some d" "c \<noteq> CHR ''_''"
  shows "py_int16 (''0x'' @ replicate (Suc n) c) = Some (int (((\<lambda>a. 16 * a + d) ^^ n) d))"
  using hex_digits_repeated [OF assms, of d n] assms
  by (simp add: py_int16_def c_isspace_def)

lemma repeated_address_valid:
  assumes "hex_digit c = Some d" "c \<noteq> CHR ''_''" "\<not> c_isspace c" "c \<notin> {CHR ''+'', CHR ''-'', CHR ''x'', CHR ''X''}"
  shows "valid_value (JStr (''0x'' @ replicate 40 c)) ADDRESS"
proof -
  have "hex_digits False 0 (c # c # replicate 38 c) = Some (((\<lambda>a. 16 * a + d) ^^ 38) (16 * d + d))"
    using hex_digits_repeated [OF assms(1,2)] assms(1,2) by simp
  then have "py_int16 (c # c # replicate 38 c) \<noteq> None"
    using assms(3,4) by (simp add: py_int16_def)
  moreover have "replicate 40 c = c # c # replicate 38 c" by (simp add: numeral_eq_Suc)
  ultimately show ?thesis by (simp add: valid_value_def is_hex_literal_def)
qed

text \<open>
  Two spellings of one address: the evaluator compares the strings, the solver the numbers. The
  compiler accepts both spellings.
\<close>

definition address_spellings :: invariant where
  "address_spellings = (let n = (\<lambda>c. Lit (Literal (JStr (''0x'' @ replicate 40 c)) ADDRESS)) in
     wrapped (Binary ''eq'' (n CHR ''a'') (n CHR ''A'') BOOL))"

definition spelling_assertions :: "formula list" where
  "spelling_assertions = (case smt_query (table_session [] []) address_spellings ''violation'' None of
     Inr (vars, fs) \<Rightarrow> fs | Inl e \<Rightarrow> [])"

theorem address_spelling_missed:
  "spelling_assertions \<noteq> [] \<and> (\<forall>J. \<not> all_true J spelling_assertions) \<and>
   xlir_typed amount_symbols Map.empty (inv_body address_spellings) BOOL \<and>
   evaluate_invariant address_spellings (\<lambda>_. None) = Inr False"
proof -
  have a: "hex_digit CHR ''a'' = Some 10" "hex_digit CHR ''A'' = Some 10" by code_simp+
  define i where "i = int (((\<lambda>a. 16 * a + 10) ^^ 39) 10 :: nat)"
  have read: "py_int16 (''0x'' @ replicate 40 CHR ''a'') = Some i" "py_int16 (''0x'' @ replicate 40 CHR ''A'') = Some i"
    using repeated_address [OF a(1), of 39] repeated_address [OF a(2), of 39] by (simp_all only: i_def) simp_all
  have eq: "spelling_assertions = [FNot (BvPred BvEq (BvVal i 160) (BvVal i 160))]"
    using read
    by (simp add: spelling_assertions_def smt_query_def query_body_def address_spellings_def wrapped_def Let_def
        translate_literal_def keep_state_def translate_binary_def known_binary_def compare_bits_def sort_width_def)
  have "spelling_assertions \<noteq> [] \<and> (\<forall>J. \<not> all_true J spelling_assertions)"
    unfolding eq by simp
  moreover have valid: "valid_value (JStr (''0x'' @ replicate 40 CHR ''a'')) ADDRESS"
    "valid_value (JStr (''0x'' @ replicate 40 CHR ''A'')) ADDRESS"
    by (rule repeated_address_valid [OF a(1)], simp_all add: c_isspace_def)
      (rule repeated_address_valid [OF a(2), simplified], simp_all add: c_isspace_def)
  moreover have "evaluate_invariant address_spellings (\<lambda>_. None) = Inr False"
    using valid
    by (simp add: evaluate_invariant_def evaluate_expression_def address_spellings_def wrapped_def Let_def
        validate_value_def eval_binary_def comparison_binary_def eval_comparison_def py_eq_def require_bool_def
        numeral_eq_Suc)
  moreover from valid have "xlir_typed amount_symbols Map.empty (inv_body address_spellings) BOOL"
    by (auto simp: address_spellings_def wrapped_def comparison_binary_def Let_def
        intro!: xlir_typed.comparison [where t = ADDRESS] xlir_typed.lit)
  ultimately show ?thesis by blast
qed

end
