(* ===== verification/Spec2Isabelle.thy ===== *)
theory Spec2Isabelle
  imports Xlir_Properties Paired_Properties Runtime_Properties Adjudication_Properties Method_Properties
    Provider_Properties Replay_Properties Metrics_Properties Analysis_Properties Analysis_Inference_Properties
    Analysis_Agreement_Properties Runtime_Resource_Properties
    Symbolic_Properties Smt_Properties
begin

text \<open>
  Verification library for CrossLLM (\<^verbatim>\<open>src/src/crossllm\<close>): a pipeline that takes an invariant
  proposed by a language model, compiles it to a typed expression over declared contract symbols
  (XLIR), evaluates it, lowers it or queries a solver with it, searches the schedules of a two-chain
  fixture for a violation, replays the witness, records the campaign's events, adjudicates the
  findings and computes the statistics reported about them.

  Parts, theories and sources. A theory named \<open>..._Properties\<close> states the results of its part.

  \<^item> \<open>Prelude\<close>, \<open>Json\<close>: results of code that may raise (\<open>'e + 'a\<close>), dictionaries in insertion
    order, JSON values, \<^verbatim>\<open>str.strip\<close> and \<^verbatim>\<open>int(s, 16)\<close>. \<open>Canonical_Json\<close> (\<^verbatim>\<open>contracts/canonical.py\<close>):
    the hashed text of a value, and that it determines the value up to the order of keys.
  \<^item> \<open>Xlir_Model\<close> (\<^verbatim>\<open>xlir/model.py\<close>), \<open>Xlir_Primitives\<close> (\<^verbatim>\<open>xlir/primitives.py\<close>), \<open>Xlir_Compiler\<close>
    (\<^verbatim>\<open>xlir/compiler.py\<close>; its mutable fields are the state \<open>cstate\<close>), \<open>Xlir_Evaluator\<close>
    (\<^verbatim>\<open>xlir/evaluator.py\<close>, dynamically typed as the source is), \<open>Xlir_Legitimacy\<close>, \<open>Xlir_Vacuity\<close>,
    \<open>Xlir_Lowering\<close> (the modules of the same names). \<open>Xlir_Typing\<close> has the typing judgement, the
    compiler's soundness and completeness; \<open>Xlir_Safety\<close> the evaluator's safety; \<open>Xlir_Pipeline\<close>
    composes them for a compiled invariant.
  \<^item> \<open>Solver_Control\<close> (\<^verbatim>\<open>backends/solver_control.py\<close>): the cancellation bridge both solver back ends
    use. \<open>Smt_Encoding\<close> (the syntax and documented meaning of the bit-vector terms, and
    \<^verbatim>\<open>_translate\<close> of \<^verbatim>\<open>backends/smt.py\<close>), \<open>Smt_Operators\<close> (each operator and its overflow constraints
    against the evaluator's), \<open>Smt_Meaning\<close> (the same for expressions, by induction on the typing
    judgement), \<open>Smt_Search\<close> (the queries, and what their verdicts mean), \<open>Smt_Properties\<close>.
  \<^item> \<open>Contracts_Records\<close> (\<^verbatim>\<open>contracts/records.py\<close>, \<^verbatim>\<open>contracts/status_mapping.py\<close>) and
    \<open>Contracts_Streams\<close>, what a valid event stream is.
  \<^item> \<open>Paired_Model\<close>, \<open>Paired_Operations\<close> (\<^verbatim>\<open>semantics/paired.py\<close>: state as records, one definition
    per method, a method that mutates returns the new fixture), \<open>Paired_Invariants\<close> (step relation,
    reachability, state invariant), \<open>Paired_Explorer\<close> (\<^verbatim>\<open>backends/paired_explorer.py\<close>),
    \<open>Paired_Search\<close> (meaning of its verdicts), \<open>Replay_Witness\<close> (\<^verbatim>\<open>replay/witness.py\<close>).
  \<^item> \<open>Symbolic_Encoding\<close> (\<^verbatim>\<open>backends/symbolic_paired.py\<close>: the schedules as solver expressions, with
    decoding and replay), \<open>Symbolic_Relations\<close> and \<open>Symbolic_Exact\<close> (one step of the encoding is one
    operation of the fixture), \<open>Symbolic_Runs\<close> (models are runs), \<open>Symbolic_Search\<close> (the loop),
    \<open>Symbolic_Verdicts\<close> and \<open>Symbolic_Decisive\<close> (what it reports, and that it ends with an answer).
  \<^item> \<open>Replay_Evaluator\<close> (\<^verbatim>\<open>replay/assessment.py\<close>, \<^verbatim>\<open>replay/evaluator.py\<close>): the verdict on a witness, and
    the evaluation of a property on what a replay observed.
  \<^item> \<open>Runtime_Events\<close> (\<^verbatim>\<open>runtime/events.py\<close>: stores and campaign state machine), \<open>Runtime_Lifecycle\<close>
    (runs of the machine over a store), \<open>Runtime_Method_Events\<close> (\<^verbatim>\<open>runtime/method_events.py\<close>);
    \<open>Runtime_Resources\<close> (\<^verbatim>\<open>runtime/resources.py\<close>) and \<open>Runtime_Scheduler\<close> (the scheduler's invariant,
    and when a queued campaign has room).
  \<^item> \<open>Adjudication_Ledger\<close>, \<open>Adjudication_Export\<close> (\<^verbatim>\<open>adjudication/ledger.py\<close>),
    \<open>Adjudication_RoundTrip\<close> (ledger invariant, export and import).
  \<^item> \<open>Provider_Bytes\<close>, \<open>Provider_Response\<close>, \<open>Provider_Client\<close>, \<open>Provider_Archive\<close>
    (\<^verbatim>\<open>providers/ollama.py\<close>: base64, responses with their evidence, the retrying client, archive and fake
    server), \<open>Provider_Runs\<close> (what a call does in any environment).
  \<^item> \<open>Method_Proposal\<close> (\<^verbatim>\<open>methods/proposal.py\<close>: prompt, slots, candidate identity), \<open>Method_Runner\<close>
    (\<^verbatim>\<open>methods/runner.py\<close>, \<^verbatim>\<open>providers/budget.py\<close>, \<^verbatim>\<open>providers/tokenizer.py\<close>: the slot loop),
    \<open>Method_Slots\<close> (the loop's invariant), \<open>Method_T0\<close> (\<^verbatim>\<open>methods/t0.py\<close>), \<open>Method_Templates\<close> (its
    candidates compile).
  \<^item> \<open>Verification_Records\<close> (\<^verbatim>\<open>verification/records.py\<close>, \<^verbatim>\<open>verification/inputs.py\<close>),
    \<open>Verification_Bindings\<close> (binding records of \<^verbatim>\<open>verification/runtime.py\<close>, \<^verbatim>\<open>verification/cache.py\<close>),
    \<open>Verification_Adapter\<close> (\<^verbatim>\<open>verification/adapter.py\<close>: it calls the compiler and the lowering),
    \<open>Verification_Pipeline\<close> (\<^verbatim>\<open>verification/pipeline.py\<close>, \<^verbatim>\<open>verification/runner.py\<close>),
    \<open>Verification_Outcomes\<close> (shape of an outcome, the evidence its stages supply, what a ready plan has
    established, the cache invariant), \<open>Verification_Campaigns\<close> and \<open>Verification_Metrics\<close> (\<^verbatim>\<open>verification/metrics.py\<close>).
  \<^item> \<open>Analysis_Recall\<close> (\<^verbatim>\<open>analysis/proposal_recall.py\<close>), \<open>Analysis_Estimands\<close>
    (\<^verbatim>\<open>analysis/estimands.py\<close>), \<open>Analysis_Inference\<close> (\<^verbatim>\<open>analysis/inference.py\<close>,
    \<^verbatim>\<open>analysis/reporting.py\<close>), \<open>Analysis_Agreement\<close> (\<^verbatim>\<open>analysis/agreement.py\<close>,
    \<^verbatim>\<open>analysis/sampling.py\<close>).

  How the parts compose. A compiled expression has the typing judgement, so its evaluation raises
  nothing but an EvaluationError, and its translation reaches none of the library's undocumented
  sorts; a model of the translation is a trace on which the evaluator agrees. The explicit and the
  symbolic search visit the same runs of one fixture, so their verdicts agree. The state machine and
  the method events write through the same contract of an event store. The verification pipeline
  calls the compiler, the lowering and the cache, and its records feed the metrics and estimands.

  Interfaces. The locale \<open>enumeration\<close> is the contract of a Python string enumeration,
  interpreted on each status type; \<open>sink_contract\<close> is what the state machine needs of an event
  store, interpreted on the in-memory and the persistent store; \<open>bounded_system\<close> and \<open>worklist\<close>
  carry the argument for a worklist search, interpreted on the explorer.

  Parameters. \<open>sha\<close> is the SHA-256 digest of a value's canonical JSON, \<open>shab\<close> that of bytes; a
  result that needs distinct digests for distinct states says so as a hypothesis. Clocks,
  cancellation, the sender of a request, the sleeper and the solver act on an outside world \<open>'w\<close>.
  The violation predicate, new identifiers, timestamps, the outcome of each file write, \<^verbatim>\<open>json.loads\<close>
  (\<open>read\<close>), the text of a float, Python's \<^verbatim>\<open>str\<close> and \<^verbatim>\<open>repr\<close>, the token encoder, the candidate parser
  and the draws of \<^verbatim>\<open>random.Random\<close> (\<open>choices\<close>, \<open>sample\<close>) are arguments too. A solver is sound when
  its models satisfy the assertions and unsat means that there is none; nothing else is assumed.

  Numbers. Python integers are \<open>int\<close>; uint256 and int256 are integers with the source's own range
  checks written out, and bit vectors of the solver are integers below \<open>2 ^ n\<close>. The core seconds of
  the resource scheduler are finite floats, and the rounding \<open>rd\<close> of each addition is an argument (one
  defect is shown with binary64). Other seconds, shares and effects are exact rationals where the
  code has finite floats, so rounding is not modelled there.

  Termination. Recursion ends by the weight of the JSON payload (compiler), by the structure
  (evaluator, lowering, translation), by the state limit and then the length of the queue
  (explorer), by the number of models allowed (symbolic search), and by the list of slots or stages
  (method run, verification), so no fuel is used. The client's back-off loop may run for ever on a
  clock that stands still: it is a partial function whose value \<open>None\<close> is not returning, and it is
  shown to return when the clock is steady.

  Not modelled, with the reason. Free-text messages where only their code matters (a diagnostic keeps
  path and code). The JSON text of an event line or a cache file, file writers, and the loading of
  archives and case artifacts: input and output around values that are modelled. Locks: every method
  that takes one holds it throughout. The solver itself and the replay engines on EVM toolchains:
  other programs. Campaign orchestration, isolation, calibration runs, model locks and preflight
  checks: processes, files and network calls. Tables and figures, the builder of Solidity artifacts,
  the baselines' external tools, the command line, scripts and data preparation: formatting and glue.
\<close>

section \<open>The status dimensions\<close>

text \<open>
  The four status dimensions travel independently: a serialized record always passes its
  validator, and each dimension is read back from it as it was, so two records are equal only
  if all four statuses are.
\<close>

theorem statuses_roundtrip:
  "validate_statuses (serialize_statuses c s r a) = [] \<and>
   campaign_status_of (jget (serialize_statuses c s r a) ''campaign_status'') = Some c \<and>
   search_status_of (jget (serialize_statuses c s r a) ''search_status'') = s \<and>
   replay_status_of (jget (serialize_statuses c s r a) ''replay_status'') = r \<and>
   adjudication_status_of (jget (serialize_statuses c s r a) ''adjudication_status'') = a"
  by (simp add: validate_serialized serialized_fields)

end
